(* ===== verification/Prelude.thy ===== *)
theory Prelude
  imports Main "HOL-Library.Word" "HOL-Library.Char_ord" "HOL-Library.List_Lexorder"
    "HOL-Library.Multiset"
begin

text \<open>
  Shared vocabulary of the development: the collections of rewrite rules the component
  proofs use, phantom-typed identifiers, ordered maps (the \<^verbatim>\<open>std::map\<close> of the
  in-memory repositories) with their interface as a locale, sorted duplicate-free vectors,
  and two generic contracts: a guarded machine that keeps an invariant over every sequence
  of calls, and stores whose keys have a budget of uses, in particular single-use stores.
\<close>

named_theorems store_simps \<open>membership test and lookup after a guarded insertion\<close>

text \<open>Bytes, and the time points and durations of the injected clock, in milliseconds.\<close>

type_synonym byte = "8 word"
type_synonym Instant = int
type_synonym Duration = int

section \<open>Phantom-typed identifiers\<close>

text \<open>
  \<^verbatim>\<open>StrongId<Tag>\<close> of \<^verbatim>\<open>src/src/foundation/id.cppm\<close>: a string whose tag type keeps
  identifiers of different domains apart. Its order is the byte order of the string.
\<close>

datatype (dead 'tag) StrongId = StrongId (id_value: string)

definition StrongId_empty :: "'tag StrongId \<Rightarrow> bool" where
  "StrongId_empty i = (id_value i = [])"

lemma StrongId_empty_simp [simp]: "StrongId_empty (StrongId s) = (s = [])"
  by (simp add: StrongId_empty_def)

lemma id_value_inj [simp]: "id_value a = id_value b \<longleftrightarrow> a = b"
  by (cases a; cases b) simp

instantiation StrongId :: (type) linorder
begin

definition less_eq_StrongId :: "'a StrongId \<Rightarrow> 'a StrongId \<Rightarrow> bool" where
  "less_eq_StrongId a b = (id_value a \<le> id_value b)"

definition less_StrongId :: "'a StrongId \<Rightarrow> 'a StrongId \<Rightarrow> bool" where
  "less_StrongId a b = (id_value a < id_value b)"

instance
  by standard
    (auto simp: less_eq_StrongId_def less_StrongId_def StrongId.expand less_le_not_le)

end

lemma StrongId_less_iff [simp]:
  "(StrongId a < StrongId b) = (a < b)" "(StrongId a \<le> StrongId b) = (a \<le> b)"
  by (simp_all add: less_StrongId_def less_eq_StrongId_def)

section \<open>Ordered maps\<close>

text \<open>
  A \<^verbatim>\<open>std::map\<close> is the list of its entries in key order, which is the order its
  iterators run in. \<open>find\<close> is \<^const>\<open>map_of\<close>; \<open>emplace\<close> leaves an entry that is there alone;
  assignment through an iterator is \<open>omap_modify\<close>; \<open>erase\<close> drops the entry of a key.
\<close>

type_synonym ('k, 'v) omap = "('k \<times> 'v) list"

fun omap_emplace :: "'k::linorder \<Rightarrow> 'v \<Rightarrow> ('k, 'v) omap \<Rightarrow> ('k, 'v) omap" where
  "omap_emplace k v [] = [(k, v)]"
| "omap_emplace k v ((k', v') # m) =
     (if k < k' then (k, v) # (k', v') # m
      else if k = k' then (k', v') # m
      else (k', v') # omap_emplace k v m)"

fun omap_modify :: "'k \<Rightarrow> ('v \<Rightarrow> 'v) \<Rightarrow> ('k, 'v) omap \<Rightarrow> ('k, 'v) omap" where
  "omap_modify k f [] = []"
| "omap_modify k f ((k', v) # m) =
     (if k' = k then (k', f v) # m else (k', v) # omap_modify k f m)"

fun omap_erase :: "'k \<Rightarrow> ('k, 'v) omap \<Rightarrow> ('k, 'v) omap" where
  "omap_erase k [] = []"
| "omap_erase k ((k', v) # m) = (if k' = k then m else (k', v) # omap_erase k m)"

definition omap_contains :: "('k, 'v) omap \<Rightarrow> 'k \<Rightarrow> bool" where
  "omap_contains m k = (map_of m k \<noteq> None)"

definition omap_insert_or_assign :: "'k::linorder \<Rightarrow> 'v \<Rightarrow> ('k, 'v) omap \<Rightarrow> ('k, 'v) omap" where
  "omap_insert_or_assign k v m =
     (if omap_contains m k then omap_modify k (\<lambda>_. v) m else omap_emplace k v m)"

text \<open>A pass over all entries that may replace each value (\<^verbatim>\<open>for (auto& [k, v] : m)\<close>).\<close>

definition omap_map_values :: "('v \<Rightarrow> 'v) \<Rightarrow> ('k, 'v) omap \<Rightarrow> ('k, 'v) omap" where
  "omap_map_values f m = map (\<lambda>(k, v). (k, f v)) m"

definition omap_ok :: "('k::linorder, 'v) omap \<Rightarrow> bool" where
  "omap_ok m = sorted_wrt (<) (map fst m)"

lemma omap_ok_Nil [simp]: "omap_ok []"
  by (simp add: omap_ok_def)

lemma omap_ok_Cons [simp]:
  "omap_ok ((k, v) # m) = ((\<forall>x \<in> fst ` set m. k < x) \<and> omap_ok m)"
  by (auto simp: omap_ok_def)

lemma omap_ok_absent: "\<forall>x \<in> fst ` set m. k < x \<Longrightarrow> map_of m (k::'k::linorder) = None"
  by (fastforce simp: map_of_eq_None_iff)

lemma keys_emplace: "fst ` set (omap_emplace k v m) = insert k (fst ` set m)"
  by (induction k v m rule: omap_emplace.induct) auto

lemma keys_modify [simp]: "fst ` set (omap_modify k f m) = fst ` set m"
  by (induction k f m rule: omap_modify.induct) auto

lemma map_fst_modify [simp]: "map fst (omap_modify k f m) = map fst m"
  by (induction k f m rule: omap_modify.induct) auto

lemma keys_erase_subset: "fst ` set (omap_erase k m) \<subseteq> fst ` set m"
  by (induction k m rule: omap_erase.induct) auto

lemma omap_ok_emplace: "omap_ok m \<Longrightarrow> omap_ok (omap_emplace k v m)"
proof (induction k v m rule: omap_emplace.induct)
  case (2 k v k' v' m)
  then show ?case
    by (auto simp: keys_emplace intro: less_trans)
qed simp

lemma omap_ok_modify [simp]: "omap_ok (omap_modify k f m) = omap_ok m"
  by (simp add: omap_ok_def)

lemma omap_ok_erase: "omap_ok m \<Longrightarrow> omap_ok (omap_erase k m)"
  by (induction k m rule: omap_erase.induct) (use keys_erase_subset in fastforce)+

lemma omap_ok_map_values [simp]: "omap_ok (omap_map_values f m) = omap_ok m"
  by (simp add: omap_ok_def omap_map_values_def case_prod_unfold comp_def)

lemma omap_map_values_simps [simp]:
  "omap_map_values f [] = []"
  "omap_map_values f ((k, v) # m) = (k, f v) # omap_map_values f m"
  by (simp_all add: omap_map_values_def)

lemma omap_ok_filter: "omap_ok m \<Longrightarrow> omap_ok (filter P m)"
  by (induction m) auto

lemma map_of_emplace:
  "map_of (omap_emplace k v m) =
     (case map_of m k of None \<Rightarrow> (map_of m)(k \<mapsto> v) | Some _ \<Rightarrow> map_of m)" if "omap_ok m"
  using that
proof (induction k v m rule: omap_emplace.induct)
  case (2 k v k' v' m)
  have "map_of m k = None" if "k < k'"
    using 2 that by (intro omap_ok_absent) (auto intro: less_trans)
  then show ?case
    using 2 by (auto split: option.splits simp: fun_eq_iff)
qed simp

lemma map_of_modify:
  "map_of (omap_modify k f m) = (map_of m)(k := map_option f (map_of m k))"
  by (induction k f m rule: omap_modify.induct) auto

lemma map_of_erase: "map_of (omap_erase k m) = (map_of m)(k := None)" if "omap_ok m"
  using that
  by (induction k m rule: omap_erase.induct) (auto simp: fun_eq_iff omap_ok_absent)

lemma map_of_map_values: "map_of (omap_map_values f m) k = map_option f (map_of m k)"
  by (induction m) (auto simp: omap_map_values_def)

lemma omap_ok_insert_or_assign [simp]: "omap_ok m \<Longrightarrow> omap_ok (omap_insert_or_assign k v m)"
  by (simp add: omap_insert_or_assign_def omap_ok_emplace)

lemma map_of_insert_or_assign:
  "omap_ok m \<Longrightarrow> map_of (omap_insert_or_assign k v m) = (map_of m)(k \<mapsto> v)"
  by (auto simp: omap_insert_or_assign_def omap_contains_def map_of_modify map_of_emplace)

lemma map_of_filter_values:
  "map_of (filter (\<lambda>(k, v). P v) m) k =
     (case map_of m k of None \<Rightarrow> None | Some v \<Rightarrow> if P v then Some v else None)"
  if "omap_ok m"
  using that
proof (induction m)
  case (Cons a m)
  obtain k' v where a: "a = (k', v)" by fastforce
  have "map_of m k' = None"
    using Cons.prems by (intro omap_ok_absent) (simp add: a)
  with Cons show ?case by (auto simp: a split: option.splits)
qed simp

lemma omap_entry: "omap_ok m \<Longrightarrow> (k, v) \<in> set m \<longleftrightarrow> map_of m k = Some v"
  by (rule map_of_eq_Some_iff [symmetric]) (simp add: omap_ok_def strict_sorted_iff)

text \<open>The values of a map whose entries are filed under a key they carry.\<close>

lemma omap_values:
  assumes "omap_ok m" "\<And>k v. map_of m k = Some v \<Longrightarrow> f v = k"
  shows "v \<in> snd ` set m \<longleftrightarrow> map_of m (f v) = Some v" and "distinct (map snd m)"
proof -
  have key: "f v = k" if "(k, v) \<in> set m" for k v
    using that assms by (simp add: omap_entry)
  show "v \<in> snd ` set m \<longleftrightarrow> map_of m (f v) = Some v"
  proof
    assume "v \<in> snd ` set m"
    then obtain k where "(k, v) \<in> set m" by auto
    then show "map_of m (f v) = Some v"
      using key assms(1) by (simp add: omap_entry)
  next
    assume "map_of m (f v) = Some v"
    then show "v \<in> snd ` set m"
      by (force dest: map_of_SomeD)
  qed
  have keys: "map f (map snd m) = map fst m"
    using key by auto
  have "distinct (map f (map snd m))"
    using assms(1) unfolding keys by (simp add: omap_ok_def strict_sorted_iff)
  then show "distinct (map snd m)"
    by (simp only: distinct_map)
qed

lemma omap_ball:
  "omap_ok m \<Longrightarrow> (\<forall>(k, v) \<in> set m. P k v) \<longleftrightarrow> (\<forall>k v. map_of m k = Some v \<longrightarrow> P k v)"
  by (auto simp flip: omap_entry)

text \<open>
  The contract of an ordered map its clients rely on, over an abstraction to a partial
  function. The client lemmas are proved from the contract alone.
\<close>

locale ordered_map =
  fixes find :: "'m \<Rightarrow> 'k \<Rightarrow> 'v option"
    and emplace :: "'k \<Rightarrow> 'v \<Rightarrow> 'm \<Rightarrow> 'm"
    and modify :: "'k \<Rightarrow> ('v \<Rightarrow> 'v) \<Rightarrow> 'm \<Rightarrow> 'm"
    and erase :: "'k \<Rightarrow> 'm \<Rightarrow> 'm"
    and ok :: "'m \<Rightarrow> bool"
  assumes find_emplace: "ok m \<Longrightarrow> find (emplace k v m) =
      (case find m k of None \<Rightarrow> (find m)(k \<mapsto> v) | Some _ \<Rightarrow> find m)"
    and find_modify: "find (modify k f m) = (find m)(k := map_option f (find m k))"
    and find_erase: "ok m \<Longrightarrow> find (erase k m) = (find m)(k := None)"
    and ok_emplace: "ok m \<Longrightarrow> ok (emplace k v m)"
    and ok_modify: "ok m \<Longrightarrow> ok (modify k f m)"
    and ok_erase: "ok m \<Longrightarrow> ok (erase k m)"
begin

lemma find_emplace_new: "ok m \<Longrightarrow> find m k = None \<Longrightarrow> find (emplace k v m) = (find m)(k \<mapsto> v)"
  by (simp add: find_emplace)

lemma find_emplace_other: "ok m \<Longrightarrow> k' \<noteq> k \<Longrightarrow> find (emplace k v m) k' = find m k'"
  by (simp add: find_emplace split: option.split)

lemma find_modify_same: "find m k = Some v \<Longrightarrow> find (modify k f m) k = Some (f v)"
  by (simp add: find_modify)

lemma find_modify_other: "k' \<noteq> k \<Longrightarrow> find (modify k f m) k' = find m k'"
  by (simp add: find_modify)

lemma find_erase_same: "ok m \<Longrightarrow> find (erase k m) k = None"
  by (simp add: find_erase)

lemma erase_emplace: "ok m \<Longrightarrow> find m k = None \<Longrightarrow> find (erase k (emplace k v m)) = find m"
  by (simp add: find_erase ok_emplace find_emplace_new fun_upd_idem)

lemma dom_modify: "dom (find (modify k f m)) = dom (find m)"
  by (auto simp: find_modify split: if_splits)

end

interpretation om: ordered_map map_of omap_emplace omap_modify omap_erase omap_ok
  by unfold_locales
    (simp_all add: map_of_emplace map_of_modify map_of_erase omap_ok_emplace omap_ok_erase)

declare omap_contains_def [store_simps] om.find_emplace_new [store_simps]

section \<open>Secondary indexes\<close>

text \<open>
  A repository that finds its values through a second key keeps a map from that key to the
  primary one. The index is exact when each map describes the other.
\<close>

definition exact_index :: "('v \<Rightarrow> 'd) \<Rightarrow> ('k \<rightharpoonup> 'v) \<Rightarrow> ('d \<rightharpoonup> 'k) \<Rightarrow> bool" where
  "exact_index f S T \<longleftrightarrow>
     (\<forall>k v. S k = Some v \<longrightarrow> T (f v) = Some k)
     \<and> (\<forall>d k. T d = Some k \<longrightarrow> (\<exists>v. S k = Some v \<and> f v = d))"

lemma exact_index_lookup: "exact_index f S T \<Longrightarrow> S k = Some v \<Longrightarrow> T (f v) = Some k"
  by (simp add: exact_index_def)

lemma exact_index_target: "exact_index f S T \<Longrightarrow> T d = Some k \<Longrightarrow> \<exists>v. S k = Some v \<and> f v = d"
  by (simp add: exact_index_def)

lemma exact_index_unique:
  "exact_index f S T \<Longrightarrow> S k = Some v \<Longrightarrow> S k' = Some v' \<Longrightarrow> f v = f v' \<Longrightarrow> k = k'"
  by (metis exact_index_lookup option.inject)

lemma exact_index_empty [simp]: "exact_index f Map.empty Map.empty"
  by (simp add: exact_index_def)

lemma exact_indexI:
  assumes "\<And>k v. S k = Some v \<Longrightarrow> T (f v) = Some k"
    and "\<And>d k. T d = Some k \<Longrightarrow> \<exists>v. S k = Some v \<and> f v = d"
  shows "exact_index f S T"
  using assms by (simp add: exact_index_def)

lemma exact_index_add:
  assumes "exact_index f S T" "S k = None" "T (f v) = None"
  shows "exact_index f (S(k \<mapsto> v)) (T(f v \<mapsto> k))"
proof (rule exact_indexI)
  fix k1 v1 assume "(S(k \<mapsto> v)) k1 = Some v1"
  then show "(T(f v \<mapsto> k)) (f v1) = Some k1"
    using assms(2,3) exact_index_lookup [OF assms(1), of k1 v1] by (auto split: if_splits)
next
  fix d k1 assume "(T(f v \<mapsto> k)) d = Some k1"
  then show "\<exists>v1. (S(k \<mapsto> v)) k1 = Some v1 \<and> f v1 = d"
    using assms(2) exact_index_target [OF assms(1), of d k1] by (auto split: if_splits)
qed

lemma exact_index_update:
  assumes "exact_index f S T" "S k = Some v" "f v' = f v"
  shows "exact_index f (S(k \<mapsto> v')) T"
proof (rule exact_indexI)
  fix k1 v1 assume "(S(k \<mapsto> v')) k1 = Some v1"
  then show "T (f v1) = Some k1"
    using assms(3) exact_index_lookup [OF assms(1,2)] exact_index_lookup [OF assms(1), of k1 v1]
    by (auto split: if_splits)
next
  fix d k1 assume "T d = Some k1"
  then show "\<exists>v1. (S(k \<mapsto> v')) k1 = Some v1 \<and> f v1 = d"
    using assms(2,3) exact_index_target [OF assms(1), of d k1] by auto
qed

lemma exact_index_rekey:
  assumes "exact_index f S T" "S k = Some v" "T (f v') = None"
  shows "exact_index f (S(k \<mapsto> v')) (T(f v := None, f v' \<mapsto> k))"
proof (rule exact_indexI)
  fix k1 v1 assume "(S(k \<mapsto> v')) k1 = Some v1"
  then show "(T(f v := None, f v' \<mapsto> k)) (f v1) = Some k1"
    using assms(2-) exact_index_unique [OF assms(1,2), of k1 v1]
      exact_index_lookup [OF assms(1), of k1 v1]
    by (auto split: if_splits)
next
  fix d k1 assume "(T(f v := None, f v' \<mapsto> k)) d = Some k1"
  then show "\<exists>v1. (S(k \<mapsto> v')) k1 = Some v1 \<and> f v1 = d"
    using assms(2-) exact_index_target [OF assms(1), of d k1] by (auto split: if_splits)
qed

lemma exact_index_remove:
  assumes "exact_index f S T" "S k = Some v"
  shows "exact_index f (S(k := None)) (T(f v := None))"
proof (rule exact_indexI)
  fix k1 v1 assume "(S(k := None)) k1 = Some v1"
  then show "(T(f v := None)) (f v1) = Some k1"
    using assms(2-) exact_index_unique [OF assms(1,2), of k1 v1]
      exact_index_lookup [OF assms(1), of k1 v1]
    by (auto split: if_splits)
next
  fix d k1 assume "(T(f v := None)) d = Some k1"
  then show "\<exists>v1. (S(k := None)) k1 = Some v1 \<and> f v1 = d"
    using assms(2-) exact_index_target [OF assms(1), of d k1] by (auto split: if_splits)
qed

lemma exact_index_map:
  "exact_index f S T \<Longrightarrow> (\<And>v. f (g v) = f v) \<Longrightarrow> exact_index f (\<lambda>k. map_option g (S k)) T"
  unfolding exact_index_def by fastforce

lemma exact_index_filter:
  assumes "exact_index f S T"
  shows "exact_index f
     (\<lambda>k. case S k of None \<Rightarrow> None | Some v \<Rightarrow> if P v then Some v else None)
     (\<lambda>d. if \<exists>k v. S k = Some v \<and> \<not> P v \<and> f v = d then None else T d)"
proof (rule exact_indexI)
  fix k v assume "(case S k of None \<Rightarrow> None | Some v \<Rightarrow> if P v then Some v else None) = Some v"
  then have v: "S k = Some v" "P v" by (auto split: option.splits if_splits)
  then have "\<not> (\<exists>k1 v1. S k1 = Some v1 \<and> \<not> P v1 \<and> f v1 = f v)"
    using exact_index_unique [OF assms] by (metis option.inject)
  then show "(if \<exists>k1 v1. S k1 = Some v1 \<and> \<not> P v1 \<and> f v1 = f v then None else T (f v)) = Some k"
    using exact_index_lookup [OF assms v(1)] by simp
next
  fix d k assume "(if \<exists>k v. S k = Some v \<and> \<not> P v \<and> f v = d then None else T d) = Some k"
  then show "\<exists>v. (case S k of None \<Rightarrow> None | Some v \<Rightarrow> if P v then Some v else None) = Some v \<and> f v = d"
    using exact_index_target [OF assms, of d k] by (fastforce split: if_splits)
qed

section \<open>Sorted vectors without duplicates\<close>

text \<open>
  \<^verbatim>\<open>sort\<close> followed by \<^verbatim>\<open>erase(unique(...))\<close>, and \<^verbatim>\<open>adjacent_find\<close> on a sorted vector.
\<close>

definition sort_unique :: "'a::linorder list \<Rightarrow> 'a list" where
  "sort_unique xs = remdups_adj (sort xs)"

fun adjacent_find :: "'a list \<Rightarrow> bool" where
  "adjacent_find (x # y # xs) = (x = y \<or> adjacent_find (y # xs))"
| "adjacent_find _ = False"

lemma sort_unique_set [simp]: "set (sort_unique xs) = set xs"
  by (simp add: sort_unique_def)

lemma sorted_remdups_adj: "sorted xs \<Longrightarrow> sorted_wrt (<) (remdups_adj xs)"
  by (induction xs rule: remdups_adj.induct) (auto simp: less_le)

lemma sort_unique_sorted: "sorted_wrt (<) (sort_unique xs)"
  by (simp add: sort_unique_def sorted_remdups_adj)

lemma strict_sorted_sort_unique: "sorted_wrt (<) xs \<Longrightarrow> sort_unique xs = xs"
  by (simp add: sort_unique_def sorted_sort_id strict_sorted_iff remdups_adj_distinct)

lemma adjacent_find_sorted: "sorted xs \<Longrightarrow> adjacent_find xs = (\<not> distinct xs)"
  by (induction xs rule: adjacent_find.induct) auto

lemma adjacent_find_sort [simp]: "adjacent_find (sort xs) = (\<not> distinct xs)"
  by (simp add: adjacent_find_sorted)

text \<open>
  \<^verbatim>\<open>std::ranges::binary_search\<close>: halving, which on a sorted vector decides membership.
\<close>

function binary_search :: "'a::linorder list \<Rightarrow> 'a \<Rightarrow> bool" where
  "binary_search xs x =
     (if xs = [] then False
      else let m = length xs div 2
           in if xs ! m < x then binary_search (drop (Suc m) xs) x
              else if x < xs ! m then binary_search (take m xs) x
              else True)"
  by pat_completeness auto
termination
  by (relation "measure (\<lambda>(xs, x). length xs)") (auto simp: div_less_dividend)

declare binary_search.simps [simp del]

lemma sorted_split_at:
  assumes "sorted xs" "m < length xs"
  shows "xs ! m < x \<Longrightarrow> x \<in> set xs \<longleftrightarrow> x \<in> set (drop (Suc m) xs)"
    and "x < xs ! m \<Longrightarrow> x \<in> set xs \<longleftrightarrow> x \<in> set (take m xs)"
proof -
  have split: "xs = take m xs @ xs ! m # drop (Suc m) xs"
    using assms(2) by (rule id_take_nth_drop)
  have sorted: "sorted (take m xs @ xs ! m # drop (Suc m) xs)"
    using assms(1) split by simp
  show "xs ! m < x \<Longrightarrow> x \<in> set xs \<longleftrightarrow> x \<in> set (drop (Suc m) xs)"
    using sorted by (subst split) (auto simp: sorted_append)
  show "x < xs ! m \<Longrightarrow> x \<in> set xs \<longleftrightarrow> x \<in> set (take m xs)"
    using sorted by (subst split) (auto simp: sorted_append)
qed

lemma binary_search_sorted: "sorted xs \<Longrightarrow> binary_search xs x \<longleftrightarrow> x \<in> set xs"
proof (induction xs x rule: binary_search.induct)
  case (1 xs x)
  show ?case
  proof (cases "xs = []")
    case True
    then show ?thesis by (simp add: binary_search.simps)
  next
    case False
    let ?m = "length xs div 2"
    have m: "?m < length xs" using False by simp
    have "sorted (drop (Suc ?m) xs)" "sorted (take ?m xs)"
      using "1.prems" by (simp_all add: sorted_wrt_take sorted_wrt_drop)
    with "1.IH" [OF False refl] m False sorted_split_at [OF "1.prems" m, of x] nth_mem [OF m]
    show ?thesis
      by (subst binary_search.simps) (auto simp: Let_def not_less_iff_gr_or_eq)
  qed
qed

section \<open>Machines that keep an invariant\<close>

text \<open>
  A component offers calls; a call takes the state to a result and the next state. Running
  a list of calls collects the results in order.
\<close>

fun run_calls :: "('call \<Rightarrow> 's \<Rightarrow> 'r \<times> 's) \<Rightarrow> 'call list \<Rightarrow> 's \<Rightarrow> 'r list \<times> 's" where
  "run_calls step [] s = ([], s)"
| "run_calls step (c # cs) s =
     (case step c s of (r, s') \<Rightarrow> case run_calls step cs s' of (rs, s'') \<Rightarrow> (r # rs, s''))"

definition final_state :: "('call \<Rightarrow> 's \<Rightarrow> 'r \<times> 's) \<Rightarrow> 'call list \<Rightarrow> 's \<Rightarrow> 's" where
  "final_state step cs s = snd (run_calls step cs s)"

lemma final_state_Nil [simp]: "final_state step [] s = s"
  by (simp add: final_state_def)

lemma final_state_Cons [simp]:
  "final_state step (c # cs) s = final_state step cs (snd (step c s))"
  by (simp add: final_state_def case_prod_unfold)

lemma final_state_append [simp]:
  "final_state step (cs @ ds) s = final_state step ds (final_state step cs s)"
  by (induction cs arbitrary: s) simp_all

locale guarded_machine =
  fixes step :: "'call \<Rightarrow> 's \<Rightarrow> 'r \<times> 's"
    and inv :: "'s \<Rightarrow> bool"
  assumes step_inv: "inv s \<Longrightarrow> inv (snd (step c s))"
begin

lemma run_inv: "inv s \<Longrightarrow> inv (final_state step cs s)"
  by (induction cs arbitrary: s) (simp_all add: step_inv)

lemma run_prefix_inv: "inv s \<Longrightarrow> inv (final_state step (take n cs) s)"
  by (rule run_inv)

end

text \<open>
  A fact that no call undoes (a revoked family stays revoked, a redeemed code stays gone)
  holds after every further sequence of calls.
\<close>

locale stable_fact = guarded_machine +
  fixes allowed :: "'call \<Rightarrow> bool"
    and fact :: "'s \<Rightarrow> bool"
  assumes step_fact: "inv s \<Longrightarrow> fact s \<Longrightarrow> allowed c \<Longrightarrow> fact (snd (step c s))"
begin

lemma run_fact: "inv s \<Longrightarrow> fact s \<Longrightarrow> list_all allowed cs \<Longrightarrow> fact (final_state step cs s)"
  by (induction cs arbitrary: s) (simp_all add: step_inv step_fact)

end

section \<open>Single-use stores\<close>

text \<open>
  \<open>redeems s c k\<close>: call \<open>c\<close> in state \<open>s\<close> hands out the entry of \<open>k\<close>. \<open>adds s c k\<close>: the call
  stores an entry under \<open>k\<close>. \<open>redemptions\<close> counts how often a run hands out \<open>k\<close>.
\<close>

fun redemptions ::
    "('call \<Rightarrow> 's \<Rightarrow> 'r \<times> 's) \<Rightarrow> ('s \<Rightarrow> 'call \<Rightarrow> 'k \<Rightarrow> bool) \<Rightarrow> 'k \<Rightarrow> 'call list \<Rightarrow> 's \<Rightarrow> nat" where
  "redemptions step redeems k [] s = 0"
| "redemptions step redeems k (c # cs) s =
     (if redeems s c k then 1 else 0) + redemptions step redeems k cs (snd (step c s))"

fun additions ::
    "('call \<Rightarrow> 's \<Rightarrow> 'r \<times> 's) \<Rightarrow> ('s \<Rightarrow> 'call \<Rightarrow> 'k \<Rightarrow> bool) \<Rightarrow> 'k \<Rightarrow> 'call list \<Rightarrow> 's \<Rightarrow> nat" where
  "additions step adds k [] s = 0"
| "additions step adds k (c # cs) s =
     (if adds s c k then 1 else 0) + additions step adds k cs (snd (step c s))"

text \<open>
  The contract behind both: every key has a budget, a use of the key lowers it, only an addition
  raises it, and it never exceeds the limit.
\<close>

locale budgeted_store =
  fixes step :: "'call \<Rightarrow> 's \<Rightarrow> 'r \<times> 's"
    and inv :: "'s \<Rightarrow> bool"
    and budget :: "'s \<Rightarrow> 'k \<Rightarrow> nat"
    and uses :: "'s \<Rightarrow> 'call \<Rightarrow> 'k \<Rightarrow> bool"
    and adds :: "'s \<Rightarrow> 'call \<Rightarrow> 'k \<Rightarrow> bool"
    and limit :: nat
  assumes budget_inv: "inv s \<Longrightarrow> inv (snd (step c s))"
    and budget_limit: "inv s \<Longrightarrow> budget s k \<le> limit"
    and use_pays: "inv s \<Longrightarrow> uses s c k \<Longrightarrow> budget (snd (step c s)) k < budget s k"
    and budget_kept: "inv s \<Longrightarrow> \<not> adds s c k \<Longrightarrow> budget (snd (step c s)) k \<le> budget s k"
begin

lemma uses_bounded:
  "inv s \<Longrightarrow> redemptions step uses k cs s \<le> limit * additions step adds k cs s + budget s k"
proof (induction cs arbitrary: s)
  case (Cons c cs)
  let ?s = "snd (step c s)"
  have "inv ?s" using Cons.prems by (rule budget_inv)
  then have "redemptions step uses k cs ?s \<le> limit * additions step adds k cs ?s + budget ?s k" "budget ?s k \<le> limit"
    by (simp_all add: Cons.IH budget_limit)
  then show ?case
    using use_pays [OF Cons.prems, of c k] budget_kept [OF Cons.prems, of c k]
    by (auto simp: algebra_simps)
qed simp

corollary uses_within_budget:
  "inv s \<Longrightarrow> additions step adds k cs s = 0 \<Longrightarrow> redemptions step uses k cs s \<le> budget s k"
  using uses_bounded [of s k cs] by simp

end

locale single_use_store =
  fixes step :: "'call \<Rightarrow> 's \<Rightarrow> 'r \<times> 's"
    and inv :: "'s \<Rightarrow> bool"
    and has :: "'s \<Rightarrow> 'k \<Rightarrow> bool"
    and redeems :: "'s \<Rightarrow> 'call \<Rightarrow> 'k \<Rightarrow> bool"
    and adds :: "'s \<Rightarrow> 'call \<Rightarrow> 'k \<Rightarrow> bool"
  assumes use_inv: "inv s \<Longrightarrow> inv (snd (step c s))"
    and redeem_has: "inv s \<Longrightarrow> redeems s c k \<Longrightarrow> has s k"
    and redeem_removes: "inv s \<Longrightarrow> redeems s c k \<Longrightarrow> \<not> has (snd (step c s)) k"
    and only_added: "inv s \<Longrightarrow> \<not> has s k \<Longrightarrow> \<not> adds s c k \<Longrightarrow> \<not> has (snd (step c s)) k"

sublocale single_use_store \<subseteq> budgeted_store step inv "\<lambda>s k. if has s k then 1 else 0" redeems adds 1
  by unfold_locales (simp_all add: use_inv redeem_has redeem_removes only_added)

context single_use_store
begin

text \<open>Every redemption is paid for by the entry that was there or by a later addition.\<close>

lemma redemptions_bounded:
  "inv s \<Longrightarrow>
   redemptions step redeems k cs s \<le> additions step adds k cs s + (if has s k then 1 else 0)"
  using uses_bounded [of s k cs] by simp

corollary redeemed_at_most_once:
  "inv s \<Longrightarrow> additions step adds k cs s = 0 \<Longrightarrow> redemptions step redeems k cs s \<le> 1"
  using redemptions_bounded [of s k cs] by (auto split: if_splits)

corollary unknown_never_redeemed:
  "inv s \<Longrightarrow> \<not> has s k \<Longrightarrow> additions step adds k cs s = 0 \<Longrightarrow> redemptions step redeems k cs s = 0"
  using redemptions_bounded [of s k cs] by auto

end

end
