(* ===== verification/Foundation.thy ===== *)
theory Foundation
  imports Prelude
begin

text \<open>
  The failure vocabulary of \<^verbatim>\<open>src/src/foundation/error.cpp\<close> and
  \<^verbatim>\<open>result.cppm\<close>: error codes with their wire names, client messages and HTTP
  statuses, the two-channel \<^verbatim>\<open>Error\<close>, and \<^verbatim>\<open>Result\<close>. An operation that can
  fail returns \<open>Inl\<close> of the error; one that also changes state returns the state beside it,
  since several operations change state on a failing path.
\<close>

datatype ErrorCode =
    Unknown | InvalidArgument | FailedPrecondition | NotFound | AlreadyExists | Conflict
  | AuthenticationRequired | AuthenticationFailed | PermissionDenied | AssuranceInsufficient
  | RateLimited | Timeout | Unavailable | NotImplemented | Internal

fun errorCodeName :: "ErrorCode \<Rightarrow> string" where
  "errorCodeName Unknown = ''UNKNOWN''"
| "errorCodeName InvalidArgument = ''INVALID_ARGUMENT''"
| "errorCodeName FailedPrecondition = ''FAILED_PRECONDITION''"
| "errorCodeName NotFound = ''NOT_FOUND''"
| "errorCodeName AlreadyExists = ''ALREADY_EXISTS''"
| "errorCodeName Conflict = ''CONFLICT''"
| "errorCodeName AuthenticationRequired = ''AUTHENTICATION_REQUIRED''"
| "errorCodeName AuthenticationFailed = ''AUTHENTICATION_FAILED''"
| "errorCodeName PermissionDenied = ''PERMISSION_DENIED''"
| "errorCodeName AssuranceInsufficient = ''ASSURANCE_INSUFFICIENT''"
| "errorCodeName RateLimited = ''RATE_LIMITED''"
| "errorCodeName Timeout = ''TIMEOUT''"
| "errorCodeName Unavailable = ''UNAVAILABLE''"
| "errorCodeName NotImplemented = ''NOT_IMPLEMENTED''"
| "errorCodeName Internal = ''INTERNAL''"

fun defaultErrorMessage :: "ErrorCode \<Rightarrow> string" where
  "defaultErrorMessage Unknown = ''An unexpected error occurred.''"
| "defaultErrorMessage InvalidArgument = ''The request was not valid.''"
| "defaultErrorMessage FailedPrecondition = ''The request cannot be performed in the current state.''"
| "defaultErrorMessage NotFound = ''The requested resource was not found.''"
| "defaultErrorMessage AlreadyExists = ''The resource already exists.''"
| "defaultErrorMessage Conflict = ''The request conflicts with the current state of the resource.''"
| "defaultErrorMessage AuthenticationRequired = ''Authentication is required.''"
| "defaultErrorMessage AuthenticationFailed = ''Authentication failed.''"
| "defaultErrorMessage PermissionDenied = ''The request was denied.''"
| "defaultErrorMessage AssuranceInsufficient = ''A stronger authentication is required for this operation.''"
| "defaultErrorMessage RateLimited = ''Too many requests.''"
| "defaultErrorMessage Timeout = ''The request timed out.''"
| "defaultErrorMessage Unavailable = ''The service is temporarily unavailable.''"
| "defaultErrorMessage NotImplemented = ''The requested operation is not supported.''"
| "defaultErrorMessage Internal = ''An internal error occurred.''"

fun errorHttpStatus :: "ErrorCode \<Rightarrow> int" where
  "errorHttpStatus InvalidArgument = 400"
| "errorHttpStatus AuthenticationRequired = 401"
| "errorHttpStatus AuthenticationFailed = 401"
| "errorHttpStatus PermissionDenied = 403"
| "errorHttpStatus AssuranceInsufficient = 403"
| "errorHttpStatus NotFound = 404"
| "errorHttpStatus Conflict = 409"
| "errorHttpStatus AlreadyExists = 409"
| "errorHttpStatus FailedPrecondition = 412"
| "errorHttpStatus RateLimited = 429"
| "errorHttpStatus NotImplemented = 501"
| "errorHttpStatus Unavailable = 503"
| "errorHttpStatus Timeout = 504"
| "errorHttpStatus Unknown = 500"
| "errorHttpStatus Internal = 500"

record Error =
  err_code :: ErrorCode
  err_message :: string
  err_internalDetail :: string

text \<open>The three constructors; an empty message is replaced by the default of the code.\<close>

definition Error_of_code :: "ErrorCode \<Rightarrow> Error" where
  "Error_of_code code =
     \<lparr>err_code = code, err_message = defaultErrorMessage code, err_internalDetail = []\<rparr>"

definition Error_with_message :: "ErrorCode \<Rightarrow> string \<Rightarrow> Error" where
  "Error_with_message code message =
     \<lparr>err_code = code,
      err_message = (if message = [] then defaultErrorMessage code else message),
      err_internalDetail = []\<rparr>"

definition Error_with_detail :: "ErrorCode \<Rightarrow> string \<Rightarrow> string \<Rightarrow> Error" where
  "Error_with_detail code message detail =
     \<lparr>err_code = code,
      err_message = (if message = [] then defaultErrorMessage code else message),
      err_internalDetail = detail\<rparr>"

definition hasInternalDetail :: "Error \<Rightarrow> bool" where
  "hasInternalDetail e = (err_internalDetail e \<noteq> [])"

definition withInternalDetail :: "Error \<Rightarrow> string \<Rightarrow> Error" where
  "withInternalDetail e detail = Error_with_detail (err_code e) (err_message e) detail"

text \<open>Two errors compare equal when code and client message agree (\<^verbatim>\<open>operator==\<close>).\<close>

definition Error_eq :: "Error \<Rightarrow> Error \<Rightarrow> bool" where
  "Error_eq l r = (err_code l = err_code r \<and> err_message l = err_message r)"

type_synonym 'a Result = "Error + 'a"
type_synonym Status = "Error + unit"

definition fail_code :: "ErrorCode \<Rightarrow> 'a Result" where
  "fail_code code = Inl (Error_of_code code)"

definition fail_msg :: "ErrorCode \<Rightarrow> string \<Rightarrow> 'a Result" where
  "fail_msg code message = Inl (Error_with_message code message)"

definition fail_detail :: "ErrorCode \<Rightarrow> string \<Rightarrow> string \<Rightarrow> 'a Result" where
  "fail_detail code message detail = Inl (Error_with_detail code message detail)"

abbreviation ok :: Status where
  "ok \<equiv> Inr ()"

text \<open>
  The anonymous-namespace helpers \<^verbatim>\<open>invalidSession\<close>, \<^verbatim>\<open>unknownSession\<close>,
  \<^verbatim>\<open>invalidToken\<close> and \<^verbatim>\<open>invalidCredential\<close> of the session and token components are
  one function: an authentication failure whose client message is the generic default and whose
  reason goes to the operator channel.
\<close>

definition authFailure :: "string \<Rightarrow> Error" where
  "authFailure detail =
     Error_with_detail AuthenticationFailed (defaultErrorMessage AuthenticationFailed) detail"

text \<open>Failure codes read off a result: what a caller branches on.\<close>

definition failed_with :: "'a Result \<Rightarrow> ErrorCode \<Rightarrow> bool" where
  "failed_with r code = (case r of Inl e \<Rightarrow> err_code e = code | Inr _ \<Rightarrow> False)"

definition succeeded :: "'a Result \<Rightarrow> bool" where
  "succeeded r = (case r of Inl _ \<Rightarrow> False | Inr _ \<Rightarrow> True)"

lemma succeeded_simps [simp]:
  "succeeded (Inr x)" "\<not> succeeded (Inl e)"
  "\<not> succeeded (fail_code c)" "\<not> succeeded (fail_msg c m)" "\<not> succeeded (fail_detail c m d)"
  by (simp_all add: succeeded_def fail_code_def fail_msg_def fail_detail_def)

lemma succeeded_iff: "succeeded r = (\<exists>x. r = Inr x)"
  by (cases r) auto

lemma failed_with_simps [simp]:
  "failed_with (Inl e) c = (err_code e = c)" "\<not> failed_with (Inr x) c"
  "failed_with (fail_code d) c = (d = c)" "failed_with (fail_msg d m) c = (d = c)"
  "failed_with (fail_detail d m n) c = (d = c)"
  by (simp_all add: failed_with_def fail_code_def fail_msg_def fail_detail_def
      Error_of_code_def Error_with_message_def Error_with_detail_def)

lemma fail_not_Inr [simp]:
  "fail_code c \<noteq> Inr x" "fail_msg c m \<noteq> Inr x" "fail_detail c m d \<noteq> Inr x"
  "Inr x \<noteq> fail_code c" "Inr x \<noteq> fail_msg c m" "Inr x \<noteq> fail_detail c m d"
  by (simp_all add: fail_code_def fail_msg_def fail_detail_def)

lemma fail_case [simp]:
  "(case fail_code c of Inl e \<Rightarrow> f e | Inr x \<Rightarrow> g x) = f (Error_of_code c)"
  "(case fail_msg c m of Inl e \<Rightarrow> f e | Inr x \<Rightarrow> g x) = f (Error_with_message c m)"
  "(case fail_detail c m d of Inl e \<Rightarrow> f e | Inr x \<Rightarrow> g x) = f (Error_with_detail c m d)"
  by (simp_all add: fail_code_def fail_msg_def fail_detail_def)

lemma err_code_simps [simp]:
  "err_code (Error_of_code c) = c" "err_code (Error_with_message c m) = c"
  "err_code (Error_with_detail c m d) = c" "err_code (authFailure d) = AuthenticationFailed"
  by (simp_all add: Error_of_code_def Error_with_message_def Error_with_detail_def authFailure_def)

lemma authFailure_message [simp]:
  "err_message (authFailure d) = defaultErrorMessage AuthenticationFailed"
  by (simp add: authFailure_def Error_with_detail_def)

lemma defaultErrorMessage_nonempty: "defaultErrorMessage c \<noteq> []"
  by (cases c) simp_all

lemma errorCodeName_inj: "errorCodeName c = errorCodeName d \<longleftrightarrow> c = d"
  by (cases c; cases d) simp_all

lemma err_message_nonempty:
  "err_message (Error_of_code c) \<noteq> []" "err_message (Error_with_message c m) \<noteq> []"
  "err_message (Error_with_detail c m d) \<noteq> []"
  by (simp_all add: Error_of_code_def Error_with_message_def Error_with_detail_def
      defaultErrorMessage_nonempty)

text \<open>
  The loop that converts every element of a vector and returns the first failure.
\<close>

fun map_result :: "('a \<Rightarrow> 'b Result) \<Rightarrow> 'a list \<Rightarrow> 'b list Result" where
  "map_result f [] = Inr []"
| "map_result f (x # xs) =
     (case f x of
        Inl e \<Rightarrow> Inl e
      | Inr y \<Rightarrow> (case map_result f xs of Inl e \<Rightarrow> Inl e | Inr ys \<Rightarrow> Inr (y # ys)))"

lemma map_result_accepts: "list_all (\<lambda>x. f x = Inr x) xs \<Longrightarrow> map_result f xs = Inr xs"
  by (induction xs) simp_all

lemma map_result_same:
  "(\<And>x y. f x = Inr y \<Longrightarrow> y = x \<and> P x) \<Longrightarrow> map_result f xs = Inr ys \<Longrightarrow> ys = xs \<and> list_all P xs"
  by (induction xs arbitrary: ys) (force split: sum.splits)+

end
