(* ===== verification/Json.thy ===== *)
theory Json
  imports Foundation
begin

text \<open>
  The JSON writer of \<^verbatim>\<open>src/src/foundation/json.cpp\<close> and the client error envelope
  \<^verbatim>\<open>toClientJson\<close> of \<^verbatim>\<open>error.cpp\<close>. The output is read back by a small reference
  reader of JSON strings and flat objects of strings, which fixes what "no injection" means:
  every value written ends at its own closing quote and reads back unchanged. The values the
  Boost.JSON parser hands to the program are \<open>json_value\<close>.
\<close>

text \<open>A value of Boost.JSON by its kind; a double is its 64 bits.\<close>

datatype json_value =
    JNull
  | JBool bool
  | JInt64 int
  | JUint64 nat
  | JDouble "64 word"
  | JString string
  | JArray "json_value list"
  | JObject "(string \<times> json_value) list"

definition quote :: char where "quote = CHR 0x22"
definition backslash :: char where "backslash = CHR 0x5C"

definition kHexDigits :: string where
  "kHexDigits = ''0123456789abcdef''"

definition appendUnicodeEscape :: "char \<Rightarrow> string" where
  "appendUnicodeEscape c =
     backslash # ''u00'' @ [kHexDigits ! (of_char c div 16 mod 16), kHexDigits ! (of_char c mod 16)]"

definition escapeJsonChar :: "char \<Rightarrow> string" where
  "escapeJsonChar c =
     (if c = quote then [backslash, quote]
      else if c = backslash then [backslash, backslash]
      else if c = CHR 0x08 then backslash # ''b''
      else if c = CHR 0x0C then backslash # ''f''
      else if c = CHR 0x0A then backslash # ''n''
      else if c = CHR 0x0D then backslash # ''r''
      else if c = CHR 0x09 then backslash # ''t''
      else if (of_char c :: nat) < 0x20 then appendUnicodeEscape c
      else [c])"

definition escapeJsonString :: "string \<Rightarrow> string" where
  "escapeJsonString value = concat (map escapeJsonChar value)"

text \<open>
  The writer is its body; \<open>None\<close> is the abort of \<^verbatim>\<open>requireInvariant\<close> on an empty key.
\<close>

definition beginEntry :: "string \<Rightarrow> string \<Rightarrow> string option" where
  "beginEntry body key =
     (if key = [] then None
      else Some (body @ (if body \<noteq> [] then '','' else []) @ [quote] @ escapeJsonString key
                 @ [quote] @ '':''))"

definition add_string :: "string \<Rightarrow> string \<Rightarrow> string \<Rightarrow> string option" where
  "add_string body key value =
     map_option (\<lambda>b. b @ [quote] @ escapeJsonString value @ [quote]) (beginEntry body key)"

definition add_bool :: "string \<Rightarrow> string \<Rightarrow> bool \<Rightarrow> string option" where
  "add_bool body key value =
     map_option (\<lambda>b. b @ (if value then ''true'' else ''false'')) (beginEntry body key)"

definition addNull :: "string \<Rightarrow> string \<Rightarrow> string option" where
  "addNull body key = map_option (\<lambda>b. b @ ''null'') (beginEntry body key)"

definition build :: "string \<Rightarrow> string" where
  "build body = ''{'' @ body @ ''}''"

definition add_nested :: "string \<Rightarrow> string \<Rightarrow> string \<Rightarrow> string option" where
  "add_nested body key nested = map_option (\<lambda>b. b @ build nested) (beginEntry body key)"

definition toClientJson :: "Error \<Rightarrow> string \<Rightarrow> string option" where
  "toClientJson e requestId =
     Option.bind (add_string [] ''code'' (errorCodeName (err_code e))) (\<lambda>b1.
     Option.bind (add_string b1 ''message'' (err_message e)) (\<lambda>b2.
     Option.bind (if requestId \<noteq> [] then add_string b2 ''request_id'' requestId else Some b2) (\<lambda>b3.
     map_option build (add_nested [] ''error'' b3))))"

section \<open>A reference reader\<close>

definition hex_digit :: "char \<Rightarrow> nat option" where
  "hex_digit c =
     (let n = of_char c :: nat
      in if 48 \<le> n \<and> n \<le> 57 then Some (n - 48)
         else if 97 \<le> n \<and> n \<le> 102 then Some (n - 87)
         else None)"

definition two_char_escapes :: "(char \<times> char) list" where
  "two_char_escapes =
     [(quote, quote), (backslash, backslash), (CHR ''b'', CHR 0x08), (CHR ''f'', CHR 0x0C),
      (CHR ''n'', CHR 0x0A), (CHR ''r'', CHR 0x0D), (CHR ''t'', CHR 0x09)]"

text \<open>
  Reads the characters of a JSON string up to its closing quote and returns the value and what
  follows the quote. Raw control characters, unknown escapes and a missing quote are errors.
\<close>

fun read_string :: "string \<Rightarrow> (string \<times> string) option" where
  "read_string [] = None"
| "read_string (c # cs) =
     (if c = quote then Some ([], cs)
      else if c = backslash then
        (case cs of
           [] \<Rightarrow> None
         | d # ds \<Rightarrow>
             if d = CHR ''u'' then
               (case ds of
                  z1 # z2 # h # l # rest \<Rightarrow>
                    (case (hex_digit h, hex_digit l) of
                       (Some x, Some y) \<Rightarrow>
                         if z1 = CHR ''0'' \<and> z2 = CHR ''0''
                         then map_option (apfst ((#) (char_of (16 * x + y)))) (read_string rest)
                         else None
                     | _ \<Rightarrow> None)
                | _ \<Rightarrow> None)
             else
               (case map_of two_char_escapes d of
                  None \<Rightarrow> None
                | Some v \<Rightarrow> map_option (apfst ((#) v)) (read_string ds)))
      else if (of_char c :: nat) < 0x20 then None
      else map_option (apfst ((#) c)) (read_string cs))"

text \<open>An object whose values are all strings: its entries in order, and the rest.\<close>

definition read_entry :: "string \<Rightarrow> ((string \<times> string) \<times> string) option" where
  "read_entry s =
     (case s of
        [] \<Rightarrow> None
      | q # s1 \<Rightarrow> if q \<noteq> quote then None else
          (case read_string s1 of
             None \<Rightarrow> None
           | Some (k, s2) \<Rightarrow>
               (case s2 of
                  c # q' # s3 \<Rightarrow>
                    if c = CHR '':'' \<and> q' = quote
                    then map_option (\<lambda>(v, rest). ((k, v), rest)) (read_string s3)
                    else None
                | _ \<Rightarrow> None)))"

fun read_entries :: "nat \<Rightarrow> string \<Rightarrow> ((string \<times> string) list \<times> string) option" where
  "read_entries 0 s = None"
| "read_entries (Suc n) s =
     (case read_entry s of
        None \<Rightarrow> None
      | Some (kv, rest) \<Rightarrow>
          (case rest of
             [] \<Rightarrow> None
           | c # rest' \<Rightarrow>
               if c = CHR ''}'' then Some ([kv], rest')
               else if c = CHR '','' then map_option (apfst ((#) kv)) (read_entries n rest')
               else None))"

section \<open>What is written reads back\<close>

lemma escapeJsonString_simps [simp]:
  "escapeJsonString [] = []"
  "escapeJsonString (c # cs) = escapeJsonChar c @ escapeJsonString cs"
  by (simp_all add: escapeJsonString_def)

lemma less_16_cases:
  "m < (16::nat) \<Longrightarrow> m \<in> set [0, 1, 2, 3, 4, 5, 6, 7, 8, 9, 10, 11, 12, 13, 14, 15]"
  by (simp only: set_simps insert_iff empty_iff) presburger

lemma hex_digit_kHexDigits: "m < 16 \<Longrightarrow> hex_digit (kHexDigits ! m) = Some m"
  by (drule less_16_cases) (auto simp: hex_digit_def kHexDigits_def numeral_eq_Suc)

lemma char_of_of_char_split: "char_of (16 * (of_char c div 16 mod 16) + of_char c mod 16 :: nat) = c"
proof -
  have "(of_char c :: nat) div 16 < 16"
    by (simp add: div_less_iff_less_mult)
  then have "16 * ((of_char c :: nat) div 16 mod 16) + of_char c mod 16 = of_char c"
    by simp
  then show ?thesis by (simp only: char_of_char)
qed

lemma read_unicode_escape:
  "read_string (appendUnicodeEscape c @ rest) = map_option (apfst ((#) c)) (read_string rest)"
  by (simp add: appendUnicodeEscape_def hex_digit_kHexDigits char_of_of_char_split
      quote_def backslash_def)

lemma read_plain:
  assumes "c \<noteq> quote" "c \<noteq> backslash" "\<not> (of_char c :: nat) < 0x20"
  shows "read_string (c # rest) = map_option (apfst ((#) c)) (read_string rest)"
  using assms by simp

lemma two_char_escapes_lookup:
  "(d, v) \<in> set two_char_escapes \<Longrightarrow> map_of two_char_escapes d = Some v \<and> d \<noteq> CHR ''u''"
  by (auto simp: two_char_escapes_def quote_def backslash_def)

lemma read_two_char_escape:
  assumes "(d, v) \<in> set two_char_escapes"
  shows "read_string (backslash # d # rest) = map_option (apfst ((#) v)) (read_string rest)"
  using two_char_escapes_lookup [OF assms]
  by (subst read_string.simps) (simp add: quote_def backslash_def del: read_string.simps)

lemma escapeJsonChar_cases:
  "(\<exists>d. escapeJsonChar c = [backslash, d] \<and> (d, c) \<in> set two_char_escapes)
   \<or> escapeJsonChar c = appendUnicodeEscape c
   \<or> escapeJsonChar c = [c] \<and> c \<noteq> quote \<and> c \<noteq> backslash \<and> \<not> (of_char c :: nat) < 0x20"
  unfolding escapeJsonChar_def two_char_escapes_def by auto

lemma read_escapeJsonChar:
  "read_string (escapeJsonChar c @ rest) = map_option (apfst ((#) c)) (read_string rest)"
  using escapeJsonChar_cases [of c]
  by (elim disjE exE conjE)
    (simp_all add: read_two_char_escape read_unicode_escape read_plain del: read_string.simps)

lemma read_escapeJsonString [simp]:
  "read_string (escapeJsonString s @ quote # rest) = Some (s, rest)"
proof (induction s)
  case Nil
  show ?case by (simp add: quote_def)
next
  case (Cons c s)
  then show ?case by (simp add: read_escapeJsonChar del: read_string.simps)
qed

definition string_entry :: "string \<Rightarrow> string \<Rightarrow> string" where
  "string_entry k v =
     [quote] @ escapeJsonString k @ [quote] @ '':'' @ [quote] @ escapeJsonString v @ [quote]"

lemma read_string_entry [simp]: "read_entry (string_entry k v @ rest) = Some ((k, v), rest)"
  by (simp add: string_entry_def read_entry_def)

text \<open>
  The bytes of the envelope as a list of entries, and the fields it carries.
\<close>

definition envelope_fields :: "Error \<Rightarrow> string \<Rightarrow> (string \<times> string) list" where
  "envelope_fields e requestId =
     [(''code'', errorCodeName (err_code e)), (''message'', err_message e)]
     @ (if requestId \<noteq> [] then [(''request_id'', requestId)] else [])"

lemma toClientJson_text:
  "toClientJson e requestId =
     Some (''{'' @ [quote] @ ''error'' @ [quote] @ '':{''
       @ string_entry ''code'' (errorCodeName (err_code e)) @ '',''
       @ string_entry ''message'' (err_message e)
       @ (if requestId \<noteq> [] then '','' @ string_entry ''request_id'' requestId else [])
       @ ''}}'')"
  by (simp add: toClientJson_def add_string_def beginEntry_def add_nested_def build_def
      string_entry_def)
    (simp add: escapeJsonChar_def quote_def backslash_def)

text \<open>
  Client error envelopes cannot be forged by the text they carry, and never depend on the
  operator-only detail: for every error and request id \<^verbatim>\<open>toClientJson\<close> produces (without
  aborting) an object whose single member \<^verbatim>\<open>error\<close> reads back as exactly the code name,
  the client message and, when it is not empty, the request id.
\<close>

theorem toClientJson_reads_back:
  "\<exists>body. toClientJson e requestId
            = Some (''{'' @ [quote] @ ''error'' @ [quote] @ '':{'' @ body @ ''}'')
        \<and> read_entries 3 body = Some (envelope_fields e requestId, [])
        \<and> toClientJson (e\<lparr>err_internalDetail := detail\<rparr>) requestId = toClientJson e requestId"
  by (simp add: toClientJson_text envelope_fields_def numeral_eq_Suc)

end
