(* ===== verification/Encoding.thy ===== *)
theory Encoding
  imports Foundation
begin

unbundle bit_operations_syntax

text \<open>
  The hexadecimal and base64url codecs of \<^verbatim>\<open>src/src/foundation/encoding.cpp\<close>, over bytes
  (8-bit words), 32-bit accumulators and the 256-entry decode tables the source builds at compile
  time.
\<close>

definition kHexDigitsLower :: string where
  "kHexDigitsLower = ''0123456789abcdef''"

definition kBase64UrlAlphabet :: string where
  "kBase64UrlAlphabet = ''ABCDEFGHIJKLMNOPQRSTUVWXYZabcdefghijklmnopqrstuvwxyz0123456789-_''"

type_synonym DecodeTable = "int list"

definition makeHexDecodeTable :: DecodeTable where
  "makeHexDecodeTable =
     (let filled = replicate 256 (-1);
          digits = fold (\<lambda>index table. table[of_char (CHR ''0'') + index := int index]) [0 ..< 10] filled
      in fold (\<lambda>index table.
                 (table[of_char (CHR ''a'') + index := int (10 + index)])
                   [of_char (CHR ''A'') + index := int (10 + index)])
           [0 ..< 6] digits)"

definition makeBase64UrlDecodeTable :: DecodeTable where
  "makeBase64UrlDecodeTable =
     fold (\<lambda>index table. table[of_char (kBase64UrlAlphabet ! index) := int index])
       [0 ..< length kBase64UrlAlphabet] (replicate 256 (-1))"

definition lookup :: "DecodeTable \<Rightarrow> char \<Rightarrow> int" where
  "lookup table symbol = table ! of_char symbol"

definition byteValue :: "byte \<Rightarrow> 32 word" where
  "byteValue value = ucast value"

definition hex_symbols :: "byte \<Rightarrow> string" where
  "hex_symbols value =
     [kHexDigitsLower ! unat (drop_bit 4 (byteValue value) AND 0x0F),
      kHexDigitsLower ! unat (byteValue value AND 0x0F)]"

definition toHex :: "byte list \<Rightarrow> string" where
  "toHex bytes = concat (map hex_symbols bytes)"

fun fromHex_loop :: "string \<Rightarrow> byte list \<Rightarrow> byte list Result" where
  "fromHex_loop (s1 # s2 # rest) out =
     (let high = lookup makeHexDecodeTable s1; low = lookup makeHexDecodeTable s2
      in if high < 0 \<or> low < 0
         then fail_msg InvalidArgument ''Hexadecimal input contains a non-hexadecimal character.''
         else fromHex_loop rest
                (out @ [ucast (push_bit 4 (word_of_int high :: 32 word) OR word_of_int low)]))"
| "fromHex_loop _ out = Inr out"

definition fromHex :: "string \<Rightarrow> byte list Result" where
  "fromHex text =
     (if length text mod 2 \<noteq> 0
      then fail_msg InvalidArgument ''Hexadecimal input must have an even length.''
      else fromHex_loop text [])"

abbreviation b64 :: "32 word \<Rightarrow> char" where
  "b64 x \<equiv> kBase64UrlAlphabet ! unat (x AND 0x3F)"

fun toBase64Url :: "byte list \<Rightarrow> string" where
  "toBase64Url (b1 # b2 # b3 # rest) =
     (let triple = (push_bit 16 (byteValue b1)) OR (push_bit 8 (byteValue b2)) OR byteValue b3
      in b64 (drop_bit 18 triple) # b64 (drop_bit 12 triple) # b64 (drop_bit 6 triple) # b64 triple
         # toBase64Url rest)"
| "toBase64Url [b1] = [b64 (drop_bit 2 (byteValue b1)), b64 (push_bit 4 (byteValue b1))]"
| "toBase64Url [b1, b2] =
     [b64 (drop_bit 2 (byteValue b1)),
      b64 ((push_bit 4 (byteValue b1)) OR (drop_bit 4 (byteValue b2))),
      b64 (push_bit 2 (byteValue b2))]"
| "toBase64Url [] = []"

text \<open>
  The decoder's loop. \<open>None\<close> is the abort of \<^verbatim>\<open>requireInvariant\<close>; the accumulator is a
  32-bit word that loses its high bits as the source's does.
\<close>

fun fromBase64Url_loop ::
    "string \<Rightarrow> 32 word \<Rightarrow> nat \<Rightarrow> byte list \<Rightarrow> (32 word \<times> nat \<times> byte list) Result option" where
  "fromBase64Url_loop [] accumulator pendingBits out = Some (Inr (accumulator, pendingBits, out))"
| "fromBase64Url_loop (symbol # rest) accumulator pendingBits out =
     (let decoded = lookup makeBase64UrlDecodeTable symbol
      in if decoded < 0
         then Some (fail_msg InvalidArgument ''Base64url input contains an invalid character.'')
         else
           let accumulator' = push_bit 6 accumulator OR word_of_int decoded;
               pendingBits' = pendingBits + 6
           in if pendingBits' \<ge> 8 then
                (let pendingBits'' = pendingBits' - 8
                 in if pendingBits'' < 8
                    then fromBase64Url_loop rest accumulator' pendingBits''
                           (out @ [ucast (drop_bit pendingBits'' accumulator' AND 0xFF)])
                    else None)
              else fromBase64Url_loop rest accumulator' pendingBits' out)"

definition strip_padding :: "string \<Rightarrow> string" where
  "strip_padding text = rev (dropWhile ((=) (CHR ''='')) (rev text))"

definition fromBase64Url :: "string \<Rightarrow> byte list Result option" where
  "fromBase64Url text =
     (let trimmed = strip_padding text
      in if length trimmed mod 4 = 1
         then Some (fail_msg InvalidArgument ''Base64url input has an impossible length.'')
         else
           (case fromBase64Url_loop trimmed 0 0 [] of
              None \<Rightarrow> None
            | Some (Inl e) \<Rightarrow> Some (Inl e)
            | Some (Inr (accumulator, pendingBits, out)) \<Rightarrow>
                if pendingBits > 0 \<and> accumulator AND (push_bit pendingBits 1 - 1) \<noteq> 0
                then Some (fail_msg InvalidArgument ''Base64url input is not canonically encoded.'')
                else Some (Inr out)))"

text \<open>Octets and text: \<^verbatim>\<open>std::as_bytes\<close> and the casts back.\<close>

definition as_text :: "byte list \<Rightarrow> string" where
  "as_text bs = map (\<lambda>b. char_of (unat b)) bs"

definition text_bytes :: "string \<Rightarrow> byte list" where
  "text_bytes s = map (\<lambda>c. of_nat (of_char c)) s"

section \<open>The decode tables\<close>

lemma length_text_bytes [simp]: "length (text_bytes s) = length s"
  by (simp add: text_bytes_def)

lemma length_as_text [simp]: "length (as_text bs) = length bs"
  by (simp add: as_text_def)

lemma as_text_bytes: "as_text (text_bytes s) = s"
proof -
  have "char_of (unat (of_nat (of_char c) :: byte)) = c" for c
    by (simp add: unsigned_of_nat take_bit_eq_mod)
  then show ?thesis by (simp add: text_bytes_def as_text_def map_idI)
qed

lemma hex_table_inverse:
  "\<forall>n \<in> set [0 ..< 16]. lookup makeHexDecodeTable (kHexDigitsLower ! n) = int n"
  by code_simp

lemma fold_update_length [simp]:
  "length (fold (\<lambda>i t. t[f i := g i]) is t) = length t"
  by (induction "is" arbitrary: t) simp_all

lemma fold_update_other:
  "m \<notin> f ` set is \<Longrightarrow> fold (\<lambda>i t. t[f i := g i]) is t ! m = t ! m"
  by (induction "is" arbitrary: t) auto

lemma fold_update_nth:
  "inj_on f (set is) \<Longrightarrow> i \<in> set is \<Longrightarrow> distinct is \<Longrightarrow> f i < length t \<Longrightarrow>
   fold (\<lambda>i t. t[f i := g i]) is t ! f i = g i"
proof (induction "is" arbitrary: t)
  case (Cons j js)
  show ?case
  proof (cases "i = j")
    case True
    with Cons.prems have "f i \<notin> f ` set js"
      by (auto simp: inj_on_def)
    with True Cons.prems show ?thesis
      by (simp add: fold_update_other)
  next
    case False
    with Cons.prems show ?thesis
      by (simp add: Cons.IH)
  qed
qed simp

lemma alphabet_length [simp]: "length kBase64UrlAlphabet = 64"
  by (simp add: kBase64UrlAlphabet_def)

lemma alphabet_distinct: "distinct kBase64UrlAlphabet"
  by (simp add: kBase64UrlAlphabet_def)

lemma alphabet_no_padding: "CHR ''='' \<notin> set kBase64UrlAlphabet"
  by (simp add: kBase64UrlAlphabet_def)

lemma alphabet_code_inj: "inj_on (\<lambda>i. of_char (kBase64UrlAlphabet ! i) :: nat) {0 ..< 64}"
  using alphabet_distinct by (auto simp: inj_on_def nth_eq_iff_index_eq)

lemma base64_lookup_alphabet [simp]:
  "n < 64 \<Longrightarrow> lookup makeBase64UrlDecodeTable (kBase64UrlAlphabet ! n) = int n"
  unfolding lookup_def makeBase64UrlDecodeTable_def alphabet_length
  by (rule fold_update_nth [where f = "\<lambda>i. of_char (kBase64UrlAlphabet ! i)"])
    (use alphabet_code_inj in simp_all)

lemma base64_lookup_other:
  assumes "c \<notin> set kBase64UrlAlphabet"
  shows "lookup makeBase64UrlDecodeTable c = -1"
proof -
  have "of_char c \<notin> (\<lambda>i. of_char (kBase64UrlAlphabet ! i) :: nat) ` set [0 ..< 64]"
    using assms by (auto simp: in_set_conv_nth)
  then show ?thesis
    unfolding lookup_def makeBase64UrlDecodeTable_def alphabet_length
    by (subst fold_update_other) (simp_all)
qed

lemma base64_lookup_nonneg:
  assumes "\<not> lookup makeBase64UrlDecodeTable c < 0"
  obtains n where "n < 64" "c = kBase64UrlAlphabet ! n" "lookup makeBase64UrlDecodeTable c = int n"
proof -
  have "c \<in> set kBase64UrlAlphabet"
    using assms base64_lookup_other by force
  then obtain n where "n < 64" "c = kBase64UrlAlphabet ! n"
    by (auto simp: in_set_conv_nth)
  with that show ?thesis by simp
qed

section \<open>Hexadecimal round trip\<close>

lemma and_0F: "(x :: 'a::len word) AND 0x0F = take_bit 4 x"
  by (simp add: take_bit_eq_mask mask_eq_exp_minus_1)

lemma and_3F: "(x :: 'a::len word) AND 0x3F = take_bit 6 x"
  by (simp add: take_bit_eq_mask mask_eq_exp_minus_1)

lemma and_FF: "(x :: 'a::len word) AND 0xFF = take_bit 8 x"
  by (simp add: take_bit_eq_mask mask_eq_exp_minus_1)

lemma unat_take_bit_less: "unat (take_bit n (x :: 'a::len word)) < 2 ^ n"
  by (simp add: unsigned_take_bit_eq)

lemma hex_lookup_nibble:
  "lookup makeHexDecodeTable (kHexDigitsLower ! unat (take_bit 4 (x :: 32 word)))
     = uint (take_bit 4 x)"
proof -
  have "unat (take_bit 4 x) < 16"
    using unat_take_bit_less [of 4 x] by simp
  then show ?thesis
    using hex_table_inverse by simp
qed

lemma nibbles_join:
  "ucast (push_bit 4 (take_bit 4 (drop_bit 4 (ucast b :: 32 word))) OR take_bit 4 (ucast b :: 32 word)) = (b :: byte)"
  by (rule bit_word_eqI) (auto simp: bit_simps)

lemma fromHex_loop_symbols:
  "fromHex_loop (hex_symbols b @ rest) out = fromHex_loop rest (out @ [b])"
  by (simp add: hex_symbols_def and_0F hex_lookup_nibble byteValue_def nibbles_join)

lemma fromHex_loop_toHex: "fromHex_loop (toHex bs) out = Inr (out @ bs)"
proof (induction bs arbitrary: out)
  case Nil
  show ?case by (simp add: toHex_def)
next
  case (Cons b bs)
  then show ?case
    by (simp add: toHex_def fromHex_loop_symbols del: fromHex_loop.simps)
qed

lemma length_toHex [simp]: "length (toHex bs) = 2 * length bs"
  by (induction bs) (simp_all add: toHex_def hex_symbols_def)

lemma fromHex_toHex: "fromHex (toHex bs) = Inr bs"
  by (simp add: fromHex_def fromHex_loop_toHex)

lemma toHex_inj: "toHex a = toHex b \<longleftrightarrow> a = b"
  by (metis fromHex_toHex sum.inject(2))

section \<open>Base64url\<close>

text \<open>
  One symbol of the alphabet, and the whole group of four: the three bytes depend on the four
  sextets only, not on what the accumulator held before.
\<close>

lemma loop_alphabet:
  "n < 64 \<Longrightarrow> fromBase64Url_loop (kBase64UrlAlphabet ! n # rest) acc p out =
     (let acc' = push_bit 6 acc OR of_nat n; p' = p + 6
      in if p' \<ge> 8 then
           (if p' - 8 < 8
            then fromBase64Url_loop rest acc' (p' - 8)
                   (out @ [ucast (drop_bit (p' - 8) acc' AND 0xFF)])
            else None)
         else fromBase64Url_loop rest acc' p' out)"
  by (simp add: Let_def)

definition sextet :: "32 word \<Rightarrow> bool" where
  "sextet x \<longleftrightarrow> take_bit 6 x = x"

definition join1 :: "32 word \<Rightarrow> 32 word \<Rightarrow> byte" where
  "join1 a b = ucast (push_bit 2 a OR drop_bit 4 b)"
definition join2 :: "32 word \<Rightarrow> 32 word \<Rightarrow> byte" where
  "join2 b c = ucast (push_bit 4 b OR drop_bit 2 c)"
definition join3 :: "32 word \<Rightarrow> 32 word \<Rightarrow> byte" where
  "join3 c d = ucast (push_bit 6 c OR d)"

lemma sextet_bit: "sextet x \<Longrightarrow> bit x n \<Longrightarrow> n < 6"
  unfolding sextet_def by (metis bit_take_bit_iff)

definition shift_in :: "32 word \<Rightarrow> 32 word \<Rightarrow> 32 word" where
  "shift_in acc x = push_bit 6 acc OR x"

lemma emit1:
  assumes "sextet a" "sextet b"
  shows "ucast (drop_bit 4 (shift_in (shift_in acc a) b) AND 0xFF) = join1 a b"
  unfolding join1_def and_FF shift_in_def
  by (rule bit_word_eqI) (use assms in \<open>auto simp: bit_simps dest: sextet_bit\<close>)

lemma emit2:
  assumes "sextet b" "sextet c"
  shows "ucast (drop_bit 2 (shift_in (shift_in acc b) c) AND 0xFF) = join2 b c"
  unfolding join2_def and_FF shift_in_def
  by (rule bit_word_eqI) (use assms in \<open>auto simp: bit_simps dest: sextet_bit\<close>)

lemma emit3:
  assumes "sextet c" "sextet d"
  shows "ucast (shift_in (shift_in acc c) d AND 0xFF) = join3 c d"
  unfolding join3_def and_FF shift_in_def
  by (rule bit_word_eqI) (use assms in \<open>auto simp: bit_simps dest: sextet_bit\<close>)

lemma sextet_of_nat: "n < 64 \<Longrightarrow> sextet (of_nat n)"
  by (simp add: sextet_def take_bit_of_nat) (simp add: take_bit_eq_mod)

lemma sextet_take_bit [simp]: "sextet (take_bit 6 x)"
  by (simp add: sextet_def)

lemma unat_sextet: "sextet x \<Longrightarrow> unat x < 64"
  using unat_take_bit_less [of 6 x] by (simp add: sextet_def)

abbreviation b64sym :: "32 word \<Rightarrow> char" where
  "b64sym x \<equiv> kBase64UrlAlphabet ! unat x"

lemma loop_sym:
  "sextet x \<Longrightarrow> fromBase64Url_loop (b64sym x # rest) acc p out =
     (let acc' = shift_in acc x; p' = p + 6
      in if p' \<ge> 8 then
           (if p' - 8 < 8
            then fromBase64Url_loop rest acc' (p' - 8)
                   (out @ [ucast (drop_bit (p' - 8) acc' AND 0xFF)])
            else None)
         else fromBase64Url_loop rest acc' p' out)"
  using loop_alphabet [OF unat_sextet, of x] by (simp add: shift_in_def)

lemma lookup_sextet:
  assumes "\<not> lookup makeBase64UrlDecodeTable c < 0"
  obtains x where "sextet x" "c = b64sym x"
proof -
  obtain n where n: "n < 64" "c = kBase64UrlAlphabet ! n"
    using assms by (rule base64_lookup_nonneg)
  then have "unat (of_nat n :: 32 word) = n"
    by (simp add: unat_of_nat take_bit_nat_eq_self)
  with n that show ?thesis by (metis sextet_of_nat)
qed

lemma loop_ConsE:
  assumes "fromBase64Url_loop (c # rest) acc p out = Some (Inr r)"
  obtains x where "sextet x" "c = b64sym x"
proof -
  have "\<not> lookup makeBase64UrlDecodeTable c < 0"
    using assms by (auto simp: Let_def)
  with that show ?thesis by (blast elim: lookup_sextet)
qed

lemma loop_two:
  "sextet a \<Longrightarrow> sextet b \<Longrightarrow>
   fromBase64Url_loop (b64sym a # b64sym b # rest) acc 0 out =
     fromBase64Url_loop rest (shift_in (shift_in acc a) b) 4 (out @ [join1 a b])"
  by (simp add: loop_sym emit1 Let_def del: fromBase64Url_loop.simps)

lemma loop_third:
  "sextet b \<Longrightarrow> sextet c \<Longrightarrow>
   fromBase64Url_loop (b64sym c # rest) (shift_in acc b) 4 out =
     fromBase64Url_loop rest (shift_in (shift_in acc b) c) 2 (out @ [join2 b c])"
  by (simp add: loop_sym emit2 Let_def del: fromBase64Url_loop.simps)

lemma loop_fourth:
  "sextet c \<Longrightarrow> sextet d \<Longrightarrow>
   fromBase64Url_loop (b64sym d # rest) (shift_in acc c) 2 out =
     fromBase64Url_loop rest (shift_in (shift_in acc c) d) 0 (out @ [join3 c d])"
  by (simp add: loop_sym emit3 Let_def del: fromBase64Url_loop.simps)

lemmas loop_group = loop_two loop_third loop_fourth

lemma b64_sym: "b64 x = b64sym (take_bit 6 x)"
  by (simp add: and_3F)

text \<open>Splitting bytes into sextets and joining them again.\<close>

lemma byte_eqI:
  fixes a b :: byte
  assumes "bit a 0 = bit b 0" "bit a 1 = bit b 1" "bit a 2 = bit b 2" "bit a 3 = bit b 3"
    "bit a 4 = bit b 4" "bit a 5 = bit b 5" "bit a 6 = bit b 6" "bit a 7 = bit b 7"
  shows "a = b"
proof (rule bit_word_eqI)
  fix n assume "n < LENGTH(8)"
  then have "n \<in> {0, 1, 2, 3, 4, 5, 6, 7}" by auto
  then show "bit a n = bit b n" using assms by auto
qed

lemma byte_bit_high: "8 \<le> n \<Longrightarrow> \<not> bit (a :: byte) n"
  using bit_imp_le_length [of a n] by auto

lemma sextet_eqI:
  assumes "sextet b"
    and "bit a 0 = bit b 0" "bit a 1 = bit b 1" "bit a 2 = bit b 2" "bit a 3 = bit b 3"
    "bit a 4 = bit b 4" "bit a 5 = bit b 5"
  shows "take_bit 6 a = b"
proof (rule bit_word_eqI)
  fix n
  show "bit (take_bit 6 a) n = bit b n"
  proof (cases "n < 6")
    case True
    then have "n \<in> {0, 1, 2, 3, 4, 5}" by auto
    then show ?thesis using assms(2-) by (auto simp: bit_take_bit_iff)
  next
    case False
    then show ?thesis using sextet_bit assms(1) by (auto simp: bit_take_bit_iff)
  qed
qed

lemma sextet_bit_high: "sextet a \<Longrightarrow> 6 \<le> n \<Longrightarrow> \<not> bit a n"
  using sextet_bit by fastforce

lemma join_split3:
  fixes b1 b2 b3 :: byte and t :: "32 word"
  assumes "t = push_bit 16 (ucast b1) OR push_bit 8 (ucast b2) OR ucast b3"
  shows "join1 (take_bit 6 (drop_bit 18 t)) (take_bit 6 (drop_bit 12 t)) = b1"
    and "join2 (take_bit 6 (drop_bit 12 t)) (take_bit 6 (drop_bit 6 t)) = b2"
    and "join3 (take_bit 6 (drop_bit 6 t)) (take_bit 6 t) = b3"
  unfolding join1_def join2_def join3_def assms
  by (rule byte_eqI; simp add: bit_simps byte_bit_high)+

lemma join_split1:
  fixes b1 :: byte
  shows "join1 (take_bit 6 (drop_bit 2 (ucast b1))) (take_bit 6 (push_bit 4 (ucast b1))) = b1"
  unfolding join1_def by (rule byte_eqI; simp add: bit_simps byte_bit_high)

lemma join_split2:
  fixes b1 b2 :: byte and m :: "32 word"
  assumes "m = push_bit 4 (ucast b1) OR drop_bit 4 (ucast b2)"
  shows "join1 (take_bit 6 (drop_bit 2 (ucast b1))) (take_bit 6 m) = b1"
    and "join2 (take_bit 6 m) (take_bit 6 (push_bit 2 (ucast b2))) = b2"
  unfolding join1_def join2_def assms
  by (rule byte_eqI; simp add: bit_simps byte_bit_high)+

text \<open>Joining sextets into bytes and splitting them again, whole groups and short tails.\<close>

lemma split_join3:
  assumes "sextet a" "sextet b" "sextet c" "sextet d"
    and "t = push_bit 16 (ucast (join1 a b)) OR push_bit 8 (ucast (join2 b c)) OR ucast (join3 c d)"
  shows "take_bit 6 (drop_bit 18 t) = a" "take_bit 6 (drop_bit 12 t) = b"
    "take_bit 6 (drop_bit 6 t) = c" "take_bit 6 t = d"
  using assms(1-4) unfolding join1_def join2_def join3_def assms(5)
  by (intro sextet_eqI; simp add: bit_simps sextet_bit_high)+

lemma low_bits_zero:
  "take_bit n x = (0 :: 32 word) \<Longrightarrow> i < n \<Longrightarrow> \<not> bit x i"
  by (metis bit_0_eq bit_take_bit_iff bot_apply bot_bool_def)

lemma split_join1:
  assumes "sextet a" "sextet b" "take_bit 4 b = 0"
  shows "take_bit 6 (drop_bit 2 (ucast (join1 a b) :: 32 word)) = a"
    "take_bit 6 (push_bit 4 (ucast (join1 a b) :: 32 word)) = b"
  using assms unfolding join1_def
  by (intro sextet_eqI; simp add: bit_simps sextet_bit_high low_bits_zero)+

lemma split_join2:
  assumes "sextet a" "sextet b" "sextet c" "take_bit 2 c = 0"
  shows "take_bit 6 (drop_bit 2 (ucast (join1 a b) :: 32 word)) = a"
    "take_bit 6 (push_bit 4 (ucast (join1 a b) :: 32 word) OR drop_bit 4 (ucast (join2 b c))) = b"
    "take_bit 6 (push_bit 2 (ucast (join2 b c) :: 32 word)) = c"
  using assms unfolding join1_def join2_def
  by (intro sextet_eqI; simp add: bit_simps sextet_bit_high low_bits_zero)+

section \<open>Base64url round trips\<close>

text \<open>What the check on the unused bits reads: the low bits of the last sextet.\<close>

lemma mask_check: "acc AND (2 ^ p - 1) = take_bit p (acc :: 32 word)"
  by (simp add: take_bit_eq_mask mask_eq_exp_minus_1)

lemma take_bit_shift_in: "p \<le> 6 \<Longrightarrow> take_bit p (shift_in acc x) = take_bit p x"
  unfolding shift_in_def by (rule bit_word_eqI) (auto simp: bit_simps)

lemma encode3:
  obtains a b c d where "sextet a" "sextet b" "sextet c" "sextet d"
    "join1 a b = b1" "join2 b c = b2" "join3 c d = b3"
    "toBase64Url (b1 # b2 # b3 # rest) = b64sym a # b64sym b # b64sym c # b64sym d # toBase64Url rest"
proof -
  define t where "t = (push_bit 16 (ucast b1) OR push_bit 8 (ucast b2) OR ucast b3 :: 32 word)"
  show thesis
    by (rule that [of "take_bit 6 (drop_bit 18 t)" "take_bit 6 (drop_bit 12 t)"
            "take_bit 6 (drop_bit 6 t)" "take_bit 6 t"])
      (simp_all only: sextet_take_bit join_split3 [OF t_def] toBase64Url.simps Let_def byteValue_def
        t_def [symmetric] b64_sym)
qed

lemma encode1:
  obtains a b where "sextet a" "sextet b" "take_bit 4 b = 0" "join1 a b = b1"
    "toBase64Url [b1] = [b64sym a, b64sym b]"
proof -
  have "take_bit 4 (take_bit 6 (push_bit 4 (ucast b1 :: 32 word))) = 0"
    by (rule bit_word_eqI) (auto simp: bit_simps)
  then show thesis
    by (intro that) (simp_all only: sextet_take_bit join_split1 toBase64Url.simps byteValue_def b64_sym)
qed

lemma encode2:
  obtains a b c where "sextet a" "sextet b" "sextet c" "take_bit 2 c = 0"
    "join1 a b = b1" "join2 b c = b2" "toBase64Url [b1, b2] = [b64sym a, b64sym b, b64sym c]"
proof -
  define m where "m = (push_bit 4 (ucast b1) OR drop_bit 4 (ucast b2) :: 32 word)"
  have "take_bit 2 (take_bit 6 (push_bit 2 (ucast b2 :: 32 word))) = 0"
    by (rule bit_word_eqI) (auto simp: bit_simps)
  then show thesis
    by (intro that [of _ "take_bit 6 m"])
      (simp_all only: sextet_take_bit join_split2 [OF m_def] toBase64Url.simps byteValue_def
        m_def [symmetric] b64_sym)
qed

lemma loop_toBase64Url:
  "\<exists>acc' p. fromBase64Url_loop (toBase64Url bs) acc 0 out = Some (Inr (acc', p, out @ bs))
     \<and> take_bit p acc' = 0"
proof (induction bs arbitrary: acc out rule: toBase64Url.induct)
  case (1 b1 b2 b3 rest)
  obtain a b c d where enc: "sextet a" "sextet b" "sextet c" "sextet d"
      "join1 a b = b1" "join2 b c = b2" "join3 c d = b3"
      "toBase64Url (b1 # b2 # b3 # rest) = b64sym a # b64sym b # b64sym c # b64sym d # toBase64Url rest"
    by (rule encode3)
  show ?case
    unfolding enc(8)
    using 1 [OF refl, of "shift_in (shift_in (shift_in (shift_in acc a) b) c) d" "out @ [b1, b2, b3]"]
      enc(1-7)
    by (simp add: loop_group del: fromBase64Url_loop.simps)
next
  case (2 b1)
  show ?case
    by (rule encode1 [of b1])
      (simp add: loop_group take_bit_shift_in del: fromBase64Url_loop.simps(2) toBase64Url.simps)
next
  case (3 b1 b2)
  show ?case
    by (rule encode2 [of b1 b2])
      (simp add: loop_group take_bit_shift_in del: fromBase64Url_loop.simps(2) toBase64Url.simps)
next
  case 4
  show ?case by simp
qed

lemma toBase64Url_symbols: "set (toBase64Url bs) \<subseteq> set kBase64UrlAlphabet"
proof -
  have b64sym: "b64 x \<in> set kBase64UrlAlphabet" for x
    using unat_sextet [OF sextet_take_bit, of x] by (simp add: b64_sym)
  show ?thesis
    by (induction bs rule: toBase64Url.induct) (simp_all add: Let_def b64sym)
qed

lemma strip_padding_id:
  assumes "CHR ''='' \<notin> set text"
  shows "strip_padding text = text"
proof -
  have "dropWhile ((=) (CHR ''='')) (rev text) = rev text"
    using assms hd_in_set [of "rev text"] unfolding dropWhile_eq_self_iff by fastforce
  then show ?thesis by (simp add: strip_padding_def)
qed

lemma length_toBase64Url_mod: "length (toBase64Url bs) mod 4 \<noteq> 1"
  by (induction bs rule: toBase64Url.induct) (simp_all add: Let_def)

lemma fromBase64Url_toBase64Url: "fromBase64Url (toBase64Url bs) = Some (Inr bs)"
proof -
  have "strip_padding (toBase64Url bs) = toBase64Url bs"
    using toBase64Url_symbols alphabet_no_padding by (intro strip_padding_id) blast
  moreover obtain acc' p where "fromBase64Url_loop (toBase64Url bs) 0 0 [] = Some (Inr (acc', p, bs))"
      "take_bit p acc' = 0"
    using loop_toBase64Url [of bs 0 "[]"] by auto
  ultimately show ?thesis
    using length_toBase64Url_mod [of bs] by (simp add: fromBase64Url_def mask_check)
qed

fun groups4 :: "'a list \<Rightarrow> nat" where
  "groups4 (w # x # y # z # rest) = Suc (groups4 rest)"
| "groups4 [x, y, z] = 0"
| "groups4 [x, y] = 0"
| "groups4 [x] = 0"
| "groups4 [] = 0"

lemma loop_twoE:
  assumes "fromBase64Url_loop (s1 # s2 # rest) acc 0 out = Some (Inr r)"
  obtains a b where "sextet a" "sextet b" "s1 = b64sym a" "s2 = b64sym b"
    "fromBase64Url_loop rest (shift_in (shift_in acc a) b) 4 (out @ [join1 a b]) = Some (Inr r)"
proof -
  obtain a where a: "sextet a" "s1 = b64sym a"
    using assms by (rule loop_ConsE)
  have "fromBase64Url_loop (s2 # rest) (shift_in acc a) 6 out = Some (Inr r)"
    using assms unfolding a(2) loop_sym [OF a(1)] by (simp add: Let_def del: fromBase64Url_loop.simps)
  then obtain b where "sextet b" "s2 = b64sym b"
    by (rule loop_ConsE)
  with a assms that show thesis by (simp add: loop_two del: fromBase64Url_loop.simps)
qed

lemma loop_threeE:
  assumes "fromBase64Url_loop (s3 # rest) (shift_in acc b) 4 out = Some (Inr r)" "sextet b"
  obtains c where "sextet c" "s3 = b64sym c"
    "fromBase64Url_loop rest (shift_in (shift_in acc b) c) 2 (out @ [join2 b c]) = Some (Inr r)"
  by (rule loop_ConsE [OF assms(1)])
    (use assms that in \<open>simp add: loop_third del: fromBase64Url_loop.simps\<close>)

lemma loop_fourE:
  assumes "fromBase64Url_loop (s4 # rest) (shift_in acc c) 2 out = Some (Inr r)" "sextet c"
  obtains d where "sextet d" "s4 = b64sym d"
    "fromBase64Url_loop rest (shift_in (shift_in acc c) d) 0 (out @ [join3 c d]) = Some (Inr r)"
  by (rule loop_ConsE [OF assms(1)])
    (use assms that in \<open>simp add: loop_fourth del: fromBase64Url_loop.simps\<close>)

lemma encode_join3:
  assumes "sextet a" "sextet b" "sextet c" "sextet d"
  shows "toBase64Url (join1 a b # join2 b c # join3 c d # rest)
    = b64sym a # b64sym b # b64sym c # b64sym d # toBase64Url rest"
  by (simp only: toBase64Url.simps Let_def byteValue_def b64_sym split_join3 [OF assms refl])

lemma encode_join2:
  assumes "sextet a" "sextet b" "sextet c" "take_bit 2 c = 0"
  shows "toBase64Url [join1 a b, join2 b c] = [b64sym a, b64sym b, b64sym c]"
  by (simp only: toBase64Url.simps byteValue_def b64_sym split_join2 [OF assms])

lemma encode_join1:
  assumes "sextet a" "sextet b" "take_bit 4 b = 0"
  shows "toBase64Url [join1 a b] = [b64sym a, b64sym b]"
  by (simp only: toBase64Url.simps byteValue_def b64_sym split_join1 [OF assms])

lemma loop_canonical:
  "fromBase64Url_loop text acc 0 out = Some (Inr (acc', p, out')) \<Longrightarrow> take_bit p acc' = 0 \<Longrightarrow>
   length text mod 4 \<noteq> 1 \<Longrightarrow> \<exists>bs. out' = out @ bs \<and> toBase64Url bs = text"
proof (induction "text" arbitrary: acc out rule: groups4.induct)
  case (1 s1 s2 s3 s4 rest)
  obtain a b where ab: "sextet a" "sextet b" "s1 = b64sym a" "s2 = b64sym b"
      "fromBase64Url_loop (s3 # s4 # rest) (shift_in (shift_in acc a) b) 4 (out @ [join1 a b])
        = Some (Inr (acc', p, out'))"
    using "1.prems"(1) by (rule loop_twoE)
  obtain c where c: "sextet c" "s3 = b64sym c"
      "fromBase64Url_loop (s4 # rest) (shift_in (shift_in (shift_in acc a) b) c) 2
        ((out @ [join1 a b]) @ [join2 b c]) = Some (Inr (acc', p, out'))"
    using ab(5,2) by (rule loop_threeE)
  obtain d where d: "sextet d" "s4 = b64sym d"
      "fromBase64Url_loop rest (shift_in (shift_in (shift_in (shift_in acc a) b) c) d) 0
        (((out @ [join1 a b]) @ [join2 b c]) @ [join3 c d]) = Some (Inr (acc', p, out'))"
    using c(3,1) by (rule loop_fourE)
  obtain bs where "out' = (((out @ [join1 a b]) @ [join2 b c]) @ [join3 c d]) @ bs" "toBase64Url bs = rest"
    using "1.IH" [OF d(3)] "1.prems"(2,3) by auto
  then show ?case
    using encode_join3 [OF ab(1,2) c(1) d(1)] ab(3,4) c(2) d(2)
    by (intro exI [of _ "join1 a b # join2 b c # join3 c d # bs"]) (simp del: toBase64Url.simps)
next
  case (2 s1 s2 s3)
  obtain a b where ab: "sextet a" "sextet b" "s1 = b64sym a" "s2 = b64sym b"
      "fromBase64Url_loop [s3] (shift_in (shift_in acc a) b) 4 (out @ [join1 a b])
        = Some (Inr (acc', p, out'))"
    using "2.prems"(1) by (rule loop_twoE)
  obtain c where c: "sextet c" "s3 = b64sym c"
      "fromBase64Url_loop [] (shift_in (shift_in (shift_in acc a) b) c) 2
        ((out @ [join1 a b]) @ [join2 b c]) = Some (Inr (acc', p, out'))"
    using ab(5,2) by (rule loop_threeE)
  then have "take_bit 2 c = 0"
    using "2.prems"(2) by (auto simp: take_bit_shift_in)
  then show ?case
    using c(3) ab(3,4) c(2) encode_join2 [OF ab(1,2) c(1)]
    by (intro exI [of _ "[join1 a b, join2 b c]"]) (simp del: toBase64Url.simps)
next
  case (3 s1 s2)
  obtain a b where ab: "sextet a" "sextet b" "s1 = b64sym a" "s2 = b64sym b"
      "fromBase64Url_loop [] (shift_in (shift_in acc a) b) 4 (out @ [join1 a b])
        = Some (Inr (acc', p, out'))"
    using "3.prems"(1) by (rule loop_twoE)
  then have "take_bit 4 b = 0"
    using "3.prems"(2) by (auto simp: take_bit_shift_in)
  then show ?case
    using ab(3-5) encode_join1 [OF ab(1,2)]
    by (intro exI [of _ "[join1 a b]"]) (simp del: toBase64Url.simps)
qed simp_all

lemma fromBase64Url_canonical:
  assumes "fromBase64Url text = Some (Inr bs)"
  shows "toBase64Url bs = strip_padding text"
proof -
  obtain acc p where loop: "fromBase64Url_loop (strip_padding text) 0 0 [] = Some (Inr (acc, p, bs))"
      and zero: "take_bit p acc = 0" and len: "length (strip_padding text) mod 4 \<noteq> 1"
    using assms by (auto simp: fromBase64Url_def Let_def mask_check split: if_splits option.splits sum.splits)
  show ?thesis
    using loop_canonical [OF loop zero len] by simp
qed

lemma fromBase64Url_loop_no_abort:
  "p < 8 \<Longrightarrow> fromBase64Url_loop text acc p out \<noteq> None"
  by (induction "text" arbitrary: acc p out) (auto simp: Let_def)

lemma fromBase64Url_total: "fromBase64Url text \<noteq> None"
  using fromBase64Url_loop_no_abort [of 0 "strip_padding text" 0 "[]"]
  by (auto simp: fromBase64Url_def Let_def split: option.split sum.split prod.split)

text \<open>
  base64url is a faithful and canonical codec: decoding what \<^verbatim>\<open>toBase64Url\<close> wrote gives
  back the bytes, the decoder never aborts on its internal invariant, and a text it accepts is,
  up to trailing \<open>=\<close>, the one text the encoder writes for the result. Two accepted texts of
  one value therefore differ in padding only.
\<close>

theorem base64url_codec:
  "fromBase64Url (toBase64Url bytes) = Some (Inr bytes)
   \<and> fromBase64Url text \<noteq> None
   \<and> (fromBase64Url text = Some (Inr out) \<longrightarrow> strip_padding text = toBase64Url out)"
  by (intro conjI impI fromBase64Url_toBase64Url fromBase64Url_total
      fromBase64Url_canonical [symmetric])

theorem base64url_codec_witness:
  "fromBase64Url ''QUI='' = Some (Inr [65, 66]) \<and> strip_padding ''QUI='' = toBase64Url [65, 66]"
proof -
  have enc: "toBase64Url [65, 66] = ''QUI''"
    by (simp add: byteValue_def kBase64UrlAlphabet_def)
  have "strip_padding ''QUI='' = ''QUI''" "strip_padding ''QUI'' = ''QUI''"
    by (simp_all add: strip_padding_def)
  then have "fromBase64Url ''QUI='' = fromBase64Url ''QUI''"
    by (simp only: fromBase64Url_def)
  moreover have "fromBase64Url ''QUI'' = Some (Inr [65, 66])"
    using base64url_codec [of "[65, 66]" "[]" "[]"] by (simp only: enc)
  ultimately have "fromBase64Url ''QUI='' = Some (Inr [65, 66])"
    by simp
  then show ?thesis
    using base64url_codec [of "[]" "''QUI=''" "[65, 66]"] by simp
qed

text \<open>
  Hexadecimal keys identify digests: \<^verbatim>\<open>fromHex\<close> undoes \<^verbatim>\<open>toHex\<close>, so the
  repositories' string keys (\<^verbatim>\<open>toHex(digest.bytes())\<close>) are equal exactly for equal digests.
\<close>

theorem hex_codec:
  "fromHex (toHex bytes) = Inr bytes \<and> length (toHex bytes) = 2 * length bytes
   \<and> (toHex bytes = toHex other \<longleftrightarrow> bytes = other)"
  by (simp add: fromHex_toHex toHex_inj)

end
