(* ===== verification/Security.thy ===== *)
theory Security
  imports Encoding
begin

text \<open>
  The crypto boundary \<^verbatim>\<open>src/src/security/random.cpp\<close> and \<^verbatim>\<open>hash.cpp\<close>, and what one
  call of a service reads from outside the process. OpenSSL and the system clock are not part of
  the repository: they are the fields of \<open>env\<close>, an argument of every operation that uses them.
\<close>

text \<open>
  \<open>env_now i\<close> is the reading of the injected clock at the i-th point of the operation that reads
  it, the points numbered in program order (one on a path not taken leaves a gap);
  \<open>env_RAND_bytes i n\<close> is the buffer \<^verbatim>\<open>RAND_bytes\<close> fills for count \<open>n\<close> at the i-th point
  that draws randomness (\<open>None\<close> when it fails); \<open>env_from k\<close> is what an operation called after
  \<open>k\<close> such points sees; \<open>env_HMAC\<close> and \<open>env_SHA256\<close> are the digests of the crypto library (\<open>None\<close> when it
  reports an error).
\<close>

record env =
  env_now :: "nat \<Rightarrow> Instant"
  env_RAND_bytes :: "nat \<Rightarrow> nat \<Rightarrow> byte list option"
  env_HMAC :: "string \<Rightarrow> string \<Rightarrow> byte list option"
  env_SHA256 :: "string \<Rightarrow> byte list option"

definition env_from :: "nat \<Rightarrow> env \<Rightarrow> env" where
  "env_from k E = E\<lparr>env_now := \<lambda>i. env_now E (k + i),
                     env_RAND_bytes := \<lambda>i. env_RAND_bytes E (k + i)\<rparr>"

lemma env_from_simps [simp]:
  "env_now (env_from k E) i = env_now E (k + i)"
  "env_RAND_bytes (env_from k E) i = env_RAND_bytes E (k + i)"
  "env_HMAC (env_from k E) = env_HMAC E" "env_SHA256 (env_from k E) = env_SHA256 E"
  by (simp_all add: env_from_def)

text \<open>Documented behaviour of the library, as a hypothesis where a theorem needs it.\<close>

definition crypto_available :: "env \<Rightarrow> bool" where
  "crypto_available E \<longleftrightarrow>
     (\<forall>i n. \<exists>bs. env_RAND_bytes E i n = Some bs \<and> length bs = n)
     \<and> (\<forall>key data. \<exists>d. env_HMAC E key data = Some d \<and> length d = 32)
     \<and> (\<forall>data. \<exists>d. env_SHA256 E data = Some d \<and> length d = 32)"

definition int_max :: nat where
  "int_max = 2147483647"

definition randomBytes :: "env \<Rightarrow> nat \<Rightarrow> nat \<Rightarrow> byte list Result" where
  "randomBytes E i n =
     (if n = 0 then Inr []
      else if n > int_max
      then fail_msg InvalidArgument ''Requested random byte count is too large.''
      else (case env_RAND_bytes E i n of
              None \<Rightarrow> fail_detail Internal (defaultErrorMessage Internal)
                        ''The cryptographic random number generator failed.''
            | Some buffer \<Rightarrow> Inr buffer))"

definition randomTokenBase64Url :: "env \<Rightarrow> nat \<Rightarrow> nat \<Rightarrow> string Result" where
  "randomTokenBase64Url E i byteCount =
     (case randomBytes E i byteCount of
        Inl e \<Rightarrow> Inl e
      | Inr bytes \<Rightarrow> Inr (toBase64Url bytes))"

definition sha256 :: "env \<Rightarrow> string \<Rightarrow> byte list Result" where
  "sha256 E data =
     (case env_SHA256 E data of
        Some digest \<Rightarrow>
          if length digest = 32 then Inr digest
          else fail_detail Internal (defaultErrorMessage Internal)
                 ''SHA-256 computation failed in the cryptographic provider.''
      | None \<Rightarrow> fail_detail Internal (defaultErrorMessage Internal)
                 ''SHA-256 computation failed in the cryptographic provider.'')"

definition hmacSha256 :: "env \<Rightarrow> string \<Rightarrow> string \<Rightarrow> byte list Result" where
  "hmacSha256 E key data =
     (if key = [] then fail_msg InvalidArgument ''An HMAC key must not be empty.''
      else if length key > int_max then fail_msg InvalidArgument ''The HMAC key is too large.''
      else (case env_HMAC E key data of
              Some digest \<Rightarrow>
                if length digest = 32 then Inr digest
                else fail_detail Internal (defaultErrorMessage Internal)
                       ''HMAC-SHA-256 computation failed in the cryptographic provider.''
            | None \<Rightarrow> fail_detail Internal (defaultErrorMessage Internal)
                       ''HMAC-SHA-256 computation failed in the cryptographic provider.''))"

definition constantTimeEquals :: "'a list \<Rightarrow> 'a list \<Rightarrow> bool" where
  "constantTimeEquals left right =
     (if length left \<noteq> length right then False
      else if left = [] then True
      else left = right)"

lemma constantTimeEquals_iff [simp]: "constantTimeEquals l r = (l = r)"
  by (auto simp: constantTimeEquals_def)

lemma crypto_available_from [simp]: "crypto_available E \<Longrightarrow> crypto_available (env_from k E)"
  by (simp add: crypto_available_def)

lemma hmac_from [simp]: "hmacSha256 (env_from k E) = hmacSha256 E"
  by (simp add: hmacSha256_def fun_eq_iff)

lemma sha256_from [simp]: "sha256 (env_from k E) = sha256 E"
  by (simp add: sha256_def fun_eq_iff)

lemma hmac_HMAC: "env_HMAC E' = env_HMAC E \<Longrightarrow> hmacSha256 E' = hmacSha256 E"
  by (simp add: hmacSha256_def fun_eq_iff)

lemma sha256_length: "sha256 E data = Inr h \<Longrightarrow> length h = 32"
  by (auto simp: sha256_def split: option.splits if_splits)

lemma hmac_length: "hmacSha256 E key data = Inr d \<Longrightarrow> length d = 32"
  by (auto simp: hmacSha256_def split: if_splits option.splits)

lemma crypto_hmac:
  assumes "crypto_available E" "key \<noteq> []" "length key \<le> int_max"
  shows "\<exists>d. hmacSha256 E key data = Inr d"
proof -
  obtain d where "env_HMAC E key data = Some d" "length d = 32"
    using assms(1) unfolding crypto_available_def by blast
  with assms(2,3) show ?thesis by (simp add: hmacSha256_def)
qed

lemma crypto_random_bytes:
  assumes "crypto_available E" "n \<le> int_max"
  shows "\<exists>bs. randomBytes E i n = Inr bs \<and> length bs = n"
proof -
  obtain bs where "env_RAND_bytes E i n = Some bs" "length bs = n"
    using assms(1) unfolding crypto_available_def by blast
  with assms(2) show ?thesis by (simp add: randomBytes_def)
qed

lemma length_toBase64Url_pos: "bs \<noteq> [] \<Longrightarrow> toBase64Url bs \<noteq> []"
  by (cases bs rule: toBase64Url.cases) (auto simp: Let_def)

lemma length_toBase64Url: "length (toBase64Url bs) = (4 * length bs + 2) div 3"
  by (induction bs rule: toBase64Url.induct) (simp_all add: Let_def)

lemma length_toBase64Url_32: "length bs = 32 \<Longrightarrow> length (toBase64Url bs) = 43"
  by (simp add: length_toBase64Url)

lemma crypto_random_token:
  assumes "crypto_available E" "0 < n" "n \<le> int_max"
  obtains s where "randomTokenBase64Url E i n = Inr s" "s \<noteq> []"
  using crypto_random_bytes [OF assms(1,3), of i] assms(2) that
  by (auto simp: randomTokenBase64Url_def dest: length_toBase64Url_pos)

text \<open>A concrete environment, on which the examples of the components run.\<close>

definition sample_env :: env where
  "sample_env =
     \<lparr>env_now = \<lambda>i. 100 + int i, env_RAND_bytes = \<lambda>i n. Some (replicate n (of_nat i)),
      env_HMAC = \<lambda>key data. Some (replicate 32 (if data = ''tok'' then 1 else 2)),
      env_SHA256 = \<lambda>data. Some (replicate 32 3)\<rparr>"

lemma sample_env_now [simp]: "env_now sample_env i = 100 + int i"
  by (simp add: sample_env_def)

lemma sample_env_random [simp]:
  "0 < n \<Longrightarrow> n \<le> 64 \<Longrightarrow>
   randomTokenBase64Url sample_env i n = Inr (toBase64Url (replicate n (of_nat i)))"
  by (simp add: sample_env_def randomTokenBase64Url_def randomBytes_def int_max_def)

lemma sample_token_neq [simp]:
  "0 < n \<Longrightarrow> toBase64Url (replicate n b) \<noteq> []"
  "toBase64Url (replicate 32 b) \<noteq> ''tok''" "toBase64Url (replicate 32 b) \<noteq> ''a''"
  by (simp add: length_toBase64Url_pos,
      auto dest: arg_cong [of _ _ length] simp: length_toBase64Url)

end
