(* ===== verification/Provider.thy ===== *)
theory Provider
  imports Security
begin

text \<open>
  The authentication provider SPI: assurance levels and strength
  (\<^verbatim>\<open>src/src/identity/provider/assurance.cpp\<close>), verified claims, evidence and the outcome
  every provider reduces to (\<^verbatim>\<open>outcome.cpp\<close>).
\<close>

datatype ProviderIdTag = ProviderIdTag
datatype ExternalSubjectTag = ExternalSubjectTag
datatype IdentityIdTag = IdentityIdTag
datatype CorrelationIdTag = CorrelationIdTag
datatype OrganizationIdTag = OrganizationIdTag

type_synonym ProviderId = "ProviderIdTag StrongId"
type_synonym ExternalSubject = "ExternalSubjectTag StrongId"
type_synonym IdentityId = "IdentityIdTag StrongId"
type_synonym CorrelationId = "CorrelationIdTag StrongId"
type_synonym OrganizationId = "OrganizationIdTag StrongId"
type_synonym AttributeMap = "(string, string) omap"

section \<open>Assurance\<close>

datatype AssuranceLevel = Ial0 | Ial1 | Ial2 | Ial3 | Ial4

fun assuranceValue :: "AssuranceLevel \<Rightarrow> 8 word" where
  "assuranceValue Ial0 = 0" | "assuranceValue Ial1 = 1" | "assuranceValue Ial2 = 2"
| "assuranceValue Ial3 = 3" | "assuranceValue Ial4 = 4"

fun assuranceLevelName :: "AssuranceLevel \<Rightarrow> string" where
  "assuranceLevelName Ial0 = ''ial0''" | "assuranceLevelName Ial1 = ''ial1''"
| "assuranceLevelName Ial2 = ''ial2''" | "assuranceLevelName Ial3 = ''ial3''"
| "assuranceLevelName Ial4 = ''ial4''"

definition meetsAssurance :: "AssuranceLevel \<Rightarrow> AssuranceLevel \<Rightarrow> bool" where
  "meetsAssurance actual required = (assuranceValue actual \<ge> assuranceValue required)"

lemma assuranceValue_inj: "assuranceValue a = assuranceValue b \<longleftrightarrow> a = b"
  by (cases a; cases b) simp_all

instantiation AssuranceLevel :: linorder
begin

definition less_eq_AssuranceLevel :: "AssuranceLevel \<Rightarrow> AssuranceLevel \<Rightarrow> bool" where
  "less_eq_AssuranceLevel a b = (assuranceValue a \<le> assuranceValue b)"

definition less_AssuranceLevel :: "AssuranceLevel \<Rightarrow> AssuranceLevel \<Rightarrow> bool" where
  "less_AssuranceLevel a b = (assuranceValue a < assuranceValue b)"

instance
  by standard
    (auto simp: less_eq_AssuranceLevel_def less_AssuranceLevel_def less_le assuranceValue_inj)

end

lemma meetsAssurance_iff: "meetsAssurance actual required = (required \<le> actual)"
  by (simp add: meetsAssurance_def less_eq_AssuranceLevel_def)

section \<open>Factors and strength\<close>

type_synonym AuthenticationFactor = "8 word"

definition Factor_None :: AuthenticationFactor where "Factor_None = 0"
definition Factor_Knowledge :: AuthenticationFactor where "Factor_Knowledge = 1"
definition Factor_Possession :: AuthenticationFactor where "Factor_Possession = 2"
definition Factor_Inherence :: AuthenticationFactor where "Factor_Inherence = 4"

definition containsFactor :: "AuthenticationFactor \<Rightarrow> AuthenticationFactor \<Rightarrow> bool" where
  "containsFactor factors wanted = (and factors wanted = wanted)"

record AuthenticationStrength =
  strength_factors :: AuthenticationFactor
  strength_phishingResistant :: bool

definition popcount :: "8 word \<Rightarrow> nat" where
  "popcount w = length (filter (bit w) [0 ..< 8])"

definition isMultiFactor :: "AuthenticationStrength \<Rightarrow> bool" where
  "isMultiFactor s = (popcount (strength_factors s) \<ge> 2)"

section \<open>Claims, evidence, outcome\<close>

datatype ClaimName =
    Email | EmailVerified | PhoneNumber | PhoneNumberVerified | DisplayName
  | PreferredUsername | Locale | PictureUrl

fun claimNameKey :: "ClaimName \<Rightarrow> string" where
  "claimNameKey Email = ''email''"
| "claimNameKey EmailVerified = ''email_verified''"
| "claimNameKey PhoneNumber = ''phone_number''"
| "claimNameKey PhoneNumberVerified = ''phone_number_verified''"
| "claimNameKey DisplayName = ''display_name''"
| "claimNameKey PreferredUsername = ''preferred_username''"
| "claimNameKey Locale = ''locale''"
| "claimNameKey PictureUrl = ''picture_url''"

definition VerifiedClaims_set :: "ClaimName \<Rightarrow> string \<Rightarrow> AttributeMap \<Rightarrow> AttributeMap" where
  "VerifiedClaims_set name value m = omap_insert_or_assign (claimNameKey name) value m"

definition VerifiedClaims_setExtension :: "string \<Rightarrow> string \<Rightarrow> AttributeMap \<Rightarrow> AttributeMap" where
  "VerifiedClaims_setExtension key value m = omap_insert_or_assign key value m"

definition VerifiedClaims_getExtension :: "AttributeMap \<Rightarrow> string \<Rightarrow> string option" where
  "VerifiedClaims_getExtension m key = map_of m key"

definition VerifiedClaims_get :: "AttributeMap \<Rightarrow> ClaimName \<Rightarrow> string option" where
  "VerifiedClaims_get m name = VerifiedClaims_getExtension m (claimNameKey name)"

definition VerifiedClaims_isTrue :: "AttributeMap \<Rightarrow> ClaimName \<Rightarrow> bool" where
  "VerifiedClaims_isTrue m name =
     (case VerifiedClaims_get m name of
        None \<Rightarrow> False
      | Some value \<Rightarrow> value = ''true'' \<or> value = ''1'')"

definition ProviderEvidence_add :: "string \<Rightarrow> string \<Rightarrow> AttributeMap \<Rightarrow> AttributeMap" where
  "ProviderEvidence_add key value m = omap_insert_or_assign key value m"

record AuthenticationOutcome =
  outcome_provider :: ProviderId
  outcome_subject :: ExternalSubject
  outcome_claims :: AttributeMap
  outcome_claimedAssurance :: AssuranceLevel
  outcome_strength :: AuthenticationStrength
  outcome_evidence :: AttributeMap
  outcome_verifiedAt :: Instant

definition AuthenticationOutcome_create ::
    "ProviderId \<Rightarrow> ExternalSubject \<Rightarrow> AttributeMap \<Rightarrow> AssuranceLevel \<Rightarrow> AuthenticationStrength
     \<Rightarrow> AttributeMap \<Rightarrow> Instant \<Rightarrow> AuthenticationOutcome Result" where
  "AuthenticationOutcome_create provider subject claims claimedAssurance strength evidence verifiedAt =
     (if StrongId_empty provider
      then fail_msg InvalidArgument ''An authentication outcome must name its provider.''
      else if StrongId_empty subject
      then fail_detail InvalidArgument ''An authentication outcome must carry a subject identifier.''
             (''A provider returned an outcome with an empty external subject; accepting it ''
              @ ''would bind a session to no identity.'')
      else Inr \<lparr>outcome_provider = provider, outcome_subject = subject, outcome_claims = claims,
                outcome_claimedAssurance = claimedAssurance, outcome_strength = strength,
                outcome_evidence = evidence, outcome_verifiedAt = verifiedAt\<rparr>)"

record ClientContext =
  client_remoteAddress :: string
  client_userAgent :: string

text \<open>
  A claim that was set is what a later read returns, whatever was set before; distinct claim
  names never share a key.
\<close>

lemma claimNameKey_inj: "claimNameKey a = claimNameKey b \<longleftrightarrow> a = b"
  by (cases a; cases b) simp_all

lemma claims_get_set:
  "omap_ok m \<Longrightarrow> VerifiedClaims_get (VerifiedClaims_set n v m) n' =
     (if n' = n then Some v else VerifiedClaims_get m n')"
  by (auto simp: VerifiedClaims_get_def VerifiedClaims_set_def VerifiedClaims_getExtension_def
      map_of_insert_or_assign claimNameKey_inj)

end
