(* ===== verification/Session.thy ===== *)
theory Session
  imports Provider
begin

text \<open>
  Revocable login sessions: the aggregate (\<^verbatim>\<open>src/src/session/model.cpp\<close>), the in-memory
  repository (\<^verbatim>\<open>repository.cpp\<close>) with its index from token digests to sessions, and the
  contract of the repository over every sequence of calls. The repository's mutex makes each call
  one atomic step, so a concurrent history is a sequence of calls.
\<close>

datatype SessionIdTag = SessionIdTag
type_synonym SessionId = "SessionIdTag StrongId"
type_synonym TokenDigest = "byte list"

datatype SessionState = Active | Revoked | Expired

fun sessionStateName :: "SessionState \<Rightarrow> string" where
  "sessionStateName Active = ''active''"
| "sessionStateName Revoked = ''revoked''"
| "sessionStateName Expired = ''expired''"

record Session =
  session_id :: SessionId
  session_identity :: IdentityId
  session_provider :: ProviderId
  session_assurance :: AssuranceLevel
  session_strength :: AuthenticationStrength
  session_state :: SessionState
  session_authenticatedAt :: Instant
  session_tokenDigest :: TokenDigest
  session_issuedAt :: Instant
  session_lastSeenAt :: Instant
  session_absoluteExpiresAt :: Instant
  session_idleTimeout :: Duration
  session_revokedAt :: "Instant option"
  session_userAgent :: "string option"
  session_remoteAddress :: "string option"

definition metadata_too_large :: "string option \<Rightarrow> nat \<Rightarrow> bool" where
  "metadata_too_large v limit = (case v of None \<Rightarrow> False | Some s \<Rightarrow> length s > limit)"

text \<open>The private constructor: an active session last seen when it was issued.\<close>

definition Session_new ::
    "SessionId \<Rightarrow> IdentityId \<Rightarrow> ProviderId \<Rightarrow> AssuranceLevel \<Rightarrow> AuthenticationStrength \<Rightarrow> Instant
     \<Rightarrow> TokenDigest \<Rightarrow> Instant \<Rightarrow> Instant \<Rightarrow> Duration \<Rightarrow> string option \<Rightarrow> string option \<Rightarrow> Session" where
  "Session_new sid identity provider assurance strength authenticatedAt tokenDigest issuedAt
     absoluteExpiresAt idleTimeout userAgent remoteAddress =
     \<lparr>session_id = sid, session_identity = identity, session_provider = provider,
      session_assurance = assurance, session_strength = strength, session_state = Active,
      session_authenticatedAt = authenticatedAt, session_tokenDigest = tokenDigest,
      session_issuedAt = issuedAt, session_lastSeenAt = issuedAt,
      session_absoluteExpiresAt = absoluteExpiresAt, session_idleTimeout = idleTimeout,
      session_revokedAt = None, session_userAgent = userAgent,
      session_remoteAddress = remoteAddress\<rparr>"

definition Session_create ::
    "SessionId \<Rightarrow> IdentityId \<Rightarrow> ProviderId \<Rightarrow> AssuranceLevel \<Rightarrow> AuthenticationStrength \<Rightarrow> Instant
     \<Rightarrow> TokenDigest \<Rightarrow> Instant \<Rightarrow> Duration \<Rightarrow> Duration \<Rightarrow> string option \<Rightarrow> string option
     \<Rightarrow> Session Result" where
  "Session_create sid identity provider assurance strength authenticatedAt tokenDigest issuedAt
     absoluteLifetime idleTimeout userAgent remoteAddress =
     (if StrongId_empty sid \<or> StrongId_empty identity \<or> StrongId_empty provider
      then fail_msg InvalidArgument ''A session must name its id, identity and provider.''
      else if absoluteLifetime \<le> 0 \<or> idleTimeout \<le> 0
      then fail_msg InvalidArgument ''Session lifetimes must be positive.''
      else if authenticatedAt > issuedAt
      then fail_msg InvalidArgument ''A session cannot predate its authentication.''
      else if metadata_too_large userAgent 1024 \<or> metadata_too_large remoteAddress 128
      then fail_msg InvalidArgument ''Session client metadata is too large.''
      else Inr (Session_new sid identity provider assurance strength authenticatedAt tokenDigest
                  issuedAt (issuedAt + absoluteLifetime) idleTimeout userAgent remoteAddress))"

definition Session_restore ::
    "SessionId \<Rightarrow> IdentityId \<Rightarrow> ProviderId \<Rightarrow> AssuranceLevel \<Rightarrow> AuthenticationStrength \<Rightarrow> SessionState
     \<Rightarrow> Instant \<Rightarrow> TokenDigest \<Rightarrow> Instant \<Rightarrow> Instant \<Rightarrow> Instant \<Rightarrow> Duration \<Rightarrow> Instant option
     \<Rightarrow> string option \<Rightarrow> string option \<Rightarrow> Session Result" where
  "Session_restore sid identity provider assurance strength state authenticatedAt tokenDigest
     issuedAt lastSeenAt absoluteExpiresAt idleTimeout revokedAt userAgent remoteAddress =
     (if StrongId_empty sid \<or> StrongId_empty identity \<or> StrongId_empty provider
         \<or> authenticatedAt > issuedAt \<or> lastSeenAt < issuedAt
         \<or> lastSeenAt \<ge> absoluteExpiresAt
         \<or> idleTimeout \<le> 0
         \<or> (state = Revoked) \<noteq> (revokedAt \<noteq> None)
         \<or> metadata_too_large userAgent 1024 \<or> metadata_too_large remoteAddress 128
      then fail_msg InvalidArgument ''The persisted session is invalid.''
      else Inr ((Session_new sid identity provider assurance strength authenticatedAt tokenDigest
                   issuedAt absoluteExpiresAt idleTimeout userAgent remoteAddress)
                \<lparr>session_state := state, session_lastSeenAt := lastSeenAt,
                 session_revokedAt := revokedAt\<rparr>))"

definition idleExpiresAt :: "Session \<Rightarrow> Instant" where
  "idleExpiresAt s = session_lastSeenAt s + session_idleTimeout s"

definition Session_isExpiredAt :: "Session \<Rightarrow> Instant \<Rightarrow> bool" where
  "Session_isExpiredAt s now = (now \<ge> session_absoluteExpiresAt s \<or> now \<ge> idleExpiresAt s)"

definition Session_use :: "TokenDigest \<Rightarrow> Instant \<Rightarrow> Session \<Rightarrow> Status \<times> Session" where
  "Session_use presented now s =
     (if session_state s \<noteq> Active
      then (Inl (authFailure (''Session use refused; state is ''
                              @ sessionStateName (session_state s) @ ''.'')), s)
      else if Session_isExpiredAt s now
      then (Inl (authFailure ''Session use refused: deadline passed.''),
            s\<lparr>session_state := Expired\<rparr>)
      else if \<not> constantTimeEquals (session_tokenDigest s) presented
      then (Inl (authFailure ''Session use refused: token digest mismatch.''), s)
      else (ok, s\<lparr>session_lastSeenAt := now\<rparr>))"

definition Session_rotateToken ::
    "TokenDigest \<Rightarrow> TokenDigest \<Rightarrow> Instant \<Rightarrow> Session \<Rightarrow> Status \<times> Session" where
  "Session_rotateToken expected replacement now s =
     (case Session_use expected now s of
        (Inl e, s') \<Rightarrow> (Inl e, s')
      | (Inr _, s') \<Rightarrow> (ok, s'\<lparr>session_tokenDigest := replacement\<rparr>))"

definition Session_revoke :: "Instant \<Rightarrow> Session \<Rightarrow> Status \<times> Session" where
  "Session_revoke now s =
     (if session_state s = Revoked then (ok, s)
      else if session_state s = Expired
      then (fail_msg FailedPrecondition ''An expired session cannot be revoked.'', s)
      else (ok, s\<lparr>session_state := Revoked, session_revokedAt := Some now\<rparr>))"

definition Session_markExpired :: "Session \<Rightarrow> Session" where
  "Session_markExpired s =
     (if session_state s = Active then s\<lparr>session_state := Expired\<rparr> else s)"

section \<open>The in-memory repository\<close>

record SessionRepository =
  repo_sessions :: "(SessionId, Session) omap"
  repo_tokens :: "(TokenDigest, SessionId) omap"

definition empty_sessions :: SessionRepository where
  "empty_sessions = \<lparr>repo_sessions = [], repo_tokens = []\<rparr>"

definition sessions_add :: "Session \<Rightarrow> SessionRepository \<Rightarrow> Status \<times> SessionRepository" where
  "sessions_add session r =
     (if omap_contains (repo_sessions r) (session_id session)
         \<or> omap_contains (repo_tokens r) (session_tokenDigest session)
      then (fail_msg AlreadyExists ''The session could not be created.'', r)
      else (ok, \<lparr>repo_sessions = omap_emplace (session_id session) session (repo_sessions r),
                 repo_tokens = omap_emplace (session_tokenDigest session) (session_id session)
                                 (repo_tokens r)\<rparr>))"

definition sessions_use ::
    "TokenDigest \<Rightarrow> Instant \<Rightarrow> SessionRepository \<Rightarrow> Session Result \<times> SessionRepository" where
  "sessions_use token now r =
     (case map_of (repo_tokens r) token of
        None \<Rightarrow> (Inl (authFailure ''Session token is unknown.''), r)
      | Some sid \<Rightarrow>
          (case map_of (repo_sessions r) sid of
             None \<Rightarrow> (fail_msg Internal ''The session store is inconsistent.'', r)
           | Some s \<Rightarrow>
               (case Session_use token now s of
                  (used, s') \<Rightarrow>
                    let r' = r\<lparr>repo_sessions := omap_modify sid (\<lambda>_. s') (repo_sessions r)\<rparr>
                    in (case used of Inl e \<Rightarrow> (Inl e, r') | Inr _ \<Rightarrow> (Inr s', r')))))"

definition sessions_rotate ::
    "SessionId \<Rightarrow> TokenDigest \<Rightarrow> TokenDigest \<Rightarrow> Instant \<Rightarrow> SessionRepository
     \<Rightarrow> Status \<times> SessionRepository" where
  "sessions_rotate sid expected replacement now r =
     (case map_of (repo_sessions r) sid of
        None \<Rightarrow> (Inl (authFailure ''Session rotation refused: unknown id.''), r)
      | Some s \<Rightarrow>
          if omap_contains (repo_tokens r) replacement
          then (fail_msg AlreadyExists ''The session token could not be rotated.'', r)
          else
            (case Session_rotateToken expected replacement now s of
               (rotated, s') \<Rightarrow>
                 let r' = r\<lparr>repo_sessions := omap_modify sid (\<lambda>_. s') (repo_sessions r)\<rparr>
                 in (case rotated of
                       Inl e \<Rightarrow> (Inl e, r')
                     | Inr _ \<Rightarrow>
                         (ok, r'\<lparr>repo_tokens :=
                                 omap_emplace replacement sid
                                   (omap_erase (session_tokenDigest s) (repo_tokens r'))\<rparr>))))"

definition sessions_revoke ::
    "SessionId \<Rightarrow> Instant \<Rightarrow> SessionRepository \<Rightarrow> Status \<times> SessionRepository" where
  "sessions_revoke sid now r =
     (case map_of (repo_sessions r) sid of
        None \<Rightarrow> (fail_msg NotFound ''That session was not found.'', r)
      | Some s \<Rightarrow>
          (case Session_revoke now s of
             (status, s') \<Rightarrow>
               (status, r\<lparr>repo_sessions := omap_modify sid (\<lambda>_. s') (repo_sessions r)\<rparr>)))"

text \<open>The loop over all sessions; an error would leave the entries after it untouched.\<close>

fun revokeAll_loop ::
    "IdentityId \<Rightarrow> Instant \<Rightarrow> nat \<Rightarrow> (SessionId, Session) omap
     \<Rightarrow> nat Result \<times> (SessionId, Session) omap" where
  "revokeAll_loop identity now revoked [] = (Inr revoked, [])"
| "revokeAll_loop identity now revoked ((sid, s) # rest) =
     (if session_identity s = identity \<and> session_state s = Active
      then (case Session_revoke now s of
              (Inl e, s') \<Rightarrow> (Inl e, (sid, s') # rest)
            | (Inr _, s') \<Rightarrow>
                (case revokeAll_loop identity now (Suc revoked) rest of
                   (res, rest') \<Rightarrow> (res, (sid, s') # rest')))
      else (case revokeAll_loop identity now revoked rest of
              (res, rest') \<Rightarrow> (res, (sid, s) # rest')))"

definition sessions_revokeAll ::
    "IdentityId \<Rightarrow> Instant \<Rightarrow> SessionRepository \<Rightarrow> nat Result \<times> SessionRepository" where
  "sessions_revokeAll identity now r =
     (case revokeAll_loop identity now 0 (repo_sessions r) of
        (res, m) \<Rightarrow> (res, r\<lparr>repo_sessions := m\<rparr>))"

definition sessions_find :: "SessionId \<Rightarrow> SessionRepository \<Rightarrow> Session option Result" where
  "sessions_find sid r = Inr (map_of (repo_sessions r) sid)"

definition sessions_list :: "IdentityId \<Rightarrow> SessionRepository \<Rightarrow> Session list Result" where
  "sessions_list identity r =
     Inr (filter (\<lambda>s. session_identity s = identity) (map snd (repo_sessions r)))"

fun purge_loop ::
    "Instant \<Rightarrow> nat \<Rightarrow> (SessionId, Session) omap \<Rightarrow> (TokenDigest, SessionId) omap
     \<Rightarrow> nat \<times> (SessionId, Session) omap \<times> (TokenDigest, SessionId) omap" where
  "purge_loop now removed [] tokens = (removed, [], tokens)"
| "purge_loop now removed ((sid, s) # rest) tokens =
     (if Session_isExpiredAt s now
      then purge_loop now (Suc removed) rest (omap_erase (session_tokenDigest s) tokens)
      else (case purge_loop now removed rest tokens of
              (n, rest', tokens') \<Rightarrow> (n, (sid, s) # rest', tokens')))"

definition sessions_purgeExpired ::
    "Instant \<Rightarrow> SessionRepository \<Rightarrow> nat \<times> SessionRepository" where
  "sessions_purgeExpired now r =
     (case purge_loop now 0 (repo_sessions r) (repo_tokens r) of
        (n, sessions, tokens) \<Rightarrow> (n, \<lparr>repo_sessions = sessions, repo_tokens = tokens\<rparr>))"

definition sessions_size :: "SessionRepository \<Rightarrow> nat" where
  "sessions_size r = length (repo_sessions r)"

section \<open>The index invariant\<close>

text \<open>
  The token index and the sessions describe each other: a session is filed under its own id and
  found through its current digest, and every indexed digest is the current digest of a session.
\<close>

definition sessions_inv :: "SessionRepository \<Rightarrow> bool" where
  "sessions_inv r \<longleftrightarrow>
     omap_ok (repo_sessions r) \<and> omap_ok (repo_tokens r)
     \<and> (\<forall>sid s. map_of (repo_sessions r) sid = Some s \<longrightarrow> session_id s = sid)
     \<and> exact_index session_tokenDigest (map_of (repo_sessions r)) (map_of (repo_tokens r))"

lemma sessions_invD:
  assumes "sessions_inv r"
  shows "omap_ok (repo_sessions r)" "omap_ok (repo_tokens r)"
    and "map_of (repo_sessions r) sid = Some s \<Longrightarrow> session_id s = sid"
    and "exact_index session_tokenDigest (map_of (repo_sessions r)) (map_of (repo_tokens r))"
  using assms unfolding sessions_inv_def by blast+

lemma sessions_inv_empty [simp]: "sessions_inv empty_sessions"
  by (simp add: sessions_inv_def empty_sessions_def)

text \<open>Replacing a session by one with the same id and digest keeps the invariant.\<close>

lemma map_of_modify_const:
  "map_of m k = Some v \<Longrightarrow> map_of (omap_modify k (\<lambda>_. v') m) = (map_of m)(k \<mapsto> v')"
  by (simp add: map_of_modify)

lemma sessions_inv_modify:
  assumes "sessions_inv r" "map_of (repo_sessions r) sid = Some s"
    and "session_id s' = session_id s" "session_tokenDigest s' = session_tokenDigest s"
  shows "sessions_inv (r\<lparr>repo_sessions := omap_modify sid (\<lambda>_. s') (repo_sessions r)\<rparr>)"
  using assms
  by (auto simp: sessions_inv_def map_of_modify_const intro: exact_index_update)

lemma sessions_inv_map_values:
  assumes "sessions_inv r"
    and "\<And>s. session_id (f s) = session_id s" "\<And>s. session_tokenDigest (f s) = session_tokenDigest s"
  shows "sessions_inv (r\<lparr>repo_sessions := omap_map_values f (repo_sessions r)\<rparr>)"
  using assms exact_index_map [of session_tokenDigest "map_of (repo_sessions r)" "map_of (repo_tokens r)" f]
  by (auto simp: sessions_inv_def map_of_map_values [abs_def] cong: if_cong)

lemma Session_use_frame:
  "Session_use d now s = (res, s') \<Longrightarrow>
     session_id s' = session_id s \<and> session_tokenDigest s' = session_tokenDigest s
     \<and> session_identity s' = session_identity s"
  by (auto simp: Session_use_def split: if_splits)

lemma Session_use_success:
  "Session_use d now s = (Inr u, s') \<longleftrightarrow>
     session_state s = Active \<and> \<not> Session_isExpiredAt s now \<and> session_tokenDigest s = d
     \<and> s' = s\<lparr>session_lastSeenAt := now\<rparr>"
  by (auto simp: Session_use_def)

lemma Session_revoke_frame:
  "Session_revoke now s = (res, s') \<Longrightarrow>
     session_id s' = session_id s \<and> session_tokenDigest s' = session_tokenDigest s
     \<and> session_identity s' = session_identity s"
  by (auto simp: Session_revoke_def split: if_splits)

lemma sessions_add_inv: "sessions_inv r \<Longrightarrow> sessions_inv (snd (sessions_add s r))"
  unfolding sessions_inv_def sessions_add_def omap_contains_def
  by (auto simp: om.find_emplace_new omap_ok_emplace intro: exact_index_add)

lemma sessions_use_inv:
  assumes "sessions_inv r"
  shows "sessions_inv (snd (sessions_use d now r))"
  using assms
  by (auto simp: sessions_use_def Let_def split: option.splits prod.splits sum.splits
      dest: Session_use_frame intro: sessions_inv_modify)

lemma sessions_rotate_inv:
  assumes "sessions_inv r"
  shows "sessions_inv (snd (sessions_rotate sid expected replacement now r))"
proof (cases "map_of (repo_sessions r) sid")
  case None
  with assms show ?thesis by (simp add: sessions_rotate_def)
next
  case (Some s)
  show ?thesis
  proof (cases "Session_use expected now s")
    case (Pair res s')
    have frame: "session_id s' = session_id s" "session_tokenDigest s' = session_tokenDigest s"
      using Session_use_frame [OF Pair] by auto
    show ?thesis
    proof (cases res)
      case (Inl e)
      with Some Pair assms frame show ?thesis
        by (auto simp: sessions_rotate_def Session_rotateToken_def Let_def intro: sessions_inv_modify)
    next
      case (Inr u)
      let ?s' = "s'\<lparr>session_tokenDigest := replacement\<rparr>"
      have "exact_index session_tokenDigest ((map_of (repo_sessions r))(sid \<mapsto> ?s'))
          ((map_of (repo_tokens r))(session_tokenDigest s := None, replacement \<mapsto> sid))"
        if "map_of (repo_tokens r) replacement = None"
        using exact_index_rekey [OF sessions_invD(4) [OF assms] Some, of ?s'] that by simp
      with Inr Some Pair assms frame show ?thesis
        by (auto simp: sessions_rotate_def Session_rotateToken_def Let_def omap_contains_def
            sessions_inv_def map_of_modify_const map_of_emplace map_of_erase omap_ok_emplace
            omap_ok_erase)
    qed
  qed
qed

lemma sessions_revoke_inv:
  assumes "sessions_inv r"
  shows "sessions_inv (snd (sessions_revoke sid now r))"
  using assms
  by (auto simp: sessions_revoke_def split: option.splits prod.splits
      dest: Session_revoke_frame intro: sessions_inv_modify)

text \<open>Both loops in closed form.\<close>

definition revoke_if_owned :: "IdentityId \<Rightarrow> Instant \<Rightarrow> Session \<Rightarrow> Session" where
  "revoke_if_owned identity now s =
     (if session_identity s = identity \<and> session_state s = Active
      then s\<lparr>session_state := Revoked, session_revokedAt := Some now\<rparr> else s)"

lemma revokeAll_loop_eq:
  "revokeAll_loop identity now n m =
     (Inr (n + length (filter (\<lambda>(sid, s). session_identity s = identity \<and> session_state s = Active) m)),
      omap_map_values (revoke_if_owned identity now) m)"
proof (induction m arbitrary: n)
  case (Cons a m)
  obtain sid s where a: "a = (sid, s)" by fastforce
  show ?case
  proof (cases "session_identity s = identity \<and> session_state s = Active")
    case True
    then have "Session_revoke now s = (ok, revoke_if_owned identity now s)"
      by (simp add: Session_revoke_def revoke_if_owned_def)
    with True show ?thesis by (simp add: a Cons.IH)
  next
    case False
    then have "revoke_if_owned identity now s = s"
      by (auto simp: revoke_if_owned_def)
    with False show ?thesis by (auto simp: a Cons.IH)
  qed
qed simp

lemma sessions_revokeAll_eq:
  "sessions_revokeAll identity now r =
     (Inr (length (filter (\<lambda>(sid, s). session_identity s = identity \<and> session_state s = Active)
                     (repo_sessions r))),
      r\<lparr>repo_sessions := omap_map_values (revoke_if_owned identity now) (repo_sessions r)\<rparr>)"
  by (simp add: sessions_revokeAll_def revokeAll_loop_eq)

lemma sessions_revokeAll_left:
  assumes "map_of (repo_sessions (snd (sessions_revokeAll identity now r))) sid = Some s"
    and "session_state s = Active"
  shows "session_identity s \<noteq> identity"
proof -
  obtain s0 where "s = revoke_if_owned identity now s0"
    using assms(1) by (auto simp: sessions_revokeAll_eq map_of_map_values)
  with assms(2) show ?thesis
    by (simp add: revoke_if_owned_def split: if_splits)
qed

lemma sessions_revokeAll_inv:
  "sessions_inv r \<Longrightarrow> sessions_inv (snd (sessions_revokeAll identity now r))"
  by (simp add: sessions_revokeAll_eq sessions_inv_map_values revoke_if_owned_def)

lemma purge_loop_sessions:
  "fst (snd (purge_loop now n m tokens)) = filter (\<lambda>(sid, s). \<not> Session_isExpiredAt s now) m"
  by (induction m arbitrary: n tokens) (auto split: prod.splits simp: case_prod_unfold)

lemma purge_loop_tokens:
  "omap_ok tokens \<Longrightarrow>
   omap_ok (snd (snd (purge_loop now n m tokens)))
   \<and> map_of (snd (snd (purge_loop now n m tokens))) d =
      (if \<exists>(sid, s) \<in> set m. Session_isExpiredAt s now \<and> session_tokenDigest s = d
       then None else map_of tokens d)"
proof (induction m arbitrary: n tokens)
  case (Cons a m)
  obtain sid s where a: "a = (sid, s)" by fastforce
  show ?case
    using Cons.IH [of tokens] Cons.IH [of "omap_erase (session_tokenDigest s) tokens"] Cons.prems
    by (auto simp: a case_prod_unfold omap_ok_erase map_of_erase)
qed simp

lemma sessions_purge_eq:
  "repo_sessions (snd (sessions_purgeExpired now r)) =
     filter (\<lambda>(sid, s). \<not> Session_isExpiredAt s now) (repo_sessions r)"
  using purge_loop_sessions [of now 0 "repo_sessions r" "repo_tokens r"]
  by (simp add: sessions_purgeExpired_def case_prod_unfold)

lemma sessions_purge_inv:
  assumes "sessions_inv r"
  shows "sessions_inv (snd (sessions_purgeExpired now r))"
proof -
  let ?r' = "snd (sessions_purgeExpired now r)"
  note ok = sessions_invD [OF assms]
  have sessions: "map_of (repo_sessions ?r') =
      (\<lambda>sid. case map_of (repo_sessions r) sid of None \<Rightarrow> None
       | Some s \<Rightarrow> if \<not> Session_isExpiredAt s now then Some s else None)"
    using ok(1) by (simp add: fun_eq_iff sessions_purge_eq map_of_filter_values)
  have tokens: "omap_ok (repo_tokens ?r')" "map_of (repo_tokens ?r') =
      (\<lambda>d. if \<exists>sid s. map_of (repo_sessions r) sid = Some s \<and> \<not> \<not> Session_isExpiredAt s now
            \<and> session_tokenDigest s = d
       then None else map_of (repo_tokens r) d)"
    using purge_loop_tokens [OF ok(2), of now 0 "repo_sessions r"] ok(1)
    by (auto simp: fun_eq_iff sessions_purgeExpired_def case_prod_unfold omap_entry Bex_def)
  have "omap_ok (repo_sessions ?r')"
    using ok(1) by (simp add: sessions_purge_eq omap_ok_filter)
  moreover have "exact_index session_tokenDigest (map_of (repo_sessions ?r')) (map_of (repo_tokens ?r'))"
    unfolding sessions tokens(2) by (rule exact_index_filter [OF ok(4)])
  moreover have "session_id s = sid" if "map_of (repo_sessions ?r') sid = Some s" for sid s
    using that ok(3) unfolding sessions by (auto split: option.splits if_splits)
  ultimately show ?thesis
    using tokens(1) by (simp add: sessions_inv_def)
qed

section \<open>Every history of calls\<close>

datatype session_call =
    AddSession Session
  | UseToken TokenDigest Instant
  | RotateToken SessionId TokenDigest TokenDigest Instant
  | RevokeSession SessionId Instant
  | RevokeAll IdentityId Instant
  | PurgeExpired Instant

datatype session_reply =
  StatusReply Status | SessionReply "Session Result" | CountReply "nat Result"

fun session_step :: "session_call \<Rightarrow> SessionRepository \<Rightarrow> session_reply \<times> SessionRepository" where
  "session_step (AddSession s) r = apfst StatusReply (sessions_add s r)"
| "session_step (UseToken d now) r = apfst SessionReply (sessions_use d now r)"
| "session_step (RotateToken sid expected replacement now) r =
     apfst StatusReply (sessions_rotate sid expected replacement now r)"
| "session_step (RevokeSession sid now) r = apfst StatusReply (sessions_revoke sid now r)"
| "session_step (RevokeAll identity now) r = apfst CountReply (sessions_revokeAll identity now r)"
| "session_step (PurgeExpired now) r =
     apfst (\<lambda>n. CountReply (Inr n)) (sessions_purgeExpired now r)"

abbreviation sessions_after :: "session_call list \<Rightarrow> SessionRepository" where
  "sessions_after cs \<equiv> final_state session_step cs empty_sessions"

lemmas sessions_inv_ops =
  sessions_add_inv sessions_use_inv sessions_rotate_inv sessions_revoke_inv
  sessions_revokeAll_inv sessions_purge_inv

interpretation sm: guarded_machine session_step sessions_inv
proof
  fix r c assume "sessions_inv r"
  then show "sessions_inv (snd (session_step c r))"
    by (cases c) (simp_all add: sessions_inv_ops)
qed

lemma sessions_after_inv [simp]: "sessions_inv (sessions_after cs)"
  by (rule sm.run_inv) simp

text \<open>What a successful use is, and that only known tokens of live sessions are usable.\<close>

lemma sessions_use_Inr:
  assumes "sessions_inv r"
  shows "sessions_use d now r = (Inr s', r') \<longleftrightarrow>
    (\<exists>sid s. map_of (repo_sessions r) sid = Some s \<and> session_tokenDigest s = d
       \<and> session_state s = Active \<and> now < session_absoluteExpiresAt s \<and> now < idleExpiresAt s
       \<and> s' = s\<lparr>session_lastSeenAt := now\<rparr>
       \<and> r' = r\<lparr>repo_sessions := omap_modify sid (\<lambda>_. s') (repo_sessions r)\<rparr>)"
    (is "?L \<longleftrightarrow> ?R")
proof
  assume ?L
  then obtain sid s where "map_of (repo_tokens r) d = Some sid" "map_of (repo_sessions r) sid = Some s"
      "Session_use d now s = (ok, s')"
      "r' = r\<lparr>repo_sessions := omap_modify sid (\<lambda>_. s') (repo_sessions r)\<rparr>"
    by (auto simp: sessions_use_def Let_def split: option.splits prod.splits sum.splits)
  then show ?R
    by (auto simp: Session_use_success Session_isExpiredAt_def not_le)
next
  assume ?R
  then obtain sid s where s: "map_of (repo_sessions r) sid = Some s" "session_tokenDigest s = d"
      "session_state s = Active" "now < session_absoluteExpiresAt s" "now < idleExpiresAt s"
      "s' = s\<lparr>session_lastSeenAt := now\<rparr>"
      "r' = r\<lparr>repo_sessions := omap_modify sid (\<lambda>_. s') (repo_sessions r)\<rparr>" by blast
  moreover have "map_of (repo_tokens r) d = Some sid"
    using exact_index_lookup [OF sessions_invD(4) [OF assms] s(1)] s(2) by simp
  ultimately show ?L
    by (simp add: sessions_use_def Session_use_def Session_isExpiredAt_def)
qed

lemma sessions_use_error:
  assumes "sessions_inv r" "fst (sessions_use d now r) = Inl e"
  shows "err_code e = AuthenticationFailed \<and> err_message e = defaultErrorMessage AuthenticationFailed"
proof -
  have "map_of (repo_tokens r) d = Some sid \<Longrightarrow> map_of (repo_sessions r) sid \<noteq> None" for sid
    using exact_index_target [OF sessions_invD(4) [OF assms(1)]] by fastforce
  then show ?thesis
    using assms(2)
    by (auto simp: sessions_use_def Session_use_def Let_def split: option.splits if_splits)
qed

text \<open>A session that is not active stays so until a new session is added under its id.\<close>

definition session_dead :: "SessionId \<Rightarrow> SessionRepository \<Rightarrow> bool" where
  "session_dead sid r \<longleftrightarrow>
     (\<forall>s. map_of (repo_sessions r) sid = Some s \<longrightarrow> session_state s \<noteq> Active)"

fun not_readding :: "SessionId \<Rightarrow> session_call \<Rightarrow> bool" where
  "not_readding sid (AddSession s) = (session_id s \<noteq> sid)"
| "not_readding sid _ = True"

lemma session_dead_step:
  assumes "sessions_inv r" "session_dead sid r" "not_readding sid c"
  shows "session_dead sid (snd (session_step c r))"
proof (cases c)
  case (AddSession s)
  then show ?thesis
    using assms sessions_invD(1) [OF assms(1)]
    by (auto simp: session_dead_def sessions_add_def om.find_emplace_other)
next
  case (UseToken d now)
  then show ?thesis
    using assms(2)
    by (auto simp: session_dead_def sessions_use_def Let_def map_of_modify Session_use_def
        split: option.splits sum.splits if_splits)
next
  case (RotateToken sid' expected replacement now)
  then show ?thesis
    using assms(2)
    by (auto simp: session_dead_def sessions_rotate_def Session_rotateToken_def Let_def map_of_modify
        Session_use_def split: option.splits sum.splits if_splits)
next
  case (RevokeSession sid' now)
  then show ?thesis
    using assms(2)
    by (auto simp: session_dead_def sessions_revoke_def map_of_modify Session_revoke_def
        split: option.splits if_splits)
next
  case (RevokeAll identity now)
  then show ?thesis
    using assms(2)
    by (auto simp: session_dead_def sessions_revokeAll_eq map_of_map_values revoke_if_owned_def)
next
  case (PurgeExpired now)
  then show ?thesis
    using assms(2) sessions_invD(1) [OF assms(1)]
    by (auto simp: session_dead_def sessions_purge_eq map_of_filter_values split: option.splits if_splits)
qed

interpretation dead: stable_fact session_step sessions_inv "not_readding sid" "session_dead sid"
  for sid :: SessionId
  by unfold_locales (rule session_dead_step)

lemma session_dead_unusable:
  assumes "sessions_inv r" "session_dead sid r" "sessions_use d now r = (Inr s', r')"
  shows "session_id s' \<noteq> sid"
  using assms(2,3) sessions_invD(3) [OF assms(1)]
  unfolding sessions_use_Inr [OF assms(1)] session_dead_def by auto

section \<open>Properties of the repository\<close>

text \<open>
  C27. In every state the repository can reach, the token index is exact, the internal
  inconsistency error of \<^verbatim>\<open>use\<close> cannot occur, and every refusal is the same generic
  authentication failure to the client (the reason goes to the operator detail only).
\<close>

theorem sessions_index_consistent:
  "sessions_inv (sessions_after cs)
   \<and> (fst (sessions_use d now (sessions_after cs)) = Inl e \<longrightarrow>
        err_code e = AuthenticationFailed
        \<and> err_message e = defaultErrorMessage AuthenticationFailed)"
  using sessions_use_error [OF sessions_after_inv] by simp

text \<open>
  Exactly when a presented token is accepted: in every reachable state \<^verbatim>\<open>use\<close> succeeds
  iff some session has that digest, is active and both deadlines are strictly in the future; the
  result is that session with only its last-seen time moved to now.
\<close>

theorem sessions_use_accepts_iff:
  "sessions_use d now (sessions_after cs) = (Inr s', r') \<longleftrightarrow>
    (\<exists>sid s. map_of (repo_sessions (sessions_after cs)) sid = Some s \<and> session_tokenDigest s = d
       \<and> session_state s = Active \<and> now < session_absoluteExpiresAt s
       \<and> now < session_lastSeenAt s + session_idleTimeout s
       \<and> s' = s\<lparr>session_lastSeenAt := now\<rparr>
       \<and> r' = (sessions_after cs)\<lparr>repo_sessions :=
                 omap_modify sid (\<lambda>_. s') (repo_sessions (sessions_after cs))\<rparr>)"
  by (simp add: sessions_use_Inr idleExpiresAt_def)

text \<open>
  Revocation is final: once \<^verbatim>\<open>revoke\<close> has succeeded for a session, no later
  history of calls that does not add a new session under the same id lets any token
  authenticate as that session again.
\<close>

theorem sessions_revocation_final:
  assumes "sessions_revoke sid t (sessions_after cs) = (Inr u, r)"
    and "list_all (not_readding sid) later"
    and "sessions_use d now (final_state session_step later r) = (Inr s, r')"
  shows "session_id s \<noteq> sid"
proof -
  have r: "r = snd (session_step (RevokeSession sid t) (sessions_after cs))"
    using assms(1) by simp
  have inv: "sessions_inv r"
    unfolding r by (rule sm.step_inv) simp
  moreover have "session_dead sid r"
    using assms(1) by (auto simp: session_dead_def sessions_revoke_def Session_revoke_def map_of_modify
        split: option.splits if_splits)
  ultimately have "sessions_inv (final_state session_step later r)"
      "session_dead sid (final_state session_step later r)"
    using assms(2) by (auto intro: sm.run_inv dead.run_fact)
  then show ?thesis
    using assms(3) by (rule session_dead_unusable)
qed

definition sample_session :: "string \<Rightarrow> byte \<Rightarrow> Session" where
  "sample_session name digest =
     Session_new (StrongId name) (StrongId ''alice'') (StrongId ''local'') Ial1
       \<lparr>strength_factors = Factor_Knowledge, strength_phishingResistant = False\<rparr>
       0 [digest] 0 1000 500 None None"

lemmas sample_session_simps =
  sample_session_def Session_new_def empty_sessions_def sessions_add_def sessions_use_def
  Session_use_def Session_isExpiredAt_def idleExpiresAt_def sessions_revoke_def Session_revoke_def
  sessions_rotate_def Session_rotateToken_def omap_contains_def less_StrongId_def

theorem sessions_revocation_final_witness:
  "session_id (sample_session ''b'' 2\<lparr>session_lastSeenAt := 9\<rparr>) \<noteq> StrongId ''a''"
proof -
  let ?cs = "[AddSession (sample_session ''a'' 1), AddSession (sample_session ''b'' 2)]"
  let ?later = "[UseToken [1] 6, PurgeExpired 7, RevokeAll (StrongId ''bob'') 8]"
  obtain r where r: "sessions_revoke (StrongId ''a'') 5 (sessions_after ?cs) = (ok, r)"
    by (simp add: sample_session_simps)
  moreover have "list_all (not_readding (StrongId ''a'')) ?later"
    by simp
  moreover obtain r' where "sessions_use [2] 9 (final_state session_step ?later r)
      = (Inr (sample_session ''b'' 2\<lparr>session_lastSeenAt := 9\<rparr>), r')"
    using r by (auto simp: sample_session_simps sessions_purgeExpired_def sessions_revokeAll_def)
  ultimately show ?thesis
    by (rule sessions_revocation_final)
qed

theorem sessions_index_consistent_witness:
  "err_message (authFailure ''Session token is unknown.'') = ''Authentication failed.''"
proof -
  have "fst (sessions_use [9] 5 (sessions_after [AddSession (sample_session ''a'' 1)]))
      = Inl (authFailure ''Session token is unknown.'')"
    by (simp add: sample_session_simps)
  then show ?thesis
    using sessions_index_consistent [of "[AddSession (sample_session ''a'' 1)]" "[9]" 5] by simp
qed

lemma sessions_rotate_success:
  assumes "sessions_inv r" "sessions_rotate sid expected replacement now r = (Inr u, r')"
  obtains s where "map_of (repo_sessions r) sid = Some s" "session_state s = Active"
    "session_tokenDigest s = expected" "\<not> omap_contains (repo_tokens r) replacement"
    "expected \<noteq> replacement"
    "map_of (repo_sessions r') sid =
       Some (s\<lparr>session_lastSeenAt := now, session_tokenDigest := replacement\<rparr>)"
    "map_of (repo_tokens r') = (map_of (repo_tokens r))(expected := None, replacement \<mapsto> sid)"
proof -
  obtain s where s: "map_of (repo_sessions r) sid = Some s" "session_state s = Active"
      "session_tokenDigest s = expected"
    and fresh: "\<not> omap_contains (repo_tokens r) replacement"
    and r': "r' = \<lparr>repo_sessions = omap_modify sid
               (\<lambda>_. s\<lparr>session_lastSeenAt := now, session_tokenDigest := replacement\<rparr>) (repo_sessions r),
             repo_tokens = omap_emplace replacement sid (omap_erase expected (repo_tokens r))\<rparr>"
    using assms(2)
    by (auto simp: sessions_rotate_def Session_rotateToken_def Session_use_def Let_def
        split: option.splits if_splits)
  have "map_of (repo_tokens r) expected = Some sid"
    using exact_index_lookup [OF sessions_invD(4) [OF assms(1)] s(1)] s(3) by simp
  with fresh have "expected \<noteq> replacement"
    by (auto simp: omap_contains_def)
  moreover have "map_of (repo_tokens r') = (map_of (repo_tokens r))(expected := None, replacement \<mapsto> sid)"
    using fresh sessions_invD(2) [OF assms(1)]
    by (simp add: r' om.find_emplace_new omap_ok_erase map_of_erase omap_contains_def)
  ultimately show ?thesis
    using s fresh by (intro that [of s]) (simp_all add: r' map_of_modify)
qed

lemma sessions_rotate_effect:
  assumes "sessions_inv r0" "sessions_rotate sid expected replacement now r0 = (Inr u, r)"
  shows "\<not> omap_contains (repo_tokens r0) replacement
    \<and> failed_with (fst (sessions_use expected t r)) AuthenticationFailed
    \<and> (\<exists>s. map_of (repo_sessions r0) sid = Some s \<and> session_tokenDigest s = expected
         \<and> fst (sessions_use replacement t r) =
             (if t < session_absoluteExpiresAt s \<and> t < now + session_idleTimeout s
              then Inr (s\<lparr>session_tokenDigest := replacement, session_lastSeenAt := t\<rparr>)
              else Inl (authFailure ''Session use refused: deadline passed.'')))"
  using assms(2)
  by (rule sessions_rotate_success [OF assms(1)])
    (auto simp: sessions_use_def Session_use_def Session_isExpiredAt_def idleExpiresAt_def not_le not_less)

text \<open>
  Rotation moves a session to a new token: after a successful \<^verbatim>\<open>rotate\<close> the replacement
  authenticates that session until its absolute deadline or its idle deadline counted from the
  rotation, the old token is refused at every instant, and a token that some session already uses
  is never taken as replacement.
\<close>

theorem sessions_rotation:
  assumes "sessions_rotate sid expected replacement now (sessions_after cs) = (Inr u, r)"
  shows "\<not> omap_contains (repo_tokens (sessions_after cs)) replacement
    \<and> failed_with (fst (sessions_use expected t r)) AuthenticationFailed
    \<and> (\<exists>s. map_of (repo_sessions (sessions_after cs)) sid = Some s \<and> session_tokenDigest s = expected
         \<and> fst (sessions_use replacement t r) =
             (if t < session_absoluteExpiresAt s \<and> t < now + session_idleTimeout s
              then Inr (s\<lparr>session_tokenDigest := replacement, session_lastSeenAt := t\<rparr>)
              else Inl (authFailure ''Session use refused: deadline passed.'')))"
  by (rule sessions_rotate_effect [OF sessions_after_inv assms])

theorem sessions_rotation_witness:
  "failed_with (fst (sessions_use [1] 7
     (snd (sessions_rotate (StrongId ''a'') [1] [3] 5 (sessions_after [AddSession (sample_session ''a'' 1)])))))
   AuthenticationFailed"
proof -
  let ?out = "sessions_rotate (StrongId ''a'') [1] [3] 5 (sessions_after [AddSession (sample_session ''a'' 1)])"
  have "?out = (Inr (), snd ?out)"
    by (simp add: sample_session_simps)
  from sessions_rotation [OF this, of 7] show ?thesis
    by blast
qed

text \<open>
  Logging an identity out everywhere: \<^verbatim>\<open>revokeAll\<close> never fails, reports exactly the
  number of sessions that were active, revokes each of them at the given time and leaves every
  other session as it was, so no token of that identity is accepted afterwards.
\<close>

theorem sessions_revokeAll_exact:
  "let r = sessions_after cs; (res, r') = sessions_revokeAll identity now r
   in res = Inr (length (filter (\<lambda>(sid, s). session_identity s = identity \<and> session_state s = Active)
                  (repo_sessions r)))
    \<and> (\<forall>sid. map_of (repo_sessions r') sid =
         map_option (\<lambda>s. if session_identity s = identity \<and> session_state s = Active
                          then s\<lparr>session_state := Revoked, session_revokedAt := Some now\<rparr> else s)
           (map_of (repo_sessions r) sid))
    \<and> (\<nexists>d t s r''. sessions_use d t r' = (Inr s, r'') \<and> session_identity s = identity)"
proof -
  let ?r = "sessions_after cs"
  let ?r' = "snd (sessions_revokeAll identity now ?r)"
  have inv: "sessions_inv ?r'" by (rule sessions_revokeAll_inv) simp
  have "session_identity s \<noteq> identity" if used: "sessions_use d t ?r' = (Inr s, r'')" for d t s r''
  proof -
    obtain sid s0 where "map_of (repo_sessions ?r') sid = Some s0" "session_state s0 = Active"
        "session_identity s = session_identity s0"
      using used unfolding sessions_use_Inr [OF inv] by auto
    then show ?thesis
      using sessions_revokeAll_left by metis
  qed
  then have "\<nexists>d t s r''. sessions_use d t ?r' = (Inr s, r'') \<and> session_identity s = identity"
    by blast
  then show ?thesis
    unfolding Let_def sessions_revokeAll_eq split snd_conv
    by (simp add: map_of_map_values revoke_if_owned_def [abs_def])
qed

end
