(* ===== verification/Session_Service.thy ===== *)
theory Session_Service
  imports Session
begin

text \<open>
  The session service (\<^verbatim>\<open>src/src/session/service.cpp\<close>): opaque bearer tokens of 32 random
  bytes, stored only as a keyed digest; issue, replace, authenticate, rotate, revoke and list, and
  the acceptance of delegated OAuth access. The service holds no state of its own: an operation
  takes the environment of the call, the key, the policy and the repository.
\<close>

section \<open>Keys, policies and grants\<close>

record SessionKey = key_secret :: string

definition SessionKey_create :: "string \<Rightarrow> SessionKey Result" where
  "SessionKey_create secret =
     (if length secret < 32
      then fail_msg InvalidArgument ''A session key must contain at least 32 bytes.''
      else Inr \<lparr>key_secret = secret\<rparr>)"

record SessionPolicy =
  policy_absoluteLifetime :: Duration
  policy_idleTimeout :: Duration

definition SessionPolicy_create :: "Duration \<Rightarrow> Duration \<Rightarrow> SessionPolicy Result" where
  "SessionPolicy_create absoluteLifetime idleTimeout =
     (if absoluteLifetime \<le> 0 \<or> idleTimeout \<le> 0 \<or> idleTimeout > absoluteLifetime
      then fail_msg InvalidArgument
             ''Session lifetimes must be positive and idle timeout must not exceed absolute lifetime.''
      else Inr \<lparr>policy_absoluteLifetime = absoluteLifetime, policy_idleTimeout = idleTimeout\<rparr>)"

record SessionGrant =
  grant_id :: SessionId
  grant_token :: string

text \<open>What the authentication coordinator mints after all its checks.\<close>

record VerifiedAuthentication =
  verified_outcome :: AuthenticationOutcome
  verified_identity :: IdentityId

section \<open>Delegated access\<close>

text \<open>\<^verbatim>\<open>AuthenticatedSession\<close> wraps the session it accepted.\<close>

definition fromDelegatedAccess ::
    "IdentityId \<Rightarrow> ProviderId \<Rightarrow> AssuranceLevel \<Rightarrow> AuthenticationStrength \<Rightarrow> Instant \<Rightarrow> Instant
     \<Rightarrow> Instant \<Rightarrow> Session Result" where
  "fromDelegatedAccess identity provider assurance strength authenticatedAt now expiresAt =
     (if StrongId_empty identity \<or> StrongId_empty provider \<or> authenticatedAt > now \<or> expiresAt \<le> now
      then fail_msg AuthenticationFailed ''The delegated access context is invalid.''
      else Session_restore (StrongId ''delegated-access'') identity provider assurance strength Active
             authenticatedAt (replicate 32 0) now now expiresAt (expiresAt - now) None None None)"

datatype DelegatedSenderConstraintKind = Dpop | Mtls

record DelegatedSenderConstraint =
  constraint_kind :: DelegatedSenderConstraintKind
  constraint_value :: string

record DelegatedAccess =
  access_authenticated :: Session
  access_clientId :: string
  access_scopes :: "string list"
  access_audiences :: "string list"
  access_senderConstraint :: "DelegatedSenderConstraint option"

definition DelegatedAccess_new ::
    "Session \<Rightarrow> string \<Rightarrow> string list \<Rightarrow> string list \<Rightarrow> DelegatedSenderConstraint option
     \<Rightarrow> DelegatedAccess" where
  "DelegatedAccess_new authenticated clientId scopes audiences senderConstraint =
     \<lparr>access_authenticated = authenticated, access_clientId = clientId,
      access_scopes = sort_unique scopes, access_audiences = sort_unique audiences,
      access_senderConstraint = senderConstraint\<rparr>"

definition DelegatedAccess_permits :: "DelegatedAccess \<Rightarrow> string \<Rightarrow> bool" where
  "DelegatedAccess_permits a scope = (scope = [] \<or> binary_search (access_scopes a) scope)"

definition DelegatedAccess_permitsAudience :: "DelegatedAccess \<Rightarrow> string \<Rightarrow> bool" where
  "DelegatedAccess_permitsAudience a audience =
     (audience = [] \<or> binary_search (access_audiences a) audience)"

section \<open>The service\<close>

definition session_digest :: "env \<Rightarrow> SessionKey \<Rightarrow> string \<Rightarrow> TokenDigest Result" where
  "session_digest E key token =
     (if token = [] then Inl (authFailure ''An empty session token was presented.'')
      else hmacSha256 E (key_secret key) token)"

definition metadata :: "string \<Rightarrow> string option" where
  "metadata s = (if s = [] then None else Some s)"

definition service_issue ::
    "env \<Rightarrow> SessionKey \<Rightarrow> SessionPolicy \<Rightarrow> VerifiedAuthentication \<Rightarrow> ClientContext
     \<Rightarrow> SessionRepository \<Rightarrow> SessionGrant Result \<times> SessionRepository" where
  "service_issue E key policy authentication client r =
     (case randomTokenBase64Url E 0 32 of
        Inl e \<Rightarrow> (Inl e, r)
      | Inr generatedId \<Rightarrow>
     (case randomTokenBase64Url E 1 32 of
        Inl e \<Rightarrow> (Inl e, r)
      | Inr token \<Rightarrow>
     (case session_digest E key token of
        Inl e \<Rightarrow> (Inl e, r)
      | Inr fingerprint \<Rightarrow>
          let sid = StrongId generatedId;
              now = env_now E 0;
              outcome = verified_outcome authentication
          in (case Session_create sid (verified_identity authentication) (outcome_provider outcome)
                     (outcome_claimedAssurance outcome) (outcome_strength outcome)
                     (outcome_verifiedAt outcome) fingerprint now
                     (policy_absoluteLifetime policy) (policy_idleTimeout policy)
                     (metadata (client_userAgent client)) (metadata (client_remoteAddress client)) of
                Inl e \<Rightarrow> (Inl e, r)
              | Inr session \<Rightarrow>
                  (case sessions_add session r of
                     (Inl e, r') \<Rightarrow> (Inl e, r')
                   | (Inr _, r') \<Rightarrow> (Inr \<lparr>grant_id = sid, grant_token = token\<rparr>, r'))))))"

definition service_authenticate ::
    "env \<Rightarrow> SessionKey \<Rightarrow> string \<Rightarrow> SessionRepository \<Rightarrow> Session Result \<times> SessionRepository" where
  "service_authenticate E key token r =
     (case session_digest E key token of
        Inl e \<Rightarrow> (Inl e, r)
      | Inr fingerprint \<Rightarrow> sessions_use fingerprint (env_now E 0) r)"

definition service_revoke ::
    "env \<Rightarrow> SessionId \<Rightarrow> SessionRepository \<Rightarrow> Status \<times> SessionRepository" where
  "service_revoke E sid r = sessions_revoke sid (env_now E 0) r"

definition service_revokeAll ::
    "env \<Rightarrow> IdentityId \<Rightarrow> SessionRepository \<Rightarrow> nat Result \<times> SessionRepository" where
  "service_revokeAll E identity r = sessions_revokeAll identity (env_now E 0) r"

text \<open>A missing or empty previous token, and one that does not authenticate, is ignored.\<close>

definition service_issueReplacing ::
    "env \<Rightarrow> SessionKey \<Rightarrow> SessionPolicy \<Rightarrow> VerifiedAuthentication \<Rightarrow> ClientContext
     \<Rightarrow> string option \<Rightarrow> SessionRepository \<Rightarrow> SessionGrant Result \<times> SessionRepository" where
  "service_issueReplacing E key policy authentication client previousToken r =
     (let (previousId, r1) =
        (case previousToken of
           None \<Rightarrow> (None, r)
         | Some token \<Rightarrow>
             if token = [] then (None, r)
             else (case service_authenticate E key token r of
                     (Inl _, r') \<Rightarrow> (None, r')
                   | (Inr s, r') \<Rightarrow> (Some (session_id s), r')))
      in (case service_issue (env_from 1 E) key policy authentication client r1 of
            (Inl e, r2) \<Rightarrow> (Inl e, r2)
          | (Inr created, r2) \<Rightarrow>
              (case previousId of
                 None \<Rightarrow> (Inr created, r2)
               | Some pid \<Rightarrow>
                   if pid \<noteq> grant_id created
                   then (case service_revoke (env_from 2 E) pid r2 of
                           (Inr _, r3) \<Rightarrow> (Inr created, r3)
                         | (Inl e, r3) \<Rightarrow>
                             (Inl e, snd (service_revoke (env_from 3 E) (grant_id created) r3)))
                   else (Inr created, r2))))"

text \<open>
  \<^verbatim>\<open>delegated\<close> is the token service behind its port: it answers with its access and changes
  no session.
\<close>

definition service_authenticateDelegated ::
    "env \<Rightarrow> SessionKey \<Rightarrow> string \<Rightarrow> (string \<Rightarrow> DelegatedAccess Result) option \<Rightarrow> string
     \<Rightarrow> SessionRepository \<Rightarrow> Session Result \<times> SessionRepository" where
  "service_authenticateDelegated E key token delegated requiredScope r =
     (case service_authenticate E key token r of
        (Inr s, r') \<Rightarrow> (Inr s, r')
      | (Inl e, r') \<Rightarrow>
          (case delegated of
             None \<Rightarrow> (Inl e, r')
           | Some authenticateDelegated \<Rightarrow>
               (case authenticateDelegated token of
                  Inl e' \<Rightarrow> (Inl e', r')
                | Inr access \<Rightarrow>
                    if access_senderConstraint access \<noteq> None
                    then (fail_msg AuthenticationFailed
                            (''Sender-constrained delegated access requires proof verification ''
                             @ ''at the protocol edge.''), r')
                    else if \<not> DelegatedAccess_permits access requiredScope
                    then (fail_msg PermissionDenied
                            ''The delegated access token lacks the required scope.'', r')
                    else (Inr (access_authenticated access), r'))))"

definition service_rotate ::
    "env \<Rightarrow> SessionKey \<Rightarrow> string \<Rightarrow> SessionRepository \<Rightarrow> SessionGrant Result \<times> SessionRepository" where
  "service_rotate E key token r =
     (case session_digest E key token of
        Inl e \<Rightarrow> (Inl e, r)
      | Inr oldFingerprint \<Rightarrow>
     (case sessions_use oldFingerprint (env_now E 0) r of
        (Inl e, r') \<Rightarrow> (Inl e, r')
      | (Inr current, r') \<Rightarrow>
     (case randomTokenBase64Url E 0 32 of
        Inl e \<Rightarrow> (Inl e, r')
      | Inr replacement \<Rightarrow>
     (case session_digest E key replacement of
        Inl e \<Rightarrow> (Inl e, r')
      | Inr replacementFingerprint \<Rightarrow>
     (case sessions_rotate (session_id current) oldFingerprint replacementFingerprint
             (env_now E 1) r' of
        (Inl e, r'') \<Rightarrow> (Inl e, r'')
      | (Inr _, r'') \<Rightarrow>
          (Inr \<lparr>grant_id = session_id current, grant_token = replacement\<rparr>, r''))))))"

text \<open>
  The sort is by last use, latest first; the standard leaves the order of equal keys open, and the
  model keeps it stable.
\<close>

definition service_list ::
    "env \<Rightarrow> IdentityId \<Rightarrow> SessionRepository \<Rightarrow> Session list Result" where
  "service_list E identity r =
     (case sessions_list identity r of
        Inl e \<Rightarrow> Inl e
      | Inr values \<Rightarrow>
          Inr (sort_key (\<lambda>s. - session_lastSeenAt s)
                 (filter (\<lambda>s. \<not> (session_state s \<noteq> Active \<or> Session_isExpiredAt s (env_now E 0)))
                    values)))"

definition service_revokeOwned ::
    "env \<Rightarrow> IdentityId \<Rightarrow> SessionId \<Rightarrow> SessionRepository \<Rightarrow> Status \<times> SessionRepository" where
  "service_revokeOwned E identity sid r =
     (case sessions_find sid r of
        Inl e \<Rightarrow> (Inl e, r)
      | Inr found \<Rightarrow>
          (case found of
             None \<Rightarrow> (fail_msg NotFound ''That session was not found.'', r)
           | Some s \<Rightarrow>
               if session_identity s \<noteq> identity
               then (fail_msg NotFound ''That session was not found.'', r)
               else sessions_revoke sid (env_now E 0) r))"

section \<open>What a successful call did\<close>

lemma sessions_add_success:
  assumes "sessions_inv r" "sessions_add s r = (Inr u, r')"
  shows "map_of (repo_sessions r) (session_id s) = None"
    "map_of (repo_tokens r) (session_tokenDigest s) = None"
    "map_of (repo_sessions r') = (map_of (repo_sessions r))(session_id s \<mapsto> s)"
    "map_of (repo_tokens r') = (map_of (repo_tokens r))(session_tokenDigest s \<mapsto> session_id s)"
  using assms sessions_invD(1,2) [OF assms(1)]
  by (auto simp: sessions_add_def store_simps split: if_splits)

lemma Session_create_success:
  "Session_create sid identity provider assurance strength at digest now lifetime idle ua ra = Inr s \<Longrightarrow>
     s = Session_new sid identity provider assurance strength at digest now (now + lifetime) idle ua ra
     \<and> 0 < lifetime \<and> 0 < idle \<and> at \<le> now"
  by (auto simp: Session_create_def split: if_splits)

definition issued_session ::
    "env \<Rightarrow> SessionPolicy \<Rightarrow> VerifiedAuthentication \<Rightarrow> ClientContext \<Rightarrow> SessionId \<Rightarrow> TokenDigest \<Rightarrow> Session" where
  "issued_session E policy a client sid d =
     Session_new sid (verified_identity a) (outcome_provider (verified_outcome a))
       (outcome_claimedAssurance (verified_outcome a)) (outcome_strength (verified_outcome a))
       (outcome_verifiedAt (verified_outcome a)) d (env_now E 0)
       (env_now E 0 + policy_absoluteLifetime policy) (policy_idleTimeout policy)
       (metadata (client_userAgent client)) (metadata (client_remoteAddress client))"

lemma issued_session_simps [simp]:
  "session_id (issued_session E policy a client sid d) = sid"
  "session_identity (issued_session E policy a client sid d) = verified_identity a"
  "session_provider (issued_session E policy a client sid d) = outcome_provider (verified_outcome a)"
  "session_assurance (issued_session E policy a client sid d)
     = outcome_claimedAssurance (verified_outcome a)"
  "session_strength (issued_session E policy a client sid d) = outcome_strength (verified_outcome a)"
  "session_authenticatedAt (issued_session E policy a client sid d)
     = outcome_verifiedAt (verified_outcome a)"
  "session_tokenDigest (issued_session E policy a client sid d) = d"
  "session_state (issued_session E policy a client sid d) = Active"
  "session_lastSeenAt (issued_session E policy a client sid d) = env_now E 0"
  "session_absoluteExpiresAt (issued_session E policy a client sid d)
     = env_now E 0 + policy_absoluteLifetime policy"
  "session_idleTimeout (issued_session E policy a client sid d) = policy_idleTimeout policy"
  by (simp_all add: issued_session_def Session_new_def)

lemma service_issue_success:
  assumes "service_issue E key policy a client r = (Inr g, r')"
  obtains d where "session_digest E key (grant_token g) = Inr d"
    "sessions_add (issued_session E policy a client (grant_id g) d) r = (ok, r')"
  using assms
  by (auto simp: service_issue_def Let_def issued_session_def split: sum.splits prod.splits
      dest!: Session_create_success)

lemma service_issue_inv: "sessions_inv r \<Longrightarrow> sessions_inv (snd (service_issue E key policy a c r))"
  using sessions_add_inv
  by (auto simp: service_issue_def Let_def split: sum.splits prod.splits) (metis snd_conv)+

lemma session_digest_from [simp]: "session_digest (env_from k E) = session_digest E"
  by (simp add: session_digest_def fun_eq_iff)

lemma session_digest_HMAC: "env_HMAC E' = env_HMAC E \<Longrightarrow> session_digest E' = session_digest E"
  by (intro ext) (simp add: session_digest_def hmac_HMAC [of E' E])

lemma sessions_use_stored:
  assumes "sessions_inv r" "map_of (repo_sessions r) sid = Some s" "session_tokenDigest s = d"
    and "session_state s = Active" "now < session_absoluteExpiresAt s" "now < idleExpiresAt s"
  shows "fst (sessions_use d now r) = Inr (s\<lparr>session_lastSeenAt := now\<rparr>)"
proof -
  have "sessions_use d now r = (Inr (s\<lparr>session_lastSeenAt := now\<rparr>),
      r\<lparr>repo_sessions := omap_modify sid (\<lambda>_. s\<lparr>session_lastSeenAt := now\<rparr>) (repo_sessions r)\<rparr>)"
    using assms(2-) unfolding sessions_use_Inr [OF assms(1)] by blast
  then show ?thesis by simp
qed

lemma service_authenticate_success:
  assumes "sessions_inv r" "service_authenticate E key token r = (Inr s', r')"
  obtains d s where "session_digest E key token = Inr d" "sessions_use d (env_now E 0) r = (Inr s', r')"
    "map_of (repo_sessions r) (session_id s') = Some s" "session_tokenDigest s = d"
    "session_state s = Active" "s' = s\<lparr>session_lastSeenAt := env_now E 0\<rparr>"
    "map_of (repo_sessions r') = (map_of (repo_sessions r))(session_id s' \<mapsto> s')"
proof -
  obtain d where d: "session_digest E key token = Inr d"
    and used: "sessions_use d (env_now E 0) r = (Inr s', r')"
    using assms(2) by (auto simp: service_authenticate_def split: sum.splits)
  then show ?thesis
    using that [OF d used] sessions_invD(3) [OF assms(1)]
    unfolding sessions_use_Inr [OF assms(1)] by (fastforce simp: map_of_modify)
qed

lemma sessions_revoke_active:
  assumes "map_of (repo_sessions r) sid = Some s" "session_state s = Active"
  shows "sessions_revoke sid now r = (ok, r\<lparr>repo_sessions := omap_modify sid
     (\<lambda>_. s\<lparr>session_state := Revoked, session_revokedAt := Some now\<rparr>) (repo_sessions r)\<rparr>)"
  using assms by (simp add: sessions_revoke_def Session_revoke_def)

lemma sessions_use_dead:
  assumes "sessions_inv r" "map_of (repo_sessions r) sid = Some s" "session_tokenDigest s = d"
    and "session_state s \<noteq> Active"
  shows "failed_with (fst (sessions_use d now r)) AuthenticationFailed"
proof -
  have "map_of (repo_tokens r) d = Some sid"
    using exact_index_lookup [OF sessions_invD(4) [OF assms(1)] assms(2)] assms(3) by simp
  with assms(2,4) show ?thesis
    by (simp add: sessions_use_def Session_use_def authFailure_def Error_with_detail_def)
qed

text \<open>Replacing a session whose token is valid, step by step.\<close>

lemma issueReplacing_valid:
  assumes "sessions_inv r" "service_authenticate E key token r = (Inr s, r0)"
  shows "service_issueReplacing E key policy a client (Some token) r =
    (case service_issue (env_from 1 E) key policy a client r0 of
       (Inl e, r2) \<Rightarrow> (Inl e, r2)
     | (Inr g, r2) \<Rightarrow>
         (Inr g, r2\<lparr>repo_sessions := omap_modify (session_id s)
            (\<lambda>_. s\<lparr>session_state := Revoked, session_revokedAt := Some (env_now E 2)\<rparr>)
            (repo_sessions r2)\<rparr>))
    \<and> (\<forall>g r2. service_issue (env_from 1 E) key policy a client r0 = (Inr g, r2) \<longrightarrow>
         session_id s \<noteq> grant_id g \<and> map_of (repo_sessions r2) (session_id s) = Some s
         \<and> sessions_inv r2)"
proof -
  obtain d s0 where d: "session_digest E key token = Inr d" and s0: "session_state s0 = Active"
      "s = s0\<lparr>session_lastSeenAt := env_now E 0\<rparr>"
    and r0: "map_of (repo_sessions r0) = (map_of (repo_sessions r))(session_id s \<mapsto> s)"
    and used: "sessions_use d (env_now E 0) r = (Inr s, r0)"
    using service_authenticate_success [OF assms] by metis
  have inv0: "sessions_inv r0"
    using sessions_use_inv [OF assms(1), of d "env_now E 0"] used by simp
  have token: "token \<noteq> []"
    using d by (auto simp: session_digest_def)
  have stored: "session_id s \<noteq> grant_id g \<and> map_of (repo_sessions r2) (session_id s) = Some s
      \<and> sessions_inv r2"
    if issued: "service_issue (env_from 1 E) key policy a client r0 = (Inr g, r2)" for g r2
  proof -
    obtain d' where "sessions_add (issued_session (env_from 1 E) policy a client (grant_id g) d') r0
        = (ok, r2)"
      using service_issue_success [OF issued] by blast
    from sessions_add_success [OF inv0 this] show ?thesis
      using r0 service_issue_inv [OF inv0, of "env_from 1 E" key policy a client] issued by auto
  qed
  have active: "session_state s = Active"
    using s0 by simp
  have "service_issueReplacing E key policy a client (Some token) r =
    (case service_issue (env_from 1 E) key policy a client r0 of
       (Inl e, r2) \<Rightarrow> (Inl e, r2)
     | (Inr g, r2) \<Rightarrow>
         (Inr g, r2\<lparr>repo_sessions := omap_modify (session_id s)
            (\<lambda>_. s\<lparr>session_state := Revoked, session_revokedAt := Some (env_now E 2)\<rparr>)
            (repo_sessions r2)\<rparr>))"
    using token assms(2) stored active
    by (auto simp: service_issueReplacing_def service_revoke_def sessions_revoke_active Let_def
        split: sum.splits prod.splits)
  with stored show ?thesis by blast
qed

section \<open>Properties of the service\<close>

text \<open>
  A login works: the token that \<^verbatim>\<open>issue\<close> hands out authenticates, at every instant
  before both deadlines of the policy, a session with the granted id that carries the identity,
  provider, assurance and strength that the authentication coordinator verified; all other sessions
  are left as they were.
\<close>

theorem issued_token_authenticates:
  assumes "service_issue E key policy authentication client (sessions_after cs) = (Inr g, r)"
    and "env_HMAC E' = env_HMAC E"
    and "env_now E' 0 < env_now E 0 + policy_absoluteLifetime policy"
    and "env_now E' 0 < env_now E 0 + policy_idleTimeout policy"
  shows "(\<exists>s. fst (service_authenticate E' key (grant_token g) r) = Inr s
      \<and> session_id s = grant_id g
      \<and> session_identity s = verified_identity authentication
      \<and> session_provider s = outcome_provider (verified_outcome authentication)
      \<and> session_assurance s = outcome_claimedAssurance (verified_outcome authentication)
      \<and> session_strength s = outcome_strength (verified_outcome authentication)
      \<and> session_authenticatedAt s = outcome_verifiedAt (verified_outcome authentication))
    \<and> (map_of (repo_sessions r))(grant_id g := None) = map_of (repo_sessions (sessions_after cs))"
proof -
  obtain d where d: "session_digest E key (grant_token g) = Inr d"
    and add: "sessions_add (issued_session E policy authentication client (grant_id g) d)
      (sessions_after cs) = (ok, r)"
    using service_issue_success [OF assms(1)] .
  let ?s = "issued_session E policy authentication client (grant_id g) d"
  note added = sessions_add_success [OF sessions_after_inv add]
  have "sessions_inv r"
    using sessions_add_inv [OF sessions_after_inv, of ?s cs] add by simp
  then have "fst (sessions_use d (env_now E' 0) r) = Inr (?s\<lparr>session_lastSeenAt := env_now E' 0\<rparr>)"
    using assms(3,4)
    by (intro sessions_use_stored [where sid = "grant_id g"]) (simp_all add: added idleExpiresAt_def)
  then have "fst (service_authenticate E' key (grant_token g) r)
      = Inr (?s\<lparr>session_lastSeenAt := env_now E' 0\<rparr>)"
    using d by (simp add: service_authenticate_def session_digest_HMAC [OF assms(2)])
  then show ?thesis
    using added by (auto simp: fun_eq_iff)
qed

definition sample_key :: SessionKey where
  "sample_key = \<lparr>key_secret = replicate 32 (CHR ''k'')\<rparr>"

definition sample_policy :: SessionPolicy where
  "sample_policy = \<lparr>policy_absoluteLifetime = 1000, policy_idleTimeout = 500\<rparr>"

definition sample_authentication :: VerifiedAuthentication where
  "sample_authentication =
     \<lparr>verified_outcome =
        \<lparr>outcome_provider = StrongId ''local'', outcome_subject = StrongId ''alice@example'',
         outcome_claims = [], outcome_claimedAssurance = Ial2,
         outcome_strength = \<lparr>strength_factors = Factor_Knowledge, strength_phishingResistant = False\<rparr>,
         outcome_evidence = [], outcome_verifiedAt = 90\<rparr>,
      verified_identity = StrongId ''alice''\<rparr>"

definition sample_client_context :: ClientContext where
  "sample_client_context = \<lparr>client_remoteAddress = ''10.0.0.1'', client_userAgent = []\<rparr>"

lemma sample_digest [simp]:
  "session_digest sample_env sample_key token =
     (if token = [] then Inl (authFailure ''An empty session token was presented.'')
      else Inr (replicate 32 (if token = ''tok'' then 1 else 2)))"
  by (simp add: session_digest_def hmacSha256_def sample_env_def sample_key_def int_max_def)

lemma sample_create [simp]:
  "90 \<le> now \<Longrightarrow> Session_create (StrongId (toBase64Url (replicate 32 b))) (verified_identity sample_authentication)
     (outcome_provider (verified_outcome sample_authentication)) assurance strength
     (outcome_verifiedAt (verified_outcome sample_authentication)) d now
     (policy_absoluteLifetime sample_policy) (policy_idleTimeout sample_policy)
     (metadata (client_userAgent sample_client_context))
     (metadata (client_remoteAddress sample_client_context)) =
   Inr (Session_new (StrongId (toBase64Url (replicate 32 b))) (StrongId ''alice'') (StrongId ''local'')
          assurance strength 90 d now (now + 1000) 500 None (Some ''10.0.0.1''))"
  by (simp add: Session_create_def sample_authentication_def sample_policy_def
      sample_client_context_def metadata_def metadata_too_large_def)

lemma sample_issue:
  "fst (service_issue sample_env sample_key sample_policy sample_authentication sample_client_context
     empty_sessions)
   = Inr \<lparr>grant_id = StrongId (toBase64Url (replicate 32 0)),
           grant_token = toBase64Url (replicate 32 1)\<rparr>"
  by (simp add: service_issue_def sessions_add_def empty_sessions_def omap_contains_def Let_def)

theorem issued_token_authenticates_witness:
  "\<exists>s. fst (service_authenticate sample_env sample_key (toBase64Url (replicate 32 1))
     (snd (service_issue sample_env sample_key sample_policy sample_authentication
        sample_client_context empty_sessions))) = Inr s \<and> session_identity s = StrongId ''alice''"
proof -
  let ?out = "service_issue sample_env sample_key sample_policy sample_authentication
        sample_client_context (sessions_after [])"
  have "?out = (Inr \<lparr>grant_id = StrongId (toBase64Url (replicate 32 0)),
      grant_token = toBase64Url (replicate 32 1)\<rparr>, snd ?out)"
    using sample_issue by (simp add: prod_eq_iff)
  from issued_token_authenticates [OF this, of sample_env] show ?thesis
    by (auto simp: sample_env_def sample_policy_def sample_authentication_def)
qed

text \<open>
  Logging in again from a browser with a valid session replaces that session: the call
  returns what issuing alone would have returned (the rollback branch is never taken on this
  repository), and when it succeeds the old token is refused from then on, the new session is a
  different one, and it is active.
\<close>

theorem issueReplacing_replaces:
  assumes "service_authenticate E key token (sessions_after cs) = (Inr s, r0)"
    and "service_issueReplacing E key policy a client (Some token) (sessions_after cs) = (res, r)"
  shows "res = fst (service_issue (env_from 1 E) key policy a client r0)
    \<and> (\<forall>g. res = Inr g \<longrightarrow>
         session_id s \<noteq> grant_id g
         \<and> (\<exists>s'. map_of (repo_sessions r) (grant_id g) = Some s' \<and> session_state s' = Active
              \<and> session_identity s' = verified_identity a
              \<and> session_digest E key (grant_token g) = Inr (session_tokenDigest s'))
         \<and> (\<forall>E'. env_HMAC E' = env_HMAC E \<longrightarrow>
              failed_with (fst (service_authenticate E' key token r)) AuthenticationFailed))"
proof -
  note step = issueReplacing_valid [OF sessions_after_inv assms(1), of policy a client]
  obtain d s0 where d: "session_digest E key token = Inr d" "session_tokenDigest s0 = d"
      "s = s0\<lparr>session_lastSeenAt := env_now E 0\<rparr>"
    and r0: "map_of (repo_sessions r0) = (map_of (repo_sessions (sessions_after cs)))(session_id s \<mapsto> s)"
    and used: "sessions_use d (env_now E 0) (sessions_after cs) = (Inr s, r0)"
    using service_authenticate_success [OF sessions_after_inv assms(1)] by metis
  have inv0: "sessions_inv r0"
    using sessions_use_inv [OF sessions_after_inv, of d "env_now E 0" cs] used by simp
  have res: "res = fst (service_issue (env_from 1 E) key policy a client r0)"
    using step assms(2) by (auto split: sum.splits prod.splits)
  have "session_id s \<noteq> grant_id g
      \<and> (\<exists>s'. map_of (repo_sessions r) (grant_id g) = Some s' \<and> session_state s' = Active
           \<and> session_identity s' = verified_identity a
           \<and> session_digest E key (grant_token g) = Inr (session_tokenDigest s'))
      \<and> (\<forall>E'. env_HMAC E' = env_HMAC E \<longrightarrow>
           failed_with (fst (service_authenticate E' key token r)) AuthenticationFailed)"
    if g: "res = Inr g" for g
  proof -
    obtain r2 where issued: "service_issue (env_from 1 E) key policy a client r0 = (Inr g, r2)"
      using res g by (metis prod.collapse)
    let ?s = "s\<lparr>session_state := Revoked, session_revokedAt := Some (env_now E 2)\<rparr>"
    have facts: "session_id s \<noteq> grant_id g" "map_of (repo_sessions r2) (session_id s) = Some s"
        "sessions_inv r2"
      using step issued by auto
    have r: "r = r2\<lparr>repo_sessions := omap_modify (session_id s) (\<lambda>_. ?s) (repo_sessions r2)\<rparr>"
      using step issued assms(2) by auto
    obtain d' where d': "session_digest E key (grant_token g) = Inr d'"
      and add: "sessions_add (issued_session (env_from 1 E) policy a client (grant_id g) d') r0 = (ok, r2)"
      using service_issue_success [OF issued] unfolding session_digest_from by blast
    have "map_of (repo_sessions r) (grant_id g)
        = Some (issued_session (env_from 1 E) policy a client (grant_id g) d')"
      using facts(1) sessions_add_success(3) [OF inv0 add] by (simp add: r map_of_modify)
    moreover have "failed_with (fst (sessions_use d t r)) AuthenticationFailed" for t
    proof (rule sessions_use_dead)
      show "sessions_inv r" unfolding r by (rule sessions_inv_modify [OF facts(3,2)]) simp_all
      show "map_of (repo_sessions r) (session_id s) = Some ?s"
        using facts(2) by (simp add: r map_of_modify)
    qed (simp_all add: d)
    moreover have "service_authenticate E' key token r = sessions_use d (env_now E' 0) r"
      if "env_HMAC E' = env_HMAC E" for E'
      using d(1) by (simp add: service_authenticate_def session_digest_HMAC [OF that])
    ultimately show ?thesis
      using facts(1) d' by simp
  qed
  with res show ?thesis by blast
qed

definition sample_old :: Session where
  "sample_old = (sample_session ''a'' 0)\<lparr>session_tokenDigest := replicate 32 1\<rparr>"

lemma sample_old_simps [simp]:
  "session_id sample_old = StrongId ''a''" "session_tokenDigest sample_old = replicate 32 1"
  "session_state sample_old = Active" "session_absoluteExpiresAt sample_old = 1000"
  "session_idleTimeout sample_old = 500" "session_lastSeenAt sample_old = 0"
  by (simp_all add: sample_old_def sample_session_def Session_new_def)

lemma sample_old_authenticates:
  "service_authenticate sample_env sample_key ''tok'' (sessions_after [AddSession sample_old])
   = (Inr (sample_old\<lparr>session_lastSeenAt := 100\<rparr>),
      \<lparr>repo_sessions = [(StrongId ''a'', sample_old\<lparr>session_lastSeenAt := 100\<rparr>)],
       repo_tokens = [(replicate 32 1, StrongId ''a'')]\<rparr>)"
proof -
  have "env_now sample_env 0 = 100" by (simp add: sample_env_def)
  then show ?thesis
    unfolding service_authenticate_def sample_digest
    by (simp add: sessions_add_def empty_sessions_def omap_contains_def sessions_use_def
        Session_use_def Session_isExpiredAt_def idleExpiresAt_def)
qed

theorem issueReplacing_replaces_witness:
  "failed_with (fst (service_authenticate sample_env sample_key ''tok''
     (snd (service_issueReplacing sample_env sample_key sample_policy sample_authentication
        sample_client_context (Some ''tok'') (sessions_after [AddSession sample_old])))))
   AuthenticationFailed"
proof -
  let ?out = "service_issueReplacing sample_env sample_key sample_policy sample_authentication
        sample_client_context (Some ''tok'') (sessions_after [AddSession sample_old])"
  let ?r0 = "\<lparr>repo_sessions = [(StrongId ''a'', sample_old\<lparr>session_lastSeenAt := 100\<rparr>)],
       repo_tokens = [(replicate 32 1, StrongId ''a'')]\<rparr>"
  have random: "randomTokenBase64Url (env_from 1 sample_env) i 32
      = Inr (toBase64Url (replicate 32 (of_nat (Suc i))))" for i
    by (simp add: sample_env_def randomTokenBase64Url_def randomBytes_def int_max_def)
  have "fst (service_issue (env_from 1 sample_env) sample_key sample_policy sample_authentication
      sample_client_context ?r0)
    = Inr \<lparr>grant_id = StrongId (toBase64Url (replicate 32 1)),
            grant_token = toBase64Url (replicate 32 2)\<rparr>"
    unfolding service_issue_def random
    by (simp add: sessions_add_def omap_contains_def Let_def Session_new_def)
  then show ?thesis
    using issueReplacing_replaces [OF sample_old_authenticates, of sample_policy sample_authentication
        sample_client_context "fst ?out" "snd ?out"] by auto
qed

text \<open>
  Token rotation at the service: the grant names the same session, the new token
  authenticates it before its deadlines, and the token it replaced is refused.
\<close>

theorem service_rotate_replaces:
  assumes "service_rotate E key token (sessions_after cs) = (Inr g, r)" "env_HMAC E' = env_HMAC E"
  shows "failed_with (fst (service_authenticate E' key token r)) AuthenticationFailed
    \<and> (\<exists>s. map_of (repo_sessions (sessions_after cs)) (grant_id g) = Some s
         \<and> session_digest E key token = Inr (session_tokenDigest s)
         \<and> succeeded (fst (service_authenticate E' key (grant_token g) r)) =
             (env_now E' 0 < session_absoluteExpiresAt s
              \<and> env_now E' 0 < env_now E 1 + session_idleTimeout s))"
proof -
  obtain d1 d2 s' r' u where d1: "session_digest E key token = Inr d1"
    and used: "sessions_use d1 (env_now E 0) (sessions_after cs) = (Inr s', r')"
    and d2: "session_digest E key (grant_token g) = Inr d2"
    and rotated: "sessions_rotate (grant_id g) d1 d2 (env_now E 1) r' = (Inr u, r)"
    and gid: "grant_id g = session_id s'"
    using assms(1) by (auto simp: service_rotate_def split: sum.splits prod.splits)
  obtain s where s: "map_of (repo_sessions (sessions_after cs)) (session_id s') = Some s"
      "session_tokenDigest s = d1" "s' = s\<lparr>session_lastSeenAt := env_now E 0\<rparr>"
      "map_of (repo_sessions r') = (map_of (repo_sessions (sessions_after cs)))(session_id s' \<mapsto> s')"
    using used sessions_invD(3) [OF sessions_after_inv]
    unfolding sessions_use_Inr [OF sessions_after_inv] by (fastforce simp: map_of_modify)
  have "sessions_inv r'"
    using sessions_use_inv [OF sessions_after_inv, of d1 "env_now E 0" cs] used by simp
  note rot = sessions_rotate_effect [OF this rotated, of "env_now E' 0"]
  have "service_authenticate E' key token r = sessions_use d1 (env_now E' 0) r"
       "service_authenticate E' key (grant_token g) r = sessions_use d2 (env_now E' 0) r"
    using d1 d2 by (simp_all add: service_authenticate_def session_digest_HMAC [OF assms(2)])
  then show ?thesis
    using rot s d1 by (auto simp: gid)
qed

theorem service_rotate_replaces_witness:
  "failed_with (fst (service_authenticate sample_env sample_key ''tok''
     (snd (service_rotate sample_env sample_key ''tok'' (sessions_after [AddSession sample_old])))))
   AuthenticationFailed"
proof -
  let ?out = "service_rotate sample_env sample_key ''tok'' (sessions_after [AddSession sample_old])"
  have used: "sessions_use (replicate 32 1) (env_now sample_env 0) (sessions_after [AddSession sample_old])
    = (Inr (sample_old\<lparr>session_lastSeenAt := 100\<rparr>),
       \<lparr>repo_sessions = [(StrongId ''a'', sample_old\<lparr>session_lastSeenAt := 100\<rparr>)],
        repo_tokens = [(replicate 32 1, StrongId ''a'')]\<rparr>)"
    using sample_old_authenticates unfolding service_authenticate_def sample_digest by simp
  have "env_now sample_env (Suc 0) = 101"
    by (simp add: sample_env_def)
  then have "fst ?out = Inr \<lparr>grant_id = StrongId ''a'', grant_token = toBase64Url (replicate 32 0)\<rparr>"
    using used
    by (simp add: service_rotate_def sessions_rotate_def Session_rotateToken_def Session_use_def
        Session_isExpiredAt_def idleExpiresAt_def omap_contains_def Let_def del: final_state_Cons)
  then have "?out = (Inr \<lparr>grant_id = StrongId ''a'', grant_token = toBase64Url (replicate 32 0)\<rparr>, snd ?out)"
    by (simp add: prod_eq_iff)
  from service_rotate_replaces [OF this refl] show ?thesis
    by blast
qed

text \<open>
  The account's session list is exact: the sessions of that identity that are active and
  past neither deadline, each once, the most recently used first.
\<close>

theorem service_list_exact:
  "\<exists>xs. service_list E identity (sessions_after cs) = Inr xs
    \<and> set xs = {s. map_of (repo_sessions (sessions_after cs)) (session_id s) = Some s
                 \<and> session_identity s = identity \<and> session_state s = Active
                 \<and> \<not> Session_isExpiredAt s (env_now E 0)}
    \<and> distinct xs \<and> sorted (rev (map session_lastSeenAt xs))"
proof -
  let ?m = "repo_sessions (sessions_after cs)"
  note ok = sessions_invD [OF sessions_after_inv [of cs]]
  note stored = omap_values [of ?m session_id, OF ok(1,3)]
  have "sorted (rev (map session_lastSeenAt (sort_key (\<lambda>s. - session_lastSeenAt s) ys)))" for ys
  proof -
    have "sorted_wrt (\<lambda>a b. session_lastSeenAt b \<le> session_lastSeenAt a)
        (sort_key (\<lambda>s. - session_lastSeenAt s) ys)"
      using sorted_sort_key [of "\<lambda>s. - session_lastSeenAt s" ys] by (simp add: sorted_map)
    then show ?thesis by (simp add: sorted_wrt_rev sorted_wrt_map)
  qed
  then show ?thesis
    using stored by (auto simp: service_list_def sessions_list_def)
qed

text \<open>
  What a native account API accepts: a first-party session token whatever the scope, or a
  delegated access token that is bound to no sender and was granted the required scope (an empty
  requirement asks for none). A sender-constrained token is never accepted as a plain bearer.
\<close>

theorem delegated_acceptance:
  "fst (service_authenticateDelegated E key token
          (Some (\<lambda>_. Inr (DelegatedAccess_new authenticated clientId scopes audiences constraint)))
          scope r) = Inr s \<longleftrightarrow>
     fst (service_authenticate E key token r) = Inr s
     \<or> \<not> succeeded (fst (service_authenticate E key token r)) \<and> constraint = None
        \<and> (scope = [] \<or> scope \<in> set scopes) \<and> s = authenticated"
proof -
  have "sorted (sort_unique scopes)"
    using sort_unique_sorted strict_sorted_iff by blast
  then have "DelegatedAccess_permits
      (DelegatedAccess_new authenticated clientId scopes audiences constraint) scope
      = (scope = [] \<or> scope \<in> set scopes)"
    by (simp add: DelegatedAccess_permits_def DelegatedAccess_new_def binary_search_sorted)
  then show ?thesis
    by (auto simp: service_authenticateDelegated_def DelegatedAccess_new_def succeeded_def fail_msg_def
        split: prod.splits sum.splits)
qed

end
