(* ===== verification/Transaction.thy ===== *)
theory Transaction
  imports Provider
begin

text \<open>
  Authentication transactions (\<^verbatim>\<open>src/src/identity/provider/transaction.cpp\<close>): a login in
  flight, bound to a nonce and to the agent that started it, redeemable once. The store's mutex
  spans validation and state change, so each call is one step.
\<close>

datatype TransactionIdTag = TransactionIdTag
type_synonym TransactionId = "TransactionIdTag StrongId"
type_synonym BindingDigest = "byte list"

datatype InteractionModel = Redirect | ChallengeResponse | OutOfBand | Assertion | Delegated

fun interactionModelName :: "InteractionModel \<Rightarrow> string" where
  "interactionModelName Redirect = ''redirect''"
| "interactionModelName ChallengeResponse = ''challenge_response''"
| "interactionModelName OutOfBand = ''out_of_band''"
| "interactionModelName Assertion = ''assertion''"
| "interactionModelName Delegated = ''delegated''"

datatype TransactionState = Pending | Consumed | Failed | Expired

fun transactionStateName :: "TransactionState \<Rightarrow> string" where
  "transactionStateName Pending = ''pending''"
| "transactionStateName Consumed = ''consumed''"
| "transactionStateName Failed = ''failed''"
| "transactionStateName Expired = ''expired''"

record AuthenticationTransaction =
  tx_id :: TransactionId
  tx_provider :: ProviderId
  tx_interactionModel :: InteractionModel
  tx_nonceDigest :: "byte list"
  tx_binding :: BindingDigest
  tx_correlation :: CorrelationId
  tx_state :: TransactionState
  tx_createdAt :: Instant
  tx_expiresAt :: Instant
  tx_metadata :: AttributeMap

definition Transaction_new ::
    "TransactionId \<Rightarrow> ProviderId \<Rightarrow> InteractionModel \<Rightarrow> byte list \<Rightarrow> BindingDigest \<Rightarrow> CorrelationId
     \<Rightarrow> Instant \<Rightarrow> Instant \<Rightarrow> AuthenticationTransaction" where
  "Transaction_new tid provider model nonceDigest binding correlation createdAt expiresAt =
     \<lparr>tx_id = tid, tx_provider = provider, tx_interactionModel = model, tx_nonceDigest = nonceDigest,
      tx_binding = binding, tx_correlation = correlation, tx_state = Pending,
      tx_createdAt = createdAt, tx_expiresAt = expiresAt, tx_metadata = []\<rparr>"

definition Transaction_create ::
    "env \<Rightarrow> TransactionId \<Rightarrow> ProviderId \<Rightarrow> InteractionModel \<Rightarrow> string \<Rightarrow> BindingDigest \<Rightarrow> CorrelationId
     \<Rightarrow> Instant \<Rightarrow> Duration \<Rightarrow> AuthenticationTransaction Result" where
  "Transaction_create E tid provider model nonce binding correlation createdAt lifetime =
     (if StrongId_empty tid
      then fail_msg InvalidArgument ''An authentication transaction must have an identifier.''
      else if StrongId_empty provider
      then fail_msg InvalidArgument ''An authentication transaction must name its provider.''
      else if nonce = []
      then fail_detail InvalidArgument ''An authentication transaction must carry a nonce.''
             (''A transaction was created with an empty nonce; every redemption check ''
              @ ''against it would be trivially satisfiable.'')
      else if lifetime \<le> 0
      then fail_detail InvalidArgument ''An authentication transaction must have a positive lifetime.''
             ''A non-positive lifetime yields a transaction that is expired at issue time.''
      else (case sha256 E nonce of
              Inl e \<Rightarrow> Inl e
            | Inr nonceDigest \<Rightarrow>
                Inr (Transaction_new tid provider model nonceDigest binding correlation createdAt
                       (createdAt + lifetime))))"

definition Transaction_restore ::
    "TransactionId \<Rightarrow> ProviderId \<Rightarrow> InteractionModel \<Rightarrow> byte list \<Rightarrow> BindingDigest \<Rightarrow> CorrelationId
     \<Rightarrow> TransactionState \<Rightarrow> Instant \<Rightarrow> Instant \<Rightarrow> AttributeMap \<Rightarrow> AuthenticationTransaction Result" where
  "Transaction_restore tid provider model nonceDigest binding correlation state createdAt expiresAt
     metadata =
     (if StrongId_empty tid \<or> StrongId_empty provider \<or> StrongId_empty correlation
         \<or> expiresAt \<le> createdAt
      then fail_msg InvalidArgument ''The persisted authentication transaction is invalid.''
      else Inr ((Transaction_new tid provider model nonceDigest binding correlation createdAt expiresAt)
                  \<lparr>tx_state := state, tx_metadata := metadata\<rparr>))"

definition Transaction_isExpiredAt :: "AuthenticationTransaction \<Rightarrow> Instant \<Rightarrow> bool" where
  "Transaction_isExpiredAt t now = (now \<ge> tx_expiresAt t)"

definition Transaction_isPendingAt :: "AuthenticationTransaction \<Rightarrow> Instant \<Rightarrow> bool" where
  "Transaction_isPendingAt t now = (tx_state t = Pending \<and> \<not> Transaction_isExpiredAt t now)"

definition Transaction_setMetadata ::
    "string \<Rightarrow> string \<Rightarrow> AuthenticationTransaction \<Rightarrow> AuthenticationTransaction" where
  "Transaction_setMetadata key value t =
     t\<lparr>tx_metadata := omap_insert_or_assign key value (tx_metadata t)\<rparr>"

definition Transaction_consume ::
    "env \<Rightarrow> string \<Rightarrow> BindingDigest \<Rightarrow> Instant \<Rightarrow> AuthenticationTransaction
     \<Rightarrow> Status \<times> AuthenticationTransaction" where
  "Transaction_consume E presentedNonce presentedBinding now t =
     (if tx_state t \<noteq> Pending
      then (fail_detail FailedPrecondition ''This authentication request is no longer valid.''
              (''Transaction redemption refused; state is '' @ transactionStateName (tx_state t)
               @ ''. A transaction is redeemable exactly once.''), t)
      else if Transaction_isExpiredAt t now
      then (fail_detail FailedPrecondition ''This authentication request has expired.''
              ''Transaction redemption refused: deadline passed.'', t\<lparr>tx_state := Expired\<rparr>)
      else (case sha256 E presentedNonce of
              Inl e \<Rightarrow> (Inl e, t\<lparr>tx_state := Failed\<rparr>)
            | Inr presentedNonceDigest \<Rightarrow>
                let nonceMatches = constantTimeEquals (tx_nonceDigest t) presentedNonceDigest;
                    bindingMatches = constantTimeEquals (tx_binding t) presentedBinding
                in if \<not> nonceMatches \<or> \<not> bindingMatches
                   then (Inl (authFailure
                           (if nonceMatches
                            then ''Transaction binding mismatch: the answer was presented by a ''
                                 @ ''different agent than the one that started it.''
                            else ''Transaction nonce mismatch.'')),
                         t\<lparr>tx_state := Failed\<rparr>)
                   else (ok, t\<lparr>tx_state := Consumed\<rparr>)))"

definition Transaction_markFailed :: "AuthenticationTransaction \<Rightarrow> AuthenticationTransaction" where
  "Transaction_markFailed t = (if tx_state t = Pending then t\<lparr>tx_state := Failed\<rparr> else t)"

definition Transaction_markExpired :: "AuthenticationTransaction \<Rightarrow> AuthenticationTransaction" where
  "Transaction_markExpired t = (if tx_state t = Pending then t\<lparr>tx_state := Expired\<rparr> else t)"

section \<open>The store\<close>

type_synonym TransactionStore = "(TransactionId, AuthenticationTransaction) omap"

definition transactions_begin ::
    "AuthenticationTransaction \<Rightarrow> TransactionStore \<Rightarrow> Status \<times> TransactionStore" where
  "transactions_begin t m =
     (if omap_contains m (tx_id t)
      then (fail_detail AlreadyExists ''This authentication request could not be started.''
              (''A transaction identifier was reused. Overwriting the existing entry would ''
               @ ''discard an in-flight transaction belonging to another subject.''), m)
      else (ok, omap_emplace (tx_id t) t m))"

definition transactions_consume ::
    "env \<Rightarrow> TransactionId \<Rightarrow> string \<Rightarrow> BindingDigest \<Rightarrow> Instant \<Rightarrow> TransactionStore
     \<Rightarrow> AuthenticationTransaction Result \<times> TransactionStore" where
  "transactions_consume E tid presentedNonce presentedBinding now m =
     (case map_of m tid of
        None \<Rightarrow> (Inl (authFailure ''Transaction redemption refused: unknown identifier.''), m)
      | Some t \<Rightarrow>
          (case Transaction_consume E presentedNonce presentedBinding now t of
             (outcome, t') \<Rightarrow>
               let m' = omap_modify tid (\<lambda>_. t') m
               in (case outcome of Inl e \<Rightarrow> (Inl e, m') | Inr _ \<Rightarrow> (Inr t', m'))))"

definition transactions_find ::
    "TransactionId \<Rightarrow> TransactionStore \<Rightarrow> AuthenticationTransaction option Result" where
  "transactions_find tid m = Inr (map_of m tid)"

fun transactions_purge_loop ::
    "Instant \<Rightarrow> nat \<Rightarrow> TransactionStore \<Rightarrow> nat \<times> TransactionStore" where
  "transactions_purge_loop now removed [] = (removed, [])"
| "transactions_purge_loop now removed ((tid, t) # rest) =
     (if Transaction_isExpiredAt t now
      then transactions_purge_loop now (Suc removed) rest
      else (case transactions_purge_loop now removed rest of
              (n, rest') \<Rightarrow> (n, (tid, t) # rest')))"

definition transactions_purgeExpired :: "Instant \<Rightarrow> TransactionStore \<Rightarrow> nat \<times> TransactionStore" where
  "transactions_purgeExpired now m = transactions_purge_loop now 0 m"

definition transactions_size :: "TransactionStore \<Rightarrow> nat" where
  "transactions_size m = length m"

section \<open>Every history of calls\<close>

datatype transaction_call =
    BeginTransaction AuthenticationTransaction
  | ConsumeTransaction env TransactionId string BindingDigest Instant
  | PurgeTransactions Instant

datatype transaction_reply =
  BeginReply Status | ConsumeReply "AuthenticationTransaction Result" | PurgeReply nat

fun transaction_step ::
    "transaction_call \<Rightarrow> TransactionStore \<Rightarrow> transaction_reply \<times> TransactionStore" where
  "transaction_step (BeginTransaction t) m = apfst BeginReply (transactions_begin t m)"
| "transaction_step (ConsumeTransaction E tid nonce binding now) m =
     apfst ConsumeReply (transactions_consume E tid nonce binding now m)"
| "transaction_step (PurgeTransactions now) m = apfst PurgeReply (transactions_purgeExpired now m)"

definition transactions_inv :: "TransactionStore \<Rightarrow> bool" where
  "transactions_inv m \<longleftrightarrow> omap_ok m \<and> (\<forall>tid t. map_of m tid = Some t \<longrightarrow> tx_id t = tid)"

text \<open>An entry that can still be redeemed, a call that redeems it, and one that makes it.\<close>

definition tx_redeemable :: "TransactionStore \<Rightarrow> TransactionId \<Rightarrow> bool" where
  "tx_redeemable m tid = (\<exists>t. map_of m tid = Some t \<and> tx_state t = Pending)"

fun tx_redeems :: "TransactionStore \<Rightarrow> transaction_call \<Rightarrow> TransactionId \<Rightarrow> bool" where
  "tx_redeems m (ConsumeTransaction E tid' nonce binding now) tid =
     (tid' = tid \<and> succeeded (fst (transactions_consume E tid' nonce binding now m)))"
| "tx_redeems m _ tid = False"

fun tx_begins :: "TransactionStore \<Rightarrow> transaction_call \<Rightarrow> TransactionId \<Rightarrow> bool" where
  "tx_begins m (BeginTransaction t) tid = (tx_id t = tid \<and> succeeded (fst (transactions_begin t m)))"
| "tx_begins m _ tid = False"

lemma transactions_purge_eq:
  "transactions_purgeExpired now m =
     (length (filter (\<lambda>(tid, t). Transaction_isExpiredAt t now) m),
      filter (\<lambda>(tid, t). \<not> Transaction_isExpiredAt t now) m)"
proof -
  have "transactions_purge_loop now n m =
     (n + length (filter (\<lambda>(tid, t). Transaction_isExpiredAt t now) m),
      filter (\<lambda>(tid, t). \<not> Transaction_isExpiredAt t now) m)" for n
    by (induction m arbitrary: n) auto
  then show ?thesis by (simp add: transactions_purgeExpired_def)
qed

lemma transactions_purge_lookup:
  "omap_ok m \<Longrightarrow> map_of (snd (transactions_purgeExpired now m)) tid = Some t \<longleftrightarrow>
     map_of m tid = Some t \<and> \<not> Transaction_isExpiredAt t now"
  by (auto simp: transactions_purge_eq map_of_filter_values split: option.splits if_splits)

lemma Transaction_consume_frame:
  "Transaction_consume E nonce binding now t = (res, t') \<Longrightarrow> tx_id t' = tx_id t \<and> tx_state t' \<noteq> Pending"
  by (auto simp: Transaction_consume_def Let_def split: if_splits sum.splits)

lemma Transaction_consume_success:
  "Transaction_consume E nonce binding now t = (Inr u, t') \<longleftrightarrow>
     tx_state t = Pending \<and> now < tx_expiresAt t \<and> sha256 E nonce = Inr (tx_nonceDigest t)
     \<and> binding = tx_binding t \<and> t' = t\<lparr>tx_state := Consumed\<rparr>"
  by (auto simp: Transaction_consume_def Transaction_isExpiredAt_def Let_def fail_detail_def not_le
      split: sum.splits)

lemma transactions_consume_state:
  "map_of (snd (transactions_consume E tid nonce binding now m)) =
     (case map_of m tid of None \<Rightarrow> map_of m
      | Some t \<Rightarrow> (map_of m)(tid \<mapsto> snd (Transaction_consume E nonce binding now t)))"
  by (auto simp: transactions_consume_def Let_def map_of_modify split: option.splits prod.splits sum.splits)

lemma transactions_step_inv:
  assumes "transactions_inv m"
  shows "transactions_inv (snd (transaction_step c m))"
proof (cases c)
  case (BeginTransaction t)
  with assms show ?thesis
    by (auto simp: transactions_inv_def transactions_begin_def omap_contains_def omap_ok_emplace
        om.find_emplace_new split: if_splits)
next
  case (ConsumeTransaction E tid nonce binding now)
  have "omap_ok (snd (transactions_consume E tid nonce binding now m))"
    using assms by (auto simp: transactions_inv_def transactions_consume_def Let_def
        split: option.splits prod.splits sum.splits)
  moreover have "tx_id t = tid'"
    if "map_of (snd (transactions_consume E tid nonce binding now m)) tid' = Some t" for tid' t
    using that assms Transaction_consume_frame [OF surjective_pairing]
    by (auto simp: transactions_inv_def transactions_consume_state split: option.splits if_splits)
  ultimately show ?thesis
    using ConsumeTransaction by (simp add: transactions_inv_def)
next
  case (PurgeTransactions now)
  with assms show ?thesis
    by (auto simp: transactions_inv_def transactions_purge_lookup)
       (simp add: transactions_purge_eq omap_ok_filter)
qed

lemma tx_never_pending_again:
  assumes "transactions_inv m" "\<not> tx_redeemable m tid" "\<not> tx_begins m c tid"
  shows "\<not> tx_redeemable (snd (transaction_step c m)) tid"
proof (cases c)
  case (BeginTransaction t)
  with assms show ?thesis
    by (auto simp: transactions_inv_def tx_redeemable_def transactions_begin_def store_simps split: if_splits)
next
  case (ConsumeTransaction E tid' nonce binding now)
  with assms(2) show ?thesis
    using Transaction_consume_frame [OF surjective_pairing]
    by (auto simp: tx_redeemable_def transactions_consume_state split: option.splits if_splits)
next
  case (PurgeTransactions now)
  with assms show ?thesis
    by (auto simp: transactions_inv_def tx_redeemable_def transactions_purge_lookup)
qed

interpretation tx: single_use_store transaction_step transactions_inv tx_redeemable tx_redeems tx_begins
proof
  fix m c tid
  assume inv: "transactions_inv m"
  show "transactions_inv (snd (transaction_step c m))"
    using inv by (rule transactions_step_inv)
  show "tx_redeemable m tid" if "tx_redeems m c tid"
    using that
    by (cases c) (auto simp: tx_redeemable_def transactions_consume_def Let_def succeeded_def
        Transaction_consume_success split: option.splits prod.splits sum.splits)
  show "\<not> tx_redeemable (snd (transaction_step c m)) tid" if "tx_redeems m c tid"
    using that Transaction_consume_frame [OF surjective_pairing]
    by (cases c) (auto simp: tx_redeemable_def transactions_consume_state split: option.splits)
  show "\<not> tx_redeemable (snd (transaction_step c m)) tid"
    if "\<not> tx_redeemable m tid" "\<not> tx_begins m c tid"
    using inv that by (rule tx_never_pending_again)
qed

lemma consume_spends: "\<not> tx_redeemable (snd (transactions_consume E tid nonce binding now m)) tid"
  using Transaction_consume_frame [OF surjective_pairing]
  by (auto simp: tx_redeemable_def transactions_consume_state split: option.splits)

section \<open>Properties\<close>

text \<open>
  C11. A transaction completes at most once: over every history of calls from the empty store,
  whatever nonces and bindings are presented, an identifier is redeemed at most as often as a
  transaction was begun under it.
\<close>

theorem transaction_redeemed_once:
  "redemptions transaction_step tx_redeems tid calls []
     \<le> additions transaction_step tx_begins tid calls []"
  using tx.redemptions_bounded [of "[]" tid calls]
  by (simp add: transactions_inv_def tx_redeemable_def)

text \<open>
  Exactly when a transaction is redeemed: it is known and pending, its deadline is strictly
  in the future, the digest of the presented nonce is the stored one and the binding is the
  stored one. Whatever is presented, a transaction that was tried is never pending afterwards.
\<close>

theorem transaction_consume_exact:
  "(fst (transactions_consume E tid nonce binding now m) = Inr t' \<longleftrightarrow>
      (\<exists>t. map_of m tid = Some t \<and> tx_state t = Pending \<and> now < tx_expiresAt t
         \<and> sha256 E nonce = Inr (tx_nonceDigest t) \<and> binding = tx_binding t
         \<and> t' = t\<lparr>tx_state := Consumed\<rparr>))
   \<and> \<not> tx_redeemable (snd (transactions_consume E tid nonce binding now m)) tid"
proof -
  have "fst (transactions_consume E tid nonce binding now m) = Inr t' \<longleftrightarrow>
      (\<exists>t u. map_of m tid = Some t \<and> Transaction_consume E nonce binding now t = (Inr u, t'))"
    by (auto simp: transactions_consume_def Let_def split: option.splits prod.splits sum.splits)
  then show ?thesis
    by (simp add: Transaction_consume_success consume_spends)
qed

end
