(* ===== verification/Application.thy ===== *)
theory Application
  imports Provider
begin

text \<open>
  Registered products (\<^verbatim>\<open>src/src/application/model.cpp\<close>, \<^verbatim>\<open>repository.cpp\<close>,
  \<^verbatim>\<open>service.cpp\<close>): the aggregate with its life cycle, the repository with its index from
  tenant and identifier to the application, and the registry that is the only writer.
\<close>

datatype ApplicationIdTag = ApplicationIdTag
type_synonym ApplicationId = "ApplicationIdTag StrongId"

definition is_lower :: "char \<Rightarrow> bool" where
  "is_lower c = (CHR ''a'' \<le> c \<and> c \<le> CHR ''z'')"

definition is_digit :: "char \<Rightarrow> bool" where
  "is_digit c = (CHR ''0'' \<le> c \<and> c \<le> CHR ''9'')"

fun identifier_loop :: "bool \<Rightarrow> string \<Rightarrow> bool" where
  "identifier_loop previousSeparator [] = True"
| "identifier_loop previousSeparator (symbol # rest) =
     (let separator = (symbol = CHR ''-'' \<or> symbol = CHR ''.'')
      in if \<not> is_lower symbol \<and> \<not> is_digit symbol \<and> \<not> separator then False
         else if separator \<and> previousSeparator then False
         else identifier_loop separator rest)"

definition validIdentifier :: "string \<Rightarrow> bool" where
  "validIdentifier value =
     (if length value < 2 \<or> length value > 64 then False
      else if hd value < CHR ''a'' \<or> hd value > CHR ''z'' then False
      else if last value = CHR ''-'' \<or> last value = CHR ''.'' then False
      else identifier_loop False value)"

definition validDisplayName :: "string \<Rightarrow> bool" where
  "validDisplayName value =
     (if value = [] \<or> length value > 120 then False
      else \<not> list_ex (\<lambda>symbol. (of_char symbol :: nat) < 0x20 \<or> of_char symbol = (0x7F :: nat)) value)"

datatype Environment = Development | Staging | Production

fun environmentName :: "Environment \<Rightarrow> string" where
  "environmentName Development = ''development''"
| "environmentName Staging = ''staging''"
| "environmentName Production = ''production''"

datatype ApplicationStatus = Active | Suspended | Revoked

fun applicationStatusName :: "ApplicationStatus \<Rightarrow> string" where
  "applicationStatusName Active = ''active''"
| "applicationStatusName Suspended = ''suspended''"
| "applicationStatusName Revoked = ''revoked''"

definition applicationPermitsAuthorization :: "ApplicationStatus \<Rightarrow> bool" where
  "applicationPermitsAuthorization status = (status = Active)"

record Application =
  app_id :: ApplicationId
  app_owner :: OrganizationId
  app_identifier :: string
  app_displayName :: string
  app_environment :: Environment
  app_status :: ApplicationStatus
  app_createdAt :: Instant
  app_updatedAt :: Instant

definition Application_create ::
    "ApplicationId \<Rightarrow> OrganizationId \<Rightarrow> string \<Rightarrow> string \<Rightarrow> Environment \<Rightarrow> Instant \<Rightarrow> Application Result" where
  "Application_create aid owner identifier displayName environment createdAt =
     (if StrongId_empty aid \<or> StrongId_empty owner \<or> \<not> validIdentifier identifier
         \<or> \<not> validDisplayName displayName
      then fail_msg InvalidArgument ''The application registration is invalid.''
      else Inr \<lparr>app_id = aid, app_owner = owner, app_identifier = identifier,
                app_displayName = displayName, app_environment = environment, app_status = Active,
                app_createdAt = createdAt, app_updatedAt = createdAt\<rparr>)"

definition Application_restore ::
    "ApplicationId \<Rightarrow> OrganizationId \<Rightarrow> string \<Rightarrow> string \<Rightarrow> Environment \<Rightarrow> ApplicationStatus \<Rightarrow> Instant
     \<Rightarrow> Instant \<Rightarrow> Application Result" where
  "Application_restore aid owner identifier displayName environment status createdAt updatedAt =
     (case Application_create aid owner identifier displayName environment createdAt of
        Inl e \<Rightarrow> Inl e
      | Inr restored \<Rightarrow>
          if updatedAt < createdAt
          then fail_msg Internal ''Stored application timestamps are invalid.''
          else Inr (restored\<lparr>app_status := status, app_updatedAt := updatedAt\<rparr>))"

definition Application_permitsAuthorization :: "Application \<Rightarrow> bool" where
  "Application_permitsAuthorization a = applicationPermitsAuthorization (app_status a)"

definition Application_suspend :: "Instant \<Rightarrow> Application \<Rightarrow> Status \<times> Application" where
  "Application_suspend now a =
     (if app_status a = Revoked
      then (fail_msg FailedPrecondition ''A revoked application cannot change state.'', a)
      else if app_status a \<noteq> Active \<or> now < app_updatedAt a
      then (fail_msg FailedPrecondition ''The application cannot be suspended.'', a)
      else (ok, a\<lparr>app_status := Suspended, app_updatedAt := now\<rparr>))"

definition Application_activate :: "Instant \<Rightarrow> Application \<Rightarrow> Status \<times> Application" where
  "Application_activate now a =
     (if app_status a = Revoked
      then (fail_msg FailedPrecondition ''A revoked application cannot be reactivated.'', a)
      else if app_status a \<noteq> Suspended \<or> now < app_updatedAt a
      then (fail_msg FailedPrecondition ''The application cannot be activated.'', a)
      else (ok, a\<lparr>app_status := Active, app_updatedAt := now\<rparr>))"

definition Application_revoke :: "Instant \<Rightarrow> Application \<Rightarrow> Status \<times> Application" where
  "Application_revoke now a =
     (if app_status a = Revoked \<or> now < app_updatedAt a
      then (fail_msg FailedPrecondition ''The application cannot be revoked.'', a)
      else (ok, a\<lparr>app_status := Revoked, app_updatedAt := now\<rparr>))"

definition Application_rename :: "string \<Rightarrow> Instant \<Rightarrow> Application \<Rightarrow> Status \<times> Application" where
  "Application_rename displayName now a =
     (if app_status a = Revoked \<or> now < app_updatedAt a \<or> \<not> validDisplayName displayName
      then (fail_msg FailedPrecondition ''The application cannot be renamed.'', a)
      else (ok, a\<lparr>app_displayName := displayName, app_updatedAt := now\<rparr>))"

section \<open>The repository\<close>

definition tenantIdentifierKey :: "OrganizationId \<Rightarrow> string \<Rightarrow> string" where
  "tenantIdentifierKey owner identifier = id_value owner @ [CHR 0x00] @ identifier"

record ApplicationRepository =
  apps_applications :: "(ApplicationId, Application) omap"
  apps_identifiers :: "(string, ApplicationId) omap"

definition empty_applications :: ApplicationRepository where
  "empty_applications = \<lparr>apps_applications = [], apps_identifiers = []\<rparr>"

definition apps_key :: "Application \<Rightarrow> string" where
  "apps_key a = tenantIdentifierKey (app_owner a) (app_identifier a)"

definition applications_add ::
    "Application \<Rightarrow> ApplicationRepository \<Rightarrow> Status \<times> ApplicationRepository" where
  "applications_add a r =
     (if omap_contains (apps_applications r) (app_id a)
         \<or> omap_contains (apps_identifiers r) (tenantIdentifierKey (app_owner a) (app_identifier a))
      then (fail_msg AlreadyExists ''The application already exists.'', r)
      else (ok, \<lparr>apps_applications = omap_emplace (app_id a) a (apps_applications r),
                 apps_identifiers =
                   omap_emplace (tenantIdentifierKey (app_owner a) (app_identifier a)) (app_id a)
                     (apps_identifiers r)\<rparr>))"

definition applications_save ::
    "Application \<Rightarrow> ApplicationRepository \<Rightarrow> Status \<times> ApplicationRepository" where
  "applications_save a r =
     (case map_of (apps_applications r) (app_id a) of
        None \<Rightarrow> (fail_code NotFound, r)
      | Some found \<Rightarrow>
          if app_identifier found \<noteq> app_identifier a
          then (fail_msg FailedPrecondition ''An application identifier is immutable.'', r)
          else (ok, r\<lparr>apps_applications :=
                      omap_modify (app_id a) (\<lambda>_. a) (apps_applications r)\<rparr>))"

definition applications_findById ::
    "ApplicationId \<Rightarrow> ApplicationRepository \<Rightarrow> Application option Result" where
  "applications_findById aid r = Inr (map_of (apps_applications r) aid)"

definition applications_findByIdentifier ::
    "OrganizationId \<Rightarrow> string \<Rightarrow> ApplicationRepository \<Rightarrow> Application option Result" where
  "applications_findByIdentifier owner identifier r =
     (case map_of (apps_identifiers r) (tenantIdentifierKey owner identifier) of
        None \<Rightarrow> Inr None
      | Some aid \<Rightarrow>
          (case map_of (apps_applications r) aid of
             None \<Rightarrow> fail_msg Internal ''The application registry index is inconsistent.''
           | Some a \<Rightarrow> Inr (Some a)))"

definition applications_list :: "ApplicationRepository \<Rightarrow> Application list Result" where
  "applications_list r = Inr (map snd (apps_applications r))"

section \<open>The registry\<close>

definition registerApplication ::
    "env \<Rightarrow> OrganizationId \<Rightarrow> string \<Rightarrow> string \<Rightarrow> Environment \<Rightarrow> ApplicationRepository
     \<Rightarrow> Application Result \<times> ApplicationRepository" where
  "registerApplication E owner identifier displayName environment r =
     (case randomTokenBase64Url E 0 24 of
        Inl e \<Rightarrow> (Inl e, r)
      | Inr aid \<Rightarrow>
          (case Application_create (StrongId aid) owner identifier displayName environment
                  (env_now E 0) of
             Inl e \<Rightarrow> (Inl e, r)
           | Inr a \<Rightarrow>
               (case applications_add a r of
                  (Inl e, r') \<Rightarrow> (Inl e, r')
                | (Inr _, r') \<Rightarrow> (Inr a, r'))))"

definition registry_require :: "ApplicationId \<Rightarrow> ApplicationRepository \<Rightarrow> Application Result" where
  "registry_require aid r =
     (case applications_findById aid r of
        Inl e \<Rightarrow> Inl e
      | Inr found \<Rightarrow> (case found of None \<Rightarrow> fail_code NotFound | Some a \<Rightarrow> Inr a))"

text \<open>The three life-cycle operations share their body: require, change the copy, save it.\<close>

definition registry_suspend ::
    "env \<Rightarrow> ApplicationId \<Rightarrow> ApplicationRepository \<Rightarrow> Application Result \<times> ApplicationRepository" where
  "registry_suspend E aid r =
     (case registry_require aid r of
        Inl e \<Rightarrow> (Inl e, r)
      | Inr a \<Rightarrow>
          (case Application_suspend (env_now E 0) a of
             (Inl e, _) \<Rightarrow> (Inl e, r)
           | (Inr _, a') \<Rightarrow>
               (case applications_save a' r of
                  (Inl e, r') \<Rightarrow> (Inl e, r')
                | (Inr _, r') \<Rightarrow> (Inr a', r'))))"

definition registry_activate ::
    "env \<Rightarrow> ApplicationId \<Rightarrow> ApplicationRepository \<Rightarrow> Application Result \<times> ApplicationRepository" where
  "registry_activate E aid r =
     (case registry_require aid r of
        Inl e \<Rightarrow> (Inl e, r)
      | Inr a \<Rightarrow>
          (case Application_activate (env_now E 0) a of
             (Inl e, _) \<Rightarrow> (Inl e, r)
           | (Inr _, a') \<Rightarrow>
               (case applications_save a' r of
                  (Inl e, r') \<Rightarrow> (Inl e, r')
                | (Inr _, r') \<Rightarrow> (Inr a', r'))))"

definition registry_revoke ::
    "env \<Rightarrow> ApplicationId \<Rightarrow> ApplicationRepository \<Rightarrow> Application Result \<times> ApplicationRepository" where
  "registry_revoke E aid r =
     (case registry_require aid r of
        Inl e \<Rightarrow> (Inl e, r)
      | Inr a \<Rightarrow>
          (case Application_revoke (env_now E 0) a of
             (Inl e, _) \<Rightarrow> (Inl e, r)
           | (Inr _, a') \<Rightarrow>
               (case applications_save a' r of
                  (Inl e, r') \<Rightarrow> (Inl e, r')
                | (Inr _, r') \<Rightarrow> (Inr a', r'))))"

section \<open>The registry keeps its index exact\<close>

definition applications_inv :: "ApplicationRepository \<Rightarrow> bool" where
  "applications_inv r \<longleftrightarrow>
     omap_ok (apps_applications r) \<and> omap_ok (apps_identifiers r)
     \<and> (\<forall>aid a. map_of (apps_applications r) aid = Some a \<longrightarrow>
          app_id a = aid \<and> validIdentifier (app_identifier a))
     \<and> exact_index apps_key (map_of (apps_applications r)) (map_of (apps_identifiers r))"

lemma applications_invD:
  assumes "applications_inv r"
  shows "omap_ok (apps_applications r)" "omap_ok (apps_identifiers r)"
    and "map_of (apps_applications r) aid = Some a \<Longrightarrow> app_id a = aid"
    and "map_of (apps_applications r) aid = Some a \<Longrightarrow> validIdentifier (app_identifier a)"
    and "exact_index apps_key (map_of (apps_applications r)) (map_of (apps_identifiers r))"
  using assms unfolding applications_inv_def by blast+

text \<open>The NUL separator makes the key unambiguous, because no valid identifier contains it.\<close>

lemma identifier_loop_no_NUL: "identifier_loop p s \<Longrightarrow> CHR 0x00 \<notin> set s"
  by (induction p s rule: identifier_loop.induct)
    (auto simp: Let_def is_lower_def is_digit_def less_eq_char_def split: if_splits)

lemma validIdentifier_no_NUL: "validIdentifier s \<Longrightarrow> CHR 0x00 \<notin> set s"
  by (auto simp: validIdentifier_def dest: identifier_loop_no_NUL split: if_splits)

lemma split_at_last_separator:
  assumes "x @ [c] @ y = x' @ [c] @ y'" "c \<notin> set y" "c \<notin> set y'"
  shows "x = x' \<and> y = y'"
proof -
  have tail: "rev (takeWhile (\<lambda>z. z \<noteq> c) (rev (u @ [c] @ v))) = v" if "c \<notin> set v" for u v
  proof -
    have "takeWhile (\<lambda>z. z \<noteq> c) (rev v @ c # rev u) = rev v"
      using that by (subst takeWhile_append2) auto
    then show ?thesis by simp
  qed
  have "y = y'"
    using tail [OF assms(2), of x] tail [OF assms(3), of x'] unfolding assms(1) by (rule trans [OF sym])
  with assms(1) show ?thesis by simp
qed

lemma tenantIdentifierKey_inj:
  assumes "validIdentifier i" "validIdentifier i'"
  shows "tenantIdentifierKey o1 i = tenantIdentifierKey o2 i' \<longleftrightarrow> o1 = o2 \<and> i = i'"
  using split_at_last_separator [of "id_value o1" "CHR 0x00" i "id_value o2" i']
    assms [THEN validIdentifier_no_NUL]
  by (auto simp: tenantIdentifierKey_def StrongId.expand)

lemma applications_add_inv:
  assumes "applications_inv r" "validIdentifier (app_identifier a)"
  shows "applications_inv (snd (applications_add a r))"
proof -
  note ok = applications_invD [OF assms(1)]
  have "exact_index apps_key ((map_of (apps_applications r))(app_id a \<mapsto> a))
      ((map_of (apps_identifiers r))(apps_key a \<mapsto> app_id a))"
    if "map_of (apps_applications r) (app_id a) = None" "map_of (apps_identifiers r) (apps_key a) = None"
    using exact_index_add [OF ok(5) that] .
  with assms ok(1,2) show ?thesis
    by (auto simp: applications_inv_def applications_add_def store_simps
        omap_ok_emplace apps_key_def)
qed

text \<open>Saving a changed copy of a stored application whose owner is unchanged.\<close>

lemma applications_save_inv:
  assumes "applications_inv r" "map_of (apps_applications r) aid = Some a"
    and "app_id a' = app_id a" "app_owner a' = app_owner a" "app_identifier a' = app_identifier a"
  shows "applications_inv (snd (applications_save a' r))"
    and "applications_save a' r =
      (ok, r\<lparr>apps_applications := omap_modify aid (\<lambda>_. a') (apps_applications r)\<rparr>)"
proof -
  note ok = applications_invD [OF assms(1)]
  have aid: "app_id a = aid" using ok(3) assms(2) .
  have "exact_index apps_key ((map_of (apps_applications r))(aid \<mapsto> a')) (map_of (apps_identifiers r))"
    using exact_index_update [OF ok(5) assms(2)] assms(4,5) by (simp add: apps_key_def)
  then show "applications_inv (snd (applications_save a' r))"
    using assms aid ok(3,4) by (auto simp: applications_inv_def applications_save_def map_of_modify)
  show "applications_save a' r =
      (ok, r\<lparr>apps_applications := omap_modify aid (\<lambda>_. a') (apps_applications r)\<rparr>)"
    using assms aid by (simp add: applications_save_def)
qed

text \<open>
  The contract shared by the life-cycle operations: a stored application is either left alone or
  replaced by a copy that differs in status and time only, and a revoked one is never replaced.
\<close>

locale lifecycle_change =
  fixes change :: "Instant \<Rightarrow> Application \<Rightarrow> Status \<times> Application"
    and registry_op :: "env \<Rightarrow> ApplicationId \<Rightarrow> ApplicationRepository
           \<Rightarrow> Application Result \<times> ApplicationRepository"
  assumes change_frame: "change now a = (Inr u, a') \<Longrightarrow>
      app_id a' = app_id a \<and> app_owner a' = app_owner a \<and> app_identifier a' = app_identifier a
      \<and> app_status a \<noteq> Revoked"
    and registry_op_eq: "registry_op E aid r =
      (case registry_require aid r of
         Inl e \<Rightarrow> (Inl e, r)
       | Inr a \<Rightarrow>
           (case change (env_now E 0) a of
              (Inl e, _) \<Rightarrow> (Inl e, r)
            | (Inr _, a') \<Rightarrow>
                (case applications_save a' r of
                   (Inl e, r') \<Rightarrow> (Inl e, r')
                 | (Inr _, r') \<Rightarrow> (Inr a', r'))))"
begin

lemma op_result:
  assumes "applications_inv r"
  shows "snd (registry_op E aid r) = r
    \<or> (\<exists>a a' u. map_of (apps_applications r) aid = Some a \<and> change (env_now E 0) a = (Inr u, a')
         \<and> snd (registry_op E aid r) = snd (applications_save a' r)
         \<and> apps_applications (snd (registry_op E aid r)) = omap_modify aid (\<lambda>_. a') (apps_applications r))"
proof (cases "map_of (apps_applications r) aid")
  case None
  then show ?thesis by (simp add: registry_op_eq registry_require_def applications_findById_def)
next
  case (Some a)
  show ?thesis
  proof (cases "change (env_now E 0) a")
    case (Pair res a')
    show ?thesis
    proof (cases res)
      case (Inl e)
      with Some Pair show ?thesis
        by (simp add: registry_op_eq registry_require_def applications_findById_def)
    next
      case (Inr u)
      note frame = change_frame [OF Pair [unfolded Inr]]
      have "applications_save a' r =
          (ok, r\<lparr>apps_applications := omap_modify aid (\<lambda>_. a') (apps_applications r)\<rparr>)"
        using frame by (intro applications_save_inv(2) [OF assms Some]) simp_all
      with Some Pair Inr show ?thesis
        by (simp add: registry_op_eq registry_require_def applications_findById_def)
    qed
  qed
qed

lemma op_inv: "applications_inv r \<Longrightarrow> applications_inv (snd (registry_op E aid r))"
  using op_result [of r E aid] change_frame applications_save_inv(1) by metis

lemma op_keeps_revoked:
  assumes "applications_inv r" "map_of (apps_applications r) aid = Some a" "app_status a = Revoked"
  shows "map_of (apps_applications (snd (registry_op E aid' r))) aid = Some a"
  using op_result [OF assms(1), of E aid'] assms(2,3) change_frame
  by (auto simp: map_of_modify)

end

interpretation suspending: lifecycle_change Application_suspend registry_suspend
  by unfold_locales (auto simp: Application_suspend_def registry_suspend_def split: if_splits)

interpretation activating: lifecycle_change Application_activate registry_activate
  by unfold_locales (auto simp: Application_activate_def registry_activate_def split: if_splits)

interpretation revoking: lifecycle_change Application_revoke registry_revoke
  by unfold_locales (auto simp: Application_revoke_def registry_revoke_def split: if_splits)

section \<open>Every history of registry calls\<close>

datatype registry_call =
    RegisterApp env OrganizationId string string Environment
  | SuspendApp env ApplicationId
  | ActivateApp env ApplicationId
  | RevokeApp env ApplicationId

fun registry_step ::
    "registry_call \<Rightarrow> ApplicationRepository \<Rightarrow> Application Result \<times> ApplicationRepository" where
  "registry_step (RegisterApp E owner identifier name environment) r =
     registerApplication E owner identifier name environment r"
| "registry_step (SuspendApp E aid) r = registry_suspend E aid r"
| "registry_step (ActivateApp E aid) r = registry_activate E aid r"
| "registry_step (RevokeApp E aid) r = registry_revoke E aid r"

abbreviation registry_after :: "registry_call list \<Rightarrow> ApplicationRepository" where
  "registry_after cs \<equiv> final_state registry_step cs empty_applications"

lemma registerApplication_state:
  "snd (registerApplication E owner identifier name environment r) = r
   \<or> (\<exists>a. validIdentifier (app_identifier a)
         \<and> snd (registerApplication E owner identifier name environment r) = snd (applications_add a r))"
proof -
  have "validIdentifier (app_identifier a)"
    if "Application_create aid owner identifier name environment now = Inr a" for aid now a
    using that by (auto simp: Application_create_def split: if_splits)
  then show ?thesis
    by (auto simp: registerApplication_def split: sum.splits prod.splits) (metis snd_conv)+
qed

lemma registerApplication_inv:
  assumes "applications_inv r"
  shows "applications_inv (snd (registerApplication E owner identifier name environment r))"
  using registerApplication_state assms applications_add_inv
  by metis

interpretation registry: guarded_machine registry_step applications_inv
proof
  fix r c assume "applications_inv r"
  then show "applications_inv (snd (registry_step c r))"
    by (cases c) (simp_all add: registerApplication_inv suspending.op_inv activating.op_inv revoking.op_inv)
qed

lemma registry_after_inv [simp]: "applications_inv (registry_after cs)"
  by (rule registry.run_inv) (simp add: applications_inv_def empty_applications_def)

definition app_is_revoked :: "Application \<Rightarrow> ApplicationRepository \<Rightarrow> bool" where
  "app_is_revoked a r \<longleftrightarrow> map_of (apps_applications r) (app_id a) = Some a \<and> app_status a = Revoked"

lemma registerApplication_keeps:
  assumes "applications_inv r" "map_of (apps_applications r) aid = Some a"
  shows "map_of (apps_applications (snd (registerApplication E owner identifier name environment r))) aid
    = Some a"
proof -
  have "map_of (apps_applications (snd (applications_add b r))) aid = Some a" for b
    using assms applications_invD(1) [OF assms(1)]
    by (auto simp: applications_add_def store_simps)
  then show ?thesis
    using registerApplication_state assms(2) by metis
qed

interpretation revoked_app: stable_fact registry_step applications_inv "\<lambda>_. True" "app_is_revoked a"
  for a :: Application
proof
  fix r c assume "applications_inv r" "app_is_revoked a r"
  then show "app_is_revoked a (snd (registry_step c r))"
    by (cases c) (simp_all add: app_is_revoked_def registerApplication_keeps
        suspending.op_keeps_revoked activating.op_keeps_revoked revoking.op_keeps_revoked)
qed

text \<open>
  The registry's index is exact after every history of registrations and life-cycle
  changes: looking an application up by tenant and identifier finds precisely the application
  with that owner and identifier, tenants never see each other's applications, and the
  "index is inconsistent" error cannot occur.
\<close>

theorem registry_lookup_exact:
  assumes "validIdentifier identifier"
  shows "\<exists>found. applications_findByIdentifier owner identifier (registry_after cs) = Inr found
    \<and> (\<forall>a. found = Some a \<longleftrightarrow>
          map_of (apps_applications (registry_after cs)) (app_id a) = Some a
          \<and> app_owner a = owner \<and> app_identifier a = identifier)"
proof -
  let ?r = "registry_after cs"
  note ok = applications_invD [OF registry_after_inv [of cs]]
  have key: "apps_key a = tenantIdentifierKey owner identifier \<longleftrightarrow>
      app_owner a = owner \<and> app_identifier a = identifier"
    if "map_of (apps_applications ?r) aid = Some a" for aid a
    using tenantIdentifierKey_inj [OF ok(4) [OF that] assms] by (simp add: apps_key_def)
  show ?thesis
  proof (cases "map_of (apps_identifiers ?r) (tenantIdentifierKey owner identifier)")
    case None
    have "\<not> (map_of (apps_applications ?r) (app_id a) = Some a \<and> app_owner a = owner
        \<and> app_identifier a = identifier)" for a
      using exact_index_lookup [OF ok(5), of "app_id a" a] key [of "app_id a" a] None by auto
    then show ?thesis
      using None by (simp add: applications_findByIdentifier_def)
  next
    case (Some aid)
    then obtain a where a: "map_of (apps_applications ?r) aid = Some a"
        "apps_key a = tenantIdentifierKey owner identifier"
      using exact_index_target [OF ok(5)] by blast
    have "b = a" if "map_of (apps_applications ?r) (app_id b) = Some b" "app_owner b = owner"
        "app_identifier b = identifier" for b
      using exact_index_unique [OF ok(5) that(1) a(1)] key [OF that(1)] a that by simp
    then show ?thesis
      using Some a ok(3) [OF a(1)] key [OF a(1)] by (auto simp: applications_findByIdentifier_def)
  qed
qed

theorem registry_lookup_exact_witness:
  "applications_findByIdentifier (StrongId ''acme'') ''web-app'' (registry_after []) = Inr None"
  using registry_lookup_exact [of "''web-app''" "StrongId ''acme''" "[]"]
  by (auto simp: validIdentifier_def is_lower_def is_digit_def empty_applications_def
      applications_findByIdentifier_def)

text \<open>
  Revocation of an application is final: after it, every history of registry calls leaves
  the application revoked and unchanged, so it never permits authorization again.
\<close>

theorem application_revocation_final:
  assumes "registry_revoke E aid (registry_after cs) = (Inr a, r)"
  shows "map_of (apps_applications (final_state registry_step later r)) aid = Some a
    \<and> \<not> Application_permitsAuthorization a"
proof -
  have inv: "applications_inv r"
    using revoking.op_inv [OF registry_after_inv, of E aid cs] assms by simp
  obtain a0 u where "map_of (apps_applications (registry_after cs)) aid = Some a0"
      "Application_revoke (env_now E 0) a0 = (Inr u, a)"
      and save: "applications_save a (registry_after cs) = (ok, r)"
    using assms by (auto simp: registry_revoke_def registry_require_def applications_findById_def
        split: option.splits sum.splits prod.splits)
  then have a: "app_id a = aid" "app_status a = Revoked"
    using applications_invD(3) [OF registry_after_inv]
    by (auto simp: Application_revoke_def split: if_splits)
  have "app_is_revoked a r"
    using save a by (auto simp: app_is_revoked_def applications_save_def map_of_modify
        split: option.splits if_splits)
  then have "app_is_revoked a (final_state registry_step later r)"
    using inv by (intro revoked_app.run_fact) (simp_all add: list_all_iff)
  then show ?thesis
    using a by (simp add: app_is_revoked_def Application_permitsAuthorization_def
        applicationPermitsAuthorization_def)
qed

theorem application_revocation_final_witness:
  "\<exists>a. map_of (apps_applications (final_state registry_step
      [ActivateApp sample_env (StrongId (toBase64Url (replicate 24 0)))]
      (snd (registry_revoke sample_env (StrongId (toBase64Url (replicate 24 0)))
         (registry_after [RegisterApp sample_env (StrongId ''acme'') ''web'' ''Web'' Production])))))
     (StrongId (toBase64Url (replicate 24 0))) = Some a \<and> \<not> Application_permitsAuthorization a"
proof -
  let ?aid = "StrongId (toBase64Url (replicate 24 0))"
  let ?r = "registry_after [RegisterApp sample_env (StrongId ''acme'') ''web'' ''Web'' Production]"
  let ?a = "\<lparr>app_id = ?aid, app_owner = StrongId ''acme'', app_identifier = ''web'',
    app_displayName = ''Web'', app_environment = Production, app_status = Active,
    app_createdAt = 100, app_updatedAt = 100\<rparr>"
  have "Application_create ?aid (StrongId ''acme'') ''web'' ''Web'' Production 100 = Inr ?a"
    by (simp add: Application_create_def validIdentifier_def validDisplayName_def is_lower_def
        is_digit_def)
  then have "?r = \<lparr>apps_applications = [(?aid, ?a)],
      apps_identifiers = [(tenantIdentifierKey (StrongId ''acme'') ''web'', ?aid)]\<rparr>"
    by (simp add: registerApplication_def applications_add_def empty_applications_def omap_contains_def)
  then have "registry_revoke sample_env ?aid ?r
      = (Inr (?a\<lparr>app_status := Revoked\<rparr>), snd (registry_revoke sample_env ?aid ?r))"
    by (simp add: registry_revoke_def registry_require_def applications_findById_def
        Application_revoke_def applications_save_def)
  from application_revocation_final [OF this] show ?thesis
    by blast
qed

end
