(* ===== verification/Decimal.thy ===== *)
theory Decimal
  imports Foundation
begin

text \<open>
  \<^verbatim>\<open>std::to_string\<close> on unsigned and signed integers, and the length-prefixed text that the
  canonical encodings of the repository are built from; and the reading direction: character
  classes, prefixes, splitting at a separator and unsigned numerals.
\<close>

definition digit :: "nat \<Rightarrow> char" where
  "digit n = char_of (48 + n)"

fun to_string :: "nat \<Rightarrow> string" where
  "to_string n = (if n < 10 then [digit n] else to_string (n div 10) @ [digit (n mod 10)])"

declare to_string.simps [simp del]

definition int_to_string :: "int \<Rightarrow> string" where
  "int_to_string i = (if i < 0 then CHR ''-'' # to_string (nat (- i)) else to_string (nat i))"

definition digits :: "char set" where
  "digits = digit ` {..<10}"

lemma digit_inj: "m < 10 \<Longrightarrow> n < 10 \<Longrightarrow> digit m = digit n \<longleftrightarrow> m = n"
  unfolding digit_def by (subst char_of_eq_iff) (simp add: of_char_of take_bit_eq_mod)

lemma to_string_digits: "set (to_string n) \<subseteq> digits"
proof (induction n rule: to_string.induct)
  case (1 n)
  then show ?case
    by (subst to_string.simps) (auto simp: digits_def)
qed

lemma to_string_nonempty [simp]: "to_string n \<noteq> []"
  by (subst to_string.simps) simp

lemma to_string_inj: "to_string m = to_string n \<longleftrightarrow> m = n"
proof (induction m arbitrary: n rule: to_string.induct)
  case (1 m)
  show ?case
  proof (cases "m < 10 \<or> n < 10")
    case True
    have one: "to_string k = [digit k]" if "k < 10" for k
      using that by (simp add: to_string.simps)
    have long: "\<exists>c d cs. to_string k = c # d # cs" if "\<not> k < 10" for k
      using that
      by (cases "to_string (k div 10)"; cases "tl (to_string (k div 10))") (auto simp: to_string.simps [of k])
    show ?thesis
      using True one [of m] one [of n] long [of m] long [of n] digit_inj [of m n] by fastforce
  next
    case False
    then have "to_string m = to_string n \<longleftrightarrow> m div 10 = n div 10 \<and> digit (m mod 10) = digit (n mod 10)"
      using "1.IH" [of "n div 10"] by (subst (1 2) to_string.simps) simp
    also have "\<dots> \<longleftrightarrow> m = n"
      by (auto simp: digit_inj) (metis div_mult_mod_eq)
    finally show ?thesis .
  qed
qed

lemma minus_not_digit: "CHR ''-'' \<notin> digits" and colon_not_digit: "CHR '':'' \<notin> digits"
  by (auto simp: digits_def digit_def dest!: arg_cong [of _ _ "of_char :: char \<Rightarrow> nat"]
      simp: of_char_of take_bit_eq_mod)

lemma int_to_string_inj: "int_to_string i = int_to_string j \<longleftrightarrow> i = j"
proof -
  have "to_string n \<noteq> CHR ''-'' # s" for n s
    using to_string_digits [of n] minus_not_digit by (metis list.set_intros(1) subsetD)
  then show ?thesis
    unfolding int_to_string_def using to_string_inj by (auto simp: nat_eq_iff2 dest: sym)
qed

section \<open>Length-prefixed parts\<close>

definition appendPart :: "string \<Rightarrow> string" where
  "appendPart value = to_string (length value) @ CHR '':'' # value"

definition parts :: "string list \<Rightarrow> string" where
  "parts vs = concat (map appendPart vs)"

lemma parts_simps [simp]: "parts [] = []" "parts (v # vs) = appendPart v @ parts vs"
  by (simp_all add: parts_def)

lemma split_at_colon:
  assumes "set a \<subseteq> digits" "set b \<subseteq> digits" "a @ CHR '':'' # x = b @ CHR '':'' # y"
  shows "a = b \<and> x = y"
  using assms colon_not_digit
proof (induction a arbitrary: b)
  case Nil
  then show ?case by (cases b) auto
next
  case (Cons c a)
  then show ?case by (cases b) auto
qed

text \<open>The length in front makes the code prefix free: nothing can move between parts.\<close>

lemma appendPart_inj:
  assumes "appendPart v @ x = appendPart w @ y"
  shows "v = w \<and> x = y"
proof -
  have "to_string (length v) = to_string (length w) \<and> v @ x = w @ y"
    using assms to_string_digits unfolding appendPart_def
    by (intro split_at_colon) (auto simp del: append_Cons simp: append_Cons [symmetric])
  then show ?thesis
    by (auto simp: to_string_inj)
qed

lemma appendPart_nonempty [simp]: "appendPart v \<noteq> []"
  by (simp add: appendPart_def)

lemma parts_inj: "parts vs = parts ws \<longleftrightarrow> vs = ws"
proof (induction vs arbitrary: ws)
  case Nil
  show ?case by (cases ws) auto
next
  case (Cons v vs)
  show ?case
  proof (cases ws)
    case (Cons w ws')
    then show ?thesis
      using Cons.IH appendPart_inj [of v "parts vs" w "parts ws'"] by auto
  qed auto
qed

section \<open>Reading\<close>

definition is_upper_char :: "char \<Rightarrow> bool" where
  "is_upper_char c = (of_char c \<ge> (65 :: nat) \<and> of_char c \<le> (90 :: nat))"

definition is_lower_char :: "char \<Rightarrow> bool" where
  "is_lower_char c = (of_char c \<ge> (97 :: nat) \<and> of_char c \<le> (122 :: nat))"

definition is_digit_char :: "char \<Rightarrow> bool" where
  "is_digit_char c = (of_char c \<ge> (48 :: nat) \<and> of_char c \<le> (57 :: nat))"

definition lower_char :: "char \<Rightarrow> char" where
  "lower_char c = (if is_upper_char c then char_of (of_char c - 65 + 97 :: nat) else c)"

definition lowercase :: "string \<Rightarrow> string" where
  "lowercase text = map lower_char text"

definition starts_with :: "string \<Rightarrow> string \<Rightarrow> bool" where
  "starts_with s p = (take (length p) s = p)"

text \<open>The pieces of a text between the separators.\<close>

fun split_on :: "char \<Rightarrow> string \<Rightarrow> string list" where
  "split_on d [] = [[]]"
| "split_on d (c # cs) =
     (if c = d then [] # split_on d cs
      else case split_on d cs of [] \<Rightarrow> [[c]] | p # ps \<Rightarrow> (c # p) # ps)"

text \<open>The digits \<^verbatim>\<open>std::from_chars\<close> reads, over the whole text.\<close>

definition digit_value :: "char \<Rightarrow> nat" where
  "digit_value c = of_char c - 48"

definition read_digits :: "string \<Rightarrow> nat option" where
  "read_digits s =
     (if s = [] \<or> \<not> list_all is_digit_char s then None
      else Some (foldl (\<lambda>n c. 10 * n + digit_value c) 0 s))"

lemma starts_with_append [simp]: "starts_with (p @ s) p"
  by (simp add: starts_with_def)

lemma split_on_plain: "d \<notin> set s \<Longrightarrow> split_on d s = [s]"
  by (induction s) auto

lemma split_on_append: "d \<notin> set s \<Longrightarrow> split_on d (s @ d # t) = s # split_on d t"
  by (induction s) auto

lemma digit_char:
  assumes "d < 10"
  shows "is_digit_char (digit d)" "digit_value (digit d) = d"
  using assms by (auto simp: is_digit_char_def digit_value_def digit_def of_char_of take_bit_eq_mod)

lemma read_digits_to_string: "read_digits (to_string n) = Some n"
proof -
  have "list_all is_digit_char (to_string n) \<and> foldl (\<lambda>n c. 10 * n + digit_value c) 0 (to_string n) = n"
  proof (induction n rule: to_string.induct)
    case (1 n)
    then show ?case
      by (subst (1 2) to_string.simps) (auto simp: digit_char)
  qed
  then show ?thesis by (simp add: read_digits_def)
qed

lemma to_string_hd: "hd (to_string n) \<noteq> CHR ''-''"
  using to_string_digits [of n] minus_not_digit hd_in_set [OF to_string_nonempty] by (metis subsetD)

lemma lower_char_idem [simp]: "lower_char (lower_char c) = lower_char c"
proof (cases "is_upper_char c")
  case True
  then have "of_char (lower_char c) = (of_char c + 32 :: nat)" "of_char c + 32 \<le> (122 :: nat)"
    by (auto simp: lower_char_def is_upper_char_def of_char_of take_bit_eq_mod)
  with True have "\<not> is_upper_char (lower_char c)"
    by (auto simp: is_upper_char_def)
  then show ?thesis by (simp add: lower_char_def)
qed (simp add: lower_char_def)

lemma lowercase_idem [simp]: "lowercase (lowercase n) = lowercase n"
  by (simp add: lowercase_def)

end
