(* ===== verification/Client.thy ===== *)
theory Client
  imports Application Decimal
begin

text \<open>
  OAuth clients (\<^verbatim>\<open>src/src/client/model.cpp\<close>, \<^verbatim>\<open>repository.cpp\<close>,
  \<^verbatim>\<open>service.cpp\<close>): redirect URI validation down to the authority parser, scopes, the client
  aggregate, the repository, and the manager that registers and authenticates clients. The
  copy-on-write sharing of \<^verbatim>\<open>Client::State\<close> (\<^verbatim>\<open>detach\<close>) has value semantics, so a
  client is a record.
\<close>

datatype ClientIdTag = ClientIdTag
type_synonym ClientId = "ClientIdTag StrongId"
type_synonym ClientSecretDigest = "byte list"

datatype ClientKind = Web | Native | Browser | Service

fun clientKindName :: "ClientKind \<Rightarrow> string" where
  "clientKindName Web = ''web''"
| "clientKindName Native = ''native''"
| "clientKindName Browser = ''browser''"
| "clientKindName Service = ''service''"

definition clientIsPublic :: "ClientKind \<Rightarrow> bool" where
  "clientIsPublic kind = (kind = Native \<or> kind = Browser)"

datatype ClientStatus = Active | Suspended | Revoked

fun clientStatusName :: "ClientStatus \<Rightarrow> string" where
  "clientStatusName Active = ''active''"
| "clientStatusName Suspended = ''suspended''"
| "clientStatusName Revoked = ''revoked''"

definition clientPermitsAuthorization :: "ClientStatus \<Rightarrow> bool" where
  "clientPermitsAuthorization status = (status = Active)"

section \<open>Redirect URIs\<close>

text \<open>\<^verbatim>\<open>string_view::find\<close> and \<^verbatim>\<open>rfind\<close> of one character.\<close>

fun find_char :: "char \<Rightarrow> string \<Rightarrow> nat option" where
  "find_char c [] = None"
| "find_char c (x # xs) = (if x = c then Some 0 else map_option Suc (find_char c xs))"

definition rfind_char :: "char \<Rightarrow> string \<Rightarrow> nat option" where
  "rfind_char c s = map_option (\<lambda>i. length s - 1 - i) (find_char c (rev s))"

definition allDigits :: "string \<Rightarrow> bool" where
  "allDigits value = (value \<noteq> [] \<and> list_all is_digit value)"

text \<open>At most five digits, so the 32-bit accumulator of the source does not wrap.\<close>

definition validPort :: "string \<Rightarrow> bool" where
  "validPort value =
     (if \<not> allDigits value \<or> length value > 5 then False
      else let port = foldl (\<lambda>p c. p * 10 + (of_char c - of_char CHR ''0'')) (0 :: nat) value
           in port > 0 \<and> port \<le> 65535)"

definition delimiter :: "char \<Rightarrow> bool" where
  "delimiter c = (c = CHR ''/'' \<or> c = CHR ''?'')"

text \<open>Host and optional port: the second half of \<^verbatim>\<open>authority\<close>, on the text before the path.\<close>

definition authority_value :: "string \<Rightarrow> (string \<times> string option) option" where
  "authority_value value =
     (if value = [] \<or> CHR ''@'' \<in> set value then None
      else if hd value = CHR ''['' then
        (case find_char CHR '']'' value of
           None \<Rightarrow> None
         | Some close \<Rightarrow>
             let host = take (close + 1) value
             in if close + 1 = length value then Some (host, None)
                else if value ! (close + 1) \<noteq> CHR '':'' then None
                else let port = drop (close + 2) value
                     in if \<not> validPort port then None else Some (host, Some port))
      else
        (case rfind_char CHR '':'' value of
           None \<Rightarrow> Some (value, None)
         | Some colon \<Rightarrow>
             let host = take colon value; port = drop (colon + 1) value
             in if host = [] \<or> CHR '':'' \<in> set host \<or> \<not> validPort port then None
                else Some (host, Some port)))"

definition authority :: "string \<Rightarrow> string \<Rightarrow> (string \<times> string option) option" where
  "authority uri scheme =
     (if \<not> starts_with uri scheme then None
      else authority_value (takeWhile (\<lambda>c. \<not> delimiter c) (drop (length scheme) uri)))"

definition validHttps :: "string \<Rightarrow> bool" where
  "validHttps uri =
     (case authority uri ''https://'' of None \<Rightarrow> False | Some (host, port) \<Rightarrow> host \<noteq> [])"

definition loopbackHost :: "string \<Rightarrow> bool" where
  "loopbackHost host = (host = ''127.0.0.1'' \<or> host = ''[::1]'')"

definition loopbackHttp :: "string \<Rightarrow> bool" where
  "loopbackHttp uri =
     (case authority uri ''http://'' of
        None \<Rightarrow> False
      | Some (host, port) \<Rightarrow> port \<noteq> None \<and> loopbackHost host)"

definition parseLoopbackRedirect :: "string \<Rightarrow> (string \<times> string) option" where
  "parseLoopbackRedirect uri =
     (case authority uri ''http://'' of
        None \<Rightarrow> None
      | Some (host, port) \<Rightarrow>
          if port = None \<or> \<not> loopbackHost host then None
          else Some (host, dropWhile (\<lambda>c. \<not> delimiter c) (drop (length ''http://'') uri)))"

definition sameNativeLoopbackRedirect :: "string \<Rightarrow> string \<Rightarrow> bool" where
  "sameNativeLoopbackRedirect registered presented =
     (case parseLoopbackRedirect registered of
        None \<Rightarrow> False
      | Some (expectedHost, expectedSuffix) \<Rightarrow>
          (case parseLoopbackRedirect presented of
             None \<Rightarrow> False
           | Some (actualHost, actualSuffix) \<Rightarrow>
               expectedHost = actualHost \<and> expectedSuffix = actualSuffix))"

section \<open>Scopes and redirects as validated strings\<close>

type_synonym Scope = string
type_synonym RedirectUri = string

definition scope_byte :: "char \<Rightarrow> bool" where
  "scope_byte c =
     (let byte = (of_char c :: nat)
      in byte = 0x21 \<or> (byte \<ge> 0x23 \<and> byte \<le> 0x5B) \<or> (byte \<ge> 0x5D \<and> byte \<le> 0x7E))"

definition Scope_create :: "string \<Rightarrow> Scope Result" where
  "Scope_create value =
     (if value = [] \<or> length value > 128
      then fail_msg InvalidArgument ''The OAuth scope is invalid.''
      else if list_ex (\<lambda>c. \<not> scope_byte c) value
      then fail_msg InvalidArgument ''The OAuth scope is invalid.''
      else Inr value)"

definition RedirectUri_create :: "string \<Rightarrow> ClientKind \<Rightarrow> RedirectUri Result" where
  "RedirectUri_create value clientKind =
     (if value = [] \<or> length value > 2048 \<or> CHR ''#'' \<in> set value \<or> CHR 0x5C \<in> set value
         \<or> list_ex (\<lambda>c. (of_char c :: nat) \<le> 0x20 \<or> of_char c = (0x7F :: nat)) value
      then fail_msg InvalidArgument ''The redirect URI is invalid.''
      else
        let https = validHttps value;
            nativeLoopback = (clientKind = Native \<and> loopbackHttp value)
        in if \<not> https \<and> \<not> nativeLoopback
           then fail_msg InvalidArgument
                  ''Redirect URIs require HTTPS except native loopback callbacks.''
           else if clientKind = Service
           then fail_msg InvalidArgument ''Service clients do not use redirect URIs.''
           else Inr value)"

section \<open>The client aggregate\<close>

record Client =
  client_id :: ClientId
  client_applicationId :: ApplicationId
  client_displayName :: string
  client_kind :: ClientKind
  client_status :: ClientStatus
  client_redirectUris :: "RedirectUri list"
  client_scopes :: "Scope list"
  client_secretDigest :: "ClientSecretDigest option"
  client_createdAt :: Instant
  client_updatedAt :: Instant

definition Client_create ::
    "ClientId \<Rightarrow> ApplicationId \<Rightarrow> string \<Rightarrow> ClientKind \<Rightarrow> RedirectUri list \<Rightarrow> Scope list
     \<Rightarrow> ClientSecretDigest option \<Rightarrow> Instant \<Rightarrow> Client Result" where
  "Client_create cid applicationId displayName kind redirectUris scopes secretDigest createdAt =
     (if StrongId_empty cid \<or> StrongId_empty applicationId \<or> \<not> validDisplayName displayName
         \<or> scopes = [] \<or> length scopes > 64
      then fail_msg InvalidArgument ''The client registration is invalid.''
      else if kind = Service \<and> (redirectUris \<noteq> [] \<or> secretDigest = None)
      then fail_msg InvalidArgument ''A service client requires a secret and no redirect URI.''
      else if kind \<noteq> Service \<and> (redirectUris = [] \<or> length redirectUris > 32)
      then fail_msg InvalidArgument ''The client redirect registration is invalid.''
      else if clientIsPublic kind \<and> secretDigest \<noteq> None
      then fail_msg InvalidArgument ''Public clients must not rely on a client secret.''
      else if \<not> clientIsPublic kind \<and> secretDigest = None
      then fail_msg InvalidArgument ''Confidential clients require a client secret.''
      else if adjacent_find (sort redirectUris)
      then fail_msg InvalidArgument ''Redirect URIs must be unique.''
      else if adjacent_find (sort scopes)
      then fail_msg InvalidArgument ''Client scopes must be unique.''
      else Inr \<lparr>client_id = cid, client_applicationId = applicationId,
                client_displayName = displayName, client_kind = kind, client_status = Active,
                client_redirectUris = sort redirectUris, client_scopes = sort scopes,
                client_secretDigest = secretDigest, client_createdAt = createdAt,
                client_updatedAt = createdAt\<rparr>)"

definition Client_restore ::
    "ClientId \<Rightarrow> ApplicationId \<Rightarrow> string \<Rightarrow> ClientKind \<Rightarrow> ClientStatus \<Rightarrow> RedirectUri list \<Rightarrow> Scope list
     \<Rightarrow> ClientSecretDigest option \<Rightarrow> Instant \<Rightarrow> Instant \<Rightarrow> Client Result" where
  "Client_restore cid applicationId displayName kind status redirectUris scopes secretDigest
     createdAt updatedAt =
     (case Client_create cid applicationId displayName kind redirectUris scopes secretDigest
             createdAt of
        Inl e \<Rightarrow> Inl e
      | Inr restored \<Rightarrow>
          if updatedAt < createdAt
          then fail_msg Internal ''Stored client timestamps are invalid.''
          else Inr (restored\<lparr>client_status := status, client_updatedAt := updatedAt\<rparr>))"

definition Client_isPublic :: "Client \<Rightarrow> bool" where
  "Client_isPublic c = clientIsPublic (client_kind c)"

definition Client_permitsAuthorization :: "Client \<Rightarrow> bool" where
  "Client_permitsAuthorization c = clientPermitsAuthorization (client_status c)"

definition Client_permitsRedirect :: "Client \<Rightarrow> string \<Rightarrow> bool" where
  "Client_permitsRedirect c redirectUri =
     list_ex (\<lambda>item. if item = redirectUri then True
                     else client_kind c = Native \<and> sameNativeLoopbackRedirect item redirectUri)
       (client_redirectUris c)"

definition Client_permitsScope :: "Client \<Rightarrow> string \<Rightarrow> bool" where
  "Client_permitsScope c scope = list_ex (\<lambda>item. item = scope) (client_scopes c)"

definition Client_permitsScopes :: "Client \<Rightarrow> Scope list \<Rightarrow> bool" where
  "Client_permitsScopes c requested = list_all (Client_permitsScope c) requested"

definition Client_suspend :: "Instant \<Rightarrow> Client \<Rightarrow> Status \<times> Client" where
  "Client_suspend now c =
     (if client_status c \<noteq> Active \<or> now < client_updatedAt c
      then (fail_msg FailedPrecondition ''The client cannot be suspended.'', c)
      else (ok, c\<lparr>client_status := Suspended, client_updatedAt := now\<rparr>))"

definition Client_activate :: "Instant \<Rightarrow> Client \<Rightarrow> Status \<times> Client" where
  "Client_activate now c =
     (if client_status c \<noteq> Suspended \<or> now < client_updatedAt c
      then (fail_msg FailedPrecondition ''The client cannot be activated.'', c)
      else (ok, c\<lparr>client_status := Active, client_updatedAt := now\<rparr>))"

definition Client_revoke :: "Instant \<Rightarrow> Client \<Rightarrow> Status \<times> Client" where
  "Client_revoke now c =
     (if client_status c = Revoked \<or> now < client_updatedAt c
      then (fail_msg FailedPrecondition ''The client cannot be revoked.'', c)
      else (ok, c\<lparr>client_status := Revoked, client_updatedAt := now\<rparr>))"

definition Client_replaceSecret :: "ClientSecretDigest \<Rightarrow> Instant \<Rightarrow> Client \<Rightarrow> Status \<times> Client" where
  "Client_replaceSecret digest now c =
     (if Client_isPublic c \<or> client_status c = Revoked \<or> now < client_updatedAt c
      then (fail_msg FailedPrecondition ''The client secret cannot be replaced.'', c)
      else (ok, c\<lparr>client_secretDigest := Some digest, client_updatedAt := now\<rparr>))"

section \<open>The repository\<close>

type_synonym ClientRepository = "(ClientId, Client) omap"

definition clients_add :: "Client \<Rightarrow> ClientRepository \<Rightarrow> Status \<times> ClientRepository" where
  "clients_add c m =
     (if omap_contains m (client_id c)
      then (fail_msg AlreadyExists ''The OAuth client already exists.'', m)
      else (ok, omap_emplace (client_id c) c m))"

definition clients_save :: "Client \<Rightarrow> ClientRepository \<Rightarrow> Status \<times> ClientRepository" where
  "clients_save c m =
     (case map_of m (client_id c) of
        None \<Rightarrow> (fail_code NotFound, m)
      | Some found \<Rightarrow>
          if client_applicationId found \<noteq> client_applicationId c \<or> client_kind found \<noteq> client_kind c
          then (fail_msg FailedPrecondition ''Immutable client registration fields changed.'', m)
          else (ok, omap_modify (client_id c) (\<lambda>_. c) m))"

definition clients_findById :: "ClientId \<Rightarrow> ClientRepository \<Rightarrow> Client option Result" where
  "clients_findById cid m = Inr (map_of m cid)"

definition clientsOf :: "ApplicationId \<Rightarrow> ClientRepository \<Rightarrow> Client list Result" where
  "clientsOf applicationId m =
     Inr (filter (\<lambda>c. client_applicationId c = applicationId) (map snd m))"

section \<open>The manager\<close>

definition ClientSecretKey_create :: "string \<Rightarrow> string Result" where
  "ClientSecretKey_create key =
     (if length key < 32
      then fail_msg InvalidArgument ''A client-secret key must contain at least 32 bytes.''
      else Inr key)"

record ClientRegistration =
  registration_client :: Client
  registration_secret :: "string option"

definition client_digest :: "env \<Rightarrow> string \<Rightarrow> string \<Rightarrow> ClientSecretDigest Result" where
  "client_digest E key secret =
     (if secret = [] then fail_code AuthenticationFailed else hmacSha256 E key secret)"

text \<open>The fresh secret of a confidential client and its digest; none for a public one.\<close>

definition generateSecret ::
    "env \<Rightarrow> string \<Rightarrow> ClientKind \<Rightarrow> (string option \<times> ClientSecretDigest option) Result" where
  "generateSecret E key kind =
     (if \<not> clientIsPublic kind
      then (case randomTokenBase64Url E 1 32 of
              Inl e \<Rightarrow> Inl e
            | Inr generated \<Rightarrow>
                (case client_digest E key (''ops_'' @ generated) of
                   Inl e \<Rightarrow> Inl e
                 | Inr calculated \<Rightarrow> Inr (Some (''ops_'' @ generated), Some calculated)))
      else Inr (None, None))"

definition registerClient ::
    "env \<Rightarrow> string \<Rightarrow> ApplicationRepository \<Rightarrow> ApplicationId \<Rightarrow> string \<Rightarrow> ClientKind \<Rightarrow> string list
     \<Rightarrow> string list \<Rightarrow> ClientRepository \<Rightarrow> ClientRegistration Result \<times> ClientRepository" where
  "registerClient E key apps applicationId displayName kind redirectUris scopes m =
     (case applications_findById applicationId apps of
        Inl e \<Rightarrow> (Inl e, m)
      | Inr application \<Rightarrow>
     (if (case application of None \<Rightarrow> True | Some a \<Rightarrow> \<not> Application_permitsAuthorization a)
      then (fail_msg FailedPrecondition ''The application is unavailable for client registration.'', m)
      else
     (case map_result (\<lambda>value. RedirectUri_create value kind) redirectUris of
        Inl e \<Rightarrow> (Inl e, m)
      | Inr parsedRedirects \<Rightarrow>
     (case map_result Scope_create scopes of
        Inl e \<Rightarrow> (Inl e, m)
      | Inr parsedScopes \<Rightarrow>
     (case randomTokenBase64Url E 0 24 of
        Inl e \<Rightarrow> (Inl e, m)
      | Inr randomId \<Rightarrow>
     (case generateSecret E key kind of
        Inl e \<Rightarrow> (Inl e, m)
      | Inr (plaintext, secretDigest) \<Rightarrow>
     (case Client_create (StrongId (''opc_'' @ randomId)) applicationId displayName kind
             parsedRedirects parsedScopes secretDigest (env_now E 0) of
        Inl e \<Rightarrow> (Inl e, m)
      | Inr c \<Rightarrow>
     (case clients_add c m of
        (Inl e, m') \<Rightarrow> (Inl e, m')
      | (Inr _, m') \<Rightarrow>
          (Inr \<lparr>registration_client = c, registration_secret = plaintext\<rparr>, m'))))))))) "

definition rotateSecret ::
    "env \<Rightarrow> string \<Rightarrow> ClientId \<Rightarrow> ClientRepository \<Rightarrow> string Result \<times> ClientRepository" where
  "rotateSecret E key cid m =
     (case clients_findById cid m of
        Inl e \<Rightarrow> (Inl e, m)
      | Inr None \<Rightarrow> (fail_code NotFound, m)
      | Inr (Some c) \<Rightarrow>
          if Client_isPublic c
          then (fail_msg FailedPrecondition ''Public clients do not have client secrets.'', m)
          else
            (case randomTokenBase64Url E 0 32 of
               Inl e \<Rightarrow> (Inl e, m)
             | Inr generated \<Rightarrow>
            (case client_digest E key (''ops_'' @ generated) of
               Inl e \<Rightarrow> (Inl e, m)
             | Inr calculated \<Rightarrow>
            (case Client_replaceSecret calculated (env_now E 0) c of
               (Inl e, _) \<Rightarrow> (Inl e, m)
             | (Inr _, c') \<Rightarrow>
            (case clients_save c' m of
               (Inl e, m') \<Rightarrow> (Inl e, m')
             | (Inr _, m') \<Rightarrow> (Inr (''ops_'' @ generated), m'))))))"

definition manager_require :: "ClientId \<Rightarrow> ClientRepository \<Rightarrow> Client Result" where
  "manager_require cid m =
     (case clients_findById cid m of
        Inl e \<Rightarrow> Inl e
      | Inr found \<Rightarrow> (case found of None \<Rightarrow> fail_code NotFound | Some c \<Rightarrow> Inr c))"

definition manager_suspend ::
    "env \<Rightarrow> ClientId \<Rightarrow> ClientRepository \<Rightarrow> Client Result \<times> ClientRepository" where
  "manager_suspend E cid m =
     (case manager_require cid m of
        Inl e \<Rightarrow> (Inl e, m)
      | Inr c \<Rightarrow>
          (case Client_suspend (env_now E 0) c of
             (Inl e, _) \<Rightarrow> (Inl e, m)
           | (Inr _, c') \<Rightarrow>
               (case clients_save c' m of
                  (Inl e, m') \<Rightarrow> (Inl e, m')
                | (Inr _, m') \<Rightarrow> (Inr c', m'))))"

definition manager_activate ::
    "env \<Rightarrow> ClientId \<Rightarrow> ClientRepository \<Rightarrow> Client Result \<times> ClientRepository" where
  "manager_activate E cid m =
     (case manager_require cid m of
        Inl e \<Rightarrow> (Inl e, m)
      | Inr c \<Rightarrow>
          (case Client_activate (env_now E 0) c of
             (Inl e, _) \<Rightarrow> (Inl e, m)
           | (Inr _, c') \<Rightarrow>
               (case clients_save c' m of
                  (Inl e, m') \<Rightarrow> (Inl e, m')
                | (Inr _, m') \<Rightarrow> (Inr c', m'))))"

definition manager_revoke ::
    "env \<Rightarrow> ClientId \<Rightarrow> ClientRepository \<Rightarrow> Client Result \<times> ClientRepository" where
  "manager_revoke E cid m =
     (case manager_require cid m of
        Inl e \<Rightarrow> (Inl e, m)
      | Inr c \<Rightarrow>
          (case Client_revoke (env_now E 0) c of
             (Inl e, _) \<Rightarrow> (Inl e, m)
           | (Inr _, c') \<Rightarrow>
               (case clients_save c' m of
                  (Inl e, m') \<Rightarrow> (Inl e, m')
                | (Inr _, m') \<Rightarrow> (Inr c', m'))))"

definition requireActive ::
    "ApplicationRepository \<Rightarrow> ClientId \<Rightarrow> ClientRepository \<Rightarrow> Client Result" where
  "requireActive apps cid m =
     (case clients_findById cid m of
        Inl e \<Rightarrow> Inl e
      | Inr None \<Rightarrow> fail_msg AuthenticationFailed ''Client authentication failed.''
      | Inr (Some c) \<Rightarrow>
          if \<not> Client_permitsAuthorization c
          then fail_msg AuthenticationFailed ''Client authentication failed.''
          else
            (case applications_findById (client_applicationId c) apps of
               Inl e \<Rightarrow> Inl e
             | Inr application \<Rightarrow>
                 if (case application of None \<Rightarrow> True | Some a \<Rightarrow> \<not> Application_permitsAuthorization a)
                 then fail_msg AuthenticationFailed ''Client authentication failed.''
                 else Inr c))"

definition client_authenticate ::
    "env \<Rightarrow> string \<Rightarrow> ApplicationRepository \<Rightarrow> ClientId \<Rightarrow> string option \<Rightarrow> ClientRepository
     \<Rightarrow> Client Result" where
  "client_authenticate E key apps cid presentedSecret m =
     (case requireActive apps cid m of
        Inl e \<Rightarrow> Inl e
      | Inr c \<Rightarrow>
          if Client_isPublic c
          then (if presentedSecret \<noteq> None
                then fail_msg AuthenticationFailed ''Client authentication failed.''
                else Inr c)
          else
            (case (presentedSecret, client_secretDigest c) of
               (Some secret, Some stored) \<Rightarrow>
                 (case client_digest E key secret of
                    Inl _ \<Rightarrow> fail_msg AuthenticationFailed ''Client authentication failed.''
                  | Inr calculated \<Rightarrow>
                      if \<not> constantTimeEquals calculated stored
                      then fail_msg AuthenticationFailed ''Client authentication failed.''
                      else Inr c)
             | _ \<Rightarrow> fail_msg AuthenticationFailed ''Client authentication failed.''))"

section \<open>The authority parser and loopback redirects\<close>

lemma find_char_Some:
  "find_char c s = Some i \<longleftrightarrow> i < length s \<and> s ! i = c \<and> c \<notin> set (take i s)"
proof (induction s arbitrary: i)
  case (Cons x xs)
  then show ?case by (cases i) auto
qed simp

lemma find_char_None: "find_char c s = None \<longleftrightarrow> c \<notin> set s"
  by (induction s) auto

lemma find_char_first: "c \<notin> set u \<Longrightarrow> find_char c (u @ c # v) = Some (length u)"
  by (induction u) auto

lemma rfind_char_last: "c \<notin> set v \<Longrightarrow> rfind_char c (u @ c # v) = Some (length u)"
  using find_char_first [of c "rev v" "rev u"] by (simp add: rfind_char_def)

lemma rfind_char_Some: "rfind_char c s = Some i \<Longrightarrow> s = take i s @ c # drop (Suc i) s"
proof -
  assume "rfind_char c s = Some i"
  then obtain j where j: "find_char c (rev s) = Some j" "i = length s - 1 - j"
    by (auto simp: rfind_char_def)
  then have "j < length s" "rev s ! j = c"
    by (simp_all add: find_char_Some)
  then have "i < length s" "s ! i = c"
    using j(2) by (simp_all add: rev_nth)
  then show ?thesis by (simp add: id_take_nth_drop [symmetric] flip: \<open>s ! i = c\<close>)
qed

lemma validPort_digits: "validPort port \<Longrightarrow> list_all is_digit port"
  by (simp add: validPort_def allDigits_def split: if_splits)

lemma digit_not_special:
  "is_digit c \<Longrightarrow> c \<noteq> CHR '':'' \<and> c \<noteq> CHR ''@'' \<and> \<not> delimiter c"
  by (auto simp: is_digit_def delimiter_def less_eq_char_def)

text \<open>A URI whose authority has a port is scheme, host, colon, port and the rest.\<close>

lemma authority_value_shape:
  assumes "authority_value value = Some (host, Some port)"
  shows "value = host @ CHR '':'' # port \<and> validPort port"
proof (cases "hd value = CHR ''[''")
  case True
  then obtain close where close: "host = take (close + 1) value" "close + 1 \<noteq> length value"
      "value ! (close + 1) = CHR '':''" "port = drop (close + 2) value" "validPort port"
      "find_char CHR '']'' value = Some close"
    using assms by (auto simp: authority_value_def Let_def split: if_splits option.splits)
  then have "close + 1 < length value" by (simp add: find_char_Some)
  with close show ?thesis using id_take_nth_drop [of "close + 1" "value"] by simp
next
  case False
  then obtain colon where "rfind_char CHR '':'' value = Some colon" "host = take colon value"
      "port = drop (colon + 1) value" "validPort port"
    using assms by (auto simp: authority_value_def Let_def split: if_splits option.splits)
  then show ?thesis using rfind_char_Some by fastforce
qed

lemma authority_shape:
  assumes "authority uri scheme = Some (host, Some port)"
  shows "uri = scheme @ host @ CHR '':'' # port
           @ dropWhile (\<lambda>c. \<not> delimiter c) (drop (length scheme) uri) \<and> validPort port"
proof -
  let ?rest = "drop (length scheme) uri"
  have uri: "uri = scheme @ ?rest"
    and parsed: "authority_value (takeWhile (\<lambda>c. \<not> delimiter c) ?rest) = Some (host, Some port)"
    using assms by (auto simp: authority_def starts_with_def split: if_splits) (metis append_take_drop_id)
  have "?rest = host @ CHR '':'' # port @ dropWhile (\<lambda>c. \<not> delimiter c) ?rest"
    using authority_value_shape [OF parsed] takeWhile_dropWhile_id [of "\<lambda>c. \<not> delimiter c" ?rest]
    by simp
  with uri authority_value_shape [OF parsed] show ?thesis by metis
qed

lemma takeWhile_until:
  assumes "list_all P u" "v = [] \<or> \<not> P (hd v)"
  shows "takeWhile P (u @ v) = u" "dropWhile P (u @ v) = v"
proof -
  have "takeWhile P v = []" "dropWhile P v = v"
    using assms(2) by (cases v; simp)+
  moreover have "\<And>x. x \<in> set u \<Longrightarrow> P x"
    using assms(1) by (simp add: list_all_iff)
  ultimately show "takeWhile P (u @ v) = u" "dropWhile P (u @ v) = v"
    by (simp_all add: takeWhile_append2 dropWhile_append2)
qed

lemma loopbackHost_chars:
  "loopbackHost host \<Longrightarrow> list_all (\<lambda>c. \<not> delimiter c) host \<and> CHR ''@'' \<notin> set host \<and> host \<noteq> []"
  by (auto simp: loopbackHost_def delimiter_def)

lemma authority_value_loopback:
  assumes "loopbackHost host" "validPort port"
  shows "authority_value (host @ CHR '':'' # port) = Some (host, Some port)"
proof -
  have digits: "c \<noteq> CHR '':''" "c \<noteq> CHR ''@''" if "c \<in> set port" for c
    using validPort_digits [OF assms(2)] digit_not_special that by (auto simp: list_all_iff)
  have colon: "rfind_char CHR '':'' (host @ CHR '':'' # port) = Some (length host)"
    using digits by (intro rfind_char_last) blast
  have at: "CHR ''@'' \<notin> set port" using digits by blast
  from assms(1) consider "host = ''127.0.0.1''" | "host = ''[::1]''"
    by (auto simp: loopbackHost_def)
  then show ?thesis
  proof cases
    case 1
    have "hd (host @ CHR '':'' # port) = CHR ''1''" "CHR ''@'' \<notin> set (host @ CHR '':'' # port)"
        "CHR '':'' \<notin> set host" "host \<noteq> []"
      using at by (simp_all add: 1)
    with assms(2) show ?thesis
      unfolding authority_value_def colon by (simp add: Let_def)
  next
    case 2
    with at assms(2) show ?thesis by (simp add: authority_value_def)
  qed
qed

lemma authority_loopback:
  assumes "loopbackHost host" "validPort port" "suffix = [] \<or> delimiter (hd suffix)"
  shows "authority (''http://'' @ host @ CHR '':'' # port @ suffix) ''http://'' = Some (host, Some port)"
    and "dropWhile (\<lambda>c. \<not> delimiter c) (host @ CHR '':'' # port @ suffix) = suffix"
proof -
  have "list_all (\<lambda>c. \<not> delimiter c) (host @ CHR '':'' # port)"
    using loopbackHost_chars [OF assms(1)] validPort_digits [OF assms(2)] digit_not_special
    by (auto simp: list_all_iff delimiter_def)
  note split = takeWhile_until [OF this, of suffix, simplified]
  show "dropWhile (\<lambda>c. \<not> delimiter c) (host @ CHR '':'' # port @ suffix) = suffix"
    using split(2) assms(3) by simp
  have "takeWhile (\<lambda>c. \<not> delimiter c) (host @ CHR '':'' # port @ suffix) = host @ CHR '':'' # port"
    using split(1) assms(3) by simp
  then show "authority (''http://'' @ host @ CHR '':'' # port @ suffix) ''http://''
      = Some (host, Some port)"
    using authority_value_loopback [OF assms(1,2)] by (simp add: authority_def starts_with_def)
qed

lemma hd_dropWhile_delimiter:
  "dropWhile (\<lambda>c. \<not> delimiter c) s = [] \<or> delimiter (hd (dropWhile (\<lambda>c. \<not> delimiter c) s))"
  using hd_dropWhile [of "\<lambda>c. \<not> delimiter c" s] by blast

lemma parseLoopbackRedirect_iff:
  "parseLoopbackRedirect uri = Some (host, suffix) \<longleftrightarrow>
     loopbackHost host \<and> (suffix = [] \<or> delimiter (hd suffix))
     \<and> (\<exists>port. validPort port \<and> uri = ''http://'' @ host @ CHR '':'' # port @ suffix)"
    (is "?L \<longleftrightarrow> ?R")
proof
  assume ?L
  then obtain port where a: "authority uri ''http://'' = Some (host, Some port)" "loopbackHost host"
      "suffix = dropWhile (\<lambda>c. \<not> delimiter c) (drop (length ''http://'') uri)"
    by (auto simp: parseLoopbackRedirect_def split: option.splits if_splits)
  then show ?R
    using authority_shape [OF a(1)] hd_dropWhile_delimiter by (simp only:) blast
next
  assume ?R
  then obtain port where "loopbackHost host" "suffix = [] \<or> delimiter (hd suffix)" "validPort port"
      and uri: "uri = ''http://'' @ host @ CHR '':'' # port @ suffix" by blast
  note parsed = authority_loopback [OF this(1,3,2)]
  have "drop (length ''http://'') uri = host @ CHR '':'' # port @ suffix"
    by (simp add: uri)
  with parsed \<open>loopbackHost host\<close> show ?L
    by (simp only: parseLoopbackRedirect_def uri option.case prod.case) simp
qed


section \<open>What every stored client satisfies\<close>

definition client_wf :: "Client \<Rightarrow> bool" where
  "client_wf c \<longleftrightarrow>
     (client_kind c = Service \<longleftrightarrow> client_redirectUris c = [])
     \<and> (clientIsPublic (client_kind c) \<longleftrightarrow> client_secretDigest c = None)
     \<and> sorted_wrt (<) (client_redirectUris c) \<and> length (client_redirectUris c) \<le> 32
     \<and> list_all (\<lambda>u. RedirectUri_create u (client_kind c) = Inr u) (client_redirectUris c)
     \<and> client_scopes c \<noteq> [] \<and> sorted_wrt (<) (client_scopes c) \<and> length (client_scopes c) \<le> 64
     \<and> list_all (\<lambda>v. Scope_create v = Inr v) (client_scopes c)"

definition clients_inv :: "ClientRepository \<Rightarrow> bool" where
  "clients_inv m \<longleftrightarrow> omap_ok m \<and> (\<forall>cid c. map_of m cid = Some c \<longrightarrow> client_id c = cid \<and> client_wf c)"

lemma clients_invD:
  assumes "clients_inv m"
  shows "omap_ok m" "map_of m cid = Some c \<Longrightarrow> client_id c = cid" "map_of m cid = Some c \<Longrightarrow> client_wf c"
  using assms unfolding clients_inv_def by blast+

lemma Scope_create_same: "Scope_create v = Inr w \<Longrightarrow> w = v \<and> Scope_create v = Inr v"
  by (auto simp: Scope_create_def split: if_splits)

lemma RedirectUri_create_same:
  "RedirectUri_create u kind = Inr w \<Longrightarrow> w = u \<and> RedirectUri_create u kind = Inr u"
  by (auto simp: RedirectUri_create_def Let_def split: if_splits)

lemma strict_sorted_sort: "distinct xs \<Longrightarrow> sorted_wrt (<) (sort xs)"
  by (simp add: strict_sorted_iff)

lemma Client_create_wf:
  assumes "Client_create cid aid name kind redirects scopes secret now = Inr c"
    and "list_all (\<lambda>u. RedirectUri_create u kind = Inr u) redirects"
    and "list_all (\<lambda>v. Scope_create v = Inr v) scopes"
  shows "client_wf c \<and> client_id c = cid \<and> client_kind c = kind \<and> client_secretDigest c = secret
    \<and> client_status c = Active \<and> client_applicationId c = aid"
proof -
  have "sorted_wrt (<) (sort redirects)" if "\<not> adjacent_find (sort redirects)"
    using that by (intro strict_sorted_sort) simp
  moreover have "sorted_wrt (<) (sort scopes)" if "\<not> adjacent_find (sort scopes)"
    using that by (intro strict_sorted_sort) simp
  moreover have "sort redirects = [] \<longleftrightarrow> redirects = []" "sort scopes = [] \<longleftrightarrow> scopes = []"
    by (metis length_sort length_0_conv)+
  ultimately show ?thesis
    using assms by (auto simp: Client_create_def client_wf_def list_all_iff split: if_splits)
qed

lemma registerClient_state:
  "snd (registerClient E key apps aid name kind redirects scopes m) = m
   \<or> (\<exists>c. client_wf c
        \<and> snd (registerClient E key apps aid name kind redirects scopes m) = snd (clients_add c m))"
proof -
  have "client_wf c" if "map_result (\<lambda>u. RedirectUri_create u kind) redirects = Inr rs"
      "map_result Scope_create scopes = Inr ss"
      "Client_create cid aid name kind rs ss secret now = Inr c" for rs ss cid secret now c
    using map_result_same [OF RedirectUri_create_same that(1)] map_result_same [OF Scope_create_same that(2)]
      Client_create_wf [OF that(3)] by auto
  then show ?thesis
    unfolding registerClient_def applications_findById_def
    by (auto split: sum.splits prod.splits option.splits) (metis snd_conv)+
qed

lemma clients_add_inv: "clients_inv m \<Longrightarrow> client_wf c \<Longrightarrow> clients_inv (snd (clients_add c m))"
  by (auto simp: clients_inv_def clients_add_def omap_contains_def omap_ok_emplace om.find_emplace_new)

lemma clients_modify_inv:
  assumes "clients_inv m" "map_of m cid = Some c" "client_id c' = client_id c" "client_wf c'"
  shows "clients_inv (omap_modify cid (\<lambda>_. c') m)"
  using assms by (auto simp: clients_inv_def map_of_modify)

text \<open>
  The contract of the operations that change one stored client: the change keeps the identity and
  the registration of the client, refuses a revoked one, and the operation stores nothing else.
\<close>

locale client_change =
  fixes change :: "env \<Rightarrow> Client \<Rightarrow> Status \<times> Client"
    and manager_op :: "env \<Rightarrow> ClientId \<Rightarrow> ClientRepository \<Rightarrow> 'r \<times> ClientRepository"
  assumes change_frame: "change E c = (Inr u, c') \<Longrightarrow>
      client_id c' = client_id c \<and> client_applicationId c' = client_applicationId c
      \<and> client_kind c' = client_kind c \<and> client_status c \<noteq> Revoked \<and> (client_wf c \<longrightarrow> client_wf c')"
    and op_cases: "snd (manager_op E cid m) = m
      \<or> (\<exists>c c' u. map_of m cid = Some c \<and> change E c = (Inr u, c')
           \<and> snd (manager_op E cid m) = snd (clients_save c' m))"
begin

lemma op_state:
  assumes "clients_inv m"
  shows "snd (manager_op E cid m) = m
    \<or> (\<exists>c c' u. map_of m cid = Some c \<and> change E c = (Inr u, c')
         \<and> snd (manager_op E cid m) = omap_modify cid (\<lambda>_. c') m)"
  using op_cases [of E cid m]
proof (elim disjE exE conjE)
  fix c c' u
  assume c: "map_of m cid = Some c" "change E c = (Inr u, c')"
    and op: "snd (manager_op E cid m) = snd (clients_save c' m)"
  note frame = change_frame [OF c(2)]
  have "client_id c = cid" using clients_invD(2) [OF assms c(1)] .
  with frame c(1) have "clients_save c' m = (ok, omap_modify cid (\<lambda>_. c') m)"
    by (simp add: clients_save_def)
  with c op show ?thesis by auto
qed simp

lemma op_inv:
  assumes "clients_inv m"
  shows "clients_inv (snd (manager_op E cid m))"
  using op_state [OF assms, of E cid] assms change_frame clients_invD(3) [OF assms]
  by (elim disjE exE conjE) (auto intro!: clients_modify_inv)

lemma op_keeps_revoked:
  assumes "clients_inv m" "map_of m cid = Some c" "client_status c = Revoked"
  shows "map_of (snd (manager_op E cid' m)) cid = Some c"
  using op_state [OF assms(1), of E cid'] assms(2,3) change_frame
  by (auto simp: map_of_modify)

end

lemma client_wf_update [simp]:
  "client_wf (c\<lparr>client_status := st, client_updatedAt := t\<rparr>) = client_wf c"
  by (simp add: client_wf_def)

lemma change_and_save_cases:
  assumes "out = (case manager_require cid m of
        Inl e \<Rightarrow> (Inl e, m)
      | Inr c \<Rightarrow>
          (case change c of
             (Inl e, _) \<Rightarrow> (Inl e, m)
           | (Inr _, c') \<Rightarrow>
               (case clients_save c' m of
                  (Inl e, m') \<Rightarrow> (Inl e, m')
                | (Inr _, m') \<Rightarrow> (Inr c', m'))))"
  shows "snd out = m \<or> (\<exists>c c' u. map_of m cid = Some c \<and> change c = (Inr u, c')
           \<and> snd out = snd (clients_save c' m))"
proof (cases "map_of m cid")
  case None
  then show ?thesis by (simp add: assms manager_require_def clients_findById_def)
next
  case (Some c)
  obtain res c' where c': "change c = (res, c')" by fastforce
  obtain saved m' where m': "clients_save c' m = (saved, m')" by fastforce
  show ?thesis
    using Some c' m' by (cases res; cases saved)
      (simp_all add: assms manager_require_def clients_findById_def)
qed

interpretation client_suspending: client_change "\<lambda>E. Client_suspend (env_now E 0)" manager_suspend
proof unfold_locales
  fix E c u c' assume "Client_suspend (env_now E 0) c = (Inr u, c')"
  then show "client_id c' = client_id c \<and> client_applicationId c' = client_applicationId c
      \<and> client_kind c' = client_kind c \<and> client_status c \<noteq> Revoked \<and> (client_wf c \<longrightarrow> client_wf c')"
    by (auto simp: Client_suspend_def split: if_splits)
qed (rule change_and_save_cases, rule manager_suspend_def)

interpretation client_activating: client_change "\<lambda>E. Client_activate (env_now E 0)" manager_activate
proof unfold_locales
  fix E c u c' assume "Client_activate (env_now E 0) c = (Inr u, c')"
  then show "client_id c' = client_id c \<and> client_applicationId c' = client_applicationId c
      \<and> client_kind c' = client_kind c \<and> client_status c \<noteq> Revoked \<and> (client_wf c \<longrightarrow> client_wf c')"
    by (auto simp: Client_activate_def split: if_splits)
qed (rule change_and_save_cases, rule manager_activate_def)

interpretation client_revoking: client_change "\<lambda>E. Client_revoke (env_now E 0)" manager_revoke
proof unfold_locales
  fix E c u c' assume "Client_revoke (env_now E 0) c = (Inr u, c')"
  then show "client_id c' = client_id c \<and> client_applicationId c' = client_applicationId c
      \<and> client_kind c' = client_kind c \<and> client_status c \<noteq> Revoked \<and> (client_wf c \<longrightarrow> client_wf c')"
    by (auto simp: Client_revoke_def split: if_splits)
qed (rule change_and_save_cases, rule manager_revoke_def)

text \<open>The change \<^verbatim>\<open>rotateSecret\<close> makes, with the digest it computed.\<close>

definition rotate_change :: "string \<Rightarrow> env \<Rightarrow> Client \<Rightarrow> Status \<times> Client" where
  "rotate_change key E c =
     (case randomTokenBase64Url E 0 32 of
        Inl e \<Rightarrow> (Inl e, c)
      | Inr generated \<Rightarrow>
          (case client_digest E key (''ops_'' @ generated) of
             Inl e \<Rightarrow> (Inl e, c)
           | Inr d \<Rightarrow> Client_replaceSecret d (env_now E 0) c))"

lemma rotateSecret_cases:
  "snd (rotateSecret E key cid m) = m
   \<or> (\<exists>c c' u. map_of m cid = Some c \<and> rotate_change key E c = (Inr u, c')
        \<and> snd (rotateSecret E key cid m) = snd (clients_save c' m))"
proof (cases "map_of m cid")
  case None
  then show ?thesis by (simp add: rotateSecret_def clients_findById_def)
next
  case (Some c)
  note lookup = Some
  show ?thesis
  proof (cases "rotate_change key E c")
    case (Pair res c')
    obtain saved m' where "clients_save c' m = (saved, m')" by fastforce
    with Pair lookup show ?thesis
      by (cases res; cases saved)
        (auto simp: rotateSecret_def clients_findById_def rotate_change_def split: sum.splits prod.splits)
  qed
qed

interpretation client_rotating: client_change "rotate_change key" "\<lambda>E. rotateSecret E key"
  for key :: string
proof unfold_locales
  fix E c u c' assume "rotate_change key E c = (Inr u, c')"
  then show "client_id c' = client_id c \<and> client_applicationId c' = client_applicationId c
      \<and> client_kind c' = client_kind c \<and> client_status c \<noteq> Revoked \<and> (client_wf c \<longrightarrow> client_wf c')"
    by (auto simp: rotate_change_def Client_replaceSecret_def client_wf_def Client_isPublic_def
        split: if_splits sum.splits)
qed (rule rotateSecret_cases)

section \<open>Every history of manager calls\<close>

datatype manager_call =
    RegisterClient env string ApplicationRepository ApplicationId string ClientKind "string list" "string list"
  | RotateSecret env string ClientId
  | SuspendClient env ClientId
  | ActivateClient env ClientId
  | RevokeClient env ClientId

datatype manager_reply =
  RegistrationReply "ClientRegistration Result" | SecretReply "string Result" | ClientReply "Client Result"

fun manager_step :: "manager_call \<Rightarrow> ClientRepository \<Rightarrow> manager_reply \<times> ClientRepository" where
  "manager_step (RegisterClient E key apps aid name kind redirects scopes) m =
     apfst RegistrationReply (registerClient E key apps aid name kind redirects scopes m)"
| "manager_step (RotateSecret E key cid) m = apfst SecretReply (rotateSecret E key cid m)"
| "manager_step (SuspendClient E cid) m = apfst ClientReply (manager_suspend E cid m)"
| "manager_step (ActivateClient E cid) m = apfst ClientReply (manager_activate E cid m)"
| "manager_step (RevokeClient E cid) m = apfst ClientReply (manager_revoke E cid m)"

abbreviation clients_after :: "manager_call list \<Rightarrow> ClientRepository" where
  "clients_after cs \<equiv> final_state manager_step cs []"

lemma registerClient_inv:
  assumes "clients_inv m"
  shows "clients_inv (snd (registerClient E key apps aid name kind redirects scopes m))"
  using registerClient_state [of E key apps aid name kind redirects scopes m] assms clients_add_inv
  by metis

interpretation clients: guarded_machine manager_step clients_inv
proof
  fix m c assume "clients_inv m"
  then show "clients_inv (snd (manager_step c m))"
    by (cases c) (simp_all add: registerClient_inv client_rotating.op_inv client_suspending.op_inv
        client_activating.op_inv client_revoking.op_inv)
qed

lemma clients_after_inv [simp]: "clients_inv (clients_after cs)"
  by (rule clients.run_inv) (simp add: clients_inv_def)

definition client_is_revoked :: "Client \<Rightarrow> ClientRepository \<Rightarrow> bool" where
  "client_is_revoked c m \<longleftrightarrow> map_of m (client_id c) = Some c \<and> client_status c = Revoked"

lemma registerClient_keeps:
  assumes "clients_inv m" "map_of m cid = Some c"
  shows "map_of (snd (registerClient E key apps aid name kind redirects scopes m)) cid = Some c"
proof -
  have "map_of (snd (clients_add b m)) cid = Some c" for b
    using assms clients_invD(1) [OF assms(1)]
    by (auto simp: clients_add_def store_simps)
  then show ?thesis
    using registerClient_state [of E key apps aid name kind redirects scopes m] assms(2) by metis
qed

interpretation revoked_client: stable_fact manager_step clients_inv "\<lambda>_. True" "client_is_revoked c"
  for c :: Client
proof
  fix m k assume "clients_inv m" "client_is_revoked c m"
  then show "client_is_revoked c (snd (manager_step k m))"
    by (cases k) (simp_all add: client_is_revoked_def registerClient_keeps
        client_rotating.op_keeps_revoked client_suspending.op_keeps_revoked
        client_activating.op_keeps_revoked client_revoking.op_keeps_revoked)
qed

section \<open>Properties\<close>

text \<open>
  Client authentication is exact and gives nothing away: it succeeds iff the client is
  registered and active, its application is active, and the credentials fit its kind (none for a
  public client, a secret with the stored keyed digest for a confidential one); every refusal is
  the same error.
\<close>

theorem client_authentication_exact:
  "client_authenticate E key apps cid presented m =
     (case map_of m cid of
        Some c \<Rightarrow>
          if client_status c = Active
             \<and> (\<exists>a. map_of (apps_applications apps) (client_applicationId c) = Some a
                   \<and> app_status a = ApplicationStatus.Active)
             \<and> (if clientIsPublic (client_kind c) then presented = None
                else \<exists>secret d. presented = Some secret \<and> secret \<noteq> [] \<and> hmacSha256 E key secret = Inr d
                       \<and> client_secretDigest c = Some d)
          then Inr c
          else fail_msg AuthenticationFailed ''Client authentication failed.''
      | None \<Rightarrow> fail_msg AuthenticationFailed ''Client authentication failed.'')"
proof (cases "map_of m cid")
  case None
  then show ?thesis
    by (simp add: client_authenticate_def requireActive_def clients_findById_def fail_msg_def)
next
  case (Some c)
  have active: "requireActive apps cid m =
      (if client_status c = Active
          \<and> (\<exists>a. map_of (apps_applications apps) (client_applicationId c) = Some a
                \<and> app_status a = ApplicationStatus.Active)
       then Inr c else fail_msg AuthenticationFailed ''Client authentication failed.'')"
    using Some
    by (auto simp: requireActive_def clients_findById_def applications_findById_def
        Client_permitsAuthorization_def clientPermitsAuthorization_def
        Application_permitsAuthorization_def applicationPermitsAuthorization_def split: option.splits)
  show ?thesis
    unfolding client_authenticate_def active Client_isPublic_def client_digest_def
    using Some by (auto simp: fail_msg_def fail_code_def split: option.splits sum.splits)
qed

definition sample_apps :: ApplicationRepository where
  "sample_apps =
     \<lparr>apps_applications =
        [(StrongId ''app'',
          \<lparr>app_id = StrongId ''app'', app_owner = StrongId ''acme'', app_identifier = ''web'',
           app_displayName = ''Web'', app_environment = Production,
           app_status = ApplicationStatus.Active, app_createdAt = 1, app_updatedAt = 1\<rparr>)],
      apps_identifiers = [(tenantIdentifierKey (StrongId ''acme'') ''web'', StrongId ''app'')]\<rparr>"

abbreviation sample_cid :: ClientId where
  "sample_cid \<equiv> StrongId (''opc_'' @ toBase64Url (replicate 24 0))"

definition sample_client :: Client where
  "sample_client =
     \<lparr>client_id = sample_cid, client_applicationId = StrongId ''app'', client_displayName = ''Desktop'',
      client_kind = Native, client_status = Active,
      client_redirectUris = [''http://127.0.0.1:8080/cb''], client_scopes = [''openid''],
      client_secretDigest = None, client_createdAt = 100, client_updatedAt = 100\<rparr>"

definition sample_registration :: manager_call where
  "sample_registration =
     RegisterClient sample_env (replicate 32 (CHR ''k'')) sample_apps (StrongId ''app'') ''Desktop'' Native
       [''http://127.0.0.1:8080/cb''] [''openid'']"

lemma sample_port: "validPort ''8080''"
  by (simp add: validPort_def allDigits_def is_digit_def)

lemma sample_authority:
  "authority ''http://127.0.0.1:8080/cb'' ''http://'' = Some (''127.0.0.1'', Some ''8080'')"
  using authority_loopback(1) [of "''127.0.0.1''" "''8080''" "''/cb''"] sample_port
  by (simp add: loopbackHost_def delimiter_def)

lemma sample_redirect [simp]:
  "RedirectUri_create ''http://127.0.0.1:8080/cb'' Native = Inr ''http://127.0.0.1:8080/cb''"
  by (simp add: RedirectUri_create_def loopbackHttp_def sample_authority loopbackHost_def)

lemma sample_scope [simp]: "Scope_create ''openid'' = Inr ''openid''"
  by (simp add: Scope_create_def scope_byte_def Let_def)

lemma sample_registered: "clients_after [sample_registration] = [(sample_cid, sample_client)]"
proof -
  have name: "validDisplayName ''Desktop''" by (simp add: validDisplayName_def)
  have "Client_create sample_cid (StrongId ''app'') ''Desktop'' Native [''http://127.0.0.1:8080/cb'']
      [''openid''] None 100 = Inr sample_client"
    using name by (simp add: Client_create_def clientIsPublic_def sample_client_def)
  then show ?thesis
    by (simp add: sample_registration_def registerClient_def applications_findById_def sample_apps_def
        Application_permitsAuthorization_def applicationPermitsAuthorization_def generateSecret_def
        clientIsPublic_def clients_add_def omap_contains_def sample_client_def)
qed

text \<open>
  What registration guarantees, kept by every later operation: a public client never has a
  secret and a confidential one always does; a service client has no redirect; every redirect is
  HTTPS, or an HTTP loopback of a native client, and has no fragment.
\<close>

theorem stored_clients_sound:
  assumes "map_of (clients_after cs) cid = Some c"
  shows "(clientIsPublic (client_kind c) \<longleftrightarrow> client_secretDigest c = None)
    \<and> (client_kind c = Service \<longleftrightarrow> client_redirectUris c = [])
    \<and> distinct (client_redirectUris c) \<and> client_scopes c \<noteq> [] \<and> distinct (client_scopes c)
    \<and> list_all (\<lambda>u. (validHttps u \<or> client_kind c = Native \<and> loopbackHttp u) \<and> CHR ''#'' \<notin> set u)
         (client_redirectUris c)"
proof -
  have wf: "client_wf c"
    using clients_invD(3) [OF clients_after_inv assms] .
  have "(validHttps u \<or> client_kind c = Native \<and> loopbackHttp u) \<and> CHR ''#'' \<notin> set u"
    if "RedirectUri_create u (client_kind c) = Inr u" for u
    using that by (auto simp: RedirectUri_create_def Let_def split: if_splits)
  with wf show ?thesis
    by (auto simp: client_wf_def list_all_iff strict_sorted_iff)
qed

theorem stored_clients_sound_witness:
  "client_secretDigest sample_client = None \<and> validHttps ''http://127.0.0.1:8080/cb'' = False
   \<and> loopbackHttp ''http://127.0.0.1:8080/cb''"
proof -
  have "map_of (clients_after [sample_registration]) sample_cid = Some sample_client"
    unfolding sample_registered by simp
  from stored_clients_sound [OF this] have "validHttps ''http://127.0.0.1:8080/cb''
      \<or> loopbackHttp ''http://127.0.0.1:8080/cb''" "client_secretDigest sample_client = None"
    by (simp_all add: sample_client_def clientIsPublic_def)
  moreover have "\<not> validHttps ''http://127.0.0.1:8080/cb''"
    by (simp add: validHttps_def authority_def starts_with_def)
  ultimately show ?thesis by simp
qed

text \<open>
  Revoking a client is final: whatever the manager is asked to do later, the client stays as
  it was when it was revoked, and authentication as it fails for every secret.
\<close>

theorem client_revocation_final:
  assumes "manager_revoke E cid (clients_after cs) = (Inr c, m)"
  shows "map_of (final_state manager_step later m) cid = Some c \<and> client_status c = Revoked
    \<and> client_authenticate E' key apps cid presented (final_state manager_step later m)
       = fail_msg AuthenticationFailed ''Client authentication failed.''"
proof -
  obtain c0 u where c0: "map_of (clients_after cs) cid = Some c0"
      "Client_revoke (env_now E 0) c0 = (Inr u, c)"
      and save: "clients_save c (clients_after cs) = (ok, m)"
    using assms by (auto simp: manager_revoke_def manager_require_def clients_findById_def
        split: option.splits sum.splits prod.splits)
  have c: "client_id c = cid" "client_status c = Revoked"
    using c0 clients_invD(2) [OF clients_after_inv c0(1)]
    by (auto simp: Client_revoke_def split: if_splits)
  have "clients_inv m"
    using client_revoking.op_inv [OF clients_after_inv, of E cid cs] assms by simp
  moreover have "client_is_revoked c m"
    using save c by (auto simp: client_is_revoked_def clients_save_def map_of_modify
        split: option.splits if_splits)
  ultimately have "client_is_revoked c (final_state manager_step later m)"
    by (intro revoked_client.run_fact) (simp_all add: list_all_iff)
  then show ?thesis
    using c by (simp add: client_is_revoked_def client_authenticate_def requireActive_def
        clients_findById_def Client_permitsAuthorization_def clientPermitsAuthorization_def fail_msg_def)
qed

theorem client_revocation_final_witness:
  "client_authenticate sample_env (replicate 32 (CHR ''k'')) sample_apps sample_cid None
     (final_state manager_step [ActivateClient sample_env sample_cid]
        (snd (manager_revoke sample_env sample_cid (clients_after [sample_registration]))))
   = fail_msg AuthenticationFailed ''Client authentication failed.''"
proof -
  let ?out = "manager_revoke sample_env sample_cid (clients_after [sample_registration])"
  have "?out = (Inr (sample_client\<lparr>client_status := Revoked\<rparr>), snd ?out)"
    unfolding sample_registered
    by (simp add: manager_revoke_def manager_require_def clients_findById_def Client_revoke_def
        clients_save_def sample_client_def)
  from client_revocation_final [OF this] show ?thesis
    by blast
qed

end
