(* ===== verification/OAuth.thy ===== *)
theory OAuth
  imports Client Session_Service
begin

text \<open>
  The authorization-code grant (\<^verbatim>\<open>src/src/oauth/model.cpp\<close>, \<^verbatim>\<open>repository.cpp\<close>,
  \<^verbatim>\<open>service.cpp\<close>): PKCE challenges, authorization requests, codes stored under the hexadecimal
  text of a keyed digest, and the service that authorizes a session and redeems a code. A code is
  bound to its client, redirect URI and PKCE challenge, and the store hands it out at most once.
\<close>

section \<open>Requests and codes\<close>

definition validOpaque :: "string \<Rightarrow> nat \<Rightarrow> bool" where
  "validOpaque value maximum =
     (if value = [] \<or> length value > maximum then False
      else \<not> list_ex (\<lambda>c. (of_char c :: nat) < 0x20 \<or> of_char c = (0x7F :: nat)) value)"

definition is_upper :: "char \<Rightarrow> bool" where
  "is_upper c = (CHR ''A'' \<le> c \<and> c \<le> CHR ''Z'')"

definition base64UrlCharacter :: "char \<Rightarrow> bool" where
  "base64UrlCharacter c =
     (is_upper c \<or> is_lower c \<or> is_digit c \<or> c = CHR ''-'' \<or> c = CHR ''_'')"

type_synonym PkceChallenge = string

definition PkceChallenge_create :: "string \<Rightarrow> PkceChallenge Result" where
  "PkceChallenge_create value =
     (if length value \<noteq> 43 \<or> \<not> list_all base64UrlCharacter value
      then fail_msg InvalidArgument ''Only PKCE S256 challenges are accepted.''
      else Inr value)"

datatype AuthorizationResponseMode = Query | Jwt

record AuthorizationRequest =
  request_clientId :: ClientId
  request_redirectUri :: string
  request_scopes :: "Scope list"
  request_codeChallenge :: PkceChallenge
  request_state :: "string option"
  request_nonce :: "string option"
  request_maximumAuthenticationAge :: "Duration option"
  request_resource :: "string option"
  request_responseMode :: AuthorizationResponseMode

definition AuthorizationRequest_create ::
    "ClientId \<Rightarrow> string \<Rightarrow> Scope list \<Rightarrow> PkceChallenge \<Rightarrow> string option \<Rightarrow> string option
     \<Rightarrow> Duration option \<Rightarrow> string option \<Rightarrow> AuthorizationResponseMode \<Rightarrow> AuthorizationRequest Result" where
  "AuthorizationRequest_create clientId redirectUri scopes codeChallenge state nonce
     maximumAuthenticationAge resource responseMode =
     (if StrongId_empty clientId \<or> redirectUri = [] \<or> length redirectUri > 2048
         \<or> scopes = [] \<or> length scopes > 64
         \<or> (case state of None \<Rightarrow> False | Some v \<Rightarrow> \<not> validOpaque v 512)
         \<or> (case nonce of None \<Rightarrow> False | Some v \<Rightarrow> \<not> validOpaque v 512)
         \<or> (case maximumAuthenticationAge of None \<Rightarrow> False | Some d \<Rightarrow> d < 0)
         \<or> (case resource of None \<Rightarrow> False | Some v \<Rightarrow> \<not> validOpaque v 2048)
      then fail_msg InvalidArgument ''The authorization request is invalid.''
      else if adjacent_find (sort scopes)
      then fail_msg InvalidArgument ''The authorization scope list contains duplicates.''
      else Inr \<lparr>request_clientId = clientId, request_redirectUri = redirectUri,
                request_scopes = sort scopes, request_codeChallenge = codeChallenge,
                request_state = state, request_nonce = nonce,
                request_maximumAuthenticationAge = maximumAuthenticationAge,
                request_resource = resource, request_responseMode = responseMode\<rparr>)"

type_synonym CodeDigest = "byte list"

record AuthorizationCode =
  code_digest :: CodeDigest
  code_clientId :: ClientId
  code_identity :: IdentityId
  code_redirectUri :: string
  code_scopes :: "Scope list"
  code_codeChallenge :: PkceChallenge
  code_nonce :: "string option"
  code_resource :: "string option"
  code_provider :: ProviderId
  code_assurance :: AssuranceLevel
  code_strength :: AuthenticationStrength
  code_authenticatedAt :: Instant
  code_issuedAt :: Instant
  code_expiresAt :: Instant

definition AuthorizationCode_create ::
    "CodeDigest \<Rightarrow> ClientId \<Rightarrow> IdentityId \<Rightarrow> string \<Rightarrow> Scope list \<Rightarrow> PkceChallenge \<Rightarrow> string option
     \<Rightarrow> ProviderId \<Rightarrow> AssuranceLevel \<Rightarrow> AuthenticationStrength \<Rightarrow> Instant \<Rightarrow> Instant \<Rightarrow> Duration
     \<Rightarrow> string option \<Rightarrow> AuthorizationCode Result" where
  "AuthorizationCode_create digest clientId identity redirectUri scopes codeChallenge nonce provider
     assurance strength authenticatedAt issuedAt lifetime resource =
     (if StrongId_empty clientId \<or> StrongId_empty identity \<or> redirectUri = [] \<or> scopes = []
         \<or> lifetime \<le> 0 \<or> authenticatedAt > issuedAt
         \<or> (case nonce of None \<Rightarrow> False | Some v \<Rightarrow> \<not> validOpaque v 512)
         \<or> (case resource of None \<Rightarrow> False | Some v \<Rightarrow> \<not> validOpaque v 2048)
      then fail_msg InvalidArgument ''The authorization code state is invalid.''
      else Inr \<lparr>code_digest = digest, code_clientId = clientId, code_identity = identity,
                code_redirectUri = redirectUri, code_scopes = scopes,
                code_codeChallenge = codeChallenge, code_nonce = nonce, code_resource = resource,
                code_provider = provider, code_assurance = assurance, code_strength = strength,
                code_authenticatedAt = authenticatedAt, code_issuedAt = issuedAt,
                code_expiresAt = issuedAt + lifetime\<rparr>)"

definition AuthorizationCode_restore ::
    "CodeDigest \<Rightarrow> ClientId \<Rightarrow> IdentityId \<Rightarrow> string \<Rightarrow> Scope list \<Rightarrow> PkceChallenge \<Rightarrow> string option
     \<Rightarrow> ProviderId \<Rightarrow> AssuranceLevel \<Rightarrow> AuthenticationStrength \<Rightarrow> Instant \<Rightarrow> Instant \<Rightarrow> Instant
     \<Rightarrow> string option \<Rightarrow> AuthorizationCode Result" where
  "AuthorizationCode_restore digest clientId identity redirectUri scopes codeChallenge nonce provider
     assurance strength authenticatedAt issuedAt expiresAt resource =
     (if expiresAt \<le> issuedAt
      then fail_msg Internal ''Stored authorization code timestamps are invalid.''
      else (case AuthorizationCode_create digest clientId identity redirectUri scopes codeChallenge
                   nonce provider assurance strength authenticatedAt issuedAt (expiresAt - issuedAt)
                   resource of
              Inl e \<Rightarrow> fail_detail Internal ''Stored authorization code state is invalid.''
                         (err_message e)
            | Inr restored \<Rightarrow> Inr restored))"

definition code_expiredAt :: "AuthorizationCode \<Rightarrow> Instant \<Rightarrow> bool" where
  "code_expiredAt c now = (now \<ge> code_expiresAt c)"

section \<open>The code store\<close>

type_synonym CodeStore = "(string, AuthorizationCode) omap"

definition codes_add :: "AuthorizationCode \<Rightarrow> CodeStore \<Rightarrow> Status \<times> CodeStore" where
  "codes_add code m =
     (let key = toHex (code_digest code)
      in if omap_contains m key
         then (fail_msg AlreadyExists ''The authorization code already exists.'', m)
         else (ok, omap_emplace key code m))"

definition consumeBound ::
    "CodeDigest \<Rightarrow> Instant \<Rightarrow> string \<Rightarrow> string \<Rightarrow> string \<Rightarrow> CodeStore
     \<Rightarrow> AuthorizationCode Result \<times> CodeStore" where
  "consumeBound digest now expectedClientId expectedRedirectUri expectedCodeChallenge m =
     (case map_of m (toHex digest) of
        None \<Rightarrow> (fail_msg AuthenticationFailed ''The authorization grant is invalid.'', m)
      | Some code \<Rightarrow>
          if code_expiredAt code now
          then (fail_msg AuthenticationFailed ''The authorization grant is invalid.'',
                omap_erase (toHex digest) m)
          else if id_value (code_clientId code) \<noteq> expectedClientId
                  \<or> code_redirectUri code \<noteq> expectedRedirectUri
                  \<or> code_codeChallenge code \<noteq> expectedCodeChallenge
          then (fail_msg AuthenticationFailed ''The authorization grant is invalid.'', m)
          else (Inr code, omap_erase (toHex digest) m))"

section \<open>The service\<close>

definition verifierCharacter :: "char \<Rightarrow> bool" where
  "verifierCharacter c =
     (is_upper c \<or> is_lower c \<or> is_digit c \<or> c = CHR ''-'' \<or> c = CHR ''.'' \<or> c = CHR ''_''
      \<or> c = CHR ''~'')"

definition AuthorizationCodeKey_create :: "string \<Rightarrow> string Result" where
  "AuthorizationCodeKey_create key =
     (if length key < 32
      then fail_msg InvalidArgument ''An authorization-code key requires at least 32 bytes.''
      else Inr key)"

record AuthorizationGrant =
  grant_code :: string
  grant_redirectUri :: string
  grant_state :: "string option"

definition oauth_digest :: "env \<Rightarrow> string \<Rightarrow> string \<Rightarrow> CodeDigest Result" where
  "oauth_digest E key code =
     (if code = [] then fail_code AuthenticationFailed else hmacSha256 E key code)"

definition challengeForVerifier :: "env \<Rightarrow> string \<Rightarrow> PkceChallenge Result" where
  "challengeForVerifier E verifier =
     (if length verifier < 43 \<or> length verifier > 128 \<or> \<not> list_all verifierCharacter verifier
      then fail_msg AuthenticationFailed ''The authorization grant is invalid.''
      else (case sha256 E verifier of
              Inl e \<Rightarrow> Inl e
            | Inr digest \<Rightarrow> PkceChallenge_create (toBase64Url digest)))"

text \<open>
  What the service reads: the client and application registries, and its own key and lifetime.
  The constructor aborts on a lifetime that is not positive.
\<close>

record AuthorizationService =
  as_key :: string
  as_codeLifetime :: Duration

definition AuthorizationService_new :: "string \<Rightarrow> Duration \<Rightarrow> AuthorizationService option" where
  "AuthorizationService_new key codeLifetime =
     (if codeLifetime > 0 then Some \<lparr>as_key = key, as_codeLifetime = codeLifetime\<rparr> else None)"

definition authorize ::
    "env \<Rightarrow> AuthorizationService \<Rightarrow> ApplicationRepository \<Rightarrow> ClientRepository \<Rightarrow> Session
     \<Rightarrow> AuthorizationRequest \<Rightarrow> CodeStore \<Rightarrow> AuthorizationGrant Result \<times> CodeStore" where
  "authorize E svc apps clients session request m =
     (case requireActive apps (request_clientId request) clients of
        Inl e \<Rightarrow> (Inl e, m)
      | Inr client \<Rightarrow>
     (if \<not> Client_permitsRedirect client (request_redirectUri request)
         \<or> \<not> Client_permitsScopes client (request_scopes request)
      then (fail_msg InvalidArgument ''The authorization request is invalid.'', m)
      else
        let now = env_now E 0
        in if (case request_maximumAuthenticationAge request of
                 None \<Rightarrow> False
               | Some age \<Rightarrow> session_authenticatedAt session + age \<le> now)
           then (fail_msg AuthenticationRequired ''Fresh authentication is required.'', m)
           else
     (case randomTokenBase64Url E 0 32 of
        Inl e \<Rightarrow> (Inl e, m)
      | Inr generated \<Rightarrow>
     (case oauth_digest E (as_key svc) (''opa_'' @ generated) of
        Inl e \<Rightarrow> (Inl e, m)
      | Inr fingerprint \<Rightarrow>
     (case AuthorizationCode_create fingerprint (request_clientId request) (session_identity session)
             (request_redirectUri request) (request_scopes request) (request_codeChallenge request)
             (request_nonce request) (session_provider session) (session_assurance session)
             (session_strength session) (session_authenticatedAt session) now
             (as_codeLifetime svc) (request_resource request) of
        Inl e \<Rightarrow> (Inl e, m)
      | Inr code \<Rightarrow>
     (case codes_add code m of
        (Inl e, m') \<Rightarrow> (Inl e, m')
      | (Inr _, m') \<Rightarrow>
          (Inr \<lparr>grant_code = ''opa_'' @ generated,
                grant_redirectUri = request_redirectUri request,
                grant_state = request_state request\<rparr>, m')))))))"

text \<open>\<^verbatim>\<open>RedeemedAuthorization\<close> wraps the code that was consumed.\<close>

definition redeem ::
    "env \<Rightarrow> AuthorizationService \<Rightarrow> ApplicationRepository \<Rightarrow> ClientRepository \<Rightarrow> string \<Rightarrow> ClientId
     \<Rightarrow> string \<Rightarrow> string \<Rightarrow> CodeStore \<Rightarrow> AuthorizationCode Result \<times> CodeStore" where
  "redeem E svc apps clients code clientId redirectUri codeVerifier m =
     (case requireActive apps clientId clients of
        Inl _ \<Rightarrow> (fail_msg AuthenticationFailed ''The authorization grant is invalid.'', m)
      | Inr _ \<Rightarrow>
     (case challengeForVerifier E codeVerifier of
        Inl _ \<Rightarrow> (fail_msg AuthenticationFailed ''The authorization grant is invalid.'', m)
      | Inr expectedChallenge \<Rightarrow>
     (case oauth_digest E (as_key svc) code of
        Inl e \<Rightarrow> (Inl e, m)
      | Inr fingerprint \<Rightarrow>
          consumeBound fingerprint (env_now E 0) (id_value clientId) redirectUri expectedChallenge m)))"

section \<open>The store hands a code out once\<close>

datatype code_call =
    AddCode AuthorizationCode
  | ConsumeCode CodeDigest Instant string string string

datatype code_reply = AddCodeReply Status | ConsumeCodeReply "AuthorizationCode Result"

fun code_step :: "code_call \<Rightarrow> CodeStore \<Rightarrow> code_reply \<times> CodeStore" where
  "code_step (AddCode c) m = apfst AddCodeReply (codes_add c m)"
| "code_step (ConsumeCode d now cid uri challenge) m =
     apfst ConsumeCodeReply (consumeBound d now cid uri challenge m)"

definition codes_inv :: "CodeStore \<Rightarrow> bool" where
  "codes_inv m \<longleftrightarrow> omap_ok m \<and> (\<forall>k c. map_of m k = Some c \<longrightarrow> k = toHex (code_digest c))"

definition code_stored :: "CodeStore \<Rightarrow> CodeDigest \<Rightarrow> bool" where
  "code_stored m d = (map_of m (toHex d) \<noteq> None)"

fun code_redeems :: "CodeStore \<Rightarrow> code_call \<Rightarrow> CodeDigest \<Rightarrow> bool" where
  "code_redeems m (ConsumeCode d' now cid uri challenge) d =
     (d' = d \<and> succeeded (fst (consumeBound d' now cid uri challenge m)))"
| "code_redeems m _ d = False"

fun code_adds :: "CodeStore \<Rightarrow> code_call \<Rightarrow> CodeDigest \<Rightarrow> bool" where
  "code_adds m (AddCode c) d = (code_digest c = d \<and> succeeded (fst (codes_add c m)))"
| "code_adds m _ d = False"

lemma consumeBound_success:
  "consumeBound d now cid uri challenge m = (Inr c, m') \<longleftrightarrow>
     map_of m (toHex d) = Some c \<and> now < code_expiresAt c \<and> id_value (code_clientId c) = cid
     \<and> code_redirectUri c = uri \<and> code_codeChallenge c = challenge \<and> m' = omap_erase (toHex d) m"
  by (auto simp: consumeBound_def code_expiredAt_def fail_msg_def split: option.splits)

lemma consumeBound_state:
  "snd (consumeBound d now cid uri challenge m) \<in> {m, omap_erase (toHex d) m}"
  by (auto simp: consumeBound_def split: option.splits)

lemma codes_inv_step: "codes_inv m \<Longrightarrow> codes_inv (snd (code_step c m))"
proof (cases c)
  case (AddCode code)
  then show "codes_inv m \<Longrightarrow> ?thesis"
    by (auto simp: codes_inv_def codes_add_def Let_def omap_contains_def omap_ok_emplace
        om.find_emplace_new split: if_splits)
next
  case (ConsumeCode d now cid uri challenge)
  then show "codes_inv m \<Longrightarrow> ?thesis"
    using consumeBound_state [of d now cid uri challenge m]
    by (auto simp: codes_inv_def omap_ok_erase map_of_erase split: if_splits)
qed

interpretation codes: single_use_store code_step codes_inv code_stored code_redeems code_adds
proof
  fix m c d
  assume inv: "codes_inv m"
  then have ok: "omap_ok m" by (simp add: codes_inv_def)
  show "codes_inv (snd (code_step c m))" using inv by (rule codes_inv_step)
  show "code_stored m d" if "code_redeems m c d"
    using that by (cases c) (auto simp: code_stored_def consumeBound_def split: option.splits)
  show "\<not> code_stored (snd (code_step c m)) d" if redeem: "code_redeems m c d"
  proof (cases c)
    case (ConsumeCode d' now cid uri challenge)
    with redeem obtain code m' where consumed: "consumeBound d now cid uri challenge m = (Inr code, m')"
      and d': "d' = d"
      by (auto simp: succeeded_iff) (metis prod.collapse)
    then have "m' = omap_erase (toHex d) m"
      by (simp add: consumeBound_success)
    then show ?thesis
      using ConsumeCode ok consumed d' by (simp add: code_stored_def map_of_erase)
  qed (use redeem in simp)
  show "\<not> code_stored (snd (code_step c m)) d" if "\<not> code_stored m d" "\<not> code_adds m c d"
  proof (cases c)
    case (AddCode code)
    with that ok show ?thesis
      by (auto simp: code_stored_def codes_add_def Let_def store_simps
          toHex_inj split: if_splits)
  next
    case (ConsumeCode d' now cid uri challenge)
    with that ok show ?thesis
      using consumeBound_state [of d' now cid uri challenge m]
      by (auto simp: code_stored_def map_of_erase)
  qed
qed

section \<open>PKCE challenges\<close>

lemma alphabet_characters: "list_all base64UrlCharacter kBase64UrlAlphabet"
  by (simp add: kBase64UrlAlphabet_def base64UrlCharacter_def is_upper_def is_lower_def is_digit_def)

lemma PkceChallenge_of_digest:
  assumes "length h = 32"
  shows "PkceChallenge_create (toBase64Url h) = Inr (toBase64Url h)"
  using toBase64Url_symbols [of h] alphabet_characters length_toBase64Url_32 [OF assms]
  by (auto simp: PkceChallenge_create_def list_all_iff)

definition validVerifier :: "string \<Rightarrow> bool" where
  "validVerifier v \<longleftrightarrow> 43 \<le> length v \<and> length v \<le> 128 \<and> list_all verifierCharacter v"

lemma challengeForVerifier_Inr:
  "challengeForVerifier E v = Inr c \<longleftrightarrow>
     validVerifier v \<and> (\<exists>h. sha256 E v = Inr h \<and> c = toBase64Url h)"
proof -
  have "PkceChallenge_create (toBase64Url h) = Inr (toBase64Url h)" if "sha256 E v = Inr h" for h
    using sha256_length [OF that] by (rule PkceChallenge_of_digest)
  then show ?thesis
    by (auto simp: challengeForVerifier_def validVerifier_def not_less fail_msg_def split: sum.splits)
qed

section \<open>Properties\<close>

text \<open>
  C2. An authorization code is exchanged at most once: over every history of calls to the code
  store, whatever client, redirect or verifier is presented, a code is handed out at most as
  often as it was stored.
\<close>

theorem code_redeemed_once:
  "redemptions code_step code_redeems d calls [] \<le> additions code_step code_adds d calls []"
  using codes.redemptions_bounded [of "[]" d calls] by (simp add: codes_inv_def code_stored_def)


lemma authorize_success:
  assumes "authorize E svc apps clients s req m = (Inr g, m')"
  obtains client d c u where "requireActive apps (request_clientId req) clients = Inr client"
    "Client_permitsRedirect client (request_redirectUri req)"
    "Client_permitsScopes client (request_scopes req)"
    "oauth_digest E (as_key svc) (grant_code g) = Inr d" "codes_add c m = (Inr u, m')"
    "code_digest c = d" "code_clientId c = request_clientId req"
    "code_redirectUri c = request_redirectUri req" "code_scopes c = request_scopes req"
    "code_codeChallenge c = request_codeChallenge req" "code_identity c = session_identity s"
    "code_assurance c = session_assurance s" "code_authenticatedAt c = session_authenticatedAt s"
    "code_expiresAt c = env_now E 0 + as_codeLifetime svc" "grant_state g = request_state req"
proof -
  have create: "AuthorizationCode_create d (request_clientId req) (session_identity s)
      (request_redirectUri req) (request_scopes req) (request_codeChallenge req) nonce
      provider (session_assurance s) strength (session_authenticatedAt s) now lifetime resource = Inr c
    \<Longrightarrow> code_digest c = d \<and> code_clientId c = request_clientId req
      \<and> code_redirectUri c = request_redirectUri req \<and> code_scopes c = request_scopes req
      \<and> code_codeChallenge c = request_codeChallenge req \<and> code_identity c = session_identity s
      \<and> code_assurance c = session_assurance s \<and> code_authenticatedAt c = session_authenticatedAt s
      \<and> code_expiresAt c = now + lifetime" for d nonce provider strength now lifetime resource c
    by (auto simp: AuthorizationCode_create_def split: if_splits)
  show ?thesis
    using assms that
    by (auto simp: authorize_def Let_def split: sum.splits prod.splits if_splits dest!: create)
qed

text \<open>
  The code flow end to end: a code that \<^verbatim>\<open>authorize\<close> handed out is redeemed, before its
  deadline, by the same client with the same redirect URI and a verifier of the request's
  challenge; the result carries the identity and assurance of the session and exactly the
  requested scopes, all of them registered for the client; and a second exchange of the same
  code is refused whatever is presented.
\<close>

theorem code_flow:
  assumes "authorize E svc apps clients s req m = (Inr g, m')" "codes_inv m"
    and "challengeForVerifier E' verifier = Inr (request_codeChallenge req)"
    and "env_HMAC E' = env_HMAC E" "env_now E' 0 < env_now E 0 + as_codeLifetime svc"
  shows "\<exists>c m''. redeem E' svc apps clients (grant_code g) (request_clientId req)
        (request_redirectUri req) verifier m' = (Inr c, m'')
    \<and> code_identity c = session_identity s \<and> code_assurance c = session_assurance s
    \<and> code_scopes c = request_scopes req
    \<and> (\<exists>client. map_of clients (request_clientId req) = Some client
          \<and> Client_permitsScopes client (code_scopes c)
          \<and> Client_permitsRedirect client (code_redirectUri c))
    \<and> (\<nexists>E'' cid uri v. env_HMAC E'' = env_HMAC E
          \<and> succeeded (fst (redeem E'' svc apps clients (grant_code g) cid uri v m'')))"
proof -
  obtain client d c u where client: "requireActive apps (request_clientId req) clients = Inr client"
      "Client_permitsRedirect client (request_redirectUri req)"
      "Client_permitsScopes client (request_scopes req)"
    and d: "oauth_digest E (as_key svc) (grant_code g) = Inr d" and add: "codes_add c m = (Inr u, m')"
    and c: "code_digest c = d" "code_clientId c = request_clientId req"
      "code_redirectUri c = request_redirectUri req" "code_scopes c = request_scopes req"
      "code_codeChallenge c = request_codeChallenge req" "code_identity c = session_identity s"
      "code_assurance c = session_assurance s"
      "code_expiresAt c = env_now E 0 + as_codeLifetime svc"
    using authorize_success [OF assms(1)] .
  have digest: "oauth_digest E'' (as_key svc) (grant_code g) = Inr d" if "env_HMAC E'' = env_HMAC E" for E''
    using d unfolding oauth_digest_def hmac_HMAC [OF that] .
  have ok: "omap_ok m" using assms(2) by (simp add: codes_inv_def)
  have m': "map_of m' (toHex d) = Some c" "omap_ok m'"
    using add ok by (auto simp: codes_add_def Let_def c(1) store_simps
        omap_ok_emplace split: if_splits)
  let ?m'' = "omap_erase (toHex d) m'"
  have "redeem E' svc apps clients (grant_code g) (request_clientId req) (request_redirectUri req)
      verifier m' = (Inr c, ?m'')"
    using client(1) assms(3,5) m'(1) c
    by (simp add: redeem_def digest [OF assms(4)] consumeBound_success)
  moreover have "\<not> succeeded (fst (redeem E'' svc apps clients (grant_code g) cid uri v ?m''))"
    if "env_HMAC E'' = env_HMAC E" for E'' cid uri v
    using m'(2) by (auto simp: redeem_def digest [OF that] consumeBound_def map_of_erase
        split: sum.splits)
  moreover have "map_of clients (request_clientId req) = Some client"
    using client(1) by (auto simp: requireActive_def clients_findById_def applications_findById_def
        fail_msg_def split: option.splits if_splits)
  ultimately show ?thesis
    using client c by (intro exI [of _ c] exI [of _ ?m'']) auto
qed

definition sample_request :: AuthorizationRequest where
  "sample_request =
     \<lparr>request_clientId = sample_cid, request_redirectUri = ''http://127.0.0.1:8080/cb'',
      request_scopes = [''openid''], request_codeChallenge = toBase64Url (replicate 32 3),
      request_state = Some ''xyz'', request_nonce = None, request_maximumAuthenticationAge = None,
      request_resource = None, request_responseMode = Query\<rparr>"

definition sample_service :: AuthorizationService where
  "sample_service = \<lparr>as_key = replicate 32 (CHR ''k''), as_codeLifetime = 60\<rparr>"

lemma sample_active [simp]:
  "requireActive sample_apps sample_cid [(sample_cid, sample_client)] = Inr sample_client"
  by (simp add: requireActive_def clients_findById_def applications_findById_def sample_apps_def
      Client_permitsAuthorization_def clientPermitsAuthorization_def sample_client_def
      Application_permitsAuthorization_def applicationPermitsAuthorization_def)

lemma sample_oauth_digest:
  "oauth_digest sample_env (as_key sample_service) (''opa_'' @ t) = Inr (replicate 32 2)"
  by (simp add: oauth_digest_def hmacSha256_def sample_env_def sample_service_def int_max_def)

lemma sample_authorize:
  "fst (authorize sample_env sample_service sample_apps [(sample_cid, sample_client)] sample_old
     sample_request [])
   = Inr \<lparr>grant_code = ''opa_'' @ toBase64Url (replicate 32 0),
           grant_redirectUri = ''http://127.0.0.1:8080/cb'', grant_state = Some ''xyz''\<rparr>"
proof -
  have "Client_permitsRedirect sample_client (request_redirectUri sample_request)"
      "Client_permitsScopes sample_client (request_scopes sample_request)"
    by (simp_all add: Client_permitsRedirect_def Client_permitsScopes_def Client_permitsScope_def
        sample_client_def sample_request_def)
  moreover have cid: "request_clientId sample_request = sample_cid"
    by (simp only: sample_request_def AuthorizationRequest.simps)
  ultimately have "authorize sample_env sample_service sample_apps [(sample_cid, sample_client)] sample_old
      sample_request [] =
    (case AuthorizationCode_create (replicate 32 2) sample_cid (session_identity sample_old)
        ''http://127.0.0.1:8080/cb'' [''openid''] (toBase64Url (replicate 32 3)) None
        (session_provider sample_old) (session_assurance sample_old) (session_strength sample_old)
        (session_authenticatedAt sample_old) 100 60 None of
       Inl e \<Rightarrow> (Inl e, [])
     | Inr code \<Rightarrow>
         (case codes_add code [] of
            (Inl e, m') \<Rightarrow> (Inl e, m')
          | (Inr _, m') \<Rightarrow>
              (Inr \<lparr>grant_code = ''opa_'' @ toBase64Url (replicate 32 0),
                    grant_redirectUri = request_redirectUri sample_request,
                    grant_state = request_state sample_request\<rparr>, m')))"
    unfolding authorize_def cid sample_active sum.case
    by (simp add: sample_oauth_digest [simplified]) (simp add: sample_request_def sample_service_def)
  then show ?thesis
    by (simp add: AuthorizationCode_create_def sample_old_def sample_session_def Session_new_def
        codes_add_def omap_contains_def sample_request_def)
qed

lemma sample_verifier:
  "challengeForVerifier sample_env (replicate 43 (CHR ''a'')) = Inr (request_codeChallenge sample_request)"
  unfolding challengeForVerifier_Inr
  by (simp add: validVerifier_def sha256_def sample_env_def sample_request_def list_all_iff
      verifierCharacter_def is_upper_def is_lower_def)

theorem code_flow_witness:
  "\<exists>c m''. redeem sample_env sample_service sample_apps [(sample_cid, sample_client)]
      (''opa_'' @ toBase64Url (replicate 32 0)) sample_cid ''http://127.0.0.1:8080/cb''
      (replicate 43 (CHR ''a''))
      (snd (authorize sample_env sample_service sample_apps [(sample_cid, sample_client)] sample_old
         sample_request [])) = (Inr c, m'') \<and> code_scopes c = [''openid'']"
proof -
  let ?out = "authorize sample_env sample_service sample_apps [(sample_cid, sample_client)] sample_old
     sample_request []"
  have "?out = (Inr \<lparr>grant_code = ''opa_'' @ toBase64Url (replicate 32 0),
      grant_redirectUri = ''http://127.0.0.1:8080/cb'', grant_state = Some ''xyz''\<rparr>, snd ?out)"
    using sample_authorize by (simp add: prod_eq_iff)
  from code_flow [OF this _ sample_verifier] show ?thesis
    by (auto simp: codes_inv_def sample_service_def sample_request_def)
qed

end
