(* ===== verification/Device.thy ===== *)
theory Device
  imports OAuth
begin

text \<open>
  The device authorization grant (\<^verbatim>\<open>src/src/oauth/device.cpp\<close>): the ceremony aggregate, the
  store with its index from user codes to device codes, and the service. Durations are in
  milliseconds, as \<^verbatim>\<open>foundation::Duration\<close>.
\<close>

definition normalizeScopes :: "Scope list \<Rightarrow> Scope list Result" where
  "normalizeScopes scopes =
     (if scopes = [] \<or> length scopes > 256
      then fail_msg InvalidArgument ''Device authorization requires scopes.''
      else if adjacent_find (sort scopes)
      then fail_msg InvalidArgument ''Device authorization scopes must be unique.''
      else Inr (sort scopes))"

datatype DeviceAuthorizationStatus = Pending | Approved | Denied | Consumed

record DeviceAuthorization =
  dev_deviceCode :: "byte list"
  dev_userCode :: "byte list"
  dev_clientId :: ClientId
  dev_scopes :: "Scope list"
  dev_resource :: "string option"
  dev_issuedAt :: Instant
  dev_expiresAt :: Instant
  dev_pollInterval :: Duration
  dev_status :: DeviceAuthorizationStatus
  dev_identity :: "IdentityId option"
  dev_provider :: "ProviderId option"
  dev_assurance :: "AssuranceLevel option"
  dev_strength :: "AuthenticationStrength option"
  dev_authenticatedAt :: "Instant option"
  dev_lastPollAt :: "Instant option"

definition Device_restore ::
    "byte list \<Rightarrow> byte list \<Rightarrow> ClientId \<Rightarrow> Scope list \<Rightarrow> string option \<Rightarrow> Instant \<Rightarrow> Instant \<Rightarrow> Duration
     \<Rightarrow> DeviceAuthorizationStatus \<Rightarrow> IdentityId option \<Rightarrow> ProviderId option \<Rightarrow> AssuranceLevel option
     \<Rightarrow> AuthenticationStrength option \<Rightarrow> Instant option \<Rightarrow> Instant option \<Rightarrow> DeviceAuthorization Result" where
  "Device_restore deviceCode userCode clientId scopes resource issuedAt expiresAt pollInterval status
     identity provider assurance strength authenticatedAt lastPollAt =
     (let approvedClaims = (identity \<noteq> None \<and> provider \<noteq> None \<and> assurance \<noteq> None \<and> strength \<noteq> None
                            \<and> authenticatedAt \<noteq> None)
      in case normalizeScopes scopes of
           Inl _ \<Rightarrow> fail_msg InvalidArgument ''The device authorization record is invalid.''
         | Inr normalized \<Rightarrow>
             if StrongId_empty clientId \<or> expiresAt \<le> issuedAt \<or> pollInterval \<le> 0
                \<or> (case resource of None \<Rightarrow> False | Some v \<Rightarrow> v = [] \<or> length v > 2048)
                \<or> ((status = Approved \<or> status = Consumed) \<and> \<not> approvedClaims)
                \<or> (status = Pending \<and> approvedClaims)
             then fail_msg InvalidArgument ''The device authorization record is invalid.''
             else Inr \<lparr>dev_deviceCode = deviceCode, dev_userCode = userCode, dev_clientId = clientId,
                       dev_scopes = normalized, dev_resource = resource, dev_issuedAt = issuedAt,
                       dev_expiresAt = expiresAt, dev_pollInterval = pollInterval,
                       dev_status = status, dev_identity = identity, dev_provider = provider,
                       dev_assurance = assurance, dev_strength = strength,
                       dev_authenticatedAt = authenticatedAt, dev_lastPollAt = lastPollAt\<rparr>)"

definition Device_create ::
    "byte list \<Rightarrow> byte list \<Rightarrow> ClientId \<Rightarrow> Scope list \<Rightarrow> string option \<Rightarrow> Instant \<Rightarrow> Duration \<Rightarrow> Duration
     \<Rightarrow> DeviceAuthorization Result" where
  "Device_create deviceCode userCode clientId scopes resource issuedAt lifetime pollInterval =
     (if lifetime \<le> 0 \<or> pollInterval \<le> 0
      then fail_msg InvalidArgument ''Device authorization timing policy is invalid.''
      else Device_restore deviceCode userCode clientId scopes resource issuedAt (issuedAt + lifetime)
             pollInterval Pending None None None None None None)"

definition dev_expiredAt :: "DeviceAuthorization \<Rightarrow> Instant \<Rightarrow> bool" where
  "dev_expiredAt a now = (now \<ge> dev_expiresAt a)"

definition Device_approve :: "Session \<Rightarrow> Instant \<Rightarrow> DeviceAuthorization \<Rightarrow> Status \<times> DeviceAuthorization" where
  "Device_approve session now a =
     (if dev_status a \<noteq> Pending \<or> dev_expiredAt a now
      then (fail_msg FailedPrecondition ''The device authorization cannot be approved.'', a)
      else (ok, a\<lparr>dev_identity := Some (session_identity session),
                  dev_provider := Some (session_provider session),
                  dev_assurance := Some (session_assurance session),
                  dev_strength := Some (session_strength session),
                  dev_authenticatedAt := Some (session_authenticatedAt session),
                  dev_status := Approved\<rparr>))"

definition Device_deny :: "Instant \<Rightarrow> DeviceAuthorization \<Rightarrow> Status \<times> DeviceAuthorization" where
  "Device_deny now a =
     (if dev_status a \<noteq> Pending \<or> dev_expiredAt a now
      then (fail_msg FailedPrecondition ''The device authorization cannot be denied.'', a)
      else (ok, a\<lparr>dev_status := Denied\<rparr>))"

definition Device_markPolled :: "Instant \<Rightarrow> DeviceAuthorization \<Rightarrow> Status \<times> DeviceAuthorization" where
  "Device_markPolled now a =
     (if dev_expiredAt a now \<or> dev_status a = Consumed then (fail_code FailedPrecondition, a)
      else (ok, a\<lparr>dev_lastPollAt := Some now\<rparr>))"

definition Device_slowDown :: "Instant \<Rightarrow> DeviceAuthorization \<Rightarrow> Status \<times> DeviceAuthorization" where
  "Device_slowDown now a =
     (if dev_expiredAt a now \<or> dev_status a = Consumed then (fail_code FailedPrecondition, a)
      else (ok, a\<lparr>dev_pollInterval := dev_pollInterval a + 5000, dev_lastPollAt := Some now\<rparr>))"

definition Device_consume :: "Instant \<Rightarrow> DeviceAuthorization \<Rightarrow> Status \<times> DeviceAuthorization" where
  "Device_consume now a =
     (if dev_expiredAt a now \<or> dev_status a \<noteq> Approved
      then (fail_msg FailedPrecondition ''The device authorization cannot be consumed.'', a)
      else (ok, a\<lparr>dev_status := Consumed, dev_lastPollAt := Some now\<rparr>))"

section \<open>The store\<close>

datatype DevicePollDisposition =
  PollPending | PollSlowDown | PollDenied | PollExpired | PollApproved

record DevicePollResult =
  poll_disposition :: DevicePollDisposition
  poll_authorization :: "DeviceAuthorization option"
  poll_retryAfter :: Duration

record DeviceStore =
  ds_byDevice :: "(string, DeviceAuthorization) omap"
  ds_userToDevice :: "(string, string) omap"

definition empty_devices :: DeviceStore where
  "empty_devices = \<lparr>ds_byDevice = [], ds_userToDevice = []\<rparr>"

definition devices_add :: "DeviceAuthorization \<Rightarrow> DeviceStore \<Rightarrow> Status \<times> DeviceStore" where
  "devices_add a r =
     (let device = toHex (dev_deviceCode a); user = toHex (dev_userCode a)
      in if omap_contains (ds_byDevice r) device \<or> omap_contains (ds_userToDevice r) user
         then (fail_code AlreadyExists, r)
         else (ok, \<lparr>ds_byDevice = omap_emplace device a (ds_byDevice r),
                    ds_userToDevice = omap_emplace user device (ds_userToDevice r)\<rparr>))"

definition devices_findByUserCode ::
    "byte list \<Rightarrow> Instant \<Rightarrow> DeviceStore \<Rightarrow> DeviceAuthorization Result" where
  "devices_findByUserCode userCode now r =
     (case map_of (ds_userToDevice r) (toHex userCode) of
        None \<Rightarrow> fail_code NotFound
      | Some device \<Rightarrow>
          (case map_of (ds_byDevice r) device of
             None \<Rightarrow> fail_code NotFound
           | Some a \<Rightarrow>
               if dev_expiredAt a now \<or> dev_status a \<noteq> Pending then fail_code NotFound else Inr a))"

definition devices_approve ::
    "byte list \<Rightarrow> Session \<Rightarrow> Instant \<Rightarrow> DeviceStore \<Rightarrow> DeviceAuthorization Result \<times> DeviceStore" where
  "devices_approve userCode session now r =
     (case map_of (ds_userToDevice r) (toHex userCode) of
        None \<Rightarrow> (fail_code NotFound, r)
      | Some device \<Rightarrow>
          (case map_of (ds_byDevice r) device of
             None \<Rightarrow> (fail_code NotFound, r)
           | Some a \<Rightarrow>
               (case Device_approve session now a of
                  (Inl e, _) \<Rightarrow> (Inl e, r)
                | (Inr _, a') \<Rightarrow>
                    (Inr a', r\<lparr>ds_byDevice := omap_modify device (\<lambda>_. a') (ds_byDevice r)\<rparr>))))"

definition devices_deny ::
    "byte list \<Rightarrow> Instant \<Rightarrow> DeviceStore \<Rightarrow> Status \<times> DeviceStore" where
  "devices_deny userCode now r =
     (case map_of (ds_userToDevice r) (toHex userCode) of
        None \<Rightarrow> (fail_code NotFound, r)
      | Some device \<Rightarrow>
          (case map_of (ds_byDevice r) device of
             None \<Rightarrow> (fail_code NotFound, r)
           | Some a \<Rightarrow>
               (case Device_deny now a of
                  (Inl e, _) \<Rightarrow> (Inl e, r)
                | (Inr _, a') \<Rightarrow>
                    (ok, r\<lparr>ds_byDevice := omap_modify device (\<lambda>_. a') (ds_byDevice r)\<rparr>))))"

definition devices_poll ::
    "byte list \<Rightarrow> ClientId \<Rightarrow> Instant \<Rightarrow> DeviceStore \<Rightarrow> DevicePollResult Result \<times> DeviceStore" where
  "devices_poll deviceCode expectedClient now r =
     (case map_of (ds_byDevice r) (toHex deviceCode) of
        None \<Rightarrow> (fail_code NotFound, r)
      | Some a \<Rightarrow>
          if dev_clientId a \<noteq> expectedClient
          then (fail_msg AuthenticationFailed ''The device code is not bound to this client.'', r)
          else if dev_expiredAt a now
          then (Inr \<lparr>poll_disposition = PollExpired, poll_authorization = None,
                     poll_retryAfter = dev_pollInterval a\<rparr>, r)
          else if dev_status a = Denied
          then (Inr \<lparr>poll_disposition = PollDenied, poll_authorization = None,
                     poll_retryAfter = dev_pollInterval a\<rparr>, r)
          else if dev_status a = Consumed
          then (fail_msg AuthenticationFailed ''The device code has already been consumed.'', r)
          else if (case dev_lastPollAt a of None \<Rightarrow> False | Some t \<Rightarrow> now < t + dev_pollInterval a)
          then (case Device_slowDown now a of
                  (Inl e, _) \<Rightarrow> (Inl e, r)
                | (Inr _, a') \<Rightarrow>
                    (Inr \<lparr>poll_disposition = PollSlowDown, poll_authorization = None,
                          poll_retryAfter = dev_pollInterval a'\<rparr>,
                     r\<lparr>ds_byDevice := omap_modify (toHex deviceCode) (\<lambda>_. a') (ds_byDevice r)\<rparr>))
          else if dev_status a = Approved
          then (case Device_consume now a of
                  (Inl e, _) \<Rightarrow> (Inl e, r)
                | (Inr _, a') \<Rightarrow>
                    (Inr \<lparr>poll_disposition = PollApproved, poll_authorization = Some a',
                          poll_retryAfter = dev_pollInterval a'\<rparr>,
                     r\<lparr>ds_byDevice := omap_modify (toHex deviceCode) (\<lambda>_. a') (ds_byDevice r)\<rparr>))
          else (case Device_markPolled now a of
                  (Inl e, _) \<Rightarrow> (Inl e, r)
                | (Inr _, a') \<Rightarrow>
                    (Inr \<lparr>poll_disposition = PollPending, poll_authorization = None,
                          poll_retryAfter = dev_pollInterval a'\<rparr>,
                     r\<lparr>ds_byDevice := omap_modify (toHex deviceCode) (\<lambda>_. a') (ds_byDevice r)\<rparr>)))"

section \<open>The service\<close>

definition DeviceAuthorizationKey_create :: "string \<Rightarrow> string Result" where
  "DeviceAuthorizationKey_create secret =
     (if length secret < 32
      then fail_msg InvalidArgument ''A device authorization key requires at least 32 bytes.''
      else Inr secret)"

record DeviceService =
  dsvc_key :: string
  dsvc_lifetime :: Duration
  dsvc_pollInterval :: Duration

definition DeviceService_new :: "string \<Rightarrow> Duration \<Rightarrow> Duration \<Rightarrow> DeviceService option" where
  "DeviceService_new key lifetime pollInterval =
     (if lifetime > 0 \<and> pollInterval \<ge> 1000
      then Some \<lparr>dsvc_key = key, dsvc_lifetime = lifetime, dsvc_pollInterval = pollInterval\<rparr>
      else None)"

record DeviceGrant =
  dgrant_deviceCode :: string
  dgrant_userCode :: string
  dgrant_expiresIn :: Duration
  dgrant_interval :: Duration

definition digestDevice :: "env \<Rightarrow> DeviceService \<Rightarrow> string \<Rightarrow> byte list Result" where
  "digestDevice E svc code = hmacSha256 E (dsvc_key svc) code"

definition digestUser :: "env \<Rightarrow> DeviceService \<Rightarrow> string \<Rightarrow> byte list Result" where
  "digestUser E svc code = hmacSha256 E (dsvc_key svc) code"

definition user_alphabet :: string where
  "user_alphabet = ''BCDFGHJKLMNPQRSTVWXYZ23456789''"

text \<open>The loop appends one symbol per byte and a dash before the fifth.\<close>

fun user_code_loop :: "nat \<Rightarrow> byte list \<Rightarrow> string" where
  "user_code_loop index [] = []"
| "user_code_loop index (b # bs) =
     (if index = 4 then [CHR ''-''] else [])
     @ [user_alphabet ! (unat b mod length user_alphabet)] @ user_code_loop (Suc index) bs"

definition generateUserCode :: "env \<Rightarrow> nat \<Rightarrow> string Result" where
  "generateUserCode E i =
     (case randomBytes E i 8 of Inl e \<Rightarrow> Inl e | Inr random \<Rightarrow> Inr (user_code_loop 0 random))"

definition device_begin ::
    "env \<Rightarrow> DeviceService \<Rightarrow> ApplicationRepository \<Rightarrow> ClientRepository \<Rightarrow> ClientId \<Rightarrow> Scope list
     \<Rightarrow> string option \<Rightarrow> DeviceStore \<Rightarrow> DeviceGrant Result \<times> DeviceStore" where
  "device_begin E svc apps clients clientId scopes resource r =
     (if (case requireActive apps clientId clients of
            Inl _ \<Rightarrow> True
          | Inr active \<Rightarrow> \<not> Client_permitsScopes active scopes)
      then (fail_msg PermissionDenied ''The client cannot request this device grant.'', r)
      else
     (case randomTokenBase64Url E 0 32 of
        Inl e \<Rightarrow> (Inl e, r)
      | Inr deviceRandom \<Rightarrow>
     (case generateUserCode E 1 of
        Inl e \<Rightarrow> (Inl e, r)
      | Inr userCode \<Rightarrow>
     (case digestDevice E svc (''opd_'' @ deviceRandom) of
        Inl e \<Rightarrow> (Inl e, r)
      | Inr deviceDigest \<Rightarrow>
     (case digestUser E svc userCode of
        Inl e \<Rightarrow> (Inl e, r)
      | Inr userDigest \<Rightarrow>
     (case Device_create deviceDigest userDigest clientId scopes resource (env_now E 0)
             (dsvc_lifetime svc) (dsvc_pollInterval svc) of
        Inl e \<Rightarrow> (Inl e, r)
      | Inr a \<Rightarrow>
     (case devices_add a r of
        (Inl e, r') \<Rightarrow> (Inl e, r')
      | (Inr _, r') \<Rightarrow>
          (Inr \<lparr>dgrant_deviceCode = ''opd_'' @ deviceRandom, dgrant_userCode = userCode,
                dgrant_expiresIn = dsvc_lifetime svc, dgrant_interval = dsvc_pollInterval svc\<rparr>,
           r'))))))))"

definition device_find ::
    "env \<Rightarrow> DeviceService \<Rightarrow> string \<Rightarrow> DeviceStore \<Rightarrow> DeviceAuthorization Result" where
  "device_find E svc userCode r =
     (case digestUser E svc userCode of
        Inl e \<Rightarrow> Inl e
      | Inr digest \<Rightarrow> devices_findByUserCode digest (env_now E 0) r)"

definition device_approve ::
    "env \<Rightarrow> DeviceService \<Rightarrow> string \<Rightarrow> Session \<Rightarrow> DeviceStore \<Rightarrow> DeviceAuthorization Result \<times> DeviceStore" where
  "device_approve E svc userCode session r =
     (case digestUser E svc userCode of
        Inl e \<Rightarrow> (Inl e, r)
      | Inr digest \<Rightarrow> devices_approve digest session (env_now E 0) r)"

definition device_deny ::
    "env \<Rightarrow> DeviceService \<Rightarrow> string \<Rightarrow> DeviceStore \<Rightarrow> Status \<times> DeviceStore" where
  "device_deny E svc userCode r =
     (case digestUser E svc userCode of
        Inl e \<Rightarrow> (Inl e, r)
      | Inr digest \<Rightarrow> devices_deny digest (env_now E 0) r)"

definition device_poll ::
    "env \<Rightarrow> DeviceService \<Rightarrow> string \<Rightarrow> ClientId \<Rightarrow> DeviceStore \<Rightarrow> DevicePollResult Result \<times> DeviceStore" where
  "device_poll E svc deviceCode expectedClient r =
     (case digestDevice E svc deviceCode of
        Inl e \<Rightarrow> (Inl e, r)
      | Inr digest \<Rightarrow> devices_poll digest expectedClient (env_now E 0) r)"

section \<open>Every history of calls\<close>

datatype device_call =
    AddDevice DeviceAuthorization
  | ApproveDevice "byte list" Session Instant
  | DenyDevice "byte list" Instant
  | PollDevice "byte list" ClientId Instant

datatype device_reply =
    DeviceStatusReply Status
  | DeviceReply "DeviceAuthorization Result"
  | PollReply "DevicePollResult Result"

fun device_step :: "device_call \<Rightarrow> DeviceStore \<Rightarrow> device_reply \<times> DeviceStore" where
  "device_step (AddDevice a) r = apfst DeviceStatusReply (devices_add a r)"
| "device_step (ApproveDevice u s now) r = apfst DeviceReply (devices_approve u s now r)"
| "device_step (DenyDevice u now) r = apfst DeviceStatusReply (devices_deny u now r)"
| "device_step (PollDevice d cid now) r = apfst PollReply (devices_poll d cid now r)"

abbreviation devices_after :: "device_call list \<Rightarrow> DeviceStore" where
  "devices_after cs \<equiv> final_state device_step cs empty_devices"

definition devices_inv :: "DeviceStore \<Rightarrow> bool" where
  "devices_inv r \<longleftrightarrow>
     omap_ok (ds_byDevice r) \<and> omap_ok (ds_userToDevice r)
     \<and> (\<forall>k a. map_of (ds_byDevice r) k = Some a \<longrightarrow> k = toHex (dev_deviceCode a))
     \<and> exact_index (\<lambda>a. toHex (dev_userCode a)) (map_of (ds_byDevice r)) (map_of (ds_userToDevice r))"

lemma devices_invD:
  assumes "devices_inv r"
  shows "omap_ok (ds_byDevice r)" "omap_ok (ds_userToDevice r)"
    and "map_of (ds_byDevice r) k = Some a \<Longrightarrow> k = toHex (dev_deviceCode a)"
    and "exact_index (\<lambda>a. toHex (dev_userCode a)) (map_of (ds_byDevice r)) (map_of (ds_userToDevice r))"
  using assms unfolding devices_inv_def by blast+

text \<open>
  What one call can do to the store: leave it, file a new ceremony, or replace one ceremony by a
  legal successor. \<open>dev_successor\<close> lists the successors.
\<close>

definition dev_successor :: "device_call \<Rightarrow> DeviceAuthorization \<Rightarrow> DeviceAuthorization \<Rightarrow> bool" where
  "dev_successor c a a' \<longleftrightarrow>
     dev_deviceCode a' = dev_deviceCode a \<and> dev_userCode a' = dev_userCode a
     \<and> dev_clientId a' = dev_clientId a
     \<and> ((\<exists>s now. c = ApproveDevice (dev_userCode a) s now \<and> dev_status a = Pending
            \<and> dev_status a' = Approved \<and> dev_identity a' = Some (session_identity s)
            \<and> dev_assurance a' = Some (session_assurance s))
        \<or> dev_identity a' = dev_identity a \<and> dev_assurance a' = dev_assurance a
            \<and> (dev_status a' = dev_status a
               \<or> dev_status a = Pending \<and> dev_status a' = Denied
               \<or> dev_status a = Approved \<and> dev_status a' = Consumed))"

lemma dev_successors:
  "Device_approve s now a = (Inr u, a') \<Longrightarrow> dev_successor (ApproveDevice (dev_userCode a) s now) a a'"
  "Device_deny now a = (Inr u, a') \<Longrightarrow> dev_successor c a a'"
  "Device_markPolled now a = (Inr u, a') \<Longrightarrow> dev_successor c a a'"
  "Device_slowDown now a = (Inr u, a') \<Longrightarrow> dev_successor c a a'"
  "Device_consume now a = (Inr u, a') \<Longrightarrow> dev_successor c a a'"
  by (auto simp: Device_approve_def Device_deny_def Device_markPolled_def Device_slowDown_def
      Device_consume_def dev_successor_def split: if_splits)

definition replaces :: "device_call \<Rightarrow> DeviceStore \<Rightarrow> DeviceStore \<Rightarrow> bool" where
  "replaces c r r' \<longleftrightarrow>
     (\<exists>k a a'. map_of (ds_byDevice r) k = Some a \<and> dev_successor c a a'
        \<and> r' = r\<lparr>ds_byDevice := omap_modify k (\<lambda>_. a') (ds_byDevice r)\<rparr>)"

lemma replacesI:
  "map_of (ds_byDevice r) k = Some a \<Longrightarrow> dev_successor c a a' \<Longrightarrow>
   replaces c r (r\<lparr>ds_byDevice := omap_modify k (\<lambda>_. a') (ds_byDevice r)\<rparr>)"
  unfolding replaces_def by blast

lemma devices_approve_cases:
  assumes "devices_inv r"
  shows "snd (devices_approve u s now r) = r
    \<or> replaces (ApproveDevice u s now) r (snd (devices_approve u s now r))"
proof (cases "map_of (ds_userToDevice r) (toHex u)")
  case None
  then show ?thesis by (simp add: devices_approve_def)
next
  case (Some k)
  then obtain a where a: "map_of (ds_byDevice r) k = Some a" "toHex (dev_userCode a) = toHex u"
    using exact_index_target [OF devices_invD(4) [OF assms]] by blast
  then have "dev_userCode a = u" by (simp add: toHex_inj)
  with dev_successors(1) have "dev_successor (ApproveDevice u s now) a a'"
    if "Device_approve s now a = (Inr x, a')" for x a' using that by blast
  with Some a(1) show ?thesis
    by (auto simp: devices_approve_def intro!: replacesI split: prod.splits sum.splits)
qed

lemma devices_deny_cases:
  "snd (devices_deny u now r) = r \<or> replaces (DenyDevice u now) r (snd (devices_deny u now r))"
  by (auto simp: devices_deny_def split: option.splits prod.splits sum.splits
      intro!: replacesI dev_successors(2))

lemma devices_poll_cases:
  "snd (devices_poll d cid now r) = r
   \<or> replaces (PollDevice d cid now) r (snd (devices_poll d cid now r))"
  by (auto simp: devices_poll_def split: option.splits prod.splits sum.splits
      intro!: replacesI intro: dev_successors)

lemma device_step_cases:
  assumes "devices_inv r"
  obtains (same) "snd (device_step c r) = r"
  | (added) a where "c = AddDevice a" "map_of (ds_byDevice r) (toHex (dev_deviceCode a)) = None"
      "map_of (ds_userToDevice r) (toHex (dev_userCode a)) = None" "succeeded (fst (devices_add a r))"
      "snd (device_step c r) =
         \<lparr>ds_byDevice = omap_emplace (toHex (dev_deviceCode a)) a (ds_byDevice r),
          ds_userToDevice = omap_emplace (toHex (dev_userCode a)) (toHex (dev_deviceCode a))
            (ds_userToDevice r)\<rparr>"
  | (changed) k a a' where "map_of (ds_byDevice r) k = Some a" "dev_successor c a a'"
      "snd (device_step c r) = r\<lparr>ds_byDevice := omap_modify k (\<lambda>_. a') (ds_byDevice r)\<rparr>"
proof (cases c)
  case (AddDevice a)
  show ?thesis
  proof (cases "omap_contains (ds_byDevice r) (toHex (dev_deviceCode a))
      \<or> omap_contains (ds_userToDevice r) (toHex (dev_userCode a))")
    case True
    with AddDevice that(1) show ?thesis by (simp add: devices_add_def)
  next
    case False
    with AddDevice show ?thesis
      by (intro that(2) [of a]) (simp_all add: devices_add_def omap_contains_def Let_def)
  qed
next
  case (ApproveDevice u s now)
  then show ?thesis
    using devices_approve_cases [OF assms, of u s now] that(1,3) by (auto simp: replaces_def)
next
  case (DenyDevice u now)
  then show ?thesis
    using devices_deny_cases [of u now r] that(1,3) by (auto simp: replaces_def)
next
  case (PollDevice d cid now)
  then show ?thesis
    using devices_poll_cases [of d cid now r] that(1,3) by (auto simp: replaces_def)
qed

lemma devices_step_inv:
  assumes "devices_inv r"
  shows "devices_inv (snd (device_step c r))"
  using assms
proof (cases rule: device_step_cases [of r c, case_names same added changed])
  case (added a)
  note ok = devices_invD [OF assms]
  have "exact_index (\<lambda>a. toHex (dev_userCode a))
      ((map_of (ds_byDevice r))(toHex (dev_deviceCode a) \<mapsto> a))
      ((map_of (ds_userToDevice r))(toHex (dev_userCode a) \<mapsto> toHex (dev_deviceCode a)))"
    by (rule exact_index_add [OF ok(4) added(2,3)])
  with added ok show ?thesis
    by (auto simp: devices_inv_def om.find_emplace_new omap_ok_emplace)
next
  case (changed k a a')
  note ok = devices_invD [OF assms]
  have "toHex (dev_userCode a') = toHex (dev_userCode a)" "dev_deviceCode a' = dev_deviceCode a"
    using changed(2) by (auto simp: dev_successor_def)
  with ok changed exact_index_update [OF ok(4) changed(1), of a'] show ?thesis
    by (auto simp: devices_inv_def map_of_modify split: if_splits)
qed (use assms in simp)

interpretation devices: guarded_machine device_step devices_inv
  by unfold_locales (rule devices_step_inv)

lemma devices_after_inv [simp]: "devices_inv (devices_after cs)"
  by (rule devices.run_inv) (simp add: devices_inv_def empty_devices_def)

section \<open>A device code yields one authorization\<close>

definition dev_open :: "DeviceStore \<Rightarrow> byte list \<Rightarrow> bool" where
  "dev_open r d = (\<exists>a. map_of (ds_byDevice r) (toHex d) = Some a
      \<and> (dev_status a = Pending \<or> dev_status a = Approved))"

definition poll_approved :: "DevicePollResult Result \<Rightarrow> bool" where
  "poll_approved res = (case res of Inl _ \<Rightarrow> False | Inr p \<Rightarrow> poll_disposition p = PollApproved)"

fun dev_redeems :: "DeviceStore \<Rightarrow> device_call \<Rightarrow> byte list \<Rightarrow> bool" where
  "dev_redeems r (PollDevice d' cid now) d = (d' = d \<and> poll_approved (fst (devices_poll d' cid now r)))"
| "dev_redeems r _ d = False"

fun dev_adds :: "DeviceStore \<Rightarrow> device_call \<Rightarrow> byte list \<Rightarrow> bool" where
  "dev_adds r (AddDevice a) d = (dev_deviceCode a = d \<and> succeeded (fst (devices_add a r)))"
| "dev_adds r _ d = False"

lemma poll_approved_iff:
  "devices_poll d cid now r = (Inr p, r') \<and> poll_disposition p = PollApproved \<longleftrightarrow>
     (\<exists>a. map_of (ds_byDevice r) (toHex d) = Some a \<and> dev_clientId a = cid \<and> now < dev_expiresAt a
        \<and> dev_status a = Approved
        \<and> (\<forall>t. dev_lastPollAt a = Some t \<longrightarrow> t + dev_pollInterval a \<le> now)
        \<and> p = \<lparr>poll_disposition = PollApproved,
              poll_authorization = Some (a\<lparr>dev_status := Consumed, dev_lastPollAt := Some now\<rparr>),
              poll_retryAfter = dev_pollInterval a\<rparr>
        \<and> r' = r\<lparr>ds_byDevice := omap_modify (toHex d)
                 (\<lambda>_. a\<lparr>dev_status := Consumed, dev_lastPollAt := Some now\<rparr>) (ds_byDevice r)\<rparr>)"
    (is "?L \<longleftrightarrow> ?R")
proof
  assume ?L
  then show ?R
    by (auto simp: devices_poll_def Device_slowDown_def Device_consume_def Device_markPolled_def
        dev_expiredAt_def not_le not_less split: option.splits if_splits)
next
  assume ?R
  then show ?L
    by (auto simp: devices_poll_def Device_consume_def dev_expiredAt_def not_le not_less
        split: option.splits)
qed

interpretation device_codes: single_use_store device_step devices_inv dev_open dev_redeems dev_adds
proof
  fix r c d
  assume inv: "devices_inv r"
  note ok = devices_invD [OF inv]
  show "devices_inv (snd (device_step c r))" using inv by (rule devices_step_inv)
  have poll: "\<exists>p r'. devices_poll d cid now r = (Inr p, r') \<and> poll_disposition p = PollApproved"
    if "c = PollDevice d cid now" "dev_redeems r c d" for cid now
    using that by (auto simp: poll_approved_def split: sum.splits) (metis prod.collapse)
  show "dev_open r d" if "dev_redeems r c d"
    using that poll by (cases c) (auto simp: poll_approved_iff dev_open_def)
  show "\<not> dev_open (snd (device_step c r)) d" if redeem: "dev_redeems r c d"
  proof (cases c)
    case (PollDevice d' cid now)
    then have c: "c = PollDevice d cid now" using redeem by simp
    obtain p r' where p: "devices_poll d cid now r = (Inr p, r') \<and> poll_disposition p = PollApproved"
      using poll [OF c redeem] by blast
    then have "\<not> dev_open r' d"
      unfolding poll_approved_iff by (auto simp: dev_open_def map_of_modify)
    with p c show ?thesis by simp
  qed (use redeem in simp_all)
  show "\<not> dev_open (snd (device_step c r)) d" if "\<not> dev_open r d" "\<not> dev_adds r c d"
    using inv
  proof (cases rule: device_step_cases [of r c, case_names same added changed])
    case (added a)
    with that ok show ?thesis
      by (auto simp: dev_open_def om.find_emplace_new toHex_inj split: if_splits)
  next
    case (changed k a a')
    with that show ?thesis
      by (auto simp: dev_open_def map_of_modify dev_successor_def split: if_splits)
  qed (use that in simp)
qed

section \<open>Where an approved identity comes from\<close>

fun adds_pending :: "device_call \<Rightarrow> bool" where
  "adds_pending (AddDevice a) = (dev_status a = Pending)"
| "adds_pending _ = True"

definition approved_by :: "device_call list \<Rightarrow> DeviceAuthorization \<Rightarrow> bool" where
  "approved_by cs a \<longleftrightarrow>
     (\<exists>s now. ApproveDevice (dev_userCode a) s now \<in> set cs
        \<and> dev_identity a = Some (session_identity s) \<and> dev_assurance a = Some (session_assurance s))"

lemma approvals_recorded:
  assumes "list_all adds_pending cs" "map_of (ds_byDevice (devices_after cs)) k = Some a"
    and "dev_status a = Approved \<or> dev_status a = Consumed"
  shows "approved_by cs a"
  using assms
proof (induction cs arbitrary: k a rule: rev_induct)
  case Nil
  then show ?case by (simp add: empty_devices_def)
next
  case (snoc c cs)
  let ?r = "devices_after cs"
  have pending: "list_all adds_pending cs" "adds_pending c"
    using snoc.prems(1) by simp_all
  have later: "approved_by (cs @ [c]) a" if "approved_by cs a" for a
    using that by (auto simp: approved_by_def)
  have stored: "map_of (ds_byDevice (snd (device_step c ?r))) k = Some a"
    using snoc.prems(2) by simp
  from devices_after_inv [of cs] show ?case
  proof (cases rule: device_step_cases [of ?r c, case_names same added changed])
    case same
    then show ?thesis
      using snoc.IH [OF pending(1) _ snoc.prems(3)] stored later by simp
  next
    case (added b)
    then show ?thesis
      using stored pending(2) snoc.prems(3) snoc.IH [OF pending(1) _ snoc.prems(3)] later
        devices_invD(1) [OF devices_after_inv [of cs]]
      by (auto simp: om.find_emplace_new split: if_splits)
  next
    case (changed k' b b')
    show ?thesis
    proof (cases "k' = k")
      case False
      with changed stored show ?thesis
        using snoc.IH [OF pending(1) _ snoc.prems(3)] later by (simp add: map_of_modify)
    next
      case True
      with changed stored have "a = b'" "map_of (ds_byDevice ?r) k = Some b"
        by (simp_all add: map_of_modify)
      then show ?thesis
        using changed(2) snoc.prems(3) snoc.IH [OF pending(1), of k b] later [of b]
        by (auto simp: dev_successor_def approved_by_def)
    qed
  qed
qed

section \<open>Properties\<close>

text \<open>
  C24. A device code yields tokens at most once: over every history of calls from the empty
  store, polls with a given device code answer "approved" at most as often as a ceremony with
  that code was stored.
\<close>

theorem device_approved_once:
  "redemptions device_step dev_redeems d calls empty_devices
     \<le> additions device_step dev_adds d calls empty_devices"
  using device_codes.redemptions_bounded [of empty_devices d calls] devices_after_inv [of "[]"]
  by (simp add: dev_open_def empty_devices_def)

text \<open>
  Exactly when a poll answers "approved": the device code is known and bound to the polling
  client, its deadline is in the future, a user has approved it, and the client has waited the
  poll interval since its last poll. The answer carries the ceremony, now consumed.
\<close>

theorem device_poll_exact:
  "(\<exists>p r'. devices_poll d cid now r = (Inr p, r') \<and> poll_disposition p = PollApproved
       \<and> poll_authorization p = Some a') \<longleftrightarrow>
     (\<exists>a. map_of (ds_byDevice r) (toHex d) = Some a \<and> dev_clientId a = cid \<and> now < dev_expiresAt a
        \<and> dev_status a = Approved
        \<and> (case dev_lastPollAt a of None \<Rightarrow> True | Some t \<Rightarrow> t + dev_pollInterval a \<le> now)
        \<and> a' = a\<lparr>dev_status := Consumed, dev_lastPollAt := Some now\<rparr>)"
proof -
  have wait: "(case dev_lastPollAt a of None \<Rightarrow> True | Some t \<Rightarrow> t + dev_pollInterval a \<le> now)
      = (\<forall>t. dev_lastPollAt a = Some t \<longrightarrow> t + dev_pollInterval a \<le> now)" for a
    by (cases "dev_lastPollAt a") simp_all
  have "(\<exists>p r'. devices_poll d cid now r = (Inr p, r') \<and> poll_disposition p = PollApproved
       \<and> poll_authorization p = Some a') \<longleftrightarrow>
     (\<exists>p r'. (devices_poll d cid now r = (Inr p, r') \<and> poll_disposition p = PollApproved)
       \<and> poll_authorization p = Some a')" by blast
  then show ?thesis
    unfolding poll_approved_iff wait by auto
qed

text \<open>
  No device is authorized without the user: whenever a poll hands out an authorization, the
  identity and the assurance in it are those of a session that approved the matching user code
  earlier in the history. Ceremonies enter the store pending, as \<^verbatim>\<open>begin\<close> makes them.
\<close>

theorem device_authorization_authentic:
  assumes "list_all adds_pending calls"
    and "devices_poll d cid now (devices_after calls) = (Inr p, r')"
    and "poll_authorization p = Some a"
  shows "\<exists>session t. ApproveDevice (dev_userCode a) session t \<in> set calls
    \<and> dev_identity a = Some (session_identity session)
    \<and> dev_assurance a = Some (session_assurance session)"
proof -
  have "poll_disposition p = PollApproved"
    using assms(2,3) by (auto simp: devices_poll_def Device_slowDown_def Device_markPolled_def
        split: option.splits if_splits sum.splits prod.splits)
  with assms(2) have "devices_poll d cid now (devices_after calls) = (Inr p, r')
      \<and> poll_disposition p = PollApproved" by blast
  then obtain b where b: "map_of (ds_byDevice (devices_after calls)) (toHex d) = Some b"
      "dev_status b = Approved" "p = \<lparr>poll_disposition = PollApproved,
          poll_authorization = Some (b\<lparr>dev_status := Consumed, dev_lastPollAt := Some now\<rparr>),
          poll_retryAfter = dev_pollInterval b\<rparr>"
    unfolding poll_approved_iff by blast
  have a: "a = b\<lparr>dev_status := Consumed, dev_lastPollAt := Some now\<rparr>"
    using assms(3) b(3) by simp
  have "approved_by calls b"
    using approvals_recorded [OF assms(1) b(1)] b(2) by simp
  then show ?thesis
    unfolding approved_by_def a by simp
qed

definition sample_device :: DeviceAuthorization where
  "sample_device =
     \<lparr>dev_deviceCode = [1], dev_userCode = [2], dev_clientId = StrongId ''tv'', dev_scopes = [''openid''],
      dev_resource = None, dev_issuedAt = 0, dev_expiresAt = 600000, dev_pollInterval = 5000,
      dev_status = Pending, dev_identity = None, dev_provider = None, dev_assurance = None,
      dev_strength = None, dev_authenticatedAt = None, dev_lastPollAt = None\<rparr>"

theorem device_authorization_authentic_witness:
  "\<exists>session t. ApproveDevice [2] session t
      \<in> set [AddDevice sample_device, PollDevice [1] (StrongId ''tv'') 1000,
             ApproveDevice [2] sample_old 2000]
    \<and> session_identity session = session_identity sample_old"
proof -
  let ?calls = "[AddDevice sample_device, PollDevice [1] (StrongId ''tv'') 1000,
         ApproveDevice [2] sample_old 2000]"
  let ?a = "sample_device\<lparr>dev_identity := Some (session_identity sample_old),
      dev_provider := Some (session_provider sample_old),
      dev_assurance := Some (session_assurance sample_old),
      dev_strength := Some (session_strength sample_old),
      dev_authenticatedAt := Some (session_authenticatedAt sample_old),
      dev_status := Consumed, dev_lastPollAt := Some 9000\<rparr>"
  let ?p = "\<lparr>poll_disposition = PollApproved, poll_authorization = Some ?a, poll_retryAfter = 5000\<rparr>"
  have "fst (devices_poll [1] (StrongId ''tv'') 9000 (devices_after ?calls)) = Inr ?p"
    by (simp add: devices_add_def empty_devices_def omap_contains_def Let_def sample_device_def
        devices_poll_def dev_expiredAt_def Device_markPolled_def devices_approve_def
        Device_approve_def Device_consume_def)
  then have poll: "devices_poll [1] (StrongId ''tv'') 9000 (devices_after ?calls)
      = (Inr ?p, snd (devices_poll [1] (StrongId ''tv'') 9000 (devices_after ?calls)))"
    by (simp only: prod_eq_iff fst_conv snd_conv simp_thms)
  have "list_all adds_pending ?calls"
    by (simp add: sample_device_def)
  from device_authorization_authentic [OF this poll, of ?a] show ?thesis
    by (simp add: sample_device_def)
qed

end
