(* ===== verification/Resource.thy ===== *)
theory Resource
  imports Client
begin

text \<open>
  Resource servers and service identities (\<^verbatim>\<open>src/src/resource/model.cpp\<close>,
  \<^verbatim>\<open>repository.cpp\<close>, the registry of \<^verbatim>\<open>service.cpp\<close>): which audiences exist, which
  scopes each declares, and what a machine client may ask for.
\<close>

datatype ResourceIdTag = ResourceIdTag
type_synonym ResourceId = "ResourceIdTag StrongId"

definition validAudience :: "string \<Rightarrow> bool" where
  "validAudience value =
     (value \<noteq> [] \<and> length value \<le> 2048 \<and> CHR '' '' \<notin> set value \<and> CHR 0x09 \<notin> set value
      \<and> CHR 0x0D \<notin> set value \<and> CHR 0x0A \<notin> set value)"

definition normalizedScopes :: "string list \<Rightarrow> string list Result" where
  "normalizedScopes scopes =
     (if scopes = [] \<or> length scopes > 256
      then fail_msg InvalidArgument ''A resource server must declare scopes.''
      else (case map_result Scope_create scopes of
              Inl e \<Rightarrow> Inl e
            | Inr _ \<Rightarrow> Inr (sort_unique scopes)))"

definition normalizedAudiences :: "string list \<Rightarrow> string list Result" where
  "normalizedAudiences audiences =
     (if audiences = [] \<or> length audiences > 64 \<or> list_ex (\<lambda>v. \<not> validAudience v) audiences
      then fail_msg InvalidArgument ''A service identity audience grant is invalid.''
      else Inr (sort_unique audiences))"

datatype ResourceStatus = Active | Suspended | Revoked

record ResourceServer =
  res_id :: ResourceId
  res_audience :: string
  res_displayName :: string
  res_scopes :: "string list"
  res_status :: ResourceStatus
  res_createdAt :: Instant
  res_updatedAt :: Instant

definition ResourceServer_restore ::
    "ResourceId \<Rightarrow> string \<Rightarrow> string \<Rightarrow> string list \<Rightarrow> ResourceStatus \<Rightarrow> Instant \<Rightarrow> Instant
     \<Rightarrow> ResourceServer Result" where
  "ResourceServer_restore rid audience displayName scopes status createdAt updatedAt =
     (case normalizedScopes scopes of
        Inl _ \<Rightarrow> fail_msg InvalidArgument ''The resource-server registration is invalid.''
      | Inr normalized \<Rightarrow>
          if StrongId_empty rid \<or> \<not> validAudience audience \<or> displayName = []
             \<or> length displayName > 256 \<or> updatedAt < createdAt
          then fail_msg InvalidArgument ''The resource-server registration is invalid.''
          else Inr \<lparr>res_id = rid, res_audience = audience, res_displayName = displayName,
                    res_scopes = normalized, res_status = status, res_createdAt = createdAt,
                    res_updatedAt = updatedAt\<rparr>)"

definition ResourceServer_create ::
    "ResourceId \<Rightarrow> string \<Rightarrow> string \<Rightarrow> string list \<Rightarrow> Instant \<Rightarrow> ResourceServer Result" where
  "ResourceServer_create rid audience displayName scopes now =
     ResourceServer_restore rid audience displayName scopes Active now now"

definition ResourceServer_active :: "ResourceServer \<Rightarrow> bool" where
  "ResourceServer_active r = (res_status r = Active)"

definition ResourceServer_permitsScope :: "ResourceServer \<Rightarrow> string \<Rightarrow> bool" where
  "ResourceServer_permitsScope r scope = binary_search (res_scopes r) scope"

definition ResourceServer_permitsScopes :: "ResourceServer \<Rightarrow> string list \<Rightarrow> bool" where
  "ResourceServer_permitsScopes r scopes = list_all (ResourceServer_permitsScope r) scopes"

definition ResourceServer_setStatus ::
    "ResourceStatus \<Rightarrow> Instant \<Rightarrow> ResourceServer \<Rightarrow> Status \<times> ResourceServer" where
  "ResourceServer_setStatus status now r =
     (if res_status r = Revoked \<and> status \<noteq> Revoked
      then (fail_msg FailedPrecondition ''A revoked resource server cannot be reactivated.'', r)
      else (ok, r\<lparr>res_status := status, res_updatedAt := now\<rparr>))"

record ServiceIdentity =
  svc_identity :: IdentityId
  svc_client :: ClientId
  svc_audiences :: "string list"
  svc_scopes :: "string list"
  svc_active :: bool
  svc_createdAt :: Instant
  svc_updatedAt :: Instant

definition ServiceIdentity_restore ::
    "IdentityId \<Rightarrow> ClientId \<Rightarrow> string list \<Rightarrow> string list \<Rightarrow> bool \<Rightarrow> Instant \<Rightarrow> Instant
     \<Rightarrow> ServiceIdentity Result" where
  "ServiceIdentity_restore identity clientId audiences scopes active createdAt updatedAt =
     (case (normalizedAudiences audiences, normalizedScopes scopes) of
        (Inr normalizedAudience, Inr normalizedScope) \<Rightarrow>
          if StrongId_empty identity \<or> StrongId_empty clientId \<or> updatedAt < createdAt
          then fail_msg InvalidArgument ''The service identity registration is invalid.''
          else Inr \<lparr>svc_identity = identity, svc_client = clientId,
                    svc_audiences = normalizedAudience, svc_scopes = normalizedScope,
                    svc_active = active, svc_createdAt = createdAt, svc_updatedAt = updatedAt\<rparr>
      | _ \<Rightarrow> fail_msg InvalidArgument ''The service identity registration is invalid.'')"

definition ServiceIdentity_create ::
    "IdentityId \<Rightarrow> ClientId \<Rightarrow> string list \<Rightarrow> string list \<Rightarrow> Instant \<Rightarrow> ServiceIdentity Result" where
  "ServiceIdentity_create identity clientId audiences scopes now =
     ServiceIdentity_restore identity clientId audiences scopes True now now"

definition ServiceIdentity_permitsAudience :: "ServiceIdentity \<Rightarrow> string \<Rightarrow> bool" where
  "ServiceIdentity_permitsAudience s audience = binary_search (svc_audiences s) audience"

definition ServiceIdentity_permitsScopes :: "ServiceIdentity \<Rightarrow> string list \<Rightarrow> bool" where
  "ServiceIdentity_permitsScopes s scopes = list_all (binary_search (svc_scopes s)) scopes"

definition ServiceIdentity_deactivate :: "Instant \<Rightarrow> ServiceIdentity \<Rightarrow> Status \<times> ServiceIdentity" where
  "ServiceIdentity_deactivate now s = (ok, s\<lparr>svc_active := False, svc_updatedAt := now\<rparr>)"

definition ServiceIdentity_activate :: "Instant \<Rightarrow> ServiceIdentity \<Rightarrow> Status \<times> ServiceIdentity" where
  "ServiceIdentity_activate now s = (ok, s\<lparr>svc_active := True, svc_updatedAt := now\<rparr>)"

section \<open>Repository and registry\<close>

record ResourceRepository =
  rr_resources :: "(string, ResourceServer) omap"
  rr_services :: "(ClientId, ServiceIdentity) omap"

definition resources_add :: "ResourceServer \<Rightarrow> ResourceRepository \<Rightarrow> Status \<times> ResourceRepository" where
  "resources_add resource r =
     (if omap_contains (rr_resources r) (res_audience resource) then (fail_code AlreadyExists, r)
      else (ok, r\<lparr>rr_resources := omap_emplace (res_audience resource) resource (rr_resources r)\<rparr>))"

definition resources_save :: "ResourceServer \<Rightarrow> ResourceRepository \<Rightarrow> Status \<times> ResourceRepository" where
  "resources_save resource r =
     (if \<not> omap_contains (rr_resources r) (res_audience resource) then (fail_code NotFound, r)
      else (ok, r\<lparr>rr_resources :=
                  omap_modify (res_audience resource) (\<lambda>_. resource) (rr_resources r)\<rparr>))"

definition resources_findByAudience ::
    "string \<Rightarrow> ResourceRepository \<Rightarrow> ResourceServer option Result" where
  "resources_findByAudience audience r = Inr (map_of (rr_resources r) audience)"

definition resources_list :: "ResourceRepository \<Rightarrow> ResourceServer list Result" where
  "resources_list r = Inr (map snd (rr_resources r))"

definition resources_saveService ::
    "ServiceIdentity \<Rightarrow> ResourceRepository \<Rightarrow> Status \<times> ResourceRepository" where
  "resources_saveService s r =
     (ok, r\<lparr>rr_services := omap_insert_or_assign (svc_client s) s (rr_services r)\<rparr>)"

definition resources_serviceForClient ::
    "ClientId \<Rightarrow> ResourceRepository \<Rightarrow> ServiceIdentity option Result" where
  "resources_serviceForClient cid r = Inr (map_of (rr_services r) cid)"

definition registerResource ::
    "env \<Rightarrow> string \<Rightarrow> string \<Rightarrow> string list \<Rightarrow> ResourceRepository
     \<Rightarrow> ResourceServer Result \<times> ResourceRepository" where
  "registerResource E audience displayName scopes r =
     (case randomTokenBase64Url E 0 18 of
        Inl e \<Rightarrow> (Inl e, r)
      | Inr random \<Rightarrow>
          (case ResourceServer_create (StrongId (''opr_'' @ random)) audience displayName scopes
                  (env_now E 0) of
             Inl e \<Rightarrow> (Inl e, r)
           | Inr resource \<Rightarrow>
               (case resources_add resource r of
                  (Inl e, r') \<Rightarrow> (Inl e, r')
                | (Inr _, r') \<Rightarrow> (Inr resource, r'))))"

definition resource_requireActive :: "string \<Rightarrow> ResourceRepository \<Rightarrow> ResourceServer Result" where
  "resource_requireActive audience r =
     (case resources_findByAudience audience r of
        Inl e \<Rightarrow> Inl e
      | Inr found \<Rightarrow>
          (case found of
             None \<Rightarrow> fail_msg PermissionDenied ''The requested OAuth resource is unavailable.''
           | Some resource \<Rightarrow>
               if \<not> ResourceServer_active resource
               then fail_msg PermissionDenied ''The requested OAuth resource is unavailable.''
               else Inr resource))"

definition resource_setStatus ::
    "env \<Rightarrow> string \<Rightarrow> ResourceStatus \<Rightarrow> ResourceRepository
     \<Rightarrow> ResourceServer Result \<times> ResourceRepository" where
  "resource_setStatus E audience status r =
     (case resources_findByAudience audience r of
        Inl e \<Rightarrow> (Inl e, r)
      | Inr None \<Rightarrow> (fail_code NotFound, r)
      | Inr (Some resource) \<Rightarrow>
          (case ResourceServer_setStatus status (env_now E 0) resource of
             (Inl e, _) \<Rightarrow> (Inl e, r)
           | (Inr _, resource') \<Rightarrow>
               (case resources_save resource' r of
                  (Inl e, r') \<Rightarrow> (Inl e, r')
                | (Inr _, r') \<Rightarrow> (Inr resource', r'))))"

section \<open>Grants of a service identity\<close>

lemma sort_unique_sorted_le: "sorted (sort_unique xs)"
  using sort_unique_sorted strict_sorted_iff by blast

text \<open>The binary searches decide membership, because construction sorts both vectors.\<close>

lemma ServiceIdentity_permits:
  assumes "ServiceIdentity_restore identity cid audiences scopes active t1 t2 = Inr s"
  shows "ServiceIdentity_permitsAudience s a \<longleftrightarrow> a \<in> set audiences"
    and "ServiceIdentity_permitsScopes s vs \<longleftrightarrow> set vs \<subseteq> set scopes"
  using assms
  by (auto simp: ServiceIdentity_restore_def normalizedAudiences_def normalizedScopes_def
      ServiceIdentity_permitsAudience_def ServiceIdentity_permitsScopes_def list_all_iff
      binary_search_sorted sort_unique_sorted_le split: sum.splits if_splits)

end
