(* ===== verification/Token.thy ===== *)
theory Token
  imports Device Resource
begin

text \<open>
  OAuth tokens (\<^verbatim>\<open>src/src/token/model.cpp\<close>, \<^verbatim>\<open>repository.cpp\<close>,
  \<^verbatim>\<open>service.cpp\<close>): sender constraints, the context a token carries, access and refresh records
  grouped in families, the repository with refresh rotation and family revocation, and the token
  service over it. The copy-on-write records of the source have value semantics.
\<close>

datatype TokenFamilyIdTag = TokenFamilyIdTag
type_synonym TokenFamilyId = "TokenFamilyIdTag StrongId"

section \<open>Model\<close>

datatype SenderConstraintKind = Dpop | Mtls

record SenderConstraint =
  sc_kind :: SenderConstraintKind
  sc_value :: string

definition SenderConstraint_create :: "SenderConstraintKind \<Rightarrow> string \<Rightarrow> SenderConstraint Result" where
  "SenderConstraint_create kind value =
     (if value = [] \<or> length value > 256
         \<or> list_ex (\<lambda>c. (of_char c :: nat) \<le> 0x20 \<or> of_char c = (0x7F :: nat)) value
      then fail_msg InvalidArgument ''The OAuth sender constraint is invalid.''
      else Inr \<lparr>sc_kind = kind, sc_value = value\<rparr>)"

record TokenContext =
  ctx_client :: ClientId
  ctx_identity :: IdentityId
  ctx_provider :: ProviderId
  ctx_assurance :: AssuranceLevel
  ctx_strength :: AuthenticationStrength
  ctx_scopes :: "string list"
  ctx_audiences :: "string list"
  ctx_senderConstraint :: "SenderConstraint option"
  ctx_authenticatedAt :: Instant

definition TokenContext_new ::
    "ClientId \<Rightarrow> IdentityId \<Rightarrow> ProviderId \<Rightarrow> AssuranceLevel \<Rightarrow> AuthenticationStrength \<Rightarrow> string list
     \<Rightarrow> Instant \<Rightarrow> string list \<Rightarrow> SenderConstraint option \<Rightarrow> TokenContext" where
  "TokenContext_new client identity provider assurance strength scopes authenticatedAt audiences
     senderConstraint =
     \<lparr>ctx_client = client, ctx_identity = identity, ctx_provider = provider,
      ctx_assurance = assurance, ctx_strength = strength, ctx_scopes = sort_unique scopes,
      ctx_audiences = sort_unique audiences, ctx_senderConstraint = senderConstraint,
      ctx_authenticatedAt = authenticatedAt\<rparr>"

definition TokenContext_permits :: "TokenContext \<Rightarrow> string \<Rightarrow> bool" where
  "TokenContext_permits c scope = (scope = [] \<or> binary_search (ctx_scopes c) scope)"

definition TokenContext_permitsAudience :: "TokenContext \<Rightarrow> string \<Rightarrow> bool" where
  "TokenContext_permitsAudience c audience = (audience = [] \<or> binary_search (ctx_audiences c) audience)"

datatype AccessTokenState = Active | Revoked

record AccessTokenRecord =
  at_digest :: TokenDigest
  at_family :: TokenFamilyId
  at_context :: TokenContext
  at_issuedAt :: Instant
  at_expiresAt :: Instant
  at_state :: AccessTokenState
  at_revokedAt :: "Instant option"

definition Access_new ::
    "TokenDigest \<Rightarrow> TokenFamilyId \<Rightarrow> TokenContext \<Rightarrow> Instant \<Rightarrow> Instant \<Rightarrow> AccessTokenRecord" where
  "Access_new digest family context issuedAt expiresAt =
     \<lparr>at_digest = digest, at_family = family, at_context = context, at_issuedAt = issuedAt,
      at_expiresAt = expiresAt, at_state = Active, at_revokedAt = None\<rparr>"

definition Access_usableAt :: "AccessTokenRecord \<Rightarrow> Instant \<Rightarrow> bool" where
  "Access_usableAt a now = (at_state a = Active \<and> now < at_expiresAt a)"

definition Access_revoke :: "Instant \<Rightarrow> AccessTokenRecord \<Rightarrow> AccessTokenRecord" where
  "Access_revoke now a =
     (if at_state a = Active then a\<lparr>at_state := Revoked, at_revokedAt := Some now\<rparr> else a)"

datatype RefreshTokenState = Active | Used | Revoked

record RefreshTokenRecord =
  rt_digest :: TokenDigest
  rt_family :: TokenFamilyId
  rt_sequence :: "64 word"
  rt_context :: TokenContext
  rt_issuedAt :: Instant
  rt_expiresAt :: Instant
  rt_state :: RefreshTokenState
  rt_changedAt :: "Instant option"

definition Refresh_new ::
    "TokenDigest \<Rightarrow> TokenFamilyId \<Rightarrow> 64 word \<Rightarrow> TokenContext \<Rightarrow> Instant \<Rightarrow> Instant \<Rightarrow> RefreshTokenRecord" where
  "Refresh_new digest family sequence context issuedAt expiresAt =
     \<lparr>rt_digest = digest, rt_family = family, rt_sequence = sequence, rt_context = context,
      rt_issuedAt = issuedAt, rt_expiresAt = expiresAt, rt_state = RefreshTokenState.Active,
      rt_changedAt = None\<rparr>"

definition Refresh_usableAt :: "RefreshTokenRecord \<Rightarrow> Instant \<Rightarrow> bool" where
  "Refresh_usableAt t now = (rt_state t = RefreshTokenState.Active \<and> now < rt_expiresAt t)"

definition Refresh_markUsed :: "Instant \<Rightarrow> RefreshTokenRecord \<Rightarrow> RefreshTokenRecord" where
  "Refresh_markUsed now t =
     (if rt_state t = RefreshTokenState.Active then t\<lparr>rt_state := Used, rt_changedAt := Some now\<rparr> else t)"

definition Refresh_revoke :: "Instant \<Rightarrow> RefreshTokenRecord \<Rightarrow> RefreshTokenRecord" where
  "Refresh_revoke now t =
     (if rt_state t \<noteq> RefreshTokenState.Revoked
      then t\<lparr>rt_state := RefreshTokenState.Revoked, rt_changedAt := Some now\<rparr> else t)"

section \<open>The repository\<close>

record TokenRepository =
  tr_access :: "(string, AccessTokenRecord) omap"
  tr_refresh :: "(string, RefreshTokenRecord) omap"

definition empty_tokens :: TokenRepository where
  "empty_tokens = \<lparr>tr_access = [], tr_refresh = []\<rparr>"

definition storeInitial ::
    "AccessTokenRecord \<Rightarrow> RefreshTokenRecord \<Rightarrow> TokenRepository \<Rightarrow> Status \<times> TokenRepository" where
  "storeInitial access refresh r =
     (let accessKey = toHex (at_digest access); refreshKey = toHex (rt_digest refresh)
      in if omap_contains (tr_access r) accessKey \<or> omap_contains (tr_refresh r) refreshKey
         then (fail_msg AlreadyExists ''The generated token fingerprint already exists.'', r)
         else (ok, \<lparr>tr_access = omap_emplace accessKey access (tr_access r),
                    tr_refresh = omap_emplace refreshKey refresh (tr_refresh r)\<rparr>))"

definition storeAccessOnly :: "AccessTokenRecord \<Rightarrow> TokenRepository \<Rightarrow> Status \<times> TokenRepository" where
  "storeAccessOnly access r =
     (let accessKey = toHex (at_digest access)
      in if omap_contains (tr_access r) accessKey
         then (fail_msg AlreadyExists ''The generated token fingerprint already exists.'', r)
         else (ok, r\<lparr>tr_access := omap_emplace accessKey access (tr_access r)\<rparr>))"

definition findAccess :: "TokenDigest \<Rightarrow> TokenRepository \<Rightarrow> AccessTokenRecord Result" where
  "findAccess digest r =
     (case map_of (tr_access r) (toHex digest) of
        None \<Rightarrow> Inl (authFailure ''Unknown access token.'')
      | Some a \<Rightarrow> Inr a)"

definition findRefresh :: "TokenDigest \<Rightarrow> TokenRepository \<Rightarrow> RefreshTokenRecord Result" where
  "findRefresh digest r =
     (case map_of (tr_refresh r) (toHex digest) of
        None \<Rightarrow> Inl (authFailure ''Unknown refresh token.'')
      | Some t \<Rightarrow> Inr t)"

text \<open>The two loops that revoke every record of a family.\<close>

definition revoke_family_records :: "TokenFamilyId \<Rightarrow> Instant \<Rightarrow> TokenRepository \<Rightarrow> TokenRepository" where
  "revoke_family_records family now r =
     \<lparr>tr_access = omap_map_values (\<lambda>a. if at_family a = family then Access_revoke now a else a)
                    (tr_access r),
      tr_refresh = omap_map_values (\<lambda>t. if rt_family t = family then Refresh_revoke now t else t)
                    (tr_refresh r)\<rparr>"

definition rotateRefresh ::
    "TokenDigest \<Rightarrow> Instant \<Rightarrow> AccessTokenRecord \<Rightarrow> RefreshTokenRecord \<Rightarrow> TokenRepository
     \<Rightarrow> Status \<times> TokenRepository" where
  "rotateRefresh presented now replacementAccess replacementRefresh r =
     (case map_of (tr_refresh r) (toHex presented) of
        None \<Rightarrow> (Inl (authFailure ''Unknown refresh token.''), r)
      | Some found \<Rightarrow>
          if \<not> Refresh_usableAt found now
          then (Inl (authFailure ''Refresh token reuse or expiry detected; family revoked.''),
                revoke_family_records (rt_family found) now r)
          else if at_family replacementAccess \<noteq> rt_family found
                  \<or> rt_family replacementRefresh \<noteq> rt_family found
                  \<or> rt_sequence replacementRefresh \<noteq> rt_sequence found + 1
          then (fail_msg InvalidArgument ''The refresh rotation replacement is inconsistent.'', r)
          else
            let accessKey = toHex (at_digest replacementAccess);
                refreshKey = toHex (rt_digest replacementRefresh)
            in if omap_contains (tr_access r) accessKey \<or> omap_contains (tr_refresh r) refreshKey
               then (fail_msg AlreadyExists ''The generated token fingerprint already exists.'', r)
               else (ok, \<lparr>tr_access = omap_emplace accessKey replacementAccess (tr_access r),
                          tr_refresh = omap_emplace refreshKey replacementRefresh
                            (omap_modify (toHex presented) (Refresh_markUsed now) (tr_refresh r))\<rparr>))"

definition revokeFamily :: "TokenFamilyId \<Rightarrow> Instant \<Rightarrow> TokenRepository \<Rightarrow> Status \<times> TokenRepository" where
  "revokeFamily family now r = (ok, revoke_family_records family now r)"

definition revokeToken :: "TokenDigest \<Rightarrow> Instant \<Rightarrow> TokenRepository \<Rightarrow> Status \<times> TokenRepository" where
  "revokeToken digest now r =
     (if omap_contains (tr_access r) (toHex digest)
      then (ok, r\<lparr>tr_access := omap_modify (toHex digest) (Access_revoke now) (tr_access r)\<rparr>)
      else (case map_of (tr_refresh r) (toHex digest) of
              Some t \<Rightarrow> (ok, revoke_family_records (rt_family t) now r)
            | None \<Rightarrow> (ok, r)))"

section \<open>The service\<close>

definition TokenKey_create :: "string \<Rightarrow> string Result" where
  "TokenKey_create secret =
     (if length secret < 32
      then fail_msg InvalidArgument ''A token key must contain at least 32 bytes.''
      else Inr secret)"

record TokenPolicy =
  tp_accessLifetime :: Duration
  tp_refreshLifetime :: Duration

text \<open>One hour and ninety days, in milliseconds.\<close>

definition TokenPolicy_create :: "Duration \<Rightarrow> Duration \<Rightarrow> TokenPolicy Result" where
  "TokenPolicy_create accessLifetime refreshLifetime =
     (if accessLifetime \<le> 0 \<or> refreshLifetime \<le> accessLifetime \<or> accessLifetime > 3600000
         \<or> refreshLifetime > 7776000000
      then fail_msg InvalidArgument ''OAuth token lifetimes are invalid.''
      else Inr \<lparr>tp_accessLifetime = accessLifetime, tp_refreshLifetime = refreshLifetime\<rparr>)"

record TokenGrant =
  tg_access :: string
  tg_refresh :: string
  tg_expiresIn :: Duration
  tg_context :: TokenContext

record MachineTokenGrant =
  mg_access :: string
  mg_expiresIn :: Duration
  mg_context :: TokenContext

record TokenClaims =
  claims_active :: bool
  claims_context :: TokenContext
  claims_issuedAt :: Instant
  claims_expiresAt :: Instant

text \<open>What the service holds besides its repository: the registries it asks, its key and policy.\<close>

record TokenService =
  ts_apps :: ApplicationRepository
  ts_clients :: ClientRepository
  ts_key :: string
  ts_policy :: TokenPolicy

definition sameConstraint :: "SenderConstraint option \<Rightarrow> SenderConstraint option \<Rightarrow> bool" where
  "sameConstraint expected presented =
     ((expected = None \<and> presented = None)
      \<or> (case (expected, presented) of
           (Some e, Some p) \<Rightarrow> sc_kind e = sc_kind p \<and> sc_value e = sc_value p
         | _ \<Rightarrow> False))"

definition token_digest :: "env \<Rightarrow> TokenService \<Rightarrow> string \<Rightarrow> TokenDigest Result" where
  "token_digest E svc token =
     (if token = [] \<or> length token > 256
      then Inl (authFailure ''An invalid OAuth token was presented.'')
      else hmacSha256 E (ts_key svc) token)"

definition makeInitial ::
    "env \<Rightarrow> TokenService \<Rightarrow> TokenContext \<Rightarrow> TokenRepository \<Rightarrow> TokenGrant Result \<times> TokenRepository" where
  "makeInitial E svc context r =
     (case requireActive (ts_apps svc) (ctx_client context) (ts_clients svc) of
        Inl e \<Rightarrow> (Inl e, r)
      | Inr _ \<Rightarrow>
     (case randomTokenBase64Url E 0 24 of
        Inl e \<Rightarrow> (Inl e, r)
      | Inr familyRaw \<Rightarrow>
     (case randomTokenBase64Url E 1 32 of
        Inl e \<Rightarrow> (Inl e, r)
      | Inr accessRaw \<Rightarrow>
     (case randomTokenBase64Url E 2 32 of
        Inl e \<Rightarrow> (Inl e, r)
      | Inr refreshRaw \<Rightarrow>
     (case token_digest E svc (''opa_'' @ accessRaw) of
        Inl e \<Rightarrow> (Inl e, r)
      | Inr accessDigest \<Rightarrow>
     (case token_digest E svc (''opr_'' @ refreshRaw) of
        Inl e \<Rightarrow> (Inl e, r)
      | Inr refreshDigest \<Rightarrow>
          let now = env_now E 0; family = StrongId familyRaw
          in (case storeInitial
                     (Access_new accessDigest family context now
                        (now + tp_accessLifetime (ts_policy svc)))
                     (Refresh_new refreshDigest family 0 context now
                        (now + tp_refreshLifetime (ts_policy svc))) r of
                (Inl e, r') \<Rightarrow> (Inl e, r')
              | (Inr _, r') \<Rightarrow>
                  (Inr \<lparr>tg_access = ''opa_'' @ accessRaw, tg_refresh = ''opr_'' @ refreshRaw,
                        tg_expiresIn = tp_accessLifetime (ts_policy svc),
                        tg_context = context\<rparr>, r'))))))))"

definition token_issue ::
    "env \<Rightarrow> TokenService \<Rightarrow> AuthorizationCode \<Rightarrow> SenderConstraint option \<Rightarrow> TokenRepository
     \<Rightarrow> TokenGrant Result \<times> TokenRepository" where
  "token_issue E svc authorization senderConstraint r =
     makeInitial E svc
       (TokenContext_new (code_clientId authorization) (code_identity authorization)
          (code_provider authorization) (code_assurance authorization) (code_strength authorization)
          (code_scopes authorization) (code_authenticatedAt authorization)
          (case code_resource authorization of None \<Rightarrow> [] | Some v \<Rightarrow> [v]) senderConstraint) r"

definition issueDeviceAuthorization ::
    "env \<Rightarrow> TokenService \<Rightarrow> DeviceAuthorization \<Rightarrow> SenderConstraint option \<Rightarrow> TokenRepository
     \<Rightarrow> TokenGrant Result \<times> TokenRepository" where
  "issueDeviceAuthorization E svc a senderConstraint r =
     (case (dev_identity a, dev_provider a, dev_assurance a, dev_strength a, dev_authenticatedAt a) of
        (Some identity, Some provider, Some assurance, Some strength, Some authenticatedAt) \<Rightarrow>
          if dev_status a \<noteq> DeviceAuthorizationStatus.Consumed
          then (fail_msg FailedPrecondition
                  ''The device authorization has not been consumed safely.'', r)
          else makeInitial E svc
                 (TokenContext_new (dev_clientId a) identity provider assurance strength
                    (dev_scopes a) authenticatedAt
                    (case dev_resource a of None \<Rightarrow> [] | Some v \<Rightarrow> [v]) senderConstraint) r
      | _ \<Rightarrow> (fail_msg FailedPrecondition
                ''The device authorization has not been consumed safely.'', r))"

text \<open>The tail shared by the two machine grants: a fresh family of one access token.\<close>

definition store_machine_token ::
    "env \<Rightarrow> TokenService \<Rightarrow> TokenContext \<Rightarrow> Instant \<Rightarrow> string \<Rightarrow> TokenDigest \<Rightarrow> string \<Rightarrow> TokenRepository
     \<Rightarrow> MachineTokenGrant Result \<times> TokenRepository" where
  "store_machine_token E svc context now access accessDigest familyRaw r =
     (case storeAccessOnly (Access_new accessDigest (StrongId familyRaw) context now
              (now + tp_accessLifetime (ts_policy svc))) r of
        (Inl e, r') \<Rightarrow> (Inl e, r')
      | (Inr _, r') \<Rightarrow>
          (Inr \<lparr>mg_access = access, mg_expiresIn = tp_accessLifetime (ts_policy svc),
                mg_context = context\<rparr>, r'))"

definition issueClientCredentials ::
    "env \<Rightarrow> TokenService \<Rightarrow> ServiceIdentity \<Rightarrow> string \<Rightarrow> string list \<Rightarrow> SenderConstraint option
     \<Rightarrow> TokenRepository \<Rightarrow> MachineTokenGrant Result \<times> TokenRepository" where
  "issueClientCredentials E svc service audience scopes senderConstraint r =
     (if \<not> svc_active service \<or> \<not> ServiceIdentity_permitsAudience service audience
         \<or> \<not> ServiceIdentity_permitsScopes service scopes \<or> scopes = []
      then (fail_msg PermissionDenied
              ''The service identity does not permit the requested machine grant.'', r)
      else if (case requireActive (ts_apps svc) (svc_client service) (ts_clients svc) of
                 Inl _ \<Rightarrow> True
               | Inr c \<Rightarrow> client_kind c \<noteq> Service)
      then (fail_msg AuthenticationFailed ''Client authentication failed.'', r)
      else
     (case randomTokenBase64Url E 0 24 of
        Inl e \<Rightarrow> (Inl e, r)
      | Inr familyRaw \<Rightarrow>
     (case randomTokenBase64Url E 1 32 of
        Inl e \<Rightarrow> (Inl e, r)
      | Inr accessRaw \<Rightarrow>
     (case token_digest E svc (''opa_'' @ accessRaw) of
        Inl e \<Rightarrow> (Inl e, r)
      | Inr accessDigest \<Rightarrow>
          let now = env_now E 0
          in store_machine_token E svc
               (TokenContext_new (svc_client service) (svc_identity service)
                  (StrongId ''client_credentials'') Ial1
                  \<lparr>strength_factors = Factor_Knowledge, strength_phishingResistant = False\<rparr>
                  scopes now [audience] senderConstraint)
               now (''opa_'' @ accessRaw) accessDigest familyRaw r))))"

definition introspect :: "env \<Rightarrow> TokenService \<Rightarrow> string \<Rightarrow> TokenRepository \<Rightarrow> TokenClaims Result" where
  "introspect E svc accessToken r =
     (case token_digest E svc accessToken of
        Inl e \<Rightarrow> Inl e
      | Inr fingerprint \<Rightarrow>
     (case findAccess fingerprint r of
        Inl e \<Rightarrow> Inl e
      | Inr a \<Rightarrow>
          if \<not> Access_usableAt a (env_now E 0)
          then Inl (authFailure ''The access token is inactive.'')
          else (case requireActive (ts_apps svc) (ctx_client (at_context a)) (ts_clients svc) of
                  Inl _ \<Rightarrow> Inl (authFailure ''The OAuth client is inactive.'')
                | Inr _ \<Rightarrow> Inr \<lparr>claims_active = True, claims_context = at_context a,
                                claims_issuedAt = at_issuedAt a,
                                claims_expiresAt = at_expiresAt a\<rparr>)))"

definition issueTokenExchange ::
    "env \<Rightarrow> TokenService \<Rightarrow> ClientId \<Rightarrow> string \<Rightarrow> string \<Rightarrow> string list \<Rightarrow> SenderConstraint option
     \<Rightarrow> TokenRepository \<Rightarrow> MachineTokenGrant Result \<times> TokenRepository" where
  "issueTokenExchange E svc clientId subjectToken audience scopes senderConstraint r =
     (case introspect E svc subjectToken r of
        Inl e \<Rightarrow> (Inl e, r)
      | Inr source \<Rightarrow>
          let sourceContext = claims_context source
          in if ctx_client sourceContext \<noteq> clientId
             then (fail_msg AuthenticationFailed ''The subject token is not bound to this client.'', r)
             else if \<not> sameConstraint (ctx_senderConstraint sourceContext) senderConstraint
             then (fail_msg AuthenticationFailed ''The subject token sender binding is invalid.'', r)
             else if audience = [] \<or> \<not> TokenContext_permitsAudience sourceContext audience
             then (fail_msg PermissionDenied ''Token exchange cannot widen the audience.'', r)
             else
               let requested = (if scopes = [] then ctx_scopes sourceContext else scopes)
               in if list_ex (\<lambda>scope. \<not> TokenContext_permits sourceContext scope) requested
                  then (fail_msg PermissionDenied ''Token exchange cannot widen scope.'', r)
                  else
     (case randomTokenBase64Url E 0 24 of
        Inl e \<Rightarrow> (Inl e, r)
      | Inr familyRaw \<Rightarrow>
     (case randomTokenBase64Url E 1 32 of
        Inl e \<Rightarrow> (Inl e, r)
      | Inr accessRaw \<Rightarrow>
     (case token_digest E svc (''opa_'' @ accessRaw) of
        Inl e \<Rightarrow> (Inl e, r)
      | Inr accessDigest \<Rightarrow>
          store_machine_token E svc
            (TokenContext_new clientId (ctx_identity sourceContext) (ctx_provider sourceContext)
               (ctx_assurance sourceContext) (ctx_strength sourceContext) requested
               (ctx_authenticatedAt sourceContext) [audience] senderConstraint)
            (env_now E 1) (''opa_'' @ accessRaw) accessDigest familyRaw r))))"

definition makeRotation ::
    "env \<Rightarrow> TokenService \<Rightarrow> RefreshTokenRecord \<Rightarrow> TokenRepository \<Rightarrow> TokenGrant Result \<times> TokenRepository" where
  "makeRotation E svc current r =
     (case randomTokenBase64Url E 0 32 of
        Inl e \<Rightarrow> (Inl e, r)
      | Inr accessRaw \<Rightarrow>
     (case randomTokenBase64Url E 1 32 of
        Inl e \<Rightarrow> (Inl e, r)
      | Inr refreshRaw \<Rightarrow>
     (case token_digest E svc (''opa_'' @ accessRaw) of
        Inl e \<Rightarrow> (Inl e, r)
      | Inr accessDigest \<Rightarrow>
     (case token_digest E svc (''opr_'' @ refreshRaw) of
        Inl e \<Rightarrow> (Inl e, r)
      | Inr refreshDigest \<Rightarrow>
          let now = env_now E 0
          in (case rotateRefresh (rt_digest current) now
                     (Access_new accessDigest (rt_family current) (rt_context current) now
                        (now + tp_accessLifetime (ts_policy svc)))
                     (Refresh_new refreshDigest (rt_family current) (rt_sequence current + 1)
                        (rt_context current) now (rt_expiresAt current)) r of
                (Inl e, r') \<Rightarrow> (Inl e, r')
              | (Inr _, r') \<Rightarrow>
                  (Inr \<lparr>tg_access = ''opa_'' @ accessRaw, tg_refresh = ''opr_'' @ refreshRaw,
                        tg_expiresIn = tp_accessLifetime (ts_policy svc),
                        tg_context = rt_context current\<rparr>, r'))))))"

definition token_refresh ::
    "env \<Rightarrow> TokenService \<Rightarrow> ClientId \<Rightarrow> string \<Rightarrow> SenderConstraint option \<Rightarrow> TokenRepository
     \<Rightarrow> TokenGrant Result \<times> TokenRepository" where
  "token_refresh E svc clientId refreshToken senderConstraint r =
     (case requireActive (ts_apps svc) clientId (ts_clients svc) of
        Inl e \<Rightarrow> (Inl e, r)
      | Inr _ \<Rightarrow>
     (case token_digest E svc refreshToken of
        Inl e \<Rightarrow> (Inl e, r)
      | Inr fingerprint \<Rightarrow>
     (case findRefresh fingerprint r of
        Inl e \<Rightarrow> (Inl e, r)
      | Inr current \<Rightarrow>
          if ctx_client (rt_context current) \<noteq> clientId
          then (Inl (authFailure ''Refresh token client binding mismatch.''), r)
          else if \<not> sameConstraint (ctx_senderConstraint (rt_context current)) senderConstraint
          then (Inl (authFailure ''Refresh token sender binding mismatch.''), r)
          else makeRotation E svc current r)))"

definition token_revoke ::
    "env \<Rightarrow> TokenService \<Rightarrow> string \<Rightarrow> TokenRepository \<Rightarrow> Status \<times> TokenRepository" where
  "token_revoke E svc token r =
     (case token_digest E svc token of
        Inl _ \<Rightarrow> (ok, r)
      | Inr fingerprint \<Rightarrow> revokeToken fingerprint (env_now E 0) r)"

definition revokeForClient ::
    "env \<Rightarrow> TokenService \<Rightarrow> ClientId \<Rightarrow> string \<Rightarrow> TokenRepository \<Rightarrow> Status \<times> TokenRepository" where
  "revokeForClient E svc clientId token r =
     (case token_digest E svc token of
        Inl _ \<Rightarrow> (ok, r)
      | Inr fingerprint \<Rightarrow>
          if (case findAccess fingerprint r of
                Inl _ \<Rightarrow> False | Inr a \<Rightarrow> ctx_client (at_context a) = clientId)
          then revokeToken fingerprint (env_now E 0) r
          else if (case findRefresh fingerprint r of
                     Inl _ \<Rightarrow> False | Inr t \<Rightarrow> ctx_client (rt_context t) = clientId)
          then revokeToken fingerprint (env_now E 0) r
          else (ok, r))"

definition authenticateDelegated ::
    "env \<Rightarrow> TokenService \<Rightarrow> string \<Rightarrow> TokenRepository \<Rightarrow> DelegatedAccess Result" where
  "authenticateDelegated E svc token r =
     (case introspect E svc token r of
        Inl e \<Rightarrow> Inl e
      | Inr claims \<Rightarrow>
          let context = claims_context claims
          in (case fromDelegatedAccess (ctx_identity context) (ctx_provider context)
                     (ctx_assurance context) (ctx_strength context) (ctx_authenticatedAt context)
                     (env_now E 1) (claims_expiresAt claims) of
                Inl e \<Rightarrow> Inl e
              | Inr authenticated \<Rightarrow>
                  Inr (DelegatedAccess_new authenticated (id_value (ctx_client context))
                         (ctx_scopes context) (ctx_audiences context)
                         (map_option
                            (\<lambda>c. \<lparr>constraint_kind =
                                    (if sc_kind c = Dpop then DelegatedSenderConstraintKind.Dpop
                                     else DelegatedSenderConstraintKind.Mtls),
                                  constraint_value = sc_value c\<rparr>)
                            (ctx_senderConstraint context)))))"

end
