(* ===== verification/Token_Proofs.thy ===== *)
theory Token_Proofs
  imports Token
begin

text \<open>
  What every history of token-service calls guarantees. Each call changes the repository in one of
  six ways, the constructors of \<open>token_change\<close>; invariants and stable facts are proved once per
  constructor.
\<close>

datatype token_call =
    IssueToken env TokenService AuthorizationCode "SenderConstraint option"
  | IssueDevice env TokenService DeviceAuthorization "SenderConstraint option"
  | IssueMachine env TokenService ServiceIdentity string "string list" "SenderConstraint option"
  | ExchangeToken env TokenService ClientId string string "string list" "SenderConstraint option"
  | RefreshToken env TokenService ClientId string "SenderConstraint option"
  | RevokeBearer env TokenService string
  | RevokeForClient env TokenService ClientId string
  | RevokeFamily TokenFamilyId Instant

datatype token_reply =
    GrantReply "TokenGrant Result"
  | MachineReply "MachineTokenGrant Result"
  | RevokeReply Status

fun token_step :: "token_call \<Rightarrow> TokenRepository \<Rightarrow> token_reply \<times> TokenRepository" where
  "token_step (IssueToken E svc code sc) r = apfst GrantReply (token_issue E svc code sc r)"
| "token_step (IssueDevice E svc a sc) r = apfst GrantReply (issueDeviceAuthorization E svc a sc r)"
| "token_step (IssueMachine E svc s audience scopes sc) r =
     apfst MachineReply (issueClientCredentials E svc s audience scopes sc r)"
| "token_step (ExchangeToken E svc cid subject audience scopes sc) r =
     apfst MachineReply (issueTokenExchange E svc cid subject audience scopes sc r)"
| "token_step (RefreshToken E svc cid token sc) r = apfst GrantReply (token_refresh E svc cid token sc r)"
| "token_step (RevokeBearer E svc token) r = apfst RevokeReply (token_revoke E svc token r)"
| "token_step (RevokeForClient E svc cid token) r = apfst RevokeReply (revokeForClient E svc cid token r)"
| "token_step (RevokeFamily f now) r = apfst RevokeReply (revokeFamily f now r)"

abbreviation tokens_after :: "token_call list \<Rightarrow> TokenRepository" where
  "tokens_after cs \<equiv> final_state token_step cs empty_tokens"

text \<open>The family identifier a call draws, if it starts a family.\<close>

definition draws_family :: "env \<Rightarrow> TokenFamilyId \<Rightarrow> bool" where
  "draws_family E f = (randomTokenBase64Url E 0 24 = Inr (id_value f))"

fun starts_family :: "token_call \<Rightarrow> TokenFamilyId \<Rightarrow> bool" where
  "starts_family (IssueToken E svc code sc) f = draws_family E f"
| "starts_family (IssueDevice E svc a sc) f = draws_family E f"
| "starts_family (IssueMachine E svc s audience scopes sc) f = draws_family E f"
| "starts_family (ExchangeToken E svc cid subject audience scopes sc) f = draws_family E f"
| "starts_family _ f = False"

definition ctx_sorted :: "TokenContext \<Rightarrow> bool" where
  "ctx_sorted c \<longleftrightarrow> sorted (ctx_scopes c) \<and> sorted (ctx_audiences c)"

lemma TokenContext_new_sorted [simp]: "ctx_sorted (TokenContext_new c i p a s scopes t audiences sc)"
  by (simp add: ctx_sorted_def TokenContext_new_def sort_unique_sorted_le)

lemma ctx_client_new [simp]: "ctx_client (TokenContext_new c i p a s scopes t audiences sc) = c"
  by (simp add: TokenContext_new_def)

lemma permits_iff:
  "ctx_sorted c \<Longrightarrow> TokenContext_permits c v \<longleftrightarrow> v = [] \<or> v \<in> set (ctx_scopes c)"
  "ctx_sorted c \<Longrightarrow> TokenContext_permitsAudience c v \<longleftrightarrow> v = [] \<or> v \<in> set (ctx_audiences c)"
  by (auto simp: ctx_sorted_def TokenContext_permits_def TokenContext_permitsAudience_def
      binary_search_sorted)

lemma permits_new [simp]:
  "TokenContext_permits (TokenContext_new c i p a s scopes t audiences sc) v \<longleftrightarrow> v = [] \<or> v \<in> set scopes"
  "TokenContext_permitsAudience (TokenContext_new c i p a s scopes t audiences sc) v
     \<longleftrightarrow> v = [] \<or> v \<in> set audiences"
  unfolding permits_iff [OF TokenContext_new_sorted] by (simp_all add: TokenContext_new_def)

inductive token_change :: "token_call \<Rightarrow> TokenRepository \<Rightarrow> TokenRepository \<Rightarrow> bool" where
  unchanged: "token_change c r r"
| started: "starts_family c f \<Longrightarrow> ctx_sorted ctx \<Longrightarrow>
    map_of (tr_access r) (toHex d1) = None \<Longrightarrow> map_of (tr_refresh r) (toHex d2) = None \<Longrightarrow>
    token_change c r
      \<lparr>tr_access = omap_emplace (toHex d1) (Access_new d1 f ctx now e1) (tr_access r),
       tr_refresh = omap_emplace (toHex d2) (Refresh_new d2 f 0 ctx now e2) (tr_refresh r)\<rparr>"
| machine: "starts_family c f \<Longrightarrow> ctx_sorted ctx \<Longrightarrow> map_of (tr_access r) (toHex d1) = None \<Longrightarrow>
    token_change c r
      (r\<lparr>tr_access := omap_emplace (toHex d1) (Access_new d1 f ctx now e1) (tr_access r)\<rparr>)"
| rotated: "map_of (tr_refresh r) (toHex (rt_digest t)) = Some t \<Longrightarrow> Refresh_usableAt t now \<Longrightarrow>
    map_of (tr_access r) (toHex d1) = None \<Longrightarrow> map_of (tr_refresh r) (toHex d2) = None \<Longrightarrow>
    token_change c r
      \<lparr>tr_access = omap_emplace (toHex d1) (Access_new d1 (rt_family t) (rt_context t) now e1)
          (tr_access r),
       tr_refresh = omap_emplace (toHex d2)
          (Refresh_new d2 (rt_family t) (rt_sequence t + 1) (rt_context t) now (rt_expiresAt t))
          (omap_modify (toHex (rt_digest t)) (Refresh_markUsed now) (tr_refresh r))\<rparr>"
| family_revoked: "token_change c r (revoke_family_records f now r)"
| access_revoked: "token_change c r
    (r\<lparr>tr_access := omap_modify k (Access_revoke now) (tr_access r)\<rparr>)"

definition tokens_inv :: "TokenRepository \<Rightarrow> bool" where
  "tokens_inv r \<longleftrightarrow>
     omap_ok (tr_access r) \<and> omap_ok (tr_refresh r)
     \<and> (\<forall>k a. map_of (tr_access r) k = Some a \<longrightarrow> k = toHex (at_digest a) \<and> ctx_sorted (at_context a))
     \<and> (\<forall>k t. map_of (tr_refresh r) k = Some t \<longrightarrow> k = toHex (rt_digest t) \<and> ctx_sorted (rt_context t))"

lemma tokens_invD:
  assumes "tokens_inv r"
  shows "omap_ok (tr_access r)" "omap_ok (tr_refresh r)"
    and "map_of (tr_access r) k = Some a \<Longrightarrow> k = toHex (at_digest a)"
    and "map_of (tr_access r) k = Some a \<Longrightarrow> ctx_sorted (at_context a)"
    and "map_of (tr_refresh r) k = Some t \<Longrightarrow> k = toHex (rt_digest t)"
    and "map_of (tr_refresh r) k = Some t \<Longrightarrow> ctx_sorted (rt_context t)"
  using assms unfolding tokens_inv_def by blast+

section \<open>Each call is one of these changes\<close>

lemma makeInitial_change:
  assumes "ctx_sorted ctx" "\<And>f. draws_family E f \<Longrightarrow> starts_family c f"
  shows "token_change c r (snd (makeInitial E svc ctx r))"
proof -
  have stored: "token_change c r (snd (storeInitial (Access_new d1 (StrongId raw) ctx now e1)
      (Refresh_new d2 (StrongId raw) 0 ctx now e2) r))"
    if "randomTokenBase64Url E 0 24 = Inr raw" for d1 d2 raw now e1 e2
    using started [OF assms(2) assms(1), of "StrongId raw" r d1 d2 now e1 e2] that
    by (auto simp: storeInitial_def Access_new_def Refresh_new_def draws_family_def omap_contains_def
        Let_def unchanged)
  then have "token_change c r r'" if "randomTokenBase64Url E 0 24 = Inr raw"
      "storeInitial (Access_new d1 (StrongId raw) ctx now e1)
      (Refresh_new d2 (StrongId raw) 0 ctx now e2) r = (res, r')" for d1 d2 raw now e1 e2 res r'
    using that by (metis snd_conv)
  then show ?thesis
    unfolding makeInitial_def Let_def by (auto simp: unchanged split: sum.splits prod.splits)
qed

lemma store_machine_change:
  assumes "ctx_sorted ctx" "randomTokenBase64Url E 0 24 = Inr raw"
    and "\<And>f. draws_family E f \<Longrightarrow> starts_family c f"
  shows "token_change c r (snd (store_machine_token E svc ctx now access d1 raw r))"
  using machine [OF assms(3) assms(1), of "StrongId raw" r d1 now] assms(2)
  by (auto simp: store_machine_token_def storeAccessOnly_def Access_new_def draws_family_def
      omap_contains_def Let_def unchanged split: prod.splits)

lemma rotateRefresh_change:
  assumes "map_of (tr_refresh r) (toHex (rt_digest t)) = Some t"
  shows "token_change c r (snd (rotateRefresh (rt_digest t) now
      (Access_new d1 (rt_family t) (rt_context t) now e1)
      (Refresh_new d2 (rt_family t) (rt_sequence t + 1) (rt_context t) now (rt_expiresAt t)) r))"
  using rotated [OF assms, of now d1 d2 c e1] assms
  by (auto simp: rotateRefresh_def Access_new_def Refresh_new_def omap_contains_def Let_def
      unchanged family_revoked)

lemma makeRotation_change:
  assumes "map_of (tr_refresh r) (toHex (rt_digest t)) = Some t"
  shows "token_change c r (snd (makeRotation E svc t r))"
proof -
  have "token_change c r r'" if "rotateRefresh (rt_digest t) now
      (Access_new d1 (rt_family t) (rt_context t) now e1)
      (Refresh_new d2 (rt_family t) (rt_sequence t + 1) (rt_context t) now (rt_expiresAt t)) r
      = (res, r')" for now d1 d2 e1 res r'
    using rotateRefresh_change [OF assms, of c now d1 e1 d2] that by simp
  then show ?thesis
    unfolding makeRotation_def Let_def by (auto simp: unchanged split: sum.splits prod.splits)
qed

lemma revokeToken_change: "token_change c r (snd (revokeToken d now r))"
  by (auto simp: revokeToken_def unchanged family_revoked access_revoked split: option.splits)

lemma token_step_change:
  assumes "tokens_inv r"
  shows "token_change c r (snd (token_step c r))"
proof (cases c)
  case (IssueToken E svc code sc)
  then show ?thesis
    by (auto simp: token_issue_def intro!: makeInitial_change)
next
  case (IssueDevice E svc a sc)
  then show ?thesis
    by (auto simp: issueDeviceAuthorization_def unchanged intro!: makeInitial_change split: option.splits)
next
  case (IssueMachine E svc s audience scopes sc)
  then show ?thesis
    by (auto simp: issueClientCredentials_def Let_def unchanged intro!: store_machine_change
        split: sum.splits)
next
  case (ExchangeToken E svc cid subject audience scopes sc)
  then show ?thesis
    by (auto simp: issueTokenExchange_def Let_def unchanged intro!: store_machine_change
        split: sum.splits)
next
  case (RefreshToken E svc cid token sc)
  have "token_change c r (snd (makeRotation E svc t r))" if "findRefresh d r = Inr t" for d t
  proof (rule makeRotation_change)
    have "map_of (tr_refresh r) (toHex d) = Some t"
      using that by (simp add: findRefresh_def split: option.splits)
    then show "map_of (tr_refresh r) (toHex (rt_digest t)) = Some t"
      using tokens_invD(5) [OF assms] by fastforce
  qed
  with RefreshToken show ?thesis
    by (auto simp: token_refresh_def unchanged split: sum.splits)
next
  case (RevokeBearer E svc token)
  then show ?thesis
    by (auto simp: token_revoke_def unchanged revokeToken_change split: sum.splits)
next
  case (RevokeForClient E svc cid token)
  then show ?thesis
    by (auto simp: revokeForClient_def unchanged revokeToken_change split: sum.splits)
next
  case (RevokeFamily f now)
  then show ?thesis
    by (simp add: revokeFamily_def family_revoked)
qed

section \<open>The invariant\<close>

lemma Access_frame [simp]:
  "at_digest (Access_revoke now a) = at_digest a" "at_family (Access_revoke now a) = at_family a"
  "at_context (Access_revoke now a) = at_context a" "at_expiresAt (Access_revoke now a) = at_expiresAt a"
  "at_state (Access_revoke now a) = AccessTokenState.Revoked"
  by (cases "at_state a"; simp add: Access_revoke_def)+

lemma Access_new_simps [simp]:
  "at_digest (Access_new d f ctx now e) = d" "at_family (Access_new d f ctx now e) = f"
  "at_context (Access_new d f ctx now e) = ctx" "at_expiresAt (Access_new d f ctx now e) = e"
  "at_issuedAt (Access_new d f ctx now e) = now"
  "at_state (Access_new d f ctx now e) = AccessTokenState.Active"
  by (simp_all add: Access_new_def)

lemma Refresh_frame [simp]:
  "rt_digest (Refresh_revoke now t) = rt_digest t" "rt_family (Refresh_revoke now t) = rt_family t"
  "rt_context (Refresh_revoke now t) = rt_context t" "rt_expiresAt (Refresh_revoke now t) = rt_expiresAt t"
  "rt_state (Refresh_revoke now t) = RefreshTokenState.Revoked"
  "rt_digest (Refresh_markUsed now t) = rt_digest t" "rt_family (Refresh_markUsed now t) = rt_family t"
  "rt_context (Refresh_markUsed now t) = rt_context t"
  "rt_expiresAt (Refresh_markUsed now t) = rt_expiresAt t"
  "rt_state (Refresh_markUsed now t) \<noteq> RefreshTokenState.Active"
  by (cases "rt_state t"; simp add: Refresh_revoke_def Refresh_markUsed_def)+

lemma Refresh_new_simps [simp]:
  "rt_digest (Refresh_new d f q ctx now e) = d" "rt_family (Refresh_new d f q ctx now e) = f"
  "rt_context (Refresh_new d f q ctx now e) = ctx" "rt_expiresAt (Refresh_new d f q ctx now e) = e"
  "rt_sequence (Refresh_new d f q ctx now e) = q"
  "rt_state (Refresh_new d f q ctx now e) = RefreshTokenState.Active"
  by (simp_all add: Refresh_new_def)

text \<open>Lookups after each change.\<close>

lemma revoke_family_lookup:
  "map_of (tr_access (revoke_family_records f now r)) k =
     map_option (\<lambda>a. if at_family a = f then Access_revoke now a else a) (map_of (tr_access r) k)"
  "map_of (tr_refresh (revoke_family_records f now r)) k =
     map_option (\<lambda>t. if rt_family t = f then Refresh_revoke now t else t) (map_of (tr_refresh r) k)"
  by (simp_all add: revoke_family_records_def map_of_map_values)

lemma revoke_family_ok:
  "omap_ok (tr_access (revoke_family_records f now r)) = omap_ok (tr_access r)"
  "omap_ok (tr_refresh (revoke_family_records f now r)) = omap_ok (tr_refresh r)"
  by (simp_all add: revoke_family_records_def)

lemmas token_lookup = revoke_family_lookup om.find_emplace_new map_of_modify

text \<open>The repository after a successful rotation of \<open>t\<close>.\<close>

definition rotated_repository ::
    "RefreshTokenRecord \<Rightarrow> Instant \<Rightarrow> TokenDigest \<Rightarrow> Instant \<Rightarrow> TokenDigest \<Rightarrow> TokenRepository \<Rightarrow> TokenRepository" where
  "rotated_repository t now d1 e1 d2 r =
     \<lparr>tr_access = omap_emplace (toHex d1) (Access_new d1 (rt_family t) (rt_context t) now e1)
          (tr_access r),
      tr_refresh = omap_emplace (toHex d2)
          (Refresh_new d2 (rt_family t) (rt_sequence t + 1) (rt_context t) now (rt_expiresAt t))
          (omap_modify (toHex (rt_digest t)) (Refresh_markUsed now) (tr_refresh r))\<rparr>"

lemma rotated_lookup:
  assumes "omap_ok (tr_access r)" "omap_ok (tr_refresh r)"
    and "map_of (tr_refresh r) (toHex (rt_digest t)) = Some t"
    and "map_of (tr_access r) (toHex d1) = None" "map_of (tr_refresh r) (toHex d2) = None"
  shows "map_of (tr_access (rotated_repository t now d1 e1 d2 r)) =
      (map_of (tr_access r))(toHex d1 \<mapsto> Access_new d1 (rt_family t) (rt_context t) now e1)"
    and "map_of (tr_refresh (rotated_repository t now d1 e1 d2 r)) =
      (map_of (tr_refresh r))(toHex (rt_digest t) \<mapsto> Refresh_markUsed now t,
        toHex d2 \<mapsto> Refresh_new d2 (rt_family t) (rt_sequence t + 1) (rt_context t) now (rt_expiresAt t))"
    and "omap_ok (tr_access (rotated_repository t now d1 e1 d2 r))"
    and "omap_ok (tr_refresh (rotated_repository t now d1 e1 d2 r))"
proof -
  have "map_of (omap_modify (toHex (rt_digest t)) (Refresh_markUsed now) (tr_refresh r)) (toHex d2) = None"
    using assms(3,5) by (auto simp: map_of_modify)
  then show "map_of (tr_refresh (rotated_repository t now d1 e1 d2 r)) =
      (map_of (tr_refresh r))(toHex (rt_digest t) \<mapsto> Refresh_markUsed now t,
        toHex d2 \<mapsto> Refresh_new d2 (rt_family t) (rt_sequence t + 1) (rt_context t) now (rt_expiresAt t))"
    using assms(2,3) by (simp add: rotated_repository_def om.find_emplace_new map_of_modify)
qed (use assms in \<open>simp_all add: rotated_repository_def om.find_emplace_new omap_ok_emplace\<close>)

lemma tokens_invI:
  assumes "omap_ok (tr_access r)" "omap_ok (tr_refresh r)"
    and "\<And>k a. map_of (tr_access r) k = Some a \<Longrightarrow> k = toHex (at_digest a) \<and> ctx_sorted (at_context a)"
    and "\<And>k t. map_of (tr_refresh r) k = Some t \<Longrightarrow> k = toHex (rt_digest t) \<and> ctx_sorted (rt_context t)"
  shows "tokens_inv r"
  using assms unfolding tokens_inv_def by blast

lemma tokens_change_inv: "token_change c r r' \<Longrightarrow> tokens_inv r \<Longrightarrow> tokens_inv r'"
proof (induction rule: token_change.induct)
  case (rotated r t now d1 d2 c e1)
  note ok = tokens_invD [OF rotated.prems]
  note look = rotated_lookup [OF ok(1,2) rotated.hyps(1,3,4), of now e1]
  have "tokens_inv (rotated_repository t now d1 e1 d2 r)"
  proof (rule tokens_invI)
    fix k a assume "map_of (tr_access (rotated_repository t now d1 e1 d2 r)) k = Some a"
    then show "k = toHex (at_digest a) \<and> ctx_sorted (at_context a)"
      unfolding look using ok(3,4) [of k a] ok(6) [OF rotated.hyps(1)] by (auto split: if_splits)
  next
    fix k u assume "map_of (tr_refresh (rotated_repository t now d1 e1 d2 r)) k = Some u"
    then show "k = toHex (rt_digest u) \<and> ctx_sorted (rt_context u)"
      unfolding look using ok(5,6) [of k u] ok(6) [OF rotated.hyps(1)] by (auto split: if_splits)
  qed (rule look)+
  then show ?case by (simp only: rotated_repository_def)
next
  case (family_revoked c r f now)
  then show ?case
    by (auto simp: tokens_inv_def revoke_family_ok revoke_family_lookup)
next
  case (access_revoked c r k now)
  then show ?case
    by (auto simp: tokens_inv_def map_of_modify split: if_splits)
qed (auto simp: tokens_inv_def token_lookup omap_ok_emplace split: if_splits)

interpretation tokens: guarded_machine token_step tokens_inv
proof
  fix r c assume "tokens_inv r"
  then show "tokens_inv (snd (token_step c r))"
    using tokens_change_inv token_step_change by blast
qed

lemma tokens_after_inv [simp]: "tokens_inv (tokens_after cs)"
  by (rule tokens.run_inv) (simp add: tokens_inv_def empty_tokens_def)

section \<open>Dead families stay dead, spent refresh tokens stay spent\<close>

definition family_dead :: "TokenFamilyId \<Rightarrow> TokenRepository \<Rightarrow> bool" where
  "family_dead f r \<longleftrightarrow>
     (\<forall>k a. map_of (tr_access r) k = Some a \<longrightarrow> at_family a = f \<longrightarrow> at_state a = AccessTokenState.Revoked)
     \<and> (\<forall>k t. map_of (tr_refresh r) k = Some t \<longrightarrow> rt_family t = f \<longrightarrow> rt_state t \<noteq> RefreshTokenState.Active)"

lemma AccessTokenState_neq: "st \<noteq> AccessTokenState.Active \<longleftrightarrow> st = AccessTokenState.Revoked"
  by (cases st) simp_all

lemma family_dead_change:
  "token_change c r r' \<Longrightarrow> tokens_inv r \<Longrightarrow> family_dead f r \<Longrightarrow> \<not> starts_family c f \<Longrightarrow> family_dead f r'"
proof (induction rule: token_change.induct)
  case (rotated r t now d1 d2 c e1)
  note look = rotated_lookup [OF tokens_invD(1,2) [OF rotated.prems(1)] rotated.hyps(1,3,4), of now e1]
  have "rt_state t = RefreshTokenState.Active"
    using rotated.hyps(2) by (simp add: Refresh_usableAt_def)
  then have neq: "rt_family t \<noteq> f"
    using rotated.hyps(1) rotated.prems(2) unfolding family_dead_def by blast
  have "family_dead f (rotated_repository t now d1 e1 d2 r)"
    unfolding family_dead_def look using rotated.prems(2) neq
    by (auto simp: family_dead_def)
  then show ?case by (simp only: rotated_repository_def)
next
  case (started c f' ctx r d1 d2 now e1 e2)
  then show ?case
    using tokens_invD(1,2) [OF started.prems(1)]
    by (auto simp: family_dead_def om.find_emplace_new split: if_splits)
next
  case (machine c f' ctx r d1 now e1)
  then show ?case
    using tokens_invD(1) [OF machine.prems(1)]
    by (auto simp: family_dead_def om.find_emplace_new split: if_splits)
next
  case (family_revoked c r f' now)
  then show ?case
    by (auto simp: family_dead_def revoke_family_lookup split: if_splits)
next
  case (access_revoked c r k now)
  then show ?case
    by (auto simp: family_dead_def map_of_modify split: if_splits)
qed simp

interpretation dead_family: stable_fact token_step tokens_inv "\<lambda>c. \<not> starts_family c f" "family_dead f"
  for f :: TokenFamilyId
  by unfold_locales (rule family_dead_change [OF token_step_change])

definition spent :: "TokenDigest \<Rightarrow> TokenFamilyId \<Rightarrow> TokenContext \<Rightarrow> TokenRepository \<Rightarrow> bool" where
  "spent d f ctx r \<longleftrightarrow>
     (\<exists>t. map_of (tr_refresh r) (toHex d) = Some t \<and> rt_family t = f \<and> rt_context t = ctx
        \<and> rt_state t \<noteq> RefreshTokenState.Active)"

lemma spent_change:
  "token_change c r r' \<Longrightarrow> tokens_inv r \<Longrightarrow> spent d f ctx r \<Longrightarrow> spent d f ctx r'"
proof (induction rule: token_change.induct)
  case (rotated r t now d1 d2 c e1)
  note look = rotated_lookup [OF tokens_invD(1,2) [OF rotated.prems(1)] rotated.hyps(1,3,4), of now e1]
  obtain u where u: "map_of (tr_refresh r) (toHex d) = Some u" "rt_family u = f" "rt_context u = ctx"
      "rt_state u \<noteq> RefreshTokenState.Active"
    using rotated.prems(2) by (auto simp: spent_def)
  have "d \<noteq> rt_digest t" "d \<noteq> d2"
    using u rotated.hyps(1,2,4) by (auto simp: Refresh_usableAt_def)
  then have "spent d f ctx (rotated_repository t now d1 e1 d2 r)"
    unfolding spent_def look using u by (simp add: toHex_inj)
  then show ?case by (simp only: rotated_repository_def)
next
  case (family_revoked c r f' now)
  then obtain u where u: "map_of (tr_refresh r) (toHex d) = Some u" "rt_family u = f"
      "rt_context u = ctx" "rt_state u \<noteq> RefreshTokenState.Active"
    by (auto simp: spent_def)
  let ?u = "if rt_family u = f' then Refresh_revoke now u else u"
  have "map_of (tr_refresh (revoke_family_records f' now r)) (toHex d) = Some ?u"
    using u(1) by (simp add: revoke_family_lookup)
  moreover have "rt_family ?u = f" "rt_context ?u = ctx" "rt_state ?u \<noteq> RefreshTokenState.Active"
    using u(2-) by auto
  ultimately show ?case
    unfolding spent_def by blast
next
  case (started c f' ctx r d1 d2 now e1 e2)
  then show ?case
    using tokens_invD(1,2) [OF started.prems(1)] by (auto simp: spent_def om.find_emplace_new)
qed (auto simp: spent_def)

interpretation spent_token: stable_fact token_step tokens_inv "\<lambda>_. True" "spent d f ctx"
  for d :: TokenDigest and f :: TokenFamilyId and ctx :: TokenContext
  by unfold_locales (rule spent_change [OF token_step_change])

section \<open>One active refresh token per family\<close>

text \<open>
  Runs in which a family identifier, 24 random bytes, is never drawn while some record carries it.
\<close>

definition family_used :: "TokenFamilyId \<Rightarrow> TokenRepository \<Rightarrow> bool" where
  "family_used f r \<longleftrightarrow>
     (\<exists>k a. map_of (tr_access r) k = Some a \<and> at_family a = f)
     \<or> (\<exists>k t. map_of (tr_refresh r) k = Some t \<and> rt_family t = f)"

inductive token_reach :: "TokenRepository \<Rightarrow> bool" where
  init: "token_reach empty_tokens"
| step: "token_reach r \<Longrightarrow> (\<And>f. starts_family c f \<Longrightarrow> \<not> family_used f r) \<Longrightarrow>
    token_reach (snd (token_step c r))"

definition one_chain :: "TokenRepository \<Rightarrow> bool" where
  "one_chain r \<longleftrightarrow>
     (\<forall>k t k' t'. map_of (tr_refresh r) k = Some t \<longrightarrow> map_of (tr_refresh r) k' = Some t' \<longrightarrow>
        rt_family t = rt_family t' \<longrightarrow>
        rt_expiresAt t = rt_expiresAt t' \<and> rt_context t = rt_context t'
        \<and> (rt_state t = RefreshTokenState.Active \<longrightarrow> rt_state t' = RefreshTokenState.Active \<longrightarrow> k = k'))"

lemma one_chainI:
  assumes "\<And>k t k' t'. map_of (tr_refresh r) k = Some t \<Longrightarrow> map_of (tr_refresh r) k' = Some t' \<Longrightarrow>
      rt_family t = rt_family t' \<Longrightarrow>
      rt_expiresAt t = rt_expiresAt t' \<and> rt_context t = rt_context t'
      \<and> (rt_state t = RefreshTokenState.Active \<longrightarrow> rt_state t' = RefreshTokenState.Active \<longrightarrow> k = k')"
  shows "one_chain r"
  using assms unfolding one_chain_def by blast

lemma one_chainD:
  assumes "one_chain r" "map_of (tr_refresh r) k = Some t" "map_of (tr_refresh r) k' = Some t'"
    and "rt_family t = rt_family t'"
  shows "rt_expiresAt t = rt_expiresAt t'" "rt_context t = rt_context t'"
    and "rt_state t = RefreshTokenState.Active \<Longrightarrow> rt_state t' = RefreshTokenState.Active \<Longrightarrow> k = k'"
  using assms unfolding one_chain_def by blast+

lemma one_chain_access: "one_chain r \<Longrightarrow> one_chain (r\<lparr>tr_access := m\<rparr>)"
proof -
  have "tr_refresh (r\<lparr>tr_access := m\<rparr>) = tr_refresh r"
    by simp
  then show "one_chain r \<Longrightarrow> one_chain (r\<lparr>tr_access := m\<rparr>)"
    unfolding one_chain_def by (simp only:)
qed

lemma one_chain_change:
  "token_change c r r' \<Longrightarrow> tokens_inv r \<Longrightarrow> one_chain r \<Longrightarrow> (\<And>f. starts_family c f \<Longrightarrow> \<not> family_used f r)
   \<Longrightarrow> one_chain r'"
proof (induction rule: token_change.induct)
  case (started c f ctx r d1 d2 now e1 e2)
  have fresh: "rt_family t \<noteq> f" if "map_of (tr_refresh r) k = Some t" for k t
    using started.prems(3) [OF started.hyps(1)] that by (auto simp: family_used_def)
  let ?new = "Refresh_new d2 f 0 ctx now e2"
  have lookup: "map_of (omap_emplace (toHex d2) ?new (tr_refresh r)) = (map_of (tr_refresh r))(toHex d2 \<mapsto> ?new)"
    using started.hyps(4) tokens_invD(2) [OF started.prems(1)] by (simp add: om.find_emplace_new)
  have new: "k = toHex d2 \<and> t = ?new"
    if "((map_of (tr_refresh r))(toHex d2 \<mapsto> ?new)) k = Some t" "rt_family t = f" for k t
    using that fresh [of k t] by (auto split: if_splits)
  have old: "map_of (tr_refresh r) k = Some t"
    if "((map_of (tr_refresh r))(toHex d2 \<mapsto> ?new)) k = Some t" "rt_family t \<noteq> f" for k t
    using that by (auto split: if_splits)
  show ?case
  proof (rule one_chainI, goal_cases)
    case (1 k t k' t')
    show ?case
    proof (cases "rt_family t = f")
      case True
      then show ?thesis
        using 1 new [of k t] new [of k' t'] by (simp only: TokenRepository.simps lookup simp_thms)
    next
      case False
      then show ?thesis
        using 1 old [of k t] old [of k' t'] one_chainD [OF started.prems(2), of k t k' t']
        by (simp only: TokenRepository.simps lookup simp_thms) metis
    qed
  qed
next
  case (rotated r t now d1 d2 c e1)
  note look = rotated_lookup [OF tokens_invD(1,2) [OF rotated.prems(1)] rotated.hyps(1,3,4), of now e1]
  have active: "rt_state t = RefreshTokenState.Active"
    using rotated.hyps(2) by (simp add: Refresh_usableAt_def)
  let ?new = "Refresh_new d2 (rt_family t) (rt_sequence t + 1) (rt_context t) now (rt_expiresAt t)"
  define S where "S = map_of (tr_refresh r)"
  have others: "rt_expiresAt u = rt_expiresAt t \<and> rt_context u = rt_context t
      \<and> (k \<noteq> toHex (rt_digest t) \<longrightarrow> rt_state u \<noteq> RefreshTokenState.Active)"
    if "S k = Some u" "rt_family u = rt_family t" for k u
    using one_chainD [OF rotated.prems(2) _ rotated.hyps(1), of k u] that active by (auto simp: S_def)
  have entry: "rt_expiresAt u = rt_expiresAt t \<and> rt_context u = rt_context t
      \<and> (k \<noteq> toHex d2 \<longrightarrow> rt_state u \<noteq> RefreshTokenState.Active)"
    if "(S(toHex (rt_digest t) \<mapsto> Refresh_markUsed now t, toHex d2 \<mapsto> ?new)) k = Some u"
      "rt_family u = rt_family t" for k u
    using that others [of k u] by (auto split: if_splits)
  have "one_chain (rotated_repository t now d1 e1 d2 r)"
  proof (rule one_chainI, goal_cases)
    case (1 k u k' u')
    show ?case
    proof (cases "rt_family u = rt_family t")
      case True
      then show ?thesis
        using 1 entry [of k u] entry [of k' u'] unfolding look S_def by metis
    next
      case False
      then have "S k = Some u" "S k' = Some u'"
        using 1 unfolding look S_def by (auto split: if_splits)
      then show ?thesis
        using one_chainD [OF rotated.prems(2), of k u k' u'] 1(3) unfolding S_def by blast
    qed
  qed
  then show ?case by (simp only: rotated_repository_def)
next
  case (family_revoked c r f now)
  show ?case
  proof (rule one_chainI, goal_cases)
    case (1 k t k' t')
    then obtain u u' where u: "map_of (tr_refresh r) k = Some u" "map_of (tr_refresh r) k' = Some u'"
        "t = (if rt_family u = f then Refresh_revoke now u else u)"
        "t' = (if rt_family u' = f then Refresh_revoke now u' else u')"
      by (auto simp: revoke_family_lookup)
    then have "rt_family u = rt_family u'"
      using 1(3) by (auto split: if_splits)
    then show ?case
      using one_chainD [OF family_revoked.prems(2) u(1,2)] u(3,4) by auto
  qed
next
  case (machine c f ctx r d1 now e1)
  show ?case using machine.prems(2) by (rule one_chain_access)
next
  case (access_revoked c r k now)
  show ?case using access_revoked.prems(2) by (rule one_chain_access)
next
  case (unchanged c r)
  show ?case by (rule unchanged.prems(2))
qed

lemma token_reach_inv: "token_reach r \<Longrightarrow> tokens_inv r \<and> one_chain r"
proof (induction rule: token_reach.induct)
  case init
  then show ?case by (simp add: tokens_inv_def one_chain_def empty_tokens_def)
next
  case (step r c)
  then have "token_change c r (snd (token_step c r))"
    by (blast intro: token_step_change)
  with step show ?case
    using tokens_change_inv one_chain_change by blast
qed

section \<open>What the service calls did\<close>

lemma token_digest_HMAC:
  "env_HMAC E' = env_HMAC E \<Longrightarrow> ts_key svc' = ts_key svc \<Longrightarrow> token_digest E' svc' = token_digest E svc"
  by (intro ext) (simp add: token_digest_def hmac_HMAC [of E' E])

lemma introspect_Inr:
  "introspect E svc token r = Inr claims \<longleftrightarrow>
     (\<exists>d a client. token_digest E svc token = Inr d \<and> map_of (tr_access r) (toHex d) = Some a
        \<and> at_state a = AccessTokenState.Active \<and> env_now E 0 < at_expiresAt a
        \<and> requireActive (ts_apps svc) (ctx_client (at_context a)) (ts_clients svc) = Inr client
        \<and> claims = \<lparr>claims_active = True, claims_context = at_context a,
                    claims_issuedAt = at_issuedAt a, claims_expiresAt = at_expiresAt a\<rparr>)"
  by (auto simp: introspect_def findAccess_def Access_usableAt_def split: sum.splits option.splits)

lemma introspect_dead:
  assumes "family_dead f r" "token_digest E svc token = Inr d"
    and "map_of (tr_access r) (toHex d) = Some a" "at_family a = f"
  shows "\<not> succeeded (introspect E svc token r)"
proof
  assume "succeeded (introspect E svc token r)"
  then obtain claims where "introspect E svc token r = Inr claims" by (auto simp: succeeded_iff)
  then have "at_state a = AccessTokenState.Active"
    using assms(2,3) by (auto simp: introspect_Inr)
  with assms(1,3,4) show False by (auto simp: family_dead_def)
qed

text \<open>A successful refresh, and one that presents a token that is spent or expired.\<close>

lemma token_refresh_success:
  assumes "tokens_inv r" "token_refresh E svc cid token sc r = (Inr g, r')"
  obtains d t d1 d2 where "token_digest E svc token = Inr d" "map_of (tr_refresh r) (toHex d) = Some t"
    "rt_digest t = d" "Refresh_usableAt t (env_now E 0)" "ctx_client (rt_context t) = cid"
    "sameConstraint (ctx_senderConstraint (rt_context t)) sc"
    "token_digest E svc (tg_access g) = Inr d1" "token_digest E svc (tg_refresh g) = Inr d2"
    "map_of (tr_access r) (toHex d1) = None" "map_of (tr_refresh r) (toHex d2) = None"
    "r' = rotated_repository t (env_now E 0) d1 (env_now E 0 + tp_accessLifetime (ts_policy svc)) d2 r"
    "tg_context g = rt_context t"
proof -
  obtain d t where d: "token_digest E svc token = Inr d" "map_of (tr_refresh r) (toHex d) = Some t"
    and bound: "ctx_client (rt_context t) = cid" "sameConstraint (ctx_senderConstraint (rt_context t)) sc"
    and rotation: "makeRotation E svc t r = (Inr g, r')"
    using assms(2)
    by (auto simp: token_refresh_def findRefresh_def split: sum.splits option.splits if_splits)
  have t: "rt_digest t = d"
    using tokens_invD(5) [OF assms(1) d(2)] by (simp add: toHex_inj)
  obtain d1 d2 u where digests: "token_digest E svc (tg_access g) = Inr d1"
      "token_digest E svc (tg_refresh g) = Inr d2" "tg_context g = rt_context t"
    and rotated: "rotateRefresh (rt_digest t) (env_now E 0)
       (Access_new d1 (rt_family t) (rt_context t) (env_now E 0)
          (env_now E 0 + tp_accessLifetime (ts_policy svc)))
       (Refresh_new d2 (rt_family t) (rt_sequence t + 1) (rt_context t) (env_now E 0)
          (rt_expiresAt t)) r = (Inr u, r')"
    using rotation by (auto simp: makeRotation_def Let_def split: sum.splits prod.splits)
  then show ?thesis
    using that [OF d t _ bound digests(1,2)] d(2) t digests(3)
    by (auto simp: rotateRefresh_def Let_def omap_contains_def rotated_repository_def
        split: option.splits if_splits)
qed

text \<open>A usable key: what \<^verbatim>\<open>TokenKey::create\<close> accepts, within the crypto library's limit.\<close>

definition key_ok :: "string \<Rightarrow> bool" where
  "key_ok key \<longleftrightarrow> 32 \<le> length key \<and> length key \<le> int_max"

lemma token_digest_total:
  assumes "crypto_available E" "key_ok (ts_key svc)" "token \<noteq> []" "length token \<le> 256"
  shows "\<exists>d. token_digest E svc token = Inr d"
proof -
  have "ts_key svc \<noteq> []" using assms(2) by (auto simp: key_ok_def)
  then show ?thesis
    using assms crypto_hmac [OF assms(1), of "ts_key svc" token]
    by (simp add: token_digest_def key_ok_def)
qed

lemma crypto_token_32:
  assumes "crypto_available E"
  obtains s where "randomTokenBase64Url E i 32 = Inr s" "length s = 43"
  using crypto_random_bytes [OF assms, of 32 i] that length_toBase64Url_32
  by (auto simp: randomTokenBase64Url_def int_max_def)

lemma token_refresh_spent:
  assumes "spent d f ctx r" "tokens_inv r" "crypto_available E" "key_ok (ts_key svc)"
    and "token_digest E svc token = Inr d" "ctx_client ctx = cid"
    and "sameConstraint (ctx_senderConstraint ctx) sc"
    and "requireActive (ts_apps svc) cid (ts_clients svc) = Inr client"
  shows "token_refresh E svc cid token sc r =
    (Inl (authFailure ''Refresh token reuse or expiry detected; family revoked.''),
     revoke_family_records f (env_now E 0) r)"
proof -
  obtain t where t: "map_of (tr_refresh r) (toHex d) = Some t" "rt_family t = f" "rt_context t = ctx"
      "rt_state t \<noteq> RefreshTokenState.Active"
    using assms(1) by (auto simp: spent_def)
  have td: "rt_digest t = d"
    using tokens_invD(5) [OF assms(2) t(1)] by (simp add: toHex_inj)
  obtain s1 s2 where s: "randomTokenBase64Url E 0 32 = Inr s1" "length s1 = 43"
      "randomTokenBase64Url E 1 32 = Inr s2" "length s2 = 43"
    using crypto_token_32 [OF assms(3)] by metis
  obtain d1 where d1: "token_digest E svc (''opa_'' @ s1) = Inr d1"
    using token_digest_total [OF assms(3,4), of "''opa_'' @ s1"] s(2) by auto
  obtain d2 where d2: "token_digest E svc (''opr_'' @ s2) = Inr d2"
    using token_digest_total [OF assms(3,4), of "''opr_'' @ s2"] s(4) by auto
  have "rotateRefresh (rt_digest t) now a b r =
      (Inl (authFailure ''Refresh token reuse or expiry detected; family revoked.''),
       revoke_family_records f now r)" for now a b
    using t td by (simp add: rotateRefresh_def Refresh_usableAt_def)
  then have "makeRotation E svc t r =
    (Inl (authFailure ''Refresh token reuse or expiry detected; family revoked.''),
     revoke_family_records f (env_now E 0) r)"
    using s(1,3) d1 d2 unfolding makeRotation_def Let_def by simp
  then show ?thesis
    using assms(5-) t by (simp add: token_refresh_def findRefresh_def)
qed

lemma revoke_family_dead: "family_dead f (revoke_family_records f now r)"
proof -
  have "at_state a = AccessTokenState.Revoked"
    if "map_of (tr_access (revoke_family_records f now r)) k = Some a" "at_family a = f" for k a
    using that by (cases "map_of (tr_access r) k") (auto simp: revoke_family_lookup split: if_splits)
  moreover have "rt_state t \<noteq> RefreshTokenState.Active"
    if "map_of (tr_refresh (revoke_family_records f now r)) k = Some t" "rt_family t = f" for k t
    using that by (cases "map_of (tr_refresh r) k") (auto simp: revoke_family_lookup split: if_splits)
  ultimately show ?thesis
    unfolding family_dead_def by blast
qed

section \<open>Properties\<close>


text \<open>
  A dead family stays dead: if no token of a family is active, then after every further
  history of calls that does not draw the same family identifier again, introspection refuses
  every access token of the family and no refresh token of the family can be exchanged.
\<close>

theorem dead_family_stays_dead:
  assumes "family_dead f (tokens_after cs)" "list_all (\<lambda>c. \<not> starts_family c f) later"
    and "r = final_state token_step later (tokens_after cs)" "token_digest E svc token = Inr d"
  shows "(map_option at_family (map_of (tr_access r) (toHex d)) = Some f \<longrightarrow>
            \<not> succeeded (introspect E svc token r))
    \<and> (map_option rt_family (map_of (tr_refresh r) (toHex d)) = Some f \<longrightarrow>
            \<not> succeeded (fst (token_refresh E svc cid token sc r)))"
proof -
  have inv: "tokens_inv r"
    unfolding assms(3) by (rule tokens.run_inv) simp
  have dead: "family_dead f r"
    unfolding assms(3) by (rule dead_family.run_fact [OF tokens_after_inv assms(1,2)])
  have "\<not> succeeded (fst (token_refresh E svc cid token sc r))"
    if t: "map_of (tr_refresh r) (toHex d) = Some t" "rt_family t = f" for t
  proof
    assume "succeeded (fst (token_refresh E svc cid token sc r))"
    then obtain g r' where "token_refresh E svc cid token sc r = (Inr g, r')"
      by (auto simp: succeeded_iff) (metis prod.collapse)
    from token_refresh_success [OF inv this] obtain t' where
        "map_of (tr_refresh r) (toHex d) = Some t'" "Refresh_usableAt t' (env_now E 0)"
      using assms(4) by (metis sum.inject(2))
    with t dead show False
      by (auto simp: family_dead_def Refresh_usableAt_def)
  qed
  then show ?thesis
    using introspect_dead [OF dead assms(4)] by auto
qed

text \<open>
  Rotation prolongs nothing and changes no rights: a successful refresh was presented by the
  client and the sender the token is bound to, before its expiry; the new refresh token has the
  same family, context and expiry and the next sequence number; the old one can never be used
  again; the new access token is accepted until its lifetime ends.
\<close>

theorem refresh_rotation:
  assumes "token_refresh E svc cid token sc (tokens_after cs) = (Inr g, r)"
    and "env_HMAC E' = env_HMAC E" "ts_key svc' = ts_key svc"
    and "requireActive (ts_apps svc') cid (ts_clients svc') = Inr client"
    and "env_now E' 0 < env_now E 0 + tp_accessLifetime (ts_policy svc)"
  shows "\<exists>d t d2 u claims. token_digest E svc token = Inr d
      \<and> map_of (tr_refresh (tokens_after cs)) (toHex d) = Some t
      \<and> env_now E 0 < rt_expiresAt t \<and> ctx_client (rt_context t) = cid
      \<and> sameConstraint (ctx_senderConstraint (rt_context t)) sc
      \<and> token_digest E svc (tg_refresh g) = Inr d2 \<and> map_of (tr_refresh r) (toHex d2) = Some u
      \<and> rt_family u = rt_family t \<and> rt_context u = rt_context t \<and> rt_expiresAt u = rt_expiresAt t
      \<and> rt_sequence u = rt_sequence t + 1 \<and> rt_state u = RefreshTokenState.Active
      \<and> spent d (rt_family t) (rt_context t) r
      \<and> introspect E' svc' (tg_access g) r = Inr claims \<and> claims_context claims = rt_context t
      \<and> claims_expiresAt claims = env_now E 0 + tp_accessLifetime (ts_policy svc)"
proof -
  let ?now = "env_now E 0" and ?e = "env_now E 0 + tp_accessLifetime (ts_policy svc)"
  obtain d t d1 d2 where d: "token_digest E svc token = Inr d"
      "map_of (tr_refresh (tokens_after cs)) (toHex d) = Some t" "rt_digest t = d"
    and t: "Refresh_usableAt t ?now" "ctx_client (rt_context t) = cid"
      "sameConstraint (ctx_senderConstraint (rt_context t)) sc"
    and fresh: "token_digest E svc (tg_access g) = Inr d1" "token_digest E svc (tg_refresh g) = Inr d2"
      "map_of (tr_access (tokens_after cs)) (toHex d1) = None"
      "map_of (tr_refresh (tokens_after cs)) (toHex d2) = None"
    and r: "r = rotated_repository t ?now d1 ?e d2 (tokens_after cs)"
    using token_refresh_success [OF tokens_after_inv assms(1)] .
  note ok = tokens_invD(1,2) [OF tokens_after_inv [of cs]]
  note look = rotated_lookup [OF ok d(2) [folded d(3)] fresh(3,4), of ?now ?e, folded r]
  have neq: "d2 \<noteq> d" using d(2) fresh(4) by auto
  have "spent d (rt_family t) (rt_context t) r"
    unfolding spent_def look using neq d(3) by (simp add: toHex_inj)
  moreover have "map_of (tr_refresh r) (toHex d2) =
      Some (Refresh_new d2 (rt_family t) (rt_sequence t + 1) (rt_context t) ?now (rt_expiresAt t))"
    by (simp add: look)
  moreover have "introspect E' svc' (tg_access g) r = Inr \<lparr>claims_active = True,
      claims_context = rt_context t, claims_issuedAt = ?now, claims_expiresAt = ?e\<rparr>"
    unfolding introspect_Inr token_digest_HMAC [OF assms(2,3)]
    using fresh(1) t(2) assms(4,5) by (auto simp: look)
  ultimately show ?thesis
    using d t fresh(2)
    by (intro exI [of _ d] exI [of _ t] exI [of _ d2] exI [of _ "Refresh_new d2 (rt_family t)
        (rt_sequence t + 1) (rt_context t) ?now (rt_expiresAt t)"] exI [of _ "\<lparr>claims_active = True,
        claims_context = rt_context t, claims_issuedAt = ?now, claims_expiresAt = ?e\<rparr>"])
      (simp add: Refresh_usableAt_def)
qed


section \<open>A concrete service\<close>

text \<open>
  Draws depend on a seed, digests on the first five characters of a token: enough to keep the
  tokens of the examples apart.
\<close>

definition token_env :: "nat \<Rightarrow> Instant \<Rightarrow> env" where
  "token_env seed now =
     \<lparr>env_now = \<lambda>i. now, env_RAND_bytes = \<lambda>i n. Some (replicate n (of_nat (4 * (seed + i)))),
      env_HMAC = \<lambda>key data. Some (replicate 32 (of_nat (sum_list (map of_char (take 5 data))))),
      env_SHA256 = \<lambda>data. Some (replicate 32 3)\<rparr>"

definition drawn :: "nat \<Rightarrow> string" where
  "drawn n = toBase64Url (replicate 32 (of_nat (4 * n)))"

definition sample_tokens :: TokenService where
  "sample_tokens =
     \<lparr>ts_apps = sample_apps, ts_clients = [(sample_cid, sample_client)],
      ts_key = replicate 32 (CHR ''k''),
      ts_policy = \<lparr>tp_accessLifetime = 1000, tp_refreshLifetime = 5000\<rparr>\<rparr>"

definition sample_code :: AuthorizationCode where
  "sample_code =
     \<lparr>code_digest = replicate 32 2, code_clientId = sample_cid, code_identity = StrongId ''alice'',
      code_redirectUri = ''http://127.0.0.1:8080/cb'', code_scopes = [''openid''],
      code_codeChallenge = toBase64Url (replicate 32 3), code_nonce = None,
      code_resource = Some ''api'', code_provider = StrongId ''password'', code_assurance = Ial1,
      code_strength = \<lparr>strength_factors = Factor_Knowledge, strength_phishingResistant = False\<rparr>,
      code_authenticatedAt = 50, code_issuedAt = 60, code_expiresAt = 120\<rparr>"

abbreviation sample_issue :: token_call where
  "sample_issue \<equiv> IssueToken (token_env 0 100) sample_tokens sample_code None"

abbreviation sample_context :: TokenContext where
  "sample_context \<equiv> TokenContext_new sample_cid (StrongId ''alice'') (StrongId ''password'') Ial1
     \<lparr>strength_factors = Factor_Knowledge, strength_phishingResistant = False\<rparr> [''openid''] 50
     [''api''] None"

lemma token_env_crypto [simp]: "crypto_available (token_env seed now)"
  by (simp add: crypto_available_def token_env_def)

lemma token_env_now [simp]: "env_now (token_env seed now) i = now"
  by (simp add: token_env_def)

lemma token_env_HMAC: "env_HMAC (token_env seed now) = env_HMAC (token_env seed' now')"
  by (simp add: token_env_def)

lemma token_env_random [simp]:
  "randomTokenBase64Url (token_env seed now) i 32 = Inr (drawn (seed + i))"
  "randomTokenBase64Url (token_env seed now) i 24 =
     Inr (toBase64Url (replicate 24 (of_nat (4 * (seed + i)))))"
  by (simp_all add: token_env_def randomTokenBase64Url_def randomBytes_def int_max_def drawn_def)

lemma drawn_facts [simp]: "drawn n \<noteq> []" "length (drawn n) = 43"
  using length_toBase64Url [of "replicate 32 (of_nat (4 * n))"]
  by (auto simp: drawn_def simp del: of_nat_mult)

lemma take_drawn: "take (Suc 0) (drawn n) =
   [kBase64UrlAlphabet ! unat (drop_bit 18 (push_bit 16 (byteValue (of_nat (4 * n)))
      OR push_bit 8 (byteValue (of_nat (4 * n))) OR byteValue (of_nat (4 * n))) AND 0x3F)]"
  by (simp add: drawn_def numeral_eq_Suc Let_def del: of_nat_mult of_nat_Suc)

lemma sample_token_digest:
  "token_digest (token_env seed now) sample_tokens (p @ drawn n) =
     Inr (replicate 32 (of_nat (sum_list (map of_char (p @ take (Suc 0) (drawn n))))))"
  if "length p = 4"
  using that
  by (simp add: token_digest_def hmacSha256_def token_env_def sample_tokens_def int_max_def)

lemma sample_digests:
  "token_digest (token_env seed now) sample_tokens (''opa_'' @ drawn 1) = Inr (replicate 32 0xE1)"
  "token_digest (token_env seed now) sample_tokens (''opr_'' @ drawn 2) = Inr (replicate 32 0xF3)"
  "token_digest (token_env seed now) sample_tokens (''opa_'' @ drawn 10) = Inr (replicate 32 0xEA)"
  "token_digest (token_env seed now) sample_tokens (''opr_'' @ drawn 11) = Inr (replicate 32 0xFC)"
  "token_digest (token_env seed now) sample_tokens (''opa_'' @ drawn 21) = Inr (replicate 32 0xF5)"
  by (subst sample_token_digest, simp, simp add: take_drawn byteValue_def kBase64UrlAlphabet_def)+

lemma sample_tokens_active [simp]:
  "requireActive (ts_apps sample_tokens) sample_cid (ts_clients sample_tokens) = Inr sample_client"
  unfolding sample_tokens_def TokenService.simps by (rule sample_active)

abbreviation family0 :: TokenFamilyId where
  "family0 \<equiv> StrongId (toBase64Url (replicate 24 0))"

lemma sample_issued:
  "token_issue (token_env 0 100) sample_tokens sample_code None empty_tokens =
    (Inr \<lparr>tg_access = ''opa_'' @ drawn 1, tg_refresh = ''opr_'' @ drawn 2, tg_expiresIn = 1000,
          tg_context = sample_context\<rparr>,
     \<lparr>tr_access = [(toHex (replicate 32 0xE1), Access_new (replicate 32 0xE1) family0 sample_context 100 1100)],
      tr_refresh = [(toHex (replicate 32 0xF3),
         Refresh_new (replicate 32 0xF3) family0 0 sample_context 100 5100)]\<rparr>)"
proof -
  have ctx: "TokenContext_new (code_clientId sample_code) (code_identity sample_code)
      (code_provider sample_code) (code_assurance sample_code) (code_strength sample_code)
      (code_scopes sample_code) (code_authenticatedAt sample_code)
      (case code_resource sample_code of None \<Rightarrow> [] | Some v \<Rightarrow> [v]) None = sample_context"
    unfolding sample_code_def AuthorizationCode.simps option.case ..
  have client: "ctx_client sample_context = sample_cid"
    unfolding TokenContext_new_def TokenContext.simps ..
  have seeds: "0 + (1::nat) = 1" "0 + (2::nat) = 2" "0 + (0::nat) = 0" "of_nat (4 * 0) = (0 :: byte)"
    by simp_all
  show ?thesis
    unfolding token_issue_def ctx makeInitial_def client sample_tokens_active token_env_random sum.case
      seeds sample_digests
    by (simp add: storeInitial_def omap_contains_def empty_tokens_def Access_new_def Refresh_new_def
        sample_tokens_def Let_def del: append_Cons append_Nil)
qed

abbreviation sample_grant :: TokenGrant where
  "sample_grant \<equiv> \<lparr>tg_access = ''opa_'' @ drawn 10, tg_refresh = ''opr_'' @ drawn 11,
     tg_expiresIn = 1000, tg_context = sample_context\<rparr>"

abbreviation sample_refreshed :: "TokenGrant Result \<times> TokenRepository" where
  "sample_refreshed \<equiv> token_refresh (token_env 10 200) sample_tokens sample_cid (''opr_'' @ drawn 2) None
     (tokens_after [sample_issue])"

lemma sample_issued_state:
  "tokens_after [sample_issue] =
     \<lparr>tr_access = [(toHex (replicate 32 0xE1), Access_new (replicate 32 0xE1) family0 sample_context 100 1100)],
      tr_refresh = [(toHex (replicate 32 0xF3),
         Refresh_new (replicate 32 0xF3) family0 0 sample_context 100 5100)]\<rparr>"
  using sample_issued by simp

lemma sample_refresh: "sample_refreshed = (Inr sample_grant, snd sample_refreshed)"
proof -
  have client: "ctx_client sample_context = sample_cid" "ctx_senderConstraint sample_context = None"
    unfolding TokenContext_new_def TokenContext.simps by (rule refl)+
  have seeds: "10 + (0::nat) = 10" "10 + (1::nat) = 11" by simp_all
  have "fst (makeRotation (token_env 10 200) sample_tokens
      (Refresh_new (replicate 32 0xF3) family0 0 sample_context 100 5100) (tokens_after [sample_issue]))
    = Inr sample_grant"
    unfolding sample_issued_state makeRotation_def token_env_random sum.case seeds sample_digests
    by (simp add: rotateRefresh_def omap_contains_def Refresh_usableAt_def Access_new_def Refresh_new_def
        sample_tokens_def Let_def toHex_inj del: append_Cons append_Nil)
  moreover have found: "findRefresh (replicate 32 0xF3) (tokens_after [sample_issue])
      = Inr (Refresh_new (replicate 32 0xF3) family0 0 sample_context 100 5100)"
    unfolding sample_issued_state by (simp add: findRefresh_def)
  have "sample_refreshed = makeRotation (token_env 10 200) sample_tokens
      (Refresh_new (replicate 32 0xF3) family0 0 sample_context 100 5100) (tokens_after [sample_issue])"
    unfolding token_refresh_def sample_tokens_active sample_digests sum.case found
    by (simp only: Refresh_new_simps client sameConstraint_def if_True if_False simp_thms)
  ultimately show ?thesis
    by (metis prod.collapse)
qed


theorem dead_family_stays_dead_witness:
  "\<not> succeeded (introspect (token_env 0 300) sample_tokens (''opa_'' @ drawn 1)
     (tokens_after [sample_issue, RevokeFamily family0 200]))"
proof -
  let ?cs = "[sample_issue, RevokeFamily family0 200]"
  have state: "tokens_after ?cs = revoke_family_records family0 200 (tokens_after [sample_issue])"
    by (simp add: revokeFamily_def)
  have dead: "family_dead family0 (tokens_after ?cs)"
    unfolding state by (rule revoke_family_dead)
  have "map_option at_family (map_of (tr_access (tokens_after ?cs)) (toHex (replicate 32 0xE1)))
      = Some family0"
    unfolding state revoke_family_lookup sample_issued_state by simp
  then show ?thesis
    using dead_family_stays_dead [OF dead _ refl sample_digests(1) [of 0 300], of "[]" _ None] by simp
qed

theorem refresh_rotation_witness:
  "\<exists>claims. introspect (token_env 0 300) sample_tokens (''opa_'' @ drawn 10) (snd sample_refreshed) = Inr claims
     \<and> claims_expiresAt claims = 1200"
proof -
  have now: "env_now (token_env 0 300) 0
      < env_now (token_env 10 200) 0 + tp_accessLifetime (ts_policy sample_tokens)"
    and "env_now (token_env 10 200) 0 + tp_accessLifetime (ts_policy sample_tokens) = 1200"
    by (simp_all add: sample_tokens_def)
  then show ?thesis
    using refresh_rotation [OF sample_refresh token_env_HMAC refl sample_tokens_active now]
    unfolding TokenGrant.simps by metis
qed

abbreviation sample_exchange :: "MachineTokenGrant Result \<times> TokenRepository" where
  "sample_exchange \<equiv> issueTokenExchange (token_env 20 300) sample_tokens sample_cid
     (''opa_'' @ drawn 1) ''api'' [] None (tokens_after [sample_issue])"

lemma sample_introspect:
  "introspect (token_env seed 300) sample_tokens (''opa_'' @ drawn 1) (tokens_after [sample_issue])
   = Inr \<lparr>claims_active = True, claims_context = sample_context, claims_issuedAt = 100,
          claims_expiresAt = 1100\<rparr>"
proof -
  have "ctx_client sample_context = sample_cid"
    unfolding TokenContext_new_def TokenContext.simps by (rule refl)
  then show ?thesis
    unfolding introspect_Inr sample_digests sample_issued_state
    using sample_tokens_active by (simp del: append_Cons append_Nil)
qed

lemma sample_exchanged:
  "sample_exchange = (Inr \<lparr>mg_access = ''opa_'' @ drawn 21, mg_expiresIn = 1000,
     mg_context = sample_context\<rparr>, snd sample_exchange)"
proof -
  have ctx: "ctx_client sample_context = sample_cid" "ctx_senderConstraint sample_context = None"
      "ctx_scopes sample_context = [''openid'']" "ctx_identity sample_context = StrongId ''alice''"
      "ctx_provider sample_context = StrongId ''password''" "ctx_assurance sample_context = Ial1"
      "ctx_strength sample_context
         = \<lparr>strength_factors = Factor_Knowledge, strength_phishingResistant = False\<rparr>"
      "ctx_authenticatedAt sample_context = 50"
    unfolding TokenContext_new_def TokenContext.simps by (simp_all add: sort_unique_def)
  have seeds: "20 + (0::nat) = 20" "20 + (1::nat) = 21" by simp_all
  have stored: "fst (store_machine_token (token_env 20 300) sample_tokens sample_context 300
      (''opa_'' @ drawn 21) (replicate 32 0xF5) f (tokens_after [sample_issue]))
    = Inr \<lparr>mg_access = ''opa_'' @ drawn 21, mg_expiresIn = 1000, mg_context = sample_context\<rparr>" for f
    unfolding sample_issued_state
    by (simp add: store_machine_token_def storeAccessOnly_def omap_contains_def toHex_inj
        sample_tokens_def Access_new_def Let_def del: append_Cons append_Nil)
  have "fst sample_exchange = Inr \<lparr>mg_access = ''opa_'' @ drawn 21, mg_expiresIn = 1000,
     mg_context = sample_context\<rparr>"
    unfolding issueTokenExchange_def sample_introspect sum.case Let_def TokenClaims.simps ctx
      token_env_random seeds sample_digests token_env_now
    using stored by (simp add: sameConstraint_def del: append_Cons append_Nil)
  then show ?thesis
    by (metis prod.collapse)
qed


text \<open>
  C9. At most one refresh token of a family is ever active, and all the refresh tokens of a family
  share one context and one expiry, in every repository reached by calls that do not draw an
  identifier some family already has.
\<close>

theorem one_active_refresh_token:
  assumes "token_reach r" "map_of (tr_refresh r) k = Some t" "map_of (tr_refresh r) k' = Some t'"
    and "rt_family t = rt_family t'"
  shows "rt_context t = rt_context t' \<and> rt_expiresAt t = rt_expiresAt t'
    \<and> (rt_state t = RefreshTokenState.Active \<and> rt_state t' = RefreshTokenState.Active \<longrightarrow> k = k' \<and> t = t')"
proof -
  have "one_chain r"
    using token_reach_inv [OF assms(1)] by blast
  then show ?thesis
    using one_chainD [OF _ assms(2-4)] assms(2,3) by fastforce
qed

lemma sample_reach: "token_reach (snd sample_refreshed)"
proof -
  have "token_reach (tokens_after [sample_issue])"
    using token_reach.step [OF token_reach.init, of sample_issue]
    by (simp add: family_used_def empty_tokens_def)
  from token_reach.step [OF this, of "RefreshToken (token_env 10 200) sample_tokens sample_cid
      (''opr_'' @ drawn 2) None"]
  show ?thesis by (simp del: append_Cons append_Nil)
qed

theorem one_active_refresh_token_witness:
  "\<exists>t u. map_of (tr_refresh (snd sample_refreshed)) (toHex (replicate 32 0xF3)) = Some t
     \<and> map_of (tr_refresh (snd sample_refreshed)) (toHex (replicate 32 0xFC)) = Some u
     \<and> rt_family t = rt_family u \<and> rt_expiresAt t = rt_expiresAt u
     \<and> \<not> (rt_state t = RefreshTokenState.Active \<and> rt_state u = RefreshTokenState.Active)"
proof -
  obtain d t d1 d2 where d: "token_digest (token_env 10 200) sample_tokens (''opr_'' @ drawn 2) = Inr d"
      "map_of (tr_refresh (tokens_after [sample_issue])) (toHex d) = Some t" "rt_digest t = d"
    and fresh: "token_digest (token_env 10 200) sample_tokens (tg_refresh sample_grant) = Inr d2"
      "map_of (tr_access (tokens_after [sample_issue])) (toHex d1) = None"
      "map_of (tr_refresh (tokens_after [sample_issue])) (toHex d2) = None"
    and r: "snd sample_refreshed = rotated_repository t (env_now (token_env 10 200) 0) d1
      (env_now (token_env 10 200) 0 + tp_accessLifetime (ts_policy sample_tokens)) d2
      (tokens_after [sample_issue])"
    using token_refresh_success [OF tokens_after_inv sample_refresh] .
  have dd: "d = replicate 32 0xF3" "d2 = replicate 32 0xFC"
    using d(1) fresh(1) unfolding TokenGrant.simps sample_digests by simp_all
  note look = rotated_lookup [OF tokens_invD(1,2) [OF tokens_after_inv] d(2) [folded d(3)] fresh(2,3)]
  have t: "map_of (tr_refresh (snd sample_refreshed)) (toHex (replicate 32 0xF3))
      = Some (Refresh_markUsed 200 t)"
    unfolding r look using dd d(3) by (simp add: toHex_inj)
  have u: "map_of (tr_refresh (snd sample_refreshed)) (toHex (replicate 32 0xFC))
      = Some (Refresh_new d2 (rt_family t) (rt_sequence t + 1) (rt_context t) 200 (rt_expiresAt t))"
    unfolding r look using dd by simp
  have f: "rt_family (Refresh_markUsed 200 t) = rt_family
      (Refresh_new d2 (rt_family t) (rt_sequence t + 1) (rt_context t) 200 (rt_expiresAt t))"
    by simp
  have "toHex (replicate 32 0xF3) \<noteq> toHex (replicate 32 0xFC)"
    by (simp add: toHex_inj)
  then show ?thesis
    using one_active_refresh_token [OF sample_reach t u f] t u f by blast
qed

section \<open>Grants and introspection\<close>

lemma access_accepted:
  assumes "token_digest E svc token = Inr d" "map_of (tr_access r) (toHex d) = Some (Access_new d f ctx t e)"
    and "env_HMAC E' = env_HMAC E" "ts_key svc' = ts_key svc"
    and "requireActive (ts_apps svc') (ctx_client ctx) (ts_clients svc') = Inr client"
    and "env_now E' 0 < e"
  shows "introspect E' svc' token r = Inr \<lparr>claims_active = True, claims_context = ctx,
    claims_issuedAt = t, claims_expiresAt = e\<rparr>"
  unfolding introspect_Inr token_digest_HMAC [OF assms(3,4)] using assms by simp

lemma store_machine_token_Inr:
  assumes "omap_ok (tr_access r)" "store_machine_token E svc ctx now access d f r = (Inr g, r')"
  shows "map_of (tr_access r') (toHex d)
      = Some (Access_new d (StrongId f) ctx now (now + tp_accessLifetime (ts_policy svc)))"
    and "mg_access g = access" "mg_context g = ctx"
  using assms
  by (auto simp: store_machine_token_def storeAccessOnly_def omap_contains_def Let_def
      om.find_emplace_new split: sum.splits if_splits prod.splits)

text \<open>
  From authorization code to accepted access token: the access token issued for a redeemed
  code is accepted until its lifetime ends, by every service with the same key while the client is
  active, for exactly the client, identity, scopes, resource and sender of the code.
\<close>

theorem issued_access_token_accepted:
  assumes "token_issue E svc code sc (tokens_after cs) = (Inr g, r)"
    and "env_HMAC E' = env_HMAC E" "ts_key svc' = ts_key svc"
    and "requireActive (ts_apps svc') (code_clientId code) (ts_clients svc') = Inr client"
    and "env_now E' 0 < env_now E 0 + tp_accessLifetime (ts_policy svc)"
  shows "\<exists>ctx. introspect E' svc' (tg_access g) r
        = Inr \<lparr>claims_active = True, claims_context = ctx, claims_issuedAt = env_now E 0,
               claims_expiresAt = env_now E 0 + tp_accessLifetime (ts_policy svc)\<rparr>
      \<and> ctx_client ctx = code_clientId code \<and> ctx_identity ctx = code_identity code
      \<and> ctx_assurance ctx = code_assurance code \<and> ctx_authenticatedAt ctx = code_authenticatedAt code
      \<and> set (ctx_scopes ctx) = set (code_scopes code) \<and> set (ctx_audiences ctx) = set_option (code_resource code)
      \<and> ctx_senderConstraint ctx = sc"
proof -
  let ?ctx = "TokenContext_new (code_clientId code) (code_identity code) (code_provider code)
      (code_assurance code) (code_strength code) (code_scopes code) (code_authenticatedAt code)
      (case code_resource code of None \<Rightarrow> [] | Some v \<Rightarrow> [v]) sc"
  let ?e = "env_now E 0 + tp_accessLifetime (ts_policy svc)"
  have ctx: "ctx_client ?ctx = code_clientId code" "ctx_identity ?ctx = code_identity code"
      "ctx_assurance ?ctx = code_assurance code" "ctx_authenticatedAt ?ctx = code_authenticatedAt code"
      "set (ctx_scopes ?ctx) = set (code_scopes code)"
      "set (ctx_audiences ?ctx) = set_option (code_resource code)" "ctx_senderConstraint ?ctx = sc"
    by (cases "code_resource code"; simp add: TokenContext_new_def)+
  obtain d f where d: "token_digest E svc (tg_access g) = Inr d"
      "map_of (tr_access r) (toHex d) = Some (Access_new d f ?ctx (env_now E 0) ?e)"
    using assms(1) tokens_invD(1) [OF tokens_after_inv [of cs]]
    unfolding token_issue_def makeInitial_def
    by (auto simp: storeInitial_def omap_contains_def Let_def om.find_emplace_new
        split: sum.splits if_splits prod.splits)
  have "requireActive (ts_apps svc') (ctx_client ?ctx) (ts_clients svc') = Inr client"
    using assms(4) by simp
  from access_accepted [OF d assms(2,3) this assms(5)] show ?thesis
    using ctx by blast
qed

theorem issued_access_token_accepted_witness:
  "\<exists>ctx. introspect (token_env 0 300) sample_tokens (''opa_'' @ drawn 1) (tokens_after [sample_issue])
      = Inr \<lparr>claims_active = True, claims_context = ctx, claims_issuedAt = 100, claims_expiresAt = 1100\<rparr>
    \<and> ctx_identity ctx = StrongId ''alice'' \<and> set (ctx_audiences ctx) = {''api''}"
proof -
  have issued: "token_issue (token_env 0 100) sample_tokens sample_code None (tokens_after []) =
      (Inr \<lparr>tg_access = ''opa_'' @ drawn 1, tg_refresh = ''opr_'' @ drawn 2, tg_expiresIn = 1000,
          tg_context = sample_context\<rparr>, tokens_after [sample_issue])"
    unfolding sample_issued_state using sample_issued by simp
  have code: "code_clientId sample_code = sample_cid" "code_identity sample_code = StrongId ''alice''"
      "code_resource sample_code = Some ''api''"
    unfolding sample_code_def AuthorizationCode.simps by (rule refl)+
  have e: "100 + tp_accessLifetime (ts_policy sample_tokens) = 1100"
    by (simp add: sample_tokens_def)
  have "env_now (token_env 0 300) 0
      < env_now (token_env 0 100) 0 + tp_accessLifetime (ts_policy sample_tokens)"
    unfolding token_env_now e by simp
  from issued_access_token_accepted [OF issued token_env_HMAC refl
      sample_tokens_active [folded code(1)] this] show ?thesis
    unfolding TokenGrant.simps token_env_now e code option.set by blast
qed

text \<open>
  A machine client gets nothing its registration does not list: a client-credentials grant is
  for an active service identity and an active client of kind Service, its audience and scopes are
  among the registered ones, and the token it yields is accepted for exactly these.
\<close>

theorem machine_grant_bounded:
  assumes "ServiceIdentity_restore identity cid audiences allowed active t1 t2 = Inr s"
    and "issueClientCredentials E svc s audience scopes sc (tokens_after cs) = (Inr g, r)"
    and "env_HMAC E' = env_HMAC E" "env_now E' 0 < env_now E 0 + tp_accessLifetime (ts_policy svc)"
  shows "active \<and> audience \<in> set audiences \<and> set scopes \<subseteq> set allowed
    \<and> (\<exists>client. requireActive (ts_apps svc) cid (ts_clients svc) = Inr client \<and> client_kind client = Service)
    \<and> (\<exists>claims. introspect E' svc (mg_access g) r = Inr claims
         \<and> ctx_client (claims_context claims) = cid \<and> ctx_identity (claims_context claims) = identity
         \<and> set (ctx_scopes (claims_context claims)) = set scopes
         \<and> ctx_audiences (claims_context claims) = [audience])"
proof -
  let ?ctx = "TokenContext_new (svc_client s) (svc_identity s) (StrongId ''client_credentials'') Ial1
     \<lparr>strength_factors = Factor_Knowledge, strength_phishingResistant = False\<rparr> scopes (env_now E 0)
     [audience] sc"
  have s: "svc_client s = cid" "svc_identity s = identity" "svc_active s = active"
    using assms(1) by (auto simp: ServiceIdentity_restore_def split: sum.splits if_splits)
  have permitted: "svc_active s" "ServiceIdentity_permitsAudience s audience"
      "ServiceIdentity_permitsScopes s scopes"
    using assms(2) unfolding issueClientCredentials_def by (auto split: if_splits)
  obtain client where client: "requireActive (ts_apps svc) cid (ts_clients svc) = Inr client"
      "client_kind client = Service"
    using assms(2) unfolding issueClientCredentials_def s by (auto split: if_splits sum.splits)
  obtain d access f where d: "token_digest E svc access = Inr d"
      "store_machine_token E svc ?ctx (env_now E 0) access d f (tokens_after cs) = (Inr g, r)"
    using assms(2) unfolding issueClientCredentials_def Let_def by (auto split: if_splits sum.splits)
  note stored = store_machine_token_Inr [OF tokens_invD(1) [OF tokens_after_inv] d(2)]
  have ctx: "ctx_client ?ctx = cid" "ctx_identity ?ctx = identity" "set (ctx_scopes ?ctx) = set scopes"
      "ctx_audiences ?ctx = [audience]"
    using s by (simp_all add: TokenContext_new_def sort_unique_def)
  have "introspect E' svc (mg_access g) r = Inr \<lparr>claims_active = True, claims_context = ?ctx,
      claims_issuedAt = env_now E 0, claims_expiresAt = env_now E 0 + tp_accessLifetime (ts_policy svc)\<rparr>"
    using access_accepted [OF d(1) stored(1) assms(3) refl _ assms(4)] client(1) ctx(1) stored(2) by simp
  then show ?thesis
    using permitted client ctx s ServiceIdentity_permits [OF assms(1)] by simp
qed

definition sample_machine :: TokenService where
  "sample_machine = sample_tokens\<lparr>ts_clients := [(sample_cid, sample_client\<lparr>client_kind := Service\<rparr>)]\<rparr>"

lemma sample_machine_active:
  "requireActive (ts_apps sample_machine) sample_cid (ts_clients sample_machine)
   = Inr (sample_client\<lparr>client_kind := Service\<rparr>)"
  by (simp add: requireActive_def clients_findById_def applications_findById_def sample_apps_def
      Client_permitsAuthorization_def clientPermitsAuthorization_def sample_client_def
      Application_permitsAuthorization_def applicationPermitsAuthorization_def sample_machine_def
      sample_tokens_def)

lemma sample_machine_digest:
  "token_digest E sample_machine = token_digest E sample_tokens"
  by (simp add: token_digest_def sample_machine_def sample_tokens_def fun_eq_iff)

theorem machine_grant_bounded_witness:
  "\<exists>g r claims. issueClientCredentials (token_env 0 100) sample_machine
       \<lparr>svc_identity = StrongId ''bot'', svc_client = sample_cid, svc_audiences = [''api''],
        svc_scopes = [''openid''], svc_active = True, svc_createdAt = 0, svc_updatedAt = 0\<rparr>
       ''api'' [''openid''] None (tokens_after []) = (Inr g, r)
     \<and> introspect (token_env 0 300) sample_machine (mg_access g) r = Inr claims
     \<and> ctx_audiences (claims_context claims) = [''api'']"
proof -
  let ?s = "\<lparr>svc_identity = StrongId ''bot'', svc_client = sample_cid, svc_audiences = [''api''],
        svc_scopes = [''openid''], svc_active = True, svc_createdAt = 0, svc_updatedAt = 0\<rparr>"
  have s: "ServiceIdentity_restore (StrongId ''bot'') sample_cid [''api''] [''openid''] True 0 0 = Inr ?s"
    by (simp add: ServiceIdentity_restore_def normalizedAudiences_def normalizedScopes_def
        validAudience_def sort_unique_def StrongId_empty_def del: append_Cons append_Nil)
  have client: "client_kind (sample_client\<lparr>client_kind := Service\<rparr>) = Service"
    by simp
  have seeds: "0 + (1::nat) = 1" "0 + (0::nat) = 0" by simp_all
  obtain g r where g: "issueClientCredentials (token_env 0 100) sample_machine ?s ''api'' [''openid'']
      None (tokens_after []) = (Inr g, r)"
    unfolding issueClientCredentials_def ServiceIdentity.simps sample_machine_active client sum.case
      token_env_random seeds sample_machine_digest sample_digests Let_def
    by (simp add: ServiceIdentity_permitsAudience_def ServiceIdentity_permitsScopes_def binary_search_sorted
        store_machine_token_def storeAccessOnly_def omap_contains_def empty_tokens_def Let_def)
  have "env_now (token_env 0 300) 0
      < env_now (token_env 0 100) 0 + tp_accessLifetime (ts_policy sample_machine)"
    by (simp add: sample_machine_def sample_tokens_def)
  from machine_grant_bounded [OF s g token_env_HMAC this] show ?thesis
    using g by blast
qed

text \<open>
  An exchanged token is a family of its own: revoking the family of the subject token leaves
  the token obtained from it by token exchange accepted, for a full access lifetime from the
  exchange.
\<close>

theorem exchanged_token_outlives_subject:
  assumes "issueTokenExchange E svc cid subject audience scopes sc (tokens_after cs) = (Inr g, r)"
    and "\<not> draws_family E f" "env_HMAC E' = env_HMAC E" "ts_key svc' = ts_key svc"
    and "requireActive (ts_apps svc') cid (ts_clients svc') = Inr client"
    and "env_now E' 0 < env_now E 1 + tp_accessLifetime (ts_policy svc)"
  shows "introspect E' svc' (mg_access g) (snd (revokeFamily f now r))
    = Inr \<lparr>claims_active = True, claims_context = mg_context g, claims_issuedAt = env_now E 1,
           claims_expiresAt = env_now E 1 + tp_accessLifetime (ts_policy svc)\<rparr>"
proof -
  obtain ctx d access raw where d: "token_digest E svc access = Inr d" "ctx_client ctx = cid"
      "randomTokenBase64Url E 0 24 = Inr raw"
      "store_machine_token E svc ctx (env_now E 1) access d raw (tokens_after cs) = (Inr g, r)"
    using assms(1) unfolding issueTokenExchange_def Let_def
    by (auto split: if_splits sum.splits) (metis ctx_client_new)+
  note stored = store_machine_token_Inr [OF tokens_invD(1) [OF tokens_after_inv] d(4)]
  have "StrongId raw \<noteq> f"
    using d(3) assms(2) by (auto simp: draws_family_def)
  then have "map_of (tr_access (snd (revokeFamily f now r))) (toHex d) = Some (Access_new d (StrongId raw)
      ctx (env_now E 1) (env_now E 1 + tp_accessLifetime (ts_policy svc)))"
    using stored(1) by (simp add: revokeFamily_def revoke_family_lookup)
  from access_accepted [OF d(1) this assms(3,4) _ assms(6)] show ?thesis
    using assms(5) d(2) stored(2,3) by simp
qed

theorem exchanged_token_outlives_subject_witness:
  "succeeded (introspect (token_env 0 400) sample_tokens (''opa_'' @ drawn 21)
     (snd (revokeFamily family0 350 (snd sample_exchange))))"
proof -
  have "\<not> draws_family (token_env 20 300) family0"
  proof -
    have split: "replicate 24 b = b # b # b # replicate 21 b" for b :: byte
      by (simp add: numeral_eq_Suc)
    show ?thesis
      unfolding draws_family_def token_env_random split
      by (simp add: Let_def byteValue_def kBase64UrlAlphabet_def)
  qed
  moreover have "env_now (token_env 0 400) 0
      < env_now (token_env 20 300) 1 + tp_accessLifetime (ts_policy sample_tokens)"
    by (simp add: sample_tokens_def)
  ultimately show ?thesis
    using exchanged_token_outlives_subject [OF sample_exchanged _ token_env_HMAC refl
        sample_tokens_active, of family0 0 400 350] unfolding MachineTokenGrant.simps by simp
qed

end
