(* ===== verification/Identity_Core.thy ===== *)
theory Identity_Core
  imports Provider "HOL-Library.Product_Lexorder" "HOL-Library.Sublist"
begin

text \<open>
  The identity core (\<^verbatim>\<open>src/src/identity/core\<close>): canonical identities and the tenant-scoped
  repository, the state machine of an account link, the directory of external identities, and the
  merge of two identities.
\<close>

section \<open>Identities\<close>

datatype SubjectKind = Human | Service | Workload | Organization

fun subjectKindName :: "SubjectKind \<Rightarrow> string" where
  "subjectKindName Human = ''human''" | "subjectKindName Service = ''service''"
| "subjectKindName Workload = ''workload''" | "subjectKindName Organization = ''organization''"

datatype IdentityStatus = Active | Suspended | Locked | Deactivated | Deleted | Merged

fun identityStatusName :: "IdentityStatus \<Rightarrow> string" where
  "identityStatusName Active = ''active''" | "identityStatusName Suspended = ''suspended''"
| "identityStatusName Locked = ''locked''" | "identityStatusName Deactivated = ''deactivated''"
| "identityStatusName Deleted = ''deleted''" | "identityStatusName Merged = ''merged''"

fun permitsAuthentication :: "IdentityStatus \<Rightarrow> bool" where
  "permitsAuthentication Active = True"
| "permitsAuthentication _ = False"

record Identity =
  ident_id :: IdentityId
  ident_kind :: SubjectKind
  ident_status :: IdentityStatus
  ident_createdAt :: Instant

definition Identity_create :: "IdentityId \<Rightarrow> SubjectKind \<Rightarrow> Instant \<Rightarrow> Identity Result" where
  "Identity_create iid kind createdAt =
     (if StrongId_empty iid
      then fail_msg InvalidArgument ''An identity must have an identifier.''
      else Inr \<lparr>ident_id = iid, ident_kind = kind, ident_status = Active, ident_createdAt = createdAt\<rparr>)"

definition canAuthenticate :: "Identity \<Rightarrow> bool" where
  "canAuthenticate i = permitsAuthentication (ident_status i)"

definition Identity_changeStatus :: "IdentityStatus \<Rightarrow> Identity \<Rightarrow> Status \<times> Identity" where
  "Identity_changeStatus status i =
     (if ident_status i = Deleted
      then (fail_detail FailedPrecondition ''This identity cannot be modified.''
              ''A deleted identity cannot change status. Its key may still be referenced by audit records and external associations, so resurrecting it would silently reattach them.'', i)
      else if ident_status i = Merged
      then (fail_detail FailedPrecondition ''This identity cannot be modified.''
              ''A merged identity cannot change status. Its associations were transferred to a successor, so reactivating it would produce two live identities claiming the same external accounts.'', i)
      else (ok, i\<lparr>ident_status := status\<rparr>))"

section \<open>The tenant-scoped repository\<close>

record Owned =
  owned_organization :: OrganizationId
  owned_identity :: Identity

type_synonym IdentityRepository = "(IdentityId, Owned) omap"

definition identities_add ::
    "OrganizationId \<Rightarrow> Identity \<Rightarrow> IdentityRepository \<Rightarrow> Status \<times> IdentityRepository" where
  "identities_add organization identity m =
     (if omap_contains m (ident_id identity)
      then (fail_detail AlreadyExists ''That identity already exists.''
              ''Identity keys are globally unique across organizations; a duplicate was rejected rather than shadowing the existing record.'', m)
      else (ok, omap_emplace (ident_id identity)
                  \<lparr>owned_organization = organization, owned_identity = identity\<rparr> m))"

definition identities_findById ::
    "OrganizationId \<Rightarrow> IdentityId \<Rightarrow> IdentityRepository \<Rightarrow> Identity option Result" where
  "identities_findById organization iid m =
     (case map_of m iid of
        None \<Rightarrow> Inr None
      | Some position \<Rightarrow>
          if owned_organization position \<noteq> organization then Inr None
          else Inr (Some (owned_identity position)))"

definition identities_changeStatus ::
    "OrganizationId \<Rightarrow> IdentityId \<Rightarrow> IdentityStatus \<Rightarrow> IdentityRepository
     \<Rightarrow> Status \<times> IdentityRepository" where
  "identities_changeStatus organization iid status m =
     (case map_of m iid of
        None \<Rightarrow> (fail_code NotFound, m)
      | Some position \<Rightarrow>
          if owned_organization position \<noteq> organization then (fail_code NotFound, m)
          else (case Identity_changeStatus status (owned_identity position) of
                  (r, identity) \<Rightarrow> (r, omap_modify iid (\<lambda>p. p\<lparr>owned_identity := identity\<rparr>) m)))"

definition idsOfKind :: "OrganizationId \<Rightarrow> SubjectKind \<Rightarrow> IdentityRepository \<Rightarrow> IdentityId list Result" where
  "idsOfKind organization kind m =
     Inr (map fst (filter (\<lambda>(k, p). owned_organization p = organization
                                   \<and> ident_kind (owned_identity p) = kind) m))"

text \<open>\<open>None\<close> is the abort of \<^verbatim>\<open>requireInvariant\<close>.\<close>

definition identities_countIn :: "OrganizationId \<Rightarrow> IdentityRepository \<Rightarrow> nat Result option" where
  "identities_countIn organization m =
     (let total = length (filter (\<lambda>(k, p). owned_organization p = organization) m)
      in if total \<le> length m then Some (Inr total) else None)"

section \<open>Account links\<close>

record ExternalIdentityRef =
  ext_providerId :: ProviderId
  ext_subject :: ExternalSubject
  ext_displayName :: "string option"
  ext_preferredUsername :: "string option"
  ext_pictureUrl :: "string option"

text \<open>\<^verbatim>\<open>operator==\<close> and \<^verbatim>\<open>operator<=>\<close> look at provider and subject only.\<close>

definition ref_key :: "ExternalIdentityRef \<Rightarrow> ProviderId \<times> ExternalSubject" where
  "ref_key e = (ext_providerId e, ext_subject e)"

datatype LinkState = LinkRequested | VerificationRequired | Verified | Linked | Rejected | Expired | Revoked

fun linkStateName :: "LinkState \<Rightarrow> string" where
  "linkStateName LinkRequested = ''link_requested''"
| "linkStateName VerificationRequired = ''verification_required''"
| "linkStateName Verified = ''verified''" | "linkStateName Linked = ''linked''"
| "linkStateName Rejected = ''rejected''" | "linkStateName Expired = ''expired''"
| "linkStateName Revoked = ''revoked''"

fun isTerminalLinkState :: "LinkState \<Rightarrow> bool" where
  "isTerminalLinkState Rejected = True" | "isTerminalLinkState Expired = True"
| "isTerminalLinkState Revoked = True"
| "isTerminalLinkState _ = False"

fun isPermittedTransition :: "LinkState \<Rightarrow> LinkState \<Rightarrow> bool" where
  "isPermittedTransition LinkRequested to = (to = VerificationRequired \<or> to = Rejected \<or> to = Expired)"
| "isPermittedTransition VerificationRequired to = (to = Verified \<or> to = Rejected \<or> to = Expired)"
| "isPermittedTransition Verified to = (to = Linked \<or> to = Rejected \<or> to = Expired)"
| "isPermittedTransition Linked to = (to = Revoked)"
| "isPermittedTransition _ to = False"

record IdentityLink =
  link_owner :: IdentityId
  link_external :: ExternalIdentityRef
  link_state :: LinkState
  link_requestedAt :: Instant
  link_expiresAt :: Instant

definition Link_request ::
    "IdentityId \<Rightarrow> ExternalIdentityRef \<Rightarrow> Instant \<Rightarrow> Duration \<Rightarrow> IdentityLink Result" where
  "Link_request owner external requestedAt lifetime =
     (if StrongId_empty owner
      then fail_msg InvalidArgument ''A link request must name the identity it would attach to.''
      else if StrongId_empty (ext_providerId external) \<or> StrongId_empty (ext_subject external)
      then fail_detail InvalidArgument ''A link request must name a provider and an external subject.''
             ''An external identity is only meaningful as a (provider, subject) pair; a subject without its issuer would match unrelated subjects elsewhere.''
      else if lifetime \<le> 0
      then fail_msg InvalidArgument ''A link request must have a positive lifetime.''
      else Inr \<lparr>link_owner = owner, link_external = external, link_state = LinkRequested,
                link_requestedAt = requestedAt, link_expiresAt = requestedAt + lifetime\<rparr>)"

definition Link_isExpiredAt :: "IdentityLink \<Rightarrow> Instant \<Rightarrow> bool" where
  "Link_isExpiredAt l now = (now \<ge> link_expiresAt l)"

definition Link_transitionTo ::
    "LinkState \<Rightarrow> Instant \<Rightarrow> bool \<Rightarrow> IdentityLink \<Rightarrow> Status \<times> IdentityLink" where
  "Link_transitionTo next now honourExpiry l =
     (if \<not> isPermittedTransition (link_state l) next
      then (fail_detail FailedPrecondition ''This account link cannot be advanced.''
              (''Refused link transition '' @ linkStateName (link_state l) @ '' -> ''
               @ linkStateName next @ ''.''), l)
      else if honourExpiry \<and> Link_isExpiredAt l now
      then (fail_detail FailedPrecondition ''This account link request has expired.''
              ''Link transition refused: request deadline passed.'', l\<lparr>link_state := Expired\<rparr>)
      else (ok, l\<lparr>link_state := next\<rparr>))"

definition requireVerification :: "Instant \<Rightarrow> IdentityLink \<Rightarrow> Status \<times> IdentityLink" where
  "requireVerification now = Link_transitionTo VerificationRequired now True"

definition markVerified :: "Instant \<Rightarrow> IdentityLink \<Rightarrow> Status \<times> IdentityLink" where
  "markVerified now = Link_transitionTo Verified now True"

definition complete :: "Instant \<Rightarrow> IdentityLink \<Rightarrow> Status \<times> IdentityLink" where
  "complete now = Link_transitionTo Linked now True"

definition Link_reject :: "Instant \<Rightarrow> IdentityLink \<Rightarrow> Status \<times> IdentityLink" where
  "Link_reject now = Link_transitionTo Rejected now False"

definition Link_revoke :: "Instant \<Rightarrow> IdentityLink \<Rightarrow> Status \<times> IdentityLink" where
  "Link_revoke now = Link_transitionTo Revoked now False"

definition Link_expire :: "Instant \<Rightarrow> IdentityLink \<Rightarrow> Status \<times> IdentityLink" where
  "Link_expire now = Link_transitionTo Expired now False"

section \<open>A link is never created implicitly\<close>

datatype link_call =
    RequireVerification Instant | MarkVerified Instant | Complete Instant
  | RejectLink Instant | RevokeLink Instant | ExpireLink Instant

fun link_step :: "link_call \<Rightarrow> IdentityLink \<Rightarrow> Status \<times> IdentityLink" where
  "link_step (RequireVerification now) = requireVerification now"
| "link_step (MarkVerified now) = markVerified now"
| "link_step (Complete now) = complete now"
| "link_step (RejectLink now) = Link_reject now"
| "link_step (RevokeLink now) = Link_revoke now"
| "link_step (ExpireLink now) = Link_expire now"

lemmas link_step_defs = requireVerification_def markVerified_def complete_def Link_reject_def
  Link_revoke_def Link_expire_def Link_transitionTo_def Link_isExpiredAt_def

text \<open>The calls a link has behind it in each state, the most recent last.\<close>

fun link_path :: "Instant \<Rightarrow> LinkState \<Rightarrow> link_call list \<Rightarrow> bool" where
  "link_path e VerificationRequired cs = (\<exists>t1 < e. subseq [RequireVerification t1] cs)"
| "link_path e Verified cs = (\<exists>t1 < e. \<exists>t2 < e. subseq [RequireVerification t1, MarkVerified t2] cs)"
| "link_path e Linked cs =
     (\<exists>t1 < e. \<exists>t2 < e. \<exists>t3 < e. subseq [RequireVerification t1, MarkVerified t2, Complete t3] cs)"
| "link_path e _ cs = True"

lemma subseq_snoc: "subseq xs ys \<Longrightarrow> subseq (xs @ [y]) (ys @ [y])"
  by (simp add: list_emb_append_mono)

lemma link_path_more: "link_path e s cs \<Longrightarrow> link_path e s (cs @ [c])"
  by (cases s) (auto intro: subseq_order.order_trans list_emb_prefix)

lemma link_path_step:
  assumes "link_path (link_expiresAt l) (link_state l) cs"
  shows "link_path (link_expiresAt l) (link_state (snd (link_step c l))) (cs @ [c])"
proof (cases "link_state (snd (link_step c l)) = link_state l")
  case True
  then show ?thesis using assms by (simp only: link_path_more)
next
  case False
  note grow = subseq_snoc [of "[]" cs c] subseq_snoc [of "[RequireVerification t]" cs c for t]
    subseq_snoc [of "[RequireVerification t, MarkVerified u]" cs c for t u]
  show ?thesis
    using False assms grow
    by (cases c; cases "link_state l") (auto simp: link_step_defs not_le split: if_splits, blast+)
qed

lemma link_step_keeps [simp]:
  "link_expiresAt (snd (link_step c l)) = link_expiresAt l"
  "link_owner (snd (link_step c l)) = link_owner l"
  "link_external (snd (link_step c l)) = link_external l"
  by (cases c; simp add: link_step_defs)+

lemma link_run_keeps [simp]:
  "link_expiresAt (final_state link_step cs l) = link_expiresAt l"
  "link_owner (final_state link_step cs l) = link_owner l"
  "link_external (final_state link_step cs l) = link_external l"
  by (induction cs arbitrary: l) simp_all

lemma link_run_path:
  "link_path (link_expiresAt l) (link_state l) [] \<Longrightarrow>
   link_path (link_expiresAt l) (link_state (final_state link_step cs l)) cs"
  using link_path_step [of "final_state link_step xs l" xs x for xs x]
  by (induction cs rule: rev_induct) simp_all

interpretation link_machine: guarded_machine link_step "\<lambda>_. True"
  by unfold_locales simp

interpretation closed_link: stable_fact link_step "\<lambda>_. True" "\<lambda>_. True"
    "\<lambda>l. isTerminalLinkState (link_state l) \<and> l = l0"
  for l0 :: IdentityLink
proof unfold_locales
  fix l c
  assume "isTerminalLinkState (link_state l) \<and> l = l0"
  then show "isTerminalLinkState (link_state (snd (link_step c l))) \<and> snd (link_step c l) = l0"
    by (cases c; cases "link_state l") (auto simp: link_step_defs)
qed

text \<open>
  No account is linked implicitly: whatever is called on a link request, it is linked only
  after verification was demanded, then passed, then completed, in this order and each before the
  deadline; its owner and its external identity are those of the request; and a rejected, expired
  or revoked link never changes again.
\<close>

theorem link_never_implicit:
  assumes "Link_request owner external requestedAt lifetime = Inr l"
    and "l' = final_state link_step cs l"
  shows "link_owner l' = owner \<and> link_external l' = external
    \<and> (link_state l' = Linked \<longrightarrow>
        (\<exists>t1 t2 t3. subseq [RequireVerification t1, MarkVerified t2, Complete t3] cs
           \<and> t1 < requestedAt + lifetime \<and> t2 < requestedAt + lifetime \<and> t3 < requestedAt + lifetime))
    \<and> (isTerminalLinkState (link_state l') \<longrightarrow> final_state link_step later l' = l')"
proof -
  have l: "link_state l = LinkRequested" "link_expiresAt l = requestedAt + lifetime"
      "link_owner l = owner" "link_external l = external"
    using assms(1) by (auto simp: Link_request_def split: if_splits)
  then have "link_path (requestedAt + lifetime) (link_state l') cs"
    using link_run_path [of l cs] assms(2) by simp
  then have "\<exists>t1 t2 t3. subseq [RequireVerification t1, MarkVerified t2, Complete t3] cs
       \<and> t1 < requestedAt + lifetime \<and> t2 < requestedAt + lifetime \<and> t3 < requestedAt + lifetime"
    if "link_state l' = Linked"
    using that by auto
  moreover have "final_state link_step later l' = l'" if "isTerminalLinkState (link_state l')"
    using closed_link.run_fact [of l' l' later] that by (simp add: list_all_iff)
  ultimately show ?thesis
    using l assms(2) by simp
qed

abbreviation sample_external :: ExternalIdentityRef where
  "sample_external \<equiv> \<lparr>ext_providerId = StrongId ''github'', ext_subject = StrongId ''42'',
     ext_displayName = None, ext_preferredUsername = None, ext_pictureUrl = None\<rparr>"

theorem link_never_implicit_witness:
  "\<exists>l. Link_request (StrongId ''alice'') sample_external 0 100 = Inr l
     \<and> link_state (final_state link_step [RequireVerification 1, MarkVerified 2, Complete 3] l) = Linked
     \<and> link_owner (final_state link_step [RequireVerification 1, MarkVerified 2, Complete 3] l) = StrongId ''alice''"
proof -
  let ?l = "\<lparr>link_owner = StrongId ''alice'', link_external = sample_external,
     link_state = LinkRequested, link_requestedAt = 0, link_expiresAt = 100\<rparr>"
  have l: "Link_request (StrongId ''alice'') sample_external 0 100 = Inr ?l"
    by (simp add: Link_request_def)
  have "link_state (final_state link_step [RequireVerification 1, MarkVerified 2, Complete 3] ?l) = Linked"
    by (simp add: link_step_defs)
  then show ?thesis
    using l link_never_implicit [OF l refl, of "[RequireVerification 1, MarkVerified 2, Complete 3]" "[]"]
    by blast
qed

end
