(* ===== verification/Identity_Directory.thy ===== *)
theory Identity_Directory
  imports Identity_Core
begin

text \<open>
  The directory of external identities (\<^verbatim>\<open>InMemoryExternalIdentityDirectory\<close> of
  \<^verbatim>\<open>src/src/identity/core/link.cpp\<close>) and the merge of two identities (\<^verbatim>\<open>merge.cpp\<close>).
  The directory's maps are keyed by provider and subject; the key object the source stores with an
  owner keeps the presentation fields of the reference it was inserted with.
\<close>

section \<open>The directory\<close>

type_synonym RefKey = "ProviderId \<times> ExternalSubject"

record Directory =
  dir_owners :: "(RefKey, ExternalIdentityRef \<times> IdentityId) omap"
  dir_presentations :: "(RefKey, ExternalIdentityRef) omap"

definition empty_directory :: Directory where
  "empty_directory = \<lparr>dir_owners = [], dir_presentations = []\<rparr>"

definition attach :: "IdentityLink \<Rightarrow> Directory \<Rightarrow> Status \<times> Directory" where
  "attach link d =
     (if link_state link \<noteq> Linked
      then (fail_detail FailedPrecondition ''This account link is not complete.''
              (''Refused to attach an external identity from a link in state ''
               @ linkStateName (link_state link)
               @ ''; only a Linked request may create an association.''), d)
      else (case map_of (dir_owners d) (ref_key (link_external link)) of
              Some existing \<Rightarrow>
                if snd existing = link_owner link then (ok, d)
                else (fail_detail Conflict
                        ''That account is already connected to a different OpenProof identity.''
                        ''Refused to transfer an external identity between canonical identities. Reassignment requires an explicit, separately authorised merge or recovery operation.'', d)
            | None \<Rightarrow>
                (ok, \<lparr>dir_owners = omap_emplace (ref_key (link_external link))
                        (link_external link, link_owner link) (dir_owners d),
                      dir_presentations = omap_insert_or_assign (ref_key (link_external link))
                        (link_external link) (dir_presentations d)\<rparr>)))"

definition ownerOf :: "ExternalIdentityRef \<Rightarrow> Directory \<Rightarrow> IdentityId option Result" where
  "ownerOf external d = Inr (map_option snd (map_of (dir_owners d) (ref_key external)))"

definition remove_association :: "RefKey \<Rightarrow> Directory \<Rightarrow> Directory" where
  "remove_association k d =
     \<lparr>dir_owners = omap_erase k (dir_owners d), dir_presentations = omap_erase k (dir_presentations d)\<rparr>"

definition detach :: "ExternalIdentityRef \<Rightarrow> IdentityId \<Rightarrow> Directory \<Rightarrow> Status \<times> Directory" where
  "detach external expectedOwner d =
     (case map_of (dir_owners d) (ref_key external) of
        None \<Rightarrow> (fail_msg NotFound ''That connected account was not found.'', d)
      | Some position \<Rightarrow>
          if snd position \<noteq> expectedOwner
          then (fail_detail PermissionDenied ''The request was denied.''
                  ''Refused to detach an external identity owned by a different canonical identity.'', d)
          else (ok, remove_association (ref_key external) d))"

definition authentication_methods :: "IdentityId \<Rightarrow> ProviderId list \<Rightarrow> Directory \<Rightarrow> nat" where
  "authentication_methods owner authenticationProviders d =
     length (filter (\<lambda>(k, v). snd v = owner \<and> fst k \<in> set authenticationProviders) (dir_owners d))"

definition detachIfAnotherAuthenticationMethod ::
    "ExternalIdentityRef \<Rightarrow> IdentityId \<Rightarrow> ProviderId list \<Rightarrow> Directory \<Rightarrow> Status \<times> Directory" where
  "detachIfAnotherAuthenticationMethod external expectedOwner authenticationProviders d =
     (case map_of (dir_owners d) (ref_key external) of
        None \<Rightarrow> (fail_msg NotFound ''That connected account was not found.'', d)
      | Some position \<Rightarrow>
          if snd position \<noteq> expectedOwner
          then (fail_msg PermissionDenied ''The request was denied.'', d)
          else if authentication_methods expectedOwner authenticationProviders d \<le> 1
          then (fail_msg FailedPrecondition
                  ''The last available sign-in method cannot be disconnected.'', d)
          else (ok, remove_association (ref_key external) d))"

text \<open>\<open>None\<close> is the abort of \<^verbatim>\<open>requireInvariant\<close>.\<close>

definition reassign ::
    "ExternalIdentityRef \<Rightarrow> IdentityId \<Rightarrow> IdentityId \<Rightarrow> Directory \<Rightarrow> (Status \<times> Directory) option" where
  "reassign external expectedCurrentOwner newOwner d =
     (case map_of (dir_owners d) (ref_key external) of
        None \<Rightarrow> Some (fail_msg NotFound ''That connected account was not found.'', d)
      | Some position \<Rightarrow>
          if snd position \<noteq> expectedCurrentOwner
          then Some (fail_detail PermissionDenied ''The request was denied.''
                  ''Refused to reassign an external identity owned by a different canonical identity. Naming an association is not evidence of controlling it.'', d)
          else let owners = omap_modify (ref_key external) (\<lambda>(e, _). (e, newOwner)) (dir_owners d)
               in if map_option snd (map_of owners (ref_key external)) = Some newOwner
                  then Some (ok, d\<lparr>dir_owners := owners\<rparr>) else None)"

definition updatePresentation :: "ExternalIdentityRef \<Rightarrow> Directory \<Rightarrow> Status \<times> Directory" where
  "updatePresentation external d =
     (if \<not> omap_contains (dir_owners d) (ref_key external)
      then (fail_msg NotFound ''That connected account was not found.'', d)
      else (case map_of (dir_presentations d) (ref_key external) of
              None \<Rightarrow> (ok, d\<lparr>dir_presentations :=
                         omap_emplace (ref_key external) external (dir_presentations d)\<rparr>)
            | Some previous \<Rightarrow>
                (ok, d\<lparr>dir_presentations := omap_insert_or_assign (ref_key external)
                   \<lparr>ext_providerId = ext_providerId external, ext_subject = ext_subject external,
                    ext_displayName = (if ext_displayName external \<noteq> None
                       then ext_displayName external else ext_displayName previous),
                    ext_preferredUsername = (if ext_preferredUsername external \<noteq> None
                       then ext_preferredUsername external else ext_preferredUsername previous),
                    ext_pictureUrl = (if id_value (ext_providerId external) = ''telegram''
                       then ext_pictureUrl external
                       else if ext_pictureUrl external \<noteq> None then ext_pictureUrl external
                       else ext_pictureUrl previous)\<rparr> (dir_presentations d)\<rparr>)))"

definition externalIdentitiesOf :: "IdentityId \<Rightarrow> Directory \<Rightarrow> ExternalIdentityRef list Result" where
  "externalIdentitiesOf owner d =
     Inr (map (\<lambda>(k, v). case map_of (dir_presentations d) k of None \<Rightarrow> fst v | Some p \<Rightarrow> p)
            (filter (\<lambda>(k, v). snd v = owner) (dir_owners d)))"

section \<open>Merging two identities\<close>

datatype MergeState = Requested | VerificationRequired | Verified | Applied | Rejected | Expired

fun mergeStateName :: "MergeState \<Rightarrow> string" where
  "mergeStateName Requested = ''requested''"
| "mergeStateName VerificationRequired = ''verification_required''"
| "mergeStateName Verified = ''verified''" | "mergeStateName Applied = ''applied''"
| "mergeStateName Rejected = ''rejected''" | "mergeStateName Expired = ''expired''"

fun isTerminalMergeState :: "MergeState \<Rightarrow> bool" where
  "isTerminalMergeState Requested = False" | "isTerminalMergeState VerificationRequired = False"
| "isTerminalMergeState Verified = False"
| "isTerminalMergeState _ = True"

record IdentityMerge =
  merge_organization :: OrganizationId
  merge_source :: IdentityId
  merge_target :: IdentityId
  merge_state :: MergeState
  merge_requestedAt :: Instant
  merge_expiresAt :: Instant

definition Merge_request ::
    "OrganizationId \<Rightarrow> IdentityId \<Rightarrow> IdentityId \<Rightarrow> Instant \<Rightarrow> Duration \<Rightarrow> IdentityMerge Result" where
  "Merge_request organization source target now validFor =
     (if StrongId_empty organization
      then fail_msg InvalidArgument ''A merge must name an organization.''
      else if StrongId_empty source \<or> StrongId_empty target
      then fail_msg InvalidArgument ''A merge must name both identities.''
      else if source = target
      then fail_detail InvalidArgument ''An identity cannot be merged into itself.''
             ''Source and target were the same key. Applying it would mark the surviving identity as merged and disable the account the operation was meant to keep.''
      else if validFor \<le> 0
      then fail_detail InvalidArgument ''A merge request must have a positive lifetime.''
             ''A non-positive lifetime yields a request that is already expired, which would either be unusable or, if expiry were ignored, never expire at all.''
      else Inr \<lparr>merge_organization = organization, merge_source = source, merge_target = target,
                merge_state = Requested, merge_requestedAt = now, merge_expiresAt = now + validFor\<rparr>)"

definition Merge_isExpiredAt :: "IdentityMerge \<Rightarrow> Instant \<Rightarrow> bool" where
  "Merge_isExpiredAt m now = (now \<ge> merge_expiresAt m)"

definition Merge_transitionTo ::
    "MergeState \<Rightarrow> Instant \<Rightarrow> bool \<Rightarrow> IdentityMerge \<Rightarrow> Status \<times> IdentityMerge" where
  "Merge_transitionTo next now honourExpiry m =
     (if isTerminalMergeState (merge_state m)
      then (fail_detail FailedPrecondition ''This merge request can no longer be changed.''
              ''Refused to transition out of a terminal merge state.'', m)
      else if honourExpiry \<and> Merge_isExpiredAt m now
      then (fail_msg FailedPrecondition ''This merge request has expired.'', m\<lparr>merge_state := Expired\<rparr>)
      else (ok, m\<lparr>merge_state := next\<rparr>))"

definition Merge_requireVerification :: "Instant \<Rightarrow> IdentityMerge \<Rightarrow> Status \<times> IdentityMerge" where
  "Merge_requireVerification now m =
     (if merge_state m \<noteq> Requested
      then (fail_msg FailedPrecondition ''This merge request is not awaiting verification.'', m)
      else Merge_transitionTo VerificationRequired now True m)"

definition Merge_markVerified :: "Instant \<Rightarrow> IdentityMerge \<Rightarrow> Status \<times> IdentityMerge" where
  "Merge_markVerified now m =
     (if merge_state m \<noteq> VerificationRequired
      then (fail_detail FailedPrecondition ''This merge request cannot be marked verified.''
              ''Verification may only follow an explicit verification requirement. Allowing it from any other state would make the requirement optional.'', m)
      else Merge_transitionTo Verified now True m)"

definition markApplied :: "Instant \<Rightarrow> IdentityMerge \<Rightarrow> Status \<times> IdentityMerge" where
  "markApplied now m =
     (if merge_state m \<noteq> Verified
      then (fail_detail FailedPrecondition ''This merge request has not been verified.''
              ''Refused to apply a merge that did not pass through the Verified state.'', m)
      else Merge_transitionTo Applied now True m)"

definition Merge_reject :: "Instant \<Rightarrow> IdentityMerge \<Rightarrow> Status \<times> IdentityMerge" where
  "Merge_reject now = Merge_transitionTo Rejected now False"

definition Merge_expire :: "Instant \<Rightarrow> IdentityMerge \<Rightarrow> Status \<times> IdentityMerge" where
  "Merge_expire now = Merge_transitionTo Expired now False"

record MergeRecord =
  mrec_organization :: OrganizationId
  mrec_source :: IdentityId
  mrec_target :: IdentityId
  mrec_appliedAt :: Instant
  mrec_movedAssociations :: "ExternalIdentityRef list"

definition isTerminalIdentityStatus :: "IdentityStatus \<Rightarrow> bool" where
  "isTerminalIdentityStatus status = (status = Deleted \<or> status = Merged)"

text \<open>The loop that moves the associations and stops at the first refusal.\<close>

fun move_associations ::
    "ExternalIdentityRef list \<Rightarrow> IdentityId \<Rightarrow> IdentityId \<Rightarrow> Directory
     \<Rightarrow> (ExternalIdentityRef list Result \<times> Directory) option" where
  "move_associations [] source target d = Some (Inr [], d)"
| "move_associations (external # rest) source target d =
     (case reassign external source target d of
        None \<Rightarrow> None
      | Some (Inl e, d') \<Rightarrow> Some (Inl e, d')
      | Some (Inr _, d') \<Rightarrow>
          (case move_associations rest source target d' of
             None \<Rightarrow> None
           | Some (Inl e, d'') \<Rightarrow> Some (Inl e, d'')
           | Some (Inr moved, d'') \<Rightarrow> Some (Inr (external # moved), d'')))"

text \<open>What a merge touches: the request, the identities and the directory.\<close>

type_synonym merge_world = "IdentityMerge \<times> IdentityRepository \<times> Directory"

definition applyMerge ::
    "Instant \<Rightarrow> IdentityMerge \<Rightarrow> IdentityRepository \<Rightarrow> Directory
     \<Rightarrow> (MergeRecord Result \<times> merge_world) option" where
  "applyMerge now merge identities directory =
     (if merge_state merge \<noteq> Verified
      then Some (fail_detail FailedPrecondition ''This merge request has not been verified.''
              ''applyMerge refused a request that had not passed through the Verified state.'',
              merge, identities, directory)
      else if Merge_isExpiredAt merge now
      then Some (fail_msg FailedPrecondition ''This merge request has expired.'',
              snd (Merge_expire now merge), identities, directory)
      else
     (case (identities_findById (merge_organization merge) (merge_source merge) identities,
            identities_findById (merge_organization merge) (merge_target merge) identities) of
        (Inl e, _) \<Rightarrow> Some (Inl e, merge, identities, directory)
      | (Inr _, Inl e) \<Rightarrow> Some (Inl e, merge, identities, directory)
      | (Inr (Some source), Inr (Some target)) \<Rightarrow>
          if isTerminalIdentityStatus (ident_status source) \<or> isTerminalIdentityStatus (ident_status target)
          then Some (fail_detail FailedPrecondition
                  ''One of the identities in this merge can no longer be modified.''
                  ''Refused to merge into or out of a deleted or already-merged identity. Doing so would either resurrect a retired key or produce a chain of merges whose final owner is ambiguous.'',
                  merge, identities, directory)
          else
     (case externalIdentitiesOf (merge_source merge) directory of
        Inl e \<Rightarrow> Some (Inl e, merge, identities, directory)
      | Inr owned \<Rightarrow>
     (case move_associations owned (merge_source merge) (merge_target merge) directory of
        None \<Rightarrow> None
      | Some (Inl e, directory') \<Rightarrow> Some (Inl e, merge, identities, directory')
      | Some (Inr moved, directory') \<Rightarrow>
     (case identities_changeStatus (merge_organization merge) (merge_source merge) Merged identities of
        (Inl e, identities') \<Rightarrow> Some (Inl e, merge, identities', directory')
      | (Inr _, identities') \<Rightarrow>
     (case markApplied now merge of
        (Inl e, merge') \<Rightarrow> Some (Inl e, merge', identities', directory')
      | (Inr _, merge') \<Rightarrow>
          if merge_state merge' = Applied \<and> length moved = length owned
          then Some (Inr \<lparr>mrec_organization = merge_organization merge', mrec_source = merge_source merge',
                         mrec_target = merge_target merge', mrec_appliedAt = now,
                         mrec_movedAssociations = moved\<rparr>, merge', identities', directory')
          else None))))
      | _ \<Rightarrow> Some (fail_detail NotFound ''One of the identities in this merge was not found.''
               ''Either a key does not exist or it belongs to another organization; the two are deliberately indistinguishable here.'',
               merge, identities, directory)))"

end
