(* ===== verification/Identity_Proofs.thy ===== *)
theory Identity_Proofs
  imports Identity_Directory
begin

text \<open>
  What the directory and the merge guarantee. The directory refines a partial function from
  external identities to their owners; ownership moves only with the consent of the owner; a merge
  moves exactly the associations of the source and retires it for good.
\<close>

section \<open>The directory as a partial function\<close>

definition owner_map :: "Directory \<Rightarrow> RefKey \<rightharpoonup> IdentityId" where
  "owner_map d k = map_option snd (map_of (dir_owners d) k)"

definition directory_inv :: "Directory \<Rightarrow> bool" where
  "directory_inv d \<longleftrightarrow> omap_ok (dir_owners d) \<and> omap_ok (dir_presentations d)
     \<and> (\<forall>k v. map_of (dir_owners d) k = Some v \<longrightarrow> ref_key (fst v) = k)
     \<and> (\<forall>k p. map_of (dir_presentations d) k = Some p \<longrightarrow> ref_key p = k)"

lemma directory_invD:
  assumes "directory_inv d"
  shows "omap_ok (dir_owners d)" "omap_ok (dir_presentations d)"
    and "map_of (dir_owners d) k = Some v \<Longrightarrow> ref_key (fst v) = k"
    and "map_of (dir_presentations d) k = Some p \<Longrightarrow> ref_key p = k"
  using assms unfolding directory_inv_def by blast+

datatype directory_call =
    Attach IdentityLink
  | Detach ExternalIdentityRef IdentityId
  | DetachIfAnother ExternalIdentityRef IdentityId "ProviderId list"
  | Reassign ExternalIdentityRef IdentityId IdentityId
  | UpdatePresentation ExternalIdentityRef

lemma reassign_total:
  "reassign e current new d = Some
     (case map_of (dir_owners d) (ref_key e) of
        None \<Rightarrow> (fail_msg NotFound ''That connected account was not found.'', d)
      | Some position \<Rightarrow>
          if snd position \<noteq> current
          then (fail_detail PermissionDenied ''The request was denied.''
                  ''Refused to reassign an external identity owned by a different canonical identity. Naming an association is not evidence of controlling it.'', d)
          else (ok, d\<lparr>dir_owners := omap_modify (ref_key e) (\<lambda>(r, _). (r, new)) (dir_owners d)\<rparr>))"
  by (auto simp: reassign_def Let_def map_of_modify split: option.splits)

text \<open>The branch for an abort is never taken, by the lemma above.\<close>

fun directory_step :: "directory_call \<Rightarrow> Directory \<Rightarrow> Status \<times> Directory" where
  "directory_step (Attach l) d = attach l d"
| "directory_step (Detach e owner) d = detach e owner d"
| "directory_step (DetachIfAnother e owner ps) d = detachIfAnotherAuthenticationMethod e owner ps d"
| "directory_step (Reassign e current new) d =
     (case reassign e current new d of Some out \<Rightarrow> out | None \<Rightarrow> (fail_code Internal, d))"
| "directory_step (UpdatePresentation e) d = updatePresentation e d"

abbreviation directory_after :: "directory_call list \<Rightarrow> Directory" where
  "directory_after cs \<equiv> final_state directory_step cs empty_directory"

text \<open>
  The specification: when a call takes effect, and what it does to the ownership relation.
\<close>

fun spec_accepts :: "directory_call \<Rightarrow> (RefKey \<rightharpoonup> IdentityId) \<Rightarrow> bool" where
  "spec_accepts (Attach l) S =
     (link_state l = Linked \<and> (S (ref_key (link_external l)) \<in> {None, Some (link_owner l)}))"
| "spec_accepts (Detach e owner) S = (S (ref_key e) = Some owner)"
| "spec_accepts (DetachIfAnother e owner ps) S =
     (S (ref_key e) = Some owner \<and> 1 < card {k. S k = Some owner \<and> fst k \<in> set ps})"
| "spec_accepts (Reassign e current new) S = (S (ref_key e) = Some current)"
| "spec_accepts (UpdatePresentation e) S = (S (ref_key e) \<noteq> None)"

fun spec_effect :: "directory_call \<Rightarrow> (RefKey \<rightharpoonup> IdentityId) \<Rightarrow> (RefKey \<rightharpoonup> IdentityId)" where
  "spec_effect (Attach l) S = S(ref_key (link_external l) \<mapsto> link_owner l)"
| "spec_effect (Detach e owner) S = S(ref_key e := None)"
| "spec_effect (DetachIfAnother e owner ps) S = S(ref_key e := None)"
| "spec_effect (Reassign e current new) S = S(ref_key e \<mapsto> new)"
| "spec_effect (UpdatePresentation e) S = S"

definition spec_step :: "directory_call \<Rightarrow> (RefKey \<rightharpoonup> IdentityId) \<Rightarrow> bool \<times> (RefKey \<rightharpoonup> IdentityId)" where
  "spec_step c S = (if spec_accepts c S then (True, spec_effect c S) else (False, S))"

lemma authentication_methods_card:
  assumes "omap_ok (dir_owners d)"
  shows "authentication_methods owner ps d = card {k. owner_map d k = Some owner \<and> fst k \<in> set ps}"
proof -
  let ?P = "\<lambda>(k, v). snd v = owner \<and> fst k \<in> set ps"
  have "distinct (map fst (filter ?P (dir_owners d)))"
    using assms omap_ok_filter [OF assms, of ?P] by (simp add: omap_ok_def strict_sorted_iff)
  then have "length (filter ?P (dir_owners d)) = card (set (map fst (filter ?P (dir_owners d))))"
    using distinct_card by fastforce
  also have "set (map fst (filter ?P (dir_owners d))) = {k. owner_map d k = Some owner \<and> fst k \<in> set ps}"
    using assms by (force simp: owner_map_def omap_entry)
  finally show ?thesis by (simp add: authentication_methods_def)
qed

lemma owner_map_remove:
  "omap_ok (dir_owners d) \<Longrightarrow> owner_map (remove_association k d) = (owner_map d)(k := None)"
  by (auto simp: owner_map_def remove_association_def map_of_erase fun_eq_iff)

lemma directory_step_refines:
  assumes "directory_inv d"
  shows "(succeeded (fst (directory_step c d)), owner_map (snd (directory_step c d)))
    = spec_step c (owner_map d)"
proof (cases c)
  case (Attach l)
  show ?thesis
    unfolding Attach using directory_invD(1) [OF assms]
    by (auto simp: spec_step_def attach_def owner_map_def om.find_emplace_new fun_eq_iff
        split: option.splits)
next
  case (Detach e owner)
  show ?thesis
    unfolding Detach using owner_map_remove [OF directory_invD(1) [OF assms]]
    by (auto simp: spec_step_def detach_def owner_map_def [of d] split: option.splits)
next
  case (DetachIfAnother e owner ps)
  show ?thesis
    unfolding DetachIfAnother
    using owner_map_remove [OF directory_invD(1) [OF assms]]
      authentication_methods_card [OF directory_invD(1) [OF assms], of owner ps]
    by (auto simp: spec_step_def detachIfAnotherAuthenticationMethod_def owner_map_def [of d]
        split: option.splits)
next
  case (Reassign e current new)
  show ?thesis
    unfolding Reassign
    by (auto simp: spec_step_def reassign_total owner_map_def map_of_modify fun_eq_iff
        split: option.splits)
next
  case (UpdatePresentation e)
  show ?thesis
    unfolding UpdatePresentation
    by (auto simp: spec_step_def updatePresentation_def owner_map_def omap_contains_def fun_eq_iff
        split: option.splits)
qed

lemma ref_key_fields [simp]:
  "ref_key \<lparr>ext_providerId = ext_providerId e, ext_subject = ext_subject e, ext_displayName = a,
     ext_preferredUsername = b, ext_pictureUrl = c\<rparr> = ref_key e"
  by (simp add: ref_key_def)

lemma directory_inv_step: "directory_inv d \<Longrightarrow> directory_inv (snd (directory_step c d))"
proof (cases c)
  case (Attach l)
  then show "directory_inv d \<Longrightarrow> ?thesis"
    by (auto simp: attach_def directory_inv_def om.find_emplace_new omap_ok_emplace
        omap_insert_or_assign_def omap_contains_def map_of_modify split: option.splits if_splits)
next
  case (Detach e owner)
  then show "directory_inv d \<Longrightarrow> ?thesis"
    by (auto simp: detach_def directory_inv_def remove_association_def map_of_erase omap_ok_erase
        split: option.splits if_splits)
next
  case (DetachIfAnother e owner ps)
  then show "directory_inv d \<Longrightarrow> ?thesis"
    by (auto simp: detachIfAnotherAuthenticationMethod_def directory_inv_def remove_association_def
        map_of_erase omap_ok_erase split: option.splits if_splits)
next
  case (Reassign e current new)
  then show "directory_inv d \<Longrightarrow> ?thesis"
    by (auto simp: reassign_total directory_inv_def map_of_modify split: option.splits if_splits)
      (metis surj_pair)
next
  case (UpdatePresentation e)
  then show "directory_inv d \<Longrightarrow> ?thesis"
    by (auto simp: updatePresentation_def directory_inv_def om.find_emplace_new omap_ok_emplace
        omap_insert_or_assign_def omap_contains_def map_of_modify split: option.splits if_splits)
qed

lemma directory_inv_empty [simp]: "directory_inv empty_directory"
  by (simp add: directory_inv_def empty_directory_def)

interpretation directory: guarded_machine directory_step directory_inv
  by unfold_locales (rule directory_inv_step)

lemma directory_after_inv: "directory_inv (directory_after cs)"
  using directory_inv_empty by (rule directory.run_inv)

lemma directory_run_refines:
  "directory_inv d \<Longrightarrow> owner_map (final_state directory_step cs d) = fold (\<lambda>c S. snd (spec_step c S)) cs (owner_map d)"
proof (induction cs arbitrary: d)
  case (Cons c cs)
  have "owner_map (snd (directory_step c d)) = snd (spec_step c (owner_map d))"
    using directory_step_refines [OF Cons.prems, of c] by (metis snd_conv)
  then show ?case
    using Cons.IH [OF directory_inv_step [OF Cons.prems], of c] by simp
qed simp

lemma owner_map_empty [simp]: "owner_map empty_directory = Map.empty"
  by (simp add: owner_map_def empty_directory_def fun_eq_iff)

lemma ownerOf_map: "ownerOf e d = Inr (owner_map d (ref_key e))"
  by (simp add: ownerOf_def owner_map_def)

text \<open>
  C10. The directory refines a partial function: after every history of calls, the association of
  external identities with owners is what the specification computes (a link that reached its final
  state is attached unless another identity holds it; detaching and reassigning require naming the
  current owner; the last sign-in method stays), each call succeeds exactly when the specification
  accepts it, and \<^verbatim>\<open>ownerOf\<close> reads the function.
\<close>

theorem directory_refines_ownership:
  "owner_map (directory_after cs) = fold (\<lambda>c S. snd (spec_step c S)) cs Map.empty
   \<and> succeeded (fst (directory_step c (directory_after cs))) = spec_accepts c (owner_map (directory_after cs))
   \<and> ownerOf e (directory_after cs) = Inr (owner_map (directory_after cs) (ref_key e))"
proof -
  have "succeeded (fst (directory_step c (directory_after cs))) = spec_accepts c (owner_map (directory_after cs))"
    using directory_step_refines [OF directory_after_inv, of c cs]
    by (simp add: spec_step_def split: if_splits)
  then show ?thesis
    using directory_run_refines [OF directory_inv_empty, of cs] by (simp add: ownerOf_map)
qed

section \<open>Ownership moves only with the owner's consent\<close>

fun releases :: "RefKey \<Rightarrow> IdentityId \<Rightarrow> directory_call \<Rightarrow> bool" where
  "releases k a (Detach e owner) = (ref_key e = k \<and> owner = a)"
| "releases k a (DetachIfAnother e owner ps) = (ref_key e = k \<and> owner = a)"
| "releases k a (Reassign e current new) = (ref_key e = k \<and> current = a)"
| "releases k a _ = False"

interpretation ownership: stable_fact directory_step directory_inv "\<lambda>c. \<not> releases k a c"
    "\<lambda>d. owner_map d k = Some a"
  for k :: RefKey and a :: IdentityId
proof unfold_locales
  fix d c
  assume inv: "directory_inv d" and owned: "owner_map d k = Some a" and "\<not> releases k a c"
  then have "snd (spec_step c (owner_map d)) k = Some a"
    by (cases c) (auto simp: spec_step_def)
  then show "owner_map (snd (directory_step c d)) k = Some a"
    using directory_step_refines [OF inv, of c] by (metis snd_conv)
qed

text \<open>A guarded detach that succeeds leaves its owner another sign-in method.\<close>

lemma guarded_detach_effect:
  assumes "directory_inv d0" "detachIfAnotherAuthenticationMethod e b ps d0 = (r, d)"
  shows "directory_inv d \<and> (case r of
      Inl _ \<Rightarrow> owner_map d = owner_map d0
    | Inr _ \<Rightarrow> owner_map d0 (ref_key e) = Some b \<and> owner_map d = (owner_map d0)(ref_key e := None)
        \<and> (\<exists>k. owner_map d k = Some b \<and> fst k \<in> set ps))"
proof -
  let ?S = "owner_map d0" and ?c = "DetachIfAnother e b ps"
  have step: "(succeeded r, owner_map d) = spec_step ?c ?S" and inv: "directory_inv d"
    using directory_step_refines [OF assms(1), of ?c] directory_inv_step [OF assms(1), of ?c] assms(2) by simp_all
  have "\<exists>k. (?S(ref_key e := None)) k = Some b \<and> fst k \<in> set ps"
    if "1 < card {k. ?S k = Some b \<and> fst k \<in> set ps}"
  proof -
    have "\<not> {k. ?S k = Some b \<and> fst k \<in> set ps} \<subseteq> {ref_key e}"
      using that card_mono [of "{ref_key e}" "{k. ?S k = Some b \<and> fst k \<in> set ps}"] by auto
    then show ?thesis by auto
  qed
  with step inv show ?thesis
    by (cases r) (auto simp: spec_step_def split: if_splits)
qed

text \<open>
  C6. No account takeover through the directory: while no call names the owner and asks to detach
  or reassign the external identity, it stays with its owner, whatever links others complete; and
  disconnecting the last sign-in method of an identity is refused: after a successful guarded
  detach the identity still has an external identity at an authentication provider.
\<close>

theorem no_takeover:
  assumes "ownerOf e (directory_after cs) = Inr (Some a)"
    and "list_all (\<lambda>c. \<not> releases (ref_key e) a c) later"
  shows "ownerOf e (final_state directory_step later (directory_after cs)) = Inr (Some a)
    \<and> (detachIfAnotherAuthenticationMethod e' b ps (directory_after cs) = (ok, d) \<longrightarrow>
        (\<exists>k. owner_map d k = Some b \<and> fst k \<in> set ps))"
proof -
  have "\<exists>k. owner_map d k = Some b \<and> fst k \<in> set ps"
    if "detachIfAnotherAuthenticationMethod e' b ps (directory_after cs) = (ok, d)"
    using guarded_detach_effect [OF directory_after_inv that] unfolding sum.case by blast
  then show ?thesis
    using ownership.run_fact [OF directory_after_inv _ assms(2), of cs] assms(1) by (simp add: ownerOf_map)
qed

theorem no_takeover_witness:
  "ownerOf sample_external (final_state directory_step
      [Detach sample_external (StrongId ''mallory''), Reassign sample_external (StrongId ''mallory'') (StrongId ''mallory'')]
      (directory_after [Attach \<lparr>link_owner = StrongId ''alice'', link_external = sample_external,
         link_state = Linked, link_requestedAt = 0, link_expiresAt = 100\<rparr>]))
   = Inr (Some (StrongId ''alice''))"
proof -
  let ?l = "\<lparr>link_owner = StrongId ''alice'', link_external = sample_external,
         link_state = Linked, link_requestedAt = 0, link_expiresAt = 100\<rparr>"
  have "ownerOf sample_external (directory_after [Attach ?l]) = Inr (Some (StrongId ''alice''))"
    by (simp add: attach_def empty_directory_def ownerOf_def)
  from no_takeover [OF this, of "[Detach sample_external (StrongId ''mallory''),
      Reassign sample_external (StrongId ''mallory'') (StrongId ''mallory'')]"]
  show ?thesis by simp
qed

section \<open>Merging\<close>

lemma owner_map_reassign:
  assumes "owner_map d (ref_key e) = Some current"
  obtains d' where "reassign e current new d = Some (ok, d')"
    "owner_map d' = (owner_map d)(ref_key e \<mapsto> new)" "dir_presentations d' = dir_presentations d"
  using assms that [of "d\<lparr>dir_owners := omap_modify (ref_key e) (\<lambda>(r, _). (r, new)) (dir_owners d)\<rparr>"]
  by (auto simp: reassign_total owner_map_def map_of_modify fun_eq_iff split: option.splits)

lemma move_associations_owned:
  assumes "list_all (\<lambda>e. owner_map d (ref_key e) = Some source) es" "distinct (map ref_key es)"
  shows "\<exists>d'. move_associations es source target d = Some (Inr es, d')
    \<and> owner_map d' = (\<lambda>k. if k \<in> ref_key ` set es then Some target else owner_map d k)
    \<and> dir_presentations d' = dir_presentations d"
  using assms
proof (induction es arbitrary: d)
  case (Cons e es)
  from Cons.prems(1) obtain d1 where d1: "reassign e source target d = Some (ok, d1)"
      "owner_map d1 = (owner_map d)(ref_key e \<mapsto> target)" "dir_presentations d1 = dir_presentations d"
    using owner_map_reassign [of d e source target] by auto
  have "list_all (\<lambda>e. owner_map d1 (ref_key e) = Some source) es"
    unfolding list_all_iff
  proof
    fix e' assume "e' \<in> set es"
    moreover from this Cons.prems(2) have "ref_key e' \<noteq> ref_key e"
      by (metis distinct.simps(2) list.set_map list.simps(9) imageI)
    ultimately show "owner_map d1 (ref_key e') = Some source"
      using Cons.prems(1) by (simp add: d1(2) list_all_iff)
  qed
  from Cons.IH [OF this] Cons.prems(2) obtain d2 where
      "move_associations es source target d1 = Some (Inr es, d2)"
      "owner_map d2 = (\<lambda>k. if k \<in> ref_key ` set es then Some target else owner_map d1 k)"
      "dir_presentations d2 = dir_presentations d1"
    by auto
  with d1 show ?case by (intro exI [of _ d2] conjI ext) simp_all
qed simp

lemma externalIdentitiesOf_keys:
  assumes "directory_inv d" "externalIdentitiesOf owner d = Inr es"
  shows "distinct (map ref_key es)" "ref_key ` set es = {k. owner_map d k = Some owner}"
proof -
  let ?own = "filter (\<lambda>(k, v). snd v = owner) (dir_owners d)"
  let ?show = "\<lambda>(k, v). case map_of (dir_presentations d) k of None \<Rightarrow> fst v | Some p \<Rightarrow> p"
  have es: "es = map ?show ?own"
    using assms(2) by (simp add: externalIdentitiesOf_def)
  have key: "ref_key (?show kv) = fst kv" if "kv \<in> set (dir_owners d)" for kv
    using that directory_invD(3,4) [OF assms(1), of "fst kv"]
      omap_entry [OF directory_invD(1) [OF assms(1)], of "fst kv" "snd kv"]
    unfolding case_prod_unfold by (auto split: option.splits)
  then have keys: "map ref_key es = map fst ?own"
    unfolding es by auto
  show "distinct (map ref_key es)"
    unfolding keys using omap_ok_filter [OF directory_invD(1) [OF assms(1)]]
    by (simp add: omap_ok_def strict_sorted_iff)
  have "ref_key ` set es = fst ` set ?own"
    using keys by (metis set_map)
  also have "\<dots> = {k. owner_map d k = Some owner}"
    using directory_invD(1) [OF assms(1)] by (force simp: owner_map_def omap_entry)
  finally show "ref_key ` set es = {k. owner_map d k = Some owner}" .
qed

text \<open>A verified, unexpired request over two identities of its tenant that are not retired.\<close>

definition mergeable :: "Instant \<Rightarrow> IdentityMerge \<Rightarrow> IdentityRepository \<Rightarrow> bool" where
  "mergeable now m ids \<longleftrightarrow> merge_state m = MergeState.Verified \<and> now < merge_expiresAt m
     \<and> (\<exists>s t. identities_findById (merge_organization m) (merge_source m) ids = Inr (Some s)
            \<and> identities_findById (merge_organization m) (merge_target m) ids = Inr (Some t)
            \<and> \<not> isTerminalIdentityStatus (ident_status s) \<and> \<not> isTerminalIdentityStatus (ident_status t))"

lemma identities_findById_Some:
  "identities_findById org i ids = Inr (Some x) \<longleftrightarrow>
     (\<exists>o'. map_of ids i = Some o' \<and> owned_organization o' = org \<and> owned_identity o' = x)"
  by (auto simp: identities_findById_def split: option.splits)

lemma identities_findById_Inr: "\<exists>x. identities_findById org i ids = Inr x"
  by (auto simp: identities_findById_def split: option.splits)

lemma changeStatus_active:
  assumes "identities_findById org i ids = Inr (Some x)" "\<not> isTerminalIdentityStatus (ident_status x)"
  shows "identities_changeStatus org i status ids =
    (ok, omap_modify i (\<lambda>p. p\<lparr>owned_identity := x\<lparr>ident_status := status\<rparr>\<rparr>) ids)"
  using assms
  by (auto simp: identities_findById_Some identities_changeStatus_def Identity_changeStatus_def
      isTerminalIdentityStatus_def)

lemma applyMerge_mergeable:
  assumes "mergeable now m ids" "directory_inv d"
  shows "\<exists>es d'. externalIdentitiesOf (merge_source m) d = Inr es
    \<and> owner_map d' = (\<lambda>k. if owner_map d k = Some (merge_source m) then Some (merge_target m) else owner_map d k)
    \<and> dir_presentations d' = dir_presentations d
    \<and> applyMerge now m ids d =
        Some (Inr \<lparr>mrec_organization = merge_organization m, mrec_source = merge_source m,
                   mrec_target = merge_target m, mrec_appliedAt = now, mrec_movedAssociations = es\<rparr>,
              m\<lparr>merge_state := Applied\<rparr>,
              snd (identities_changeStatus (merge_organization m) (merge_source m) Merged ids), d')"
proof -
  obtain s t where st: "identities_findById (merge_organization m) (merge_source m) ids = Inr (Some s)"
      "identities_findById (merge_organization m) (merge_target m) ids = Inr (Some t)"
      "\<not> isTerminalIdentityStatus (ident_status s)" "\<not> isTerminalIdentityStatus (ident_status t)"
      "merge_state m = MergeState.Verified" "\<not> Merge_isExpiredAt m now"
    using assms(1) by (auto simp: mergeable_def Merge_isExpiredAt_def)
  obtain es where es: "externalIdentitiesOf (merge_source m) d = Inr es"
    by (simp add: externalIdentitiesOf_def)
  note keys = externalIdentitiesOf_keys [OF assms(2) es]
  have "list_all (\<lambda>e. owner_map d (ref_key e) = Some (merge_source m)) es"
    using keys(2) by (auto simp: list_all_iff)
  from move_associations_owned [OF this keys(1), of "merge_target m"] obtain d' where
      d': "move_associations es (merge_source m) (merge_target m) d = Some (Inr es, d')"
        "owner_map d' = (\<lambda>k. if k \<in> ref_key ` set es then Some (merge_target m) else owner_map d k)"
        "dir_presentations d' = dir_presentations d"
    by blast
  have "markApplied now m = (ok, m\<lparr>merge_state := Applied\<rparr>)"
    using st(5,6) by (simp add: markApplied_def Merge_transitionTo_def)
  then have "applyMerge now m ids d =
        Some (Inr \<lparr>mrec_organization = merge_organization m, mrec_source = merge_source m,
                   mrec_target = merge_target m, mrec_appliedAt = now, mrec_movedAssociations = es\<rparr>,
              m\<lparr>merge_state := Applied\<rparr>,
              snd (identities_changeStatus (merge_organization m) (merge_source m) Merged ids), d')"
    using st es d'(1) changeStatus_active [OF st(1,3), of Merged] by (simp add: applyMerge_def)
  then show ?thesis
    using es d'(2,3) keys(2) by (auto simp: fun_eq_iff)
qed

lemma applyMerge_refused:
  assumes "\<not> mergeable now m ids"
  shows "\<exists>e m'. applyMerge now m ids d = Some (Inl e, m', ids, d)
    \<and> err_code e \<in> {FailedPrecondition, NotFound}"
proof -
  obtain x y where "identities_findById (merge_organization m) (merge_source m) ids = Inr x"
      "identities_findById (merge_organization m) (merge_target m) ids = Inr y"
    using identities_findById_Inr by metis
  with assms show ?thesis
    by (cases x; cases y)
      (auto simp: applyMerge_def mergeable_def Merge_isExpiredAt_def fail_msg_def fail_detail_def
        Error_with_message_def Error_with_detail_def not_le)
qed

text \<open>
  A merge is exact: it never aborts; it succeeds iff the request was verified and is not past
  its deadline and both identities are in its tenant and not retired; a refusal touches neither
  identities nor associations; and a success gives the target exactly the associations of the
  source, in addition to its own, reports each of them, changes no other association and no other
  identity, and retires the source, which then never authenticates.
\<close>

theorem merge_exact:
  "applyMerge now m ids (directory_after cs) \<noteq> None
   \<and> (case applyMerge now m ids (directory_after cs) of
        Some (Inr rec, m', ids', d') \<Rightarrow>
          mergeable now m ids \<and> merge_state m' = Applied
          \<and> owner_map d' = (\<lambda>k. if owner_map (directory_after cs) k = Some (merge_source m)
                                then Some (merge_target m) else owner_map (directory_after cs) k)
          \<and> ref_key ` set (mrec_movedAssociations rec)
              = {k. owner_map (directory_after cs) k = Some (merge_source m)}
          \<and> (\<exists>p s. map_of ids (merge_source m) = Some p \<and> owned_organization p = merge_organization m
               \<and> s = (owned_identity p)\<lparr>ident_status := Merged\<rparr> \<and> \<not> canAuthenticate s
               \<and> map_of ids' = (map_of ids)(merge_source m \<mapsto> p\<lparr>owned_identity := s\<rparr>))
      | Some (Inl e, m', ids', d') \<Rightarrow> \<not> mergeable now m ids \<and> ids' = ids \<and> d' = directory_after cs
      | None \<Rightarrow> False)"
proof (cases "mergeable now m ids")
  case True
  then obtain s where s: "identities_findById (merge_organization m) (merge_source m) ids = Inr (Some s)"
      "\<not> isTerminalIdentityStatus (ident_status s)"
    by (auto simp: mergeable_def)
  obtain es d' where "externalIdentitiesOf (merge_source m) (directory_after cs) = Inr es"
    and merged: "owner_map d' = (\<lambda>k. if owner_map (directory_after cs) k = Some (merge_source m)
          then Some (merge_target m) else owner_map (directory_after cs) k)"
      "applyMerge now m ids (directory_after cs) =
        Some (Inr \<lparr>mrec_organization = merge_organization m, mrec_source = merge_source m,
                   mrec_target = merge_target m, mrec_appliedAt = now, mrec_movedAssociations = es\<rparr>,
              m\<lparr>merge_state := Applied\<rparr>,
              snd (identities_changeStatus (merge_organization m) (merge_source m) Merged ids), d')"
    using applyMerge_mergeable [OF True directory_after_inv [of cs]] by blast
  moreover have "ref_key ` set es = {k. owner_map (directory_after cs) k = Some (merge_source m)}"
    by (rule externalIdentitiesOf_keys [OF directory_after_inv]) fact
  ultimately show ?thesis
    using True s changeStatus_active [OF s, of Merged]
    by (auto simp: identities_findById_Some map_of_modify canAuthenticate_def fun_eq_iff)
next
  case False
  then show ?thesis
    using applyMerge_refused [OF False, of "directory_after cs"] by auto
qed

end
