(* ===== verification/Organizations.thy ===== *)
theory Organizations
  imports Identity_Core
begin

text \<open>
  Tenants and their members (\<^verbatim>\<open>src/src/organization\<close>): the status of an organization,
  the state machine of a membership with its roles, and the two repositories.
\<close>

section \<open>Organizations\<close>

datatype OrganizationStatus = Active | Suspended | Archived

fun organizationStatusName :: "OrganizationStatus \<Rightarrow> string" where
  "organizationStatusName OrganizationStatus.Active = ''active''"
| "organizationStatusName OrganizationStatus.Suspended = ''suspended''"
| "organizationStatusName Archived = ''archived''"

fun permitsUse :: "OrganizationStatus \<Rightarrow> bool" where
  "permitsUse OrganizationStatus.Active = True"
| "permitsUse OrganizationStatus.Suspended = False"
| "permitsUse Archived = False"

record Organization =
  org_id :: OrganizationId
  org_displayName :: string
  org_createdAt :: Instant
  org_status :: OrganizationStatus

definition Organization_create :: "OrganizationId \<Rightarrow> string \<Rightarrow> Instant \<Rightarrow> Organization Result" where
  "Organization_create oid displayName createdAt =
     (if StrongId_empty oid
      then fail_msg InvalidArgument ''An organization must have an identifier.''
      else if displayName = []
      then fail_msg InvalidArgument ''An organization must have a display name.''
      else Inr \<lparr>org_id = oid, org_displayName = displayName, org_createdAt = createdAt,
                org_status = OrganizationStatus.Active\<rparr>)"

definition isUsable :: "Organization \<Rightarrow> bool" where
  "isUsable o' = permitsUse (org_status o')"

definition Organization_changeStatus :: "OrganizationStatus \<Rightarrow> Organization \<Rightarrow> Status \<times> Organization" where
  "Organization_changeStatus status o' =
     (if org_status o' = Archived
      then (fail_detail FailedPrecondition ''This organization cannot be modified.''
              ''An archived organization cannot change status. Memberships and audit records still reference its key, so reviving it would silently reactivate them.'', o')
      else (ok, o'\<lparr>org_status := status\<rparr>))"

definition Organization_rename :: "string \<Rightarrow> Organization \<Rightarrow> Status \<times> Organization" where
  "Organization_rename displayName o' =
     (if displayName = []
      then (fail_msg InvalidArgument ''An organization must have a display name.'', o')
      else if org_status o' = Archived
      then (fail_msg FailedPrecondition ''This organization cannot be modified.'', o')
      else (ok, o'\<lparr>org_displayName := displayName\<rparr>))"

section \<open>Memberships\<close>

datatype RoleTag = RoleTag

type_synonym Role = "RoleTag StrongId"

datatype MembershipState = Invited | Active | Suspended | Removed

fun membershipStateName :: "MembershipState \<Rightarrow> string" where
  "membershipStateName Invited = ''invited''"
| "membershipStateName MembershipState.Active = ''active''"
| "membershipStateName MembershipState.Suspended = ''suspended''"
| "membershipStateName Removed = ''removed''"

fun permitsAccess :: "MembershipState \<Rightarrow> bool" where
  "permitsAccess MembershipState.Active = True"
| "permitsAccess Invited = False"
| "permitsAccess MembershipState.Suspended = False"
| "permitsAccess Removed = False"

record Membership =
  mem_organization :: OrganizationId
  mem_identity :: IdentityId
  mem_invitedAt :: Instant
  mem_state :: MembershipState
  mem_roles :: "Role list"

definition Membership_invite :: "OrganizationId \<Rightarrow> IdentityId \<Rightarrow> Instant \<Rightarrow> Membership Result" where
  "Membership_invite organization identity invitedAt =
     (if StrongId_empty organization
      then fail_msg InvalidArgument ''A membership must name an organization.''
      else if StrongId_empty identity
      then fail_msg InvalidArgument ''A membership must name an identity.''
      else Inr \<lparr>mem_organization = organization, mem_identity = identity, mem_invitedAt = invitedAt,
                mem_state = Invited, mem_roles = []\<rparr>)"

definition Membership_hasRole :: "Membership \<Rightarrow> Role \<Rightarrow> bool" where
  "Membership_hasRole m role =
     (if \<not> permitsAccess (mem_state m) then False else role \<in> set (mem_roles m))"

definition Membership_accept :: "Membership \<Rightarrow> Status \<times> Membership" where
  "Membership_accept m =
     (if mem_state m \<noteq> Invited
      then (fail_msg FailedPrecondition ''This invitation is no longer open.'', m)
      else (ok, m\<lparr>mem_state := MembershipState.Active\<rparr>))"

definition Membership_suspend :: "Membership \<Rightarrow> Status \<times> Membership" where
  "Membership_suspend m =
     (if mem_state m \<noteq> MembershipState.Active
      then (fail_msg FailedPrecondition ''Only an active membership can be suspended.'', m)
      else (ok, m\<lparr>mem_state := MembershipState.Suspended\<rparr>))"

definition Membership_reinstate :: "Membership \<Rightarrow> Status \<times> Membership" where
  "Membership_reinstate m =
     (if mem_state m \<noteq> MembershipState.Suspended
      then (fail_msg FailedPrecondition ''Only a suspended membership can be reinstated.'', m)
      else (ok, m\<lparr>mem_state := MembershipState.Active\<rparr>))"

text \<open>The check after clearing the roles, \<^verbatim>\<open>requireInvariant(m_roles.empty())\<close>, holds.\<close>

definition Membership_remove :: "Membership \<Rightarrow> Status \<times> Membership" where
  "Membership_remove m =
     (if mem_state m = Removed
      then (fail_msg FailedPrecondition ''This membership has already been removed.'', m)
      else (ok, m\<lparr>mem_state := Removed, mem_roles := []\<rparr>))"

definition grantRole :: "Role \<Rightarrow> Membership \<Rightarrow> Status \<times> Membership" where
  "grantRole role m =
     (if StrongId_empty role
      then (fail_msg InvalidArgument ''A role must have a name.'', m)
      else if mem_state m = Removed
      then (fail_detail FailedPrecondition ''This membership has been removed.''
              ''Refused to grant a role to a removed membership; the authority would be attached to a relationship that no longer exists.'', m)
      else if role \<in> set (mem_roles m) then (ok, m)
      else (ok, m\<lparr>mem_roles := sort (mem_roles m @ [role])\<rparr>))"

definition revokeRole :: "Role \<Rightarrow> Membership \<Rightarrow> Status \<times> Membership" where
  "revokeRole role m =
     (if role \<notin> set (mem_roles m)
      then (fail_detail NotFound ''That role is not held by this member.''
              ''Revocation reported honestly rather than as idempotent success, so a caller cannot believe it removed authority that was never there.'', m)
      else (ok, m\<lparr>mem_roles := remove1 role (mem_roles m)\<rparr>))"

section \<open>Repositories\<close>

type_synonym OrganizationRepository = "(OrganizationId, Organization) omap"

definition organizations_add :: "Organization \<Rightarrow> OrganizationRepository \<Rightarrow> Status \<times> OrganizationRepository" where
  "organizations_add organization m =
     (if omap_contains m (org_id organization)
      then (fail_msg AlreadyExists ''That organization already exists.'', m)
      else (ok, omap_emplace (org_id organization) organization m))"

definition organizations_findById :: "OrganizationId \<Rightarrow> OrganizationRepository \<Rightarrow> Organization option Result" where
  "organizations_findById oid m = Inr (map_of m oid)"

definition organizations_changeStatus ::
    "OrganizationId \<Rightarrow> OrganizationStatus \<Rightarrow> OrganizationRepository \<Rightarrow> Status \<times> OrganizationRepository" where
  "organizations_changeStatus oid status m =
     (case map_of m oid of
        None \<Rightarrow> (fail_code NotFound, m)
      | Some position \<Rightarrow>
          (case Organization_changeStatus status position of
             (r, o') \<Rightarrow> (r, omap_modify oid (\<lambda>_. o') m)))"

definition organizations_count :: "OrganizationRepository \<Rightarrow> nat Result" where
  "organizations_count m = Inr (length m)"

type_synonym MembershipRepository = "(OrganizationId \<times> IdentityId, Membership) omap"

definition memberships_add :: "Membership \<Rightarrow> MembershipRepository \<Rightarrow> Status \<times> MembershipRepository" where
  "memberships_add membership m =
     (let key = (mem_organization membership, mem_identity membership)
      in if omap_contains m key
         then (fail_detail AlreadyExists ''That identity is already a member of this organization.''
                 ''A second membership for the same pair would make the member's effective role set ambiguous.'', m)
         else (ok, omap_emplace key membership m))"

definition memberships_find ::
    "OrganizationId \<Rightarrow> IdentityId \<Rightarrow> MembershipRepository \<Rightarrow> Membership option Result" where
  "memberships_find organization identity m = Inr (map_of m (organization, identity))"

definition memberships_save :: "Membership \<Rightarrow> MembershipRepository \<Rightarrow> Status \<times> MembershipRepository" where
  "memberships_save membership m =
     (let key = (mem_organization membership, mem_identity membership)
      in case map_of m key of
           None \<Rightarrow> (fail_msg NotFound ''That membership was not found.'', m)
         | Some _ \<Rightarrow> (ok, omap_modify key (\<lambda>_. membership) m))"

definition membersOf :: "OrganizationId \<Rightarrow> MembershipRepository \<Rightarrow> IdentityId list Result" where
  "membersOf organization m =
     Inr (map (snd \<circ> fst) (filter (\<lambda>(key, _). fst key = organization) m))"

definition organizationsOf :: "IdentityId \<Rightarrow> MembershipRepository \<Rightarrow> OrganizationId list Result" where
  "organizationsOf identity m =
     Inr (map (fst \<circ> fst) (filter (\<lambda>(key, _). snd key = identity) m))"

text \<open>\<open>None\<close> is the abort of \<^verbatim>\<open>requireInvariant\<close>.\<close>

definition memberships_countIn :: "OrganizationId \<Rightarrow> MembershipRepository \<Rightarrow> nat Result option" where
  "memberships_countIn organization m =
     (let total = length (filter (\<lambda>(key, _). fst key = organization) m)
      in if total \<le> length m then Some (Inr total) else None)"

lemma memberships_countIn_total: "memberships_countIn organization m \<noteq> None"
  by (simp add: memberships_countIn_def Let_def)

section \<open>Authority within a membership\<close>

datatype membership_call =
    Accept | Suspend | Reinstate | Remove | GrantRole Role | RevokeRole Role

fun membership_step :: "membership_call \<Rightarrow> Membership \<Rightarrow> Status \<times> Membership" where
  "membership_step Accept = Membership_accept"
| "membership_step Suspend = Membership_suspend"
| "membership_step Reinstate = Membership_reinstate"
| "membership_step Remove = Membership_remove"
| "membership_step (GrantRole r) = grantRole r"
| "membership_step (RevokeRole r) = revokeRole r"

lemmas membership_step_defs = Membership_accept_def Membership_suspend_def Membership_reinstate_def
  Membership_remove_def grantRole_def revokeRole_def

text \<open>
  The specification: an automaton over the four states beside a set of roles. A refused call has
  no effect on either.
\<close>

fun authority_step :: "membership_call \<Rightarrow> MembershipState \<times> Role set \<Rightarrow> MembershipState \<times> Role set" where
  "authority_step Accept (s, R) = (if s = Invited then MembershipState.Active else s, R)"
| "authority_step Suspend (s, R) = (if s = MembershipState.Active then MembershipState.Suspended else s, R)"
| "authority_step Reinstate (s, R) = (if s = MembershipState.Suspended then MembershipState.Active else s, R)"
| "authority_step Remove (s, R) = (Removed, if s = Removed then R else {})"
| "authority_step (GrantRole r) (s, R) = (s, if s = Removed \<or> StrongId_empty r then R else insert r R)"
| "authority_step (RevokeRole r) (s, R) = (s, R - {r})"

definition authority :: "Membership \<Rightarrow> MembershipState \<times> Role set" where
  "authority m = (mem_state m, set (mem_roles m))"

definition membership_ok :: "Membership \<Rightarrow> bool" where
  "membership_ok m \<longleftrightarrow> sorted (mem_roles m) \<and> distinct (mem_roles m) \<and> StrongId [] \<notin> set (mem_roles m)
     \<and> (mem_state m = Removed \<longrightarrow> mem_roles m = [])"

lemma membership_step_ok:
  assumes "membership_ok m"
  shows "membership_ok (snd (membership_step c m))"
proof (cases c)
  case (GrantRole r)
  then show ?thesis
    using assms by (cases r) (auto simp: membership_ok_def grantRole_def StrongId_empty_def)
next
  case (RevokeRole r)
  then show ?thesis
    using assms by (auto simp: membership_ok_def revokeRole_def sorted_remove1 dest: in_set_remove1 notin_set_remove1)
qed (use assms in \<open>auto simp: membership_ok_def membership_step_defs\<close>)

lemma authority_step_refines:
  assumes "membership_ok m"
  shows "authority (snd (membership_step c m)) = authority_step c (authority m)"
  using assms
  by (cases c) (auto simp: authority_def membership_ok_def membership_step_defs)

interpretation memberships: guarded_machine membership_step membership_ok
  by unfold_locales (rule membership_step_ok)

lemma authority_run_refines:
  "membership_ok m \<Longrightarrow>
   authority (final_state membership_step cs m) = fold authority_step cs (authority m)"
proof (induction cs arbitrary: m)
  case (Cons c cs)
  then show ?case by (simp add: membership_step_ok authority_step_refines)
qed simp

lemma membership_step_keeps [simp]:
  "mem_organization (snd (membership_step c m)) = mem_organization m"
  "mem_identity (snd (membership_step c m)) = mem_identity m"
  by (cases c; simp add: membership_step_defs)+

lemma membership_run_keeps [simp]:
  "mem_organization (final_state membership_step cs m) = mem_organization m"
  "mem_identity (final_state membership_step cs m) = mem_identity m"
  by (induction cs arbitrary: m) simp_all

lemma removed_membership_fixed:
  "membership_ok m \<Longrightarrow> mem_state m = Removed \<Longrightarrow> snd (membership_step c m) = m"
  by (cases c) (auto simp: membership_step_defs membership_ok_def)

lemma Membership_invite_ok:
  "Membership_invite organization identity at = Inr m \<Longrightarrow>
     membership_ok m \<and> authority m = (Invited, {}) \<and> mem_organization m = organization \<and> mem_identity m = identity"
  by (auto simp: Membership_invite_def membership_ok_def authority_def split: if_splits)

lemma hasRole_iff: "Membership_hasRole m r \<longleftrightarrow> mem_state m = MembershipState.Active \<and> r \<in> set (mem_roles m)"
  by (cases "mem_state m") (auto simp: Membership_hasRole_def)

text \<open>
  C28. The membership component implements its specification: after any sequence of calls on an
  invitation, a role is held exactly when the four-state automaton is in \<open>Active\<close> and the role is in
  its role set (grants add to it, revocations and the removal take from it, refused calls leave it);
  a removed membership holds no role and never changes again; the role
  list stays sorted and without duplicates; and the pair of tenant and member never changes.
\<close>

theorem membership_refines_authority:
  assumes "Membership_invite organization identity invitedAt = Inr m"
    and "m' = final_state membership_step cs m"
  shows "(Membership_hasRole m' r \<longleftrightarrow>
          (case fold authority_step cs (Invited, {}) of (s, R) \<Rightarrow> s = MembershipState.Active \<and> r \<in> R))
    \<and> (mem_state m' = Removed \<longrightarrow> mem_roles m' = [] \<and> final_state membership_step later m' = m')
    \<and> sorted (mem_roles m') \<and> distinct (mem_roles m')
    \<and> mem_organization m' = organization \<and> mem_identity m' = identity"
proof -
  note invited = Membership_invite_ok [OF assms(1)]
  then have ok: "membership_ok m'"
    using assms(2) memberships.run_inv by blast
  have "authority m' = fold authority_step cs (Invited, {})"
    using authority_run_refines [of m cs] invited assms(2) by simp
  moreover have "final_state membership_step later m' = m'" if "mem_state m' = Removed"
    using that ok by (induction later) (simp_all add: removed_membership_fixed)
  ultimately show ?thesis
    using ok invited assms(2) by (auto simp: hasRole_iff authority_def membership_ok_def)
qed

theorem membership_refines_authority_witness:
  "\<exists>m. Membership_invite (StrongId ''acme'') (StrongId ''alice'') 0 = Inr m
     \<and> Membership_hasRole (final_state membership_step [GrantRole (StrongId ''admin''), Accept] m) (StrongId ''admin'')
     \<and> \<not> Membership_hasRole (final_state membership_step [GrantRole (StrongId ''admin''), Accept, Remove] m) (StrongId ''admin'')"
proof -
  obtain m where m: "Membership_invite (StrongId ''acme'') (StrongId ''alice'') 0 = Inr m"
    by (simp add: Membership_invite_def)
  show ?thesis
    using m membership_refines_authority [OF m refl, of "[GrantRole (StrongId ''admin''), Accept]" "StrongId ''admin''" "[]"]
      membership_refines_authority [OF m refl, of "[GrantRole (StrongId ''admin''), Accept, Remove]" "StrongId ''admin''" "[]"]
    by simp
qed

end
