(* ===== verification/Policy.thy ===== *)
theory Policy
  imports Organizations Session_Service
begin

text \<open>
  Authorization (\<^verbatim>\<open>src/src/policy/decision.cpp\<close>): the request resolved from the tenant's
  own repositories, the four-valued decision, and the role policy engine.
\<close>

datatype ActionTag = ActionTag
datatype ResourceTag = ResourceTag
datatype EntitlementTag = EntitlementTag
datatype PermissionTag = PermissionTag

type_synonym Action = "ActionTag StrongId"
type_synonym PolicyResource = "ResourceTag StrongId"
type_synonym Entitlement = "EntitlementTag StrongId"
type_synonym Permission = "PermissionTag StrongId"

section \<open>Requests\<close>

record AuthenticationContext =
  ctx_providerId :: ProviderId
  ctx_claimedAssurance :: AssuranceLevel
  ctx_strength :: AuthenticationStrength
  ctx_authenticatedAt :: Instant

definition AuthenticationContext_verified :: "VerifiedAuthentication \<Rightarrow> AuthenticationContext" where
  "AuthenticationContext_verified a =
     \<lparr>ctx_providerId = outcome_provider (verified_outcome a),
      ctx_claimedAssurance = outcome_claimedAssurance (verified_outcome a),
      ctx_strength = outcome_strength (verified_outcome a),
      ctx_authenticatedAt = outcome_verifiedAt (verified_outcome a)\<rparr>"

definition AuthenticationContext_session :: "Session \<Rightarrow> AuthenticationContext" where
  "AuthenticationContext_session s =
     \<lparr>ctx_providerId = session_provider s, ctx_claimedAssurance = session_assurance s,
      ctx_strength = session_strength s, ctx_authenticatedAt = session_authenticatedAt s\<rparr>"

record AuthorizationRequest =
  areq_subject :: IdentityId
  areq_action :: Action
  areq_resource :: PolicyResource
  areq_organization :: OrganizationId
  areq_authentication :: AuthenticationContext
  areq_roles :: "Role list"
  areq_permissions :: "Permission list"
  areq_entitlements :: "Entitlement list"

abbreviation refused :: "string \<Rightarrow> 'a Result" where
  "refused detail \<equiv> fail_detail PermissionDenied (defaultErrorMessage PermissionDenied) detail"

definition createResolved ::
    "IdentityId \<Rightarrow> AuthenticationContext \<Rightarrow> OrganizationId \<Rightarrow> OrganizationRepository
     \<Rightarrow> IdentityRepository \<Rightarrow> MembershipRepository \<Rightarrow> Action \<Rightarrow> PolicyResource
     \<Rightarrow> AuthorizationRequest Result" where
  "createResolved authenticatedIdentity context organizationId organizations identities memberships
     action resource =
     (if StrongId_empty action \<or> StrongId_empty resource
      then fail_msg InvalidArgument ''An authorization request must name an action and resource.''
      else case organizations_findById organizationId organizations of Inl e \<Rightarrow> Inl e
      | Inr None \<Rightarrow> refused ''Authorization context creation refused: organization is absent or inactive.''
      | Inr (Some organization) \<Rightarrow>
      if \<not> isUsable organization
      then refused ''Authorization context creation refused: organization is absent or inactive.''
      else if org_id organization \<noteq> organizationId
      then refused ''Authorization context creation refused: repository returned an organization under the wrong key.''
      else case identities_findById organizationId authenticatedIdentity identities of Inl e \<Rightarrow> Inl e
      | Inr None \<Rightarrow> refused ''Authorization context creation refused: authenticated identity is absent from the requested organization.''
      | Inr (Some identity) \<Rightarrow>
      if ident_id identity \<noteq> authenticatedIdentity
      then refused ''Authorization context creation refused: repository returned an identity under the wrong key.''
      else if \<not> canAuthenticate identity
      then fail_detail FailedPrecondition ''The subject cannot perform protected operations.''
             ''Authorization context creation refused because the canonical identity is not active.''
      else case memberships_find organizationId authenticatedIdentity memberships of Inl e \<Rightarrow> Inl e
      | Inr None \<Rightarrow> refused ''Authorization context creation refused: membership is absent or inactive.''
      | Inr (Some membership) \<Rightarrow>
      if \<not> permitsAccess (mem_state membership)
      then refused ''Authorization context creation refused: membership is absent or inactive.''
      else if mem_identity membership \<noteq> ident_id identity \<or> mem_organization membership \<noteq> organizationId
      then refused ''Authorization context creation refused: repository returned a membership under the wrong key.''
      else Inr \<lparr>areq_subject = ident_id identity, areq_action = action, areq_resource = resource,
                areq_organization = organizationId, areq_authentication = context,
                areq_roles = mem_roles membership, areq_permissions = [], areq_entitlements = []\<rparr>)"

definition AuthorizationRequest_create_verified ::
    "VerifiedAuthentication \<Rightarrow> OrganizationId \<Rightarrow> OrganizationRepository \<Rightarrow> IdentityRepository
     \<Rightarrow> MembershipRepository \<Rightarrow> Action \<Rightarrow> PolicyResource \<Rightarrow> AuthorizationRequest Result" where
  "AuthorizationRequest_create_verified authentication =
     createResolved (verified_identity authentication) (AuthenticationContext_verified authentication)"

definition AuthorizationRequest_create_session ::
    "Session \<Rightarrow> OrganizationId \<Rightarrow> OrganizationRepository \<Rightarrow> IdentityRepository
     \<Rightarrow> MembershipRepository \<Rightarrow> Action \<Rightarrow> PolicyResource \<Rightarrow> AuthorizationRequest Result" where
  "AuthorizationRequest_create_session session =
     createResolved (session_identity session) (AuthenticationContext_session session)"

definition areq_hasEntitlement :: "AuthorizationRequest \<Rightarrow> Entitlement \<Rightarrow> bool" where
  "areq_hasEntitlement r entitlement = (entitlement \<in> set (areq_entitlements r))"

definition areq_hasRole :: "AuthorizationRequest \<Rightarrow> Role \<Rightarrow> bool" where
  "areq_hasRole r role = (role \<in> set (areq_roles r))"

section \<open>Decisions\<close>

datatype DecisionKind = Allow | Deny | NotApplicable | Indeterminate

fun decisionKindName :: "DecisionKind \<Rightarrow> string" where
  "decisionKindName Allow = ''allow''" | "decisionKindName Deny = ''deny''"
| "decisionKindName NotApplicable = ''not_applicable''"
| "decisionKindName Indeterminate = ''indeterminate''"

record AuthorizationDecision =
  decision_kind :: DecisionKind
  decision_reason :: string

abbreviation decide :: "DecisionKind \<Rightarrow> string \<Rightarrow> AuthorizationDecision" where
  "decide kind reason \<equiv> \<lparr>decision_kind = kind, decision_reason = reason\<rparr>"

definition isPermitted :: "AuthorizationDecision \<Rightarrow> bool" where
  "isPermitted d = (decision_kind d = Allow)"

section \<open>The role policy engine\<close>

datatype RoleMatchMode = Any | All

fun roleMatchModeName :: "RoleMatchMode \<Rightarrow> string" where
  "roleMatchModeName Any = ''any''" | "roleMatchModeName All = ''all''"

record RolePolicyRule =
  rule_action :: Action
  rule_resource :: PolicyResource
  rule_requiredRoles :: "Role list"
  rule_roleMatch :: RoleMatchMode
  rule_minimumAssurance :: AssuranceLevel

definition bad_role_name :: "Role \<Rightarrow> bool" where
  "bad_role_name role =
     (StrongId_empty role \<or> length (id_value role) > 200
      \<or> list_ex (\<lambda>symbol. of_char symbol < (0x21 :: nat) \<or> of_char symbol = (0x7F :: nat)) (id_value role))"

text \<open>The modes and levels outside the enumerations do not occur in the model.\<close>

definition RolePolicyRule_create ::
    "Action \<Rightarrow> PolicyResource \<Rightarrow> Role list \<Rightarrow> RoleMatchMode \<Rightarrow> AssuranceLevel \<Rightarrow> RolePolicyRule Result" where
  "RolePolicyRule_create action resource requiredRoles roleMatch minimumAssurance =
     (let recognizedMode = (roleMatch = Any \<or> roleMatch = All);
          recognizedAssurance = (minimumAssurance \<ge> Ial1 \<and> minimumAssurance \<le> Ial4)
      in if StrongId_empty action \<or> StrongId_empty resource \<or> requiredRoles = []
            \<or> length requiredRoles > 16 \<or> \<not> recognizedMode \<or> \<not> recognizedAssurance
            \<or> list_ex bad_role_name requiredRoles
         then fail_msg InvalidArgument ''The route authorization rule is invalid.''
         else if adjacent_find (sort requiredRoles)
         then fail_msg InvalidArgument ''Required route roles must be unique.''
         else Inr \<lparr>rule_action = action, rule_resource = resource,
                   rule_requiredRoles = sort requiredRoles, rule_roleMatch = roleMatch,
                   rule_minimumAssurance = minimumAssurance\<rparr>)"

definition rule_key :: "RolePolicyRule \<Rightarrow> Action \<times> PolicyResource" where
  "rule_key rule = (rule_action rule, rule_resource rule)"

definition RolePolicyEngine_create :: "RolePolicyRule list \<Rightarrow> RolePolicyRule list Result" where
  "RolePolicyEngine_create rules =
     (if rules = [] \<or> length rules > 256
      then fail_msg InvalidArgument ''At least one bounded route policy is required.''
      else if adjacent_find (map rule_key (sort_key rule_key rules))
      then fail_msg AlreadyExists ''A route policy is duplicated.''
      else Inr (sort_key rule_key rules))"

definition RolePolicyEngine_evaluate :: "RolePolicyRule list \<Rightarrow> AuthorizationRequest \<Rightarrow> AuthorizationDecision" where
  "RolePolicyEngine_evaluate rules request =
     (case find (\<lambda>item. rule_action item = areq_action request \<and> rule_resource item = areq_resource request) rules of
        None \<Rightarrow> decide NotApplicable ''No exact route authorization rule matched.''
      | Some rule \<Rightarrow>
      if \<not> meetsAssurance (ctx_claimedAssurance (areq_authentication request)) (rule_minimumAssurance rule)
      then decide Deny ''The authenticated session does not meet the route assurance requirement.''
      else let holds = areq_hasRole request;
               permitted = (if rule_roleMatch rule = All then list_all holds (rule_requiredRoles rule)
                            else list_ex holds (rule_requiredRoles rule))
           in if permitted
              then decide Allow ''The trusted membership satisfies the route role policy.''
              else decide Deny ''The trusted membership does not satisfy the route role policy.'')"

text \<open>A policy engine is any evaluation function; \<open>None\<close> is the missing engine.\<close>

definition evaluateProtected ::
    "(AuthorizationRequest \<Rightarrow> AuthorizationDecision) option \<Rightarrow> AuthorizationRequest \<Rightarrow> AuthorizationDecision" where
  "evaluateProtected engine request =
     (case engine of
        None \<Rightarrow> decide Indeterminate ''No policy engine is installed; the protected operation was denied.''
      | Some evaluate \<Rightarrow> evaluate request)"

section \<open>What the engine permits\<close>

lemma RolePolicyEngine_create_ok:
  assumes "RolePolicyEngine_create rules = Inr engine"
  shows "set engine = set rules" "distinct (map rule_key engine)"
  using assms adjacent_find_sorted [of "map rule_key (sort_key rule_key rules)"]
  by (auto simp: RolePolicyEngine_create_def split: if_splits)

lemma find_unique:
  assumes "distinct (map f xs)" "x \<in> set xs"
  shows "find (\<lambda>y. f y = f x) xs = Some x"
  using assms by (induction xs) (auto simp: image_iff)

lemma rule_lookup:
  assumes "RolePolicyEngine_create rules = Inr engine"
  shows "find (\<lambda>item. rule_action item = a \<and> rule_resource item = r) engine = Some rule
    \<longleftrightarrow> rule \<in> set rules \<and> rule_action rule = a \<and> rule_resource rule = r"
proof -
  have key: "(rule_action item = a \<and> rule_resource item = r) = (rule_key item = (a, r))" for item
    by (auto simp: rule_key_def)
  show ?thesis
    using find_unique [OF RolePolicyEngine_create_ok(2) [OF assms], of rule]
      RolePolicyEngine_create_ok(1) [OF assms]
    unfolding key by (auto simp: find_Some_iff dest: nth_mem)
qed

text \<open>
  The specification of a decision: the rules are a set, at most one of which names the action and
  the resource; a role requirement is a set of roles.
\<close>

definition rule_met :: "RolePolicyRule \<Rightarrow> AssuranceLevel \<Rightarrow> Role set \<Rightarrow> bool" where
  "rule_met rule assurance roles \<longleftrightarrow> rule_minimumAssurance rule \<le> assurance
     \<and> (if rule_roleMatch rule = All then set (rule_requiredRoles rule) \<subseteq> roles
        else set (rule_requiredRoles rule) \<inter> roles \<noteq> {})"

lemma evaluate_permits:
  assumes "RolePolicyEngine_create rules = Inr engine"
  shows "isPermitted (RolePolicyEngine_evaluate engine request) \<longleftrightarrow>
    (\<exists>rule \<in> set rules. rule_action rule = areq_action request \<and> rule_resource rule = areq_resource request
       \<and> rule_met rule (ctx_claimedAssurance (areq_authentication request)) (set (areq_roles request)))"
proof -
  have "isPermitted (RolePolicyEngine_evaluate engine request) \<longleftrightarrow>
    (\<exists>rule. find (\<lambda>item. rule_action item = areq_action request \<and> rule_resource item = areq_resource request) engine = Some rule
       \<and> rule_met rule (ctx_claimedAssurance (areq_authentication request)) (set (areq_roles request)))"
    by (auto simp: RolePolicyEngine_evaluate_def isPermitted_def rule_met_def meetsAssurance_iff
        areq_hasRole_def list_all_iff list_ex_iff Let_def split: option.splits)
  then show ?thesis
    unfolding rule_lookup [OF assms] by blast
qed

lemma createResolved_Inr:
  "createResolved i ctx oid orgs ids mems action resource = Inr req \<longleftrightarrow>
     \<not> StrongId_empty action \<and> \<not> StrongId_empty resource
     \<and> (\<exists>organization identity membership.
          map_of orgs oid = Some organization \<and> org_id organization = oid \<and> isUsable organization
        \<and> identities_findById oid i ids = Inr (Some identity) \<and> ident_id identity = i \<and> canAuthenticate identity
        \<and> map_of mems (oid, i) = Some membership \<and> permitsAccess (mem_state membership)
        \<and> mem_identity membership = i \<and> mem_organization membership = oid
        \<and> req = \<lparr>areq_subject = i, areq_action = action, areq_resource = resource,
                 areq_organization = oid, areq_authentication = ctx,
                 areq_roles = mem_roles membership, areq_permissions = [], areq_entitlements = []\<rparr>)"
  by (auto simp: createResolved_def organizations_findById_def memberships_find_def
      split: option.splits sum.splits if_splits)

text \<open>
  A session is authorized for an action on a resource in a tenant when the request resolves and
  the installed engine permits it.
\<close>

definition authorized ::
    "(AuthorizationRequest \<Rightarrow> AuthorizationDecision) option \<Rightarrow> Session \<Rightarrow> OrganizationId
     \<Rightarrow> OrganizationRepository \<Rightarrow> IdentityRepository \<Rightarrow> MembershipRepository \<Rightarrow> Action \<Rightarrow> PolicyResource \<Rightarrow> bool" where
  "authorized engine s oid orgs ids mems action resource =
     (case AuthorizationRequest_create_session s oid orgs ids mems action resource of
        Inl _ \<Rightarrow> False
      | Inr request \<Rightarrow> isPermitted (evaluateProtected engine request))"

text \<open>
  C5. Deny by default: with a role policy engine built from any list of rules, a session is
  authorized exactly when the tenant exists and is active, the session's identity is in that tenant
  and active, its membership is active, and some rule names exactly the action and the resource and
  is met by the session's assurance and the roles of that membership. Without an engine nothing is
  authorized.
\<close>

theorem authorization_exact:
  assumes "RolePolicyEngine_create rules = Inr engine"
  shows "(authorized (Some (RolePolicyEngine_evaluate engine)) s oid orgs ids mems action resource \<longleftrightarrow>
      action \<noteq> StrongId [] \<and> resource \<noteq> StrongId []
      \<and> (\<exists>organization identity membership rule.
           map_of orgs oid = Some organization \<and> org_id organization = oid \<and> isUsable organization
         \<and> identities_findById oid (session_identity s) ids = Inr (Some identity)
         \<and> ident_id identity = session_identity s \<and> canAuthenticate identity
         \<and> map_of mems (oid, session_identity s) = Some membership
         \<and> mem_identity membership = session_identity s \<and> mem_organization membership = oid
         \<and> mem_state membership = MembershipState.Active
         \<and> rule \<in> set rules \<and> rule_action rule = action \<and> rule_resource rule = resource
         \<and> rule_met rule (session_assurance s) (set (mem_roles membership))))
    \<and> \<not> authorized None s oid orgs ids mems action resource"
proof -
  have active: "permitsAccess st \<longleftrightarrow> st = MembershipState.Active" for st
    by (cases st) simp_all
  have empty: "StrongId_empty x \<longleftrightarrow> x = StrongId []" for x :: "'t StrongId"
    by (cases x) simp
  have "authorized (Some (RolePolicyEngine_evaluate engine)) s oid orgs ids mems action resource \<longleftrightarrow>
      (\<exists>req. AuthorizationRequest_create_session s oid orgs ids mems action resource = Inr req
         \<and> isPermitted (RolePolicyEngine_evaluate engine req))"
    by (auto simp: authorized_def evaluateProtected_def split: sum.splits)
  moreover have "\<not> authorized None s oid orgs ids mems action resource"
    by (simp add: authorized_def evaluateProtected_def isPermitted_def split: sum.split)
  ultimately show ?thesis
    unfolding AuthorizationRequest_create_session_def createResolved_Inr evaluate_permits [OF assms] active empty
    by (auto simp: AuthenticationContext_session_def)
qed

abbreviation sample_session :: Session where
  "sample_session \<equiv> \<lparr>session_id = StrongId ''s1'', session_identity = StrongId ''alice'',
     session_provider = StrongId ''pwd'', session_assurance = Ial2,
     session_strength = \<lparr>strength_factors = 1, strength_phishingResistant = False\<rparr>,
     session_state = SessionState.Active, session_authenticatedAt = 0,
     session_tokenDigest = replicate 32 0, session_issuedAt = 0, session_lastSeenAt = 0,
     session_absoluteExpiresAt = 100, session_idleTimeout = 100, session_revokedAt = None,
     session_userAgent = None, session_remoteAddress = None\<rparr>"

theorem authorization_exact_witness:
  "\<exists>engine rule mems ids orgs. RolePolicyEngine_create [rule] = Inr engine
     \<and> authorized (Some (RolePolicyEngine_evaluate engine)) sample_session (StrongId ''acme'') orgs ids mems
         (StrongId ''read'') (StrongId ''/reports'')
     \<and> \<not> authorized (Some (RolePolicyEngine_evaluate engine)) sample_session (StrongId ''acme'') orgs ids mems
         (StrongId ''write'') (StrongId ''/reports'')"
proof -
  let ?rule = "\<lparr>rule_action = StrongId ''read'', rule_resource = StrongId ''/reports'',
     rule_requiredRoles = [StrongId ''auditor''], rule_roleMatch = Any, rule_minimumAssurance = Ial1\<rparr>"
  let ?org = "\<lparr>org_id = StrongId ''acme'', org_displayName = ''Acme'', org_createdAt = 0,
     org_status = OrganizationStatus.Active\<rparr>"
  let ?alice = "\<lparr>ident_id = StrongId ''alice'', ident_kind = Human, ident_status = IdentityStatus.Active, ident_createdAt = 0\<rparr>"
  let ?mem = "\<lparr>mem_organization = StrongId ''acme'', mem_identity = StrongId ''alice'', mem_invitedAt = 0,
     mem_state = MembershipState.Active, mem_roles = [StrongId ''auditor'']\<rparr>"
  have e: "RolePolicyEngine_create [?rule] = Inr [?rule]"
    by (simp add: RolePolicyEngine_create_def)
  have met: "rule_met ?rule Ial2 (set (mem_roles ?mem))"
    by (simp add: rule_met_def less_eq_AssuranceLevel_def)
  let ?orgs = "[(StrongId ''acme'', ?org)]"
  let ?ids = "[(StrongId ''alice'', \<lparr>owned_organization = StrongId ''acme'', owned_identity = ?alice\<rparr>)]"
  let ?mems = "[((StrongId ''acme'', StrongId ''alice''), ?mem)]"
  show ?thesis
    by (rule exI [of _ "[?rule]"], rule exI [of _ ?rule], rule exI [of _ ?mems], rule exI [of _ ?ids], rule exI [of _ ?orgs])
      (use met in \<open>simp add: e authorization_exact [OF e] identities_findById_def isUsable_def canAuthenticate_def\<close>)
qed

end
