(* ===== verification/Trust.thy ===== *)
theory Trust
  imports Identity_Core Policy
begin

text \<open>
  Verified evidence (\<^verbatim>\<open>src/src/evidence\<close>) and the trust engine that turns it into a score
  (\<^verbatim>\<open>src/src/trust\<close>). \<^verbatim>\<open>unsigned int\<close> is a 32-bit word and the accumulators of the
  engine are 64-bit words, as in the code.
\<close>

section \<open>Evidence\<close>

datatype EvidenceIdTag = EvidenceIdTag

type_synonym EvidenceId = "EvidenceIdTag StrongId"

datatype EvidenceStatus = Verified | Revoked

record Evidence =
  ev_id :: EvidenceId
  ev_identity :: IdentityId
  ev_provider :: ProviderId
  ev_kind :: string
  ev_claim :: string
  ev_value :: string
  ev_confidence :: "32 word"
  ev_status :: EvidenceStatus
  ev_verifiedAt :: Instant
  ev_expiresAt :: "Instant option"

definition hasControlCharacter :: "string \<Rightarrow> bool" where
  "hasControlCharacter value = list_ex (\<lambda>c. of_char c < (0x20 :: nat) \<or> of_char c = (0x7F :: nat)) value"

definition validText :: "string \<Rightarrow> nat \<Rightarrow> bool" where
  "validText value maximum = (value \<noteq> [] \<and> length value \<le> maximum \<and> \<not> hasControlCharacter value)"

definition validEvidence ::
    "EvidenceId \<Rightarrow> IdentityId \<Rightarrow> ProviderId \<Rightarrow> string \<Rightarrow> string \<Rightarrow> string \<Rightarrow> 32 word \<Rightarrow> Instant
     \<Rightarrow> Instant option \<Rightarrow> bool" where
  "validEvidence eid identity provider kind claim value confidence verifiedAt expiresAt =
     (\<not> StrongId_empty eid \<and> \<not> StrongId_empty identity \<and> \<not> StrongId_empty provider
      \<and> validText kind 128 \<and> validText claim 128 \<and> validText value 4096 \<and> confidence \<le> 100
      \<and> (case expiresAt of None \<Rightarrow> True | Some e \<Rightarrow> e > verifiedAt))"

definition Evidence_restore ::
    "EvidenceId \<Rightarrow> IdentityId \<Rightarrow> ProviderId \<Rightarrow> string \<Rightarrow> string \<Rightarrow> string \<Rightarrow> 32 word \<Rightarrow> EvidenceStatus
     \<Rightarrow> Instant \<Rightarrow> Instant option \<Rightarrow> Evidence Result" where
  "Evidence_restore eid identity provider kind claim value confidence status verifiedAt expiresAt =
     (if \<not> validEvidence eid identity provider kind claim value confidence verifiedAt expiresAt
      then fail_msg InvalidArgument ''The verified evidence is invalid.''
      else Inr \<lparr>ev_id = eid, ev_identity = identity, ev_provider = provider, ev_kind = kind,
                ev_claim = claim, ev_value = value, ev_confidence = confidence, ev_status = status,
                ev_verifiedAt = verifiedAt, ev_expiresAt = expiresAt\<rparr>)"

definition Evidence_create ::
    "EvidenceId \<Rightarrow> IdentityId \<Rightarrow> ProviderId \<Rightarrow> string \<Rightarrow> string \<Rightarrow> string \<Rightarrow> 32 word
     \<Rightarrow> Instant \<Rightarrow> Instant option \<Rightarrow> Evidence Result" where
  "Evidence_create eid identity provider kind claim value confidence verifiedAt expiresAt =
     Evidence_restore eid identity provider kind claim value confidence EvidenceStatus.Verified
       verifiedAt expiresAt"

definition Evidence_activeAt :: "Evidence \<Rightarrow> Instant \<Rightarrow> bool" where
  "Evidence_activeAt e now =
     (ev_status e = EvidenceStatus.Verified
      \<and> (case ev_expiresAt e of None \<Rightarrow> True | Some t \<Rightarrow> now < t))"

definition Evidence_revoke :: "Evidence \<Rightarrow> Status \<times> Evidence" where
  "Evidence_revoke e = (ok, e\<lparr>ev_status := EvidenceStatus.Revoked\<rparr>)"

section \<open>The evidence repository\<close>

type_synonym EvidenceRepository = "(EvidenceId, Evidence) omap"

fun emplace_all :: "Evidence list \<Rightarrow> EvidenceRepository \<Rightarrow> EvidenceRepository" where
  "emplace_all [] m = m"
| "emplace_all (item # items) m = emplace_all items (omap_emplace (ev_id item) item m)"

definition evidence_addBatch :: "Evidence list \<Rightarrow> EvidenceRepository \<Rightarrow> Status \<times> EvidenceRepository" where
  "evidence_addBatch evidence m =
     (if list_ex (\<lambda>item. omap_contains m (ev_id item)) evidence
      then (fail_msg AlreadyExists ''The evidence already exists.'', m)
      else (ok, emplace_all evidence m))"

definition evidence_add :: "Evidence \<Rightarrow> EvidenceRepository \<Rightarrow> Status \<times> EvidenceRepository" where
  "evidence_add evidence = evidence_addBatch [evidence]"

definition evidence_revoke :: "EvidenceId \<Rightarrow> EvidenceRepository \<Rightarrow> Status \<times> EvidenceRepository" where
  "evidence_revoke eid m =
     (case map_of m eid of
        None \<Rightarrow> (fail_code NotFound, m)
      | Some found \<Rightarrow> (case Evidence_revoke found of (r, e) \<Rightarrow> (r, omap_modify eid (\<lambda>_. e) m)))"

definition evidence_find :: "EvidenceId \<Rightarrow> EvidenceRepository \<Rightarrow> Evidence option Result" where
  "evidence_find eid m = Inr (map_of m eid)"

definition forIdentity :: "IdentityId \<Rightarrow> EvidenceRepository \<Rightarrow> Evidence list Result" where
  "forIdentity identity m = Inr (filter (\<lambda>item. ev_identity item = identity) (map snd m))"

section \<open>The evidence service\<close>

text \<open>A verifier is third-party code behind an interface: a provider and an answer.\<close>

record EvidenceVerifier =
  verifier_provider :: ProviderId
  verifier_verify :: "IdentityId \<Rightarrow> AttributeMap \<Rightarrow> AttributeMap \<Rightarrow> Instant \<Rightarrow> Evidence list Result"

type_synonym Verifiers = "(ProviderId, EvidenceVerifier) omap"

definition registerVerifier :: "EvidenceVerifier option \<Rightarrow> Verifiers \<Rightarrow> Status \<times> Verifiers" where
  "registerVerifier verifier m =
     (case verifier of
        None \<Rightarrow> (fail_msg InvalidArgument ''An evidence verifier is required.'', m)
      | Some v \<Rightarrow>
          let provider = verifier_provider v
          in if StrongId_empty provider \<or> omap_contains m provider
             then (fail_msg AlreadyExists ''The evidence verifier is already registered.'', m)
             else (ok, omap_emplace provider v m))"

definition evidence_verify ::
    "Verifiers \<Rightarrow> Instant \<Rightarrow> IdentityId \<Rightarrow> ProviderId \<Rightarrow> AttributeMap \<Rightarrow> AttributeMap
     \<Rightarrow> EvidenceRepository \<Rightarrow> Evidence list Result \<times> EvidenceRepository" where
  "evidence_verify verifiers now identity provider publicInputs secretInputs m =
     (if StrongId_empty identity \<or> StrongId_empty provider then (fail_code InvalidArgument, m)
      else case map_of verifiers provider of
        None \<Rightarrow> (fail_msg NotFound ''The evidence verifier is unavailable.'', m)
      | Some found \<Rightarrow>
      (case verifier_verify found identity publicInputs secretInputs now of
         Inl e \<Rightarrow> (Inl e, m)
       | Inr verified \<Rightarrow>
       if verified = []
       then (fail_msg FailedPrecondition ''The verifier produced no evidence.'', m)
       else if list_ex (\<lambda>item. ev_identity item \<noteq> identity \<or> ev_provider item \<noteq> provider) verified
       then (fail_msg PermissionDenied ''The verifier returned evidence outside its authority.'', m)
       else case evidence_addBatch verified m of
              (Inl e, m') \<Rightarrow> (Inl e, m')
            | (Inr _, m') \<Rightarrow> (Inr verified, m')))"

section \<open>Trust\<close>

record RiskSignal =
  risk_kind :: string
  risk_severity :: "32 word"
  risk_reason :: string

definition RiskSignal_create :: "string \<Rightarrow> 32 word \<Rightarrow> string \<Rightarrow> RiskSignal Result" where
  "RiskSignal_create kind severity reason =
     (if kind = [] \<or> length kind > 128 \<or> hasControlCharacter kind \<or> severity > 100 \<or> reason = []
         \<or> length reason > 1024 \<or> hasControlCharacter reason
      then fail_msg InvalidArgument ''The risk signal is invalid.''
      else Inr \<lparr>risk_kind = kind, risk_severity = severity, risk_reason = reason\<rparr>)"

definition validEvidenceId :: "string \<Rightarrow> bool" where
  "validEvidenceId value = (value \<noteq> [] \<and> length value \<le> 256 \<and> \<not> hasControlCharacter value)"

record TrustAssessment =
  assess_identity :: IdentityId
  assess_trustScore :: "32 word"
  assess_riskScore :: "32 word"
  assess_confidence :: "32 word"
  assess_evidenceIds :: "string list"
  assess_risks :: "RiskSignal list"

definition TrustAssessment_create ::
    "IdentityId \<Rightarrow> 32 word \<Rightarrow> 32 word \<Rightarrow> 32 word \<Rightarrow> string list \<Rightarrow> RiskSignal list
     \<Rightarrow> TrustAssessment Result" where
  "TrustAssessment_create identity trustScore riskScore confidence evidenceIds risks =
     (if StrongId_empty identity \<or> trustScore > 100 \<or> riskScore > 100 \<or> confidence > 100
         \<or> \<not> list_all validEvidenceId evidenceIds
      then fail_msg InvalidArgument ''The trust assessment is invalid.''
      else if adjacent_find (sort evidenceIds)
      then fail_msg Conflict ''The trust assessment contains duplicate evidence.''
      else Inr \<lparr>assess_identity = identity, assess_trustScore = trustScore,
                assess_riskScore = riskScore, assess_confidence = confidence,
                assess_evidenceIds = sort evidenceIds, assess_risks = risks\<rparr>)"

type_synonym TrustPolicy = "(string, 32 word) omap"

definition validEvidenceKind :: "string \<Rightarrow> bool" where
  "validEvidenceKind value = (if value = [] \<or> length value > 128 then False else \<not> hasControlCharacter value)"

definition setWeight :: "string \<Rightarrow> 32 word \<Rightarrow> TrustPolicy \<Rightarrow> Status \<times> TrustPolicy" where
  "setWeight kind weight policy =
     (if \<not> validEvidenceKind kind \<or> weight > 100
      then (fail_msg InvalidArgument ''The trust weight is invalid.'', policy)
      else (ok, omap_insert_or_assign kind weight policy))"

definition trust_weight :: "TrustPolicy \<Rightarrow> string \<Rightarrow> 32 word" where
  "trust_weight policy kind = (case map_of policy kind of None \<Rightarrow> 0 | Some w \<Rightarrow> w)"

record Totals =
  tot_weightedConfidence :: "64 word"
  tot_totalWeight :: "64 word"
  tot_confidenceTotal :: "64 word"
  tot_evidenceCount :: "64 word"
  tot_evidenceIds :: "string list"

fun accumulate :: "TrustPolicy \<Rightarrow> Instant \<Rightarrow> Evidence list \<Rightarrow> Totals \<Rightarrow> Totals" where
  "accumulate policy now [] t = t"
| "accumulate policy now (record # records) t =
     (if \<not> Evidence_activeAt record now then accumulate policy now records t
      else let evidenceWeight = trust_weight policy (ev_kind record)
           in if evidenceWeight = 0 then accumulate policy now records t
              else accumulate policy now records
                \<lparr>tot_weightedConfidence = tot_weightedConfidence t + ucast evidenceWeight * ucast (ev_confidence record),
                 tot_totalWeight = tot_totalWeight t + ucast evidenceWeight,
                 tot_confidenceTotal = tot_confidenceTotal t + ucast (ev_confidence record),
                 tot_evidenceCount = tot_evidenceCount t + 1,
                 tot_evidenceIds = tot_evidenceIds t @ [id_value (ev_id record)]\<rparr>)"

definition assess ::
    "TrustPolicy \<Rightarrow> Instant \<Rightarrow> EvidenceRepository \<Rightarrow> IdentityId \<Rightarrow> RiskSignal list \<Rightarrow> TrustAssessment Result" where
  "assess policy now evidence identity risks =
     (if StrongId_empty identity then fail_code InvalidArgument
      else case forIdentity identity evidence of
        Inl e \<Rightarrow> Inl e
      | Inr records \<Rightarrow>
          let t = accumulate policy now records
                \<lparr>tot_weightedConfidence = 0, tot_totalWeight = 0, tot_confidenceTotal = 0,
                 tot_evidenceCount = 0, tot_evidenceIds = []\<rparr>;
              trustScore = (if tot_totalWeight t = 0 then 0
                            else ucast (tot_weightedConfidence t div tot_totalWeight t)) :: 32 word;
              confidence = (if tot_evidenceCount t = 0 then 0
                            else ucast (tot_confidenceTotal t div tot_evidenceCount t)) :: 32 word;
              riskScore = fold (\<lambda>risk score. max score (risk_severity risk)) risks 0;
              trustScore' = (if trustScore > riskScore then trustScore - riskScore else 0)
          in TrustAssessment_create identity trustScore' riskScore confidence (tot_evidenceIds t) risks)"

section \<open>Stores of well-formed values\<close>

text \<open>Values of the class \<^verbatim>\<open>Evidence\<close> pass the check of their only constructor.\<close>

definition evidence_value :: "Evidence \<Rightarrow> bool" where
  "evidence_value e = validEvidence (ev_id e) (ev_identity e) (ev_provider e) (ev_kind e) (ev_claim e)
     (ev_value e) (ev_confidence e) (ev_verifiedAt e) (ev_expiresAt e)"

lemma Evidence_restore_value:
  "Evidence_restore eid i p k c v conf st at ex = Inr e \<Longrightarrow> evidence_value e"
  by (auto simp: Evidence_restore_def evidence_value_def split: if_splits)

datatype evidence_call =
    AddBatch "Evidence list"
  | RevokeEvidence EvidenceId
  | Verify Verifiers Instant IdentityId ProviderId AttributeMap AttributeMap

fun evidence_step :: "evidence_call \<Rightarrow> EvidenceRepository \<Rightarrow> Status \<times> EvidenceRepository" where
  "evidence_step (AddBatch es) m = evidence_addBatch es m"
| "evidence_step (RevokeEvidence eid) m = evidence_revoke eid m"
| "evidence_step (Verify vs now identity provider pub sec) m =
     (case evidence_verify vs now identity provider pub sec m of
        (Inl e, m') \<Rightarrow> (Inl e, m') | (Inr _, m') \<Rightarrow> (ok, m'))"

fun carries_values :: "evidence_call \<Rightarrow> bool" where
  "carries_values (AddBatch es) = list_all evidence_value es"
| "carries_values (RevokeEvidence _) = True"
| "carries_values (Verify vs now identity provider pub sec) =
     (case map_of vs provider of
        None \<Rightarrow> True
      | Some v \<Rightarrow> (case verifier_verify v identity pub sec now of Inl _ \<Rightarrow> True | Inr es \<Rightarrow> list_all evidence_value es))"

definition evidence_inv :: "EvidenceRepository \<Rightarrow> bool" where
  "evidence_inv m \<longleftrightarrow> omap_ok m \<and> (\<forall>k e. map_of m k = Some e \<longrightarrow> ev_id e = k \<and> evidence_value e)"

lemma emplace_all_inv:
  "evidence_inv m \<Longrightarrow> list_all evidence_value es \<Longrightarrow> evidence_inv (emplace_all es m)"
proof (induction es arbitrary: m)
  case (Cons e es)
  have "evidence_inv (omap_emplace (ev_id e) e m)"
    using Cons.prems
    by (auto simp: evidence_inv_def omap_ok_emplace map_of_emplace split: option.splits if_splits)
  then show ?case
    using Cons by simp
qed simp

lemma evidence_step_inv:
  assumes "evidence_inv m" "carries_values c"
  shows "evidence_inv (snd (evidence_step c m))"
proof -
  have batch: "evidence_inv (snd (evidence_addBatch es m))" if "list_all evidence_value es" for es
    using assms(1) that by (simp add: evidence_addBatch_def emplace_all_inv)
  show ?thesis
  proof (cases c)
    case (RevokeEvidence eid)
    then show ?thesis
      using assms(1)
      by (auto simp: evidence_revoke_def Evidence_revoke_def evidence_inv_def evidence_value_def
          map_of_modify split: option.splits if_splits)
  next
    case (Verify vs now identity provider pub sec)
    then show ?thesis
      using assms batch
      by (auto simp: evidence_verify_def split: option.splits sum.splits prod.splits)
        (metis snd_conv)+
  qed (use assms batch in simp)
qed

lemma evidence_run_inv:
  "evidence_inv m \<Longrightarrow> list_all carries_values cs \<Longrightarrow> evidence_inv (final_state evidence_step cs m)"
  by (induction cs arbitrary: m) (simp_all add: evidence_step_inv)

definition trust_policy_ok :: "TrustPolicy \<Rightarrow> bool" where
  "trust_policy_ok p \<longleftrightarrow> omap_ok p \<and> (\<forall>k w. map_of p k = Some w \<longrightarrow> w \<le> 100)"

definition weight_step :: "string \<times> 32 word \<Rightarrow> TrustPolicy \<Rightarrow> Status \<times> TrustPolicy" where
  "weight_step c = setWeight (fst c) (snd c)"

interpretation trust_policy: guarded_machine weight_step trust_policy_ok
  by unfold_locales
    (auto simp: weight_step_def setWeight_def trust_policy_ok_def map_of_insert_or_assign)

lemma trust_weight_bound: "trust_policy_ok p \<Longrightarrow> unat (trust_weight p k) \<le> 100"
  by (auto simp: trust_policy_ok_def trust_weight_def word_le_nat_alt split: option.split)

section \<open>The score\<close>

text \<open>The records that count, and the sums over them as numbers.\<close>

definition counted :: "TrustPolicy \<Rightarrow> Instant \<Rightarrow> Evidence list \<Rightarrow> Evidence list" where
  "counted policy now es =
     filter (\<lambda>e. Evidence_activeAt e now \<and> trust_weight policy (ev_kind e) \<noteq> 0) es"

definition weightOf :: "TrustPolicy \<Rightarrow> Evidence \<Rightarrow> nat" where
  "weightOf policy e = unat (trust_weight policy (ev_kind e))"

definition confidenceOf :: "Evidence \<Rightarrow> nat" where
  "confidenceOf e = unat (ev_confidence e)"

lemma accumulate_counted:
  "accumulate policy now es t =
     \<lparr>tot_weightedConfidence = tot_weightedConfidence t
        + of_nat (\<Sum>e\<leftarrow>counted policy now es. weightOf policy e * confidenceOf e),
      tot_totalWeight = tot_totalWeight t + of_nat (\<Sum>e\<leftarrow>counted policy now es. weightOf policy e),
      tot_confidenceTotal = tot_confidenceTotal t + of_nat (\<Sum>e\<leftarrow>counted policy now es. confidenceOf e),
      tot_evidenceCount = tot_evidenceCount t + of_nat (length (counted policy now es)),
      tot_evidenceIds = tot_evidenceIds t @ map (id_value \<circ> ev_id) (counted policy now es)\<rparr>"
  by (induction es arbitrary: t)
    (simp_all add: counted_def weightOf_def confidenceOf_def Let_def add.assoc)

lemma sum_list_bound: "(\<And>x. x \<in> set xs \<Longrightarrow> f x \<le> b) \<Longrightarrow> sum_list (map f xs) \<le> b * (length xs :: nat)"
  by (induction xs) (auto intro: add_mono)

lemma weighted_mean_bound:
  fixes w c :: "'a \<Rightarrow> nat"
  assumes "\<And>x. x \<in> set xs \<Longrightarrow> c x \<le> b"
  shows "(\<Sum>x\<leftarrow>xs. w x * c x) div (\<Sum>x\<leftarrow>xs. w x) \<le> b"
proof -
  have "(\<Sum>x\<leftarrow>xs. w x * c x) \<le> (\<Sum>x\<leftarrow>xs. w x) * b"
    using assms by (induction xs) (auto simp: distrib_right intro!: add_mono)
  then show ?thesis
    by (metis div_le_mono div_mult_self1_is_m mult.commute div_by_0 bot_nat_0.extremum bot_nat_0.not_eq_extremum)
qed

text \<open>A quotient of two 64-bit totals that did not wrap, cut to 32 bits.\<close>

lemma mean_word:
  fixes n d :: nat
  assumes "n < 2 ^ 64" "d < 2 ^ 64" "n div d \<le> 100"
  shows "unat (if (of_nat d :: 64 word) = 0 then 0
               else ucast ((of_nat n :: 64 word) div of_nat d) :: 32 word) = n div d"
proof (cases "d = 0")
  case False
  have n: "unat (of_nat n :: 64 word) = n" and d: "unat (of_nat d :: 64 word) = d"
    using assms(1,2) by (simp_all add: unat_of_nat)
  then have "(of_nat d :: 64 word) \<noteq> 0"
    using False by auto
  moreover have "unat ((of_nat n :: 64 word) div of_nat d) = n div d"
    by (simp only: unat_div n d)
  ultimately show ?thesis
    using assms(3) by (simp add: unsigned_ucast_eq take_bit_eq_mod)
qed simp

lemma risk_fold:
  "list_all (\<lambda>r. risk_severity r \<le> 100) risks \<Longrightarrow> (s :: 32 word) \<le> 100 \<Longrightarrow>
   unat (fold (\<lambda>r s. max s (risk_severity r)) risks s) = Max (insert (unat s) ((unat \<circ> risk_severity) ` set risks))
   \<and> fold (\<lambda>r s. max s (risk_severity r)) risks s \<le> 100"
proof (induction risks arbitrary: s)
  case (Cons r risks)
  have m: "unat (max s (risk_severity r)) = max (unat s) (unat (risk_severity r))"
    by (auto simp: max_def word_le_nat_alt)
  have "Max (insert (max (unat s) (unat (risk_severity r))) ((unat \<circ> risk_severity) ` set risks))
      = Max (insert (unat s) ((unat \<circ> risk_severity) ` set (r # risks)))"
    by (cases "risks = []") (simp_all add: max.assoc max.left_commute)
  then show ?case
    using Cons.IH [of "max s (risk_severity r)"] Cons.prems m by simp
qed simp

lemma counted_records:
  assumes "evidence_inv m" "es = counted policy now (filter (\<lambda>e. ev_identity e = identity) (map snd m))"
  shows "distinct (map (id_value \<circ> ev_id) es)" "e \<in> set es \<Longrightarrow> confidenceOf e \<le> 100" "length es \<le> length m"
proof -
  have key: "ev_id e = k \<and> evidence_value e" if "(k, e) \<in> set m" for k e
    using assms(1) that by (simp add: evidence_inv_def omap_entry)
  then have keys: "map ev_id (map snd m) = map fst m"
    by auto
  have "distinct (map ev_id (map snd m))"
    unfolding keys using assms(1) by (simp add: evidence_inv_def omap_ok_def strict_sorted_iff)
  then have "distinct (map ev_id es)"
    unfolding assms(2) counted_def by (intro distinct_map_filter)
  moreover have "inj_on id_value (ev_id ` set es)"
    by (simp add: inj_on_def StrongId.expand)
  ultimately have "distinct (map id_value (map ev_id es))"
    by (simp only: distinct_map [of id_value] set_map)
  then show "distinct (map (id_value \<circ> ev_id) es)"
    by simp
  show "length es \<le> length m"
    unfolding assms(2) counted_def
    by (rule order_trans [OF length_filter_le], rule order_trans [OF length_filter_le]) simp
  show "confidenceOf e \<le> 100" if "e \<in> set es"
    using that key
    by (auto simp: assms(2) counted_def confidenceOf_def evidence_value_def validEvidence_def word_le_nat_alt)
qed

text \<open>The totals stay far below 64 bits and the means are at most 100.\<close>

lemma totals_small:
  assumes "evidence_inv m" "trust_policy_ok policy" "length m < 2 ^ 50"
    and "es = counted policy now (filter (\<lambda>e. ev_identity e = identity) (map snd m))"
  shows "(\<Sum>e\<leftarrow>es. weightOf policy e * confidenceOf e) < 2 ^ 64" "(\<Sum>e\<leftarrow>es. weightOf policy e) < 2 ^ 64"
    "(\<Sum>e\<leftarrow>es. confidenceOf e) < 2 ^ 64" "length es < 2 ^ 64"
    "(\<Sum>e\<leftarrow>es. weightOf policy e * confidenceOf e) div (\<Sum>e\<leftarrow>es. weightOf policy e) \<le> 100"
    "(\<Sum>e\<leftarrow>es. confidenceOf e) div length es \<le> 100"
proof -
  note rec = counted_records [OF assms(1,4)]
  have w: "weightOf policy e \<le> 100" for e
    using trust_weight_bound [OF assms(2)] by (simp add: weightOf_def)
  have "(\<Sum>e\<leftarrow>es. weightOf policy e * confidenceOf e) \<le> 10000 * length es"
    using w rec(2) by (intro sum_list_bound) (use mult_le_mono [of _ 100 _ 100] in fastforce)
  moreover have "(\<Sum>e\<leftarrow>es. weightOf policy e) \<le> 100 * length es" "(\<Sum>e\<leftarrow>es. confidenceOf e) \<le> 100 * length es"
    using w rec(2) by (auto intro!: sum_list_bound)
  ultimately show "(\<Sum>e\<leftarrow>es. weightOf policy e * confidenceOf e) < 2 ^ 64" "(\<Sum>e\<leftarrow>es. weightOf policy e) < 2 ^ 64"
      "(\<Sum>e\<leftarrow>es. confidenceOf e) < 2 ^ 64" "length es < 2 ^ 64"
    using rec(3) assms(3) by simp_all
  show "(\<Sum>e\<leftarrow>es. weightOf policy e * confidenceOf e) div (\<Sum>e\<leftarrow>es. weightOf policy e) \<le> 100"
      "(\<Sum>e\<leftarrow>es. confidenceOf e) div length es \<le> 100"
    using weighted_mean_bound [OF rec(2), where w = "weightOf policy"]
      weighted_mean_bound [OF rec(2), where w = "\<lambda>_. 1"] by (simp_all add: sum_list_triv)
qed

text \<open>
  C37. Trust scores are exact and bounded. In every repository reached by storing evidence,
  verifying and revoking, and for every policy reached by setting weights, with fewer than \<open>2 ^ 50\<close>
  records the 64-bit totals never wrap: an assessment succeeds exactly when the identity is not
  empty and every counted identifier has a form the assessment accepts; the trust score is then the
  weighted mean confidence of the active records whose kind has a weight, less the most severe risk
  and never below zero; the confidence is their plain mean; the identifiers are listed once each in
  order; and all three scores lie between 0 and 100. A failure is an invalid argument.
\<close>

theorem trust_assessment_exact:
  assumes "list_all carries_values cs" "m = final_state evidence_step cs []" "length m < 2 ^ 50"
    and "policy = final_state weight_step ws []" "list_all (\<lambda>r. risk_severity r \<le> 100) risks"
    and "es = counted policy now (filter (\<lambda>e. ev_identity e = identity) (map snd m))"
  shows "case assess policy now m identity risks of
      Inl e \<Rightarrow> err_code e = InvalidArgument
        \<and> (identity = StrongId [] \<or> list_ex (\<lambda>e. \<not> validEvidenceId (id_value (ev_id e))) es)
    | Inr a \<Rightarrow> identity \<noteq> StrongId [] \<and> list_all (\<lambda>e. validEvidenceId (id_value (ev_id e))) es
        \<and> unat (assess_riskScore a) = Max (insert 0 ((unat \<circ> risk_severity) ` set risks))
        \<and> unat (assess_trustScore a) =
            (\<Sum>e\<leftarrow>es. weightOf policy e * confidenceOf e) div (\<Sum>e\<leftarrow>es. weightOf policy e) - unat (assess_riskScore a)
        \<and> unat (assess_confidence a) = (\<Sum>e\<leftarrow>es. confidenceOf e) div length es
        \<and> assess_evidenceIds a = sort (map (id_value \<circ> ev_id) es) \<and> distinct (assess_evidenceIds a)
        \<and> assess_trustScore a \<le> 100 \<and> assess_riskScore a \<le> 100 \<and> assess_confidence a \<le> 100"
proof (cases "identity = StrongId []")
  case False
  have inv: "evidence_inv m"
    using evidence_run_inv [OF _ assms(1), of "[]"] assms(2) by (simp add: evidence_inv_def)
  have pol: "trust_policy_ok policy"
    using trust_policy.run_inv [of "[]" ws] assms(4) by (simp add: trust_policy_ok_def)
  have named: "\<not> StrongId_empty identity"
    using False by (cases identity) simp
  note rec = counted_records [OF inv assms(6)] and small = totals_small [OF inv pol assms(3,6)]
  let ?W = "\<Sum>e\<leftarrow>es. weightOf policy e" and ?C = "\<Sum>e\<leftarrow>es. confidenceOf e"
    and ?WC = "\<Sum>e\<leftarrow>es. weightOf policy e * confidenceOf e"
  define t where "t = (if (of_nat ?W :: 64 word) = 0 then 0
      else ucast ((of_nat ?WC :: 64 word) div of_nat ?W) :: 32 word)"
  define c where "c = (if (of_nat (length es) :: 64 word) = 0 then 0
      else ucast ((of_nat ?C :: 64 word) div of_nat (length es)) :: 32 word)"
  define r where "r = fold (\<lambda>risk score. max score (risk_severity risk)) risks 0"
  define s where "s = (if t > r then t - r else 0)"
  have t: "unat t = ?WC div ?W" and c: "unat c = ?C div length es"
    unfolding t_def c_def by (rule mean_word small)+
  have r: "unat r = Max (insert 0 ((unat \<circ> risk_severity) ` set risks))" "r \<le> 100"
    using risk_fold [OF assms(5), of 0] by (simp_all add: r_def)
  have s: "unat s = unat t - unat r"
    by (auto simp: s_def word_less_nat_alt unat_sub word_le_nat_alt not_less)
  have bounds: "t \<le> 100" "c \<le> 100" "s \<le> 100"
    using s t c small by (simp_all add: word_le_nat_alt)
  have "assess policy now m identity risks =
      TrustAssessment_create identity s r c (map (id_value \<circ> ev_id) es) risks"
    using named unfolding s_def t_def c_def r_def assms(6)
    by (simp add: assess_def forIdentity_def accumulate_counted Let_def)
  then have "assess policy now m identity risks =
      (if list_all (\<lambda>e. validEvidenceId (id_value (ev_id e))) es
       then Inr \<lparr>assess_identity = identity, assess_trustScore = s, assess_riskScore = r,
         assess_confidence = c, assess_evidenceIds = sort (map (id_value \<circ> ev_id) es), assess_risks = risks\<rparr>
       else fail_msg InvalidArgument ''The trust assessment is invalid.'')"
    using named rec(1) r(2) bounds by (auto simp: TrustAssessment_create_def list_all_iff dest: leD)
  then show ?thesis
    using False r bounds rec(1) by (simp add: s t c list_all_iff list_ex_iff)
qed (simp add: assess_def fail_code_def)

abbreviation sample_evidence :: Evidence where
  "sample_evidence \<equiv> \<lparr>ev_id = StrongId ''e1'', ev_identity = StrongId ''alice'', ev_provider = StrongId ''kyc'',
     ev_kind = ''passport'', ev_claim = ''name'', ev_value = ''Alice'', ev_confidence = 90,
     ev_status = EvidenceStatus.Verified, ev_verifiedAt = 0, ev_expiresAt = None\<rparr>"

theorem trust_assessment_exact_witness:
  "\<exists>a. assess (final_state weight_step [(''passport'', 50)] []) 5
        (final_state evidence_step [AddBatch [sample_evidence]] []) (StrongId ''alice'')
        [\<lparr>risk_kind = ''ip'', risk_severity = 30, risk_reason = ''new''\<rparr>] = Inr a
     \<and> unat (assess_trustScore a) = 60"
proof -
  let ?p = "final_state weight_step [(''passport'', 50)] []"
  let ?cs = "[AddBatch [sample_evidence]]"
  let ?m = "final_state evidence_step ?cs []"
  let ?risks = "[\<lparr>risk_kind = ''ip'', risk_severity = 30, risk_reason = ''new''\<rparr>]"
  let ?es = "counted ?p 5 (filter (\<lambda>e. ev_identity e = StrongId ''alice'') (map snd ?m))"
  have vals: "list_all carries_values ?cs" "list_all (\<lambda>r. risk_severity r \<le> 100) ?risks"
    by (simp_all add: evidence_value_def validEvidence_def validText_def hasControlCharacter_def)
  have m: "?m = [(StrongId ''e1'', sample_evidence)]"
    by (simp add: evidence_addBatch_def omap_contains_def)
  have p: "?p = [(''passport'', 50)]"
    by (simp add: weight_step_def setWeight_def validEvidenceKind_def hasControlCharacter_def
        omap_insert_or_assign_def omap_contains_def)
  have es: "?es = [sample_evidence]"
    unfolding m p by (simp add: counted_def Evidence_activeAt_def trust_weight_def)
  have "length ?m < 2 ^ 50" unfolding m by simp
  note exact = trust_assessment_exact [OF vals(1) refl this refl vals(2) refl,
    where ws = "[(''passport'', 50)]" and now = 5 and identity = "StrongId ''alice''"]
  show ?thesis
  proof (cases "assess ?p 5 ?m (StrongId ''alice'') ?risks")
    case (Inl e)
    then show ?thesis
      using exact unfolding es by (simp add: validEvidenceId_def hasControlCharacter_def)
  next
    case (Inr a)
    then show ?thesis
      using exact unfolding es unfolding p by (simp add: weightOf_def confidenceOf_def trust_weight_def)
  qed
qed

end
