(* ===== verification/Audit_Chain.thy ===== *)
theory Audit_Chain
  imports Decimal Provider
begin

text \<open>
  The audit log (\<^verbatim>\<open>src/src/audit/audit.cpp\<close>): events, their canonical text, the chain of
  keyed hashes that the repository appends to and verifies, and the sink of security events.
\<close>

datatype AuditEventIdTag = AuditEventIdTag

type_synonym AuditEventId = "AuditEventIdTag StrongId"
type_synonym AuditFields = "(string, string) omap"
type_synonym Digest = "byte list"

section \<open>Events\<close>

definition validAtom :: "string \<Rightarrow> nat \<Rightarrow> bool" where
  "validAtom value maximum =
     (value \<noteq> [] \<and> length value \<le> maximum
      \<and> \<not> list_ex (\<lambda>c. of_char c < (0x20 :: nat) \<or> of_char c = (0x7F :: nat)) value)"

record AuditEvent =
  audit_id :: AuditEventId
  audit_occurredAt :: Instant
  audit_correlation :: CorrelationId
  audit_organization :: "OrganizationId option"
  audit_identity :: "IdentityId option"
  audit_category :: string
  audit_action :: string
  audit_outcome :: string
  audit_fields :: AuditFields

definition validateFields :: "AuditFields \<Rightarrow> Status" where
  "validateFields flds =
     (if length flds > 64
      then fail_msg InvalidArgument ''An audit event has too many fields.''
      else if list_ex (\<lambda>(name, value). \<not> validAtom name 100 \<or> length value > 4096) flds
      then fail_msg InvalidArgument ''An audit event field is invalid.''
      else ok)"

definition AuditEvent_create ::
    "AuditEventId \<Rightarrow> Instant \<Rightarrow> CorrelationId \<Rightarrow> OrganizationId option \<Rightarrow> IdentityId option
     \<Rightarrow> string \<Rightarrow> string \<Rightarrow> string \<Rightarrow> AuditFields \<Rightarrow> AuditEvent Result" where
  "AuditEvent_create eid occurredAt correlation organization identity category action outcome flds =
     (if StrongId_empty eid \<or> StrongId_empty correlation \<or> \<not> validAtom category 100
         \<or> \<not> validAtom action 200 \<or> \<not> validAtom outcome 100 \<or> \<not> succeeded (validateFields flds)
      then fail_msg InvalidArgument ''The audit event is invalid.''
      else Inr \<lparr>audit_id = eid, audit_occurredAt = occurredAt, audit_correlation = correlation,
                audit_organization = organization, audit_identity = identity,
                audit_category = category, audit_action = action, audit_outcome = outcome,
                audit_fields = flds\<rparr>)"

definition AuditKey_create :: "string \<Rightarrow> string Result" where
  "AuditKey_create key =
     (if length key < 32
      then fail_msg InvalidArgument ''An audit signing key must contain at least 32 bytes.''
      else Inr key)"

section \<open>The chain\<close>

record AuditRecord =
  arec_sequence :: "64 word"
  arec_event :: AuditEvent
  arec_previousHash :: "Digest option"
  arec_hash :: Digest

definition optional_id :: "'t StrongId option \<Rightarrow> string" where
  "optional_id v = (case v of None \<Rightarrow> [] | Some i \<Rightarrow> id_value i)"

definition canonical :: "AuditEvent \<Rightarrow> 64 word \<Rightarrow> Digest option \<Rightarrow> string" where
  "canonical event sequence previous =
     appendPart (to_string (unat sequence))
     @ appendPart (id_value (audit_id event))
     @ appendPart (int_to_string (audit_occurredAt event))
     @ appendPart (id_value (audit_correlation event))
     @ appendPart (optional_id (audit_organization event))
     @ appendPart (optional_id (audit_identity event))
     @ appendPart (audit_category event)
     @ appendPart (audit_action event)
     @ appendPart (audit_outcome event)
     @ appendPart (case previous of None \<Rightarrow> [] | Some d \<Rightarrow> toHex d)
     @ concat (map (\<lambda>(name, value). appendPart name @ appendPart value) (audit_fields event))"

definition computeAuditRecordHash :: "env \<Rightarrow> AuditEvent \<Rightarrow> 64 word \<Rightarrow> Digest option \<Rightarrow> string \<Rightarrow> Digest Result" where
  "computeAuditRecordHash E event sequence previousHash key =
     hmacSha256 E key (canonical event sequence previousHash)"

type_synonym AuditRepository = "AuditRecord list"

definition audit_append :: "env \<Rightarrow> string \<Rightarrow> AuditEvent \<Rightarrow> AuditRepository \<Rightarrow> AuditRecord Result \<times> AuditRepository" where
  "audit_append E key event m =
     (if list_ex (\<lambda>existing. audit_id (arec_event existing) = audit_id event) m
      then (fail_msg AlreadyExists ''The audit event already exists.'', m)
      else let sequence = of_nat (length m) + 1;
               previous = (if m = [] then None else Some (arec_hash (last m)))
           in case computeAuditRecordHash E event sequence previous key of
                Inl e \<Rightarrow> (Inl e, m)
              | Inr hash \<Rightarrow>
                  let entry = \<lparr>arec_sequence = sequence, arec_event = event,
                               arec_previousHash = previous, arec_hash = hash\<rparr>
                  in (Inr entry, m @ [entry]))"

definition audit_records :: "AuditRepository \<Rightarrow> AuditRecord list Result" where
  "audit_records m = Inr m"

fun verify_loop :: "env \<Rightarrow> string \<Rightarrow> Digest option \<Rightarrow> AuditRecord list \<Rightarrow> Status" where
  "verify_loop E key previous [] = ok"
| "verify_loop E key previous (entry # entries) =
     (if arec_previousHash entry \<noteq> previous
      then fail_msg FailedPrecondition ''The audit chain is not intact.''
      else case computeAuditRecordHash E (arec_event entry) (arec_sequence entry) previous key of
             Inl e \<Rightarrow> Inl e
           | Inr expected \<Rightarrow>
               if \<not> constantTimeEquals expected (arec_hash entry)
               then fail_msg FailedPrecondition ''The audit chain is not intact.''
               else verify_loop E key (Some (arec_hash entry)) entries)"

definition audit_verify :: "env \<Rightarrow> string \<Rightarrow> AuditRepository \<Rightarrow> Status" where
  "audit_verify E key m = verify_loop E key None m"

section \<open>Security events\<close>

datatype SecuritySeverity = Informational | Warning | Critical

fun securitySeverityName :: "SecuritySeverity \<Rightarrow> string" where
  "securitySeverityName Informational = ''informational''"
| "securitySeverityName Warning = ''warning''"
| "securitySeverityName Critical = ''critical''"

record SecurityEvent =
  sec_id :: AuditEventId
  sec_occurredAt :: Instant
  sec_correlation :: CorrelationId
  sec_severity :: SecuritySeverity
  sec_type :: string
  sec_fields :: AuditFields

definition SecurityEvent_create ::
    "AuditEventId \<Rightarrow> Instant \<Rightarrow> CorrelationId \<Rightarrow> SecuritySeverity \<Rightarrow> string \<Rightarrow> AuditFields
     \<Rightarrow> SecurityEvent Result" where
  "SecurityEvent_create eid occurredAt correlation severity type flds =
     (if StrongId_empty eid \<or> StrongId_empty correlation \<or> \<not> validAtom type 200
         \<or> \<not> succeeded (validateFields flds)
      then fail_msg InvalidArgument ''The security event is invalid.''
      else Inr \<lparr>sec_id = eid, sec_occurredAt = occurredAt, sec_correlation = correlation,
                sec_severity = severity, sec_type = type, sec_fields = flds\<rparr>)"

definition publish :: "SecurityEvent \<Rightarrow> SecurityEvent list \<Rightarrow> Status \<times> SecurityEvent list" where
  "publish event m =
     (if list_ex (\<lambda>existing. sec_id existing = sec_id event) m
      then (fail_msg AlreadyExists ''The security event already exists.'', m)
      else (ok, m @ [event]))"

section \<open>The canonical text determines the record\<close>

text \<open>What the text of an event carries; an absent tenant reads like an empty one.\<close>

definition audit_content ::
    "AuditEvent \<Rightarrow> AuditEventId \<times> Instant \<times> CorrelationId \<times> string \<times> string \<times> string \<times> string \<times> string \<times> AuditFields" where
  "audit_content e = (audit_id e, audit_occurredAt e, audit_correlation e,
     optional_id (audit_organization e), optional_id (audit_identity e),
     audit_category e, audit_action e, audit_outcome e, audit_fields e)"

lemma canonical_parts:
  "canonical event sequence previous = parts
     ([to_string (unat sequence), id_value (audit_id event), int_to_string (audit_occurredAt event),
       id_value (audit_correlation event), optional_id (audit_organization event),
       optional_id (audit_identity event), audit_category event, audit_action event,
       audit_outcome event, case previous of None \<Rightarrow> [] | Some d \<Rightarrow> toHex d]
      @ concat (map (\<lambda>(n, v). [n, v]) (audit_fields event)))"
proof -
  have "concat (map (\<lambda>(n, v). appendPart n @ appendPart v) fs) = parts (concat (map (\<lambda>(n, v). [n, v]) fs))" for fs
    by (induction fs) auto
  then show ?thesis by (simp add: canonical_def)
qed

lemma pairs_inj:
  "concat (map (\<lambda>(n, v). [n, v]) fs) = concat (map (\<lambda>(n, v). [n, v]) gs) \<longleftrightarrow> fs = gs"
proof (induction fs arbitrary: gs)
  case Nil
  then show ?case by (cases gs) auto
next
  case (Cons f fs)
  show ?case
    by (cases gs; cases f; cases "hd gs") (auto simp: Cons.IH)
qed

lemma toHex_Nil_iff [simp]: "toHex d = [] \<longleftrightarrow> d = []" "[] = toHex d \<longleftrightarrow> d = []"
  by (metis length_0_conv length_toHex mult_eq_0_iff zero_neq_numeral)+

lemma canonical_inj:
  assumes "canonical e n p = canonical e' n' p'" "p \<noteq> Some []" "p' \<noteq> Some []"
  shows "audit_content e = audit_content e' \<and> n = n' \<and> p = p'"
proof -
  have "p = p'" if "(case p of None \<Rightarrow> [] | Some d \<Rightarrow> toHex d) = (case p' of None \<Rightarrow> [] | Some d \<Rightarrow> toHex d)"
    using that assms(2,3) by (cases p; cases p') (simp_all add: toHex_inj)
  then show ?thesis
    using assms(1) unfolding canonical_parts parts_inj
    by (simp add: audit_content_def to_string_inj int_to_string_inj pairs_inj
        word_unat_eq_iff [of n])
qed

section \<open>Every history verifies\<close>

lemma verify_loop_snoc:
  "verify_loop E key previous (m @ [entry]) = ok \<longleftrightarrow>
     verify_loop E key previous m = ok
     \<and> verify_loop E key (if m = [] then previous else Some (arec_hash (last m))) [entry] = ok"
  by (induction m arbitrary: previous) (auto split: sum.split)

lemma verify_loop_prefix: "verify_loop E key previous m = ok \<Longrightarrow> verify_loop E key previous (take n m) = ok"
  by (induction m arbitrary: previous n) (auto simp: take_Cons split: sum.splits if_splits nat.splits)

text \<open>The link of a chain at position \<open>i\<close>.\<close>

definition chain_prev :: "AuditRepository \<Rightarrow> nat \<Rightarrow> Digest option" where
  "chain_prev m i = (if i = 0 then None else Some (arec_hash (m ! (i - 1))))"

lemma verify_loop_nth:
  "verify_loop E key previous m = ok \<Longrightarrow> i < length m \<Longrightarrow>
     arec_previousHash (m ! i) = (if i = 0 then previous else chain_prev m i)
     \<and> hmacSha256 E key (canonical (arec_event (m ! i)) (arec_sequence (m ! i)) (arec_previousHash (m ! i)))
       = Inr (arec_hash (m ! i))"
proof (induction m arbitrary: previous i)
  case (Cons entry m)
  then have IH: "verify_loop E key (Some (arec_hash entry)) m = ok"
    and hd: "arec_previousHash entry = previous"
      "computeAuditRecordHash E (arec_event entry) (arec_sequence entry) previous key = Inr (arec_hash entry)"
    by (auto split: if_splits sum.splits)
  show ?case
  proof (cases i)
    case 0
    then show ?thesis using hd by (simp add: computeAuditRecordHash_def)
  next
    case (Suc j)
    then show ?thesis
      using Cons.IH [OF IH, of j] Cons.prems(2) by (auto simp: chain_prev_def)
  qed
qed simp

definition audit_inv :: "env \<Rightarrow> string \<Rightarrow> AuditRepository \<Rightarrow> bool" where
  "audit_inv E key m \<longleftrightarrow> audit_verify E key m = ok
     \<and> map arec_sequence m = map (\<lambda>i. of_nat (Suc i)) [0 ..< length m]
     \<and> distinct (map (audit_id \<circ> arec_event) m)"

lemma audit_inv_sequence:
  assumes "audit_inv E key m" "i < length m"
  shows "arec_sequence (m ! i) = of_nat (Suc i)"
  using assms unfolding audit_inv_def
  by (metis (no_types, lifting) nth_map nth_upt add.left_neutral diff_zero length_upt)

lemma audit_append_inv:
  "audit_inv E key m \<Longrightarrow> audit_inv E key (snd (audit_append E key event m))"
  by (auto simp: audit_append_def audit_inv_def audit_verify_def verify_loop_snoc list_ex_iff Let_def
      add.commute split: sum.split)

interpretation audit_log: guarded_machine "audit_append E key" "audit_inv E key" for E key
  by unfold_locales (rule audit_append_inv)

abbreviation audit_log :: "env \<Rightarrow> string \<Rightarrow> AuditEvent list \<Rightarrow> AuditRepository" where
  "audit_log E key events \<equiv> final_state (audit_append E key) events []"

lemma audit_log_inv: "audit_inv E key (audit_log E key events)"
  by (rule audit_log.run_inv) (simp add: audit_inv_def audit_verify_def)

section \<open>Tampering\<close>

definition record_text :: "AuditRecord \<Rightarrow> string" where
  "record_text r = canonical (arec_event r) (arec_sequence r) (arec_previousHash r)"

text \<open>Two verified chains under one key, over whose texts the keyed hash has no collision.\<close>

lemma verified_entry:
  assumes "audit_verify E key m = ok" "i < length m"
  shows "arec_previousHash (m ! i) = chain_prev m i"
    and "hmacSha256 E key (record_text (m ! i)) = Inr (arec_hash (m ! i))"
    and "arec_previousHash (m ! i) \<noteq> Some []"
proof -
  note entry = verify_loop_nth [OF assms(1) [unfolded audit_verify_def]]
  show prev: "arec_previousHash (m ! i) = chain_prev m i"
    and "hmacSha256 E key (record_text (m ! i)) = Inr (arec_hash (m ! i))"
    using entry [OF assms(2)] by (auto simp: chain_prev_def record_text_def)
  have "length (arec_hash (m ! (i - 1))) = 32"
    using entry [of "i - 1"] assms(2) hmac_length by (metis less_imp_diff_less)
  then show "arec_previousHash (m ! i) \<noteq> Some []"
    by (auto simp: prev chain_prev_def)
qed

lemma same_hash_same_record:
  assumes "audit_verify E key m = ok" "audit_verify E key rs = ok"
    and "inj_on (hmacSha256 E key) (record_text ` (set m \<union> set rs))"
    and "i < length rs" "j < length m" "arec_hash (rs ! i) = arec_hash (m ! j)"
  shows "audit_content (arec_event (rs ! i)) = audit_content (arec_event (m ! j))"
    and "arec_sequence (rs ! i) = arec_sequence (m ! j)" and "chain_prev rs i = chain_prev m j"
proof -
  note rs = verified_entry [OF assms(2,4)] and m = verified_entry [OF assms(1,5)]
  have "record_text (rs ! i) = record_text (m ! j)"
    by (rule inj_onD [OF assms(3)]) (use rs(2) m(2) assms(4-6) in auto)
  from canonical_inj [OF this [unfolded record_text_def] rs(3) m(3)]
  show "audit_content (arec_event (rs ! i)) = audit_content (arec_event (m ! j))"
    "arec_sequence (rs ! i) = arec_sequence (m ! j)" "chain_prev rs i = chain_prev m j"
    using rs(1) m(1) by simp_all
qed

lemma log_hashes_distinct:
  assumes "audit_inv E key m" "length m < 2 ^ 64" "inj_on (hmacSha256 E key) (record_text ` set m)"
    and "i < length m" "j < length m" "arec_hash (m ! i) = arec_hash (m ! j)"
  shows "i = j"
proof -
  note sequence = audit_inv_sequence [OF assms(1)]
  have "audit_verify E key m = ok"
    using assms(1) by (simp add: audit_inv_def)
  from same_hash_same_record(2) [OF this this] assms(3-)
  have "(of_nat (Suc i) :: 64 word) = of_nat (Suc j)"
    using sequence [OF assms(4)] sequence [OF assms(5)] by (metis Un_absorb)
  then have "Suc i mod 2 ^ 64 = Suc j mod 2 ^ 64"
    by (drule_tac arg_cong [of _ _ unat]) (simp add: unat_of_nat del: of_nat_Suc)
  then show ?thesis
    using assms(2,4,5) by simp
qed

lemma reused_hashes_prefix:
  assumes "audit_inv E key m" "length m < 2 ^ 64" "audit_verify E key rs = ok"
    and "inj_on (hmacSha256 E key) (record_text ` (set m \<union> set rs))"
    and "arec_hash ` set rs \<subseteq> arec_hash ` set m"
  shows "i < length rs \<Longrightarrow> i < length m \<and> arec_hash (rs ! i) = arec_hash (m ! i)"
proof (induction i)
  case (0)
  then obtain j where j: "j < length m" "arec_hash (rs ! 0) = arec_hash (m ! j)"
    using assms(5) by (metis (no_types, lifting) imageE imageI in_set_conv_nth nth_mem subsetD)
  have "audit_verify E key m = ok"
    using assms(1) by (simp add: audit_inv_def)
  from same_hash_same_record(3) [OF this assms(3,4) 0 j] show ?case
    using j by (cases j) (auto simp: chain_prev_def)
next
  case (Suc k)
  then have k: "k < length m" "arec_hash (rs ! k) = arec_hash (m ! k)"
    by simp_all
  obtain j where j: "j < length m" "arec_hash (rs ! Suc k) = arec_hash (m ! j)"
    using Suc.prems assms(5) by (metis (no_types, lifting) imageE imageI in_set_conv_nth nth_mem subsetD)
  have ok: "audit_verify E key m = ok"
    using assms(1) by (simp add: audit_inv_def)
  from same_hash_same_record(3) [OF ok assms(3,4) Suc.prems j]
  have "j \<noteq> 0" and hash: "arec_hash (m ! (j - 1)) = arec_hash (m ! k)"
    using k(2) by (auto simp: chain_prev_def split: if_splits)
  moreover have "inj_on (hmacSha256 E key) (record_text ` set m)"
    using assms(4) by (rule inj_on_subset) auto
  ultimately have "j - 1 = k"
    using log_hashes_distinct [OF assms(1,2) _ _ k(1) hash] j(1) by simp
  then show ?case
    using j \<open>j \<noteq> 0\<close> by auto
qed

text \<open>
  C8. The audit log is tamper evident. Whatever events were offered, the log of one key verifies,
  and so does each of its prefixes. Conversely, take any list of records that verifies under the key
  and shows only hashes of the log (without the key no other can be made), with no collision of the
  keyed hash over the texts at hand: it is a prefix of the log, the same sequence numbers, links,
  hashes and event contents at every position. So no record can be altered, inserted, dropped from
  the middle or moved; only cutting off the end goes unnoticed.
\<close>

theorem audit_tamper_evident:
  assumes "m = audit_log E key events" "length m < 2 ^ 64"
    and "arec_hash ` set rs \<subseteq> arec_hash ` set m"
    and "inj_on (hmacSha256 E key) (record_text ` (set m \<union> set rs))"
  shows "audit_verify E key (take n m) = ok
    \<and> (audit_verify E key rs = ok \<longrightarrow> length rs \<le> length m
        \<and> (\<forall>i < length rs. audit_content (arec_event (rs ! i)) = audit_content (arec_event (m ! i))
             \<and> arec_sequence (rs ! i) = of_nat (Suc i) \<and> arec_hash (rs ! i) = arec_hash (m ! i)
             \<and> arec_previousHash (rs ! i) = arec_previousHash (m ! i)))"
proof -
  have inv: "audit_inv E key m"
    unfolding assms(1) by (rule audit_log_inv)
  then have ok: "audit_verify E key m = ok"
    by (simp add: audit_inv_def)
  note sequence = audit_inv_sequence [OF inv]
  show ?thesis
  proof (intro conjI impI allI)
    show "audit_verify E key (take n m) = ok"
      using ok unfolding audit_verify_def by (rule verify_loop_prefix)
  next
    assume rs: "audit_verify E key rs = ok"
    note hash = reused_hashes_prefix [OF inv assms(2) rs assms(4,3)]
    show "length rs \<le> length m"
      using hash by (meson linorder_not_le order_less_irrefl)
    fix i assume i: "i < length rs"
    note same = same_hash_same_record [OF ok rs assms(4) i conjunct1 [OF hash [OF i]] conjunct2 [OF hash [OF i]]]
    show "audit_content (arec_event (rs ! i)) = audit_content (arec_event (m ! i))"
      "arec_sequence (rs ! i) = of_nat (Suc i)" "arec_hash (rs ! i) = arec_hash (m ! i)"
      "arec_previousHash (rs ! i) = arec_previousHash (m ! i)"
      using same hash [OF i] sequence verified_entry(1) [OF rs i] verified_entry(1) [OF ok]
      by auto
  qed
qed

abbreviation sample_event :: AuditEvent where
  "sample_event \<equiv> \<lparr>audit_id = StrongId ''a1'', audit_occurredAt = 7, audit_correlation = StrongId ''c1'',
     audit_organization = None, audit_identity = Some (StrongId ''alice''), audit_category = ''session'',
     audit_action = ''issue'', audit_outcome = ''success'', audit_fields = []\<rparr>"

theorem audit_tamper_evident_witness:
  "\<exists>m. m = audit_log sample_env (replicate 32 (CHR ''k'')) [sample_event] \<and> length m = 1
     \<and> audit_verify sample_env (replicate 32 (CHR ''k'')) (take 0 m) = ok
     \<and> (audit_verify sample_env (replicate 32 (CHR ''k'')) m = ok \<longrightarrow>
          arec_sequence (m ! 0) = 1 \<and> arec_previousHash (m ! 0) = None)"
proof -
  let ?key = "replicate 32 (CHR ''k'')"
  let ?m = "audit_log sample_env ?key [sample_event]"
  obtain h where "hmacSha256 sample_env ?key t = Inr (h t)" for t
    by (simp add: hmacSha256_def sample_env_def int_max_def)
  then obtain r where m: "?m = [r]" "arec_previousHash r = None"
    by (simp add: audit_append_def computeAuditRecordHash_def Let_def)
  have "inj_on (hmacSha256 sample_env ?key) (record_text ` (set ?m \<union> set ?m))"
    unfolding m(1) by simp
  from audit_tamper_evident [OF refl _ subset_refl this, of 0] show ?thesis
    unfolding m(1) by (auto simp: m(2))
qed

end
