(* ===== verification/Consent.thy ===== *)
theory Consent
  imports Client
begin

text \<open>
  User consent (\<^verbatim>\<open>src/src/consent\<close>): grants, the repository in which a new grant supersedes the
  active one for the same identity, client and audience, and the service.
\<close>

datatype ConsentIdTag = ConsentIdTag

type_synonym ConsentId = "ConsentIdTag StrongId"

section \<open>Grants\<close>

record ConsentGrant =
  consent_id :: ConsentId
  consent_identity :: IdentityId
  consent_client :: ClientId
  consent_audience :: string
  consent_scopes :: "string list"
  consent_grantedAt :: Instant
  consent_expiresAt :: "Instant option"
  consent_revokedAt :: "Instant option"

definition normalizeScopes :: "string list \<Rightarrow> string list Result" where
  "normalizeScopes scopes =
     (if scopes = [] \<or> length scopes > 256
      then fail_msg InvalidArgument ''A consent grant must contain scopes.''
      else case map_result Scope_create scopes of
             Inl e \<Rightarrow> Inl e
           | Inr _ \<Rightarrow> Inr (sort_unique scopes))"

definition Consent_restore ::
    "ConsentId \<Rightarrow> IdentityId \<Rightarrow> ClientId \<Rightarrow> string \<Rightarrow> string list \<Rightarrow> Instant \<Rightarrow> Instant option
     \<Rightarrow> Instant option \<Rightarrow> ConsentGrant Result" where
  "Consent_restore cid identity clientId audience scopes grantedAt expiresAt revokedAt =
     (let invalidExpiry = (case expiresAt of None \<Rightarrow> False | Some e \<Rightarrow> e \<le> grantedAt);
          invalidRevocation = (case revokedAt of None \<Rightarrow> False | Some r \<Rightarrow> r < grantedAt)
      in case normalizeScopes scopes of
           Inl _ \<Rightarrow> fail_msg InvalidArgument ''The consent grant is invalid.''
         | Inr normalized \<Rightarrow>
             if StrongId_empty cid \<or> StrongId_empty identity \<or> StrongId_empty clientId
                \<or> audience = [] \<or> length audience > 2048 \<or> invalidExpiry \<or> invalidRevocation
             then fail_msg InvalidArgument ''The consent grant is invalid.''
             else Inr \<lparr>consent_id = cid, consent_identity = identity, consent_client = clientId,
                       consent_audience = audience, consent_scopes = normalized,
                       consent_grantedAt = grantedAt, consent_expiresAt = expiresAt,
                       consent_revokedAt = revokedAt\<rparr>)"

definition Consent_create ::
    "ConsentId \<Rightarrow> IdentityId \<Rightarrow> ClientId \<Rightarrow> string \<Rightarrow> string list \<Rightarrow> Instant \<Rightarrow> Instant option
     \<Rightarrow> ConsentGrant Result" where
  "Consent_create cid identity clientId audience scopes grantedAt expiresAt =
     Consent_restore cid identity clientId audience scopes grantedAt expiresAt None"

definition Consent_activeAt :: "ConsentGrant \<Rightarrow> Instant \<Rightarrow> bool" where
  "Consent_activeAt g now =
     (consent_revokedAt g = None
      \<and> (case consent_expiresAt g of None \<Rightarrow> True | Some e \<Rightarrow> now < e))"

definition Consent_covers :: "ConsentGrant \<Rightarrow> string list \<Rightarrow> bool" where
  "Consent_covers g scopes = list_all (binary_search (consent_scopes g)) scopes"

definition Consent_revoke :: "Instant \<Rightarrow> ConsentGrant \<Rightarrow> ConsentGrant" where
  "Consent_revoke now g =
     (if consent_revokedAt g = None then g\<lparr>consent_revokedAt := Some now\<rparr> else g)"

section \<open>The repository\<close>

type_synonym ConsentRepository = "(ConsentId, ConsentGrant) omap"

definition consents_save :: "ConsentGrant \<Rightarrow> ConsentRepository \<Rightarrow> Status \<times> ConsentRepository" where
  "consents_save grant m =
     (let m' = omap_map_values (\<lambda>value.
            if consent_identity value = consent_identity grant \<and> consent_client value = consent_client grant
               \<and> consent_audience value = consent_audience grant
               \<and> Consent_activeAt value (consent_grantedAt grant)
            then Consent_revoke (consent_grantedAt grant) value else value) m
      in (ok, omap_insert_or_assign (consent_id grant) grant m'))"

definition consents_findActive ::
    "IdentityId \<Rightarrow> ClientId \<Rightarrow> string \<Rightarrow> Instant \<Rightarrow> ConsentRepository \<Rightarrow> ConsentGrant option Result" where
  "consents_findActive identity clientId audience now m =
     Inr (find (\<lambda>value. consent_identity value = identity \<and> consent_client value = clientId
                   \<and> consent_audience value = audience \<and> Consent_activeAt value now) (map snd m))"

definition consents_list :: "IdentityId \<Rightarrow> ConsentRepository \<Rightarrow> ConsentGrant list Result" where
  "consents_list identity m = Inr (filter (\<lambda>value. consent_identity value = identity) (map snd m))"

definition consents_revoke ::
    "ConsentId \<Rightarrow> IdentityId \<Rightarrow> Instant \<Rightarrow> ConsentRepository \<Rightarrow> Status \<times> ConsentRepository" where
  "consents_revoke cid identity now m =
     (case map_of m cid of
        None \<Rightarrow> (fail_code NotFound, m)
      | Some found \<Rightarrow>
          if consent_identity found \<noteq> identity then (fail_code PermissionDenied, m)
          else (ok, omap_modify cid (Consent_revoke now) m))"

section \<open>The service\<close>

definition consent_covers ::
    "env \<Rightarrow> IdentityId \<Rightarrow> ClientId \<Rightarrow> string \<Rightarrow> string list \<Rightarrow> ConsentRepository \<Rightarrow> bool Result" where
  "consent_covers E identity clientId audience scopes m =
     (case consents_findActive identity clientId audience (env_now E 0) m of
        Inl e \<Rightarrow> Inl e
      | Inr found \<Rightarrow> Inr (case found of None \<Rightarrow> False | Some g \<Rightarrow> Consent_covers g scopes))"

definition consent_grant ::
    "env \<Rightarrow> IdentityId \<Rightarrow> ClientId \<Rightarrow> string \<Rightarrow> string list \<Rightarrow> Duration option \<Rightarrow> ConsentRepository
     \<Rightarrow> ConsentGrant Result \<times> ConsentRepository" where
  "consent_grant E identity clientId audience scopes lifetime m =
     (if (case lifetime of None \<Rightarrow> False | Some l \<Rightarrow> l \<le> 0) then (fail_code InvalidArgument, m)
      else case randomTokenBase64Url E 0 18 of
        Inl e \<Rightarrow> (Inl e, m)
      | Inr random \<Rightarrow>
          let now = env_now E 0;
              expiresAt = map_option (\<lambda>l. now + l) lifetime
          in case Consent_create (StrongId (''opcns_'' @ random)) identity clientId audience scopes now expiresAt of
               Inl e \<Rightarrow> (Inl e, m)
             | Inr grant \<Rightarrow>
                 (case consents_save grant m of
                    (Inl e, m') \<Rightarrow> (Inl e, m')
                  | (Inr _, m') \<Rightarrow> (Inr grant, m')))"

definition consent_list :: "IdentityId \<Rightarrow> ConsentRepository \<Rightarrow> ConsentGrant list Result" where
  "consent_list identity m = consents_list identity m"

definition consent_active :: "env \<Rightarrow> ConsentGrant \<Rightarrow> bool" where
  "consent_active E grant = Consent_activeAt grant (env_now E 0)"

definition consent_revoke :: "env \<Rightarrow> ConsentId \<Rightarrow> IdentityId \<Rightarrow> ConsentRepository \<Rightarrow> Status \<times> ConsentRepository" where
  "consent_revoke E cid identity m = consents_revoke cid identity (env_now E 0) m"

section \<open>The latest grant decides\<close>

datatype consent_call = Save ConsentGrant | RevokeConsent ConsentId IdentityId Instant

fun consent_step :: "consent_call \<Rightarrow> ConsentRepository \<Rightarrow> Status \<times> ConsentRepository" where
  "consent_step (Save g) = consents_save g"
| "consent_step (RevokeConsent cid identity now) = consents_revoke cid identity now"

fun call_time :: "consent_call \<Rightarrow> Instant" where
  "call_time (Save g) = consent_grantedAt g"
| "call_time (RevokeConsent _ _ now) = now"

definition saved_ids :: "consent_call list \<Rightarrow> ConsentId list" where
  "saved_ids cs = concat (map (\<lambda>c. case c of Save g \<Rightarrow> [consent_id g] | _ \<Rightarrow> []) cs)"

text \<open>
  The specification remembers one grant for each identity, client and audience: the last one, until
  its owner revokes it.
\<close>

type_synonym consent_key = "IdentityId \<times> ClientId \<times> string"

definition consent_key :: "ConsentGrant \<Rightarrow> consent_key" where
  "consent_key g = (consent_identity g, consent_client g, consent_audience g)"

fun decision_step :: "consent_call \<Rightarrow> (consent_key \<rightharpoonup> ConsentGrant) \<Rightarrow> (consent_key \<rightharpoonup> ConsentGrant)" where
  "decision_step (Save g) S = S(consent_key g \<mapsto> g)"
| "decision_step (RevokeConsent cid identity _) S =
     (\<lambda>k. case S k of None \<Rightarrow> None
          | Some g \<Rightarrow> if consent_id g = cid \<and> consent_identity g = identity then None else Some g)"

definition decisions :: "consent_call list \<Rightarrow> consent_key \<rightharpoonup> ConsentGrant" where
  "decisions cs = fold decision_step cs Map.empty"

text \<open>Grants that come from the constructor.\<close>

definition created :: "ConsentGrant \<Rightarrow> bool" where
  "created g \<longleftrightarrow> (\<exists>cid i c a scopes t e. Consent_create cid i c a scopes t e = Inr g)"

lemma normalizeScopes_sorted: "normalizeScopes scopes = Inr ns \<Longrightarrow> sorted ns"
  by (cases "map_result Scope_create scopes")
    (auto simp: normalizeScopes_def strict_sorted_imp_sorted sort_unique_sorted split: if_splits)

lemma created_grant:
  assumes "created g"
  shows "consent_revokedAt g = None" "sorted (consent_scopes g)"
proof -
  obtain cid i c a scopes t e where "Consent_create cid i c a scopes t e = Inr g"
    using assms by (auto simp: created_def)
  then show "consent_revokedAt g = None" "sorted (consent_scopes g)"
    by (cases "normalizeScopes scopes";
        auto simp: Consent_create_def Consent_restore_def Let_def dest: normalizeScopes_sorted split: if_splits)+
qed

lemma Consent_revoke_keeps [simp]:
  "consent_id (Consent_revoke t g) = consent_id g" "consent_key (Consent_revoke t g) = consent_key g"
  "\<not> Consent_activeAt (Consent_revoke t g) t'"
  by (auto simp: Consent_revoke_def consent_key_def Consent_activeAt_def)

lemma inactive_later: "\<not> Consent_activeAt g t \<Longrightarrow> t \<le> t' \<Longrightarrow> \<not> Consent_activeAt g t'"
  by (auto simp: Consent_activeAt_def split: option.splits)

text \<open>
  Up to time \<open>T\<close>: every grant the specification holds is stored as it is, and every other stored
  grant is dead from \<open>T\<close> on.
\<close>

definition consent_rel :: "Instant \<Rightarrow> ConsentRepository \<Rightarrow> (consent_key \<rightharpoonup> ConsentGrant) \<Rightarrow> bool" where
  "consent_rel T m S \<longleftrightarrow> omap_ok m \<and> (\<forall>cid g. map_of m cid = Some g \<longrightarrow> consent_id g = cid)
     \<and> (\<forall>k g. S k = Some g \<longrightarrow> consent_key g = k \<and> map_of m (consent_id g) = Some g)
     \<and> (\<forall>cid g. map_of m cid = Some g \<longrightarrow> S (consent_key g) \<noteq> Some g
          \<longrightarrow> (\<forall>t \<ge> T. \<not> Consent_activeAt g t))"

lemma consent_relD:
  assumes "consent_rel T m S"
  shows "omap_ok m" "map_of m cid = Some g \<Longrightarrow> consent_id g = cid"
    and "S k = Some g \<Longrightarrow> consent_key g = k" "S k = Some g \<Longrightarrow> map_of m (consent_id g) = Some g"
    and "map_of m cid = Some g \<Longrightarrow> S (consent_key g) \<noteq> Some g \<Longrightarrow> T \<le> t \<Longrightarrow> \<not> Consent_activeAt g t"
  using assms unfolding consent_rel_def by blast+

lemma consent_rel_later: "consent_rel T m S \<Longrightarrow> T \<le> T' \<Longrightarrow> consent_rel T' m S"
  unfolding consent_rel_def using order_trans [of T T'] by blast

lemma consents_save_map:
  assumes "omap_ok m"
  shows "map_of (snd (consents_save g m)) = (\<lambda>cid. if cid = consent_id g then Some g
     else map_option (\<lambda>v. if consent_key v = consent_key g \<and> Consent_activeAt v (consent_grantedAt g)
                          then Consent_revoke (consent_grantedAt g) v else v) (map_of m cid))"
    and "omap_ok (snd (consents_save g m))"
  using assms
  by (auto simp: consents_save_def Let_def map_of_insert_or_assign map_of_map_values consent_key_def
      fun_eq_iff)

lemma consent_rel_save:
  assumes "consent_rel T m S" "T \<le> consent_grantedAt g" "map_of m (consent_id g) = None"
  shows "consent_rel (consent_grantedAt g) (snd (consents_save g m)) (S(consent_key g \<mapsto> g))"
  unfolding consent_rel_def
proof (intro conjI allI impI)
  note rel = consent_relD [OF assms(1)] and saved = consents_save_map [OF consent_relD(1) [OF assms(1)], of g]
  show "omap_ok (snd (consents_save g m))" by (rule saved(2))
  {
    fix cid v assume "map_of (snd (consents_save g m)) cid = Some v"
    then show "consent_id v = cid"
      using rel(2) by (auto simp: saved(1) split: if_splits)
  next
    fix k v assume v: "(S(consent_key g \<mapsto> g)) k = Some v"
    show "consent_key v = k"
      using v rel(3) by (auto split: if_splits)
    show "map_of (snd (consents_save g m)) (consent_id v) = Some v"
      using v rel(3,4) [of k v] assms(3) by (auto simp: saved(1) split: if_splits)
  next
    fix cid v t
    assume v: "map_of (snd (consents_save g m)) cid = Some v"
      and other: "(S(consent_key g \<mapsto> g)) (consent_key v) \<noteq> Some v" and t: "consent_grantedAt g \<le> t"
    show "\<not> Consent_activeAt v t"
    proof (cases "cid = consent_id g")
      case False
      then obtain u where u: "map_of m cid = Some u" "v = (if consent_key u = consent_key g
          \<and> Consent_activeAt u (consent_grantedAt g) then Consent_revoke (consent_grantedAt g) u else u)"
        using v by (auto simp: saved(1))
      show ?thesis
        using u other t rel(5) [OF u(1), of t] assms(2) inactive_later [of u "consent_grantedAt g" t]
        by (auto split: if_splits)
    qed (use v other in \<open>auto simp: saved(1)\<close>)
  }
qed

lemma consent_rel_revoke:
  assumes "consent_rel T m S" "T \<le> now"
  shows "consent_rel now (snd (consents_revoke cid i now m)) (decision_step (RevokeConsent cid i now) S)"
proof (cases "\<exists>g. map_of m cid = Some g \<and> consent_identity g = i")
  case False
  have "decision_step (RevokeConsent cid i now) S k = S k" for k
    using False consent_relD(4) [OF assms(1), of k] by (cases "S k") auto
  then have "decision_step (RevokeConsent cid i now) S = S" ..
  moreover have "snd (consents_revoke cid i now m) = m"
    using False by (auto simp: consents_revoke_def split: option.split)
  ultimately show ?thesis
    using consent_rel_later [OF assms] by simp
next
  case True
  then obtain g where g: "map_of m cid = Some g" "consent_identity g = i" by blast
  note rel = consent_relD [OF assms(1)]
  have m: "snd (consents_revoke cid i now m) = omap_modify cid (Consent_revoke now) m"
    using g by (simp add: consents_revoke_def)
  have S: "decision_step (RevokeConsent cid i now) S k = Some v \<longleftrightarrow> S k = Some v \<and> consent_id v \<noteq> cid" for k v
    using rel(4) [of k] g by (auto split: option.splits)
  show ?thesis
    unfolding consent_rel_def m S
  proof (intro conjI allI impI)
    show "omap_ok (omap_modify cid (Consent_revoke now) m)" using rel(1) by simp
  next
    fix c v assume "map_of (omap_modify cid (Consent_revoke now) m) c = Some v"
    then show "consent_id v = c" using rel(2) by (auto simp: map_of_modify split: if_splits)
  next
    fix k v assume "S k = Some v \<and> consent_id v \<noteq> cid"
    then show "consent_key v = k" "map_of (omap_modify cid (Consent_revoke now) m) (consent_id v) = Some v"
      using rel(3,4) [of k v] by (simp_all add: map_of_modify)
  next
    fix c v t
    assume v: "map_of (omap_modify cid (Consent_revoke now) m) c = Some v"
      and other: "\<not> (S (consent_key v) = Some v \<and> consent_id v \<noteq> cid)" and t: "now \<le> t"
    show "\<not> Consent_activeAt v t"
    proof (cases "c = cid")
      case True
      then show ?thesis using v g by (auto simp: map_of_modify)
    next
      case False
      then have "map_of m c = Some v" using v by (simp add: map_of_modify)
      moreover from this have "S (consent_key v) \<noteq> Some v" using other rel(2) False by auto
      ultimately show ?thesis using rel(5) assms(2) t order_trans by blast
    qed
  qed
qed

lemma saved_ids_dom:
  "fst ` set (final_state consent_step cs m) \<subseteq> fst ` set m \<union> set (saved_ids cs)"
proof (induction cs arbitrary: m)
  case (Cons c cs)
  have "fst ` set (snd (consent_step c m)) \<subseteq> fst ` set m \<union> set (saved_ids [c])"
    by (cases c) (auto simp: consents_save_def consents_revoke_def saved_ids_def Let_def
        omap_insert_or_assign_def omap_map_values_def keys_emplace image_image case_prod_unfold
        split: option.splits)
  moreover have "saved_ids (c # cs) = saved_ids [c] @ saved_ids cs"
    by (simp add: saved_ids_def)
  ultimately show ?case
    using Cons.IH [of "snd (consent_step c m)"] by (simp only: final_state_Cons set_append) blast
qed simp

lemma saved_ids_snoc: "saved_ids (cs @ [c]) = saved_ids cs @ saved_ids [c]"
  by (simp add: saved_ids_def)

lemma consent_run_rel:
  assumes "sorted (map call_time cs)" "distinct (saved_ids cs)" "\<forall>c \<in> set cs. call_time c \<le> T"
  shows "consent_rel T (final_state consent_step cs []) (decisions cs)"
  using assms
proof (induction cs arbitrary: T rule: rev_induct)
  case Nil
  show ?case by (simp add: consent_rel_def decisions_def)
next
  case (snoc c cs)
  let ?m = "final_state consent_step cs []"
  have "consent_rel (call_time c) ?m (decisions cs)"
    using snoc.prems by (intro snoc.IH) (simp_all add: sorted_append saved_ids_snoc)
  moreover have fresh: "map_of ?m (consent_id g) = None" if "c = Save g" for g
    using snoc.prems(2) that saved_ids_dom [of cs "[]"]
    by (auto simp: map_of_eq_None_iff saved_ids_snoc saved_ids_def)
  ultimately have "consent_rel (call_time c) (snd (consent_step c ?m)) (decision_step c (decisions cs))"
  proof (cases c)
    case (Save g)
    with \<open>consent_rel _ _ _\<close> fresh show ?thesis
      using consent_rel_save [of "call_time c" ?m "decisions cs" g] by simp
  next
    case (RevokeConsent cid i now)
    with \<open>consent_rel _ _ _\<close> show ?thesis
      using consent_rel_revoke [of now ?m "decisions cs" now cid i]
      by (simp del: decision_step.simps(2))
  qed
  from consent_rel_later [OF this, of T] show ?case
    using snoc.prems(3) by (simp add: decisions_def)
qed

lemma decisions_saved: "decisions cs k = Some g \<Longrightarrow> Save g \<in> set cs"
  unfolding decisions_def
proof (induction cs rule: rev_induct)
  case (snoc c cs)
  have "fold decision_step cs Map.empty k = Some g \<or> c = Save g"
    using snoc.prems by (cases c) (auto split: option.splits if_splits)
  then show ?case using snoc.IH by auto
qed simp

lemma findActive_decision:
  assumes "consent_rel now m S"
  shows "consents_findActive i c a now m =
    Inr (case S (i, c, a) of None \<Rightarrow> None | Some g \<Rightarrow> if Consent_activeAt g now then Some g else None)"
proof -
  note rel = consent_relD [OF assms]
  let ?P = "\<lambda>g. consent_identity g = i \<and> consent_client g = c \<and> consent_audience g = a \<and> Consent_activeAt g now"
  have P: "?P g \<longleftrightarrow> S (i, c, a) = Some g \<and> Consent_activeAt g now" if g: "g \<in> snd ` set m" for g
  proof -
    obtain cid where "map_of m cid = Some g"
      using g rel(1) by (auto simp flip: omap_entry)
    then show ?thesis
      using rel(5) [of cid g now] rel(3) [of "(i, c, a)" g] by (auto simp: consent_key_def)
  qed
  have stored: "g \<in> snd ` set m" if "S (i, c, a) = Some g" for g
    using rel(4) [OF that] map_of_SomeD by force
  show ?thesis
  proof (cases "find ?P (map snd m)")
    case None
    then have "\<not> (S (i, c, a) = Some g \<and> Consent_activeAt g now)" for g
      using P [of g] stored [of g] by (auto simp: find_None_iff)
    with None show ?thesis
      by (auto simp: consents_findActive_def split: option.split)
  next
    case (Some g)
    then have "?P g" "g \<in> snd ` set m"
      by (auto simp: find_Some_iff nth_mem intro: imageI)
    with Some P [of g] show ?thesis
      by (simp add: consents_findActive_def)
  qed
qed

text \<open>
  C25. Consent refines its specification: after any history of grants and revocations in clock order,
  each grant with an identifier of its own, the service answers that an identity's consent covers a
  request exactly when the last grant for that identity, client and audience has not been revoked by
  its owner, has not expired, and contains every requested scope. Earlier grants never add a scope,
  and nobody else's revocation counts.
\<close>

theorem consent_latest_grant_decides:
  assumes "sorted (map call_time cs)" "distinct (saved_ids cs)"
    and "\<forall>g. Save g \<in> set cs \<longrightarrow> created g" "\<forall>c \<in> set cs. call_time c \<le> env_now E 0"
  shows "consent_covers E i c a scopes (final_state consent_step cs []) =
    Inr (case decisions cs (i, c, a) of
           None \<Rightarrow> False
         | Some g \<Rightarrow> (case consent_expiresAt g of None \<Rightarrow> True | Some e \<Rightarrow> env_now E 0 < e)
                     \<and> set scopes \<subseteq> set (consent_scopes g))"
proof -
  have g: "consent_revokedAt g = None" "sorted (consent_scopes g)" if "decisions cs k = Some g" for k g
    using decisions_saved [OF that] assms(3) created_grant by blast+
  show ?thesis
    unfolding consent_covers_def findActive_decision [OF consent_run_rel [OF assms(1,2,4)]]
    using g by (auto simp: Consent_covers_def Consent_activeAt_def binary_search_sorted list_all_iff
        split: option.splits)
qed

theorem consent_latest_grant_decides_witness:
  "\<exists>g. Consent_create (StrongId ''c1'') (StrongId ''alice'') (StrongId ''app'') ''api'' [''openid''] 5 (Some 90) = Inr g
     \<and> consent_covers (sample_env\<lparr>env_now := \<lambda>_. 50\<rparr>) (StrongId ''alice'') (StrongId ''app'') ''api'' [''openid'']
         (final_state consent_step [Save g, RevokeConsent (StrongId ''c1'') (StrongId ''mallory'') 7] []) = Inr True
     \<and> consent_covers (sample_env\<lparr>env_now := \<lambda>_. 50\<rparr>) (StrongId ''alice'') (StrongId ''app'') ''api'' [''openid'']
         (final_state consent_step [Save g, RevokeConsent (StrongId ''c1'') (StrongId ''alice'') 7] []) = Inr False"
proof -
  let ?g = "\<lparr>consent_id = StrongId ''c1'', consent_identity = StrongId ''alice'', consent_client = StrongId ''app'',
     consent_audience = ''api'', consent_scopes = [''openid''], consent_grantedAt = 5,
     consent_expiresAt = Some 90, consent_revokedAt = None\<rparr>"
  let ?E = "sample_env\<lparr>env_now := \<lambda>_. 50\<rparr>"
  have g: "Consent_create (StrongId ''c1'') (StrongId ''alice'') (StrongId ''app'') ''api'' [''openid''] 5 (Some 90) = Inr ?g"
    by (simp add: Consent_create_def Consent_restore_def normalizeScopes_def sort_unique_def)
  then have "created ?g"
    unfolding created_def by blast
  then have decided: "consent_covers ?E (StrongId ''alice'') (StrongId ''app'') ''api'' [''openid'']
      (final_state consent_step [Save ?g, RevokeConsent (StrongId ''c1'') i 7] []) = Inr (i \<noteq> StrongId ''alice'')" for i
    by (subst consent_latest_grant_decides) (auto simp: saved_ids_def decisions_def consent_key_def)
  show ?thesis
    by (intro exI [of _ ?g] conjI g) (simp_all only: decided, simp_all)
qed

end
