(* ===== verification/Pushed.thy ===== *)
theory Pushed
  imports OAuth
begin

text \<open>
  Pushed authorization requests (\<^verbatim>\<open>src/src/oauth/par.cpp\<close>): the state kept for a
  \<^verbatim>\<open>request_uri\<close>, the store that hands it out once, and the service.
\<close>

type_synonym PushedRequestDigest = "byte list"

record PushedAuthorizationRequest =
  par_digest :: PushedRequestDigest
  par_request :: AuthorizationRequest
  par_issuedAt :: Instant
  par_expiresAt :: Instant

definition Pushed_restore ::
    "PushedRequestDigest \<Rightarrow> AuthorizationRequest \<Rightarrow> Instant \<Rightarrow> Instant \<Rightarrow> PushedAuthorizationRequest Result" where
  "Pushed_restore digest request issuedAt expiresAt =
     (if expiresAt \<le> issuedAt
      then fail_msg InvalidArgument ''PAR timestamps are invalid.''
      else Inr \<lparr>par_digest = digest, par_request = request, par_issuedAt = issuedAt,
                par_expiresAt = expiresAt\<rparr>)"

definition Pushed_create ::
    "PushedRequestDigest \<Rightarrow> AuthorizationRequest \<Rightarrow> Instant \<Rightarrow> Duration \<Rightarrow> PushedAuthorizationRequest Result" where
  "Pushed_create digest request issuedAt lifetime =
     (if lifetime \<le> 0
      then fail_msg InvalidArgument ''PAR lifetime must be positive.''
      else Pushed_restore digest request issuedAt (issuedAt + lifetime))"

definition Pushed_expiredAt :: "PushedAuthorizationRequest \<Rightarrow> Instant \<Rightarrow> bool" where
  "Pushed_expiredAt p now = (now \<ge> par_expiresAt p)"

section \<open>The store\<close>

type_synonym PushedStore = "(string, PushedAuthorizationRequest) omap"

definition pushed_add :: "PushedAuthorizationRequest \<Rightarrow> PushedStore \<Rightarrow> Status \<times> PushedStore" where
  "pushed_add request m =
     (let key = toHex (par_digest request)
      in if omap_contains m key then (fail_code AlreadyExists, m)
         else (ok, omap_emplace key request m))"

definition pushed_find :: "PushedRequestDigest \<Rightarrow> Instant \<Rightarrow> PushedStore \<Rightarrow> PushedAuthorizationRequest Result" where
  "pushed_find digest now m =
     (case map_of m (toHex digest) of
        None \<Rightarrow> fail_code NotFound
      | Some found \<Rightarrow> if Pushed_expiredAt found now then fail_code NotFound else Inr found)"

definition pushed_consume ::
    "PushedRequestDigest \<Rightarrow> ClientId \<Rightarrow> Instant \<Rightarrow> PushedStore \<Rightarrow> PushedAuthorizationRequest Result \<times> PushedStore" where
  "pushed_consume digest expectedClient now m =
     (case map_of m (toHex digest) of
        None \<Rightarrow> (fail_msg AuthenticationFailed ''The pushed authorization request is invalid.'', m)
      | Some found \<Rightarrow>
          if Pushed_expiredAt found now \<or> request_clientId (par_request found) \<noteq> expectedClient
          then (fail_msg AuthenticationFailed ''The pushed authorization request is invalid.'', m)
          else (Inr found, omap_erase (toHex digest) m))"

section \<open>The service\<close>

record PushedAuthorizationGrant =
  pushed_requestUri :: string
  pushed_expiresIn :: Duration

text \<open>The constructor aborts (\<open>None\<close>) on a lifetime that is not positive.\<close>

definition PushedAuthorizationService_new :: "Duration \<Rightarrow> Duration option" where
  "PushedAuthorizationService_new lifetime = (if lifetime > 0 then Some lifetime else None)"

definition par_digest_of :: "env \<Rightarrow> string \<Rightarrow> PushedRequestDigest Result" where
  "par_digest_of E requestUri = sha256 E requestUri"

definition par_push ::
    "env \<Rightarrow> Duration \<Rightarrow> AuthorizationRequest \<Rightarrow> PushedStore \<Rightarrow> PushedAuthorizationGrant Result \<times> PushedStore" where
  "par_push E lifetime request m =
     (case randomTokenBase64Url E 0 32 of
        Inl e \<Rightarrow> (Inl e, m)
      | Inr random \<Rightarrow>
     (let requestUri = ''urn:ietf:params:oauth:request_uri:opar_'' @ random
      in case par_digest_of E requestUri of
           Inl e \<Rightarrow> (Inl e, m)
         | Inr fingerprint \<Rightarrow>
        (case Pushed_create fingerprint request (env_now E 0) lifetime of
           Inl e \<Rightarrow> (Inl e, m)
         | Inr state \<Rightarrow>
        (case pushed_add state m of
           (Inl e, m') \<Rightarrow> (Inl e, m')
         | (Inr _, m') \<Rightarrow> (Inr \<lparr>pushed_requestUri = requestUri, pushed_expiresIn = lifetime\<rparr>, m')))))"

definition par_find :: "env \<Rightarrow> string \<Rightarrow> ClientId \<Rightarrow> PushedStore \<Rightarrow> AuthorizationRequest Result" where
  "par_find E requestUri expectedClient m =
     (case par_digest_of E requestUri of
        Inl e \<Rightarrow> Inl e
      | Inr fingerprint \<Rightarrow>
          (case pushed_find fingerprint (env_now E 0) m of
             Inl _ \<Rightarrow> fail_msg AuthenticationFailed ''The pushed authorization request is invalid.''
           | Inr found \<Rightarrow>
               if request_clientId (par_request found) \<noteq> expectedClient
               then fail_msg AuthenticationFailed ''The pushed authorization request is invalid.''
               else Inr (par_request found)))"

definition par_consume ::
    "env \<Rightarrow> string \<Rightarrow> ClientId \<Rightarrow> PushedStore \<Rightarrow> AuthorizationRequest Result \<times> PushedStore" where
  "par_consume E requestUri expectedClient m =
     (case par_digest_of E requestUri of
        Inl e \<Rightarrow> (Inl e, m)
      | Inr fingerprint \<Rightarrow>
          (case pushed_consume fingerprint expectedClient (env_now E 0) m of
             (Inl e, m') \<Rightarrow> (Inl e, m')
           | (Inr consumed, m') \<Rightarrow> (Inr (par_request consumed), m')))"

section \<open>Single use\<close>

datatype par_call =
    Push env Duration AuthorizationRequest
  | ConsumePushed env string ClientId

datatype par_reply = Pushed "PushedAuthorizationGrant Result" | Taken "AuthorizationRequest Result"

fun par_step :: "par_call \<Rightarrow> PushedStore \<Rightarrow> par_reply \<times> PushedStore" where
  "par_step (Push E lifetime request) m = (case par_push E lifetime request m of (r, m') \<Rightarrow> (Pushed r, m'))"
| "par_step (ConsumePushed E uri client) m = (case par_consume E uri client m of (r, m') \<Rightarrow> (Taken r, m'))"

definition par_stored :: "PushedStore \<Rightarrow> PushedRequestDigest \<Rightarrow> bool" where
  "par_stored m d = (map_of m (toHex d) \<noteq> None)"

fun par_redeems :: "PushedStore \<Rightarrow> par_call \<Rightarrow> PushedRequestDigest \<Rightarrow> bool" where
  "par_redeems m (ConsumePushed E uri client) d =
     (par_digest_of E uri = Inr d \<and> succeeded (fst (par_consume E uri client m)))"
| "par_redeems m _ d = False"

fun par_adds :: "PushedStore \<Rightarrow> par_call \<Rightarrow> PushedRequestDigest \<Rightarrow> bool" where
  "par_adds m (Push E lifetime request) d =
     (case par_push E lifetime request m of
        (Inr g, _) \<Rightarrow> par_digest_of E (pushed_requestUri g) = Inr d | _ \<Rightarrow> False)"
| "par_adds m _ d = False"

lemma par_push_cases:
  obtains e where "par_push E lifetime request m = (Inl e, m)"
  | g d where "par_push E lifetime request m =
        (Inr g, omap_emplace (toHex d) \<lparr>par_digest = d, par_request = request, par_issuedAt = env_now E 0,
                                        par_expiresAt = env_now E 0 + lifetime\<rparr> m)"
      "par_digest_of E (pushed_requestUri g) = Inr d" "map_of m (toHex d) = None" "0 < lifetime"
      "pushed_expiresIn g = lifetime"
proof (cases "randomTokenBase64Url E 0 32")
  case (Inr random)
  let ?uri = "''urn:ietf:params:oauth:request_uri:opar_'' @ random"
  show thesis
  proof (cases "par_digest_of E ?uri")
    case d: (Inr d)
    show thesis
    proof (cases "0 < lifetime \<and> \<not> omap_contains m (toHex d)")
      case True
      then show thesis
        by (intro that(2) [of "\<lparr>pushed_requestUri = ?uri, pushed_expiresIn = lifetime\<rparr>" d])
          (simp_all add: par_push_def Inr d Let_def Pushed_create_def Pushed_restore_def pushed_add_def
            omap_contains_def del: append_Cons append_Nil)
    next
      case False
      then show thesis
        by (cases "0 < lifetime"; intro that(1))
          (simp_all add: par_push_def Inr d Let_def Pushed_create_def Pushed_restore_def pushed_add_def
            fail_msg_def fail_code_def del: append_Cons append_Nil)
    qed
  qed (rule that(1), simp add: par_push_def Inr Let_def del: append_Cons append_Nil)
qed (rule that(1), simp add: par_push_def)

lemma par_consume_eq:
  assumes "par_digest_of E uri = Inr d"
  shows "par_consume E uri client m =
    (case map_of m (toHex d) of
       Some p \<Rightarrow> if env_now E 0 < par_expiresAt p \<and> client = request_clientId (par_request p)
                 then (Inr (par_request p), omap_erase (toHex d) m)
                 else (fail_msg AuthenticationFailed ''The pushed authorization request is invalid.'', m)
     | None \<Rightarrow> (fail_msg AuthenticationFailed ''The pushed authorization request is invalid.'', m))"
  by (auto simp: par_consume_def assms pushed_consume_def Pushed_expiredAt_def fail_msg_def split: option.split)

lemma par_consume_fails: "par_digest_of E uri = Inl e \<Longrightarrow> par_consume E uri client m = (Inl e, m)"
  by (simp add: par_consume_def)

interpretation par: single_use_store par_step omap_ok par_stored par_redeems par_adds
proof
  fix m :: PushedStore and c d
  assume ok: "omap_ok m"
  have push: "omap_ok (snd (par_push E l r m))" for E l r
    by (rule par_push_cases [of E l r m]) (use ok in \<open>simp_all add: omap_ok_emplace\<close>)
  show "omap_ok (snd (par_step c m))"
  proof (cases c)
    case (ConsumePushed E uri client)
    then show ?thesis
      using ok by (cases "par_digest_of E uri")
        (auto simp: par_consume_eq par_consume_fails omap_ok_erase case_prod_unfold split: option.split)
  qed (use push in \<open>simp add: case_prod_unfold\<close>)
  show "par_stored m d" if "par_redeems m c d"
    using that by (cases c) (auto simp: par_stored_def par_consume_eq split: option.splits)
  show "\<not> par_stored (snd (par_step c m)) d" if "par_redeems m c d"
    using that ok by (cases c)
      (auto simp: par_stored_def par_consume_eq map_of_erase case_prod_unfold split: option.splits if_splits)
  show "\<not> par_stored (snd (par_step c m)) d" if "\<not> par_stored m d" "\<not> par_adds m c d"
  proof (cases c)
    case (Push E lifetime request)
    with that ok show ?thesis
      by (cases rule: par_push_cases [of E lifetime request m])
        (auto simp: par_stored_def map_of_emplace toHex_inj)
  next
    case (ConsumePushed E uri client)
    with that ok show ?thesis
      by (cases "par_digest_of E uri")
        (auto simp: par_stored_def par_consume_eq par_consume_fails map_of_erase case_prod_unfold split: option.splits)
  qed
qed

lemma par_run_ok: "omap_ok (final_state par_step cs [])"
  using par.use_inv by (induction cs rule: rev_induct) simp_all

text \<open>
  A pushed request is bound and single use. In every reachable store, a successful push gives
  a \<^verbatim>\<open>request_uri\<close> that returns exactly the pushed request, before its deadline and to the
  client it was pushed for; any other attempt fails as an authentication failure and leaves the
  request in place; and once returned, the same \<^verbatim>\<open>request_uri\<close> never succeeds again, whatever
  happens, unless a later push draws an identifier with the same fingerprint.
\<close>

theorem pushed_request_single_use:
  assumes "par_push E lifetime request (final_state par_step cs []) = (Inr g, m)"
    and "env_SHA256 E' = env_SHA256 E" "par_digest_of E (pushed_requestUri g) = Inr d"
  shows "par_consume E' (pushed_requestUri g) client m =
      (if env_now E' 0 < env_now E 0 + lifetime \<and> client = request_clientId request
       then (Inr request, omap_erase (toHex d) m)
       else (fail_msg AuthenticationFailed ''The pushed authorization request is invalid.'', m))
    \<and> (additions par_step par_adds d later m = 0 \<longrightarrow> redemptions par_step par_redeems d later m \<le> 1)"
proof -
  note ok = par_run_ok [of cs]
  have d': "par_digest_of E' (pushed_requestUri g) = Inr d"
    using assms(2,3) by (simp add: par_digest_of_def sha256_def)
  have m: "m = omap_emplace (toHex d) \<lparr>par_digest = d, par_request = request,
      par_issuedAt = env_now E 0, par_expiresAt = env_now E 0 + lifetime\<rparr> (final_state par_step cs [])"
      "map_of (final_state par_step cs []) (toHex d) = None"
    using assms(1,3) by (cases rule: par_push_cases [of E lifetime request "final_state par_step cs []"]; simp)+
  then have "omap_ok m" using ok by (simp add: omap_ok_emplace)
  then show ?thesis
    using par_consume_eq [OF d', of client m] m ok par.redeemed_at_most_once [of m d later]
    by (simp add: map_of_emplace)
qed

theorem pushed_request_single_use_witness:
  "\<exists>g m d. par_push sample_env 60 sample_request (final_state par_step [] []) = (Inr g, m)
     \<and> par_consume sample_env (pushed_requestUri g) (request_clientId sample_request) m
         = (Inr sample_request, omap_erase (toHex d) m)
     \<and> fst (par_consume sample_env (pushed_requestUri g) (StrongId ''other'') m)
         = fail_msg AuthenticationFailed ''The pushed authorization request is invalid.''"
proof -
  have sha: "par_digest_of sample_env uri = Inr (replicate 32 3)" for uri
    by (simp add: par_digest_of_def sha256_def sample_env_def)
  have "\<exists>g m. par_push sample_env 60 sample_request (final_state par_step [] []) = (Inr g, m)"
    by (simp add: par_push_def sha Let_def Pushed_create_def Pushed_restore_def pushed_add_def
        omap_contains_def del: append_Cons append_Nil)
  then obtain g m where push: "par_push sample_env 60 sample_request (final_state par_step [] []) = (Inr g, m)"
    by blast
  note exact = pushed_request_single_use [OF push refl sha, of _ "[]"]
  have "request_clientId sample_request \<noteq> StrongId ''other''"
    by (simp add: sample_request_def)
  then have "par_consume sample_env (pushed_requestUri g) (request_clientId sample_request) m
         = (Inr sample_request, omap_erase (toHex (replicate 32 3)) m)"
      "par_consume sample_env (pushed_requestUri g) (StrongId ''other'') m
         = (fail_msg AuthenticationFailed ''The pushed authorization request is invalid.'', m)"
    by (simp_all add: exact)
  with push show ?thesis by auto
qed

end
