(* ===== verification/Service_Identity.thy ===== *)
theory Service_Identity
  imports Resource Identity_Core
begin

text \<open>
  Service identities as subjects (\<^verbatim>\<open>ServiceIdentityService\<close> of
  \<^verbatim>\<open>src/src/resource/service.cpp\<close>): provisioning a canonical identity for a service client,
  and the check every machine grant goes through. The service works on two repositories, so its
  operations return both.
\<close>

fun audiences_refused :: "string list \<Rightarrow> string list \<Rightarrow> ResourceRepository \<Rightarrow> Error option" where
  "audiences_refused [] scopes r = None"
| "audiences_refused (audience # audiences) scopes r =
     (let refusal = Error_with_message PermissionDenied ''The service grant exceeds the resource registration.''
      in case resources_findByAudience audience r of
           Inl e \<Rightarrow> Some e
         | Inr None \<Rightarrow> Some refusal
         | Inr (Some resource) \<Rightarrow>
             if \<not> ResourceServer_active resource \<or> \<not> ResourceServer_permitsScopes resource scopes
             then Some refusal
             else audiences_refused audiences scopes r)"

definition provision ::
    "env \<Rightarrow> OrganizationId \<Rightarrow> ApplicationRepository \<Rightarrow> ClientRepository \<Rightarrow> ClientId \<Rightarrow> string list
     \<Rightarrow> string list \<Rightarrow> IdentityRepository \<times> ResourceRepository
     \<Rightarrow> ServiceIdentity Result \<times> IdentityRepository \<times> ResourceRepository" where
  "provision E organization apps clients clientId audiences scopes = (\<lambda>(ids, r).
     case requireActive apps clientId clients of
       Inl e \<Rightarrow> (Inl e, ids, r)
     | Inr registered \<Rightarrow>
     if client_kind registered \<noteq> ClientKind.Service
     then (fail_msg FailedPrecondition ''Only service clients can own service identities.'', ids, r)
     else case audiences_refused audiences scopes r of
       Some e \<Rightarrow> (Inl e, ids, r)
     | None \<Rightarrow>
     (case resources_serviceForClient clientId r of
       Inl e \<Rightarrow> (Inl e, ids, r)
     | Inr (Some _) \<Rightarrow> (fail_msg AlreadyExists ''The service client already has a canonical identity.'', ids, r)
     | Inr None \<Rightarrow>
     (case randomTokenBase64Url E 0 24 of
       Inl e \<Rightarrow> (Inl e, ids, r)
     | Inr random \<Rightarrow>
     (let identityId = StrongId (''opsi_'' @ random)
      in case Identity_create identityId SubjectKind.Service (env_now E 0) of
       Inl e \<Rightarrow> (Inl e, ids, r)
     | Inr identity \<Rightarrow>
     (case identities_add organization identity ids of
       (Inl e, ids') \<Rightarrow> (Inl e, ids', r)
     | (Inr _, ids') \<Rightarrow>
     (case ServiceIdentity_create identityId clientId audiences scopes (env_now E 1) of
       Inl e \<Rightarrow> (Inl e, snd (identities_changeStatus organization identityId Deleted ids'), r)
     | Inr service \<Rightarrow>
     (case resources_saveService service r of
       (Inl e, r') \<Rightarrow> (Inl e, snd (identities_changeStatus organization identityId Deleted ids'), r')
     | (Inr _, r') \<Rightarrow> (Inr service, ids', r'))))))))"

definition service_requireActive ::
    "OrganizationId \<Rightarrow> ApplicationRepository \<Rightarrow> ClientRepository \<Rightarrow> ClientId \<Rightarrow> string \<Rightarrow> string list
     \<Rightarrow> IdentityRepository \<times> ResourceRepository \<Rightarrow> ServiceIdentity Result" where
  "service_requireActive organization apps clients clientId audience scopes = (\<lambda>(ids, r).
     case requireActive apps clientId clients of
       Inl e \<Rightarrow> Inl e
     | Inr registered \<Rightarrow>
     if client_kind registered \<noteq> ClientKind.Service
     then fail_msg AuthenticationFailed ''Client authentication failed.''
     else case resources_serviceForClient clientId r of
       Inl e \<Rightarrow> Inl e
     | Inr service \<Rightarrow>
     (case service of
       None \<Rightarrow> fail_msg PermissionDenied ''The service identity does not permit the requested grant.''
     | Some service \<Rightarrow>
     if \<not> svc_active service \<or> \<not> ServiceIdentity_permitsAudience service audience
        \<or> \<not> ServiceIdentity_permitsScopes service scopes
     then fail_msg PermissionDenied ''The service identity does not permit the requested grant.''
     else case identities_findById organization (svc_identity service) ids of
       Inl e \<Rightarrow> Inl e
     | Inr None \<Rightarrow> fail_msg PermissionDenied ''The service identity is inactive.''
     | Inr (Some identity) \<Rightarrow>
         if \<not> canAuthenticate identity \<or> ident_kind identity \<noteq> SubjectKind.Service
         then fail_msg PermissionDenied ''The service identity is inactive.''
         else Inr service))"

definition service_find :: "ClientId \<Rightarrow> ResourceRepository \<Rightarrow> ServiceIdentity Result" where
  "service_find clientId r =
     (case resources_serviceForClient clientId r of
        Inl e \<Rightarrow> Inl e
      | Inr None \<Rightarrow> fail_code NotFound
      | Inr (Some s) \<Rightarrow> Inr s)"

definition service_setActive ::
    "env \<Rightarrow> ClientId \<Rightarrow> bool \<Rightarrow> ResourceRepository \<Rightarrow> ServiceIdentity Result \<times> ResourceRepository" where
  "service_setActive E clientId active r =
     (case service_find clientId r of
        Inl e \<Rightarrow> (Inl e, r)
      | Inr found \<Rightarrow>
          (case (if active then ServiceIdentity_activate (env_now E 0) found
                 else ServiceIdentity_deactivate (env_now E 0) found) of
             (Inl e, _) \<Rightarrow> (Inl e, r)
           | (Inr _, service) \<Rightarrow>
               (case resources_saveService service r of
                  (Inl e, r') \<Rightarrow> (Inl e, r')
                | (Inr _, r') \<Rightarrow> (Inr service, r'))))"

section \<open>Provisioning\<close>

text \<open>What was added to the identities cannot authenticate.\<close>

definition only_dead_added :: "IdentityRepository \<Rightarrow> IdentityRepository \<Rightarrow> bool" where
  "only_dead_added ids ids' \<longleftrightarrow>
     (\<forall>i. map_of ids' i = map_of ids i
        \<or> map_of ids i = None \<and> (\<forall>p. map_of ids' i = Some p \<longrightarrow> \<not> canAuthenticate (owned_identity p)))"

lemma only_dead_added_refl [simp]: "only_dead_added ids ids"
  by (simp add: only_dead_added_def)

lemma add_then_delete [simp]:
  assumes "omap_ok ids" "\<not> omap_contains ids i" "ident_status x = IdentityStatus.Active"
  shows "only_dead_added ids (snd (identities_changeStatus organization i Deleted
    (omap_emplace i \<lparr>owned_organization = organization, owned_identity = x\<rparr> ids)))"
  using assms
  by (auto simp: identities_changeStatus_def Identity_changeStatus_def only_dead_added_def
      omap_contains_def om.find_emplace_new map_of_modify canAuthenticate_def)

lemma provision_failure:
  assumes "omap_ok ids" "provision E organization apps clients cid audiences scopes (ids, r) = (Inl e, ids', r')"
  shows "r' = r \<and> only_dead_added ids ids'"
  using assms
  by (auto simp: provision_def Identity_create_def Let_def resources_saveService_def identities_add_def
      simp del: append_Cons append_Nil split: sum.splits option.splits if_splits prod.splits)

lemma provision_success:
  assumes "provision E organization apps clients cid audiences scopes (ids, r) = (Inr s, ids', r')"
  obtains registered iid where "requireActive apps cid clients = Inr registered"
    "client_kind registered = ClientKind.Service" "audiences_refused audiences scopes r = None"
    "map_of (rr_services r) cid = None" "map_of ids iid = None"
    "ServiceIdentity_create iid cid audiences scopes (env_now E 1) = Inr s"
    "ids' = omap_emplace iid \<lparr>owned_organization = organization,
        owned_identity = \<lparr>ident_id = iid, ident_kind = SubjectKind.Service,
          ident_status = IdentityStatus.Active, ident_createdAt = env_now E 0\<rparr>\<rparr> ids"
    "r' = snd (resources_saveService s r)"
proof -
  from assms obtain random registered where
      "requireActive apps cid clients = Inr registered" "client_kind registered = ClientKind.Service"
      "audiences_refused audiences scopes r = None" "map_of (rr_services r) cid = None"
      "map_of ids (StrongId (''opsi_'' @ random)) = None"
      "ServiceIdentity_create (StrongId (''opsi_'' @ random)) cid audiences scopes (env_now E 1) = Inr s"
      "ids' = omap_emplace (StrongId (''opsi_'' @ random)) \<lparr>owned_organization = organization,
        owned_identity = \<lparr>ident_id = StrongId (''opsi_'' @ random), ident_kind = SubjectKind.Service,
          ident_status = IdentityStatus.Active, ident_createdAt = env_now E 0\<rparr>\<rparr> ids"
      "r' = snd (resources_saveService s r)"
    by (auto simp: provision_def Identity_create_def Let_def identities_add_def omap_contains_def
        resources_serviceForClient_def
        simp del: append_Cons append_Nil split: sum.splits option.splits if_splits prod.splits)
  then show thesis by (rule that)
qed

lemma audiences_refused_None:
  "audiences_refused audiences scopes r = None \<longleftrightarrow>
     (\<forall>a \<in> set audiences. \<exists>res. map_of (rr_resources r) a = Some res \<and> ResourceServer_active res
        \<and> ResourceServer_permitsScopes res scopes)"
  by (induction audiences) (auto simp: resources_findByAudience_def Let_def split: option.split)

text \<open>
  Provisioning a service identity is all or nothing, and its grant is enforced exactly. A failed
  attempt leaves the services untouched and adds no identity that could authenticate. A successful
  one grants only audiences that are registered and active and scopes that each of them declares,
  under a fresh service identity, and afterwards the check of a machine grant returns that service
  for an audience and scopes exactly when the audience was granted and so was every scope.
\<close>

theorem service_provision_exact:
  assumes "omap_ok ids" "omap_ok (rr_services r)"
    and "provision E organization apps clients cid audiences scopes (ids, r) = (result, ids', r')"
  shows "case result of
      Inl e \<Rightarrow> r' = r \<and> only_dead_added ids ids'
    | Inr s \<Rightarrow> map_of ids (svc_identity s) = None \<and> svc_client s = cid
        \<and> (\<forall>a \<in> set audiences. \<exists>res. map_of (rr_resources r) a = Some res \<and> ResourceServer_active res
             \<and> ResourceServer_permitsScopes res scopes)
        \<and> (\<forall>a vs. service_requireActive organization apps clients cid a vs (ids', r') = Inr s
             \<longleftrightarrow> a \<in> set audiences \<and> set vs \<subseteq> set scopes)"
proof (cases result)
  case (Inl e)
  then show ?thesis using provision_failure assms by simp
next
  case (Inr s)
  from assms(3) [unfolded Inr] obtain registered iid where success:
      "requireActive apps cid clients = Inr registered"
      "client_kind registered = ClientKind.Service" "audiences_refused audiences scopes r = None"
      "map_of (rr_services r) cid = None" "map_of ids iid = None"
    and s: "ServiceIdentity_create iid cid audiences scopes (env_now E 1) = Inr s"
    and ids': "ids' = omap_emplace iid \<lparr>owned_organization = organization,
        owned_identity = \<lparr>ident_id = iid, ident_kind = SubjectKind.Service,
          ident_status = IdentityStatus.Active, ident_createdAt = env_now E 0\<rparr>\<rparr> ids"
    and r': "r' = snd (resources_saveService s r)"
    by (rule provision_success)
  have fields: "svc_identity s = iid" "svc_client s = cid" "svc_active s"
    using s by (auto simp: ServiceIdentity_create_def ServiceIdentity_restore_def split: sum.splits if_splits)
  have stored: "resources_serviceForClient cid r' = Inr (Some s)"
    using assms(2) by (simp add: r' resources_saveService_def resources_serviceForClient_def fields
        map_of_insert_or_assign)
  have found: "identities_findById organization iid ids' = Inr (Some \<lparr>ident_id = iid,
      ident_kind = SubjectKind.Service, ident_status = IdentityStatus.Active, ident_createdAt = env_now E 0\<rparr>)"
    using assms(1) success(5) by (simp add: ids' identities_findById_def om.find_emplace_new)
  have "service_requireActive organization apps clients cid a vs (ids', r') = Inr s
      \<longleftrightarrow> a \<in> set audiences \<and> set vs \<subseteq> set scopes" for a vs
    using ServiceIdentity_permits [OF s [unfolded ServiceIdentity_create_def]]
    by (simp add: service_requireActive_def success stored fields found canAuthenticate_def)
  then show ?thesis
    using success fields by (simp add: Inr audiences_refused_None)
qed

theorem service_provision_exact_witness:
  "\<exists>s ids' r'. provision sample_env (StrongId ''acme'') sample_apps
       [(StrongId ''svc'', sample_client\<lparr>client_id := StrongId ''svc'', client_kind := ClientKind.Service\<rparr>)]
       (StrongId ''svc'') [''api''] [''openid'']
       ([], \<lparr>rr_resources = [(''api'', \<lparr>res_id = StrongId ''r'', res_audience = ''api'', res_displayName = ''API'',
           res_scopes = [''openid''], res_status = ResourceStatus.Active, res_createdAt = 0, res_updatedAt = 0\<rparr>)],
         rr_services = []\<rparr>) = (Inr s, ids', r')
     \<and> service_requireActive (StrongId ''acme'') sample_apps
         [(StrongId ''svc'', sample_client\<lparr>client_id := StrongId ''svc'', client_kind := ClientKind.Service\<rparr>)]
         (StrongId ''svc'') ''api'' [''openid''] (ids', r') = Inr s"
proof -
  let ?clients = "[(StrongId ''svc'', sample_client\<lparr>client_id := StrongId ''svc'', client_kind := ClientKind.Service\<rparr>)]"
  let ?api = "\<lparr>res_id = StrongId ''r'', res_audience = ''api'', res_displayName = ''API'',
     res_scopes = [''openid''], res_status = ResourceStatus.Active, res_createdAt = 0, res_updatedAt = 0\<rparr>"
  let ?r = "\<lparr>rr_resources = [(''api'', ?api)], rr_services = []\<rparr>"
  have "requireActive sample_apps (StrongId ''svc'') ?clients
      = Inr (sample_client\<lparr>client_id := StrongId ''svc'', client_kind := ClientKind.Service\<rparr>)"
    by (simp add: requireActive_def clients_findById_def applications_findById_def sample_apps_def
        Client_permitsAuthorization_def clientPermitsAuthorization_def sample_client_def
        Application_permitsAuthorization_def applicationPermitsAuthorization_def)
  moreover have "audiences_refused [''api''] [''openid''] ?r = None"
    unfolding audiences_refused_None
    by (simp add: ResourceServer_active_def ResourceServer_permitsScopes_def
        ResourceServer_permitsScope_def binary_search_sorted)
  ultimately obtain s ids' r' where p: "provision sample_env (StrongId ''acme'') sample_apps ?clients
      (StrongId ''svc'') [''api''] [''openid''] ([], ?r) = (Inr s, ids', r')"
    by (simp add: provision_def resources_serviceForClient_def Identity_create_def Let_def identities_add_def
        omap_contains_def ServiceIdentity_create_def ServiceIdentity_restore_def normalizedAudiences_def
        normalizedScopes_def validAudience_def resources_saveService_def del: append_Cons append_Nil)
  show ?thesis
    using p service_provision_exact [OF _ _ p] by auto
qed

end
