(* ===== verification/Http_Message.thy ===== *)
theory Http_Message
  imports Decimal Provider
begin

text \<open>
  The messages the gateway works on (\<^verbatim>\<open>src/src/gateway/gateway.cpp\<close>): methods, requests with
  normalised headers, responses, the headers that never cross the gateway, and the extraction of
  the session credential.
\<close>

section \<open>Characters and strings\<close>

definition isHeaderName :: "string \<Rightarrow> bool" where
  "isHeaderName name =
     (if name = [] then False
      else list_all (\<lambda>c. is_lower_char c \<or> is_upper_char c \<or> is_digit_char c
                         \<or> c \<in> set ''!#$%&'*+-.^_`|~'') name)"

definition hasControl :: "string \<Rightarrow> bool" where
  "hasControl value =
     list_ex (\<lambda>c. of_char c = (0x7F :: nat) \<or> (of_char c < (0x20 :: nat) \<and> c \<noteq> CHR 0x09)) value"

definition invalidTargetCharacter :: "string \<Rightarrow> bool" where
  "invalidTargetCharacter value =
     list_ex (\<lambda>c. of_char c \<le> (0x20 :: nat) \<or> of_char c = (0x7F :: nat)) value"

definition isAmbiguousSingleton :: "string \<Rightarrow> bool" where
  "isAmbiguousSingleton name =
     (name = ''authorization'' \<or> name = ''host'' \<or> name = ''content-length'' \<or> name = ''transfer-encoding'')"

text \<open>A piece without surrounding blanks.\<close>

definition blank :: "char \<Rightarrow> bool" where
  "blank c = (c = CHR '' '' \<or> c = CHR 0x09)"

definition trim :: "string \<Rightarrow> string" where
  "trim item = rev (dropWhile blank (rev (dropWhile blank item)))"

section \<open>Requests\<close>

datatype HttpMethod = Get | Head | Post | Put | Patch | Delete | Options

fun httpMethodName :: "HttpMethod \<Rightarrow> string" where
  "httpMethodName Get = ''GET''" | "httpMethodName Head = ''HEAD''" | "httpMethodName Post = ''POST''"
| "httpMethodName Put = ''PUT''" | "httpMethodName Patch = ''PATCH''"
| "httpMethodName Delete = ''DELETE''" | "httpMethodName Options = ''OPTIONS''"

definition parseHttpMethod :: "string \<Rightarrow> HttpMethod Result" where
  "parseHttpMethod m =
     (if m = ''GET'' then Inr Get else if m = ''HEAD'' then Inr Head
      else if m = ''POST'' then Inr Post else if m = ''PUT'' then Inr Put
      else if m = ''PATCH'' then Inr Patch else if m = ''DELETE'' then Inr Delete
      else if m = ''OPTIONS'' then Inr Options
      else fail_msg InvalidArgument ''The HTTP method is not supported.'')"

type_synonym Headers = "(string, string) omap"

record HttpRequest =
  req_method :: HttpMethod
  req_target :: string
  req_path :: string
  req_headers :: Headers
  req_body :: string
  req_remoteAddress :: string
  req_correlation :: CorrelationId

fun normalize_headers :: "(string \<times> string) list \<Rightarrow> Headers \<Rightarrow> Headers Result" where
  "normalize_headers [] normalized = Inr normalized"
| "normalize_headers ((rawName, value) # headers) normalized =
     (if length rawName > 256 \<or> length value > 16384 \<or> \<not> isHeaderName rawName \<or> hasControl value
      then fail_msg InvalidArgument ''The HTTP request contains an invalid header.''
      else let name = lowercase rawName
           in if omap_contains normalized name \<and> isAmbiguousSingleton name
              then fail_msg InvalidArgument ''The HTTP request contains an ambiguous header.''
              else normalize_headers headers
                (if omap_contains normalized name
                 then omap_modify name (\<lambda>v. v @ (if name = ''cookie'' then ''; '' else '','') @ value) normalized
                 else omap_emplace name value normalized))"

definition HttpRequest_create ::
    "HttpMethod \<Rightarrow> string \<Rightarrow> (string \<times> string) list \<Rightarrow> string \<Rightarrow> string \<Rightarrow> CorrelationId \<Rightarrow> HttpRequest Result" where
  "HttpRequest_create method target headers body remoteAddress correlation =
     (if target = [] \<or> length target > 8192 \<or> hd target \<noteq> CHR ''/'' \<or> starts_with target ''//''
         \<or> CHR ''#'' \<in> set target \<or> invalidTargetCharacter target \<or> remoteAddress = []
         \<or> length remoteAddress > 256 \<or> hasControl remoteAddress \<or> StrongId_empty correlation
         \<or> length headers > 256
      then fail_msg InvalidArgument ''The HTTP request target is invalid.''
      else let path = takeWhile (\<lambda>c. c \<noteq> CHR ''?'') target
           in if path = [] then fail_msg InvalidArgument ''The HTTP request path is invalid.''
              else case normalize_headers headers [] of
                     Inl e \<Rightarrow> Inl e
                   | Inr normalized \<Rightarrow>
                       if omap_contains normalized ''content-length'' \<and> omap_contains normalized ''transfer-encoding''
                       then fail_msg InvalidArgument ''The HTTP request framing is ambiguous.''
                       else Inr \<lparr>req_method = method, req_target = target, req_path = path,
                                 req_headers = normalized, req_body = body,
                                 req_remoteAddress = remoteAddress, req_correlation = correlation\<rparr>)"

definition req_header :: "HttpRequest \<Rightarrow> string \<Rightarrow> string option" where
  "req_header r name = map_of (req_headers r) (lowercase name)"

definition req_setHeader :: "string \<Rightarrow> string \<Rightarrow> HttpRequest \<Rightarrow> HttpRequest" where
  "req_setHeader name value r = r\<lparr>req_headers := omap_insert_or_assign (lowercase name) value (req_headers r)\<rparr>"

definition req_eraseHeader :: "string \<Rightarrow> HttpRequest \<Rightarrow> HttpRequest" where
  "req_eraseHeader name r = r\<lparr>req_headers := omap_erase (lowercase name) (req_headers r)\<rparr>"

section \<open>Responses\<close>

record HttpResponse =
  resp_status :: int
  resp_headers :: Headers
  resp_repeatedHeaders :: "(string \<times> string) list"
  resp_body :: string

definition resp_addHeader :: "string \<Rightarrow> string \<Rightarrow> HttpResponse \<Rightarrow> HttpResponse" where
  "resp_addHeader rawName value r =
     (let name = lowercase rawName
      in if omap_contains (resp_headers r) name
         then r\<lparr>resp_repeatedHeaders := resp_repeatedHeaders r @ [(name, value)]\<rparr>
         else r\<lparr>resp_headers := omap_emplace name value (resp_headers r)\<rparr>)"

definition resp_setHeader :: "string \<Rightarrow> string \<Rightarrow> HttpResponse \<Rightarrow> HttpResponse" where
  "resp_setHeader rawName value r =
     (let name = lowercase rawName
      in r\<lparr>resp_repeatedHeaders := filter (\<lambda>h. fst h \<noteq> name) (resp_repeatedHeaders r),
           resp_headers := omap_insert_or_assign name value (resp_headers r)\<rparr>)"

definition resp_eraseHeader :: "string \<Rightarrow> HttpResponse \<Rightarrow> HttpResponse" where
  "resp_eraseHeader rawName r =
     (let name = lowercase rawName
      in r\<lparr>resp_headers := omap_erase name (resp_headers r),
           resp_repeatedHeaders := filter (\<lambda>h. fst h \<noteq> name) (resp_repeatedHeaders r)\<rparr>)"

section \<open>Headers that do not cross the gateway\<close>

definition hop_by_hop :: "string list" where
  "hop_by_hop = [''connection'', ''proxy-connection'', ''keep-alive'', ''transfer-encoding'', ''te'',
     ''trailer'', ''upgrade'']"

definition connectionHeaders :: "string option \<Rightarrow> string list" where
  "connectionHeaders connection =
     (case connection of
        None \<Rightarrow> []
      | Some value \<Rightarrow> map lowercase (filter (\<lambda>item. item \<noteq> []) (map trim (split_on (CHR '','') value))))"

definition stripHopByHop :: "HttpRequest \<Rightarrow> HttpRequest" where
  "stripHopByHop r =
     fold req_eraseHeader hop_by_hop (fold req_eraseHeader (connectionHeaders (req_header r ''connection'')) r)"

definition stripTrustedIdentityHeaders :: "HttpRequest \<Rightarrow> HttpRequest" where
  "stripTrustedIdentityHeaders r =
     fold req_eraseHeader (filter (\<lambda>name. starts_with name ''x-openproof-'') (map fst (req_headers r))) r"

definition secureResponse :: "HttpResponse \<Rightarrow> HttpResponse" where
  "secureResponse r =
     resp_setHeader ''cache-control'' ''no-store''
       (resp_setHeader ''referrer-policy'' ''no-referrer''
         (resp_setHeader ''x-content-type-options'' ''nosniff'' (fold resp_eraseHeader hop_by_hop r)))"

section \<open>The session credential\<close>

definition session_cookie_char :: "char \<Rightarrow> bool" where
  "session_cookie_char c = (is_upper_char c \<or> is_lower_char c \<or> is_digit_char c \<or> c = CHR ''-'' \<or> c = CHR ''_'')"

text \<open>
  The pass over the cookie items: the items kept and the session token found so far; \<open>None\<close> is the
  early return on an invalid or repeated session cookie.
\<close>

fun scan_cookies :: "string list \<Rightarrow> string list \<Rightarrow> string option \<Rightarrow> (string list \<times> string option) option" where
  "scan_cookies [] retained cookieToken = Some (retained, cookieToken)"
| "scan_cookies (piece # pieces) retained cookieToken =
     (let item = trim piece;
          name = takeWhile (\<lambda>c. c \<noteq> CHR ''='') item
      in if name \<noteq> item \<and> name = ''__Host-openproof-session''
         then let value = drop (Suc (length name)) item;
                  valid = (value \<noteq> [] \<and> length value \<le> 128 \<and> list_all session_cookie_char value)
              in if \<not> valid \<or> cookieToken \<noteq> None then None
                 else scan_cookies pieces retained (Some value)
         else if item \<noteq> [] then scan_cookies pieces (retained @ [item]) cookieToken
         else scan_cookies pieces retained cookieToken)"

fun rebuild_cookie :: "string list \<Rightarrow> string" where
  "rebuild_cookie [] = []"
| "rebuild_cookie [item] = item"
| "rebuild_cookie (item # items) = item @ ''; '' @ rebuild_cookie items"

definition auth_required :: "'a Result" where
  "auth_required = fail_msg AuthenticationRequired ''Authentication is required.''"

text \<open>The bearer part: the token, if the header is there, and the request without it.\<close>

definition take_bearer :: "HttpRequest \<Rightarrow> string option Result \<times> HttpRequest" where
  "take_bearer r =
     (case req_header r ''authorization'' of
        None \<Rightarrow> (Inr None, r)
      | Some authorization \<Rightarrow>
          let prefix = (if starts_with authorization ''Bearer '' then ''Bearer ''
                        else if starts_with authorization ''DPoP '' then ''DPoP '' else []);
              rest = drop (length prefix) authorization
          in if prefix = [] \<or> length authorization \<le> length prefix \<or> CHR '' '' \<in> set rest \<or> CHR 0x09 \<in> set rest
             then (auth_required, req_eraseHeader ''authorization'' r)
             else (Inr (Some rest), req_eraseHeader ''authorization'' r))"

definition take_cookie :: "HttpRequest \<Rightarrow> string option Result \<times> HttpRequest" where
  "take_cookie r =
     (case req_header r ''cookie'' of
        None \<Rightarrow> (Inr None, r)
      | Some cookie \<Rightarrow>
          (case scan_cookies (split_on (CHR '';'') cookie) [] None of
             None \<Rightarrow> (auth_required, req_eraseHeader ''cookie'' r)
           | Some (retained, cookieToken) \<Rightarrow>
               (Inr cookieToken,
                if retained = [] then req_eraseHeader ''cookie'' r
                else req_setHeader ''cookie'' (rebuild_cookie retained) r)))"

definition takeSessionCredential :: "HttpRequest \<Rightarrow> string option Result \<times> HttpRequest" where
  "takeSessionCredential request =
     (case take_bearer request of
        (Inl e, r) \<Rightarrow> (Inl e, r)
      | (Inr bearer, r) \<Rightarrow>
          (case take_cookie r of
             (Inl e, r') \<Rightarrow> (Inl e, r')
           | (Inr cookieToken, r') \<Rightarrow>
               if bearer \<noteq> None \<and> cookieToken \<noteq> None then (auth_required, r')
               else (Inr (case bearer of Some t \<Rightarrow> Some t | None \<Rightarrow> cookieToken), r')))"

section \<open>Header lemmas\<close>

definition lower_keys :: "Headers \<Rightarrow> bool" where
  "lower_keys m \<longleftrightarrow> omap_ok m \<and> (\<forall>k v. map_of m k = Some v \<longrightarrow> lowercase k = k)"

definition headers_ok :: "HttpRequest \<Rightarrow> bool" where
  "headers_ok r = lower_keys (req_headers r)"

lemma headers_map:
  assumes "headers_ok r"
  shows "map_of (req_headers (req_setHeader n v r)) = (map_of (req_headers r))(lowercase n \<mapsto> v)"
    and "map_of (req_headers (req_eraseHeader n r)) = (map_of (req_headers r))(lowercase n := None)"
  using assms
  by (simp_all add: headers_ok_def lower_keys_def req_setHeader_def req_eraseHeader_def
      map_of_insert_or_assign map_of_erase)

lemma headers_ok_set [simp]: "headers_ok r \<Longrightarrow> headers_ok (req_setHeader n v r)"
  using headers_map(1) [of r n v]
  by (auto simp: headers_ok_def lower_keys_def req_setHeader_def split: if_splits)

lemma headers_ok_erase [simp]: "headers_ok r \<Longrightarrow> headers_ok (req_eraseHeader n r)"
  using headers_map(2) [of r n]
  by (auto simp: headers_ok_def lower_keys_def req_eraseHeader_def omap_ok_erase split: if_splits)

lemma header_set: "headers_ok r \<Longrightarrow> req_header (req_setHeader n v r) n' = (if lowercase n' = lowercase n then Some v else req_header r n')"
  by (simp add: req_header_def headers_map)

lemma header_erase: "headers_ok r \<Longrightarrow> req_header (req_eraseHeader n r) n' = (if lowercase n' = lowercase n then None else req_header r n')"
  by (simp add: req_header_def headers_map)

lemma header_rest [simp]:
  "req_method (req_setHeader n v r) = req_method r" "req_method (req_eraseHeader n r) = req_method r"
  "req_target (req_setHeader n v r) = req_target r" "req_target (req_eraseHeader n r) = req_target r"
  "req_path (req_setHeader n v r) = req_path r" "req_path (req_eraseHeader n r) = req_path r"
  "req_body (req_setHeader n v r) = req_body r" "req_body (req_eraseHeader n r) = req_body r"
  "req_correlation (req_setHeader n v r) = req_correlation r" "req_correlation (req_eraseHeader n r) = req_correlation r"
  by (simp_all add: req_setHeader_def req_eraseHeader_def)

lemma erase_all:
  "headers_ok r \<Longrightarrow> headers_ok (fold req_eraseHeader ns r)
   \<and> req_header (fold req_eraseHeader ns r) n = (if lowercase n \<in> lowercase ` set ns then None else req_header r n)
   \<and> req_method (fold req_eraseHeader ns r) = req_method r \<and> req_target (fold req_eraseHeader ns r) = req_target r
   \<and> req_path (fold req_eraseHeader ns r) = req_path r \<and> req_body (fold req_eraseHeader ns r) = req_body r
   \<and> req_correlation (fold req_eraseHeader ns r) = req_correlation r"
  by (induction ns arbitrary: r) (auto simp: header_erase)

lemma lower_keys_update:
  "lower_keys m \<Longrightarrow> lower_keys (omap_modify k f m)"
  "lower_keys m \<Longrightarrow> lower_keys (omap_emplace (lowercase n) v m)"
  by (auto simp: lower_keys_def map_of_modify map_of_emplace omap_ok_emplace split: if_splits option.splits)

lemma normalize_headers_ok: "normalize_headers hs m = Inr m' \<Longrightarrow> lower_keys m \<Longrightarrow> lower_keys m'"
proof (induction hs m rule: normalize_headers.induct)
  case (2 rawName v hs m)
  let ?n = "lowercase rawName"
  let ?m = "if omap_contains m ?n
    then omap_modify ?n (\<lambda>u. u @ (if ?n = ''cookie'' then ''; '' else '','') @ v) m else omap_emplace ?n v m"
  have "lower_keys ?m"
    using "2.prems"(2) by (simp add: lower_keys_update)
  with 2 show ?case
    by (simp add: Let_def split: if_split_asm)
qed simp

lemma HttpRequest_create_ok:
  assumes "HttpRequest_create me t hs b ra c = Inr r"
  shows "headers_ok r"
proof -
  have "lower_keys []" by (simp add: lower_keys_def)
  with assms show ?thesis
    by (cases "normalize_headers hs []")
      (auto simp: HttpRequest_create_def headers_ok_def Let_def dest: normalize_headers_ok split: if_splits)
qed

text \<open>No header that only the gateway may set survives, whatever the client sent.\<close>

definition trusted_name :: "string \<Rightarrow> bool" where
  "trusted_name n = starts_with n ''x-openproof-''"

lemma lowercase_key: "headers_ok r \<Longrightarrow> map_of (req_headers r) k = Some v \<Longrightarrow> lowercase k = k"
  by (simp add: headers_ok_def lower_keys_def)

lemma stripTrusted_none:
  assumes "headers_ok r"
  shows "headers_ok (stripTrustedIdentityHeaders r)"
    and "map_of (req_headers (stripTrustedIdentityHeaders r)) k =
      (if trusted_name k then None else map_of (req_headers r) k)"
proof -
  let ?ns = "filter (\<lambda>name. starts_with name ''x-openproof-'') (map fst (req_headers r))"
  let ?r = "stripTrustedIdentityHeaders r"
  show ok: "headers_ok ?r"
    using erase_all [OF assms] by (simp add: stripTrustedIdentityHeaders_def)
  have name: "n \<in> set ?ns \<Longrightarrow> trusted_name n \<and> lowercase n = n" for n
    using lowercase_key [OF assms, of n] by (auto simp: trusted_name_def dest: weak_map_of_SomeI)
  have lower: "map_of (req_headers ?r) n = (if trusted_name n then None else map_of (req_headers r) n)"
    if "lowercase n = n" for n
  proof -
    have "map_of (req_headers ?r) n = (if n \<in> lowercase ` set ?ns then None else map_of (req_headers r) n)"
      using erase_all [OF assms, of ?ns n] that
      by (simp add: stripTrustedIdentityHeaders_def req_header_def)
    moreover have "lowercase ` set ?ns = id ` set ?ns"
      by (rule image_cong) (use name in simp_all)
    moreover have "n \<in> set ?ns \<longleftrightarrow> trusted_name n \<and> map_of (req_headers r) n \<noteq> None"
      by (auto simp: trusted_name_def map_of_eq_None_iff)
    ultimately show ?thesis by (simp only: image_id) auto
  qed
  show "map_of (req_headers ?r) k = (if trusted_name k then None else map_of (req_headers r) k)"
    using lower [of k] lowercase_key [OF ok, of k] lowercase_key [OF assms, of k]
    by (cases "lowercase k = k"; cases "map_of (req_headers ?r) k"; cases "map_of (req_headers r) k") auto
qed

end
