(* ===== verification/Gateway_Parts.thy ===== *)
theory Gateway_Parts
  imports Http_Message Policy
begin

text \<open>
  The parts a gateway is composed of (\<^verbatim>\<open>src/src/gateway/gateway.cpp\<close>): routes and the
  router, upstream endpoints and their static discovery, the weighted round robin, the circuit
  breaker, the access controller over the policy engine, and the signer of the trusted context.
\<close>

section \<open>Routes\<close>

datatype RouteIdTag = RouteIdTag
datatype ServiceIdTag = ServiceIdTag
datatype EndpointIdTag = EndpointIdTag

type_synonym RouteId = "RouteIdTag StrongId"
type_synonym ServiceId = "ServiceIdTag StrongId"
type_synonym EndpointId = "EndpointIdTag StrongId"

record Route =
  route_id :: RouteId
  route_method :: HttpMethod
  route_pathPrefix :: string
  route_service :: ServiceId
  route_protected :: bool
  route_organization :: OrganizationId
  route_action :: Action
  route_resource :: PolicyResource
  route_requiredScope :: string
  route_requiredAudience :: string

definition Route_create ::
    "RouteId \<Rightarrow> HttpMethod \<Rightarrow> string \<Rightarrow> ServiceId \<Rightarrow> bool \<Rightarrow> OrganizationId \<Rightarrow> Action \<Rightarrow> PolicyResource
     \<Rightarrow> string \<Rightarrow> string \<Rightarrow> Route Result" where
  "Route_create rid method pathPrefix service protectedRoute organization action resource
     requiredScope requiredAudience =
     (if StrongId_empty rid \<or> StrongId_empty service \<or> pathPrefix = [] \<or> hd pathPrefix \<noteq> CHR ''/''
         \<or> starts_with pathPrefix ''//'' \<or> CHR ''?'' \<in> set pathPrefix \<or> CHR ''#'' \<in> set pathPrefix
         \<or> hasControl pathPrefix \<or> (length pathPrefix > 1 \<and> last pathPrefix = CHR ''/'')
         \<or> length requiredScope > 128 \<or> hasControl requiredScope
         \<or> length requiredAudience > 2048 \<or> hasControl requiredAudience
      then fail_msg InvalidArgument ''The gateway route is invalid.''
      else if protectedRoute \<and> (StrongId_empty organization \<or> StrongId_empty action \<or> StrongId_empty resource)
      then fail_msg InvalidArgument ''A protected route requires organization, action and resource.''
      else Inr \<lparr>route_id = rid, route_method = method, route_pathPrefix = pathPrefix,
                route_service = service, route_protected = protectedRoute,
                route_organization = organization, route_action = action, route_resource = resource,
                route_requiredScope = requiredScope, route_requiredAudience = requiredAudience\<rparr>)"

text \<open>\<^verbatim>\<open>prefix.back()\<close> and \<^verbatim>\<open>path[prefix.size()]\<close> are read only where they exist.\<close>

definition prefixMatches :: "string \<Rightarrow> string \<Rightarrow> bool" where
  "prefixMatches path pre =
     (if \<not> starts_with path pre then False
      else pre = ''/'' \<or> length path = length pre \<or> last pre = CHR ''/''
           \<or> path ! length pre = CHR ''/'')"

definition router_add :: "Route \<Rightarrow> Route list \<Rightarrow> Status \<times> Route list" where
  "router_add route routes =
     (if list_ex (\<lambda>existing. route_id existing = route_id route
            \<or> (route_method existing = route_method route \<and> route_pathPrefix existing = route_pathPrefix route)) routes
      then (fail_msg AlreadyExists ''The gateway route already exists.'', routes)
      else (ok, routes @ [route]))"

definition better_route :: "HttpMethod \<Rightarrow> string \<Rightarrow> Route \<Rightarrow> Route option \<Rightarrow> Route option" where
  "better_route method path route best =
     (if route_method route = method \<and> prefixMatches path (route_pathPrefix route)
         \<and> (case best of None \<Rightarrow> True
             | Some b \<Rightarrow> length (route_pathPrefix route) > length (route_pathPrefix b))
      then Some route else best)"

definition router_match :: "HttpMethod \<Rightarrow> string \<Rightarrow> Route list \<Rightarrow> Route option" where
  "router_match method path routes = fold (better_route method path) routes None"

section \<open>Endpoints\<close>

record Endpoint =
  endpoint_id :: EndpointId
  endpoint_host :: string
  endpoint_port :: "16 word"
  endpoint_tls :: bool
  endpoint_weight :: "32 word"

definition Endpoint_create ::
    "EndpointId \<Rightarrow> string \<Rightarrow> 16 word \<Rightarrow> bool \<Rightarrow> 32 word \<Rightarrow> Endpoint Result" where
  "Endpoint_create eid host port tls weight =
     (if StrongId_empty eid \<or> host = [] \<or> length host > 253 \<or> port = 0 \<or> weight = 0 \<or> weight > 1000
         \<or> invalidTargetCharacter host \<or> CHR ''/'' \<in> set host \<or> CHR ''@'' \<in> set host
      then fail_msg InvalidArgument ''The upstream endpoint is invalid.''
      else Inr \<lparr>endpoint_id = eid, endpoint_host = host, endpoint_port = port, endpoint_tls = tls,
                endpoint_weight = weight\<rparr>)"

type_synonym StaticServiceDiscovery = "(ServiceId, Endpoint list) omap"

definition discovery_set ::
    "ServiceId \<Rightarrow> Endpoint list \<Rightarrow> StaticServiceDiscovery \<Rightarrow> Status \<times> StaticServiceDiscovery" where
  "discovery_set service endpoints m =
     (if StrongId_empty service \<or> endpoints = []
      then (fail_msg InvalidArgument ''A discovered service requires endpoints.'', m)
      else if \<not> distinct (map endpoint_id endpoints)
      then (fail_msg InvalidArgument ''A discovered service contains duplicate endpoints.'', m)
      else (ok, omap_insert_or_assign service endpoints m))"

definition discovery_resolve :: "StaticServiceDiscovery \<Rightarrow> ServiceId \<Rightarrow> Endpoint list Result" where
  "discovery_resolve m service =
     (case map_of m service of
        None \<Rightarrow> fail_msg Unavailable ''The upstream service is unavailable.''
      | Some endpoints \<Rightarrow> Inr endpoints)"

section \<open>Weighted round robin\<close>

type_synonym Sequences = "(ServiceId, 64 word) omap"

fun total_weight :: "EndpointId list \<Rightarrow> Endpoint list \<Rightarrow> 64 word" where
  "total_weight excluded [] = 0"
| "total_weight excluded (e # es) =
     (if endpoint_id e \<in> set excluded then 0 else ucast (endpoint_weight e)) + total_weight excluded es"

fun pick :: "EndpointId list \<Rightarrow> 64 word \<Rightarrow> 64 word \<Rightarrow> Endpoint list \<Rightarrow> Endpoint option" where
  "pick excluded slot cursor [] = None"
| "pick excluded slot cursor (e # es) =
     (if endpoint_id e \<in> set excluded then pick excluded slot cursor es
      else let cursor' = cursor + ucast (endpoint_weight e)
           in if slot < cursor' then Some e else pick excluded slot cursor' es)"

definition sequence_of :: "ServiceId \<Rightarrow> Sequences \<Rightarrow> 64 word" where
  "sequence_of service m = (case map_of m service of None \<Rightarrow> 0 | Some s \<Rightarrow> s)"

definition rr_choose ::
    "ServiceId \<Rightarrow> Endpoint list \<Rightarrow> EndpointId list \<Rightarrow> Sequences \<Rightarrow> Endpoint Result \<times> Sequences" where
  "rr_choose service endpoints excluded m =
     (let total = total_weight excluded endpoints
      in if total = 0 then (fail_msg Unavailable ''No upstream endpoint is available.'', m)
         else let sequence = sequence_of service m;
                  slot = sequence mod total;
                  m' = omap_insert_or_assign service (sequence + 1) m
              in case pick excluded slot 0 endpoints of
                   Some e \<Rightarrow> (Inr e, m')
                 | None \<Rightarrow> (fail_msg Internal ''The load balancer could not select an endpoint.'', m'))"

section \<open>Circuit breaker\<close>

datatype CircuitState = Closed | Open | HalfOpen

record Entry =
  entry_state :: CircuitState
  entry_failures :: "32 word"
  entry_openedAt :: Instant
  entry_probeInFlight :: bool

definition fresh_entry :: Entry where
  "fresh_entry = \<lparr>entry_state = Closed, entry_failures = 0, entry_openedAt = 0, entry_probeInFlight = False\<rparr>"

record CircuitPolicy =
  circuit_failureThreshold :: "32 word"
  circuit_openDuration :: Duration

definition CircuitBreaker_create :: "32 word \<Rightarrow> Duration \<Rightarrow> CircuitPolicy Result" where
  "CircuitBreaker_create failureThreshold openDuration =
     (if failureThreshold = 0 \<or> openDuration \<le> 0
      then fail_msg InvalidArgument ''The circuit-breaker policy is invalid.''
      else Inr \<lparr>circuit_failureThreshold = failureThreshold, circuit_openDuration = openDuration\<rparr>)"

type_synonym Circuits = "(EndpointId, Entry) omap"

definition entry_of :: "EndpointId \<Rightarrow> Circuits \<Rightarrow> Entry" where
  "entry_of endpoint m = (case map_of m endpoint of None \<Rightarrow> fresh_entry | Some e \<Rightarrow> e)"

definition allow_entry :: "CircuitPolicy \<Rightarrow> Instant \<Rightarrow> Entry \<Rightarrow> bool \<times> Entry" where
  "allow_entry p now entry =
     (if entry_state entry = Closed then (True, entry)
      else if entry_state entry = Open \<and> now - entry_openedAt entry < circuit_openDuration p
      then (False, entry)
      else let entry' = (if entry_state entry = Open
                         then entry\<lparr>entry_state := HalfOpen, entry_probeInFlight := False\<rparr> else entry)
           in if entry_probeInFlight entry' then (False, entry')
              else (True, entry'\<lparr>entry_probeInFlight := True\<rparr>))"

definition circuit_allow :: "CircuitPolicy \<Rightarrow> Instant \<Rightarrow> EndpointId \<Rightarrow> Circuits \<Rightarrow> bool \<times> Circuits" where
  "circuit_allow p now endpoint m =
     (case allow_entry p now (entry_of endpoint m) of
        (allowed, entry) \<Rightarrow> (allowed, omap_insert_or_assign endpoint entry m))"

definition recordSuccess :: "EndpointId \<Rightarrow> Circuits \<Rightarrow> Circuits" where
  "recordSuccess endpoint m = omap_insert_or_assign endpoint fresh_entry m"

definition fail_entry :: "CircuitPolicy \<Rightarrow> Instant \<Rightarrow> Entry \<Rightarrow> Entry" where
  "fail_entry p now entry =
     (let entry' = entry\<lparr>entry_probeInFlight := False\<rparr>
      in if entry_state entry' = HalfOpen
         then entry'\<lparr>entry_state := Open, entry_openedAt := now\<rparr>
         else let counted = entry'\<lparr>entry_failures := entry_failures entry' + 1\<rparr>
              in if entry_failures counted \<ge> circuit_failureThreshold p
                 then counted\<lparr>entry_state := Open, entry_openedAt := now\<rparr> else counted)"

definition recordFailure :: "CircuitPolicy \<Rightarrow> Instant \<Rightarrow> EndpointId \<Rightarrow> Circuits \<Rightarrow> Circuits" where
  "recordFailure p now endpoint m =
     omap_insert_or_assign endpoint (fail_entry p now (entry_of endpoint m)) m"

definition circuit_state :: "EndpointId \<Rightarrow> Circuits \<Rightarrow> CircuitState" where
  "circuit_state endpoint m =
     (case map_of m endpoint of None \<Rightarrow> Closed | Some e \<Rightarrow> entry_state e)"

section \<open>Access control\<close>

text \<open>The decision sink writes the security audit; its answer is a parameter (\<open>None\<close>: no sink).\<close>

type_synonym DecisionSink =
  "(Session \<Rightarrow> OrganizationId \<Rightarrow> Action \<Rightarrow> PolicyResource \<Rightarrow> AuthorizationDecision \<Rightarrow> CorrelationId \<Rightarrow> Status) option"

definition recorded ::
    "DecisionSink \<Rightarrow> Session \<Rightarrow> Route \<Rightarrow> AuthorizationDecision \<Rightarrow> CorrelationId \<Rightarrow> bool" where
  "recorded sink s route decision correlation =
     (case sink of
        None \<Rightarrow> True
      | Some write \<Rightarrow> succeeded (write s (route_organization route) (route_action route) (route_resource route)
                                  decision correlation))"

definition PolicyAccessController_authorize ::
    "(AuthorizationRequest \<Rightarrow> AuthorizationDecision) option \<Rightarrow> OrganizationRepository \<Rightarrow> IdentityRepository
     \<Rightarrow> MembershipRepository \<Rightarrow> DecisionSink \<Rightarrow> Session \<Rightarrow> Route \<Rightarrow> CorrelationId \<Rightarrow> AuthorizationDecision" where
  "PolicyAccessController_authorize policies organizations identities memberships sink s route correlation =
     (case AuthorizationRequest_create_session s (route_organization route) organizations identities
             memberships (route_action route) (route_resource route) of
        Inl e \<Rightarrow>
          let decision = decide Indeterminate (''Trusted authorization context failed: '' @ err_internalDetail e)
          in if \<not> recorded sink s route decision correlation
             then decide Indeterminate ''Authorization failed and its security audit could not be persisted.''
             else decision
      | Inr request \<Rightarrow>
          let decision = evaluateProtected policies request
          in if \<not> isPermitted decision \<and> \<not> recorded sink s route decision correlation
             then decide Indeterminate ''Authorization was denied and its security audit could not be persisted.''
             else decision)"

section \<open>Trusted context\<close>

definition TrustedContextKey_create :: "string \<Rightarrow> string Result" where
  "TrustedContextKey_create key =
     (if length key < 32
      then fail_msg InvalidArgument ''A trusted-context key must contain at least 32 bytes.''
      else Inr key)"

record TrustedContextSigner =
  signer_key :: string
  signer_maximumAge :: Duration

definition TrustedContextSigner_create :: "string \<Rightarrow> Duration \<Rightarrow> TrustedContextSigner Result" where
  "TrustedContextSigner_create key maximumAge =
     (if maximumAge \<le> 0 \<or> maximumAge > 300000
      then fail_msg InvalidArgument ''The trusted-context freshness window is invalid.''
      else Inr \<lparr>signer_key = key, signer_maximumAge = maximumAge\<rparr>)"

definition signed_headers :: "string list" where
  "signed_headers = [''x-openproof-request-id'', ''x-openproof-identity'', ''x-openproof-organization'',
     ''x-openproof-provider'', ''x-openproof-assurance'', ''x-openproof-client-id'',
     ''x-openproof-scopes'', ''x-openproof-context-issued-at'']"

definition trustedContextPayload :: "HttpRequest \<Rightarrow> string" where
  "trustedContextPayload r =
     appendPart (httpMethodName (req_method r)) @ appendPart (req_target r)
     @ concat (map (\<lambda>name. appendPart (case req_header r name of None \<Rightarrow> [] | Some v \<Rightarrow> v)) signed_headers)"

definition signer_seal :: "env \<Rightarrow> TrustedContextSigner \<Rightarrow> HttpRequest \<Rightarrow> Status \<times> HttpRequest" where
  "signer_seal E s request =
     (let r = req_setHeader ''x-openproof-context-issued-at'' (int_to_string (env_now E 0)) request
      in case hmacSha256 E (signer_key s) (trustedContextPayload r) of
           Inl e \<Rightarrow> (Inl e, r)
         | Inr digest \<Rightarrow> (ok, req_setHeader ''x-openproof-context-signature'' (toHex digest) r))"

text \<open>
  \<^verbatim>\<open>std::from_chars\<close> for a 64-bit integer over the whole text: an optional minus, then at least
  one digit and nothing else, and a value in range.
\<close>

definition from_chars :: "string \<Rightarrow> int option" where
  "from_chars s =
     (case (if s \<noteq> [] \<and> hd s = CHR ''-'' then map_option (\<lambda>n. - int n) (read_digits (tl s))
            else map_option int (read_digits s)) of
        None \<Rightarrow> None
      | Some i \<Rightarrow> if - (2 ^ 63) \<le> i \<and> i < 2 ^ 63 then Some i else None)"

definition signer_verify :: "env \<Rightarrow> TrustedContextSigner \<Rightarrow> HttpRequest \<Rightarrow> Status" where
  "signer_verify E s r =
     (let invalid = fail_msg AuthenticationFailed ''The trusted gateway context is invalid.''
      in case (req_header r ''x-openproof-context-issued-at'', req_header r ''x-openproof-context-signature'') of
           (Some issuedHeader, Some signature) \<Rightarrow>
             if length signature \<noteq> 64 then invalid
             else (case from_chars issuedHeader of
                     None \<Rightarrow> invalid
                   | Some issued \<Rightarrow>
                       let now = env_now E 0
                       in if issued > now + signer_maximumAge s \<or> now > issued + signer_maximumAge s
                          then fail_msg AuthenticationFailed ''The trusted gateway context is stale.''
                          else (case (hmacSha256 E (signer_key s) (trustedContextPayload r), fromHex signature) of
                                  (Inr expected, Inr supplied) \<Rightarrow>
                                    if length supplied \<noteq> length expected \<or> \<not> constantTimeEquals expected supplied
                                    then invalid else ok
                                | _ \<Rightarrow> invalid))
         | _ \<Rightarrow> invalid)"

end
