(* ===== verification/Gateway_Proofs.thy ===== *)
theory Gateway_Proofs
  imports Gateway_Parts
begin

text \<open>
  What the parts of the gateway guarantee: the router picks the longest matching prefix, the round
  robin is exactly proportional, an open circuit admits one probe, and the trusted context can
  neither be forged nor replayed late.
\<close>

section \<open>Routing\<close>

definition route_matches :: "HttpMethod \<Rightarrow> string \<Rightarrow> Route \<Rightarrow> bool" where
  "route_matches meth path r \<longleftrightarrow> route_method r = meth \<and> prefixMatches path (route_pathPrefix r)"

definition routes_ok :: "Route list \<Rightarrow> bool" where
  "routes_ok routes \<longleftrightarrow> distinct (map route_id routes)
     \<and> distinct (map (\<lambda>r. (route_method r, route_pathPrefix r)) routes)"

lemma router_add_ok: "routes_ok routes \<Longrightarrow> routes_ok (snd (router_add r routes))"
  by (auto simp: routes_ok_def router_add_def list_ex_iff)

interpretation router: guarded_machine router_add routes_ok
  by unfold_locales (rule router_add_ok)

abbreviation router_after :: "Route list \<Rightarrow> Route list" where
  "router_after rs \<equiv> final_state router_add rs []"

lemma router_after_ok: "routes_ok (router_after rs)"
  by (rule router.run_inv) (simp add: routes_ok_def)

text \<open>The candidate after a pass over the routes seen so far.\<close>

definition best_of :: "HttpMethod \<Rightarrow> string \<Rightarrow> Route list \<Rightarrow> Route option \<Rightarrow> bool" where
  "best_of meth path seen best \<longleftrightarrow>
     (case best of
        None \<Rightarrow> \<forall>r \<in> set seen. \<not> route_matches meth path r
      | Some b \<Rightarrow> b \<in> set seen \<and> route_matches meth path b
          \<and> (\<forall>r \<in> set seen. route_matches meth path r \<longrightarrow> length (route_pathPrefix r) \<le> length (route_pathPrefix b)))"

lemma better_route_matches:
  "better_route meth path r best =
     (if route_matches meth path r
         \<and> (case best of None \<Rightarrow> True | Some b \<Rightarrow> length (route_pathPrefix r) > length (route_pathPrefix b))
      then Some r else best)"
  by (simp add: better_route_def route_matches_def)

lemma better_route_best:
  assumes "best_of meth path seen best"
  shows "best_of meth path (seen @ [r]) (better_route meth path r best)"
proof (cases best)
  case None
  then show ?thesis using assms by (auto simp: best_of_def better_route_def route_matches_def)
next
  case (Some b)
  then show ?thesis
    using assms by (auto simp: best_of_def better_route_matches dest: order_trans [OF _ less_imp_le])
qed

lemma router_match_best: "best_of meth path routes (router_match meth path routes)"
  unfolding router_match_def
  by (induction routes rule: rev_induct) (simp add: best_of_def, simp add: better_route_best)

lemma prefixMatches_same_length:
  "prefixMatches path p \<Longrightarrow> prefixMatches path q \<Longrightarrow> length p = length q \<Longrightarrow> p = q"
  by (auto simp: prefixMatches_def starts_with_def split: if_splits)

text \<open>
  Routing is by the longest prefix and never ambiguous: on every route table that registration
  can build, a path is routed to a route exactly when that route's method and prefix match and no
  matching route has a longer prefix; such a route is unique, and nothing is routed exactly when no
  route matches.
\<close>

theorem routing_longest_prefix:
  "(router_match meth path (router_after rs) = Some r \<longleftrightarrow>
      r \<in> set (router_after rs) \<and> route_matches meth path r
      \<and> (\<forall>r' \<in> set (router_after rs). route_matches meth path r' \<longrightarrow>
           length (route_pathPrefix r') \<le> length (route_pathPrefix r)))
   \<and> (router_match meth path (router_after rs) = None \<longleftrightarrow>
      (\<forall>r' \<in> set (router_after rs). \<not> route_matches meth path r'))"
proof -
  let ?rs = "router_after rs"
  note best = router_match_best [of meth path ?rs]
  have unique: "s = r" if "s \<in> set ?rs" "r \<in> set ?rs" "route_matches meth path s" "route_matches meth path r"
      "length (route_pathPrefix s) = length (route_pathPrefix r)" for s r
    using that router_after_ok [of rs] prefixMatches_same_length [of path "route_pathPrefix s" "route_pathPrefix r"]
    by (auto simp: routes_ok_def route_matches_def distinct_map inj_on_def)
  show ?thesis
  proof (cases "router_match meth path ?rs")
    case None
    then show ?thesis using best by (auto simp: best_of_def)
  next
    case (Some s)
    then have s: "s \<in> set ?rs" "route_matches meth path s"
        "\<forall>r' \<in> set ?rs. route_matches meth path r' \<longrightarrow> length (route_pathPrefix r') \<le> length (route_pathPrefix s)"
      using best by (auto simp: best_of_def)
    then have "s = r" if "r \<in> set ?rs" "route_matches meth path r"
        "\<forall>r' \<in> set ?rs. route_matches meth path r' \<longrightarrow> length (route_pathPrefix r') \<le> length (route_pathPrefix r)"
      using that by (intro unique) (auto intro: order.antisym)
    then show ?thesis
      using Some s by auto
  qed
qed

abbreviation sample_route :: "string \<Rightarrow> string \<Rightarrow> Route" where
  "sample_route i p \<equiv> \<lparr>route_id = StrongId i, route_method = Get, route_pathPrefix = p,
     route_service = StrongId ''api'', route_protected = False, route_organization = StrongId [],
     route_action = StrongId [], route_resource = StrongId [], route_requiredScope = [],
     route_requiredAudience = []\<rparr>"

theorem routing_longest_prefix_witness:
  "router_match Get ''/api/users'' (router_after [sample_route ''r1'' ''/'', sample_route ''r2'' ''/api'',
     sample_route ''r3'' ''/apis'']) = Some (sample_route ''r2'' ''/api'')"
proof -
  let ?rs = "[sample_route ''r1'' ''/'', sample_route ''r2'' ''/api'', sample_route ''r3'' ''/apis'']"
  have "router_after ?rs = ?rs"
    by (simp add: router_add_def)
  then show ?thesis
    using routing_longest_prefix [of Get "''/api/users''" ?rs "sample_route ''r2'' ''/api''"]
    by (simp add: route_matches_def prefixMatches_def starts_with_def)
qed

section \<open>Round robin\<close>

text \<open>The endpoints that take part, and the numbers behind the 64-bit words.\<close>

definition candidates :: "EndpointId list \<Rightarrow> Endpoint list \<Rightarrow> Endpoint list" where
  "candidates excluded es = filter (\<lambda>e. endpoint_id e \<notin> set excluded) es"

definition endpoint_share :: "Endpoint \<Rightarrow> nat" where
  "endpoint_share e = unat (endpoint_weight e)"

definition total_share :: "Endpoint list \<Rightarrow> nat" where
  "total_share es = sum_list (map endpoint_share es)"

text \<open>The endpoint whose interval of slots holds \<open>n\<close>.\<close>

fun slot_owner :: "Endpoint list \<Rightarrow> nat \<Rightarrow> Endpoint option" where
  "slot_owner [] n = None"
| "slot_owner (e # es) n = (if n < endpoint_share e then Some e else slot_owner es (n - endpoint_share e))"

lemma total_weight_share: "total_weight excluded es = of_nat (total_share (candidates excluded es))"
  by (induction es) (simp_all add: candidates_def total_share_def endpoint_share_def)

lemma pick_slot_owner:
  assumes "c + total_share (candidates excluded es) < 2 ^ 64" "c \<le> n" "n < 2 ^ 64"
  shows "pick excluded (of_nat n) (of_nat c) es = slot_owner (candidates excluded es) (n - c)"
  using assms
proof (induction es arbitrary: c)
  case (Cons e es)
  show ?case
  proof (cases "endpoint_id e \<in> set excluded")
    case False
    have c': "of_nat c + ucast (endpoint_weight e) = (of_nat (c + endpoint_share e) :: 64 word)"
      by (simp add: endpoint_share_def)
    have "(of_nat n :: 64 word) < of_nat (c + endpoint_share e) \<longleftrightarrow> n < c + endpoint_share e"
      using Cons.prems False by (simp add: word_less_nat_alt unat_of_nat candidates_def total_share_def del: of_nat_add)
    with False Cons.prems Cons.IH [of "c + endpoint_share e"] show ?thesis
      by (auto simp: Let_def c' candidates_def total_share_def simp del: of_nat_add)
  qed (use Cons in \<open>simp add: candidates_def\<close>)
qed (simp add: candidates_def)

lemma slot_owner_Some: "n < total_share es \<Longrightarrow> \<exists>e. slot_owner es n = Some e \<and> e \<in> set es"
proof (induction es arbitrary: n)
  case (Cons a es)
  have "\<exists>e. slot_owner es (n - endpoint_share a) = Some e \<and> e \<in> set es" if "\<not> n < endpoint_share a"
    using Cons.prems that by (intro Cons.IH) (simp add: total_share_def)
  then show ?case by auto
qed (simp add: total_share_def)

lemma slot_owner_share:
  assumes "distinct es" "e \<in> set es"
  shows "card {n. n < total_share es \<and> slot_owner es n = Some e} = endpoint_share e"
  using assms
proof (induction es)
  case (Cons a es)
  have split: "{n. n < total_share (a # es) \<and> slot_owner (a # es) n = Some e} =
      {n. n < endpoint_share a \<and> a = e}
      \<union> (\<lambda>n. n + endpoint_share a) ` {n. n < total_share es \<and> slot_owner es n = Some e}" (is "?L = ?A \<union> ?B")
  proof (intro equalityI subsetI)
    fix n assume n: "n \<in> ?L"
    show "n \<in> ?A \<union> ?B"
    proof (cases "n < endpoint_share a")
      case False
      then have "n = n - endpoint_share a + endpoint_share a" by simp
      with n False show ?thesis by (auto simp: total_share_def intro!: image_eqI)
    qed (use n in auto)
  qed (auto simp: total_share_def)
  show ?case
  proof (cases "a = e")
    case True
    then have none: "{n. n < total_share es \<and> slot_owner es n = Some e} = {}"
      using Cons.prems(1) slot_owner_Some [of _ es] by fastforce
    show ?thesis unfolding split none using True by simp
  next
    case False
    then show ?thesis
      unfolding split using Cons by (simp add: card_image inj_on_def)
  qed
qed simp

lemma rr_choose_owner:
  assumes "T = total_share (candidates excluded es)" "0 < T" "T < 2 ^ 64" "omap_ok m"
  shows "fst (rr_choose service es excluded m) = Inr (the (slot_owner (candidates excluded es) (unat (sequence_of service m) mod T)))"
    and "sequence_of service (snd (rr_choose service es excluded m)) = sequence_of service m + 1"
    and "omap_ok (snd (rr_choose service es excluded m))"
proof -
  have total: "total_weight excluded es = of_nat T" "(of_nat T :: 64 word) \<noteq> 0" "unat (of_nat T :: 64 word) = T"
    using assms(2,3) by (simp_all add: total_weight_share assms(1) [symmetric] unat_of_nat word_unat_eq_iff)
  have slot: "sequence_of service m mod of_nat T = of_nat (unat (sequence_of service m) mod T)"
    by (rule word_unat_eq_iff [THEN iffD2])
      (use assms(2,3) in \<open>simp add: unat_mod total(3) unat_of_nat less_trans [OF mod_less_divisor]\<close>)
  obtain e where e: "slot_owner (candidates excluded es) (unat (sequence_of service m) mod T) = Some e"
    using slot_owner_Some [of "unat (sequence_of service m) mod T" "candidates excluded es"] assms(1,2) by auto
  have "pick excluded (sequence_of service m mod of_nat T) 0 es = Some e"
    using pick_slot_owner [of 0 excluded es "unat (sequence_of service m) mod T"] assms(1-3) e
      less_trans [OF mod_less_divisor [OF assms(2)] assms(3)]
    unfolding slot by simp
  then have choice: "rr_choose service es excluded m = (Inr e, omap_insert_or_assign service (sequence_of service m + 1) m)"
    by (simp add: rr_choose_def total Let_def)
  show "fst (rr_choose service es excluded m) = Inr (the (slot_owner (candidates excluded es) (unat (sequence_of service m) mod T)))"
    "sequence_of service (snd (rr_choose service es excluded m)) = sequence_of service m + 1"
    "omap_ok (snd (rr_choose service es excluded m))"
    using assms(4) by (simp_all add: choice e sequence_of_def [of _ "omap_insert_or_assign _ _ _"] map_of_insert_or_assign)
qed

text \<open>A run of \<open>n\<close> choices for one service.\<close>

definition choices :: "nat \<Rightarrow> ServiceId \<Rightarrow> Endpoint list \<Rightarrow> EndpointId list \<Rightarrow> Sequences \<Rightarrow> Endpoint Result list" where
  "choices n service es excluded m =
     fst (run_calls (\<lambda>_. rr_choose service es excluded) (replicate n ()) m)"

lemma choices_slots:
  assumes "T = total_share (candidates excluded es)" "0 < T" "T < 2 ^ 64" "omap_ok m"
    and "unat (sequence_of service m) + n < 2 ^ 64"
  shows "choices n service es excluded m =
    map (\<lambda>i. Inr (the (slot_owner (candidates excluded es) ((unat (sequence_of service m) + i) mod T)))) [0 ..< n]"
  using assms(4,5)
proof (induction n arbitrary: m)
  case (Suc n)
  let ?m = "snd (rr_choose service es excluded m)"
  note one = rr_choose_owner [OF assms(1-3) Suc.prems(1), of service]
  have s: "unat (sequence_of service ?m) = Suc (unat (sequence_of service m))"
    using Suc.prems(2) one(2) by (simp add: unat_word_ariths)
  have "choices (Suc n) service es excluded m = fst (rr_choose service es excluded m) # choices n service es excluded ?m"
    by (simp add: choices_def case_prod_unfold)
  also have "choices n service es excluded ?m =
      map (\<lambda>i. Inr (the (slot_owner (candidates excluded es) ((unat (sequence_of service m) + Suc i) mod T)))) [0 ..< n]"
    using Suc.IH [OF one(3)] Suc.prems(2) s by simp
  finally show ?case
    by (simp add: one(1) upt_conv_Cons map_Suc_upt [symmetric] comp_def del: upt_Suc)
qed (simp add: choices_def)

lemma rotation_card:
  fixes T s :: nat
  assumes "0 < T"
  shows "card {i. i < T \<and> P ((s + i) mod T)} = card {n. n < T \<and> P n}"
proof -
  let ?f = "\<lambda>i. (s + i) mod T"
  have le: "i = j" if "i \<le> j" "j < T" "?f i = ?f j" for i j
  proof -
    have "T dvd (s + j) - (s + i)"
      using that mod_eq_dvd_iff_nat [of "s + i" "s + j" T] by simp
    then show ?thesis
      using that(1,2) by (metis add_diff_cancel_left dvd_imp_le diff_is_0_eq le_antisym less_imp_diff_less not_le zero_less_diff)
  qed
  then have inj: "inj_on ?f {..<T}"
    unfolding inj_on_def by (metis lessThan_iff nat_le_linear)
  then have surj: "?f ` {..<T} = {..<T}"
    using assms by (intro endo_inj_surj) auto
  have "?f ` {i. i < T \<and> P (?f i)} = {n. n < T \<and> P n}"
    using surj assms by (auto simp: image_iff set_eq_iff) (metis lessThan_iff imageE)
  then show ?thesis
    using card_image [OF inj_on_subset [OF inj], of "{i. i < T \<and> P (?f i)}"]
    by (metis (no_types, lifting) lessThan_iff mem_Collect_eq subsetI)
qed

text \<open>
  C38. The load balancer is exactly proportional: over any run of as many choices as the total
  weight of the endpoints that are not excluded, in which the 64-bit sequence does not wrap, each
  of them is chosen exactly as often as its weight says, an excluded one never, and no choice fails.
\<close>

theorem round_robin_proportional:
  assumes "distinct es" "omap_ok m" "T = total_share (candidates excluded es)" "0 < T"
    and "unat (sequence_of service m) + T < 2 ^ 64"
  shows "length (filter (\<lambda>c. c = Inr e) (choices T service es excluded m)) =
      (if e \<in> set es \<and> endpoint_id e \<notin> set excluded then endpoint_share e else 0)
    \<and> list_all succeeded (choices T service es excluded m)"
proof -
  let ?own = "slot_owner (candidates excluded es)" and ?s = "unat (sequence_of service m)"
  have T: "T < 2 ^ 64" using assms(5) by simp
  note slots = choices_slots [OF assms(3,4) T assms(2,5)]
  have some: "\<exists>x. ?own n = Some x \<and> x \<in> set (candidates excluded es)" if "n < T" for n
    using slot_owner_Some that assms(3) by blast
  have "length (filter (\<lambda>c. c = Inr e) (choices T service es excluded m))
      = card {i. i < T \<and> ?own ((?s + i) mod T) = Some e}"
    unfolding slots filter_map length_map comp_def length_filter_conv_card
    using some [OF mod_less_divisor [OF assms(4)]]
    by (intro arg_cong [of _ _ card]) (auto, metis option.sel)
  also have "\<dots> = card {n. n < T \<and> ?own n = Some e}"
    by (rule rotation_card [OF assms(4)])
  also have "\<dots> = (if e \<in> set (candidates excluded es) then endpoint_share e else 0)"
  proof (cases "e \<in> set (candidates excluded es)")
    case True
    then show ?thesis
      using slot_owner_share [of "candidates excluded es" e] assms(1,3) by (simp add: candidates_def)
  next
    case False
    then have "{n. n < T \<and> ?own n = Some e} = {}" using some by fastforce
    then show ?thesis using False by simp
  qed
  finally show ?thesis
    by (auto simp: slots list_all_iff candidates_def)
qed

abbreviation sample_endpoint :: "string \<Rightarrow> 32 word \<Rightarrow> Endpoint" where
  "sample_endpoint i w \<equiv> \<lparr>endpoint_id = StrongId i, endpoint_host = i, endpoint_port = 80,
     endpoint_tls = False, endpoint_weight = w\<rparr>"

theorem round_robin_proportional_witness:
  "length (filter (\<lambda>c. c = Inr (sample_endpoint ''a'' 2))
     (choices 3 (StrongId ''api'') [sample_endpoint ''a'' 2, sample_endpoint ''b'' 1, sample_endpoint ''c'' 5]
        [StrongId ''c''] [])) = 2"
proof -
  let ?es = "[sample_endpoint ''a'' 2, sample_endpoint ''b'' 1, sample_endpoint ''c'' 5]"
  have "3 = total_share (candidates [StrongId ''c''] ?es)"
    by (simp add: total_share_def candidates_def endpoint_share_def)
  from round_robin_proportional [OF _ _ this, of "[]" "StrongId ''api''" "sample_endpoint ''a'' 2"] show ?thesis
    by (simp add: sequence_of_def endpoint_share_def)
qed

section \<open>Circuits\<close>

datatype circuit_call = Admit Instant EndpointId | Succeed EndpointId | Fail Instant EndpointId

fun circuit_step :: "CircuitPolicy \<Rightarrow> circuit_call \<Rightarrow> Circuits \<Rightarrow> bool \<times> Circuits" where
  "circuit_step p (Admit now e) m = circuit_allow p now e m"
| "circuit_step p (Succeed e) m = (True, recordSuccess e m)"
| "circuit_step p (Fail now e) m = (True, recordFailure p now e m)"

lemma entry_of_assign:
  "omap_ok m \<Longrightarrow> entry_of e (omap_insert_or_assign e' x m) = (if e = e' then x else entry_of e m)"
  by (simp add: entry_of_def map_of_insert_or_assign)

lemma circuit_step_entry:
  assumes "omap_ok m"
  shows "entry_of e (snd (circuit_step p (Admit now e') m)) =
      (if e = e' then snd (allow_entry p now (entry_of e m)) else entry_of e m)"
    and "fst (circuit_step p (Admit now e) m) = fst (allow_entry p now (entry_of e m))"
    and "entry_of e (snd (circuit_step p (Succeed e') m)) = (if e = e' then fresh_entry else entry_of e m)"
    and "entry_of e (snd (circuit_step p (Fail now e') m)) =
      (if e = e' then fail_entry p now (entry_of e m) else entry_of e m)"
  using assms
  by (auto simp: circuit_allow_def recordSuccess_def recordFailure_def entry_of_assign split: prod.split)

lemma circuit_step_ok: "omap_ok m \<Longrightarrow> omap_ok (snd (circuit_step p c m))"
  by (cases c) (auto simp: circuit_allow_def recordSuccess_def recordFailure_def split: prod.split)

text \<open>A probe is a request admitted on a circuit that is not closed.\<close>

fun probes :: "CircuitPolicy \<Rightarrow> Circuits \<Rightarrow> circuit_call \<Rightarrow> EndpointId \<Rightarrow> bool" where
  "probes p m (Admit now e') e =
     (e = e' \<and> entry_state (entry_of e m) \<noteq> Closed \<and> fst (circuit_step p (Admit now e) m))"
| "probes p m _ e = False"

fun reports :: "Circuits \<Rightarrow> circuit_call \<Rightarrow> EndpointId \<Rightarrow> bool" where
  "reports m (Succeed e') e = (e = e')"
| "reports m (Fail _ e') e = (e = e')"
| "reports m _ e = False"

definition probe_free :: "Circuits \<Rightarrow> EndpointId \<Rightarrow> bool" where
  "probe_free m e \<longleftrightarrow> \<not> (entry_state (entry_of e m) = HalfOpen \<and> entry_probeInFlight (entry_of e m))"

interpretation circuits: single_use_store "circuit_step p" omap_ok probe_free "probes p" reports
  for p
proof
  fix m :: Circuits and c e
  assume ok: "omap_ok m"
  show "omap_ok (snd (circuit_step p c m))" by (rule circuit_step_ok [OF ok])
  show "probe_free m e" if "probes p m c e"
    using that by (cases c) (auto simp: probe_free_def circuit_step_entry(2) [OF ok] allow_entry_def Let_def
        simp del: circuit_step.simps split: if_splits)
  have half: "entry_state x \<noteq> Closed \<Longrightarrow> entry_state x \<noteq> Open \<Longrightarrow> entry_state x = HalfOpen" for x :: Entry
    by (cases "entry_state x") auto
  show "\<not> probe_free (snd (circuit_step p c m)) e" if "probes p m c e"
    using that half by (cases c) (auto simp: probe_free_def circuit_step_entry [OF ok] allow_entry_def Let_def
        simp del: circuit_step.simps split: if_splits)
  show "\<not> probe_free (snd (circuit_step p c m)) e" if "\<not> probe_free m e" "\<not> reports m c e"
    using that by (cases c) (auto simp: probe_free_def circuit_step_entry [OF ok] allow_entry_def Let_def
        simp del: circuit_step.simps split: if_splits)
qed

lemma circuit_run_ok: "omap_ok (final_state (circuit_step p) cs [])"
  using circuit_step_ok by (induction cs rule: rev_induct) simp_all

text \<open>
  A failing endpoint is shielded. In every state the breaker can reach, a failure reported on a
  circuit that is not open opens it exactly when the circuit was half open or the failure reaches the
  threshold. From then on no request is admitted before the open period has passed; while no outcome
  is reported for the endpoint at most one request is admitted at all, however many ask and whatever
  is reported for others; and a success closes the circuit and admits everything.
\<close>

theorem circuit_breaker_shields:
  assumes "m = final_state (circuit_step p) history []" "circuit_state e m \<noteq> Open"
  shows "(circuit_state e (recordFailure p now e m) = Open \<longleftrightarrow>
           circuit_state e m = HalfOpen \<or> circuit_failureThreshold p \<le> entry_failures (entry_of e m) + 1)
    \<and> (circuit_state e (recordFailure p now e m) = Open \<longrightarrow>
        (\<forall>t. fst (circuit_allow p t e (recordFailure p now e m)) \<longleftrightarrow> now + circuit_openDuration p \<le> t)
        \<and> (additions (circuit_step p) reports e cs (recordFailure p now e m) = 0 \<longrightarrow>
             redemptions (circuit_step p) (probes p) e cs (recordFailure p now e m) \<le> 1))
    \<and> (\<forall>t. fst (circuit_allow p t e (recordSuccess e m)))"
proof -
  let ?opened = "recordFailure p now e m"
  have ok: "omap_ok m" "omap_ok ?opened"
    using circuit_run_ok [of p history] assms(1) by (simp_all add: recordFailure_def)
  have entry: "entry_of e ?opened = fail_entry p now (entry_of e m)" "entry_of e (recordSuccess e m) = fresh_entry"
    using ok(1) by (simp_all add: recordFailure_def recordSuccess_def entry_of_assign)
  have state: "circuit_state e k = entry_state (entry_of e k)" for k
    by (simp add: circuit_state_def entry_of_def fresh_entry_def split: option.split)
  have allow: "fst (circuit_allow p t e k) = fst (allow_entry p t (entry_of e k))" for t k
    by (simp add: circuit_allow_def split: prod.split)
  have "entry_openedAt (entry_of e ?opened) = now" if "circuit_state e ?opened = Open"
    using that assms(2) unfolding state entry by (auto simp: fail_entry_def Let_def split: if_splits)
  then have "fst (circuit_allow p t e ?opened) \<longleftrightarrow> now + circuit_openDuration p \<le> t"
    if "circuit_state e ?opened = Open" for t
    using that unfolding state allow by (auto simp: allow_entry_def Let_def)
  moreover have "circuit_state e ?opened = Open \<longleftrightarrow>
      circuit_state e m = HalfOpen \<or> circuit_failureThreshold p \<le> entry_failures (entry_of e m) + 1"
    using assms(2) unfolding state entry by (auto simp: fail_entry_def Let_def)
  moreover have "fst (circuit_allow p t e (recordSuccess e m))" for t
    unfolding allow entry by (simp add: allow_entry_def fresh_entry_def)
  ultimately show ?thesis
    using circuits.redeemed_at_most_once [OF ok(2), of p e cs] by blast
qed

theorem circuit_breaker_shields_witness:
  "circuit_state (StrongId ''a'') (recordFailure \<lparr>circuit_failureThreshold = 1, circuit_openDuration = 50\<rparr> 7 (StrongId ''a'') []) = Open
   \<and> \<not> fst (circuit_allow \<lparr>circuit_failureThreshold = 1, circuit_openDuration = 50\<rparr> 56 (StrongId ''a'')
        (recordFailure \<lparr>circuit_failureThreshold = 1, circuit_openDuration = 50\<rparr> 7 (StrongId ''a'') []))"
proof -
  let ?p = "\<lparr>circuit_failureThreshold = 1, circuit_openDuration = 50\<rparr>"
  have "[] = final_state (circuit_step ?p) [] []" "circuit_state (StrongId ''a'') [] \<noteq> Open"
    by (simp_all add: circuit_state_def)
  from circuit_breaker_shields [OF this, of 7 "[]"] show ?thesis
    by (simp add: entry_of_def fresh_entry_def)
qed

section \<open>Trusted context\<close>

lemma from_chars_int_to_string: "- (2 ^ 63) \<le> i \<Longrightarrow> i < 2 ^ 63 \<Longrightarrow> from_chars (int_to_string i) = Some i"
  by (auto simp: from_chars_def int_to_string_def read_digits_to_string to_string_hd)

definition header_value :: "HttpRequest \<Rightarrow> string \<Rightarrow> string" where
  "header_value r n = (case req_header r n of None \<Rightarrow> [] | Some v \<Rightarrow> v)"

lemma payload_parts:
  "trustedContextPayload r = parts (httpMethodName (req_method r) # req_target r # map (header_value r) signed_headers)"
  by (simp add: trustedContextPayload_def parts_def header_value_def comp_def)

lemma httpMethodName_inj: "httpMethodName a = httpMethodName b \<longleftrightarrow> a = b"
  by (cases a; cases b) simp_all

lemma payload_inj:
  "trustedContextPayload q = trustedContextPayload r \<longleftrightarrow>
     req_method q = req_method r \<and> req_target q = req_target r
     \<and> (\<forall>n \<in> set signed_headers. header_value q n = header_value r n)"
  unfolding payload_parts parts_inj by (simp add: httpMethodName_inj)

lemma lowercase_fixed [simp]:
  "lowercase ''x-openproof-context-issued-at'' = ''x-openproof-context-issued-at''"
  "lowercase ''x-openproof-context-signature'' = ''x-openproof-context-signature''"
  "lowercase ''x-openproof-request-id'' = ''x-openproof-request-id''"
  "lowercase ''x-openproof-identity'' = ''x-openproof-identity''"
  "lowercase ''x-openproof-organization'' = ''x-openproof-organization''"
  "lowercase ''x-openproof-provider'' = ''x-openproof-provider''"
  "lowercase ''x-openproof-assurance'' = ''x-openproof-assurance''"
  "lowercase ''x-openproof-client-id'' = ''x-openproof-client-id''"
  "lowercase ''x-openproof-scopes'' = ''x-openproof-scopes''"
  "lowercase ''authorization'' = ''authorization''" "lowercase ''cookie'' = ''cookie''"
  by (simp_all add: lowercase_def lower_char_def is_upper_char_def)

lemma payload_signature:
  assumes "headers_ok r"
  shows "trustedContextPayload (req_setHeader ''x-openproof-context-signature'' v r) = trustedContextPayload r"
  unfolding payload_inj using assms by (simp add: header_value_def signed_headers_def header_set)

lemma signer_seal_ok:
  assumes "headers_ok r" "signer_seal E s r = (Inr u, r')"
  obtains d where "hmacSha256 E (signer_key s) (trustedContextPayload r') = Inr d"
    "req_header r' ''x-openproof-context-signature'' = Some (toHex d)"
    "req_header r' ''x-openproof-context-issued-at'' = Some (int_to_string (env_now E 0))"
    "headers_ok r'"
proof -
  let ?r = "req_setHeader ''x-openproof-context-issued-at'' (int_to_string (env_now E 0)) r"
  obtain d where d: "hmacSha256 E (signer_key s) (trustedContextPayload ?r) = Inr d"
    using assms(2) by (auto simp: signer_seal_def Let_def split: sum.splits)
  then have r': "r' = req_setHeader ''x-openproof-context-signature'' (toHex d) ?r"
    using assms(2) by (simp add: signer_seal_def Let_def)
  show thesis
    by (rule that [of d]) (use assms(1) d in \<open>simp_all add: r' payload_signature header_set\<close>)
qed

text \<open>
  The trusted context is fresh and bound to its request. A context that the gateway sealed is
  accepted by an upstream with the same key exactly while the two clocks differ by no more than the
  window. Any request that is accepted with the same signature, with no collision of the keyed hash
  on the two texts, has the same method, the same target and the same value of every signed header:
  identity, tenant, provider, assurance, client, scopes, request identifier and time.
\<close>

theorem trusted_context_bound:
  assumes "headers_ok r" "signer_seal E s r = (Inr u, r')" "env_HMAC E' = env_HMAC E"
    and "- (2 ^ 63) \<le> env_now E 0" "env_now E 0 < 2 ^ 63"
  shows "(signer_verify E' s r' = ok \<longleftrightarrow> \<bar>env_now E' 0 - env_now E 0\<bar> \<le> signer_maximumAge s)
    \<and> (req_header q ''x-openproof-context-signature'' = req_header r' ''x-openproof-context-signature''
       \<and> inj_on (hmacSha256 E (signer_key s)) {trustedContextPayload q, trustedContextPayload r'}
       \<and> signer_verify E' s q = ok
       \<longrightarrow> req_method q = req_method r' \<and> req_target q = req_target r'
           \<and> (\<forall>n \<in> set signed_headers. header_value q n = header_value r' n))"
proof -
  obtain d where d: "hmacSha256 E (signer_key s) (trustedContextPayload r') = Inr d"
    "req_header r' ''x-openproof-context-signature'' = Some (toHex d)"
    "req_header r' ''x-openproof-context-issued-at'' = Some (int_to_string (env_now E 0))" "headers_ok r'"
    by (rule signer_seal_ok [OF assms(1,2)])
  note hmac = hmac_HMAC [OF assms(3)]
  have len: "length d = 32" using hmac_length [OF d(1)] .
  have "signer_verify E' s r' = ok \<longleftrightarrow> \<bar>env_now E' 0 - env_now E 0\<bar> \<le> signer_maximumAge s"
    by (auto simp: signer_verify_def Let_def d len from_chars_int_to_string [OF assms(4,5)] hmac fromHex_toHex
        constantTimeEquals_iff)
  moreover have "trustedContextPayload q = trustedContextPayload r'"
    if "req_header q ''x-openproof-context-signature'' = Some (toHex d)"
      "inj_on (hmacSha256 E (signer_key s)) {trustedContextPayload q, trustedContextPayload r'}"
      "signer_verify E' s q = ok"
  proof -
    have "length (toHex d) = 64" using len by simp
    with that(1,3) have "hmacSha256 E (signer_key s) (trustedContextPayload q) = Inr d"
      by (auto simp: signer_verify_def Let_def hmac fromHex_toHex simp del: length_toHex
          split: option.splits sum.splits if_splits)
    with d(1) show ?thesis by (intro inj_onD [OF that(2)]) simp_all
  qed
  ultimately show ?thesis
    unfolding d(2) payload_inj by blast
qed

abbreviation sample_http :: HttpRequest where
  "sample_http \<equiv> \<lparr>req_method = Get, req_target = ''/reports'', req_path = ''/reports'', req_headers = [],
     req_body = [], req_remoteAddress = ''10.0.0.1'', req_correlation = StrongId ''c1''\<rparr>"

theorem trusted_context_bound_witness:
  "\<exists>r'. signer_seal sample_env \<lparr>signer_key = ''key'', signer_maximumAge = 30000\<rparr> sample_http = (Inr (), r')
     \<and> signer_verify sample_env \<lparr>signer_key = ''key'', signer_maximumAge = 30000\<rparr> r' = ok
     \<and> signer_verify (sample_env\<lparr>env_now := \<lambda>_. 40000\<rparr>) \<lparr>signer_key = ''key'', signer_maximumAge = 30000\<rparr> r' \<noteq> ok"
proof -
  let ?s = "\<lparr>signer_key = ''key'', signer_maximumAge = 30000\<rparr>"
  obtain h where "hmacSha256 sample_env ''key'' t = Inr (h t)" for t
    by (simp add: hmacSha256_def sample_env_def int_max_def)
  then obtain r' where seal: "signer_seal sample_env ?s sample_http = (Inr (), r')"
    by (simp add: signer_seal_def Let_def)
  have http: "headers_ok sample_http"
    by (simp add: headers_ok_def lower_keys_def)
  have "- (2 ^ 63) \<le> env_now sample_env 0" "env_now sample_env 0 < 2 ^ 63"
    by (simp_all add: sample_env_def)
  note bound = trusted_context_bound [OF http seal _ this, THEN conjunct1]
  have "signer_verify sample_env ?s r' = ok" "signer_verify (sample_env\<lparr>env_now := \<lambda>_. 40000\<rparr>) ?s r' \<noteq> ok"
    by (subst bound; simp)+
  with seal show ?thesis by blast
qed

end
