(* ===== verification/Gateway.thy ===== *)
theory Gateway
  imports Gateway_Proofs Json
begin

text \<open>
  The request path of the gateway (\<^verbatim>\<open>Gateway::handle\<close> of
  \<^verbatim>\<open>src/src/gateway/gateway.cpp\<close>). The interfaces it is given are fields of \<open>Gateway\<close>: the
  delegated authenticator, the verifier of sender constraints, the access controller, the service
  discovery, the upstream transport (whose answer may depend on everything sent before) and the
  token bucket, which computes in floating point and is kept abstract.
\<close>

type_synonym sent = "(Endpoint \<times> HttpRequest) list"

record 'rl Gateway =
  gw_routes :: "Route list"
  gw_sessionKey :: SessionKey
  gw_delegatedAccess :: "(string \<Rightarrow> DelegatedAccess Result) option"
  gw_senderConstraintVerifier ::
    "(HttpRequest \<Rightarrow> DelegatedSenderConstraint \<Rightarrow> string \<Rightarrow> bool \<Rightarrow> Status \<times> HttpRequest) option"
  gw_access :: "Session \<Rightarrow> Route \<Rightarrow> CorrelationId \<Rightarrow> AuthorizationDecision"
  gw_rateLimiter :: "string \<Rightarrow> 'rl \<Rightarrow> bool \<times> 'rl"
  gw_discovery :: "ServiceId \<Rightarrow> Endpoint list Result"
  gw_circuitPolicy :: CircuitPolicy
  gw_proxy :: "sent \<Rightarrow> Endpoint \<Rightarrow> HttpRequest \<Rightarrow> Duration \<Rightarrow> HttpResponse Result"
  gw_contextSigner :: TrustedContextSigner
  gw_upstreamTimeout :: Duration

text \<open>What a request changes; \<open>gs_sent\<close> is what the transport was handed so far.\<close>

record 'rl GatewayState =
  gs_sessions :: SessionRepository
  gs_limiter :: 'rl
  gs_sequences :: Sequences
  gs_circuits :: Circuits
  gs_sent :: sent

text \<open>Rendering an error never aborts (\<open>toClientJson_total\<close> below).\<close>

definition errorResponse :: "Error \<Rightarrow> HttpRequest \<Rightarrow> HttpResponse" where
  "errorResponse e request =
     secureResponse \<lparr>resp_status = errorHttpStatus (err_code e),
       resp_headers = [(''content-type'', ''application/json'')], resp_repeatedHeaders = [],
       resp_body = (case toClientJson e (id_value (req_correlation request)) of None \<Rightarrow> [] | Some j \<Rightarrow> j)\<rparr>"

definition retryable :: "HttpMethod \<Rightarrow> bool" where
  "retryable m = (m = Get \<or> m = Head \<or> m = Options)"

section \<open>Authentication of a protected request\<close>

definition isDpop :: "HttpRequest \<Rightarrow> bool" where
  "isDpop r = (case req_header r ''authorization'' of None \<Rightarrow> False | Some a \<Rightarrow> starts_with a ''DPoP '')"

text \<open>The check of the sender constraint of a delegated token, which may edit the request.\<close>

definition check_constraint ::
    "'rl Gateway \<Rightarrow> DelegatedAccess option \<Rightarrow> string \<Rightarrow> bool \<Rightarrow> HttpRequest \<Rightarrow> Status \<times> HttpRequest" where
  "check_constraint g delegated token dpop r =
     (case delegated of
        None \<Rightarrow> if dpop then (Inl (Error_of_code AuthenticationFailed), r) else (ok, r)
      | Some access \<Rightarrow>
          (case access_senderConstraint access of
             None \<Rightarrow> if dpop then (Inl (Error_of_code AuthenticationFailed), r) else (ok, r)
           | Some constraint \<Rightarrow>
               (case gw_senderConstraintVerifier g of
                  None \<Rightarrow> (Inl (Error_of_code AuthenticationFailed), r)
                | Some verify \<Rightarrow> verify r constraint token dpop)))"

definition authenticate_request ::
    "'rl Gateway \<Rightarrow> env \<Rightarrow> string \<Rightarrow> SessionRepository
     \<Rightarrow> (Session \<times> DelegatedAccess option) Result \<times> SessionRepository" where
  "authenticate_request g E token sessions =
     (case service_authenticate E (gw_sessionKey g) token sessions of
        (Inr s, sessions') \<Rightarrow> (Inr (s, None), sessions')
      | (Inl e, sessions') \<Rightarrow>
          (case gw_delegatedAccess g of
             None \<Rightarrow> (Inl e, sessions')
           | Some authenticateDelegated \<Rightarrow>
               (case authenticateDelegated token of
                  Inl e' \<Rightarrow> (Inl e', sessions')
                | Inr access \<Rightarrow> (Inr (access_authenticated access, Some access), sessions'))))"

definition scope_refused :: "Route \<Rightarrow> DelegatedAccess option \<Rightarrow> bool" where
  "scope_refused route delegated =
     (route_requiredScope route \<noteq> []
        \<and> (case delegated of None \<Rightarrow> True | Some a \<Rightarrow> \<not> DelegatedAccess_permits a (route_requiredScope route))
      \<or> route_requiredAudience route \<noteq> []
        \<and> (case delegated of None \<Rightarrow> True | Some a \<Rightarrow> \<not> DelegatedAccess_permitsAudience a (route_requiredAudience route)))"

fun join_scopes :: "string list \<Rightarrow> string \<Rightarrow> string" where
  "join_scopes [] acc = acc"
| "join_scopes (s # ss) acc = join_scopes ss ((if acc \<noteq> [] then acc @ '' '' else acc) @ s)"

definition set_identity ::
    "Route \<Rightarrow> Session \<Rightarrow> DelegatedAccess option \<Rightarrow> HttpRequest \<Rightarrow> HttpRequest" where
  "set_identity route s delegated r =
     (let r1 = req_setHeader ''x-openproof-organization'' (id_value (route_organization route))
            (req_setHeader ''x-openproof-assurance'' (assuranceLevelName (session_assurance s))
              (req_setHeader ''x-openproof-provider'' (id_value (session_provider s))
                (req_setHeader ''x-openproof-identity'' (id_value (session_identity s)) r)))
      in case delegated of
           None \<Rightarrow> r1
         | Some a \<Rightarrow> req_setHeader ''x-openproof-scopes'' (join_scopes (access_scopes a) [])
                       (req_setHeader ''x-openproof-client-id'' (access_clientId a) r1))"

text \<open>
  The protected part of \<^verbatim>\<open>handle\<close>: an error, or the request with the identity headers set.
\<close>

definition admit ::
    "'rl Gateway \<Rightarrow> env \<Rightarrow> Route \<Rightarrow> HttpRequest \<Rightarrow> 'rl GatewayState \<Rightarrow> Status \<times> HttpRequest \<times> 'rl GatewayState" where
  "admit g E route request s =
     (let dpop = isDpop request
      in case takeSessionCredential request of
        (Inl e, r) \<Rightarrow> (Inl e, r, s)
      | (Inr None, r) \<Rightarrow> (Inl (Error_of_code AuthenticationRequired), r, s)
      | (Inr (Some token), r) \<Rightarrow>
      (case authenticate_request g E token (gs_sessions s) of
        (Inl e, sessions) \<Rightarrow> (Inl e, r, s\<lparr>gs_sessions := sessions\<rparr>)
      | (Inr (accepted, delegated), sessions) \<Rightarrow>
      (let s1 = s\<lparr>gs_sessions := sessions\<rparr>
       in case check_constraint g delegated token dpop r of
        (Inl e, r1) \<Rightarrow> (Inl e, r1, s1)
      | (Inr _, r1) \<Rightarrow>
      if scope_refused route delegated then (Inl (Error_of_code PermissionDenied), r1, s1)
      else (case gw_rateLimiter g (''identity:'' @ id_value (session_identity accepted)) (gs_limiter s1) of
        (False, rl) \<Rightarrow> (Inl (Error_of_code RateLimited), r1, s1\<lparr>gs_limiter := rl\<rparr>)
      | (True, rl) \<Rightarrow>
          if \<not> isPermitted (gw_access g accepted route (req_correlation r1))
          then (Inl (Error_of_code PermissionDenied), r1, s1\<lparr>gs_limiter := rl\<rparr>)
          else (ok, set_identity route accepted delegated r1, s1\<lparr>gs_limiter := rl\<rparr>)))))"

section \<open>Forwarding\<close>

definition give_up :: "Error \<Rightarrow> HttpRequest \<Rightarrow> HttpResponse" where
  "give_up lastFailure request =
     errorResponse (if err_code lastFailure = Timeout then lastFailure else Error_of_code Unavailable) request"

function forward ::
    "'rl Gateway \<Rightarrow> env \<Rightarrow> ServiceId \<Rightarrow> HttpRequest \<Rightarrow> Endpoint list \<Rightarrow> nat \<Rightarrow> EndpointId list \<Rightarrow> nat \<Rightarrow> Error
     \<Rightarrow> 'rl GatewayState \<Rightarrow> HttpResponse \<times> 'rl GatewayState" where
  "forward g E service request endpoints attempts excluded sentAttempts lastFailure s =
     (if \<not> (sentAttempts < attempts \<and> length excluded < length endpoints)
      then (give_up lastFailure request, s)
      else case rr_choose service endpoints excluded (gs_sequences s) of
        (Inl _, seqs) \<Rightarrow> (give_up lastFailure request, s\<lparr>gs_sequences := seqs\<rparr>)
      | (Inr endpoint, seqs) \<Rightarrow>
      (let k = length excluded;
           eid = endpoint_id endpoint;
           excluded' = excluded @ [eid]
       in case circuit_allow (gw_circuitPolicy g) (env_now E (2 + 2 * k)) eid (gs_circuits s) of
        (False, circuits) \<Rightarrow>
          forward g E service request endpoints attempts excluded' sentAttempts lastFailure
            (s\<lparr>gs_sequences := seqs, gs_circuits := circuits\<rparr>)
      | (True, circuits) \<Rightarrow>
      (let s1 = s\<lparr>gs_sequences := seqs, gs_circuits := circuits, gs_sent := gs_sent s @ [(endpoint, request)]\<rparr>;
           failed = s1\<lparr>gs_circuits := recordFailure (gw_circuitPolicy g) (env_now E (3 + 2 * k)) eid circuits\<rparr>
       in case gw_proxy g (gs_sent s) endpoint request (gw_upstreamTimeout g) of
        Inr response \<Rightarrow>
          if resp_status response < 100 \<or> resp_status response > 599
          then (errorResponse (Error_of_code Unavailable) request, failed)
          else (secureResponse response,
                if resp_status response \<ge> 500 then failed
                else s1\<lparr>gs_circuits := recordSuccess eid circuits\<rparr>)
      | Inl e \<Rightarrow>
          forward g E service request endpoints attempts excluded' (Suc sentAttempts) e failed)))"
  by pat_completeness auto
termination
  by (relation "measure (\<lambda>(g, E, service, request, endpoints, attempts, excluded, n, e, s).
        length endpoints - length excluded)") auto

declare forward.simps [simp del]

definition gateway_handle ::
    "'rl Gateway \<Rightarrow> env \<Rightarrow> HttpRequest \<Rightarrow> 'rl GatewayState \<Rightarrow> HttpResponse \<times> 'rl GatewayState" where
  "gateway_handle g E request s =
     (case router_match (req_method request) (req_path request) (gw_routes g) of
        None \<Rightarrow> (errorResponse (Error_of_code NotFound) request, s)
      | Some route \<Rightarrow>
      (case gw_rateLimiter g (req_remoteAddress request) (gs_limiter s) of
        (False, rl) \<Rightarrow> (errorResponse (Error_of_code RateLimited) request, s\<lparr>gs_limiter := rl\<rparr>)
      | (True, rl) \<Rightarrow>
      (let r0 = stripHopByHop (stripTrustedIdentityHeaders request);
           s0 = s\<lparr>gs_limiter := rl\<rparr>
       in case (if route_protected route then admit g E route r0 s0 else (ok, r0, s0)) of
        (Inl e, r1, s1) \<Rightarrow> (errorResponse e r1, s1)
      | (Inr _, r1, s1) \<Rightarrow>
      (case signer_seal (env_from 1 E) (gw_contextSigner g)
              (req_setHeader ''x-openproof-request-id'' (id_value (req_correlation r1)) r1) of
        (Inl e, r2) \<Rightarrow> (errorResponse e r2, s1)
      | (Inr _, r2) \<Rightarrow>
      (case gw_discovery g (route_service route) of
        Inl e \<Rightarrow> (errorResponse e r2, s1)
      | Inr endpoints \<Rightarrow>
          forward g E (route_service route) r2 endpoints
            (if retryable (req_method r2) then min 2 (length endpoints) else 1)
            [] 0 (Error_of_code Unavailable) s1)))))"

section \<open>What happens to the headers on the way\<close>

lemma toClientJson_total: "toClientJson e requestId \<noteq> None"
  by (simp add: toClientJson_text)

text \<open>\<open>r'\<close> is \<open>r\<close> with headers taken away; only the cookie header may be rewritten.\<close>

definition narrows :: "HttpRequest \<Rightarrow> HttpRequest \<Rightarrow> bool" where
  "narrows r r' \<longleftrightarrow> headers_ok r' \<and> req_method r' = req_method r \<and> req_target r' = req_target r
     \<and> req_correlation r' = req_correlation r
     \<and> (\<forall>k. k \<noteq> ''cookie'' \<longrightarrow> map_of (req_headers r') k = None \<or> map_of (req_headers r') k = map_of (req_headers r) k)"

lemma narrows_refl [simp]: "narrows r r = headers_ok r"
  by (simp add: narrows_def)

lemma narrows_trans: "narrows a b \<Longrightarrow> narrows b c \<Longrightarrow> narrows a c"
  unfolding narrows_def by metis

lemma narrows_ok: "narrows r r' \<Longrightarrow> headers_ok r'"
  by (simp add: narrows_def)

lemma narrows_absent:
  "narrows r r' \<Longrightarrow> map_of (req_headers r) k = None \<Longrightarrow> k \<noteq> ''cookie'' \<Longrightarrow> map_of (req_headers r') k = None"
  unfolding narrows_def by metis

lemma narrows_erase: "headers_ok r \<Longrightarrow> narrows r (req_eraseHeader n r)"
  by (simp add: narrows_def headers_map)

lemma narrows_cookie: "headers_ok r \<Longrightarrow> narrows r (req_setHeader ''cookie'' v r)"
  by (simp add: narrows_def headers_map)

lemma narrows_erase_all: "headers_ok r \<Longrightarrow> narrows r (fold req_eraseHeader ns r)"
proof (induction ns arbitrary: r)
  case (Cons n ns)
  have "narrows r (req_eraseHeader n r)" by (rule narrows_erase [OF Cons.prems])
  moreover have "narrows (req_eraseHeader n r) (fold req_eraseHeader ns (req_eraseHeader n r))"
    using Cons by simp
  ultimately show ?case by (simp add: narrows_trans)
qed simp

lemma narrows_stripHopByHop: "headers_ok r \<Longrightarrow> narrows r (stripHopByHop r)"
  unfolding stripHopByHop_def
  by (rule narrows_trans [OF narrows_erase_all narrows_erase_all]) (simp_all add: narrows_ok [OF narrows_erase_all])

lemma take_bearer_narrows:
  assumes "headers_ok r" "take_bearer r = (result, r')"
  shows "narrows r r' \<and> map_of (req_headers r') ''authorization'' = None"
  using assms
  by (auto simp: take_bearer_def Let_def narrows_erase headers_map req_header_def split: option.splits if_splits)

lemma take_cookie_narrows: "headers_ok r \<Longrightarrow> take_cookie r = (result, r') \<Longrightarrow> narrows r r'"
  by (auto simp: take_cookie_def narrows_erase narrows_cookie split: option.splits if_splits)

lemma takeSessionCredential_narrows:
  assumes "headers_ok r" "takeSessionCredential r = (result, r')"
  shows "narrows r r' \<and> map_of (req_headers r') ''authorization'' = None"
proof -
  obtain b r1 where b: "take_bearer r = (b, r1)" by fastforce
  note bearer = take_bearer_narrows [OF assms(1) b]
  obtain c r2 where c: "take_cookie r1 = (c, r2)" by fastforce
  have cookie: "narrows r1 r2"
    using take_cookie_narrows [OF narrows_ok c] bearer by blast
  then have "map_of (req_headers r2) ''authorization'' = None"
    using narrows_absent [of r1 r2 "''authorization''"] bearer by simp
  moreover have "r' = r1 \<or> r' = r2"
    using assms(2) by (auto simp: takeSessionCredential_def b c split: sum.splits if_splits)
  ultimately show ?thesis
    using bearer cookie narrows_trans [of r r1 r2] by auto
qed

text \<open>
  What the gateway relies on in a verifier of sender constraints: it consumes proof headers and
  changes nothing else of the request.
\<close>

definition only_removes :: "(HttpRequest \<Rightarrow> DelegatedSenderConstraint \<Rightarrow> string \<Rightarrow> bool \<Rightarrow> Status \<times> HttpRequest) \<Rightarrow> bool" where
  "only_removes verify \<longleftrightarrow> (\<forall>r c t b. headers_ok r \<longrightarrow> narrows r (snd (verify r c t b)))"

definition verifier_ok :: "'rl Gateway \<Rightarrow> bool" where
  "verifier_ok g \<longleftrightarrow> (case gw_senderConstraintVerifier g of None \<Rightarrow> True | Some v \<Rightarrow> only_removes v)"

lemma check_constraint_narrows:
  assumes "verifier_ok g" "headers_ok r" "check_constraint g delegated token dpop r = (result, r')"
  shows "narrows r r'"
proof -
  have "narrows r (snd (check_constraint g delegated token dpop r))"
    using assms(1,2)
    by (auto simp: check_constraint_def verifier_ok_def only_removes_def split: option.splits)
  then show ?thesis by (simp add: assms(3))
qed

text \<open>No identity header is there that the gateway did not set.\<close>

definition no_trusted :: "HttpRequest \<Rightarrow> bool" where
  "no_trusted r \<longleftrightarrow> (\<forall>k. trusted_name k \<longrightarrow> map_of (req_headers r) k = None)"

lemma cookie_not_trusted: "\<not> trusted_name ''cookie''"
  by (simp add: trusted_name_def starts_with_def)

lemma narrows_no_trusted: "no_trusted r \<Longrightarrow> narrows r r' \<Longrightarrow> no_trusted r'"
  unfolding no_trusted_def narrows_def by (metis cookie_not_trusted)

lemma strip_method: "headers_ok r \<Longrightarrow> req_method (stripHopByHop (stripTrustedIdentityHeaders r)) = req_method r"
  using narrows_stripHopByHop [OF stripTrusted_none(1)] erase_all
  by (simp add: narrows_def stripTrustedIdentityHeaders_def)

section \<open>What is forwarded\<close>

lemma admit_ok:
  assumes "verifier_ok g" "headers_ok r" "admit g E route r s = (Inr u, r', s')"
  obtains token accepted delegated r0 r1 where
    "takeSessionCredential r = (Inr (Some token), r0)"
    "fst (authenticate_request g E token (gs_sessions s)) = Inr (accepted, delegated)"
    "check_constraint g delegated token (isDpop r) r0 = (ok, r1)"
    "\<not> scope_refused route delegated" "isPermitted (gw_access g accepted route (req_correlation r))"
    "r' = set_identity route accepted delegated r1" "narrows r r1"
    "map_of (req_headers r1) ''authorization'' = None" "gs_sent s' = gs_sent s"
proof -
  from assms(3) obtain token accepted delegated r0 r1 sessions where
      "takeSessionCredential r = (Inr (Some token), r0)"
    and auth: "authenticate_request g E token (gs_sessions s) = (Inr (accepted, delegated), sessions)"
    and check: "check_constraint g delegated token (isDpop r) r0 = (ok, r1)"
      "\<not> scope_refused route delegated" "isPermitted (gw_access g accepted route (req_correlation r1))"
      "r' = set_identity route accepted delegated r1" "gs_sent s' = gs_sent s"
    by (auto simp: admit_def Let_def split: prod.splits sum.splits option.splits if_splits bool.splits)
  moreover note cred = takeSessionCredential_narrows [OF assms(2) calculation(1)]
  moreover have "narrows r0 r1"
    using check_constraint_narrows [OF assms(1) _ check(1)] cred narrows_ok by blast
  moreover from calculation have "narrows r r1" "map_of (req_headers r1) ''authorization'' = None"
    using narrows_trans narrows_absent [of r0 r1 "''authorization''"] by auto
  moreover from this have "req_correlation r1 = req_correlation r" by (simp add: narrows_def)
  ultimately show thesis
    using that by simp
qed

lemma pick_mem: "pick excluded slot cursor es = Some e \<Longrightarrow> e \<in> set es \<and> endpoint_id e \<notin> set excluded"
  by (induction es arbitrary: cursor) (auto simp: Let_def split: if_splits)

lemma rr_choose_mem:
  "rr_choose service es excluded m = (Inr e, m') \<Longrightarrow> e \<in> set es \<and> endpoint_id e \<notin> set excluded"
  by (auto simp: rr_choose_def Let_def split: if_splits option.splits dest: pick_mem)

text \<open>
  A pass of the loop sends the request it was given, to listed endpoints outside the excluded ones,
  each at most once, and no more often than the attempts left.
\<close>

definition forwarded ::
    "sent \<Rightarrow> HttpRequest \<Rightarrow> Endpoint list \<Rightarrow> EndpointId list \<Rightarrow> nat \<Rightarrow> bool" where
  "forwarded xs request endpoints excluded n \<longleftrightarrow>
     length xs \<le> n \<and> distinct (map (endpoint_id \<circ> fst) xs)
     \<and> (\<forall>(ep, q) \<in> set xs. q = request \<and> ep \<in> set endpoints \<and> endpoint_id ep \<notin> set excluded)"

lemma forwarded_Nil [simp]: "forwarded [] request endpoints excluded n"
  by (simp add: forwarded_def)

lemma forwarded_weaken:
  "forwarded xs request endpoints (excluded @ [eid]) n \<Longrightarrow> forwarded xs request endpoints excluded n"
  by (auto simp: forwarded_def)

lemma forwarded_Cons:
  assumes "forwarded xs request endpoints (excluded @ [endpoint_id ep]) (n - Suc k)" "k < n"
    and "ep \<in> set endpoints" "endpoint_id ep \<notin> set excluded"
  shows "forwarded ((ep, request) # xs) request endpoints excluded (n - k)"
  using assms by (auto simp: forwarded_def)

lemma forward_sends:
  "\<exists>xs. gs_sent (snd (forward g E service request endpoints attempts excluded k e s)) = gs_sent s @ xs
     \<and> forwarded xs request endpoints excluded (attempts - k)"
proof (induction g E service request endpoints attempts excluded k e s rule: forward.induct)
  case (1 g E service request endpoints attempts excluded k e s)
  let ?goal = "\<lambda>t. \<exists>xs. gs_sent (snd t) = gs_sent s @ xs \<and> forwarded xs request endpoints excluded (attempts - k)"
  have stop: "?goal (r, t)" if "gs_sent t = gs_sent s" for r and t
    using that by simp
  show ?case
  proof (cases "k < attempts \<and> length excluded < length endpoints")
    case False
    then show ?thesis by (subst forward.simps) (simp add: stop)
  next
    case loop: True
    show ?thesis
    proof (cases "rr_choose service endpoints excluded (gs_sequences s)")
      case (Pair choice seqs)
      show ?thesis
      proof (cases choice)
        case (Inl err)
        then show ?thesis using loop Pair by (subst forward.simps) (simp add: stop)
      next
        case (Inr ep)
        have ep: "ep \<in> set endpoints" "endpoint_id ep \<notin> set excluded"
          using rr_choose_mem Pair Inr by blast+
        have one: "forwarded [(ep, request)] request endpoints excluded (attempts - k)"
          using loop ep by (auto simp: forwarded_def Suc_le_eq)
        obtain allowed circuits where allow: "circuit_allow (gw_circuitPolicy g) (env_now E (2 + 2 * length excluded))
            (endpoint_id ep) (gs_circuits s) = (allowed, circuits)" by fastforce
        show ?thesis
        proof (cases allowed)
          case False
          from "1.IH"(2) [OF _ Pair [symmetric] Inr refl refl refl allow [symmetric]] loop False obtain xs where
              "gs_sent (snd (forward g E service request endpoints attempts (excluded @ [endpoint_id ep]) k e
                 (s\<lparr>gs_sequences := seqs, gs_circuits := circuits\<rparr>))) = gs_sent s @ xs"
              "forwarded xs request endpoints (excluded @ [endpoint_id ep]) (attempts - k)"
            by auto
          then show ?thesis
            using loop Pair Inr allow False by (subst forward.simps) (auto dest: forwarded_weaken)
        next
          case True
          let ?s1 = "s\<lparr>gs_sequences := seqs, gs_circuits := circuits, gs_sent := gs_sent s @ [(ep, request)]\<rparr>"
          let ?failed = "?s1\<lparr>gs_circuits := recordFailure (gw_circuitPolicy g) (env_now E (3 + 2 * length excluded)) (endpoint_id ep) circuits\<rparr>"
          show ?thesis
          proof (cases "gw_proxy g (gs_sent s) ep request (gw_upstreamTimeout g)")
            case (Inr response)
            then show ?thesis
              using loop Pair \<open>choice = Inr ep\<close> allow True one
              by (subst forward.simps) (auto simp: Let_def)
          next
            case (Inl err)
            from "1.IH"(1) [OF _ Pair [symmetric] \<open>choice = Inr ep\<close> refl refl refl allow [symmetric] _ refl refl Inl] loop True
            obtain xs where
                "gs_sent (snd (forward g E service request endpoints attempts (excluded @ [endpoint_id ep]) (Suc k) err ?failed))
                   = (gs_sent s @ [(ep, request)]) @ xs"
                "forwarded xs request endpoints (excluded @ [endpoint_id ep]) (attempts - Suc k)"
              by auto
            then show ?thesis
              using loop Pair \<open>choice = Inr ep\<close> allow True Inl forwarded_Cons [of xs request endpoints excluded ep attempts k] ep
              by (subst forward.simps) (auto simp: Let_def)
          qed
        qed
      qed
    qed
  qed
qed

text \<open>The identity headers of a forwarded request, as a function of the accepted session.\<close>

definition identity_headers :: "Route \<Rightarrow> Session \<Rightarrow> DelegatedAccess option \<Rightarrow> string \<rightharpoonup> string" where
  "identity_headers route s delegated =
     [''x-openproof-identity'' \<mapsto> id_value (session_identity s),
      ''x-openproof-provider'' \<mapsto> id_value (session_provider s),
      ''x-openproof-assurance'' \<mapsto> assuranceLevelName (session_assurance s),
      ''x-openproof-organization'' \<mapsto> id_value (route_organization route)]
     ++ (case delegated of None \<Rightarrow> Map.empty
         | Some a \<Rightarrow> [''x-openproof-client-id'' \<mapsto> access_clientId a,
                      ''x-openproof-scopes'' \<mapsto> join_scopes (access_scopes a) []])"

definition seal_names :: "string set" where
  "seal_names = {''x-openproof-request-id'', ''x-openproof-context-issued-at'', ''x-openproof-context-signature''}"

lemma set_identity_headers:
  assumes "headers_ok r"
  shows "headers_ok (set_identity route s delegated r)"
    and "map_of (req_headers (set_identity route s delegated r)) = map_of (req_headers r) ++ identity_headers route s delegated"
  using assms
  by (auto simp: set_identity_def Let_def headers_map identity_headers_def fun_eq_iff map_add_def split: option.split)

lemma seal_headers:
  assumes "headers_ok r" "signer_seal E s r = (Inr u, r')" "k \<notin> seal_names"
  shows "map_of (req_headers r') k = map_of (req_headers r) k"
  using assms
  by (auto simp: signer_seal_def Let_def headers_map seal_names_def split: sum.splits)

lemma seal_method: "signer_seal E s r = (Inr u, r') \<Longrightarrow> req_method r' = req_method r"
  by (auto simp: signer_seal_def Let_def split: sum.splits)

lemma set_identity_method [simp]: "req_method (set_identity route s delegated r) = req_method r"
  by (simp add: set_identity_def Let_def split: option.split)

lemma trusted_identity_names: "trusted_name k \<Longrightarrow> no_trusted r \<Longrightarrow>
    (map_of (req_headers r) ++ identity_headers route s delegated) k = identity_headers route s delegated k"
  by (simp add: no_trusted_def map_add_def split: option.split)

lemma identity_headers_authorization [simp]: "identity_headers route s delegated ''authorization'' = None"
  by (simp add: identity_headers_def map_add_def split: option.split)

text \<open>
  How a request on a protected route may get through: the credential it carries is that of a session
  or of a delegated token, a sender constraint has been proved, the scope and the audience of the
  route are granted, and the access controller permits the accepted identity.
\<close>

definition admitted ::
    "'rl Gateway \<Rightarrow> env \<Rightarrow> Route \<Rightarrow> HttpRequest \<Rightarrow> 'rl GatewayState \<Rightarrow> Session \<Rightarrow> DelegatedAccess option \<Rightarrow> bool" where
  "admitted g E route r s accepted delegated \<longleftrightarrow>
     (\<exists>token r0 r1. takeSessionCredential r = (Inr (Some token), r0)
        \<and> (case delegated of
             None \<Rightarrow> fst (service_authenticate E (gw_sessionKey g) token (gs_sessions s)) = Inr accepted
           | Some access \<Rightarrow> access_authenticated access = accepted
               \<and> (\<exists>auth. gw_delegatedAccess g = Some auth \<and> auth token = Inr access))
        \<and> check_constraint g delegated token (isDpop r) r0 = (ok, r1))
     \<and> \<not> scope_refused route delegated
     \<and> isPermitted (gw_access g accepted route (req_correlation r))"

lemma authenticate_request_cases:
  assumes "fst (authenticate_request g E token sessions) = Inr (accepted, delegated)"
  shows "case delegated of
      None \<Rightarrow> fst (service_authenticate E (gw_sessionKey g) token sessions) = Inr accepted
    | Some access \<Rightarrow> access_authenticated access = accepted
        \<and> (\<exists>auth. gw_delegatedAccess g = Some auth \<and> auth token = Inr access)"
  using assms by (auto simp: authenticate_request_def split: prod.splits sum.splits option.splits)

lemma admit_sent: "gs_sent (snd (snd (admit g E route r s))) = gs_sent s"
  by (simp add: admit_def Let_def split: prod.split sum.split option.split bool.split)

lemma gateway_handle_sends:
  assumes "gateway_handle g E request s = (response, s')"
  obtains "gs_sent s' = gs_sent s"
  | route rl r1 s1 q endpoints where
    "router_match (req_method request) (req_path request) (gw_routes g) = Some route"
    "(if route_protected route
      then admit g E route (stripHopByHop (stripTrustedIdentityHeaders request)) (s\<lparr>gs_limiter := rl\<rparr>)
      else (ok, stripHopByHop (stripTrustedIdentityHeaders request), s\<lparr>gs_limiter := rl\<rparr>)) = (ok, r1, s1)"
    "signer_seal (env_from 1 E) (gw_contextSigner g)
       (req_setHeader ''x-openproof-request-id'' (id_value (req_correlation r1)) r1) = (ok, q)"
    "gw_discovery g (route_service route) = Inr endpoints"
    "s' = snd (forward g E (route_service route) q endpoints
       (if retryable (req_method q) then min 2 (length endpoints) else 1) [] 0 (Error_of_code Unavailable) s1)"
    "gs_sent s1 = gs_sent s"
proof -
  let ?r0 = "stripHopByHop (stripTrustedIdentityHeaders request)"
  let ?prep = "\<lambda>route rl. if route_protected route then admit g E route ?r0 (s\<lparr>gs_limiter := rl\<rparr>)
      else (ok, ?r0, s\<lparr>gs_limiter := rl\<rparr>)"
  have sent: "gs_sent (snd (snd (?prep route rl))) = gs_sent s" for route rl
    by (simp add: admit_sent)
  show thesis
  proof (cases "router_match (req_method request) (req_path request) (gw_routes g)")
    case None
    then show thesis using assms that(1) by (simp add: gateway_handle_def)
  next
    case (Some route)
    obtain allowed rl where rl: "gw_rateLimiter g (req_remoteAddress request) (gs_limiter s) = (allowed, rl)" by fastforce
    obtain res r1 s1 where prep: "?prep route rl = (res, r1, s1)" by (metis prod_cases3)
    then have s1: "gs_sent s1 = gs_sent s" using sent [of route rl] by simp
    obtain sealed q where seal: "signer_seal (env_from 1 E) (gw_contextSigner g)
        (req_setHeader ''x-openproof-request-id'' (id_value (req_correlation r1)) r1) = (sealed, q)" by fastforce
    note unfolded = assms [unfolded gateway_handle_def Let_def Some option.case rl prod.case, folded One_nat_def]
    show thesis
    proof (cases "allowed \<and> res = ok \<and> sealed = ok \<and> (\<exists>es. gw_discovery g (route_service route) = Inr es)")
      case True
      then obtain es where "gw_discovery g (route_service route) = Inr es" by blast
      then show thesis
        using unfolded True prep seal Some s1 that(2) [of route rl r1 s1 q es] by (simp del: One_nat_def)
    next
      case False
      then have "gs_sent s' = gs_sent s"
        using unfolded s1 by (auto simp: prep seal simp del: One_nat_def split: bool.splits sum.splits)
      then show thesis by (rule that(1))
    qed
  qed
qed

text \<open>
  The headers \<open>hs\<close> tell the truth about a request \<open>r0\<close>, apart from the names in \<open>except\<close>: on a
  protected route \<open>r0\<close> was admitted, the credential is gone and the trusted headers are exactly those
  derived from the accepted session; on an open route there are none.
\<close>

definition truthful :: "'rl Gateway \<Rightarrow> env \<Rightarrow> Route \<Rightarrow> HttpRequest \<Rightarrow> 'rl GatewayState \<Rightarrow> (string \<rightharpoonup> string) \<Rightarrow> string set \<Rightarrow> bool" where
  "truthful g E route r0 s hs except \<longleftrightarrow>
     (if route_protected route
      then (\<exists>accepted delegated. admitted g E route r0 s accepted delegated \<and> hs ''authorization'' = None
         \<and> (\<forall>k. trusted_name k \<and> k \<notin> except \<longrightarrow> hs k = identity_headers route accepted delegated k))
      else (\<forall>k. trusted_name k \<and> k \<notin> except \<longrightarrow> hs k = None))"

lemma prepared_truthful:
  assumes "verifier_ok g" "headers_ok r0" "no_trusted r0" "gs_sessions s0 = gs_sessions s"
    and "(if route_protected route then admit g E route r0 s0 else (ok, r0, s0)) = (ok, r1, s1)"
  shows "headers_ok r1" "req_method r1 = req_method r0" "truthful g E route r0 s (map_of (req_headers r1)) {}"
proof -
  have "headers_ok r1 \<and> req_method r1 = req_method r0 \<and> truthful g E route r0 s (map_of (req_headers r1)) {}"
  proof (cases "route_protected route")
    case True
    then have "admit g E route r0 s0 = (ok, r1, s1)" using assms(5) by simp
    then obtain token accepted delegated r2 r3 where adm:
        "takeSessionCredential r0 = (Inr (Some token), r2)"
        "fst (authenticate_request g E token (gs_sessions s)) = Inr (accepted, delegated)"
        "check_constraint g delegated token (isDpop r0) r2 = (ok, r3)"
        "\<not> scope_refused route delegated" "isPermitted (gw_access g accepted route (req_correlation r0))"
        "r1 = set_identity route accepted delegated r3" "narrows r0 r3"
        "map_of (req_headers r3) ''authorization'' = None"
      using admit_ok [OF assms(1,2), of E route s0 "()"] assms(4) by metis
    then have "admitted g E route r0 s accepted delegated"
      using authenticate_request_cases [OF adm(2)] unfolding admitted_def by blast
    moreover have r3: "headers_ok r3" "no_trusted r3" "req_method r3 = req_method r0"
      using adm(7) narrows_ok narrows_no_trusted [OF assms(3)] by (auto simp: narrows_def)
    moreover have "map_of (req_headers r1) k = identity_headers route accepted delegated k" if "trusted_name k" for k
      using trusted_identity_names [OF that r3(2)] by (simp add: adm(6) set_identity_headers [OF r3(1)])
    moreover have "headers_ok r1" "req_method r1 = req_method r0" "map_of (req_headers r1) ''authorization'' = None"
      using adm(8) r3 by (simp_all add: adm(6) set_identity_headers [OF r3(1)] map_add_def)
    ultimately show ?thesis
      using True unfolding truthful_def by auto
  next
    case False
    then show ?thesis using assms by (auto simp: truthful_def no_trusted_def)
  qed
  then show "headers_ok r1" "req_method r1 = req_method r0" "truthful g E route r0 s (map_of (req_headers r1)) {}"
    by simp_all
qed

lemma truthful_seal:
  assumes "truthful g E route r0 s hs {}" "\<And>k. k \<notin> seal_names \<Longrightarrow> hs' k = hs k"
  shows "truthful g E route r0 s hs' seal_names"
proof -
  have "''authorization'' \<notin> seal_names" by (simp add: seal_names_def)
  with assms(2) have "hs' ''authorization'' = hs ''authorization''" by blast
  with assms show ?thesis by (simp add: truthful_def split: if_splits) blast
qed


text \<open>A client that claims an identity of its own choice on an open route.\<close>

definition sample_gateway :: "unit Gateway" where
  "sample_gateway =
     \<lparr>gw_routes = [\<lparr>route_id = StrongId ''r'', route_method = Get, route_pathPrefix = ''/'',
        route_service = StrongId ''api'', route_protected = False, route_organization = StrongId [],
        route_action = StrongId [], route_resource = StrongId [], route_requiredScope = [],
        route_requiredAudience = []\<rparr>],
      gw_sessionKey = \<lparr>key_secret = ''key''\<rparr>, gw_delegatedAccess = None,
      gw_senderConstraintVerifier = None, gw_access = (\<lambda>_ _ _. decide Deny []),
      gw_rateLimiter = (\<lambda>_ rl. (True, rl)), gw_discovery = (\<lambda>_. Inr [sample_endpoint ''a'' 1]),
      gw_circuitPolicy = \<lparr>circuit_failureThreshold = 1, circuit_openDuration = 50\<rparr>,
      gw_proxy = (\<lambda>_ _ _ _. Inr \<lparr>resp_status = 200, resp_headers = [], resp_repeatedHeaders = [], resp_body = []\<rparr>),
      gw_contextSigner = \<lparr>signer_key = ''key'', signer_maximumAge = 30000\<rparr>,
      gw_upstreamTimeout = 1000\<rparr>"

abbreviation sample_state :: "unit GatewayState" where
  "sample_state \<equiv> \<lparr>gs_sessions = empty_sessions, gs_limiter = (), gs_sequences = [],
     gs_circuits = [], gs_sent = []\<rparr>"

abbreviation forged_request :: HttpRequest where
  "forged_request \<equiv> \<lparr>req_method = Get, req_target = ''/x'', req_path = ''/x'',
     req_headers = [(''x-openproof-identity'', ''root'')], req_body = [], req_remoteAddress = ''10.0.0.1'',
     req_correlation = StrongId ''c1''\<rparr>"

lemma forged_request_accepted:
  "HttpRequest_create Get ''/x'' [(''X-OpenProof-Identity'', ''root'')] [] ''10.0.0.1'' (StrongId ''c1'') = Inr forged_request"
  by (simp add: HttpRequest_create_def starts_with_def invalidTargetCharacter_def hasControl_def Let_def
      isHeaderName_def is_lower_char_def is_upper_char_def is_digit_char_def lowercase_def lower_char_def
      omap_contains_def isAmbiguousSingleton_def) code_simp

lemma sample_hmac: "\<exists>d. hmacSha256 sample_env ''key'' t = Inr d"
  by (simp add: hmacSha256_def sample_env_def int_max_def)

lemma forged_request_sent: "gs_sent (snd (gateway_handle sample_gateway sample_env forged_request sample_state)) \<noteq> []"
proof -
  obtain h where h: "hmacSha256 sample_env ''key'' t = Inr (h t)" for t
    using sample_hmac by metis
  show ?thesis
    by (simp add: gateway_handle_def sample_gateway_def router_match_def better_route_def prefixMatches_def
        starts_with_def Let_def signer_seal_def h hmac_from forward.simps retryable_def rr_choose_def
        sequence_of_def circuit_allow_def entry_of_def fresh_entry_def allow_entry_def)
qed


end
