(* ===== verification/Account_Challenges.thy ===== *)
theory Account_Challenges
  imports Identity_Directory
begin

text \<open>
  Verification challenges and subject reservations: \<^verbatim>\<open>src/src/account/model.cpp\<close> and
  \<^verbatim>\<open>repository.cpp\<close>. A challenge is stored with a counter of failed presentations next to
  it; a reservation keeps an external subject for one identity until it expires.
\<close>

section \<open>The challenge\<close>

datatype VerificationIdTag = VerificationIdTag

type_synonym VerificationId = "VerificationIdTag StrongId"
type_synonym VerificationDigest = "byte list"

datatype VerificationPurpose = SignupEmail | ChangeEmail | VerifyPhone | PasswordReset

datatype VerificationChannel = ChannelEmail | ChannelSms

fun verificationPurposeName :: "VerificationPurpose \<Rightarrow> string" where
  "verificationPurposeName SignupEmail = ''signup_email''"
| "verificationPurposeName ChangeEmail = ''change_email''"
| "verificationPurposeName VerifyPhone = ''verify_phone''"
| "verificationPurposeName PasswordReset = ''password_reset''"

fun verificationChannelName :: "VerificationChannel \<Rightarrow> string" where
  "verificationChannelName ChannelEmail = ''email''" | "verificationChannelName ChannelSms = ''sms''"

record VerificationChallenge =
  vc_id :: VerificationId
  vc_identity :: IdentityId
  vc_purpose :: VerificationPurpose
  vc_channel :: VerificationChannel
  vc_destination :: string
  vc_digest :: VerificationDigest
  vc_createdAt :: Instant
  vc_expiresAt :: Instant
  vc_attempts :: "32 word"

definition VerificationChallenge_create ::
    "VerificationId \<Rightarrow> IdentityId \<Rightarrow> VerificationPurpose \<Rightarrow> VerificationChannel \<Rightarrow> string \<Rightarrow> VerificationDigest
     \<Rightarrow> Instant \<Rightarrow> Duration \<Rightarrow> VerificationChallenge Result" where
  "VerificationChallenge_create vid identity purpose channel destination digest createdAt lifetime =
     (if StrongId_empty vid \<or> StrongId_empty identity \<or> destination = [] \<or> length destination > 512 \<or> lifetime \<le> 0
      then fail_msg InvalidArgument ''The verification challenge is invalid.''
      else Inr \<lparr>vc_id = vid, vc_identity = identity, vc_purpose = purpose, vc_channel = channel,
                vc_destination = destination, vc_digest = digest, vc_createdAt = createdAt,
                vc_expiresAt = createdAt + lifetime, vc_attempts = 0\<rparr>)"

definition VerificationChallenge_restore ::
    "VerificationId \<Rightarrow> IdentityId \<Rightarrow> VerificationPurpose \<Rightarrow> VerificationChannel \<Rightarrow> string \<Rightarrow> VerificationDigest
     \<Rightarrow> Instant \<Rightarrow> Instant \<Rightarrow> 32 word \<Rightarrow> VerificationChallenge Result" where
  "VerificationChallenge_restore vid identity purpose channel destination digest createdAt expiresAt attempts =
     (if StrongId_empty vid \<or> StrongId_empty identity \<or> destination = [] \<or> length destination > 512
         \<or> expiresAt \<le> createdAt
      then fail_msg Internal ''Stored verification challenge data is invalid.''
      else Inr \<lparr>vc_id = vid, vc_identity = identity, vc_purpose = purpose, vc_channel = channel,
                vc_destination = destination, vc_digest = digest, vc_createdAt = createdAt,
                vc_expiresAt = expiresAt, vc_attempts = attempts\<rparr>)"

definition vc_expiredAt :: "VerificationChallenge \<Rightarrow> Instant \<Rightarrow> bool" where
  "vc_expiredAt c now = (now \<ge> vc_expiresAt c)"

record VerificationDispatch =
  dispatch_id :: VerificationId
  dispatch_identity :: IdentityId
  dispatch_purpose :: VerificationPurpose
  dispatch_channel :: VerificationChannel
  dispatch_destination :: string
  dispatch_secret :: string
  dispatch_expiresAt :: Instant

section \<open>The repository\<close>

record ChallengeState =
  cs_challenge :: VerificationChallenge
  cs_attempts :: "32 word"

record Reservation =
  resv_identity :: IdentityId
  resv_expiresAt :: Instant

record AccountRepository =
  acct_challenges :: "(VerificationId, ChallengeState) omap"
  acct_reservations :: "(RefKey, Reservation) omap"

definition empty_account_repository :: AccountRepository where
  "empty_account_repository = \<lparr>acct_challenges = [], acct_reservations = []\<rparr>"

definition same_ceremony :: "VerificationChallenge \<Rightarrow> ChallengeState \<Rightarrow> bool" where
  "same_ceremony challenge s =
     (vc_identity (cs_challenge s) = vc_identity challenge \<and> vc_purpose (cs_challenge s) = vc_purpose challenge)"

definition challenges_replace :: "VerificationChallenge \<Rightarrow> AccountRepository \<Rightarrow> Status \<times> AccountRepository" where
  "challenges_replace challenge r =
     (ok, r\<lparr>acct_challenges := omap_emplace (vc_id challenge) \<lparr>cs_challenge = challenge, cs_attempts = 0\<rparr>
              (filter (\<lambda>(k, s). \<not> same_ceremony challenge s) (acct_challenges r))\<rparr>)"

definition challenges_consume ::
    "VerificationId \<Rightarrow> VerificationDigest \<Rightarrow> Instant \<Rightarrow> 32 word \<Rightarrow> IdentityId option \<Rightarrow> AccountRepository
     \<Rightarrow> VerificationChallenge Result \<times> AccountRepository" where
  "challenges_consume vid presented now maximumAttempts expectedIdentity r =
     (if maximumAttempts = 0 then (fail_msg InvalidArgument ''Verification attempt policy is invalid.'', r)
      else case map_of (acct_challenges r) vid of
        None \<Rightarrow> (Inl (authFailure ''Verification challenge is unknown or consumed.''), r)
      | Some found \<Rightarrow>
          let erased = r\<lparr>acct_challenges := omap_erase vid (acct_challenges r)\<rparr>
          in if expectedIdentity \<noteq> None \<and> Some (vc_identity (cs_challenge found)) \<noteq> expectedIdentity
             then (Inl (authFailure ''Verification challenge does not belong to the authenticated identity.''), r)
             else if vc_expiredAt (cs_challenge found) now \<or> cs_attempts found \<ge> maximumAttempts
             then (Inl (authFailure ''Verification challenge expired or exhausted.''), erased)
             else if \<not> constantTimeEquals (vc_digest (cs_challenge found)) presented
             then (Inl (authFailure ''Verification secret did not match.''),
                   if cs_attempts found + 1 \<ge> maximumAttempts then erased
                   else r\<lparr>acct_challenges :=
                     omap_modify vid (cs_attempts_update (\<lambda>n. n + 1)) (acct_challenges r)\<rparr>)
             else (Inr (cs_challenge found), erased))"

definition reserveSubject ::
    "ExternalIdentityRef \<Rightarrow> IdentityId \<Rightarrow> Instant \<Rightarrow> Instant \<Rightarrow> AccountRepository \<Rightarrow> Status \<times> AccountRepository" where
  "reserveSubject external identity now expiresAt r =
     (if StrongId_empty (ext_providerId external) \<or> StrongId_empty (ext_subject external) \<or> StrongId_empty identity
      then (fail_msg InvalidArgument ''An account subject reservation is invalid.'', r)
      else let k = ref_key external;
               lapsed = (case map_of (acct_reservations r) k of None \<Rightarrow> False | Some found \<Rightarrow> now \<ge> resv_expiresAt found);
               current = (if lapsed then omap_erase k (acct_reservations r) else acct_reservations r)
           in case map_of current k of
                Some found \<Rightarrow>
                  if resv_identity found = identity
                  then (ok, r\<lparr>acct_reservations := omap_modify k (resv_expiresAt_update (\<lambda>_. expiresAt)) current\<rparr>)
                  else (fail_msg AlreadyExists ''That account identifier is already reserved.'',
                        r\<lparr>acct_reservations := current\<rparr>)
              | None \<Rightarrow>
                  (ok, r\<lparr>acct_reservations :=
                     omap_emplace k \<lparr>resv_identity = identity, resv_expiresAt = expiresAt\<rparr> current\<rparr>))"

definition reservedOwner :: "ExternalIdentityRef \<Rightarrow> Instant \<Rightarrow> AccountRepository \<Rightarrow> IdentityId option Result" where
  "reservedOwner external now r =
     (case map_of (acct_reservations r) (ref_key external) of
        None \<Rightarrow> Inr None
      | Some found \<Rightarrow> if now \<ge> resv_expiresAt found then Inr None else Inr (Some (resv_identity found)))"

definition releaseSubject :: "ExternalIdentityRef \<Rightarrow> IdentityId \<Rightarrow> AccountRepository \<Rightarrow> Status \<times> AccountRepository" where
  "releaseSubject external expectedOwner r =
     (case map_of (acct_reservations r) (ref_key external) of
        None \<Rightarrow> (ok, r)
      | Some found \<Rightarrow>
          if resv_identity found \<noteq> expectedOwner
          then (fail_msg PermissionDenied ''That account reservation belongs to another identity.'', r)
          else (ok, r\<lparr>acct_reservations := omap_erase (ref_key external) (acct_reservations r)\<rparr>))"

section \<open>What a history of calls can do with one challenge\<close>

datatype challenge_call =
    ReplaceChallenge VerificationChallenge
  | PresentSecret VerificationId VerificationDigest Instant "IdentityId option"
  | Reserve ExternalIdentityRef IdentityId Instant Instant
  | Release ExternalIdentityRef IdentityId

fun challenge_step ::
    "32 word \<Rightarrow> challenge_call \<Rightarrow> AccountRepository \<Rightarrow> VerificationChallenge option Result \<times> AccountRepository" where
  "challenge_step M (ReplaceChallenge c) r =
     (case challenges_replace c r of (res, r') \<Rightarrow> (map_sum id (\<lambda>_. None) res, r'))"
| "challenge_step M (PresentSecret vid d now expected) r =
     (case challenges_consume vid d now M expected r of (res, r') \<Rightarrow> (map_sum id Some res, r'))"
| "challenge_step M (Reserve e i now till) r =
     (case reserveSubject e i now till r of (res, r') \<Rightarrow> (map_sum id (\<lambda>_. None) res, r'))"
| "challenge_step M (Release e i) r =
     (case releaseSubject e i r of (res, r') \<Rightarrow> (map_sum id (\<lambda>_. None) res, r'))"

text \<open>
  A call compares the presented digest with the stored one when it is not turned away before; it
  hands the challenge out when they agree.
\<close>

fun challenge_compares :: "32 word \<Rightarrow> AccountRepository \<Rightarrow> challenge_call \<Rightarrow> VerificationId \<Rightarrow> bool" where
  "challenge_compares M r (PresentSecret vid d now expected) k =
     (vid = k \<and> (case map_of (acct_challenges r) k of
        None \<Rightarrow> False
      | Some s \<Rightarrow> (expected = None \<or> expected = Some (vc_identity (cs_challenge s)))
                 \<and> now < vc_expiresAt (cs_challenge s) \<and> cs_attempts s < M))"
| "challenge_compares M r _ k = False"

fun challenge_redeems :: "32 word \<Rightarrow> AccountRepository \<Rightarrow> challenge_call \<Rightarrow> VerificationId \<Rightarrow> bool" where
  "challenge_redeems M r (PresentSecret vid d now expected) k =
     (vid = k \<and> succeeded (fst (challenges_consume vid d now M expected r)))"
| "challenge_redeems M r _ k = False"

fun challenge_adds :: "AccountRepository \<Rightarrow> challenge_call \<Rightarrow> VerificationId \<Rightarrow> bool" where
  "challenge_adds r (ReplaceChallenge c) k = (vc_id c = k)"
| "challenge_adds r _ k = False"

definition challenge_has :: "AccountRepository \<Rightarrow> VerificationId \<Rightarrow> bool" where
  "challenge_has r k = (map_of (acct_challenges r) k \<noteq> None)"

definition challenge_budget :: "32 word \<Rightarrow> AccountRepository \<Rightarrow> VerificationId \<Rightarrow> nat" where
  "challenge_budget M r k =
     (case map_of (acct_challenges r) k of None \<Rightarrow> 0 | Some s \<Rightarrow> unat M - unat (cs_attempts s))"

definition account_repository_inv :: "AccountRepository \<Rightarrow> bool" where
  "account_repository_inv r \<longleftrightarrow>
     omap_ok (acct_challenges r) \<and> omap_ok (acct_reservations r)
     \<and> (\<forall>k s. map_of (acct_challenges r) k = Some s \<longrightarrow> vc_id (cs_challenge s) = k)"

lemma account_repository_invD:
  "account_repository_inv r \<Longrightarrow> omap_ok (acct_challenges r)"
  "account_repository_inv r \<Longrightarrow> omap_ok (acct_reservations r)"
  "account_repository_inv r \<Longrightarrow> map_of (acct_challenges r) k = Some s \<Longrightarrow> vc_id (cs_challenge s) = k"
  by (simp_all add: account_repository_inv_def)

lemma account_repository_inv_empty [simp]: "account_repository_inv empty_account_repository"
  by (simp add: account_repository_inv_def empty_account_repository_def)

text \<open>The stored challenges after each operation.\<close>

lemma map_of_replace:
  assumes "account_repository_inv r"
  shows "map_of (acct_challenges (snd (challenges_replace c r))) k =
    (case map_of (acct_challenges r) k of
       Some s \<Rightarrow> if same_ceremony c s then if k = vc_id c then Some \<lparr>cs_challenge = c, cs_attempts = 0\<rparr> else None
                 else Some s
     | None \<Rightarrow> if k = vc_id c then Some \<lparr>cs_challenge = c, cs_attempts = 0\<rparr> else None)"
  using account_repository_invD(1) [OF assms]
  by (auto simp: challenges_replace_def map_of_emplace omap_ok_filter map_of_filter_values split: option.splits)

lemma reservation_frame [simp]:
  "acct_challenges (snd (reserveSubject e i now till r)) = acct_challenges r"
  "acct_challenges (snd (releaseSubject e i r)) = acct_challenges r"
  by (auto simp: reserveSubject_def releaseSubject_def Let_def split: option.split)

lemma reservation_inv:
  assumes "account_repository_inv r"
  shows "account_repository_inv (snd (reserveSubject e i now till r))"
    "account_repository_inv (snd (releaseSubject e i r))"
  using assms
  by (auto simp: account_repository_inv_def reserveSubject_def releaseSubject_def Let_def omap_ok_erase
      omap_ok_emplace split: option.splits)

lemma replace_inv: "account_repository_inv r \<Longrightarrow> account_repository_inv (snd (challenges_replace c r))"
  using map_of_replace [of r c]
  by (auto simp: account_repository_inv_def challenges_replace_def omap_ok_emplace omap_ok_filter
      split: option.splits if_splits)

lemma consume_inv: "account_repository_inv r \<Longrightarrow> account_repository_inv (snd (challenges_consume vid d now M e r))"
  by (auto simp: account_repository_inv_def challenges_consume_def Let_def omap_ok_erase map_of_erase
      map_of_modify split: option.splits if_splits)

lemmas account_repository_inv_ops = reservation_inv replace_inv consume_inv

text \<open>A successful presentation, and what it leaves.\<close>

lemma challenges_consume_Inr:
  assumes "challenges_consume vid d now M expected r = (Inr c, r')" "account_repository_inv r"
  shows "\<exists>s. map_of (acct_challenges r) vid = Some s \<and> c = cs_challenge s \<and> vc_digest c = d \<and> now < vc_expiresAt c
    \<and> cs_attempts s < M \<and> vc_id c = vid \<and> (expected = None \<or> expected = Some (vc_identity c))
    \<and> r' = r\<lparr>acct_challenges := omap_erase vid (acct_challenges r)\<rparr>"
  using assms(1) account_repository_invD(3) [OF assms(2)]
  by (auto simp: challenges_consume_def vc_expiredAt_def Let_def split: if_splits option.splits)

lemma challenges_consume_succeeded:
  assumes "account_repository_inv r" "succeeded (fst (challenges_consume vid d now M expected r))"
  shows "map_of (acct_challenges r) vid \<noteq> None
    \<and> snd (challenges_consume vid d now M expected r) = r\<lparr>acct_challenges := omap_erase vid (acct_challenges r)\<rparr>"
proof -
  obtain c where "challenges_consume vid d now M expected r = (Inr c, snd (challenges_consume vid d now M expected r))"
    using assms(2) by (metis succeeded_iff prod.collapse)
  from challenges_consume_Inr [OF this assms(1)] show ?thesis by auto
qed

lemma consume_other:
  assumes "account_repository_inv r" "k \<noteq> vid"
  shows "map_of (acct_challenges (snd (challenges_consume vid d now M e r))) k = map_of (acct_challenges r) k"
  using assms
  by (auto simp: challenges_consume_def Let_def map_of_erase account_repository_invD map_of_modify split: option.splits)

lemma consume_entry:
  assumes "account_repository_inv r"
    and "map_of (acct_challenges (snd (challenges_consume vid d now M e r))) k = Some s'"
  shows "\<exists>s. map_of (acct_challenges r) k = Some s \<and> cs_challenge s' = cs_challenge s"
proof (cases "k = vid")
  case True
  with assms(2) show ?thesis
    by (auto simp: challenges_consume_def Let_def map_of_modify
      map_of_erase [OF account_repository_invD(1) [OF assms(1)]] split: option.splits if_splits)
next
  case False
  with assms show ?thesis by (simp add: consume_other)
qed

lemma challenge_step_inv: "account_repository_inv r \<Longrightarrow> account_repository_inv (snd (challenge_step M c r))"
  by (cases c) (simp_all add: case_prod_unfold account_repository_inv_ops)

lemma attempts_left:
  assumes "\<not> M \<le> (n :: 32 word)"
  shows "unat M - unat (n + 1) < unat M - unat n" "unat n < unat M"
proof -
  show "unat n < unat M" using assms by (simp add: word_less_nat_alt not_le)
  moreover have "1 + n \<noteq> 0"
    using assms by (metis add.commute eq_neg_iff_add_eq_0 word_n1_ge)
  then have "unat (n + 1) = Suc (unat n)"
    using unatSuc [of n] by (simp add: add.commute)
  ultimately show "unat M - unat (n + 1) < unat M - unat n" by simp
qed

interpretation attempts: budgeted_store "challenge_step M" account_repository_inv "challenge_budget M"
    "challenge_compares M" challenge_adds "unat M"
  for M
proof
  fix r c k
  assume inv: "account_repository_inv r"
  show "account_repository_inv (snd (challenge_step M c r))"
    using inv by (rule challenge_step_inv)
  show "challenge_budget M r k \<le> unat M"
    by (simp add: challenge_budget_def split: option.split)
  show "challenge_budget M (snd (challenge_step M c r)) k < challenge_budget M r k" if "challenge_compares M r c k"
    using that
    by (cases c) (auto simp: challenges_consume_def challenge_budget_def vc_expiredAt_def Let_def map_of_modify
      map_of_erase [OF account_repository_invD(1) [OF inv]] attempts_left
      split: option.splits)
  show "challenge_budget M (snd (challenge_step M c r)) k \<le> challenge_budget M r k" if "\<not> challenge_adds r c k"
  proof (cases c)
    case (ReplaceChallenge ch)
    with that show ?thesis
      using map_of_replace [OF inv, of ch k]
      by (simp add: challenge_budget_def case_prod_unfold split: option.splits if_splits)
  next
    case (PresentSecret vid d now expected)
    show ?thesis
    proof (cases "k = vid")
      case True
      then show ?thesis
        using PresentSecret
        by (auto simp: challenges_consume_def challenge_budget_def Let_def map_of_modify case_prod_unfold
          map_of_erase [OF account_repository_invD(1) [OF inv]] attempts_left less_imp_le
          split: option.splits)
    next
      case False
      with PresentSecret show ?thesis
        by (simp add: challenge_budget_def case_prod_unfold consume_other [OF inv])
    qed
  qed (simp_all add: challenge_budget_def case_prod_unfold)
qed


interpretation challenge: single_use_store "challenge_step M" account_repository_inv challenge_has
    "challenge_redeems M" challenge_adds
  for M
proof
  fix r c k
  assume inv: "account_repository_inv r"
  show "account_repository_inv (snd (challenge_step M c r))"
    using inv by (rule challenge_step_inv)
  show "challenge_has r k" "\<not> challenge_has (snd (challenge_step M c r)) k" if "challenge_redeems M r c k"
    using that challenges_consume_succeeded [OF inv]
    by (cases c; force simp: challenge_has_def map_of_erase account_repository_invD [OF inv] case_prod_unfold)+
  show "\<not> challenge_has (snd (challenge_step M c r)) k" if "\<not> challenge_has r k" "\<not> challenge_adds r c k"
  proof (cases c)
    case (PresentSecret vid d now expected)
    with that consume_entry [OF inv, of vid d now M expected k] show ?thesis
      by (force simp: challenge_has_def case_prod_unfold)
  qed (use that in \<open>simp_all add: challenge_has_def case_prod_unfold map_of_replace [OF inv]\<close>)
qed

text \<open>Until its id is issued again, the entry of a challenge is that challenge or gone.\<close>

definition challenge_is :: "VerificationChallenge \<Rightarrow> AccountRepository \<Rightarrow> bool" where
  "challenge_is c r \<longleftrightarrow> (\<forall>s. map_of (acct_challenges r) (vc_id c) = Some s \<longrightarrow> cs_challenge s = c)"

interpretation entry: stable_fact "challenge_step M" account_repository_inv
    "\<lambda>call. \<not> challenge_adds r call (vc_id c)" "challenge_is c"
  for M c r
proof
  fix call r'
  assume inv: "account_repository_inv r'" and kept: "challenge_is c r'" and no: "\<not> challenge_adds r call (vc_id c)"
  show "challenge_is c (snd (challenge_step M call r'))"
  proof (cases call)
    case (PresentSecret vid d now expected)
    with kept consume_entry [OF inv, of vid d now M expected] show ?thesis
      by (force simp: challenge_is_def case_prod_unfold)
  next
    case (ReplaceChallenge ch)
    with no have same: "map_of (acct_challenges r') (vc_id c) = Some s"
      if "map_of (acct_challenges (snd (challenges_replace ch r'))) (vc_id c) = Some s" for s
      using that map_of_replace [OF inv, of ch "vc_id c"] by (simp split: option.splits if_splits)
    have step: "snd (challenge_step M call r') = snd (challenges_replace ch r')"
      unfolding ReplaceChallenge by (simp add: case_prod_unfold)
    show ?thesis
      unfolding challenge_is_def step using same kept [unfolded challenge_is_def] by blast
  qed (use kept in \<open>simp_all add: challenge_is_def case_prod_unfold\<close>)
qed (rule challenge_step_inv)

lemma additions_none:
  "additions (challenge_step M) challenge_adds k cs r = 0 \<Longrightarrow> list_all (\<lambda>call. \<not> challenge_adds r0 call k) cs"
proof (induction cs arbitrary: r)
  case (Cons c cs)
  then show ?case by (cases c) (auto split: if_splits)
qed simp

definition challenges_after :: "32 word \<Rightarrow> challenge_call list \<Rightarrow> AccountRepository" where
  "challenges_after M cs = final_state (challenge_step M) cs empty_account_repository"

lemma challenges_after_inv [simp]: "account_repository_inv (challenges_after M cs)"
  unfolding challenges_after_def by (rule entry.run_inv) simp

text \<open>
  C31. A verification challenge withstands guessing. Store a challenge with a new id after any history
  of calls, and let any calls follow that do not store the id again. Then the presented digest is
  compared with the stored one at most as often as the policy permits attempts, however the calls
  are interleaved; the challenge is handed out at most once, and only to a call that presents its
  digest before it expires and, where an identity is demanded, names the challenge's identity. At
  the start the right digest is accepted, and no older challenge of the same identity and purpose
  is left.
\<close>

theorem verification_attempts_bounded:
  assumes "\<not> challenge_has (challenges_after M cs) (vc_id c)"
    and "challenges_replace c (challenges_after M cs) = (ok, r)"
    and "additions (challenge_step M) challenge_adds (vc_id c) later r = 0"
  shows "redemptions (challenge_step M) (challenge_compares M) (vc_id c) later r \<le> unat M
    \<and> redemptions (challenge_step M) (challenge_redeems M) (vc_id c) later r \<le> 1
    \<and> (challenges_consume (vc_id c) d now M expected (final_state (challenge_step M) later r) = (Inr c', r') \<longrightarrow>
         c' = c \<and> d = vc_digest c \<and> now < vc_expiresAt c \<and> (expected = None \<or> expected = Some (vc_identity c)))
    \<and> (M \<noteq> 0 \<and> now < vc_expiresAt c \<longrightarrow>
         fst (challenges_consume (vc_id c) (vc_digest c) now M (Some (vc_identity c)) r) = Inr c)
    \<and> (map_of (acct_challenges r) k = Some s \<and> same_ceremony c s \<longrightarrow> cs_challenge s = c)"
proof -
  have inv: "account_repository_inv (challenges_after M cs)" by simp
  have r: "r = snd (challenges_replace c (challenges_after M cs))" using assms(2) by simp
  have stored: "map_of (acct_challenges r) (vc_id c) = Some \<lparr>cs_challenge = c, cs_attempts = 0\<rparr>"
    using assms(1) unfolding r map_of_replace [OF inv] by (simp add: challenge_has_def)
  have inv_r: "account_repository_inv r" unfolding r by (rule replace_inv [OF inv])
  have "challenge_is c (final_state (challenge_step M) later r)"
    by (rule entry.run_fact [OF inv_r _ additions_none [OF assms(3), of empty_account_repository]])
      (simp add: challenge_is_def stored)
  moreover have "account_repository_inv (final_state (challenge_step M) later r)"
    by (rule entry.run_inv [OF inv_r])
  ultimately have "challenges_consume (vc_id c) d now M expected (final_state (challenge_step M) later r) = (Inr c', r') \<longrightarrow>
      c' = c \<and> d = vc_digest c \<and> now < vc_expiresAt c \<and> (expected = None \<or> expected = Some (vc_identity c))"
    by (auto simp: challenge_is_def dest!: challenges_consume_Inr)
  moreover have "challenge_budget M r (vc_id c) = unat M"
    by (simp add: challenge_budget_def stored)
  moreover have "M \<noteq> 0 \<and> now < vc_expiresAt c \<longrightarrow>
      fst (challenges_consume (vc_id c) (vc_digest c) now M (Some (vc_identity c)) r) = Inr c"
    by (simp add: challenges_consume_def stored vc_expiredAt_def)
  moreover have "map_of (acct_challenges r) k = Some s \<and> same_ceremony c s \<longrightarrow> cs_challenge s = c"
    unfolding r map_of_replace [OF inv] by (auto split: option.splits if_splits)
  ultimately show ?thesis
    using attempts.uses_within_budget [OF inv_r assms(3)] challenge.redeemed_at_most_once [OF inv_r assms(3)]
    by simp
qed

definition sample_challenge :: VerificationChallenge where
  "sample_challenge = \<lparr>vc_id = StrongId ''opv_1'', vc_identity = StrongId ''alice'', vc_purpose = PasswordReset,
     vc_channel = ChannelEmail, vc_destination = ''a@b.c'', vc_digest = [1], vc_createdAt = 0, vc_expiresAt = 100,
     vc_attempts = 0\<rparr>"

theorem verification_attempts_bounded_witness:
  "\<exists>r. challenges_replace sample_challenge empty_account_repository = (ok, r)
     \<and> redemptions (challenge_step 2) (challenge_compares 2) (StrongId ''opv_1'')
         (replicate 5 (PresentSecret (StrongId ''opv_1'') [0] 10 None)) r \<le> 2
     \<and> fst (challenges_consume (StrongId ''opv_1'') [1] 10 2 (Some (StrongId ''alice'')) r) = Inr sample_challenge"
proof -
  let ?guess = "PresentSecret (StrongId ''opv_1'') [0] 10 None"
  let ?c = sample_challenge
  obtain r where r: "challenges_replace ?c (challenges_after 2 []) = (ok, r)"
    by (simp add: challenges_replace_def)
  have none: "additions (challenge_step 2) challenge_adds (vc_id ?c) (replicate n ?guess) r' = 0" for n r'
    by (induction n arbitrary: r') simp_all
  have "\<not> challenge_has (challenges_after 2 []) (vc_id ?c)"
    by (simp add: challenge_has_def challenges_after_def empty_account_repository_def)
  from verification_attempts_bounded [OF this r none, where now = 10]
  show ?thesis using r
    by (auto simp: challenges_after_def) (auto simp: sample_challenge_def)
qed

end
