(* ===== verification/Password.thy ===== *)
theory Password
  imports Decimal Security
begin

text \<open>
  Password storage (\<^verbatim>\<open>src/src/credentials/credentials.cpp\<close>): the bounded work factors, the
  encoded hash, the hasher. \<^verbatim>\<open>EVP_PBE_scrypt\<close> and the optional libsodium are not in the
  repository: they are the fields of \<open>password_library\<close>.
\<close>

unbundle bit_operations_syntax

text \<open>
  \<open>lib_scrypt\<close>: pass, salt, N, r, p, the memory ceiling and the output length give the filled
  buffer. \<open>lib_sodium\<close> is \<open>None\<close> in a build without libsodium; iterations and memory are arguments.
\<close>

record sodium_library =
  sodium_init :: bool
  crypto_pwhash_str :: "byte list \<Rightarrow> nat \<Rightarrow> nat \<Rightarrow> string option"
  crypto_pwhash_str_verify :: "string \<Rightarrow> byte list \<Rightarrow> bool"
  crypto_pwhash_str_needs_rehash :: "string \<Rightarrow> nat \<Rightarrow> nat \<Rightarrow> bool"

record password_library =
  lib_scrypt :: "byte list \<Rightarrow> byte list \<Rightarrow> 64 word \<Rightarrow> 64 word \<Rightarrow> 64 word \<Rightarrow> 64 word \<Rightarrow> nat \<Rightarrow> byte list option"
  lib_sodium :: "sodium_library option"

definition kPasswordPrefix :: string where
  "kPasswordPrefix = ''scrypt$v1$''"

definition kArgon2Prefix :: string where
  "kArgon2Prefix = ''$argon2id$''"

definition kArgon2Iterations :: nat where
  "kArgon2Iterations = 3"

definition kArgon2Memory :: nat where
  "kArgon2Memory = 64 * 1024 * 1024"

section \<open>Work factors\<close>

definition isPowerOfTwo :: "64 word \<Rightarrow> bool" where
  "isPowerOfTwo v = (v > 1 \<and> v AND (v - 1) = 0)"

record PasswordPolicy =
  pp_cost :: "64 word"
  pp_blockSize :: "64 word"
  pp_parallelism :: "64 word"
  pp_saltBytes :: nat
  pp_derivedBytes :: nat
  pp_maximumMemoryBytes :: "64 word"

definition PasswordPolicy_create ::
    "64 word \<Rightarrow> 64 word \<Rightarrow> 64 word \<Rightarrow> nat \<Rightarrow> nat \<Rightarrow> 64 word \<Rightarrow> PasswordPolicy Result" where
  "PasswordPolicy_create cost blockSize parallelism saltBytes derivedBytes maximumMemoryBytes =
     (if \<not> isPowerOfTwo cost \<or> cost > 1048576 \<or> blockSize = 0 \<or> blockSize > 32
         \<or> parallelism = 0 \<or> parallelism > 16 \<or> saltBytes < 16 \<or> derivedBytes < 32 \<or> derivedBytes > 64
      then fail_msg InvalidArgument ''The password policy is outside secure bounds.''
      else if blockSize > (- 1) div cost div 128
      then fail_msg InvalidArgument ''The password policy memory cost overflows.''
      else let required = 128 * cost * blockSize
           in if maximumMemoryBytes < required \<or> maximumMemoryBytes > 268435456
              then fail_msg InvalidArgument ''The password memory ceiling is below its work factor.''
              else Inr \<lparr>pp_cost = cost, pp_blockSize = blockSize, pp_parallelism = parallelism,
                        pp_saltBytes = saltBytes, pp_derivedBytes = derivedBytes,
                        pp_maximumMemoryBytes = maximumMemoryBytes\<rparr>)"

definition PasswordPolicy_recommended :: PasswordPolicy where
  "PasswordPolicy_recommended =
     \<lparr>pp_cost = 32768, pp_blockSize = 8, pp_parallelism = 1, pp_saltBytes = 16, pp_derivedBytes = 32,
      pp_maximumMemoryBytes = 64 * 1024 * 1024\<rparr>"

section \<open>Encoded hashes\<close>

definition parseUnsigned :: "string \<Rightarrow> 64 word Result" where
  "parseUnsigned value =
     (case read_digits value of
        None \<Rightarrow> fail_msg InvalidArgument ''The password hash is malformed.''
      | Some n \<Rightarrow> if n < 2 ^ 64 then Inr (of_nat n)
                  else fail_msg InvalidArgument ''The password hash is malformed.'')"

definition in_range :: "64 word Result \<Rightarrow> 64 word \<Rightarrow> 64 word \<Rightarrow> bool" where
  "in_range r lo hi = (case r of Inl _ \<Rightarrow> False | Inr v \<Rightarrow> lo \<le> v \<and> v \<le> hi)"

definition validArgon2Encoding :: "string \<Rightarrow> bool" where
  "validArgon2Encoding encoded =
     (if \<not> starts_with encoded kArgon2Prefix \<or> length encoded > 255 \<or> CHR 0x00 \<in> set encoded then False
      else let parts = split_on (CHR ''$'') encoded
           in if length parts \<noteq> 6 \<or> parts ! 0 \<noteq> [] \<or> parts ! 1 \<noteq> ''argon2id'' \<or> parts ! 2 \<noteq> ''v=19''
                 \<or> length (parts ! 4) < 16 \<or> length (parts ! 4) > 86
                 \<or> length (parts ! 5) < 22 \<or> length (parts ! 5) > 86
              then False
              else let params = split_on (CHR '','') (parts ! 3)
                   in if length params \<noteq> 3 \<or> \<not> starts_with (params ! 0) ''m=''
                         \<or> \<not> starts_with (params ! 1) ''t='' \<or> \<not> starts_with (params ! 2) ''p=''
                      then False
                      else in_range (parseUnsigned (drop 2 (params ! 0))) 8192 262144
                         \<and> in_range (parseUnsigned (drop 2 (params ! 1))) 1 10
                         \<and> in_range (parseUnsigned (drop 2 (params ! 2))) 1 1)"

type_synonym PasswordHash = string

definition PasswordHash_parse :: "string \<Rightarrow> PasswordHash Result" where
  "PasswordHash_parse encoded =
     (let fs = split_on (CHR ''$'') encoded
      in if validArgon2Encoding encoded then Inr encoded
         else if length fs \<noteq> 8 \<or> fs ! 0 \<noteq> ''scrypt'' \<or> fs ! 1 \<noteq> ''v1'' \<or> fs ! 2 = [] \<or> fs ! 3 = []
              \<or> fs ! 4 = [] \<or> fs ! 5 = [] \<or> fs ! 6 = [] \<or> fs ! 7 = []
         then fail_msg InvalidArgument ''The password hash is malformed.''
         else Inr encoded)"

section \<open>The hasher\<close>

definition password_length_refused :: "string \<Rightarrow> bool" where
  "password_length_refused password = (length password < 8 \<or> length password > 1024)"

definition derive ::
    "env \<Rightarrow> password_library \<Rightarrow> string \<Rightarrow> string \<Rightarrow> byte list \<Rightarrow> PasswordPolicy \<Rightarrow> byte list Result" where
  "derive E L pepper password salt policy =
     (if password_length_refused password
      then fail_msg InvalidArgument ''The password length is outside the accepted range.''
      else case hmacSha256 E pepper password of
        Inl e \<Rightarrow> Inl e
      | Inr material \<Rightarrow>
          (case lib_scrypt L material salt (pp_cost policy) (pp_blockSize policy) (pp_parallelism policy)
                  (pp_maximumMemoryBytes policy) (pp_derivedBytes policy) of
             None \<Rightarrow> fail_msg Internal ''Password derivation failed.''
           | Some output \<Rightarrow> Inr output))"

definition sodiumReady :: "password_library \<Rightarrow> bool" where
  "sodiumReady L = (case lib_sodium L of None \<Rightarrow> False | Some s \<Rightarrow> sodium_init s)"

definition supportsArgon2id :: "password_library \<Rightarrow> bool" where
  "supportsArgon2id L = sodiumReady L"

record PasswordHasher =
  hasher_pepper :: string
  hasher_policy :: PasswordPolicy
  hasher_algorithm :: string

definition PasswordHasher_create ::
    "password_library \<Rightarrow> string \<Rightarrow> PasswordPolicy \<Rightarrow> string \<Rightarrow> PasswordHasher Result" where
  "PasswordHasher_create L pepper policy algorithm =
     (if length pepper < 32
      then fail_msg InvalidArgument ''A password pepper must contain at least 32 bytes.''
      else if algorithm \<noteq> ''scrypt'' \<and> algorithm \<noteq> ''argon2id''
      then fail_msg InvalidArgument ''Unknown password hashing algorithm.''
      else if algorithm = ''argon2id'' \<and> \<not> supportsArgon2id L
      then fail_msg FailedPrecondition ''Argon2id requested but libsodium backend is unavailable.''
      else Inr \<lparr>hasher_pepper = pepper, hasher_policy = policy, hasher_algorithm = algorithm\<rparr>)"

definition hash_argon2id :: "env \<Rightarrow> password_library \<Rightarrow> PasswordHasher \<Rightarrow> string \<Rightarrow> PasswordHash Result" where
  "hash_argon2id E L h password =
     (case lib_sodium L of
        None \<Rightarrow> fail_msg FailedPrecondition ''Argon2id backend unavailable.''
      | Some s \<Rightarrow>
          if \<not> sodium_init s then fail_msg Internal ''libsodium initialization failed.''
          else if password_length_refused password
          then fail_msg InvalidArgument ''The password length is outside the accepted range.''
          else (case hmacSha256 E (hasher_pepper h) password of
                  Inl e \<Rightarrow> Inl e
                | Inr material \<Rightarrow>
                    (case crypto_pwhash_str s material kArgon2Iterations kArgon2Memory of
                       None \<Rightarrow> fail_msg Internal ''Argon2id password derivation failed.''
                     | Some encoded \<Rightarrow> Inr encoded)))"

definition encode_scrypt :: "PasswordPolicy \<Rightarrow> byte list \<Rightarrow> byte list \<Rightarrow> string" where
  "encode_scrypt p salt output =
     kPasswordPrefix @ to_string (unat (pp_cost p)) @ ''$'' @ to_string (unat (pp_blockSize p)) @ ''$''
     @ to_string (unat (pp_parallelism p)) @ ''$'' @ to_string (unat (pp_maximumMemoryBytes p)) @ ''$''
     @ toBase64Url salt @ ''$'' @ toBase64Url output"

definition hasher_hash :: "env \<Rightarrow> password_library \<Rightarrow> PasswordHasher \<Rightarrow> string \<Rightarrow> PasswordHash Result" where
  "hasher_hash E L h password =
     (if hasher_algorithm h = ''argon2id'' then hash_argon2id E L h password
      else case randomBytes E 0 (pp_saltBytes (hasher_policy h)) of
        Inl e \<Rightarrow> Inl e
      | Inr salt \<Rightarrow>
          (case derive E L (hasher_pepper h) password salt (hasher_policy h) of
             Inl e \<Rightarrow> Inl e
           | Inr result \<Rightarrow> Inr (encode_scrypt (hasher_policy h) salt result)))"

definition verify_argon2id :: "env \<Rightarrow> password_library \<Rightarrow> PasswordHasher \<Rightarrow> string \<Rightarrow> PasswordHash \<Rightarrow> bool Result" where
  "verify_argon2id E L h password expected =
     (case lib_sodium L of
        None \<Rightarrow> fail_msg FailedPrecondition ''Argon2id verifier is unavailable.''
      | Some s \<Rightarrow>
          if \<not> validArgon2Encoding expected \<or> \<not> sodium_init s
          then fail_msg InvalidArgument ''Invalid or unsupported Argon2id hash.''
          else if password_length_refused password then Inr False
          else (case hmacSha256 E (hasher_pepper h) password of
                  Inl e \<Rightarrow> Inl e
                | Inr material \<Rightarrow> Inr (crypto_pwhash_str_verify s expected material)))"

definition hasher_verify :: "env \<Rightarrow> password_library \<Rightarrow> PasswordHasher \<Rightarrow> string \<Rightarrow> PasswordHash \<Rightarrow> bool Result" where
  "hasher_verify E L h password expected =
     (if starts_with expected kArgon2Prefix then verify_argon2id E L h password expected
      else let fs = split_on (CHR ''$'') expected
        in if length fs \<noteq> 8 \<or> fs ! 0 \<noteq> ''scrypt'' \<or> fs ! 1 \<noteq> ''v1''
           then fail_msg InvalidArgument ''The password hash is malformed.''
           else case (parseUnsigned (fs ! 2), parseUnsigned (fs ! 3), parseUnsigned (fs ! 4),
                      parseUnsigned (fs ! 5), fromBase64Url (fs ! 6), fromBase64Url (fs ! 7)) of
             (Inr cost, Inr blockSize, Inr parallelism, Inr maximumMemory, Some (Inr salt), Some (Inr wanted)) \<Rightarrow>
               (case PasswordPolicy_create cost blockSize parallelism (length salt) (length wanted) maximumMemory of
                  Inl e \<Rightarrow> Inl e
                | Inr policy \<Rightarrow>
                    (case derive E L (hasher_pepper h) password salt policy of
                       Inl e \<Rightarrow> Inl e
                     | Inr actual \<Rightarrow> Inr (constantTimeEquals actual wanted)))
           | _ \<Rightarrow> fail_msg InvalidArgument ''The password hash is malformed.'')"

definition needsRehash :: "password_library \<Rightarrow> PasswordHasher \<Rightarrow> PasswordHash \<Rightarrow> bool Result" where
  "needsRehash L h stored =
     (if hasher_algorithm h = ''argon2id''
      then if \<not> starts_with stored kArgon2Prefix then Inr True
           else (case lib_sodium L of
                   None \<Rightarrow> fail_msg FailedPrecondition ''Argon2id verifier is unavailable.''
                 | Some s \<Rightarrow>
                     if \<not> validArgon2Encoding stored \<or> \<not> sodium_init s
                     then fail_msg InvalidArgument ''Invalid Argon2id hash.''
                     else Inr (crypto_pwhash_str_needs_rehash s stored kArgon2Iterations kArgon2Memory))
      else if \<not> starts_with stored kPasswordPrefix then Inr True
      else let fs = split_on (CHR ''$'') stored
        in if length fs \<noteq> 8 then fail_msg InvalidArgument ''Malformed legacy scrypt hash.''
           else Inr (fs ! 2 \<noteq> to_string (unat (pp_cost (hasher_policy h)))
                     \<or> fs ! 3 \<noteq> to_string (unat (pp_blockSize (hasher_policy h)))
                     \<or> fs ! 4 \<noteq> to_string (unat (pp_parallelism (hasher_policy h)))
                     \<or> fs ! 5 \<noteq> to_string (unat (pp_maximumMemoryBytes (hasher_policy h)))))"

section \<open>Hash and verify\<close>

lemma parseUnsigned_to_string [simp]: "parseUnsigned (to_string (unat w)) = Inr w"
  using unsigned_less [of w] by (simp add: parseUnsigned_def read_digits_to_string)

lemma dollar_free:
  "CHR ''$'' \<notin> set (to_string n)" "CHR ''$'' \<notin> set (toBase64Url bs)"
proof -
  have "CHR ''$'' \<notin> digits"
    by (auto simp: digits_def digit_def dest!: arg_cong [of _ _ "of_char :: char \<Rightarrow> nat"]
        simp: of_char_of take_bit_eq_mod)
  then show "CHR ''$'' \<notin> set (to_string n)"
    using to_string_digits [of n] by blast
  have "CHR ''$'' \<notin> set kBase64UrlAlphabet"
    by (simp add: kBase64UrlAlphabet_def)
  then show "CHR ''$'' \<notin> set (toBase64Url bs)"
    using toBase64Url_symbols [of bs] by blast
qed

lemma split_encoded:
  "split_on (CHR ''$'') (encode_scrypt p salt key) =
     [''scrypt'', ''v1'', to_string (unat (pp_cost p)), to_string (unat (pp_blockSize p)),
      to_string (unat (pp_parallelism p)), to_string (unat (pp_maximumMemoryBytes p)),
      toBase64Url salt, toBase64Url key]"
  by (simp add: encode_scrypt_def kPasswordPrefix_def split_on_append split_on_plain dollar_free)

lemma encoded_prefix [simp]:
  "\<not> starts_with (encode_scrypt p salt key) kArgon2Prefix" "\<not> validArgon2Encoding (encode_scrypt p salt key)"
  "starts_with (encode_scrypt p salt key) kPasswordPrefix"
proof -
  show "\<not> starts_with (encode_scrypt p salt key) kArgon2Prefix"
    by (simp add: encode_scrypt_def kPasswordPrefix_def kArgon2Prefix_def starts_with_def)
  then show "\<not> validArgon2Encoding (encode_scrypt p salt key)"
    by (simp add: validArgon2Encoding_def)
  show "starts_with (encode_scrypt p salt key) kPasswordPrefix"
    unfolding encode_scrypt_def by (rule starts_with_append)
qed

text \<open>An accepted policy is accepted again, field by field.\<close>

lemma PasswordPolicy_create_again:
  assumes "PasswordPolicy_create cost bs par saltBytes derivedBytes mem = Inr p"
  shows "PasswordPolicy_create (pp_cost p) (pp_blockSize p) (pp_parallelism p) (pp_saltBytes p)
     (pp_derivedBytes p) (pp_maximumMemoryBytes p) = Inr p"
    and "16 \<le> pp_saltBytes p" "32 \<le> pp_derivedBytes p"
  using assms by (auto simp: PasswordPolicy_create_def Let_def split: if_splits)

lemma derive_HMAC: "env_HMAC E' = env_HMAC E \<Longrightarrow> derive E' L = derive E L"
  by (intro ext) (simp add: derive_def hmac_HMAC [of E' E])

lemma verify_encoded:
  assumes "PasswordPolicy_create cost bs par saltBytes derivedBytes mem = Inr p"
    and "length salt = pp_saltBytes p" "length key = pp_derivedBytes p"
  shows "hasher_verify E L h other (encode_scrypt p salt key) =
     (case derive E L (hasher_pepper h) other salt p of Inl e \<Rightarrow> Inl e | Inr actual \<Rightarrow> Inr (actual = key))"
  unfolding hasher_verify_def split_encoded
  using PasswordPolicy_create_again [OF assms(1)] assms(2,3)
  by (simp add: Let_def fromBase64Url_toBase64Url split: sum.split)

text \<open>Documented behaviour: both libraries fill the buffer they are given.\<close>

definition buffers_filled :: "env \<Rightarrow> password_library \<Rightarrow> bool" where
  "buffers_filled E L \<longleftrightarrow>
     (\<forall>i n bs. env_RAND_bytes E i n = Some bs \<longrightarrow> length bs = n)
     \<and> (\<forall>pass salt cost bs par mem n out. lib_scrypt L pass salt cost bs par mem n = Some out \<longrightarrow> length out = n)"

text \<open>
  A password hash of the scrypt hasher reads back. What \<^verbatim>\<open>hash\<close> stores is accepted by
  \<^verbatim>\<open>parse\<close>, is not due for a rehash under the same policy, and verifies the same password, on
  any later call; any other password is answered by its own derivation under the stored salt and
  work factors, and accepted only if that derivation gives the same key.
\<close>

theorem password_roundtrip:
  assumes "PasswordPolicy_create cost bs par saltBytes derivedBytes mem = Inr policy"
    and "PasswordHasher_create L pepper policy ''scrypt'' = Inr h"
    and "hasher_hash E L h password = Inr encoded" "buffers_filled E L" "env_HMAC E' = env_HMAC E"
  shows "PasswordHash_parse encoded = Inr encoded \<and> needsRehash L h encoded = Inr False
    \<and> hasher_verify E' L h password encoded = Inr True
    \<and> (\<exists>salt. \<forall>other. hasher_verify E' L h other encoded =
         (case derive E L pepper other salt policy of
            Inl e \<Rightarrow> Inl e
          | Inr k \<Rightarrow> Inr (Inr k = derive E L pepper password salt policy)))"
proof -
  have h: "hasher_pepper h = pepper" "hasher_policy h = policy" "hasher_algorithm h = ''scrypt''"
    using assms(2) by (auto simp: PasswordHasher_create_def split: if_splits)
  obtain salt key where
      salt: "randomBytes E 0 (pp_saltBytes policy) = Inr salt"
    and key: "derive E L pepper password salt policy = Inr key"
    and encoded: "encoded = encode_scrypt policy salt key"
    using assms(3) by (auto simp: hasher_hash_def h split: sum.splits)
  note again = PasswordPolicy_create_again [OF assms(1)]
  have len: "length salt = pp_saltBytes policy" "length key = pp_derivedBytes policy"
    using salt key assms(4) again(2)
    by (auto simp: randomBytes_def derive_def buffers_filled_def split: if_splits option.splits sum.splits)
  then have "salt \<noteq> []" "key \<noteq> []" using again(2,3) by auto
  then have "PasswordHash_parse encoded = Inr encoded" "needsRehash L h encoded = Inr False"
    unfolding encoded PasswordHash_parse_def needsRehash_def split_encoded
    by (simp_all add: h length_toBase64Url_pos)
  moreover have "hasher_verify E' L h other encoded =
      (case derive E L pepper other salt policy of Inl e \<Rightarrow> Inl e | Inr k \<Rightarrow> Inr (k = key))" for other
    unfolding encoded verify_encoded [OF assms(1) len] h derive_HMAC [OF assms(5)] ..
  ultimately show ?thesis
    using key by (intro conjI exI [of _ salt]) (simp_all split: sum.split)
qed

section \<open>Bounded work\<close>

definition bounded_work :: "64 word \<Rightarrow> 64 word \<Rightarrow> 64 word \<Rightarrow> 64 word \<Rightarrow> nat \<Rightarrow> bool" where
  "bounded_work cost bs par mem n \<longleftrightarrow>
     unat cost \<le> 2 ^ 20 \<and> unat bs \<le> 32 \<and> unat par \<le> 16 \<and> n \<le> 64
     \<and> 128 * unat cost * unat bs \<le> unat mem \<and> unat mem \<le> 256 * 1024 * 1024"

lemma PasswordPolicy_bounded:
  assumes "PasswordPolicy_create cost bs par saltBytes derivedBytes mem = Inr p"
  shows "bounded_work (pp_cost p) (pp_blockSize p) (pp_parallelism p) (pp_maximumMemoryBytes p) (pp_derivedBytes p)"
proof -
  have p: "pp_cost p = cost" "pp_blockSize p = bs" "pp_parallelism p = par" "pp_maximumMemoryBytes p = mem"
      "pp_derivedBytes p = derivedBytes"
    and le: "cost \<le> 1048576" "bs \<le> 32" "par \<le> 16" "derivedBytes \<le> 64" "128 * cost * bs \<le> mem" "mem \<le> 268435456"
    using assms by (auto simp: PasswordPolicy_create_def Let_def not_less split: if_splits)
  have n: "unat cost \<le> 1048576" "unat bs \<le> 32" "unat par \<le> 16" "unat mem \<le> 268435456"
    using le by (simp_all add: word_le_nat_alt)
  have "128 * unat cost * unat bs \<le> 128 * 1048576 * 32"
    using n by (intro mult_le_mono) simp_all
  then have "unat (128 * cost * bs) = 128 * unat cost * unat bs"
    by (simp add: unat_word_ariths(2) mod_mult_left_eq)
  then have "128 * unat cost * unat bs \<le> unat mem"
    using le(5) by (simp add: word_le_nat_alt)
  with n le(4) show ?thesis
    by (simp add: p bounded_work_def)
qed

text \<open>
  A stored hash cannot make verification do unbounded work: whatever text is presented as the
  stored hash, the key derivation runs only with a cost of at most \<open>2 ^ 20\<close>, a block size of at most
  32, a parallelism of at most 16, an output of at most 64 bytes and a memory need, computed without
  wrap-around, below a ceiling of at most 256 MiB: two libraries that agree on such calls give the
  same answer.
\<close>

theorem password_work_bounded:
  assumes "lib_sodium L' = lib_sodium L"
    and "\<And>pass salt cost bs par mem n. bounded_work cost bs par mem n \<Longrightarrow>
           lib_scrypt L' pass salt cost bs par mem n = lib_scrypt L pass salt cost bs par mem n"
  shows "hasher_verify E L' h password stored = hasher_verify E L h password stored"
proof -
  have "derive E L' pepper password salt p = derive E L pepper password salt p"
    if "PasswordPolicy_create cost bs par saltBytes derivedBytes mem = Inr p"
    for pepper salt p cost bs par saltBytes derivedBytes mem
    unfolding derive_def assms(2) [OF PasswordPolicy_bounded [OF that]] ..
  moreover have "verify_argon2id E L' h password stored = verify_argon2id E L h password stored"
    by (simp add: verify_argon2id_def assms(1))
  ultimately show ?thesis
    by (auto simp: hasher_verify_def Let_def split: sum.splits option.splits)
qed

section \<open>Examples\<close>

definition sample_library :: password_library where
  "sample_library = \<lparr>lib_scrypt = \<lambda>pass salt cost bs par mem n. Some (replicate n (hd (pass @ [0]))),
     lib_sodium = None\<rparr>"

abbreviation sample_hasher :: PasswordHasher where
  "sample_hasher \<equiv> \<lparr>hasher_pepper = replicate 32 (CHR ''p''), hasher_policy = PasswordPolicy_recommended,
     hasher_algorithm = ''scrypt''\<rparr>"

lemma recommended_accepted: "PasswordPolicy_create 32768 8 1 16 32 (64 * 1024 * 1024) = Inr PasswordPolicy_recommended"
  by (simp add: PasswordPolicy_create_def PasswordPolicy_recommended_def isPowerOfTwo_def)

lemma sample_hash: "\<exists>encoded. hasher_hash sample_env sample_library sample_hasher ''correct horse'' = Inr encoded"
  by (simp add: hasher_hash_def randomBytes_def derive_def password_length_refused_def hmacSha256_def
      PasswordPolicy_recommended_def sample_env_def sample_library_def int_max_def)

theorem password_roundtrip_witness:
  "\<exists>encoded. hasher_hash sample_env sample_library sample_hasher ''correct horse'' = Inr encoded
     \<and> hasher_verify sample_env sample_library sample_hasher ''correct horse'' encoded = Inr True"
proof -
  obtain encoded where hash: "hasher_hash sample_env sample_library sample_hasher ''correct horse'' = Inr encoded"
    using sample_hash by blast
  have "PasswordHasher_create sample_library (replicate 32 (CHR ''p'')) PasswordPolicy_recommended ''scrypt''
      = Inr sample_hasher"
    by (simp add: PasswordHasher_create_def)
  moreover have "buffers_filled sample_env sample_library"
    by (auto simp: buffers_filled_def sample_env_def sample_library_def)
  ultimately show ?thesis
    using password_roundtrip [OF recommended_accepted _ hash _ refl] hash by blast
qed

text \<open>A library that refuses every call beyond the bounds answers like one that does not.\<close>

theorem password_work_bounded_witness:
  "hasher_verify sample_env
     (sample_library\<lparr>lib_scrypt := \<lambda>pass salt cost bs par mem n.
        if bounded_work cost bs par mem n then lib_scrypt sample_library pass salt cost bs par mem n else None\<rparr>)
     sample_hasher ''correct horse'' ''scrypt$v1$1073741824$8$1$99$AAAA$AAAA''
   = hasher_verify sample_env sample_library sample_hasher ''correct horse'' ''scrypt$v1$1073741824$8$1$99$AAAA$AAAA''"
  by (rule password_work_bounded) simp_all

end
