(* ===== verification/Totp.thy ===== *)
theory Totp
  imports Decimal Security
begin

text \<open>
  Time-based one-time passwords (\<^verbatim>\<open>src/src/credentials/credentials.cpp\<close>): base32 of the enrolled
  secret, the counter-based code and its verification over a window of time steps. HMAC-SHA-1 is
  OpenSSL's: it is the argument \<open>mac\<close> of the definitions (\<open>None\<close> when it fails).
\<close>

unbundle bit_operations_syntax

type_synonym Hmac = "byte list \<Rightarrow> byte list \<Rightarrow> byte list option"

section \<open>Base32\<close>

definition kBase32Alphabet :: string where
  "kBase32Alphabet = ''ABCDEFGHIJKLMNOPQRSTUVWXYZ234567''"

text \<open>The inner loop: the symbols of the complete groups and the number of bits left over.\<close>

fun base32_groups :: "32 word \<Rightarrow> nat \<Rightarrow> string \<times> nat" where
  "base32_groups accumulator bits =
     (if bits \<ge> 5
      then case base32_groups accumulator (bits - 5) of
             (out, rest) \<Rightarrow> (kBase32Alphabet ! unat (drop_bit (bits - 5) accumulator AND 0x1F) # out, rest)
      else ([], bits))"

declare base32_groups.simps [simp del]

fun base32_loop :: "byte list \<Rightarrow> 32 word \<Rightarrow> nat \<Rightarrow> string" where
  "base32_loop [] accumulator bits =
     (if bits > 0 then [kBase32Alphabet ! unat (push_bit (5 - bits) accumulator AND 0x1F)] else [])"
| "base32_loop (byte # bytes) accumulator bits =
     (let accumulator' = push_bit 8 accumulator OR ucast byte
      in case base32_groups accumulator' (bits + 8) of
           (out, rest) \<Rightarrow> out @ base32_loop bytes accumulator' rest)"

definition base32 :: "byte list \<Rightarrow> string" where
  "base32 bytes = base32_loop bytes 0 0"

section \<open>Secrets and policy\<close>

type_synonym TotpSecret = "byte list"

definition TotpSecret_create :: "byte list \<Rightarrow> TotpSecret Result" where
  "TotpSecret_create bytes =
     (if length bytes < 20 \<or> length bytes > 64
      then fail_msg InvalidArgument ''A TOTP secret must contain between 20 and 64 bytes.''
      else Inr bytes)"

definition TotpSecret_generate :: "env \<Rightarrow> nat \<Rightarrow> TotpSecret Result" where
  "TotpSecret_generate E byteCount =
     (if byteCount < 20 \<or> byteCount > 64
      then fail_msg InvalidArgument ''A TOTP secret must contain between 20 and 64 bytes.''
      else case randomBytes E 0 byteCount of Inl e \<Rightarrow> Inl e | Inr bytes \<Rightarrow> Inr bytes)"

definition enrollmentBase32 :: "TotpSecret \<Rightarrow> string" where
  "enrollmentBase32 secret = base32 secret"

record TotpPolicy =
  totp_step :: Duration
  totp_digits :: "32 word"
  totp_pastWindow :: "32 word"
  totp_futureWindow :: "32 word"

definition TotpPolicy_create :: "Duration \<Rightarrow> 32 word \<Rightarrow> 32 word \<Rightarrow> 32 word \<Rightarrow> TotpPolicy Result" where
  "TotpPolicy_create step digitCount pastWindow futureWindow =
     (if step < 15000 \<or> step > 300000 \<or> (digitCount \<noteq> 6 \<and> digitCount \<noteq> 8) \<or> pastWindow > 10 \<or> futureWindow > 10
      then fail_msg InvalidArgument ''The TOTP policy is outside secure bounds.''
      else Inr \<lparr>totp_step = step, totp_digits = digitCount, totp_pastWindow = pastWindow,
                totp_futureWindow = futureWindow\<rparr>)"

definition TotpPolicy_recommended :: TotpPolicy where
  "TotpPolicy_recommended =
     \<lparr>totp_step = 30000, totp_digits = 6, totp_pastWindow = 1, totp_futureWindow = 1\<rparr>"

section \<open>Codes\<close>

definition hotp_message :: "64 word \<Rightarrow> byte list" where
  "hotp_message counter = map (\<lambda>i. ucast (drop_bit (8 * (7 - i)) counter AND 0xFF)) [0..<8]"

text \<open>\<^verbatim>\<open>std::format("{:0{}}", n, width)\<close>.\<close>

definition format_padded :: "nat \<Rightarrow> nat \<Rightarrow> string" where
  "format_padded n width = (let s = to_string n in replicate (width - length s) (CHR ''0'') @ s)"

primrec hotp_modulus :: "nat \<Rightarrow> 32 word" where
  "hotp_modulus 0 = 1"
| "hotp_modulus (Suc n) = hotp_modulus n * 10"

definition hotp :: "Hmac \<Rightarrow> TotpSecret \<Rightarrow> 64 word \<Rightarrow> 32 word \<Rightarrow> string Result" where
  "hotp mac secret counter digitCount =
     (if length secret > int_max then fail_msg InvalidArgument ''The TOTP secret is too large.''
      else case mac secret (hotp_message counter) of
        None \<Rightarrow> fail_msg Internal ''TOTP generation failed.''
      | Some m \<Rightarrow>
          if length m < 20 then fail_msg Internal ''TOTP generation failed.''
          else let offset = unat (last m AND 0x0F)
            in if offset + 4 > length m then fail_msg Internal ''TOTP generation produced an invalid MAC.''
               else let binary = push_bit 24 (ucast (m ! offset AND 0x7F)) OR push_bit 16 (ucast (m ! (offset + 1)))
                          OR push_bit 8 (ucast (m ! (offset + 2))) OR (ucast (m ! (offset + 3)) :: 32 word)
                    in Inr (format_padded (unat (binary mod hotp_modulus (unat digitCount))) (unat digitCount)))"

definition timeStep :: "Instant \<Rightarrow> Duration \<Rightarrow> 64 word Result" where
  "timeStep now step =
     (if now < 0 \<or> step \<le> 0 then fail_msg InvalidArgument ''TOTP time is outside the supported range.''
      else Inr (of_int (now div step)))"

definition totpAt :: "Hmac \<Rightarrow> TotpSecret \<Rightarrow> TotpPolicy \<Rightarrow> Instant \<Rightarrow> string Result" where
  "totpAt mac secret policy now =
     (case timeStep now (totp_step policy) of
        Inl e \<Rightarrow> Inl e
      | Inr step \<Rightarrow> hotp mac secret step (totp_digits policy))"

text \<open>
  The search of \<^verbatim>\<open>verifyTotp\<close>: a loop over 64-bit counters, which would not end if the last
  one were the largest word (\<open>None\<close>).
\<close>

partial_function (option) totp_search ::
    "(64 word \<Rightarrow> string Result) \<Rightarrow> string \<Rightarrow> 64 word option \<Rightarrow> 64 word \<Rightarrow> 64 word \<Rightarrow> 64 word Result option" where
  [code]: "totp_search code presented lastAcceptedStep candidate final =
     (if candidate \<le> final
      then case code candidate of
             Inl e \<Rightarrow> Some (Inl e)
           | Inr expected \<Rightarrow>
               if constantTimeEquals expected presented
               then if (case lastAcceptedStep of None \<Rightarrow> False | Some l \<Rightarrow> candidate \<le> l)
                    then Some (Inl (authFailure ''TOTP response was replayed.''))
                    else Some (Inr candidate)
               else totp_search code presented lastAcceptedStep (candidate + 1) final
      else Some (Inl (authFailure ''TOTP response did not verify.'')))"

definition verifyTotp ::
    "Hmac \<Rightarrow> TotpSecret \<Rightarrow> TotpPolicy \<Rightarrow> string \<Rightarrow> Instant \<Rightarrow> 64 word option \<Rightarrow> 64 word Result option" where
  "verifyTotp mac secret policy presented now lastAcceptedStep =
     (if length presented \<noteq> unat (totp_digits policy) \<or> \<not> list_all is_digit_char presented
      then Some (Inl (authFailure ''TOTP response is malformed.''))
      else case timeStep now (totp_step policy) of
        Inl e \<Rightarrow> Some (Inl e)
      | Inr current \<Rightarrow>
          let first = (if current \<ge> ucast (totp_pastWindow policy)
                       then current - ucast (totp_pastWindow policy) else 0);
              final = current + ucast (totp_futureWindow policy)
          in totp_search (\<lambda>c. hotp mac secret c (totp_digits policy)) presented lastAcceptedStep first final)"

section \<open>Base32 by the book\<close>

text \<open>The bits of the bytes, high bit first, in groups of five, the last one filled with zeros.\<close>

definition byte_bits :: "byte \<Rightarrow> bool list" where
  "byte_bits b = rev (map (bit b) [0..<8])"

definition base32_symbol :: "bool list \<Rightarrow> char" where
  "base32_symbol g = kBase32Alphabet ! horner_sum of_bool 2 (rev g)"

fun groups5 :: "bool list \<Rightarrow> bool list list" where
  "groups5 [] = []"
| "groups5 xs = (take 5 xs @ replicate (5 - length xs) False) # groups5 (drop 5 xs)"

text \<open>\<open>q\<close> are the low bits of the accumulator.\<close>

definition pending :: "bool list \<Rightarrow> 32 word \<Rightarrow> bool" where
  "pending q a \<longleftrightarrow> rev q = map (bit a) [0..<length q]"

lemma pending_symbol:
  assumes "pending q a" "5 \<le> length q"
  shows "kBase32Alphabet ! unat (drop_bit (length q - 5) a AND 0x1F) = base32_symbol (take 5 q)"
proof -
  have "rev (take 5 q) = map (bit (drop_bit (length q - 5) a)) [0..<5]"
  proof (rule nth_equalityI)
    show "length (rev (take 5 q)) = length (map (bit (drop_bit (length q - 5) a)) [0..<5])"
      using assms(2) by simp
    fix i assume "i < length (rev (take 5 q))"
    then have i: "i < 5" using assms(2) by simp
    have "rev (take 5 q) = drop (length q - 5) (rev q)" by (simp add: rev_take)
    then show "rev (take 5 q) ! i = map (bit (drop_bit (length q - 5) a)) [0..<5] ! i"
      using assms i unfolding pending_def by (simp add: bit_drop_bit_eq)
  qed
  also have "\<dots> = map (bit (unat (drop_bit (length q - 5) a))) [0..<5]"
    by (simp add: bit_unsigned_iff)
  finally have "(horner_sum of_bool 2 (rev (take 5 q)) :: nat) = unat (take_bit 5 (drop_bit (length q - 5) a))"
    by (simp only: horner_sum_bit_eq_take_bit unsigned_take_bit_eq)
  moreover have "x AND 0x1F = take_bit 5 (x :: 32 word)" for x
    by (simp add: take_bit_eq_mask mask_eq_exp_minus_1)
  ultimately show ?thesis
    by (simp add: base32_symbol_def)
qed

lemma pending_drop: "pending q a \<Longrightarrow> pending (drop n q) a"
  unfolding pending_def by (simp add: rev_drop take_map)

lemma pending_byte:
  assumes "pending q a" "length q < 5"
  shows "pending (q @ byte_bits b) (push_bit 8 a OR ucast b)"
proof -
  let ?a = "push_bit 8 a OR ucast b :: 32 word" and ?n = "length q"
  have low: "map (bit ?a) [0..<8] = map (bit b) [0..<8]"
    by (simp add: bit_simps)
  have high: "map (bit ?a) [8..<8 + ?n] = map (bit a) [0..<?n]"
    using assms(2) by (intro nth_equalityI) (simp_all add: bit_simps byte_bit_high)
  have "[0..<8 + ?n] = [0..<8] @ [8..<8 + ?n]"
    using upt_add_eq_append [of 0 8 ?n] by simp
  then have "map (bit ?a) [0..<8 + ?n] = map (bit b) [0..<8] @ rev q"
    using assms(1) unfolding pending_def by (simp only: map_append low high)
  then show ?thesis
    by (simp add: pending_def byte_bits_def add.commute)
qed

text \<open>The padded last group: a shift fills the low bits with zeros.\<close>

lemma pending_pad:
  assumes "pending q a" "length q < 5"
  shows "pending (q @ replicate (5 - length q) False) (push_bit (5 - length q) a)"
proof -
  let ?n = "length q" and ?a = "push_bit (5 - length q) a"
  have "map (bit ?a) [0..<5 - ?n] = replicate (5 - ?n) False"
    by (intro nth_equalityI) (simp_all add: bit_simps)
  moreover have "map (bit ?a) [5 - ?n..<5] = map (bit a) [0..<?n]"
    using assms(2) by (intro nth_equalityI) (auto simp: bit_simps)
  moreover have "[0..<5] = [0..<5 - ?n] @ [5 - ?n..<5]"
    using upt_add_eq_append [of 0 "5 - ?n" ?n] assms(2) by simp
  ultimately have "map (bit ?a) [0..<5] = replicate (5 - ?n) False @ rev q"
    using assms(1) unfolding pending_def by (simp only: map_append)
  then show ?thesis
    using assms(2) by (simp add: pending_def)
qed

lemma groups5_step: "5 \<le> length q \<Longrightarrow> groups5 (q @ r) = take 5 q # groups5 (drop 5 q @ r)"
  by (cases q) auto

lemma base32_groups_pending:
  assumes "pending q a"
  shows "\<exists>out r. base32_groups a (length q) = (out, length r) \<and> length r < 5 \<and> pending r a
     \<and> (\<forall>s. map base32_symbol (groups5 (q @ s)) = out @ map base32_symbol (groups5 (r @ s)))"
  using assms
proof (induction "length q" arbitrary: q rule: less_induct)
  case less
  show ?case
  proof (cases "5 \<le> length q")
    case True
    obtain out r where IH: "base32_groups a (length (drop 5 q)) = (out, length r)" "length r < 5" "pending r a"
        "\<forall>s. map base32_symbol (groups5 (drop 5 q @ s)) = out @ map base32_symbol (groups5 (r @ s))"
      using less.hyps [of "drop 5 q"] pending_drop [OF less.prems] True by fastforce
    then have "base32_groups a (length q) = (base32_symbol (take 5 q) # out, length r)"
      using True pending_symbol [OF less.prems True] by (subst base32_groups.simps) simp
    then show ?thesis
      using IH(2-) groups5_step [OF True] by auto
  next
    case False
    then show ?thesis
      using less.prems by (subst base32_groups.simps) auto
  qed
qed

lemma base32_loop_pending:
  "pending q a \<Longrightarrow> length q < 5 \<Longrightarrow>
   base32_loop bs a (length q) = map base32_symbol (groups5 (q @ concat (map byte_bits bs)))"
proof (induction bs arbitrary: q a)
  case Nil
  show ?case
  proof (cases "q = []")
    case False
    let ?q = "q @ replicate (5 - length q) False"
    have "kBase32Alphabet ! unat (push_bit (5 - length q) a AND 0x1F) = base32_symbol ?q"
      using pending_symbol [OF pending_pad [OF Nil]] Nil(2) by simp
    moreover have "groups5 q = [?q]"
      using False Nil(2) by (cases q) auto
    ultimately show ?thesis
      using False by simp
  qed simp
next
  case (Cons b bs)
  let ?a = "push_bit 8 a OR ucast b :: 32 word"
  have len: "length (q @ byte_bits b) = length q + 8" by (simp add: byte_bits_def)
  obtain out r where "base32_groups ?a (length q + 8) = (out, length r)" "length r < 5" "pending r ?a"
      "\<forall>s. map base32_symbol (groups5 ((q @ byte_bits b) @ s)) = out @ map base32_symbol (groups5 (r @ s))"
    using base32_groups_pending [OF pending_byte [OF Cons.prems, of b]] unfolding len by blast
  then show ?case
    using Cons.IH [of r ?a] by (simp add: Let_def)
qed

text \<open>
  The enrolled secret is standard base32: the shifting 32-bit accumulator, which drops its high
  bits as it goes, produces exactly the symbols of the five-bit groups of the secret, high bit
  first, the last group filled with zero bits.
\<close>

theorem base32_reference: "base32 bs = map base32_symbol (groups5 (concat (map byte_bits bs)))"
  using base32_loop_pending [of "[]" 0 bs] by (simp add: base32_def pending_def)

section \<open>The shape of a code\<close>

lemma length_to_string: "n < 10 ^ w \<Longrightarrow> 0 < w \<Longrightarrow> length (to_string n) \<le> w"
proof (induction n arbitrary: w rule: to_string.induct)
  case (1 n)
  show ?case
  proof (cases "n < 10")
    case True
    then show ?thesis using 1(3) by (simp add: to_string.simps)
  next
    case False
    then obtain v where w: "w = Suc v" "0 < v"
      using 1(2,3) by (cases w; cases "w - 1") auto
    then have "n div 10 < 10 ^ v" using 1(2) by (simp add: less_mult_imp_div_less mult.commute)
    then show ?thesis
      using 1(1) [OF False _ w(2)] w(1) False by (simp add: to_string.simps [of n])
  qed
qed

lemma to_string_is_digit: "list_all is_digit_char (to_string n)"
  using read_digits_to_string [of n] by (simp add: read_digits_def split: if_splits)

lemma format_padded_shape:
  assumes "n < 10 ^ w" "0 < w"
  shows "length (format_padded n w) = w" "list_all is_digit_char (format_padded n w)"
  using length_to_string [OF assms] to_string_is_digit [of n]
  by (auto simp: format_padded_def Let_def list_all_iff is_digit_char_def)

lemma hotp_modulus_values: "hotp_modulus 6 = 1000000" "hotp_modulus 8 = 100000000"
  by (simp_all add: numeral_eq_Suc)

lemma hotp_shape:
  assumes "hotp mac secret counter d = Inr s" "d = 6 \<or> d = 8"
  shows "length s = unat d" "list_all is_digit_char s"
proof -
  obtain b where s: "s = format_padded (unat (b mod hotp_modulus (unat d))) (unat d)"
    using assms(1) by (auto simp: hotp_def Let_def split: if_splits option.splits)
  have "unat (b mod hotp_modulus (unat d)) < 10 ^ unat d"
    using assms(2) by (auto simp: unat_mod hotp_modulus_values)
  moreover have "0 < unat d" using assms(2) by auto
  ultimately show "length s = unat d" "list_all is_digit_char s"
    unfolding s by (rule format_padded_shape)+
qed

section \<open>The search\<close>

definition totp_decides :: "(64 word \<Rightarrow> string Result) \<Rightarrow> string \<Rightarrow> 64 word \<Rightarrow> bool" where
  "totp_decides code presented c = (case code c of Inl _ \<Rightarrow> True | Inr x \<Rightarrow> x = presented)"

definition totp_outcome ::
    "(64 word \<Rightarrow> string Result) \<Rightarrow> 64 word option \<Rightarrow> 64 word option \<Rightarrow> 64 word Result" where
  "totp_outcome code lastAcceptedStep found =
     (case found of
        None \<Rightarrow> Inl (authFailure ''TOTP response did not verify.'')
      | Some c \<Rightarrow>
          (case code c of
             Inl e \<Rightarrow> Inl e
           | Inr _ \<Rightarrow> if (case lastAcceptedStep of None \<Rightarrow> False | Some l \<Rightarrow> c \<le> l)
                       then Inl (authFailure ''TOTP response was replayed.'') else Inr c))"

lemma totp_search_returns:
  assumes "unat final < 2 ^ 64 - 1" "unat m \<le> unat final + 1"
  shows "totp_search code presented l m final =
     Some (totp_outcome code l (find (totp_decides code presented) (map of_nat [unat m..<unat final + 1])))"
  using assms(2)
proof (induction "unat final + 1 - unat m" arbitrary: m)
  case 0
  then have "unat m = unat final + 1" by simp
  then have "\<not> m \<le> final" by (simp add: word_le_nat_alt)
  with 0 show ?case
    by (subst totp_search.simps) (simp add: totp_outcome_def)
next
  case (Suc n)
  then have le: "m \<le> final" and step: "unat (m + 1) = unat m + 1"
    using assms(1) by (simp_all add: word_le_nat_alt unat_word_ariths)
  then have IH: "totp_search code presented l (m + 1) final =
      Some (totp_outcome code l (find (totp_decides code presented) (map of_nat [unat m + 1..<unat final + 1])))"
    using Suc(1) [of "m + 1"] Suc(2) by simp
  have "[unat m..<unat final + 1] = unat m # [unat m + 1..<unat final + 1]"
    using le by (simp add: upt_conv_Cons word_le_nat_alt)
  then show ?case
    using le IH by (subst totp_search.simps)
      (simp add: totp_decides_def totp_outcome_def split: sum.split)
qed

lemma verifyTotp_window:
  assumes "TotpPolicy_create step d past future = Inr p" "0 \<le> now" "now < 2 ^ 63"
    and "length presented = unat d" "list_all is_digit_char presented"
  defines "k \<equiv> nat (now div step)"
  shows "verifyTotp mac secret p presented now l =
     Some (totp_outcome (\<lambda>c. hotp mac secret c d) l
       (find (totp_decides (\<lambda>c. hotp mac secret c d) presented) (map of_nat [k - unat past..<k + unat future + 1])))"
    and "k + unat future + 1 < 2 ^ 64"
proof -
  have p: "totp_step p = step" "totp_digits p = d" "totp_pastWindow p = past" "totp_futureWindow p = future"
    and b: "0 < step" "past \<le> 10" "future \<le> 10"
    using assms(1) by (auto simp: TotpPolicy_create_def not_less split: if_splits)
  have w: "unat past \<le> 10" "unat future \<le> 10"
    using b by (simp_all add: word_le_nat_alt)
  have "0 \<le> now div step" "now div step \<le> now"
    using zdiv_mono2 [of now 1 step] b(1) assms(2) by (simp_all add: pos_imp_zdiv_nonneg_iff)
  then have k: "int k = now div step" "k < 2 ^ 63"
    using assms(3) by (simp_all add: k_def nat_less_iff)
  then show "k + unat future + 1 < 2 ^ 64" using w by simp
  define c :: "64 word" where "c = of_int (now div step)"
  have c: "unat c = k"
    using k by (simp add: c_def flip: k(1)) (simp add: unat_of_nat)
  have wide: "unat (ucast past :: 64 word) = unat past" "unat (ucast future :: 64 word) = unat future"
    using w by (simp_all add: unsigned_ucast_eq take_bit_eq_mod)
  let ?first = "if ucast past \<le> c then c - ucast past else 0" and ?final = "c + ucast future"
  have first: "unat ?first = k - unat past"
    using c wide by (auto simp: word_le_nat_alt unat_sub)
  have final: "unat ?final = k + unat future"
    using c wide k(2) w by (simp add: unat_word_ariths)
  have "verifyTotp mac secret p presented now l =
      totp_search (\<lambda>c. hotp mac secret c d) presented l ?first ?final"
    using assms(2,4,5) b(1) by (simp add: verifyTotp_def timeStep_def p c_def Let_def)
  also have "\<dots> = Some (totp_outcome (\<lambda>c. hotp mac secret c d) l
      (find (totp_decides (\<lambda>c. hotp mac secret c d) presented) (map of_nat [unat ?first..<unat ?final + 1])))"
    using first final k(2) w by (intro totp_search_returns) simp_all
  finally show "verifyTotp mac secret p presented now l =
     Some (totp_outcome (\<lambda>c. hotp mac secret c d) l
       (find (totp_decides (\<lambda>c. hotp mac secret c d) presented) (map of_nat [k - unat past..<k + unat future + 1])))"
    unfolding first final .
qed

lemma verifyTotp_returns:
  assumes "TotpPolicy_create step d past future = Inr p" "now < 2 ^ 63"
  shows "\<exists>r. verifyTotp mac secret p presented now l = Some r"
proof (cases "length presented = unat d \<and> list_all is_digit_char presented \<and> 0 \<le> now")
  case True
  then show ?thesis using verifyTotp_window(1) [OF assms(1) _ assms(2)] by blast
next
  case False
  moreover have "totp_digits p = d" using assms(1) by (auto simp: TotpPolicy_create_def split: if_splits)
  ultimately show ?thesis by (auto simp: verifyTotp_def timeStep_def)
qed

text \<open>The first deciding step of a window of counters.\<close>

lemma find_window:
  assumes "b \<le> 2 ^ 64"
  shows "find P (map of_nat [a..<b]) = Some (c :: 64 word) \<longleftrightarrow>
     unat c \<in> {a..<b} \<and> P c \<and> (\<forall>j \<in> {a..<unat c}. \<not> P (of_nat j))"
proof
  assume "find P (map of_nat [a..<b]) = Some c"
  then obtain i where i: "i < b - a" "c = of_nat (a + i)" "P c" "\<forall>j < i. \<not> P (of_nat (a + j))"
    by (auto simp: find_Some_iff)
  then have "unat c = a + i" using assms by (simp add: unat_of_nat del: of_nat_add)
  moreover have "\<not> P (of_nat j)" if "a \<le> j" "j < a + i" for j
    using i(4) that by (metis add_less_cancel_left le_add_diff_inverse)
  ultimately show "unat c \<in> {a..<b} \<and> P c \<and> (\<forall>j \<in> {a..<unat c}. \<not> P (of_nat j))"
    using i(1,3) by auto
next
  assume c: "unat c \<in> {a..<b} \<and> P c \<and> (\<forall>j \<in> {a..<unat c}. \<not> P (of_nat j))"
  then show "find P (map of_nat [a..<b]) = Some c"
    unfolding find_Some_iff by (intro exI [of _ "unat c - a"]) (auto simp del: of_nat_add)
qed

text \<open>
  C35. Verification of a one-time password ends and is exact. For every policy that can be made and
  every instant of the clock, it returns; it accepts a step exactly when that step lies in the window
  around the current one, its code is the presented text, no earlier step of the window has this
  code (or fails), and the step is newer than the last accepted one. So the accepted steps of an
  account strictly increase, and no code is accepted twice for a step. The code of the current step
  is accepted unless an earlier step of the window has the same code.
\<close>

theorem totp_exact:
  assumes "TotpPolicy_create step d past future = Inr p" "0 \<le> now" "now < 2 ^ 63" "k = nat (now div step)"
  shows "\<exists>r. verifyTotp mac secret p presented now l = Some r
    \<and> (r = Inr c \<longleftrightarrow>
         k - unat past \<le> unat c \<and> unat c \<le> k + unat future \<and> hotp mac secret c d = Inr presented
         \<and> (\<forall>j \<in> {k - unat past..<unat c}. \<exists>x. hotp mac secret (of_nat j) d = Inr x \<and> x \<noteq> presented)
         \<and> (\<forall>s. l = Some s \<longrightarrow> s < c))"
proof (cases "length presented = unat d \<and> list_all is_digit_char presented")
  case True
  note window = verifyTotp_window [OF assms(1-3), of presented, folded assms(4)]
  let ?code = "\<lambda>c. hotp mac secret c d"
  have range: "k + unat future + 1 \<le> 2 ^ 64"
    using window(2) True by simp
  have out: "totp_outcome ?code l found = Inr c \<longleftrightarrow>
      found = Some c \<and> (\<exists>x. ?code c = Inr x) \<and> (\<forall>s. l = Some s \<longrightarrow> s < c)" for found
    by (auto simp: totp_outcome_def not_le split: option.splits sum.splits)
  have dec: "(totp_decides ?code presented x \<and> (\<exists>y. ?code x = Inr y)) = (?code x = Inr presented)"
      "(\<not> totp_decides ?code presented x) = (\<exists>y. ?code x = Inr y \<and> y \<noteq> presented)" for x
    by (cases "?code x"; auto simp: totp_decides_def)+
  have "totp_outcome ?code l (find (totp_decides ?code presented)
        (map of_nat [k - unat past..<k + unat future + 1])) = Inr c \<longleftrightarrow>
      unat c \<in> {k - unat past..<k + unat future + 1} \<and> ?code c = Inr presented
      \<and> (\<forall>j \<in> {k - unat past..<unat c}. \<exists>y. ?code (of_nat j) = Inr y \<and> y \<noteq> presented)
      \<and> (\<forall>s. l = Some s \<longrightarrow> s < c)"
    unfolding out find_window [OF range] dec(2) dec(1) [of c, symmetric] by argo
  then show ?thesis
    using window(1) [of mac secret l] True by (intro exI conjI) (auto simp: less_Suc_eq_le)
next
  case False
  have d: "totp_digits p = d" "d = 6 \<or> d = 8"
    using assms(1) by (auto simp: TotpPolicy_create_def split: if_splits)
  then show ?thesis
    using False hotp_shape [OF _ d(2), of mac secret c presented] by (auto simp: verifyTotp_def)
qed

theorem totp_exact_witness:
  "\<exists>r. verifyTotp (\<lambda>_ _. Some (replicate 20 1)) (replicate 20 7) TotpPolicy_recommended ''843009'' 65000 None = Some r
     \<and> r = Inr 1"
proof -
  have policy: "TotpPolicy_create 30000 6 1 1 = Inr TotpPolicy_recommended"
    by (simp add: TotpPolicy_create_def TotpPolicy_recommended_def)
  have code: "hotp (\<lambda>_ _. Some (replicate 20 1)) (replicate 20 7) 1 6 = Inr ''843009''"
    by (simp add: hotp_def int_max_def Let_def nth_Cons' hotp_modulus_values format_padded_def to_string.simps digit_def) code_simp
  show ?thesis
    using totp_exact [OF policy, of 65000 2 "\<lambda>_ _. Some (replicate 20 1)" "replicate 20 7" "''843009''" None 1] code
    by simp
qed

end
