(* ===== verification/Recovery.thy ===== *)
theory Recovery
  imports Provider
begin

text \<open>
  Recovery codes (\<^verbatim>\<open>src/src/credentials/credentials.cpp\<close>): the repository of code digests per
  identity and the service that issues a batch, redeems a code and revokes the batch.
\<close>

type_synonym RecoveryCodeDigest = "byte list"
type_synonym RecoveryCodeRepository = "(IdentityId, RecoveryCodeDigest list) omap"

section \<open>Repository\<close>

definition recovery_replace ::
    "IdentityId \<Rightarrow> RecoveryCodeDigest list \<Rightarrow> RecoveryCodeRepository \<Rightarrow> Status \<times> RecoveryCodeRepository" where
  "recovery_replace identity digests m =
     (if StrongId_empty identity \<or> length digests > 64
      then (fail_msg InvalidArgument ''The recovery-code replacement is invalid.'', m)
      else if adjacent_find (sort digests)
      then (fail_msg InvalidArgument ''Recovery-code digests must be unique.'', m)
      else if sort digests = [] then (ok, omap_erase identity m)
      else (ok, omap_insert_or_assign identity (sort digests) m))"

definition recovery_consume ::
    "IdentityId \<Rightarrow> RecoveryCodeDigest \<Rightarrow> RecoveryCodeRepository \<Rightarrow> Status \<times> RecoveryCodeRepository" where
  "recovery_consume identity digest m =
     (case map_of m identity of
        None \<Rightarrow> (Inl (authFailure ''No recovery-code set exists.''), m)
      | Some codes \<Rightarrow>
          (case find (\<lambda>candidate. constantTimeEquals candidate digest) codes of
             None \<Rightarrow> (Inl (authFailure ''Recovery code did not verify.''), m)
           | Some matching \<Rightarrow> (ok, omap_modify identity (remove1 matching) m)))"

definition recovery_remaining :: "IdentityId \<Rightarrow> RecoveryCodeRepository \<Rightarrow> nat Result" where
  "recovery_remaining identity m =
     Inr (case map_of m identity of None \<Rightarrow> 0 | Some codes \<Rightarrow> length codes)"

section \<open>Service\<close>

definition RecoveryCodeService_create :: "string \<Rightarrow> string Result" where
  "RecoveryCodeService_create pepper =
     (if length pepper < 32
      then fail_msg InvalidArgument ''A recovery-code pepper must contain at least 32 bytes.''
      else Inr pepper)"

definition recovery_digest :: "env \<Rightarrow> string \<Rightarrow> string \<Rightarrow> RecoveryCodeDigest Result" where
  "recovery_digest E pepper code = hmacSha256 E pepper code"

text \<open>The loop of \<^verbatim>\<open>issue\<close>, from the given index on: the codes and their digests so far.\<close>

fun issue_loop ::
    "env \<Rightarrow> string \<Rightarrow> nat \<Rightarrow> nat \<Rightarrow> string list \<Rightarrow> RecoveryCodeDigest list \<Rightarrow> (string list \<times> RecoveryCodeDigest list) Result" where
  "issue_loop E pepper index 0 codes digests = Inr (codes, digests)"
| "issue_loop E pepper index (Suc n) codes digests =
     (case randomTokenBase64Url E index 20 of
        Inl e \<Rightarrow> Inl e
      | Inr code \<Rightarrow>
          (case recovery_digest E pepper code of
             Inl e \<Rightarrow> Inl e
           | Inr fingerprint \<Rightarrow> issue_loop E pepper (Suc index) n (codes @ [code]) (digests @ [fingerprint])))"

definition recovery_issue ::
    "env \<Rightarrow> string \<Rightarrow> IdentityId \<Rightarrow> nat \<Rightarrow> RecoveryCodeRepository \<Rightarrow> string list Result \<times> RecoveryCodeRepository" where
  "recovery_issue E pepper identity howMany m =
     (if StrongId_empty identity \<or> howMany = 0 \<or> howMany > 32
      then (fail_msg InvalidArgument ''Recovery-code issuance parameters are invalid.'', m)
      else case issue_loop E pepper 0 howMany [] [] of
        Inl e \<Rightarrow> (Inl e, m)
      | Inr (codes, digests) \<Rightarrow>
          (case recovery_replace identity digests m of
             (Inl e, m') \<Rightarrow> (Inl e, m')
           | (Inr _, m') \<Rightarrow> (Inr codes, m')))"

definition recovery_redeem ::
    "env \<Rightarrow> string \<Rightarrow> IdentityId \<Rightarrow> string \<Rightarrow> RecoveryCodeRepository \<Rightarrow> Status \<times> RecoveryCodeRepository" where
  "recovery_redeem E pepper identity presented m =
     (case recovery_digest E pepper presented of
        Inl e \<Rightarrow> (Inl e, m)
      | Inr fingerprint \<Rightarrow> recovery_consume identity fingerprint m)"

definition recovery_revoke :: "IdentityId \<Rightarrow> RecoveryCodeRepository \<Rightarrow> Status \<times> RecoveryCodeRepository" where
  "recovery_revoke identity m =
     (if StrongId_empty identity
      then (fail_msg InvalidArgument ''Recovery-code revocation requires an identity.'', m)
      else recovery_replace identity [] m)"

section \<open>The repository as sets\<close>

definition recovery_set :: "RecoveryCodeRepository \<Rightarrow> IdentityId \<Rightarrow> RecoveryCodeDigest set" where
  "recovery_set m i = (case map_of m i of None \<Rightarrow> {} | Some codes \<Rightarrow> set codes)"

definition recovery_inv :: "RecoveryCodeRepository \<Rightarrow> bool" where
  "recovery_inv m \<longleftrightarrow> omap_ok m \<and> (\<forall>i codes. map_of m i = Some codes \<longrightarrow> distinct codes)"

lemma find_equal: "find (\<lambda>x. x = y) xs = (if y \<in> set xs then Some y else None)"
  by (induction xs) auto

lemma sort_eq_Nil [simp]: "sort xs = [] \<longleftrightarrow> xs = []"
  by (metis length_0_conv length_sort)

lemma recovery_replace_sets:
  assumes "recovery_inv m" "recovery_replace identity digests m = (r, m')"
  shows "recovery_inv m'"
    "recovery_set m' = (if succeeded r then (recovery_set m)(identity := set digests) else recovery_set m)"
    "succeeded r \<Longrightarrow> distinct digests \<and> recovery_remaining identity m' = Inr (length digests)"
  using assms
  by (auto simp: recovery_replace_def recovery_inv_def recovery_set_def recovery_remaining_def fun_eq_iff
      map_of_erase map_of_insert_or_assign omap_ok_erase split: if_splits option.splits)

lemma recovery_consume_sets:
  assumes "recovery_inv m" "recovery_consume identity d m = (r, m')"
  shows "recovery_inv m'" "succeeded r \<longleftrightarrow> d \<in> recovery_set m identity"
    "recovery_set m' = (recovery_set m)(identity := recovery_set m identity - {d})"
  using assms
  by (auto simp: recovery_consume_def recovery_inv_def recovery_set_def fun_eq_iff find_equal map_of_modify
      split: if_splits option.splits)

lemma issue_loop_digests:
  "issue_loop E pepper index n codes digests = Inr (codes', digests') \<Longrightarrow>
   map (recovery_digest E pepper) codes = map Inr digests \<Longrightarrow>
   map (recovery_digest E pepper) codes' = map Inr digests' \<and> length codes' = length codes + n"
  by (induction E pepper index n codes digests rule: issue_loop.induct) (auto split: sum.splits)

text \<open>A batch of codes and its digests.\<close>

lemma recovery_issue_cases:
  assumes "recovery_inv m" "recovery_issue E pepper identity howMany m = (r, m')"
  obtains e where "r = Inl e" "m' = m"
  | codes ds where "r = Inr codes" "map (recovery_digest E pepper) codes = map Inr ds" "length codes = howMany"
      "distinct ds" "recovery_inv m'" "recovery_set m' = (recovery_set m)(identity := set ds)"
      "recovery_remaining identity m' = Inr howMany"
proof (cases r)
  case (Inl e)
  then have "m' = m"
    using assms(2) by (auto simp: recovery_issue_def recovery_replace_def split: if_splits sum.splits prod.splits)
  with Inl show thesis by (rule that(1))
next
  case (Inr codes)
  then obtain ds where loop: "issue_loop E pepper 0 howMany [] [] = Inr (codes, ds)"
    and replace: "recovery_replace identity ds m = (ok, m')"
    using assms(2) by (auto simp: recovery_issue_def split: if_splits sum.splits prod.splits)
  have ds: "map (recovery_digest E pepper) codes = map Inr ds" "length codes = howMany"
    using issue_loop_digests [OF loop] by simp_all
  then have "length ds = howMany" using map_eq_imp_length_eq [OF ds(1)] by simp
  with ds show thesis
    using recovery_replace_sets [OF assms(1) replace] Inr by (intro that(2)) simp_all
qed

section \<open>Single use\<close>

datatype recovery_call =
    IssueCodes env IdentityId nat
  | RedeemCode env IdentityId string
  | RevokeCodes IdentityId

fun recovery_step :: "string \<Rightarrow> recovery_call \<Rightarrow> RecoveryCodeRepository \<Rightarrow> Status \<times> RecoveryCodeRepository" where
  "recovery_step pepper (IssueCodes E i n) m =
     (case recovery_issue E pepper i n m of (Inl e, m') \<Rightarrow> (Inl e, m') | (Inr _, m') \<Rightarrow> (ok, m'))"
| "recovery_step pepper (RedeemCode E i code) m = recovery_redeem E pepper i code m"
| "recovery_step pepper (RevokeCodes i) m = recovery_revoke i m"

type_synonym recovery_key = "IdentityId \<times> RecoveryCodeDigest"

definition recovery_has :: "RecoveryCodeRepository \<Rightarrow> recovery_key \<Rightarrow> bool" where
  "recovery_has m k = (snd k \<in> recovery_set m (fst k))"

fun recovery_redeems :: "string \<Rightarrow> RecoveryCodeRepository \<Rightarrow> recovery_call \<Rightarrow> recovery_key \<Rightarrow> bool" where
  "recovery_redeems pepper m (RedeemCode E i code) k =
     (i = fst k \<and> recovery_digest E pepper code = Inr (snd k) \<and> succeeded (fst (recovery_redeem E pepper i code m)))"
| "recovery_redeems pepper m _ k = False"

fun recovery_adds :: "string \<Rightarrow> RecoveryCodeRepository \<Rightarrow> recovery_call \<Rightarrow> recovery_key \<Rightarrow> bool" where
  "recovery_adds pepper m (IssueCodes E i n) k =
     (i = fst k \<and> (case fst (recovery_issue E pepper i n m) of
                      Inl _ \<Rightarrow> False
                    | Inr codes \<Rightarrow> Inr (snd k) \<in> recovery_digest E pepper ` set codes))"
| "recovery_adds pepper m _ k = False"

lemma recovery_redeem_sets:
  assumes "recovery_inv m"
  shows "recovery_inv (snd (recovery_redeem E pepper i code m))"
    "succeeded (fst (recovery_redeem E pepper i code m)) \<longleftrightarrow>
       (\<exists>d. recovery_digest E pepper code = Inr d \<and> d \<in> recovery_set m i)"
    "recovery_set (snd (recovery_redeem E pepper i code m)) =
       (case recovery_digest E pepper code of
          Inl _ \<Rightarrow> recovery_set m | Inr d \<Rightarrow> (recovery_set m)(i := recovery_set m i - {d}))"
  using assms recovery_consume_sets [OF assms surjective_pairing]
  by (auto simp: recovery_redeem_def split: sum.splits)

interpretation recovery: single_use_store "recovery_step pepper" recovery_inv recovery_has
    "recovery_redeems pepper" "recovery_adds pepper"
  for pepper
proof
  fix m :: RecoveryCodeRepository and c k
  assume inv: "recovery_inv m"
  note redeem = recovery_redeem_sets [OF inv]
  have revoke: "recovery_inv (snd (recovery_revoke i m))" "recovery_set (snd (recovery_revoke i m)) j \<subseteq> recovery_set m j" for i j
    using inv recovery_replace_sets [OF inv, of i "[]"]
    by (auto simp: recovery_revoke_def split: if_splits) (metis prod.collapse, metis empty_iff fun_upd_apply list.set(1) prod.collapse)
  show "recovery_inv (snd (recovery_step pepper c m))"
  proof (cases c)
    case (IssueCodes E i n)
    show ?thesis
      by (rule recovery_issue_cases [OF inv surjective_pairing [of "recovery_issue E pepper i n m"]])
        (use inv in \<open>auto simp: IssueCodes case_prod_unfold split: sum.split\<close>)
  qed (use redeem revoke in simp_all)
  show "recovery_has m k" if "recovery_redeems pepper m c k"
    using that by (cases c) (auto simp: recovery_has_def redeem)
  show "\<not> recovery_has (snd (recovery_step pepper c m)) k" if "recovery_redeems pepper m c k"
    using that by (cases c) (auto simp: recovery_has_def redeem)
  show "\<not> recovery_has (snd (recovery_step pepper c m)) k" if "\<not> recovery_has m k" "\<not> recovery_adds pepper m c k"
  proof (cases c)
    case (IssueCodes E i n)
    show ?thesis
    proof (rule recovery_issue_cases [OF inv surjective_pairing [of "recovery_issue E pepper i n m"]])
      fix codes ds
      assume "fst (recovery_issue E pepper i n m) = Inr codes" "map (recovery_digest E pepper) codes = map Inr ds"
        "recovery_set (snd (recovery_issue E pepper i n m)) = (recovery_set m)(i := set ds)"
      moreover from this(2) have "recovery_digest E pepper ` set codes = Inr ` set ds"
        by (metis list.set_map)
      ultimately show ?thesis
        using that by (auto simp: IssueCodes recovery_has_def case_prod_unfold split: if_splits)
    qed (use that in \<open>simp add: IssueCodes case_prod_unfold\<close>)
  next
    case (RedeemCode E i code)
    with that show ?thesis
      by (auto simp: recovery_has_def redeem split: sum.splits if_splits)
  next
    case (RevokeCodes i)
    with that revoke show ?thesis
      by (auto simp: recovery_has_def)
  qed
qed

lemma recovery_run_inv: "recovery_inv (final_state (recovery_step pepper) cs [])"
  using recovery.use_inv by (induction cs rule: rev_induct) (simp_all add: recovery_inv_def)

text \<open>
  Recovery codes are single use and replaced as a batch. After any history, an issued batch has
  as many codes as asked for; a text is accepted exactly when its keyed digest is that of a code of
  this batch, so every code of an earlier batch is void; no code is accepted twice, whatever is
  called in between, unless a later batch contains its digest again; and after a revocation no text
  at all is accepted.
\<close>

theorem recovery_code_single_use:
  assumes "recovery_issue E pepper identity n (final_state (recovery_step pepper) cs []) = (Inr codes, m)"
    and "env_HMAC E' = env_HMAC E"
  shows "length codes = n \<and> recovery_remaining identity m = Inr n
    \<and> (succeeded (fst (recovery_redeem E' pepper identity code m)) \<longleftrightarrow>
         recovery_digest E pepper code \<in> recovery_digest E pepper ` set codes)
    \<and> (additions (recovery_step pepper) (recovery_adds pepper) (identity, d) later m = 0 \<longrightarrow>
         redemptions (recovery_step pepper) (recovery_redeems pepper) (identity, d) later m \<le> 1)
    \<and> (recovery_revoke identity m = (ok, m') \<longrightarrow> \<not> succeeded (fst (recovery_redeem E' pepper identity code m')))"
proof (rule recovery_issue_cases [OF recovery_run_inv assms(1)])
  fix codes' ds
  assume r: "(Inr codes :: string list Result) = Inr codes'" "length codes' = n" "recovery_inv m"
      "recovery_remaining identity m = Inr n"
    and ds: "map (recovery_digest E pepper) codes' = map Inr ds"
    and sets: "recovery_set m = (recovery_set (final_state (recovery_step pepper) cs []))(identity := set ds)"
  have digests: "recovery_digest E pepper ` set codes = Inr ` set ds"
    using ds r(1) by (metis Inr_inject list.set_map)
  have same: "recovery_digest E' pepper = recovery_digest E pepper"
    using assms(2) by (simp add: recovery_digest_def fun_eq_iff hmac_HMAC [of E' E])
  have "\<not> succeeded (fst (recovery_redeem E' pepper identity code m'))" if revoked: "recovery_revoke identity m = (ok, m')"
  proof -
    have "recovery_replace identity [] m = (ok, m')"
      using revoked by (simp add: recovery_revoke_def split: if_splits)
    from recovery_replace_sets(1,2) [OF r(3) this] show ?thesis
      using recovery_redeem_sets(2) [of m'] by simp
  qed
  moreover have "succeeded (fst (recovery_redeem E' pepper identity code m)) \<longleftrightarrow>
      recovery_digest E pepper code \<in> recovery_digest E pepper ` set codes"
    unfolding recovery_redeem_sets(2) [OF r(3)] same digests by (auto simp: sets)
  ultimately show ?thesis
    using r recovery.redeemed_at_most_once [OF r(3), of pepper "(identity, d)" later] by blast
qed simp

theorem recovery_code_single_use_witness:
  "\<exists>codes m. recovery_issue sample_env (replicate 32 (CHR ''p'')) (StrongId ''alice'') 1 [] = (Inr codes, m)
     \<and> length codes = 1
     \<and> succeeded (fst (recovery_redeem sample_env (replicate 32 (CHR ''p'')) (StrongId ''alice'') (hd codes) m))"
proof -
  let ?p = "replicate 32 (CHR ''p'')"
  have "\<exists>codes m. recovery_issue sample_env ?p (StrongId ''alice'') 1 [] = (Inr codes, m)"
    by (simp add: recovery_issue_def recovery_digest_def recovery_replace_def hmacSha256_def int_max_def
        sample_env_def randomTokenBase64Url_def randomBytes_def)
  then obtain codes m where issue: "recovery_issue sample_env ?p (StrongId ''alice'') 1
      (final_state (recovery_step ?p) [] []) = (Inr codes, m)" by auto
  note exact = recovery_code_single_use [OF issue refl]
  have "length codes = 1" using exact by blast
  then have "hd codes \<in> set codes" by (cases codes) auto
  then show ?thesis
    using exact issue by fastforce
qed

end
