(* ===== verification/Authenticator.thy ===== *)
theory Authenticator
  imports Transaction
begin

text \<open>
  The interface between the authentication service and a provider:
  \<^verbatim>\<open>src/src/identity/provider/authenticator.cpp\<close> (request, challenge, response) and
  \<^verbatim>\<open>registry.cpp\<close>. A provider is an object of an abstract class; what it answers in a call is a
  field of its record, \<open>None\<close> when it throws.
\<close>

datatype ChallengeIdTag = ChallengeIdTag

type_synonym ChallengeId = "ChallengeIdTag StrongId"

record AuthenticationRequest =
  areq_provider :: ProviderId
  areq_client :: ClientContext
  areq_requestedAssurance :: "AssuranceLevel option"
  areq_parameters :: AttributeMap

definition setRemoteAddress :: "string \<Rightarrow> ClientContext \<Rightarrow> ClientContext" where
  "setRemoteAddress value c = c\<lparr>client_remoteAddress := value\<rparr>"

definition setUserAgent :: "string \<Rightarrow> ClientContext \<Rightarrow> ClientContext" where
  "setUserAgent value c = c\<lparr>client_userAgent := value\<rparr>"

definition setRequestedAssurance :: "AssuranceLevel \<Rightarrow> AuthenticationRequest \<Rightarrow> AuthenticationRequest" where
  "setRequestedAssurance level r = r\<lparr>areq_requestedAssurance := Some level\<rparr>"

definition Request_setParameter :: "string \<Rightarrow> string \<Rightarrow> AuthenticationRequest \<Rightarrow> AuthenticationRequest" where
  "Request_setParameter key value r =
     r\<lparr>areq_parameters := omap_insert_or_assign key value (areq_parameters r)\<rparr>"

record AuthenticationChallenge =
  challenge_id :: ChallengeId
  challenge_expiresAt :: Instant
  challenge_parameters :: AttributeMap

definition Challenge_isExpiredAt :: "AuthenticationChallenge \<Rightarrow> Instant \<Rightarrow> bool" where
  "Challenge_isExpiredAt c now = (now \<ge> challenge_expiresAt c)"

definition Challenge_setParameter :: "string \<Rightarrow> string \<Rightarrow> AuthenticationChallenge \<Rightarrow> AuthenticationChallenge" where
  "Challenge_setParameter key value c =
     c\<lparr>challenge_parameters := omap_insert_or_assign key value (challenge_parameters c)\<rparr>"

record AuthenticationResponse =
  response_challengeId :: ChallengeId
  response_client :: ClientContext
  response_parameters :: AttributeMap

definition Response_setParameter :: "string \<Rightarrow> string \<Rightarrow> AuthenticationResponse \<Rightarrow> AuthenticationResponse" where
  "Response_setParameter key value r =
     r\<lparr>response_parameters := omap_insert_or_assign key value (response_parameters r)\<rparr>"

record AuthenticationProvider =
  prov_id :: ProviderId
  prov_interactionModel :: InteractionModel
  prov_maximumClaimableAssurance :: AssuranceLevel
  prov_beginAuthentication :: "AuthenticationRequest \<Rightarrow> AuthenticationChallenge Result option"
  prov_completeAuthentication :: "AuthenticationResponse \<Rightarrow> AuthenticationOutcome Result option"

type_synonym ProviderRegistry = "(ProviderId, AuthenticationProvider) omap"

definition registerProvider :: "AuthenticationProvider option \<Rightarrow> ProviderRegistry \<Rightarrow> Status \<times> ProviderRegistry" where
  "registerProvider provider m =
     (case provider of
        None \<Rightarrow> (fail_msg InvalidArgument ''A null authentication provider cannot be registered.'', m)
      | Some p \<Rightarrow>
          if StrongId_empty (prov_id p)
          then (fail_msg InvalidArgument ''An authentication provider must have a non-empty identifier.'', m)
          else if omap_contains m (prov_id p)
          then (fail_detail AlreadyExists ''An authentication provider with that identifier is already registered.''
                  ''Duplicate provider registration was rejected rather than replacing the existing provider, because sessions and audit records already reference the identifier.'', m)
          else (ok, omap_emplace (prov_id p) p m))"

definition registry_find :: "ProviderRegistry \<Rightarrow> ProviderId \<Rightarrow> AuthenticationProvider option" where
  "registry_find m p = map_of m p"

definition registry_contains :: "ProviderRegistry \<Rightarrow> ProviderId \<Rightarrow> bool" where
  "registry_contains m p = omap_contains m p"

definition registry_ids :: "ProviderRegistry \<Rightarrow> ProviderId list" where
  "registry_ids m = map fst m"

definition registry_size :: "ProviderRegistry \<Rightarrow> nat" where
  "registry_size m = length m"

text \<open>Every provider is found under its own id, and a registered one is never replaced.\<close>

definition registry_inv :: "ProviderRegistry \<Rightarrow> bool" where
  "registry_inv m \<longleftrightarrow> omap_ok m \<and> (\<forall>k p. map_of m k = Some p \<longrightarrow> prov_id p = k \<and> \<not> StrongId_empty k)"

interpretation registry: guarded_machine registerProvider registry_inv
proof
  fix m c
  assume "registry_inv m"
  then show "registry_inv (snd (registerProvider c m))"
    by (auto simp: registerProvider_def registry_inv_def omap_contains_def omap_ok_emplace om.find_emplace_new
        split: option.splits if_splits)
qed

lemma registry_kept:
  assumes "registry_inv m" "registry_find m k = Some p"
  shows "registry_find (snd (registerProvider c m)) k = Some p"
  using assms
  by (auto simp: registerProvider_def registry_inv_def registry_find_def omap_contains_def om.find_emplace_new
      split: option.splits)

interpretation registered: stable_fact registerProvider registry_inv "\<lambda>_. True" "\<lambda>m. registry_find m k = Some p"
  for k p
  by unfold_locales (simp add: registry_kept)

end
