(* ===== verification/Local_Provider.thy ===== *)
theory Local_Provider
  imports Password Totp Recovery Identity_Directory Authenticator
begin

text \<open>
  The local password provider (\<^verbatim>\<open>src/src/providers/local/local.cpp\<close>): the directory of local
  accounts with password hash and authenticator secret, and the provider that turns a password, a
  one-time password or a recovery code into an authentication outcome. An operation that runs the
  one-time password search returns an option (\<open>None\<close>: the search does not end).
\<close>

section \<open>The directory\<close>

datatype LocalVerification = VerifiedPassword | VerifiedPasswordAndTotp | VerifiedPasswordAndRecoveryCode

definition isValidSubject :: "ExternalSubject \<Rightarrow> bool" where
  "isValidSubject subject =
     (let v = id_value subject
      in v \<noteq> [] \<and> length v \<le> 320 \<and> \<not> list_ex (\<lambda>c. of_char c < (32 :: nat) \<or> of_char c = (127 :: nat)) v)"

record LocalAccount =
  la_identity :: "IdentityId option"
  la_password :: PasswordHash
  la_totp :: "TotpSecret option"
  la_lastAcceptedTotpStep :: "64 word option"

type_synonym LocalAccounts = "(ExternalSubject, LocalAccount) omap"

text \<open>What the directory is built with, and the libraries behind it.\<close>

record LocalConfig =
  lc_library :: password_library
  lc_mac :: Hmac
  lc_passwordHasher :: PasswordHasher
  lc_totpPolicy :: TotpPolicy
  lc_dummyHash :: PasswordHash

definition LocalDirectory_create ::
    "env \<Rightarrow> password_library \<Rightarrow> Hmac \<Rightarrow> PasswordHasher \<Rightarrow> TotpPolicy \<Rightarrow> (LocalConfig \<times> LocalAccounts) Result" where
  "LocalDirectory_create E L mac hasher totpPolicy =
     (case hasher_hash E L hasher (replicate 32 (CHR ''x'')) of
        Inl e \<Rightarrow> Inl e
      | Inr dummyHash \<Rightarrow>
          Inr (\<lparr>lc_library = L, lc_mac = mac, lc_passwordHasher = hasher, lc_totpPolicy = totpPolicy,
                lc_dummyHash = dummyHash\<rparr>, []))"

abbreviation lc_hash :: "LocalConfig \<Rightarrow> env \<Rightarrow> string \<Rightarrow> PasswordHash Result" where
  "lc_hash C E \<equiv> hasher_hash E (lc_library C) (lc_passwordHasher C)"

abbreviation lc_verify :: "LocalConfig \<Rightarrow> env \<Rightarrow> string \<Rightarrow> PasswordHash \<Rightarrow> bool Result" where
  "lc_verify C E \<equiv> hasher_verify E (lc_library C) (lc_passwordHasher C)"

abbreviation lc_needsRehash :: "LocalConfig \<Rightarrow> PasswordHash \<Rightarrow> bool Result" where
  "lc_needsRehash C \<equiv> needsRehash (lc_library C) (lc_passwordHasher C)"

definition local_enroll ::
    "LocalConfig \<Rightarrow> env \<Rightarrow> ExternalSubject \<Rightarrow> string \<Rightarrow> TotpSecret option \<Rightarrow> LocalAccounts \<Rightarrow> Status \<times> LocalAccounts" where
  "local_enroll C E subject password totp m =
     (if \<not> isValidSubject subject then (fail_msg InvalidArgument ''The local account subject is invalid.'', m)
      else case lc_hash C E password of
        Inl e \<Rightarrow> (Inl e, m)
      | Inr passwordHash \<Rightarrow>
          if omap_contains m subject then (fail_msg AlreadyExists ''The local account already exists.'', m)
          else (ok, omap_emplace subject \<lparr>la_identity = None, la_password = passwordHash, la_totp = totp,
                      la_lastAcceptedTotpStep = None\<rparr> m))"

definition enrollPending ::
    "LocalConfig \<Rightarrow> env \<Rightarrow> IdentityId \<Rightarrow> ExternalSubject \<Rightarrow> string \<Rightarrow> TotpSecret option \<Rightarrow> LocalAccounts \<Rightarrow> Status \<times> LocalAccounts" where
  "enrollPending C E canonicalIdentity subject password totp m =
     (if StrongId_empty canonicalIdentity \<or> \<not> isValidSubject subject
      then (fail_msg InvalidArgument ''A pending local account requires valid identity and subject values.'', m)
      else case lc_hash C E password of
        Inl e \<Rightarrow> (Inl e, m)
      | Inr passwordHash \<Rightarrow>
          if omap_contains m subject then (fail_msg AlreadyExists ''The local account already exists.'', m)
          else (ok, omap_emplace subject \<lparr>la_identity = Some canonicalIdentity, la_password = passwordHash,
                      la_totp = totp, la_lastAcceptedTotpStep = None\<rparr> m))"

definition rebindSubject ::
    "IdentityId \<Rightarrow> ExternalSubject \<Rightarrow> ExternalSubject \<Rightarrow> LocalAccounts \<Rightarrow> Status \<times> LocalAccounts" where
  "rebindSubject identity previous replacement m =
     (if StrongId_empty identity \<or> StrongId_empty previous \<or> \<not> isValidSubject replacement
      then (fail_msg InvalidArgument ''A local account rebind requires valid identifiers.'', m)
      else if omap_contains m replacement
      then (fail_msg AlreadyExists ''The replacement local account subject already exists.'', m)
      else case map_of m previous of
        None \<Rightarrow> (Inl (authFailure ''Local account is unknown.''), m)
      | Some account \<Rightarrow>
          if la_identity account \<noteq> None \<and> la_identity account \<noteq> Some identity
          then (fail_msg PermissionDenied ''The local account is owned by another identity.'', m)
          else (ok, omap_emplace replacement (account\<lparr>la_identity := Some identity\<rparr>) (omap_erase previous m)))"

definition removePending :: "IdentityId \<Rightarrow> ExternalSubject \<Rightarrow> LocalAccounts \<Rightarrow> Status \<times> LocalAccounts" where
  "removePending identity subject m =
     (case map_of m subject of
        None \<Rightarrow> (ok, m)
      | Some account \<Rightarrow>
          if la_identity account \<noteq> Some identity
          then (fail_msg PermissionDenied ''The pending local account is owned by another identity.'', m)
          else (ok, omap_erase subject m))"

definition changePassword ::
    "LocalConfig \<Rightarrow> env \<Rightarrow> ExternalSubject \<Rightarrow> string \<Rightarrow> LocalAccounts \<Rightarrow> Status \<times> LocalAccounts" where
  "changePassword C E subject password m =
     (case lc_hash C E password of
        Inl e \<Rightarrow> (Inl e, m)
      | Inr passwordHash \<Rightarrow>
          (case map_of m subject of
             None \<Rightarrow> (Inl (authFailure ''Local account is unknown.''), m)
           | Some account \<Rightarrow> (ok, omap_modify subject (la_password_update (\<lambda>_. passwordHash)) m)))"

text \<open>An unknown account still costs one verification, against the dummy hash.\<close>

definition unknown_account :: "LocalConfig \<Rightarrow> env \<Rightarrow> string \<Rightarrow> 'a Result" where
  "unknown_account C E password =
     (case lc_verify C E password (lc_dummyHash C) of
        Inl e \<Rightarrow> Inl e
      | Inr _ \<Rightarrow> Inl (authFailure ''Local account is unknown.''))"

definition verifyPassword :: "LocalConfig \<Rightarrow> env \<Rightarrow> ExternalSubject \<Rightarrow> string \<Rightarrow> LocalAccounts \<Rightarrow> Status" where
  "verifyPassword C E subject password m =
     (case map_of m subject of
        None \<Rightarrow> unknown_account C E password
      | Some account \<Rightarrow>
          (case lc_verify C E password (la_password account) of
             Inl e \<Rightarrow> Inl e
           | Inr matches \<Rightarrow> if \<not> matches then Inl (authFailure ''Local password did not verify.'') else ok))"

definition prefersArgon2id :: "PasswordHasher \<Rightarrow> bool" where
  "prefersArgon2id h = (hasher_algorithm h = ''argon2id'')"

definition passwordUpgradeNeeded :: "LocalConfig \<Rightarrow> ExternalSubject \<Rightarrow> LocalAccounts \<Rightarrow> bool Result" where
  "passwordUpgradeNeeded C subject m =
     (if \<not> prefersArgon2id (lc_passwordHasher C) then Inr False
      else case map_of m subject of
        None \<Rightarrow> Inl (authFailure ''Local account is unknown.'')
      | Some account \<Rightarrow> lc_needsRehash C (la_password account))"

definition confirmPasswordUpgrade ::
    "LocalConfig \<Rightarrow> env \<Rightarrow> ExternalSubject \<Rightarrow> string \<Rightarrow> LocalAccounts \<Rightarrow> bool Result \<times> LocalAccounts" where
  "confirmPasswordUpgrade C E subject password m =
     (if \<not> prefersArgon2id (lc_passwordHasher C)
      then (fail_msg FailedPrecondition ''Argon2id is not the selected password algorithm.'', m)
      else case map_of m subject of
        None \<Rightarrow> (unknown_account C E password, m)
      | Some account \<Rightarrow>
          (case lc_verify C E password (la_password account) of
             Inl e \<Rightarrow> (Inl e, m)
           | Inr verified \<Rightarrow>
               if \<not> verified then (Inl (authFailure ''Local credential verification failed.''), m)
               else (case lc_needsRehash C (la_password account) of
                       Inl e \<Rightarrow> (Inl e, m)
                     | Inr needed \<Rightarrow>
                         if \<not> needed then (Inr False, m)
                         else (case lc_hash C E password of
                                 Inl e \<Rightarrow> (Inl e, m)
                               | Inr upgraded \<Rightarrow>
                                   (Inr True, omap_modify subject (la_password_update (\<lambda>_. upgraded)) m)))))"

definition hasTotp :: "ExternalSubject \<Rightarrow> LocalAccounts \<Rightarrow> bool Result" where
  "hasTotp subject m =
     (case map_of m subject of
        None \<Rightarrow> Inl (authFailure ''Local account is unknown.'')
      | Some account \<Rightarrow> Inr (la_totp account \<noteq> None))"

definition replaceTotp ::
    "LocalConfig \<Rightarrow> ExternalSubject \<Rightarrow> TotpSecret \<Rightarrow> string \<Rightarrow> Instant \<Rightarrow> LocalAccounts \<Rightarrow> (Status \<times> LocalAccounts) option" where
  "replaceTotp C subject secret verificationCode now m =
     (case map_of m subject of
        None \<Rightarrow> Some (Inl (authFailure ''Local account is unknown.''), m)
      | Some account \<Rightarrow>
          (case verifyTotp (lc_mac C) secret (lc_totpPolicy C) verificationCode now None of
             None \<Rightarrow> None
           | Some (Inl e) \<Rightarrow> Some (Inl e, m)
           | Some (Inr accepted) \<Rightarrow>
               Some (ok, omap_modify subject
                 (\<lambda>a. a\<lparr>la_totp := Some secret, la_lastAcceptedTotpStep := Some accepted\<rparr>) m)))"

definition removeTotp :: "ExternalSubject \<Rightarrow> LocalAccounts \<Rightarrow> Status \<times> LocalAccounts" where
  "removeTotp subject m =
     (case map_of m subject of
        None \<Rightarrow> (Inl (authFailure ''Local account is unknown.''), m)
      | Some account \<Rightarrow>
          if la_totp account = None
          then (fail_msg FailedPrecondition ''TOTP is not enabled for this local account.'', m)
          else (ok, omap_modify subject (\<lambda>a. a\<lparr>la_totp := None, la_lastAcceptedTotpStep := None\<rparr>) m))"

text \<open>The opportunistic rehash after a complete verification; its failure is ignored.\<close>

definition upgraded_password :: "LocalConfig \<Rightarrow> env \<Rightarrow> string \<Rightarrow> LocalAccount \<Rightarrow> LocalAccount" where
  "upgraded_password C E password a =
     (case lc_needsRehash C (la_password a) of
        Inr True \<Rightarrow> (case lc_hash C E password of Inl _ \<Rightarrow> a | Inr upgraded \<Rightarrow> a\<lparr>la_password := upgraded\<rparr>)
      | _ \<Rightarrow> a)"

definition local_verify ::
    "LocalConfig \<Rightarrow> env \<Rightarrow> ExternalSubject \<Rightarrow> string \<Rightarrow> string option \<Rightarrow> Instant \<Rightarrow> LocalAccounts
     \<Rightarrow> (LocalVerification Result \<times> LocalAccounts) option" where
  "local_verify C E subject password totp now m =
     (case map_of m subject of
        None \<Rightarrow> Some (unknown_account C E password, m)
      | Some account \<Rightarrow>
          (case lc_verify C E password (la_password account) of
             Inl e \<Rightarrow> Some (Inl e, m)
           | Inr matches \<Rightarrow>
               if \<not> matches then Some (Inl (authFailure ''Local password did not verify.''), m)
               else (case la_totp account of
                       None \<Rightarrow> Some (Inr VerifiedPassword, omap_modify subject (upgraded_password C E password) m)
                     | Some secret \<Rightarrow>
                         (case totp of
                            None \<Rightarrow> Some (Inl (authFailure ''A second factor is required.''), m)
                          | Some presented \<Rightarrow>
                              (case verifyTotp (lc_mac C) secret (lc_totpPolicy C) presented now
                                      (la_lastAcceptedTotpStep account) of
                                 None \<Rightarrow> None
                               | Some (Inl e) \<Rightarrow> Some (Inl e, m)
                               | Some (Inr accepted) \<Rightarrow>
                                   Some (Inr VerifiedPasswordAndTotp, omap_modify subject (\<lambda>a.
                                     upgraded_password C E password (a\<lparr>la_lastAcceptedTotpStep := Some accepted\<rparr>)) m))))))"

section \<open>The provider\<close>

text \<open>
  The recovery pepper is there when both the identity directory and the recovery-code service were
  given; the constructor drops one without the other.
\<close>

record LocalProvider =
  lp_id :: ProviderId
  lp_challengeLifetime :: Duration
  lp_recovery :: "string option"

definition local_maximumClaimableAssurance :: "LocalProvider \<Rightarrow> AssuranceLevel" where
  "local_maximumClaimableAssurance P = Ial2"

definition local_beginAuthentication ::
    "LocalProvider \<Rightarrow> env \<Rightarrow> AuthenticationRequest \<Rightarrow> AuthenticationChallenge Result" where
  "local_beginAuthentication P E request =
     (if StrongId_empty (lp_id P) \<or> areq_provider request \<noteq> lp_id P \<or> lp_challengeLifetime P \<le> 0
      then fail_msg InvalidArgument ''The local authentication request is invalid.''
      else case map_of (areq_parameters request) ''subject'' of
        None \<Rightarrow> fail_msg InvalidArgument ''The local authentication request is invalid.''
      | Some subject \<Rightarrow>
          if \<not> isValidSubject (StrongId subject)
          then fail_msg InvalidArgument ''The local authentication request is invalid.''
          else (case randomTokenBase64Url E 0 32 of
                  Inl e \<Rightarrow> Inl e
                | Inr identifier \<Rightarrow>
                    Inr (Challenge_setParameter ''method'' ''password_totp''
                      \<lparr>challenge_id = StrongId identifier,
                       challenge_expiresAt = env_now E 0 + lp_challengeLifetime P, challenge_parameters = []\<rparr>)))"

type_synonym local_state = "LocalAccounts \<times> RecoveryCodeRepository"

abbreviation plain_ref :: "ProviderId \<Rightarrow> ExternalSubject \<Rightarrow> ExternalIdentityRef" where
  "plain_ref provider subject \<equiv> \<lparr>ext_providerId = provider, ext_subject = subject, ext_displayName = None,
     ext_preferredUsername = None, ext_pictureUrl = None\<rparr>"

definition verify_with_recovery_code ::
    "LocalConfig \<Rightarrow> LocalProvider \<Rightarrow> env \<Rightarrow> Directory \<Rightarrow> ExternalSubject \<Rightarrow> string \<Rightarrow> string \<Rightarrow> local_state
     \<Rightarrow> LocalVerification Result \<times> local_state" where
  "verify_with_recovery_code C P E dir subject password code s =
     (case lp_recovery P of
        None \<Rightarrow> (Inl (authFailure ''Recovery-code authentication is not configured.''), s)
      | Some pepper \<Rightarrow>
          if hasTotp subject (fst s) \<noteq> Inr True then (Inl (authFailure ''Recovery code did not verify.''), s)
          else (case verifyPassword C E subject password (fst s) of
                  Inl e \<Rightarrow> (Inl (authFailure (''Local credential verification failed: '' @ err_internalDetail e)), s)
                | Inr _ \<Rightarrow>
                    (case ownerOf (plain_ref (lp_id P) subject) dir of
                       Inr (Some owner) \<Rightarrow>
                         (case recovery_redeem E pepper owner code (snd s) of
                            (Inl _, codes) \<Rightarrow> (Inl (authFailure ''Recovery code did not verify.''), (fst s, codes))
                          | (Inr _, codes) \<Rightarrow> (Inr VerifiedPasswordAndRecoveryCode, (fst s, codes)))
                     | _ \<Rightarrow> (Inl (authFailure
                               ''Recovery-code authentication could not resolve the local identity.''), s))))"

definition verify_credentials ::
    "LocalConfig \<Rightarrow> env \<Rightarrow> ExternalSubject \<Rightarrow> string \<Rightarrow> string option \<Rightarrow> Instant \<Rightarrow> local_state
     \<Rightarrow> (LocalVerification Result \<times> local_state) option" where
  "verify_credentials C E subject password totp now s =
     (case local_verify C E subject password totp now (fst s) of
        None \<Rightarrow> None
      | Some (Inl e, accounts) \<Rightarrow>
          Some (Inl (authFailure (''Local credential verification failed: '' @ err_internalDetail e)), (accounts, snd s))
      | Some (Inr v, accounts) \<Rightarrow> Some (Inr v, (accounts, snd s)))"

definition verification_method :: "LocalVerification \<Rightarrow> string" where
  "verification_method v =
     (if v = VerifiedPassword then ''password''
      else if v = VerifiedPasswordAndTotp then ''password_totp'' else ''password_recovery_code'')"

definition local_outcome :: "LocalProvider \<Rightarrow> ExternalSubject \<Rightarrow> Instant \<Rightarrow> LocalVerification \<Rightarrow> AuthenticationOutcome Result" where
  "local_outcome P subject now v =
     (let multiFactor = (v \<noteq> VerifiedPassword)
      in AuthenticationOutcome_create (lp_id P) subject [] (if multiFactor then Ial2 else Ial1)
           \<lparr>strength_factors = (if multiFactor then Factor_Knowledge OR Factor_Possession else Factor_Knowledge),
            strength_phishingResistant = False\<rparr>
           (ProviderEvidence_add ''method'' (verification_method v) []) now)"

definition local_completeAuthentication ::
    "LocalConfig \<Rightarrow> LocalProvider \<Rightarrow> env \<Rightarrow> Directory \<Rightarrow> AttributeMap \<Rightarrow> local_state
     \<Rightarrow> (AuthenticationOutcome Result \<times> local_state) option" where
  "local_completeAuthentication C P E dir parameters s =
     (case map_of parameters ''subject'' of
        None \<Rightarrow> Some (Inl (authFailure ''Local subject is missing.''), s)
      | Some subjectValue \<Rightarrow>
      if \<not> isValidSubject (StrongId subjectValue) then Some (Inl (authFailure ''Local subject is invalid.''), s)
      else case map_of parameters ''password'' of
        None \<Rightarrow> Some (Inl (authFailure ''Local password is missing.''), s)
      | Some password \<Rightarrow>
      let subject = StrongId subjectValue;
          now = env_now E 0;
          totp = map_of parameters ''totp'';
          recovery = map_of parameters ''recovery_code''
      in if totp \<noteq> None \<and> recovery \<noteq> None
         then Some (Inl (authFailure ''TOTP and recovery code cannot be presented together.''), s)
         else case (case recovery of
                      Some code \<Rightarrow> Some (verify_with_recovery_code C P E dir subject password code s)
                    | None \<Rightarrow> verify_credentials C E subject password totp now s) of
                None \<Rightarrow> None
              | Some (Inl e, s') \<Rightarrow> Some (Inl e, s')
              | Some (Inr v, s') \<Rightarrow> Some (local_outcome P subject now v, s'))"

section \<open>What a login proves\<close>

text \<open>The second factor of an account that has one: a fresh code of its secret, or a recovery code.\<close>

lemma verify_credentials_cases:
  assumes "verify_credentials C E subject password totp now s = Some (r, s')"
  obtains e where "r = Inl (authFailure e)" "s' = s"
  | a where "map_of (fst s) subject = Some a" "lc_verify C E password (la_password a) = Inr True"
      "la_totp a = None" "r = Inr VerifiedPassword" "snd s' = snd s"
      "fst s' = omap_modify subject (upgraded_password C E password) (fst s)"
  | a secret presented step where "map_of (fst s) subject = Some a"
      "lc_verify C E password (la_password a) = Inr True" "la_totp a = Some secret" "totp = Some presented"
      "verifyTotp (lc_mac C) secret (lc_totpPolicy C) presented now (la_lastAcceptedTotpStep a) = Some (Inr step)"
      "r = Inr VerifiedPasswordAndTotp" "snd s' = snd s"
      "fst s' = omap_modify subject
         (\<lambda>a. upgraded_password C E password (a\<lparr>la_lastAcceptedTotpStep := Some step\<rparr>)) (fst s)"
  using assms
  by (cases s; cases s')
    (auto simp: verify_credentials_def local_verify_def unknown_account_def
      split: option.splits sum.splits if_splits)

lemma verify_with_recovery_code_cases:
  assumes "verify_with_recovery_code C P E dir subject password code s = (r, s')"
  obtains e where "r = Inl (authFailure e)" "s' = s"
  | a secret pepper owner where "map_of (fst s) subject = Some a"
      "lc_verify C E password (la_password a) = Inr True" "la_totp a = Some secret"
      "lp_recovery P = Some pepper" "ownerOf (plain_ref (lp_id P) subject) dir = Inr (Some owner)"
      "recovery_redeem E pepper owner code (snd s) = (ok, snd s')" "r = Inr VerifiedPasswordAndRecoveryCode"
      "fst s' = fst s"
  using assms
  by (cases s; cases s')
    (auto simp: verify_with_recovery_code_def verifyPassword_def unknown_account_def hasTotp_def
      recovery_redeem_def recovery_consume_def split: option.splits sum.splits if_splits prod.splits)

lemma upgraded_password_step [simp]:
  "la_lastAcceptedTotpStep (upgraded_password C E password a) = la_lastAcceptedTotpStep a"
  by (simp add: upgraded_password_def split: sum.split bool.split)

lemma local_outcome_cases:
  assumes "\<not> StrongId_empty (lp_id P)" "\<not> StrongId_empty subject"
  shows "\<exists>out. local_outcome P subject now v = Inr out \<and> outcome_provider out = lp_id P \<and> outcome_subject out = subject
    \<and> outcome_claimedAssurance out = (if v = VerifiedPassword then Ial1 else Ial2)
    \<and> isMultiFactor (outcome_strength out) = (v \<noteq> VerifiedPassword)"
proof -
  have "popcount (Factor_Knowledge OR Factor_Possession) = 2" "popcount Factor_Knowledge = 1"
    by (simp_all add: popcount_def Factor_Knowledge_def Factor_Possession_def upt_rec)
  then show ?thesis
    using assms by (simp add: local_outcome_def Let_def AuthenticationOutcome_create_def isMultiFactor_def)
qed

lemma local_verify_returns:
  assumes "TotpPolicy_create step d past future = Inr (lc_totpPolicy C)" "now < 2 ^ 63"
  shows "local_verify C E subject password totp now m \<noteq> None"
proof -
  have "verifyTotp mac secret (lc_totpPolicy C) presented now l \<noteq> None" for mac secret presented l
    using verifyTotp_returns [OF assms] by blast
  then show ?thesis
    by (auto simp: local_verify_def split: option.splits sum.splits) (metis option.distinct(1))
qed

lemma verify_credentials_returns:
  assumes "TotpPolicy_create step d past future = Inr (lc_totpPolicy C)" "now < 2 ^ 63"
  obtains r s' where "verify_credentials C E subject password totp now s = Some (r, s')"
  using local_verify_returns [OF assms, of E subject password totp "fst s"] that
  by (cases "local_verify C E subject password totp now (fst s)"; cases "fst (the (local_verify C E subject password totp now (fst s)))")
    (auto simp: verify_credentials_def)

text \<open>The facts behind an accepted login.\<close>

definition proven_login ::
    "LocalConfig \<Rightarrow> LocalProvider \<Rightarrow> env \<Rightarrow> Directory \<Rightarrow> AttributeMap \<Rightarrow> local_state \<Rightarrow> AuthenticationOutcome \<Rightarrow> local_state \<Rightarrow> bool" where
  "proven_login C P E dir parameters s out s' \<longleftrightarrow>
     (\<exists>password a. map_of parameters ''subject'' = Some (id_value (outcome_subject out))
        \<and> map_of parameters ''password'' = Some password \<and> outcome_provider out = lp_id P
        \<and> map_of (fst s) (outcome_subject out) = Some a \<and> lc_verify C E password (la_password a) = Inr True
        \<and> (case la_totp a of
             None \<Rightarrow> outcome_claimedAssurance out = Ial1 \<and> \<not> isMultiFactor (outcome_strength out) \<and> snd s' = snd s
           | Some secret \<Rightarrow> outcome_claimedAssurance out = Ial2 \<and> isMultiFactor (outcome_strength out)
               \<and> ((\<exists>presented c. map_of parameters ''totp'' = Some presented
                      \<and> verifyTotp (lc_mac C) secret (lc_totpPolicy C) presented (env_now E 0)
                          (la_lastAcceptedTotpStep a) = Some (Inr c)
                      \<and> map_option la_lastAcceptedTotpStep (map_of (fst s') (outcome_subject out)) = Some (Some c)
                      \<and> snd s' = snd s)
                  \<or> (\<exists>code pepper owner. map_of parameters ''recovery_code'' = Some code
                      \<and> lp_recovery P = Some pepper \<and> fst s' = fst s
                      \<and> ownerOf (plain_ref (lp_id P) (outcome_subject out)) dir = Inr (Some owner)
                      \<and> recovery_redeem E pepper owner code (snd s) = (ok, snd s')))))"

lemma login_with_recovery_code:
  assumes "map_of parameters ''subject'' = Some v" "map_of parameters ''password'' = Some p"
    and "map_of parameters ''recovery_code'' = Some code" "\<not> StrongId_empty (lp_id P)" "v \<noteq> []"
    and "verify_with_recovery_code C P E dir (StrongId v) p code s = (r, s')"
  shows "case r of Inl e \<Rightarrow> (\<exists>detail. e = authFailure detail) \<and> s' = s
    | Inr x \<Rightarrow> \<exists>out. local_outcome P (StrongId v) (env_now E 0) x = Inr out \<and> proven_login C P E dir parameters s out s'"
  using assms(6)
proof (cases rule: verify_with_recovery_code_cases)
  case 2
  then show ?thesis
    using assms(1-3) local_outcome_cases [OF assms(4), of "StrongId v" "env_now E 0" VerifiedPasswordAndRecoveryCode] assms(5)
    by (auto simp: proven_login_def)
qed auto

lemma login_with_credentials:
  assumes "map_of parameters ''subject'' = Some v" "map_of parameters ''password'' = Some p"
    and "\<not> StrongId_empty (lp_id P)" "v \<noteq> []"
    and "verify_credentials C E (StrongId v) p (map_of parameters ''totp'') (env_now E 0) s = Some (r, s')"
  shows "case r of Inl e \<Rightarrow> (\<exists>detail. e = authFailure detail) \<and> s' = s
    | Inr x \<Rightarrow> \<exists>out. local_outcome P (StrongId v) (env_now E 0) x = Inr out \<and> proven_login C P E dir parameters s out s'"
  using assms(5)
proof (cases rule: verify_credentials_cases)
  case 2
  then show ?thesis
    using assms(1,2) local_outcome_cases [OF assms(3), of "StrongId v" "env_now E 0" VerifiedPassword] assms(4)
    by (auto simp: proven_login_def)
next
  case 3
  then show ?thesis
    using assms(1,2) local_outcome_cases [OF assms(3), of "StrongId v" "env_now E 0" VerifiedPasswordAndTotp] assms(4)
    by (auto simp: proven_login_def map_of_modify)
qed auto

text \<open>
  C34. A local login cannot skip its second factor, and says nothing when it fails. It always
  returns. A refused login is the same generic authentication failure whatever the reason and
  changes nothing. An accepted one names an account of the directory whose stored hash verified the
  password. If the account has no authenticator, the outcome is single factor at the first level. If
  it has one, the outcome is multi factor at the second level, and either a code of its secret was
  accepted for a step newer than the last, which is then recorded, or a recovery code of the owner of
  the account was used up.
\<close>

theorem local_login_exact:
  assumes "\<not> StrongId_empty (lp_id P)" "TotpPolicy_create step d past future = Inr (lc_totpPolicy C)"
    and "env_now E 0 < 2 ^ 63"
  shows "case local_completeAuthentication C P E dir parameters s of
      None \<Rightarrow> False
    | Some (Inl e, s') \<Rightarrow> (\<exists>detail. e = authFailure detail) \<and> s' = s
    | Some (Inr out, s') \<Rightarrow> proven_login C P E dir parameters s out s'"
proof -
  let ?totp = "map_of parameters ''totp''" and ?recovery = "map_of parameters ''recovery_code''"
  show ?thesis
  proof (cases "(\<exists>v p. map_of parameters ''subject'' = Some v \<and> isValidSubject (StrongId v)
        \<and> map_of parameters ''password'' = Some p) \<and> \<not> (?totp \<noteq> None \<and> ?recovery \<noteq> None)")
    case False
    then show ?thesis
      by (auto simp: local_completeAuthentication_def Let_def split: option.splits)
  next
    case True
    then obtain v p where v: "map_of parameters ''subject'' = Some v" "isValidSubject (StrongId v)"
        "map_of parameters ''password'' = Some p"
      and once: "\<not> (?totp \<noteq> None \<and> ?recovery \<noteq> None)" by blast
    have "v \<noteq> []" using v(2) by (simp add: isValidSubject_def Let_def)
    then show ?thesis
    proof (cases ?recovery)
      case (Some code)
      obtain r s' where rs: "verify_with_recovery_code C P E dir (StrongId v) p code s = (r, s')"
        by (metis surj_pair)
      show ?thesis
        using login_with_recovery_code [OF v(1,3) Some assms(1) \<open>v \<noteq> []\<close> rs] v once Some rs
        by (auto simp: local_completeAuthentication_def Let_def split: sum.splits)
    next
      case None
      obtain r s' where rs: "verify_credentials C E (StrongId v) p ?totp (env_now E 0) s = Some (r, s')"
        by (rule verify_credentials_returns [OF assms(2,3)])
      show ?thesis
        using login_with_credentials [OF v(1,3) assms(1) \<open>v \<noteq> []\<close> rs, of dir] v None rs
        by (auto simp: local_completeAuthentication_def Let_def split: sum.splits)
    qed
  qed
qed

section \<open>Example\<close>

text \<open>An account with an authenticator, on a library that accepts the password.\<close>

definition sample_local :: LocalConfig where
  "sample_local =
     \<lparr>lc_library = \<lparr>lib_scrypt = \<lambda>_ _ _ _ _ _ _. None,
        lib_sodium = Some \<lparr>sodium_init = True, crypto_pwhash_str = \<lambda>_ _ _. None,
          crypto_pwhash_str_verify = \<lambda>_ _. True, crypto_pwhash_str_needs_rehash = \<lambda>_ _ _. False\<rparr>\<rparr>,
      lc_mac = \<lambda>_ _. Some (replicate 20 1),
      lc_passwordHasher = \<lparr>hasher_pepper = replicate 32 (CHR ''p''), hasher_policy = PasswordPolicy_recommended,
        hasher_algorithm = ''argon2id''\<rparr>,
      lc_totpPolicy = TotpPolicy_recommended, lc_dummyHash = []\<rparr>"

definition sample_stored :: PasswordHash where
  "sample_stored = ''$argon2id$v=19$m=65536,t=3,p=1$aaaaaaaaaaaaaaaa$bbbbbbbbbbbbbbbbbbbbbb''"

lemma sample_stored_valid: "validArgon2Encoding sample_stored" "starts_with sample_stored kArgon2Prefix"
  by (simp_all add: validArgon2Encoding_def sample_stored_def kArgon2Prefix_def starts_with_def Let_def
      parseUnsigned_def read_digits_def digit_value_def is_digit_char_def in_range_def)

abbreviation sample_accounts :: LocalAccounts where
  "sample_accounts \<equiv> [(StrongId ''alice'', \<lparr>la_identity = None, la_password = sample_stored,
     la_totp = Some (replicate 20 7), la_lastAcceptedTotpStep = None\<rparr>)]"

abbreviation sample_provider :: LocalProvider where
  "sample_provider \<equiv> \<lparr>lp_id = StrongId ''local'', lp_challengeLifetime = 60000, lp_recovery = None\<rparr>"

theorem local_login_exact_witness:
  "\<exists>out s'. local_completeAuthentication sample_local sample_provider (sample_env\<lparr>env_now := \<lambda>_. 65000\<rparr>) empty_directory
       [(''password'', ''correct horse''), (''subject'', ''alice''), (''totp'', ''843009'')] (sample_accounts, [])
     = Some (Inr out, s')
   \<and> proven_login sample_local sample_provider (sample_env\<lparr>env_now := \<lambda>_. 65000\<rparr>) empty_directory
       [(''password'', ''correct horse''), (''subject'', ''alice''), (''totp'', ''843009'')] (sample_accounts, []) out s'
   \<and> outcome_claimedAssurance out = Ial2"
proof -
  let ?E = "sample_env\<lparr>env_now := \<lambda>_. 65000\<rparr>"
  let ?ps = "[(''password'', ''correct horse''), (''subject'', ''alice''), (''totp'', ''843009'')]"
  have policy: "TotpPolicy_create 30000 6 1 1 = Inr (lc_totpPolicy sample_local)"
    by (simp add: TotpPolicy_create_def TotpPolicy_recommended_def sample_local_def)
  have code: "hotp (\<lambda>_ _. Some (replicate 20 1)) (replicate 20 7) 1 6 = Inr ''843009''"
    by (simp add: hotp_def int_max_def Let_def nth_Cons' hotp_modulus_values format_padded_def to_string.simps digit_def) code_simp
  have totp: "verifyTotp (lc_mac sample_local) (replicate 20 7) (lc_totpPolicy sample_local) ''843009'' 65000 None = Some (Inr 1)"
    by (simp add: verifyTotp_def sample_local_def TotpPolicy_recommended_def timeStep_def totp_search.simps code
        is_digit_char_def Let_def)
  have "lc_verify sample_local ?E ''correct horse'' sample_stored = Inr True"
    using sample_stored_valid
    by (simp add: hasher_verify_def verify_argon2id_def sample_local_def
        password_length_refused_def hmacSha256_def int_max_def sample_env_def)
  then obtain out s' where login: "local_completeAuthentication sample_local sample_provider ?E empty_directory ?ps (sample_accounts, [])
      = Some (Inr out, s')" "outcome_claimedAssurance out = Ial2"
    using local_outcome_cases [of sample_provider "StrongId ''alice''" 65000 VerifiedPasswordAndTotp] totp
    by (auto simp: local_completeAuthentication_def Let_def isValidSubject_def verify_credentials_def local_verify_def)
  then show ?thesis
    using local_login_exact [OF _ policy, where P = sample_provider and E = ?E and dir = empty_directory
        and parameters = ?ps and s = "(sample_accounts, [])"] by simp
qed

end
