(* ===== verification/Profile.thy ===== *)
theory Profile
  imports Decimal Provider
begin

text \<open>
  Identity profiles (\<^verbatim>\<open>src/src/identity/profile/model.cpp\<close>, \<^verbatim>\<open>repository.cpp\<close>): the
  mutable presentation and contact attributes of an identity and their repository. A method that
  fails returns the object as the source leaves it, which for the claim updates includes the fields
  written before the check.
\<close>

section \<open>Profiles\<close>

definition control_free :: "string \<Rightarrow> bool" where
  "control_free s = (\<not> list_ex (\<lambda>c. of_char c < (32 :: nat) \<or> of_char c = (127 :: nat)) s)"

definition valid_optional :: "string option \<Rightarrow> nat \<Rightarrow> bool" where
  "valid_optional value maximum =
     (case value of None \<Rightarrow> True | Some v \<Rightarrow> \<not> (v = [] \<or> length v > maximum) \<and> control_free v)"

record IdentityProfile =
  profile_identity :: IdentityId
  profile_displayName :: "string option"
  profile_preferredUsername :: "string option"
  profile_email :: "string option"
  profile_emailVerified :: bool
  profile_phoneNumber :: "string option"
  profile_phoneNumberVerified :: bool
  profile_locale :: "string option"
  profile_pictureUrl :: "string option"
  profile_avatarSource :: string
  profile_createdAt :: Instant
  profile_updatedAt :: Instant

definition IdentityProfile_create :: "IdentityId \<Rightarrow> Instant \<Rightarrow> IdentityProfile Result" where
  "IdentityProfile_create identity createdAt =
     (if StrongId_empty identity then fail_msg InvalidArgument ''An identity profile requires an identity.''
      else Inr \<lparr>profile_identity = identity, profile_displayName = None, profile_preferredUsername = None,
                profile_email = None, profile_emailVerified = False, profile_phoneNumber = None,
                profile_phoneNumberVerified = False, profile_locale = None, profile_pictureUrl = None,
                profile_avatarSource = ''auto'', profile_createdAt = createdAt, profile_updatedAt = createdAt\<rparr>)"

definition IdentityProfile_restore ::
    "IdentityId \<Rightarrow> string option \<Rightarrow> string option \<Rightarrow> string option \<Rightarrow> bool \<Rightarrow> string option \<Rightarrow> bool
     \<Rightarrow> string option \<Rightarrow> string option \<Rightarrow> Instant \<Rightarrow> Instant \<Rightarrow> string \<Rightarrow> IdentityProfile Result" where
  "IdentityProfile_restore identity displayName preferredUsername email emailVerified phoneNumber
     phoneNumberVerified locale pictureUrl createdAt updatedAt avatarSource =
     (if \<not> valid_optional displayName 256 \<or> \<not> valid_optional preferredUsername 128
         \<or> \<not> valid_optional email 320 \<or> \<not> valid_optional phoneNumber 32
         \<or> \<not> valid_optional locale 64 \<or> \<not> valid_optional pictureUrl 2048
         \<or> avatarSource = [] \<or> length avatarSource > 128 \<or> \<not> control_free avatarSource
         \<or> updatedAt < createdAt \<or> (emailVerified \<and> email = None)
         \<or> (phoneNumberVerified \<and> phoneNumber = None)
      then fail_msg Internal ''Stored identity profile data is invalid.''
      else case IdentityProfile_create identity createdAt of
        Inl e \<Rightarrow> Inl e
      | Inr profile \<Rightarrow>
          Inr (profile\<lparr>profile_displayName := displayName, profile_preferredUsername := preferredUsername,
                 profile_email := email, profile_emailVerified := emailVerified,
                 profile_phoneNumber := phoneNumber, profile_phoneNumberVerified := phoneNumberVerified,
                 profile_locale := locale, profile_pictureUrl := pictureUrl,
                 profile_avatarSource := avatarSource, profile_updatedAt := updatedAt\<rparr>))"

text \<open>A claim that is present replaces the field.\<close>

definition claim_or :: "AttributeMap \<Rightarrow> ClaimName \<Rightarrow> string option \<Rightarrow> string option" where
  "claim_or claims name current =
     (case VerifiedClaims_get claims name of None \<Rightarrow> current | Some v \<Rightarrow> Some v)"

definition claimed_profile :: "AttributeMap \<Rightarrow> IdentityProfile \<Rightarrow> IdentityProfile" where
  "claimed_profile claims p =
     (let username = claim_or claims PreferredUsername (profile_preferredUsername p);
          name = claim_or claims DisplayName (profile_displayName p)
      in p\<lparr>profile_displayName := (if name = None \<and> username \<noteq> None then username else name),
           profile_preferredUsername := username,
           profile_email := claim_or claims Email (profile_email p),
           profile_emailVerified := (if VerifiedClaims_get claims Email = None then profile_emailVerified p
                                     else VerifiedClaims_isTrue claims EmailVerified),
           profile_phoneNumber := claim_or claims PhoneNumber (profile_phoneNumber p),
           profile_phoneNumberVerified := (if VerifiedClaims_get claims PhoneNumber = None
                                           then profile_phoneNumberVerified p
                                           else VerifiedClaims_isTrue claims PhoneNumberVerified),
           profile_locale := claim_or claims Locale (profile_locale p),
           profile_pictureUrl := claim_or claims PictureUrl (profile_pictureUrl p)\<rparr>)"

definition applyVerifiedClaims ::
    "AttributeMap \<Rightarrow> Instant \<Rightarrow> IdentityProfile \<Rightarrow> Status \<times> IdentityProfile" where
  "applyVerifiedClaims claims now p =
     (if now < profile_updatedAt p
      then (fail_msg FailedPrecondition ''Profile claims cannot move time backwards.'', p)
      else let q = claimed_profile claims p
           in if \<not> valid_optional (profile_displayName q) 256 \<or> \<not> valid_optional (profile_preferredUsername q) 128
                 \<or> \<not> valid_optional (profile_email q) 320 \<or> \<not> valid_optional (profile_phoneNumber q) 32
                 \<or> \<not> valid_optional (profile_locale q) 64 \<or> \<not> valid_optional (profile_pictureUrl q) 2048
              then (fail_msg InvalidArgument ''Verified profile claims exceeded platform limits.'', q)
              else (ok, q\<lparr>profile_updatedAt := now\<rparr>))"

text \<open>A field that is absent takes the claim.\<close>

definition or_claim :: "string option \<Rightarrow> AttributeMap \<Rightarrow> ClaimName \<Rightarrow> string option" where
  "or_claim current claims name = (if current = None then VerifiedClaims_get claims name else current)"

definition refreshed_profile :: "AttributeMap \<Rightarrow> IdentityProfile \<Rightarrow> IdentityProfile" where
  "refreshed_profile claims p =
     (let name = or_claim (profile_displayName p) claims DisplayName;
          username = or_claim (profile_preferredUsername p) claims PreferredUsername
      in p\<lparr>profile_displayName := (if name = None \<and> username \<noteq> None then username else name),
           profile_preferredUsername := username,
           profile_locale := or_claim (profile_locale p) claims Locale,
           profile_pictureUrl := or_claim (profile_pictureUrl p) claims PictureUrl\<rparr>)"

definition refreshPresentationClaims ::
    "AttributeMap \<Rightarrow> Instant \<Rightarrow> IdentityProfile \<Rightarrow> Status \<times> IdentityProfile" where
  "refreshPresentationClaims claims now p =
     (if now < profile_updatedAt p
      then (fail_msg FailedPrecondition ''Profile claims cannot move time backwards.'', p)
      else let q = refreshed_profile claims p;
               changed = (profile_displayName q \<noteq> profile_displayName p
                  \<or> profile_preferredUsername q \<noteq> profile_preferredUsername p
                  \<or> profile_locale q \<noteq> profile_locale p \<or> profile_pictureUrl q \<noteq> profile_pictureUrl p)
           in if \<not> valid_optional (profile_displayName q) 256 \<or> \<not> valid_optional (profile_preferredUsername q) 128
                 \<or> \<not> valid_optional (profile_locale q) 64 \<or> \<not> valid_optional (profile_pictureUrl q) 2048
              then (fail_msg InvalidArgument ''Provider presentation claims exceeded platform limits.'', q)
              else (ok, if changed then q\<lparr>profile_updatedAt := now\<rparr> else q))"

definition updateSelfService ::
    "string option \<Rightarrow> string option \<Rightarrow> string option \<Rightarrow> string option \<Rightarrow> Instant \<Rightarrow> IdentityProfile
     \<Rightarrow> Status \<times> IdentityProfile" where
  "updateSelfService displayName preferredUsername locale pictureUrl now p =
     (if now < profile_updatedAt p
      then (fail_msg FailedPrecondition ''Profile updates cannot move time backwards.'', p)
      else if \<not> valid_optional displayName 256 \<or> \<not> valid_optional preferredUsername 128
              \<or> \<not> valid_optional locale 64 \<or> \<not> valid_optional pictureUrl 2048
      then (fail_msg InvalidArgument ''Profile fields are invalid.'', p)
      else (ok, p\<lparr>profile_displayName := displayName, profile_preferredUsername := preferredUsername,
                   profile_locale := locale, profile_pictureUrl := pictureUrl, profile_updatedAt := now\<rparr>))"

definition setAvatarSource :: "string \<Rightarrow> Instant \<Rightarrow> IdentityProfile \<Rightarrow> Status \<times> IdentityProfile" where
  "setAvatarSource avatarSource now p =
     (if now < profile_updatedAt p \<or> avatarSource = [] \<or> length avatarSource > 128 \<or> \<not> control_free avatarSource
      then (fail_msg InvalidArgument ''Avatar source is invalid.'', p)
      else (ok, p\<lparr>profile_avatarSource := avatarSource, profile_updatedAt := now\<rparr>))"

definition setEmail :: "string \<Rightarrow> bool \<Rightarrow> Instant \<Rightarrow> IdentityProfile \<Rightarrow> Status \<times> IdentityProfile" where
  "setEmail email verified now p =
     (if now < profile_updatedAt p \<or> \<not> valid_optional (Some email) 320
      then (fail_msg InvalidArgument ''The email claim is invalid.'', p)
      else (ok, p\<lparr>profile_email := Some email, profile_emailVerified := verified, profile_updatedAt := now\<rparr>))"

definition setPhoneNumber :: "string \<Rightarrow> bool \<Rightarrow> Instant \<Rightarrow> IdentityProfile \<Rightarrow> Status \<times> IdentityProfile" where
  "setPhoneNumber phoneNumber verified now p =
     (if now < profile_updatedAt p \<or> \<not> valid_optional (Some phoneNumber) 32
      then (fail_msg InvalidArgument ''The phone-number claim is invalid.'', p)
      else (ok, p\<lparr>profile_phoneNumber := Some phoneNumber, profile_phoneNumberVerified := verified,
                   profile_updatedAt := now\<rparr>))"

section \<open>Repository\<close>

type_synonym ProfileRepository = "(IdentityId, IdentityProfile) omap"

definition profiles_save :: "IdentityProfile \<Rightarrow> ProfileRepository \<Rightarrow> Status \<times> ProfileRepository" where
  "profiles_save p m = (ok, omap_insert_or_assign (profile_identity p) p m)"

definition profiles_find :: "IdentityId \<Rightarrow> ProfileRepository \<Rightarrow> IdentityProfile option Result" where
  "profiles_find identity m = Inr (map_of m identity)"

definition findVerifiedByEmail :: "string \<Rightarrow> ProfileRepository \<Rightarrow> IdentityId list Result" where
  "findVerifiedByEmail email m =
     Inr (map fst (filter (\<lambda>(identity, p). profile_emailVerified p
            \<and> (case profile_email p of None \<Rightarrow> False | Some e \<Rightarrow> lowercase e = lowercase email)) m))"

section \<open>What a profile always satisfies\<close>

datatype profile_call =
    ApplyClaims AttributeMap Instant
  | RefreshClaims AttributeMap Instant
  | SelfService "string option" "string option" "string option" "string option" Instant
  | AvatarSource string Instant
  | SetEmail string bool Instant
  | SetPhone string bool Instant

fun profile_step :: "profile_call \<Rightarrow> IdentityProfile \<Rightarrow> Status \<times> IdentityProfile" where
  "profile_step (ApplyClaims claims now) = applyVerifiedClaims claims now"
| "profile_step (RefreshClaims claims now) = refreshPresentationClaims claims now"
| "profile_step (SelfService d u l p now) = updateSelfService d u l p now"
| "profile_step (AvatarSource a now) = setAvatarSource a now"
| "profile_step (SetEmail e v now) = setEmail e v now"
| "profile_step (SetPhone n v now) = setPhoneNumber n v now"

text \<open>A caller keeps the object only when the call succeeded.\<close>

fun profile_kept :: "profile_call \<Rightarrow> IdentityProfile \<Rightarrow> Status \<times> IdentityProfile" where
  "profile_kept c p = (case profile_step c p of (Inl e, _) \<Rightarrow> (Inl e, p) | (Inr _, q) \<Rightarrow> (ok, q))"

definition stored_again :: "IdentityProfile \<Rightarrow> IdentityProfile Result" where
  "stored_again p = IdentityProfile_restore (profile_identity p) (profile_displayName p)
     (profile_preferredUsername p) (profile_email p) (profile_emailVerified p) (profile_phoneNumber p)
     (profile_phoneNumberVerified p) (profile_locale p) (profile_pictureUrl p) (profile_createdAt p)
     (profile_updatedAt p) (profile_avatarSource p)"

definition profile_ok :: "IdentityProfile \<Rightarrow> bool" where
  "profile_ok p \<longleftrightarrow> profile_identity p \<noteq> StrongId []
     \<and> valid_optional (profile_displayName p) 256 \<and> valid_optional (profile_preferredUsername p) 128
     \<and> valid_optional (profile_email p) 320 \<and> valid_optional (profile_phoneNumber p) 32
     \<and> valid_optional (profile_locale p) 64 \<and> valid_optional (profile_pictureUrl p) 2048
     \<and> profile_avatarSource p \<noteq> [] \<and> length (profile_avatarSource p) \<le> 128 \<and> control_free (profile_avatarSource p)
     \<and> profile_createdAt p \<le> profile_updatedAt p
     \<and> (profile_emailVerified p \<longrightarrow> profile_email p \<noteq> None)
     \<and> (profile_phoneNumberVerified p \<longrightarrow> profile_phoneNumber p \<noteq> None)"

lemma stored_again_iff: "stored_again p = Inr p \<longleftrightarrow> profile_ok p"
proof -
  have "StrongId_empty (profile_identity p) \<longleftrightarrow> profile_identity p = StrongId []"
    by (cases "profile_identity p") simp
  then show ?thesis
    by (auto simp: stored_again_def IdentityProfile_restore_def IdentityProfile_create_def profile_ok_def)
qed

lemmas profile_defs = applyVerifiedClaims_def refreshPresentationClaims_def updateSelfService_def
  setAvatarSource_def setEmail_def setPhoneNumber_def

lemma claimed_profile_fields:
  "profile_identity (claimed_profile claims p) = profile_identity p"
  "profile_createdAt (claimed_profile claims p) = profile_createdAt p"
  "profile_updatedAt (claimed_profile claims p) = profile_updatedAt p"
  "profile_avatarSource (claimed_profile claims p) = profile_avatarSource p"
  "(profile_emailVerified p \<longrightarrow> profile_email p \<noteq> None) \<Longrightarrow>
     profile_emailVerified (claimed_profile claims p) \<Longrightarrow> profile_email (claimed_profile claims p) \<noteq> None"
  "(profile_phoneNumberVerified p \<longrightarrow> profile_phoneNumber p \<noteq> None) \<Longrightarrow>
     profile_phoneNumberVerified (claimed_profile claims p) \<Longrightarrow> profile_phoneNumber (claimed_profile claims p) \<noteq> None"
  by (auto simp: claimed_profile_def claim_or_def Let_def split: option.splits if_splits)

lemma refreshed_profile_fields:
  "profile_identity (refreshed_profile claims p) = profile_identity p"
  "profile_createdAt (refreshed_profile claims p) = profile_createdAt p"
  "profile_updatedAt (refreshed_profile claims p) = profile_updatedAt p"
  "profile_avatarSource (refreshed_profile claims p) = profile_avatarSource p"
  "profile_email (refreshed_profile claims p) = profile_email p"
  "profile_emailVerified (refreshed_profile claims p) = profile_emailVerified p"
  "profile_phoneNumber (refreshed_profile claims p) = profile_phoneNumber p"
  "profile_phoneNumberVerified (refreshed_profile claims p) = profile_phoneNumberVerified p"
  by (simp_all add: refreshed_profile_def Let_def)

lemma applyVerifiedClaims_ok:
  assumes "profile_ok p" "applyVerifiedClaims claims now p = (Inr u, q)"
  shows "profile_ok q"
proof -
  let ?q = "claimed_profile claims p"
  have q: "q = ?q\<lparr>profile_updatedAt := now\<rparr>" "profile_updatedAt p \<le> now"
    and valid: "valid_optional (profile_displayName ?q) 256" "valid_optional (profile_preferredUsername ?q) 128"
      "valid_optional (profile_email ?q) 320" "valid_optional (profile_phoneNumber ?q) 32"
      "valid_optional (profile_locale ?q) 64" "valid_optional (profile_pictureUrl ?q) 2048"
    using assms(2) by (simp_all add: applyVerifiedClaims_def Let_def not_less split: if_splits)
  note fields = claimed_profile_fields [where claims = claims and p = p]
  show ?thesis
    using assms(1) q(2) valid fields(5,6) unfolding q(1) profile_ok_def by (simp add: fields(1-4))
qed

lemma refreshPresentationClaims_ok:
  assumes "profile_ok p" "refreshPresentationClaims claims now p = (Inr u, q)"
  shows "profile_ok q"
proof -
  let ?q = "refreshed_profile claims p"
  have q: "q = ?q\<lparr>profile_updatedAt := now\<rparr> \<or> q = ?q" "profile_updatedAt p \<le> now"
    and valid: "valid_optional (profile_displayName ?q) 256" "valid_optional (profile_preferredUsername ?q) 128"
      "valid_optional (profile_locale ?q) 64" "valid_optional (profile_pictureUrl ?q) 2048"
    using assms(2) by (auto simp: refreshPresentationClaims_def Let_def not_less split: if_splits)
  have "profile_createdAt p \<le> now" using assms(1) q(2) by (simp add: profile_ok_def)
  then show ?thesis
    using assms(1) valid q(1) unfolding profile_ok_def by (elim disjE) (simp_all add: refreshed_profile_fields)
qed

lemma refreshed_keeps:
  assumes "refreshPresentationClaims claims now q = (status, r)"
  shows "profile_email r = profile_email q \<and> profile_emailVerified r = profile_emailVerified q
    \<and> profile_phoneNumber r = profile_phoneNumber q \<and> profile_phoneNumberVerified r = profile_phoneNumberVerified q"
    "\<forall>f \<in> {profile_displayName, profile_preferredUsername, profile_locale, profile_pictureUrl}.
       f q \<noteq> None \<longrightarrow> f r = f q"
proof -
  have "r = q \<or> r = refreshed_profile claims q \<or> r = (refreshed_profile claims q)\<lparr>profile_updatedAt := now\<rparr>"
    using assms by (auto simp: refreshPresentationClaims_def Let_def split: if_splits)
  then show "profile_email r = profile_email q \<and> profile_emailVerified r = profile_emailVerified q
    \<and> profile_phoneNumber r = profile_phoneNumber q \<and> profile_phoneNumberVerified r = profile_phoneNumberVerified q"
    "\<forall>f \<in> {profile_displayName, profile_preferredUsername, profile_locale, profile_pictureUrl}.
       f q \<noteq> None \<longrightarrow> f r = f q"
    by (elim disjE; simp add: refreshed_profile_fields; simp add: refreshed_profile_def or_claim_def Let_def)+
qed

lemma profile_step_ok:
  assumes "profile_ok p" "profile_step c p = (Inr u, q)"
  shows "profile_ok q"
proof (cases c)
  case (ApplyClaims claims now)
  then show ?thesis using assms applyVerifiedClaims_ok by simp
next
  case (RefreshClaims claims now)
  then show ?thesis using assms refreshPresentationClaims_ok by simp
qed (use assms in \<open>auto simp: profile_defs profile_ok_def split: if_splits\<close>)

interpretation profiles: guarded_machine profile_kept profile_ok
  by unfold_locales (auto split: prod.splits sum.splits intro: profile_step_ok)



end
