(* ===== verification/Account.thy ===== *)
theory Account
  imports Account_Challenges Local_Provider Profile Session_Service
begin

text \<open>
  The account service, \<^verbatim>\<open>src/src/account/service.cpp\<close>: signup, email and phone verification,
  password reset, profile self service and the enrolment of an authenticator. The service owns no
  account data: its state is the repositories it was given, together in \<open>AccountWorld\<close>, and the map
  of pending authenticator enrolments. Every operation is written out with the undo steps of its
  error paths. The sender of messages is outside the repository: \<open>ac_deliver\<close> answers for it.
\<close>

section \<open>Normal forms and codes\<close>

definition rfind :: "char \<Rightarrow> string \<Rightarrow> nat option" where
  "rfind c s = (if c \<in> set s then Some (length s - Suc (length (takeWhile (\<lambda>x. x \<noteq> c) (rev s)))) else None)"

definition validEmail :: "string \<Rightarrow> bool" where
  "validEmail s =
     (if length s < 3 \<or> length s > 320 \<or> hd s = CHR ''@'' \<or> last s = CHR ''@'' \<or> CHR '' '' \<in> set s then False
      else case rfind (CHR ''@'') s of
        None \<Rightarrow> False
      | Some at \<Rightarrow> at > 0 \<and> at + 1 < length s \<and> CHR ''.'' \<in> set (drop (at + 1) s))"

definition normalizeEmail :: "string \<Rightarrow> string Result" where
  "normalizeEmail s =
     (if \<not> validEmail s then fail_msg InvalidArgument ''The email address is invalid.''
      else Inr (lowercase s))"

definition normalizePhone :: "string \<Rightarrow> string Result" where
  "normalizePhone s =
     (if length s < 8 \<or> length s > 16 \<or> hd s \<noteq> CHR ''+''
      then fail_msg InvalidArgument ''The phone number must use E.164 form.''
      else if \<not> list_all is_digit_char (drop 1 s)
      then fail_msg InvalidArgument ''The phone number must use E.164 form.''
      else Inr s)"

text \<open>
  A numeric code keeps the bytes below 250 and takes their last decimal digit; the outer loop draws
  until there are enough digits, so it is a partial function: \<open>None\<close> is a run that never ends.
\<close>

fun take_digits :: "nat \<Rightarrow> string \<Rightarrow> byte list \<Rightarrow> string" where
  "take_digits width out [] = out"
| "take_digits width out (raw # bytes) =
     (if unat raw \<ge> 250 then take_digits width out bytes
      else let out' = out @ [digit (unat raw mod 10)]
           in if length out' = width then out' else take_digits width out' bytes)"

partial_function (option) numericCode_loop :: "env \<Rightarrow> nat \<Rightarrow> nat \<Rightarrow> string \<Rightarrow> string Result option" where
  "numericCode_loop E i width out =
     (if length out < width
      then (case randomBytes E i (width * 2) of
              Inl e \<Rightarrow> Some (Inl e)
            | Inr bytes \<Rightarrow> numericCode_loop E (Suc i) width (take_digits width out bytes))
      else Some (Inr out))"

definition numericCode :: "env \<Rightarrow> nat \<Rightarrow> nat \<Rightarrow> string Result option" where
  "numericCode E i width = numericCode_loop E i width []"

section \<open>Keys, policy, state\<close>

definition VerificationKey_create :: "string \<Rightarrow> string Result" where
  "VerificationKey_create key =
     (if length key < 32 then fail_msg InvalidArgument ''A verification key must contain at least 32 bytes.''
      else Inr key)"

record AccountPolicy =
  ap_emailLifetime :: Duration
  ap_phoneLifetime :: Duration
  ap_resetLifetime :: Duration
  ap_maximumAttempts :: "32 word"

definition AccountPolicy_create :: "Duration \<Rightarrow> Duration \<Rightarrow> Duration \<Rightarrow> 32 word \<Rightarrow> AccountPolicy Result" where
  "AccountPolicy_create emailLifetime phoneLifetime resetLifetime maximumAttempts =
     (if emailLifetime \<le> 0 \<or> phoneLifetime \<le> 0 \<or> resetLifetime \<le> 0 \<or> emailLifetime > 48 * 3600000
         \<or> phoneLifetime > 30 * 60000 \<or> resetLifetime > 2 * 3600000 \<or> maximumAttempts = 0 \<or> maximumAttempts > 20
      then fail_msg InvalidArgument ''The account verification policy is invalid.''
      else Inr \<lparr>ap_emailLifetime = emailLifetime, ap_phoneLifetime = phoneLifetime,
                ap_resetLifetime = resetLifetime, ap_maximumAttempts = maximumAttempts\<rparr>)"

datatype TotpEnrollmentIdTag = TotpEnrollmentIdTag

type_synonym TotpEnrollmentId = "TotpEnrollmentIdTag StrongId"

record PendingTotpEnrollment =
  pt_identity :: IdentityId
  pt_subject :: ExternalSubject
  pt_secret :: TotpSecret
  pt_expiresAt :: Instant
  pt_replacementAuthorized :: bool
  pt_attempts :: "32 word"

record TotpEnrollmentStart =
  es_id :: TotpEnrollmentId
  es_secretBase32 :: string
  es_expiresAt :: Instant
  es_replacing :: bool

record AccountConfig =
  ac_organization :: OrganizationId
  ac_localProvider :: ProviderId
  ac_phoneProvider :: ProviderId
  ac_local :: LocalConfig
  ac_key :: string
  ac_policy :: AccountPolicy
  ac_deliver :: "VerificationDispatch \<Rightarrow> Status"

record AccountWorld =
  aw_identities :: IdentityRepository
  aw_directory :: Directory
  aw_profiles :: ProfileRepository
  aw_accounts :: LocalAccounts
  aw_codes :: RecoveryCodeRepository
  aw_repository :: AccountRepository
  aw_sessions :: SessionRepository
  aw_pendingTotp :: "(TotpEnrollmentId, PendingTotpEnrollment) omap"

definition kTotpEnrollmentLifetime :: Duration where
  "kTotpEnrollmentLifetime = 10 * 60000"

definition kTotpEnrollmentMaximumAttempts :: "32 word" where
  "kTotpEnrollmentMaximumAttempts = 5"

abbreviation local_ref :: "AccountConfig \<Rightarrow> string \<Rightarrow> ExternalIdentityRef" where
  "local_ref C subject \<equiv> plain_ref (ac_localProvider C) (StrongId subject)"

text \<open>The undo steps, whose own result the source discards.\<close>

definition undo_reservation :: "ExternalIdentityRef \<Rightarrow> IdentityId \<Rightarrow> AccountWorld \<Rightarrow> AccountWorld" where
  "undo_reservation external identity w =
     w\<lparr>aw_repository := snd (releaseSubject external identity (aw_repository w))\<rparr>"

definition undo_pending :: "IdentityId \<Rightarrow> ExternalSubject \<Rightarrow> AccountWorld \<Rightarrow> AccountWorld" where
  "undo_pending identity subject w =
     w\<lparr>aw_accounts := snd (removePending identity subject (aw_accounts w))\<rparr>"

definition undo_attach :: "ExternalIdentityRef \<Rightarrow> IdentityId \<Rightarrow> AccountWorld \<Rightarrow> AccountWorld" where
  "undo_attach external identity w = w\<lparr>aw_directory := snd (detach external identity (aw_directory w))\<rparr>"

definition undo_rebind :: "IdentityId \<Rightarrow> ExternalSubject \<Rightarrow> ExternalSubject \<Rightarrow> AccountWorld \<Rightarrow> AccountWorld" where
  "undo_rebind identity replacement previous w =
     w\<lparr>aw_accounts := snd (rebindSubject identity replacement previous (aw_accounts w))\<rparr>"

definition undo_identity :: "AccountConfig \<Rightarrow> IdentityId \<Rightarrow> AccountWorld \<Rightarrow> AccountWorld" where
  "undo_identity C identity w =
     w\<lparr>aw_identities := snd (identities_changeStatus (ac_organization C) identity Deleted (aw_identities w))\<rparr>"

definition undo_verified :: "string \<Rightarrow> Instant \<Rightarrow> IdentityProfile \<Rightarrow> AccountWorld \<Rightarrow> AccountWorld" where
  "undo_verified email now p w =
     w\<lparr>aw_profiles := snd (profiles_save (snd (setEmail email False now p)) (aw_profiles w))\<rparr>"

section \<open>Issuing and consuming challenges\<close>

definition verification_digest :: "AccountConfig \<Rightarrow> env \<Rightarrow> VerificationId \<Rightarrow> string \<Rightarrow> VerificationDigest Result" where
  "verification_digest C E vid secret =
     (if StrongId_empty vid \<or> secret = [] \<or> length secret > 256
      then Inl (authFailure ''Verification input is malformed.'')
      else hmacSha256 E (ac_key C) (id_value vid @ '':'' @ secret))"

definition issue_secret :: "env \<Rightarrow> VerificationChannel \<Rightarrow> string Result option" where
  "issue_secret E channel = (if channel = ChannelSms then numericCode E 1 8 else Some (randomTokenBase64Url E 1 24))"

definition account_issue ::
    "AccountConfig \<Rightarrow> env \<Rightarrow> IdentityId \<Rightarrow> VerificationPurpose \<Rightarrow> VerificationChannel \<Rightarrow> string \<Rightarrow> Duration
     \<Rightarrow> AccountWorld \<Rightarrow> (VerificationDispatch Result \<times> AccountWorld) option" where
  "account_issue C E identity purpose channel destination lifetime w =
     (case randomTokenBase64Url E 0 24 of
        Inl e \<Rightarrow> Some (Inl e, w)
      | Inr idRaw \<Rightarrow>
          let vid = StrongId (''opv_'' @ idRaw)
          in case issue_secret E channel of
               None \<Rightarrow> None
             | Some (Inl e) \<Rightarrow> Some (Inl e, w)
             | Some (Inr secret) \<Rightarrow>
                 (case verification_digest C E vid secret of
                    Inl e \<Rightarrow> Some (Inl e, w)
                  | Inr fingerprint \<Rightarrow>
                      (case VerificationChallenge_create vid identity purpose channel destination fingerprint
                              (env_now E 2) lifetime of
                         Inl e \<Rightarrow> Some (Inl e, w)
                       | Inr challenge \<Rightarrow>
                           (case challenges_replace challenge (aw_repository w) of
                              (Inl e, repo) \<Rightarrow> Some (Inl e, w\<lparr>aw_repository := repo\<rparr>)
                            | (Inr _, repo) \<Rightarrow>
                                Some (Inr \<lparr>dispatch_id = vid, dispatch_identity = identity, dispatch_purpose = purpose,
                                        dispatch_channel = channel, dispatch_destination = destination,
                                        dispatch_secret = secret, dispatch_expiresAt = vc_expiresAt challenge\<rparr>,
                                      w\<lparr>aw_repository := repo\<rparr>)))))"

definition account_consume ::
    "AccountConfig \<Rightarrow> env \<Rightarrow> VerificationId \<Rightarrow> string \<Rightarrow> VerificationPurpose \<Rightarrow> IdentityId option \<Rightarrow> AccountWorld
     \<Rightarrow> VerificationChallenge Result \<times> AccountWorld" where
  "account_consume C E vid secret purpose expectedIdentity w =
     (case verification_digest C E vid secret of
        Inl e \<Rightarrow> (Inl e, w)
      | Inr fingerprint \<Rightarrow>
          (case challenges_consume vid fingerprint (env_now E 0) (ap_maximumAttempts (ac_policy C)) expectedIdentity
                  (aw_repository w) of
             (Inl e, repo) \<Rightarrow> (Inl e, w\<lparr>aw_repository := repo\<rparr>)
           | (Inr challenge, repo) \<Rightarrow>
               if vc_purpose challenge \<noteq> purpose
               then (Inl (authFailure ''Verification challenge purpose did not match the endpoint.''),
                     w\<lparr>aw_repository := repo\<rparr>)
               else (Inr challenge, w\<lparr>aw_repository := repo\<rparr>)))"

definition requireProfile :: "IdentityId \<Rightarrow> AccountWorld \<Rightarrow> IdentityProfile Result" where
  "requireProfile identity w =
     (case profiles_find identity (aw_profiles w) of
        Inl e \<Rightarrow> Inl e
      | Inr None \<Rightarrow> fail_code NotFound
      | Inr (Some p) \<Rightarrow> Inr p)"

definition attachVerified ::
    "env \<Rightarrow> IdentityId \<Rightarrow> ExternalIdentityRef \<Rightarrow> AccountWorld \<Rightarrow> Status \<times> AccountWorld" where
  "attachVerified E identity external w =
     (case Link_request identity external (env_now E 0) (5 * 60000) of
        Inl e \<Rightarrow> (Inl e, w)
      | Inr link \<Rightarrow>
          (case requireVerification (env_now E 1) link of
             (Inl e, _) \<Rightarrow> (Inl e, w)
           | (Inr _, required) \<Rightarrow>
               (case markVerified (env_now E 2) required of
                  (Inl e, _) \<Rightarrow> (Inl e, w)
                | (Inr _, verified) \<Rightarrow>
                    (case complete (env_now E 3) verified of
                       (Inl e, _) \<Rightarrow> (Inl e, w)
                     | (Inr _, completed) \<Rightarrow>
                         (case attach completed (aw_directory w) of
                            (r, dir) \<Rightarrow> (r, w\<lparr>aw_directory := dir\<rparr>))))))"

section \<open>Signup\<close>

text \<open>The identities with this verified address: the active ones, and how many are blocked.\<close>

fun verified_matches ::
    "OrganizationId \<Rightarrow> IdentityRepository \<Rightarrow> IdentityId list \<Rightarrow> IdentityId list \<Rightarrow> nat \<Rightarrow> (IdentityId list \<times> nat) Result" where
  "verified_matches org ids [] active blocked = Inr (active, blocked)"
| "verified_matches org ids (candidate # rest) active blocked =
     (case identities_findById org candidate ids of
        Inl e \<Rightarrow> Inl e
      | Inr None \<Rightarrow> verified_matches org ids rest active blocked
      | Inr (Some canonical) \<Rightarrow>
          if canAuthenticate canonical then verified_matches org ids rest (active @ [candidate]) blocked
          else if ident_status canonical \<noteq> Deleted \<and> ident_status canonical \<noteq> Merged
          then verified_matches org ids rest active (Suc blocked)
          else verified_matches org ids rest active blocked)"

definition is_local :: "AccountConfig \<Rightarrow> ExternalIdentityRef \<Rightarrow> bool" where
  "is_local C external = (ext_providerId external = ac_localProvider C)"

text \<open>Dispatch and delivery for an identity that is already verified under the address.\<close>

definition signup_existing ::
    "AccountConfig \<Rightarrow> env \<Rightarrow> string \<Rightarrow> string \<Rightarrow> IdentityId \<Rightarrow> AccountWorld \<Rightarrow> (IdentityId Result \<times> AccountWorld) option" where
  "signup_existing C E email password existing w =
     (let external = local_ref C email; subject = StrongId email
      in case externalIdentitiesOf existing (aw_directory w) of
           Inl e \<Rightarrow> Some (Inl e, w)
         | Inr connections \<Rightarrow>
             if list_ex (is_local C) connections
             then Some (fail_msg AlreadyExists ''Email sign-in is already configured for this account.'', w)
             else (case reserveSubject external existing (env_now E 1)
                          (env_now E 2 + ap_emailLifetime (ac_policy C)) (aw_repository w) of
                     (Inl e, repo) \<Rightarrow> Some (Inl e, w\<lparr>aw_repository := repo\<rparr>)
                   | (Inr _, repo) \<Rightarrow>
                       let w1 = w\<lparr>aw_repository := repo\<rparr>
                       in case enrollPending (ac_local C) (env_from 3 E) existing subject password None (aw_accounts w1) of
                            (Inl e, accounts) \<Rightarrow>
                              Some (Inl e, undo_reservation external existing (w1\<lparr>aw_accounts := accounts\<rparr>))
                          | (Inr _, accounts) \<Rightarrow>
                              let w2 = w1\<lparr>aw_accounts := accounts\<rparr>
                              in case account_issue C (env_from 4 E) existing SignupEmail ChannelEmail email
                                        (ap_emailLifetime (ac_policy C)) w2 of
                                   None \<Rightarrow> None
                                 | Some (Inl e, w3) \<Rightarrow>
                                     Some (Inl e, undo_reservation external existing (undo_pending existing subject w3))
                                 | Some (Inr dispatch, w3) \<Rightarrow>
                                     (case ac_deliver C dispatch of
                                        Inl e \<Rightarrow> Some (Inl e, undo_reservation external existing
                                                   (undo_pending existing subject w3))
                                      | Inr _ \<Rightarrow> Some (Inr existing, w3))))"

text \<open>The profile of a new account: unverified address, optional display name.\<close>

definition signup_profile :: "env \<Rightarrow> IdentityId \<Rightarrow> string \<Rightarrow> string option \<Rightarrow> IdentityProfile Result" where
  "signup_profile E identity email displayName =
     (case IdentityProfile_create identity (env_now E 10) of
        Inl e \<Rightarrow> Inl e
      | Inr p \<Rightarrow>
          (case setEmail email False (env_now E 11) p of
             (Inl e, _) \<Rightarrow> Inl e
           | (Inr _, p1) \<Rightarrow>
               if displayName = None then Inr p1
               else (case updateSelfService displayName None None None (env_now E 12) p1 of
                       (Inl e, _) \<Rightarrow> Inl e
                     | (Inr _, p2) \<Rightarrow> Inr p2)))"

definition signup_dispatch ::
    "AccountConfig \<Rightarrow> env \<Rightarrow> IdentityId \<Rightarrow> string \<Rightarrow> AccountWorld \<Rightarrow> (IdentityId Result \<times> AccountWorld) option" where
  "signup_dispatch C E identity email w =
     (case account_issue C (env_from 13 E) identity SignupEmail ChannelEmail email (ap_emailLifetime (ac_policy C)) w of
        None \<Rightarrow> None
      | Some (Inl e, w') \<Rightarrow> Some (Inl e, w')
      | Some (Inr dispatch, w') \<Rightarrow>
          (case ac_deliver C dispatch of Inl e \<Rightarrow> Some (Inl e, w') | Inr _ \<Rightarrow> Some (Inr identity, w')))"

definition signup_new ::
    "AccountConfig \<Rightarrow> env \<Rightarrow> string \<Rightarrow> string \<Rightarrow> string option \<Rightarrow> AccountWorld \<Rightarrow> (IdentityId Result \<times> AccountWorld) option" where
  "signup_new C E email password displayName w =
     (let external = local_ref C email; subject = StrongId email
      in case randomTokenBase64Url E 5 24 of
           Inl e \<Rightarrow> Some (Inl e, w)
         | Inr idRaw \<Rightarrow>
             let identity = StrongId (''opi_'' @ idRaw)
             in case Identity_create identity Human (env_now E 6) of
                  Inl e \<Rightarrow> Some (Inl e, w)
                | Inr canonical \<Rightarrow>
                    (case Identity_changeStatus Deactivated canonical of
                       (Inl e, _) \<Rightarrow> Some (Inl e, w)
                     | (Inr _, deactivated) \<Rightarrow>
                         (case identities_add (ac_organization C) deactivated (aw_identities w) of
                            (Inl e, ids) \<Rightarrow> Some (Inl e, w\<lparr>aw_identities := ids\<rparr>)
                          | (Inr _, ids) \<Rightarrow>
                              let w1 = w\<lparr>aw_identities := ids\<rparr>
                              in case reserveSubject external identity (env_now E 7)
                                        (env_now E 8 + ap_emailLifetime (ac_policy C)) (aw_repository w1) of
                                   (Inl e, repo) \<Rightarrow> Some (Inl e, undo_identity C identity (w1\<lparr>aw_repository := repo\<rparr>))
                                 | (Inr _, repo) \<Rightarrow>
                                     let w2 = w1\<lparr>aw_repository := repo\<rparr>
                                     in case enrollPending (ac_local C) (env_from 9 E) identity subject password None
                                               (aw_accounts w2) of
                                          (Inl e, accounts) \<Rightarrow>
                                            Some (Inl e, undo_identity C identity
                                              (undo_reservation external identity (w2\<lparr>aw_accounts := accounts\<rparr>)))
                                        | (Inr _, accounts) \<Rightarrow>
                                            let w3 = w2\<lparr>aw_accounts := accounts\<rparr>
                                            in case signup_profile E identity email displayName of
                                                 Inl e \<Rightarrow> Some (Inl e, w3)
                                               | Inr p \<Rightarrow>
                                                   (case profiles_save p (aw_profiles w3) of
                                                      (Inl e, profiles) \<Rightarrow>
                                                        Some (Inl e, undo_identity C identity (undo_reservation external
                                                          identity (undo_pending identity subject
                                                            (w3\<lparr>aw_profiles := profiles\<rparr>))))
                                                    | (Inr _, profiles) \<Rightarrow>
                                                        signup_dispatch C E identity email
                                                          (w3\<lparr>aw_profiles := profiles\<rparr>)))))"

definition signup ::
    "AccountConfig \<Rightarrow> env \<Rightarrow> string \<Rightarrow> string \<Rightarrow> string option \<Rightarrow> AccountWorld \<Rightarrow> (IdentityId Result \<times> AccountWorld) option" where
  "signup C E email password displayName w =
     (case normalizeEmail email of
        Inl e \<Rightarrow> Some (Inl e, w)
      | Inr normalized \<Rightarrow>
          (case ownerOf (local_ref C normalized) (aw_directory w) of
             Inl e \<Rightarrow> Some (Inl e, w)
           | Inr (Some _) \<Rightarrow> Some (fail_msg AlreadyExists ''An account with that identifier already exists.'', w)
           | Inr None \<Rightarrow>
               (case reservedOwner (local_ref C normalized) (env_now E 0) (aw_repository w) of
                  Inl e \<Rightarrow> Some (Inl e, w)
                | Inr (Some _) \<Rightarrow> Some (fail_msg AlreadyExists
                    ''An account with that identifier is already pending verification.'', w)
                | Inr None \<Rightarrow>
                    (case findVerifiedByEmail normalized (aw_profiles w) of
                       Inl e \<Rightarrow> Some (Inl e, w)
                     | Inr found \<Rightarrow>
                         (case verified_matches (ac_organization C) (aw_identities w) found [] 0 of
                            Inl e \<Rightarrow> Some (Inl e, w)
                          | Inr (active, blocked) \<Rightarrow>
                              if length active > 1 \<or> (blocked > 0 \<and> active \<noteq> [])
                              then Some (fail_detail Conflict
                                ''That verified email is already associated with multiple identities.''
                                ''Local signup refused to guess between canonical identities that share the same verified email. An explicit merge is required.'', w)
                              else if active = [] \<and> blocked > 0
                              then Some (fail_msg AlreadyExists ''An account with that verified email already exists.'', w)
                              else if length active = 1
                              then signup_existing C E normalized password (hd active) w
                              else signup_new C E normalized password displayName w)))))"

definition resendSignupVerification ::
    "AccountConfig \<Rightarrow> env \<Rightarrow> string \<Rightarrow> AccountWorld \<Rightarrow> (Status \<times> AccountWorld) option" where
  "resendSignupVerification C E email w =
     (case normalizeEmail email of
        Inl e \<Rightarrow> Some (Inl e, w)
      | Inr normalized \<Rightarrow>
          (case reservedOwner (local_ref C normalized) (env_now E 0) (aw_repository w) of
             Inl e \<Rightarrow> Some (Inl e, w)
           | Inr None \<Rightarrow> Some (ok, w)
           | Inr (Some owner) \<Rightarrow>
               (case account_issue C (env_from 1 E) owner SignupEmail ChannelEmail normalized
                       (ap_emailLifetime (ac_policy C)) w of
                  None \<Rightarrow> None
                | Some (Inl e, w') \<Rightarrow> Some (Inl e, w')
                | Some (Inr dispatch, w') \<Rightarrow> Some (ac_deliver C dispatch, w'))))"

section \<open>Email verification and change\<close>

definition verifyEmailAndGetExternal ::
    "AccountConfig \<Rightarrow> env \<Rightarrow> VerificationId \<Rightarrow> string \<Rightarrow> AccountWorld \<Rightarrow> ExternalIdentityRef Result \<times> AccountWorld" where
  "verifyEmailAndGetExternal C E vid secret w =
     (case account_consume C E vid secret SignupEmail None w of
        (Inl e, w1) \<Rightarrow> (Inl e, w1)
      | (Inr challenge, w1) \<Rightarrow>
          let destination = vc_destination challenge; identity = vc_identity challenge;
              external = local_ref C destination
          in if reservedOwner external (env_now E 1) (aw_repository w1) \<noteq> Inr (Some identity)
             then (Inl (authFailure ''Signup subject reservation is absent or belongs to another identity.''), w1)
             else case requireProfile identity w1 of
               Inl e \<Rightarrow> (Inl e, w1)
             | Inr p \<Rightarrow>
                 (case setEmail destination True (env_now E 2) p of
                    (Inl e, _) \<Rightarrow> (Inl e, w1)
                  | (Inr _, p1) \<Rightarrow>
                      (case profiles_save p1 (aw_profiles w1) of
                         (Inl e, profiles) \<Rightarrow> (Inl e, w1\<lparr>aw_profiles := profiles\<rparr>)
                       | (Inr _, profiles) \<Rightarrow>
                           (case attachVerified (env_from 3 E) identity external (w1\<lparr>aw_profiles := profiles\<rparr>) of
                              (Inl e, w2) \<Rightarrow> (Inl e, undo_verified destination (env_now E 7) p1 w2)
                            | (Inr _, w2) \<Rightarrow>
                                (case identities_changeStatus (ac_organization C) identity IdentityStatus.Active (aw_identities w2) of
                                   (Inl e, ids) \<Rightarrow>
                                     (Inl e, undo_verified destination (env_now E 8) p1
                                        (undo_attach external identity (w2\<lparr>aw_identities := ids\<rparr>)))
                                 | (Inr _, ids) \<Rightarrow>
                                     (case releaseSubject external identity (aw_repository w2) of
                                        (Inl e, repo) \<Rightarrow> (Inl e, w2\<lparr>aw_identities := ids, aw_repository := repo\<rparr>)
                                      | (Inr _, repo) \<Rightarrow>
                                          (Inr external, w2\<lparr>aw_identities := ids, aw_repository := repo\<rparr>)))))))"

definition verifyEmail ::
    "AccountConfig \<Rightarrow> env \<Rightarrow> VerificationId \<Rightarrow> string \<Rightarrow> AccountWorld \<Rightarrow> Status \<times> AccountWorld" where
  "verifyEmail C E vid secret w =
     (case verifyEmailAndGetExternal C E vid secret w of (Inl e, w') \<Rightarrow> (Inl e, w') | (Inr _, w') \<Rightarrow> (ok, w'))"

definition beginEmailChange ::
    "AccountConfig \<Rightarrow> env \<Rightarrow> IdentityId \<Rightarrow> string \<Rightarrow> AccountWorld \<Rightarrow> (Status \<times> AccountWorld) option" where
  "beginEmailChange C E identity replacementEmail w =
     (case normalizeEmail replacementEmail of
        Inl e \<Rightarrow> Some (Inl e, w)
      | Inr normalized \<Rightarrow>
          (case requireProfile identity w of
             Inl e \<Rightarrow> Some (Inl e, w)
           | Inr _ \<Rightarrow>
               let external = local_ref C normalized
               in case ownerOf external (aw_directory w) of
                    Inl e \<Rightarrow> Some (Inl e, w)
                  | Inr owner \<Rightarrow>
                      if owner \<noteq> None \<and> owner \<noteq> Some identity
                      then Some (fail_msg AlreadyExists ''That email address is already in use.'', w)
                      else (case reserveSubject external identity (env_now E 0)
                                   (env_now E 1 + ap_emailLifetime (ac_policy C)) (aw_repository w) of
                              (Inl e, repo) \<Rightarrow> Some (Inl e, w\<lparr>aw_repository := repo\<rparr>)
                            | (Inr _, repo) \<Rightarrow>
                                (case account_issue C (env_from 2 E) identity ChangeEmail ChannelEmail normalized
                                        (ap_emailLifetime (ac_policy C)) (w\<lparr>aw_repository := repo\<rparr>) of
                                   None \<Rightarrow> None
                                 | Some (Inl e, w1) \<Rightarrow> Some (Inl e, undo_reservation external identity w1)
                                 | Some (Inr dispatch, w1) \<Rightarrow>
                                     (case ac_deliver C dispatch of
                                        Inl e \<Rightarrow> Some (Inl e, undo_reservation external identity w1)
                                      | Inr _ \<Rightarrow> Some (ok, w1))))))"

definition release_email :: "ExternalIdentityRef \<Rightarrow> IdentityId \<Rightarrow> AccountWorld \<Rightarrow> Status \<times> AccountWorld" where
  "release_email external identity w =
     (case releaseSubject external identity (aw_repository w) of (r, repo) \<Rightarrow> (r, w\<lparr>aw_repository := repo\<rparr>))"

text \<open>
  Writing the verified address into the profile; \<open>undo\<close> is what the branch undoes before it releases
  the reservation.
\<close>

definition save_verified_email ::
    "string \<Rightarrow> Instant \<Rightarrow> IdentityProfile \<Rightarrow> (AccountWorld \<Rightarrow> AccountWorld) \<Rightarrow> ExternalIdentityRef \<Rightarrow> IdentityId
     \<Rightarrow> (AccountWorld \<Rightarrow> Status \<times> AccountWorld) \<Rightarrow> AccountWorld \<Rightarrow> Status \<times> AccountWorld" where
  "save_verified_email replacement now p undo external identity continue w =
     (case setEmail replacement True now p of
        (Inl e, _) \<Rightarrow> (Inl e, undo_reservation external identity (undo w))
      | (Inr _, p1) \<Rightarrow>
          (case profiles_save p1 (aw_profiles w) of
             (Inl e, profiles) \<Rightarrow> (Inl e, undo_reservation external identity (undo (w\<lparr>aw_profiles := profiles\<rparr>)))
           | (Inr _, profiles) \<Rightarrow> continue (w\<lparr>aw_profiles := profiles\<rparr>)))"

definition add_email_signin ::
    "AccountConfig \<Rightarrow> env \<Rightarrow> IdentityId \<Rightarrow> string \<Rightarrow> string \<Rightarrow> IdentityProfile \<Rightarrow> AccountWorld \<Rightarrow> Status \<times> AccountWorld" where
  "add_email_signin C E identity replacement password p w =
     (let external = local_ref C replacement; subject = StrongId replacement
      in case enrollPending (ac_local C) (env_from 2 E) identity subject password None (aw_accounts w) of
           (Inl e, accounts) \<Rightarrow> (Inl e, undo_reservation external identity (w\<lparr>aw_accounts := accounts\<rparr>))
         | (Inr _, accounts) \<Rightarrow>
             (case attachVerified (env_from 3 E) identity external (w\<lparr>aw_accounts := accounts\<rparr>) of
                (Inl e, w1) \<Rightarrow> (Inl e, undo_reservation external identity (undo_pending identity subject w1))
              | (Inr _, w1) \<Rightarrow>
                  save_verified_email replacement (env_now E 7) p
                    (\<lambda>x. undo_pending identity subject (undo_attach external identity x))
                    external identity (release_email external identity) w1))"

definition move_email_signin ::
    "AccountConfig \<Rightarrow> env \<Rightarrow> IdentityId \<Rightarrow> string \<Rightarrow> string \<Rightarrow> IdentityProfile \<Rightarrow> AccountWorld \<Rightarrow> Status \<times> AccountWorld" where
  "move_email_signin C E identity previous replacement p w =
     (let external = local_ref C replacement
      in case attachVerified (env_from 10 E) identity external w of
           (Inl e, w1) \<Rightarrow> (Inl e, undo_reservation external identity w1)
         | (Inr _, w1) \<Rightarrow>
             (case rebindSubject identity (StrongId previous) (StrongId replacement) (aw_accounts w1) of
                (Inl e, accounts) \<Rightarrow>
                  (Inl e, undo_reservation external identity (undo_attach external identity (w1\<lparr>aw_accounts := accounts\<rparr>)))
              | (Inr _, accounts) \<Rightarrow>
                  save_verified_email replacement (env_now E 14) p
                    (\<lambda>x. undo_attach external identity
                           (undo_rebind identity (StrongId replacement) (StrongId previous) x))
                    external identity
                    (\<lambda>x. case detach (local_ref C previous) identity (aw_directory x) of
                           (Inl e, dir) \<Rightarrow> (Inl e, undo_reservation external identity (x\<lparr>aw_directory := dir\<rparr>))
                         | (Inr _, dir) \<Rightarrow> release_email external identity (x\<lparr>aw_directory := dir\<rparr>))
                    (w1\<lparr>aw_accounts := accounts\<rparr>)))"

definition completeEmailChange ::
    "AccountConfig \<Rightarrow> env \<Rightarrow> IdentityId \<Rightarrow> VerificationId \<Rightarrow> string \<Rightarrow> string option \<Rightarrow> AccountWorld \<Rightarrow> Status \<times> AccountWorld" where
  "completeEmailChange C E expectedIdentity vid secret newPassword w =
     (if case newPassword of None \<Rightarrow> False | Some password \<Rightarrow> length password < 8 \<or> length password > 1024
      then (fail_msg InvalidArgument ''The password length is outside the accepted range.'', w)
      else case account_consume C E vid secret ChangeEmail (Some expectedIdentity) w of
        (Inl e, w1) \<Rightarrow> (Inl e, w1)
      | (Inr challenge, w1) \<Rightarrow>
          let replacement = vc_destination challenge; identity = vc_identity challenge;
              external = local_ref C replacement
          in case reservedOwner external (env_now E 1) (aw_repository w1) of
               Inl e \<Rightarrow> (Inl e, w1)
             | Inr owner \<Rightarrow>
                 if owner \<noteq> Some identity
                 then (Inl (authFailure ''Email subject reservation is absent or belongs to another identity.''), w1)
                 else case requireProfile identity w1 of
                   Inl e \<Rightarrow> (Inl e, undo_reservation external identity w1)
                 | Inr p \<Rightarrow>
                     (case externalIdentitiesOf identity (aw_directory w1) of
                        Inl e \<Rightarrow> (Inl e, undo_reservation external identity w1)
                      | Inr connections \<Rightarrow>
                          (case find (is_local C) connections of
                             None \<Rightarrow>
                               (case newPassword of
                                  Some password \<Rightarrow> add_email_signin C E identity replacement password p w1
                                | None \<Rightarrow> save_verified_email replacement (env_now E 8) p id external identity
                                            (release_email external identity) w1)
                           | Some connected \<Rightarrow>
                               let previous = id_value (ext_subject connected)
                               in if previous = replacement
                                  then save_verified_email replacement (env_now E 9) p id external identity
                                         (release_email external identity) w1
                                  else move_email_signin C E identity previous replacement p w1)))"

section \<open>Phone verification and password reset\<close>

definition beginPhoneVerification ::
    "AccountConfig \<Rightarrow> env \<Rightarrow> IdentityId \<Rightarrow> string \<Rightarrow> AccountWorld \<Rightarrow> (Status \<times> AccountWorld) option" where
  "beginPhoneVerification C E identity phoneNumber w =
     (case normalizePhone phoneNumber of
        Inl e \<Rightarrow> Some (Inl e, w)
      | Inr normalized \<Rightarrow>
          let external = plain_ref (ac_phoneProvider C) (StrongId normalized)
          in case ownerOf external (aw_directory w) of
               Inl e \<Rightarrow> Some (Inl e, w)
             | Inr owner \<Rightarrow>
                 if owner \<noteq> None \<and> owner \<noteq> Some identity
                 then Some (fail_msg AlreadyExists ''That phone number is already in use.'', w)
                 else (case reserveSubject external identity (env_now E 0)
                              (env_now E 1 + ap_phoneLifetime (ac_policy C)) (aw_repository w) of
                         (Inl e, repo) \<Rightarrow> Some (Inl e, w\<lparr>aw_repository := repo\<rparr>)
                       | (Inr _, repo) \<Rightarrow>
                           (case account_issue C (env_from 2 E) identity VerifyPhone ChannelSms normalized
                                   (ap_phoneLifetime (ac_policy C)) (w\<lparr>aw_repository := repo\<rparr>) of
                              None \<Rightarrow> None
                            | Some (Inl e, w1) \<Rightarrow> Some (Inl e, w1)
                            | Some (Inr dispatch, w1) \<Rightarrow> Some (ac_deliver C dispatch, w1))))"

definition completePhoneVerification ::
    "AccountConfig \<Rightarrow> env \<Rightarrow> IdentityId \<Rightarrow> VerificationId \<Rightarrow> string \<Rightarrow> AccountWorld \<Rightarrow> Status \<times> AccountWorld" where
  "completePhoneVerification C E expectedIdentity vid secret w =
     (case account_consume C E vid secret VerifyPhone None w of
        (Inl e, w1) \<Rightarrow> (Inl e, w1)
      | (Inr challenge, w1) \<Rightarrow>
          let identity = vc_identity challenge;
              external = plain_ref (ac_phoneProvider C) (StrongId (vc_destination challenge))
          in if identity \<noteq> expectedIdentity
             then (Inl (authFailure ''Verification challenge does not belong to the authenticated identity.''), w1)
             else case attachVerified (env_from 1 E) identity external w1 of
               (Inl e, w2) \<Rightarrow> (Inl e, w2)
             | (Inr _, w2) \<Rightarrow>
                 (case requireProfile identity w2 of
                    Inl e \<Rightarrow> (Inl e, undo_attach external identity w2)
                  | Inr p \<Rightarrow>
                      (case setPhoneNumber (vc_destination challenge) True (env_now E 5) p of
                         (Inl e, _) \<Rightarrow> (Inl e, w2)
                       | (Inr _, p1) \<Rightarrow>
                           (case profiles_save p1 (aw_profiles w2) of
                              (Inl e, profiles) \<Rightarrow> (Inl e, undo_attach external identity (w2\<lparr>aw_profiles := profiles\<rparr>))
                            | (Inr _, profiles) \<Rightarrow> release_email external identity (w2\<lparr>aw_profiles := profiles\<rparr>)))))"

definition beginPasswordReset ::
    "AccountConfig \<Rightarrow> env \<Rightarrow> string \<Rightarrow> AccountWorld \<Rightarrow> (Status \<times> AccountWorld) option" where
  "beginPasswordReset C E email w =
     (case normalizeEmail email of
        Inl _ \<Rightarrow> Some (ok, w)
      | Inr normalized \<Rightarrow>
          (case ownerOf (local_ref C normalized) (aw_directory w) of
             Inr (Some owner) \<Rightarrow>
               (case account_issue C E owner PasswordReset ChannelEmail normalized (ap_resetLifetime (ac_policy C)) w of
                  None \<Rightarrow> None
                | Some (Inl e, w1) \<Rightarrow> Some (Inl e, w1)
                | Some (Inr dispatch, w1) \<Rightarrow> Some (ac_deliver C dispatch, w1))
           | _ \<Rightarrow> Some (ok, w)))"

definition completePasswordReset ::
    "AccountConfig \<Rightarrow> env \<Rightarrow> VerificationId \<Rightarrow> string \<Rightarrow> string \<Rightarrow> AccountWorld \<Rightarrow> Status \<times> AccountWorld" where
  "completePasswordReset C E vid secret newPassword w =
     (if length newPassword < 8 \<or> length newPassword > 1024
      then (fail_msg InvalidArgument ''The password length is outside the accepted range.'', w)
      else case account_consume C E vid secret PasswordReset None w of
        (Inl e, w1) \<Rightarrow> (Inl e, w1)
      | (Inr challenge, w1) \<Rightarrow>
          let external = local_ref C (vc_destination challenge)
          in if ownerOf external (aw_directory w1) \<noteq> Inr (Some (vc_identity challenge))
             then (Inl (authFailure ''Password reset subject ownership changed during the ceremony.''), w1)
             else case changePassword (ac_local C) (env_from 1 E) (ext_subject external) newPassword (aw_accounts w1) of
               (Inl e, accounts) \<Rightarrow> (Inl e, w1\<lparr>aw_accounts := accounts\<rparr>)
             | (Inr _, accounts) \<Rightarrow>
                 (case service_revokeAll (env_from 2 E) (vc_identity challenge) (aw_sessions w1) of
                    (Inl e, sessions) \<Rightarrow> (Inl e, w1\<lparr>aw_accounts := accounts, aw_sessions := sessions\<rparr>)
                  | (Inr _, sessions) \<Rightarrow> (ok, w1\<lparr>aw_accounts := accounts, aw_sessions := sessions\<rparr>)))"

section \<open>Profile self service\<close>

definition avatar_allowed :: "IdentityId \<Rightarrow> string \<Rightarrow> IdentityProfile \<Rightarrow> Directory \<Rightarrow> bool Result" where
  "avatar_allowed identity avatarSource p dir =
     (if avatarSource = ''profile'' then Inr (profile_pictureUrl p \<noteq> None)
      else if avatarSource = ''auto'' then Inr True
      else case externalIdentitiesOf identity dir of
        Inl e \<Rightarrow> Inl e
      | Inr connections \<Rightarrow>
          Inr (list_ex (\<lambda>x. id_value (ext_providerId x) = avatarSource \<and> ext_pictureUrl x \<noteq> None) connections))"

definition updateProfile ::
    "env \<Rightarrow> IdentityId \<Rightarrow> string option \<Rightarrow> string option \<Rightarrow> string option \<Rightarrow> string option \<Rightarrow> string option
     \<Rightarrow> AccountWorld \<Rightarrow> Status \<times> AccountWorld" where
  "updateProfile E identity displayName preferredUsername locale pictureUrl avatarSource w =
     (case requireProfile identity w of
        Inl e \<Rightarrow> (Inl e, w)
      | Inr p \<Rightarrow>
          (case updateSelfService displayName preferredUsername locale pictureUrl (env_now E 0) p of
             (Inl e, _) \<Rightarrow> (Inl e, w)
           | (Inr _, p1) \<Rightarrow>
               let save = (\<lambda>q. case profiles_save q (aw_profiles w) of (r, profiles) \<Rightarrow> (r, w\<lparr>aw_profiles := profiles\<rparr>))
               in case avatarSource of
                    None \<Rightarrow> save p1
                  | Some source \<Rightarrow>
                      (case avatar_allowed identity source p1 (aw_directory w) of
                         Inl e \<Rightarrow> (Inl e, w)
                       | Inr allowed \<Rightarrow>
                           if \<not> allowed
                           then (fail_msg InvalidArgument ''The selected avatar source is not available.'', w)
                           else (case setAvatarSource source (env_now E 0) p1 of
                                   (Inl e, _) \<Rightarrow> (Inl e, w)
                                 | (Inr _, p2) \<Rightarrow> save p2))))"

section \<open>Authenticator enrolment\<close>

definition localSubject :: "AccountConfig \<Rightarrow> IdentityId \<Rightarrow> AccountWorld \<Rightarrow> ExternalSubject option Result" where
  "localSubject C identity w =
     (case externalIdentitiesOf identity (aw_directory w) of
        Inl e \<Rightarrow> Inl e
      | Inr connections \<Rightarrow> Inr (map_option ext_subject (find (is_local C) connections)))"

definition totpEnabled :: "AccountConfig \<Rightarrow> IdentityId \<Rightarrow> AccountWorld \<Rightarrow> bool option Result" where
  "totpEnabled C identity w =
     (case localSubject C identity w of
        Inl e \<Rightarrow> Inl e
      | Inr None \<Rightarrow> Inr None
      | Inr (Some subject) \<Rightarrow>
          (case hasTotp subject (aw_accounts w) of Inl e \<Rightarrow> Inl e | Inr enabled \<Rightarrow> Inr (Some enabled)))"

definition account_passwordUpgradeNeeded :: "AccountConfig \<Rightarrow> IdentityId \<Rightarrow> AccountWorld \<Rightarrow> bool option Result" where
  "account_passwordUpgradeNeeded C identity w =
     (case localSubject C identity w of
        Inl e \<Rightarrow> Inl e
      | Inr None \<Rightarrow> Inr None
      | Inr (Some subject) \<Rightarrow>
          (case passwordUpgradeNeeded (ac_local C) subject (aw_accounts w) of
             Inl e \<Rightarrow> Inl e | Inr needed \<Rightarrow> Inr (Some needed)))"

definition account_confirmPasswordUpgrade ::
    "AccountConfig \<Rightarrow> env \<Rightarrow> IdentityId \<Rightarrow> string \<Rightarrow> AccountWorld \<Rightarrow> bool Result \<times> AccountWorld" where
  "account_confirmPasswordUpgrade C E identity password w =
     (case localSubject C identity w of
        Inl e \<Rightarrow> (Inl e, w)
      | Inr None \<Rightarrow> (fail_msg FailedPrecondition ''This identity has no local password.'', w)
      | Inr (Some subject) \<Rightarrow>
          (case confirmPasswordUpgrade (ac_local C) E subject password (aw_accounts w) of
             (r, accounts) \<Rightarrow> (r, w\<lparr>aw_accounts := accounts\<rparr>)))"

text \<open>The sweep over the pending enrolments reads the clock for each entry of another identity.\<close>

fun sweep_pending ::
    "env \<Rightarrow> nat \<Rightarrow> IdentityId \<Rightarrow> (TotpEnrollmentId, PendingTotpEnrollment) omap
     \<Rightarrow> (TotpEnrollmentId, PendingTotpEnrollment) omap" where
  "sweep_pending E i identity [] = []"
| "sweep_pending E i identity ((k, p) # m) =
     (if pt_identity p = identity \<or> pt_expiresAt p \<le> env_now E i then sweep_pending E (Suc i) identity m
      else (k, p) # sweep_pending E (Suc i) identity m)"

definition beginTotpEnrollment ::
    "AccountConfig \<Rightarrow> env \<Rightarrow> IdentityId \<Rightarrow> string \<Rightarrow> AssuranceLevel \<Rightarrow> AccountWorld
     \<Rightarrow> TotpEnrollmentStart Result \<times> AccountWorld" where
  "beginTotpEnrollment C E identity password currentAssurance w =
     (case localSubject C identity w of
        Inl e \<Rightarrow> (Inl e, w)
      | Inr None \<Rightarrow> (fail_msg FailedPrecondition ''A local email/password sign-in method is required.'', w)
      | Inr (Some subject) \<Rightarrow>
          (case verifyPassword (ac_local C) E subject password (aw_accounts w) of
             Inl e \<Rightarrow> (Inl e, w)
           | Inr _ \<Rightarrow>
               (case hasTotp subject (aw_accounts w) of
                  Inl e \<Rightarrow> (Inl e, w)
                | Inr enabled \<Rightarrow>
                    if enabled \<and> \<not> meetsAssurance currentAssurance Ial2
                    then (fail_msg AssuranceInsufficient
                            ''Replacing an existing authenticator requires an IAL2 session.'', w)
                    else (case TotpSecret_generate E 20 of
                            Inl e \<Rightarrow> (Inl e, w)
                          | Inr secret \<Rightarrow>
                              (case randomTokenBase64Url E 1 24 of
                                 Inl e \<Rightarrow> (Inl e, w)
                               | Inr identifier \<Rightarrow>
                                   let enrollmentId = StrongId (''opt_'' @ identifier);
                                       expiresAt = env_now E 2 + kTotpEnrollmentLifetime
                                   in case hasTotp subject (aw_accounts w) of
                                        Inl e \<Rightarrow> (Inl e, w)
                                      | Inr currentEnabled \<Rightarrow>
                                          if currentEnabled \<noteq> enabled
                                          then (fail_msg FailedPrecondition
                                                  ''The authenticator state changed while enrollment was starting.'', w)
                                          else (Inr \<lparr>es_id = enrollmentId, es_secretBase32 = enrollmentBase32 secret,
                                                     es_expiresAt = expiresAt, es_replacing = enabled\<rparr>,
                                                w\<lparr>aw_pendingTotp := omap_emplace enrollmentId
                                                    \<lparr>pt_identity = identity, pt_subject = subject, pt_secret = secret,
                                                     pt_expiresAt = expiresAt, pt_replacementAuthorized = enabled,
                                                     pt_attempts = 0\<rparr>
                                                    (sweep_pending E 3 identity (aw_pendingTotp w))\<rparr>))))))"

definition forget_pending :: "TotpEnrollmentId \<Rightarrow> AccountWorld \<Rightarrow> AccountWorld" where
  "forget_pending enrollmentId w = w\<lparr>aw_pendingTotp := omap_erase enrollmentId (aw_pendingTotp w)\<rparr>"

text \<open>A code that does not verify counts; the fifth one ends the enrolment.\<close>

definition count_attempt :: "Error \<Rightarrow> TotpEnrollmentId \<Rightarrow> PendingTotpEnrollment \<Rightarrow> AccountWorld \<Rightarrow> AccountWorld" where
  "count_attempt e enrollmentId found w =
     (if err_code e = AuthenticationFailed
      then if pt_attempts found + 1 \<ge> kTotpEnrollmentMaximumAttempts then forget_pending enrollmentId w
           else w\<lparr>aw_pendingTotp := omap_modify enrollmentId (pt_attempts_update (\<lambda>n. n + 1)) (aw_pendingTotp w)\<rparr>
      else w)"

definition completeTotpEnrollment ::
    "AccountConfig \<Rightarrow> env \<Rightarrow> IdentityId \<Rightarrow> TotpEnrollmentId \<Rightarrow> string \<Rightarrow> AssuranceLevel \<Rightarrow> AccountWorld
     \<Rightarrow> (Status \<times> AccountWorld) option" where
  "completeTotpEnrollment C E identity enrollmentId verificationCode currentAssurance w =
     (if StrongId_empty enrollmentId \<or> length verificationCode \<noteq> 6 \<or> \<not> list_all is_digit_char verificationCode
      then Some (fail_msg InvalidArgument ''The authenticator verification code is invalid.'', w)
      else case map_of (aw_pendingTotp w) enrollmentId of
        None \<Rightarrow> Some (Inl (authFailure ''The authenticator enrollment is unknown.''), w)
      | Some found \<Rightarrow>
          if pt_identity found \<noteq> identity
          then Some (Inl (authFailure ''The authenticator enrollment belongs to another identity.''), w)
          else if pt_expiresAt found \<le> env_now E 0
          then Some (Inl (authFailure ''The authenticator enrollment expired.''), forget_pending enrollmentId w)
          else if pt_replacementAuthorized found \<and> \<not> meetsAssurance currentAssurance Ial2
          then Some (fail_msg AssuranceInsufficient
                       ''Replacing an existing authenticator requires an IAL2 session.'', w)
          else case hasTotp (pt_subject found) (aw_accounts w) of
            Inl e \<Rightarrow> Some (Inl e, w)
          | Inr enabled \<Rightarrow>
              if enabled \<noteq> pt_replacementAuthorized found
              then Some (fail_msg FailedPrecondition ''The authenticator state changed during enrollment.'',
                         forget_pending enrollmentId w)
              else (case replaceTotp (ac_local C) (pt_subject found) (pt_secret found) verificationCode (env_now E 1)
                           (aw_accounts w) of
                      None \<Rightarrow> None
                    | Some (Inl e, accounts) \<Rightarrow>
                        Some (Inl e, count_attempt e enrollmentId found (w\<lparr>aw_accounts := accounts\<rparr>))
                    | Some (Inr _, accounts) \<Rightarrow>
                        Some (ok, forget_pending enrollmentId (w\<lparr>aw_accounts := accounts\<rparr>))))"

definition disableTotp ::
    "AccountConfig \<Rightarrow> env \<Rightarrow> IdentityId \<Rightarrow> string \<Rightarrow> AssuranceLevel \<Rightarrow> AccountWorld \<Rightarrow> Status \<times> AccountWorld" where
  "disableTotp C E identity password currentAssurance w =
     (if \<not> meetsAssurance currentAssurance Ial2
      then (fail_msg AssuranceInsufficient ''Disabling an authenticator requires an IAL2 session.'', w)
      else case localSubject C identity w of
        Inl e \<Rightarrow> (Inl e, w)
      | Inr None \<Rightarrow> (fail_msg FailedPrecondition ''A local email/password sign-in method is required.'', w)
      | Inr (Some subject) \<Rightarrow>
          (case verifyPassword (ac_local C) E subject password (aw_accounts w) of
             Inl e \<Rightarrow> (Inl e, w)
           | Inr _ \<Rightarrow>
               (case hasTotp subject (aw_accounts w) of
                  Inl e \<Rightarrow> (Inl e, w)
                | Inr enabled \<Rightarrow>
                    if \<not> enabled
                    then (fail_msg FailedPrecondition ''TOTP is not enabled for this local account.'', w)
                    else let w1 = w\<lparr>aw_pendingTotp := filter (\<lambda>(k, p). pt_identity p \<noteq> identity) (aw_pendingTotp w)\<rparr>
                         in case recovery_revoke identity (aw_codes w1) of
                              (Inl e, codes) \<Rightarrow> (Inl e, w1\<lparr>aw_codes := codes\<rparr>)
                            | (Inr _, codes) \<Rightarrow>
                                (case removeTotp subject (aw_accounts w1) of
                                   (r, accounts) \<Rightarrow> (r, w1\<lparr>aw_codes := codes, aw_accounts := accounts\<rparr>)))))"

end
