(* ===== verification/Account_Proofs.thy ===== *)
theory Account_Proofs
  imports Account Identity_Proofs
begin

text \<open>
  What the account service guarantees. Every operation is one step of the world (\<open>account_step\<close>); the
  lemmas say which parts of the world a step can change, and the properties follow from them:
  passwords are reset and accounts linked only by whoever presents the secret of a live challenge,
  and a second factor is never lost or replaced without an IAL2 session.
\<close>

section \<open>Steps\<close>

datatype account_call =
    Signup string string "string option"
  | ResendSignup string
  | VerifyEmail VerificationId string
  | BeginEmailChange IdentityId string
  | CompleteEmailChange IdentityId VerificationId string "string option"
  | BeginPhone IdentityId string
  | CompletePhone IdentityId VerificationId string
  | BeginReset string
  | CompleteReset VerificationId string string
  | UpdateProfile IdentityId "string option" "string option" "string option" "string option" "string option"
  | ConfirmUpgrade IdentityId string
  | BeginTotp IdentityId string AssuranceLevel
  | CompleteTotp IdentityId TotpEnrollmentId string AssuranceLevel
  | DisableTotp IdentityId string AssuranceLevel

fun account_step :: "AccountConfig \<Rightarrow> env \<Rightarrow> account_call \<Rightarrow> AccountWorld \<Rightarrow> AccountWorld option" where
  "account_step C E (Signup email password name) w = map_option snd (signup C E email password name w)"
| "account_step C E (ResendSignup email) w = map_option snd (resendSignupVerification C E email w)"
| "account_step C E (VerifyEmail vid secret) w = Some (snd (verifyEmail C E vid secret w))"
| "account_step C E (BeginEmailChange i email) w = map_option snd (beginEmailChange C E i email w)"
| "account_step C E (CompleteEmailChange i vid secret password) w =
     Some (snd (completeEmailChange C E i vid secret password w))"
| "account_step C E (BeginPhone i phone) w = map_option snd (beginPhoneVerification C E i phone w)"
| "account_step C E (CompletePhone i vid secret) w = Some (snd (completePhoneVerification C E i vid secret w))"
| "account_step C E (BeginReset email) w = map_option snd (beginPasswordReset C E email w)"
| "account_step C E (CompleteReset vid secret password) w = Some (snd (completePasswordReset C E vid secret password w))"
| "account_step C E (UpdateProfile i a b c d f) w = Some (snd (updateProfile E i a b c d f w))"
| "account_step C E (ConfirmUpgrade i password) w = Some (snd (account_confirmPasswordUpgrade C E i password w))"
| "account_step C E (BeginTotp i password level) w = Some (snd (beginTotpEnrollment C E i password level w))"
| "account_step C E (CompleteTotp i eid code level) w = map_option snd (completeTotpEnrollment C E i eid code level w)"
| "account_step C E (DisableTotp i password level) w = Some (snd (disableTotp C E i password level w))"

section \<open>What the shared parts of the operations change\<close>

definition live_challenge ::
    "AccountConfig \<Rightarrow> env \<Rightarrow> VerificationId \<Rightarrow> string \<Rightarrow> VerificationPurpose \<Rightarrow> AccountWorld \<Rightarrow> VerificationChallenge \<Rightarrow> bool" where
  "live_challenge C E vid secret purpose w c \<longleftrightarrow>
     (\<exists>s. map_of (acct_challenges (aw_repository w)) vid = Some s \<and> cs_challenge s = c
        \<and> cs_attempts s < ap_maximumAttempts (ac_policy C))
     \<and> verification_digest C E vid secret = Inr (vc_digest c) \<and> vc_purpose c = purpose
     \<and> env_now E 0 < vc_expiresAt c"

abbreviation spent :: "VerificationId \<Rightarrow> AccountWorld \<Rightarrow> AccountRepository" where
  "spent vid w \<equiv> (aw_repository w)\<lparr>acct_challenges := omap_erase vid (acct_challenges (aw_repository w))\<rparr>"

lemma account_consume_result:
  "account_consume C E vid secret purpose expected w = (Inr c, w1) \<longleftrightarrow>
     live_challenge C E vid secret purpose w c \<and> (expected = None \<or> expected = Some (vc_identity c))
     \<and> w1 = w\<lparr>aw_repository := spent vid w\<rparr>"
proof -
  have "0 < ap_maximumAttempts (ac_policy C)" if "n < ap_maximumAttempts (ac_policy C)" for n
    using le_less_trans [OF word_zero_le that] .
  then show ?thesis
    by (auto simp: account_consume_def challenges_consume_def Let_def vc_expiredAt_def live_challenge_def
        split: sum.splits option.splits if_splits)
qed

lemma account_consume_frame:
  "account_consume C E vid secret purpose expected w = (r, w1) \<Longrightarrow> \<exists>repo. w1 = w\<lparr>aw_repository := repo\<rparr>"
  by (auto simp: account_consume_def split: sum.splits prod.splits if_splits)
    (metis AccountWorld.surjective AccountWorld.update_convs(6))

lemma account_consume_cases:
  assumes "account_consume C E vid secret purpose expected w = (r, w1)"
  obtains (refused) e repo where "r = Inl e" "w1 = w\<lparr>aw_repository := repo\<rparr>"
  | (accepted) c where "r = Inr c" "live_challenge C E vid secret purpose w c"
      "expected = None \<or> expected = Some (vc_identity c)" "w1 = w\<lparr>aw_repository := spent vid w\<rparr>"
  using assms account_consume_frame [OF assms] account_consume_result by (cases r) (blast, metis)

lemma account_issue_frame:
  "account_issue C E i purpose channel destination lifetime w = Some (r, w1) \<Longrightarrow> \<exists>repo. w1 = w\<lparr>aw_repository := repo\<rparr>"
  by (auto simp: account_issue_def Let_def split: sum.splits prod.splits option.splits)
    (metis AccountWorld.surjective AccountWorld.update_convs(6))+

lemma verified_link:
  assumes "Link_request i external t0 lifetime = Inr l0" "requireVerification t1 l0 = (ok, l1)"
    "markVerified t2 l1 = (ok, l2)" "complete t3 l2 = (ok, l3)"
  shows "link_owner l3 = i" "link_external l3 = external" "link_state l3 = Linked"
  using assms
  by (auto simp: Link_request_def requireVerification_def markVerified_def complete_def Link_transitionTo_def
      split: if_splits)

lemma attach_owner:
  assumes "attach link d = (r, d')" "directory_inv d" "link_state link = Linked"
  shows "directory_inv d'" "r \<noteq> ok \<Longrightarrow> d' = d"
    "r = ok \<Longrightarrow> owner_map d (ref_key (link_external link)) \<in> {None, Some (link_owner link)}
      \<and> owner_map d' = (owner_map d)(ref_key (link_external link) \<mapsto> link_owner link)"
  using assms directory_inv_step [OF assms(2), of "Attach link"] directory_invD(1) [OF assms(2)]
  by (auto simp: attach_def owner_map_def om.find_emplace_new fun_eq_iff split: option.splits if_splits)

lemma attachVerified_cases:
  assumes "attachVerified E i external w = (r, w1)" "directory_inv (aw_directory w)"
  obtains (refused) e where "r = Inl e" "w1 = w"
  | (attached) dir where "r = ok" "w1 = w\<lparr>aw_directory := dir\<rparr>" "directory_inv dir"
      "owner_map (aw_directory w) (ref_key external) \<in> {None, Some i}"
      "owner_map dir = (owner_map (aw_directory w))(ref_key external \<mapsto> i)"
proof -
  have "(\<exists>e. r = Inl e \<and> w1 = w) \<or> (\<exists>link dir. link_owner link = i \<and> link_external link = external
      \<and> link_state link = Linked \<and> attach link (aw_directory w) = (r, dir) \<and> w1 = w\<lparr>aw_directory := dir\<rparr>)"
    using assms(1)
    by (auto simp: attachVerified_def split: sum.splits prod.splits) (metis verified_link)+
  then show thesis
  proof (elim disjE exE conjE)
    fix link :: IdentityLink and dir
    assume link: "link_owner link = i" "link_external link = external" "link_state link = Linked"
      and step: "attach link (aw_directory w) = (r, dir)" and w1: "w1 = w\<lparr>aw_directory := dir\<rparr>"
    note owner = attach_owner [OF step assms(2) link(3), unfolded link(1,2)]
    show thesis
    proof (cases r)
      case (Inl e)
      then show ?thesis using owner(2) w1 by (intro refused [of e]) simp_all
    next
      case (Inr u)
      then show ?thesis using owner(1,3) w1 by (intro attached [of dir]) auto
    qed
  qed (rule refused)
qed

section \<open>Changes of the directory\<close>

text \<open>
  \<open>owner_change i k\<close>: only the association of \<open>k\<close> is new, with identity \<open>i\<close>, and only associations of
  \<open>i\<close> are gone. \<open>dstep\<close> lifts it to worlds.
\<close>

definition owner_change :: "IdentityId \<Rightarrow> RefKey \<Rightarrow> (RefKey \<rightharpoonup> IdentityId) \<Rightarrow> (RefKey \<rightharpoonup> IdentityId) \<Rightarrow> bool" where
  "owner_change i k0 m m' \<longleftrightarrow>
     (\<forall>k. m' k = m k \<or> (m k = None \<and> m' k = Some i \<and> k = k0) \<or> (m k = Some i \<and> m' k = None))"

definition dstep :: "IdentityId \<Rightarrow> RefKey \<Rightarrow> AccountWorld \<Rightarrow> AccountWorld \<Rightarrow> bool" where
  "dstep i k w w' \<longleftrightarrow> (directory_inv (aw_directory w) \<longrightarrow> directory_inv (aw_directory w')
     \<and> owner_change i k (owner_map (aw_directory w)) (owner_map (aw_directory w')))"

lemma owner_change_refl [simp]: "owner_change i k m m"
  by (simp add: owner_change_def)

lemma owner_change_trans: "owner_change i k m m' \<Longrightarrow> owner_change i k m' n \<Longrightarrow> owner_change i k m n"
  unfolding owner_change_def by (metis (no_types, lifting))

lemma dstep_refl [simp]: "dstep i k w w"
  by (simp add: dstep_def)

lemma dstep_trans: "dstep i k w w' \<Longrightarrow> dstep i k w' w'' \<Longrightarrow> dstep i k w w''"
  unfolding dstep_def by (blast intro: owner_change_trans)

lemma dstep_frame [simp]:
  "dstep i k w (w'\<lparr>aw_identities := a\<rparr>) = dstep i k w w'" "dstep i k w (w'\<lparr>aw_profiles := b\<rparr>) = dstep i k w w'"
  "dstep i k w (w'\<lparr>aw_accounts := c\<rparr>) = dstep i k w w'" "dstep i k w (w'\<lparr>aw_repository := d\<rparr>) = dstep i k w w'"
  "dstep i k w (w'\<lparr>aw_sessions := f\<rparr>) = dstep i k w w'"
  "dstep i k (w\<lparr>aw_identities := a\<rparr>) w' = dstep i k w w'" "dstep i k (w\<lparr>aw_profiles := b\<rparr>) w' = dstep i k w w'"
  "dstep i k (w\<lparr>aw_accounts := c\<rparr>) w' = dstep i k w w'" "dstep i k (w\<lparr>aw_repository := d\<rparr>) w' = dstep i k w w'"
  "dstep i k (w\<lparr>aw_sessions := f\<rparr>) w' = dstep i k w w'"
  by (simp_all add: dstep_def)

lemma dstep_undo [simp]:
  "dstep i k w (undo_reservation e j w') = dstep i k w w'" "dstep i k w (undo_pending j x w') = dstep i k w w'"
  "dstep i k w (undo_rebind j x y w') = dstep i k w w'" "dstep i k w (undo_verified m t p w') = dstep i k w w'"
  by (simp_all add: undo_reservation_def undo_pending_def undo_rebind_def undo_verified_def)

lemma detach_owner:
  assumes "detach e i d = (r, d')" "directory_inv d"
  shows "directory_inv d'" "owner_change i k (owner_map d) (owner_map d')"
proof -
  have "d' = d \<or> (owner_map d (ref_key e) = Some i \<and> d' = remove_association (ref_key e) d)"
    using assms(1) by (auto simp: detach_def owner_map_def split: option.splits if_splits)
  then show "owner_change i k (owner_map d) (owner_map d')"
    using owner_map_remove [OF directory_invD(1) [OF assms(2)], of "ref_key e"] by (auto simp: owner_change_def split: if_splits)
  show "directory_inv d'"
    using assms directory_inv_step [OF assms(2), of "Detach e i"] by simp
qed

lemma dstep_detach: "detach e i (aw_directory w) = (r, d) \<Longrightarrow> dstep i k w (w\<lparr>aw_directory := d\<rparr>)"
  by (auto simp: dstep_def dest: detach_owner)

lemma dstep_undo_attach: "dstep i k w w' \<Longrightarrow> dstep i k w (undo_attach e i w')"
  unfolding undo_attach_def by (rule dstep_trans, assumption, rule dstep_detach) (rule surjective_pairing)

lemma dstep_attach:
  assumes "attachVerified E i external w = (r, w1)"
  shows "dstep i (ref_key external) w w1"
proof (cases "directory_inv (aw_directory w)")
  case True
  from assms True show ?thesis
    by (cases rule: attachVerified_cases) (auto simp: dstep_def owner_change_def)
qed (simp add: dstep_def)

lemmas dstep_intros = dstep_undo_attach dstep_attach

text \<open>Operations that leave the directory alone.\<close>

lemma account_issue_directory:
  "account_issue C E i purpose channel destination lifetime w = Some (r, w1) \<Longrightarrow>
   aw_directory w1 = aw_directory w \<and> aw_accounts w1 = aw_accounts w"
  using account_issue_frame by fastforce

lemma undo_directory [simp]:
  "aw_directory (undo_reservation e j w) = aw_directory w" "aw_directory (undo_pending j x w) = aw_directory w"
  "aw_directory (undo_rebind j x y w) = aw_directory w" "aw_directory (undo_verified m t p w) = aw_directory w"
  "aw_directory (undo_identity C j w) = aw_directory w"
  by (simp_all add: undo_reservation_def undo_pending_def undo_rebind_def undo_verified_def undo_identity_def)

lemma signup_directory:
  assumes "signup C E email password name w = Some (r, w')"
  shows "aw_directory w' = aw_directory w"
proof -
  have "aw_directory w' = aw_directory w" if "signup_existing C E m password i w = Some (r, w')" for m i
    using that by (auto simp: signup_existing_def Let_def split: sum.splits prod.splits option.splits if_splits
        dest!: account_issue_directory)
  moreover have "aw_directory w' = aw_directory w1" if "signup_dispatch C E i m w1 = Some (r, w')" for m i w1
    using that by (auto simp: signup_dispatch_def split: sum.splits prod.splits option.splits
        dest!: account_issue_directory)
  then have "aw_directory w' = aw_directory w" if "signup_new C E m password name w = Some (r, w')" for m
    using that by (auto simp: signup_new_def Let_def split: sum.splits prod.splits)
  ultimately show ?thesis
    using assms by (auto simp: signup_def split: sum.splits prod.splits option.splits if_splits)
qed

lemma begin_directory:
  "resendSignupVerification C E email w = Some (r, w') \<Longrightarrow> aw_directory w' = aw_directory w"
  "beginEmailChange C E i email w = Some (r, w') \<Longrightarrow> aw_directory w' = aw_directory w"
  "beginPhoneVerification C E i email w = Some (r, w') \<Longrightarrow> aw_directory w' = aw_directory w"
  "beginPasswordReset C E email w = Some (r, w') \<Longrightarrow> aw_directory w' = aw_directory w"
  by (auto simp: resendSignupVerification_def beginEmailChange_def beginPhoneVerification_def beginPasswordReset_def
      Let_def split: sum.splits prod.splits option.splits if_splits dest!: account_issue_directory)

lemma account_consume_directory:
  "account_consume C E vid secret purpose expected w = (r, w1) \<Longrightarrow>
   aw_directory w1 = aw_directory w \<and> aw_accounts w1 = aw_accounts w"
  using account_consume_frame by fastforce

lemma self_service_directory:
  "aw_directory (snd (completePasswordReset C E vid secret password w)) = aw_directory w"
  "aw_directory (snd (updateProfile E i a b c d f w)) = aw_directory w"
  "aw_directory (snd (account_confirmPasswordUpgrade C E i password w)) = aw_directory w"
  "aw_directory (snd (beginTotpEnrollment C E i password level w)) = aw_directory w"
  "aw_directory (snd (disableTotp C E i password level w)) = aw_directory w"
  by (auto simp: completePasswordReset_def updateProfile_def account_confirmPasswordUpgrade_def
      beginTotpEnrollment_def disableTotp_def Let_def split: sum.split prod.split option.split
      dest!: account_consume_directory)

lemma completeTotp_directory:
  "completeTotpEnrollment C E i eid code level w = Some (r, w') \<Longrightarrow> aw_directory w' = aw_directory w"
  by (auto simp: completeTotpEnrollment_def count_attempt_def forget_pending_def
      split: sum.splits prod.splits option.splits if_splits)

lemma dstep_release [simp]: "dstep i k w (snd (release_email e j w')) = dstep i k w w'"
  by (simp add: release_email_def case_prod_unfold)

lemma dstep_save_verified:
  assumes "dstep i k w0 w" "\<And>x. dstep i k w0 x \<Longrightarrow> dstep i k w0 (undo x)"
    and "\<And>x. dstep i k w0 x \<Longrightarrow> dstep i k w0 (snd (continue x))"
  shows "dstep i k w0 (snd (save_verified_email m t p undo e j continue w))"
  using assms by (auto simp: save_verified_email_def split: sum.split prod.split)

lemma add_email_directory:
  "dstep i (ref_key (local_ref C m)) w (snd (add_email_signin C E i m password p w))"
  by (auto simp: add_email_signin_def Let_def split: sum.split prod.split
      intro!: dstep_save_verified dstep_undo_attach dest!: dstep_attach)

lemma move_email_directory:
  "dstep i (ref_key (local_ref C m)) w (snd (move_email_signin C E i previous m p w))"
  by (auto simp: move_email_signin_def Let_def split: sum.split prod.split
      intro!: dstep_save_verified dstep_undo_attach dest!: dstep_attach intro: dstep_trans [OF _ dstep_detach])

lemma verifyEmail_directory:
  assumes "verifyEmailAndGetExternal C E vid secret w = (r, w')"
  shows "aw_directory w' = aw_directory w
    \<or> (\<exists>c. live_challenge C E vid secret SignupEmail w c
         \<and> dstep (vc_identity c) (ref_key (local_ref C (vc_destination c))) w w')"
proof -
  obtain r1 w1 where step: "account_consume C E vid secret SignupEmail None w = (r1, w1)" by fastforce
  then show ?thesis
  proof (cases rule: account_consume_cases)
    case (refused e repo)
    with assms step show ?thesis by (auto simp: verifyEmailAndGetExternal_def)
  next
    case (accepted c)
    have "dstep (vc_identity c) (ref_key (local_ref C (vc_destination c))) w1 w'"
      using assms step accepted(1)
      by (auto simp: verifyEmailAndGetExternal_def Let_def split: sum.splits prod.splits if_splits
          intro!: dstep_undo_attach dest!: dstep_attach)
    with accepted show ?thesis by auto
  qed
qed

lemma completePhone_directory:
  assumes "completePhoneVerification C E i vid secret w = (r, w')"
  shows "aw_directory w' = aw_directory w
    \<or> (\<exists>c. live_challenge C E vid secret VerifyPhone w c \<and> vc_identity c = i
         \<and> dstep i (ac_phoneProvider C, StrongId (vc_destination c)) w w')"
proof -
  obtain r1 w1 where step: "account_consume C E vid secret VerifyPhone None w = (r1, w1)" by fastforce
  then show ?thesis
  proof (cases rule: account_consume_cases)
    case (refused e repo)
    with assms step show ?thesis by (auto simp: completePhoneVerification_def)
  next
    case (accepted c)
    let ?e = "plain_ref (ac_phoneProvider C) (StrongId (vc_destination c))"
    have k: "ref_key ?e = (ac_phoneProvider C, StrongId (vc_destination c))" by (simp add: ref_key_def)
    have "aw_directory w' = aw_directory w1 \<or> vc_identity c = i \<and> dstep i (ref_key ?e) w1 w'"
      using assms step accepted(1)
      by (auto simp: completePhoneVerification_def Let_def release_email_def split: sum.splits prod.splits if_splits
          intro!: dstep_undo_attach dest!: dstep_attach)
    with accepted show ?thesis unfolding k by auto
  qed
qed

lemma completeEmail_directory:
  assumes "completeEmailChange C E i vid secret password w = (r, w')"
  shows "aw_directory w' = aw_directory w
    \<or> (\<exists>c. live_challenge C E vid secret ChangeEmail w c \<and> vc_identity c = i
         \<and> dstep i (ref_key (local_ref C (vc_destination c))) w w')"
proof -
  obtain r1 w1 where step: "account_consume C E vid secret ChangeEmail (Some i) w = (r1, w1)" by fastforce
  then show ?thesis
  proof (cases rule: account_consume_cases)
    case (refused e repo)
    with assms step show ?thesis by (auto simp: completeEmailChange_def split: if_splits option.splits)
  next
    case (accepted c)
    then have i: "vc_identity c = i" by simp
    let ?k = "ref_key (local_ref C (vc_destination c))"
    have w': "w' = snd (completeEmailChange C E i vid secret password w)" using assms by simp
    have "w' = w \<or> dstep i ?k w1 w'"
      unfolding w'
      by (auto simp: completeEmailChange_def step accepted(1) i Let_def
          add_email_directory move_email_directory split: sum.split option.split intro!: dstep_save_verified)
    with accepted i show ?thesis by auto
  qed
qed

section \<open>Linking takes a proof of control\<close>

text \<open>The secret a call presents, and the identity it speaks for.\<close>

fun presented :: "account_call \<Rightarrow> (VerificationId \<times> string \<times> VerificationPurpose) option" where
  "presented (VerifyEmail vid secret) = Some (vid, secret, SignupEmail)"
| "presented (CompleteEmailChange i vid secret password) = Some (vid, secret, ChangeEmail)"
| "presented (CompletePhone i vid secret) = Some (vid, secret, VerifyPhone)"
| "presented (CompleteReset vid secret password) = Some (vid, secret, PasswordReset)"
| "presented _ = None"

fun speaks_for :: "account_call \<Rightarrow> IdentityId \<Rightarrow> bool" where
  "speaks_for (CompleteEmailChange j vid secret password) i = (i = j)"
| "speaks_for (CompletePhone j vid secret) i = (i = j)"
| "speaks_for _ i = True"

definition challenge_key :: "AccountConfig \<Rightarrow> VerificationChallenge \<Rightarrow> RefKey" where
  "challenge_key C c =
     (if vc_purpose c = VerifyPhone then ac_phoneProvider C else ac_localProvider C, StrongId (vc_destination c))"

lemma live_challenge_key:
  "live_challenge C E vid secret purpose w c \<Longrightarrow> challenge_key C c =
     (if purpose = VerifyPhone then ac_phoneProvider C else ac_localProvider C, StrongId (vc_destination c))"
  by (simp add: live_challenge_def challenge_key_def)

lemma account_step_directory:
  assumes "account_step C E call w = Some w'"
  shows "aw_directory w' = aw_directory w
    \<or> (\<exists>vid secret purpose c. presented call = Some (vid, secret, purpose) \<and> purpose \<noteq> PasswordReset
         \<and> live_challenge C E vid secret purpose w c \<and> speaks_for call (vc_identity c)
         \<and> dstep (vc_identity c) (challenge_key C c) w w')"
proof (cases call)
  case (VerifyEmail vid secret)
  obtain r where "verifyEmailAndGetExternal C E vid secret w = (r, w')"
    using assms VerifyEmail by (auto simp: verifyEmail_def split: prod.splits sum.splits)
  from verifyEmail_directory [OF this] show ?thesis
    unfolding VerifyEmail by (auto simp: live_challenge_key ref_key_def)
next
  case (CompleteEmailChange i vid secret password)
  then have "completeEmailChange C E i vid secret password w = (fst (completeEmailChange C E i vid secret password w), w')"
    using assms by auto
  from completeEmail_directory [OF this] show ?thesis
    unfolding CompleteEmailChange by (auto simp: live_challenge_key ref_key_def)
next
  case (CompletePhone i vid secret)
  then have "completePhoneVerification C E i vid secret w = (fst (completePhoneVerification C E i vid secret w), w')"
    using assms by auto
  from completePhone_directory [OF this] show ?thesis
    unfolding CompletePhone by (auto simp: live_challenge_key)
qed (use assms in \<open>auto simp: self_service_directory dest: signup_directory begin_directory completeTotp_directory\<close>)

section \<open>Changes of the second factor\<close>

definition totp_of :: "LocalAccounts \<Rightarrow> ExternalSubject \<Rightarrow> TotpSecret option" where
  "totp_of m subject = Option.bind (map_of m subject) la_totp"

text \<open>Every second factor of \<open>m\<close> is still there in \<open>m'\<close>.\<close>

definition factors_kept :: "LocalAccounts \<Rightarrow> LocalAccounts \<Rightarrow> bool" where
  "factors_kept m m' \<longleftrightarrow> (\<forall>subject secret. totp_of m subject = Some secret \<longrightarrow> totp_of m' subject = Some secret)"

lemma factors_kept_refl [simp]: "factors_kept m m"
  by (simp add: factors_kept_def)

lemma factors_kept_eq: "map_of m' = map_of m \<Longrightarrow> factors_kept m m'"
  by (simp add: factors_kept_def totp_of_def)

lemma factors_kept_password [simp]: "factors_kept m (omap_modify subject (la_password_update f) m)"
  by (auto simp: factors_kept_def totp_of_def map_of_modify split: bind_splits)

lemma enrollPending_factors:
  assumes "enrollPending L E i subject password None m = (r, m')" "omap_ok m"
  shows "factors_kept m m'" "r = ok \<Longrightarrow> factors_kept m (snd (removePending j subject m'))" "r \<noteq> ok \<Longrightarrow> m' = m"
proof -
  have emplaced: "factors_kept m (omap_emplace subject a m) \<and> factors_kept m (omap_erase subject (omap_emplace subject a m))"
    if "\<not> omap_contains m subject" for a
  proof -
    have "map_of m subject = None" using that by (simp add: omap_contains_def)
    then show ?thesis
      using om.find_emplace_new [OF assms(2)] om.erase_emplace [OF assms(2)]
      by (auto simp: factors_kept_def totp_of_def split: bind_splits if_splits)
  qed
  then show "factors_kept m m'" "r = ok \<Longrightarrow> factors_kept m (snd (removePending j subject m'))" "r \<noteq> ok \<Longrightarrow> m' = m"
    using assms(1) by (auto simp: enrollPending_def removePending_def split: if_splits sum.splits option.splits)
qed

lemma undo_accounts [simp]:
  "aw_accounts (undo_reservation e j w) = aw_accounts w" "aw_accounts (undo_attach e j w) = aw_accounts w"
  "aw_accounts (undo_verified m t p w) = aw_accounts w" "aw_accounts (undo_identity C j w) = aw_accounts w"
  "aw_accounts (undo_pending j x w) = snd (removePending j x (aw_accounts w))"
  "aw_accounts (undo_rebind j x y w) = snd (rebindSubject j x y (aw_accounts w))"
  by (simp_all add: undo_reservation_def undo_attach_def undo_verified_def undo_identity_def undo_pending_def undo_rebind_def)

lemma signup_factors:
  assumes "signup C E email password name w = Some (r, w')" "omap_ok (aw_accounts w)"
  shows "factors_kept (aw_accounts w) (aw_accounts w')"
proof -
  note enroll = enrollPending_factors [OF _ assms(2)]
  have "factors_kept (aw_accounts w) (aw_accounts w')" if "signup_existing C E m password i w = Some (r, w')" for m i
    using that by (auto simp: signup_existing_def Let_def split: sum.splits prod.splits option.splits if_splits
        dest!: account_issue_directory dest: enroll)
  moreover have "aw_accounts w' = aw_accounts w1" if "signup_dispatch C E i m w1 = Some (r, w')" for m i w1
    using that by (auto simp: signup_dispatch_def split: sum.splits prod.splits option.splits
        dest!: account_issue_directory)
  then have "factors_kept (aw_accounts w) (aw_accounts w')" if "signup_new C E m password name w = Some (r, w')" for m
    using that by (auto simp: signup_new_def Let_def split: sum.splits prod.splits dest: enroll)
  ultimately show ?thesis
    using assms(1) by (auto simp: signup_def split: sum.splits prod.splits option.splits if_splits)
qed

lemma begin_accounts:
  "resendSignupVerification C E email w = Some (r, w') \<Longrightarrow> aw_accounts w' = aw_accounts w"
  "beginEmailChange C E i email w = Some (r, w') \<Longrightarrow> aw_accounts w' = aw_accounts w"
  "beginPhoneVerification C E i email w = Some (r, w') \<Longrightarrow> aw_accounts w' = aw_accounts w"
  "beginPasswordReset C E email w = Some (r, w') \<Longrightarrow> aw_accounts w' = aw_accounts w"
  by (auto simp: resendSignupVerification_def beginEmailChange_def beginPhoneVerification_def beginPasswordReset_def
      Let_def split: sum.splits prod.splits option.splits if_splits dest!: account_issue_directory)

lemma attachVerified_accounts: "attachVerified E i e w = (r, w1) \<Longrightarrow> aw_accounts w1 = aw_accounts w"
  by (auto simp: attachVerified_def split: sum.splits prod.splits)

lemma release_accounts [simp]: "aw_accounts (snd (release_email e i w)) = aw_accounts w"
  by (simp add: release_email_def case_prod_unfold)

lemma verify_accounts:
  "aw_accounts (snd (verifyEmail C E vid secret w)) = aw_accounts w"
  "aw_accounts (snd (completePhoneVerification C E i vid secret w)) = aw_accounts w"
  "aw_accounts (snd (updateProfile E i a b c d f w)) = aw_accounts w"
  "aw_accounts (snd (beginTotpEnrollment C E i password level w)) = aw_accounts w"
  by (auto simp: verifyEmail_def verifyEmailAndGetExternal_def completePhoneVerification_def updateProfile_def
      beginTotpEnrollment_def Let_def split: sum.split prod.split option.split
      dest!: account_consume_directory attachVerified_accounts)

lemma password_factors:
  "factors_kept (aw_accounts w) (aw_accounts (snd (completePasswordReset C E vid secret password w)))"
  "factors_kept (aw_accounts w) (aw_accounts (snd (account_confirmPasswordUpgrade C E i password w)))"
  by (auto simp: completePasswordReset_def account_confirmPasswordUpgrade_def confirmPasswordUpgrade_def
      changePassword_def unknown_account_def Let_def split: sum.split prod.split option.split
      dest!: account_consume_directory)

definition factors_moved :: "ExternalSubject \<Rightarrow> ExternalSubject \<Rightarrow> LocalAccounts \<Rightarrow> LocalAccounts \<Rightarrow> bool" where
  "factors_moved previous replacement m m' \<longleftrightarrow>
     (\<forall>subject secret. totp_of m subject = Some secret \<longrightarrow> totp_of m' subject = Some secret
        \<or> (subject = previous \<and> totp_of m' replacement = Some secret))"

lemma factors_moved_kept: "factors_kept m m' \<Longrightarrow> factors_moved a b m m'"
  by (simp add: factors_kept_def factors_moved_def)

lemma rebind_eq:
  assumes "rebindSubject i previous replacement m = (ok, m')" "omap_ok m"
  shows "\<exists>a. map_of m previous = Some a \<and> map_of m replacement = None \<and> omap_ok m'
    \<and> map_of m' = (map_of m)(previous := None, replacement \<mapsto> a\<lparr>la_identity := Some i\<rparr>)"
  using assms by (auto simp: rebindSubject_def omap_contains_def omap_ok_erase omap_ok_emplace map_of_erase
      map_of_emplace fun_eq_iff split: if_splits option.splits)

lemma rebind_failed: "rebindSubject i previous replacement m = (Inl e, m') \<Longrightarrow> m' = m"
  by (auto simp: rebindSubject_def split: if_splits option.splits)

lemma rebind_factors:
  assumes "rebindSubject i previous replacement m = (ok, m')" "omap_ok m"
  shows "factors_moved previous replacement m m'"
    "factors_moved previous replacement m (snd (rebindSubject i replacement previous m'))"
proof -
  obtain a where m': "map_of m previous = Some a" "map_of m replacement = None" "omap_ok m'"
      "map_of m' = (map_of m)(previous := None, replacement \<mapsto> a\<lparr>la_identity := Some i\<rparr>)"
    using rebind_eq [OF assms] by auto
  then show moved: "factors_moved previous replacement m m'"
    by (auto simp: factors_moved_def totp_of_def)
  obtain r n where undone: "rebindSubject i replacement previous m' = (r, n)"
    by fastforce
  show "factors_moved previous replacement m (snd (rebindSubject i replacement previous m'))"
  proof (cases r)
    case (Inl e)
    with undone moved show ?thesis using rebind_failed by fastforce
  next
    case (Inr u)
    then have "map_of n = (map_of m)(previous \<mapsto> a\<lparr>la_identity := Some i\<rparr>)"
      using rebind_eq [OF _ m'(3)] undone m' by (fastforce simp: fun_eq_iff)
    with undone m'(1) show ?thesis by (auto simp: factors_moved_def totp_of_def)
  qed
qed

lemma save_verified_accounts:
  assumes "P (aw_accounts (undo w))" "\<And>x. P (aw_accounts (undo (w\<lparr>aw_profiles := x\<rparr>)))"
    "\<And>x. P (aw_accounts (snd (continue (w\<lparr>aw_profiles := x\<rparr>))))"
  shows "P (aw_accounts (snd (save_verified_email m t p undo e j continue w)))"
  using assms by (auto simp: save_verified_email_def split: sum.split prod.split)

lemmas save_verified_factors = save_verified_accounts [where P = "factors_kept m" for m]
  save_verified_accounts [where P = "factors_moved a b m" for a b m]

lemma add_email_factors:
  assumes "omap_ok (aw_accounts w)"
  shows "factors_kept (aw_accounts w) (aw_accounts (snd (add_email_signin C E i m password p w)))"
  using enrollPending_factors [OF _ assms]
  by (auto simp: add_email_signin_def Let_def split: sum.split prod.split
      intro!: save_verified_factors dest!: attachVerified_accounts)

lemma move_email_factors:
  assumes "omap_ok (aw_accounts w)"
  shows "factors_moved previous (StrongId m) (aw_accounts w)
    (aw_accounts (snd (move_email_signin C E i (id_value previous) m p w)))"
  using rebind_factors [OF _ assms]
  by (auto simp: move_email_signin_def Let_def factors_moved_kept split: sum.split prod.split
      intro!: save_verified_factors dest!: attachVerified_accounts dest: rebind_failed)

lemma completeEmail_factors:
  assumes "omap_ok (aw_accounts w)" "completeEmailChange C E i vid secret password w = (r, w')"
    and "totp_of (aw_accounts w) subject = Some seed" "totp_of (aw_accounts w') subject \<noteq> Some seed"
  shows "\<exists>c. live_challenge C E vid secret ChangeEmail w c \<and> vc_identity c = i
    \<and> localSubject C i w = Inr (Some subject) \<and> totp_of (aw_accounts w') (StrongId (vc_destination c)) = Some seed"
proof -
  obtain r1 w1 where step: "account_consume C E vid secret ChangeEmail (Some i) w = (r1, w1)" by fastforce
  have w': "w' = snd (completeEmailChange C E i vid secret password w)" using assms(2) by simp
  show ?thesis
    using step
  proof (cases rule: account_consume_cases)
    case (refused e repo)
    then have "aw_accounts w' = aw_accounts w"
      using step unfolding w' by (simp add: completeEmailChange_def split: option.split)
    with assms show ?thesis by simp
  next
    case (accepted c)
    then have i: "vc_identity c = i" by simp
    have same: "aw_accounts w1 = aw_accounts w" "aw_directory w1 = aw_directory w" using accepted(4) by simp_all
    have "factors_kept (aw_accounts w) (aw_accounts w')
        \<or> (\<exists>x. localSubject C i w = Inr (Some x) \<and> factors_moved x (StrongId (vc_destination c)) (aw_accounts w) (aw_accounts w'))"
      using move_email_factors [of w1] add_email_factors [of w1] assms(1)
      unfolding w'
      by (auto simp: completeEmailChange_def localSubject_def step accepted(1) i Let_def same
          split: sum.split option.split intro!: save_verified_factors)
    with assms(3,4) accepted(2) i show ?thesis
      unfolding factors_kept_def factors_moved_def by blast
  qed
qed

definition confirmed_enrolment ::
    "AccountConfig \<Rightarrow> env \<Rightarrow> AccountWorld \<Rightarrow> IdentityId \<Rightarrow> TotpEnrollmentId \<Rightarrow> string \<Rightarrow> PendingTotpEnrollment \<Rightarrow> bool" where
  "confirmed_enrolment C E w i eid code p \<longleftrightarrow>
     map_of (aw_pendingTotp w) eid = Some p \<and> pt_identity p = i \<and> env_now E 0 < pt_expiresAt p
     \<and> (\<exists>step. verifyTotp (lc_mac (ac_local C)) (pt_secret p) (lc_totpPolicy (ac_local C)) code (env_now E 1) None
           = Some (Inr step))"

lemma replaceTotp_factors:
  "replaceTotp L x seed code now m = Some (Inl e, m') \<Longrightarrow> m' = m"
  "replaceTotp L x seed code now m = Some (Inr u, m') \<Longrightarrow> totp_of m' = (totp_of m)(x \<mapsto> seed)
     \<and> (\<exists>step. verifyTotp (lc_mac L) seed (lc_totpPolicy L) code now None = Some (Inr step))"
  by (auto simp: replaceTotp_def totp_of_def map_of_modify fun_eq_iff split: option.splits sum.splits)

lemma count_attempt_accounts [simp]: "aw_accounts (count_attempt e eid p w) = aw_accounts w"
  by (simp add: count_attempt_def forget_pending_def)

lemma forget_accounts [simp]: "aw_accounts (forget_pending eid w) = aw_accounts w"
  by (simp add: forget_pending_def)

lemma completeTotp_factors:
  assumes "completeTotpEnrollment C E i eid code level w = Some (r, w')"
    and "totp_of (aw_accounts w) subject = Some seed" "totp_of (aw_accounts w') subject \<noteq> Some seed"
  shows "meetsAssurance level Ial2 \<and> (\<exists>p. confirmed_enrolment C E w i eid code p \<and> pt_subject p = subject
    \<and> totp_of (aw_accounts w') subject = Some (pt_secret p))"
proof -
  have "hasTotp subject (aw_accounts w) = Inr True"
    using assms(2) by (auto simp: hasTotp_def totp_of_def split: bind_splits)
  then show ?thesis
    using assms(1,2,3)
    by (auto simp: completeTotpEnrollment_def confirmed_enrolment_def not_le
        split: if_splits option.splits sum.splits prod.splits dest!: replaceTotp_factors)
qed

lemma disableTotp_factors:
  assumes "totp_of (aw_accounts w) subject = Some seed"
    and "totp_of (aw_accounts (snd (disableTotp C E i password level w))) subject \<noteq> Some seed"
  shows "meetsAssurance level Ial2 \<and> localSubject C i w = Inr (Some subject)
    \<and> verifyPassword (ac_local C) E subject password (aw_accounts w) = ok
    \<and> aw_codes (snd (disableTotp C E i password level w)) = snd (recovery_revoke i (aw_codes w))"
  using assms
  by (auto simp: disableTotp_def removeTotp_def totp_of_def map_of_modify Let_def
      split: if_splits option.splits sum.splits prod.splits)

section \<open>The guarantees\<close>

text \<open>
  C29. External identities are linked only to whoever proves control of them. Whatever operation of the
  account service runs, if the owner of an external identity is not what it was, then the call
  presented the secret of a live challenge (stored, unexpired, with attempts left, issued for that
  purpose), the change concerns the identity of that challenge, which is the caller where the
  operation has one, and either it linked exactly the challenge's destination, which nobody owned,
  or it removed an association of that same identity.
\<close>

theorem linking_needs_proof:
  assumes "account_step C E call w = Some w'" "directory_inv (aw_directory w)"
    and "ownerOf external (aw_directory w') \<noteq> ownerOf external (aw_directory w)"
  shows "\<exists>vid secret purpose c. presented call = Some (vid, secret, purpose) \<and> purpose \<noteq> PasswordReset
    \<and> live_challenge C E vid secret purpose w c \<and> speaks_for call (vc_identity c)
    \<and> (ownerOf external (aw_directory w) = Inr None \<and> ownerOf external (aw_directory w') = Inr (Some (vc_identity c))
          \<and> ref_key external = challenge_key C c
       \<or> ownerOf external (aw_directory w) = Inr (Some (vc_identity c)) \<and> ownerOf external (aw_directory w') = Inr None)"
proof -
  have "aw_directory w' \<noteq> aw_directory w" using assms(3) by auto
  then obtain vid secret purpose c where c: "presented call = Some (vid, secret, purpose)" "purpose \<noteq> PasswordReset"
      "live_challenge C E vid secret purpose w c" "speaks_for call (vc_identity c)"
    and "dstep (vc_identity c) (challenge_key C c) w w'"
    using account_step_directory [OF assms(1)] by blast
  then have "owner_change (vc_identity c) (challenge_key C c) (owner_map (aw_directory w)) (owner_map (aw_directory w'))"
    using assms(2) by (simp add: dstep_def)
  with c assms(3) show ?thesis
    unfolding ownerOf_map owner_change_def by (metis (no_types, lifting))
qed

text \<open>
  C30. A second factor is guarded. Whatever operation of the account service runs, an account's
  authenticator secret is still the account's secret afterwards, unless the call confirms, in an
  IAL2 session, an enrolment pending for that very account with a code of the new secret; or
  disables it, in an IAL2 session, with the account's password, revoking the recovery codes as well;
  or completes a change of the sign-in address with the secret of a live challenge, and then the
  account is found with its authenticator under the new address.
\<close>

theorem second_factor_guarded:
  assumes "account_step C E call w = Some w'" "omap_ok (aw_accounts w)"
    and "totp_of (aw_accounts w) subject = Some seed"
  shows "totp_of (aw_accounts w') subject = Some seed
    \<or> (\<exists>i eid code level p. call = CompleteTotp i eid code level \<and> meetsAssurance level Ial2
         \<and> confirmed_enrolment C E w i eid code p \<and> pt_subject p = subject
         \<and> totp_of (aw_accounts w') subject = Some (pt_secret p))
    \<or> (\<exists>i password level. call = DisableTotp i password level \<and> meetsAssurance level Ial2
         \<and> localSubject C i w = Inr (Some subject) \<and> verifyPassword (ac_local C) E subject password (aw_accounts w) = ok
         \<and> aw_codes w' = snd (recovery_revoke i (aw_codes w)))
    \<or> (\<exists>i vid secret password c. call = CompleteEmailChange i vid secret password
         \<and> live_challenge C E vid secret ChangeEmail w c \<and> vc_identity c = i \<and> localSubject C i w = Inr (Some subject)
         \<and> totp_of (aw_accounts w') (StrongId (vc_destination c)) = Some seed)"
proof (cases "totp_of (aw_accounts w') subject = Some seed")
  case changed: False
  have kept: "\<not> factors_kept (aw_accounts w) (aw_accounts w')"
    using assms(3) changed unfolding factors_kept_def by blast
  show ?thesis
  proof (cases call)
    case (CompleteTotp i eid code level)
    with assms(1) obtain r where "completeTotpEnrollment C E i eid code level w = Some (r, w')" by auto
    from completeTotp_factors [OF this assms(3) changed] show ?thesis unfolding CompleteTotp by blast
  next
    case (DisableTotp i password level)
    with assms(1) have "w' = snd (disableTotp C E i password level w)" by simp
    with disableTotp_factors [OF assms(3), of C E i password level] changed show ?thesis
      unfolding DisableTotp by blast
  next
    case (CompleteEmailChange i vid secret password)
    with assms(1) have "completeEmailChange C E i vid secret password w = (fst (completeEmailChange C E i vid secret password w), w')"
      by auto
    from completeEmail_factors [OF assms(2) this assms(3) changed] show ?thesis
      unfolding CompleteEmailChange by blast
  qed (use assms(1,2) kept in \<open>auto simp: verify_accounts password_factors dest: signup_factors begin_accounts\<close>)
qed simp

definition reset_permitted ::
    "AccountConfig \<Rightarrow> env \<Rightarrow> VerificationId \<Rightarrow> string \<Rightarrow> string \<Rightarrow> AccountWorld \<Rightarrow> VerificationChallenge \<Rightarrow> PasswordHash \<Rightarrow> bool" where
  "reset_permitted C E vid secret password w c h \<longleftrightarrow>
     8 \<le> length password \<and> length password \<le> 1024 \<and> live_challenge C E vid secret PasswordReset w c
     \<and> ownerOf (local_ref C (vc_destination c)) (aw_directory w) = Inr (Some (vc_identity c))
     \<and> lc_hash (ac_local C) (env_from 1 E) password = Inr h
     \<and> map_of (aw_accounts w) (StrongId (vc_destination c)) \<noteq> None"

lemma live_challenge_unique:
  "live_challenge C E vid secret purpose w c \<Longrightarrow> live_challenge C E vid secret purpose w c' \<Longrightarrow> c' = c"
  by (auto simp: live_challenge_def)

lemma live_challenge_spent:
  assumes "account_repository_inv (aw_repository w)" "aw_repository w' = spent vid w"
  shows "\<not> live_challenge C E vid secret purpose w' c"
  using assms by (simp add: live_challenge_def map_of_erase account_repository_invD(1))

lemma service_revokeAll_eq:
  "service_revokeAll E i r = (Inr (length (filter (\<lambda>(sid, s). session_identity s = i \<and> session_state s = SessionState.Active)
      (repo_sessions r))), r\<lparr>repo_sessions := omap_map_values (revoke_if_owned i (env_now E 0)) (repo_sessions r)\<rparr>)"
  by (simp add: service_revokeAll_def sessions_revokeAll_eq)

lemma completePasswordReset_permitted:
  assumes "reset_permitted C E vid secret password w c h"
  shows "completePasswordReset C E vid secret password w =
    (ok, w\<lparr>aw_repository := spent vid w,
           aw_accounts := omap_modify (StrongId (vc_destination c)) (la_password_update (\<lambda>_. h)) (aw_accounts w),
           aw_sessions := snd (service_revokeAll (env_from 2 E) (vc_identity c) (aw_sessions w))\<rparr>)"
proof -
  have "account_consume C E vid secret PasswordReset None w = (Inr c, w\<lparr>aw_repository := spent vid w\<rparr>)"
    using assms by (simp add: account_consume_result reset_permitted_def)
  with assms show ?thesis
    by (auto simp: completePasswordReset_def reset_permitted_def changePassword_def service_revokeAll_eq)
qed

lemma same_repository [simp]: "\<exists>repo. w = w\<lparr>aw_repository := repo\<rparr>"
  by (rule exI [of _ "aw_repository w"]) simp

lemma same_accounts [simp]: "w\<lparr>aw_repository := x, aw_accounts := aw_accounts w\<rparr> = w\<lparr>aw_repository := x\<rparr>"
  by (cases w) simp

lemma completePasswordReset_refused:
  assumes "\<nexists>c h. reset_permitted C E vid secret password w c h"
  shows "\<exists>e repo. completePasswordReset C E vid secret password w = (Inl e, w\<lparr>aw_repository := repo\<rparr>)"
proof -
  obtain r1 w1 where step: "account_consume C E vid secret PasswordReset None w = (r1, w1)" by fastforce
  then show ?thesis
  proof (cases rule: account_consume_cases)
    case (refused e repo)
    with step show ?thesis by (auto simp: completePasswordReset_def fail_msg_def)
  next
    case (accepted c)
    have "\<not> reset_permitted C E vid secret password w c h" for h using assms by blast
    then show ?thesis
      using accepted step unfolding reset_permitted_def
      by (cases "lc_hash (ac_local C) (env_from 1 E) password")
        (auto simp: completePasswordReset_def changePassword_def fail_msg_def Let_def split: option.splits)
  qed
qed

text \<open>
  A password is reset only through its ceremony, and completely. The call succeeds exactly when the
  new password has an accepted length and can be hashed, the presented secret is that of a live reset
  challenge, the challenge's address still belongs to the challenge's identity and has an account.
  Then that account's password, and no other account, is changed; no session of the identity is left
  active and every session of other identities is as before; no account is linked or unlinked; and
  the same challenge never resets again. A refused call changes no account and no session.
\<close>

theorem password_reset_exact:
  assumes "account_repository_inv (aw_repository w)" "completePasswordReset C E vid secret password w = (r, w')"
  shows "(r = ok \<longleftrightarrow> (\<exists>c h. reset_permitted C E vid secret password w c h))
    \<and> (r \<noteq> ok \<longrightarrow> aw_accounts w' = aw_accounts w \<and> aw_sessions w' = aw_sessions w)
    \<and> aw_directory w' = aw_directory w
    \<and> (reset_permitted C E vid secret password w c h \<longrightarrow>
         map_of (aw_accounts w') = (map_of (aw_accounts w))(StrongId (vc_destination c) :=
           map_option (\<lambda>a. a\<lparr>la_password := h\<rparr>) (map_of (aw_accounts w) (StrongId (vc_destination c))))
         \<and> (map_of (repo_sessions (aw_sessions w')) sid = Some s \<and> session_identity s = vc_identity c \<longrightarrow>
              session_state s \<noteq> SessionState.Active)
         \<and> (map_of (repo_sessions (aw_sessions w)) sid = Some s \<and> session_identity s \<noteq> vc_identity c \<longrightarrow>
              map_of (repo_sessions (aw_sessions w')) sid = Some s)
         \<and> \<not> succeeded (fst (completePasswordReset C E' vid secret' password' w')))"
proof (cases "\<exists>c h. reset_permitted C E vid secret password w c h")
  case False
  then show ?thesis using completePasswordReset_refused [OF False] assms(2) by auto
next
  case True
  then obtain c0 h0 where permitted: "reset_permitted C E vid secret password w c0 h0" by blast
  have same: "c = c0 \<and> h = h0" if "reset_permitted C E vid secret password w c h"
    using that permitted live_challenge_unique unfolding reset_permitted_def by (metis Inr_inject)
  have w': "r = ok" "w' = w\<lparr>aw_repository := spent vid w,
      aw_accounts := omap_modify (StrongId (vc_destination c0)) (la_password_update (\<lambda>_. h0)) (aw_accounts w),
      aw_sessions := snd (service_revokeAll (env_from 2 E) (vc_identity c0) (aw_sessions w))\<rparr>"
    using completePasswordReset_permitted [OF permitted] assms(2) by simp_all
  have repo: "aw_repository w' = spent vid w" unfolding w' by simp
  have "\<not> succeeded (fst (completePasswordReset C E' vid secret' password' w'))"
    using completePasswordReset_refused [of C E' vid secret' password' w'] live_challenge_spent [OF assms(1) repo]
    unfolding reset_permitted_def by auto
  moreover have "map_of (aw_accounts w') = (map_of (aw_accounts w))(StrongId (vc_destination c0) :=
      map_option (\<lambda>a. a\<lparr>la_password := h0\<rparr>) (map_of (aw_accounts w) (StrongId (vc_destination c0))))"
    unfolding w' by (simp add: map_of_modify)
  moreover have "session_state s \<noteq> SessionState.Active"
    if "map_of (repo_sessions (aw_sessions w')) sid = Some s" "session_identity s = vc_identity c0"
    using that sessions_revokeAll_left [of "vc_identity c0"] unfolding w' service_revokeAll_def by auto
  moreover have "map_of (repo_sessions (aw_sessions w')) sid = Some s"
    if "map_of (repo_sessions (aw_sessions w)) sid = Some s" "session_identity s \<noteq> vc_identity c0"
    using that unfolding w' by (simp add: service_revokeAll_eq map_of_map_values revoke_if_owned_def)
  moreover have "aw_directory w' = aw_directory w" unfolding w' by simp
  ultimately show ?thesis using True same w'(1) by metis
qed

section \<open>Examples\<close>

text \<open>A configuration whose hash library answers, and a world with one account and one challenge.\<close>

definition sample_account_config :: AccountConfig where
  "sample_account_config =
     \<lparr>ac_organization = StrongId ''org'', ac_localProvider = StrongId ''local'', ac_phoneProvider = StrongId ''phone'',
      ac_local = sample_local\<lparr>lc_library := \<lparr>lib_scrypt = \<lambda>_ _ _ _ _ _ _. None,
        lib_sodium = Some \<lparr>sodium_init = True, crypto_pwhash_str = \<lambda>_ _ _. Some sample_stored,
          crypto_pwhash_str_verify = \<lambda>_ _. True, crypto_pwhash_str_needs_rehash = \<lambda>_ _ _. False\<rparr>\<rparr>\<rparr>,
      ac_key = replicate 32 (CHR ''k''),
      ac_policy = \<lparr>ap_emailLifetime = 3600000, ap_phoneLifetime = 600000, ap_resetLifetime = 3600000, ap_maximumAttempts = 5\<rparr>,
      ac_deliver = \<lambda>_. ok\<rparr>"

definition example_challenge :: "VerificationPurpose \<Rightarrow> VerificationChallenge" where
  "example_challenge purpose = \<lparr>vc_id = StrongId ''v1'', vc_identity = StrongId ''alice'', vc_purpose = purpose,
     vc_channel = ChannelEmail, vc_destination = ''a@b.c'', vc_digest = replicate 32 2, vc_createdAt = 0,
     vc_expiresAt = 1000, vc_attempts = 0\<rparr>"

definition example_world :: "VerificationPurpose \<Rightarrow> Directory \<Rightarrow> AccountWorld" where
  "example_world purpose dir =
     \<lparr>aw_identities = [(StrongId ''alice'', \<lparr>owned_organization = StrongId ''org'', owned_identity =
        \<lparr>ident_id = StrongId ''alice'', ident_kind = Human, ident_status = Deactivated, ident_createdAt = 0\<rparr>\<rparr>)],
      aw_directory = dir,
      aw_profiles = [(StrongId ''alice'', \<lparr>profile_identity = StrongId ''alice'', profile_displayName = None,
        profile_preferredUsername = None, profile_email = Some ''a@b.c'', profile_emailVerified = False,
        profile_phoneNumber = None, profile_phoneNumberVerified = False, profile_locale = None,
        profile_pictureUrl = None, profile_avatarSource = ''auto'', profile_createdAt = 0, profile_updatedAt = 0\<rparr>)],
      aw_accounts = [(StrongId ''a@b.c'', \<lparr>la_identity = Some (StrongId ''alice''), la_password = sample_stored,
        la_totp = Some (replicate 20 7), la_lastAcceptedTotpStep = None\<rparr>)],
      aw_codes = [],
      aw_repository = \<lparr>acct_challenges = [(StrongId ''v1'', \<lparr>cs_challenge = example_challenge purpose, cs_attempts = 0\<rparr>)],
        acct_reservations = [((StrongId ''local'', StrongId ''a@b.c''),
          \<lparr>resv_identity = StrongId ''alice'', resv_expiresAt = 1000\<rparr>)]\<rparr>,
      aw_sessions = empty_sessions, aw_pendingTotp = []\<rparr>"

lemma example_live:
  "live_challenge sample_account_config sample_env (StrongId ''v1'') ''s'' purpose (example_world purpose dir)
     (example_challenge purpose)"
  by (simp add: live_challenge_def example_world_def example_challenge_def sample_account_config_def
      verification_digest_def hmacSha256_def int_max_def sample_env_def)

lemma example_consume:
  "account_consume sample_account_config sample_env (StrongId ''v1'') ''s'' purpose None (example_world purpose dir)
   = (Inr (example_challenge purpose), (example_world purpose dir)\<lparr>aw_repository := spent (StrongId ''v1'') (example_world purpose dir)\<rparr>)"
  by (simp add: account_consume_result example_live)

theorem linking_needs_proof_witness:
  "\<exists>w'. account_step sample_account_config sample_env (VerifyEmail (StrongId ''v1'') ''s'')
        (example_world SignupEmail empty_directory) = Some w'
     \<and> ownerOf (local_ref sample_account_config ''a@b.c'') (aw_directory w') = Inr (Some (StrongId ''alice''))
     \<and> (\<exists>c. live_challenge sample_account_config sample_env (StrongId ''v1'') ''s'' SignupEmail
              (example_world SignupEmail empty_directory) c \<and> vc_identity c = StrongId ''alice'')"
proof -
  let ?call = "VerifyEmail (StrongId ''v1'') ''s''"
  let ?w = "example_world SignupEmail empty_directory"
  obtain w' where step: "account_step sample_account_config sample_env ?call ?w = Some w'" by simp
  have owner: "ownerOf (local_ref sample_account_config ''a@b.c'') (aw_directory w') = Inr (Some (StrongId ''alice''))"
    using step
    by (simp add: verifyEmail_def verifyEmailAndGetExternal_def example_consume Let_def)
      (auto simp: example_world_def example_challenge_def
        sample_account_config_def reservedOwner_def ref_key_def requireProfile_def profiles_find_def setEmail_def
        valid_optional_def control_free_def profiles_save_def attachVerified_def Link_request_def
        requireVerification_def markVerified_def complete_def Link_transitionTo_def Link_isExpiredAt_def attach_def
        empty_directory_def identities_changeStatus_def Identity_changeStatus_def releaseSubject_def ownerOf_def
        split: if_splits)
  moreover have "ownerOf (local_ref sample_account_config ''a@b.c'') (aw_directory ?w) = Inr None"
    by (simp add: ownerOf_def example_world_def empty_directory_def)
  moreover have "directory_inv (aw_directory ?w)" by (simp add: example_world_def)
  ultimately show ?thesis
    using linking_needs_proof [OF step, of "local_ref sample_account_config ''a@b.c''"] step by auto
qed

theorem second_factor_guarded_witness:
  "\<exists>w'. account_step sample_account_config sample_env (DisableTotp (StrongId ''alice'') ''password'' Ial1)
        (example_world SignupEmail empty_directory) = Some w'
     \<and> totp_of (aw_accounts w') (StrongId ''a@b.c'') = Some (replicate 20 7)"
proof -
  let ?call = "DisableTotp (StrongId ''alice'') ''password'' Ial1"
  let ?w = "example_world SignupEmail empty_directory"
  obtain w' where step: "account_step sample_account_config sample_env ?call ?w = Some w'" by simp
  have "totp_of (aw_accounts ?w) (StrongId ''a@b.c'') = Some (replicate 20 7)" "omap_ok (aw_accounts ?w)"
    by (simp_all add: example_world_def totp_of_def)
  moreover have "\<not> meetsAssurance Ial1 Ial2" by code_simp
  ultimately show ?thesis
    using second_factor_guarded [OF step] step by blast
qed

theorem password_reset_exact_witness:
  "\<exists>w'. completePasswordReset sample_account_config sample_env (StrongId ''v1'') ''s'' ''new password''
        (example_world PasswordReset \<lparr>dir_owners = [((StrongId ''local'', StrongId ''a@b.c''),
           (local_ref sample_account_config ''a@b.c'', StrongId ''alice''))], dir_presentations = []\<rparr>) = (ok, w')
     \<and> \<not> succeeded (fst (completePasswordReset sample_account_config sample_env (StrongId ''v1'') ''s'' ''new password'' w'))"
proof -
  let ?w = "example_world PasswordReset \<lparr>dir_owners = [((StrongId ''local'', StrongId ''a@b.c''),
           (local_ref sample_account_config ''a@b.c'', StrongId ''alice''))], dir_presentations = []\<rparr>"
  have permitted: "reset_permitted sample_account_config sample_env (StrongId ''v1'') ''s'' ''new password'' ?w
      (example_challenge PasswordReset) sample_stored"
    using example_live
    by (simp add: reset_permitted_def)
      (simp add: ownerOf_def hasher_hash_def hash_argon2id_def hmacSha256_def
        password_length_refused_def int_max_def sample_env_def example_world_def example_challenge_def
        sample_account_config_def ref_key_def sample_local_def)
  have inv: "account_repository_inv (aw_repository ?w)"
    by (simp add: account_repository_inv_def example_world_def example_challenge_def)
  obtain r w' where step: "completePasswordReset sample_account_config sample_env (StrongId ''v1'') ''s'' ''new password'' ?w = (r, w')"
    by fastforce
  from password_reset_exact [OF inv step] permitted step show ?thesis by blast
qed

end
