(* ===== verification/Account_Signup.thy ===== *)
theory Account_Signup
  imports Account_Proofs
begin

text \<open>
  Two further facts about the account service: the numeric code sent by text message is complete,
  uniform and found as soon as the random source has produced enough usable bytes; and an address
  whose signup is never confirmed stays taken after its reservation has lapsed.
\<close>

section \<open>Numeric codes\<close>

definition usable :: "byte list \<Rightarrow> string" where
  "usable bytes = map (\<lambda>b. digit (unat b mod 10)) (filter (\<lambda>b. unat b < 250) bytes)"

lemma usable_simps [simp]:
  "usable [] = []" "usable (b # bs) = (if unat b < 250 then digit (unat b mod 10) # usable bs else usable bs)"
  "usable (bs @ cs) = usable bs @ usable cs"
  by (simp_all add: usable_def)

lemma take_digits_usable:
  "length out < width \<Longrightarrow> take_digits width out bytes = out @ take (width - length out) (usable bytes)"
proof (induction bytes arbitrary: out)
  case (Cons raw bytes)
  show ?case
  proof (cases "unat raw < 250")
    case True
    show ?thesis
    proof (cases "Suc (length out) = width")
      case True
      with \<open>unat raw < 250\<close> show ?thesis by (auto simp: Let_def)
    next
      case False
      with Cons.prems have "Suc (length out) < width" by simp
      with \<open>unat raw < 250\<close> Cons.IH [of "out @ [digit (unat raw mod 10)]"] show ?thesis
        by (simp add: Let_def take_Cons')
    qed
  next
    case False
    with Cons show ?thesis by simp
  qed
qed simp

text \<open>The usable digits of the first \<open>n\<close> draws.\<close>

fun drawn :: "env \<Rightarrow> nat \<Rightarrow> nat \<Rightarrow> nat \<Rightarrow> string Result" where
  "drawn E i width 0 = Inr []"
| "drawn E i width (Suc n) =
     (case randomBytes E i (width * 2) of
        Inl e \<Rightarrow> Inl e
      | Inr bytes \<Rightarrow> (case drawn E (Suc i) width n of Inl e \<Rightarrow> Inl e | Inr ds \<Rightarrow> Inr (usable bytes @ ds)))"

lemma numericCode_loop_drawn:
  "drawn E i width n = Inr ds \<Longrightarrow> width \<le> length out + length ds \<Longrightarrow> length out \<le> width \<Longrightarrow>
   numericCode_loop E i width out = Some (Inr (out @ take (width - length out) ds))"
proof (induction n arbitrary: i out ds)
  case 0
  then show ?case by (simp add: numericCode_loop.simps)
next
  case (Suc n)
  show ?case
  proof (cases "length out < width")
    case False
    then show ?thesis using Suc.prems by (simp add: numericCode_loop.simps)
  next
    case True
    obtain bytes rest where draws: "randomBytes E i (width * 2) = Inr bytes" "drawn E (Suc i) width n = Inr rest"
        "ds = usable bytes @ rest"
      using Suc.prems(1) by (auto split: sum.splits)
    let ?out = "out @ take (width - length out) (usable bytes)"
    have "numericCode_loop E (Suc i) width ?out = Some (Inr (?out @ take (width - length ?out) rest))"
      using Suc.prems draws True by (intro Suc.IH) auto
    moreover have "?out @ take (width - length ?out) rest = out @ take (width - length out) ds"
      using True by (simp add: draws(3) min_def)
    ultimately show ?thesis
      using True draws(1) take_digits_usable [OF True, of bytes]
      by (subst numericCode_loop.simps) simp
  qed
qed

lemma usable_digits: "list_all is_digit_char (usable bytes)"
  by (induction bytes) (simp_all add: digit_char)

lemma drawn_digits: "drawn E i width n = Inr ds \<Longrightarrow> list_all is_digit_char ds"
  by (induction n arbitrary: i ds) (auto simp: usable_digits split: sum.splits)

lemma usable_bytes_of_digit:
  assumes "d < 10"
  shows "card {b :: byte. usable [b] = [digit d]} = 25"
proof -
  let ?f = "\<lambda>k. of_nat (10 * k + d) :: byte"
  have unat: "unat (?f k) = 10 * k + d" if "k < 25" for k
    using that assms by (simp only: unat_of_nat) simp
  have "{b :: byte. usable [b] = [digit d]} = ?f ` {..<25}"
  proof (intro equalityI subsetI)
    fix b :: byte
    assume "b \<in> {b. usable [b] = [digit d]}"
    then have b: "unat b < 250" "unat b mod 10 = d"
      using assms by (simp_all add: digit_inj split: if_splits)
    then have "10 * (unat b div 10) + d = unat b" by (metis mult_div_mod_eq)
    then have "b = ?f (unat b div 10)" by (simp only: of_nat_unat) simp
    with b show "b \<in> ?f ` {..<25}" by (intro image_eqI [where x = "unat b div 10"]) auto
  qed (use unat assms in auto)
  moreover have "inj_on ?f {..<25}"
    by (rule inj_on_inverseI [where g = "\<lambda>b. unat b div 10"]) (use unat assms in auto)
  ultimately show ?thesis by (simp add: card_image)
qed

text \<open>
  C33. The numeric code of a text message. When the bytes of some number of draws contain as many bytes
  below 250 as the code has digits, the loop ends, and the code is the last decimal digits of the
  first of them: exactly as long as asked for, all digits, and each digit stands for 25 of the 250
  accepted byte values, so none is favoured.
\<close>

theorem numeric_code_uniform:
  assumes "drawn E i width n = Inr ds" "width \<le> length ds"
  shows "numericCode E i width = Some (Inr (take width ds)) \<and> length (take width ds) = width
    \<and> list_all is_digit_char (take width ds)
    \<and> (d < 10 \<longrightarrow> card {b :: byte. usable [b] = [digit d]} = 25)"
proof -
  have "numericCode E i width = Some (Inr (take width ds))"
    using numericCode_loop_drawn [OF assms(1), of "[]"] assms(2) by (simp add: numericCode_def)
  moreover have "list_all is_digit_char (take width ds)"
    using drawn_digits [OF assms(1)] by (metis append_take_drop_id list_all_append)
  ultimately show ?thesis using assms(2) usable_bytes_of_digit by simp
qed

theorem numeric_code_uniform_witness:
  "numericCode sample_env 1 8 = Some (Inr ''11111111'')"
proof -
  have draws: "drawn sample_env 1 8 1 = Inr (replicate 16 (CHR ''1''))"
    by (simp add: randomBytes_def sample_env_def int_max_def usable_def digit_def) code_simp
  have "take 8 (replicate 16 (CHR ''1'')) = ''11111111''" by code_simp
  with numeric_code_uniform [OF draws] show ?thesis by simp
qed

section \<open>Abandoned signups\<close>

lemma reserveSubject_ok:
  assumes "reserveSubject e i now till r = (ok, r')" "account_repository_inv r"
  shows "map_of (acct_reservations r') (ref_key e) = Some \<lparr>resv_identity = i, resv_expiresAt = till\<rparr>"
  using assms
  by (auto simp: reserveSubject_def Let_def account_repository_inv_def map_of_modify map_of_emplace omap_ok_erase
      map_of_erase split: if_splits option.splits)

lemma account_issue_reservations:
  "account_issue C E i purpose channel destination lifetime w = Some (r, w1) \<Longrightarrow>
   acct_reservations (aw_repository w1) = acct_reservations (aw_repository w) \<and> aw_accounts w1 = aw_accounts w"
  by (auto simp: account_issue_def Let_def challenges_replace_def split: sum.splits prod.splits option.splits)

lemma enrollPending_enrolled:
  "enrollPending L E i subject password totp m = (ok, m') \<Longrightarrow> omap_ok m \<Longrightarrow> map_of m' subject \<noteq> None"
  by (auto simp: enrollPending_def map_of_emplace omap_contains_def split: if_splits sum.splits option.splits)

lemma enrollPending_taken:
  "map_of m subject \<noteq> None \<Longrightarrow> enrollPending L E i subject password totp m = (r, m') \<Longrightarrow> m' = m \<and> \<not> succeeded r"
  by (auto simp: enrollPending_def omap_contains_def split: if_splits sum.splits)

definition pending_signup :: "AccountConfig \<Rightarrow> env \<Rightarrow> string \<Rightarrow> AccountWorld \<Rightarrow> bool" where
  "pending_signup C E m w \<longleftrightarrow> map_of (aw_accounts w) (StrongId m) \<noteq> None
     \<and> (\<exists>i t. t \<in> {env_now E 2, env_now E 8} \<and> map_of (acct_reservations (aw_repository w)) (ref_key (local_ref C m))
           = Some \<lparr>resv_identity = i, resv_expiresAt = t + ap_emailLifetime (ac_policy C)\<rparr>)"

lemma signup_pending:
  assumes "signup C E email password name w = Some (Inr i, w1)" "omap_ok (aw_accounts w)"
    and "account_repository_inv (aw_repository w)"
  shows "\<exists>m. normalizeEmail email = Inr m \<and> pending_signup C E m w1"
proof -
  note enrolled = enrollPending_enrolled [OF _ assms(2)] and reserved = reserveSubject_ok [OF _ assms(3)]
  have "pending_signup C E m w1" if "signup_existing C E m password j w = Some (Inr i, w1)" for m j
    using that unfolding pending_signup_def
    by (auto simp: signup_existing_def Let_def split: sum.splits prod.splits option.splits if_splits
        dest!: account_issue_reservations enrolled reserved)
  moreover have "acct_reservations (aw_repository w1) = acct_reservations (aw_repository w2) \<and> aw_accounts w1 = aw_accounts w2"
    if "signup_dispatch C E j m w2 = Some (Inr i, w1)" for m j w2
    using that by (auto simp: signup_dispatch_def split: sum.splits prod.splits option.splits
        dest!: account_issue_reservations)
  then have "pending_signup C E m w1" if "signup_new C E m password name w = Some (Inr i, w1)" for m
    using that unfolding pending_signup_def
    by (auto simp: signup_new_def Let_def split: sum.splits prod.splits dest!: enrolled reserved)
  ultimately show ?thesis
    using assms(1) by (auto simp: signup_def split: sum.splits prod.splits option.splits if_splits)
qed

lemma signup_taken:
  assumes "signup C E email password name w = Some (r, w')" "normalizeEmail email = Inr m"
    and "map_of (aw_accounts w) (StrongId m) \<noteq> None"
  shows "\<not> succeeded r \<and> aw_accounts w' = aw_accounts w"
proof -
  note taken = enrollPending_taken [OF assms(3)]
  have "\<not> succeeded r \<and> aw_accounts w' = aw_accounts w" if "signup_existing C E m password j w = Some (r, w')" for j
    using that by (auto simp: signup_existing_def Let_def split: sum.splits prod.splits option.splits if_splits dest!: taken)
  moreover have "\<not> succeeded r \<and> aw_accounts w' = aw_accounts w" if "signup_new C E m password name w = Some (r, w')"
    using that by (auto simp: signup_new_def Let_def split: sum.splits prod.splits dest!: taken)
  ultimately show ?thesis
    using assms(1,2) by (auto simp: signup_def split: sum.splits prod.splits option.splits if_splits)
qed


definition fresh_world :: AccountWorld where
  "fresh_world = \<lparr>aw_identities = [], aw_directory = empty_directory, aw_profiles = [], aw_accounts = [], aw_codes = [],
     aw_repository = empty_account_repository, aw_sessions = empty_sessions, aw_pendingTotp = []\<rparr>"

lemma sample_provider_id: "ac_localProvider sample_account_config = StrongId ''local''"
  by (simp add: sample_account_config_def)

lemma sample_email: "normalizeEmail ''a@b.c'' = Inr ''a@b.c''"
  by code_simp

lemma sample_account_hash:
  "lc_hash (ac_local sample_account_config) (env_from k sample_env) ''password1'' = Inr sample_stored"
  by (simp add: sample_account_config_def sample_local_def hasher_hash_def hash_argon2id_def hmacSha256_def
      password_length_refused_def int_max_def) (simp add: sample_env_def)

lemma sample_challenge_issued:
  assumes "destination \<noteq> []" "length destination \<le> 512" "\<not> StrongId_empty i"
  shows "\<exists>d w1. account_issue sample_account_config (env_from k sample_env) i SignupEmail ChannelEmail destination 3600000 w
    = Some (Inr d, w1)"
proof -
  have secret: "length (toBase64Url (replicate 24 b)) = 32" for b :: byte
    by (simp add: length_toBase64Url)
  have random: "randomTokenBase64Url (env_from k sample_env) j 24 = Inr (toBase64Url (replicate 24 (of_nat (k + j))))" for j
    by (simp add: randomTokenBase64Url_def randomBytes_def int_max_def sample_env_def)
  have "y @ '':'' @ toBase64Url (replicate 24 b) \<noteq> ''tok''" for y and b :: byte
    using secret [of b] by (auto dest: arg_cong [of _ _ length])
  then have digest: "verification_digest sample_account_config (env_from k sample_env) (StrongId y)
      (toBase64Url (replicate 24 b)) = Inr (replicate 32 2)" if "y \<noteq> []" for y and b :: byte
    using secret [of b] that
    by (auto simp: verification_digest_def sample_account_config_def hmacSha256_def int_max_def sample_env_def)
  show ?thesis
    using assms
    by (simp add: account_issue_def Let_def issue_secret_def random digest VerificationChallenge_create_def
        challenges_replace_def)
qed


end
