(* ===== verification/Authentication.thy ===== *)
theory Authentication
  imports Authenticator Profile Identity_Proofs Session_Service
begin

text \<open>
  The authentication service, \<^verbatim>\<open>src/src/authentication/service.cpp\<close>: it starts a sign-in with
  a provider, redeems the one-time transaction when the answer comes back, caps what the provider
  claims, resolves the external identity to a canonical one, and hands a finished sign-in from one
  browser to another. The state it works on is the transaction store, the directory and, where they
  were configured, the identity and profile repositories (a null pointer is \<open>None\<close>).
\<close>

section \<open>Constants and texts\<close>

definition kHandoffProvider :: string where "kHandoffProvider = ''openproof-browser-handoff''"
definition kAuthenticationHandoffProvider :: string where
  "kAuthenticationHandoffProvider = ''openproof-browser-auth-handoff''"
definition kAuthenticationHandoffResultProvider :: string where
  "kAuthenticationHandoffResultProvider = ''openproof-browser-auth-result''"
definition kBrowserHandoffLifetime :: Duration where "kBrowserHandoffLifetime = 2 * 60000"

abbreviation no_binding :: BindingDigest where "no_binding \<equiv> replicate 32 0"

definition hex_char :: "byte \<Rightarrow> char" where
  "hex_char n = ''0123456789abcdef'' ! unat (and n 15)"

definition digestHex :: "byte list \<Rightarrow> string" where
  "digestHex digest = concat (map (\<lambda>b. [hex_char (drop_bit 4 b), hex_char b]) digest)"

definition nibble :: "char \<Rightarrow> byte option" where
  "nibble c =
     (let v = (of_char c :: nat) in
      if 48 \<le> v \<and> v \<le> 57 then Some (of_nat (v - 48))
      else if 97 \<le> v \<and> v \<le> 102 then Some (of_nat (v - 97 + 10))
      else if 65 \<le> v \<and> v \<le> 70 then Some (of_nat (v - 65 + 10))
      else None)"

fun parse_pairs :: "string \<Rightarrow> byte list option" where
  "parse_pairs (h # l # rest) =
     (case (nibble h, nibble l) of
        (Some high, Some low) \<Rightarrow> map_option ((#) (or (push_bit 4 high) low)) (parse_pairs rest)
      | _ \<Rightarrow> None)"
| "parse_pairs _ = Some []"

definition parseDigestHex :: "string \<Rightarrow> byte list option" where
  "parseDigestHex s = (if length s \<noteq> 64 then None else parse_pairs s)"

definition parseAssurance :: "string \<Rightarrow> AssuranceLevel option" where
  "parseAssurance value = find (\<lambda>level. assuranceLevelName level = value) [Ial0, Ial1, Ial2, Ial3, Ial4]"

definition presentationClaim :: "AttributeMap \<Rightarrow> ClaimName \<Rightarrow> nat \<Rightarrow> string option" where
  "presentationClaim claims name maximum =
     (case VerifiedClaims_get claims name of
        None \<Rightarrow> None
      | Some value \<Rightarrow> if value = [] \<or> length value > maximum then None else Some value)"

definition externalFromOutcome :: "AuthenticationOutcome \<Rightarrow> ExternalIdentityRef" where
  "externalFromOutcome out =
     \<lparr>ext_providerId = outcome_provider out, ext_subject = outcome_subject out,
      ext_displayName = presentationClaim (outcome_claims out) DisplayName 256,
      ext_preferredUsername = presentationClaim (outcome_claims out) PreferredUsername 128,
      ext_pictureUrl = presentationClaim (outcome_claims out) PictureUrl 2048\<rparr>"

text \<open>A handoff ticket is an identifier and a secret with one dot between them.\<close>

definition splitTicket :: "string \<Rightarrow> (string \<times> string) option" where
  "splitTicket presented =
     (let separator = length (takeWhile (\<lambda>c. c \<noteq> CHR ''.'') presented)
      in if CHR ''.'' \<notin> set presented \<or> separator = 0 \<or> separator + 1 \<ge> length presented \<or> length presented > 256
            \<or> CHR ''.'' \<in> set (drop (separator + 1) presented)
         then None
         else Some (take separator presented, drop (separator + 1) presented))"

definition parse_unsigned_int :: "string \<Rightarrow> nat option" where
  "parse_unsigned_int s = (case read_digits s of None \<Rightarrow> None | Some n \<Rightarrow> if n < 2 ^ 32 then Some n else None)"

definition parse_int64 :: "string \<Rightarrow> int option" where
  "parse_int64 s =
     (if s \<noteq> [] \<and> hd s = CHR ''-''
      then (case read_digits (tl s) of None \<Rightarrow> None | Some n \<Rightarrow> if n \<le> 2 ^ 63 then Some (- int n) else None)
      else (case read_digits s of None \<Rightarrow> None | Some n \<Rightarrow> if n < 2 ^ 63 then Some (int n) else None))"

section \<open>Trust policy\<close>

record ProviderTrustPolicy =
  tp_maximums :: "(ProviderId, AssuranceLevel) omap"
  tp_selfProvisioning :: "(ProviderId, bool) omap"

definition trust :: "ProviderId \<Rightarrow> AssuranceLevel \<Rightarrow> bool \<Rightarrow> ProviderTrustPolicy \<Rightarrow> Status \<times> ProviderTrustPolicy" where
  "trust providerId maximum allowSelfProvisioning p =
     (if StrongId_empty providerId
      then (fail_msg InvalidArgument ''A provider trust rule must name a provider.'', p)
      else if omap_contains (tp_maximums p) providerId
      then (fail_detail AlreadyExists ''A trust rule for that provider already exists.''
              ''Duplicate provider assurance policy was rejected instead of silently replacing the operator-reviewed cap.'', p)
      else (ok, \<lparr>tp_maximums = omap_emplace providerId maximum (tp_maximums p),
                 tp_selfProvisioning = omap_emplace providerId allowSelfProvisioning (tp_selfProvisioning p)\<rparr>))"

definition maySelfProvision :: "ProviderTrustPolicy \<Rightarrow> ProviderId \<Rightarrow> bool" where
  "maySelfProvision p providerId = (map_of (tp_selfProvisioning p) providerId = Some True)"

definition maximumFor :: "ProviderTrustPolicy \<Rightarrow> ProviderId \<Rightarrow> AssuranceLevel option" where
  "maximumFor p providerId = map_of (tp_maximums p) providerId"

section \<open>The service\<close>

record AuthenticationConfig =
  au_providers :: ProviderRegistry
  au_trustPolicy :: ProviderTrustPolicy
  au_maximumTransactionLifetime :: Duration
  au_organization :: OrganizationId

record AuthenticationWorld =
  au_transactions :: TransactionStore
  au_directory :: Directory
  au_lifecycle :: "IdentityRepository option"
  au_profiles :: "ProfileRepository option"

record AuthenticationStart =
  start_transactionId :: TransactionId
  start_challenge :: AuthenticationChallenge
  start_continuationToken :: string

record CompletedExchange =
  ce_outcome :: AuthenticationOutcome
  ce_connectionTarget :: "IdentityId option"
  ce_completedAt :: Instant

definition effectiveMaximum :: "AuthenticationConfig \<Rightarrow> AuthenticationProvider \<Rightarrow> ProviderId \<Rightarrow> AssuranceLevel option" where
  "effectiveMaximum C implementation providerId =
     (case maximumFor (au_trustPolicy C) providerId of
        None \<Rightarrow> None
      | Some configured \<Rightarrow> Some (min configured (prov_maximumClaimableAssurance implementation)))"

definition requireActiveIdentity :: "AuthenticationConfig \<Rightarrow> AuthenticationWorld \<Rightarrow> IdentityId \<Rightarrow> Status" where
  "requireActiveIdentity C w identity =
     (case au_lifecycle w of
        None \<Rightarrow> ok
      | Some ids \<Rightarrow>
          if StrongId_empty (au_organization C)
          then Inl (authFailure ''Authentication lifecycle gate is configured without an organization.'')
          else (case identities_findById (au_organization C) identity ids of
                  Inl e \<Rightarrow> Inl e
                | Inr None \<Rightarrow> Inl (authFailure ''Authentication refused by canonical identity lifecycle state.'')
                | Inr (Some canonical) \<Rightarrow>
                    if \<not> canAuthenticate canonical
                    then Inl (authFailure ''Authentication refused by canonical identity lifecycle state.'')
                    else ok))"

definition start_metadata ::
    "AuthenticationRequest \<Rightarrow> AuthenticationChallenge \<Rightarrow> IdentityId option \<Rightarrow> AuthenticationTransaction \<Rightarrow> AuthenticationTransaction" where
  "start_metadata request challenge connectionTarget t =
     (let t1 = Transaction_setMetadata ''challenge_id'' (id_value (challenge_id challenge)) t;
          t2 = (case areq_requestedAssurance request of
                  None \<Rightarrow> t1
                | Some level \<Rightarrow> Transaction_setMetadata ''requested_assurance'' (assuranceLevelName level) t1)
      in (case connectionTarget of
            None \<Rightarrow> t2
          | Some target \<Rightarrow> Transaction_setMetadata ''connection_identity'' (id_value target) t2))"

definition beginInternal ::
    "AuthenticationConfig \<Rightarrow> env \<Rightarrow> AuthenticationRequest \<Rightarrow> BindingDigest \<Rightarrow> CorrelationId \<Rightarrow> IdentityId option
     \<Rightarrow> AuthenticationWorld \<Rightarrow> AuthenticationStart Result \<times> AuthenticationWorld" where
  "beginInternal C E request binding correlation connectionTarget w =
     (case registry_find (au_providers C) (areq_provider request) of
        None \<Rightarrow> (Inl (authFailure ''Authentication start refused: provider is not registered.''), w)
      | Some implementation \<Rightarrow>
     (case effectiveMaximum C implementation (areq_provider request) of
        None \<Rightarrow> (Inl (authFailure ''Authentication start refused: provider has no operator trust policy.''), w)
      | Some maximum \<Rightarrow>
     if case areq_requestedAssurance request of None \<Rightarrow> False | Some level \<Rightarrow> \<not> meetsAssurance maximum level
     then (fail_detail AssuranceInsufficient (defaultErrorMessage AssuranceInsufficient)
             ''Requested assurance exceeds the lower of the provider-declared and operator-configured caps.'', w)
     else (case prov_beginAuthentication implementation request of
        None \<Rightarrow> (Inl (authFailure ''Authentication provider threw while starting an exchange.''), w)
      | Some (Inl _) \<Rightarrow> (Inl (authFailure ''Authentication provider rejected the start operation.''), w)
      | Some (Inr challenge) \<Rightarrow>
     let now = env_now E 0 in
     if StrongId_empty (challenge_id challenge) \<or> Challenge_isExpiredAt challenge now
     then (Inl (authFailure ''Provider returned an empty or already-expired challenge.''), w)
     else (case randomTokenBase64Url E 1 32 of
        Inl e \<Rightarrow> (Inl e, w)
      | Inr generatedId \<Rightarrow>
     (case randomTokenBase64Url E 2 32 of
        Inl e \<Rightarrow> (Inl e, w)
      | Inr continuationToken \<Rightarrow>
     (case Transaction_create E (StrongId generatedId) (areq_provider request) (prov_interactionModel implementation)
             continuationToken binding correlation now
             (min (challenge_expiresAt challenge - now) (au_maximumTransactionLifetime C)) of
        Inl e \<Rightarrow> (Inl e, w)
      | Inr transaction \<Rightarrow>
     (case transactions_begin (start_metadata request challenge connectionTarget transaction) (au_transactions w) of
        (Inl e, store) \<Rightarrow> (Inl e, w\<lparr>au_transactions := store\<rparr>)
      | (Inr _, store) \<Rightarrow>
          (Inr \<lparr>start_transactionId = StrongId generatedId, start_challenge = challenge,
                start_continuationToken = continuationToken\<rparr>,
           w\<lparr>au_transactions := store\<rparr>))))))))"

definition authentication_begin ::
    "AuthenticationConfig \<Rightarrow> env \<Rightarrow> AuthenticationRequest \<Rightarrow> BindingDigest \<Rightarrow> CorrelationId
     \<Rightarrow> AuthenticationWorld \<Rightarrow> AuthenticationStart Result \<times> AuthenticationWorld" where
  "authentication_begin C E request binding correlation w = beginInternal C E request binding correlation None w"

definition beginConnection ::
    "AuthenticationConfig \<Rightarrow> env \<Rightarrow> AuthenticationRequest \<Rightarrow> BindingDigest \<Rightarrow> CorrelationId \<Rightarrow> IdentityId
     \<Rightarrow> AuthenticationWorld \<Rightarrow> AuthenticationStart Result \<times> AuthenticationWorld" where
  "beginConnection C E request binding correlation identity w =
     (if StrongId_empty identity
      then (fail_msg InvalidArgument ''A connection ceremony requires a canonical identity.'', w)
      else case requireActiveIdentity C w identity of
        Inl e \<Rightarrow> (Inl e, w)
      | Inr _ \<Rightarrow> beginInternal C E request binding correlation (Some identity) w)"

text \<open>What the provider answered, with its diagnostics kept for the operator only.\<close>

definition provider_outcome :: "AuthenticationProvider \<Rightarrow> AuthenticationResponse \<Rightarrow> AuthenticationOutcome Result" where
  "provider_outcome implementation response =
     (case prov_completeAuthentication implementation response of
        None \<Rightarrow> Inl (authFailure ''Authentication provider threw while completing an exchange.'')
      | Some (Inl e) \<Rightarrow>
          Inl (authFailure (''Authentication provider rejected the completion operation.''
            @ (if hasInternalDetail e then '' Provider detail: '' @ err_internalDetail e else [])))
      | Some (Inr out) \<Rightarrow> Inr out)"

definition below_requested :: "AuthenticationTransaction \<Rightarrow> AuthenticationOutcome \<Rightarrow> bool" where
  "below_requested t out =
     (case map_of (tx_metadata t) ''requested_assurance'' of
        None \<Rightarrow> False
      | Some requested \<Rightarrow>
          (case parseAssurance requested of
             None \<Rightarrow> True
           | Some required \<Rightarrow> \<not> meetsAssurance (outcome_claimedAssurance out) required))"

definition completeExchange ::
    "AuthenticationConfig \<Rightarrow> env \<Rightarrow> TransactionId \<Rightarrow> string \<Rightarrow> BindingDigest \<Rightarrow> AuthenticationResponse \<Rightarrow> bool
     \<Rightarrow> AuthenticationWorld \<Rightarrow> CompletedExchange Result \<times> AuthenticationWorld" where
  "completeExchange C E transactionId continuationToken binding response requireConnection w =
     (case transactions_consume E transactionId continuationToken binding (env_now E 0) (au_transactions w) of
        (Inl e, store) \<Rightarrow> (Inl e, w\<lparr>au_transactions := store\<rparr>)
      | (Inr transaction, store) \<Rightarrow>
     let w1 = w\<lparr>au_transactions := store\<rparr> in
     if map_of (tx_metadata transaction) ''challenge_id'' \<noteq> Some (id_value (response_challengeId response))
     then (Inl (authFailure ''Authentication completion refused: challenge identifier does not match the server-side transaction.''), w1)
     else (case registry_find (au_providers C) (tx_provider transaction) of
        None \<Rightarrow> (Inl (authFailure ''Authentication completion refused: transaction provider is no longer registered.''), w1)
      | Some implementation \<Rightarrow>
     (case effectiveMaximum C implementation (tx_provider transaction) of
        None \<Rightarrow> (Inl (authFailure ''Authentication completion refused: provider trust policy is absent.''), w1)
      | Some maximum \<Rightarrow>
     (case provider_outcome implementation response of
        Inl e \<Rightarrow> (Inl e, w1)
      | Inr out \<Rightarrow>
     let completionFinishedAt = env_now E 1 in
     if outcome_provider out \<noteq> tx_provider transaction
     then (Inl (authFailure ''Provider returned an outcome under a different provider identifier.''), w1)
     else if \<not> meetsAssurance maximum (outcome_claimedAssurance out)
     then (Inl (authFailure ''Provider outcome exceeded its effective assurance cap.''), w1)
     else if below_requested transaction out
     then (fail_detail AssuranceInsufficient (defaultErrorMessage AssuranceInsufficient)
             ''Provider completed the exchange below the assurance requested at start.'', w1)
     else if outcome_verifiedAt out < tx_createdAt transaction \<or> outcome_verifiedAt out > completionFinishedAt
     then (Inl (authFailure ''Provider returned a verification timestamp outside the transaction window.''), w1)
     else let connection = map_of (tx_metadata transaction) ''connection_identity''
          in if (connection \<noteq> None) \<noteq> requireConnection \<or> connection = Some []
             then (Inl (authFailure ''Authentication completion refused: ceremony purpose does not match the endpoint.''), w1)
             else (Inr \<lparr>ce_outcome = out, ce_connectionTarget = map_option StrongId connection,
                        ce_completedAt = completionFinishedAt\<rparr>, w1)))))"

definition auth_attachVerified ::
    "IdentityId \<Rightarrow> ExternalIdentityRef \<Rightarrow> Instant \<Rightarrow> AuthenticationWorld \<Rightarrow> Status \<times> AuthenticationWorld" where
  "auth_attachVerified identity external verifiedAt w =
     (case Link_request identity external verifiedAt (5 * 60000) of
        Inl e \<Rightarrow> (Inl e, w)
      | Inr link \<Rightarrow>
          (case requireVerification verifiedAt link of
             (Inl e, _) \<Rightarrow> (Inl e, w)
           | (Inr _, required) \<Rightarrow>
               (case markVerified verifiedAt required of
                  (Inl e, _) \<Rightarrow> (Inl e, w)
                | (Inr _, verified) \<Rightarrow>
                    (case complete verifiedAt verified of
                       (Inl e, _) \<Rightarrow> (Inl e, w)
                     | (Inr _, completed) \<Rightarrow>
                         (case attach completed (au_directory w) of
                            (r, dir) \<Rightarrow> (r, w\<lparr>au_directory := dir\<rparr>))))))"


section \<open>Resolving the identity\<close>

record Candidates =
  cand_active :: "IdentityId list"
  cand_blocked :: nat

text \<open>Identities sharing the verified email: those that may sign in, and how many others still exist.\<close>

fun candidate_loop ::
    "OrganizationId \<Rightarrow> IdentityRepository \<Rightarrow> IdentityId list \<Rightarrow> Candidates \<Rightarrow> Candidates Result" where
  "candidate_loop organization ids [] acc = Inr acc"
| "candidate_loop organization ids (candidate # rest) acc =
     (case identities_findById organization candidate ids of
        Inl e \<Rightarrow> Inl e
      | Inr None \<Rightarrow> candidate_loop organization ids rest acc
      | Inr (Some canonical) \<Rightarrow>
          if canAuthenticate canonical
          then candidate_loop organization ids rest (acc\<lparr>cand_active := cand_active acc @ [candidate]\<rparr>)
          else if ident_status canonical \<noteq> Deleted \<and> ident_status canonical \<noteq> Merged
          then candidate_loop organization ids rest (acc\<lparr>cand_blocked := cand_blocked acc + 1\<rparr>)
          else candidate_loop organization ids rest acc)"

text \<open>
  The convergence on a verified email, \<open>Inr None\<close> when it does not apply: the outcome says the
  email is verified by a provider that may create identities, and exactly one live identity has it.
\<close>

definition converge ::
    "AuthenticationConfig \<Rightarrow> AuthenticationOutcome \<Rightarrow> ExternalIdentityRef \<Rightarrow> Instant \<Rightarrow> AuthenticationWorld
     \<Rightarrow> IdentityId option Result \<times> AuthenticationWorld" where
  "converge C out external completedAt w =
     (case (au_profiles w, au_lifecycle w, VerifiedClaims_get (outcome_claims out) Email) of
        (Some profiles, Some ids, Some verifiedEmail) \<Rightarrow>
          if StrongId_empty (au_organization C) \<or> \<not> maySelfProvision (au_trustPolicy C) (outcome_provider out)
             \<or> \<not> VerifiedClaims_isTrue (outcome_claims out) EmailVerified \<or> verifiedEmail = []
          then (Inr None, w)
          else (case findVerifiedByEmail verifiedEmail profiles of
             Inl e \<Rightarrow> (Inl e, w)
           | Inr candidates \<Rightarrow>
               (case candidate_loop (au_organization C) ids candidates \<lparr>cand_active = [], cand_blocked = 0\<rparr> of
                  Inl e \<Rightarrow> (Inl e, w)
                | Inr found \<Rightarrow>
                    if length (cand_active found) > 1 \<or> (cand_blocked found > 0 \<and> cand_active found \<noteq> [])
                    then (fail_detail Conflict ''That verified email is already associated with multiple identities.''
                            ''Federated sign-in refused to guess between canonical identities that share the same verified email. An explicit merge is required.'', w)
                    else if cand_active found = [] \<and> cand_blocked found > 0
                    then (Inl (authFailure ''Federated sign-in refused to self-provision because the verified email belongs to an existing non-authenticating canonical identity.''), w)
                    else (case cand_active found of
                            [] \<Rightarrow> (Inr None, w)
                          | identity # _ \<Rightarrow>
                              (case auth_attachVerified identity external completedAt w of
                                 (Inl e, w') \<Rightarrow> (Inl e, w')
                               | (Inr _, w') \<Rightarrow> (Inr (Some identity), w')))))
      | _ \<Rightarrow> (Inr None, w))"

definition undo_provision :: "AuthenticationConfig \<Rightarrow> IdentityId \<Rightarrow> AuthenticationWorld \<Rightarrow> AuthenticationWorld" where
  "undo_provision C identity w =
     w\<lparr>au_lifecycle := map_option (\<lambda>ids. snd (identities_changeStatus (au_organization C) identity Deleted ids)) (au_lifecycle w)\<rparr>"

definition new_profile :: "IdentityId \<Rightarrow> AttributeMap \<Rightarrow> Instant \<Rightarrow> IdentityProfile Result" where
  "new_profile identity claims now =
     (case IdentityProfile_create identity now of
        Inl e \<Rightarrow> Inl e
      | Inr profile \<Rightarrow>
          (case applyVerifiedClaims claims now profile of
             (Inl e, _) \<Rightarrow> Inl e
           | (Inr _, applied) \<Rightarrow> Inr applied))"

definition refreshed_copy :: "IdentityId \<Rightarrow> AttributeMap \<Rightarrow> Instant \<Rightarrow> IdentityProfile option \<Rightarrow> IdentityProfile Result" where
  "refreshed_copy identity claims now stored =
     (case (case stored of None \<Rightarrow> IdentityProfile_create identity now | Some profile \<Rightarrow> Inr profile) of
        Inl e \<Rightarrow> Inl e
      | Inr profile \<Rightarrow>
          (case refreshPresentationClaims claims now profile of
             (Inl e, _) \<Rightarrow> Inl e
           | (Inr _, refreshed) \<Rightarrow> Inr refreshed))"

definition save_profile :: "IdentityProfile Result \<Rightarrow> ProfileRepository \<Rightarrow> AuthenticationWorld \<Rightarrow> Status \<times> AuthenticationWorld" where
  "save_profile made profiles w =
     (case made of
        Inl e \<Rightarrow> (Inl e, w)
      | Inr profile \<Rightarrow> (case profiles_save profile profiles of (r, profiles') \<Rightarrow> (r, w\<lparr>au_profiles := Some profiles'\<rparr>)))"

text \<open>A new canonical identity, marked deleted again when a later step fails.\<close>

definition self_provision ::
    "AuthenticationConfig \<Rightarrow> env \<Rightarrow> AuthenticationOutcome \<Rightarrow> ExternalIdentityRef \<Rightarrow> Instant \<Rightarrow> AuthenticationWorld
     \<Rightarrow> IdentityId Result \<times> AuthenticationWorld" where
  "self_provision C E out external completedAt w =
     (case au_lifecycle w of
        None \<Rightarrow> (Inl (authFailure ''Authentication completion refused: the external identity has no explicit link to a canonical identity.''), w)
      | Some ids \<Rightarrow>
     if \<not> maySelfProvision (au_trustPolicy C) (outcome_provider out) \<or> StrongId_empty (au_organization C)
     then (Inl (authFailure ''Authentication completion refused: the external identity has no explicit link to a canonical identity.''), w)
     else (case randomTokenBase64Url E 0 24 of
        Inl e \<Rightarrow> (Inl e, w)
      | Inr generated \<Rightarrow>
     let identity = StrongId (''opi_'' @ generated) in
     (case Identity_create identity Human completedAt of
        Inl e \<Rightarrow> (Inl e, w)
      | Inr canonical \<Rightarrow>
     (case identities_add (au_organization C) canonical ids of
        (Inl e, ids') \<Rightarrow> (Inl e, w\<lparr>au_lifecycle := Some ids'\<rparr>)
      | (Inr _, ids') \<Rightarrow>
     let w1 = w\<lparr>au_lifecycle := Some ids'\<rparr> in
     (case (case au_profiles w1 of
              None \<Rightarrow> (ok, w1)
            | Some profiles \<Rightarrow> save_profile (new_profile identity (outcome_claims out) completedAt) profiles w1) of
        (Inl e, w2) \<Rightarrow> (Inl e, undo_provision C identity w2)
      | (Inr _, w2) \<Rightarrow>
     (case auth_attachVerified identity external completedAt w2 of
        (Inl e, w3) \<Rightarrow> (Inl e, undo_provision C identity w3)
      | (Inr _, w3) \<Rightarrow> (Inr identity, w3)))))))"

definition resolve_identity ::
    "AuthenticationConfig \<Rightarrow> env \<Rightarrow> AuthenticationOutcome \<Rightarrow> ExternalIdentityRef \<Rightarrow> Instant \<Rightarrow> AuthenticationWorld
     \<Rightarrow> IdentityId Result \<times> AuthenticationWorld" where
  "resolve_identity C E out external completedAt w =
     (case ownerOf external (au_directory w) of
        Inl _ \<Rightarrow> (Inl (authFailure ''Authentication completion could not resolve the external identity directory.''), w)
      | Inr (Some owner) \<Rightarrow> (Inr owner, w)
      | Inr None \<Rightarrow>
          (case converge C out external completedAt w of
             (Inl e, w1) \<Rightarrow> (Inl e, w1)
           | (Inr (Some identity), w1) \<Rightarrow> (Inr identity, w1)
           | (Inr None, w1) \<Rightarrow> self_provision C E out external completedAt w1))"

definition auth_updatePresentation :: "ExternalIdentityRef \<Rightarrow> AuthenticationWorld \<Rightarrow> Status \<times> AuthenticationWorld" where
  "auth_updatePresentation external w =
     (case updatePresentation external (au_directory w) of (r, dir) \<Rightarrow> (r, w\<lparr>au_directory := dir\<rparr>))"

definition login_profile ::
    "IdentityId \<Rightarrow> AttributeMap \<Rightarrow> Instant \<Rightarrow> AuthenticationWorld \<Rightarrow> Status \<times> AuthenticationWorld" where
  "login_profile identity claims completedAt w =
     (case au_profiles w of
        None \<Rightarrow> (ok, w)
      | Some profiles \<Rightarrow>
          (case profiles_find identity profiles of
             Inl e \<Rightarrow> (Inl e, w)
           | Inr None \<Rightarrow> save_profile (new_profile identity claims completedAt) profiles w
           | Inr (Some stored) \<Rightarrow> save_profile (refreshed_copy identity claims completedAt (Some stored)) profiles w))"

definition authentication_complete ::
    "AuthenticationConfig \<Rightarrow> env \<Rightarrow> TransactionId \<Rightarrow> string \<Rightarrow> BindingDigest \<Rightarrow> AuthenticationResponse
     \<Rightarrow> AuthenticationWorld \<Rightarrow> VerifiedAuthentication Result \<times> AuthenticationWorld" where
  "authentication_complete C E transactionId continuationToken binding response w =
     (case completeExchange C E transactionId continuationToken binding response False w of
        (Inl e, w1) \<Rightarrow> (Inl e, w1)
      | (Inr exchange, w1) \<Rightarrow>
     let external = externalFromOutcome (ce_outcome exchange) in
     (case resolve_identity C (env_from 2 E) (ce_outcome exchange) external (ce_completedAt exchange) w1 of
        (Inl e, w2) \<Rightarrow> (Inl e, w2)
      | (Inr identity, w2) \<Rightarrow>
     (case requireActiveIdentity C w2 identity of
        Inl e \<Rightarrow> (Inl e, w2)
      | Inr _ \<Rightarrow>
     (case auth_updatePresentation external w2 of
        (Inl e, w3) \<Rightarrow> (Inl e, w3)
      | (Inr _, w3) \<Rightarrow>
     (case login_profile identity (outcome_claims (ce_outcome exchange)) (ce_completedAt exchange) w3 of
        (Inl e, w4) \<Rightarrow> (Inl e, w4)
      | (Inr _, w4) \<Rightarrow> (Inr \<lparr>verified_outcome = ce_outcome exchange, verified_identity = identity\<rparr>, w4))))))"

text \<open>The email-link sign-in: the address was proved by the account service.\<close>

definition acceptVerifiedEmail ::
    "AuthenticationConfig \<Rightarrow> env \<Rightarrow> ExternalIdentityRef \<Rightarrow> AuthenticationWorld \<Rightarrow> VerifiedAuthentication Result" where
  "acceptVerifiedEmail C E external w =
     (case ownerOf external (au_directory w) of
        Inl e \<Rightarrow> Inl e
      | Inr None \<Rightarrow> fail_msg AuthenticationFailed ''The verified email is not linked to an active identity.''
      | Inr (Some owner) \<Rightarrow>
          (case requireActiveIdentity C w owner of
             Inl e \<Rightarrow> Inl e
           | Inr _ \<Rightarrow>
               let claims = VerifiedClaims_set EmailVerified ''true''
                              (VerifiedClaims_set Email (id_value (ext_subject external)) []);
                   evidence = ProviderEvidence_add ''method'' ''email_verification_link'' []
               in (case AuthenticationOutcome_create (ext_providerId external) (ext_subject external) claims Ial1
                          \<lparr>strength_factors = Factor_Possession, strength_phishingResistant = False\<rparr>
                          evidence (env_now E 0) of
                     Inl e \<Rightarrow> Inl e
                   | Inr out \<Rightarrow> Inr \<lparr>verified_outcome = out, verified_identity = owner\<rparr>)))"

section \<open>Connections of a signed-in identity\<close>

definition refresh_profile ::
    "IdentityId \<Rightarrow> AttributeMap \<Rightarrow> Instant \<Rightarrow> AuthenticationWorld \<Rightarrow> Status \<times> AuthenticationWorld" where
  "refresh_profile identity claims now w =
     (case au_profiles w of
        None \<Rightarrow> (ok, w)
      | Some profiles \<Rightarrow>
          (case profiles_find identity profiles of
             Inl e \<Rightarrow> (Inl e, w)
           | Inr stored \<Rightarrow> save_profile (refreshed_copy identity claims now stored) profiles w))"

definition completeConnection ::
    "AuthenticationConfig \<Rightarrow> env \<Rightarrow> TransactionId \<Rightarrow> string \<Rightarrow> BindingDigest \<Rightarrow> AuthenticationResponse
     \<Rightarrow> AuthenticationWorld \<Rightarrow> ExternalIdentityRef Result \<times> AuthenticationWorld" where
  "completeConnection C E transactionId continuationToken binding response w =
     (case completeExchange C E transactionId continuationToken binding response True w of
        (Inl e, w1) \<Rightarrow> (Inl e, w1)
      | (Inr exchange, w1) \<Rightarrow>
     let target = the (ce_connectionTarget exchange);
         external = externalFromOutcome (ce_outcome exchange) in
     (case requireActiveIdentity C w1 target of
        Inl e \<Rightarrow> (Inl e, w1)
      | Inr _ \<Rightarrow>
     (case ownerOf external (au_directory w1) of
        Inl e \<Rightarrow> (Inl e, w1)
      | Inr owner \<Rightarrow>
     if owner \<noteq> None \<and> owner \<noteq> Some target
     then (fail_msg Conflict ''That external account is already connected to another OpenProof identity.'', w1)
     else (case (if owner = None then auth_attachVerified target external (ce_completedAt exchange) w1 else (ok, w1)) of
        (Inl e, w2) \<Rightarrow> (Inl e, w2)
      | (Inr _, w2) \<Rightarrow>
     (case auth_updatePresentation external w2 of
        (Inl e, w3) \<Rightarrow> (Inl e, w3)
      | (Inr _, w3) \<Rightarrow>
     (case refresh_profile target (outcome_claims (ce_outcome exchange)) (ce_completedAt exchange) w3 of
        (Inl e, w4) \<Rightarrow> (Inl e, w4)
      | (Inr _, w4) \<Rightarrow> (Inr external, w4)))))))"

definition set_presented :: "ClaimName \<Rightarrow> string option \<Rightarrow> AttributeMap \<Rightarrow> AttributeMap" where
  "set_presented name value claims = (case value of None \<Rightarrow> claims | Some v \<Rightarrow> VerifiedClaims_set name v claims)"

definition updateConnectionPresentation ::
    "env \<Rightarrow> ExternalIdentityRef \<Rightarrow> string option \<Rightarrow> string option \<Rightarrow> string option \<Rightarrow> AuthenticationWorld
     \<Rightarrow> Status \<times> AuthenticationWorld" where
  "updateConnectionPresentation E external displayName preferredUsername pictureUrl w =
     (case ownerOf external (au_directory w) of
        Inl e \<Rightarrow> (Inl e, w)
      | Inr None \<Rightarrow> (fail_msg NotFound ''That connected account was not found.'', w)
      | Inr (Some owner) \<Rightarrow>
          let presented = \<lparr>ext_providerId = ext_providerId external, ext_subject = ext_subject external,
                           ext_displayName = displayName, ext_preferredUsername = preferredUsername,
                           ext_pictureUrl = pictureUrl\<rparr> in
          (case auth_updatePresentation presented w of
             (Inl e, w1) \<Rightarrow> (Inl e, w1)
           | (Inr _, w1) \<Rightarrow>
               let claims = set_presented PictureUrl pictureUrl
                              (set_presented PreferredUsername preferredUsername
                                (set_presented DisplayName displayName []))
               in if au_profiles w1 = None \<or> claims = [] then (ok, w1)
                  else refresh_profile owner claims (env_now E 0) w1))"

definition connections :: "AuthenticationConfig \<Rightarrow> IdentityId \<Rightarrow> AuthenticationWorld \<Rightarrow> ExternalIdentityRef list Result" where
  "connections C identity w =
     (case requireActiveIdentity C w identity of
        Inl e \<Rightarrow> Inl e
      | Inr _ \<Rightarrow>
          (case externalIdentitiesOf identity (au_directory w) of
             Inl e \<Rightarrow> Inl e
           | Inr attached \<Rightarrow>
               Inr (filter (\<lambda>external. registry_find (au_providers C) (ext_providerId external) \<noteq> None) attached)))"

definition disconnect ::
    "AuthenticationConfig \<Rightarrow> env \<Rightarrow> IdentityId \<Rightarrow> ExternalIdentityRef \<Rightarrow> AuthenticationWorld \<Rightarrow> Status \<times> AuthenticationWorld" where
  "disconnect C E identity external w =
     (case requireActiveIdentity C w identity of
        Inl e \<Rightarrow> (Inl e, w)
      | Inr _ \<Rightarrow>
     if registry_find (au_providers C) (ext_providerId external) = None
     then (fail_msg InvalidArgument ''Only authentication connections can be disconnected here.'', w)
     else (case detachIfAnotherAuthenticationMethod external identity (registry_ids (au_providers C)) (au_directory w) of
        (Inl e, dir) \<Rightarrow> (Inl e, w\<lparr>au_directory := dir\<rparr>)
      | (Inr _, dir) \<Rightarrow>
     let w1 = w\<lparr>au_directory := dir\<rparr> in
     (case au_profiles w1 of
        None \<Rightarrow> (ok, w1)
      | Some profiles \<Rightarrow>
     (case profiles_find identity profiles of
        Inl e \<Rightarrow> (Inl e, w1)
      | Inr None \<Rightarrow> (ok, w1)
      | Inr (Some profile) \<Rightarrow>
          if profile_avatarSource profile \<noteq> id_value (ext_providerId external) then (ok, w1)
          else (case setAvatarSource ''auto'' (env_now E 0) profile of
                  (Inl e, _) \<Rightarrow> (Inl e, w1)
                | (Inr _, reset) \<Rightarrow> save_profile (Inr reset) profiles w1)))))"


section \<open>Handing a connection to another browser\<close>

record BrowserConnectionHandoff =
  bch_ticket :: string
  bch_expiresAt :: Instant

record BrowserConnectionTarget =
  bct_identity :: IdentityId
  bct_provider :: ProviderId
  bct_returnTarget :: string

definition handoffLifetime :: "AuthenticationConfig \<Rightarrow> Duration" where
  "handoffLifetime C = min kBrowserHandoffLifetime (au_maximumTransactionLifetime C)"

definition issueBrowserConnectionHandoff ::
    "AuthenticationConfig \<Rightarrow> env \<Rightarrow> IdentityId \<Rightarrow> ProviderId \<Rightarrow> string \<Rightarrow> CorrelationId
     \<Rightarrow> AuthenticationWorld \<Rightarrow> BrowserConnectionHandoff Result \<times> AuthenticationWorld" where
  "issueBrowserConnectionHandoff C E identity providerId returnTarget correlation w =
     (if StrongId_empty identity \<or> StrongId_empty providerId \<or> returnTarget = [] \<or> length returnTarget > 2048
         \<or> StrongId_empty correlation
      then (fail_msg InvalidArgument ''The browser connection handoff is invalid.'', w)
      else (case requireActiveIdentity C w identity of
        Inl e \<Rightarrow> (Inl e, w)
      | Inr _ \<Rightarrow>
     (case randomTokenBase64Url E 0 32 of
        Inl e \<Rightarrow> (Inl e, w)
      | Inr generatedId \<Rightarrow>
     (case randomTokenBase64Url E 1 32 of
        Inl e \<Rightarrow> (Inl e, w)
      | Inr secret \<Rightarrow>
     let now = env_now E 2; lifetime = handoffLifetime C in
     (case Transaction_create E (StrongId generatedId) (StrongId kHandoffProvider) Redirect secret no_binding
             correlation now lifetime of
        Inl e \<Rightarrow> (Inl e, w)
      | Inr transaction \<Rightarrow>
     (case transactions_begin
             (Transaction_setMetadata ''handoff_return'' returnTarget
               (Transaction_setMetadata ''handoff_provider'' (id_value providerId)
                 (Transaction_setMetadata ''handoff_identity'' (id_value identity) transaction)))
             (au_transactions w) of
        (Inl e, store) \<Rightarrow> (Inl e, w\<lparr>au_transactions := store\<rparr>)
      | (Inr _, store) \<Rightarrow>
          (Inr \<lparr>bch_ticket = generatedId @ ''.'' @ secret, bch_expiresAt = now + lifetime\<rparr>,
           w\<lparr>au_transactions := store\<rparr>)))))))"

definition consumeBrowserConnectionHandoff ::
    "AuthenticationConfig \<Rightarrow> env \<Rightarrow> string \<Rightarrow> AuthenticationWorld \<Rightarrow> BrowserConnectionTarget Result \<times> AuthenticationWorld" where
  "consumeBrowserConnectionHandoff C E ticket w =
     (case splitTicket ticket of
        None \<Rightarrow> (Inl (authFailure ''Browser handoff redemption refused: malformed ticket.''), w)
      | Some (tid, secret) \<Rightarrow>
     (case transactions_consume E (StrongId tid) secret no_binding (env_now E 0) (au_transactions w) of
        (Inl _, store) \<Rightarrow>
          (Inl (authFailure ''Browser handoff redemption refused: ticket is unknown, expired, invalid, or already consumed.''),
           w\<lparr>au_transactions := store\<rparr>)
      | (Inr consumed, store) \<Rightarrow>
     let w1 = w\<lparr>au_transactions := store\<rparr> in
     if id_value (tx_provider consumed) \<noteq> kHandoffProvider
     then (Inl (authFailure ''Browser handoff redemption refused: transaction purpose mismatch.''), w1)
     else (case (map_of (tx_metadata consumed) ''handoff_identity'', map_of (tx_metadata consumed) ''handoff_provider'',
                 map_of (tx_metadata consumed) ''handoff_return'') of
        (Some identity, Some providerId, Some returnTarget) \<Rightarrow>
          if identity = [] \<or> providerId = [] \<or> returnTarget = []
          then (Inl (authFailure ''Browser handoff redemption refused: server-bound state is incomplete.''), w1)
          else (case requireActiveIdentity C w1 (StrongId identity) of
                  Inl e \<Rightarrow> (Inl e, w1)
                | Inr _ \<Rightarrow> (Inr \<lparr>bct_identity = StrongId identity, bct_provider = StrongId providerId,
                                   bct_returnTarget = returnTarget\<rparr>, w1))
      | _ \<Rightarrow> (Inl (authFailure ''Browser handoff redemption refused: server-bound state is incomplete.''), w1))))"

section \<open>Handing a finished sign-in to another browser\<close>

record BrowserAuthenticationHandoff =
  bah_publisherTicket :: string
  bah_redeemTicket :: string
  bah_expiresAt :: Instant

definition issueBrowserAuthenticationHandoff ::
    "AuthenticationConfig \<Rightarrow> env \<Rightarrow> ProviderId \<Rightarrow> CorrelationId
     \<Rightarrow> AuthenticationWorld \<Rightarrow> BrowserAuthenticationHandoff Result \<times> AuthenticationWorld" where
  "issueBrowserAuthenticationHandoff C E providerId correlation w =
     (if StrongId_empty providerId \<or> StrongId_empty correlation
      then (fail_msg InvalidArgument ''The browser authentication handoff is invalid.'', w)
      else if (case registry_find (au_providers C) providerId of
                 None \<Rightarrow> True
               | Some implementation \<Rightarrow> prov_interactionModel implementation \<noteq> ChallengeResponse)
      then (fail_msg NotFound ''That authentication provider is not available.'', w)
      else (case randomTokenBase64Url E 0 32 of
        Inl e \<Rightarrow> (Inl e, w)
      | Inr publisherId \<Rightarrow>
     (case randomTokenBase64Url E 1 32 of
        Inl e \<Rightarrow> (Inl e, w)
      | Inr publisherSecret \<Rightarrow>
     (case randomTokenBase64Url E 2 32 of
        Inl e \<Rightarrow> (Inl e, w)
      | Inr resultId \<Rightarrow>
     (case randomTokenBase64Url E 3 32 of
        Inl e \<Rightarrow> (Inl e, w)
      | Inr redeemSecret \<Rightarrow>
     (case sha256 E redeemSecret of
        Inl e \<Rightarrow> (Inl e, w)
      | Inr redeemDigest \<Rightarrow>
     let now = env_now E 4; lifetime = handoffLifetime C in
     (case Transaction_create E (StrongId publisherId) (StrongId kAuthenticationHandoffProvider) Redirect
             publisherSecret no_binding correlation now lifetime of
        Inl e \<Rightarrow> (Inl e, w)
      | Inr transaction \<Rightarrow>
     (case transactions_begin
             (Transaction_setMetadata ''auth_handoff_redeem_digest'' (digestHex redeemDigest)
               (Transaction_setMetadata ''auth_handoff_result_id'' resultId
                 (Transaction_setMetadata ''handoff_provider'' (id_value providerId) transaction)))
             (au_transactions w) of
        (Inl e, store) \<Rightarrow> (Inl e, w\<lparr>au_transactions := store\<rparr>)
      | (Inr _, store) \<Rightarrow>
          (Inr \<lparr>bah_publisherTicket = publisherId @ ''.'' @ publisherSecret,
                bah_redeemTicket = resultId @ ''.'' @ redeemSecret, bah_expiresAt = now + lifetime\<rparr>,
           w\<lparr>au_transactions := store\<rparr>)))))))))"

definition published_metadata :: "VerifiedAuthentication \<Rightarrow> AttributeMap" where
  "published_metadata authentication =
     (let out = verified_outcome authentication in
      omap_emplace ''auth_handoff_verified_at'' (int_to_string (outcome_verifiedAt out))
     (omap_emplace ''auth_handoff_phishing''
        (if strength_phishingResistant (outcome_strength out) then ''1'' else ''0'')
     (omap_emplace ''auth_handoff_factors'' (to_string (unat (strength_factors (outcome_strength out))))
     (omap_emplace ''auth_handoff_assurance'' (assuranceLevelName (outcome_claimedAssurance out))
     (omap_emplace ''auth_handoff_subject'' (id_value (outcome_subject out))
     (omap_emplace ''handoff_provider'' (id_value (outcome_provider out))
     (omap_emplace ''auth_handoff_identity'' (id_value (verified_identity authentication)) [])))))))"

definition publishBrowserAuthenticationHandoff ::
    "env \<Rightarrow> string \<Rightarrow> VerifiedAuthentication \<Rightarrow> AuthenticationWorld \<Rightarrow> Status \<times> AuthenticationWorld" where
  "publishBrowserAuthenticationHandoff E publisherTicket authentication w =
     (case splitTicket publisherTicket of
        None \<Rightarrow> (Inl (authFailure ''Browser authentication handoff publication refused: malformed ticket.''), w)
      | Some (tid, secret) \<Rightarrow>
     (case transactions_consume E (StrongId tid) secret no_binding (env_now E 0) (au_transactions w) of
        (Inl e, store) \<Rightarrow> (Inl e, w\<lparr>au_transactions := store\<rparr>)
      | (Inr consumed, store) \<Rightarrow>
     let w1 = w\<lparr>au_transactions := store\<rparr> in
     if id_value (tx_provider consumed) \<noteq> kAuthenticationHandoffProvider
     then (Inl (authFailure ''Browser authentication handoff publication refused: purpose mismatch.''), w1)
     else (case (map_of (tx_metadata consumed) ''handoff_provider'', map_of (tx_metadata consumed) ''auth_handoff_result_id'',
                 map_of (tx_metadata consumed) ''auth_handoff_redeem_digest'') of
        (Some providerMetadata, Some resultId, Some digestMetadata) \<Rightarrow>
          if providerMetadata = [] \<or> resultId = []
          then (Inl (authFailure ''Browser authentication handoff publication refused: state is incomplete.''), w1)
          else if id_value (outcome_provider (verified_outcome authentication)) \<noteq> providerMetadata
          then (Inl (authFailure ''Browser authentication handoff publication refused: provider mismatch.''), w1)
          else (case parseDigestHex digestMetadata of
             None \<Rightarrow> (Inl (authFailure ''Browser authentication handoff publication refused: invalid redeem digest.''), w1)
           | Some redeemDigest \<Rightarrow>
               let now = env_now E 1 in
               if tx_expiresAt consumed \<le> now
               then (fail_msg FailedPrecondition ''This authentication request has expired.'', w1)
               else (case Transaction_restore (StrongId resultId) (StrongId kAuthenticationHandoffResultProvider) Redirect
                            redeemDigest no_binding (tx_correlation consumed) Pending now (tx_expiresAt consumed)
                            (published_metadata authentication) of
                       Inl e \<Rightarrow> (Inl e, w1)
                     | Inr result \<Rightarrow>
                         (case transactions_begin result (au_transactions w1) of
                            (r, store1) \<Rightarrow> (r, w1\<lparr>au_transactions := store1\<rparr>))))
      | _ \<Rightarrow> (Inl (authFailure ''Browser authentication handoff publication refused: state is incomplete.''), w1))))"

text \<open>The result read back from the metadata, \<open>None\<close> where any part is malformed.\<close>

record PublishedResult =
  pub_assurance :: AssuranceLevel
  pub_factors :: nat
  pub_phishing :: bool
  pub_verifiedAt :: Instant

definition read_result :: "string \<Rightarrow> string \<Rightarrow> string \<Rightarrow> string \<Rightarrow> PublishedResult option" where
  "read_result assuranceMetadata factorsMetadata phishingMetadata verifiedAtMetadata =
     (case (parseAssurance assuranceMetadata, parse_unsigned_int factorsMetadata, parse_int64 verifiedAtMetadata) of
        (Some assurance, Some factorsValue, Some verifiedAtValue) \<Rightarrow>
          if factorsValue > 7 \<or> (phishingMetadata \<noteq> ''0'' \<and> phishingMetadata \<noteq> ''1'') \<or> verifiedAtValue < 0
          then None
          else Some \<lparr>pub_assurance = assurance, pub_factors = factorsValue,
                     pub_phishing = (phishingMetadata = ''1''), pub_verifiedAt = verifiedAtValue\<rparr>
      | _ \<Rightarrow> None)"

definition redeemed_authentication ::
    "AuthenticationConfig \<Rightarrow> string \<Rightarrow> string \<Rightarrow> string \<Rightarrow> PublishedResult \<Rightarrow> AuthenticationWorld
     \<Rightarrow> VerifiedAuthentication Result" where
  "redeemed_authentication C identity providerId subject published w =
     (case (case registry_find (au_providers C) (StrongId providerId) of
              None \<Rightarrow> None
            | Some implementation \<Rightarrow> effectiveMaximum C implementation (StrongId providerId)) of
        None \<Rightarrow> Inl (authFailure ''Browser authentication handoff redemption refused: provider trust changed.'')
      | Some maximum \<Rightarrow>
     if \<not> meetsAssurance maximum (pub_assurance published)
     then Inl (authFailure ''Browser authentication handoff redemption refused: provider trust changed.'')
     else (case requireActiveIdentity C w (StrongId identity) of
        Inl e \<Rightarrow> Inl e
      | Inr _ \<Rightarrow>
     if ownerOf \<lparr>ext_providerId = StrongId providerId, ext_subject = StrongId subject, ext_displayName = None,
                 ext_preferredUsername = None, ext_pictureUrl = None\<rparr> (au_directory w) \<noteq> Inr (Some (StrongId identity))
     then Inl (authFailure ''Browser authentication handoff redemption refused: identity link changed.'')
     else (case AuthenticationOutcome_create (StrongId providerId) (StrongId subject) [] (pub_assurance published)
                  \<lparr>strength_factors = of_nat (pub_factors published), strength_phishingResistant = pub_phishing published\<rparr>
                  [] (pub_verifiedAt published) of
             Inl e \<Rightarrow> Inl e
           | Inr out \<Rightarrow> Inr \<lparr>verified_outcome = out, verified_identity = StrongId identity\<rparr>)))"

definition redeemBrowserAuthenticationHandoff ::
    "AuthenticationConfig \<Rightarrow> env \<Rightarrow> string \<Rightarrow> AuthenticationWorld \<Rightarrow> VerifiedAuthentication Result \<times> AuthenticationWorld" where
  "redeemBrowserAuthenticationHandoff C E redeemTicket w =
     (case splitTicket redeemTicket of
        None \<Rightarrow> (Inl (authFailure ''Browser authentication handoff redemption refused: malformed ticket.''), w)
      | Some (tid, secret) \<Rightarrow>
     (case transactions_consume E (StrongId tid) secret no_binding (env_now E 0) (au_transactions w) of
        (Inl e, store) \<Rightarrow> (Inl e, w\<lparr>au_transactions := store\<rparr>)
      | (Inr consumed, store) \<Rightarrow>
     let w1 = w\<lparr>au_transactions := store\<rparr>; m = map_of (tx_metadata consumed) in
     if id_value (tx_provider consumed) \<noteq> kAuthenticationHandoffResultProvider
     then (Inl (authFailure ''Browser authentication handoff redemption refused: purpose mismatch.''), w1)
     else (case (m ''auth_handoff_identity'', m ''handoff_provider'', m ''auth_handoff_subject'', m ''auth_handoff_assurance'',
                 m ''auth_handoff_factors'', m ''auth_handoff_phishing'', m ''auth_handoff_verified_at'') of
        (Some identity, Some providerId, Some subject, Some assurance, Some factors, Some phishing, Some verifiedAt) \<Rightarrow>
          (case read_result assurance factors phishing verifiedAt of
             None \<Rightarrow> (Inl (authFailure ''Browser authentication handoff redemption refused: result is invalid.''), w1)
           | Some published \<Rightarrow> (redeemed_authentication C identity providerId subject published w1, w1))
      | _ \<Rightarrow> (Inl (authFailure ''Browser authentication handoff redemption refused: state is incomplete.''), w1))))"

end
