(* ===== verification/Authentication_Proofs.thy ===== *)
theory Authentication_Proofs
  imports Authentication
begin

text \<open>
  What the authentication service guarantees: a successful sign-in answers a pending transaction
  with the provider's own answer within the operator's cap, and is the owner of the external identity;
  associations change only in the ways listed; a sign-in handed to another browser arrives as it
  was, once.
\<close>

section \<open>An accepted exchange\<close>

lemma StrongId_empty_iff: "StrongId_empty i \<longleftrightarrow> i = StrongId []"
  by (cases i) simp

lemma parseAssurance_name [simp]: "parseAssurance (assuranceLevelName l) = Some l"
  by (cases l) (simp_all add: parseAssurance_def)

lemma parseAssurance_Some: "parseAssurance s = Some l \<longleftrightarrow> s = assuranceLevelName l"
  by (cases l) (auto simp: parseAssurance_def)

text \<open>
  The transaction is pending and its deadline in the future, the token and the binding are its own,
  the response answers its challenge, and the outcome is what its provider answered: under the
  provider's own name, at most the cap, at least what was asked for, verified since the start.
\<close>

definition redeems_transaction ::
    "env \<Rightarrow> TransactionId \<Rightarrow> string \<Rightarrow> BindingDigest \<Rightarrow> AuthenticationWorld \<Rightarrow> AuthenticationTransaction \<Rightarrow> bool" where
  "redeems_transaction E tid token binding w t \<longleftrightarrow>
     map_of (au_transactions w) tid = Some t \<and> tx_state t = Pending \<and> env_now E 0 < tx_expiresAt t
     \<and> sha256 E token = Inr (tx_nonceDigest t) \<and> binding = tx_binding t"

definition trusted_answer ::
    "AuthenticationConfig \<Rightarrow> env \<Rightarrow> AuthenticationResponse \<Rightarrow> AuthenticationTransaction \<Rightarrow> AuthenticationOutcome \<Rightarrow> bool" where
  "trusted_answer C E response t out \<longleftrightarrow>
     map_of (tx_metadata t) ''challenge_id'' = Some (id_value (response_challengeId response))
     \<and> (\<exists>implementation configured.
          registry_find (au_providers C) (tx_provider t) = Some implementation
          \<and> maximumFor (au_trustPolicy C) (tx_provider t) = Some configured
          \<and> prov_completeAuthentication implementation response = Some (Inr out)
          \<and> outcome_claimedAssurance out \<le> configured
          \<and> outcome_claimedAssurance out \<le> prov_maximumClaimableAssurance implementation)
     \<and> outcome_provider out = tx_provider t
     \<and> (case map_of (tx_metadata t) ''requested_assurance'' of
          None \<Rightarrow> True
        | Some s \<Rightarrow> \<exists>l. s = assuranceLevelName l \<and> l \<le> outcome_claimedAssurance out)
     \<and> tx_createdAt t \<le> outcome_verifiedAt out \<and> outcome_verifiedAt out \<le> env_now E 1"

definition exchange_accepted ::
    "AuthenticationConfig \<Rightarrow> env \<Rightarrow> TransactionId \<Rightarrow> string \<Rightarrow> BindingDigest \<Rightarrow> AuthenticationResponse \<Rightarrow> AuthenticationWorld
     \<Rightarrow> AuthenticationTransaction \<Rightarrow> AuthenticationOutcome \<Rightarrow> bool" where
  "exchange_accepted C E tid token binding response w t out \<longleftrightarrow>
     redeems_transaction E tid token binding w t \<and> trusted_answer C E response t out"

lemma transactions_consume_ok:
  "transactions_consume E tid token binding now m = (Inr t', store) \<longleftrightarrow>
     (\<exists>t. map_of m tid = Some t \<and> tx_state t = Pending \<and> now < tx_expiresAt t
        \<and> sha256 E token = Inr (tx_nonceDigest t) \<and> binding = tx_binding t
        \<and> t' = t\<lparr>tx_state := Consumed\<rparr> \<and> store = omap_modify tid (\<lambda>_. t') m)"
proof (cases "map_of m tid")
  case (Some t)
  obtain r u where step: "Transaction_consume E token binding now t = (r, u)" by fastforce
  then show ?thesis
    using Some Transaction_consume_success [of E token binding now t "()" "t\<lparr>tx_state := Consumed\<rparr>"]
      Transaction_consume_success [of E token binding now t _ u]
    by (cases r) (auto simp: transactions_consume_def Let_def)
qed (simp add: transactions_consume_def)

definition spent_transaction :: "TransactionId \<Rightarrow> AuthenticationTransaction \<Rightarrow> AuthenticationWorld \<Rightarrow> AuthenticationWorld" where
  "spent_transaction tid t w =
     w\<lparr>au_transactions := omap_modify tid (\<lambda>_. t\<lparr>tx_state := Consumed\<rparr>) (au_transactions w)\<rparr>"

lemma provider_outcome_Inr:
  "provider_outcome impl response = Inr out \<longleftrightarrow> prov_completeAuthentication impl response = Some (Inr out)"
  by (auto simp: provider_outcome_def split: option.splits sum.splits)

lemma effectiveMaximum_Some:
  "effectiveMaximum C impl p = Some m \<longleftrightarrow>
     (\<exists>configured. maximumFor (au_trustPolicy C) p = Some configured
        \<and> m = min configured (prov_maximumClaimableAssurance impl))"
  by (auto simp: effectiveMaximum_def split: option.splits)

lemma completeExchange_ok:
  assumes "completeExchange C E tid token binding response connecting w = (Inr x, w')"
  shows "\<exists>t. exchange_accepted C E tid token binding response w t (ce_outcome x)
    \<and> w' = spent_transaction tid t w \<and> ce_completedAt x = env_now E 1
    \<and> ce_connectionTarget x = map_option StrongId (map_of (tx_metadata t) ''connection_identity'')
    \<and> connecting = (map_of (tx_metadata t) ''connection_identity'' \<noteq> None)"
proof -
  obtain t' store where consumed: "transactions_consume E tid token binding (env_now E 0) (au_transactions w) = (Inr t', store)"
    using assms by (auto simp: completeExchange_def split: prod.splits sum.splits)
  then obtain t where t: "t' = t\<lparr>tx_state := Consumed\<rparr>" "redeems_transaction E tid token binding w t"
      "store = omap_modify tid (\<lambda>_. t') (au_transactions w)"
    unfolding transactions_consume_ok redeems_transaction_def by blast
  with assms consumed have "trusted_answer C E response t (ce_outcome x) \<and> w' = w\<lparr>au_transactions := store\<rparr>
      \<and> ce_completedAt x = env_now E 1
      \<and> ce_connectionTarget x = map_option StrongId (map_of (tx_metadata t) ''connection_identity'')
      \<and> connecting = (map_of (tx_metadata t) ''connection_identity'' \<noteq> None)"
    by (simp add: completeExchange_def Let_def provider_outcome_Inr trusted_answer_def
        effectiveMaximum_Some meetsAssurance_iff fail_detail_def
        split: sum.splits option.splits if_splits)
      (auto simp: below_requested_def parseAssurance_Some meetsAssurance_iff split: option.splits)
  with t show ?thesis by (auto simp: exchange_accepted_def spent_transaction_def)
qed

lemma completeExchange_frame:
  "completeExchange C E tid token binding response connecting w = (r, w') \<Longrightarrow>
   \<exists>store. w' = w\<lparr>au_transactions := store\<rparr>"
  by (auto simp: completeExchange_def Let_def split: prod.splits sum.splits option.splits if_splits)

section \<open>The identity a sign-in resolves to\<close>

definition shares_email :: "string \<Rightarrow> ProfileRepository \<Rightarrow> IdentityId \<Rightarrow> bool" where
  "shares_email email profiles i \<longleftrightarrow>
     (\<exists>p e. map_of profiles i = Some p \<and> profile_emailVerified p \<and> profile_email p = Some e \<and> lowercase e = lowercase email)"

definition has_status :: "OrganizationId \<Rightarrow> IdentityRepository \<Rightarrow> (IdentityStatus \<Rightarrow> bool) \<Rightarrow> IdentityId \<Rightarrow> bool" where
  "has_status organization ids P i \<longleftrightarrow>
     (\<exists>x. identities_findById organization i ids = Inr (Some x) \<and> P (ident_status x))"

abbreviation live_identity :: "OrganizationId \<Rightarrow> IdentityRepository \<Rightarrow> IdentityId \<Rightarrow> bool" where
  "live_identity organization ids \<equiv> has_status organization ids (\<lambda>s. s \<noteq> Deleted \<and> s \<noteq> Merged)"

abbreviation active_identity :: "OrganizationId \<Rightarrow> IdentityRepository \<Rightarrow> IdentityId \<Rightarrow> bool" where
  "active_identity organization ids \<equiv> has_status organization ids (\<lambda>s. s = IdentityStatus.Active)"

abbreviation blocked_identity :: "OrganizationId \<Rightarrow> IdentityRepository \<Rightarrow> IdentityId \<Rightarrow> bool" where
  "blocked_identity organization ids \<equiv>
     has_status organization ids (\<lambda>s. s \<noteq> IdentityStatus.Active \<and> s \<noteq> Deleted \<and> s \<noteq> Merged)"

lemma canAuthenticate_iff: "canAuthenticate x \<longleftrightarrow> ident_status x = IdentityStatus.Active"
  by (cases "ident_status x") (simp_all add: canAuthenticate_def)

lemma candidate_loop_eq:
  "candidate_loop organization ids candidates acc =
     Inr (acc\<lparr>cand_active := cand_active acc @ filter (active_identity organization ids) candidates,
              cand_blocked := cand_blocked acc + length (filter (blocked_identity organization ids) candidates)\<rparr>)"
proof (induction candidates arbitrary: acc)
  case (Cons i rest)
  obtain x where "identities_findById organization i ids = Inr x"
    using identities_findById_Inr by blast
  with Cons.IH show ?case
    by (cases x) (auto simp: has_status_def canAuthenticate_iff)
qed simp

lemma findVerifiedByEmail_iff:
  assumes "omap_ok profiles"
  obtains js where "findVerifiedByEmail email profiles = Inr js" "set js = {i. shares_email email profiles i}"
proof
  show "set (map fst (filter (\<lambda>(identity, p). profile_emailVerified p
            \<and> (case profile_email p of None \<Rightarrow> False | Some e \<Rightarrow> lowercase e = lowercase email)) profiles))
      = {i. shares_email email profiles i}"
    using omap_entry [OF assms]
    by (auto simp: shares_email_def image_iff split_beta split: option.splits) (metis option.inject)
qed (simp add: findVerifiedByEmail_def)

definition verified_email :: "AuthenticationOutcome \<Rightarrow> string option" where
  "verified_email out =
     (case VerifiedClaims_get (outcome_claims out) Email of
        None \<Rightarrow> None
      | Some email \<Rightarrow> if VerifiedClaims_isTrue (outcome_claims out) EmailVerified \<and> email \<noteq> [] then Some email else None)"

text \<open>
  Whom an external identity without an owner may be linked to at sign-in: the provider may create
  identities, and it is either the one live identity of the organization that has verified the same
  email, and it is active, or a new identity, where no live identity has.
\<close>

definition holders :: "AuthenticationConfig \<Rightarrow> AuthenticationOutcome \<Rightarrow> AuthenticationWorld \<Rightarrow> IdentityId set" where
  "holders C out w =
     (case (verified_email out, au_profiles w, au_lifecycle w) of
        (Some email, Some profiles, Some ids) \<Rightarrow>
          {i. shares_email email profiles i \<and> live_identity (au_organization C) ids i}
      | _ \<Rightarrow> {})"

definition admitted :: "AuthenticationConfig \<Rightarrow> AuthenticationOutcome \<Rightarrow> AuthenticationWorld \<Rightarrow> IdentityId \<Rightarrow> bool" where
  "admitted C out w i \<longleftrightarrow>
     maySelfProvision (au_trustPolicy C) (outcome_provider out) \<and> au_organization C \<noteq> StrongId []
     \<and> (\<exists>ids. au_lifecycle w = Some ids
          \<and> (holders C out w = {i} \<and> active_identity (au_organization C) ids i
             \<or> holders C out w = {} \<and> map_of ids i = None))"

definition world_ok :: "AuthenticationWorld \<Rightarrow> bool" where
  "world_ok w \<longleftrightarrow> transactions_inv (au_transactions w) \<and> directory_inv (au_directory w)
     \<and> (\<forall>ids. au_lifecycle w = Some ids \<longrightarrow> omap_ok ids) \<and> (\<forall>profiles. au_profiles w = Some profiles \<longrightarrow> omap_ok profiles)"

lemma attach_effect:
  assumes "attach l d = (r, d')" "directory_inv d" "link_state l = Linked"
  shows "directory_inv d' \<and>
    (if owner_map d (ref_key (link_external l)) \<in> {None, Some (link_owner l)}
     then r = ok \<and> owner_map d' = (owner_map d)(ref_key (link_external l) \<mapsto> link_owner l)
     else (\<exists>e. r = Inl e) \<and> owner_map d' = owner_map d)"
  using directory_step_refines [OF assms(2), of "Attach l"] directory_inv_step [OF assms(2), of "Attach l"] assms(1,3)
  by (cases r) (auto simp: spec_step_def split: if_splits)

text \<open>Attaching after the provider's proof either links the reference to the identity or does nothing.\<close>

definition linked :: "RefKey \<Rightarrow> IdentityId \<Rightarrow> AuthenticationWorld \<Rightarrow> Status \<times> AuthenticationWorld \<Rightarrow> bool" where
  "linked k i w res \<longleftrightarrow>
     directory_inv (au_directory (snd res)) \<and> au_transactions (snd res) = au_transactions w
     \<and> au_lifecycle (snd res) = au_lifecycle w \<and> au_profiles (snd res) = au_profiles w
     \<and> (case fst res of
          Inl _ \<Rightarrow> owner_map (au_directory (snd res)) = owner_map (au_directory w)
        | Inr _ \<Rightarrow> owner_map (au_directory w) k \<in> {None, Some i}
                  \<and> owner_map (au_directory (snd res)) = (owner_map (au_directory w))(k \<mapsto> i))"

lemma auth_attachVerified_linked:
  assumes "directory_inv (au_directory w)"
  shows "linked (ref_key external) i w (auth_attachVerified i external at w)"
proof (cases "Link_request i external at (5 * 60000)")
  case (Inl e)
  with assms show ?thesis by (simp add: auth_attachVerified_def linked_def)
next
  case (Inr l)
  then have l: "link_owner l = i" "link_external l = external" "link_state l = LinkRequested"
      "link_expiresAt l = at + 300000"
    by (auto simp: Link_request_def split: if_splits)
  obtain r d' where attached: "attach (l\<lparr>link_state := Linked\<rparr>) (au_directory w) = (r, d')" by fastforce
  then have "auth_attachVerified i external at w = (r, w\<lparr>au_directory := d'\<rparr>)"
    using Inr l by (simp add: auth_attachVerified_def link_step_defs)
  with attach_effect [OF attached assms] l show ?thesis
    by (auto simp: linked_def split: if_splits)
qed

lemma linkedD:
  assumes "linked k i w (r, w')"
  shows "au_transactions w' = au_transactions w" "au_lifecycle w' = au_lifecycle w" "au_profiles w' = au_profiles w"
    and "directory_inv (au_directory w')"
    and "r = Inl e \<Longrightarrow> owner_map (au_directory w') = owner_map (au_directory w)"
    and "r = Inr u \<Longrightarrow> owner_map (au_directory w') = (owner_map (au_directory w))(k \<mapsto> i)"
  using assms by (auto simp: linked_def)

lemma world_okD:
  assumes "world_ok w"
  shows "directory_inv (au_directory w)" "transactions_inv (au_transactions w)"
    and "au_lifecycle w = Some ids \<Longrightarrow> omap_ok ids" "au_profiles w = Some profiles \<Longrightarrow> omap_ok profiles"
  using assms by (simp_all add: world_ok_def)

lemma live_split:
  "live_identity organization ids i \<longleftrightarrow> active_identity organization ids i \<or> blocked_identity organization ids i"
  by (auto simp: has_status_def)

lemma blocked_not_active: "active_identity organization ids i \<Longrightarrow> \<not> blocked_identity organization ids i"
  by (auto simp: has_status_def)

lemma holders_found:
  assumes "omap_ok profiles" "au_profiles w = Some profiles" "au_lifecycle w = Some ids" "verified_email out = Some email"
  obtains js where "findVerifiedByEmail email profiles = Inr js"
    "holders C out w = set (filter (active_identity (au_organization C) ids) js)
                       \<union> set (filter (blocked_identity (au_organization C) ids) js)"
proof -
  obtain js where "findVerifiedByEmail email profiles = Inr js" "set js = {i. shares_email email profiles i}"
    using findVerifiedByEmail_iff [OF assms(1)] .
  then show thesis
    using that [of js] assms(2-4) by (auto simp: holders_def live_split)
qed

text \<open>What the convergence may have done.\<close>

lemma converge_effect:
  assumes "converge C out external at w = (r, w')" "world_ok w"
  shows "world_ok w' \<and> au_transactions w' = au_transactions w \<and> au_lifecycle w' = au_lifecycle w \<and> au_profiles w' = au_profiles w
    \<and> (case r of
         Inl _ \<Rightarrow> owner_map (au_directory w') = owner_map (au_directory w)
       | Inr None \<Rightarrow> w' = w
           \<and> (maySelfProvision (au_trustPolicy C) (outcome_provider out) \<and> au_organization C \<noteq> StrongId [] \<longrightarrow> holders C out w = {})
       | Inr (Some i) \<Rightarrow> admitted C out w i
           \<and> owner_map (au_directory w') = (owner_map (au_directory w))(ref_key external \<mapsto> i))"
proof (cases "maySelfProvision (au_trustPolicy C) (outcome_provider out) \<and> au_organization C \<noteq> StrongId []
    \<and> (\<exists>profiles ids email. au_profiles w = Some profiles \<and> au_lifecycle w = Some ids \<and> verified_email out = Some email)")
  case False
  then have "r = Inr None \<and> w' = w"
    using assms(1)
    by (auto simp: converge_def verified_email_def StrongId_empty_iff split: option.splits if_splits)
  with False assms(2) show ?thesis by (auto simp: holders_def split: option.splits)
next
  case True
  then obtain profiles ids email where some: "au_profiles w = Some profiles" "au_lifecycle w = Some ids"
      "verified_email out = Some email" "maySelfProvision (au_trustPolicy C) (outcome_provider out)"
      "au_organization C \<noteq> StrongId []"
    by blast
  then have claims: "VerifiedClaims_get (outcome_claims out) Email = Some email" "email \<noteq> []"
      "VerifiedClaims_isTrue (outcome_claims out) EmailVerified" "\<not> StrongId_empty (au_organization C)"
    by (auto simp: verified_email_def StrongId_empty_iff split: option.splits if_splits)
  obtain js where js: "findVerifiedByEmail email profiles = Inr js"
      "holders C out w = set (filter (active_identity (au_organization C) ids) js)
                         \<union> set (filter (blocked_identity (au_organization C) ids) js)"
    using holders_found [OF _ some(1-3)] world_okD(4) [OF assms(2) some(1)] by blast
  let ?active = "filter (active_identity (au_organization C) ids) js"
  let ?blocked = "filter (blocked_identity (au_organization C) ids) js"
  note unfolded = converge_def some claims js(1) candidate_loop_eq
  consider "\<exists>e. r = Inl e \<and> w' = w" | "?active = []" "?blocked = []"
    | i where "?active = [i]" "?blocked = []"
    using assms(1) by (cases ?active; cases "tl ?active"; cases ?blocked) (auto simp: unfolded fail_detail_def)
  then show ?thesis
  proof cases
    case 3
    obtain r1 w1 where attached: "auth_attachVerified i external at w = (r1, w1)" by fastforce
    have "linked (ref_key external) i w (r1, w1)"
      using auth_attachVerified_linked [OF world_okD(1) [OF assms(2)], of external i at] attached by simp
    note changes = linkedD [OF this]
    have "i \<in> set ?active" using 3 by simp
    then have "active_identity (au_organization C) ids i" unfolding set_filter by blast
    then have "admitted C out w i" using some js(2) 3 by (simp add: admitted_def)
    with assms changes attached 3 show ?thesis
      by (cases r1) (auto simp: unfolded world_ok_def)
  qed (use assms js(2) in \<open>auto simp: unfolded\<close>)
qed

lemma save_profile_effect:
  assumes "save_profile made profiles w = (r, w')" "omap_ok profiles" "world_ok w"
  shows "world_ok w'" "au_transactions w' = au_transactions w" "au_directory w' = au_directory w"
    and "au_lifecycle w' = au_lifecycle w"
  using assms by (auto simp: save_profile_def profiles_save_def world_ok_def split: sum.splits)

lemma undo_provision_simps [simp]:
  "au_transactions (undo_provision C i w) = au_transactions w"
  "au_directory (undo_provision C i w) = au_directory w"
  "au_profiles (undo_provision C i w) = au_profiles w"
  by (simp_all add: undo_provision_def)

lemma changeStatus_ok: "omap_ok ids \<Longrightarrow> omap_ok (snd (identities_changeStatus organization i status ids))"
  by (auto simp: identities_changeStatus_def split: option.splits prod.splits)

lemma undo_provision_ok: "world_ok w \<Longrightarrow> world_ok (undo_provision C i w)"
  by (auto simp: world_ok_def undo_provision_def changeStatus_ok)

lemma world_ok_lifecycle: "world_ok w \<Longrightarrow> omap_ok ids \<Longrightarrow> world_ok (w\<lparr>au_lifecycle := Some ids\<rparr>)"
  by (simp add: world_ok_def)

lemma world_ok_linked: "world_ok w \<Longrightarrow> linked k i w (r, w') \<Longrightarrow> world_ok w'"
  by (auto simp: world_ok_def linked_def)

lemma self_provision_effect:
  assumes "self_provision C E out external at w = (r, w')" "world_ok w"
  shows "world_ok w' \<and> au_transactions w' = au_transactions w
    \<and> (case r of
         Inl _ \<Rightarrow> owner_map (au_directory w') = owner_map (au_directory w)
       | Inr i \<Rightarrow> maySelfProvision (au_trustPolicy C) (outcome_provider out) \<and> au_organization C \<noteq> StrongId []
           \<and> (\<exists>ids. au_lifecycle w = Some ids \<and> map_of ids i = None)
           \<and> owner_map (au_directory w') = (owner_map (au_directory w))(ref_key external \<mapsto> i))"
proof (cases "\<exists>ids generated. au_lifecycle w = Some ids \<and> randomTokenBase64Url E 0 24 = Inr generated
    \<and> maySelfProvision (au_trustPolicy C) (outcome_provider out) \<and> au_organization C \<noteq> StrongId []
    \<and> map_of ids (StrongId (''opi_'' @ generated)) = None")
  case False
  then have "(\<exists>e. r = Inl e) \<and> w' = w"
    using assms(1)
    by (auto simp: self_provision_def Let_def StrongId_empty_iff Identity_create_def identities_add_def omap_contains_def
        split: option.splits sum.splits if_splits)
  with assms(2) show ?thesis by auto
next
  case True
  then obtain ids generated where g: "au_lifecycle w = Some ids" "randomTokenBase64Url E 0 24 = Inr generated"
      "maySelfProvision (au_trustPolicy C) (outcome_provider out)" "au_organization C \<noteq> StrongId []"
      "map_of ids (StrongId (''opi_'' @ generated)) = None"
    by blast
  let ?i = "StrongId (''opi_'' @ generated)"
  obtain ids' where added: "identities_add (au_organization C)
      \<lparr>ident_id = ?i, ident_kind = Human, ident_status = IdentityStatus.Active, ident_createdAt = at\<rparr> ids = (ok, ids')"
    and ids': "omap_ok ids'"
    using g(5) world_okD(3) [OF assms(2) g(1)] by (simp add: identities_add_def omap_contains_def omap_ok_emplace)
  let ?w1 = "w\<lparr>au_lifecycle := Some ids'\<rparr>"
  obtain s w2 where saved: "(case au_profiles ?w1 of None \<Rightarrow> (ok, ?w1)
      | Some profiles \<Rightarrow> save_profile (new_profile ?i (outcome_claims out) at) profiles ?w1) = (s, w2)"
    by fastforce
  have ok1: "world_ok ?w1" using assms(2) ids' by (rule world_ok_lifecycle)
  then have ok2: "world_ok w2" "au_transactions w2 = au_transactions w" "au_directory w2 = au_directory w"
    using saved save_profile_effect [OF _ world_okD(4) [OF ok1] ok1] by (auto split: option.splits)
  obtain a w3 where attached: "auth_attachVerified ?i external at w2 = (a, w3)" by fastforce
  then have l: "linked (ref_key external) ?i w2 (a, w3)"
    using auth_attachVerified_linked [OF world_okD(1) [OF ok2(1)], of external ?i at] by simp
  have "(r, w') = (case s of Inl e \<Rightarrow> (Inl e, undo_provision C ?i w2)
      | Inr _ \<Rightarrow> (case a of Inl e \<Rightarrow> (Inl e, undo_provision C ?i w3) | Inr _ \<Rightarrow> (Inr ?i, w3)))"
    unfolding assms(1) [symmetric] using saved added attached
    by (cases s; cases a; cases "au_profiles w") (simp_all add: self_provision_def Let_def StrongId_empty_iff Identity_create_def g(1-4))
  with g ok2 linkedD [OF l] world_ok_linked [OF ok2(1) l] show ?thesis
    by (auto simp: undo_provision_ok split: sum.splits)
qed

text \<open>The resolution of an outcome to an identity.\<close>

lemma resolve_identity_effect:
  assumes "resolve_identity C E out external at w = (r, w')" "world_ok w"
  shows "world_ok w' \<and> au_transactions w' = au_transactions w
    \<and> (case r of
         Inl _ \<Rightarrow> owner_map (au_directory w') = owner_map (au_directory w)
       | Inr i \<Rightarrow> owner_map (au_directory w') = (owner_map (au_directory w))(ref_key external \<mapsto> i)
           \<and> (owner_map (au_directory w) (ref_key external) = Some i
              \<or> owner_map (au_directory w) (ref_key external) = None \<and> admitted C out w i))"
proof (cases "owner_map (au_directory w) (ref_key external)")
  case (Some i)
  with assms show ?thesis by (auto simp: resolve_identity_def ownerOf_map fun_upd_idem)
next
  case None
  obtain c w1 where converged: "converge C out external at w = (c, w1)" by fastforce
  note effect = converge_effect [OF converged assms(2)]
  show ?thesis
  proof (cases "c = Inr None")
    case True
    with converged None assms(1) have p: "self_provision C E out external at w = (r, w')"
      using effect by (simp add: resolve_identity_def ownerOf_map)
    show ?thesis
      using self_provision_effect [OF p assms(2)] effect True None by (auto simp: admitted_def split: sum.splits)
  next
    case False
    with converged None assms(1) effect show ?thesis
      by (auto simp: resolve_identity_def ownerOf_map split: sum.splits option.splits)
  qed
qed

section \<open>A sign-in\<close>

lemma spent_transaction_simps [simp]:
  "au_directory (spent_transaction tid t w) = au_directory w"
  "au_lifecycle (spent_transaction tid t w) = au_lifecycle w"
  "au_profiles (spent_transaction tid t w) = au_profiles w"
  by (simp_all add: spent_transaction_def)

lemma spent_transaction_find:
  "map_of (au_transactions w) tid = Some t \<Longrightarrow>
   map_of (au_transactions (spent_transaction tid t w)) tid = Some (t\<lparr>tx_state := Consumed\<rparr>)"
  by (simp add: spent_transaction_def map_of_modify)

lemma transactions_inv_consume:
  "transactions_inv m \<Longrightarrow> transactions_inv (snd (transactions_consume E tid token binding now m))"
  using transactions_step_inv [of m "ConsumeTransaction E tid token binding now"] by (simp split: prod.splits)

lemma transactions_inv_begin: "transactions_inv m \<Longrightarrow> transactions_inv (snd (transactions_begin t m))"
  using transactions_step_inv [of m "BeginTransaction t"] by (simp split: prod.splits)

lemma world_ok_transactions:
  "world_ok w \<Longrightarrow> transactions_inv store \<Longrightarrow> world_ok (w\<lparr>au_transactions := store\<rparr>)"
  by (simp add: world_ok_def)

lemma completeExchange_inv:
  assumes "completeExchange C E tid token binding response connecting w = (r, w')" "world_ok w"
  shows "world_ok w' \<and> au_directory w' = au_directory w \<and> au_lifecycle w' = au_lifecycle w \<and> au_profiles w' = au_profiles w"
proof -
  obtain x store where c: "transactions_consume E tid token binding (env_now E 0) (au_transactions w) = (x, store)" by fastforce
  then have "transactions_inv store"
    using transactions_inv_consume [OF world_okD(2) [OF assms(2)], of E tid token binding "env_now E 0"] by simp
  moreover have "w' = w\<lparr>au_transactions := store\<rparr>"
    using assms(1) c by (auto simp: completeExchange_def Let_def split: sum.splits option.splits if_splits)
  ultimately show ?thesis using assms(2) by (simp add: world_ok_transactions)
qed

lemma admitted_cong:
  "au_lifecycle w = au_lifecycle v \<Longrightarrow> au_profiles w = au_profiles v \<Longrightarrow> admitted C out w = admitted C out v"
  by (simp add: admitted_def holders_def fun_eq_iff)

lemma requireActive_cong:
  "au_lifecycle w = au_lifecycle v \<Longrightarrow> requireActiveIdentity C w = requireActiveIdentity C v"
  by (simp add: requireActiveIdentity_def fun_eq_iff)

lemma requireActive_ok:
  "requireActiveIdentity C w i = Inr u \<longleftrightarrow>
     (case au_lifecycle w of None \<Rightarrow> True
      | Some ids \<Rightarrow> au_organization C \<noteq> StrongId [] \<and> active_identity (au_organization C) ids i)"
  using identities_findById_Inr [of "au_organization C" i]
  by (auto simp: requireActiveIdentity_def has_status_def canAuthenticate_iff StrongId_empty_iff
      split: option.splits sum.splits)

lemma auth_updatePresentation_effect:
  assumes "auth_updatePresentation external w = (r, w')" "world_ok w"
  shows "world_ok w' \<and> owner_map (au_directory w') = owner_map (au_directory w)
    \<and> au_transactions w' = au_transactions w \<and> au_lifecycle w' = au_lifecycle w \<and> au_profiles w' = au_profiles w"
proof -
  have "directory_inv (snd (updatePresentation external (au_directory w)))"
    using directory_inv_step [OF world_okD(1) [OF assms(2)], of "UpdatePresentation external"] by simp
  moreover have "owner_map (snd (updatePresentation external (au_directory w))) = owner_map (au_directory w)"
    using directory_step_refines [OF world_okD(1) [OF assms(2)], of "UpdatePresentation external"]
    by (auto simp: spec_step_def split: if_splits)
  ultimately show ?thesis
    using assms by (auto simp: auth_updatePresentation_def world_ok_def split: prod.splits)
qed

definition profiles_only :: "AuthenticationWorld \<Rightarrow> AuthenticationWorld \<Rightarrow> bool" where
  "profiles_only w w' \<longleftrightarrow> world_ok w' \<and> au_transactions w' = au_transactions w \<and> au_directory w' = au_directory w
     \<and> au_lifecycle w' = au_lifecycle w"

lemma login_profile_effect:
  "login_profile i claims at w = (r, w') \<Longrightarrow> world_ok w \<Longrightarrow> profiles_only w w'"
  using save_profile_effect [OF _ world_okD(4)]
  by (auto simp: login_profile_def profiles_only_def profiles_find_def split: option.splits)

lemma refresh_profile_effect:
  "refresh_profile i claims at w = (r, w') \<Longrightarrow> world_ok w \<Longrightarrow> profiles_only w w'"
  using save_profile_effect [OF _ world_okD(4)]
  by (auto simp: refresh_profile_def profiles_only_def profiles_find_def split: option.splits)

lemma ref_key_external [simp]: "ref_key (externalFromOutcome out) = (outcome_provider out, outcome_subject out)"
  by (simp add: externalFromOutcome_def ref_key_def)

text \<open>The identity a redeemed exchange resolves to, against the world before it.\<close>

definition resolves :: "AuthenticationConfig \<Rightarrow> AuthenticationOutcome \<Rightarrow> AuthenticationWorld \<Rightarrow> IdentityId \<Rightarrow> Directory \<Rightarrow> bool" where
  "resolves C out w i d \<longleftrightarrow>
     owner_map d = (owner_map (au_directory w))((outcome_provider out, outcome_subject out) \<mapsto> i)
     \<and> (owner_map (au_directory w) (outcome_provider out, outcome_subject out) = Some i
        \<or> owner_map (au_directory w) (outcome_provider out, outcome_subject out) = None \<and> admitted C out w i)"

lemma exchange_resolves:
  assumes "completeExchange C E tid token binding response False w = (Inr c, w1)" "world_ok w"
    and "resolve_identity C E' (ce_outcome c) (externalFromOutcome (ce_outcome c)) at w1 = (s, w2)"
  shows "world_ok w2 \<and> (\<exists>t. exchange_accepted C E tid token binding response w t (ce_outcome c)
    \<and> map_of (tx_metadata t) ''connection_identity'' = None
    \<and> map_of (au_transactions w2) tid = Some (t\<lparr>tx_state := Consumed\<rparr>))
    \<and> (case s of Inl _ \<Rightarrow> owner_map (au_directory w2) = owner_map (au_directory w)
       | Inr i \<Rightarrow> resolves C (ce_outcome c) w i (au_directory w2))"
proof -
  note frame = completeExchange_inv [OF assms(1,2)]
  obtain t where t: "exchange_accepted C E tid token binding response w t (ce_outcome c)" "w1 = spent_transaction tid t w"
      "map_of (tx_metadata t) ''connection_identity'' = None"
    using completeExchange_ok [OF assms(1)] by auto
  then have spent: "map_of (au_transactions w1) tid = Some (t\<lparr>tx_state := Consumed\<rparr>)"
    by (auto simp: exchange_accepted_def redeems_transaction_def intro: spent_transaction_find)
  have "admitted C (ce_outcome c) w1 = admitted C (ce_outcome c) w" using frame by (intro admitted_cong) simp_all
  with resolve_identity_effect [OF assms(3)] frame t spent show ?thesis
    by (cases s) (auto simp: resolves_def)
qed

text \<open>Everything a completed sign-in did.\<close>

lemma complete_effect:
  assumes "authentication_complete C E tid token binding response w = (r, w')" "world_ok w"
  shows "world_ok w' \<and> (owner_map (au_directory w') = owner_map (au_directory w) \<and> (\<exists>e. r = Inl e)
    \<or> (\<exists>t out i. exchange_accepted C E tid token binding response w t out
         \<and> map_of (tx_metadata t) ''connection_identity'' = None
         \<and> map_of (au_transactions w') tid = Some (t\<lparr>tx_state := Consumed\<rparr>)
         \<and> resolves C out w i (au_directory w')
         \<and> ((\<exists>e. r = Inl e)
            \<or> r = Inr \<lparr>verified_outcome = out, verified_identity = i\<rparr> \<and> requireActiveIdentity C w' i = ok)))"
proof -
  obtain x w1 where x: "completeExchange C E tid token binding response False w = (x, w1)" by fastforce
  show ?thesis
  proof (cases x)
    case (Inl e)
    with x completeExchange_inv [OF x assms(2)] assms(1) show ?thesis by (auto simp: authentication_complete_def)
  next
    case (Inr c)
    let ?out = "ce_outcome c" and ?at = "ce_completedAt c"
    obtain s w2 where resolved: "resolve_identity C (env_from 2 E) ?out (externalFromOutcome ?out) ?at w1 = (s, w2)" by fastforce
    note effect = exchange_resolves [OF x [unfolded Inr] assms(2) resolved]
    obtain p w3 where presented: "auth_updatePresentation (externalFromOutcome ?out) w2 = (p, w3)" by fastforce
    define q w4 where "q i = fst (login_profile i (outcome_claims ?out) ?at w3)"
      and "w4 i = snd (login_profile i (outcome_claims ?out) ?at w3)" for i
    then have saved: "login_profile i (outcome_claims ?out) ?at w3 = (q i, w4 i)" for i by simp
    note p = auth_updatePresentation_effect [OF presented conjunct1 [OF effect]]
    note q = login_profile_effect [OF saved conjunct1 [OF p], unfolded profiles_only_def]
    have run: "(r, w') = (case s of Inl e \<Rightarrow> (Inl e, w2) | Inr i \<Rightarrow>
        (case requireActiveIdentity C w2 i of Inl e \<Rightarrow> (Inl e, w2) | Inr _ \<Rightarrow>
        (case p of Inl e \<Rightarrow> (Inl e, w3) | Inr _ \<Rightarrow>
        (case q i of Inl e \<Rightarrow> (Inl e, w4 i) | Inr _ \<Rightarrow> (Inr \<lparr>verified_outcome = ?out, verified_identity = i\<rparr>, w4 i)))))"
      unfolding assms(1) [symmetric]
      by (simp add: authentication_complete_def x Inr resolved presented saved Let_def split: sum.splits)
    show ?thesis
    proof (cases s)
      case (Inr i)
      have "requireActiveIdentity C (w4 i) i = requireActiveIdentity C w2 i"
        using p q by (simp add: requireActive_cong [of "w4 i" w2])
      with run Inr effect p q show ?thesis by (auto simp: resolves_def split: sum.splits)
    qed (use run effect in auto)
  qed
qed

section \<open>Connecting and disconnecting\<close>

definition connects :: "AuthenticationConfig \<Rightarrow> AuthenticationTransaction \<Rightarrow> AuthenticationOutcome \<Rightarrow> AuthenticationWorld \<Rightarrow> IdentityId \<Rightarrow> Directory \<Rightarrow> bool" where
  "connects C t out w i d \<longleftrightarrow>
     map_of (tx_metadata t) ''connection_identity'' = Some (id_value i) \<and> requireActiveIdentity C w i = ok
     \<and> owner_map (au_directory w) (outcome_provider out, outcome_subject out) \<in> {None, Some i}
     \<and> owner_map d = (owner_map (au_directory w))((outcome_provider out, outcome_subject out) \<mapsto> i)"

text \<open>The part of a connection that follows the attachment.\<close>

definition present_connection :: "IdentityId \<Rightarrow> CompletedExchange \<Rightarrow> AuthenticationWorld \<Rightarrow> ExternalIdentityRef Result \<times> AuthenticationWorld" where
  "present_connection target exchange w =
     (case auth_updatePresentation (externalFromOutcome (ce_outcome exchange)) w of
        (Inl e, w1) \<Rightarrow> (Inl e, w1)
      | (Inr _, w1) \<Rightarrow>
          (case refresh_profile target (outcome_claims (ce_outcome exchange)) (ce_completedAt exchange) w1 of
             (Inl e, w2) \<Rightarrow> (Inl e, w2)
           | (Inr _, w2) \<Rightarrow> (Inr (externalFromOutcome (ce_outcome exchange)), w2)))"

lemma present_connection_effect:
  assumes "present_connection target exchange w = (r, w')" "world_ok w"
  shows "world_ok w' \<and> owner_map (au_directory w') = owner_map (au_directory w)"
proof -
  obtain p w1 where presented: "auth_updatePresentation (externalFromOutcome (ce_outcome exchange)) w = (p, w1)" by fastforce
  note p = auth_updatePresentation_effect [OF presented assms(2)]
  obtain q w2 where "refresh_profile target (outcome_claims (ce_outcome exchange)) (ce_completedAt exchange) w1 = (q, w2)" by fastforce
  with presented p refresh_profile_effect [OF this] assms(1) show ?thesis
    by (auto simp: present_connection_def profiles_only_def split: sum.splits)
qed

definition attach_connection :: "IdentityId \<Rightarrow> CompletedExchange \<Rightarrow> AuthenticationWorld \<Rightarrow> Status \<times> AuthenticationWorld" where
  "attach_connection target exchange w =
     (if owner_map (au_directory w) (outcome_provider (ce_outcome exchange), outcome_subject (ce_outcome exchange)) = None
      then auth_attachVerified target (externalFromOutcome (ce_outcome exchange)) (ce_completedAt exchange) w else (ok, w))"

lemma completeConnection_run:
  assumes "completeExchange C E tid token binding response True w = (Inr c, w1)" "ce_connectionTarget c = Some i"
  shows "completeConnection C E tid token binding response w =
    (case requireActiveIdentity C w1 i of Inl e \<Rightarrow> (Inl e, w1) | Inr _ \<Rightarrow>
      if owner_map (au_directory w1) (outcome_provider (ce_outcome c), outcome_subject (ce_outcome c)) \<notin> {None, Some i}
      then (fail_msg Conflict ''That external account is already connected to another OpenProof identity.'', w1)
      else (case attach_connection i c w1 of (Inl e, w2) \<Rightarrow> (Inl e, w2) | (Inr _, w2) \<Rightarrow> present_connection i c w2))"
  unfolding present_connection_def attach_connection_def
  by (cases "owner_map (au_directory w1) (outcome_provider (ce_outcome c), outcome_subject (ce_outcome c))")
    (simp_all add: completeConnection_def assms ownerOf_map Let_def split: sum.splits)

lemma attach_connection_linked:
  assumes "world_ok w" "owner_map (au_directory w) k \<in> {None, Some i}"
    and "k = (outcome_provider (ce_outcome c), outcome_subject (ce_outcome c))"
  shows "linked k i w (attach_connection i c w)"
  using assms auth_attachVerified_linked [of w "externalFromOutcome (ce_outcome c)" i "ce_completedAt c"]
  by (auto simp: attach_connection_def linked_def world_ok_def fun_upd_idem)

lemma connection_effect:
  assumes "completeConnection C E tid token binding response w = (r, w')" "world_ok w"
  shows "world_ok w' \<and> (owner_map (au_directory w') = owner_map (au_directory w) \<and> (\<exists>e. r = Inl e)
    \<or> (\<exists>t out i. exchange_accepted C E tid token binding response w t out \<and> connects C t out w i (au_directory w')))"
proof -
  obtain x w1 where x: "completeExchange C E tid token binding response True w = (x, w1)" by fastforce
  note frame = completeExchange_inv [OF x assms(2)]
  show ?thesis
  proof (cases x)
    case (Inl e)
    with x frame assms(1) show ?thesis by (auto simp: completeConnection_def)
  next
    case (Inr c)
    let ?k = "(outcome_provider (ce_outcome c), outcome_subject (ce_outcome c))"
    obtain t i where t: "exchange_accepted C E tid token binding response w t (ce_outcome c)"
        "map_of (tx_metadata t) ''connection_identity'' = Some (id_value i)" "ce_connectionTarget c = Some i"
      using completeExchange_ok [OF x [unfolded Inr]] by auto (metis StrongId.sel)
    note run = completeConnection_run [OF x [unfolded Inr] t(3), unfolded assms(1)]
    have active: "requireActiveIdentity C w1 = requireActiveIdentity C w" using frame by (intro requireActive_cong) simp
    obtain s w2 where a: "attach_connection i c w1 = (s, w2)" by fastforce
    consider "w' = w1" "\<exists>e. r = Inl e"
      | "requireActiveIdentity C w i = ok" "owner_map (au_directory w) ?k \<in> {None, Some i}"
        "(r, w') = (case s of Inl e \<Rightarrow> (Inl e, w2) | Inr _ \<Rightarrow> present_connection i c w2)"
      using run by (auto simp: a active frame fail_msg_def split: sum.splits if_splits)
    then show ?thesis
    proof cases
      case 2
      have l: "linked ?k i w1 (s, w2)" using attach_connection_linked [of w1 ?k i c] 2(2) a frame by simp
      note ok2 = world_ok_linked [OF conjunct1 [OF frame] l] linkedD(5,6) [OF l]
      show ?thesis
      proof (cases s)
        case (Inr u)
        note present_connection_effect [of i c w2 r w', OF _ ok2(1)]
        with Inr 2 ok2(3) [OF Inr] frame t(2) have "world_ok w' \<and> connects C t (ce_outcome c) w i (au_directory w')"
          by (simp add: connects_def)
        with t(1) show ?thesis by blast
      qed (use 2(3) ok2 frame in simp)
    qed (use frame in auto)
  qed
qed

lemma disconnect_effect:
  assumes "disconnect C E i external w = (r, w')" "world_ok w"
  shows "world_ok w' \<and> (owner_map (au_directory w') = owner_map (au_directory w)
    \<or> owner_map (au_directory w) (ref_key external) = Some i
       \<and> owner_map (au_directory w') = (owner_map (au_directory w))(ref_key external := None)
       \<and> (\<exists>k. owner_map (au_directory w') k = Some i \<and> registry_find (au_providers C) (fst k) \<noteq> None))"
proof -
  obtain s d where d: "detachIfAnotherAuthenticationMethod external i (registry_ids (au_providers C)) (au_directory w) = (s, d)"
    by fastforce
  note effect = guarded_detach_effect [OF world_okD(1) [OF assms(2)] d]
  have ok1: "world_ok (w\<lparr>au_directory := d\<rparr>)" using assms(2) effect by (simp add: world_ok_def)
  have ids: "p \<in> set (registry_ids (au_providers C)) \<Longrightarrow> registry_find (au_providers C) p \<noteq> None" for p
    by (simp add: registry_ids_def registry_find_def map_of_eq_None_iff)
  have "(w' = w \<or> (world_ok w' \<and> au_directory w' = d))"
    using assms(1) d ok1 save_profile_effect [OF _ world_okD(4) [OF ok1] ok1]
    by (auto simp: disconnect_def Let_def profiles_find_def split: sum.splits if_splits option.splits prod.splits)
  with assms(2) effect ids show ?thesis
    by (cases s) auto
qed

section \<open>Every operation\<close>

datatype authentication_call =
    BeginLogin AuthenticationRequest BindingDigest CorrelationId
  | BeginConnection AuthenticationRequest BindingDigest CorrelationId IdentityId
  | CompleteLogin TransactionId string BindingDigest AuthenticationResponse
  | CompleteConnection TransactionId string BindingDigest AuthenticationResponse
  | PresentConnection ExternalIdentityRef "string option" "string option" "string option"
  | Disconnect IdentityId ExternalIdentityRef
  | IssueConnectionHandoff IdentityId ProviderId string CorrelationId
  | ConsumeConnectionHandoff string
  | IssueLoginHandoff ProviderId CorrelationId
  | PublishLoginHandoff string VerifiedAuthentication
  | RedeemLoginHandoff string

fun authentication_step :: "AuthenticationConfig \<Rightarrow> env \<Rightarrow> authentication_call \<Rightarrow> AuthenticationWorld \<Rightarrow> AuthenticationWorld" where
  "authentication_step C E (BeginLogin request binding correlation) w = snd (authentication_begin C E request binding correlation w)"
| "authentication_step C E (BeginConnection request binding correlation i) w = snd (beginConnection C E request binding correlation i w)"
| "authentication_step C E (CompleteLogin tid token binding response) w = snd (authentication_complete C E tid token binding response w)"
| "authentication_step C E (CompleteConnection tid token binding response) w = snd (completeConnection C E tid token binding response w)"
| "authentication_step C E (PresentConnection external d u p) w = snd (updateConnectionPresentation E external d u p w)"
| "authentication_step C E (Disconnect i external) w = snd (disconnect C E i external w)"
| "authentication_step C E (IssueConnectionHandoff i p target correlation) w = snd (issueBrowserConnectionHandoff C E i p target correlation w)"
| "authentication_step C E (ConsumeConnectionHandoff ticket) w = snd (consumeBrowserConnectionHandoff C E ticket w)"
| "authentication_step C E (IssueLoginHandoff p correlation) w = snd (issueBrowserAuthenticationHandoff C E p correlation w)"
| "authentication_step C E (PublishLoginHandoff ticket va) w = snd (publishBrowserAuthenticationHandoff E ticket va w)"
| "authentication_step C E (RedeemLoginHandoff ticket) w = snd (redeemBrowserAuthenticationHandoff C E ticket w)"

text \<open>Operations that only begin or redeem transactions.\<close>

definition transactions_only :: "AuthenticationWorld \<Rightarrow> AuthenticationWorld \<Rightarrow> bool" where
  "transactions_only w w' \<longleftrightarrow> (\<exists>store. transactions_inv store \<and> w' = w\<lparr>au_transactions := store\<rparr>)"

lemma transactions_onlyD:
  "transactions_only w w' \<Longrightarrow> world_ok w \<Longrightarrow> world_ok w' \<and> au_directory w' = au_directory w"
  by (auto simp: transactions_only_def world_ok_transactions)

lemma transactions_only_refl: "world_ok w \<Longrightarrow> transactions_only w w"
  unfolding transactions_only_def
  by (rule exI [of _ "au_transactions w"]) (simp add: world_okD)

lemma transactions_only_begin:
  "transactions_begin t (au_transactions w) = (r, store) \<Longrightarrow> transactions_inv (au_transactions w) \<Longrightarrow> transactions_inv store"
  by (metis snd_conv transactions_inv_begin)

lemma transactions_only_consume:
  "transactions_consume E tid token binding now (au_transactions w) = (r, store) \<Longrightarrow>
   transactions_inv (au_transactions w) \<Longrightarrow> transactions_inv store"
  by (metis snd_conv transactions_inv_consume)

lemma transactions_onlyI: "transactions_inv store \<Longrightarrow> transactions_only w (w\<lparr>au_transactions := store\<rparr>)"
  by (auto simp: transactions_only_def)

lemmas transactions_only_rules = transactions_only_refl transactions_onlyI world_okD(2)
  transactions_only_begin transactions_only_consume

lemma beginInternal_frame:
  "world_ok w \<Longrightarrow> transactions_only w (snd (beginInternal C E request binding correlation target w))"
  by (auto simp: beginInternal_def Let_def transactions_only_rules
      split: option.splits sum.splits prod.splits)

lemma issueConnection_frame:
  "world_ok w \<Longrightarrow> transactions_only w (snd (issueBrowserConnectionHandoff C E i p target correlation w))"
  by (auto simp: issueBrowserConnectionHandoff_def Let_def transactions_only_rules
      split: option.splits sum.splits prod.splits)

lemma consumeConnection_frame:
  "world_ok w \<Longrightarrow> transactions_only w (snd (consumeBrowserConnectionHandoff C E ticket w))"
  by (auto simp: consumeBrowserConnectionHandoff_def Let_def transactions_only_rules
      split: option.splits sum.splits prod.splits)

lemma issueLogin_frame:
  "world_ok w \<Longrightarrow> transactions_only w (snd (issueBrowserAuthenticationHandoff C E p correlation w))"
  by (auto simp: issueBrowserAuthenticationHandoff_def Let_def transactions_only_rules
      split: option.splits sum.splits prod.splits)

lemma publishLogin_frame:
  assumes "world_ok w"
  shows "transactions_only w (snd (publishBrowserAuthenticationHandoff E ticket va w))"
proof (cases "splitTicket ticket")
  case (Some p)
  obtain x store where c: "transactions_consume E (StrongId (fst p)) (snd p) no_binding (env_now E 0) (au_transactions w) = (x, store)"
    by fastforce
  then have "transactions_inv store" using transactions_only_consume world_okD(2) [OF assms] by blast
  note rules = transactions_onlyI [OF this] transactions_onlyI [OF transactions_inv_begin [OF this]]
  show ?thesis
    using Some c rules
    by (cases p) (simp add: publishBrowserAuthenticationHandoff_def Let_def split_beta split: option.split sum.split)
qed (simp add: publishBrowserAuthenticationHandoff_def transactions_only_refl [OF assms])

lemma redeemLogin_frame:
  "world_ok w \<Longrightarrow> transactions_only w (snd (redeemBrowserAuthenticationHandoff C E ticket w))"
  by (auto simp: redeemBrowserAuthenticationHandoff_def Let_def transactions_only_rules
      split: option.splits sum.splits prod.splits)

lemma presentConnection_frame:
  assumes "world_ok w"
  shows "world_ok (snd (updateConnectionPresentation E external d u p w))
    \<and> owner_map (au_directory (snd (updateConnectionPresentation E external d u p w))) = owner_map (au_directory w)"
proof -
  let ?e = "\<lparr>ext_providerId = ext_providerId external, ext_subject = ext_subject external,
     ext_displayName = d, ext_preferredUsername = u, ext_pictureUrl = p\<rparr>"
  obtain r w1 where presented: "auth_updatePresentation ?e w = (r, w1)" by fastforce
  note effect = auth_updatePresentation_effect [OF presented assms]
  have "profiles_only w1 (snd (refresh_profile i claims at w1))" for i claims at
    using refresh_profile_effect [OF surjective_pairing] effect by blast
  then show ?thesis
    using assms presented effect
    by (auto simp: updateConnectionPresentation_def ownerOf_map Let_def profiles_only_def split: option.splits sum.splits)
qed

lemma authentication_step_owners:
  assumes "world_ok w"
  shows "world_ok (authentication_step C E call w) \<and>
    (owner_map (au_directory (authentication_step C E call w)) = owner_map (au_directory w)
     \<or> (\<exists>tid token binding response t out i. call = CompleteLogin tid token binding response
          \<and> exchange_accepted C E tid token binding response w t out
          \<and> map_of (tx_metadata t) ''connection_identity'' = None
          \<and> resolves C out w i (au_directory (authentication_step C E call w)))
     \<or> (\<exists>tid token binding response t out i. call = CompleteConnection tid token binding response
          \<and> exchange_accepted C E tid token binding response w t out
          \<and> connects C t out w i (au_directory (authentication_step C E call w)))
     \<or> (\<exists>i external. call = Disconnect i external \<and> owner_map (au_directory w) (ref_key external) = Some i
          \<and> owner_map (au_directory (authentication_step C E call w)) = (owner_map (au_directory w))(ref_key external := None)
          \<and> (\<exists>k. owner_map (au_directory (authentication_step C E call w)) k = Some i
                \<and> registry_find (au_providers C) (fst k) \<noteq> None)))"
proof (cases call)
  case (CompleteLogin tid token binding response)
  then show ?thesis using complete_effect [OF surjective_pairing assms, of C E tid token binding response] by auto
next
  case (CompleteConnection tid token binding response)
  then show ?thesis using connection_effect [OF surjective_pairing assms, of C E tid token binding response] by auto
next
  case (Disconnect i external)
  then show ?thesis using disconnect_effect [OF surjective_pairing assms, of C E i external] by auto
next
  case (PresentConnection external d u p)
  then show ?thesis using presentConnection_frame [OF assms] by simp
next
  case (BeginConnection request binding correlation i)
  have "transactions_only w (snd (beginConnection C E request binding correlation i w))"
    using beginInternal_frame [OF assms] transactions_only_refl [OF assms]
    by (simp add: beginConnection_def split: sum.splits)
  with BeginConnection assms show ?thesis by (auto dest: transactions_onlyD)
qed (use transactions_onlyD [OF _ assms] beginInternal_frame [OF assms] issueConnection_frame [OF assms]
      consumeConnection_frame [OF assms] issueLogin_frame [OF assms] publishLogin_frame [OF assms]
      redeemLogin_frame [OF assms] in \<open>auto simp: authentication_begin_def\<close>)

interpretation authentication: guarded_machine
  "\<lambda>(E, call) w. ((), authentication_step C E call w)" world_ok
  for C
  by unfold_locales (auto simp: authentication_step_owners)



section \<open>Examples\<close>

definition example_outcome :: AuthenticationOutcome where
  "example_outcome = \<lparr>outcome_provider = StrongId ''github'', outcome_subject = StrongId ''42'', outcome_claims = [],
     outcome_claimedAssurance = Ial1,
     outcome_strength = \<lparr>strength_factors = Factor_Possession, strength_phishingResistant = False\<rparr>,
     outcome_evidence = [], outcome_verifiedAt = 95\<rparr>"

definition example_provider :: AuthenticationProvider where
  "example_provider = \<lparr>prov_id = StrongId ''github'', prov_interactionModel = ChallengeResponse,
     prov_maximumClaimableAssurance = Ial2,
     prov_beginAuthentication = \<lambda>_. Some (Inr \<lparr>challenge_id = StrongId ''c'', challenge_expiresAt = 1000, challenge_parameters = []\<rparr>),
     prov_completeAuthentication = \<lambda>_. Some (Inr example_outcome)\<rparr>"

definition example_config :: AuthenticationConfig where
  "example_config = \<lparr>au_providers = [(StrongId ''github'', example_provider)],
     au_trustPolicy = \<lparr>tp_maximums = [(StrongId ''github'', Ial1)], tp_selfProvisioning = [(StrongId ''github'', False)]\<rparr>,
     au_maximumTransactionLifetime = 600000, au_organization = StrongId ''org''\<rparr>"

definition example_transaction :: "AttributeMap \<Rightarrow> AuthenticationTransaction" where
  "example_transaction attrs = \<lparr>tx_id = StrongId ''t'', tx_provider = StrongId ''github'', tx_interactionModel = ChallengeResponse,
     tx_nonceDigest = replicate 32 3, tx_binding = no_binding, tx_correlation = StrongId ''corr'', tx_state = Pending,
     tx_createdAt = 90, tx_expiresAt = 200, tx_metadata = attrs\<rparr>"

definition example_auth_world :: "AttributeMap \<Rightarrow> Directory \<Rightarrow> AuthenticationWorld" where
  "example_auth_world attrs d = \<lparr>au_transactions = [(StrongId ''t'', example_transaction attrs)], au_directory = d,
     au_lifecycle = None, au_profiles = None\<rparr>"

definition example_response :: AuthenticationResponse where
  "example_response = \<lparr>response_challengeId = StrongId ''c'',
     response_client = \<lparr>client_remoteAddress = [], client_userAgent = []\<rparr>, response_parameters = []\<rparr>"

lemmas example_auth_defs = example_outcome_def example_provider_def example_config_def example_transaction_def
  example_auth_world_def example_response_def

lemma example_world_ok: "directory_inv d \<Longrightarrow> world_ok (example_auth_world attrs d)"
  by (simp add: world_ok_def example_auth_world_def transactions_inv_def example_transaction_def)

lemma example_sha256: "sha256 sample_env token = Inr (replicate 32 3)"
  by (simp add: sha256_def sample_env_def)

lemma example_exchange:
  assumes "map_of attrs ''challenge_id'' = Some ''c''" "map_of attrs ''requested_assurance'' = None"
    and "map_of attrs ''connection_identity'' \<noteq> Some []"
  shows "completeExchange example_config sample_env (StrongId ''t'') token no_binding example_response
      (map_of attrs ''connection_identity'' \<noteq> None) (example_auth_world attrs d)
    = (Inr \<lparr>ce_outcome = example_outcome, ce_connectionTarget = map_option StrongId (map_of attrs ''connection_identity''),
            ce_completedAt = 101\<rparr>,
       spent_transaction (StrongId ''t'') (example_transaction attrs) (example_auth_world attrs d))"
  using assms
  by (simp add: completeExchange_def transactions_consume_def Transaction_consume_def Transaction_isExpiredAt_def Let_def
      example_sha256 example_auth_defs registry_find_def effectiveMaximum_def maximumFor_def provider_outcome_def
      below_requested_def meetsAssurance_iff spent_transaction_def min_def less_eq_AssuranceLevel_def)

abbreviation example_linked :: Directory where
  "example_linked \<equiv> \<lparr>dir_owners = [((StrongId ''github'', StrongId ''42''), (sample_external, StrongId ''alice''))],
     dir_presentations = []\<rparr>"



end
