(* ===== verification/Authentication_Handoff.thy ===== *)
theory Authentication_Handoff
  imports Authentication_Proofs
begin

text \<open>
  A sign-in finished in one browser and redeemed in another: the publisher's ticket and the
  redeemer's ticket are issued together, the publisher's transaction carries only the digest of the
  redeemer's secret, and the published result is text. What was published is what is redeemed.
\<close>

section \<open>Texts read back\<close>

lemma nibble_table: "\<forall>n \<in> set [0 ..< 16]. nibble (''0123456789abcdef'' ! n) = Some (of_nat n)"
  by code_simp

lemma nibble_hex_char: "nibble (hex_char b) = Some (take_bit 4 b)"
proof -
  have "(and b 15 :: byte) = take_bit 4 b" by (simp add: take_bit_eq_mask mask_eq_exp_minus_1)
  moreover have "unat (take_bit 4 b) < 16" using unat_take_bit_less [of 4 b] by simp
  then have "nibble (''0123456789abcdef'' ! unat (take_bit 4 b)) = Some (of_nat (unat (take_bit 4 b)))"
    using bspec [OF nibble_table, of "unat (take_bit 4 b)"] by (simp only: set_upt atLeastLessThan_iff) simp
  ultimately show ?thesis by (simp add: hex_char_def)
qed

lemma nibbles_of_byte: "or (push_bit 4 (take_bit 4 (drop_bit 4 b))) (take_bit 4 b) = (b :: byte)"
  by (rule bit_word_eqI) (auto simp: bit_simps)

lemma parse_pairs_digestHex: "parse_pairs (digestHex d) = Some d"
  by (induction d) (simp_all add: digestHex_def nibble_hex_char nibbles_of_byte)

lemma length_digestHex: "length (digestHex d) = 2 * length d"
  by (induction d) (simp_all add: digestHex_def)

lemma parseDigestHex_digestHex: "length d = 32 \<Longrightarrow> parseDigestHex (digestHex d) = Some d"
  by (simp add: parseDigestHex_def length_digestHex parse_pairs_digestHex)

lemma parse_int64_to_string: "0 \<le> i \<Longrightarrow> i < 2 ^ 63 \<Longrightarrow> parse_int64 (int_to_string i) = Some i"
  by (simp add: parse_int64_def int_to_string_def read_digits_to_string to_string_hd nat_less_iff)

lemma parse_unsigned_to_string: "n < 2 ^ 32 \<Longrightarrow> parse_unsigned_int (to_string n) = Some n"
  by (simp add: parse_unsigned_int_def read_digits_to_string)

lemma takeWhile_upto_char: "c \<notin> set a \<Longrightarrow> takeWhile (\<lambda>x. x \<noteq> c) (a @ c # b) = a"
  by (induction a) auto

lemma splitTicket_join:
  assumes "CHR ''.'' \<notin> set a" "CHR ''.'' \<notin> set b" "a \<noteq> []" "b \<noteq> []" "length a + length b < 256"
  shows "splitTicket (a @ ''.'' @ b) = Some (a, b)"
  using assms by (simp add: splitTicket_def takeWhile_upto_char Let_def)

lemma random_token_shape:
  assumes "randomTokenBase64Url E i 32 = Inr s" "crypto_available E"
  shows "CHR ''.'' \<notin> set s" "s \<noteq> []" "length s = 43"
proof -
  obtain bs where "s = toBase64Url bs" "length bs = 32"
    using assms crypto_random_bytes [OF assms(2), of 32 i] by (auto simp: randomTokenBase64Url_def int_max_def)
  moreover have "CHR ''.'' \<notin> set kBase64UrlAlphabet" by (simp add: kBase64UrlAlphabet_def)
  ultimately show "CHR ''.'' \<notin> set s" "s \<noteq> []" "length s = 43"
    using toBase64Url_symbols [of bs] length_toBase64Url_32 [of bs] by auto
qed

section \<open>The three calls\<close>

text \<open>What the redeemer gets: the published sign-in, without claims and evidence.\<close>

definition carried :: "VerifiedAuthentication \<Rightarrow> VerifiedAuthentication" where
  "carried va = va\<lparr>verified_outcome := (verified_outcome va)\<lparr>outcome_claims := [], outcome_evidence := []\<rparr>\<rparr>"

definition still_trusted :: "AuthenticationConfig \<Rightarrow> VerifiedAuthentication \<Rightarrow> AuthenticationWorld \<Rightarrow> bool" where
  "still_trusted C va w \<longleftrightarrow>
     (\<exists>implementation configured.
        registry_find (au_providers C) (outcome_provider (verified_outcome va)) = Some implementation
        \<and> maximumFor (au_trustPolicy C) (outcome_provider (verified_outcome va)) = Some configured
        \<and> outcome_claimedAssurance (verified_outcome va) \<le> configured
        \<and> outcome_claimedAssurance (verified_outcome va) \<le> prov_maximumClaimableAssurance implementation)
     \<and> requireActiveIdentity C w (verified_identity va) = ok
     \<and> owner_map (au_directory w) (outcome_provider (verified_outcome va), outcome_subject (verified_outcome va))
         = Some (verified_identity va)"

definition carriable :: "VerifiedAuthentication \<Rightarrow> bool" where
  "carriable va \<longleftrightarrow> unat (strength_factors (outcome_strength (verified_outcome va))) \<le> 7
     \<and> 0 \<le> outcome_verifiedAt (verified_outcome va) \<and> outcome_verifiedAt (verified_outcome va) < 2 ^ 63
     \<and> outcome_provider (verified_outcome va) \<noteq> StrongId [] \<and> outcome_subject (verified_outcome va) \<noteq> StrongId []"

abbreviation published :: "VerifiedAuthentication \<Rightarrow> PublishedResult" where
  "published va \<equiv>
     \<lparr>pub_assurance = outcome_claimedAssurance (verified_outcome va),
      pub_factors = unat (strength_factors (outcome_strength (verified_outcome va))),
      pub_phishing = strength_phishingResistant (outcome_strength (verified_outcome va)),
      pub_verifiedAt = outcome_verifiedAt (verified_outcome va)\<rparr>"

lemma read_published:
  assumes "carriable va"
  shows "read_result (assuranceLevelName (outcome_claimedAssurance (verified_outcome va)))
      (to_string (unat (strength_factors (outcome_strength (verified_outcome va)))))
      (if strength_phishingResistant (outcome_strength (verified_outcome va)) then ''1'' else ''0'')
      (int_to_string (outcome_verifiedAt (verified_outcome va)))
    = Some (published va)"
  using assms
  by (simp add: read_result_def carriable_def parse_int64_to_string parse_unsigned_to_string)

lemma redeemed_iff:
  assumes "carriable va"
  shows "redeemed_authentication C (id_value (verified_identity va)) (id_value (outcome_provider (verified_outcome va)))
      (id_value (outcome_subject (verified_outcome va))) (published va) w = Inr va'
    \<longleftrightarrow> still_trusted C va w \<and> va' = carried va"
proof -
  let ?out = "(verified_outcome va)\<lparr>outcome_claims := [], outcome_evidence := []\<rparr>"
  have "AuthenticationOutcome_create (outcome_provider (verified_outcome va)) (outcome_subject (verified_outcome va)) []
      (outcome_claimedAssurance (verified_outcome va))
      \<lparr>strength_factors = strength_factors (outcome_strength (verified_outcome va)),
       strength_phishingResistant = strength_phishingResistant (outcome_strength (verified_outcome va))\<rparr> []
      (outcome_verifiedAt (verified_outcome va)) = Inr ?out"
    using assms by (simp add: AuthenticationOutcome_create_def carriable_def StrongId_empty_iff)
  moreover have "\<lparr>verified_outcome = ?out, verified_identity = verified_identity va\<rparr> = carried va"
    by (simp add: carried_def)
  ultimately show ?thesis
    by (auto simp: redeemed_authentication_def still_trusted_def effectiveMaximum_def meetsAssurance_iff ownerOf_map
        ref_key_def split: option.splits sum.splits)
qed

lemma published_lookup:
  "map_of (published_metadata va) ''auth_handoff_identity'' = Some (id_value (verified_identity va))"
  "map_of (published_metadata va) ''handoff_provider'' = Some (id_value (outcome_provider (verified_outcome va)))"
  "map_of (published_metadata va) ''auth_handoff_subject'' = Some (id_value (outcome_subject (verified_outcome va)))"
  "map_of (published_metadata va) ''auth_handoff_assurance'' = Some (assuranceLevelName (outcome_claimedAssurance (verified_outcome va)))"
  "map_of (published_metadata va) ''auth_handoff_factors'' = Some (to_string (unat (strength_factors (outcome_strength (verified_outcome va)))))"
  "map_of (published_metadata va) ''auth_handoff_phishing'' =
     Some (if strength_phishingResistant (outcome_strength (verified_outcome va)) then ''1'' else ''0'')"
  "map_of (published_metadata va) ''auth_handoff_verified_at'' = Some (int_to_string (outcome_verifiedAt (verified_outcome va)))"
  by (simp_all add: published_metadata_def Let_def map_of_emplace omap_ok_emplace)

text \<open>The publisher's transaction, as it was issued.\<close>

definition issued_handoff ::
    "env \<Rightarrow> ProviderId \<Rightarrow> BrowserAuthenticationHandoff \<Rightarrow> string \<Rightarrow> string \<Rightarrow> string \<Rightarrow> string \<Rightarrow> AuthenticationTransaction \<Rightarrow> bool" where
  "issued_handoff E p h publisherId publisherSecret resultId redeemSecret t \<longleftrightarrow>
     splitTicket (bah_publisherTicket h) = Some (publisherId, publisherSecret)
     \<and> splitTicket (bah_redeemTicket h) = Some (resultId, redeemSecret) \<and> resultId \<noteq> []
     \<and> tx_state t = Pending \<and> tx_binding t = no_binding \<and> tx_provider t = StrongId kAuthenticationHandoffProvider
     \<and> sha256 E publisherSecret = Inr (tx_nonceDigest t) \<and> tx_expiresAt t = bah_expiresAt h
     \<and> map_of (tx_metadata t) ''handoff_provider'' = Some (id_value p)
     \<and> map_of (tx_metadata t) ''auth_handoff_result_id'' = Some resultId
     \<and> (\<exists>d. sha256 E redeemSecret = Inr d \<and> map_of (tx_metadata t) ''auth_handoff_redeem_digest'' = Some (digestHex d))"

lemma issue_ok:
  assumes "issueBrowserAuthenticationHandoff C E p correlation w = (Inr h, w')" "crypto_available E"
    and "omap_ok (au_transactions w)"
  obtains a b c d t where "issued_handoff E p h a b c d t" "map_of (au_transactions w') (StrongId a) = Some t"
    "p \<noteq> StrongId []" "omap_ok (au_transactions w')"
proof -
  obtain a b c d where r: "randomTokenBase64Url E 0 32 = Inr a" "randomTokenBase64Url E (Suc 0) 32 = Inr b"
      "randomTokenBase64Url E 2 32 = Inr c" "randomTokenBase64Url E 3 32 = Inr d"
    using assms(1) by (auto simp: issueBrowserAuthenticationHandoff_def Let_def split: sum.splits if_splits)
  note shape = random_token_shape [OF r(1) assms(2)] random_token_shape [OF r(2) assms(2)]
    random_token_shape [OF r(3) assms(2)] random_token_shape [OF r(4) assms(2)]
  obtain digest t0 where t0: "sha256 E d = Inr digest"
      "Transaction_create E (StrongId a) (StrongId kAuthenticationHandoffProvider) Redirect b no_binding correlation
         (env_now E 4) (handoffLifetime C) = Inr t0"
    using assms(1) by (auto simp: issueBrowserAuthenticationHandoff_def Let_def r split: sum.splits if_splits)
  let ?t = "Transaction_setMetadata ''auth_handoff_redeem_digest'' (digestHex digest)
      (Transaction_setMetadata ''auth_handoff_result_id'' c (Transaction_setMetadata ''handoff_provider'' (id_value p) t0))"
  have t: "tx_id ?t = StrongId a" "tx_state ?t = Pending" "tx_binding ?t = no_binding"
      "tx_provider ?t = StrongId kAuthenticationHandoffProvider" "sha256 E b = Inr (tx_nonceDigest ?t)"
      "tx_expiresAt ?t = env_now E 4 + handoffLifetime C" "tx_metadata t0 = []"
    using t0(2) by (auto simp: Transaction_create_def Transaction_new_def Transaction_setMetadata_def split: if_splits sum.splits)
  have h: "h = \<lparr>bah_publisherTicket = a @ ''.'' @ b, bah_redeemTicket = c @ ''.'' @ d,
         bah_expiresAt = env_now E 4 + handoffLifetime C\<rparr>"
      "w' = w\<lparr>au_transactions := omap_emplace (StrongId a) ?t (au_transactions w)\<rparr>"
      "map_of (au_transactions w) (StrongId a) = None" "\<not> StrongId_empty p"
    using assms(1)
    by (auto simp: issueBrowserAuthenticationHandoff_def Let_def r t0 transactions_begin_def t(1) omap_contains_def
        fail_detail_def split: sum.splits if_splits)
  have "map_of (tx_metadata ?t) ''handoff_provider'' = Some (id_value p)"
      "map_of (tx_metadata ?t) ''auth_handoff_result_id'' = Some c"
      "map_of (tx_metadata ?t) ''auth_handoff_redeem_digest'' = Some (digestHex digest)"
    using t(7) by (simp_all add: Transaction_setMetadata_def map_of_insert_or_assign)
  then have "issued_handoff E p h a b c d ?t"
    using t h(1) t0(1) shape by (simp add: issued_handoff_def splitTicket_join del: append.simps)
  moreover have "map_of (au_transactions w') (StrongId a) = Some ?t"
    using h(2,3) assms(3) by (simp add: om.find_emplace_new)
  ultimately show thesis using that h(2,4) assms(3) by (simp add: StrongId_empty_iff omap_ok_emplace)
qed

definition published_handoff ::
    "env \<Rightarrow> BrowserAuthenticationHandoff \<Rightarrow> string \<Rightarrow> VerifiedAuthentication \<Rightarrow> AuthenticationTransaction \<Rightarrow> bool" where
  "published_handoff E h redeemSecret va t \<longleftrightarrow>
     tx_state t = Pending \<and> tx_binding t = no_binding \<and> tx_provider t = StrongId kAuthenticationHandoffResultProvider
     \<and> sha256 E redeemSecret = Inr (tx_nonceDigest t) \<and> tx_expiresAt t = bah_expiresAt h
     \<and> tx_metadata t = published_metadata va"

lemma sha256_cong: "env_SHA256 E' = env_SHA256 E \<Longrightarrow> sha256 E' = sha256 E"
  by (simp add: sha256_def fun_eq_iff)

lemma publish_ok:
  assumes "publishBrowserAuthenticationHandoff E' (bah_publisherTicket h) va w = (ok, w')"
    and "issued_handoff E p h a b c d t" "map_of (au_transactions w) (StrongId a) = Some t"
    and "env_SHA256 E' = env_SHA256 E" "omap_ok (au_transactions w)"
  obtains t' where "published_handoff E h d va t'" "map_of (au_transactions w') (StrongId c) = Some t'"
    "outcome_provider (verified_outcome va) = p" "omap_ok (au_transactions w')"
proof -
  note i = assms(2) [unfolded issued_handoff_def]
  obtain digest where digest: "sha256 E d = Inr digest"
      "map_of (tx_metadata t) ''auth_handoff_redeem_digest'' = Some (digestHex digest)"
    using i by blast
  then have parsed: "parseDigestHex (digestHex digest) = Some digest"
    by (simp add: parseDigestHex_digestHex sha256_length)
  let ?t = "t\<lparr>tx_state := Consumed\<rparr>"
  let ?store = "omap_modify (StrongId a) (\<lambda>_. ?t) (au_transactions w)"
  obtain x store where consumed: "transactions_consume E' (StrongId a) b no_binding (env_now E' 0) (au_transactions w) = (x, store)"
    by fastforce
  then obtain u where "x = Inr u"
    using assms(1) i by (cases x) (auto simp: publishBrowserAuthenticationHandoff_def)
  with consumed have x: "x = Inr ?t" "store = ?store"
    using assms(3) by (auto simp: transactions_consume_ok)
  let ?result = "(Transaction_new (StrongId c) (StrongId kAuthenticationHandoffResultProvider) Redirect digest no_binding
       (tx_correlation t) (env_now E' 1) (bah_expiresAt h))\<lparr>tx_metadata := published_metadata va\<rparr>"
  have run: "outcome_provider (verified_outcome va) = p"
      "transactions_begin ?result ?store = (ok, au_transactions w')"
    using assms(1) consumed x i digest parsed
    by (auto simp: publishBrowserAuthenticationHandoff_def Let_def Transaction_restore_def fail_msg_def Transaction_new_def
        split: if_splits prod.splits)
  then have "map_of ?store (StrongId c) = None" "au_transactions w' = omap_emplace (StrongId c) ?result ?store"
    by (auto simp: transactions_begin_def omap_contains_def Transaction_new_def fail_detail_def split: if_splits)
  then have "map_of (au_transactions w') (StrongId c) = Some ?result" "omap_ok (au_transactions w')"
    using assms(5) by (simp_all add: om.find_emplace_new omap_ok_emplace)
  moreover have "published_handoff E h d va ?result"
    using digest by (simp add: published_handoff_def Transaction_new_def)
  ultimately show thesis using that run(1) by blast
qed

lemma redeem_transactions:
  assumes "splitTicket ticket = Some (c, d)"
  shows "au_transactions (snd (redeemBrowserAuthenticationHandoff C E ticket w)) =
    snd (transactions_consume E (StrongId c) d no_binding (env_now E 0) (au_transactions w))"
proof -
  obtain x store where "transactions_consume E (StrongId c) d no_binding (env_now E 0) (au_transactions w) = (x, store)"
    by fastforce
  then show ?thesis
    using assms by (simp add: redeemBrowserAuthenticationHandoff_def Let_def split: sum.split option.split)
qed

lemma redeem_refused:
  assumes "splitTicket ticket = Some (c, d)" "\<not> tx_redeemable (au_transactions w) (StrongId c)"
  shows "fst (redeemBrowserAuthenticationHandoff C E ticket w) \<noteq> Inr va"
proof -
  obtain x store where c: "transactions_consume E (StrongId c) d no_binding (env_now E 0) (au_transactions w) = (x, store)"
    by fastforce
  then have "\<exists>e. x = Inl e"
    using assms(2) transactions_consume_ok by (cases x) (fastforce simp: tx_redeemable_def)+
  with c assms(1) show ?thesis by (auto simp: redeemBrowserAuthenticationHandoff_def)
qed

lemma redeem_handoff_exact:
  assumes "published_handoff E h d va t" "map_of (au_transactions w) (StrongId c) = Some t"
    and "splitTicket (bah_redeemTicket h) = Some (c, d)" "env_SHA256 E' = env_SHA256 E" "carriable va"
  shows "fst (redeemBrowserAuthenticationHandoff C E' (bah_redeemTicket h) w) = Inr va' \<longleftrightarrow>
      env_now E' 0 < bah_expiresAt h \<and> still_trusted C va w \<and> va' = carried va"
proof -
  note published = assms(1) [unfolded published_handoff_def]
  obtain x store where c: "transactions_consume E' (StrongId c) d no_binding (env_now E' 0) (au_transactions w) = (x, store)"
    by fastforce
  let ?w = "w\<lparr>au_transactions := store\<rparr>"
  have trusted: "still_trusted C va ?w = still_trusted C va w"
    using requireActive_cong [of ?w w C] by (simp add: still_trusted_def)
  show ?thesis
  proof (cases "env_now E' 0 < bah_expiresAt h")
    case True
    then have x: "x = Inr (t\<lparr>tx_state := Consumed\<rparr>)"
      using transactions_consume_ok [of E' "StrongId c" d no_binding "env_now E' 0" "au_transactions w"
          "t\<lparr>tx_state := Consumed\<rparr>"] c assms(2) published sha256_cong [OF assms(4)]
      by auto
    then have "fst (redeemBrowserAuthenticationHandoff C E' (bah_redeemTicket h) w) =
        redeemed_authentication C (id_value (verified_identity va)) (id_value (outcome_provider (verified_outcome va)))
          (id_value (outcome_subject (verified_outcome va))) (published va) ?w"
      using c assms(3) published
      by (simp add: redeemBrowserAuthenticationHandoff_def published_lookup read_published [OF assms(5)] Let_def)
    with True redeemed_iff [OF assms(5), of C ?w va'] trusted show ?thesis by simp
  next
    case False
    then have "\<exists>e. x = Inl e"
      using transactions_consume_ok c assms(2) published by (cases x) fastforce+
    with c False assms(3) show ?thesis by (auto simp: redeemBrowserAuthenticationHandoff_def)
  qed
qed


section \<open>An example\<close>

abbreviation sample_token :: "nat \<Rightarrow> string" where
  "sample_token i \<equiv> toBase64Url (replicate 32 (of_nat i))"

lemma sample_crypto: "crypto_available sample_env"
  by (simp add: crypto_available_def sample_env_def)

lemma sample_ticket: "splitTicket (sample_token i @ CHR ''.'' # sample_token j) = Some (sample_token i, sample_token j)"
  using random_token_shape [of sample_env i, OF _ sample_crypto] random_token_shape [of sample_env j, OF _ sample_crypto]
    splitTicket_join [of "sample_token i" "sample_token j"]
  by simp

lemma sample_token_length: "length (sample_token i) = 43"
  by (simp add: length_toBase64Url_32)

lemma sample_token_distinct: "sample_token 2 \<noteq> sample_token 0" "sample_token i \<noteq> ''t''"
  using sample_token_length [of i] by (code_simp, auto)

definition example_handoff :: BrowserAuthenticationHandoff where
  "example_handoff = \<lparr>bah_publisherTicket = sample_token 0 @ ''.'' @ sample_token 1,
     bah_redeemTicket = sample_token 2 @ ''.'' @ sample_token 3, bah_expiresAt = 104 + 120000\<rparr>"

definition example_sign_in :: VerifiedAuthentication where
  "example_sign_in = \<lparr>verified_outcome = example_outcome, verified_identity = StrongId ''alice''\<rparr>"

definition example_issued :: AuthenticationTransaction where
  "example_issued = (Transaction_new (StrongId (sample_token 0)) (StrongId kAuthenticationHandoffProvider) Redirect
     (replicate 32 3) no_binding (StrongId ''corr'') 104 (104 + 120000))\<lparr>tx_metadata :=
     [(''auth_handoff_redeem_digest'', digestHex (replicate 32 3)), (''auth_handoff_result_id'', sample_token 2),
      (''handoff_provider'', ''github'')]\<rparr>"

lemma example_issue:
  "issueBrowserAuthenticationHandoff example_config sample_env (StrongId ''github'') (StrongId ''corr'')
     (example_auth_world [] example_linked)
   = (Inr example_handoff, (example_auth_world [] example_linked)\<lparr>au_transactions :=
       omap_emplace (StrongId (sample_token 0)) example_issued (au_transactions (example_auth_world [] example_linked))\<rparr>)"
  using sample_token_distinct(2) [of 0]
  by (simp add: issueBrowserAuthenticationHandoff_def example_config_def registry_find_def example_provider_def
      example_sha256 Let_def handoffLifetime_def kBrowserHandoffLifetime_def Transaction_create_def Transaction_new_def
      transactions_begin_def Transaction_setMetadata_def omap_contains_def omap_insert_or_assign_def
      example_handoff_def example_issued_def example_auth_world_def kAuthenticationHandoffProvider_def)

lemma example_publish:
  assumes "au_transactions w = omap_emplace (StrongId (sample_token 0)) example_issued
      (au_transactions (example_auth_world [] example_linked))"
  shows "fst (publishBrowserAuthenticationHandoff sample_env (bah_publisherTicket example_handoff) example_sign_in w) = ok"
proof -
  let ?store = "au_transactions (example_auth_world [] example_linked)"
  let ?t = "example_issued\<lparr>tx_state := Consumed\<rparr>"
  have ok: "omap_ok ?store" "map_of ?store (StrongId (sample_token i)) = None" for i
    using sample_token_distinct(2) [of i] by (simp_all add: example_auth_world_def)
  have found: "map_of (au_transactions w) (StrongId (sample_token 0)) = Some example_issued"
      "map_of (au_transactions w) (StrongId (sample_token 2)) = None"
    using map_of_emplace [OF ok(1)] ok(2) [of 0] ok(2) [of 2] sample_token_distinct(1) unfolding assms by simp_all
  have "transactions_consume sample_env (StrongId (sample_token 0)) (sample_token 1) no_binding (env_now sample_env 0)
      (au_transactions w) = (Inr ?t, omap_modify (StrongId (sample_token 0)) (\<lambda>_. ?t) (au_transactions w))"
    using found by (simp add: transactions_consume_ok example_sha256 example_issued_def Transaction_new_def)
  then show ?thesis
    using sample_ticket [of 0 1] found sample_token_distinct(1)
    by (simp add: publishBrowserAuthenticationHandoff_def example_handoff_def Let_def parseDigestHex_digestHex
        example_issued_def Transaction_new_def example_sign_in_def example_outcome_def Transaction_restore_def
        transactions_begin_def omap_contains_def map_of_modify kAuthenticationHandoffResultProvider_def)
qed


end
