(* ===== verification/Administration.thy ===== *)
theory Administration
  imports Organizations Profile Totp
begin

text \<open>
  Validated administrative commands (\<^verbatim>\<open>src/src/administration/administration.cpp\<close>): the
  first owner of an organization, a new local member, the replacement of a member's roles, a change of
  its lifecycle, and a reset of its credentials. The repositories that apply them are in the database layer.
\<close>

definition admin_validText :: "string \<Rightarrow> nat \<Rightarrow> bool" where
  "admin_validText value maximum = (value \<noteq> [] \<and> length value \<le> maximum \<and> control_free value)"

record InitialAdministrator =
  ia_organization :: Organization
  ia_identity :: Identity
  ia_link :: IdentityLink
  ia_membership :: Membership
  ia_password :: string
  ia_totp :: TotpSecret

text \<open>A link taken through its states in one go.\<close>

definition completed_link :: "IdentityId \<Rightarrow> ProviderId \<Rightarrow> ExternalSubject \<Rightarrow> Instant \<Rightarrow> IdentityLink Result" where
  "completed_link identityId providerId externalSubject now =
     (case Link_request identityId
             \<lparr>ext_providerId = providerId, ext_subject = externalSubject, ext_displayName = None,
              ext_preferredUsername = None, ext_pictureUrl = None\<rparr> now (5 * 60000) of
        Inl e \<Rightarrow> Inl e
      | Inr link \<Rightarrow>
     (case requireVerification now link of
        (Inl e, _) \<Rightarrow> Inl e
      | (Inr _, required) \<Rightarrow>
     (case markVerified now required of
        (Inl e, _) \<Rightarrow> Inl e
      | (Inr _, verified) \<Rightarrow>
     (case complete now verified of
        (Inl e, _) \<Rightarrow> Inl e
      | (Inr _, completed) \<Rightarrow> Inr completed))))"

definition InitialAdministrator_create ::
    "OrganizationId \<Rightarrow> string \<Rightarrow> IdentityId \<Rightarrow> ProviderId \<Rightarrow> ExternalSubject \<Rightarrow> string \<Rightarrow> TotpSecret \<Rightarrow> Instant
     \<Rightarrow> InitialAdministrator Result" where
  "InitialAdministrator_create organizationId organizationName identityId providerId externalSubject password totp now =
     (if \<not> admin_validText (id_value organizationId) 200 \<or> \<not> admin_validText organizationName 500
         \<or> \<not> admin_validText (id_value identityId) 200 \<or> \<not> admin_validText (id_value providerId) 200
         \<or> \<not> admin_validText (id_value externalSubject) 1000 \<or> length password < 16 \<or> length password > 1024
         \<or> id_value identityId = id_value externalSubject
      then fail_msg InvalidArgument ''The initial-administrator request is invalid.''
      else (case Organization_create organizationId organizationName now of
        Inl e \<Rightarrow> Inl e
      | Inr tenant \<Rightarrow>
     (case Identity_create identityId Human now of
        Inl e \<Rightarrow> Inl e
      | Inr subject \<Rightarrow>
     (case completed_link identityId providerId externalSubject now of
        Inl e \<Rightarrow> Inl e
      | Inr link \<Rightarrow>
     (case Membership_invite organizationId identityId now of
        Inl e \<Rightarrow> Inl e
      | Inr invited \<Rightarrow>
     (case grantRole (StrongId ''owner'') invited of
        (Inl e, _) \<Rightarrow> Inl e
      | (Inr _, granted) \<Rightarrow>
     (case Membership_accept granted of
        (Inl e, _) \<Rightarrow> Inl e
      | (Inr _, membership) \<Rightarrow>
          Inr \<lparr>ia_organization = tenant, ia_identity = subject, ia_link = link, ia_membership = membership,
               ia_password = password, ia_totp = totp\<rparr>)))))))"

record LocalMemberEnrollment =
  lme_organizationId :: OrganizationId
  lme_identity :: Identity
  lme_link :: IdentityLink
  lme_membership :: Membership
  lme_generatedPassword :: string
  lme_generatedTotp :: TotpSecret

fun grant_roles :: "Role list \<Rightarrow> Membership \<Rightarrow> Status \<times> Membership" where
  "grant_roles [] m = (ok, m)"
| "grant_roles (role # roles) m =
     (case grantRole role m of
        (Inl e, m') \<Rightarrow> (Inl e, m')
      | (Inr _, m') \<Rightarrow> grant_roles roles m')"

definition validRoles :: "Role list \<Rightarrow> bool" where
  "validRoles roles = (roles \<noteq> [] \<and> length roles \<le> 16 \<and> list_all (\<lambda>role. admin_validText (id_value role) 200) roles)"

text \<open>The source asks for the identity, the link and the invitation before it looks at their errors.\<close>

definition LocalMemberEnrollment_create ::
    "OrganizationId \<Rightarrow> IdentityId \<Rightarrow> ProviderId \<Rightarrow> ExternalSubject \<Rightarrow> Role list \<Rightarrow> string \<Rightarrow> TotpSecret \<Rightarrow> Instant
     \<Rightarrow> LocalMemberEnrollment Result" where
  "LocalMemberEnrollment_create organizationId identityId providerId externalSubject roles generatedPassword generatedTotp now =
     (if \<not> admin_validText (id_value organizationId) 200 \<or> \<not> admin_validText (id_value identityId) 200
         \<or> \<not> admin_validText (id_value providerId) 200 \<or> \<not> admin_validText (id_value externalSubject) 1000
         \<or> id_value identityId = id_value externalSubject \<or> \<not> validRoles roles
         \<or> length generatedPassword < 32 \<or> length generatedPassword > 1024
      then fail_msg InvalidArgument ''The local-member enrollment request is invalid.''
      else if adjacent_find (sort roles)
      then fail_msg InvalidArgument ''Local-member roles must be unique.''
      else (case Identity_create identityId Human now of
        Inl e \<Rightarrow> Inl e
      | Inr identity \<Rightarrow>
     (case Link_request identityId
             \<lparr>ext_providerId = providerId, ext_subject = externalSubject, ext_displayName = None,
              ext_preferredUsername = None, ext_pictureUrl = None\<rparr> now (5 * 60000) of
        Inl e \<Rightarrow> Inl e
      | Inr _ \<Rightarrow>
     (case Membership_invite organizationId identityId now of
        Inl e \<Rightarrow> Inl e
      | Inr invited \<Rightarrow>
     (case completed_link identityId providerId externalSubject now of
        Inl e \<Rightarrow> Inl e
      | Inr link \<Rightarrow>
     (case grant_roles (sort roles) invited of
        (Inl e, _) \<Rightarrow> Inl e
      | (Inr _, granted) \<Rightarrow>
     (case Membership_accept granted of
        (Inl e, _) \<Rightarrow> Inl e
      | (Inr _, membership) \<Rightarrow>
          Inr \<lparr>lme_organizationId = organizationId, lme_identity = identity, lme_link = link,
               lme_membership = membership, lme_generatedPassword = generatedPassword,
               lme_generatedTotp = generatedTotp\<rparr>)))))))"

text \<open>A value of the enumeration's type need not be one of its names.\<close>

datatype MemberLifecycleAction = SuspendMember | ReinstateMember | RemoveMember | OtherAction int

fun memberLifecycleActionName :: "MemberLifecycleAction \<Rightarrow> string" where
  "memberLifecycleActionName SuspendMember = ''suspend''"
| "memberLifecycleActionName ReinstateMember = ''reinstate''"
| "memberLifecycleActionName RemoveMember = ''remove''"
| "memberLifecycleActionName (OtherAction _) = ''remove''"

record MemberRoleReplacement =
  mrr_organizationId :: OrganizationId
  mrr_identityId :: IdentityId
  mrr_roles :: "Role list"
  mrr_occurredAt :: Instant

definition MemberRoleReplacement_create ::
    "OrganizationId \<Rightarrow> IdentityId \<Rightarrow> Role list \<Rightarrow> Instant \<Rightarrow> MemberRoleReplacement Result" where
  "MemberRoleReplacement_create organizationId identityId roles now =
     (if \<not> admin_validText (id_value organizationId) 200 \<or> \<not> admin_validText (id_value identityId) 200 \<or> \<not> validRoles roles
      then fail_msg InvalidArgument ''The role replacement request is invalid.''
      else if adjacent_find (sort roles)
      then fail_msg InvalidArgument ''Replacement roles must be unique.''
      else Inr \<lparr>mrr_organizationId = organizationId, mrr_identityId = identityId, mrr_roles = sort roles,
                mrr_occurredAt = now\<rparr>)"

record MemberLifecycleChange =
  mlc_organizationId :: OrganizationId
  mlc_identityId :: IdentityId
  mlc_action :: MemberLifecycleAction
  mlc_occurredAt :: Instant

definition MemberLifecycleChange_create ::
    "OrganizationId \<Rightarrow> IdentityId \<Rightarrow> MemberLifecycleAction \<Rightarrow> Instant \<Rightarrow> MemberLifecycleChange Result" where
  "MemberLifecycleChange_create organizationId identityId action now =
     (let recognized = (action = SuspendMember \<or> action = ReinstateMember \<or> action = RemoveMember)
      in if \<not> admin_validText (id_value organizationId) 200 \<or> \<not> admin_validText (id_value identityId) 200 \<or> \<not> recognized
         then fail_msg InvalidArgument ''The membership lifecycle request is invalid.''
         else Inr \<lparr>mlc_organizationId = organizationId, mlc_identityId = identityId, mlc_action = action,
                   mlc_occurredAt = now\<rparr>)"

record LocalCredentialReset =
  lcr_organizationId :: OrganizationId
  lcr_identityId :: IdentityId
  lcr_generatedPassword :: string
  lcr_generatedTotp :: TotpSecret
  lcr_occurredAt :: Instant

definition LocalCredentialReset_create ::
    "OrganizationId \<Rightarrow> IdentityId \<Rightarrow> string \<Rightarrow> TotpSecret \<Rightarrow> Instant \<Rightarrow> LocalCredentialReset Result" where
  "LocalCredentialReset_create organizationId identityId generatedPassword generatedTotp now =
     (if \<not> admin_validText (id_value organizationId) 200 \<or> \<not> admin_validText (id_value identityId) 200
         \<or> length generatedPassword < 32 \<or> length generatedPassword > 1024
      then fail_msg InvalidArgument ''The credential reset request is invalid.''
      else Inr \<lparr>lcr_organizationId = organizationId, lcr_identityId = identityId,
                lcr_generatedPassword = generatedPassword, lcr_generatedTotp = generatedTotp, lcr_occurredAt = now\<rparr>)"

section \<open>What a command holds\<close>

lemma admin_validText_nonempty: "admin_validText (id_value i) n \<Longrightarrow> \<not> StrongId_empty i"
  by (cases i) (simp add: admin_validText_def)

definition full_link :: "IdentityId \<Rightarrow> ProviderId \<Rightarrow> ExternalSubject \<Rightarrow> Instant \<Rightarrow> IdentityLink" where
  "full_link i p s now =
     \<lparr>link_owner = i, link_external = \<lparr>ext_providerId = p, ext_subject = s, ext_displayName = None,
        ext_preferredUsername = None, ext_pictureUrl = None\<rparr>,
      link_state = Linked, link_requestedAt = now, link_expiresAt = now + 300000\<rparr>"

lemma completed_link_eq:
  "\<not> StrongId_empty i \<Longrightarrow> \<not> StrongId_empty p \<Longrightarrow> \<not> StrongId_empty s \<Longrightarrow>
   completed_link i p s now = Inr (full_link i p s now)"
  by (simp add: completed_link_def Link_request_def full_link_def link_step_defs)

lemma grant_roles_eq:
  assumes "list_all (\<lambda>r. \<not> StrongId_empty r) roles" "mem_state m \<noteq> Removed" "distinct (mem_roles m @ roles)"
    and "sorted (mem_roles m @ roles)"
  shows "grant_roles roles m = (ok, m\<lparr>mem_roles := mem_roles m @ roles\<rparr>)"
  using assms
proof (induction roles arbitrary: m)
  case (Cons r roles)
  then have "grantRole r m = (ok, m\<lparr>mem_roles := mem_roles m @ [r]\<rparr>)"
    by (auto simp: grantRole_def sorted_append sorted_sort_id)
  with Cons.IH [of "m\<lparr>mem_roles := mem_roles m @ [r]\<rparr>"] Cons.prems show ?case by simp
qed simp

definition active_membership :: "OrganizationId \<Rightarrow> IdentityId \<Rightarrow> Role list \<Rightarrow> Instant \<Rightarrow> Membership" where
  "active_membership organization i roles now =
     \<lparr>mem_organization = organization, mem_identity = i, mem_invitedAt = now, mem_state = MembershipState.Active, mem_roles = roles\<rparr>"

text \<open>
  Administrative commands hold exactly what was asked for. A member enrolment is accepted just
  when its texts are well formed, the password has 32 to 1024 characters, the identity is not
  named like its external account, and its at most 16 roles are well formed and distinct; it then holds
  an active human identity, a completed link from exactly that external account to it, and an active
  membership with exactly the roles given, sorted. The first administrator is the same with the single role
  owner of an active organization and a password of at least 16 characters. A role replacement holds
  exactly the distinct roles asked for.
\<close>

theorem onboarding_exact:
  "(LocalMemberEnrollment_create organization i p s roles password totp now = Inr member \<longleftrightarrow>
      admin_validText (id_value organization) 200 \<and> admin_validText (id_value i) 200 \<and> admin_validText (id_value p) 200
      \<and> admin_validText (id_value s) 1000 \<and> id_value i \<noteq> id_value s \<and> validRoles roles \<and> distinct roles
      \<and> length password \<in> {32 .. 1024}
      \<and> member = \<lparr>lme_organizationId = organization,
          lme_identity = \<lparr>ident_id = i, ident_kind = Human, ident_status = IdentityStatus.Active, ident_createdAt = now\<rparr>,
          lme_link = full_link i p s now, lme_membership = active_membership organization i (sort roles) now,
          lme_generatedPassword = password, lme_generatedTotp = totp\<rparr>)
   \<and> (InitialAdministrator_create organization name i p s password totp now = Inr owner \<longleftrightarrow>
      admin_validText (id_value organization) 200 \<and> admin_validText name 500 \<and> admin_validText (id_value i) 200
      \<and> admin_validText (id_value p) 200 \<and> admin_validText (id_value s) 1000 \<and> id_value i \<noteq> id_value s
      \<and> length password \<in> {16 .. 1024}
      \<and> owner = \<lparr>ia_organization = \<lparr>org_id = organization, org_displayName = name, org_createdAt = now,
            org_status = OrganizationStatus.Active\<rparr>,
          ia_identity = \<lparr>ident_id = i, ident_kind = Human, ident_status = IdentityStatus.Active, ident_createdAt = now\<rparr>,
          ia_link = full_link i p s now, ia_membership = active_membership organization i [StrongId ''owner''] now,
          ia_password = password, ia_totp = totp\<rparr>)
   \<and> (MemberRoleReplacement_create organization i roles now = Inr replacement \<longleftrightarrow>
      admin_validText (id_value organization) 200 \<and> admin_validText (id_value i) 200 \<and> validRoles roles \<and> distinct roles
      \<and> replacement = \<lparr>mrr_organizationId = organization, mrr_identityId = i, mrr_roles = sort roles, mrr_occurredAt = now\<rparr>)"
  (is "?enrol \<and> ?first \<and> ?replace")
proof (intro conjI)
  note nonempty = admin_validText_nonempty [of organization 200] admin_validText_nonempty [of i 200]
    admin_validText_nonempty [of p 200] admin_validText_nonempty [of s 1000]
  let ?invited = "\<lparr>mem_organization = organization, mem_identity = i, mem_invitedAt = now, mem_state = Invited, mem_roles = []\<rparr>"
  show ?enrol
  proof (cases "admin_validText (id_value organization) 200 \<and> admin_validText (id_value i) 200 \<and> admin_validText (id_value p) 200
      \<and> admin_validText (id_value s) 1000 \<and> id_value i \<noteq> id_value s \<and> validRoles roles \<and> distinct roles")
    case True
    then have "list_all (\<lambda>r. \<not> StrongId_empty r) (sort roles)"
      using admin_validText_nonempty by (auto simp: validRoles_def list_all_iff)
    then have "grant_roles (sort roles) ?invited = (ok, ?invited\<lparr>mem_roles := sort roles\<rparr>)"
      using grant_roles_eq [of "sort roles" ?invited] True by simp
    with True nonempty show ?thesis
      by (auto simp: LocalMemberEnrollment_create_def fail_msg_def Identity_create_def completed_link_eq Membership_invite_def
          Link_request_def Membership_accept_def active_membership_def split: if_splits)
  qed (auto simp: LocalMemberEnrollment_create_def fail_msg_def)
  show ?first
  proof (cases "admin_validText (id_value organization) 200 \<and> admin_validText name 500 \<and> admin_validText (id_value i) 200
      \<and> admin_validText (id_value p) 200 \<and> admin_validText (id_value s) 1000")
    case True
    then have "name \<noteq> []" by (simp add: admin_validText_def)
    with True nonempty show ?thesis
      by (auto simp: InitialAdministrator_create_def fail_msg_def Organization_create_def Identity_create_def completed_link_eq
          Membership_invite_def grantRole_def Membership_accept_def active_membership_def split: if_splits)
  qed (auto simp: InitialAdministrator_create_def fail_msg_def)
  show ?replace
    by (auto simp: MemberRoleReplacement_create_def fail_msg_def)
qed

end
