(* ===== verification/Cbor.thy ===== *)
theory Cbor
  imports Security
begin

text \<open>
  The CBOR reader of the passkey provider, \<^verbatim>\<open>CborReader\<close> of
  \<^verbatim>\<open>src/src/providers/passkey/passkey.cpp\<close>. The reader's state is the input that is left;
  after a failure the source never reads on, so a failing call has no state. What it accepts is
  stated against an encoder: the one shortest encoding of each item.
\<close>

unbundle bit_operations_syntax

section \<open>The reader\<close>

record Head =
  head_major :: byte
  head_value :: "64 word"

type_synonym 'a reading = "('a \<times> byte list) Result"

abbreviation invalid :: "'a reading" where "invalid \<equiv> fail_code InvalidArgument"

definition head_bytes :: "byte \<Rightarrow> nat" where
  "head_bytes additional =
     (if additional = 24 then 1 else if additional = 25 then 2 else if additional = 26 then 4
      else if additional = 27 then 8 else 0)"

definition read_big :: "byte list \<Rightarrow> 64 word" where
  "read_big bs = foldl (\<lambda>value b. push_bit 8 value OR ucast b) 0 bs"

definition cbor_head :: "byte list \<Rightarrow> Head reading" where
  "cbor_head input =
     (case input of
        [] \<Rightarrow> invalid
      | first # rest \<Rightarrow>
          let major = drop_bit 5 first; additional = first AND 0x1F in
          if additional = 31 then invalid
          else if additional < 24 then Inr (\<lparr>head_major = major, head_value = ucast additional\<rparr>, rest)
          else let n = head_bytes additional in
               if n = 0 \<or> n > length rest then invalid
               else let value = read_big (take n rest) in
                    if (n = 1 \<and> value < 24) \<or> (n = 2 \<and> value \<le> 0xFF) \<or> (n = 4 \<and> value \<le> 0xFFFF)
                       \<or> (n = 8 \<and> value \<le> 0xFFFFFFFF)
                    then invalid
                    else Inr (\<lparr>head_major = major, head_value = value\<rparr>, drop n rest))"

definition cbor_integer :: "byte list \<Rightarrow> int reading" where
  "cbor_integer input =
     (case cbor_head input of
        Inl _ \<Rightarrow> invalid
      | Inr (h, rest) \<Rightarrow>
          if (head_major h \<noteq> 0 \<and> head_major h \<noteq> 1) \<or> uint (head_value h) > 2 ^ 63 - 1 then invalid
          else Inr (if head_major h = 0 then uint (head_value h) else - 1 - uint (head_value h), rest))"

text \<open>Both string readers: the tag of the source's function is the major type.\<close>

definition cbor_chunk :: "byte \<Rightarrow> nat \<Rightarrow> byte list \<Rightarrow> byte list reading" where
  "cbor_chunk major maximum input =
     (case cbor_head input of
        Inl _ \<Rightarrow> invalid
      | Inr (h, rest) \<Rightarrow>
          if head_major h \<noteq> major \<or> unat (head_value h) > maximum \<or> unat (head_value h) > length rest then invalid
          else Inr (take (unat (head_value h)) rest, drop (unat (head_value h)) rest))"

definition cbor_text :: "nat \<Rightarrow> byte list \<Rightarrow> string reading" where
  "cbor_text maximum input =
     (case cbor_chunk 3 maximum input of
        Inl e \<Rightarrow> Inl e
      | Inr (bs, rest) \<Rightarrow> Inr (map (\<lambda>b. char_of (unat b)) bs, rest))"

definition cbor_bytes :: "nat \<Rightarrow> byte list \<Rightarrow> byte list reading" where
  "cbor_bytes maximum input = cbor_chunk 2 maximum input"

text \<open>A step of the reader repeated as a counted loop does.\<close>

fun cbor_times :: "nat \<Rightarrow> (byte list \<Rightarrow> byte list Result) \<Rightarrow> byte list \<Rightarrow> byte list Result" where
  "cbor_times 0 f input = Inr input"
| "cbor_times (Suc n) f input = (case f input of Inl e \<Rightarrow> Inl e | Inr rest \<Rightarrow> cbor_times n f rest)"

text \<open>
  The recursion of \<^verbatim>\<open>skip\<close> on the depth left: depth d of the source is level 13 - d, and
  level 0 is the depth it refuses.
\<close>

fun cbor_skip :: "nat \<Rightarrow> byte list \<Rightarrow> byte list Result" where
  "cbor_skip 0 input = fail_code InvalidArgument"
| "cbor_skip (Suc level) input =
     (case cbor_head input of
        Inl e \<Rightarrow> Inl e
      | Inr (h, rest) \<Rightarrow>
          if head_major h = 0 \<or> head_major h = 1 \<or> head_major h = 7 then Inr rest
          else if head_major h = 2 \<or> head_major h = 3
          then (if unat (head_value h) > length rest then fail_code InvalidArgument
                else Inr (drop (unat (head_value h)) rest))
          else if head_major h = 4
          then (if head_value h > 256 then fail_code InvalidArgument
                else cbor_times (unat (head_value h)) (cbor_skip level) rest)
          else if head_major h = 5
          then (if head_value h > 256 then fail_code InvalidArgument
                else cbor_times (unat (head_value h)) (cbor_times 2 (cbor_skip level)) rest)
          else if head_major h = 6 then cbor_skip level rest
          else fail_code InvalidArgument)"

section \<open>The shortest encoding of a head\<close>

fun big_endian :: "nat \<Rightarrow> 64 word \<Rightarrow> byte list" where
  "big_endian 0 v = []"
| "big_endian (Suc n) v = ucast (drop_bit (8 * n) v) # big_endian n v"

definition width_of :: "64 word \<Rightarrow> nat" where
  "width_of v = (if v \<le> 0xFF then 1 else if v \<le> 0xFFFF then 2 else if v \<le> 0xFFFFFFFF then 4 else 8)"

definition width_code :: "nat \<Rightarrow> byte" where
  "width_code n = (if n = 1 then 24 else if n = 2 then 25 else if n = 4 then 26 else 27)"

definition encode_head :: "byte \<Rightarrow> 64 word \<Rightarrow> byte list" where
  "encode_head major v =
     (if v < 24 then [push_bit 5 major OR ucast v]
      else (push_bit 5 major OR width_code (width_of v)) # big_endian (width_of v) v)"

lemma length_big_endian [simp]: "length (big_endian n v) = n"
  by (induction n) simp_all

lemma read_big_acc:
  "foldl (\<lambda>value b. push_bit 8 value OR ucast b) acc (big_endian n v) = push_bit (8 * n) acc OR take_bit (8 * n) v"
proof (induction n arbitrary: acc)
  case (Suc n)
  have "push_bit (8 * n) (push_bit 8 acc OR ucast (ucast (drop_bit (8 * n) v) :: byte)) OR take_bit (8 * n) v
      = push_bit (8 * Suc n) acc OR take_bit (8 * Suc n) v"
    by (rule bit_word_eqI) (auto simp: bit_simps add.commute [of _ 8])
  with Suc show ?case by simp
qed simp

lemma read_big_encoded: "read_big (big_endian n v) = take_bit (8 * n) v"
  by (simp add: read_big_def read_big_acc)

lemma read_big_snoc: "read_big (bs @ [b]) = push_bit 8 (read_big bs) OR ucast b"
  by (simp add: read_big_def)

lemma read_big_bound: "length bs = n \<Longrightarrow> take_bit (8 * n) (read_big bs) = read_big bs"
proof (induction bs arbitrary: n rule: rev_induct)
  case (snoc b bs)
  have "take_bit (8 * length bs) (read_big bs) = read_big bs" using snoc by simp
  then have bits: "bit (read_big bs) k \<Longrightarrow> k < 8 * length bs" for k
    by (metis bit_take_bit_iff)
  show ?case
    using snoc.prems
    by (intro bit_word_eqI) (auto simp: read_big_snoc bit_simps dest: bits bit_imp_le_length)
qed (simp add: read_big_def)

lemma big_endian_snoc: "8 * n < 64 \<Longrightarrow> big_endian (Suc n) v = big_endian n (drop_bit 8 v) @ [ucast v]"
proof (induction n)
  case (Suc n)
  have "ucast (drop_bit (8 * Suc n) v) = (ucast (drop_bit (8 * n) (drop_bit 8 v)) :: byte)"
    by (simp add: drop_bit_drop_bit add.commute)
  with Suc show ?case by simp
qed simp

lemma big_endian_read_big:
  "length bs = n \<Longrightarrow> n \<le> 8 \<Longrightarrow> big_endian n (read_big bs) = bs"
proof (induction bs arbitrary: n rule: rev_induct)
  case (snoc b bs)
  have "take_bit (8 * length bs) (read_big bs) = read_big bs" by (rule read_big_bound) simp
  then have bits: "bit (read_big bs) k \<Longrightarrow> k < 8 * length bs" for k
    by (metis bit_take_bit_iff)
  have "drop_bit 8 (read_big (bs @ [b])) = read_big bs"
    using snoc.prems by (intro bit_word_eqI) (auto simp: read_big_snoc bit_simps dest: bits bit_imp_le_length)
  moreover have "ucast (read_big (bs @ [b])) = b"
    by (rule bit_word_eqI) (auto simp: read_big_snoc bit_simps)
  ultimately show ?case
    using snoc big_endian_snoc [of "length bs" "read_big (bs @ [b])"] by auto
qed simp

lemma take_bit_self: "take_bit n (v :: 'a::len word) = v \<longleftrightarrow> unat v < 2 ^ n"
  by (metis take_bit_nat_eq_self_iff unsigned_take_bit_eq unsigned_word_eqI)

lemma and_1F: "(x :: 'a::len word) AND 0x1F = take_bit 5 x"
  by (simp add: take_bit_eq_mask mask_eq_exp_minus_1)

lemma first_byte:
  assumes "m < (8 :: byte)" "c < (32 :: byte)"
  shows "drop_bit 5 (push_bit 5 m OR c) = m" "(push_bit 5 m OR c) AND 0x1F = c"
proof -
  have m: "take_bit 3 m = m" and c: "take_bit 5 c = c"
    using assms by (simp_all add: take_bit_self word_less_nat_alt)
  have mb: "bit m n \<Longrightarrow> n < 3" and cb: "bit c n \<Longrightarrow> n < 5" for n
    using m c by (metis bit_take_bit_iff)+
  show "(push_bit 5 m OR c) AND 0x1F = c"
    unfolding and_1F by (rule bit_word_eqI) (auto simp: bit_simps dest: cb)
  show "drop_bit 5 (push_bit 5 m OR c) = m"
    by (rule bit_word_eqI) (auto simp: bit_simps dest: mb cb)
qed

lemma split_first_byte: "push_bit 5 (drop_bit 5 b) OR (b AND 0x1F) = (b :: byte)" "drop_bit 5 b < (8 :: byte)"
proof -
  show "push_bit 5 (drop_bit 5 b) OR (b AND 0x1F) = b"
    unfolding and_1F by (rule bit_word_eqI) (auto simp: bit_simps)
  have "take_bit 3 (drop_bit 5 b) = drop_bit 5 b"
    by (rule bit_word_eqI) (auto simp: bit_simps dest: bit_imp_le_length)
  then show "drop_bit 5 b < (8 :: byte)" by (simp add: take_bit_self word_less_nat_alt)
qed

lemma small_ucast:
  assumes "v < (24 :: 64 word)"
  shows "(ucast v :: byte) < 24" "ucast (ucast v :: byte) = v"
proof -
  have n: "unat v < 24" using assms by (simp add: word_less_nat_alt)
  then show "(ucast v :: byte) < 24" by (simp add: word_less_nat_alt unsigned_ucast_eq take_bit_eq_mod)
  have "take_bit 8 v = v" using n by (simp add: take_bit_self)
  then have "bit v k \<Longrightarrow> k < 8" for k by (metis bit_take_bit_iff)
  then show "ucast (ucast v :: byte) = v" by (intro bit_word_eqI) (auto simp: bit_simps)
qed

lemma width_bits: "take_bit (8 * width_of v) v = v"
  using unsigned_less [of v, where 'a = nat] by (auto simp: width_of_def take_bit_self word_le_nat_alt word_less_nat_alt)

lemma width_cases: "width_of v \<in> {1, 2, 4, 8}"
  by (simp add: width_of_def)

text \<open>A head is read back from its shortest encoding, and nothing else is read as a head.\<close>

lemma head_encode:
  assumes "m < 8"
  shows "cbor_head (encode_head m v @ rest) = Inr (\<lparr>head_major = m, head_value = v\<rparr>, rest)"
proof (cases "v < 24")
  case True
  note small = small_ucast [OF True]
  then have "(ucast v :: byte) < 32" "(ucast v :: byte) \<noteq> 31" by (auto simp: word_less_nat_alt)
  with True small first_byte [OF assms] show ?thesis
    by (simp add: cbor_head_def encode_head_def Let_def)
next
  case False
  let ?n = "width_of v"
  have code: "0 < ?n" "width_code ?n < 32" "width_code ?n \<noteq> 31" "\<not> width_code ?n < 24" "head_bytes (width_code ?n) = ?n"
    using width_cases [of v] by (auto simp: width_code_def head_bytes_def)
  have "\<not> ((?n = 1 \<and> v < 24) \<or> (?n = 2 \<and> v \<le> 0xFF) \<or> (?n = 4 \<and> v \<le> 0xFFFF) \<or> (?n = 8 \<and> v \<le> 0xFFFFFFFF))"
    using False by (auto simp: width_of_def split: if_splits)
  with False code first_byte [OF assms code(2)] width_cases [of v] show ?thesis
    by (simp add: cbor_head_def encode_head_def Let_def read_big_encoded width_bits)
qed

lemma head_unique:
  assumes "cbor_head input = Inr (h, rest)"
  shows "input = encode_head (head_major h) (head_value h) @ rest" "head_major h < 8"
proof -
  obtain b tail where input: "input = b # tail" using assms by (cases input) (simp_all add: cbor_head_def)
  have major: "head_major h = drop_bit 5 b"
    using assms input by (auto simp: cbor_head_def Let_def split: if_splits)
  then show "head_major h < 8" using split_first_byte(2) by simp
  let ?a = "b AND 0x1F" and ?n = "head_bytes (b AND 0x1F)"
  show "input = encode_head (head_major h) (head_value h) @ rest"
  proof (cases "?a < 24")
    case True
    then have h: "head_value h = ucast ?a" "rest = tail" "(ucast ?a :: 64 word) < 24"
      using assms input by (auto simp: cbor_head_def Let_def word_less_nat_alt unsigned_ucast_eq take_bit_eq_mod split: if_splits)
    moreover have "ucast (ucast ?a :: 64 word) = ?a" by (rule bit_word_eqI) (auto simp: bit_simps)
    ultimately show ?thesis using input major split_first_byte(1) [of b] by (simp add: encode_head_def)
  next
    case False
    then have h: "?n \<noteq> 0" "?n \<le> length tail" "head_value h = read_big (take ?n tail)" "rest = drop ?n tail"
        "\<not> ((?n = 1 \<and> head_value h < 24) \<or> (?n = 2 \<and> head_value h \<le> 0xFF)
            \<or> (?n = 4 \<and> head_value h \<le> 0xFFFF) \<or> (?n = 8 \<and> head_value h \<le> 0xFFFFFFFF))"
      using assms input by (auto simp: cbor_head_def Let_def split: if_splits)
    have n: "?n \<in> {1, 2, 4, 8}" "width_code ?n = ?a"
      using h(1) by (auto simp: head_bytes_def width_code_def split: if_splits)
    have "unat (head_value h) < 2 ^ (8 * ?n)"
      using read_big_bound [of "take ?n tail" ?n] h(2,3) by (simp add: take_bit_self)
    then have w: "width_of (head_value h) = ?n" and large: "\<not> head_value h < 24"
      using h(5) n(1) by (auto simp: width_of_def word_le_nat_alt word_less_nat_alt split: if_splits)
    have "big_endian ?n (head_value h) = take ?n tail"
      using big_endian_read_big [of "take ?n tail" ?n] h(2,3) n(1) by auto
    with input major split_first_byte(1) w large n(2) h(4) show ?thesis by (simp add: encode_head_def)
  qed
qed

section \<open>The items\<close>

datatype cbor =
    CHead byte "64 word"
  | CString byte "byte list"
  | CArray "cbor list"
  | CMap "(cbor \<times> cbor) list"
  | CTag "64 word" cbor

fun encode :: "cbor \<Rightarrow> byte list" where
  "encode (CHead major v) = encode_head major v"
| "encode (CString major bs) = encode_head major (of_nat (length bs)) @ bs"
| "encode (CArray xs) = encode_head 4 (of_nat (length xs)) @ concat (map encode xs)"
| "encode (CMap ps) = encode_head 5 (of_nat (length ps)) @ concat (map (\<lambda>(k, v). encode k @ encode v) ps)"
| "encode (CTag t x) = encode_head 6 t @ encode x"

text \<open>Integers, simple values and tags of any kind, strings, arrays and maps of at most 256 entries, nested at most so deep.\<close>

fun readable :: "nat \<Rightarrow> cbor \<Rightarrow> bool" where
  "readable 0 x = False"
| "readable (Suc level) (CHead major v) = (major = 0 \<or> major = 1 \<or> major = 7)"
| "readable (Suc level) (CString major bs) = ((major = 2 \<or> major = 3) \<and> length bs < 2 ^ 64)"
| "readable (Suc level) (CArray xs) = (length xs \<le> 256 \<and> list_all (readable level) xs)"
| "readable (Suc level) (CMap ps) = (length ps \<le> 256 \<and> list_all (\<lambda>(k, v). readable level k \<and> readable level v) ps)"
| "readable (Suc level) (CTag t x) = readable level x"

lemma times_exact:
  assumes "\<And>input rest. f input = Inr rest \<longleftrightarrow> (\<exists>x. P x \<and> input = e x @ rest)"
  shows "cbor_times n f input = Inr rest \<longleftrightarrow> (\<exists>xs. length xs = n \<and> list_all P xs \<and> input = concat (map e xs) @ rest)"
proof (induction n arbitrary: input)
  case (Suc n)
  have "cbor_times (Suc n) f input = Inr rest \<longleftrightarrow> (\<exists>mid. f input = Inr mid \<and> cbor_times n f mid = Inr rest)"
    by (auto split: sum.splits)
  also have "\<dots> \<longleftrightarrow> (\<exists>x xs. P x \<and> length xs = n \<and> list_all P xs \<and> input = e x @ concat (map e xs) @ rest)"
    unfolding assms Suc by blast
  also have "\<dots> \<longleftrightarrow> (\<exists>ys. length ys = Suc n \<and> list_all P ys \<and> input = concat (map e ys) @ rest)"
  proof
    assume "\<exists>ys. length ys = Suc n \<and> list_all P ys \<and> input = concat (map e ys) @ rest"
    then obtain x xs where "length (x # xs) = Suc n" "list_all P (x # xs)" "input = concat (map e (x # xs)) @ rest"
      by (metis length_Suc_conv)
    then show "\<exists>x xs. P x \<and> length xs = n \<and> list_all P xs \<and> input = e x @ concat (map e xs) @ rest" by auto
  qed (force intro: exI [of _ "_ # _"])
  finally show ?case .
qed auto

lemma pair_exact:
  assumes "\<And>input rest. f input = Inr rest \<longleftrightarrow> (\<exists>x. P x \<and> input = e x @ rest)"
  shows "cbor_times 2 f input = Inr rest \<longleftrightarrow>
    (\<exists>p. (\<lambda>(k, v). P k \<and> P v) p \<and> input = (\<lambda>(k, v). e k @ e v) p @ rest)"
proof -
  have "cbor_times 2 f input = Inr rest \<longleftrightarrow> (\<exists>mid. f input = Inr mid \<and> f mid = Inr rest)"
    by (auto simp: numeral_2_eq_2 split: sum.splits)
  then show ?thesis unfolding assms by auto
qed

lemma head_iff: "m < 8 \<Longrightarrow> cbor_head input = Inr (h, rest) \<and> head_major h = m
    \<longleftrightarrow> (\<exists>v. h = \<lparr>head_major = m, head_value = v\<rparr> \<and> input = encode_head m v @ rest)"
  using head_unique [of input h rest] head_encode [of m _ rest] by (cases h) auto

lemma of_nat_unat_length: "unat v = length xs \<Longrightarrow> (v :: 64 word) = of_nat (length xs)"
  by (metis unat_eq_nat_uint word_of_nat_eq_iff of_nat_unat ucast_id)

lemma word_256: "\<not> (v :: 64 word) > 256 \<longleftrightarrow> unat v \<le> 256"
  by (simp add: word_less_nat_alt not_less)

text \<open>One level of the recursion, in both directions, over what the level below accepts.\<close>

lemma skip_sound:
  assumes IH: "\<And>input rest. cbor_skip level input = Inr rest \<longleftrightarrow> (\<exists>x. readable level x \<and> input = encode x @ rest)"
    and skipped: "cbor_skip (Suc level) input = Inr rest"
  shows "\<exists>x. readable (Suc level) x \<and> input = encode x @ rest"
proof -
  note items = times_exact [of "cbor_skip level" "readable level" encode, OF IH]
  note pairs = times_exact [of "cbor_times 2 (cbor_skip level)", OF pair_exact [of "cbor_skip level" "readable level" encode, OF IH]]
  obtain h mid where h: "cbor_head input = Inr (h, mid)" using skipped by (auto split: sum.splits)
  obtain m v where mv: "h = \<lparr>head_major = m, head_value = v\<rparr>" by (cases h) auto
  have input: "input = encode_head m v @ mid" using head_unique(1) [OF h] mv by simp
  have "m = 0 \<or> m = 1 \<or> m = 7 \<or> m = 2 \<or> m = 3 \<or> m = 4 \<or> m = 5 \<or> m = 6"
  proof (rule ccontr)
    assume "\<not> ?thesis"
    with skipped show False by (simp add: h mv fail_code_def)
  qed
  then consider "m = 0 \<or> m = 1 \<or> m = 7" | "m = 2 \<or> m = 3" | "m = 4" | "m = 5" | "m = 6" by blast
  then show ?thesis
  proof cases
    case 1
    with skipped have "rest = mid" by (auto simp: h mv)
    with 1 show ?thesis using input by (intro exI [of _ "CHead m v"]) simp
  next
    case 2
    with skipped have "unat v \<le> length mid" "rest = drop (unat v) mid"
      by (auto simp: h mv fail_code_def split: if_split_asm)
    moreover have "unat v < 2 ^ 64" using unsigned_less [of v, where 'a = nat] by simp
    ultimately show ?thesis
      using input 2 by (intro exI [of _ "CString m (take (unat v) mid)"]) (auto simp: min_def)
  next
    case 3
    with skipped have v: "unat v \<le> 256" "cbor_times (unat v) (cbor_skip level) mid = Inr rest"
      by (simp_all add: h mv fail_code_def flip: word_256 split: if_split_asm)
    then obtain xs where "length xs = unat v" "list_all (readable level) xs" "mid = concat (map encode xs) @ rest"
      unfolding items by blast
    with 3 v show ?thesis using input of_nat_unat_length [of v xs] by (intro exI [of _ "CArray xs"]) simp
  next
    case 4
    with skipped have v: "unat v \<le> 256" "cbor_times (unat v) (cbor_times 2 (cbor_skip level)) mid = Inr rest"
      by (simp_all add: h mv fail_code_def flip: word_256 split: if_split_asm)
    then obtain ps where "length ps = unat v" "list_all (\<lambda>(k, v). readable level k \<and> readable level v) ps"
        "mid = concat (map (\<lambda>(k, v). encode k @ encode v) ps) @ rest"
      unfolding pairs by blast
    with 4 v show ?thesis using input of_nat_unat_length [of v ps] by (intro exI [of _ "CMap ps"]) simp
  next
    case 5
    with skipped have "cbor_skip level mid = Inr rest" by (simp add: h mv)
    then obtain x where "readable level x" "mid = encode x @ rest" unfolding IH by blast
    with 5 show ?thesis using input by (intro exI [of _ "CTag v x"]) simp
  qed
qed

lemma skip_complete:
  assumes IH: "\<And>input rest. cbor_skip level input = Inr rest \<longleftrightarrow> (\<exists>x. readable level x \<and> input = encode x @ rest)"
    and x: "readable (Suc level) x" "input = encode x @ rest"
  shows "cbor_skip (Suc level) input = Inr rest"
proof -
  note items = times_exact [of "cbor_skip level" "readable level" encode, OF IH]
  note pairs = times_exact [of "cbor_times 2 (cbor_skip level)", OF pair_exact [of "cbor_skip level" "readable level" encode, OF IH]]
  have small: "unat (of_nat n :: 64 word) = n" "\<not> (of_nat n :: 64 word) > 256" if "n \<le> 256" for n
    using that by (simp_all add: word_256 unsigned_of_nat take_bit_eq_mod)
  show ?thesis
  proof (cases x)
    case (CHead m v)
    with x show ?thesis by (auto simp: head_encode)
  next
    case (CString m bs)
    with x have "unat (of_nat (length bs) :: 64 word) = length bs" by (simp add: unsigned_of_nat take_bit_eq_mod)
    with CString x show ?thesis by (auto simp: head_encode)
  next
    case (CArray xs)
    with x small [of "length xs"] show ?thesis by (auto simp: head_encode items)
  next
    case (CMap ps)
    with x small [of "length ps"] show ?thesis by (auto simp: head_encode pairs)
  next
    case (CTag t y)
    with x show ?thesis by (auto simp: head_encode IH)
  qed
qed

text \<open>
  C22. The reader skips exactly one item: what it steps over is the shortest encoding of a readable
  item, and it steps over every one of them.
\<close>

theorem cbor_skip_exact: "cbor_skip level input = Inr rest \<longleftrightarrow> (\<exists>x. readable level x \<and> input = encode x @ rest)"
proof (induction level arbitrary: input rest)
  case (Suc level)
  then show ?case using skip_sound [of level input rest] skip_complete [of level _ input rest] by blast
qed (simp add: fail_code_def)

end
