(* ===== verification/Webauthn.thy ===== *)
theory Webauthn
  imports Cbor Authenticator Decimal Json "HOL-Library.Sublist"
begin

text \<open>
  The ceremony checks of the passkey provider, the free functions of
  \<^verbatim>\<open>src/src/providers/passkey/passkey.cpp\<close>: names and origins, the client data, the
  authenticator data, the COSE key, the attestation object and the signature. Boost.JSON and OpenSSL
  are the fields of \<open>webauthn_library\<close>.
\<close>

section \<open>The libraries behind the provider\<close>

text \<open>
  \<open>wl_parse\<close> and \<open>wl_serialize\<close> are the parser (\<open>None\<close>: an error code) and the printer of
  Boost.JSON; \<open>wl_params\<close> says whether OpenSSL builds the parameters for a point, \<open>wl_fromdata\<close>
  whether it imports the point as a P-256 public key, and \<open>wl_verify\<close> whether
  \<^verbatim>\<open>EVP_DigestVerify\<close> with SHA-256 accepts, under the key of a point, a signature of a message.
\<close>

record webauthn_library =
  wl_parse :: "string \<Rightarrow> json_value option"
  wl_serialize :: "json_value \<Rightarrow> string"
  wl_params :: "byte list \<Rightarrow> bool"
  wl_fromdata :: "byte list \<Rightarrow> bool"
  wl_verify :: "byte list \<Rightarrow> byte list \<Rightarrow> byte list \<Rightarrow> bool"

section \<open>Names and origins\<close>

definition kUserPresent :: byte where "kUserPresent = 0x01"
definition kUserVerified :: byte where "kUserVerified = 0x04"
definition kAttestedCredentialData :: byte where "kAttestedCredentialData = 0x40"
definition kExtensionData :: byte where "kExtensionData = 0x80"
definition kMaximumClientData :: nat where "kMaximumClientData = 16 * 1024"
definition kMaximumAttestation :: nat where "kMaximumAttestation = 64 * 1024"
definition kMaximumCredentialIdBytes :: nat where "kMaximumCredentialIdBytes = 1023"

definition safeText :: "string \<Rightarrow> nat \<Rightarrow> bool" where
  "safeText v maximum =
     (v \<noteq> [] \<and> length v \<le> maximum
      \<and> \<not> list_ex (\<lambda>symbol. of_char symbol < (0x20 :: nat) \<or> of_char symbol = (0x7F :: nat)) v)"

definition ends_with :: "string \<Rightarrow> string \<Rightarrow> bool" where
  "ends_with s e = suffix e s"

definition dns_label :: "string \<Rightarrow> bool" where
  "dns_label label =
     (label \<noteq> [] \<and> length label \<le> 63 \<and> \<not> starts_with label ''-'' \<and> \<not> ends_with label ''-''
      \<and> list_all (\<lambda>symbol. is_lower_char symbol \<or> is_digit_char symbol \<or> symbol = CHR ''-'') label)"

text \<open>The loop over the labels: what is left of the name from \<^verbatim>\<open>begin\<close> on.\<close>

function dns_labels :: "string \<Rightarrow> bool" where
  "dns_labels v =
     (if v = [] then True
      else let label = takeWhile ((\<noteq>) (CHR ''.'')) v; after = dropWhile ((\<noteq>) (CHR ''.'')) v
           in if \<not> dns_label label then False
              else if after = [] then True
              else dns_labels (tl after))"
  by pat_completeness auto
termination
proof (relation "measure length", goal_cases)
  case (2 v label after)
  then have "length after \<le> length v" "after \<noteq> []" by (simp_all add: length_dropWhile_le)
  then show ?case by (cases after) simp_all
qed simp

declare dns_labels.simps [simp del]

definition validDnsName :: "string \<Rightarrow> bool" where
  "validDnsName v =
     (if \<not> safeText v 253 \<or> starts_with v ''.'' \<or> ends_with v ''.'' \<or> sublist ''..'' v then False
      else dns_labels v)"

text \<open>A text with two colons has its last colon behind the first.\<close>

definition originHost :: "string \<Rightarrow> string option" where
  "originHost origin =
     (if \<not> starts_with origin ''https://'' \<or> length origin > 2048 then None
      else let authority = drop 8 origin
        in if authority = [] \<or> list_ex (\<lambda>c. c \<in> set ''/?#@[]'' \<or> c = CHR 0x5C) authority then None
           else if CHR '':'' \<in> set authority
           then let host = takeWhile ((\<noteq>) (CHR '':'')) authority;
                    portText = tl (dropWhile ((\<noteq>) (CHR '':'')) authority)
                in if CHR '':'' \<in> set portText then None
                   else case read_digits portText of
                       None \<Rightarrow> None
                     | Some port \<Rightarrow>
                         if port = 0 \<or> port > 65535 then None
                         else if validDnsName host then Some host else None
           else if validDnsName authority then Some authority else None)"

definition rpIdMatchesOrigin :: "string \<Rightarrow> string \<Rightarrow> bool" where
  "rpIdMatchesOrigin relyingPartyId host =
     (if host = relyingPartyId then True
      else length host > length relyingPartyId \<and> ends_with host relyingPartyId
           \<and> host ! (length host - length relyingPartyId - 1) = CHR ''.'')"

record PasskeyConfig =
  pk_relyingPartyId :: string
  pk_relyingPartyName :: string
  pk_origin :: string
  pk_derivationKey :: string
  pk_ceremonyLifetime :: Duration

definition PasskeyConfig_create ::
    "string \<Rightarrow> string \<Rightarrow> string \<Rightarrow> string \<Rightarrow> Duration \<Rightarrow> PasskeyConfig Result" where
  "PasskeyConfig_create relyingPartyId relyingPartyName origin derivationKey ceremonyLifetime =
     (let refused = fail_msg InvalidArgument ''The WebAuthn RP configuration is invalid.''
      in case originHost origin of
           None \<Rightarrow> refused
         | Some host \<Rightarrow>
             if \<not> validDnsName relyingPartyId \<or> \<not> safeText relyingPartyName 128
                \<or> \<not> rpIdMatchesOrigin relyingPartyId host
                \<or> length derivationKey < 32 \<or> ceremonyLifetime \<le> 0 \<or> ceremonyLifetime > 10 * 60000
             then refused
             else Inr \<lparr>pk_relyingPartyId = relyingPartyId, pk_relyingPartyName = relyingPartyName,
                       pk_origin = (if ends_with origin '':443'' then take (length origin - 4) origin else origin),
                       pk_derivationKey = derivationKey, pk_ceremonyLifetime = ceremonyLifetime\<rparr>)"

definition challengeFor :: "env \<Rightarrow> PasskeyConfig \<Rightarrow> string \<Rightarrow> ChallengeId \<Rightarrow> string Result" where
  "challengeFor E config purpose challenge =
     (case hmacSha256 E (pk_derivationKey config) (purpose @ '':'' @ id_value challenge) of
        Inl e \<Rightarrow> Inl e
      | Inr digest \<Rightarrow> Inr (toBase64Url digest))"

text \<open>The decoder never aborts (\<open>fromBase64Url_total\<close>), so its \<open>None\<close> joins the refusals.\<close>

definition decodeCanonical :: "string \<Rightarrow> nat \<Rightarrow> byte list Result" where
  "decodeCanonical encoded maximum =
     (if encoded = [] \<or> length encoded > maximum * 2 then fail_code InvalidArgument
      else case fromBase64Url encoded of
          Some (Inr decoded) \<Rightarrow>
            if decoded = [] \<or> length decoded > maximum \<or> toBase64Url decoded \<noteq> encoded
            then fail_code InvalidArgument
            else Inr decoded
        | _ \<Rightarrow> fail_code InvalidArgument)"

section \<open>Client data and authenticator data\<close>

text \<open>The four members the source reads of the client data object.\<close>

definition client_data_bound :: "(string \<times> json_value) list \<Rightarrow> string \<Rightarrow> string \<Rightarrow> string \<Rightarrow> bool" where
  "client_data_bound obj expectedType expectedChallenge expectedOrigin \<longleftrightarrow>
     (case map_of obj ''type'' of Some (JString t) \<Rightarrow> t = expectedType | _ \<Rightarrow> False)
     \<and> (case map_of obj ''challenge'' of Some (JString c) \<Rightarrow> constantTimeEquals c expectedChallenge | _ \<Rightarrow> False)
     \<and> (case map_of obj ''origin'' of Some (JString v) \<Rightarrow> v = expectedOrigin | _ \<Rightarrow> False)
     \<and> (case map_of obj ''crossOrigin'' of None \<Rightarrow> True | Some (JBool b) \<Rightarrow> \<not> b | Some _ \<Rightarrow> False)"

definition verifyClientData ::
    "webauthn_library \<Rightarrow> string \<Rightarrow> string \<Rightarrow> string \<Rightarrow> string \<Rightarrow> byte list Result" where
  "verifyClientData L encoded expectedType expectedChallenge expectedOrigin =
     (case decodeCanonical encoded kMaximumClientData of
        Inl _ \<Rightarrow> Inl (authFailure ''WebAuthn client data encoding is invalid.'')
      | Inr raw \<Rightarrow>
          (case wl_parse L (as_text raw) of
             Some (JObject obj) \<Rightarrow>
               if client_data_bound obj expectedType expectedChallenge expectedOrigin then Inr raw
               else Inl (authFailure ''WebAuthn client data binding failed.'')
           | _ \<Rightarrow> Inl (authFailure ''WebAuthn client data is malformed.'')))"

record ParsedAuthenticator =
  pa_flags :: byte
  pa_signCount :: "32 word"
  pa_trailing :: "byte list"

definition verifyAuthenticatorPrefix :: "env \<Rightarrow> byte list \<Rightarrow> string \<Rightarrow> bool \<Rightarrow> ParsedAuthenticator Result" where
  "verifyAuthenticatorPrefix E bs relyingPartyId requireAttestedData =
     (if length bs < 37 then Inl (authFailure ''WebAuthn authenticator data is truncated.'')
      else case sha256 E relyingPartyId of
          Inl _ \<Rightarrow> Inl (authFailure ''WebAuthn RP ID hash is invalid.'')
        | Inr expectedHash \<Rightarrow>
            if expectedHash \<noteq> take 32 bs then Inl (authFailure ''WebAuthn RP ID hash is invalid.'')
            else let flags = bs ! 32
              in if flags AND kUserPresent = 0 \<or> flags AND kUserVerified = 0
                    \<or> (requireAttestedData \<and> flags AND kAttestedCredentialData = 0)
                 then Inl (authFailure ''WebAuthn user presence or verification is missing.'')
                 else Inr \<lparr>pa_flags = flags,
                           pa_signCount = push_bit 24 (ucast (bs ! 33)) OR push_bit 16 (ucast (bs ! 34))
                                            OR push_bit 8 (ucast (bs ! 35)) OR ucast (bs ! 36),
                           pa_trailing = drop 37 bs\<rparr>)"

section \<open>The COSE key\<close>

record CoseParts =
  cose_kty :: "int option"
  cose_alg :: "int option"
  cose_crv :: "int option"
  cose_x :: "byte list option"
  cose_y :: "byte list option"

definition no_parts :: CoseParts where
  "no_parts = \<lparr>cose_kty = None, cose_alg = None, cose_crv = None, cose_x = None, cose_y = None\<rparr>"

text \<open>One round of the loop over the entries of the key map.\<close>

definition cose_entry :: "CoseParts \<Rightarrow> byte list \<Rightarrow> CoseParts reading" where
  "cose_entry p input =
     (case cbor_integer input of
        Inl _ \<Rightarrow> Inl (authFailure ''WebAuthn COSE key is malformed.'')
      | Inr (key, rest) \<Rightarrow>
          if key = 1 \<or> key = 3 \<or> key = - 1
          then (case cbor_integer rest of
                  Inl _ \<Rightarrow> Inl (authFailure ''WebAuthn COSE key parameter is malformed.'')
                | Inr (v, rest') \<Rightarrow>
                    Inr (if key = 1 then p\<lparr>cose_kty := Some v\<rparr>
                         else if key = 3 then p\<lparr>cose_alg := Some v\<rparr>
                         else p\<lparr>cose_crv := Some v\<rparr>, rest'))
          else if key = - 2 \<or> key = - 3
          then (case cbor_bytes 64 rest of
                  Inl _ \<Rightarrow> Inl (authFailure ''WebAuthn EC coordinate is invalid.'')
                | Inr (v, rest') \<Rightarrow>
                    if length v \<noteq> 32 then Inl (authFailure ''WebAuthn EC coordinate is invalid.'')
                    else Inr (if key = - 2 then p\<lparr>cose_x := Some v\<rparr> else p\<lparr>cose_y := Some v\<rparr>, rest'))
          else (case cbor_skip 13 rest of
                  Inl _ \<Rightarrow> Inl (authFailure ''WebAuthn COSE key contains invalid data.'')
                | Inr rest' \<Rightarrow> Inr (p, rest')))"

fun cose_entries :: "nat \<Rightarrow> CoseParts \<Rightarrow> byte list \<Rightarrow> CoseParts reading" where
  "cose_entries 0 p input = Inr (p, input)"
| "cose_entries (Suc n) p input =
     (case cose_entry p input of Inl e \<Rightarrow> Inl e | Inr (p', rest) \<Rightarrow> cose_entries n p' rest)"

record ParsedCoseKey =
  key_x :: string
  key_y :: string
  key_consumed :: nat

definition parseEs256Key :: "byte list \<Rightarrow> ParsedCoseKey Result" where
  "parseEs256Key input =
     (case cbor_head input of
        Inl _ \<Rightarrow> Inl (authFailure ''WebAuthn COSE key is invalid.'')
      | Inr (m, body) \<Rightarrow>
          if head_major m \<noteq> 5 \<or> head_value m < 5 \<or> head_value m > 16
          then Inl (authFailure ''WebAuthn COSE key is invalid.'')
          else (case cose_entries (unat (head_value m)) no_parts body of
                  Inl e \<Rightarrow> Inl e
                | Inr (p, rest) \<Rightarrow>
                    (case (cose_x p, cose_y p) of
                       (Some x, Some y) \<Rightarrow>
                         if cose_kty p \<noteq> Some 2 \<or> cose_alg p \<noteq> Some (- 7) \<or> cose_crv p \<noteq> Some 1
                         then Inl (authFailure ''WebAuthn credential is not an ES256 P-256 key.'')
                         else Inr \<lparr>key_x = toBase64Url x, key_y = toBase64Url y,
                                   key_consumed = length input - length rest\<rparr>
                     | _ \<Rightarrow> Inl (authFailure ''WebAuthn credential is not an ES256 P-256 key.''))))"

section \<open>The attestation object\<close>

record RegistrationResponse =
  rr_credentialId :: string
  rr_clientDataJson :: string
  rr_attestationObject :: string

record AttestationParts =
  att_fmt :: "string option"
  att_authData :: "byte list option"
  att_sawAttStmt :: bool
  att_emptyAttStmt :: bool

definition no_attestation :: AttestationParts where
  "no_attestation = \<lparr>att_fmt = None, att_authData = None, att_sawAttStmt = False, att_emptyAttStmt = False\<rparr>"

text \<open>One round of the loop over the entries of the attestation map.\<close>

definition attestation_entry :: "AttestationParts \<Rightarrow> byte list \<Rightarrow> AttestationParts reading" where
  "attestation_entry p input =
     (case cbor_text 32 input of
        Inl _ \<Rightarrow> Inl (authFailure ''WebAuthn attestation object is malformed.'')
      | Inr (key, rest) \<Rightarrow>
          if key = ''fmt''
          then (if att_fmt p \<noteq> None then Inl (authFailure ''Duplicate WebAuthn attestation format.'')
                else case cbor_text 32 rest of
                    Inl _ \<Rightarrow> Inl (authFailure ''WebAuthn attestation format is malformed.'')
                  | Inr (v, rest') \<Rightarrow> Inr (p\<lparr>att_fmt := Some v\<rparr>, rest'))
          else if key = ''authData''
          then (if att_authData p \<noteq> None then Inl (authFailure ''Duplicate WebAuthn authenticator data.'')
                else case cbor_bytes kMaximumAttestation rest of
                    Inl _ \<Rightarrow> Inl (authFailure ''WebAuthn authenticator data is malformed.'')
                  | Inr (v, rest') \<Rightarrow> Inr (p\<lparr>att_authData := Some v\<rparr>, rest'))
          else if key = ''attStmt''
          then (if att_sawAttStmt p then Inl (authFailure ''Duplicate WebAuthn attestation statement.'')
                else case cbor_head rest of
                    Inl _ \<Rightarrow> Inl (authFailure ''WebAuthn attestation statement is malformed.'')
                  | Inr (h, rest') \<Rightarrow>
                      if head_major h \<noteq> 5
                      then Inl (authFailure ''WebAuthn attestation statement is malformed.'')
                      else (case cbor_times (unat (head_value h)) (cbor_times 2 (cbor_skip 13)) rest' of
                              Inl _ \<Rightarrow> Inl (authFailure ''WebAuthn attestation statement is malformed.'')
                            | Inr rest'' \<Rightarrow>
                                Inr (p\<lparr>att_sawAttStmt := True, att_emptyAttStmt := (head_value h = 0)\<rparr>, rest'')))
          else (case cbor_skip 13 rest of
                  Inl _ \<Rightarrow> Inl (authFailure ''WebAuthn attestation object is malformed.'')
                | Inr rest' \<Rightarrow> Inr (p, rest')))"

fun attestation_entries :: "nat \<Rightarrow> AttestationParts \<Rightarrow> byte list \<Rightarrow> AttestationParts reading" where
  "attestation_entries 0 p input = Inr (p, input)"
| "attestation_entries (Suc n) p input =
     (case attestation_entry p input of Inl e \<Rightarrow> Inl e | Inr (p', rest) \<Rightarrow> attestation_entries n p' rest)"

text \<open>The authenticator data inside an attestation object of at most sixteen entries.\<close>

definition attestation_object :: "byte list \<Rightarrow> byte list Result" where
  "attestation_object input =
     (case cbor_head input of
        Inl _ \<Rightarrow> Inl (authFailure ''WebAuthn attestation object is invalid.'')
      | Inr (m, body) \<Rightarrow>
          if head_major m \<noteq> 5 \<or> head_value m > 16
          then Inl (authFailure ''WebAuthn attestation object is invalid.'')
          else (case attestation_entries (unat (head_value m)) no_attestation body of
                  Inl e \<Rightarrow> Inl e
                | Inr (p, rest) \<Rightarrow>
                    (case att_authData p of
                       Some authData \<Rightarrow>
                         if rest \<noteq> [] \<or> att_fmt p \<noteq> Some ''none'' \<or> \<not> att_sawAttStmt p \<or> \<not> att_emptyAttStmt p
                         then Inl (authFailure ''Only privacy-preserving WebAuthn none attestation is accepted.'')
                         else Inr authData
                     | None \<Rightarrow> Inl (authFailure ''Only privacy-preserving WebAuthn none attestation is accepted.''))))"

record AttestationResult =
  ar_credentialId :: string
  ar_x :: string
  ar_y :: string
  ar_signCount :: "32 word"

text \<open>Extension data is one CBOR item that takes all the bytes that are left.\<close>

definition extensions_ok :: "byte list \<Rightarrow> bool" where
  "extensions_ok trailing = (cbor_skip 13 trailing = Inr [])"

text \<open>The attested credential data behind the prefix: model identifier, credential, key, extensions.\<close>

definition attested_credential ::
    "ParsedAuthenticator \<Rightarrow> byte list \<Rightarrow> string \<Rightarrow> AttestationResult Result" where
  "attested_credential pa rawCredential credentialId =
     (if length (pa_trailing pa) < 18
      then Inl (authFailure ''WebAuthn attested credential data is truncated.'')
      else let trailing = drop 16 (pa_trailing pa);
               credentialLength = unat (push_bit 8 (ucast (trailing ! 0)) OR ucast (trailing ! 1) :: 64 word);
               trailing = drop 2 trailing
        in if credentialLength = 0 \<or> credentialLength > kMaximumCredentialIdBytes
              \<or> length trailing < credentialLength
           then Inl (authFailure ''WebAuthn credential ID is invalid.'')
           else if take credentialLength trailing \<noteq> rawCredential
           then Inl (authFailure ''WebAuthn credential ID binding failed.'')
           else case parseEs256Key (drop credentialLength trailing) of
               Inl e \<Rightarrow> Inl e
             | Inr key \<Rightarrow>
                 let trailing = drop (key_consumed key) (drop credentialLength trailing)
                 in if pa_flags pa AND kExtensionData \<noteq> 0
                    then (if extensions_ok trailing
                          then Inr \<lparr>ar_credentialId = credentialId, ar_x = key_x key, ar_y = key_y key,
                                    ar_signCount = pa_signCount pa\<rparr>
                          else Inl (authFailure ''WebAuthn extension data is malformed.''))
                    else if trailing \<noteq> []
                    then Inl (authFailure ''WebAuthn authenticator data has trailing bytes.'')
                    else Inr \<lparr>ar_credentialId = credentialId, ar_x = key_x key, ar_y = key_y key,
                              ar_signCount = pa_signCount pa\<rparr>)"

definition verifyAttestation ::
    "env \<Rightarrow> webauthn_library \<Rightarrow> RegistrationResponse \<Rightarrow> PasskeyConfig \<Rightarrow> string \<Rightarrow> AttestationResult Result" where
  "verifyAttestation E L response config expectedChallenge =
     (case verifyClientData L (rr_clientDataJson response) ''webauthn.create'' expectedChallenge (pk_origin config) of
        Inl e \<Rightarrow> Inl e
      | Inr _ \<Rightarrow>
          (case (decodeCanonical (rr_attestationObject response) kMaximumAttestation,
                 decodeCanonical (rr_credentialId response) kMaximumCredentialIdBytes) of
             (Inr attestationBytes, Inr rawCredential) \<Rightarrow>
               (case attestation_object attestationBytes of
                  Inl e \<Rightarrow> Inl e
                | Inr authData \<Rightarrow>
                    (case verifyAuthenticatorPrefix E authData (pk_relyingPartyId config) True of
                       Inl e \<Rightarrow> Inl e
                     | Inr pa \<Rightarrow> attested_credential pa rawCredential (rr_credentialId response)))
           | _ \<Rightarrow> Inl (authFailure ''WebAuthn registration encoding is invalid.'')))"

section \<open>The signature\<close>

definition verifyEs256 :: "webauthn_library \<Rightarrow> string \<Rightarrow> string \<Rightarrow> byte list \<Rightarrow> byte list \<Rightarrow> Status" where
  "verifyEs256 L xEncoded yEncoded message signature =
     (case (decodeCanonical xEncoded 32, decodeCanonical yEncoded 32) of
        (Inr x, Inr y) \<Rightarrow>
          if length x \<noteq> 32 \<or> length y \<noteq> 32 \<or> signature = [] \<or> length signature > 128
          then Inl (authFailure ''WebAuthn public key or signature is invalid.'')
          else let point = 0x04 # x @ y
            in if \<not> wl_params L point then fail_code Internal
               else if \<not> wl_fromdata L point then Inl (authFailure ''WebAuthn P-256 public key is invalid.'')
               else if \<not> wl_verify L point signature message
               then Inl (authFailure ''WebAuthn assertion signature is invalid.'')
               else ok
      | _ \<Rightarrow> Inl (authFailure ''WebAuthn public key or signature is invalid.''))"

section \<open>What the checks accept\<close>

lemma decodeCanonical_iff:
  "decodeCanonical encoded maximum = Inr bs \<longleftrightarrow> encoded = toBase64Url bs \<and> bs \<noteq> [] \<and> length bs \<le> maximum"
proof
  assume "decodeCanonical encoded maximum = Inr bs"
  then show "encoded = toBase64Url bs \<and> bs \<noteq> [] \<and> length bs \<le> maximum"
    by (auto simp: decodeCanonical_def split: if_split_asm option.splits sum.splits)
next
  assume bs: "encoded = toBase64Url bs \<and> bs \<noteq> [] \<and> length bs \<le> maximum"
  then have "0 < length bs" by simp
  then have "(4 * length bs + 2) div 3 \<le> 2 * length bs" by presburger
  with bs have "length (toBase64Url bs) \<le> maximum * 2" unfolding length_toBase64Url by linarith
  with bs show "decodeCanonical encoded maximum = Inr bs"
    by (simp add: decodeCanonical_def fromBase64Url_toBase64Url length_toBase64Url_pos)
qed

lemma verifyClientData_iff:
  "verifyClientData L encoded expectedType expectedChallenge expectedOrigin = Inr raw \<longleftrightarrow>
     encoded = toBase64Url raw \<and> raw \<noteq> [] \<and> length raw \<le> kMaximumClientData
     \<and> (\<exists>obj. wl_parse L (as_text raw) = Some (JObject obj)
          \<and> client_data_bound obj expectedType expectedChallenge expectedOrigin)"
proof -
  have "verifyClientData L encoded expectedType expectedChallenge expectedOrigin = Inr raw \<longleftrightarrow>
      decodeCanonical encoded kMaximumClientData = Inr raw
      \<and> (\<exists>obj. wl_parse L (as_text raw) = Some (JObject obj)
           \<and> client_data_bound obj expectedType expectedChallenge expectedOrigin)"
    by (auto simp: verifyClientData_def split: sum.splits option.splits json_value.splits)
  then show ?thesis by (simp add: decodeCanonical_iff)
qed

definition counter_bytes :: "32 word \<Rightarrow> byte list" where
  "counter_bytes c = [ucast (drop_bit 24 c), ucast (drop_bit 16 c), ucast (drop_bit 8 c), ucast c]"

definition counter_of :: "byte \<Rightarrow> byte \<Rightarrow> byte \<Rightarrow> byte \<Rightarrow> 32 word" where
  "counter_of a b c d = push_bit 24 (ucast a) OR push_bit 16 (ucast b) OR push_bit 8 (ucast c) OR ucast d"

lemma counter_of_bytes: "counter_of (ucast (drop_bit 24 c)) (ucast (drop_bit 16 c)) (ucast (drop_bit 8 c)) (ucast c) = c"
proof (rule bit_word_eqI)
  fix n
  show "bit (counter_of (ucast (drop_bit 24 c)) (ucast (drop_bit 16 c)) (ucast (drop_bit 8 c)) (ucast c)) n = bit c n"
    by (cases "n < 16"; cases "n < 24") (auto simp: counter_of_def bit_simps dest: bit_imp_le_length)
qed

lemma counter_bytes_of: "counter_bytes (counter_of a b c d) = [a, b, c, d]"
proof -
  have "ucast (drop_bit 24 (counter_of a b c d)) = a" "ucast (drop_bit 16 (counter_of a b c d)) = b"
    "ucast (drop_bit 8 (counter_of a b c d)) = c" "ucast (counter_of a b c d) = d"
    unfolding counter_of_def
    by (rule bit_word_eqI, auto simp: bit_simps dest: bit_imp_le_length)+
  then show ?thesis by (simp add: counter_bytes_def)
qed

lemma split_at_37:
  assumes "37 \<le> length bs"
  shows "bs = take 32 bs @ bs ! 32 # bs ! 33 # bs ! 34 # bs ! 35 # bs ! 36 # drop 37 bs"
proof -
  have "drop n bs = bs ! n # drop (Suc n) bs" if "n < 37" for n
    using assms that by (simp add: Cons_nth_drop_Suc)
  from this [of 32] this [of 33] this [of 34] this [of 35] this [of 36]
  show ?thesis using append_take_drop_id [of 32 bs] by (simp add: eval_nat_numeral)
qed

text \<open>Authenticator data is its prefix, laid out byte for byte, and what is left.\<close>

lemma verifyAuthenticatorPrefix_iff:
  "verifyAuthenticatorPrefix E bs relyingPartyId att = Inr pa \<longleftrightarrow>
     (\<exists>h. sha256 E relyingPartyId = Inr h
        \<and> bs = h @ pa_flags pa # counter_bytes (pa_signCount pa) @ pa_trailing pa)
     \<and> pa_flags pa AND kUserPresent \<noteq> 0 \<and> pa_flags pa AND kUserVerified \<noteq> 0
     \<and> (att \<longrightarrow> pa_flags pa AND kAttestedCredentialData \<noteq> 0)"
  (is "?read \<longleftrightarrow> ?written")
proof
  assume read: ?read
  then have len: "37 \<le> length bs" by (auto simp: verifyAuthenticatorPrefix_def split: if_split_asm)
  with read have "sha256 E relyingPartyId = Inr (take 32 bs)"
      and pa: "pa = \<lparr>pa_flags = bs ! 32, pa_signCount = counter_of (bs ! 33) (bs ! 34) (bs ! 35) (bs ! 36),
                   pa_trailing = drop 37 bs\<rparr>"
      and "bs ! 32 AND kUserPresent \<noteq> 0" "bs ! 32 AND kUserVerified \<noteq> 0" "att \<longrightarrow> bs ! 32 AND kAttestedCredentialData \<noteq> 0"
    by (auto simp: verifyAuthenticatorPrefix_def counter_of_def Let_def split: if_split_asm sum.splits)
  with split_at_37 [OF len] show ?written by (simp add: counter_bytes_of)
next
  assume ?written
  then obtain h where h: "sha256 E relyingPartyId = Inr h"
      "bs = h @ pa_flags pa # counter_bytes (pa_signCount pa) @ pa_trailing pa" by blast
  moreover have "length h = 32" using h(1) by (rule sha256_length)
  moreover have "bs ! 32 = pa_flags pa" "drop 37 bs = pa_trailing pa" "take 32 bs = h" "37 \<le> length bs"
      "counter_of (bs ! 33) (bs ! 34) (bs ! 35) (bs ! 36) = pa_signCount pa"
    using h(2) \<open>length h = 32\<close> counter_of_bytes [of "pa_signCount pa"]
    by (simp_all add: counter_bytes_def nth_append)
  ultimately show ?read
    using \<open>?written\<close> by (simp add: verifyAuthenticatorPrefix_def counter_of_def Let_def)
qed

lemma verifyEs256_iff:
  "verifyEs256 L xe ye message signature = ok \<longleftrightarrow>
     (\<exists>x y. xe = toBase64Url x \<and> ye = toBase64Url y \<and> length x = 32 \<and> length y = 32
        \<and> signature \<noteq> [] \<and> length signature \<le> 128
        \<and> wl_params L (0x04 # x @ y) \<and> wl_fromdata L (0x04 # x @ y) \<and> wl_verify L (0x04 # x @ y) signature message)"
  (is "?checked \<longleftrightarrow> ?signed")
proof
  assume checked: ?checked
  then obtain x y where "decodeCanonical xe 32 = Inr x" "decodeCanonical ye 32 = Inr y"
    by (auto simp: verifyEs256_def split: sum.splits)
  with checked show ?signed
    by (auto simp: verifyEs256_def Let_def decodeCanonical_iff split: if_split_asm)
next
  assume ?signed
  then obtain x y where xy: "xe = toBase64Url x" "ye = toBase64Url y" "length x = 32" "length y = 32"
      "signature \<noteq> []" "length signature \<le> 128"
      "wl_params L (0x04 # x @ y)" "wl_fromdata L (0x04 # x @ y)" "wl_verify L (0x04 # x @ y) signature message"
    by blast
  then have "decodeCanonical xe 32 = Inr x" "decodeCanonical ye 32 = Inr y" by (auto simp: decodeCanonical_iff)
  with xy show ?checked by (simp add: verifyEs256_def)
qed

section \<open>What an authenticator sends is what is registered\<close>

lemma cbor_integer_encode:
  assumes "uint v \<le> 2 ^ 63 - 1"
  shows "cbor_integer (encode_head 0 v @ rest) = Inr (uint v, rest)"
    "cbor_integer (encode_head 1 v @ rest) = Inr (- 1 - uint v, rest)"
  using assms by (simp_all add: cbor_integer_def head_encode)

lemma cbor_chunk_encode:
  assumes "major < 8" "length bs \<le> maximum" "length bs < 2 ^ 64"
  shows "cbor_chunk major maximum (encode_head major (of_nat (length bs)) @ bs @ rest) = Inr (bs, rest)"
proof -
  have "unat (of_nat (length bs) :: 64 word) = length bs"
    using assms(3) by (simp add: unsigned_of_nat take_bit_eq_mod)
  with assms(1,2) show ?thesis by (simp add: cbor_chunk_def head_encode)
qed

text \<open>The item of an ES256 key: type, algorithm, curve and the two coordinates.\<close>

definition cose_es256 :: "byte list \<Rightarrow> byte list \<Rightarrow> cbor" where
  "cose_es256 x y = CMap [(CHead 0 1, CHead 0 2), (CHead 0 3, CHead 1 6), (CHead 1 0, CHead 0 1),
     (CHead 1 1, CString 2 x), (CHead 1 2, CString 2 y)]"

lemma parseEs256Key_encode:
  assumes "length x = 32" "length y = 32"
  shows "parseEs256Key (encode (cose_es256 x y) @ rest) =
    Inr \<lparr>key_x = toBase64Url x, key_y = toBase64Url y, key_consumed = length (encode (cose_es256 x y))\<rparr>"
proof -
  have chunk: "cbor_bytes 64 (encode_head 2 32 @ b @ r) = Inr (b, r)" if "length b = 32" for b r
    using cbor_chunk_encode [of 2 b 64 r] that by (simp add: cbor_bytes_def)
  have "cose_entries (Suc (Suc (Suc (Suc (Suc 0))))) no_parts (encode_head 0 1 @ encode_head 0 2 @ encode_head 0 3 @ encode_head 1 6
        @ encode_head 1 0 @ encode_head 0 1 @ encode_head 1 1 @ encode_head 2 32 @ x
        @ encode_head 1 2 @ encode_head 2 32 @ y @ rest)
      = Inr (\<lparr>cose_kty = Some 2, cose_alg = Some (- 7), cose_crv = Some 1, cose_x = Some x, cose_y = Some y\<rparr>, rest)"
    using assms by (simp add: cose_entry_def cbor_integer_encode chunk no_parts_def)
  moreover have "cose_entries 5 = cose_entries (Suc (Suc (Suc (Suc (Suc 0)))))" by (simp only: eval_nat_numeral BitM.simps)
  ultimately show ?thesis
    using assms by (simp add: parseEs256Key_def cose_es256_def head_encode del: cose_entries.simps)
qed

lemma cbor_text_encode:
  assumes "length s \<le> maximum" "length s < 2 ^ 64"
  shows "cbor_text maximum (encode_head 3 (of_nat (length s)) @ text_bytes s @ rest) = Inr (s, rest)"
  using cbor_chunk_encode [of 3 "text_bytes s" maximum rest] assms
  by (simp add: cbor_text_def as_text_bytes [unfolded as_text_def])

text \<open>The object an authenticator sends under none attestation.\<close>

definition none_attestation :: "byte list \<Rightarrow> cbor" where
  "none_attestation authData =
     CMap [(CString 3 (text_bytes ''fmt''), CString 3 (text_bytes ''none'')),
           (CString 3 (text_bytes ''attStmt''), CMap []),
           (CString 3 (text_bytes ''authData''), CString 2 authData)]"

lemma attestation_object_encode:
  assumes "length authData \<le> kMaximumAttestation"
  shows "attestation_object (encode (none_attestation authData)) = Inr authData"
proof -
  have chunk: "cbor_bytes kMaximumAttestation (encode_head 2 (of_nat (length authData)) @ authData) = Inr (authData, [])"
    using cbor_chunk_encode [of 2 authData kMaximumAttestation "[]"] assms
    by (simp add: cbor_bytes_def kMaximumAttestation_def)
  have key: "cbor_text 32 (encode_head 3 n @ text_bytes s @ r) = Inr (s, r)" if "length s \<le> 32" "n = of_nat (length s)" for n s r
    using cbor_text_encode [of s 32 r] that by simp
  have "attestation_entries (Suc (Suc (Suc 0))) no_attestation
      (encode_head 3 3 @ text_bytes ''fmt'' @ encode_head 3 4 @ text_bytes ''none''
       @ encode_head 3 7 @ text_bytes ''attStmt'' @ encode_head 5 0
       @ encode_head 3 8 @ text_bytes ''authData'' @ encode_head 2 (of_nat (length authData)) @ authData)
      = Inr (\<lparr>att_fmt = Some ''none'', att_authData = Some authData, att_sawAttStmt = True, att_emptyAttStmt = True\<rparr>, [])"
    by (simp add: attestation_entry_def key chunk head_encode no_attestation_def)
  moreover have "attestation_entries 3 = attestation_entries (Suc (Suc (Suc 0)))" by (simp only: eval_nat_numeral BitM.simps)
  ultimately show ?thesis
    by (simp add: attestation_object_def none_attestation_def head_encode del: attestation_entries.simps)
qed

text \<open>The authenticator data of a registration.\<close>

definition registration_data ::
    "byte list \<Rightarrow> byte \<Rightarrow> 32 word \<Rightarrow> byte list \<Rightarrow> byte list \<Rightarrow> byte list \<Rightarrow> byte list \<Rightarrow> byte list" where
  "registration_data rpHash flags counter model credential x y =
     rpHash @ flags # counter_bytes counter @ model @
     [of_nat (length credential div 256), of_nat (length credential mod 256)] @ credential @ encode (cose_es256 x y)"

lemma two_byte_length:
  assumes "n < 65536"
  shows "unat (push_bit 8 (ucast (of_nat (n div 256) :: byte)) OR ucast (of_nat (n mod 256) :: byte) :: 64 word) = n"
proof -
  have "n = take_bit 16 n" using assms by (simp add: take_bit_nat_eq_self)
  then have small: "bit n k \<Longrightarrow> k < 16" for k by (metis bit_take_bit_iff)
  have "push_bit 8 (ucast (of_nat (drop_bit 8 n) :: byte)) OR ucast (of_nat (take_bit 8 n) :: byte) = (of_nat n :: 64 word)"
    by (rule bit_word_eqI) (auto simp: bit_simps dest: small)
  then have "push_bit 8 (ucast (of_nat (n div 256) :: byte)) OR ucast (of_nat (n mod 256) :: byte) = (of_nat n :: 64 word)"
    by (simp add: drop_bit_eq_div take_bit_eq_mod)
  with assms show ?thesis by (simp add: unsigned_of_nat take_bit_eq_mod)
qed

lemma registration_data_accepted:
  assumes sizes: "length model = 16" "0 < length credential" "length credential \<le> kMaximumCredentialIdBytes"
      "length x = 32" "length y = 32"
    and flags: "flags AND kUserPresent \<noteq> 0" "flags AND kUserVerified \<noteq> 0" "flags AND kAttestedCredentialData \<noteq> 0"
      "flags AND kExtensionData = 0"
    and hash: "sha256 E relyingPartyId = Inr rpHash"
  obtains pa where
    "verifyAuthenticatorPrefix E (registration_data rpHash flags counter model credential x y) relyingPartyId True = Inr pa"
    "attested_credential pa credential name =
       Inr \<lparr>ar_credentialId = name, ar_x = toBase64Url x, ar_y = toBase64Url y, ar_signCount = counter\<rparr>"
proof -
  let ?tail = "model @ [of_nat (length credential div 256), of_nat (length credential mod 256)] @ credential @ encode (cose_es256 x y)"
  define pa where "pa = \<lparr>pa_flags = flags, pa_signCount = counter, pa_trailing = ?tail\<rparr>"
  have "verifyAuthenticatorPrefix E (registration_data rpHash flags counter model credential x y) relyingPartyId True = Inr pa"
    unfolding verifyAuthenticatorPrefix_iff using hash flags by (simp add: pa_def registration_data_def)
  moreover have "attested_credential pa credential name =
       Inr \<lparr>ar_credentialId = name, ar_x = toBase64Url x, ar_y = toBase64Url y, ar_signCount = counter\<rparr>"
    using sizes flags(4) two_byte_length [of "length credential"] parseEs256Key_encode [of x y "[]"]
    by (simp add: attested_credential_def pa_def Let_def kMaximumCredentialIdBytes_def)
  ultimately show thesis by (rule that)
qed

end
