(* ===== verification/Passkey.thy ===== *)
theory Passkey
  imports Webauthn Identity_Proofs
begin

text \<open>
  The passkey provider (\<^verbatim>\<open>src/src/providers/passkey/passkey.cpp\<close>): the repository of registration
  ceremonies and credentials, the service that registers and removes passkeys, and the provider that
  turns an assertion into an authentication outcome.
\<close>

section \<open>The repository\<close>

record PasskeyCredential =
  pc_credentialId :: string
  pc_identity :: IdentityId
  pc_publicKeyX :: string
  pc_publicKeyY :: string
  pc_signCount :: "32 word"
  pc_createdAt :: Instant
  pc_lastUsedAt :: Instant

record RegistrationCeremony =
  rc_id :: ChallengeId
  rc_identity :: IdentityId
  rc_expiresAt :: Instant

record PasskeyRepository =
  pr_ceremonies :: "(ChallengeId, RegistrationCeremony) omap"
  pr_credentials :: "(string, PasskeyCredential) omap"

definition addCeremony :: "RegistrationCeremony \<Rightarrow> PasskeyRepository \<Rightarrow> Status \<times> PasskeyRepository" where
  "addCeremony ceremony m =
     (if omap_contains (pr_ceremonies m) (rc_id ceremony) then (fail_code AlreadyExists, m)
      else (ok, m\<lparr>pr_ceremonies := omap_emplace (rc_id ceremony) ceremony (pr_ceremonies m)\<rparr>))"

definition consumeCeremony ::
    "ChallengeId \<Rightarrow> IdentityId \<Rightarrow> Instant \<Rightarrow> PasskeyRepository \<Rightarrow> Status \<times> PasskeyRepository" where
  "consumeCeremony challenge identity now m =
     (case map_of (pr_ceremonies m) challenge of
        None \<Rightarrow> (fail_code AuthenticationFailed, m)
      | Some found \<Rightarrow>
          if rc_identity found \<noteq> identity \<or> rc_expiresAt found \<le> now then (fail_code AuthenticationFailed, m)
          else (ok, m\<lparr>pr_ceremonies := omap_erase challenge (pr_ceremonies m)\<rparr>))"

definition addCredential :: "PasskeyCredential \<Rightarrow> PasskeyRepository \<Rightarrow> Status \<times> PasskeyRepository" where
  "addCredential credential m =
     (if omap_contains (pr_credentials m) (pc_credentialId credential) then (fail_code AlreadyExists, m)
      else (ok, m\<lparr>pr_credentials := omap_emplace (pc_credentialId credential) credential (pr_credentials m)\<rparr>))"

definition findCredential :: "string \<Rightarrow> PasskeyRepository \<Rightarrow> PasskeyCredential option Result" where
  "findCredential credentialId m = Inr (map_of (pr_credentials m) credentialId)"

definition listCredentials :: "IdentityId \<Rightarrow> PasskeyRepository \<Rightarrow> PasskeyCredential list Result" where
  "listCredentials identity m = Inr (filter (\<lambda>c. pc_identity c = identity) (map snd (pr_credentials m)))"

definition advanceCounter ::
    "string \<Rightarrow> 32 word \<Rightarrow> 32 word \<Rightarrow> Instant \<Rightarrow> PasskeyRepository \<Rightarrow> Status \<times> PasskeyRepository" where
  "advanceCounter credentialId expected replacement usedAt m =
     (case map_of (pr_credentials m) credentialId of
        None \<Rightarrow> (fail_code NotFound, m)
      | Some found \<Rightarrow>
          let counterUnsupported = (expected = 0 \<and> replacement = 0)
          in if pc_signCount found \<noteq> expected \<or> (\<not> counterUnsupported \<and> replacement \<le> expected)
             then (fail_code Conflict, m)
             else (ok, m\<lparr>pr_credentials := omap_modify credentialId
                    (\<lambda>c. c\<lparr>pc_signCount := replacement,
                           pc_lastUsedAt := (if usedAt > pc_lastUsedAt c then usedAt else pc_lastUsedAt c)\<rparr>)
                    (pr_credentials m)\<rparr>))"

definition removeCredentialIfAnotherExists ::
    "IdentityId \<Rightarrow> string \<Rightarrow> PasskeyRepository \<Rightarrow> Status \<times> PasskeyRepository" where
  "removeCredentialIfAnotherExists identity credentialId m =
     (case map_of (pr_credentials m) credentialId of
        None \<Rightarrow> (fail_code NotFound, m)
      | Some found \<Rightarrow>
          if pc_identity found \<noteq> identity then (fail_code NotFound, m)
          else if length (filter (\<lambda>(k, c). pc_identity c = identity) (pr_credentials m)) \<le> 1
          then (fail_msg FailedPrecondition
                  ''The final passkey credential cannot be removed while passkey sign-in is connected.'', m)
          else (ok, m\<lparr>pr_credentials := omap_erase credentialId (pr_credentials m)\<rparr>))"

definition removeCredential :: "IdentityId \<Rightarrow> string \<Rightarrow> PasskeyRepository \<Rightarrow> Status \<times> PasskeyRepository" where
  "removeCredential identity credentialId m =
     (case map_of (pr_credentials m) credentialId of
        None \<Rightarrow> (fail_code NotFound, m)
      | Some found \<Rightarrow>
          if pc_identity found \<noteq> identity then (fail_code NotFound, m)
          else (ok, m\<lparr>pr_credentials := omap_erase credentialId (pr_credentials m)\<rparr>))"

section \<open>An assertion\<close>

record AssertionResponse =
  as_credentialId :: string
  as_clientDataJson :: string
  as_authenticatorData :: string
  as_signature :: string
  as_userHandle :: "string option"

text \<open>The optional user handle: the digest of the owner's identifier.\<close>

definition user_handle_bound :: "env \<Rightarrow> string option \<Rightarrow> IdentityId \<Rightarrow> bool" where
  "user_handle_bound E handle identity =
     (case handle of
        None \<Rightarrow> True
      | Some h \<Rightarrow>
          (case sha256 E (id_value identity) of
             Inl _ \<Rightarrow> False
           | Inr digest \<Rightarrow> constantTimeEquals h (toBase64Url digest)))"

text \<open>
  The part of \<^verbatim>\<open>verifyAssertion\<close> after the decoding, up to the counter: what the stored
  credential must have signed. It returns the counter of the authenticator data.
\<close>

definition assertion_proof ::
    "env \<Rightarrow> webauthn_library \<Rightarrow> PasskeyConfig \<Rightarrow> PasskeyCredential \<Rightarrow> byte list \<Rightarrow> byte list \<Rightarrow> byte list \<Rightarrow> string option
     \<Rightarrow> 32 word Result" where
  "assertion_proof E L config stored client authenticatorData signature userHandle =
     (case verifyAuthenticatorPrefix E authenticatorData (pk_relyingPartyId config) False of
        Inl e \<Rightarrow> Inl e
      | Inr pa \<Rightarrow>
          if pa_flags pa AND kAttestedCredentialData \<noteq> 0
          then Inl (authFailure ''Unexpected attested data in WebAuthn assertion.'')
          else if pa_flags pa AND kExtensionData \<noteq> 0 \<and> \<not> extensions_ok (pa_trailing pa)
          then Inl (authFailure ''WebAuthn assertion extension data is malformed.'')
          else if pa_flags pa AND kExtensionData = 0 \<and> pa_trailing pa \<noteq> []
          then Inl (authFailure ''WebAuthn assertion data has trailing bytes.'')
          else if \<not> user_handle_bound E userHandle (pc_identity stored)
          then Inl (authFailure ''WebAuthn user handle binding failed.'')
          else case sha256 E (as_text client) of
              Inl e \<Rightarrow> Inl e
            | Inr clientHash \<Rightarrow>
                (case verifyEs256 L (pc_publicKeyX stored) (pc_publicKeyY stored) (authenticatorData @ clientHash) signature of
                   Inl e \<Rightarrow> Inl e
                 | Inr _ \<Rightarrow>
                     if (pc_signCount stored \<noteq> 0 \<or> pa_signCount pa \<noteq> 0) \<and> pa_signCount pa \<le> pc_signCount stored
                     then Inl (authFailure ''WebAuthn signature counter did not advance.'')
                     else Inr (pa_signCount pa)))"

definition verifyAssertion ::
    "env \<Rightarrow> webauthn_library \<Rightarrow> AssertionResponse \<Rightarrow> PasskeyConfig \<Rightarrow> string \<Rightarrow> Instant \<Rightarrow> PasskeyRepository
     \<Rightarrow> PasskeyCredential Result \<times> PasskeyRepository" where
  "verifyAssertion E L response config expectedChallenge now m =
     (case (verifyClientData L (as_clientDataJson response) ''webauthn.get'' expectedChallenge (pk_origin config),
            decodeCanonical (as_credentialId response) kMaximumCredentialIdBytes,
            decodeCanonical (as_authenticatorData response) kMaximumAttestation,
            decodeCanonical (as_signature response) 256) of
        (Inr client, Inr _, Inr authenticatorData, Inr signature) \<Rightarrow>
          (case findCredential (as_credentialId response) m of
             Inr (Some stored) \<Rightarrow>
               (case assertion_proof E L config stored client authenticatorData signature (as_userHandle response) of
                  Inl e \<Rightarrow> (Inl e, m)
                | Inr next \<Rightarrow>
                    (case advanceCounter (as_credentialId response) (pc_signCount stored) next now m of
                       (Inl e, m') \<Rightarrow> (Inl e, m')
                     | (Inr _, m') \<Rightarrow> (Inr (stored\<lparr>pc_signCount := next, pc_lastUsedAt := now\<rparr>), m')))
           | _ \<Rightarrow> (Inl (authFailure ''WebAuthn credential is unknown.''), m))
      | _ \<Rightarrow> (Inl (authFailure ''WebAuthn assertion encoding is invalid.''), m))"

section \<open>The provider\<close>

abbreviation passkey_id :: ProviderId where
  "passkey_id \<equiv> StrongId ''passkey''"

definition passkey_maximumClaimableAssurance :: AssuranceLevel where
  "passkey_maximumClaimableAssurance = Ial2"

definition passkey_interactionModel :: InteractionModel where
  "passkey_interactionModel = ChallengeResponse"

text \<open>\<^verbatim>\<open>parameter\<close>: an absent and an empty parameter are the same.\<close>

definition passkey_parameter :: "AttributeMap \<Rightarrow> string \<Rightarrow> string option" where
  "passkey_parameter attrs name =
     (case map_of attrs name of None \<Rightarrow> None | Some v \<Rightarrow> if v = [] then None else Some v)"

definition passkey_beginAuthentication ::
    "env \<Rightarrow> webauthn_library \<Rightarrow> PasskeyConfig \<Rightarrow> AuthenticationRequest \<Rightarrow> AuthenticationChallenge Result" where
  "passkey_beginAuthentication E L config request =
     (if areq_provider request \<noteq> passkey_id then fail_code InvalidArgument
      else case randomTokenBase64Url E 0 24 of
          Inl e \<Rightarrow> Inl e
        | Inr random \<Rightarrow>
            let idValue = StrongId (''pka_'' @ random)
            in (case challengeFor E config ''authenticate'' idValue of
                  Inl e \<Rightarrow> Inl e
                | Inr challenge \<Rightarrow>
                    Inr (Challenge_setParameter ''public_key_options''
                      (wl_serialize L (JObject [(''challenge'', JString challenge),
                         (''rpId'', JString (pk_relyingPartyId config)),
                         (''timeout'', JInt64 (pk_ceremonyLifetime config)),
                         (''userVerification'', JString ''required'')]))
                      \<lparr>challenge_id = idValue, challenge_expiresAt = env_now E 0 + pk_ceremonyLifetime config,
                       challenge_parameters = []\<rparr>)))"

definition passkey_outcome :: "PasskeyCredential \<Rightarrow> Instant \<Rightarrow> AuthenticationOutcome Result" where
  "passkey_outcome credential now =
     AuthenticationOutcome_create passkey_id (StrongId (id_value (pc_identity credential))) [] Ial2
       \<lparr>strength_factors = Factor_Possession, strength_phishingResistant = True\<rparr>
       (ProviderEvidence_add ''user_verification'' ''required''
          (ProviderEvidence_add ''algorithm'' ''ES256''
             (ProviderEvidence_add ''credential_id'' (pc_credentialId credential)
                (ProviderEvidence_add ''protocol'' ''webauthn_level3'' [])))) now"

definition passkey_completeAuthentication ::
    "env \<Rightarrow> webauthn_library \<Rightarrow> PasskeyConfig \<Rightarrow> AuthenticationResponse \<Rightarrow> PasskeyRepository
     \<Rightarrow> AuthenticationOutcome Result \<times> PasskeyRepository" where
  "passkey_completeAuthentication E L config response m =
     (let attrs = response_parameters response
      in case (passkey_parameter attrs ''credential_id'', passkey_parameter attrs ''client_data_json'',
               passkey_parameter attrs ''authenticator_data'', passkey_parameter attrs ''signature'') of
           (Some credentialId, Some clientData, Some authenticatorData, Some signature) \<Rightarrow>
             (case challengeFor E config ''authenticate'' (response_challengeId response) of
                Inl e \<Rightarrow> (Inl e, m)
              | Inr challenge \<Rightarrow>
                  (case verifyAssertion E L
                          \<lparr>as_credentialId = credentialId, as_clientDataJson = clientData,
                           as_authenticatorData = authenticatorData, as_signature = signature,
                           as_userHandle = passkey_parameter attrs ''user_handle''\<rparr>
                          config challenge (env_now E 0) m of
                     (Inl e, m') \<Rightarrow> (Inl e, m')
                   | (Inr credential, m') \<Rightarrow> (passkey_outcome credential (env_now E 1), m')))
         | _ \<Rightarrow> (Inl (authFailure ''WebAuthn assertion is incomplete.''), m))"

section \<open>The service\<close>

record RegistrationStart =
  rs_ceremonyId :: ChallengeId
  rs_publicKeyOptionsJson :: string

definition registration_options ::
    "PasskeyConfig \<Rightarrow> string \<Rightarrow> IdentityId \<Rightarrow> byte list \<Rightarrow> PasskeyCredential list Result \<Rightarrow> json_value" where
  "registration_options config challenge identity userDigest existing =
     JObject ([(''challenge'', JString challenge),
       (''rp'', JObject [(''id'', JString (pk_relyingPartyId config)), (''name'', JString (pk_relyingPartyName config))]),
       (''user'', JObject [(''id'', JString (toBase64Url userDigest)), (''name'', JString (id_value identity)),
                           (''displayName'', JString (id_value identity))]),
       (''pubKeyCredParams'', JArray [JObject [(''type'', JString ''public-key''), (''alg'', JInt64 (- 7))]]),
       (''timeout'', JInt64 (pk_ceremonyLifetime config)),
       (''attestation'', JString ''none''),
       (''authenticatorSelection'', JObject [(''residentKey'', JString ''required''),
          (''requireResidentKey'', JBool True), (''userVerification'', JString ''required'')])]
      @ (case existing of
           Inl _ \<Rightarrow> []
         | Inr cs \<Rightarrow> [(''excludeCredentials'',
             JArray (map (\<lambda>c. JObject [(''type'', JString ''public-key''), (''id'', JString (pc_credentialId c))]) cs))]))"

definition beginRegistration ::
    "env \<Rightarrow> webauthn_library \<Rightarrow> PasskeyConfig \<Rightarrow> IdentityId \<Rightarrow> PasskeyRepository
     \<Rightarrow> RegistrationStart Result \<times> PasskeyRepository" where
  "beginRegistration E L config identity m =
     (case randomTokenBase64Url E 0 24 of
        Inl e \<Rightarrow> (Inl e, m)
      | Inr random \<Rightarrow>
          let ceremony = StrongId (''pkr_'' @ random)
          in (case challengeFor E config ''register'' ceremony of
                Inl e \<Rightarrow> (Inl e, m)
              | Inr challenge \<Rightarrow>
                  (case addCeremony \<lparr>rc_id = ceremony, rc_identity = identity,
                                     rc_expiresAt = env_now E 0 + pk_ceremonyLifetime config\<rparr> m of
                     (Inl e, m') \<Rightarrow> (Inl e, m')
                   | (Inr _, m') \<Rightarrow>
                       (case sha256 E (id_value identity) of
                          Inl e \<Rightarrow> (Inl e, m')
                        | Inr userDigest \<Rightarrow>
                            (Inr \<lparr>rs_ceremonyId = ceremony,
                                  rs_publicKeyOptionsJson = wl_serialize L
                                    (registration_options config challenge identity userDigest (listCredentials identity m'))\<rparr>,
                             m')))))"

text \<open>The external identity a passkey sign-in stands for: the identity's own identifier as subject.\<close>

definition passkey_ref :: "IdentityId \<Rightarrow> ExternalIdentityRef" where
  "passkey_ref identity =
     \<lparr>ext_providerId = passkey_id, ext_subject = StrongId (id_value identity), ext_displayName = None,
      ext_preferredUsername = None, ext_pictureUrl = None\<rparr>"

text \<open>The link driven through its states in one expression of the source.\<close>

definition passkey_link :: "env \<Rightarrow> IdentityId \<Rightarrow> ExternalIdentityRef \<Rightarrow> IdentityLink option" where
  "passkey_link E identity external =
     (case Link_request identity external (env_now E 3) (5 * 60000) of
        Inl _ \<Rightarrow> None
      | Inr l0 \<Rightarrow>
          (case requireVerification (env_now E 4) l0 of
             (Inl _, _) \<Rightarrow> None
           | (Inr _, l1) \<Rightarrow>
               (case markVerified (env_now E 5) l1 of
                  (Inl _, _) \<Rightarrow> None
                | (Inr _, l2) \<Rightarrow>
                    (case complete (env_now E 6) l2 of (Inl _, _) \<Rightarrow> None | (Inr _, l3) \<Rightarrow> Some l3))))"

type_synonym passkey_state = "PasskeyRepository \<times> Directory"

definition registered_credential :: "env \<Rightarrow> IdentityId \<Rightarrow> AttestationResult \<Rightarrow> PasskeyCredential" where
  "registered_credential E identity attestation =
     \<lparr>pc_credentialId = ar_credentialId attestation, pc_identity = identity,
      pc_publicKeyX = ar_x attestation, pc_publicKeyY = ar_y attestation,
      pc_signCount = ar_signCount attestation, pc_createdAt = env_now E 1, pc_lastUsedAt = env_now E 2\<rparr>"

text \<open>The part of \<^verbatim>\<open>completeRegistration\<close> behind the consumed ceremony.\<close>

definition store_registration ::
    "env \<Rightarrow> IdentityId \<Rightarrow> RegistrationResponse \<Rightarrow> AttestationResult \<Rightarrow> Directory \<Rightarrow> PasskeyRepository \<Rightarrow> Status \<times> passkey_state" where
  "store_registration E identity response attestation d m =
     (case ownerOf (passkey_ref identity) d of
        Inl e \<Rightarrow> (Inl e, (m, d))
      | Inr owner \<Rightarrow>
      if owner \<noteq> None \<and> owner \<noteq> Some identity then (fail_code Conflict, (m, d))
      else (case addCredential (registered_credential E identity attestation) m of
        (Inl e, m') \<Rightarrow> (Inl e, (m', d))
      | (Inr _, m') \<Rightarrow>
      if owner \<noteq> None then (ok, (m', d))
      else (case passkey_link E identity (passkey_ref identity) of
        None \<Rightarrow> (fail_code Internal, (snd (removeCredential identity (rr_credentialId response) m'), d))
      | Some link \<Rightarrow>
          (case attach link d of
             (Inl e, d') \<Rightarrow> (Inl e, (snd (removeCredential identity (rr_credentialId response) m'), d'))
           | (Inr _, d') \<Rightarrow> (ok, (m', d'))))))"

definition completeRegistration ::
    "env \<Rightarrow> webauthn_library \<Rightarrow> PasskeyConfig \<Rightarrow> IdentityId \<Rightarrow> ChallengeId \<Rightarrow> RegistrationResponse \<Rightarrow> passkey_state
     \<Rightarrow> Status \<times> passkey_state" where
  "completeRegistration E L config identity ceremonyId response s =
     (case challengeFor E config ''register'' ceremonyId of
        Inl e \<Rightarrow> (Inl e, s)
      | Inr challenge \<Rightarrow>
          (case verifyAttestation E L response config challenge of
             Inl e \<Rightarrow> (Inl e, s)
           | Inr attestation \<Rightarrow>
               (case consumeCeremony ceremonyId identity (env_now E 0) (fst s) of
                  (Inl e, m) \<Rightarrow> (Inl e, (m, snd s))
                | (Inr _, m) \<Rightarrow> store_registration E identity response attestation (snd s) m)))"

definition passkey_list :: "IdentityId \<Rightarrow> passkey_state \<Rightarrow> PasskeyCredential list Result" where
  "passkey_list identity s = listCredentials identity (fst s)"

definition passkey_remove :: "IdentityId \<Rightarrow> string \<Rightarrow> passkey_state \<Rightarrow> Status \<times> passkey_state" where
  "passkey_remove identity credentialId s =
     (case removeCredentialIfAnotherExists identity credentialId (fst s) of
        (Inr _, m) \<Rightarrow> (ok, (m, snd s))
      | (Inl e, m) \<Rightarrow>
          if err_code e \<noteq> FailedPrecondition then (Inl e, (m, snd s))
          else (case ownerOf (passkey_ref identity) (snd s) of
                  Inl e' \<Rightarrow> (Inl e', (m, snd s))
                | Inr (Some owner) \<Rightarrow>
                    if owner \<noteq> identity then (fail_code PermissionDenied, (m, snd s))
                    else (fail_msg FailedPrecondition
                            ''Disconnect passkey sign-in before removing the final passkey credential.'', (m, snd s))
                | Inr None \<Rightarrow>
                    (case removeCredential identity credentialId m of (r, m') \<Rightarrow> (r, (m', snd s)))))"

section \<open>What a sign-in proves\<close>

text \<open>
  The holder of the private key of \<open>stored\<close> signed this authenticator data, made for the
  relying party with the user present and verified, together with client data made for this
  challenge at this origin.
\<close>

definition signed_assertion ::
    "env \<Rightarrow> webauthn_library \<Rightarrow> PasskeyConfig \<Rightarrow> ChallengeId \<Rightarrow> PasskeyCredential \<Rightarrow> byte list \<Rightarrow> byte list \<Rightarrow> byte list
     \<Rightarrow> 32 word \<Rightarrow> bool" where
  "signed_assertion E L config challengeId stored client authData signature counter \<longleftrightarrow>
     (\<exists>challenge obj. challengeFor E config ''authenticate'' challengeId = Inr challenge
        \<and> wl_parse L (as_text client) = Some (JObject obj)
        \<and> client_data_bound obj ''webauthn.get'' challenge (pk_origin config))
     \<and> (\<exists>h flags trailing. sha256 E (pk_relyingPartyId config) = Inr h
          \<and> authData = h @ flags # counter_bytes counter @ trailing
          \<and> flags AND kUserPresent \<noteq> 0 \<and> flags AND kUserVerified \<noteq> 0 \<and> flags AND kAttestedCredentialData = 0
          \<and> (if flags AND kExtensionData = 0 then trailing = [] else \<exists>x. readable 13 x \<and> trailing = encode x))
     \<and> (\<exists>clientHash x y. sha256 E (as_text client) = Inr clientHash
          \<and> pc_publicKeyX stored = toBase64Url x \<and> pc_publicKeyY stored = toBase64Url y
          \<and> length x = 32 \<and> length y = 32
          \<and> wl_verify L (0x04 # x @ y) signature (authData @ clientHash))"

definition counter_advances :: "32 word \<Rightarrow> 32 word \<Rightarrow> bool" where
  "counter_advances previous next \<longleftrightarrow> previous < next \<or> previous = 0 \<and> next = 0"

abbreviation used_credential :: "32 word \<Rightarrow> Instant \<Rightarrow> PasskeyCredential \<Rightarrow> PasskeyCredential" where
  "used_credential counter now c \<equiv>
     c\<lparr>pc_signCount := counter, pc_lastUsedAt := (if now > pc_lastUsedAt c then now else pc_lastUsedAt c)\<rparr>"

lemma extensions_exact: "extensions_ok trailing \<longleftrightarrow> (\<exists>x. readable 13 x \<and> trailing = encode x)"
  by (simp add: extensions_ok_def cbor_skip_exact)

lemma assertion_proof_sound:
  assumes proved: "assertion_proof E L config stored client authData signature handle = Inr counter"
    and client: "verifyClientData L encoded ''webauthn.get'' challenge (pk_origin config) = Inr client"
    and challenge: "challengeFor E config ''authenticate'' challengeId = Inr challenge"
  shows "signed_assertion E L config challengeId stored client authData signature counter"
    "counter_advances (pc_signCount stored) counter" "user_handle_bound E handle (pc_identity stored)"
proof -
  obtain pa where pa: "verifyAuthenticatorPrefix E authData (pk_relyingPartyId config) False = Inr pa"
    using proved by (auto simp: assertion_proof_def split: sum.splits)
  obtain clientHash where hash: "sha256 E (as_text client) = Inr clientHash"
    using proved pa by (auto simp: assertion_proof_def split: sum.splits if_split_asm)
  have checks: "pa_flags pa AND kAttestedCredentialData = 0"
      "pa_flags pa AND kExtensionData = 0 \<or> extensions_ok (pa_trailing pa)"
      "pa_flags pa AND kExtensionData \<noteq> 0 \<or> pa_trailing pa = []"
      "verifyEs256 L (pc_publicKeyX stored) (pc_publicKeyY stored) (authData @ clientHash) signature = ok"
      "counter = pa_signCount pa"
      "\<not> ((pc_signCount stored \<noteq> 0 \<or> counter \<noteq> 0) \<and> counter \<le> pc_signCount stored)"
      "user_handle_bound E handle (pc_identity stored)"
    using proved pa hash by (auto simp: assertion_proof_def split: sum.splits if_split_asm)
  show "user_handle_bound E handle (pc_identity stored)" by (rule checks(7))
  show "counter_advances (pc_signCount stored) counter" using checks(6) by (auto simp: counter_advances_def)
  show "signed_assertion E L config challengeId stored client authData signature counter"
    unfolding signed_assertion_def
  proof (intro conjI)
    show "\<exists>challenge obj. challengeFor E config ''authenticate'' challengeId = Inr challenge
        \<and> wl_parse L (as_text client) = Some (JObject obj)
        \<and> client_data_bound obj ''webauthn.get'' challenge (pk_origin config)"
      using challenge client by (auto simp: verifyClientData_iff)
    show "\<exists>clientHash x y. sha256 E (as_text client) = Inr clientHash
          \<and> pc_publicKeyX stored = toBase64Url x \<and> pc_publicKeyY stored = toBase64Url y
          \<and> length x = 32 \<and> length y = 32 \<and> wl_verify L (0x04 # x @ y) signature (authData @ clientHash)"
      using hash checks(4) unfolding verifyEs256_iff by auto
  qed (use pa checks extensions_exact in \<open>auto simp: verifyAuthenticatorPrefix_iff\<close>)
qed

lemma advanceCounter_ok:
  "map_of (pr_credentials m) k = Some c \<Longrightarrow> counter_advances (pc_signCount c) counter \<Longrightarrow>
   advanceCounter k (pc_signCount c) counter now m =
     (ok, m\<lparr>pr_credentials := omap_modify k (used_credential counter now) (pr_credentials m)\<rparr>)"
  by (auto simp: advanceCounter_def counter_advances_def Let_def)

text \<open>The two ways a call of the provider can go.\<close>

lemma verifyAssertion_cases:
  assumes "challengeFor E config ''authenticate'' challengeId = Inr challenge"
    and "verifyAssertion E L response config challenge now m = (r, m')"
  obtains e where "r = Inl e" "m' = m"
  | stored client authData signature counter where
      "as_clientDataJson response = toBase64Url client" "as_authenticatorData response = toBase64Url authData"
      "as_signature response = toBase64Url signature"
      "map_of (pr_credentials m) (as_credentialId response) = Some stored"
      "signed_assertion E L config challengeId stored client authData signature counter"
      "counter_advances (pc_signCount stored) counter"
      "user_handle_bound E (as_userHandle response) (pc_identity stored)"
      "r = Inr (stored\<lparr>pc_signCount := counter, pc_lastUsedAt := now\<rparr>)"
      "m' = m\<lparr>pr_credentials := omap_modify (as_credentialId response) (used_credential counter now) (pr_credentials m)\<rparr>"
proof (cases r)
  case (Inl e)
  have "m' = m"
    using assms(2) Inl
    by (auto simp: verifyAssertion_def findCredential_def advanceCounter_def Let_def
        split: sum.splits option.splits prod.splits if_split_asm)
  with Inl show thesis by (rule that(1))
next
  case (Inr credential)
  then obtain client cid authData signature stored counter where
      parts: "verifyClientData L (as_clientDataJson response) ''webauthn.get'' challenge (pk_origin config) = Inr client"
      "decodeCanonical (as_authenticatorData response) kMaximumAttestation = Inr authData"
      "decodeCanonical (as_signature response) 256 = Inr signature"
      "map_of (pr_credentials m) (as_credentialId response) = Some stored"
      "assertion_proof E L config stored client authData signature (as_userHandle response) = Inr counter"
      and result: "(r, m') = (case advanceCounter (as_credentialId response) (pc_signCount stored) counter now m of
                       (Inl e, m') \<Rightarrow> (Inl e, m')
                     | (Inr _, m') \<Rightarrow> (Inr (stored\<lparr>pc_signCount := counter, pc_lastUsedAt := now\<rparr>), m'))"
    using assms(2) by (auto simp: verifyAssertion_def findCredential_def split: sum.splits option.splits)
  note sound = assertion_proof_sound [OF parts(5,1) assms(1)]
  show thesis
    using parts sound result advanceCounter_ok [OF parts(4) sound(2), of now]
    by (intro that(2)) (auto simp: verifyClientData_iff decodeCanonical_iff)
qed

lemma completeAuthentication_cases:
  assumes "passkey_completeAuthentication E L config response m = (r, m')"
  obtains e where "r = Inl e" "m' = m"
  | k stored client authData signature counter where
      "passkey_parameter (response_parameters response) ''credential_id'' = Some k"
      "passkey_parameter (response_parameters response) ''client_data_json'' = Some (toBase64Url client)"
      "passkey_parameter (response_parameters response) ''authenticator_data'' = Some (toBase64Url authData)"
      "passkey_parameter (response_parameters response) ''signature'' = Some (toBase64Url signature)"
      "map_of (pr_credentials m) k = Some stored"
      "signed_assertion E L config (response_challengeId response) stored client authData signature counter"
      "counter_advances (pc_signCount stored) counter"
      "user_handle_bound E (passkey_parameter (response_parameters response) ''user_handle'') (pc_identity stored)"
      "r = passkey_outcome stored (env_now E 1)"
      "m' = m\<lparr>pr_credentials := omap_modify k (used_credential counter (env_now E 0)) (pr_credentials m)\<rparr>"
proof (cases "\<exists>e. r = Inl e \<and> m' = m")
  case True
  then show thesis using that(1) by blast
next
  case False
  then obtain k clientData authenticatorData signature challenge r1 where
      parts: "passkey_parameter (response_parameters response) ''credential_id'' = Some k"
      "passkey_parameter (response_parameters response) ''client_data_json'' = Some clientData"
      "passkey_parameter (response_parameters response) ''authenticator_data'' = Some authenticatorData"
      "passkey_parameter (response_parameters response) ''signature'' = Some signature"
      "challengeFor E config ''authenticate'' (response_challengeId response) = Inr challenge"
      and verified: "verifyAssertion E L
             \<lparr>as_credentialId = k, as_clientDataJson = clientData, as_authenticatorData = authenticatorData,
              as_signature = signature, as_userHandle = passkey_parameter (response_parameters response) ''user_handle''\<rparr>
             config challenge (env_now E 0) m = (r1, m')"
      and r: "r = (case r1 of Inl e \<Rightarrow> Inl e | Inr c \<Rightarrow> passkey_outcome c (env_now E 1))"
    using assms
    by (auto simp: passkey_completeAuthentication_def Let_def split: option.splits sum.splits prod.splits)
  show thesis
    by (rule verifyAssertion_cases [OF parts(5) verified])
      (use False r parts that(2) in \<open>auto simp: passkey_outcome_def\<close>)
qed

end
