(* ===== verification/Passkey_Proofs.thy ===== *)
theory Passkey_Proofs
  imports Passkey
begin

text \<open>
  Histories of the passkey provider: registrations, removals and sign-ins interleaved with the calls
  other components make of the directory. Ceremonies are single-use, counters never go back, and a
  connected passkey sign-in keeps a credential to sign in with.
\<close>

datatype passkey_call =
    BeginRegistration env webauthn_library PasskeyConfig IdentityId
  | CompleteRegistration env webauthn_library PasskeyConfig IdentityId ChallengeId RegistrationResponse
  | RemovePasskey IdentityId string
  | Authenticate env webauthn_library PasskeyConfig AuthenticationResponse
  | DirectoryCall directory_call

fun passkey_step :: "passkey_call \<Rightarrow> passkey_state \<Rightarrow> bool \<times> passkey_state" where
  "passkey_step (BeginRegistration E L config identity) s =
     (case beginRegistration E L config identity (fst s) of (r, m) \<Rightarrow> (succeeded r, (m, snd s)))"
| "passkey_step (CompleteRegistration E L config identity ceremony response) s =
     (case completeRegistration E L config identity ceremony response s of (r, s') \<Rightarrow> (succeeded r, s'))"
| "passkey_step (RemovePasskey identity k) s =
     (case passkey_remove identity k s of (r, s') \<Rightarrow> (succeeded r, s'))"
| "passkey_step (Authenticate E L config response) s =
     (case passkey_completeAuthentication E L config response (fst s) of (r, m) \<Rightarrow> (succeeded r, (m, snd s)))"
| "passkey_step (DirectoryCall c) s =
     (case directory_step c (snd s) of (r, d) \<Rightarrow> (succeeded r, (fst s, d)))"

section \<open>The invariant\<close>

definition repository_ok :: "PasskeyRepository \<Rightarrow> bool" where
  "repository_ok m \<longleftrightarrow> omap_ok (pr_ceremonies m) \<and> omap_ok (pr_credentials m)
     \<and> (\<forall>k c. map_of (pr_ceremonies m) k = Some c \<longrightarrow> rc_id c = k)
     \<and> (\<forall>k c. map_of (pr_credentials m) k = Some c \<longrightarrow> pc_credentialId c = k)"

definition passkey_inv :: "passkey_state \<Rightarrow> bool" where
  "passkey_inv s \<longleftrightarrow> repository_ok (fst s) \<and> directory_inv (snd s)"

text \<open>How each operation leaves the two maps, when it changes them.\<close>

lemma addCeremony_cases:
  assumes "addCeremony ceremony m = (r, m')"
  obtains e where "r = Inl e" "m' = m" "map_of (pr_ceremonies m) (rc_id ceremony) \<noteq> None"
  | "r = ok" "map_of (pr_ceremonies m) (rc_id ceremony) = None"
      "m' = m\<lparr>pr_ceremonies := omap_emplace (rc_id ceremony) ceremony (pr_ceremonies m)\<rparr>"
  using assms by (auto simp: addCeremony_def omap_contains_def fail_code_def split: if_split_asm)

lemma consumeCeremony_cases:
  assumes "consumeCeremony k identity now m = (r, m')"
  obtains e where "r = Inl e" "m' = m"
  | c where "r = ok" "map_of (pr_ceremonies m) k = Some c" "rc_identity c = identity" "now < rc_expiresAt c"
      "m' = m\<lparr>pr_ceremonies := omap_erase k (pr_ceremonies m)\<rparr>"
  using assms by (auto simp: consumeCeremony_def fail_code_def split: if_split_asm option.splits)

lemma addCredential_cases:
  assumes "addCredential c m = (r, m')"
  obtains e where "r = Inl e" "m' = m"
  | "r = ok" "map_of (pr_credentials m) (pc_credentialId c) = None"
      "m' = m\<lparr>pr_credentials := omap_emplace (pc_credentialId c) c (pr_credentials m)\<rparr>"
  using assms by (auto simp: addCredential_def omap_contains_def fail_code_def split: if_split_asm)

lemma erase_absent: "map_of m k = None \<Longrightarrow> omap_erase k m = m"
  by (induction k m rule: omap_erase.induct) (auto split: if_split_asm)

lemma undo_emplace:
  "map_of m k = None \<Longrightarrow> omap_erase k (omap_emplace k v m) = m"
  by (induction k v m rule: omap_emplace.induct) (auto simp: erase_absent split: if_split_asm)

lemma attested_identifier:
  "verifyAttestation E L response config challenge = Inr a \<Longrightarrow> ar_credentialId a = rr_credentialId response"
  by (auto simp: verifyAttestation_def attested_credential_def Let_def split: sum.splits if_split_asm)

lemma passkey_link_fields:
  assumes "passkey_link E identity external = Some l"
  shows "link_owner l = identity" "link_external l = external" "link_state l = Linked"
  using assms
  by (auto simp: passkey_link_def Link_request_def requireVerification_def markVerified_def complete_def
      Link_transitionTo_def split: sum.splits prod.splits if_split_asm)

lemma rolled_back:
  assumes "map_of (pr_credentials m) (pc_credentialId c) = None" "pc_identity c = identity" "omap_ok (pr_credentials m)"
  shows "snd (removeCredential identity (pc_credentialId c)
     (m\<lparr>pr_credentials := omap_emplace (pc_credentialId c) c (pr_credentials m)\<rparr>)) = m"
  using assms by (simp add: removeCredential_def map_of_emplace undo_emplace)

text \<open>The sign-in connection was there, or the directory attached it.\<close>

definition connected :: "IdentityId \<Rightarrow> Directory \<Rightarrow> Directory \<Rightarrow> bool" where
  "connected identity d d' \<longleftrightarrow> d' = d \<and> owner_map d (ref_key (passkey_ref identity)) = Some identity
     \<or> (\<exists>l. link_external l = passkey_ref identity \<and> link_owner l = identity \<and> attach l d = (ok, d'))"

lemma attach_refused: "attach l d = (Inl e, d') \<Longrightarrow> d' = d"
  by (auto simp: attach_def split: option.splits if_split_asm)

lemma store_registration_cases:
  assumes rest: "store_registration E identity response attestation d m = (r, s')"
    and k: "ar_credentialId attestation = rr_credentialId response" and m: "omap_ok (pr_credentials m)"
  obtains e where "r = Inl e" "s' = (m, d)"
  | d' where "r = ok" "map_of (pr_credentials m) (rr_credentialId response) = None" "connected identity d d'"
      "s' = (m\<lparr>pr_credentials := omap_emplace (rr_credentialId response)
               (registered_credential E identity attestation) (pr_credentials m)\<rparr>, d')"
proof -
  let ?c = "registered_credential E identity attestation" and ?owner = "owner_map d (ref_key (passkey_ref identity))"
  have c: "pc_credentialId ?c = rr_credentialId response" "pc_identity ?c = identity"
    using k by (simp_all add: registered_credential_def)
  obtain ra m' where added: "addCredential ?c m = (ra, m')" by force
  show thesis
  proof (cases "(?owner \<noteq> None \<and> ?owner \<noteq> Some identity) \<or> (\<exists>e. ra = Inl e)")
    case True
    moreover have "m' = m" if "ra = Inl e" for e using added that by (auto elim: addCredential_cases)
    ultimately have "\<exists>e. r = Inl e \<and> s' = (m, d)"
      using rest added by (auto simp: store_registration_def ownerOf_map fail_code_def split: if_split_asm)
    then show thesis using that(1) by blast
  next
    case False
    then have new: "map_of (pr_credentials m) (pc_credentialId ?c) = None"
        "m' = m\<lparr>pr_credentials := omap_emplace (pc_credentialId ?c) ?c (pr_credentials m)\<rparr>" "ra = ok"
      using added by (auto elim: addCredential_cases)
    note undone = rolled_back [OF new(1) c(2) m, folded new(2), unfolded c(1)]
    show thesis
    proof (cases ?owner)
      case (Some i)
      with False rest added new show thesis
        by (intro that(2) [of d]) (auto simp: store_registration_def ownerOf_map connected_def c)
    next
      case None
      show thesis
      proof (cases "passkey_link E identity (passkey_ref identity)")
        case None
        with \<open>?owner = None\<close> rest added new undone show thesis
          by (intro that(1)) (auto simp: store_registration_def ownerOf_map fail_code_def)
      next
        case (Some l)
        obtain rb d' where attached: "attach l d = (rb, d')" by force
        show thesis
          using \<open>?owner = None\<close> Some rest added new undone attached attach_refused [of l d _ d']
            passkey_link_fields [OF Some] that(1) that(2) [of d']
          by (cases rb) (auto simp: store_registration_def ownerOf_map connected_def c)
      qed
    qed
  qed
qed

text \<open>What a completed registration did, and that a failed one stored no credential.\<close>

lemma completeRegistration_cases:
  assumes "repository_ok (fst s)" "completeRegistration E L config identity ceremony response s = (r, s')"
  obtains e where "r = Inl e" "s' = s"
  | e where "r = Inl e" "map_of (pr_ceremonies (fst s)) ceremony \<noteq> None"
      "s' = (fst s\<lparr>pr_ceremonies := omap_erase ceremony (pr_ceremonies (fst s))\<rparr>, snd s)"
  | challenge attestation c d' where "r = ok"
      "challengeFor E config ''register'' ceremony = Inr challenge"
      "verifyAttestation E L response config challenge = Inr attestation"
      "map_of (pr_ceremonies (fst s)) ceremony = Some c" "rc_identity c = identity" "env_now E 0 < rc_expiresAt c"
      "map_of (pr_credentials (fst s)) (rr_credentialId response) = None" "connected identity (snd s) d'"
      "s' = (fst s\<lparr>pr_ceremonies := omap_erase ceremony (pr_ceremonies (fst s)),
         pr_credentials := omap_emplace (rr_credentialId response)
           (registered_credential E identity attestation) (pr_credentials (fst s))\<rparr>, d')"
proof (cases "\<exists>e. r = Inl e \<and> s' = s")
  case True
  then show thesis using that(1) by blast
next
  case False
  then obtain challenge attestation where verified: "challengeFor E config ''register'' ceremony = Inr challenge"
      "verifyAttestation E L response config challenge = Inr attestation"
    using assms(2) by (auto simp: completeRegistration_def split: sum.splits)
  obtain rc m where consumed: "consumeCeremony ceremony identity (env_now E 0) (fst s) = (rc, m)" by force
  then show thesis
  proof (cases rule: consumeCeremony_cases)
    case 1
    with False assms(2) verified consumed show thesis by (cases s) (auto simp: completeRegistration_def)
  next
    case (2 c)
    have rest: "store_registration E identity response attestation (snd s) m = (r, s')"
      using assms(2) verified consumed 2 by (simp add: completeRegistration_def)
    have "omap_ok (pr_credentials m)" using 2 assms(1) by (simp add: repository_ok_def)
    with rest attested_identifier [OF verified(2)] show thesis
    proof (cases rule: store_registration_cases)
      case 1
      with 2 show thesis by (intro that(2)) auto
    next
      case (2 d')
      with \<open>map_of (pr_ceremonies (fst s)) ceremony = Some c\<close> \<open>rc_identity c = identity\<close> \<open>env_now E 0 < rc_expiresAt c\<close>
        \<open>m = _\<close> verified show thesis
        by (intro that(3)) auto
    qed
  qed
qed

lemma beginRegistration_cases:
  assumes "beginRegistration E L config identity m = (r, m')"
  obtains e where "r = Inl e" "m' = m"
  | c where "map_of (pr_ceremonies m) (rc_id c) = None" "rc_identity c = identity"
      "m' = m\<lparr>pr_ceremonies := omap_emplace (rc_id c) c (pr_ceremonies m)\<rparr>"
      "\<And>start. r = Inr start \<Longrightarrow> rs_ceremonyId start = rc_id c"
proof (cases "\<exists>e. r = Inl e \<and> m' = m")
  case True
  then show thesis using that(1) by blast
next
  case False
  then obtain random challenge where fresh: "randomTokenBase64Url E 0 24 = Inr random"
      "challengeFor E config ''register'' (StrongId (''pkr_'' @ random)) = Inr challenge"
    using assms by (auto simp: beginRegistration_def Let_def split: sum.splits)
  define c where "c = \<lparr>rc_id = StrongId (''pkr_'' @ random), rc_identity = identity,
                        rc_expiresAt = env_now E 0 + pk_ceremonyLifetime config\<rparr>"
  obtain ra m1 where added: "addCeremony c m = (ra, m1)" by force
  with assms fresh have begun: "(r, m') = (case ra of Inl e \<Rightarrow> (Inl e, m1) | Inr _ \<Rightarrow>
      (case sha256 E (id_value identity) of Inl e \<Rightarrow> (Inl e, m1) | Inr userDigest \<Rightarrow>
         (Inr \<lparr>rs_ceremonyId = rc_id c, rs_publicKeyOptionsJson = wl_serialize L
            (registration_options config challenge identity userDigest (listCredentials identity m1))\<rparr>, m1)))"
    by (auto simp: beginRegistration_def c_def split: sum.splits)
  from added show thesis
  proof (cases rule: addCeremony_cases)
    case 1
    with begun False show thesis by simp
  next
    case 2
    with begun show thesis
      by (intro that(2) [of c]) (auto simp: c_def split: sum.splits)
  qed
qed

lemma at_most_one: "finite A \<Longrightarrow> k \<in> A \<Longrightarrow> card A \<le> 1 \<longleftrightarrow> A = {k}"
  by (auto simp: card_le_Suc0_iff_eq)

abbreviation owned :: "PasskeyRepository \<Rightarrow> IdentityId \<Rightarrow> string set" where
  "owned m identity \<equiv> {k. \<exists>c. map_of (pr_credentials m) k = Some c \<and> pc_identity c = identity}"

lemma finite_owned: "finite (owned m identity)"
proof (rule finite_subset)
  show "owned m identity \<subseteq> dom (map_of (pr_credentials m))" by auto
qed (rule finite_dom_map_of)

lemma owned_card:
  assumes "omap_ok (pr_credentials m)"
  shows "length (filter (\<lambda>(k, c). pc_identity c = identity) (pr_credentials m)) = card (owned m identity)"
proof -
  let ?own = "filter (\<lambda>(k, c). pc_identity c = identity) (pr_credentials m)"
  have "distinct (map fst ?own)" using omap_ok_filter [OF assms] by (simp add: omap_ok_def strict_sorted_iff)
  then have "length ?own = card (fst ` set ?own)" using distinct_card by fastforce
  also have "fst ` set ?own = owned m identity" using assms by (force simp: omap_entry)
  finally show ?thesis .
qed

text \<open>
  A removal takes one credential of the identity, which has another or no connected sign-in.
\<close>

lemma passkey_remove_cases:
  assumes "omap_ok (pr_credentials (fst s))" "passkey_remove identity k s = (r, s')"
  obtains e where "r = Inl e" "s' = s"
  | "r = ok" "k \<in> owned (fst s) identity"
      "owned (fst s) identity \<noteq> {k} \<or> owner_map (snd s) (ref_key (passkey_ref identity)) = None"
      "s' = (fst s\<lparr>pr_credentials := omap_erase k (pr_credentials (fst s))\<rparr>, snd s)"
proof (cases "k \<in> owned (fst s) identity")
  case False
  then have "\<exists>e. r = Inl e \<and> s' = s"
    using assms(2)
    by (cases s) (auto simp: passkey_remove_def removeCredentialIfAnotherExists_def fail_code_def Error_of_code_def split: option.splits if_split_asm)
  then show thesis using that(1) by blast
next
  case True
  then obtain c where c: "map_of (pr_credentials (fst s)) k = Some c" "pc_identity c = identity" by auto
  have one: "card (owned (fst s) identity) \<le> 1 \<longleftrightarrow> owned (fst s) identity = {k}"
    by (rule at_most_one [OF finite_owned True])
  show thesis
  proof (cases "owned (fst s) identity = {k} \<and> owner_map (snd s) (ref_key (passkey_ref identity)) \<noteq> None")
    case True
    then have "\<exists>e. r = Inl e \<and> s' = s"
      using assms c one
      by (cases s) (auto simp: passkey_remove_def removeCredentialIfAnotherExists_def owned_card ownerOf_map
          fail_code_def fail_msg_def Error_with_message_def split: if_split_asm)
    then show thesis using that(1) by blast
  next
    case False
    with True assms c one show thesis
      by (intro that(2))
        (auto simp: passkey_remove_def removeCredentialIfAnotherExists_def removeCredential_def owned_card ownerOf_map
          fail_msg_def Error_with_message_def split: if_split_asm)
  qed
qed

lemma repository_okD:
  assumes "repository_ok m"
  shows "omap_ok (pr_ceremonies m)" "omap_ok (pr_credentials m)"
    "map_of (pr_ceremonies m) k = Some c \<Longrightarrow> rc_id c = k"
    "map_of (pr_credentials m) i = Some p \<Longrightarrow> pc_credentialId p = i"
  using assms by (simp_all add: repository_ok_def)

lemma repository_ok_updates:
  assumes "repository_ok m"
  shows "map_of (pr_ceremonies m) (rc_id c) = None \<Longrightarrow>
      repository_ok (m\<lparr>pr_ceremonies := omap_emplace (rc_id c) c (pr_ceremonies m)\<rparr>)"
    "repository_ok (m\<lparr>pr_ceremonies := omap_erase k (pr_ceremonies m)\<rparr>)"
    "map_of (pr_credentials m) (pc_credentialId p) = None \<Longrightarrow>
      repository_ok (m\<lparr>pr_credentials := omap_emplace (pc_credentialId p) p (pr_credentials m)\<rparr>)"
    "repository_ok (m\<lparr>pr_credentials := omap_erase i (pr_credentials m)\<rparr>)"
    "(\<And>q. pc_credentialId (f q) = pc_credentialId q) \<Longrightarrow>
      repository_ok (m\<lparr>pr_credentials := omap_modify i f (pr_credentials m)\<rparr>)"
  using assms
  by (auto simp: repository_ok_def omap_ok_emplace omap_ok_erase map_of_emplace map_of_erase map_of_modify
      split: if_split_asm option.splits)

lemma connected_inv: "directory_inv d \<Longrightarrow> connected identity d d' \<Longrightarrow> directory_inv d'"
  unfolding connected_def using directory_inv_step [of d "Attach _"] by (metis directory_step.simps(1) snd_conv)

lemma passkey_step_inv: "passkey_inv s \<Longrightarrow> passkey_inv (snd (passkey_step c s))"
proof (cases c)
  case (BeginRegistration E L config identity)
  assume inv: "passkey_inv s"
  obtain r m' where begun: "beginRegistration E L config identity (fst s) = (r, m')" by force
  then show ?thesis
    using inv repository_ok_updates(1) [of "fst s"]
    by (cases rule: beginRegistration_cases) (auto simp: BeginRegistration begun passkey_inv_def)
next
  case (CompleteRegistration E L config identity ceremony response)
  assume inv: "passkey_inv s"
  obtain r s' where completed: "completeRegistration E L config identity ceremony response s = (r, s')" using surj_pair by metis
  from inv have ok: "repository_ok (fst s)" by (simp add: passkey_inv_def)
  then show ?thesis
    using completed
  proof (cases rule: completeRegistration_cases)
    case (3 challenge attestation c d')
    let ?m = "fst s\<lparr>pr_ceremonies := omap_erase ceremony (pr_ceremonies (fst s))\<rparr>"
    have "pc_credentialId (registered_credential E identity attestation) = rr_credentialId response"
      using attested_identifier [OF 3(3)] by (simp add: registered_credential_def)
    with 3 inv repository_ok_updates(3) [OF repository_ok_updates(2) [OF ok], of ceremony "registered_credential E identity attestation"]
    show ?thesis using connected_inv [OF _ 3(8)]
      by (simp add: CompleteRegistration completed passkey_inv_def)
  qed (use inv in \<open>simp_all add: CompleteRegistration completed passkey_inv_def repository_ok_updates\<close>)
next
  case (RemovePasskey identity k)
  assume inv: "passkey_inv s"
  obtain r s' where removed: "passkey_remove identity k s = (r, s')" using surj_pair by metis
  from inv have "omap_ok (pr_credentials (fst s))" by (simp add: passkey_inv_def repository_ok_def)
  then show ?thesis
    using removed
    by (cases rule: passkey_remove_cases)
      (use inv in \<open>simp_all add: RemovePasskey removed passkey_inv_def repository_ok_updates\<close>)
next
  case (Authenticate E L config response)
  assume inv: "passkey_inv s"
  obtain r m' where signed: "passkey_completeAuthentication E L config response (fst s) = (r, m')" by force
  then show ?thesis
    by (cases rule: completeAuthentication_cases)
      (use inv in \<open>simp_all add: Authenticate signed passkey_inv_def repository_ok_updates\<close>)
next
  case (DirectoryCall c)
  assume inv: "passkey_inv s"
  then show ?thesis
    using directory_inv_step [of "snd s" c] by (simp add: DirectoryCall passkey_inv_def case_prod_unfold)
qed

interpretation passkeys: guarded_machine passkey_step passkey_inv
  by unfold_locales (rule passkey_step_inv)

section \<open>What stays true\<close>

text \<open>The credentials after a call, for a credential that is there before and is not removed by it.\<close>

lemma credential_kept:
  assumes inv: "passkey_inv s" and c: "map_of (pr_credentials (fst s)) k = Some c"
    and call: "\<And>i. call \<noteq> RemovePasskey i k"
  obtains c' where "map_of (pr_credentials (fst (snd (passkey_step call s)))) k = Some c'"
    "pc_signCount c \<le> pc_signCount c'" "pc_identity c' = pc_identity c"
    "pc_publicKeyX c' = pc_publicKeyX c" "pc_publicKeyY c' = pc_publicKeyY c"
proof -
  have ok: "repository_ok (fst s)" "omap_ok (pr_credentials (fst s))" using inv by (simp_all add: passkey_inv_def repository_ok_def)
  show thesis
  proof (cases call)
    case (BeginRegistration E L config identity)
    obtain r m' where begun: "beginRegistration E L config identity (fst s) = (r, m')" by force
    then show thesis
      by (cases rule: beginRegistration_cases) (use that [of c] c in \<open>auto simp: BeginRegistration begun\<close>)
  next
    case (CompleteRegistration E L config identity ceremony response)
    obtain r s' where completed: "completeRegistration E L config identity ceremony response s = (r, s')"
      using surj_pair by metis
    from ok(1) completed show thesis
    proof (cases rule: completeRegistration_cases)
      case (3 challenge attestation ceremony' d')
      then have "k \<noteq> rr_credentialId response" using c by auto
      with 3 that [of c] c ok(2) show thesis by (simp add: CompleteRegistration completed map_of_emplace)
    qed (use that [of c] c in \<open>simp_all add: CompleteRegistration completed\<close>)
  next
    case (RemovePasskey identity k')
    obtain r s' where removed: "passkey_remove identity k' s = (r, s')" using surj_pair by metis
    from ok(2) removed show thesis
      by (cases rule: passkey_remove_cases)
        (use that [of c] c call [of identity] ok(2) in \<open>auto simp: RemovePasskey removed map_of_erase\<close>)
  next
    case (Authenticate E L config response)
    obtain r m' where signed: "passkey_completeAuthentication E L config response (fst s) = (r, m')" by force
    then show thesis
    proof (cases rule: completeAuthentication_cases)
      case 1
      with that [of c] c show thesis by (simp add: Authenticate signed)
    next
      case (2 k' stored client authData signature counter)
      with that [of c] that [of "used_credential counter (env_now E 0) c"] c show thesis
        by (cases "k' = k") (auto simp: Authenticate signed map_of_modify counter_advances_def)
    qed
  next
    case (DirectoryCall d)
    with that [of c] c show thesis by (simp add: case_prod_unfold)
  qed
qed

definition counter_at_least :: "string \<Rightarrow> 32 word \<Rightarrow> passkey_state \<Rightarrow> bool" where
  "counter_at_least k n s \<longleftrightarrow> (\<exists>c. map_of (pr_credentials (fst s)) k = Some c \<and> n \<le> pc_signCount c)"

fun keeps_credential :: "string \<Rightarrow> passkey_call \<Rightarrow> bool" where
  "keeps_credential k (RemovePasskey _ k') = (k' \<noteq> k)"
| "keeps_credential k _ = True"

interpretation counters: stable_fact passkey_step passkey_inv "keeps_credential k" "counter_at_least k n"
  for k n
proof unfold_locales
  fix s call
  assume "passkey_inv s" "counter_at_least k n s" "keeps_credential k call"
  then obtain c where c: "map_of (pr_credentials (fst s)) k = Some c" "n \<le> pc_signCount c"
    by (auto simp: counter_at_least_def)
  moreover have "call \<noteq> RemovePasskey i k" for i using \<open>keeps_credential k call\<close> by auto
  ultimately show "counter_at_least k n (snd (passkey_step call s))"
    using credential_kept [of s k c call] \<open>passkey_inv s\<close> unfolding counter_at_least_def by (metis order_trans)
qed

lemma base64_same: "toBase64Url a = toBase64Url b \<Longrightarrow> a = b"
  by (metis fromBase64Url_toBase64Url Inr_inject option.inject)

lemma counter_bytes_inj: "counter_bytes a = counter_bytes b \<Longrightarrow> a = b"
proof -
  assume "counter_bytes a = counter_bytes b"
  then have same: "ucast (drop_bit 24 a) = (ucast (drop_bit 24 b) :: byte)" "ucast (drop_bit 16 a) = (ucast (drop_bit 16 b) :: byte)"
      "ucast (drop_bit 8 a) = (ucast (drop_bit 8 b) :: byte)" "ucast a = (ucast b :: byte)"
    unfolding counter_bytes_def list.inject by blast+
  have "a = counter_of (ucast (drop_bit 24 a)) (ucast (drop_bit 16 a)) (ucast (drop_bit 8 a)) (ucast a)"
    by (rule counter_of_bytes [symmetric])
  also have "\<dots> = b" unfolding same by (rule counter_of_bytes)
  finally show "a = b" .
qed

text \<open>The counter of an assertion is the one its authenticator data shows.\<close>

lemma signed_counter:
  assumes "signed_assertion E L config challengeId stored client (h @ flags # counter_bytes n @ trailing) signature counter"
    and "length h = 32"
  shows "counter = n"
proof -
  obtain h' flags' trailing' where "sha256 E (pk_relyingPartyId config) = Inr h'"
      "h @ flags # counter_bytes n @ trailing = h' @ flags' # counter_bytes counter @ trailing'"
    using assms(1) unfolding signed_assertion_def by blast
  with assms(2) sha256_length have "counter_bytes n @ trailing = counter_bytes counter @ trailing'"
    by (metis append_eq_append_conv list.inject)
  then have "counter_bytes n = counter_bytes counter" by (simp add: counter_bytes_def)
  then show ?thesis using counter_bytes_inj by metis
qed

abbreviation presents :: "AuthenticationResponse \<Rightarrow> string \<Rightarrow> byte list \<Rightarrow> bool" where
  "presents response k authData \<equiv>
     passkey_parameter (response_parameters response) ''credential_id'' = Some k
     \<and> passkey_parameter (response_parameters response) ''authenticator_data'' = Some (toBase64Url authData)"

text \<open>An accepted assertion leaves its counter behind, and is refused where the counter already stands.\<close>

lemma accepted_leaves_counter:
  assumes "presents response k (h @ flags # counter_bytes n @ trailing)" "length h = 32"
    and "passkey_completeAuthentication E L config response m = (Inr out, m')"
  shows "counter_at_least k n (m', d)"
  using assms(3)
proof (cases rule: completeAuthentication_cases)
  case (2 k' stored client authData signature counter)
  have same: "k' = k" "authData = h @ flags # counter_bytes n @ trailing" using assms(1) 2 base64_same by auto
  have "counter = n" using 2(6) unfolding same by (rule signed_counter) (rule assms(2))
  with 2(5,10) same show ?thesis by (simp add: counter_at_least_def map_of_modify)
qed simp

lemma refused_at_counter:
  assumes "presents response k (h @ flags # counter_bytes n @ trailing)" "length h = 32" "n \<noteq> 0"
    and "counter_at_least k n (m, d)"
  shows "\<exists>e. passkey_completeAuthentication E L config response m = (Inl e, m)"
proof -
  obtain r m' where run: "passkey_completeAuthentication E L config response m = (r, m')" by force
  then show ?thesis
  proof (cases rule: completeAuthentication_cases)
    case (2 k' stored client authData signature counter)
    have same: "k' = k" "authData = h @ flags # counter_bytes n @ trailing" using assms(1) 2 base64_same by auto
    have "counter = n" using 2(6) unfolding same by (rule signed_counter) (rule assms(2))
    with 2(5,7) same assms(3,4) have False by (auto simp: counter_at_least_def counter_advances_def)
    then show ?thesis ..
  qed (simp add: run)
qed

section \<open>A connected sign-in has a credential\<close>

definition backed :: "passkey_state \<Rightarrow> bool" where
  "backed s \<longleftrightarrow> (\<forall>i. owner_map (snd s) (ref_key (passkey_ref i)) \<noteq> None \<longrightarrow> owned (fst s) i \<noteq> {})"

text \<open>Other components connect accounts of other providers.\<close>

fun no_foreign_passkey :: "passkey_call \<Rightarrow> bool" where
  "no_foreign_passkey (DirectoryCall (Attach l)) = (ext_providerId (link_external l) \<noteq> passkey_id)"
| "no_foreign_passkey _ = True"

lemma passkey_ref_inj: "ref_key (passkey_ref i) = ref_key (passkey_ref j) \<Longrightarrow> i = j"
  by (cases i; cases j) (simp add: ref_key_def passkey_ref_def)

lemma connected_owner:
  assumes "directory_inv d" "connected identity d d'" "owner_map d' (ref_key (passkey_ref i)) \<noteq> None"
  shows "i = identity \<or> owner_map d (ref_key (passkey_ref i)) \<noteq> None"
proof -
  have "owner_map d' = (owner_map d)(ref_key (passkey_ref identity) \<mapsto> identity)" if "d' \<noteq> d"
  proof -
    obtain l where l: "link_external l = passkey_ref identity" "link_owner l = identity" "attach l d = (ok, d')"
      using assms(2) \<open>d' \<noteq> d\<close> unfolding connected_def by blast
    then show ?thesis
      using directory_step_refines [OF assms(1), of "Attach l"] by (auto simp: spec_step_def split: if_split_asm)
  qed
  with assms(3) passkey_ref_inj show ?thesis by (cases "d' = d") (auto split: if_split_asm)
qed

lemma directory_call_owner:
  assumes "directory_inv d" "no_foreign_passkey (DirectoryCall c)"
    and "owner_map (snd (directory_step c d)) (ref_key (passkey_ref i)) \<noteq> None"
  shows "owner_map d (ref_key (passkey_ref i)) \<noteq> None"
proof -
  have after: "owner_map (snd (directory_step c d)) = (if spec_accepts c (owner_map d) then spec_effect c (owner_map d) else owner_map d)"
    using directory_step_refines [OF assms(1), of c] by (simp add: spec_step_def split: if_split_asm)
  show ?thesis
    using assms(2,3) unfolding after
    by (cases c) (auto simp: ref_key_def passkey_ref_def split: if_split_asm)
qed

lemma removal_leaves_one:
  assumes "omap_ok (pr_credentials (fst s))" "passkey_remove identity k s = (r, s')"
    and owner: "owner_map (snd s') (ref_key (passkey_ref i)) \<noteq> None"
    and before: "owner_map (snd s) (ref_key (passkey_ref i)) \<noteq> None \<Longrightarrow> owned (fst s) i \<noteq> {}"
  shows "owned (fst s') i \<noteq> {}"
  using assms(1,2)
proof (cases rule: passkey_remove_cases)
  case 1
  with owner before show ?thesis by simp
next
  case 2
  with owner have own: "owner_map (snd s) (ref_key (passkey_ref i)) \<noteq> None" by simp
  have "\<exists>j. j \<in> owned (fst s) i \<and> j \<noteq> k"
  proof (cases "i = identity")
    case True
    with 2(2,3) own show ?thesis by blast
  next
    case False
    obtain j c where "map_of (pr_credentials (fst s)) j = Some c" "pc_identity c = i" using before [OF own] by auto
    with False 2(2) show ?thesis by auto
  qed
  with 2(4) assms(1) show ?thesis by (auto simp: map_of_erase)
qed

lemma backed_step:
  assumes inv: "passkey_inv s" and backed: "backed s" and call: "no_foreign_passkey call"
  shows "backed (snd (passkey_step call s))"
  unfolding backed_def
proof (intro allI impI)
  fix i
  assume owner: "owner_map (snd (snd (passkey_step call s))) (ref_key (passkey_ref i)) \<noteq> None"
  have ok: "repository_ok (fst s)" "omap_ok (pr_credentials (fst s))" "directory_inv (snd s)"
    using inv by (simp_all add: passkey_inv_def repository_ok_def)
  have kept: "owned (fst (snd (passkey_step call s))) i \<noteq> {}"
    if some: "owned (fst s) i \<noteq> {}" and stays: "\<And>j k. call \<noteq> RemovePasskey j k"
  proof -
    obtain k c where "map_of (pr_credentials (fst s)) k = Some c" "pc_identity c = i" using some by auto
    from credential_kept [OF inv this(1) stays] this(2)
    obtain c' where "map_of (pr_credentials (fst (snd (passkey_step call s)))) k = Some c'" "pc_identity c' = i" by metis
    then show ?thesis by auto
  qed
  have before: "owned (fst s) i \<noteq> {}" if "owner_map (snd s) (ref_key (passkey_ref i)) \<noteq> None"
    using backed that unfolding backed_def by blast
  show "owned (fst (snd (passkey_step call s))) i \<noteq> {}"
  proof (cases call)
    case (CompleteRegistration E L config identity ceremony response)
    obtain r s' where completed: "completeRegistration E L config identity ceremony response s = (r, s')"
      using surj_pair by metis
    show ?thesis
    proof (cases "owner_map (snd s) (ref_key (passkey_ref i)) = None")
      case True
      from ok(1) completed show ?thesis
      proof (cases rule: completeRegistration_cases)
        case (3 challenge attestation c d')
        then have "i = identity"
          using connected_owner [OF ok(3) 3(8), of i] owner True by (simp add: CompleteRegistration completed)
        with 3 ok(2) show ?thesis
          by (auto simp: CompleteRegistration completed map_of_emplace registered_credential_def)
      qed (use owner True in \<open>simp_all add: CompleteRegistration completed\<close>)
    next
      case False
      show ?thesis by (rule kept [OF before [OF False]]) (simp add: CompleteRegistration)
    qed
  next
    case (RemovePasskey identity k)
    obtain r s' where removed: "passkey_remove identity k s = (r, s')" using surj_pair by metis
    with owner have "owner_map (snd s') (ref_key (passkey_ref i)) \<noteq> None" by (simp add: RemovePasskey)
    from removal_leaves_one [OF ok(2) removed this before] show ?thesis by (simp add: RemovePasskey removed)
  next
    case (DirectoryCall c)
    with owner call directory_call_owner [OF ok(3), of c i] before show ?thesis
      by (simp add: case_prod_unfold)
  next
    case (BeginRegistration E L config identity)
    with owner before kept show ?thesis by (simp add: case_prod_unfold)
  next
    case (Authenticate E L config response)
    with owner before kept show ?thesis by (simp add: case_prod_unfold)
  qed
qed

interpretation backing: stable_fact passkey_step passkey_inv no_foreign_passkey backed
  by unfold_locales (rule backed_step)

section \<open>A ceremony registers once\<close>

abbreviation ceremony_open :: "passkey_state \<Rightarrow> ChallengeId \<Rightarrow> bool" where
  "ceremony_open s k \<equiv> map_of (pr_ceremonies (fst s)) k \<noteq> None"

fun registers :: "passkey_state \<Rightarrow> passkey_call \<Rightarrow> ChallengeId \<Rightarrow> bool" where
  "registers s (CompleteRegistration E L config identity ceremony response) k =
     (ceremony = k \<and> fst (passkey_step (CompleteRegistration E L config identity ceremony response) s))"
| "registers s _ k = False"

fun opens :: "passkey_state \<Rightarrow> passkey_call \<Rightarrow> ChallengeId \<Rightarrow> bool" where
  "opens s (BeginRegistration E L config identity) k =
     (\<not> ceremony_open s k \<and> ceremony_open (snd (passkey_step (BeginRegistration E L config identity) s)) k)"
| "opens s _ k = False"

lemma ceremonies_after:
  assumes inv: "passkey_inv s" and shut: "\<not> ceremony_open s k"
  shows "\<not> opens s call k \<Longrightarrow> \<not> ceremony_open (snd (passkey_step call s)) k" "\<not> registers s call k"
proof -
  have ok: "repository_ok (fst s)" "omap_ok (pr_credentials (fst s))" "omap_ok (pr_ceremonies (fst s))"
    using inv by (simp_all add: passkey_inv_def repository_ok_def)
  show "\<not> registers s call k"
  proof (cases call)
    case (CompleteRegistration E L config identity ceremony response)
    obtain r s' where completed: "completeRegistration E L config identity ceremony response s = (r, s')"
      using surj_pair by metis
    from ok(1) completed show ?thesis
      by (cases rule: completeRegistration_cases) (use shut in \<open>auto simp: CompleteRegistration completed\<close>)
  qed simp_all
  assume no: "\<not> opens s call k"
  show "\<not> ceremony_open (snd (passkey_step call s)) k"
  proof (cases call)
    case (CompleteRegistration E L config identity ceremony response)
    obtain r s' where completed: "completeRegistration E L config identity ceremony response s = (r, s')"
      using surj_pair by metis
    from ok(1) completed show ?thesis
      by (cases rule: completeRegistration_cases)
        (use shut ok(3) in \<open>auto simp: CompleteRegistration completed map_of_erase\<close>)
  next
    case (RemovePasskey identity j)
    obtain r s' where removed: "passkey_remove identity j s = (r, s')" using surj_pair by metis
    from ok(2) removed show ?thesis
      by (cases rule: passkey_remove_cases) (use shut in \<open>auto simp: RemovePasskey removed\<close>)
  next
    case (Authenticate E L config response)
    obtain r m' where signed: "passkey_completeAuthentication E L config response (fst s) = (r, m')" by force
    then show ?thesis
      by (cases rule: completeAuthentication_cases) (use shut in \<open>auto simp: Authenticate signed\<close>)
  qed (use no shut in \<open>auto simp: case_prod_unfold\<close>)
qed

lemma registration_closes:
  assumes inv: "passkey_inv s" and reg: "registers s call k"
  shows "\<not> ceremony_open (snd (passkey_step call s)) k"
proof -
  obtain E L config identity response where call: "call = CompleteRegistration E L config identity k response"
      and done1: "fst (passkey_step call s)" using reg by (cases call) auto
  have ok: "repository_ok (fst s)" "omap_ok (pr_ceremonies (fst s))"
    using inv by (simp_all add: passkey_inv_def repository_ok_def)
  obtain r s' where completed: "completeRegistration E L config identity k response s = (r, s')" using surj_pair by metis
  from ok(1) completed show ?thesis
    by (cases rule: completeRegistration_cases) (use done1 ok(2) in \<open>auto simp: call completed map_of_erase\<close>)
qed

interpretation ceremonies: single_use_store passkey_step passkey_inv ceremony_open registers opens
proof unfold_locales
  fix s call k
  assume inv: "passkey_inv s"
  show "passkey_inv (snd (passkey_step call s))" by (rule passkey_step_inv [OF inv])
  show "registers s call k \<Longrightarrow> ceremony_open s k" using ceremonies_after(2) [OF inv] by blast
  show "registers s call k \<Longrightarrow> \<not> ceremony_open (snd (passkey_step call s)) k" by (rule registration_closes [OF inv])
  show "\<not> ceremony_open s k \<Longrightarrow> \<not> opens s call k \<Longrightarrow> \<not> ceremony_open (snd (passkey_step call s)) k"
    by (rule ceremonies_after(1) [OF inv])
qed

end
