(* ===== verification/Passkey_Roundtrip.thy ===== *)
theory Passkey_Roundtrip
  imports Passkey_Proofs
begin

text \<open>
  An honest authenticator against the passkey provider: what it sends for a registration is
  accepted and stores its key, and what it then signs signs the identity in. The browser and the
  authenticator are the definitions below; they are no part of the repository.
\<close>

section \<open>The authenticator's side\<close>

record authenticator =
  au_credential :: "byte list"
  au_x :: "byte list"
  au_y :: "byte list"
  au_model :: "byte list"

definition authenticator_ok :: "authenticator \<Rightarrow> bool" where
  "authenticator_ok a \<longleftrightarrow> 0 < length (au_credential a) \<and> length (au_credential a) \<le> kMaximumCredentialIdBytes
     \<and> length (au_x a) = 32 \<and> length (au_y a) = 32 \<and> length (au_model a) = 16"

abbreviation au_name :: "authenticator \<Rightarrow> string" where
  "au_name a \<equiv> toBase64Url (au_credential a)"

text \<open>Client data of a browser for a ceremony, as the JSON parser reads it.\<close>

definition answers :: "webauthn_library \<Rightarrow> byte list \<Rightarrow> string \<Rightarrow> string \<Rightarrow> string \<Rightarrow> bool" where
  "answers L client kind challenge origin \<longleftrightarrow> client \<noteq> [] \<and> length client \<le> kMaximumClientData
     \<and> wl_parse L (as_text client) =
         Some (JObject [(''type'', JString kind), (''challenge'', JString challenge), (''origin'', JString origin)])"

definition registration_of :: "authenticator \<Rightarrow> byte list \<Rightarrow> 32 word \<Rightarrow> byte list \<Rightarrow> RegistrationResponse" where
  "registration_of a rpHash counter client =
     \<lparr>rr_credentialId = au_name a, rr_clientDataJson = toBase64Url client,
      rr_attestationObject = toBase64Url (encode (none_attestation
        (registration_data rpHash 0x45 counter (au_model a) (au_credential a) (au_x a) (au_y a))))\<rparr>"

definition assertion_data :: "byte list \<Rightarrow> 32 word \<Rightarrow> byte list" where
  "assertion_data rpHash counter = rpHash @ 0x05 # counter_bytes counter"

definition assertion_of ::
    "authenticator \<Rightarrow> ChallengeId \<Rightarrow> byte list \<Rightarrow> 32 word \<Rightarrow> byte list \<Rightarrow> byte list \<Rightarrow> AuthenticationResponse" where
  "assertion_of a challengeId rpHash counter client signature =
     \<lparr>response_challengeId = challengeId, response_client = \<lparr>client_remoteAddress = [], client_userAgent = []\<rparr>,
      response_parameters = [(''authenticator_data'', toBase64Url (assertion_data rpHash counter)),
        (''client_data_json'', toBase64Url client), (''credential_id'', au_name a), (''signature'', toBase64Url signature)]\<rparr>"

section \<open>Sizes\<close>

lemma length_encode_head: "length (encode_head major v) \<le> 9"
  using width_cases [of v] by (auto simp: encode_head_def)

lemma cose_length:
  assumes "length x = 32" "length y = 32"
  shows "length (encode (cose_es256 x y)) \<le> 200"
proof -
  have "length (encode (cose_es256 x y)) =
      length (encode_head 5 5) + length (encode_head 0 1) + length (encode_head 0 2) + length (encode_head 0 3)
      + length (encode_head 1 6) + length (encode_head 1 0) + length (encode_head 0 1) + length (encode_head 1 1)
      + length (encode_head 2 32) + length x + length (encode_head 1 2) + length (encode_head 2 32) + length y"
    using assms by (simp add: cose_es256_def)
  with assms show ?thesis
    using length_encode_head [of 5 5] length_encode_head [of 0 1] length_encode_head [of 0 2] length_encode_head [of 0 3]
      length_encode_head [of 1 6] length_encode_head [of 1 0] length_encode_head [of 1 1] length_encode_head [of 2 32]
      length_encode_head [of 1 2]
    by linarith
qed

lemma attestation_length: "length (encode (none_attestation d)) \<le> 100 + length d"
proof -
  have "length (encode (none_attestation d)) =
      length (encode_head 5 3) + length (encode_head 3 3) + 3 + length (encode_head 3 4) + 4
      + length (encode_head 3 7) + 7 + length (encode_head 5 0) + length (encode_head 3 8) + 8
      + length (encode_head 2 (of_nat (length d))) + length d"
    by (simp add: none_attestation_def)
  then show ?thesis
    using length_encode_head [of 5 3] length_encode_head [of 3 3] length_encode_head [of 3 4] length_encode_head [of 3 7]
      length_encode_head [of 5 0] length_encode_head [of 3 8] length_encode_head [of 2 "of_nat (length d)"]
    by linarith
qed

lemma answers_verified: "answers L client kind challenge origin \<Longrightarrow>
    verifyClientData L (toBase64Url client) kind challenge origin = Inr client"
  by (simp add: verifyClientData_iff answers_def client_data_bound_def)

lemma registration_verified:
  assumes a: "authenticator_ok a" and hash: "sha256 E (pk_relyingPartyId config) = Inr rpHash"
    and client: "answers L client ''webauthn.create'' challenge (pk_origin config)"
  shows "verifyAttestation E L (registration_of a rpHash counter client) config challenge =
    Inr \<lparr>ar_credentialId = au_name a, ar_x = toBase64Url (au_x a), ar_y = toBase64Url (au_y a), ar_signCount = counter\<rparr>"
proof -
  let ?data = "registration_data rpHash 0x45 counter (au_model a) (au_credential a) (au_x a) (au_y a)"
  have rp: "length rpHash = 32" by (rule sha256_length [OF hash])
  have sizes: "length ?data \<le> 2000"
    using a rp cose_length [of "au_x a" "au_y a"]
    by (simp add: registration_data_def authenticator_ok_def counter_bytes_def kMaximumCredentialIdBytes_def)
  then have small: "length (encode (none_attestation ?data)) \<le> kMaximumAttestation" "length ?data \<le> kMaximumAttestation"
    using attestation_length [of ?data] by (simp_all add: kMaximumAttestation_def)
  have "encode (none_attestation ?data) \<noteq> []" using head_encode [of 5 3 "[]"] by (auto simp: none_attestation_def encode_head_def)
  with small a have decoded: "decodeCanonical (toBase64Url (encode (none_attestation ?data))) kMaximumAttestation = Inr (encode (none_attestation ?data))"
      "decodeCanonical (au_name a) kMaximumCredentialIdBytes = Inr (au_credential a)"
    by (auto simp: decodeCanonical_iff authenticator_ok_def)
  obtain pa where "verifyAuthenticatorPrefix E ?data (pk_relyingPartyId config) True = Inr pa"
      "attested_credential pa (au_credential a) (au_name a) =
        Inr \<lparr>ar_credentialId = au_name a, ar_x = toBase64Url (au_x a), ar_y = toBase64Url (au_y a), ar_signCount = counter\<rparr>"
    using registration_data_accepted [of "au_model a" "au_credential a" "au_x a" "au_y a" "0x45" E "pk_relyingPartyId config" rpHash counter "au_name a"]
      a hash
    by (auto simp: authenticator_ok_def kUserPresent_def kUserVerified_def kAttestedCredentialData_def kExtensionData_def)
  with decoded answers_verified [OF client] attestation_object_encode [OF small(2)] show ?thesis
    by (simp add: verifyAttestation_def registration_of_def)
qed

section \<open>Registered, then signed in\<close>

text \<open>A ceremony under way: opened by this identity, not expired, and its challenge.\<close>

definition ceremony_running :: "env \<Rightarrow> PasskeyConfig \<Rightarrow> IdentityId \<Rightarrow> ChallengeId \<Rightarrow> string \<Rightarrow> passkey_state \<Rightarrow> bool" where
  "ceremony_running E config identity ceremony challenge s \<longleftrightarrow>
     challengeFor E config ''register'' ceremony = Inr challenge
     \<and> (case map_of (pr_ceremonies (fst s)) ceremony of
          None \<Rightarrow> False | Some c \<Rightarrow> rc_identity c = identity \<and> env_now E 0 < rc_expiresAt c)"

text \<open>The clock of the call: the link is driven through its states within its five minutes.\<close>

definition prompt :: "env \<Rightarrow> bool" where
  "prompt E \<longleftrightarrow> env_now E 4 < env_now E 3 + 5 * 60000 \<and> env_now E 5 < env_now E 3 + 5 * 60000
     \<and> env_now E 6 < env_now E 3 + 5 * 60000"

lemma passkey_link_prompt:
  assumes "prompt E" "id_value identity \<noteq> []"
  obtains l where "passkey_link E identity (passkey_ref identity) = Some l"
  using assms that
  by (auto simp: prompt_def passkey_link_def Link_request_def passkey_ref_def StrongId_empty_def requireVerification_def
      markVerified_def complete_def Link_transitionTo_def Link_isExpiredAt_def)

lemma registration_completes:
  assumes a: "authenticator_ok a" and hash: "sha256 E (pk_relyingPartyId config) = Inr rpHash"
    and client: "answers L client ''webauthn.create'' challenge (pk_origin config)"
    and ceremony: "ceremony_running E config identity ceremony challenge s"
    and fresh: "map_of (pr_credentials (fst s)) (au_name a) = None" "omap_ok (pr_credentials (fst s))"
    and owner: "owner_map (snd s) (ref_key (passkey_ref identity)) \<in> {None, Some identity}"
    and clock: "prompt E" "id_value identity \<noteq> []"
  obtains s' c where "completeRegistration E L config identity ceremony (registration_of a rpHash counter client) s = (ok, s')"
    "map_of (pr_credentials (fst s')) (au_name a) = Some c" "pc_identity c = identity" "pc_signCount c = counter"
    "pc_publicKeyX c = toBase64Url (au_x a)" "pc_publicKeyY c = toBase64Url (au_y a)"
proof -
  let ?r = "registration_of a rpHash counter client" and ?m = "fst s\<lparr>pr_ceremonies := omap_erase ceremony (pr_ceremonies (fst s))\<rparr>"
  let ?att = "\<lparr>ar_credentialId = au_name a, ar_x = toBase64Url (au_x a), ar_y = toBase64Url (au_y a), ar_signCount = counter\<rparr>"
  let ?c = "registered_credential E identity ?att"
  let ?m' = "?m\<lparr>pr_credentials := omap_emplace (au_name a) ?c (pr_credentials (fst s))\<rparr>"
  have consumed: "consumeCeremony ceremony identity (env_now E 0) (fst s) = (ok, ?m)"
    using ceremony by (auto simp: ceremony_running_def consumeCeremony_def split: option.splits)
  have added: "addCredential ?c ?m = (ok, ?m')"
    using fresh by (simp add: addCredential_def registered_credential_def omap_contains_def)
  obtain l where l: "passkey_link E identity (passkey_ref identity) = Some l" using passkey_link_prompt [OF clock] .
  have attached: "fst (attach l (snd s)) = ok"
    if "owner_map (snd s) (ref_key (passkey_ref identity)) = None"
    using that passkey_link_fields [OF l] by (auto simp: attach_def owner_map_def)
  have "\<exists>d'. store_registration E identity ?r ?att (snd s) ?m = (ok, (?m', d'))"
  proof (cases "owner_map (snd s) (ref_key (passkey_ref identity))")
    case None
    obtain d' where "attach l (snd s) = (ok, d')" using attached [OF None] by (metis prod.collapse)
    with None added l show ?thesis by (simp add: store_registration_def ownerOf_map)
  next
    case (Some i)
    with owner added show ?thesis by (simp add: store_registration_def ownerOf_map)
  qed
  then obtain d' where "completeRegistration E L config identity ceremony ?r s = (ok, (?m', d'))"
    using registration_verified [OF a hash client, of counter] ceremony consumed
    by (auto simp: completeRegistration_def ceremony_running_def)
  then show thesis
    by (rule that [of "(?m', d')" ?c]) (use fresh in \<open>simp_all add: map_of_emplace registered_credential_def\<close>)
qed

lemma assertion_accepted:
  assumes a: "authenticator_ok a" and hash: "sha256 E (pk_relyingPartyId config) = Inr rpHash" "sha256 E (as_text client) = Inr clientHash"
    and challenge: "challengeFor E config ''authenticate'' challengeId = Inr challenge"
    and client: "answers L client ''webauthn.get'' challenge (pk_origin config)"
    and c: "map_of (pr_credentials m) (au_name a) = Some c" "pc_publicKeyX c = toBase64Url (au_x a)"
      "pc_publicKeyY c = toBase64Url (au_y a)" "counter_advances (pc_signCount c) counter" "id_value (pc_identity c) \<noteq> []"
    and key: "wl_params L (0x04 # au_x a @ au_y a)" "wl_fromdata L (0x04 # au_x a @ au_y a)"
    and signed: "wl_verify L (0x04 # au_x a @ au_y a) signature (assertion_data rpHash counter @ clientHash)"
      "signature \<noteq> []" "length signature \<le> 128"
  obtains out m' where
    "passkey_completeAuthentication E L config (assertion_of a challengeId rpHash counter client signature) m = (Inr out, m')"
    "id_value (outcome_subject out) = id_value (pc_identity c)" "outcome_claimedAssurance out = Ial2"
proof -
  let ?data = "assertion_data rpHash counter"
  have rp: "length rpHash = 32" by (rule sha256_length [OF hash(1)])
  have nonempty: "au_credential a \<noteq> []" using a by (auto simp: authenticator_ok_def)
  have "verifyAuthenticatorPrefix E ?data (pk_relyingPartyId config) False
      = Inr \<lparr>pa_flags = 0x05, pa_signCount = counter, pa_trailing = []\<rparr>"
    unfolding verifyAuthenticatorPrefix_iff using hash(1) by (simp add: assertion_data_def kUserPresent_def kUserVerified_def)
  moreover have "verifyEs256 L (pc_publicKeyX c) (pc_publicKeyY c) (?data @ clientHash) signature = ok"
    unfolding verifyEs256_iff using a c key signed by (auto simp: authenticator_ok_def)
  moreover have "\<not> ((pc_signCount c \<noteq> 0 \<or> counter \<noteq> 0) \<and> counter \<le> pc_signCount c)"
    using c(4) by (auto simp: counter_advances_def)
  ultimately have proved: "assertion_proof E L config c client ?data signature None = Inr counter"
    using hash by (simp add: assertion_proof_def kAttestedCredentialData_def kExtensionData_def user_handle_bound_def)
  have "decodeCanonical (au_name a) kMaximumCredentialIdBytes = Inr (au_credential a)"
      "decodeCanonical (toBase64Url ?data) kMaximumAttestation = Inr ?data" "decodeCanonical (toBase64Url signature) 256 = Inr signature"
    unfolding decodeCanonical_iff using a nonempty signed(2,3) rp
    by (auto simp: authenticator_ok_def assertion_data_def counter_bytes_def kMaximumAttestation_def)
  with proved c(1,4) answers_verified [OF client] advanceCounter_ok [OF c(1,4), of "env_now E 0"] have
    verified: "verifyAssertion E L \<lparr>as_credentialId = au_name a, as_clientDataJson = toBase64Url client,
        as_authenticatorData = toBase64Url ?data, as_signature = toBase64Url signature, as_userHandle = None\<rparr>
        config challenge (env_now E 0) m
      = (Inr (c\<lparr>pc_signCount := counter, pc_lastUsedAt := env_now E 0\<rparr>),
         m\<lparr>pr_credentials := omap_modify (au_name a) (used_credential counter (env_now E 0)) (pr_credentials m)\<rparr>)"
    by (simp add: verifyAssertion_def findCredential_def)
  have "client \<noteq> []" "?data \<noteq> []" using client by (auto simp: answers_def assertion_data_def)
  with nonempty signed(2) have "toBase64Url client \<noteq> []" "toBase64Url ?data \<noteq> []" "au_name a \<noteq> []" "toBase64Url signature \<noteq> []"
    by (simp_all add: length_toBase64Url_pos)
  with verified challenge c(5) show thesis
    by (intro that) (auto simp: passkey_completeAuthentication_def assertion_of_def passkey_parameter_def
        passkey_outcome_def AuthenticationOutcome_create_def StrongId_empty_def)
qed

section \<open>The provider's guarantees\<close>

text \<open>
  A concrete ceremony: the authenticator, the client data of its two ceremonies as the JSON parser
  reads them, and a signature check that accepts its key only.
\<close>

definition sample_authenticator :: authenticator where
  "sample_authenticator = \<lparr>au_credential = [7], au_x = replicate 32 1, au_y = replicate 32 2, au_model = replicate 16 0\<rparr>"

definition sample_digest :: string where
  "sample_digest = toBase64Url (replicate 32 2)"

definition sample_webauthn :: webauthn_library where
  "sample_webauthn =
     \<lparr>wl_parse = \<lambda>s. if s = as_text [1] \<or> s = as_text [2]
        then Some (JObject [(''type'', JString (if s = as_text [1] then ''webauthn.create'' else ''webauthn.get'')),
                            (''challenge'', JString sample_digest), (''origin'', JString ''https://id.example'')])
        else None,
      wl_serialize = \<lambda>_. ''{}'', wl_params = \<lambda>_. True, wl_fromdata = \<lambda>p. length p = 65,
      wl_verify = \<lambda>p signature message. p = 0x04 # replicate 32 1 @ replicate 32 2\<rparr>"

definition sample_passkey_config :: PasskeyConfig where
  "sample_passkey_config =
     \<lparr>pk_relyingPartyId = ''id.example'', pk_relyingPartyName = ''Id'', pk_origin = ''https://id.example'',
      pk_derivationKey = replicate 32 (CHR ''k''), pk_ceremonyLifetime = 60000\<rparr>"

definition sample_ceremony :: passkey_state where
  "sample_ceremony =
     (\<lparr>pr_ceremonies = [(StrongId ''pkr_1'', \<lparr>rc_id = StrongId ''pkr_1'', rc_identity = StrongId ''ada'', rc_expiresAt = 1000\<rparr>)],
       pr_credentials = []\<rparr>, empty_directory)"

abbreviation ada :: IdentityId where "ada \<equiv> StrongId ''ada''"

abbreviation sample_passkey_registration :: RegistrationResponse where
  "sample_passkey_registration \<equiv> registration_of sample_authenticator (replicate 32 3) 1 [1]"

abbreviation sample_assertion :: AuthenticationResponse where
  "sample_assertion \<equiv> assertion_of sample_authenticator (StrongId ''pka_1'') (replicate 32 3) 2 [2] [9]"

lemma sample_facts:
  "authenticator_ok sample_authenticator" "sha256 sample_env t = Inr (replicate 32 3)"
  "answers sample_webauthn [1] ''webauthn.create'' sample_digest (pk_origin sample_passkey_config)"
  "answers sample_webauthn [2] ''webauthn.get'' sample_digest (pk_origin sample_passkey_config)"
  "prompt sample_env"
  by (simp_all add: authenticator_ok_def sample_authenticator_def kMaximumCredentialIdBytes_def sha256_def sample_env_def
      answers_def kMaximumClientData_def sample_webauthn_def sample_passkey_config_def as_text_def prompt_def)

lemma sample_challenge: "purpose \<noteq> ''tok'' \<Longrightarrow> length purpose > 3 \<Longrightarrow>
    challengeFor sample_env sample_passkey_config purpose k = Inr sample_digest"
  by (auto simp: challengeFor_def hmacSha256_def sample_env_def sample_passkey_config_def int_max_def sample_digest_def
      dest: arg_cong [of _ _ length])

lemma sample_passkey_registered:
  assumes "ceremony_running sample_env sample_passkey_config ada ceremony sample_digest s"
    and "pr_credentials (fst s) = []" "snd s = empty_directory"
  obtains s' c where
    "completeRegistration sample_env sample_webauthn sample_passkey_config ada ceremony sample_passkey_registration s = (ok, s')"
    "map_of (pr_credentials (fst s')) (au_name sample_authenticator) = Some c" "pc_identity c = ada" "pc_signCount c = 1"
    "pc_publicKeyX c = toBase64Url (au_x sample_authenticator)" "pc_publicKeyY c = toBase64Url (au_y sample_authenticator)"
  by (rule registration_completes [OF sample_facts(1,2,3) assms(1), of 1]) (use assms(2,3) sample_facts(5) that in simp_all)

lemma sample_ceremony_running:
  "ceremony_running sample_env sample_passkey_config ada (StrongId ''pkr_1'') sample_digest sample_ceremony"
  by (simp add: ceremony_running_def sample_challenge sample_ceremony_def)

lemma sample_ceremony_inv: "passkey_inv sample_ceremony"
  by (simp add: passkey_inv_def repository_ok_def sample_ceremony_def)

lemma sample_signs_in:
  assumes "map_of (pr_credentials m) (au_name sample_authenticator) = Some c" "pc_identity c = ada" "pc_signCount c = 1"
    "pc_publicKeyX c = toBase64Url (au_x sample_authenticator)" "pc_publicKeyY c = toBase64Url (au_y sample_authenticator)"
  obtains out m' where
    "passkey_completeAuthentication sample_env sample_webauthn sample_passkey_config sample_assertion m = (Inr out, m')"
proof -
  let ?p = "0x04 # au_x sample_authenticator @ au_y sample_authenticator"
  have stored: "counter_advances (pc_signCount c) 2" "id_value (pc_identity c) \<noteq> []"
    using assms(2,3) by (simp_all add: counter_advances_def)
  have challenge: "challengeFor sample_env sample_passkey_config ''authenticate'' (StrongId ''pka_1'') = Inr sample_digest"
    by (rule sample_challenge) simp_all
  have key: "wl_params sample_webauthn ?p" "wl_fromdata sample_webauthn ?p" "wl_verify sample_webauthn ?p [9] msg" for msg
    by (simp_all add: sample_webauthn_def sample_authenticator_def)
  have signature: "[9 :: byte] \<noteq> []" "length [9 :: byte] \<le> 128" by simp_all
  show thesis
    by (rule assertion_accepted [OF sample_facts(1,2,2) challenge sample_facts(4) assms(1,4,5) stored key signature])
      (rule that)
qed

lemma sample_history:
  obtains s' out m' where
    "completeRegistration sample_env sample_webauthn sample_passkey_config ada (StrongId ''pkr_1'') sample_passkey_registration sample_ceremony = (ok, s')"
    "passkey_inv s'"
    "passkey_completeAuthentication sample_env sample_webauthn sample_passkey_config sample_assertion (fst s') = (Inr out, m')"
proof -
  obtain s' c where s': "completeRegistration sample_env sample_webauthn sample_passkey_config ada (StrongId ''pkr_1'')
        sample_passkey_registration sample_ceremony = (ok, s')"
      and c: "map_of (pr_credentials (fst s')) (au_name sample_authenticator) = Some c" "pc_identity c = ada" "pc_signCount c = 1"
    "pc_publicKeyX c = toBase64Url (au_x sample_authenticator)" "pc_publicKeyY c = toBase64Url (au_y sample_authenticator)"
    by (rule sample_passkey_registered [OF sample_ceremony_running]) (simp_all add: sample_ceremony_def)
  have inv: "passkey_inv s'"
    using passkey_step_inv [OF sample_ceremony_inv, of "CompleteRegistration sample_env sample_webauthn sample_passkey_config ada (StrongId ''pkr_1'') sample_passkey_registration"] s'
    by simp
  obtain out m' where
    "passkey_completeAuthentication sample_env sample_webauthn sample_passkey_config sample_assertion (fst s') = (Inr out, m')"
    by (rule sample_signs_in [OF c])
  with s' inv show thesis by (rule that)
qed

text \<open>
  C17. A passkey sign-in is a signature by the registered key: when the provider answers with an
  outcome, the repository holds a credential under the presented identifier whose owner is the
  outcome's subject; under its stored P-256 key the presented signature verifies over the
  authenticator data and the digest of the client data; the client data names this ceremony's
  challenge and the configured origin, the authenticator data carries the relying party's hash and
  the user-present and user-verified flags; and the signature counter advanced (or the authenticator has
  none). The call changes nothing but that credential's counter and time of last use.
\<close>

theorem passkey_sign_in_sound:
  assumes "passkey_completeAuthentication E L config response m = (Inr out, m')"
  shows "\<exists>k stored client authData signature counter.
     passkey_parameter (response_parameters response) ''credential_id'' = Some k
     \<and> passkey_parameter (response_parameters response) ''client_data_json'' = Some (toBase64Url client)
     \<and> passkey_parameter (response_parameters response) ''authenticator_data'' = Some (toBase64Url authData)
     \<and> passkey_parameter (response_parameters response) ''signature'' = Some (toBase64Url signature)
     \<and> map_of (pr_credentials m) k = Some stored
     \<and> signed_assertion E L config (response_challengeId response) stored client authData signature counter
     \<and> counter_advances (pc_signCount stored) counter
     \<and> user_handle_bound E (passkey_parameter (response_parameters response) ''user_handle'') (pc_identity stored)
     \<and> outcome_provider out = passkey_id \<and> id_value (outcome_subject out) = id_value (pc_identity stored)
     \<and> outcome_claimedAssurance out = Ial2 \<and> strength_phishingResistant (outcome_strength out)
     \<and> m' = m\<lparr>pr_credentials := omap_modify k (used_credential counter (env_now E 0)) (pr_credentials m)\<rparr>"
  using assms
proof (cases rule: completeAuthentication_cases)
  case (2 k stored client authData signature counter)
  from 2(9) have "outcome_provider out = passkey_id \<and> id_value (outcome_subject out) = id_value (pc_identity stored)
     \<and> outcome_claimedAssurance out = Ial2 \<and> strength_phishingResistant (outcome_strength out)"
    by (auto simp: passkey_outcome_def AuthenticationOutcome_create_def split: if_split_asm)
  with 2 show ?thesis by blast
qed simp

theorem passkey_sign_in_sound_witness:
  "\<exists>m out m' k stored. passkey_completeAuthentication sample_env sample_webauthn sample_passkey_config sample_assertion m = (Inr out, m')
     \<and> map_of (pr_credentials m) k = Some stored \<and> id_value (outcome_subject out) = id_value (pc_identity stored)
     \<and> (\<exists>client authData signature counter. signed_assertion sample_env sample_webauthn sample_passkey_config
          (StrongId ''pka_1'') stored client authData signature counter)"
proof -
  obtain s' out m' where registered: "completeRegistration sample_env sample_webauthn sample_passkey_config ada (StrongId ''pkr_1'') sample_passkey_registration sample_ceremony = (ok, s')"
      and inv: "passkey_inv s'" and run: "passkey_completeAuthentication sample_env sample_webauthn sample_passkey_config sample_assertion (fst s') = (Inr out, m')"
    by (rule sample_history)
  have id: "response_challengeId sample_assertion = StrongId ''pka_1''" by (simp add: assertion_of_def)
  obtain k stored client authData signature counter where "map_of (pr_credentials (fst s')) k = Some stored"
      "id_value (outcome_subject out) = id_value (pc_identity stored)"
      "signed_assertion sample_env sample_webauthn sample_passkey_config (response_challengeId sample_assertion)
         stored client authData signature counter"
    using passkey_sign_in_sound [OF run] by (elim exE conjE)
  with run id show ?thesis by metis
qed

text \<open>
  C18. An assertion is good once: after a sign-in with authenticator data that carries a non-zero
  counter, whatever registrations, removals of other passkeys, sign-ins and directory changes
  follow, the same authenticator data for the same credential is refused and changes nothing,
  whatever client data, signature or challenge comes with it.
\<close>

theorem assertion_not_replayed:
  assumes "passkey_inv s" "presents response k (h @ flags # counter_bytes n @ trailing)" "length h = 32" "n \<noteq> 0"
    and "passkey_completeAuthentication E L config response (fst s) = (Inr out, m)"
    and "list_all (keeps_credential k) calls"
    and "presents again k (h @ flags # counter_bytes n @ trailing)"
  defines "later \<equiv> fst (final_state passkey_step calls (m, snd s))"
  shows "\<exists>e. passkey_completeAuthentication E' L' config' again later = (Inl e, later)"
proof -
  have "passkey_inv (m, snd s)"
    using passkey_step_inv [OF assms(1), of "Authenticate E L config response"] assms(5) by simp
  then have "counter_at_least k n (later, snd (final_state passkey_step calls (m, snd s)))"
    unfolding later_def
    using counters.run_fact [OF _ accepted_leaves_counter [OF assms(2,3,5)] assms(6)] by simp
  with assms(3,4,7) show ?thesis by (intro refused_at_counter)
qed

theorem assertion_not_replayed_witness:
  "\<exists>later e. passkey_completeAuthentication sample_env sample_webauthn sample_passkey_config sample_assertion later = (Inl e, later)
     \<and> (\<exists>c. map_of (pr_credentials later) (au_name sample_authenticator) = Some c)"
proof -
  obtain s' out m' where registered: "completeRegistration sample_env sample_webauthn sample_passkey_config ada (StrongId ''pkr_1'') sample_passkey_registration sample_ceremony = (ok, s')"
      and inv: "passkey_inv s'" and run: "passkey_completeAuthentication sample_env sample_webauthn sample_passkey_config sample_assertion (fst s') = (Inr out, m')"
    by (rule sample_history)
  have shown: "presents sample_assertion (au_name sample_authenticator) (replicate 32 3 @ 0x05 # counter_bytes 2 @ [])"
    by (simp add: assertion_of_def passkey_parameter_def assertion_data_def sample_authenticator_def length_toBase64Url_pos)
  let ?calls = "[RemovePasskey (StrongId ''bob'') ''other'']"
  have kept: "list_all (keeps_credential (au_name sample_authenticator)) ?calls"
    by (simp add: sample_authenticator_def)
  have "\<exists>e. passkey_completeAuthentication sample_env sample_webauthn sample_passkey_config sample_assertion
      (fst (final_state passkey_step ?calls (m', snd s'))) = (Inl e, fst (final_state passkey_step ?calls (m', snd s')))"
    by (rule assertion_not_replayed [OF inv shown _ _ run kept shown]) simp_all
  moreover have "counter_at_least (au_name sample_authenticator) 2 (final_state passkey_step ?calls (m', snd s'))"
    using counters.run_fact [OF _ accepted_leaves_counter [OF shown _ run] kept]
      passkey_step_inv [OF inv, of "Authenticate sample_env sample_webauthn sample_passkey_config sample_assertion"] run by simp
  ultimately show ?thesis unfolding counter_at_least_def by blast
qed

text \<open>
  C20. A registration is bound to its ceremony and happens once: when a registration succeeds, its
  ceremony was open, had been started by the same identity and had not expired; the attestation
  answers the challenge of that ceremony; the credential stored is new and holds the attested key; and no
  later call with the same ceremony registers anything unless the ceremony is opened again.
\<close>

theorem registration_bound_and_single_use:
  assumes "passkey_inv s"
    and "completeRegistration E L config identity ceremony response s = (ok, s')"
    and "additions passkey_step opens ceremony calls s' = 0"
  shows "(\<exists>c challenge attestation. map_of (pr_ceremonies (fst s)) ceremony = Some c
        \<and> rc_identity c = identity \<and> env_now E 0 < rc_expiresAt c
        \<and> challengeFor E config ''register'' ceremony = Inr challenge
        \<and> verifyAttestation E L response config challenge = Inr attestation
        \<and> findCredential (rr_credentialId response) (fst s) = Inr None
        \<and> findCredential (rr_credentialId response) (fst s') = Inr (Some (registered_credential E identity attestation)))
     \<and> redemptions passkey_step registers ceremony calls s' = 0"
proof -
  have ok: "repository_ok (fst s)" "omap_ok (pr_credentials (fst s))"
    using assms(1) by (simp_all add: passkey_inv_def repository_ok_def)
  let ?call = "CompleteRegistration E L config identity ceremony response"
  have step: "passkey_step ?call s = (True, s')" using assms(2) by simp
  have "passkey_inv s'" using passkey_step_inv [OF assms(1), of ?call] step by simp
  moreover have "\<not> ceremony_open s' ceremony" using registration_closes [OF assms(1), of ?call] step by simp
  ultimately have "redemptions passkey_step registers ceremony calls s' = 0"
    using ceremonies.unknown_never_redeemed assms(3) by blast
  moreover from ok(1) assms(2) have "\<exists>c challenge attestation. map_of (pr_ceremonies (fst s)) ceremony = Some c
        \<and> rc_identity c = identity \<and> env_now E 0 < rc_expiresAt c
        \<and> challengeFor E config ''register'' ceremony = Inr challenge
        \<and> verifyAttestation E L response config challenge = Inr attestation
        \<and> findCredential (rr_credentialId response) (fst s) = Inr None
        \<and> findCredential (rr_credentialId response) (fst s') = Inr (Some (registered_credential E identity attestation))"
    by (cases rule: completeRegistration_cases) (use ok(2) in \<open>auto simp: findCredential_def map_of_emplace\<close>)
  ultimately show ?thesis by blast
qed

theorem registration_bound_and_single_use_witness:
  "\<exists>s'. completeRegistration sample_env sample_webauthn sample_passkey_config ada (StrongId ''pkr_1'') sample_passkey_registration sample_ceremony = (ok, s')
     \<and> redemptions passkey_step registers (StrongId ''pkr_1'')
         [CompleteRegistration sample_env sample_webauthn sample_passkey_config ada (StrongId ''pkr_1'') sample_passkey_registration] s' = 0"
proof -
  obtain s' out m' where registered: "completeRegistration sample_env sample_webauthn sample_passkey_config ada (StrongId ''pkr_1'') sample_passkey_registration sample_ceremony = (ok, s')"
      and inv: "passkey_inv s'" and run: "passkey_completeAuthentication sample_env sample_webauthn sample_passkey_config sample_assertion (fst s') = (Inr out, m')"
    by (rule sample_history)
  let ?again = "[CompleteRegistration sample_env sample_webauthn sample_passkey_config ada (StrongId ''pkr_1'') sample_passkey_registration]"
  have "additions passkey_step opens (StrongId ''pkr_1'') ?again s' = 0" by simp
  from registration_bound_and_single_use [OF sample_ceremony_inv registered this] registered show ?thesis by blast
qed

text \<open>
  C19. A connected passkey sign-in can be used: over any history of registrations, removals, sign-ins
  and directory changes that starts with nothing registered, an identity whose passkey connection
  is in the directory has at least one credential in the repository. (Other components attach no passkey
  reference of their own.)
\<close>

theorem connected_passkey_has_credential:
  assumes "list_all no_foreign_passkey calls"
    and "final_state passkey_step calls (\<lparr>pr_ceremonies = [], pr_credentials = []\<rparr>, empty_directory) = (m, d)"
    and "ownerOf (passkey_ref identity) d = Inr (Some owner)"
  shows "\<exists>c. listCredentials identity m = Inr c \<and> c \<noteq> []"
proof -
  let ?s = "(\<lparr>pr_ceremonies = [], pr_credentials = []\<rparr>, empty_directory)"
  have inv: "passkey_inv ?s" by (simp add: passkey_inv_def repository_ok_def)
  have "backed ?s" by (simp add: backed_def)
  from backing.run_fact [OF inv this assms(1)] passkeys.run_inv [OF inv, of calls] assms(2)
  have "backed (m, d)" "passkey_inv (m, d)" by simp_all
  moreover have "owner_map d (ref_key (passkey_ref identity)) \<noteq> None" using assms(3) by (simp add: ownerOf_map)
  ultimately obtain k c where "map_of (pr_credentials m) k = Some c" "pc_identity c = identity"
    unfolding backed_def by fastforce
  then have "(k, c) \<in> set (pr_credentials m)" "pc_identity c = identity" by (auto dest: map_of_SomeD)
  then show ?thesis by (force simp: listCredentials_def filter_empty_conv)
qed

lemma connected_owned: "directory_inv d \<Longrightarrow> connected identity d d' \<Longrightarrow> owner_map d' (ref_key (passkey_ref identity)) = Some identity"
proof -
  assume inv: "directory_inv d" and connected: "connected identity d d'"
  have "owner_map d' = (owner_map d)(ref_key (link_external l) \<mapsto> link_owner l)" if "attach l d = (ok, d')" for l
    using directory_step_refines [OF inv, of "Attach l"] that by (auto simp: spec_step_def split: if_split_asm)
  with connected show ?thesis by (auto simp: connected_def)
qed

theorem connected_passkey_has_credential_witness:
  "\<exists>calls m d c. list_all no_foreign_passkey calls
     \<and> final_state passkey_step calls (\<lparr>pr_ceremonies = [], pr_credentials = []\<rparr>, empty_directory) = (m, d)
     \<and> ownerOf (passkey_ref ada) d = Inr (Some ada) \<and> listCredentials ada m = Inr c \<and> c \<noteq> []"
proof -
  let ?s = "(\<lparr>pr_ceremonies = [], pr_credentials = []\<rparr>, empty_directory)"
  let ?k = "StrongId (''pkr_'' @ toBase64Url (replicate 24 0)) :: ChallengeId"
  let ?first = "BeginRegistration sample_env sample_webauthn sample_passkey_config ada"
  let ?second = "CompleteRegistration sample_env sample_webauthn sample_passkey_config ada ?k sample_passkey_registration"
  define s1 where "s1 = (\<lparr>pr_ceremonies = [(?k, \<lparr>rc_id = ?k, rc_identity = ada, rc_expiresAt = 60100\<rparr>)], pr_credentials = []\<rparr>, empty_directory)"
  have lifetime: "pk_ceremonyLifetime sample_passkey_config = 60000" by (simp add: sample_passkey_config_def)
  have begun: "snd (passkey_step ?first ?s) = s1"
    by (simp add: beginRegistration_def sample_challenge addCeremony_def omap_contains_def sample_facts(2) s1_def lifetime Let_def)
  have running: "ceremony_running sample_env sample_passkey_config ada ?k sample_digest s1"
    by (simp add: ceremony_running_def sample_challenge s1_def)
  obtain s' c where s': "completeRegistration sample_env sample_webauthn sample_passkey_config ada ?k sample_passkey_registration s1 = (ok, s')"
    by (rule sample_passkey_registered [OF running]) (simp_all add: s1_def)
  have "repository_ok (fst s1)" by (simp add: repository_ok_def s1_def)
  from this s' have "owner_map (snd s') (ref_key (passkey_ref ada)) = Some ada"
  proof (cases rule: completeRegistration_cases)
    case (3 challenge attestation c d')
    then show ?thesis using connected_owned [of "snd s1" ada d'] by (simp add: s1_def)
  qed simp_all
  then have owner: "ownerOf (passkey_ref ada) (snd s') = Inr (Some ada)" by (simp add: ownerOf_map)
  have run: "final_state passkey_step [?first, ?second] ?s = (fst s', snd s')" using begun s' by simp
  have calls: "list_all no_foreign_passkey [?first, ?second]" by simp
  from connected_passkey_has_credential [OF calls run owner] calls run owner show ?thesis by blast
qed



end
