(* ===== verification/Jose.thy ===== *)
theory Jose
  imports Security Json Decimal
begin

text \<open>
  Compact JWS and authenticated encryption: \<^verbatim>\<open>src/src/security/jose.cpp\<close> and
  \<^verbatim>\<open>aead.cpp\<close>. OpenSSL is the parameter, the records \<open>jose_library\<close> and \<open>aead_library\<close>:
  keys are values of a type \<open>'k\<close> that only its functions look into.
\<close>

section \<open>The library behind JWS\<close>

text \<open>
  \<open>jl_memory\<close> says whether a text can be wrapped for reading, \<open>jl_public\<close> and \<open>jl_private\<close> read a
  PEM key; \<open>jl_isRsa\<close>, \<open>jl_isP256\<close> and \<open>jl_bits\<close> describe a key. \<open>jl_number\<close> is
  \<^verbatim>\<open>BN_bin2bn\<close>, \<open>jl_three\<close> whether the least exponent could be allocated, \<open>jl_params\<close>
  whether modulus and exponent were pushed as parameters, \<open>jl_fromdata\<close> the public key imported from
  them, \<open>jl_rsaNumbers\<close> the modulus and exponent read out of a key, \<open>jl_bytes\<close>
  \<^verbatim>\<open>BN_bn2bin\<close> into a buffer of \<^verbatim>\<open>BN_num_bytes\<close>. \<open>jl_verify\<close> is
  \<^verbatim>\<open>EVP_DigestVerify\<close> with SHA-256 and \<open>jl_sign\<close> \<^verbatim>\<open>EVP_DigestSign\<close>, with the
  step that failed; \<open>jl_ecdsa\<close> reads a DER signature into its two numbers and the number of octets
  read, \<open>jl_pad\<close> is \<^verbatim>\<open>BN_bn2binpad\<close>.
\<close>

datatype sign_fault = SignInit | SignSize | SignFinal

record 'k jose_library =
  jl_memory :: "string \<Rightarrow> bool"
  jl_public :: "string \<Rightarrow> 'k option"
  jl_private :: "string \<Rightarrow> 'k option"
  jl_isRsa :: "'k \<Rightarrow> bool"
  jl_isP256 :: "'k \<Rightarrow> bool"
  jl_bits :: "'k \<Rightarrow> nat"
  jl_number :: "byte list \<Rightarrow> nat option"
  jl_three :: bool
  jl_params :: "nat \<Rightarrow> nat \<Rightarrow> bool"
  jl_fromdata :: "nat \<Rightarrow> nat \<Rightarrow> 'k option"
  jl_rsaNumbers :: "'k \<Rightarrow> (int \<times> int) option"
  jl_bytes :: "nat \<Rightarrow> byte list option"
  jl_verify :: "'k \<Rightarrow> string \<Rightarrow> byte list \<Rightarrow> bool"
  jl_sign :: "'k \<Rightarrow> string \<Rightarrow> sign_fault + byte list"
  jl_ecdsa :: "byte list \<Rightarrow> (nat option \<times> nat option \<times> nat) option"
  jl_pad :: "nat \<Rightarrow> byte list option"

section \<open>RSA public keys as JWK\<close>

definition encodeBigNum :: "'k jose_library \<Rightarrow> int \<Rightarrow> string Result" where
  "encodeBigNum L number =
     (if number < 0 then fail_msg Internal ''The RSA public key is invalid.''
      else if number = 0 then fail_msg Internal ''The RSA public key is invalid.''
      else case jl_bytes L (nat number) of
          None \<Rightarrow> fail_msg Internal ''The RSA public key could not be encoded.''
        | Some raw \<Rightarrow> Inr (toBase64Url raw))"

text \<open>
  The decoder never aborts (\<open>fromBase64Url_total\<close>), so its \<open>None\<close> joins the refusals. A modulus of
  2048 bits is at least \<open>2 ^ 2047\<close>.
\<close>

definition rsaPublicKeyFromJwk :: "'k jose_library \<Rightarrow> string \<Rightarrow> string \<Rightarrow> 'k Result" where
  "rsaPublicKeyFromJwk L modulusBase64Url exponentBase64Url =
     (case (fromBase64Url modulusBase64Url, fromBase64Url exponentBase64Url) of
        (Some (Inr modulusBytes), Some (Inr exponentBytes)) \<Rightarrow>
          if modulusBytes = [] \<or> exponentBytes = [] \<or> length modulusBytes > 1024 \<or> length exponentBytes > 16
             \<or> toBase64Url modulusBytes \<noteq> modulusBase64Url \<or> toBase64Url exponentBytes \<noteq> exponentBase64Url
          then fail_msg AuthenticationFailed ''The RSA JWK encoding is invalid.''
          else (case (jl_number L modulusBytes, jl_number L exponentBytes) of
                  (Some modulus, Some exponent) \<Rightarrow>
                    if \<not> jl_three L \<or> modulus < 2 ^ 2047 \<or> exponent < 3 \<or> even exponent
                    then fail_msg AuthenticationFailed ''The RSA JWK parameters are invalid.''
                    else if \<not> jl_params L modulus exponent
                    then fail_msg Internal ''The RSA JWK could not be prepared.''
                    else (case jl_fromdata L modulus exponent of
                            None \<Rightarrow> fail_msg AuthenticationFailed ''The RSA JWK public key is invalid.''
                          | Some key \<Rightarrow> Inr key)
                | _ \<Rightarrow> fail_msg AuthenticationFailed ''The RSA JWK parameters are invalid.'')
      | _ \<Rightarrow> fail_msg AuthenticationFailed ''The RSA JWK encoding is invalid.'')"

text \<open>\<open>None\<close> is the abort of the writer on an empty key, which no caller here has.\<close>

definition write_strings :: "(string \<times> string) list \<Rightarrow> string option" where
  "write_strings entries =
     map_option build (foldl (\<lambda>body (k, v). Option.bind body (\<lambda>b. add_string b k v)) (Some []) entries)"

definition exportPublicJwkJson :: "'k jose_library \<Rightarrow> 'k \<Rightarrow> string \<Rightarrow> string Result option" where
  "exportPublicJwkJson L key keyId =
     (if keyId = [] \<or> length keyId > 128
      then Some (fail_msg InvalidArgument ''The JWK key identifier is invalid.'')
      else case jl_rsaNumbers L key of
          None \<Rightarrow> Some (fail_msg Internal ''The RSA public key could not be exported.'')
        | Some (modulus, exponent) \<Rightarrow>
            (case (encodeBigNum L modulus, encodeBigNum L exponent) of
               (Inr encodedModulus, Inr encodedExponent) \<Rightarrow>
                 map_option Inr (write_strings [(''kty'', ''RSA''), (''use'', ''sig''), (''alg'', ''RS256''),
                   (''kid'', keyId), (''n'', encodedModulus), (''e'', encodedExponent)])
             | _ \<Rightarrow> Some (fail_msg Internal ''The RSA public key could not be encoded.'')))"

section \<open>Verification\<close>

record VerifiedCompactJws =
  jws_headerJson :: string
  jws_payloadJson :: string

text \<open>Two dots and no third, none of the three parts empty.\<close>

definition compact_parts :: "string \<Rightarrow> (string \<times> string \<times> string) option" where
  "compact_parts compactJwt =
     (case split_on (CHR ''.'') compactJwt of
        [h, p, s] \<Rightarrow> if h = [] \<or> p = [] \<or> s = [] then None else Some (h, p, s)
      | _ \<Rightarrow> None)"

definition decoded_parts :: "string \<times> string \<times> string \<Rightarrow> (byte list \<times> byte list \<times> byte list) option" where
  "decoded_parts pieces =
     (case pieces of (h, p, s) \<Rightarrow>
        (case (fromBase64Url h, fromBase64Url p, fromBase64Url s) of
           (Some (Inr headerBytes), Some (Inr payloadBytes), Some (Inr signature)) \<Rightarrow>
             if signature = [] \<or> length headerBytes > 4096 \<or> length payloadBytes > 12 * 1024 then None
             else Some (headerBytes, payloadBytes, signature)
         | _ \<Rightarrow> None))"

definition check_signature ::
    "'k jose_library \<Rightarrow> 'k \<Rightarrow> string \<times> string \<times> string \<Rightarrow> byte list \<times> byte list \<times> byte list \<Rightarrow> VerifiedCompactJws Result" where
  "check_signature L key pieces decoded =
     (case (pieces, decoded) of ((h, p, _), (headerBytes, payloadBytes, signature)) \<Rightarrow>
        if jl_verify L key (h @ ''.'' @ p) signature
        then Inr \<lparr>jws_headerJson = as_text headerBytes, jws_payloadJson = as_text payloadBytes\<rparr>
        else fail_msg AuthenticationFailed ''The compact JWS signature is invalid.'')"

definition verifyRs256WithKey :: "'k jose_library \<Rightarrow> 'k \<Rightarrow> string \<Rightarrow> VerifiedCompactJws Result" where
  "verifyRs256WithKey L key compactJwt =
     (if compactJwt = [] \<or> length compactJwt > 16 * 1024
      then fail_msg InvalidArgument ''The compact JWS input is invalid.''
      else case compact_parts compactJwt of
          None \<Rightarrow> fail_msg AuthenticationFailed ''The compact JWS is malformed.''
        | Some pieces \<Rightarrow>
            (case decoded_parts pieces of
               None \<Rightarrow> fail_msg AuthenticationFailed ''The compact JWS encoding is invalid.''
             | Some decoded \<Rightarrow> check_signature L key pieces decoded))"

text \<open>The key read from a PEM text, when it is RSA of at least 2048 bits.\<close>

definition rsa_public :: "'k jose_library \<Rightarrow> string \<Rightarrow> 'k option" where
  "rsa_public L publicKeyPem =
     (case (if jl_memory L publicKeyPem then jl_public L publicKeyPem else None) of
        None \<Rightarrow> None
      | Some key \<Rightarrow> if jl_isRsa L key \<and> jl_bits L key \<ge> 2048 then Some key else None)"

definition validateRs256PublicKey :: "'k jose_library \<Rightarrow> string \<Rightarrow> Status" where
  "validateRs256PublicKey L publicKeyPem =
     (if publicKeyPem = [] \<or> length publicKeyPem > int_max
      then fail_msg InvalidArgument ''The registered JWS verification key is invalid.''
      else case rsa_public L publicKeyPem of
          None \<Rightarrow> fail_msg InvalidArgument
                    ''The registered JWS verification key must be RSA with at least 2048 bits.''
        | Some _ \<Rightarrow> ok)"

definition rsaPublicJwkJson :: "'k jose_library \<Rightarrow> string \<Rightarrow> string \<Rightarrow> string Result option" where
  "rsaPublicJwkJson L publicKeyPem keyId =
     (if publicKeyPem = [] \<or> keyId = [] \<or> length keyId > 128 \<or> length publicKeyPem > int_max
      then Some (fail_msg InvalidArgument ''The published RSA verification key is invalid.'')
      else case rsa_public L publicKeyPem of
          None \<Rightarrow> Some (fail_msg InvalidArgument
                    ''A published OIDC verification key must be RSA with at least 2048 bits.'')
        | Some key \<Rightarrow> exportPublicJwkJson L key keyId)"

definition verifyRs256Jwt :: "'k jose_library \<Rightarrow> string \<Rightarrow> string \<Rightarrow> VerifiedCompactJws Result" where
  "verifyRs256Jwt L publicKeyPem compactJwt =
     (if publicKeyPem = [] \<or> length publicKeyPem > int_max \<or> compactJwt = [] \<or> length compactJwt > 16 * 1024
      then fail_msg InvalidArgument ''The compact JWS input is invalid.''
      else case compact_parts compactJwt of
          None \<Rightarrow> fail_msg AuthenticationFailed ''The compact JWS is malformed.''
        | Some pieces \<Rightarrow>
            (case decoded_parts pieces of
               None \<Rightarrow> fail_msg AuthenticationFailed ''The compact JWS encoding is invalid.''
             | Some decoded \<Rightarrow>
                 (case rsa_public L publicKeyPem of
                    None \<Rightarrow> fail_msg InvalidArgument ''The registered JWS verification key is invalid.''
                  | Some key \<Rightarrow> check_signature L key pieces decoded)))"

definition verifyRs256Jwk :: "'k jose_library \<Rightarrow> string \<Rightarrow> string \<Rightarrow> string \<Rightarrow> VerifiedCompactJws Result" where
  "verifyRs256Jwk L modulusBase64Url exponentBase64Url compactJwt =
     (case rsaPublicKeyFromJwk L modulusBase64Url exponentBase64Url of
        Inl e \<Rightarrow> Inl e
      | Inr key \<Rightarrow> verifyRs256WithKey L key compactJwt)"

text \<open>The canonical text of RFC 7638 that the thumbprint hashes.\<close>

definition thumbprint_input :: "string \<Rightarrow> string \<Rightarrow> string" where
  "thumbprint_input modulusBase64Url exponentBase64Url =
     ''{'' @ [quote] @ ''e'' @ [quote] @ '':'' @ [quote] @ exponentBase64Url @ [quote] @ '','' @ [quote] @ ''kty''
     @ [quote] @ '':'' @ [quote] @ ''RSA'' @ [quote] @ '','' @ [quote] @ ''n'' @ [quote] @ '':'' @ [quote]
     @ modulusBase64Url @ [quote] @ ''}''"

definition rsaJwkThumbprint :: "env \<Rightarrow> 'k jose_library \<Rightarrow> string \<Rightarrow> string \<Rightarrow> string Result" where
  "rsaJwkThumbprint E L modulusBase64Url exponentBase64Url =
     (case rsaPublicKeyFromJwk L modulusBase64Url exponentBase64Url of
        Inl e \<Rightarrow> Inl e
      | Inr _ \<Rightarrow>
          (case sha256 E (thumbprint_input modulusBase64Url exponentBase64Url) of
             Inl e \<Rightarrow> Inl e
           | Inr digest \<Rightarrow> Inr (toBase64Url digest)))"

section \<open>Signing\<close>

record 'k jwt_signer =
  jwt_key :: 'k
  jwt_keyId :: string

definition RsaSha256Signer_create :: "'k jose_library \<Rightarrow> string \<Rightarrow> string \<Rightarrow> 'k jwt_signer Result" where
  "RsaSha256Signer_create L privateKeyPem keyId =
     (if privateKeyPem = [] \<or> keyId = [] \<or> length keyId > 128
      then fail_msg InvalidArgument ''The OIDC signing key configuration is invalid.''
      else if length privateKeyPem > int_max
      then fail_msg InvalidArgument ''The OIDC signing key configuration is invalid.''
      else if \<not> jl_memory L privateKeyPem
      then fail_msg Internal ''The OIDC signing key could not be loaded.''
      else case jl_private L privateKeyPem of
          None \<Rightarrow> fail_msg InvalidArgument ''OIDC requires an RSA private key of at least 2048 bits.''
        | Some key \<Rightarrow>
            if \<not> jl_isRsa L key \<or> jl_bits L key < 2048
            then fail_msg InvalidArgument ''OIDC requires an RSA private key of at least 2048 bits.''
            else Inr \<lparr>jwt_key = key, jwt_keyId = keyId\<rparr>)"

definition signing_input :: "string \<Rightarrow> string \<Rightarrow> string \<Rightarrow> string option" where
  "signing_input alg keyId payloadJson =
     map_option (\<lambda>header. toBase64Url (text_bytes header) @ ''.'' @ toBase64Url (text_bytes payloadJson))
       (write_strings [(''alg'', alg), (''typ'', ''JWT''), (''kid'', keyId)])"

definition rsa_signJwt :: "'k jose_library \<Rightarrow> 'k jwt_signer \<Rightarrow> string \<Rightarrow> string Result option" where
  "rsa_signJwt L signer payloadJson =
     map_option (\<lambda>signingInput.
         case jl_sign L (jwt_key signer) signingInput of
           Inl SignInit \<Rightarrow> fail_msg Internal ''The ID Token signature could not be initialized.''
         | Inl SignSize \<Rightarrow> fail_msg Internal ''The ID Token signature size could not be determined.''
         | Inl SignFinal \<Rightarrow> fail_msg Internal ''The ID Token could not be signed.''
         | Inr signature \<Rightarrow> Inr (signingInput @ ''.'' @ toBase64Url signature))
       (signing_input ''RS256'' (jwt_keyId signer) payloadJson)"

definition publicJwkJson :: "'k jose_library \<Rightarrow> 'k jwt_signer \<Rightarrow> string Result option" where
  "publicJwkJson L signer = exportPublicJwkJson L (jwt_key signer) (jwt_keyId signer)"

definition Es256Signer_create :: "'k jose_library \<Rightarrow> string \<Rightarrow> string \<Rightarrow> 'k jwt_signer Result" where
  "Es256Signer_create L privateKeyPem keyId =
     (if privateKeyPem = [] \<or> keyId = [] \<or> length keyId > 128 \<or> length privateKeyPem > int_max
      then fail_msg InvalidArgument ''The ES256 signing key configuration is invalid.''
      else case (if jl_memory L privateKeyPem then jl_private L privateKeyPem else None) of
          None \<Rightarrow> fail_msg InvalidArgument ''ES256 requires a P-256 private key.''
        | Some key \<Rightarrow>
            if \<not> jl_isP256 L key then fail_msg InvalidArgument ''ES256 requires a P-256 private key.''
            else Inr \<lparr>jwt_key = key, jwt_keyId = keyId\<rparr>)"

text \<open>The DER signature, read to its end, as two numbers of 32 octets each.\<close>

definition raw_ecdsa :: "'k jose_library \<Rightarrow> byte list \<Rightarrow> byte list Result" where
  "raw_ecdsa L der =
     (case jl_ecdsa L der of
        None \<Rightarrow> fail_msg Internal ''The ES256 signature encoding is invalid.''
      | Some (r, s, consumed) \<Rightarrow>
          if consumed \<noteq> length der then fail_msg Internal ''The ES256 signature encoding is invalid.''
          else (case (Option.bind r (jl_pad L), Option.bind s (jl_pad L)) of
                  (Some first, Some second) \<Rightarrow>
                    if length first = 32 \<and> length second = 32 then Inr (first @ second)
                    else fail_msg Internal ''The ES256 signature components are invalid.''
                | _ \<Rightarrow> fail_msg Internal ''The ES256 signature components are invalid.''))"

definition es_signJwt :: "'k jose_library \<Rightarrow> 'k jwt_signer \<Rightarrow> string \<Rightarrow> string Result option" where
  "es_signJwt L signer payloadJson =
     map_option (\<lambda>signingInput.
         case jl_sign L (jwt_key signer) signingInput of
           Inl SignInit \<Rightarrow> fail_msg Internal ''The ES256 signature could not be initialized.''
         | Inl SignSize \<Rightarrow> fail_msg Internal ''The ES256 signature size could not be determined.''
         | Inl SignFinal \<Rightarrow> fail_msg Internal ''The ES256 payload could not be signed.''
         | Inr der \<Rightarrow>
             (case raw_ecdsa L der of
                Inl e \<Rightarrow> Inl e
              | Inr raw \<Rightarrow> Inr (signingInput @ ''.'' @ toBase64Url raw)))
       (signing_input ''ES256'' (jwt_keyId signer) payloadJson)"

section \<open>Authenticated encryption\<close>

text \<open>
  AES-256-GCM of OpenSSL: whether a context, the initialisation with key and nonce and the
  associated data were taken, the ciphertext, its tag, the decryption of a ciphertext once the tag is
  set, and whether the tag is right. Key and plaintext are texts as in the source.
\<close>

record aead_library =
  al_context :: bool
  al_init :: "string \<Rightarrow> byte list \<Rightarrow> bool"
  al_associated :: "string \<Rightarrow> byte list \<Rightarrow> string \<Rightarrow> bool"
  al_encrypt :: "string \<Rightarrow> byte list \<Rightarrow> string \<Rightarrow> string \<Rightarrow> byte list option"
  al_tag :: "string \<Rightarrow> byte list \<Rightarrow> string \<Rightarrow> string \<Rightarrow> byte list option"
  al_decrypt :: "string \<Rightarrow> byte list \<Rightarrow> string \<Rightarrow> byte list \<Rightarrow> byte list \<Rightarrow> string option"
  al_authentic :: "string \<Rightarrow> byte list \<Rightarrow> string \<Rightarrow> byte list \<Rightarrow> byte list \<Rightarrow> bool"

definition kNonceBytes :: nat where "kNonceBytes = 12"
definition kTagBytes :: nat where "kTagBytes = 16"
definition kMaximumPlaintextBytes :: nat where "kMaximumPlaintextBytes = 4096"

datatype AeadKey = AeadKey (key_octets: string)

definition cryptographicFailure :: "string \<Rightarrow> Error" where
  "cryptographicFailure detail = Error_with_detail Internal ''An internal error occurred.'' detail"

definition AeadKey_create :: "string \<Rightarrow> AeadKey Result" where
  "AeadKey_create key =
     (if length key \<noteq> 32
      then fail_msg InvalidArgument ''An authenticated-encryption key must contain exactly 32 bytes.''
      else Inr (AeadKey key))"

definition AeadKey_matches :: "AeadKey \<Rightarrow> AeadKey \<Rightarrow> bool" where
  "AeadKey_matches key other = (take 32 (key_octets key) = take 32 (key_octets other))"

definition sealAes256Gcm ::
    "env \<Rightarrow> aead_library \<Rightarrow> AeadKey \<Rightarrow> string \<Rightarrow> string \<Rightarrow> byte list Result" where
  "sealAes256Gcm E A key plaintext associatedData =
     (if plaintext = [] \<or> length plaintext > kMaximumPlaintextBytes
         \<or> length associatedData > kMaximumPlaintextBytes
         \<or> length plaintext > int_max \<or> length associatedData > int_max
      then fail_msg InvalidArgument ''The authenticated-encryption input is invalid.''
      else case randomBytes E 0 kNonceBytes of
          Inl e \<Rightarrow> Inl e
        | Inr nonce \<Rightarrow>
            let k = key_octets key in
            if \<not> al_context A then Inl (cryptographicFailure ''EVP context allocation failed.'')
            else if \<not> al_init A k nonce then Inl (cryptographicFailure ''AES-GCM initialization failed.'')
            else if associatedData \<noteq> [] \<and> \<not> al_associated A k nonce associatedData
            then Inl (cryptographicFailure ''AES-GCM AAD processing failed.'')
            else (case al_encrypt A k nonce associatedData plaintext of
                    None \<Rightarrow> Inl (cryptographicFailure ''AES-GCM encryption failed.'')
                  | Some ciphertext \<Rightarrow>
                      if length ciphertext \<noteq> length plaintext
                      then Inl (cryptographicFailure ''AES-GCM encryption failed.'')
                      else (case al_tag A k nonce associatedData plaintext of
                              None \<Rightarrow> Inl (cryptographicFailure ''AES-GCM finalization failed.'')
                            | Some tag \<Rightarrow> Inr (nonce @ ciphertext @ tag))))"

definition openAes256Gcm ::
    "aead_library \<Rightarrow> AeadKey \<Rightarrow> byte list \<Rightarrow> string \<Rightarrow> string Result" where
  "openAes256Gcm A key envelope associatedData =
     (if length envelope \<le> kNonceBytes + kTagBytes
         \<or> length envelope > kNonceBytes + kMaximumPlaintextBytes + kTagBytes
         \<or> length associatedData > kMaximumPlaintextBytes \<or> length associatedData > int_max
      then fail_msg InvalidArgument ''The encrypted credential envelope is invalid.''
      else let k = key_octets key;
               ciphertextBytes = length envelope - kNonceBytes - kTagBytes;
               nonce = take kNonceBytes envelope;
               ciphertext = take ciphertextBytes (drop kNonceBytes envelope);
               tag = drop (kNonceBytes + ciphertextBytes) envelope
           in if \<not> al_context A then Inl (cryptographicFailure ''EVP context allocation failed.'')
              else if \<not> al_init A k nonce then Inl (cryptographicFailure ''AES-GCM initialization failed.'')
              else if associatedData \<noteq> [] \<and> \<not> al_associated A k nonce associatedData
              then Inl (cryptographicFailure ''AES-GCM AAD processing failed.'')
              else (case al_decrypt A k nonce associatedData ciphertext tag of
                      None \<Rightarrow> Inl (cryptographicFailure ''AES-GCM decryption setup failed.'')
                    | Some plaintext \<Rightarrow>
                        if length plaintext \<noteq> ciphertextBytes
                        then Inl (cryptographicFailure ''AES-GCM decryption setup failed.'')
                        else if \<not> al_authentic A k nonce associatedData ciphertext tag
                        then fail_msg AuthenticationFailed ''Encrypted credential authentication failed.''
                        else Inr plaintext))"

section \<open>What a verified token is\<close>

lemma split_on_nonempty [simp]: "split_on d t \<noteq> []"
  by (induction t) (auto split: list.splits)

lemma split_on_one: "split_on d t = [a] \<Longrightarrow> t = a \<and> d \<notin> set a"
  by (induction t arbitrary: a) (auto split: if_splits list.splits)

lemma split_on_more:
  "split_on d t = a # b # ps \<Longrightarrow> \<exists>u. t = a @ d # u \<and> d \<notin> set a \<and> split_on d u = b # ps"
proof (induction t arbitrary: a)
  case (Cons c t)
  show ?case
  proof (cases "c = d")
    case False
    with Cons.prems obtain a' where "split_on d t = a' # b # ps" "a = c # a'"
      by (auto split: list.splits)
    with Cons.IH [of a'] False show ?thesis by auto
  qed (use Cons.prems in auto)
qed simp

lemma compact_parts_eq:
  "compact_parts t = Some (h, p, s)
   \<longleftrightarrow> t = h @ ''.'' @ p @ ''.'' @ s \<and> h \<noteq> [] \<and> p \<noteq> [] \<and> s \<noteq> []
      \<and> CHR ''.'' \<notin> set h \<union> set p \<union> set s"
proof
  assume "compact_parts t = Some (h, p, s)"
  then have split: "split_on (CHR ''.'') t = [h, p, s]" and parts: "h \<noteq> []" "p \<noteq> []" "s \<noteq> []"
    by (auto simp: compact_parts_def split: list.splits if_splits)
  obtain u where u: "t = h @ CHR ''.'' # u" "CHR ''.'' \<notin> set h" "split_on (CHR ''.'') u = [p, s]"
    using split_on_more [OF split] by blast
  obtain v where "u = p @ CHR ''.'' # v" "CHR ''.'' \<notin> set p" "split_on (CHR ''.'') v = [s]"
    using split_on_more [OF u(3)] by blast
  with u parts split_on_one [of _ v s] show "t = h @ ''.'' @ p @ ''.'' @ s \<and> h \<noteq> [] \<and> p \<noteq> [] \<and> s \<noteq> []
      \<and> CHR ''.'' \<notin> set h \<union> set p \<union> set s" by auto
qed (auto simp: compact_parts_def split_on_append split_on_plain)

lemma fromBase64Url_short: "fromBase64Url t = Some (Inr bs) \<Longrightarrow> toBase64Url bs = strip_padding t"
  by (simp add: fromBase64Url_canonical)

text \<open>
  The bytes whose signature was checked, and the texts handed to the caller, are those of the three
  parts.
\<close>

definition verified_by :: "'k jose_library \<Rightarrow> 'k \<Rightarrow> string \<Rightarrow> VerifiedCompactJws \<Rightarrow> bool" where
  "verified_by L key t jws \<longleftrightarrow>
     (\<exists>h p s header payload signature. t = h @ ''.'' @ p @ ''.'' @ s
        \<and> fromBase64Url h = Some (Inr header) \<and> fromBase64Url p = Some (Inr payload)
        \<and> fromBase64Url s = Some (Inr signature) \<and> CHR ''.'' \<notin> set h \<union> set p \<union> set s
        \<and> jl_verify L key (h @ ''.'' @ p) signature
        \<and> jws = \<lparr>jws_headerJson = as_text header, jws_payloadJson = as_text payload\<rparr>)"

lemma check_signature_verified:
  assumes "compact_parts t = Some pieces" "decoded_parts pieces = Some decoded"
    "check_signature L key pieces decoded = Inr jws"
  shows "verified_by L key t jws"
proof -
  obtain h p s where pieces: "pieces = (h, p, s)" by (cases pieces)
  obtain header payload signature where decoded: "decoded = (header, payload, signature)" by (cases decoded)
  have "t = h @ ''.'' @ p @ ''.'' @ s \<and> CHR ''.'' \<notin> set h \<union> set p \<union> set s"
    using assms(1) by (simp add: pieces compact_parts_eq)
  moreover have "fromBase64Url h = Some (Inr header) \<and> fromBase64Url p = Some (Inr payload)
      \<and> fromBase64Url s = Some (Inr signature)"
    using assms(2) by (auto simp: pieces decoded decoded_parts_def split: option.splits sum.splits if_splits)
  moreover have "jl_verify L key (h @ ''.'' @ p) signature
      \<and> jws = \<lparr>jws_headerJson = as_text header, jws_payloadJson = as_text payload\<rparr>"
    using assms(3) by (auto simp: pieces decoded check_signature_def split: if_splits)
  ultimately show ?thesis unfolding verified_by_def by blast
qed

lemma verifyRs256WithKey_sound: "verifyRs256WithKey L key t = Inr jws \<Longrightarrow> verified_by L key t jws"
  using check_signature_verified
  by (auto simp: verifyRs256WithKey_def split: if_splits option.splits)

lemma verifyRs256Jwk_sound:
  assumes "verifyRs256Jwk L n e t = Inr jws"
  obtains key where "rsaPublicKeyFromJwk L n e = Inr key" "verified_by L key t jws"
  using assms by (auto simp: verifyRs256Jwk_def split: sum.splits intro: that verifyRs256WithKey_sound)

lemma verifyRs256Jwt_sound:
  assumes "verifyRs256Jwt L pem t = Inr jws"
  obtains key where "rsa_public L pem = Some key" "verified_by L key t jws"
  using assms
  by (auto simp: verifyRs256Jwt_def split: if_splits option.splits intro: that check_signature_verified)

lemma rsaPublicKeyFromJwk_sound:
  assumes "rsaPublicKeyFromJwk L n e = Inr key"
  shows "\<exists>modulus exponent N X. n = toBase64Url modulus \<and> e = toBase64Url exponent
    \<and> jl_number L modulus = Some N \<and> jl_number L exponent = Some X \<and> 2 ^ 2047 \<le> N \<and> 3 \<le> X \<and> odd X
    \<and> jl_fromdata L N X = Some key"
  using assms
  by (auto simp: rsaPublicKeyFromJwk_def not_less split: option.splits sum.splits if_splits)

text \<open>The thumbprint text determines the key it is of.\<close>

lemma quote_not_base64: "quote \<notin> set (toBase64Url bs)"
  using toBase64Url_symbols [of bs] by (auto simp: kBase64UrlAlphabet_def quote_def)

lemma append_cut: "c \<notin> set a \<Longrightarrow> c \<notin> set b \<Longrightarrow> a @ c # u = b @ c # v \<Longrightarrow> a = b \<and> u = v"
  by (induction a arbitrary: b) (case_tac b; auto)+

lemma thumbprint_input_inj:
  assumes "thumbprint_input (toBase64Url n) (toBase64Url e) = thumbprint_input (toBase64Url m) (toBase64Url f)"
  shows "toBase64Url n = toBase64Url m \<and> toBase64Url e = toBase64Url f"
proof -
  note cut = append_cut [OF quote_not_base64 quote_not_base64]
  define start where "start = ''{'' @ [quote] @ ''e'' @ [quote] @ '':'' @ [quote]"
  define mid where "mid = '','' @ [quote] @ ''kty'' @ [quote] @ '':'' @ [quote] @ ''RSA'' @ [quote] @ '',''
    @ [quote] @ ''n'' @ [quote] @ '':'' @ [quote]"
  have "thumbprint_input a b = start @ b @ quote # (mid @ a @ quote # ''}'')" for a b
    by (simp add: thumbprint_input_def start_def mid_def)
  with assms have "toBase64Url e @ quote # (mid @ toBase64Url n @ quote # ''}'')
      = toBase64Url f @ quote # (mid @ toBase64Url m @ quote # ''}'')" by simp
  from cut [OF this] have "toBase64Url e = toBase64Url f" "toBase64Url n @ quote # ''}'' = toBase64Url m @ quote # ''}''"
    by simp_all
  with cut [of n "''}''" m "''}''"] show ?thesis by simp
qed

section \<open>Round trips\<close>

lemma write_strings_Some:
  "list_all (\<lambda>(k, v). k \<noteq> []) entries \<Longrightarrow> \<exists>s. write_strings entries = Some s"
proof -
  have "list_all (\<lambda>(k, v). k \<noteq> []) entries \<Longrightarrow>
      \<exists>b'. foldl (\<lambda>body (k, v). Option.bind body (\<lambda>b. add_string b k v)) (Some b) entries = Some b'" for b
    by (induction entries arbitrary: b) (auto simp: add_string_def beginEntry_def)
  then show "list_all (\<lambda>(k, v). k \<noteq> []) entries \<Longrightarrow> ?thesis" by (auto simp: write_strings_def)
qed

definition jws_header :: "string \<Rightarrow> string \<Rightarrow> string" where
  "jws_header alg keyId =
     ''{'' @ string_entry ''alg'' alg @ '','' @ string_entry ''typ'' ''JWT'' @ '','' @ string_entry ''kid'' keyId @ ''}''"

lemma signing_input_eq:
  "signing_input alg keyId payload =
     Some (toBase64Url (text_bytes (jws_header alg keyId)) @ ''.'' @ toBase64Url (text_bytes payload))"
  by (simp add: signing_input_def write_strings_def add_string_def beginEntry_def build_def string_entry_def
      jws_header_def)

text \<open>Documented behaviour of a key pair: what one key signs the other verifies.\<close>

definition key_pair :: "'k jose_library \<Rightarrow> 'k \<Rightarrow> 'k \<Rightarrow> bool" where
  "key_pair L private public \<longleftrightarrow>
     (\<forall>m signature. jl_sign L private m = Inr signature \<longrightarrow> signature \<noteq> [] \<and> jl_verify L public m signature)"

lemma escapeJsonChar_short: "length (escapeJsonChar c) \<le> 6"
  by (simp add: escapeJsonChar_def appendUnicodeEscape_def)

lemma escapeJsonString_short: "length (escapeJsonString s) \<le> 6 * length s"
  by (induction s) (auto simp: escapeJsonString_def intro: add_mono escapeJsonChar_short)

lemma jws_header_short:
  assumes "length keyId \<le> 128"
  shows "length (jws_header ''RS256'' keyId) \<le> 4096"
proof -
  have "length (escapeJsonString ''alg'' @ escapeJsonString ''RS256'' @ escapeJsonString ''typ''
      @ escapeJsonString ''JWT'' @ escapeJsonString ''kid'' @ escapeJsonString keyId) \<le> 6 * (17 + length keyId)"
    using escapeJsonString_short [of "''alg''"] escapeJsonString_short [of "''RS256''"] escapeJsonString_short [of "''typ''"]
      escapeJsonString_short [of "''JWT''"] escapeJsonString_short [of "''kid''"] escapeJsonString_short [of keyId]
    by simp
  then show ?thesis using assms by (simp add: jws_header_def string_entry_def)
qed

lemma dot_not_base64: "CHR ''.'' \<notin> set (toBase64Url bs)"
  using toBase64Url_symbols [of bs] by (auto simp: kBase64UrlAlphabet_def)

lemma text_bytes_empty [simp]: "text_bytes s = [] \<longleftrightarrow> s = []"
  by (simp add: text_bytes_def)

lemma verify_encoded_jws:
  assumes pem: "publicPem \<noteq> []" "length publicPem \<le> int_max" "rsa_public L publicPem = Some public"
    and size: "length (toBase64Url header @ ''.'' @ toBase64Url payload @ ''.'' @ toBase64Url signature) \<le> 16 * 1024"
      "header \<noteq> []" "length header \<le> 4096" "payload \<noteq> []" "signature \<noteq> []"
    and signed: "jl_verify L public (toBase64Url header @ ''.'' @ toBase64Url payload) signature"
  shows "verifyRs256Jwt L publicPem (toBase64Url header @ ''.'' @ toBase64Url payload @ ''.'' @ toBase64Url signature)
    = Inr \<lparr>jws_headerJson = as_text header, jws_payloadJson = as_text payload\<rparr>"
proof -
  let ?t = "toBase64Url header @ ''.'' @ toBase64Url payload @ ''.'' @ toBase64Url signature"
  have "compact_parts ?t = Some (toBase64Url header, toBase64Url payload, toBase64Url signature)"
    using size by (simp add: compact_parts_eq dot_not_base64 length_toBase64Url_pos)
  moreover have "length payload \<le> 12 * 1024"
    using size(1) by (simp add: length_toBase64Url)
  then have "decoded_parts (toBase64Url header, toBase64Url payload, toBase64Url signature) = Some (header, payload, signature)"
    using size by (simp add: decoded_parts_def fromBase64Url_toBase64Url)
  ultimately show ?thesis
    using pem size signed by (simp add: verifyRs256Jwt_def check_signature_def)
qed

lemma rsa_signed_verifies:
  assumes "RsaSha256Signer_create L privatePem keyId = Inr signer"
    and "publicPem \<noteq> []" "length publicPem \<le> int_max" "rsa_public L publicPem = Some public"
    and "key_pair L (jwt_key signer) public" "payload \<noteq> []"
    and "rsa_signJwt L signer payload = Some (Inr token)" "length token \<le> 16 * 1024"
  shows "verifyRs256Jwt L publicPem token =
    Inr \<lparr>jws_headerJson = jws_header ''RS256'' keyId, jws_payloadJson = payload\<rparr>"
proof -
  have kid: "jwt_keyId signer = keyId" "length keyId \<le> 128"
    using assms(1) by (auto simp: RsaSha256Signer_create_def split: if_splits option.splits)
  let ?h = "text_bytes (jws_header ''RS256'' keyId)"
  obtain signature where signature: "jl_sign L (jwt_key signer)
      (toBase64Url ?h @ ''.'' @ toBase64Url (text_bytes payload)) = Inr signature"
    and form: "token = toBase64Url ?h @ ''.'' @ toBase64Url (text_bytes payload) @ ''.'' @ toBase64Url signature"
    using assms(7) by (auto simp: rsa_signJwt_def signing_input_eq kid split: sum.splits sign_fault.splits)
  have "signature \<noteq> []" "jl_verify L public (toBase64Url ?h @ ''.'' @ toBase64Url (text_bytes payload)) signature"
    using assms(5) signature unfolding key_pair_def by blast+
  with verify_encoded_jws [OF assms(2-4), of ?h "text_bytes payload" signature] assms(8) jws_header_short [OF kid(2)] assms(6)
  show ?thesis by (simp add: form as_text_bytes jws_header_def)
qed

text \<open>
  A token the OIDC signer produces is accepted by the verifier under the matching public key, as
  long as it fits the verifier's limit of 16 KiB: the verifier returns the payload unchanged and the
  protected header, which reads back as exactly the algorithm, the type and the identifier of the
  signing key. The signer never aborts.
\<close>

theorem jws_roundtrip:
  assumes "RsaSha256Signer_create L privatePem keyId = Inr signer"
    and "publicPem \<noteq> []" "length publicPem \<le> int_max" "rsa_public L publicPem = Some public"
    and "key_pair L (jwt_key signer) public" "payload \<noteq> []"
  shows "\<exists>result. rsa_signJwt L signer payload = Some result
    \<and> (\<forall>token. result = Inr token \<and> length token \<le> 16 * 1024 \<longrightarrow>
        verifyRs256Jwt L publicPem token =
          Inr \<lparr>jws_headerJson = jws_header ''RS256'' keyId, jws_payloadJson = payload\<rparr>)
    \<and> read_entries 3 (tl (jws_header ''RS256'' keyId)) =
        Some ([(''alg'', ''RS256''), (''typ'', ''JWT''), (''kid'', keyId)], [])"
proof -
  obtain result where result: "rsa_signJwt L signer payload = Some result"
    by (simp add: rsa_signJwt_def signing_input_eq)
  have "verifyRs256Jwt L publicPem token =
      Inr \<lparr>jws_headerJson = jws_header ''RS256'' keyId, jws_payloadJson = payload\<rparr>"
    if "result = Inr token" "length token \<le> 16 * 1024" for token
    using rsa_signed_verifies [OF assms] that result by simp
  moreover have "read_entries 3 (tl (jws_header ''RS256'' keyId)) =
      Some ([(''alg'', ''RS256''), (''typ'', ''JWT''), (''kid'', keyId)], [])"
    by (simp add: jws_header_def numeral_eq_Suc)
  ultimately show ?thesis using result by blast
qed

text \<open>A library of one key, whose signature of a text is its length and the mark of the key.\<close>

definition sample_jose :: "nat jose_library" where
  "sample_jose =
     \<lparr>jl_memory = \<lambda>_. True, jl_public = \<lambda>t. Some 7, jl_private = \<lambda>t. Some 7,
      jl_isRsa = \<lambda>_. True, jl_isP256 = \<lambda>_. False, jl_bits = \<lambda>_. 2048,
      jl_number = \<lambda>bs. Some (if length bs = 3 then 65537 else 2 ^ 2047 + 1), jl_three = True,
      jl_params = \<lambda>_ _. True, jl_fromdata = \<lambda>_ _. Some 7, jl_rsaNumbers = \<lambda>_. Some (2 ^ 2047 + 1, 65537),
      jl_bytes = \<lambda>n. Some [1, 2, 3],
      jl_verify = \<lambda>k m s. s = [of_nat k, of_nat (length m)],
      jl_sign = \<lambda>k m. Inr [of_nat k, of_nat (length m)],
      jl_ecdsa = \<lambda>_. None, jl_pad = \<lambda>_. None\<rparr>"

lemma sample_key_pair: "key_pair sample_jose 7 7"
  by (simp add: key_pair_def sample_jose_def)

lemma sample_token_text:
  fixes signer :: "nat jwt_signer"
  defines "signer \<equiv> \<lparr>jwt_key = 7, jwt_keyId = ''k1''\<rparr>"
  obtains token where "rsa_signJwt sample_jose signer ''{}'' = Some (Inr token)" "length token \<le> 16 * 1024"
    "RsaSha256Signer_create sample_jose ''priv'' ''k1'' = Inr signer" "rsa_public sample_jose ''pub'' = Some 7"
proof -
  let ?input = "toBase64Url (text_bytes (jws_header ''RS256'' ''k1'')) @ ''.'' @ toBase64Url (text_bytes ''{}'')"
  let ?token = "?input @ ''.'' @ toBase64Url [of_nat 7, of_nat (length ?input)]"
  have "RsaSha256Signer_create sample_jose ''priv'' ''k1'' = Inr signer"
    by (simp add: RsaSha256Signer_create_def sample_jose_def int_max_def signer_def)
  moreover have "rsa_public sample_jose ''pub'' = Some 7"
    by (simp add: rsa_public_def sample_jose_def)
  moreover have "rsa_signJwt sample_jose signer ''{}'' = Some (Inr ?token)"
    by (simp only: rsa_signJwt_def signing_input_eq signer_def) (simp add: sample_jose_def)
  moreover have "length ?token \<le> 16 * 1024"
    using jws_header_short [of "''k1''"] by (simp add: length_toBase64Url)
  ultimately show thesis using that by blast
qed

lemma sample_token:
  "\<exists>token. rsa_signJwt sample_jose \<lparr>jwt_key = 7, jwt_keyId = ''k1''\<rparr> ''{}'' = Some (Inr token)
    \<and> verifyRs256Jwt sample_jose ''pub'' token =
        Inr \<lparr>jws_headerJson = jws_header ''RS256'' ''k1'', jws_payloadJson = ''{}''\<rparr>"
proof -
  obtain token where token: "rsa_signJwt sample_jose \<lparr>jwt_key = 7, jwt_keyId = ''k1''\<rparr> ''{}'' = Some (Inr token)"
    "length token \<le> 16 * 1024"
    using sample_token_text by metis
  obtain signature where "token = toBase64Url (text_bytes (jws_header ''RS256'' ''k1'')) @ ''.''
      @ toBase64Url (text_bytes ''{}'') @ ''.'' @ toBase64Url signature" "signature \<noteq> []"
    "jl_verify sample_jose 7 (toBase64Url (text_bytes (jws_header ''RS256'' ''k1'')) @ ''.'' @ toBase64Url (text_bytes ''{}'')) signature"
    using token(1) by (auto simp: rsa_signJwt_def signing_input_eq sample_jose_def)
  with verify_encoded_jws [of "''pub''" sample_jose 7 "text_bytes (jws_header ''RS256'' ''k1'')" "text_bytes ''{}''" signature]
    token jws_header_short [of "''k1''"]
  show ?thesis
    by (simp add: as_text_bytes rsa_public_def jws_header_def int_max_def) (simp add: sample_jose_def)
qed

theorem jws_roundtrip_witness:
  "\<exists>token. rsa_signJwt sample_jose \<lparr>jwt_key = 7, jwt_keyId = ''k1''\<rparr> ''{}'' = Some (Inr token)
    \<and> verifyRs256Jwt sample_jose ''pub'' token =
        Inr \<lparr>jws_headerJson = jws_header ''RS256'' ''k1'', jws_payloadJson = ''{}''\<rparr>"
proof -
  obtain token where "rsa_signJwt sample_jose \<lparr>jwt_key = 7, jwt_keyId = ''k1''\<rparr> ''{}'' = Some (Inr token)"
    "length token \<le> 16 * 1024" and create: "RsaSha256Signer_create sample_jose ''priv'' ''k1'' = Inr \<lparr>jwt_key = 7, jwt_keyId = ''k1''\<rparr>"
    and public: "rsa_public sample_jose ''pub'' = Some 7"
    using sample_token_text by metis
  with jws_roundtrip [OF create _ _ public, of "''{}''"] sample_key_pair
  show ?thesis by (auto simp: int_max_def)
qed

text \<open>Documented behaviour of AES-GCM: what it seals it opens again, under any key and nonce.\<close>

definition aead_correct :: "aead_library \<Rightarrow> bool" where
  "aead_correct A \<longleftrightarrow> al_context A
     \<and> (\<forall>k nonce data. al_init A k nonce \<and> al_associated A k nonce data)
     \<and> (\<forall>k nonce data plaintext. \<exists>ciphertext tag.
          al_encrypt A k nonce data plaintext = Some ciphertext \<and> length ciphertext = length plaintext
          \<and> al_tag A k nonce data plaintext = Some tag \<and> length tag = kTagBytes
          \<and> al_decrypt A k nonce data ciphertext tag = Some plaintext
          \<and> al_authentic A k nonce data ciphertext tag)"

lemma aead_correctE:
  assumes "aead_correct A"
  obtains ciphertext tag where "al_encrypt A k nonce data plaintext = Some ciphertext"
    "length ciphertext = length plaintext" "al_tag A k nonce data plaintext = Some tag" "length tag = kTagBytes"
    "al_decrypt A k nonce data ciphertext tag = Some plaintext" "al_authentic A k nonce data ciphertext tag"
    "al_context A" "al_init A k nonce" "al_associated A k nonce data"
  using assms unfolding aead_correct_def by metis

text \<open>
  A credential secret sealed at rest is recovered: whenever the generator and the cipher work,
  sealing succeeds on every plaintext and associated data within the limits, the envelope is nonce,
  ciphertext and tag, 28 octets longer than the plaintext, and opening it under the same key and the
  same associated data returns the plaintext.
\<close>

theorem aead_roundtrip:
  assumes "crypto_available E" "aead_correct A" "AeadKey_create secret = Inr key"
    and "plaintext \<noteq> []" "length plaintext \<le> 4096" "length data \<le> 4096"
  shows "\<exists>envelope. sealAes256Gcm E A key plaintext data = Inr envelope
    \<and> length envelope = length plaintext + 28
    \<and> openAes256Gcm A key envelope data = Inr plaintext"
proof -
  obtain nonce where nonce: "randomBytes E 0 kNonceBytes = Inr nonce" "length nonce = 12"
    using crypto_random_bytes [OF assms(1), of kNonceBytes 0] by (auto simp: kNonceBytes_def int_max_def)
  obtain ciphertext tag where c: "al_encrypt A (key_octets key) nonce data plaintext = Some ciphertext"
    "length ciphertext = length plaintext" "al_tag A (key_octets key) nonce data plaintext = Some tag"
    "length tag = kTagBytes" "al_decrypt A (key_octets key) nonce data ciphertext tag = Some plaintext"
    "al_authentic A (key_octets key) nonce data ciphertext tag"
    "al_context A" "al_init A (key_octets key) nonce" "al_associated A (key_octets key) nonce data"
    using aead_correctE [OF assms(2)] by metis
  have "sealAes256Gcm E A key plaintext data = Inr (nonce @ ciphertext @ tag)"
    using assms c nonce(1) by (simp add: sealAes256Gcm_def kMaximumPlaintextBytes_def int_max_def Let_def)
  moreover have "openAes256Gcm A key (nonce @ ciphertext @ tag) data = Inr plaintext"
    using assms(4-6) c nonce(2)
    by (simp add: openAes256Gcm_def kMaximumPlaintextBytes_def kNonceBytes_def kTagBytes_def int_max_def Let_def)
  ultimately show ?thesis
    using c nonce(2) by (simp add: kTagBytes_def)
qed

text \<open>A cipher that reverses the octets, with a constant tag.\<close>

definition sample_aead :: aead_library where
  "sample_aead =
     \<lparr>al_context = True, al_init = \<lambda>_ _. True, al_associated = \<lambda>_ _ _. True,
      al_encrypt = \<lambda>_ _ _ plaintext. Some (rev (text_bytes plaintext)),
      al_tag = \<lambda>_ _ _ _. Some (replicate 16 9),
      al_decrypt = \<lambda>_ _ _ ciphertext _. Some (as_text (rev ciphertext)),
      al_authentic = \<lambda>_ _ _ _ tag. tag = replicate 16 9\<rparr>"

theorem aead_roundtrip_witness:
  "\<exists>envelope. sealAes256Gcm sample_env sample_aead (AeadKey (replicate 32 CHR ''k'')) ''secret'' ''id'' = Inr envelope
    \<and> length envelope = 34
    \<and> openAes256Gcm sample_aead (AeadKey (replicate 32 CHR ''k'')) envelope ''id'' = Inr ''secret''"
proof -
  have "crypto_available sample_env" by (simp add: crypto_available_def sample_env_def)
  moreover have "aead_correct sample_aead"
    by (simp add: aead_correct_def sample_aead_def kTagBytes_def as_text_bytes)
  moreover have "AeadKey_create (replicate 32 CHR ''k'') = Inr (AeadKey (replicate 32 CHR ''k''))"
    by (simp add: AeadKey_create_def)
  ultimately show ?thesis
    using aead_roundtrip [of sample_env sample_aead "replicate 32 CHR ''k''" _ "''secret''" "''id''"] by auto
qed

end
