(* ===== verification/Replay_Store.thy ===== *)
theory Replay_Store
  imports Security Client
begin

text \<open>
  The replay tables and the table of JAR signing keys of the PostgreSQL store
  (\<^verbatim>\<open>src/src/storage/postgres/postgres.cpp\<close>, \<^verbatim>\<open>PostgresIdentityProviderStore\<close>) with
  the schema of \<^verbatim>\<open>migrations/0009\<close> and \<^verbatim>\<open>0010\<close>. The server is the parameter \<open>pg\<close>: which statement of an
  operation fails, with which SQLSTATE, and whether the effect of a COMMIT that reports a failure is
  kept all the same.
\<close>

section \<open>The server\<close>

text \<open>
  \<open>pg_acquire\<close> is the error of the pool, if it has no connection to lease; \<open>pg_fault i\<close> is the
  failure of the i-th statement of the operation, whose own failure is an SQLSTATE or \<open>None\<close> when the
  server gave none; \<open>pg_durable\<close> says whether a transaction survives a failed COMMIT.
\<close>

record pg =
  pg_acquire :: "Error option"
  pg_fault :: "nat \<Rightarrow> string option option"
  pg_durable :: bool

definition databaseError :: "string option \<Rightarrow> string \<Rightarrow> Error" where
  "databaseError state operation =
     (let detail = operation @ '' failed'' @ (case state of None \<Rightarrow> ''.'' | Some s \<Rightarrow> '' (SQLSTATE '' @ s @ '').'');
          code = (if state = Some ''23505'' then AlreadyExists
                  else if state = Some ''23503'' \<or> state = Some ''23514'' then FailedPrecondition
                  else if state = Some ''40001'' then Conflict
                  else Unavailable)
      in Error_with_detail code (defaultErrorMessage code) detail)"

text \<open>A parameter reaches the server as a C string, which ends at its first NUL.\<close>

definition c_str :: "string \<Rightarrow> string" where
  "c_str s = takeWhile (\<lambda>c. c \<noteq> CHR 0x00) s"

text \<open>
  \<open>run_statement\<close> is a statement that returns no rows: it fails as the server says, or else has the
  given effect on the table or violates one of its constraints.
\<close>

definition run_statement :: "pg \<Rightarrow> nat \<Rightarrow> ('t \<Rightarrow> string + 't) \<Rightarrow> 't \<Rightarrow> string option + 't" where
  "run_statement p i effect table =
     (case pg_fault p i of
        Some state \<Rightarrow> Inl state
      | None \<Rightarrow> (case effect table of Inl violated \<Rightarrow> Inl (Some violated) | Inr table' \<Rightarrow> Inr table'))"

definition beginTransaction :: "pg \<Rightarrow> nat \<Rightarrow> Status" where
  "beginTransaction p i =
     (case pg_fault p i of None \<Rightarrow> ok | Some state \<Rightarrow> Inl (databaseError state ''BEGIN''))"

definition commit :: "pg \<Rightarrow> nat \<Rightarrow> 't \<Rightarrow> 't \<Rightarrow> Status \<times> 't" where
  "commit p i table table' =
     (case pg_fault p i of
        None \<Rightarrow> (ok, table')
      | Some state \<Rightarrow> (Inl (databaseError state ''COMMIT''), if pg_durable p then table' else table))"

section \<open>Replay tables\<close>

text \<open>A replay table: its primary key is the pair of texts, its value \<^verbatim>\<open>expires_at_ms\<close>.\<close>

type_synonym replays = "string \<times> string \<Rightarrow> Instant option"

definition purge_expired :: "Instant \<Rightarrow> replays \<Rightarrow> replays" where
  "purge_expired now table = (\<lambda>k. case table k of Some x \<Rightarrow> if x \<le> now then None else Some x | None \<Rightarrow> None)"

definition insert_replay :: "string \<times> string \<Rightarrow> Instant \<Rightarrow> replays \<Rightarrow> string + replays" where
  "insert_replay k expiresAt table = (if table k \<noteq> None then Inl ''23505'' else Inr (table(k \<mapsto> expiresAt)))"

text \<open>
  One consumption: BEGIN, purge, insert, COMMIT; every failure rolls back to the table before. The
  three operations of the store differ in their table, their key and their texts.
\<close>

definition consume_replay ::
    "pg \<Rightarrow> string \<Rightarrow> string \<Rightarrow> string \<Rightarrow> string \<times> string \<Rightarrow> Instant \<Rightarrow> Instant \<Rightarrow> replays \<Rightarrow> Status \<times> replays" where
  "consume_replay p purging consuming replayed k expiresAt now table =
     (case pg_acquire p of
        Some e \<Rightarrow> (Inl e, table)
      | None \<Rightarrow>
          (case beginTransaction p 0 of
             Inl e \<Rightarrow> (Inl e, table)
           | Inr _ \<Rightarrow>
               (case run_statement p 1 (\<lambda>t. Inr (purge_expired now t)) table of
                  Inl state \<Rightarrow> (Inl (databaseError state purging), table)
                | Inr purged \<Rightarrow>
                    (case run_statement p 2 (insert_replay (map_prod c_str c_str k) expiresAt) purged of
                       Inl state \<Rightarrow>
                         (let error = databaseError state consuming
                          in if err_code error = AlreadyExists
                             then (fail_msg AuthenticationFailed replayed, table)
                             else (Inl error, table))
                     | Inr inserted \<Rightarrow> commit p 3 table inserted))))"

definition consume :: "pg \<Rightarrow> ClientId \<Rightarrow> string \<Rightarrow> Instant \<Rightarrow> Instant \<Rightarrow> replays \<Rightarrow> Status \<times> replays" where
  "consume p clientId jwtId expiresAt now =
     consume_replay p ''purge expired JAR replay identifiers'' ''consume JAR replay identifier''
       ''The JAR request object was replayed.'' (id_value clientId, jwtId) expiresAt now"

definition consumeDpopReplay :: "pg \<Rightarrow> string \<Rightarrow> string \<Rightarrow> Instant \<Rightarrow> Instant \<Rightarrow> replays \<Rightarrow> Status \<times> replays" where
  "consumeDpopReplay p jwkThumbprint jwtId expiresAt now =
     consume_replay p ''purge expired DPoP replay identifiers'' ''consume DPoP replay identifier''
       ''The DPoP proof was replayed.'' (jwkThumbprint, jwtId) expiresAt now"

definition consumeMtlsForwardingReplay ::
    "pg \<Rightarrow> string \<Rightarrow> string \<Rightarrow> Instant \<Rightarrow> Instant \<Rightarrow> replays \<Rightarrow> Status \<times> replays" where
  "consumeMtlsForwardingReplay p certificateThumbprint nonce expiresAt now =
     consume_replay p ''purge expired mTLS forwarding replay identifiers''
       ''consume mTLS forwarding replay identifier''
       ''The authenticated mTLS forwarding assertion was replayed.'' (certificateThumbprint, nonce) expiresAt now"

section \<open>Lemmas\<close>

lemma fault_insert_code:
  "err_code (databaseError state operation) = AlreadyExists \<longleftrightarrow> state = Some ''23505''"
  by (auto simp: databaseError_def Error_with_detail_def Let_def)

text \<open>A consumption is accepted exactly when no statement fails and no row that is still live has the key.\<close>

lemma consume_replay_ok:
  assumes "consume_replay p a b c k x now t = (Inr u, t')"
  shows "purge_expired now t (map_prod c_str c_str k) = None"
    and "t' = (purge_expired now t)(map_prod c_str c_str k \<mapsto> x)"
  using assms
  by (auto simp: consume_replay_def beginTransaction_def run_statement_def commit_def insert_replay_def Let_def
      fail_msg_def split: option.splits sum.splits if_splits)

lemma consume_replay_fails:
  assumes "purge_expired now t (map_prod c_str c_str k) \<noteq> None"
  shows "\<exists>e. consume_replay p a b c k x now t = (Inl e, t)"
  using assms
  by (auto simp: consume_replay_def beginTransaction_def run_statement_def commit_def insert_replay_def Let_def
      fail_msg_def split: option.splits sum.splits if_splits)

lemma consume_replay_table:
  assumes "consume_replay p a b c k x now t = (r, t')"
  shows "t' = t \<or> purge_expired now t (map_prod c_str c_str k) = None
      \<and> t' = (purge_expired now t)(map_prod c_str c_str k \<mapsto> x)"
  using assms
  by (auto simp: consume_replay_def beginTransaction_def run_statement_def commit_def insert_replay_def Let_def
      fail_msg_def split: option.splits sum.splits if_splits)

text \<open>A live row stays, whatever is consumed and whichever statements fail.\<close>

lemma consume_replay_keeps:
  assumes "consume_replay p a b c k x now t = (r, t')" "t k' = Some y" "now < y"
  shows "t' k' = Some y"
proof -
  have "purge_expired now t k' = Some y" using assms(2,3) by (simp add: purge_expired_def)
  with consume_replay_table [OF assms(1)] assms(2) show ?thesis by auto
qed

lemma consume_replay_works:
  assumes "pg_acquire p = None" "pg_fault p = (\<lambda>_. None)" "purge_expired now t (map_prod c_str c_str k) = None"
  shows "consume_replay p a b c k x now t = (ok, (purge_expired now t)(map_prod c_str c_str k \<mapsto> x))"
  using assms
  by (simp add: consume_replay_def beginTransaction_def run_statement_def commit_def insert_replay_def)

text \<open>A sequence of consumptions on one table, in the order the server commits them.\<close>

record consumption =
  cn_pg :: pg
  cn_texts :: "string \<times> string \<times> string"
  cn_key :: "string \<times> string"
  cn_expiresAt :: Instant
  cn_now :: Instant

definition consumed :: "consumption \<Rightarrow> replays \<Rightarrow> Status \<times> replays" where
  "consumed c t = (case cn_texts c of (x, y, z) \<Rightarrow> consume_replay (cn_pg c) x y z (cn_key c) (cn_expiresAt c) (cn_now c) t)"

definition consume_all :: "consumption list \<Rightarrow> replays \<Rightarrow> replays" where
  "consume_all cs t = fold (\<lambda>c t. snd (consumed c t)) cs t"

lemma consume_all_keeps:
  "t k = Some y \<Longrightarrow> \<forall>c \<in> set cs. cn_now c < y \<Longrightarrow> consume_all cs t k = Some y"
proof (induction cs arbitrary: t)
  case (Cons c cs)
  obtain a b d where texts: "cn_texts c = (a, b, d)" by (metis prod_cases3)
  obtain r t1 where t1: "consume_replay (cn_pg c) a b d (cn_key c) (cn_expiresAt c) (cn_now c) t = (r, t1)"
    by (metis surj_pair)
  have "t1 k = Some y" using consume_replay_keeps [OF t1] Cons.prems by simp
  with Cons.IH [of t1] Cons.prems(2) show ?case by (simp add: consume_all_def consumed_def texts t1)
qed (simp add: consume_all_def)

section \<open>What a replay table promises\<close>

text \<open>
  A client of a replay table: the claims it presents, the key and expiry it stores for one, and when
  it admits one. Its one law is that an admitted claim has not expired: then a claim is accepted at
  most once, however many consumptions come between, as long as the clock does not run backwards.
\<close>

locale replay_guard =
  fixes admits :: "Instant \<Rightarrow> 'c \<Rightarrow> bool"
    and expiry :: "'c \<Rightarrow> Instant"
    and key :: "'c \<Rightarrow> string \<times> string"
    and present :: "pg \<Rightarrow> Instant \<Rightarrow> 'c \<Rightarrow> replays \<Rightarrow> Status \<times> replays"
  assumes admitted_live: "admits now c \<Longrightarrow> now < expiry c"
    and present_ok: "present p now c t = (Inr u, t') \<Longrightarrow>
      admits now c \<and> (\<exists>x y z. consume_replay p x y z (key c) (expiry c) now t = (Inr u, t'))"
begin

lemma accepted_once:
  assumes first: "present p now c t = (ok, t')"
    and clock: "\<forall>d \<in> set between. cn_now d \<le> later"
    and again: "present q later c' (consume_all between t') = (Inr u, t_later)" "key c' = key c" "expiry c' = expiry c"
  shows False
proof -
  let ?k = "map_prod c_str c_str (key c)"
  obtain x y z where "consume_replay p x y z (key c) (expiry c) now t = (ok, t')"
    using present_ok [OF first] by blast
  from consume_replay_ok(2) [OF this] have row: "t' ?k = Some (expiry c)" by simp
  have second: "admits later c'" "\<exists>x y z. consume_replay q x y z (key c) (expiry c) later (consume_all between t') = (Inr u, t_later)"
    using present_ok [OF again(1)] by (simp_all add: again(2,3))
  have live: "later < expiry c" using admitted_live [OF second(1)] by (simp add: again(3))
  have "\<forall>d \<in> set between. cn_now d < expiry c" using clock live by fastforce
  with row have "consume_all between t' ?k = Some (expiry c)" by (rule consume_all_keeps)
  then have "purge_expired later (consume_all between t') ?k \<noteq> None" using live by (simp add: purge_expired_def)
  moreover obtain a b d where
    "consume_replay q a b d (key c) (expiry c) later (consume_all between t') = (Inr u, t_later)"
    using second(2) by blast
  note consume_replay_ok(1) [OF this]
  ultimately show False by simp
qed

end

end
