(* ===== verification/Dpop_Jar.thy ===== *)
theory Dpop_Jar
  imports Jose Replay_Store
begin

text \<open>
  The DPoP service of \<^verbatim>\<open>src/src/oauth/dpop.cpp\<close>, the JAR service of
  \<^verbatim>\<open>src/src/oauth/jar.cpp\<close> and the key table behind it. A service holds references to its
  stores, which are an argument and a result here.
\<close>

section \<open>DPoP\<close>

definition clockSkew :: Duration where "clockSkew = 60000"

definition dpop_consume ::
    "env \<Rightarrow> pg \<Rightarrow> Duration \<Rightarrow> string \<Rightarrow> string \<Rightarrow> Instant \<Rightarrow> replays \<Rightarrow> Status \<times> replays" where
  "dpop_consume E p proofLifetime jwkThumbprint jwtId issuedAt table =
     (let now = env_now E 0
      in if proofLifetime \<le> 0 \<or> proofLifetime > 600000
            \<or> jwkThumbprint = [] \<or> length jwkThumbprint > 128
            \<or> jwtId = [] \<or> length jwtId > 256
            \<or> issuedAt > now + clockSkew \<or> issuedAt + proofLifetime < now
         then (fail_msg AuthenticationFailed ''The DPoP proof is outside the accepted time window.'', table)
         else consumeDpopReplay p jwkThumbprint jwtId (issuedAt + proofLifetime + clockSkew) now table)"

section \<open>Keys of JAR clients\<close>

record ClientRequestSigningKey =
  jk_clientId :: ClientId
  jk_keyId :: string
  jk_publicKeyPem :: string
  jk_updatedAt :: Instant

definition ClientRequestSigningKey_create ::
    "ClientId \<Rightarrow> string \<Rightarrow> string \<Rightarrow> Instant \<Rightarrow> ClientRequestSigningKey Result" where
  "ClientRequestSigningKey_create clientId keyId publicKeyPem updatedAt =
     (if StrongId_empty clientId \<or> keyId = [] \<or> length keyId > 128 \<or> publicKeyPem = []
         \<or> length publicKeyPem > 16 * 1024
      then fail_msg InvalidArgument ''The JAR signing key registration is invalid.''
      else Inr \<lparr>jk_clientId = clientId, jk_keyId = keyId, jk_publicKeyPem = publicKeyPem, jk_updatedAt = updatedAt\<rparr>)"

text \<open>The table of keys: the client identifier is its primary key; a row is key id, PEM and time.\<close>

type_synonym jar_keys = "string \<Rightarrow> (string \<times> string \<times> Instant) option"

definition key_save :: "pg \<Rightarrow> ClientRequestSigningKey \<Rightarrow> jar_keys \<Rightarrow> Status \<times> jar_keys" where
  "key_save p k table =
     (case pg_acquire p of
        Some e \<Rightarrow> (Inl e, table)
      | None \<Rightarrow>
          (case run_statement p 0 (\<lambda>t. Inr (t(c_str (id_value (jk_clientId k)) \<mapsto>
                   (c_str (jk_keyId k), c_str (jk_publicKeyPem k), jk_updatedAt k)))) table of
             Inl state \<Rightarrow> (Inl (databaseError state ''save JAR client request signing key''), table)
           | Inr table' \<Rightarrow> (ok, table')))"

text \<open>The server prints \<^verbatim>\<open>updated_at_ms\<close>, a BIGINT, in decimal, which reads back.\<close>

definition key_find :: "pg \<Rightarrow> ClientId \<Rightarrow> jar_keys \<Rightarrow> ClientRequestSigningKey option Result" where
  "key_find p clientId table =
     (case pg_acquire p of
        Some e \<Rightarrow> Inl e
      | None \<Rightarrow>
          (case pg_fault p 0 of
             Some state \<Rightarrow> Inl (databaseError state ''find JAR client request signing key'')
           | None \<Rightarrow>
               (case table (c_str (id_value clientId)) of
                  None \<Rightarrow> Inr None
                | Some (keyId, publicKeyPem, updatedAt) \<Rightarrow>
                    (case ClientRequestSigningKey_create clientId keyId publicKeyPem updatedAt of
                       Inl _ \<Rightarrow> fail_msg Internal ''Stored JAR client key is invalid.''
                     | Inr k \<Rightarrow> Inr (Some k)))))"

definition key_remove :: "pg \<Rightarrow> ClientId \<Rightarrow> jar_keys \<Rightarrow> Status \<times> jar_keys" where
  "key_remove p clientId table =
     (case pg_acquire p of
        Some e \<Rightarrow> (Inl e, table)
      | None \<Rightarrow>
          (case run_statement p 0 (\<lambda>t. Inr (t(c_str (id_value clientId) := None))) table of
             Inl state \<Rightarrow> (Inl (databaseError state ''remove JAR client request signing key''), table)
           | Inr table' \<Rightarrow> (ok, table')))"

section \<open>JAR service\<close>

definition jar_registerKey ::
    "env \<Rightarrow> 'k jose_library \<Rightarrow> pg \<Rightarrow> ClientId \<Rightarrow> string \<Rightarrow> string \<Rightarrow> jar_keys \<Rightarrow> Status \<times> jar_keys" where
  "jar_registerKey E L p clientId keyId publicKeyPem table =
     (case validateRs256PublicKey L publicKeyPem of
        Inl e \<Rightarrow> (Inl e, table)
      | Inr _ \<Rightarrow>
          (case ClientRequestSigningKey_create clientId keyId publicKeyPem (env_now E 0) of
             Inl e \<Rightarrow> (Inl e, table)
           | Inr k \<Rightarrow> key_save p k table))"

definition jar_removeKey :: "pg \<Rightarrow> ClientId \<Rightarrow> jar_keys \<Rightarrow> Status \<times> jar_keys" where
  "jar_removeKey p clientId table = key_remove p clientId table"

definition jar_key :: "pg \<Rightarrow> ClientId \<Rightarrow> jar_keys \<Rightarrow> ClientRequestSigningKey Result" where
  "jar_key p clientId table =
     (case key_find p clientId table of
        Inl e \<Rightarrow> Inl e
      | Inr None \<Rightarrow> fail_msg FailedPrecondition ''The OAuth client has no registered JAR signing key.''
      | Inr (Some k) \<Rightarrow> Inr k)"

definition jar_verify ::
    "'k jose_library \<Rightarrow> pg \<Rightarrow> ClientId \<Rightarrow> string \<Rightarrow> jar_keys \<Rightarrow> VerifiedCompactJws Result" where
  "jar_verify L p clientId compactJwt table =
     (case jar_key p clientId table of
        Inl e \<Rightarrow> Inl e
      | Inr registered \<Rightarrow> verifyRs256Jwt L (jk_publicKeyPem registered) compactJwt)"

definition jar_consumeReplay ::
    "env \<Rightarrow> pg \<Rightarrow> ClientId \<Rightarrow> string \<Rightarrow> Instant \<Rightarrow> Instant \<Rightarrow> replays \<Rightarrow> Status \<times> replays" where
  "jar_consumeReplay E p clientId jwtId issuedAt expiresAt table =
     (let now = env_now E 0; maximumLifetime = 600000
      in if jwtId = [] \<or> length jwtId > 256 \<or> expiresAt \<le> now
            \<or> issuedAt > now + clockSkew \<or> issuedAt < now - maximumLifetime
            \<or> expiresAt > issuedAt + maximumLifetime
         then (fail_msg AuthenticationFailed ''The JAR temporal or replay claims are invalid.'', table)
         else consume p clientId jwtId expiresAt now table)"

section \<open>Single use\<close>

text \<open>A DPoP claim is a service lifetime, a thumbprint, an identifier and an issue time.\<close>

type_synonym dpop_claim = "Duration \<times> string \<times> string \<times> Instant"

definition at_time :: "Instant \<Rightarrow> env" where
  "at_time now = \<lparr>env_now = \<lambda>_. now, env_RAND_bytes = \<lambda>_ _. None, env_HMAC = \<lambda>_ _. None, env_SHA256 = \<lambda>_. None\<rparr>"

lemma dpop_consume_at: "dpop_consume E = dpop_consume (at_time (env_now E 0))"
  by (simp add: dpop_consume_def at_time_def fun_eq_iff Let_def)

lemma jar_consume_at: "jar_consumeReplay E = jar_consumeReplay (at_time (env_now E 0))"
  by (simp add: jar_consumeReplay_def at_time_def fun_eq_iff Let_def)

definition dpop_admits :: "Instant \<Rightarrow> dpop_claim \<Rightarrow> bool" where
  "dpop_admits now c = (case c of (lifetime, _, _, issuedAt) \<Rightarrow>
     0 < lifetime \<and> lifetime \<le> 600000 \<and> issuedAt \<le> now + 60000 \<and> now \<le> issuedAt + lifetime)"

interpretation dpop_guard: replay_guard
  dpop_admits
  "\<lambda>(lifetime, _, _, issuedAt). issuedAt + lifetime + 60000"
  "\<lambda>(_, thumbprint, jti, _). (thumbprint, jti)"
  "\<lambda>p now (lifetime, thumbprint, jti, issuedAt). dpop_consume (at_time now) p lifetime thumbprint jti issuedAt"
proof unfold_locales
  show "now < (case c of (lifetime, _, _, issuedAt) \<Rightarrow> issuedAt + lifetime + 60000)"
    if "dpop_admits now c" for now c
    using that by (auto simp: dpop_admits_def split: prod.splits)
  show "dpop_admits now c \<and> (\<exists>x y z. consume_replay p x y z (case c of (_, thumbprint, jti, _) \<Rightarrow> (thumbprint, jti))
      (case c of (lifetime, _, _, issuedAt) \<Rightarrow> issuedAt + lifetime + 60000) now t = (Inr u, t'))"
    if "(case c of (lifetime, thumbprint, jti, issuedAt) \<Rightarrow> dpop_consume (at_time now) p lifetime thumbprint jti issuedAt) t
      = (Inr u, t')" for p now c t u t'
    using that
    by (auto simp: dpop_admits_def dpop_consume_def consumeDpopReplay_def clockSkew_def at_time_def Let_def
        fail_msg_def not_less split: prod.splits if_splits)
qed

type_synonym jar_claim = "ClientId \<times> string \<times> Instant \<times> Instant"

definition jar_admits :: "Instant \<Rightarrow> jar_claim \<Rightarrow> bool" where
  "jar_admits now c = (case c of (_, _, issuedAt, expiresAt) \<Rightarrow>
     now < expiresAt \<and> issuedAt \<le> now + 60000 \<and> now - 600000 \<le> issuedAt \<and> expiresAt \<le> issuedAt + 600000)"

interpretation jar_guard: replay_guard
  jar_admits
  "\<lambda>(_, _, _, expiresAt). expiresAt"
  "\<lambda>(client, jti, _, _). (id_value client, jti)"
  "\<lambda>p now (client, jti, issuedAt, expiresAt). jar_consumeReplay (at_time now) p client jti issuedAt expiresAt"
proof unfold_locales
  show "now < (case c of (_, _, _, expiresAt) \<Rightarrow> expiresAt)" if "jar_admits now c" for now c
    using that by (auto simp: jar_admits_def split: prod.splits)
  show "jar_admits now c \<and> (\<exists>x y z. consume_replay p x y z (case c of (client, jti, _, _) \<Rightarrow> (id_value client, jti))
      (case c of (_, _, _, expiresAt) \<Rightarrow> expiresAt) now t = (Inr u, t'))"
    if "(case c of (client, jti, issuedAt, expiresAt) \<Rightarrow> jar_consumeReplay (at_time now) p client jti issuedAt expiresAt) t
      = (Inr u, t')" for p now c t u t'
    using that
    by (auto simp: jar_admits_def jar_consumeReplay_def consume_def clockSkew_def at_time_def Let_def
        fail_msg_def not_less not_le split: prod.splits if_splits)
qed

lemma dpop_used_once:
  assumes "dpop_consume E p lifetime thumbprint jti issuedAt t = (ok, t')"
    and "\<forall>d \<in> set between. cn_now d \<le> env_now E' 0"
  shows "\<exists>e. fst (dpop_consume E' q lifetime thumbprint jti issuedAt (consume_all between t')) = Inl e"
proof (rule ccontr)
  assume "\<nexists>e. fst (dpop_consume E' q lifetime thumbprint jti issuedAt (consume_all between t')) = Inl e"
  then obtain u t_later where "dpop_consume E' q lifetime thumbprint jti issuedAt (consume_all between t') = (Inr u, t_later)"
    by (metis prod.collapse sum.exhaust)
  then show False
    using dpop_guard.accepted_once [where p = p and now = "env_now E 0" and c = "(lifetime, thumbprint, jti, issuedAt)"
        and t = t and t' = t' and between = between and later = "env_now E' 0" and q = q
        and c' = "(lifetime, thumbprint, jti, issuedAt)" and u = u and t_later = t_later] assms
    by (simp flip: dpop_consume_at)
qed

lemma jar_used_once:
  assumes "jar_consumeReplay E p client jti issuedAt expiresAt t = (ok, t')"
    and "\<forall>d \<in> set between. cn_now d \<le> env_now E' 0"
  shows "\<exists>e. fst (jar_consumeReplay E' q client jti issuedAt' expiresAt (consume_all between t')) = Inl e"
proof (rule ccontr)
  assume "\<nexists>e. fst (jar_consumeReplay E' q client jti issuedAt' expiresAt (consume_all between t')) = Inl e"
  then obtain u t_later where "jar_consumeReplay E' q client jti issuedAt' expiresAt (consume_all between t') = (Inr u, t_later)"
    by (metis prod.collapse sum.exhaust)
  then show False
    using jar_guard.accepted_once [where p = p and now = "env_now E 0" and c = "(client, jti, issuedAt, expiresAt)"
        and t = t and t' = t' and between = between and later = "env_now E' 0" and q = q
        and c' = "(client, jti, issuedAt', expiresAt)" and u = u and t_later = t_later] assms
    by (simp flip: jar_consume_at)
qed

lemma jar_verify_sound:
  assumes "jar_verify L p client t table = Inr jws"
  obtains keyId pem updatedAt key where "table (c_str (id_value client)) = Some (keyId, pem, updatedAt)"
    "rsa_public L pem = Some key" "verified_by L key t jws"
proof -
  obtain k where k: "jar_key p client table = Inr k" "verifyRs256Jwt L (jk_publicKeyPem k) t = Inr jws"
    using assms by (auto simp: jar_verify_def split: sum.splits)
  obtain keyId updatedAt where "table (c_str (id_value client)) = Some (keyId, jk_publicKeyPem k, updatedAt)"
    using k(1)
    by (auto simp: jar_key_def key_find_def ClientRequestSigningKey_create_def fail_msg_def
        split: sum.splits option.splits if_splits)
  moreover obtain key where "rsa_public L (jk_publicKeyPem k) = Some key" "verified_by L key t jws"
    using verifyRs256Jwt_sound [OF k(2)] .
  ultimately show thesis using that by blast
qed

lemma jar_registered:
  assumes "jar_registerKey E L p client keyId pem table = (ok, table')"
  shows "table' = table(c_str (id_value client) \<mapsto> (c_str keyId, c_str pem, env_now E 0))"
    and "rsa_public L pem \<noteq> None"
  using assms
  by (auto simp: jar_registerKey_def validateRs256PublicKey_def ClientRequestSigningKey_create_def key_save_def
      run_statement_def fail_msg_def split: sum.splits option.splits if_splits)



end
