(* ===== verification/Sender.thy ===== *)
theory Sender
  imports Dpop_Jar Token Gateway
begin

text \<open>
  The verifier of sender constraints, \<^verbatim>\<open>src/src/oauth/http/sender.cpp\<close>: DPoP proofs and
  forwarded client certificates, at the token endpoint, at a protocol endpoint and, as the
  \<^verbatim>\<open>SenderConstraintVerifier\<close> of the gateway, on proxied requests.
\<close>

section \<open>The verifier and what it reads\<close>

text \<open>
  \<open>sl_parse\<close> is the parser of Boost.JSON (\<open>None\<close>: an error code); the keys of an object are distinct.
  \<open>sl_overflow\<close> is the instant the program computes for a number of seconds whose milliseconds do not
  fit 64 bits: the multiplication in \<^verbatim>\<open>duration_cast\<close> overflows there, which C++ leaves
  undefined.
\<close>

record 'k sender_library =
  sl_jose :: "'k jose_library"
  sl_parse :: "string \<Rightarrow> json_value option"
  sl_overflow :: "int \<Rightarrow> Instant"

record SenderProofVerifier =
  sv_proofLifetime :: Duration
  sv_publicOrigin :: string
  sv_mtlsForwardingKey :: "string option"

record sender_state =
  ss_dpop :: replays
  ss_mtls :: replays

fun pop_slashes :: "string \<Rightarrow> string" where
  "pop_slashes origin =
     (if length origin > 1 \<and> last origin = CHR ''/'' then pop_slashes (butlast origin) else origin)"

declare pop_slashes.simps [simp del]

definition SenderProofVerifier_new :: "Duration \<Rightarrow> string \<Rightarrow> string option \<Rightarrow> SenderProofVerifier" where
  "SenderProofVerifier_new proofLifetime publicOrigin mtlsForwardingKey =
     \<lparr>sv_proofLifetime = proofLifetime, sv_publicOrigin = pop_slashes publicOrigin,
      sv_mtlsForwardingKey = mtlsForwardingKey\<rparr>"

type_synonym json_object = "(string \<times> json_value) list"

definition parseJsonObject :: "'k sender_library \<Rightarrow> string \<Rightarrow> json_object Result" where
  "parseJsonObject L text_value =
     (case sl_parse L text_value of
        Some (JObject obj) \<Rightarrow> Inr obj
      | _ \<Rightarrow> fail_msg AuthenticationFailed ''The proof JWT is malformed.'')"

definition stringClaim :: "json_object \<Rightarrow> string \<Rightarrow> string option" where
  "stringClaim obj name = (case map_of obj name of Some (JString v) \<Rightarrow> Some v | _ \<Rightarrow> None)"

definition integerClaim :: "json_object \<Rightarrow> string \<Rightarrow> int Result" where
  "integerClaim obj name =
     (case map_of obj name of
        Some (JInt64 v) \<Rightarrow> Inr v
      | _ \<Rightarrow> fail_msg AuthenticationFailed ''The proof JWT temporal claim is invalid.'')"

definition unverifiedProtectedHeader :: "'k sender_library \<Rightarrow> string \<Rightarrow> json_object Result" where
  "unverifiedProtectedHeader L compactJwt =
     (let head = takeWhile (\<lambda>c. c \<noteq> CHR ''.'') compactJwt
      in if CHR ''.'' \<notin> set compactJwt \<or> head = [] \<or> length head > 4096
         then fail_msg AuthenticationFailed ''The DPoP proof is malformed.''
         else case fromBase64Url head of
             Some (Inr decoded) \<Rightarrow>
               if decoded = [] \<or> length decoded > 4096
               then fail_msg AuthenticationFailed ''The DPoP protected header is invalid.''
               else parseJsonObject L (as_text decoded)
           | _ \<Rightarrow> fail_msg AuthenticationFailed ''The DPoP protected header is invalid.'')"

definition joseProtectedHeaderUsesSupportedExtensions :: "json_object \<Rightarrow> bool" where
  "joseProtectedHeaderUsesSupportedExtensions header = (map_of header ''crit'' = None \<and> map_of header ''b64'' = None)"

definition rsaJwk :: "json_object \<Rightarrow> (string \<times> string) Result" where
  "rsaJwk header =
     (case map_of header ''jwk'' of
        Some (JObject jwk) \<Rightarrow>
          if stringClaim header ''alg'' \<noteq> Some ''RS256'' \<or> stringClaim header ''typ'' \<noteq> Some ''dpop+jwt''
             \<or> \<not> joseProtectedHeaderUsesSupportedExtensions header
          then fail_msg AuthenticationFailed ''The DPoP protected header is invalid.''
          else if stringClaim jwk ''kty'' \<noteq> Some ''RSA''
          then fail_msg AuthenticationFailed ''The DPoP proof key is unsupported.''
          else if list_ex (\<lambda>privateName. map_of jwk privateName \<noteq> None)
                    [''d'', ''p'', ''q'', ''dp'', ''dq'', ''qi'', ''oth'', ''k'']
          then fail_msg AuthenticationFailed ''A DPoP proof must contain only public key material.''
          else (case (stringClaim jwk ''n'', stringClaim jwk ''e'') of
                  (Some modulus, Some exponent) \<Rightarrow> Inr (modulus, exponent)
                | _ \<Rightarrow> fail_msg AuthenticationFailed ''The DPoP proof key is incomplete.'')
      | _ \<Rightarrow> fail_msg AuthenticationFailed ''The DPoP protected header is invalid.'')"

definition fits_int64 :: "int \<Rightarrow> bool" where
  "fits_int64 n \<longleftrightarrow> - (2 ^ 63) \<le> n \<and> n < 2 ^ 63"

definition instantFromUnixSeconds :: "'k sender_library \<Rightarrow> int \<Rightarrow> Instant" where
  "instantFromUnixSeconds L seconds =
     (if fits_int64 (seconds * 1000) then seconds * 1000 else sl_overflow L seconds)"

text \<open>\<^verbatim>\<open>std::from_chars\<close>: an optional minus, digits up to the end, a value of 64 bits.\<close>

definition decimalInteger :: "string \<Rightarrow> int Result" where
  "decimalInteger t =
     (case (case t of c # cs \<Rightarrow> if c = CHR ''-'' then map_option (\<lambda>n. - int n) (read_digits cs)
                               else map_option int (read_digits t)
                    | [] \<Rightarrow> None) of
        Some v \<Rightarrow> if fits_int64 v then Inr v
                  else fail_msg AuthenticationFailed ''The authenticated mTLS forwarding timestamp is invalid.''
      | None \<Rightarrow> fail_msg AuthenticationFailed ''The authenticated mTLS forwarding timestamp is invalid.'')"

definition safeThumbprint :: "string \<Rightarrow> bool" where
  "safeThumbprint v =
     (length v = 43 \<and> list_all (\<lambda>symbol. is_upper_char symbol \<or> is_lower_char symbol \<or> is_digit_char symbol
        \<or> symbol = CHR ''-'' \<or> symbol = CHR ''_'') v)"

definition expectedHtu :: "SenderProofVerifier \<Rightarrow> HttpRequest \<Rightarrow> string" where
  "expectedHtu v request = sv_publicOrigin v @ req_path request"

section \<open>DPoP proofs\<close>

text \<open>The proof up to the claims it signs: the key of its header and its payload.\<close>

definition dpop_signed :: "'k sender_library \<Rightarrow> string \<Rightarrow> ((string \<times> string) \<times> json_object) Result" where
  "dpop_signed L proof_text =
     (case unverifiedProtectedHeader L proof_text of
        Inl e \<Rightarrow> Inl e
      | Inr header \<Rightarrow>
          (case rsaJwk header of
             Inl e \<Rightarrow> Inl e
           | Inr key \<Rightarrow>
               (case verifyRs256Jwk (sl_jose L) (fst key) (snd key) proof_text of
                  Inl e \<Rightarrow> Inl e
                | Inr verified \<Rightarrow>
                    (case (parseJsonObject L (jws_headerJson verified), parseJsonObject L (jws_payloadJson verified)) of
                       (Inr verifiedHeader, Inr payload) \<Rightarrow>
                         (case rsaJwk verifiedHeader of
                            Inr verifiedKey \<Rightarrow>
                              if verifiedKey \<noteq> key
                              then fail_msg AuthenticationFailed ''The DPoP proof key is invalid.''
                              else Inr (key, payload)
                          | Inl _ \<Rightarrow> fail_msg AuthenticationFailed ''The DPoP proof key is invalid.'')
                     | _ \<Rightarrow> fail_msg AuthenticationFailed ''The DPoP proof is malformed.''))))"

text \<open>The claims that bind a payload to the request: its identifier and issue time.\<close>

definition dpop_bound :: "SenderProofVerifier \<Rightarrow> HttpRequest \<Rightarrow> json_object \<Rightarrow> (string \<times> int) Result" where
  "dpop_bound v request payload =
     (case (stringClaim payload ''jti'', stringClaim payload ''htm'', stringClaim payload ''htu'',
            integerClaim payload ''iat'') of
        (Some jwtId, Some method_name, Some target, Inr issuedSeconds) \<Rightarrow>
          if method_name \<noteq> httpMethodName (req_method request) \<or> target \<noteq> expectedHtu v request
          then fail_msg AuthenticationFailed ''The DPoP proof is not bound to this request.''
          else Inr (jwtId, issuedSeconds)
      | _ \<Rightarrow> fail_msg AuthenticationFailed ''The DPoP proof is not bound to this request.'')"

definition dpop_token_bound :: "env \<Rightarrow> string option \<Rightarrow> json_object \<Rightarrow> Status" where
  "dpop_token_bound E accessToken payload =
     (case accessToken of
        None \<Rightarrow> ok
      | Some secret \<Rightarrow>
          (case sha256 E secret of
             Inl e \<Rightarrow> Inl e
           | Inr accessHash \<Rightarrow>
               if stringClaim payload ''ath'' \<noteq> Some (toBase64Url accessHash)
               then fail_msg AuthenticationFailed ''The DPoP proof is not bound to the access token.''
               else ok))"

definition verifyDpop ::
    "env \<Rightarrow> 'k sender_library \<Rightarrow> pg \<Rightarrow> SenderProofVerifier \<Rightarrow> HttpRequest \<Rightarrow> string option \<Rightarrow> sender_state
     \<Rightarrow> SenderConstraint Result \<times> HttpRequest \<times> sender_state" where
  "verifyDpop E L p v request accessToken s =
     (case req_header request ''dpop'' of
        None \<Rightarrow> (fail_msg AuthenticationFailed ''A DPoP proof is required.'', request, s)
      | Some proof_text \<Rightarrow>
          if proof_text = [] \<or> length proof_text > 16 * 1024
          then (fail_msg AuthenticationFailed ''A DPoP proof is required.'', request, s)
          else (case dpop_signed L proof_text of
                  Inl e \<Rightarrow> (Inl e, request, s)
                | Inr (key, payload) \<Rightarrow>
                    (case dpop_bound v request payload of
                       Inl e \<Rightarrow> (Inl e, request, s)
                     | Inr (jwtId, issuedSeconds) \<Rightarrow>
                         (case dpop_token_bound E accessToken payload of
                            Inl e \<Rightarrow> (Inl e, request, s)
                          | Inr _ \<Rightarrow>
                              (case rsaJwkThumbprint E (sl_jose L) (fst key) (snd key) of
                                 Inl e \<Rightarrow> (Inl e, request, s)
                               | Inr thumbprint \<Rightarrow>
                                   (case dpop_consume E p (sv_proofLifetime v) thumbprint jwtId
                                           (instantFromUnixSeconds L issuedSeconds) (ss_dpop s) of
                                      (Inl e, table) \<Rightarrow> (Inl e, request, s\<lparr>ss_dpop := table\<rparr>)
                                    | (Inr _, table) \<Rightarrow>
                                        (SenderConstraint_create SenderConstraintKind.Dpop thumbprint,
                                         req_eraseHeader ''dpop'' request, s\<lparr>ss_dpop := table\<rparr>)))))))"

section \<open>Forwarded client certificates\<close>

definition mtls_headers :: "string list" where
  "mtls_headers = [''x-forwarded-client-cert-sha256'', ''x-forwarded-client-cert-timestamp'',
                   ''x-forwarded-client-cert-nonce'', ''x-forwarded-client-cert-signature'']"

definition mtls_erase :: "HttpRequest \<Rightarrow> HttpRequest" where
  "mtls_erase request = fold req_eraseHeader mtls_headers request"

definition newline :: char where "newline = CHR 0x0A"

definition mtls_payload :: "HttpRequest \<Rightarrow> string \<Rightarrow> string \<Rightarrow> string \<Rightarrow> string" where
  "mtls_payload request thumbprint timestamp nonce =
     httpMethodName (req_method request) @ [newline] @ req_target request @ [newline] @ thumbprint @ [newline]
     @ timestamp @ [newline] @ nonce"

definition maximumAge :: Duration where "maximumAge = 60000"

text \<open>The checks of an assertion before it is consumed: its time, when it may be.\<close>

definition mtls_asserted ::
    "env \<Rightarrow> string \<Rightarrow> HttpRequest \<Rightarrow> string \<Rightarrow> string \<Rightarrow> string \<Rightarrow> string \<Rightarrow> Instant Result" where
  "mtls_asserted E forwardingKey request thumbprint timestamp nonce signature =
     (case (decimalInteger timestamp, fromBase64Url signature) of
        (Inr milliseconds, Some (Inr suppliedSignature)) \<Rightarrow>
          if length suppliedSignature \<noteq> 32
          then fail_msg AuthenticationFailed ''The authenticated mTLS forwarding assertion is invalid.''
          else (let assertedAt = milliseconds; now = env_now E 0
                in if assertedAt > now + maximumAge \<or> assertedAt + maximumAge < now
                   then fail_msg AuthenticationFailed ''The authenticated mTLS forwarding assertion expired.''
                   else (case hmacSha256 E forwardingKey (mtls_payload request thumbprint timestamp nonce) of
                           Inr expected \<Rightarrow>
                             if \<not> constantTimeEquals expected suppliedSignature
                             then fail_msg AuthenticationFailed
                                    ''The authenticated mTLS forwarding assertion signature is invalid.''
                             else Inr assertedAt
                         | Inl _ \<Rightarrow> fail_msg AuthenticationFailed
                                    ''The authenticated mTLS forwarding assertion signature is invalid.''))
      | _ \<Rightarrow> fail_msg AuthenticationFailed ''The authenticated mTLS forwarding assertion is invalid.'')"

definition verifyMtlsForwarding ::
    "env \<Rightarrow> pg \<Rightarrow> SenderProofVerifier \<Rightarrow> HttpRequest \<Rightarrow> sender_state
     \<Rightarrow> SenderConstraint Result \<times> HttpRequest \<times> sender_state" where
  "verifyMtlsForwarding E p v request s =
     (case (req_header request ''x-forwarded-client-cert-sha256'',
            req_header request ''x-forwarded-client-cert-timestamp'',
            req_header request ''x-forwarded-client-cert-nonce'',
            req_header request ''x-forwarded-client-cert-signature'', sv_mtlsForwardingKey v) of
        (Some thumbprint, Some timestamp, Some nonce, Some signature, Some forwardingKey) \<Rightarrow>
          if \<not> safeThumbprint thumbprint \<or> nonce = [] \<or> length nonce > 256
             \<or> signature = [] \<or> length signature > 128
          then (fail_msg AuthenticationFailed ''Authenticated mTLS certificate forwarding is required.'',
                mtls_erase request, s)
          else (case mtls_asserted E forwardingKey request thumbprint timestamp nonce signature of
                  Inl e \<Rightarrow> (Inl e, mtls_erase request, s)
                | Inr assertedAt \<Rightarrow>
                    (case consumeMtlsForwardingReplay p thumbprint nonce (assertedAt + maximumAge) (env_now E 0)
                            (ss_mtls s) of
                       (Inl e, table) \<Rightarrow> (Inl e, mtls_erase request, s\<lparr>ss_mtls := table\<rparr>)
                     | (Inr _, table) \<Rightarrow>
                         (SenderConstraint_create SenderConstraintKind.Mtls thumbprint, mtls_erase request,
                          s\<lparr>ss_mtls := table\<rparr>)))
      | _ \<Rightarrow> (fail_msg AuthenticationFailed ''Authenticated mTLS certificate forwarding is required.'',
              mtls_erase request, s))"

section \<open>The three entry points\<close>

definition tokenEndpointConstraint ::
    "env \<Rightarrow> 'k sender_library \<Rightarrow> pg \<Rightarrow> SenderProofVerifier \<Rightarrow> HttpRequest \<Rightarrow> sender_state
     \<Rightarrow> SenderConstraint option Result \<times> HttpRequest \<times> sender_state" where
  "tokenEndpointConstraint E L p v request s =
     (let hasDpop = (req_header request ''dpop'' \<noteq> None);
          hasMtls = list_ex (\<lambda>name. req_header request name \<noteq> None) mtls_headers
      in if hasDpop \<and> hasMtls
         then (fail_msg InvalidArgument ''A token request cannot combine DPoP and mTLS sender binding.'', request, s)
         else if hasDpop
         then (case verifyDpop E L p v request None s of
                 (Inl e, request', s') \<Rightarrow> (Inl e, request', s')
               | (Inr c, request', s') \<Rightarrow> (Inr (Some c), request', s'))
         else if hasMtls
         then (case verifyMtlsForwarding E p v request s of
                 (Inl e, request', s') \<Rightarrow> (Inl e, request', s')
               | (Inr c, request', s') \<Rightarrow> (Inr (Some c), request', s'))
         else (Inr None, request, s))"

text \<open>
  \<^verbatim>\<open>verifyTokenConstraint\<close> and \<^verbatim>\<open>verify\<close> have the same body, over two constraint types.
\<close>

definition check_binding ::
    "env \<Rightarrow> 'k sender_library \<Rightarrow> pg \<Rightarrow> SenderProofVerifier \<Rightarrow> HttpRequest \<Rightarrow> SenderConstraint \<Rightarrow> string \<Rightarrow> bool
     \<Rightarrow> sender_state \<Rightarrow> Status \<times> HttpRequest \<times> sender_state" where
  "check_binding E L p v request constraint accessToken dpopAuthorizationScheme s =
     (if sc_kind constraint = SenderConstraintKind.Dpop
      then if \<not> dpopAuthorizationScheme
           then (fail_msg AuthenticationFailed ''A DPoP-bound access token requires the DPoP authorization scheme.'',
                 request, s)
           else (case verifyDpop E L p v request (Some accessToken) s of
                   (Inr verified, request', s') \<Rightarrow>
                     if sc_kind verified \<noteq> SenderConstraintKind.Dpop \<or> sc_value verified \<noteq> sc_value constraint
                     then (fail_msg AuthenticationFailed
                             ''The DPoP proof key does not match the access token binding.'', request', s')
                     else (ok, request', s')
                 | (Inl _, request', s') \<Rightarrow>
                     (fail_msg AuthenticationFailed
                        ''The DPoP proof key does not match the access token binding.'', request', s'))
      else if dpopAuthorizationScheme
      then (fail_msg AuthenticationFailed ''An mTLS-bound access token uses the Bearer authorization scheme.'',
            request, s)
      else (case verifyMtlsForwarding E p v request s of
              (Inr verified, request', s') \<Rightarrow>
                if sc_kind verified \<noteq> SenderConstraintKind.Mtls \<or> sc_value verified \<noteq> sc_value constraint
                then (fail_msg AuthenticationFailed
                        ''The mTLS certificate does not match the access token binding.'', request', s')
                else (ok, request', s')
            | (Inl _, request', s') \<Rightarrow>
                (fail_msg AuthenticationFailed
                   ''The mTLS certificate does not match the access token binding.'', request', s')))"

definition verifyTokenConstraint ::
    "env \<Rightarrow> 'k sender_library \<Rightarrow> pg \<Rightarrow> SenderProofVerifier \<Rightarrow> HttpRequest \<Rightarrow> SenderConstraint \<Rightarrow> string \<Rightarrow> bool
     \<Rightarrow> sender_state \<Rightarrow> Status \<times> HttpRequest \<times> sender_state" where
  "verifyTokenConstraint = check_binding"

definition sender_verify ::
    "env \<Rightarrow> 'k sender_library \<Rightarrow> pg \<Rightarrow> SenderProofVerifier \<Rightarrow> HttpRequest \<Rightarrow> DelegatedSenderConstraint \<Rightarrow> string
     \<Rightarrow> bool \<Rightarrow> sender_state \<Rightarrow> Status \<times> HttpRequest \<times> sender_state" where
  "sender_verify E L p v request constraint =
     check_binding E L p v request
       \<lparr>sc_kind = (case constraint_kind constraint of
                      DelegatedSenderConstraintKind.Dpop \<Rightarrow> SenderConstraintKind.Dpop
                    | DelegatedSenderConstraintKind.Mtls \<Rightarrow> SenderConstraintKind.Mtls),
        sc_value = constraint_value constraint\<rparr>"

section \<open>What the verifier accepts\<close>

text \<open>The proof is signed under the key its own header carries, and says \<open>payload\<close>.\<close>

definition proof_signed :: "'k sender_library \<Rightarrow> string \<Rightarrow> string \<Rightarrow> string \<Rightarrow> json_object \<Rightarrow> bool" where
  "proof_signed L proof_text modulus exponent payload \<longleftrightarrow>
     (\<exists>key jws header. rsaPublicKeyFromJwk (sl_jose L) modulus exponent = Inr key
        \<and> verified_by (sl_jose L) key proof_text jws
        \<and> sl_parse L (jws_headerJson jws) = Some (JObject header) \<and> rsaJwk header = Inr (modulus, exponent)
        \<and> sl_parse L (jws_payloadJson jws) = Some (JObject payload))"

lemma parseJsonObject_ok: "parseJsonObject L t = Inr obj \<longleftrightarrow> sl_parse L t = Some (JObject obj)"
  by (auto simp: parseJsonObject_def fail_msg_def split: option.splits json_value.splits)

lemma dpop_signed_sound:
  assumes "dpop_signed L t = Inr (key, payload)"
  shows "proof_signed L t (fst key) (snd key) payload"
proof -
  obtain jws header where jws: "verifyRs256Jwk (sl_jose L) (fst key) (snd key) t = Inr jws"
    "parseJsonObject L (jws_headerJson jws) = Inr header" "rsaJwk header = Inr key"
    "parseJsonObject L (jws_payloadJson jws) = Inr payload"
    using assms by (auto simp: dpop_signed_def fail_msg_def split: sum.splits if_splits)
  obtain k where "rsaPublicKeyFromJwk (sl_jose L) (fst key) (snd key) = Inr k" "verified_by (sl_jose L) k t jws"
    using verifyRs256Jwk_sound [OF jws(1)] .
  with jws show ?thesis unfolding proof_signed_def by (auto simp: parseJsonObject_ok)
qed

lemma rsaJwk_header:
  assumes "rsaJwk header = Inr (n, e)"
  shows "map_of header ''alg'' = Some (JString ''RS256'')" "map_of header ''typ'' = Some (JString ''dpop+jwt'')"
    "map_of header ''crit'' = None" "map_of header ''b64'' = None"
  using assms
  by (auto simp: rsaJwk_def stringClaim_def joseProtectedHeaderUsesSupportedExtensions_def fail_msg_def
      split: option.splits json_value.splits if_splits)

lemma stringClaim_iff: "stringClaim obj n = Some x \<longleftrightarrow> map_of obj n = Some (JString x)"
  by (auto simp: stringClaim_def split: option.splits json_value.splits)

lemma dpop_bound_iff:
  "dpop_bound v r payload = Inr (jti, iat) \<longleftrightarrow>
     map_of payload ''jti'' = Some (JString jti) \<and> map_of payload ''iat'' = Some (JInt64 iat)
     \<and> map_of payload ''htm'' = Some (JString (httpMethodName (req_method r)))
     \<and> map_of payload ''htu'' = Some (JString (expectedHtu v r))"
  by (auto simp: dpop_bound_def stringClaim_def integerClaim_def fail_msg_def
      split: option.splits json_value.splits sum.splits if_splits)

lemma dpop_token_bound_iff:
  "dpop_token_bound E (Some token) payload = ok \<longleftrightarrow>
     (\<exists>h. sha256 E token = Inr h \<and> map_of payload ''ath'' = Some (JString (toBase64Url h)))"
  by (auto simp: dpop_token_bound_def stringClaim_iff fail_msg_def split: sum.splits if_splits)

lemma thumbprint_ok:
  "rsaJwkThumbprint E L n e = Inr t \<longleftrightarrow>
     (\<exists>key h. rsaPublicKeyFromJwk L n e = Inr key \<and> sha256 E (thumbprint_input n e) = Inr h \<and> t = toBase64Url h)"
  by (auto simp: rsaJwkThumbprint_def split: sum.splits)

text \<open>The steps an accepted proof has gone through.\<close>

lemma verifyDpop_ok:
  assumes "verifyDpop E L p v r token s = (Inr c, r', s')"
  obtains proof_text n e payload jti iat t where
    "req_header r ''dpop'' = Some proof_text" "dpop_signed L proof_text = Inr ((n, e), payload)"
    "dpop_bound v r payload = Inr (jti, iat)" "dpop_token_bound E token payload = ok"
    "rsaJwkThumbprint E (sl_jose L) n e = Inr t"
    "dpop_consume E p (sv_proofLifetime v) t jti (instantFromUnixSeconds L iat) (ss_dpop s) = (ok, ss_dpop s')"
    "c = \<lparr>sc_kind = SenderConstraintKind.Dpop, sc_value = t\<rparr>" "r' = req_eraseHeader ''dpop'' r"
    "ss_mtls s' = ss_mtls s"
  using assms
  by (auto simp: verifyDpop_def fail_msg_def SenderConstraint_create_def
      split: option.splits sum.splits if_splits prod.splits)

text \<open>What an accepted DPoP proof establishes about a request, a token and the replay table.\<close>

definition dpop_proved ::
    "env \<Rightarrow> 'k sender_library \<Rightarrow> SenderProofVerifier \<Rightarrow> HttpRequest \<Rightarrow> string option \<Rightarrow> string \<Rightarrow> replays \<Rightarrow> replays \<Rightarrow> bool" where
  "dpop_proved E L v r token thumbprint table table' \<longleftrightarrow>
     (\<exists>proof_text n e payload jti iat keyHash. req_header r ''dpop'' = Some proof_text
        \<and> proof_signed L proof_text n e payload
        \<and> map_of payload ''htm'' = Some (JString (httpMethodName (req_method r)))
        \<and> map_of payload ''htu'' = Some (JString (sv_publicOrigin v @ req_path r))
        \<and> (\<forall>secret. token = Some secret \<longrightarrow>
             (\<exists>h. sha256 E secret = Inr h \<and> map_of payload ''ath'' = Some (JString (toBase64Url h))))
        \<and> sha256 E (thumbprint_input n e) = Inr keyHash \<and> thumbprint = toBase64Url keyHash
        \<and> map_of payload ''jti'' = Some (JString jti) \<and> map_of payload ''iat'' = Some (JInt64 iat)
        \<and> instantFromUnixSeconds L iat \<le> env_now E 0 + 60000
        \<and> env_now E 0 \<le> instantFromUnixSeconds L iat + sv_proofLifetime v
        \<and> purge_expired (env_now E 0) table (c_str thumbprint, c_str jti) = None
        \<and> table' (c_str thumbprint, c_str jti) = Some (instantFromUnixSeconds L iat + sv_proofLifetime v + 60000))"

lemma dpop_consume_ok:
  assumes "dpop_consume E p lifetime t jti i table = (Inr u, table')"
  shows "i \<le> env_now E 0 + 60000" "env_now E 0 \<le> i + lifetime"
    "purge_expired (env_now E 0) table (c_str t, c_str jti) = None"
    "table' = (purge_expired (env_now E 0) table)((c_str t, c_str jti) \<mapsto> i + lifetime + 60000)"
proof -
  have window: "i \<le> env_now E 0 + 60000 \<and> env_now E 0 \<le> i + lifetime"
    and consumed: "consumeDpopReplay p t jti (i + lifetime + 60000) (env_now E 0) table = (Inr u, table')"
    using assms by (auto simp: dpop_consume_def clockSkew_def Let_def fail_msg_def split: if_splits)
  show "i \<le> env_now E 0 + 60000" "env_now E 0 \<le> i + lifetime" using window by simp_all
  show "purge_expired (env_now E 0) table (c_str t, c_str jti) = None"
    "table' = (purge_expired (env_now E 0) table)((c_str t, c_str jti) \<mapsto> i + lifetime + 60000)"
    using consume_replay_ok [OF consumed [unfolded consumeDpopReplay_def]] by simp_all
qed

lemma verifyDpop_proved:
  assumes "verifyDpop E L p v r token s = (Inr c, r', s')"
  shows "dpop_proved E L v r token (sc_value c) (ss_dpop s) (ss_dpop s')"
    and "sc_kind c = SenderConstraintKind.Dpop" "r' = req_eraseHeader ''dpop'' r"
proof -
  obtain proof_text n e payload jti iat t where steps:
    "req_header r ''dpop'' = Some proof_text" "dpop_signed L proof_text = Inr ((n, e), payload)"
    "dpop_bound v r payload = Inr (jti, iat)" "dpop_token_bound E token payload = ok"
    "rsaJwkThumbprint E (sl_jose L) n e = Inr t"
    "dpop_consume E p (sv_proofLifetime v) t jti (instantFromUnixSeconds L iat) (ss_dpop s) = (ok, ss_dpop s')"
    "c = \<lparr>sc_kind = SenderConstraintKind.Dpop, sc_value = t\<rparr>" "r' = req_eraseHeader ''dpop'' r"
    using verifyDpop_ok [OF assms] .
  obtain keyHash where hash: "sha256 E (thumbprint_input n e) = Inr keyHash" "t = toBase64Url keyHash"
    using steps(5) by (auto simp: thumbprint_ok)
  have "proof_signed L proof_text n e payload" using dpop_signed_sound [OF steps(2)] by simp
  moreover have "\<forall>secret. token = Some secret \<longrightarrow>
      (\<exists>h. sha256 E secret = Inr h \<and> map_of payload ''ath'' = Some (JString (toBase64Url h)))"
    using steps(4) by (auto simp: dpop_token_bound_iff)
  ultimately show "dpop_proved E L v r token (sc_value c) (ss_dpop s) (ss_dpop s')"
    unfolding dpop_proved_def
    using steps(1) steps(3) [unfolded dpop_bound_iff expectedHtu_def] hash dpop_consume_ok [OF steps(6)] steps(7)
    by (intro exI [of _ proof_text] exI [of _ n] exI [of _ e] exI [of _ payload] exI [of _ jti] exI [of _ iat]
        exI [of _ keyHash]) simp
  show "sc_kind c = SenderConstraintKind.Dpop" "r' = req_eraseHeader ''dpop'' r" using steps by simp_all
qed

end
