(* ===== verification/Sender_Proofs.thy ===== *)
theory Sender_Proofs
  imports Sender
begin

text \<open>
  Properties of the verifier of sender constraints: what an accepted DPoP proof or forwarded
  certificate establishes, that a proof is accepted once over any history of verifications, and that
  the verifier is one the gateway can rely on.
\<close>

section \<open>Forwarded certificates\<close>

definition mtls_proved ::
    "env \<Rightarrow> SenderProofVerifier \<Rightarrow> HttpRequest \<Rightarrow> string \<Rightarrow> replays \<Rightarrow> replays \<Rightarrow> bool" where
  "mtls_proved E v r thumbprint table table' \<longleftrightarrow>
     (\<exists>timestamp nonce signature key assertedAt mac.
        req_header r ''x-forwarded-client-cert-sha256'' = Some thumbprint \<and> safeThumbprint thumbprint
        \<and> req_header r ''x-forwarded-client-cert-timestamp'' = Some timestamp
        \<and> req_header r ''x-forwarded-client-cert-nonce'' = Some nonce
        \<and> req_header r ''x-forwarded-client-cert-signature'' = Some signature
        \<and> sv_mtlsForwardingKey v = Some key \<and> decimalInteger timestamp = Inr assertedAt
        \<and> fromBase64Url signature = Some (Inr mac)
        \<and> hmacSha256 E key (mtls_payload r thumbprint timestamp nonce) = Inr mac
        \<and> \<bar>env_now E 0 - assertedAt\<bar> \<le> 60000
        \<and> purge_expired (env_now E 0) table (c_str thumbprint, c_str nonce) = None
        \<and> table' (c_str thumbprint, c_str nonce) = Some (assertedAt + 60000))"

lemma mtls_asserted_ok:
  "mtls_asserted E key r thumbprint timestamp nonce signature = Inr assertedAt \<longleftrightarrow>
     decimalInteger timestamp = Inr assertedAt
     \<and> (\<exists>mac. fromBase64Url signature = Some (Inr mac) \<and> length mac = 32
          \<and> hmacSha256 E key (mtls_payload r thumbprint timestamp nonce) = Inr mac)
     \<and> \<bar>env_now E 0 - assertedAt\<bar> \<le> 60000"
  by (auto simp: mtls_asserted_def maximumAge_def fail_msg_def Let_def split: sum.splits option.splits if_splits)

lemma verifyMtls_ok:
  assumes "verifyMtlsForwarding E p v r s = (Inr c, r', s')"
  obtains thumbprint timestamp nonce signature key assertedAt where
    "req_header r ''x-forwarded-client-cert-sha256'' = Some thumbprint"
    "req_header r ''x-forwarded-client-cert-timestamp'' = Some timestamp"
    "req_header r ''x-forwarded-client-cert-nonce'' = Some nonce"
    "req_header r ''x-forwarded-client-cert-signature'' = Some signature"
    "sv_mtlsForwardingKey v = Some key" "safeThumbprint thumbprint"
    "mtls_asserted E key r thumbprint timestamp nonce signature = Inr assertedAt"
    "consumeMtlsForwardingReplay p thumbprint nonce (assertedAt + 60000) (env_now E 0) (ss_mtls s) = (ok, ss_mtls s')"
    "c = \<lparr>sc_kind = SenderConstraintKind.Mtls, sc_value = thumbprint\<rparr>" "r' = mtls_erase r"
    "ss_dpop s' = ss_dpop s" "nonce \<noteq> []" "length nonce \<le> 256" "signature \<noteq> []" "length signature \<le> 128"
  using assms
  by (auto simp: verifyMtlsForwarding_def fail_msg_def SenderConstraint_create_def maximumAge_def
      split: option.splits sum.splits if_splits prod.splits)

lemma verifyMtls_proved:
  assumes "verifyMtlsForwarding E p v r s = (Inr c, r', s')"
  shows "mtls_proved E v r (sc_value c) (ss_mtls s) (ss_mtls s')"
    and "sc_kind c = SenderConstraintKind.Mtls" "r' = mtls_erase r"
proof -
  obtain thumbprint timestamp nonce signature key assertedAt where steps:
    "req_header r ''x-forwarded-client-cert-sha256'' = Some thumbprint"
    "req_header r ''x-forwarded-client-cert-timestamp'' = Some timestamp"
    "req_header r ''x-forwarded-client-cert-nonce'' = Some nonce"
    "req_header r ''x-forwarded-client-cert-signature'' = Some signature"
    "sv_mtlsForwardingKey v = Some key" "safeThumbprint thumbprint"
    "mtls_asserted E key r thumbprint timestamp nonce signature = Inr assertedAt"
    "consumeMtlsForwardingReplay p thumbprint nonce (assertedAt + 60000) (env_now E 0) (ss_mtls s) = (ok, ss_mtls s')"
    "c = \<lparr>sc_kind = SenderConstraintKind.Mtls, sc_value = thumbprint\<rparr>" "r' = mtls_erase r"
    using verifyMtls_ok [OF assms] .
  obtain mac where mac: "decimalInteger timestamp = Inr assertedAt" "fromBase64Url signature = Some (Inr mac)"
    "hmacSha256 E key (mtls_payload r thumbprint timestamp nonce) = Inr mac" "\<bar>env_now E 0 - assertedAt\<bar> \<le> 60000"
    using steps(7) by (auto simp: mtls_asserted_ok)
  show "mtls_proved E v r (sc_value c) (ss_mtls s) (ss_mtls s')"
    unfolding mtls_proved_def
    using steps mac consume_replay_ok [OF steps(8) [unfolded consumeMtlsForwardingReplay_def]]
    by (intro exI [of _ timestamp] exI [of _ nonce] exI [of _ signature] exI [of _ key] exI [of _ assertedAt]
        exI [of _ mac]) simp
  show "sc_kind c = SenderConstraintKind.Mtls" "r' = mtls_erase r" using steps by simp_all
qed

text \<open>
  The text under the forwarding HMAC determines the request and the assertion: no field before the
  last can hold a newline.
\<close>

lemma decimal_no_newline: "decimalInteger t = Inr n \<Longrightarrow> newline \<notin> set t"
  by (cases t) (auto simp: decimalInteger_def read_digits_def newline_def fail_msg_def is_digit_char_def list_all_iff
      split: option.splits if_splits)

lemma safeThumbprint_no_newline: "safeThumbprint t \<Longrightarrow> newline \<notin> set t"
  by (auto simp: safeThumbprint_def newline_def list_all_iff is_upper_char_def is_lower_char_def is_digit_char_def)

lemma method_no_newline: "newline \<notin> set (httpMethodName m)"
  by (cases m) (simp_all add: newline_def)

lemma target_no_newline:
  assumes "HttpRequest_create me t hs b ra cor = Inr r"
  shows "newline \<notin> set (req_target r)"
  using assms
  by (auto simp: HttpRequest_create_def invalidTargetCharacter_def newline_def list_ex_iff fail_msg_def Let_def
      dest!: bspec [of "set t"] split: if_splits sum.splits)

lemma mtls_payload_determines:
  assumes "mtls_payload r t ts n = mtls_payload r2 t2 ts2 n2"
    and "newline \<notin> set (req_target r)" "newline \<notin> set (req_target r2)" "newline \<notin> set t" "newline \<notin> set t2"
    and "newline \<notin> set ts" "newline \<notin> set ts2"
  shows "req_method r = req_method r2 \<and> req_target r = req_target r2 \<and> t = t2 \<and> ts = ts2 \<and> n = n2"
proof -
  have cut: "a @ newline # u = b @ newline # w \<Longrightarrow> newline \<notin> set a \<Longrightarrow> newline \<notin> set b \<Longrightarrow> a = b \<and> u = w" for a b u w
    using append_cut by metis
  have "httpMethodName (req_method r) = httpMethodName (req_method r2)
      \<and> req_target r @ newline # t @ newline # ts @ newline # n = req_target r2 @ newline # t2 @ newline # ts2 @ newline # n2"
    by (rule cut) (use assms(1) in \<open>simp_all add: mtls_payload_def method_no_newline\<close>)
  then have 1: "req_method r = req_method r2" "req_target r @ newline # t @ newline # ts @ newline # n
      = req_target r2 @ newline # t2 @ newline # ts2 @ newline # n2"
    using httpMethodName_inj by blast+
  from cut [OF 1(2) assms(2,3)] have 2: "req_target r = req_target r2"
    "t @ newline # ts @ newline # n = t2 @ newline # ts2 @ newline # n2" by simp_all
  from cut [OF 2(2) assms(4,5)] have 3: "t = t2" "ts @ newline # n = ts2 @ newline # n2" by simp_all
  from cut [OF 3(2) assms(6,7)] 1 2 3 show ?thesis by simp
qed

section \<open>Histories of verifications\<close>

text \<open>One call of the verifier, with the clock, the server and the request it meets.\<close>

datatype sender_event =
    TokenEndpoint env pg HttpRequest
  | TokenConstraint env pg HttpRequest SenderConstraint string bool
  | GatewayConstraint env pg HttpRequest DelegatedSenderConstraint string bool

fun event_time :: "sender_event \<Rightarrow> Instant" where
  "event_time (TokenEndpoint E p r) = env_now E 0"
| "event_time (TokenConstraint E p r c t b) = env_now E 0"
| "event_time (GatewayConstraint E p r c t b) = env_now E 0"

fun apply_event :: "'k sender_library \<Rightarrow> SenderProofVerifier \<Rightarrow> sender_event \<Rightarrow> sender_state \<Rightarrow> sender_state" where
  "apply_event L v (TokenEndpoint E p r) s = snd (snd (tokenEndpointConstraint E L p v r s))"
| "apply_event L v (TokenConstraint E p r c t b) s = snd (snd (verifyTokenConstraint E L p v r c t b s))"
| "apply_event L v (GatewayConstraint E p r c t b) s = snd (snd (sender_verify E L p v r c t b s))"

definition after :: "'k sender_library \<Rightarrow> SenderProofVerifier \<Rightarrow> sender_event list \<Rightarrow> sender_state \<Rightarrow> sender_state" where
  "after L v events s = fold (apply_event L v) events s"

text \<open>Every call changes each table by at most one consumption at its own time.\<close>

definition consumes :: "Instant \<Rightarrow> replays \<Rightarrow> replays \<Rightarrow> bool" where
  "consumes now t t' \<longleftrightarrow> (\<exists>cs. t' = consume_all cs t \<and> (\<forall>c \<in> set cs. cn_now c = now))"

lemma consumes_refl [simp]: "consumes now t t"
  unfolding consumes_def by (rule exI [of _ "[]"]) (simp add: consume_all_def)

lemma consumes_one: "consume_replay p a b c k x now t = (r, t') \<Longrightarrow> consumes now t t'"
  unfolding consumes_def
  by (rule exI [of _ "[\<lparr>cn_pg = p, cn_texts = (a, b, c), cn_key = k, cn_expiresAt = x, cn_now = now\<rparr>]"])
    (simp add: consume_all_def consumed_def)

lemma dpop_consumes: "dpop_consume E p lifetime t jti i table = (r, table') \<Longrightarrow> consumes (env_now E 0) table table'"
  by (auto simp: dpop_consume_def consumeDpopReplay_def Let_def intro: consumes_one split: if_splits)

definition tables_step :: "Instant \<Rightarrow> sender_state \<Rightarrow> sender_state \<Rightarrow> bool" where
  "tables_step now s s' \<longleftrightarrow> consumes now (ss_dpop s) (ss_dpop s') \<and> consumes now (ss_mtls s) (ss_mtls s')"

lemma tables_step_refl [simp]: "tables_step now s s"
  by (simp add: tables_step_def)

lemma verifyDpop_step: "tables_step (env_now E 0) s (snd (snd (verifyDpop E L p v r token s)))"
proof -
  have "consumes (env_now E 0) (ss_dpop s) table"
    if "dpop_consume E p lifetime t jti i (ss_dpop s) = (res, table)" for lifetime t jti i res table
    using dpop_consumes [OF that] .
  then show ?thesis
    by (auto simp: verifyDpop_def tables_step_def split: option.splits sum.splits prod.splits)
qed

lemma verifyMtls_step: "tables_step (env_now E 0) s (snd (snd (verifyMtlsForwarding E p v r s)))"
proof -
  have "consumes (env_now E 0) (ss_mtls s) table"
    if "consumeMtlsForwardingReplay p t n x (env_now E 0) (ss_mtls s) = (res, table)" for t n x res table
    using that unfolding consumeMtlsForwardingReplay_def by (rule consumes_one)
  then show ?thesis
    by (auto simp: verifyMtlsForwarding_def tables_step_def split: option.splits sum.splits prod.splits)
qed

lemma check_binding_step: "tables_step (env_now E 0) s (snd (snd (check_binding E L p v r c t b s)))"
  using verifyDpop_step [of E s L p v r "Some t"] verifyMtls_step [of E s p v r]
  by (auto simp: check_binding_def split: sum.splits prod.splits)

lemma apply_event_step: "tables_step (event_time ev) s (apply_event L v ev s)"
proof (cases ev)
  case (TokenEndpoint E p r)
  then show ?thesis
    using verifyDpop_step [of E s L p v r None] verifyMtls_step [of E s p v r]
    by (auto simp: tokenEndpointConstraint_def Let_def split: sum.splits prod.splits)
qed (simp_all add: verifyTokenConstraint_def sender_verify_def check_binding_step)

lemma consume_all_append: "consume_all ds (consume_all cs t) = consume_all (cs @ ds) t"
  by (simp add: consume_all_def)

lemma after_tables:
  assumes "\<forall>ev \<in> set events. event_time ev \<le> later"
  shows "(\<exists>cs. ss_dpop (after L v events s) = consume_all cs (ss_dpop s) \<and> (\<forall>c \<in> set cs. cn_now c \<le> later))
    \<and> (\<exists>cs. ss_mtls (after L v events s) = consume_all cs (ss_mtls s) \<and> (\<forall>c \<in> set cs. cn_now c \<le> later))"
  using assms
proof (induction events arbitrary: s)
  case Nil
  have "consume_all [] t = t" for t by (simp add: consume_all_def)
  then show ?case by (metis after_def empty_iff fold_simps(1) list.set(1))
next
  case (Cons ev events)
  let ?s = "apply_event L v ev s"
  obtain cs ds where step: "ss_dpop ?s = consume_all cs (ss_dpop s)" "\<forall>c \<in> set cs. cn_now c \<le> later"
    "ss_mtls ?s = consume_all ds (ss_mtls s)" "\<forall>c \<in> set ds. cn_now c \<le> later"
    using apply_event_step [of ev s L v] Cons.prems unfolding tables_step_def consumes_def by fastforce
  obtain cs' ds' where rest: "ss_dpop (after L v events ?s) = consume_all cs' (ss_dpop ?s)" "\<forall>c \<in> set cs'. cn_now c \<le> later"
    "ss_mtls (after L v events ?s) = consume_all ds' (ss_mtls ?s)" "\<forall>c \<in> set ds'. cn_now c \<le> later"
    using Cons.IH [of ?s] Cons.prems by auto
  have "after L v (ev # events) s = after L v events ?s" by (simp add: after_def)
  then have "ss_dpop (after L v (ev # events) s) = consume_all (cs @ cs') (ss_dpop s)"
    "ss_mtls (after L v (ev # events) s) = consume_all (ds @ ds') (ss_mtls s)"
    using step rest by (simp_all add: consume_all_append)
  moreover have "\<forall>c \<in> set (cs @ cs'). cn_now c \<le> later" "\<forall>c \<in> set (ds @ ds'). cn_now c \<le> later"
    using step rest by auto
  ultimately show ?case by blast
qed

lemma sha256_fun: "env_SHA256 E' = env_SHA256 E \<Longrightarrow> sha256 E' = sha256 E"
  by (simp add: sha256_def fun_eq_iff)

lemma thumbprint_fun:
  assumes "env_SHA256 E' = env_SHA256 E"
  shows "rsaJwkThumbprint E' L n e = rsaJwkThumbprint E L n e"
  unfolding rsaJwkThumbprint_def sha256_fun [OF assms] ..

text \<open>
  C12. A DPoP proof is accepted at most once. When the verifier has accepted a proof and any history
  of further verifications follows, at the token endpoint, at protocol endpoints and in the gateway,
  whatever their requests and whichever database statements fail in them, the same proof text on any
  request is refused, as long as no clock reading of that history is later than the one of the
  replay. The proof is remembered for as long as it could still be accepted.
\<close>

theorem dpop_single_use:
  assumes "verifyDpop E L p v r token s = (Inr c, r', s')"
    and "\<forall>ev \<in> set events. event_time ev \<le> env_now E' 0"
    and "req_header again ''dpop'' = req_header r ''dpop''" "env_SHA256 E' = env_SHA256 E"
  shows "\<exists>e. fst (verifyDpop E' L q v again token' (after L v events s')) = Inl e"
proof (rule ccontr)
  assume "\<nexists>e. fst (verifyDpop E' L q v again token' (after L v events s')) = Inl e"
  then obtain c2 r2 s2 where second: "verifyDpop E' L q v again token' (after L v events s') = (Inr c2, r2, s2)"
    by (metis prod.collapse sum.exhaust)
  obtain proof_text n e payload jti iat t where first:
    "req_header r ''dpop'' = Some proof_text" "dpop_signed L proof_text = Inr ((n, e), payload)"
    "dpop_bound v r payload = Inr (jti, iat)" "rsaJwkThumbprint E (sl_jose L) n e = Inr t"
    "dpop_consume E p (sv_proofLifetime v) t jti (instantFromUnixSeconds L iat) (ss_dpop s) = (ok, ss_dpop s')"
    using verifyDpop_ok [OF assms(1)] .
  obtain proof2 n2 e2 payload2 jti2 iat2 t2 where again:
    "req_header again ''dpop'' = Some proof2" "dpop_signed L proof2 = Inr ((n2, e2), payload2)"
    "dpop_bound v again payload2 = Inr (jti2, iat2)" "rsaJwkThumbprint E' (sl_jose L) n2 e2 = Inr t2"
    "dpop_consume E' q (sv_proofLifetime v) t2 jti2 (instantFromUnixSeconds L iat2) (ss_dpop (after L v events s'))
      = (ok, ss_dpop s2)"
    using verifyDpop_ok [OF second] .
  have "n2 = n" "e2 = e" "payload2 = payload" using first again assms(3) by simp_all
  moreover from this have "jti2 = jti" "iat2 = iat" using first(3) again(3) by (simp_all add: dpop_bound_iff)
  ultimately have same: "t2 = t" "jti2 = jti" "iat2 = iat"
    using first(4) again(4) thumbprint_fun [OF assms(4), of "sl_jose L" n e] by simp_all
  obtain cs where "ss_dpop (after L v events s') = consume_all cs (ss_dpop s')" "\<forall>c \<in> set cs. cn_now c \<le> env_now E' 0"
    using after_tables [OF assms(2)] by blast
  with dpop_used_once [OF first(5), of cs E' q] again(5) same show False by simp
qed

text \<open>A fresh proof that passes every check is accepted, and bound to the thumbprint of its key.\<close>

lemma base64_printable: "\<not> list_ex (\<lambda>c. (of_char c :: nat) \<le> 0x20 \<or> of_char c = (0x7F :: nat)) (toBase64Url bs)"
proof -
  have "\<forall>c \<in> set kBase64UrlAlphabet. \<not> ((of_char c :: nat) \<le> 0x20 \<or> of_char c = (0x7F :: nat))" by code_simp
  with toBase64Url_symbols [of bs] show ?thesis by (auto simp: list_ex_iff)
qed

lemma constraint_of_digest:
  assumes "length h = 32"
  shows "SenderConstraint_create kind (toBase64Url h) = Inr \<lparr>sc_kind = kind, sc_value = toBase64Url h\<rparr>"
  using length_toBase64Url_32 [OF assms] base64_printable [of h] by (auto simp: SenderConstraint_create_def)

lemma verifyDpop_accepts:
  assumes "req_header r ''dpop'' = Some proof_text" "proof_text \<noteq> []" "length proof_text \<le> 16 * 1024"
    and "dpop_signed L proof_text = Inr ((n, e), payload)" "dpop_bound v r payload = Inr (jti, iat)"
    and "dpop_token_bound E token payload = ok" "rsaPublicKeyFromJwk (sl_jose L) n e = Inr key"
    and hash: "sha256 E (thumbprint_input n e) = Inr h"
    and window: "0 < sv_proofLifetime v" "sv_proofLifetime v \<le> 600000" "jti \<noteq> []" "length jti \<le> 256"
      "instantFromUnixSeconds L iat \<le> env_now E 0 + 60000" "env_now E 0 \<le> instantFromUnixSeconds L iat + sv_proofLifetime v"
    and server: "pg_acquire p = None" "pg_fault p = (\<lambda>_. None)"
    and fresh: "ss_dpop s (c_str (toBase64Url h), c_str jti) = None"
  shows "\<exists>table. verifyDpop E L p v r token s =
    (Inr \<lparr>sc_kind = SenderConstraintKind.Dpop, sc_value = toBase64Url h\<rparr>, req_eraseHeader ''dpop'' r, s\<lparr>ss_dpop := table\<rparr>)"
proof -
  let ?t = "toBase64Url h"
  have size: "length h = 32" using sha256_length [OF hash] .
  then have token_size: "length ?t = 43" "?t \<noteq> []" using length_toBase64Url_32 [OF size] by auto
  have "rsaJwkThumbprint E (sl_jose L) n e = Inr ?t" using assms(7) hash by (auto simp: thumbprint_ok)
  moreover have "purge_expired (env_now E 0) (ss_dpop s) (c_str ?t, c_str jti) = None"
    using fresh by (simp add: purge_expired_def)
  then obtain table where "dpop_consume E p (sv_proofLifetime v) ?t jti (instantFromUnixSeconds L iat) (ss_dpop s) = (ok, table)"
    using window server token_size
    by (auto simp: dpop_consume_def consumeDpopReplay_def consume_replay_works clockSkew_def Let_def)
  ultimately show ?thesis
    using assms(1-6) constraint_of_digest [OF size, of SenderConstraintKind.Dpop]
    by (intro exI [of _ table]) (simp add: verifyDpop_def)
qed

section \<open>A sample proof\<close>

text \<open>
  A client with the sample key signs a proof for \<^verbatim>\<open>GET https://a/x\<close>, issued at the epoch,
  under the token \<^verbatim>\<open>tok\<close>.
\<close>

definition sample_n :: string where "sample_n = toBase64Url [1, 1, 1, 1]"
definition sample_e :: string where "sample_e = toBase64Url [1, 0, 1]"

definition sample_header :: json_object where
  "sample_header = [(''alg'', JString ''RS256''), (''typ'', JString ''dpop+jwt''),
     (''jwk'', JObject [(''kty'', JString ''RSA''), (''n'', JString sample_n), (''e'', JString sample_e)])]"

definition sample_payload :: json_object where
  "sample_payload = [(''jti'', JString ''j''), (''htm'', JString ''GET''), (''htu'', JString ''https://a/x''),
     (''iat'', JInt64 0), (''ath'', JString (toBase64Url (replicate 32 3)))]"

definition sample_sender :: "nat sender_library" where
  "sample_sender = \<lparr>sl_jose = sample_jose,
     sl_parse = \<lambda>t. if t = as_text [1] then Some (JObject sample_header)
                  else if t = as_text [2] then Some (JObject sample_payload) else None,
     sl_overflow = \<lambda>_. 0\<rparr>"

definition sample_proof :: string where
  "sample_proof = toBase64Url [1] @ ''.'' @ toBase64Url [2] @ ''.'' @ toBase64Url [7, 5]"

definition sample_verifier :: SenderProofVerifier where
  "sample_verifier = \<lparr>sv_proofLifetime = 300000, sv_publicOrigin = ''https://a'', sv_mtlsForwardingKey = None\<rparr>"

definition sample_dpop_request :: HttpRequest where
  "sample_dpop_request = \<lparr>req_method = Get, req_target = ''/x'', req_path = ''/x'',
     req_headers = [(''dpop'', sample_proof)], req_body = [], req_remoteAddress = ''10.0.0.1'',
     req_correlation = StrongId ''c1''\<rparr>"

definition sample_pg :: pg where
  "sample_pg = \<lparr>pg_acquire = None, pg_fault = \<lambda>_. None, pg_durable = False\<rparr>"

definition no_replays :: sender_state where
  "no_replays = \<lparr>ss_dpop = \<lambda>_. None, ss_mtls = \<lambda>_. None\<rparr>"

lemma sample_jwk: "rsaPublicKeyFromJwk sample_jose sample_n sample_e = Inr 7"
  unfolding rsaPublicKeyFromJwk_def sample_n_def sample_e_def fromBase64Url_toBase64Url
  by (simp add: sample_jose_def del: toBase64Url.simps)

lemma sample_rsaJwk: "rsaJwk sample_header = Inr (sample_n, sample_e)"
  by (simp add: rsaJwk_def sample_header_def stringClaim_def joseProtectedHeaderUsesSupportedExtensions_def)

lemma sample_proof_size: "sample_proof \<noteq> []" "length sample_proof \<le> 16 * 1024"
  by (simp_all add: sample_proof_def length_toBase64Url)

lemma sample_verified:
  "verifyRs256WithKey sample_jose 7 sample_proof = Inr \<lparr>jws_headerJson = as_text [1], jws_payloadJson = as_text [2]\<rparr>"
proof -
  have "compact_parts sample_proof = Some (toBase64Url [1], toBase64Url [2], toBase64Url [7, 5])"
    by (simp add: compact_parts_eq sample_proof_def dot_not_base64 length_toBase64Url_pos
        del: toBase64Url.simps)
  moreover have "decoded_parts (toBase64Url [1], toBase64Url [2], toBase64Url [7, 5]) = Some ([1], [2], [7, 5])"
    by (simp only: decoded_parts_def fromBase64Url_toBase64Url prod.case option.case sum.case) simp
  moreover have "length (toBase64Url [1] @ ''.'' @ toBase64Url [2]) = 5"
    by (simp only: length_append length_toBase64Url) simp
  then have "jl_verify sample_jose 7 (toBase64Url [1] @ ''.'' @ toBase64Url [2]) [7, 5]"
    by (simp only: sample_jose_def jose_library.simps) simp
  ultimately show ?thesis
    using sample_proof_size
    by (simp add: verifyRs256WithKey_def check_signature_def del: toBase64Url.simps)
qed

lemma sample_signed: "dpop_signed sample_sender sample_proof = Inr ((sample_n, sample_e), sample_payload)"
proof -
  have dot: "CHR ''.'' \<notin> set (toBase64Url [1])" by (rule dot_not_base64)
  have split: "sample_proof = toBase64Url [1] @ CHR ''.'' # (toBase64Url [2] @ ''.'' @ toBase64Url [7, 5])"
    by (simp only: sample_proof_def append_Cons append_Nil)
  have head: "takeWhile (\<lambda>c. c \<noteq> CHR ''.'') sample_proof = toBase64Url [1]"
    using dot by (subst split) (subst takeWhile_append2; auto)
  have "unverifiedProtectedHeader sample_sender sample_proof = Inr sample_header"
    unfolding unverifiedProtectedHeader_def head
    by (simp only: Let_def fromBase64Url_toBase64Url option.case sum.case)
      (simp add: split length_toBase64Url parseJsonObject_def sample_sender_def length_toBase64Url_pos
        del: toBase64Url.simps)
  moreover have "as_text [1] \<noteq> as_text [2]" by (simp add: as_text_def)
  ultimately show ?thesis
    by (simp add: dpop_signed_def sample_rsaJwk verifyRs256Jwk_def sample_sender_def sample_jwk sample_verified
        parseJsonObject_def)
qed

lemma sample_accepted:
  "\<exists>table. verifyDpop sample_env sample_sender sample_pg sample_verifier sample_dpop_request (Some ''tok'') no_replays =
    (Inr \<lparr>sc_kind = SenderConstraintKind.Dpop, sc_value = toBase64Url (replicate 32 3)\<rparr>,
     req_eraseHeader ''dpop'' sample_dpop_request, no_replays\<lparr>ss_dpop := table\<rparr>)"
proof (rule verifyDpop_accepts)
  show "req_header sample_dpop_request ''dpop'' = Some sample_proof"
    by (simp add: req_header_def sample_dpop_request_def lowercase_def lower_char_def is_upper_char_def)
  show "dpop_bound sample_verifier sample_dpop_request sample_payload = Inr (''j'', 0)"
    by (simp add: dpop_bound_iff sample_payload_def sample_dpop_request_def expectedHtu_def sample_verifier_def)
  show "dpop_token_bound sample_env (Some ''tok'') sample_payload = ok"
    by (simp add: dpop_token_bound_iff sample_payload_def sha256_def sample_env_def)
  show "sha256 sample_env (thumbprint_input sample_n sample_e) = Inr (replicate 32 3)"
    by (simp add: sha256_def sample_env_def)
  show "rsaPublicKeyFromJwk (sl_jose sample_sender) sample_n sample_e = Inr 7"
    by (simp add: sample_sender_def sample_jwk)
qed (simp_all add: sample_proof_size [simplified] sample_signed sample_verifier_def instantFromUnixSeconds_def fits_int64_def
    sample_pg_def no_replays_def)

theorem dpop_single_use_witness:
  "\<exists>table e. ss_dpop (snd (snd (verifyDpop sample_env sample_sender sample_pg sample_verifier sample_dpop_request
          (Some ''tok'') no_replays))) = table
     \<and> fst (verifyDpop sample_env sample_sender sample_pg sample_verifier sample_dpop_request (Some ''tok'')
          (no_replays\<lparr>ss_dpop := table\<rparr>)) = Inl e"
proof -
  obtain table where accepted: "verifyDpop sample_env sample_sender sample_pg sample_verifier sample_dpop_request
      (Some ''tok'') no_replays = (Inr \<lparr>sc_kind = SenderConstraintKind.Dpop, sc_value = toBase64Url (replicate 32 3)\<rparr>,
     req_eraseHeader ''dpop'' sample_dpop_request, no_replays\<lparr>ss_dpop := table\<rparr>)"
    using sample_accepted by blast
  have "after sample_sender sample_verifier [] s = s" for s by (simp add: after_def)
  with dpop_single_use [OF accepted, of "[]" sample_env sample_dpop_request sample_pg "Some ''tok''"]
  show ?thesis using accepted by auto
qed

section \<open>Forwarded certificates, used once\<close>

text \<open>
  The window of a forwarding assertion is closed, the lifetime of its row half-open: a repetition is
  refused at every instant but the last of the window.
\<close>

lemma mtls_used_once:
  assumes "verifyMtlsForwarding E p v r s = (Inr c, r', s')"
    and "\<forall>ev \<in> set events. event_time ev \<le> env_now E' 0"
    and "\<forall>name \<in> set mtls_headers. req_header again name = req_header r name"
    and "\<And>timestamp assertedAt. req_header r ''x-forwarded-client-cert-timestamp'' = Some timestamp \<Longrightarrow>
           decimalInteger timestamp = Inr assertedAt \<Longrightarrow> env_now E' 0 < assertedAt + 60000"
  shows "\<exists>e. fst (verifyMtlsForwarding E' q v again (after L v events s')) = Inl e"
proof (rule ccontr)
  assume "\<nexists>e. fst (verifyMtlsForwarding E' q v again (after L v events s')) = Inl e"
  then obtain c2 r2 s2 where second: "verifyMtlsForwarding E' q v again (after L v events s') = (Inr c2, r2, s2)"
    by (metis prod.collapse sum.exhaust)
  obtain t ts n sg k a where first: "req_header r ''x-forwarded-client-cert-sha256'' = Some t"
    "req_header r ''x-forwarded-client-cert-timestamp'' = Some ts"
    "req_header r ''x-forwarded-client-cert-nonce'' = Some n" "mtls_asserted E k r t ts n sg = Inr a"
    "consumeMtlsForwardingReplay p t n (a + 60000) (env_now E 0) (ss_mtls s) = (ok, ss_mtls s')"
    using verifyMtls_ok [OF assms(1)] by metis
  obtain t2 ts2 n2 sg2 k2 a2 where again: "req_header again ''x-forwarded-client-cert-sha256'' = Some t2"
    "req_header again ''x-forwarded-client-cert-timestamp'' = Some ts2"
    "req_header again ''x-forwarded-client-cert-nonce'' = Some n2" "mtls_asserted E' k2 again t2 ts2 n2 sg2 = Inr a2"
    "consumeMtlsForwardingReplay q t2 n2 (a2 + 60000) (env_now E' 0) (ss_mtls (after L v events s')) = (ok, ss_mtls s2)"
    using verifyMtls_ok [OF second] by metis
  have same: "t2 = t" "n2 = n" using first again assms(3) by (simp_all add: mtls_headers_def)
  have live: "env_now E' 0 < a + 60000" using assms(4) first(2,4) by (simp add: mtls_asserted_ok)
  let ?k = "(c_str t, c_str n)"
  have "ss_mtls s' ?k = Some (a + 60000)"
    using consume_replay_ok(2) [OF first(5) [unfolded consumeMtlsForwardingReplay_def]] by simp
  moreover obtain cs where cs: "ss_mtls (after L v events s') = consume_all cs (ss_mtls s')"
    "\<forall>c \<in> set cs. cn_now c \<le> env_now E' 0"
    using after_tables [OF assms(2)] by blast
  moreover have "\<forall>c \<in> set cs. cn_now c < a + 60000" using cs(2) live by fastforce
  ultimately have "ss_mtls (after L v events s') ?k = Some (a + 60000)" by (simp add: consume_all_keeps)
  with live consume_replay_ok(1) [OF again(5) [unfolded consumeMtlsForwardingReplay_def]] same
  show False by (simp add: purge_expired_def)
qed

text \<open>
  At the last instant of its window, when the assertion is exactly 60 seconds old, an accepted
  assertion is accepted again: the row that records it expires at that instant and is purged before
  the insert.
\<close>

lemma mtls_replay_at_boundary:
  assumes "verifyMtlsForwarding E p v r s = (Inr c, r', s')"
    and "req_header r ''x-forwarded-client-cert-timestamp'' = Some timestamp"
    and "decimalInteger timestamp = Inr (env_now E 0 - 60000)"
    and "pg_acquire q = None" "pg_fault q = (\<lambda>_. None)"
  shows "fst (verifyMtlsForwarding E q v r s') = Inr c"
proof -
  obtain t ts n sg k a where first: "req_header r ''x-forwarded-client-cert-sha256'' = Some t"
    "req_header r ''x-forwarded-client-cert-timestamp'' = Some ts"
    "req_header r ''x-forwarded-client-cert-nonce'' = Some n" "req_header r ''x-forwarded-client-cert-signature'' = Some sg"
    "sv_mtlsForwardingKey v = Some k" "safeThumbprint t" "mtls_asserted E k r t ts n sg = Inr a"
    "consumeMtlsForwardingReplay p t n (a + 60000) (env_now E 0) (ss_mtls s) = (ok, ss_mtls s')"
    "c = \<lparr>sc_kind = SenderConstraintKind.Mtls, sc_value = t\<rparr>"
    "n \<noteq> []" "length n \<le> 256" "sg \<noteq> []" "length sg \<le> 128"
    using verifyMtls_ok [OF assms(1)] by metis
  have a: "a + 60000 = env_now E 0" using first(2,7) assms(2,3) by (simp add: mtls_asserted_ok)
  let ?k = "(c_str t, c_str n)"
  have "ss_mtls s' ?k = Some (a + 60000)"
    using consume_replay_ok(2) [OF first(8) [unfolded consumeMtlsForwardingReplay_def]] by simp
  then have "purge_expired (env_now E 0) (ss_mtls s') ?k = None" using a by (simp add: purge_expired_def)
  then have again: "\<exists>table. consumeMtlsForwardingReplay q t n (a + 60000) (env_now E 0) (ss_mtls s') = (ok, table)"
    using assms(4,5) by (simp add: consumeMtlsForwardingReplay_def consume_replay_works)
  have "SenderConstraint_create SenderConstraintKind.Mtls t = Inr c"
    using assms(1) first by (auto simp: verifyMtlsForwarding_def maximumAge_def)
  with first again show ?thesis by (auto simp: verifyMtlsForwarding_def maximumAge_def)
qed

section \<open>The verifier in the gateway\<close>

text \<open>The verifier as the gateway calls it, in one state of the replay tables.\<close>

definition gateway_verifier ::
    "env \<Rightarrow> 'k sender_library \<Rightarrow> pg \<Rightarrow> SenderProofVerifier \<Rightarrow> sender_state
     \<Rightarrow> HttpRequest \<Rightarrow> DelegatedSenderConstraint \<Rightarrow> string \<Rightarrow> bool \<Rightarrow> Status \<times> HttpRequest" where
  "gateway_verifier E L p v s request constraint token dpop =
     (case sender_verify E L p v request constraint token dpop s of (result, request', _) \<Rightarrow> (result, request'))"

lemma verifyDpop_narrows: "headers_ok r \<Longrightarrow> narrows r (fst (snd (verifyDpop E L p v r token s)))"
  by (auto simp: verifyDpop_def narrows_erase split: option.splits sum.splits prod.splits)

lemma verifyMtls_narrows: "headers_ok r \<Longrightarrow> narrows r (fst (snd (verifyMtlsForwarding E p v r s)))"
  by (auto simp: verifyMtlsForwarding_def mtls_erase_def narrows_erase_all split: option.splits sum.splits prod.splits)

lemma sender_verify_narrows:
  assumes "headers_ok r"
  shows "narrows r (fst (snd (sender_verify E L p v r c t b s)))"
  using verifyDpop_narrows [OF assms, of E L p v "Some t" s] verifyMtls_narrows [OF assms, of E p v s] assms
  by (auto simp: sender_verify_def check_binding_def split: sum.splits prod.splits)

lemma sender_verify_ok:
  assumes "sender_verify E L p v r c t b s = (ok, r', s')"
  shows "(constraint_kind c = DelegatedSenderConstraintKind.Dpop \<and> b
            \<and> dpop_proved E L v r (Some t) (constraint_value c) (ss_dpop s) (ss_dpop s') \<and> r' = req_eraseHeader ''dpop'' r)
       \<or> (constraint_kind c = DelegatedSenderConstraintKind.Mtls \<and> \<not> b
            \<and> mtls_proved E v r (constraint_value c) (ss_mtls s) (ss_mtls s') \<and> r' = mtls_erase r)"
proof (cases "constraint_kind c")
  case Dpop
  with assms obtain d where d: "verifyDpop E L p v r (Some t) s = (Inr d, r', s')" "sc_value d = constraint_value c" "b"
    by (auto simp: sender_verify_def check_binding_def fail_msg_def split: if_splits sum.splits prod.splits)
  with verifyDpop_proved [OF d(1)] Dpop show ?thesis by simp
next
  case Mtls
  with assms obtain d where d: "verifyMtlsForwarding E p v r s = (Inr d, r', s')" "sc_value d = constraint_value c" "\<not> b"
    by (auto simp: sender_verify_def check_binding_def fail_msg_def split: if_splits sum.splits prod.splits)
  with verifyMtls_proved [OF d(1)] Mtls show ?thesis by simp
qed



end
