(* ===== verification/Oidc.thy ===== *)
theory Oidc
  imports Jose Profile Token
begin

text \<open>
  The OpenID Provider (\<^verbatim>\<open>src/src/oidc/service.cpp\<close>): the issuer and its policy, the discovery
  and key documents, ID tokens, signed authorization responses and the UserInfo document. Its
  documents are texts the source concatenates; a reference reader of the JSON they use says what a
  relying party finds in them.
\<close>

section \<open>The issuer\<close>

definition oidc_validPort :: "string \<Rightarrow> bool" where
  "oidc_validPort v =
     (if v = [] \<or> length v > 5 then False
      else case read_digits v of None \<Rightarrow> False | Some port \<Rightarrow> port > 0 \<and> port \<le> 65535)"

definition validIssuerAuthority :: "string \<Rightarrow> string \<Rightarrow> bool \<Rightarrow> bool" where
  "validIssuerAuthority v scheme loopbackOnly =
     (if \<not> starts_with v scheme then False
      else let authority = takeWhile (\<lambda>c. c \<noteq> CHR ''/'') (drop (length scheme) v)
           in if authority = [] \<or> CHR ''@'' \<in> set authority then False
              else let host =
                (if hd authority = CHR ''['' then
                   (case find_char CHR '']'' authority of
                      None \<Rightarrow> None
                    | Some close \<Rightarrow>
                        (let host = take (close + 1) authority
                         in if close + 1 < length authority
                            then if authority ! (close + 1) \<noteq> CHR '':'' then None
                                 else if \<not> oidc_validPort (drop (close + 2) authority) then None
                                 else Some host
                            else Some host))
                 else
                   (case rfind_char CHR '':'' authority of
                      None \<Rightarrow> Some authority
                    | Some colon \<Rightarrow>
                        (let host = take colon authority; port = drop (colon + 1) authority
                         in if host = [] \<or> CHR '':'' \<in> set host \<or> \<not> oidc_validPort port then None
                            else Some host)))
              in (case host of
                    None \<Rightarrow> False
                  | Some h \<Rightarrow> if h = [] then False
                              else if \<not> loopbackOnly then True
                              else h = ''127.0.0.1'' \<or> h = ''localhost'' \<or> h = ''[::1]''))"

definition validIssuerUri :: "string \<Rightarrow> bool" where
  "validIssuerUri v = (validIssuerAuthority v ''https://'' False \<or> validIssuerAuthority v ''http://'' True)"

type_synonym Issuer = string

definition Issuer_create :: "string \<Rightarrow> Issuer Result" where
  "Issuer_create v =
     (if v = [] \<or> length v > 512 \<or> last v = CHR ''/'' \<or> CHR ''#'' \<in> set v \<or> CHR ''?'' \<in> set v
         \<or> \<not> validIssuerUri v
         \<or> list_ex (\<lambda>symbol. (of_char symbol :: nat) \<le> 0x20 \<or> of_char symbol = (0x7F :: nat) \<or> symbol = backslash) v
      then fail_msg InvalidArgument ''The OpenID Provider issuer is invalid.''
      else Inr v)"

type_synonym OidcPolicy = Duration

definition OidcPolicy_create :: "Duration \<Rightarrow> OidcPolicy Result" where
  "OidcPolicy_create lifetime =
     (if lifetime \<le> 0 \<or> lifetime > 3600000
      then fail_msg InvalidArgument ''The ID Token lifetime is invalid.''
      else Inr lifetime)"

section \<open>The provider\<close>

record 'k OpenIdProvider =
  op_issuer :: Issuer
  op_signer :: "'k jwt_signer"
  op_publishedVerificationJwks :: "string list"
  op_policy :: OidcPolicy

definition PublishedVerificationJwk_create :: "'k jose_library \<Rightarrow> string \<Rightarrow> string \<Rightarrow> string Result option" where
  "PublishedVerificationJwk_create L publicKeyPem keyId = rsaPublicJwkJson L publicKeyPem keyId"

definition json_q :: "string \<Rightarrow> string" where
  "json_q v = [quote] @ escapeJsonString v @ [quote]"

text \<open>\<^verbatim>\<open>duration_cast\<close> to seconds truncates towards zero.\<close>

definition unix_seconds :: "Instant \<Rightarrow> int" where
  "unix_seconds i = (if i \<ge> 0 then i div 1000 else - ((- i) div 1000))"

text \<open>The quoted name of a member, as the literals of the source have it.\<close>

definition key_text :: "string \<Rightarrow> string" where
  "key_text name = [quote] @ name @ [quote] @ '':''"

definition amr_values :: "AuthenticationStrength \<Rightarrow> string list" where
  "amr_values strength =
     (let factors = strength_factors strength in
      (if containsFactor factors Factor_Knowledge then [''pwd''] else [])
      @ (if containsFactor factors Factor_Possession then [''otp''] else [])
      @ (if containsFactor factors Factor_Inherence then [''bio''] else [])
      @ (if strength_phishingResistant strength then [''phr''] else []))"

fun append_texts :: "bool \<Rightarrow> string list \<Rightarrow> string" where
  "append_texts comma [] = []"
| "append_texts comma (v # vs) = (if comma then '','' else []) @ json_q v @ append_texts True vs"

definition amrJson :: "AuthorizationCode \<Rightarrow> string" where
  "amrJson authorization = ''['' @ append_texts False (amr_values (code_strength authorization)) @ '']''"

definition joinUrl :: "string \<Rightarrow> string \<Rightarrow> string" where
  "joinUrl issuer path = issuer @ path"

text \<open>The fixed lists of the discovery document: name and values.\<close>

definition endpoints :: "(string \<times> string) list" where
  "endpoints =
     [(''authorization_endpoint'', ''/oauth/authorize''), (''token_endpoint'', ''/oauth/token''),
      (''pushed_authorization_request_endpoint'', ''/oauth/par''),
      (''device_authorization_endpoint'', ''/oauth/device_authorization''),
      (''userinfo_endpoint'', ''/oauth/userinfo''), (''revocation_endpoint'', ''/oauth/revoke''),
      (''introspection_endpoint'', ''/oauth/introspect''), (''jwks_uri'', ''/.well-known/jwks.json'')]"

definition strings_literal :: "string \<Rightarrow> string list \<Rightarrow> string" where
  "strings_literal name values_list =
     '','' @ key_text name @ ''['' @ append_texts False values_list @ '']''"

definition flag_literal :: "string \<Rightarrow> bool \<Rightarrow> string" where
  "flag_literal name b = '','' @ key_text name @ (if b then ''true'' else ''false'')"

definition discoveryDocument :: "'k OpenIdProvider \<Rightarrow> string" where
  "discoveryDocument op =
     (let issuer = op_issuer op in
      ''{'' @ key_text ''issuer'' @ json_q issuer
      @ concat (map (\<lambda>(name, path). '','' @ key_text name @ json_q (joinUrl issuer path)) endpoints)
      @ strings_literal ''response_types_supported'' [''code'']
      @ strings_literal ''response_modes_supported'' [''query'', ''query.jwt'']
      @ flag_literal ''request_parameter_supported'' True
      @ flag_literal ''request_uri_parameter_supported'' True
      @ flag_literal ''require_request_uri_registration'' False
      @ strings_literal ''request_object_signing_alg_values_supported'' [''RS256'']
      @ strings_literal ''authorization_signing_alg_values_supported'' [''RS256'']
      @ strings_literal ''grant_types_supported'' [''authorization_code'', ''refresh_token'', ''client_credentials'',
          ''urn:ietf:params:oauth:grant-type:device_code'', ''urn:ietf:params:oauth:grant-type:token-exchange'']
      @ strings_literal ''subject_types_supported'' [''public'']
      @ strings_literal ''id_token_signing_alg_values_supported'' [''RS256'']
      @ strings_literal ''scopes_supported'' [''openid'', ''profile'', ''email'', ''phone'', ''offline_access'', ''account'']
      @ strings_literal ''token_endpoint_auth_methods_supported'' [''client_secret_post'', ''none'']
      @ strings_literal ''code_challenge_methods_supported'' [''S256'']
      @ strings_literal ''dpop_signing_alg_values_supported'' [''RS256'']
      @ flag_literal ''authorization_response_iss_parameter_supported'' True
      @ ''}'')"

definition jwksDocument :: "'k jose_library \<Rightarrow> 'k OpenIdProvider \<Rightarrow> string Result option" where
  "jwksDocument L op =
     (case publicJwkJson L (op_signer op) of
        None \<Rightarrow> None
      | Some (Inl e) \<Rightarrow> Some (Inl e)
      | Some (Inr jwk) \<Rightarrow>
          Some (Inr (''{'' @ key_text ''keys'' @ ''['' @ jwk
            @ concat (map (\<lambda>published. '','' @ published) (op_publishedVerificationJwks op)) @ '']}'')))"

definition id_token_payload :: "env \<Rightarrow> 'k OpenIdProvider \<Rightarrow> AuthorizationCode \<Rightarrow> string" where
  "id_token_payload E op authorization =
     (let now = env_now E 0; expires = now + op_policy op in
      ''{'' @ key_text ''iss'' @ json_q (op_issuer op)
      @ '','' @ key_text ''sub'' @ json_q (id_value (code_identity authorization))
      @ '','' @ key_text ''aud'' @ json_q (id_value (code_clientId authorization))
      @ '','' @ key_text ''iat'' @ int_to_string (unix_seconds now)
      @ '','' @ key_text ''exp'' @ int_to_string (unix_seconds expires)
      @ '','' @ key_text ''auth_time'' @ int_to_string (unix_seconds (code_authenticatedAt authorization))
      @ '','' @ key_text ''acr'' @ json_q (assuranceLevelName (code_assurance authorization))
      @ '','' @ key_text ''amr'' @ amrJson authorization
      @ (case code_nonce authorization of None \<Rightarrow> [] | Some nonce \<Rightarrow> '','' @ key_text ''nonce'' @ json_q nonce)
      @ ''}'')"

definition issueIdToken ::
    "env \<Rightarrow> 'k jose_library \<Rightarrow> 'k OpenIdProvider \<Rightarrow> AuthorizationCode \<Rightarrow> string Result option" where
  "issueIdToken E L op authorization =
     (if \<not> list_ex (\<lambda>scope. scope = ''openid'') (code_scopes authorization)
      then Some (fail_msg InvalidArgument ''An ID Token requires the openid scope.'')
      else rsa_signJwt L (op_signer op) (id_token_payload E op authorization))"

definition response_payload ::
    "env \<Rightarrow> 'k OpenIdProvider \<Rightarrow> ClientId \<Rightarrow> string \<Rightarrow> string option \<Rightarrow> string option \<Rightarrow> string option \<Rightarrow> string" where
  "response_payload E op clientId jwtId code state error =
     (let now = env_now E 0; expires = now + 300000 in
      ''{'' @ key_text ''iss'' @ json_q (op_issuer op)
      @ '','' @ key_text ''aud'' @ json_q (id_value clientId)
      @ '','' @ key_text ''iat'' @ int_to_string (unix_seconds now)
      @ '','' @ key_text ''exp'' @ int_to_string (unix_seconds expires)
      @ '','' @ key_text ''jti'' @ json_q jwtId
      @ (case code of None \<Rightarrow> [] | Some v \<Rightarrow> '','' @ key_text ''code'' @ json_q v)
      @ (case error of None \<Rightarrow> [] | Some v \<Rightarrow> '','' @ key_text ''error'' @ json_q v)
      @ (case state of None \<Rightarrow> [] | Some v \<Rightarrow> '','' @ key_text ''state'' @ json_q v)
      @ ''}'')"

definition issueAuthorizationResponse ::
    "env \<Rightarrow> 'k jose_library \<Rightarrow> 'k OpenIdProvider \<Rightarrow> ClientId \<Rightarrow> string option \<Rightarrow> string option \<Rightarrow> string option
     \<Rightarrow> string Result option" where
  "issueAuthorizationResponse E L op clientId code state error =
     (if StrongId_empty clientId \<or> (code \<noteq> None) = (error \<noteq> None)
      then Some (fail_msg InvalidArgument ''A JARM response requires exactly one result.'')
      else case randomTokenBase64Url E 0 18 of
          Inl e \<Rightarrow> Some (Inl e)
        | Inr jwtId \<Rightarrow> rsa_signJwt L (op_signer op) (response_payload E op clientId jwtId code state error))"

definition optional_member :: "string \<Rightarrow> string option \<Rightarrow> string" where
  "optional_member name v = (case v of None \<Rightarrow> [] | Some t \<Rightarrow> '','' @ key_text name @ json_q t)"

definition userInfo :: "TokenClaims \<Rightarrow> ProfileRepository \<Rightarrow> string Result" where
  "userInfo claims profiles =
     (let context = claims_context claims in
      if \<not> claims_active claims \<or> \<not> TokenContext_permits context ''openid''
      then fail_msg PermissionDenied ''The access token cannot access UserInfo.''
      else case profiles_find (ctx_identity context) profiles of
          Inl e \<Rightarrow> Inl e
        | Inr profile \<Rightarrow>
            Inr (''{'' @ key_text ''sub'' @ json_q (id_value (ctx_identity context))
              @ (case profile of
                   None \<Rightarrow> []
                 | Some p \<Rightarrow>
                     (if TokenContext_permits context ''profile''
                      then optional_member ''name'' (profile_displayName p)
                           @ optional_member ''preferred_username'' (profile_preferredUsername p)
                           @ optional_member ''locale'' (profile_locale p)
                           @ optional_member ''picture'' (profile_pictureUrl p)
                      else [])
                     @ (if TokenContext_permits context ''email'' \<and> profile_email p \<noteq> None
                        then optional_member ''email'' (profile_email p)
                             @ '','' @ key_text ''email_verified''
                             @ (if profile_emailVerified p then ''true'' else ''false'')
                        else []))
              @ ''}''))"

section \<open>What a relying party reads\<close>

text \<open>
  The JSON of these documents: texts, integers, lists of texts and truth values. The reader is the
  reference; it accepts no space, no trailing comma and no unknown escape.
\<close>

datatype claim_value = CText string | CNumber int | CTexts "string list" | CFlag bool

fun print_value :: "claim_value \<Rightarrow> string" where
  "print_value (CText t) = json_q t"
| "print_value (CNumber i) = int_to_string i"
| "print_value (CTexts ts) = ''['' @ append_texts False ts @ '']''"
| "print_value (CFlag b) = (if b then ''true'' else ''false'')"

fun print_members :: "(string \<times> claim_value) list \<Rightarrow> string" where
  "print_members [] = ''}''"
| "print_members ((k, v) # kvs) = '','' @ json_q k @ '':'' @ print_value v @ print_members kvs"

definition print_claims :: "(string \<times> claim_value) list \<Rightarrow> string" where
  "print_claims kvs = ''{'' @ tl (print_members kvs)"

fun read_more_texts :: "nat \<Rightarrow> string \<Rightarrow> (string list \<times> string) option" where
  "read_more_texts 0 s = None"
| "read_more_texts (Suc n) s =
     (case s of
        c # cs \<Rightarrow>
          if c = CHR '']'' then Some ([], cs)
          else if c = CHR '','' \<and> cs \<noteq> [] \<and> hd cs = quote
          then (case read_string (tl cs) of
                  None \<Rightarrow> None
                | Some (v, rest) \<Rightarrow> map_option (apfst ((#) v)) (read_more_texts n rest))
          else None
      | [] \<Rightarrow> None)"

definition read_texts :: "nat \<Rightarrow> string \<Rightarrow> (string list \<times> string) option" where
  "read_texts n s = (if s \<noteq> [] \<and> hd s = CHR '']'' then Some ([], tl s) else read_more_texts n (CHR '','' # s))"

definition read_int :: "string \<Rightarrow> int option" where
  "read_int s =
     (case s of c # cs \<Rightarrow> if c = CHR ''-'' then map_option (\<lambda>n. - int n) (read_digits cs)
                        else map_option int (read_digits s)
      | [] \<Rightarrow> None)"

definition number_char :: "char \<Rightarrow> bool" where
  "number_char c = (c = CHR ''-'' \<or> is_digit_char c)"

definition read_value :: "nat \<Rightarrow> string \<Rightarrow> (claim_value \<times> string) option" where
  "read_value n s =
     (case s of
        [] \<Rightarrow> None
      | c # cs \<Rightarrow>
          if c = quote then map_option (apfst CText) (read_string cs)
          else if c = CHR ''['' then map_option (apfst CTexts) (read_texts n cs)
          else if starts_with s ''true'' then Some (CFlag True, drop 4 s)
          else if starts_with s ''false'' then Some (CFlag False, drop 5 s)
          else map_option (\<lambda>i. (CNumber i, dropWhile number_char s)) (read_int (takeWhile number_char s)))"

fun read_members :: "nat \<Rightarrow> string \<Rightarrow> (string \<times> claim_value) list option" where
  "read_members 0 s = None"
| "read_members (Suc n) s =
     (if s = ''}'' then Some []
      else case s of
          c # q # cs \<Rightarrow>
            if c \<noteq> CHR '','' \<or> q \<noteq> quote then None
            else (case read_string cs of
                    Some (k, colon # rest) \<Rightarrow>
                      if colon \<noteq> CHR '':'' then None
                      else (case read_value n rest of
                              None \<Rightarrow> None
                            | Some (v, rest') \<Rightarrow> map_option ((#) (k, v)) (read_members n rest'))
                  | _ \<Rightarrow> None)
        | _ \<Rightarrow> None)"

definition read_claims :: "nat \<Rightarrow> string \<Rightarrow> (string \<times> claim_value) list option" where
  "read_claims n s = (if s \<noteq> [] \<and> hd s = CHR ''{'' then read_members n (CHR '','' # tl s) else None)"

lemma read_more_append:
  "length ts < n \<Longrightarrow> read_more_texts n (append_texts True ts @ CHR '']'' # rest) = Some (ts, rest)"
proof (induction ts arbitrary: n)
  case Nil
  then show ?case by (cases n) simp_all
next
  case (Cons t ts)
  then obtain m where "n = Suc m" "length ts < m" by (cases n) auto
  with Cons.IH show ?case by (simp add: json_q_def)
qed

lemma read_texts_append:
  assumes "length ts < n"
  shows "read_texts n (append_texts False ts @ CHR '']'' # rest) = Some (ts, rest)"
proof (cases ts)
  case (Cons t us)
  have "CHR '','' # append_texts False ts = append_texts True ts" by (simp add: Cons)
  with read_more_append [OF assms, of rest] show ?thesis
    by (simp add: read_texts_def Cons json_q_def quote_def)
qed (simp add: read_texts_def)

lemma number_char_digits: "c \<in> set (to_string n) \<Longrightarrow> is_digit_char c"
proof -
  assume "c \<in> set (to_string n)"
  moreover have "read_digits (to_string n) \<noteq> None" by (simp add: read_digits_to_string)
  ultimately show ?thesis by (auto simp: read_digits_def list_all_iff split: if_splits)
qed

lemma read_int_to_string: "read_int (int_to_string i) = Some i"
proof (cases "i < 0")
  case False
  then obtain c cs where "to_string (nat i) = c # cs" using to_string_nonempty [of "nat i"] by (cases "to_string (nat i)") auto
  moreover from this have "c \<noteq> CHR ''-''" using to_string_hd [of "nat i"] by simp
  ultimately show ?thesis
    using False read_digits_to_string [of "nat i"] by (simp add: read_int_def int_to_string_def)
qed (simp add: read_int_def int_to_string_def read_digits_to_string)

lemma int_to_string_chars: "c \<in> set (int_to_string i) \<Longrightarrow> number_char c"
  by (auto simp: int_to_string_def number_char_def number_char_digits split: if_splits)

lemma int_to_string_hd:
  obtains c cs where "int_to_string i = c # cs" "number_char c"
proof -
  have "int_to_string i \<noteq> []" by (simp add: int_to_string_def to_string_nonempty)
  then obtain c cs where "int_to_string i = c # cs" by (cases "int_to_string i") auto
  then show thesis using that int_to_string_chars [of c i] by simp
qed

lemma number_char_other: "number_char c \<Longrightarrow> c \<notin> {quote, CHR ''['', CHR ''t'', CHR ''f'', CHR '','', CHR ''}''}"
  by (auto simp: number_char_def is_digit_char_def quote_def)

lemma read_number:
  assumes "rest = [] \<or> \<not> number_char (hd rest)"
  shows "read_value n (int_to_string i @ rest) = Some (CNumber i, rest)"
proof -
  obtain c cs where hd: "int_to_string i = c # cs" "number_char c" by (rule int_to_string_hd)
  have all: "\<forall>x \<in> set (int_to_string i). number_char x" using int_to_string_chars by blast
  have "takeWhile number_char (int_to_string i @ rest) = int_to_string i"
    "dropWhile number_char (int_to_string i @ rest) = rest"
    using all assms by (cases rest; simp add: takeWhile_append2 dropWhile_append2)+
  moreover have "\<not> starts_with (int_to_string i @ rest) ''true''" "\<not> starts_with (int_to_string i @ rest) ''false''"
    using hd number_char_other [OF hd(2)] by (auto simp: starts_with_def)
  ultimately show ?thesis
    using hd number_char_other [OF hd(2)] read_int_to_string [of i] by (simp add: read_value_def)
qed

lemma members_hd: "print_members kvs \<noteq> []" "\<not> number_char (hd (print_members kvs))"
  by (cases kvs rule: print_members.cases; simp add: number_char_def is_digit_char_def)+

definition short_value :: "nat \<Rightarrow> claim_value \<Rightarrow> bool" where
  "short_value n v = (case v of CTexts ts \<Rightarrow> length ts < n | _ \<Rightarrow> True)"

lemma read_print_value:
  assumes "short_value n v" "rest \<noteq> []" "\<not> number_char (hd rest)"
  shows "read_value n (print_value v @ rest) = Some (v, rest)"
proof (cases v)
  case (CText t)
  then show ?thesis by (simp add: read_value_def json_q_def)
next
  case (CNumber i)
  then show ?thesis using assms by (simp add: read_number)
next
  case (CTexts ts)
  then show ?thesis
    using assms read_texts_append [of ts n rest] by (simp add: read_value_def short_value_def quote_def)
next
  case (CFlag b)
  then show ?thesis by (cases b) (simp_all add: read_value_def starts_with_def quote_def)
qed

lemma read_print_members:
  "length kvs < n \<Longrightarrow> \<forall>(k, v) \<in> set kvs. short_value (n - length kvs) v \<Longrightarrow> read_members n (print_members kvs) = Some kvs"
proof (induction kvs arbitrary: n rule: print_members.induct)
  case 1
  then show ?case by (cases n) simp_all
next
  case (2 k v kvs)
  then obtain m where n: "n = Suc m" "length kvs < m" by (cases n) auto
  have "short_value (m - length kvs) v" using "2.prems"(2) n by simp
  then have "short_value m v" by (auto simp: short_value_def split: claim_value.splits)
  then have "read_value m (print_value v @ print_members kvs) = Some (v, print_members kvs)"
    using members_hd by (rule read_print_value)
  moreover have "read_members m (print_members kvs) = Some kvs" using "2.IH" [of m] "2.prems"(2) n by simp
  ultimately show ?case by (simp add: n json_q_def)
qed

lemma read_print_claims:
  assumes "kvs \<noteq> []" "\<forall>(k, v) \<in> set kvs. short_value 5 v" "length kvs + 5 \<le> n"
  shows "read_claims n (print_claims kvs) = Some kvs"
proof -
  obtain k v more where kvs: "kvs = (k, v) # more" using assms(1) by (cases kvs) auto
  have "\<forall>(k, v) \<in> set kvs. short_value (n - length kvs) v"
    using assms(2,3) by (auto simp: short_value_def split: claim_value.splits)
  then have "read_members n (print_members kvs) = Some kvs" using assms(3) by (simp add: read_print_members)
  then show ?thesis by (simp add: read_claims_def print_claims_def kvs)
qed

section \<open>The claims of the documents\<close>

lemma key_text_plain: "escapeJsonString k = k \<Longrightarrow> key_text k = json_q k @ '':''"
  by (simp add: key_text_def json_q_def)

lemma plain_names:
  "escapeJsonString ''iss'' = ''iss''" "escapeJsonString ''sub'' = ''sub''" "escapeJsonString ''aud'' = ''aud''"
  "escapeJsonString ''iat'' = ''iat''" "escapeJsonString ''exp'' = ''exp''" "escapeJsonString ''auth_time'' = ''auth_time''"
  "escapeJsonString ''acr'' = ''acr''" "escapeJsonString ''amr'' = ''amr''" "escapeJsonString ''nonce'' = ''nonce''"
  "escapeJsonString ''jti'' = ''jti''" "escapeJsonString ''code'' = ''code''" "escapeJsonString ''error'' = ''error''"
  "escapeJsonString ''state'' = ''state''" "escapeJsonString ''name'' = ''name''"
  "escapeJsonString ''preferred_username'' = ''preferred_username''" "escapeJsonString ''locale'' = ''locale''"
  "escapeJsonString ''picture'' = ''picture''" "escapeJsonString ''email'' = ''email''"
  "escapeJsonString ''email_verified'' = ''email_verified''"
  by (simp_all add: escapeJsonChar_def quote_def backslash_def)

lemmas member_names = plain_names [THEN key_text_plain]

definition text_claim :: "string \<Rightarrow> string option \<Rightarrow> (string \<times> claim_value) list" where
  "text_claim name v = (case v of None \<Rightarrow> [] | Some t \<Rightarrow> [(name, CText t)])"

definition id_token_claims :: "env \<Rightarrow> 'k OpenIdProvider \<Rightarrow> AuthorizationCode \<Rightarrow> (string \<times> claim_value) list" where
  "id_token_claims E op a =
     [(''iss'', CText (op_issuer op)), (''sub'', CText (id_value (code_identity a))),
      (''aud'', CText (id_value (code_clientId a))), (''iat'', CNumber (unix_seconds (env_now E 0))),
      (''exp'', CNumber (unix_seconds (env_now E 0 + op_policy op))),
      (''auth_time'', CNumber (unix_seconds (code_authenticatedAt a))),
      (''acr'', CText (assuranceLevelName (code_assurance a))), (''amr'', CTexts (amr_values (code_strength a)))]
     @ text_claim ''nonce'' (code_nonce a)"

definition response_claims ::
    "env \<Rightarrow> 'k OpenIdProvider \<Rightarrow> ClientId \<Rightarrow> string \<Rightarrow> string option \<Rightarrow> string option \<Rightarrow> string option
     \<Rightarrow> (string \<times> claim_value) list" where
  "response_claims E op client jti code state error =
     [(''iss'', CText (op_issuer op)), (''aud'', CText (id_value client)),
      (''iat'', CNumber (unix_seconds (env_now E 0))), (''exp'', CNumber (unix_seconds (env_now E 0 + 300000))),
      (''jti'', CText jti)]
     @ text_claim ''code'' code @ text_claim ''error'' error @ text_claim ''state'' state"

text \<open>The members a profile contributes under the scopes of a token.\<close>

definition profile_claims :: "TokenContext \<Rightarrow> IdentityProfile \<Rightarrow> (string \<times> claim_value) list" where
  "profile_claims c p =
     (if TokenContext_permits c ''profile''
      then text_claim ''name'' (profile_displayName p) @ text_claim ''preferred_username'' (profile_preferredUsername p)
           @ text_claim ''locale'' (profile_locale p) @ text_claim ''picture'' (profile_pictureUrl p)
      else [])
     @ (case profile_email p of
          None \<Rightarrow> []
        | Some e \<Rightarrow> if TokenContext_permits c ''email''
                    then [(''email'', CText e), (''email_verified'', CFlag (profile_emailVerified p))] else [])"

definition userinfo_claims :: "TokenContext \<Rightarrow> ProfileRepository \<Rightarrow> (string \<times> claim_value) list" where
  "userinfo_claims c profiles =
     (''sub'', CText (id_value (ctx_identity c)))
     # (case map_of profiles (ctx_identity c) of None \<Rightarrow> [] | Some p \<Rightarrow> profile_claims c p)"

lemma id_token_payload_claims: "id_token_payload E op a = print_claims (id_token_claims E op a)"
  by (simp add: id_token_payload_def print_claims_def id_token_claims_def amrJson_def member_names Let_def text_claim_def
      split: option.split)

lemma response_payload_claims:
  "response_payload E op client jti code state error = print_claims (response_claims E op client jti code state error)"
  by (simp add: response_payload_def print_claims_def response_claims_def member_names Let_def text_claim_def
      split: option.split)

lemma optional_member_claim: "escapeJsonString k = k \<Longrightarrow> optional_member k v @ print_members kvs = print_members (text_claim k v @ kvs)"
  by (simp add: optional_member_def text_claim_def key_text_plain split: option.split)

lemmas optional_members = plain_names [THEN optional_member_claim]

lemma userinfo_text:
  assumes "claims_active claims" "TokenContext_permits (claims_context claims) ''openid''"
  shows "userInfo claims profiles = Inr (print_claims (userinfo_claims (claims_context claims) profiles))"
proof -
  let ?c = "claims_context claims"
  have sub: "''{'' @ key_text ''sub'' @ json_q v @ print_members kvs = print_claims ((''sub'', CText v) # kvs)" for v kvs
    by (simp add: print_claims_def member_names)
  show ?thesis
  proof (cases "map_of profiles (ctx_identity ?c)")
    case None
    with assms sub [of "id_value (ctx_identity ?c)" "[]"] show ?thesis
      by (simp add: userInfo_def profiles_find_def userinfo_claims_def Let_def)
  next
    case (Some p)
    have email: "(if TokenContext_permits ?c ''email'' \<and> profile_email p \<noteq> None
          then optional_member ''email'' (profile_email p) @ '','' @ key_text ''email_verified''
            @ (if profile_emailVerified p then ''true'' else ''false'') else []) @ ''}''
        = print_members (case profile_email p of None \<Rightarrow> []
            | Some e \<Rightarrow> if TokenContext_permits ?c ''email''
                 then [(''email'', CText e), (''email_verified'', CFlag (profile_emailVerified p))] else [])"
      by (simp add: optional_member_def member_names split: option.split)
    have members: "(if TokenContext_permits ?c ''profile''
           then optional_member ''name'' (profile_displayName p)
                @ optional_member ''preferred_username'' (profile_preferredUsername p)
                @ optional_member ''locale'' (profile_locale p) @ optional_member ''picture'' (profile_pictureUrl p)
           else []) @ print_members kvs
        = print_members ((if TokenContext_permits ?c ''profile''
           then text_claim ''name'' (profile_displayName p) @ text_claim ''preferred_username'' (profile_preferredUsername p)
                @ text_claim ''locale'' (profile_locale p) @ text_claim ''picture'' (profile_pictureUrl p)
           else []) @ kvs)" for kvs
      by (simp add: optional_members)
    have "userInfo claims profiles = Inr (''{'' @ key_text ''sub'' @ json_q (id_value (ctx_identity ?c))
        @ print_members (profile_claims ?c p))"
      unfolding profile_claims_def members [symmetric] email [symmetric]
      using assms Some by (simp add: userInfo_def profiles_find_def Let_def)
    then show ?thesis by (simp only: sub userinfo_claims_def Some option.case)
  qed
qed

lemma amr_short: "length (amr_values strength) \<le> 4"
  by (simp add: amr_values_def Let_def)

lemma short_text_claims: "\<forall>(k, v) \<in> set (text_claim name t). short_value n v" "length (text_claim name t) \<le> 1"
  by (auto simp: text_claim_def short_value_def split: option.splits)

lemma id_token_reads:
  "read_claims 14 (id_token_payload E op a) = Some (id_token_claims E op a)"
proof -
  have "\<forall>(k, v) \<in> set (id_token_claims E op a). short_value 5 v"
    using short_text_claims(1) [of "''nonce''" "code_nonce a" 5] amr_short [of "code_strength a"]
    by (auto simp: id_token_claims_def short_value_def)
  moreover have "length (id_token_claims E op a) + 5 \<le> 14"
    using short_text_claims(2) [of "''nonce''" "code_nonce a"] by (simp add: id_token_claims_def)
  ultimately show ?thesis
    unfolding id_token_payload_claims by (intro read_print_claims) (simp_all add: id_token_claims_def)
qed

lemma response_reads:
  "read_claims 13 (response_payload E op client jti code state error) = Some (response_claims E op client jti code state error)"
proof -
  have "\<forall>(k, v) \<in> set (response_claims E op client jti code state error). short_value 5 v"
    using short_text_claims(1) [of "''code''" code 5] short_text_claims(1) [of "''error''" error 5]
      short_text_claims(1) [of "''state''" state 5]
    by (auto simp: response_claims_def short_value_def)
  moreover have "length (response_claims E op client jti code state error) + 5 \<le> 13"
    using short_text_claims(2) [of "''code''" code] short_text_claims(2) [of "''error''" error]
      short_text_claims(2) [of "''state''" state]
    by (simp add: response_claims_def)
  ultimately show ?thesis
    unfolding response_payload_claims by (intro read_print_claims) (simp_all add: response_claims_def)
qed

text \<open>
  C15. An ID token says exactly what was authorized. Issuing one fails for an authorization without
  the openid scope; otherwise the token verifies under the published key, as long as it fits the
  verifier's 16 KiB, and a reader of its payload finds these claims and no other, whatever text the
  identity, the client or the nonce hold: issuer, the identity as subject, the client as audience, issue
  and expiry at most one hour apart, the time, assurance and methods of the authentication, and the nonce
  of the request when there was one.
\<close>

theorem id_token_exact:
  assumes "RsaSha256Signer_create L privatePem keyId = Inr (op_signer op)" "OidcPolicy_create lifetime = Inr (op_policy op)"
    and "publicPem \<noteq> []" "length publicPem \<le> int_max" "rsa_public L publicPem = Some public"
    and "key_pair L (jwt_key (op_signer op)) public"
  shows "(''openid'' \<notin> set (code_scopes a) \<longrightarrow>
      issueIdToken E L op a = Some (fail_msg InvalidArgument ''An ID Token requires the openid scope.''))
    \<and> (''openid'' \<in> set (code_scopes a) \<longrightarrow> (\<exists>result. issueIdToken E L op a = Some result \<and>
        (\<forall>token. result = Inr token \<and> length token \<le> 16 * 1024 \<longrightarrow>
          (\<exists>payload. verifyRs256Jwt L publicPem token =
              Inr \<lparr>jws_headerJson = jws_header ''RS256'' keyId, jws_payloadJson = payload\<rparr>
            \<and> read_claims 14 payload = Some (id_token_claims E op a)))))
    \<and> 0 < op_policy op \<and> op_policy op \<le> 3600000"
proof (intro conjI impI)
  assume "''openid'' \<notin> set (code_scopes a)"
  then show "issueIdToken E L op a = Some (fail_msg InvalidArgument ''An ID Token requires the openid scope.'')"
    by (auto simp: issueIdToken_def list_ex_iff)
next
  let ?payload = "id_token_payload E op a"
  assume scope: "''openid'' \<in> set (code_scopes a)"
  obtain result where result: "rsa_signJwt L (op_signer op) ?payload = Some result"
    by (simp add: rsa_signJwt_def signing_input_eq)
  have issued: "issueIdToken E L op a = Some result"
    using scope by (auto simp: issueIdToken_def list_ex_iff result)
  have "?payload \<noteq> []" by (simp add: id_token_payload_def Let_def)
  note verifies = rsa_signed_verifies [OF assms(1,3-6) this]
  have "\<exists>payload. verifyRs256Jwt L publicPem token = Inr \<lparr>jws_headerJson = jws_header ''RS256'' keyId, jws_payloadJson = payload\<rparr>
      \<and> read_claims 14 payload = Some (id_token_claims E op a)"
    if "result = Inr token" "length token \<le> 16 * 1024" for token
    using verifies [of token] that result id_token_reads by blast
  with issued show "\<exists>result. issueIdToken E L op a = Some result \<and>
        (\<forall>token. result = Inr token \<and> length token \<le> 16 * 1024 \<longrightarrow>
          (\<exists>payload. verifyRs256Jwt L publicPem token =
              Inr \<lparr>jws_headerJson = jws_header ''RS256'' keyId, jws_payloadJson = payload\<rparr>
            \<and> read_claims 14 payload = Some (id_token_claims E op a)))" by blast
qed (use assms(2) in \<open>auto simp: OidcPolicy_create_def fail_msg_def split: if_splits\<close>)

text \<open>
  C16. UserInfo discloses what the scopes grant and nothing else. It answers exactly for active tokens
  with the openid scope; the document reads back as the subject, the name, user name, locale and
  picture of the profile only under the profile scope, and the email with its verification flag only
  under the email scope. No text of a profile can add or change a member.
\<close>

theorem userinfo_exact:
  "(if claims_active claims \<and> TokenContext_permits (claims_context claims) ''openid''
    then \<exists>document. userInfo claims profiles = Inr document
           \<and> read_claims 12 document = Some (userinfo_claims (claims_context claims) profiles)
    else userInfo claims profiles = fail_msg PermissionDenied ''The access token cannot access UserInfo.'')
   \<and> (\<forall>k v. (k, v) \<in> set (userinfo_claims (claims_context claims) profiles) \<longrightarrow>
        (k \<in> {''name'', ''preferred_username'', ''locale'', ''picture''} \<longrightarrow> TokenContext_permits (claims_context claims) ''profile'')
        \<and> (k \<in> {''email'', ''email_verified''} \<longrightarrow> TokenContext_permits (claims_context claims) ''email''))"
proof
  let ?c = "claims_context claims"
  have short: "\<forall>(k, v) \<in> set (profile_claims ?c p). short_value 5 v" "length (profile_claims ?c p) \<le> 6" for p
    by (auto simp: profile_claims_def text_claim_def short_value_def split: option.splits)
  have "read_claims 12 (print_claims (userinfo_claims ?c profiles)) = Some (userinfo_claims ?c profiles)"
    using short by (intro read_print_claims) (auto simp: userinfo_claims_def short_value_def split: option.splits)
  then show "if claims_active claims \<and> TokenContext_permits ?c ''openid''
    then \<exists>document. userInfo claims profiles = Inr document
           \<and> read_claims 12 document = Some (userinfo_claims ?c profiles)
    else userInfo claims profiles = fail_msg PermissionDenied ''The access token cannot access UserInfo.''"
    using userinfo_text [of claims profiles] by (auto simp: userInfo_def Let_def)
  show "\<forall>k v. (k, v) \<in> set (userinfo_claims ?c profiles) \<longrightarrow>
        (k \<in> {''name'', ''preferred_username'', ''locale'', ''picture''} \<longrightarrow> TokenContext_permits ?c ''profile'')
        \<and> (k \<in> {''email'', ''email_verified''} \<longrightarrow> TokenContext_permits ?c ''email'')"
    by (auto simp: userinfo_claims_def profile_claims_def text_claim_def split: option.splits if_splits)
qed

section \<open>A sample provider\<close>

definition sample_op :: "nat OpenIdProvider" where
  "sample_op = \<lparr>op_issuer = ''https://id.example'', op_signer = \<lparr>jwt_key = 7, jwt_keyId = ''k1''\<rparr>,
     op_publishedVerificationJwks = [], op_policy = 300000\<rparr>"

text \<open>An authorization whose nonce tries to close its own text and add a claim.\<close>

definition forged_nonce :: string where
  "forged_nonce = [quote] @ '','' @ [quote] @ ''sub'' @ [quote] @ '':'' @ [quote] @ ''root''"

definition sample_authorization :: AuthorizationCode where
  "sample_authorization =
     \<lparr>code_digest = replicate 32 1, code_clientId = StrongId ''app'', code_identity = StrongId ''alice'',
      code_redirectUri = ''https://app/cb'', code_scopes = [''openid''], code_codeChallenge = replicate 43 CHR ''a'',
      code_nonce = Some forged_nonce, code_resource = None, code_provider = StrongId ''password'', code_assurance = Ial1,
      code_strength = \<lparr>strength_factors = Factor_Knowledge, strength_phishingResistant = False\<rparr>,
      code_authenticatedAt = 50, code_issuedAt = 60, code_expiresAt = 1000\<rparr>"

theorem id_token_exact_witness:
  "\<exists>token payload. issueIdToken sample_env sample_jose sample_op sample_authorization = Some (Inr token)
    \<and> verifyRs256Jwt sample_jose ''pub'' token =
        Inr \<lparr>jws_headerJson = jws_header ''RS256'' ''k1'', jws_payloadJson = payload\<rparr>
    \<and> read_claims 14 payload = Some (id_token_claims sample_env sample_op sample_authorization)"
proof -
  let ?payload = "id_token_payload sample_env sample_op sample_authorization"
  let ?input = "toBase64Url (text_bytes (jws_header ''RS256'' ''k1'')) @ ''.'' @ toBase64Url (text_bytes ?payload)"
  let ?token = "?input @ ''.'' @ toBase64Url [of_nat 7, of_nat (length ?input)]"
  have size: "length ?payload \<le> 4096"
    by (simp add: id_token_payload_def sample_op_def sample_authorization_def Let_def key_text_def json_q_def amrJson_def
        amr_values_def containsFactor_def Factor_Knowledge_def Factor_Possession_def Factor_Inherence_def unix_seconds_def
        int_to_string_def to_string.simps forged_nonce_def escapeJsonChar_def quote_def backslash_def)
  have "RsaSha256Signer_create sample_jose ''priv'' ''k1'' = Inr (op_signer sample_op)"
    by (simp add: RsaSha256Signer_create_def sample_jose_def int_max_def sample_op_def)
  moreover have "OidcPolicy_create 300000 = Inr (op_policy sample_op)" by (simp add: OidcPolicy_create_def sample_op_def)
  moreover have "rsa_public sample_jose ''pub'' = Some 7" by (simp add: rsa_public_def sample_jose_def)
  moreover have "key_pair sample_jose (jwt_key (op_signer sample_op)) 7" using sample_key_pair by (simp add: sample_op_def)
  ultimately have exact: "\<exists>result. issueIdToken sample_env sample_jose sample_op sample_authorization = Some result \<and>
        (\<forall>token. result = Inr token \<and> length token \<le> 16 * 1024 \<longrightarrow>
          (\<exists>payload. verifyRs256Jwt sample_jose ''pub'' token =
              Inr \<lparr>jws_headerJson = jws_header ''RS256'' ''k1'', jws_payloadJson = payload\<rparr>
            \<and> read_claims 14 payload = Some (id_token_claims sample_env sample_op sample_authorization)))"
    using id_token_exact [where L = sample_jose and op = sample_op and publicPem = "''pub''" and a = sample_authorization
        and E = sample_env] by (simp add: sample_authorization_def int_max_def)
  have "issueIdToken sample_env sample_jose sample_op sample_authorization = Some (Inr ?token)"
    unfolding issueIdToken_def rsa_signJwt_def signing_input_eq
    by (simp add: sample_authorization_def sample_jose_def) (simp add: sample_op_def)
  moreover have "length ?token \<le> 16 * 1024"
    using size jws_header_short [of "''k1''"] by (simp add: length_toBase64Url)
  ultimately show ?thesis using exact by auto
qed

lemma permits_scopes:
  "TokenContext_permits (TokenContext_new c i p a s scopes t audiences sc) v \<longleftrightarrow> v = [] \<or> v \<in> set scopes"
  by (simp add: TokenContext_permits_def TokenContext_new_def binary_search_sorted [OF sort_unique_sorted_le])

theorem userinfo_exact_witness:
  "\<exists>document. userInfo \<lparr>claims_active = True, claims_context = TokenContext_new (StrongId ''app'') (StrongId ''alice'')
        (StrongId ''password'') Ial1 \<lparr>strength_factors = Factor_Knowledge, strength_phishingResistant = False\<rparr>
        [''openid'', ''profile''] 50 [] None, claims_issuedAt = 60, claims_expiresAt = 1000\<rparr>
      [(StrongId ''alice'', \<lparr>profile_identity = StrongId ''alice'', profile_displayName = Some ''Alice'',
         profile_preferredUsername = None, profile_email = Some ''a@b'', profile_emailVerified = True,
         profile_phoneNumber = None, profile_phoneNumberVerified = False, profile_locale = None,
         profile_pictureUrl = None, profile_avatarSource = ''auto'', profile_createdAt = 1, profile_updatedAt = 1\<rparr>)]
      = Inr document
    \<and> read_claims 12 document = Some [(''sub'', CText ''alice''), (''name'', CText ''Alice'')]"
  (is "\<exists>document. userInfo ?claims ?profiles = _ \<and> _")
proof -
  have "userinfo_claims (claims_context ?claims) ?profiles = [(''sub'', CText ''alice''), (''name'', CText ''Alice'')]"
    by (simp add: userinfo_claims_def profile_claims_def permits_scopes text_claim_def)
      (simp add: TokenContext_new_def)
  then show ?thesis
    using userinfo_exact [of ?claims ?profiles] by (simp add: permits_scopes)
qed

end
