(* ===== verification/Spec2Isabelle.thy ===== *)
theory Spec2Isabelle
  imports Json Session_Service Transaction OAuth Device Token_Proofs Identity_Proofs Organizations Policy Trust
    Audit_Chain Consent Pushed Service_Identity Gateway
    Account_Signup Authentication_Handoff Administration Passkey_Roundtrip Sender_Proofs Oidc
begin

text \<open>
  OpenProof is an identity and authorization server in C++: people sign in through pluggable
  providers and get sessions; applications register OAuth clients; clients obtain authorization
  codes, device authorizations and tokens that resource servers introspect. This development
  models the code that decides those things, with its in-memory repositories, and proves what it
  promises.

  \<^bold>\<open>How the code is rendered.\<close> A class is a \<^verbatim>\<open>record\<close>, an enum a
  \<^verbatim>\<open>datatype\<close>, a \<^verbatim>\<open>std::map\<close> the ordered list of its entries (\<open>omap\<close>), a
  \<^verbatim>\<open>Result\<close> or \<^verbatim>\<open>Status\<close> a sum whose left side is the source's error object, a
  method that changes its object a function that returns the result and the new object. Operations
  that the source guards with a mutex are the atomic steps. Integers are words where their width
  matters (the codecs, the refresh sequence number, factor bit sets); instants and durations are
  milliseconds as unbounded integers. Calls to OpenSSL and to the clock are the fields of the
  record \<open>env\<close>; a theorem that needs the library to answer says so (\<open>crypto_available\<close>), and
  collision freedom is never assumed: the stores refuse a digest they already hold.

  \<^bold>\<open>Theories\<close>, each with the files of \<^verbatim>\<open>src/src\<close> it models:
  \<^item> \<^verbatim>\<open>Prelude\<close>: ordered maps and their interface, exact secondary indexes, sorted
    vectors, and three contracts as locales: machines that keep an invariant over every history of
    calls (\<open>guarded_machine\<close>), facts that once true stay true (\<open>stable_fact\<close>), and stores whose
    entries are redeemed at most once (\<open>single_use_store\<close>).
  \<^item> \<^verbatim>\<open>Foundation\<close>, \<^verbatim>\<open>Json\<close>, \<^verbatim>\<open>Encoding\<close>
    (\<^verbatim>\<open>foundation/\<close>): errors, the JSON writer and the client error envelope, hex and
    base64url. The envelope reads back as what was put in; the codecs are inverse to each other.
  \<^item> \<^verbatim>\<open>Security\<close> (\<^verbatim>\<open>security/hash.cpp, random.cpp\<close>): the crypto boundary.
  \<^item> \<^verbatim>\<open>Provider\<close>, \<^verbatim>\<open>Transaction\<close>, \<^verbatim>\<open>Authenticator\<close>
    (\<^verbatim>\<open>identity/provider\<close>): what a provider reports, the one-time transaction of a sign-in,
    redeemed at most once and only with its nonce and binding, and the interface and registry of
    the providers; a provider is a record of what it answers to each call.
  \<^item> \<^verbatim>\<open>Session\<close>, \<^verbatim>\<open>Session_Service\<close> (\<^verbatim>\<open>session/\<close>): sessions, the
    repository with its token index, and the service. The index stays exact; acceptance is
    characterised; revocation and rotation are final for the old token; a login works.
  \<^item> \<^verbatim>\<open>Application\<close>, \<^verbatim>\<open>Client\<close>, \<^verbatim>\<open>Resource\<close>
    (\<^verbatim>\<open>application/\<close>, \<^verbatim>\<open>client/\<close>, \<^verbatim>\<open>resource/\<close>): registries, their
    life cycles, redirect matching, client authentication, machine identities.
  \<^item> \<^verbatim>\<open>OAuth\<close>, \<^verbatim>\<open>Device\<close> (\<^verbatim>\<open>oauth/model.cpp, repository.cpp, service.cpp,
    device.cpp\<close>): the code flow with PKCE and the device ceremony: redeemed at most once, exactly
    under the stated conditions, and only for a user who approved.
  \<^item> \<^verbatim>\<open>Token\<close>, \<^verbatim>\<open>Token_Proofs\<close> (\<^verbatim>\<open>token/\<close>): token families. Every
    service call is one of six changes of the repository (\<open>token_change\<close>); from them follow that a
    family has at most one active refresh token, that replay kills the family for good, and that
    rotation and exchange never widen rights.
  \<^item> \<^verbatim>\<open>Jose\<close> (\<^verbatim>\<open>security/jose.cpp, aead.cpp\<close>): compact JWS, JSON web keys and their
    thumbprints, and the AES-GCM envelope, over two records of OpenSSL's primitives. What the signer
    signs the verifier returns; what is sealed opens again; a thumbprint text determines its key.
  \<^item> \<^verbatim>\<open>Oidc\<close> (\<^verbatim>\<open>oidc/\<close>): the OpenID Provider. An ID token verifies and reads back
    as exactly the claims of its authorization; UserInfo discloses what the scopes grant. The reader
    of its JSON is the reference.
  \<^item> \<^verbatim>\<open>Replay_Store\<close>, \<^verbatim>\<open>Dpop_Jar\<close> (\<^verbatim>\<open>storage/postgres/postgres.cpp\<close> in part,
    \<^verbatim>\<open>oauth/dpop.cpp, jar.cpp\<close>): the replay tables and the keys of JAR clients as PostgreSQL
    transactions that may fail at every statement, and the two services over them. The contract
    \<open>replay_guard\<close>, that a claim is recorded for as long as it is admitted, gives single use; the DPoP
    and the JAR service meet it.
  \<^item> \<^verbatim>\<open>Sender\<close>, \<^verbatim>\<open>Sender_Proofs\<close> (\<^verbatim>\<open>oauth/http/sender.cpp\<close>): the verifier of
    sender constraints. A DPoP proof is accepted once over every history of verifications; a bound
    token passes the gateway only with a fresh proof by its key for this request; a forwarded
    certificate is accepted again at one instant, the last of its window
    (\<open>mtls_replay_at_boundary\<close>), and at no other.

  \<^item> \<^verbatim>\<open>Decimal\<close>, \<^verbatim>\<open>Audit_Chain\<close> (\<^verbatim>\<open>audit/\<close>): decimal numerals and
    length-prefixed texts, which are injective, and the keyed hash chain built on them: what
    verifies is a prefix of what was appended.
  \<^item> \<^verbatim>\<open>Identity_Core\<close>, \<^verbatim>\<open>Identity_Directory\<close>, \<^verbatim>\<open>Identity_Proofs\<close>
    (\<^verbatim>\<open>identity/core\<close>): identities, link requests, the directory of external identities and
    merges. A link passes through verification; the directory refines a partial function; an
    external identity leaves its owner only by a call that names the owner; a merge moves exactly
    the associations of its source.
  \<^item> \<^verbatim>\<open>Organizations\<close>, \<^verbatim>\<open>Policy\<close> (\<^verbatim>\<open>organization/\<close>, \<^verbatim>\<open>policy/\<close>):
    memberships refine a four-state automaton with a role set; a request is permitted exactly when
    authoritative state and a rule say so, and every failure denies.
  \<^item> \<^verbatim>\<open>Trust\<close> (\<^verbatim>\<open>evidence/\<close>, \<^verbatim>\<open>trust/\<close>): evidence and the trust score, whose word
    arithmetic never wraps and is the weighted mean.
  \<^item> \<^verbatim>\<open>Consent\<close>, \<^verbatim>\<open>Pushed\<close>, \<^verbatim>\<open>Service_Identity\<close> (\<^verbatim>\<open>consent/\<close>,
    \<^verbatim>\<open>oauth/par.cpp\<close>, \<^verbatim>\<open>resource/service.cpp\<close>): the latest grant decides; a pushed request
    is returned once and to its client; provisioning a machine identity is all or nothing.
  \<^item> \<^verbatim>\<open>Http_Message\<close>, \<^verbatim>\<open>Gateway_Parts\<close>, \<^verbatim>\<open>Gateway_Proofs\<close>,
    \<^verbatim>\<open>Gateway\<close> (\<^verbatim>\<open>gateway/gateway.cpp\<close>): messages, routes, endpoints, circuits, the
    signed context and the handler. Routing is by longest prefix, round robin is proportional to the
    weights, an open circuit admits one probe, the signature binds the context, and what reaches an
    upstream was admitted and carries identity headers only the gateway wrote.
  \<^item> \<^verbatim>\<open>Password\<close>, \<^verbatim>\<open>Totp\<close>, \<^verbatim>\<open>Recovery\<close>
    (\<^verbatim>\<open>credentials/credentials.cpp\<close>): password hashing and its encoded form, time-based codes,
    recovery codes. A hashed password verifies; an encoding that is accepted costs bounded work; base
    32 is the grouping of the bits by five; the code search ends and accepts exactly the steps of
    its window after the last accepted one; a recovery code works once.
  \<^item> \<^verbatim>\<open>Local_Provider\<close> (\<^verbatim>\<open>providers/local/local.cpp\<close>): accounts with a
    password and the provider over them: a login succeeds exactly when every factor is proven.
  \<^item> \<^verbatim>\<open>Cbor\<close>, \<^verbatim>\<open>Webauthn\<close>, \<^verbatim>\<open>Passkey\<close>,
    \<^verbatim>\<open>Passkey_Proofs\<close>, \<^verbatim>\<open>Passkey_Roundtrip\<close> (\<^verbatim>\<open>providers/passkey/passkey.cpp\<close>): the CBOR
    reader, which steps over exactly the shortest encodings of bounded items; the WebAuthn checks;
    the credential repository, the registration service and the provider. A sign-in is a signature by
    the registered key over this challenge at this origin; an assertion with a counter is good once;
    a connected passkey sign-in keeps a credential; a ceremony registers one passkey, of the identity that
    started it; what an honest authenticator sends is accepted. Boost.JSON and the signature primitives of
    OpenSSL are the parameter \<open>webauthn_library\<close>.
  \<^item> \<^verbatim>\<open>Profile\<close> (\<^verbatim>\<open>identity/profile\<close>): profiles; every one that the operations keep
    can be stored and restored.
  \<^item> \<^verbatim>\<open>Account_Challenges\<close>, \<^verbatim>\<open>Account\<close>, \<^verbatim>\<open>Account_Proofs\<close>,
    \<^verbatim>\<open>Account_Signup\<close> (\<^verbatim>\<open>account/\<close>): verification challenges and the account service over
    all the repositories it works on. A challenge is compared with a bounded number of guesses and
    handed out once; whatever operation runs, an external identity is linked only to who presents
    the secret of a live challenge, and a second factor is never lost or replaced without an IAL2
    session; a password reset is exact and ends every session of the identity; the numeric code of a
    text message is uniform; an abandoned signup keeps its address.
  \<^item> \<^verbatim>\<open>Authentication\<close>, \<^verbatim>\<open>Authentication_Proofs\<close>,
    \<^verbatim>\<open>Authentication_Handoff\<close> (\<^verbatim>\<open>authentication/service.cpp\<close>): the authentication
    service. A sign-in is what the transaction's provider answered, within the operator's cap, for
    the identity that owns the external account; whatever operation runs, accounts are linked and
    unlinked only in the listed ways; a sign-in handed to another browser arrives as it was, once.
  \<^item> \<^verbatim>\<open>Administration\<close> (\<^verbatim>\<open>administration/\<close>): the validated administrative
    commands hold exactly what was asked for.

  \<^bold>\<open>How they interact.\<close> The authentication service redeems transactions, asks the registered
  provider (\<^verbatim>\<open>Local_Provider\<close> and \<^verbatim>\<open>Passkey\<close> are two), and reads and writes the directory, the
  identities and the profiles; the account service works on the same directory and profiles. The session service is handed a verified authentication and draws
  tokens through \<^verbatim>\<open>Security\<close>; the client manager asks the application repository whether
  an application is active; the authorization, device and token services ask the client manager
  (\<open>requireActive\<close>) on every call; the token service also answers as the delegated authenticator
  of the session service. The gateway authenticates through the session service, asks the access
  controller, which builds its request from the organization, identity and membership repositories,
  and only then forwards; its verifier of sender constraints is the one of \<^verbatim>\<open>Sender\<close>, which the
  token endpoint also uses to bind the tokens it issues.

  \<^bold>\<open>Termination and bounds.\<close> Every definition is total, by structural recursion or by a
  measure, such as the number of endpoints not yet tried in the retry loop of the gateway. Two loops of the source may
  run on: the search of a time-based code over 64-bit steps and the rejection sampling of a numeric
  code; they are partial functions whose value is proved to exist where it does. No fuel is used in
  the model of the program. The reference readers of JSON recurse with a step count, which the
  properties set above the number of members.

  \<^bold>\<open>Not modelled.\<close> The SQL storage but for the replay tables and the JAR keys, the HTTP layers but
  for the verifier of sender constraints, the network providers, configuration and telemetry, the
  token bucket of the gateway (it counts in doubles; the handler takes any limiter) and the JSON
  number overloads. Concurrent transactions are the sequences of their commits, which the primary
  keys of the replay tables enforce.
\<close>

end
